(* ===== verification/Prelude.thy ===== *)
theory Prelude
  imports Main "HOL-Library.AList" "HOL-Library.Word" "HOL-Library.List_Lexorder"
begin

text \<open>
  Shared vocabulary of the development.

  \<^item> Errors: a Python exception is a value of \<open>py_error\<close>, and a call that may raise returns
    \<open>py_error + 'a\<close> (\<open>Inl\<close> is the exception). \<open>bindE\<close> sequences such calls the way statements
    of a Python body do: the first exception ends the body. Exception messages are not modelled.
  \<^item> Dictionaries: a Python dict keeps insertion order, and the code iterates over dicts, so a dict
    is an association list with distinct keys. \<open>dset\<close> is \<open>d[k] = v\<close> (in place for a known key, at
    the end for a new one), \<open>ddel\<close> is \<open>del d[k]\<close> for a present key, \<open>dget\<close> is \<open>d.get(k)\<close>.
  \<^item> Slices: \<open>slice\<close> is \<open>xs[i:j]\<close> for non-negative bounds, clamped as Python clamps it.
  \<^item> Strings: \<open>pystr\<close> is a list of Unicode code points and is used wherever the source encodes a
    string; identifiers that are only compared are Isabelle's \<^typ>\<open>string\<close>.
  \<^item> Machines: the locale \<open>machine\<close> states what an invariant of a component promises, one step at a
    time, and lifts it to every sequence of operations.
\<close>

named_theorems py_dict \<open>facts about Python dictionaries as association lists\<close>
named_theorems py_bytes \<open>facts about byte strings, slices and struct fields\<close>

section \<open>Exceptions as values\<close>

datatype py_error =
    ValueError | TypeError | KeyError | IndexError | RuntimeError | StructError
  | UnicodeEncodeError | UnicodeDecodeError | FileNotFoundError | OSError | JSONDecodeError
  | RecursionError | AttributeError | OverflowError | ZeroDivisionError | IntegrityError

type_synonym 'a result = "py_error + 'a"

fun bindE :: "'e + 'a \<Rightarrow> ('a \<Rightarrow> 'e + 'b) \<Rightarrow> 'e + 'b" where
  "bindE (Inl e) f = Inl e"
| "bindE (Inr x) f = f x"

definition guardE :: "bool \<Rightarrow> 'e \<Rightarrow> 'e + unit" where
  "guardE b e = (if b then Inr () else Inl e)"

lemma bindE_Inr_iff: "bindE m f = Inr y \<longleftrightarrow> (\<exists>x. m = Inr x \<and> f x = Inr y)"
  by (cases m) auto

lemma bindE_Inl_iff: "bindE m f = Inl e \<longleftrightarrow> m = Inl e \<or> (\<exists>x. m = Inr x \<and> f x = Inl e)"
  by (cases m) auto

lemma bindE_assoc: "bindE (bindE m f) g = bindE m (\<lambda>x. bindE (f x) g)"
  by (cases m) auto

lemma bindE_cong [fundef_cong]:
  "m = m' \<Longrightarrow> (\<And>x. m' = Inr x \<Longrightarrow> f x = f' x) \<Longrightarrow> bindE m f = bindE m' f'"
  by (cases m') auto

lemma guardE_simps [simp]:
  "guardE True e = Inr ()" "guardE False e = Inl e"
  "guardE b e = Inr u \<longleftrightarrow> b"
  by (auto simp: guardE_def)

text \<open>A comprehension over a call that may raise.\<close>

fun mapE :: "('a \<Rightarrow> 'e + 'b) \<Rightarrow> 'a list \<Rightarrow> 'e + 'b list" where
  "mapE f [] = Inr []"
| "mapE f (x # xs) = bindE (f x) (\<lambda>y. bindE (mapE f xs) (\<lambda>ys. Inr (y # ys)))"

lemma mapE_Inr: "(\<And>x. x \<in> set xs \<Longrightarrow> f x = Inr (g x)) \<Longrightarrow> mapE f xs = Inr (map g xs)"
  by (induction xs) auto

section \<open>Python dictionaries\<close>

type_synonym ('k, 'v) dict = "('k \<times> 'v) list"

definition dget :: "('k, 'v) dict \<Rightarrow> 'k \<Rightarrow> 'v option" where
  "dget d k = map_of d k"

definition dset :: "'k \<Rightarrow> 'v \<Rightarrow> ('k, 'v) dict \<Rightarrow> ('k, 'v) dict" where
  "dset k v d = AList.update k v d"

definition ddel :: "'k \<Rightarrow> ('k, 'v) dict \<Rightarrow> ('k, 'v) dict" where
  "ddel k d = AList.delete k d"

definition dkeys :: "('k, 'v) dict \<Rightarrow> 'k list" where
  "dkeys d = map fst d"

definition dvalues :: "('k, 'v) dict \<Rightarrow> 'v list" where
  "dvalues d = map snd d"

definition dict_ok :: "('k, 'v) dict \<Rightarrow> bool" where
  "dict_ok d \<longleftrightarrow> distinct (map fst d)"

lemma dget_Nil [simp, py_dict]: "dget [] k = None"
  by (simp add: dget_def)

lemma dget_Cons [py_dict]: "dget ((k, v) # d) k' = (if k = k' then Some v else dget d k')"
  by (auto simp: dget_def)

lemma dget_dset [simp, py_dict]: "dget (dset k v d) k' = (if k' = k then Some v else dget d k')"
  by (simp add: dget_def dset_def AList.update_conv')

lemma dget_ddel [simp, py_dict]: "dget (ddel k d) k' = (if k' = k then None else dget d k')"
  by (simp add: dget_def ddel_def AList.delete_conv')

lemma dict_ok_Nil [simp]: "dict_ok []"
  by (simp add: dict_ok_def)

lemma dict_ok_dset [simp, intro]: "dict_ok d \<Longrightarrow> dict_ok (dset k v d)"
  by (simp add: dict_ok_def dset_def AList.distinct_update)

lemma dict_ok_ddel [simp, intro]: "dict_ok d \<Longrightarrow> dict_ok (ddel k d)"
  by (simp add: dict_ok_def ddel_def AList.distinct_delete)

lemma set_dkeys [simp]: "set (dkeys d) = {k. dget d k \<noteq> None}"
  by (auto simp: dkeys_def dget_def map_of_eq_None_iff)

lemma dget_in_set: "dict_ok d \<Longrightarrow> dget d k = Some v \<longleftrightarrow> (k, v) \<in> set d"
  by (simp add: dict_ok_def dget_def)

lemma dget_SomeD: "dget d k = Some v \<Longrightarrow> (k, v) \<in> set d"
  by (auto simp: dget_def dest: map_of_SomeD)

lemma set_dvalues: "dict_ok d \<Longrightarrow> set (dvalues d) = {v. \<exists>k. dget d k = Some v}"
  by (force simp: dvalues_def dget_in_set)

lemma dset_Nil [simp]: "dset k v [] = [(k, v)]"
  by (simp add: dset_def)

lemma dset_Cons: "dset k v (p # d) = (if fst p = k then (k, v) # d else p # dset k v d)"
  by (simp add: dset_def)

lemma ddel_Nil [simp]: "ddel k [] = []"
  by (simp add: ddel_def)

lemma ddel_Cons: "ddel k (p # d) = (if fst p = k then ddel k d else p # ddel k d)"
  by (simp add: ddel_def)

lemma dset_new: "dget d k = None \<Longrightarrow> dset k v d = d @ [(k, v)]"
  by (induction d) (auto simp: dset_Cons dget_Cons)

lemma length_ddel_le: "length (ddel k d) \<le> length d"
  by (simp add: ddel_def AList.length_delete_le)

lemma dget_map: "dget (map (\<lambda>(k, v). (k, f k v)) d) k = map_option (f k) (dget d k)"
  by (induction d) (auto simp: dget_Cons)

text \<open>How many values of a dictionary have a property, and what an assignment does to that number.\<close>

definition dcount :: "('v \<Rightarrow> bool) \<Rightarrow> ('k, 'v) dict \<Rightarrow> nat" where
  "dcount P d = length (filter P (dvalues d))"

lemma dcount_Nil [simp]: "dcount P [] = 0"
  by (simp add: dcount_def dvalues_def)

lemma dcount_Cons [simp]: "dcount P (x # d) = of_bool (P (snd x)) + dcount P d"
  by (simp add: dcount_def dvalues_def)

lemma dcount_dset:
  "dcount P (dset k v d) + (case dget d k of Some w \<Rightarrow> of_bool (P w) | None \<Rightarrow> 0) = dcount P d + of_bool (P v)"
proof (induction d)
  case (Cons x d)
  then show ?case by (cases x) (auto simp: dset_Cons dget_Cons)
qed simp

lemma dcount_zero: "dict_ok d \<Longrightarrow> (\<And>k v. dget d k = Some v \<Longrightarrow> \<not> P v) \<Longrightarrow> dcount P d = 0"
  by (auto simp: dcount_def set_dvalues filter_empty_conv)

text \<open>The sum of a measure over the values of a dictionary.\<close>

definition dsum :: "('v \<Rightarrow> int) \<Rightarrow> ('k, 'v) dict \<Rightarrow> int" where
  "dsum f d = sum_list (map f (dvalues d))"

lemma dsum_Nil [simp]: "dsum f [] = 0"
  by (simp add: dsum_def dvalues_def)

lemma dsum_Cons [simp]: "dsum f (x # d) = f (snd x) + dsum f d"
  by (simp add: dsum_def dvalues_def)

lemma dsum_dset: "dsum f (dset k v d) = dsum f d + f v - (case dget d k of Some w \<Rightarrow> f w | None \<Rightarrow> 0)"
proof (induction d)
  case (Cons x d)
  then show ?case by (cases x) (auto simp: dset_Cons dget_Cons)
qed simp

lemma dsum_ddel: "dict_ok d \<Longrightarrow> dsum f (ddel k d) = dsum f d - (case dget d k of Some w \<Rightarrow> f w | None \<Rightarrow> 0)"
proof (induction d)
  case (Cons x d)
  obtain k' v where x: "x = (k', v)" by fastforce
  have "dict_ok d" "dget d k' = None" using Cons.prems by (auto simp: x dict_ok_def dget_def map_of_eq_None_iff)
  with Cons.IH show ?case by (auto simp: x ddel_Cons dget_Cons)
qed simp

lemma dsum_nonneg: "(\<And>k v. (k, v) \<in> set d \<Longrightarrow> 0 \<le> f v) \<Longrightarrow> 0 \<le> dsum f d"
  by (induction d) force+

lemma dsum_member: "(\<And>k v. (k, v) \<in> set d \<Longrightarrow> 0 \<le> f v) \<Longrightarrow> dget d k = Some w \<Longrightarrow> f w \<le> dsum f d"
proof (induction d)
  case (Cons x d)
  have "0 \<le> dsum f d" by (rule dsum_nonneg) (use Cons.prems(1) in auto)
  moreover have "0 \<le> f (snd x)" using Cons.prems(1) [of "fst x" "snd x"] by simp
  ultimately show ?case using Cons by (cases x) (force simp: dget_Cons split: if_splits)
qed simp

text \<open>Keys of a dictionary are in one order; equal contents need not be equal lists.\<close>

definition same_dict :: "('k, 'v) dict \<Rightarrow> ('k, 'v) dict \<Rightarrow> bool" where
  "same_dict d e \<longleftrightarrow> (\<forall>k. dget d k = dget e k)"

section \<open>Slices of lists\<close>

definition slice :: "'a list \<Rightarrow> nat \<Rightarrow> nat \<Rightarrow> 'a list" where
  "slice xs i j = take (j - i) (drop i xs)"

lemma length_slice [simp, py_bytes]: "length (slice xs i j) = min (j - i) (length xs - i)"
  by (simp add: slice_def)

lemma slice_all [simp]: "slice xs 0 (length xs) = xs"
  by (simp add: slice_def)

section \<open>Sorting by a comparison\<close>

text \<open>
  Python's stable sort by a comparison \<open>lt\<close>. Where the comparison is a strict weak order its first
  element is one that nothing is below.
\<close>

fun insert_lt :: "('a \<Rightarrow> 'a \<Rightarrow> bool) \<Rightarrow> 'a \<Rightarrow> 'a list \<Rightarrow> 'a list" where
  "insert_lt lt x [] = [x]"
| "insert_lt lt x (y # ys) = (if lt y x then y # insert_lt lt x ys else x # y # ys)"

definition sort_lt :: "('a \<Rightarrow> 'a \<Rightarrow> bool) \<Rightarrow> 'a list \<Rightarrow> 'a list" where
  "sort_lt lt xs = foldr (insert_lt lt) xs []"

lemma set_insert_lt [simp]: "set (insert_lt lt x xs) = insert x (set xs)"
  by (induction xs) auto

lemma set_sort_lt [simp]: "set (sort_lt lt xs) = set xs"
  by (induction xs) (simp_all add: sort_lt_def)

lemma sort_lt_eq_Nil [simp]: "sort_lt lt xs = [] \<longleftrightarrow> xs = []"
  by (metis set_empty set_sort_lt)

lemma sort_lt_hd:
  assumes "xs \<noteq> []" "\<And>x y. x \<in> set xs \<Longrightarrow> y \<in> set xs \<Longrightarrow> lt x y \<Longrightarrow> \<not> lt y x"
    and "\<And>x y z. x \<in> set xs \<Longrightarrow> y \<in> set xs \<Longrightarrow> z \<in> set xs \<Longrightarrow> \<not> lt x y \<Longrightarrow> \<not> lt y z \<Longrightarrow> \<not> lt x z"
  shows "hd (sort_lt lt xs) \<in> set xs \<and> (\<forall>x\<in>set xs. \<not> lt x (hd (sort_lt lt xs)))"
  using assms
proof (induction xs)
  case (Cons a xs)
  have irr: "\<not> lt a a" using Cons.prems(2) [of a a] by auto
  show ?case
  proof (cases "xs = []")
    case True
    then show ?thesis using irr by (simp add: sort_lt_def)
  next
    case False
    have "hd (sort_lt lt xs) \<in> set xs \<and> (\<forall>x\<in>set xs. \<not> lt x (hd (sort_lt lt xs)))"
    proof (rule Cons.IH [OF False])
      show "\<not> lt y x" if "x \<in> set xs" "y \<in> set xs" "lt x y" for x y
        using Cons.prems(2) [of x y] that by simp
      show "\<not> lt x z" if "x \<in> set xs" "y \<in> set xs" "z \<in> set xs" "\<not> lt x y" "\<not> lt y z" for x y z
        using Cons.prems(3) [of x y z] that by simp
    qed
    moreover obtain y ys where ys: "sort_lt lt xs = y # ys" using False by (cases "sort_lt lt xs") auto
    ultimately have y: "y \<in> set xs" "\<And>x. x \<in> set xs \<Longrightarrow> \<not> lt x y" by auto
    have srt: "sort_lt lt (a # xs) = insert_lt lt a (y # ys)" using ys by (simp add: sort_lt_def)
    show ?thesis
    proof (cases "lt y a")
      case True
      then show ?thesis using y srt Cons.prems(2) [of y a] by auto
    next
      case False
      then have "\<not> lt x a" if "x \<in> set xs" for x
        using Cons.prems(3) [of x y a] y that by simp
      then show ?thesis using False srt irr by simp
    qed
  qed
next
  case Nil
  then show ?case by blast
qed

section \<open>The first element that nothing is below\<close>

text \<open>
  Python's \<open>min\<close> and \<open>max\<close> with a key walk the list once and replace the candidate only by an element
  that is strictly better, so among equal ones the first wins.
\<close>

fun best_from :: "('a \<Rightarrow> 'a \<Rightarrow> bool) \<Rightarrow> 'a \<Rightarrow> 'a list \<Rightarrow> 'a" where
  "best_from better x [] = x"
| "best_from better x (y # ys) = best_from better (if better y x then y else x) ys"

definition first_best :: "('a \<Rightarrow> 'a \<Rightarrow> bool) \<Rightarrow> 'a list \<Rightarrow> 'a option" where
  "first_best better xs = (case xs of [] \<Rightarrow> None | x # ys \<Rightarrow> Some (best_from better x ys))"

lemma best_from_in: "best_from better x ys \<in> insert x (set ys)"
proof (induction ys arbitrary: x)
  case (Cons y ys)
  from Cons.IH [of "if better y x then y else x"] show ?case by (auto split: if_splits)
qed simp

lemma first_best_in: "first_best better xs = Some x \<Longrightarrow> x \<in> set xs"
  using best_from_in by (cases xs) (fastforce simp: first_best_def)+

lemma first_best_None [simp]: "first_best better xs = None \<longleftrightarrow> xs = []"
  by (cases xs) (simp_all add: first_best_def)

lemma best_from_best:
  assumes "\<And>u v. better u v \<Longrightarrow> \<not> better v u" "\<And>u v w. v \<in> insert x (set ys) \<Longrightarrow> \<not> better u v \<Longrightarrow> \<not> better v w \<Longrightarrow> \<not> better u w"
  shows "\<forall>y\<in>insert x (set ys). \<not> better y (best_from better x ys)"
  using assms(2)
proof (induction ys arbitrary: x)
  case Nil
  have "\<not> better x x" using assms(1) [of x x] by blast
  then show ?case by simp
next
  case (Cons y ys)
  let ?z = "if better y x then y else x"
  have IH: "\<forall>u\<in>insert ?z (set ys). \<not> better u (best_from better ?z ys)"
  proof (rule Cons.IH)
    fix u v w assume v: "v \<in> insert ?z (set ys)" and "\<not> better u v" "\<not> better v w"
    have "v \<in> insert x (set (y # ys))" using v by (auto split: if_splits)
    then show "\<not> better u w" using Cons.prems \<open>\<not> better u v\<close> \<open>\<not> better v w\<close> by blast
  qed
  have "\<not> better x ?z" "\<not> better y ?z" using assms(1) [of y x] assms(1) [of y y] assms(1) [of x x] by auto
  moreover have "?z \<in> insert x (set (y # ys))" "\<not> better ?z (best_from better ?z ys)" using IH by auto
  ultimately have "\<not> better x (best_from better ?z ys)" "\<not> better y (best_from better ?z ys)"
    using Cons.prems [of ?z x "best_from better ?z ys"] Cons.prems [of ?z y "best_from better ?z ys"] by blast+
  with IH show ?case by simp
qed

lemma first_best_best:
  assumes "first_best better xs = Some x" "\<And>u v. better u v \<Longrightarrow> \<not> better v u"
    and "\<And>u v w. v \<in> set xs \<Longrightarrow> \<not> better u v \<Longrightarrow> \<not> better v w \<Longrightarrow> \<not> better u w"
  shows "\<forall>y\<in>set xs. \<not> better y x"
proof (cases xs)
  case (Cons a ys)
  have "\<forall>y\<in>insert a (set ys). \<not> better y (best_from better a ys)"
  proof (rule best_from_best)
    show "\<not> better v u" if "better u v" for u v using assms(2) that .
    show "\<not> better u w" if "v \<in> insert a (set ys)" "\<not> better u v" "\<not> better v w" for u v w
      using assms(3) [of v u w] that Cons by simp
  qed
  then show ?thesis using assms(1) Cons by (simp add: first_best_def)
qed simp

text \<open>The last \<open>n\<close> elements, as \<open>xs[-n:]\<close> gives them; \<open>xs[-0:]\<close> is the whole list.\<close>

definition last_n :: "nat \<Rightarrow> 'a list \<Rightarrow> 'a list" where
  "last_n n xs = (if n = 0 then xs else drop (length xs - n) xs)"

lemma length_last_n: "0 < n \<Longrightarrow> length (last_n n xs) = min n (length xs)"
  by (simp add: last_n_def)

lemma set_last_n: "set (last_n n xs) \<subseteq> set xs"
  by (auto simp: last_n_def dest: in_set_dropD)

text \<open>\<open>sep.join(xs)\<close>.\<close>

fun join_with :: "string \<Rightarrow> string list \<Rightarrow> string" where
  "join_with sep [] = []"
| "join_with sep [x] = x"
| "join_with sep (x # xs) = x @ sep @ join_with sep xs"

text \<open>\<open>datetime\<close> objects count microseconds.\<close>

type_synonym datetime = int

section \<open>Components as machines\<close>

text \<open>
  A component is a step function over its operations and an invariant that every operation keeps.
  What a client needs is that the invariant survives any sequence of calls.
\<close>

locale machine =
  fixes step :: "'op \<Rightarrow> 's \<Rightarrow> 's"
    and inv :: "'s \<Rightarrow> bool"
  assumes step_inv: "inv s \<Longrightarrow> inv (step x s)"
begin

lemma run_inv: "inv s \<Longrightarrow> inv (fold step xs s)"
  by (induction xs arbitrary: s) (auto intro: step_inv)

end

text \<open>
  A machine whose invariant needs a discipline of its callers: an operation keeps the invariant where its
  guard holds. \<open>guarded\<close> says of a run that every operation is called where its guard holds.
\<close>

fun guarded :: "('op \<Rightarrow> 's \<Rightarrow> bool) \<Rightarrow> ('op \<Rightarrow> 's \<Rightarrow> 's) \<Rightarrow> 'op list \<Rightarrow> 's \<Rightarrow> bool" where
  "guarded g step [] s = True"
| "guarded g step (x # xs) s = (g x s \<and> guarded g step xs (step x s))"

locale guarded_machine =
  fixes step :: "'op \<Rightarrow> 's \<Rightarrow> 's"
    and inv :: "'s \<Rightarrow> bool"
    and allowed :: "'op \<Rightarrow> 's \<Rightarrow> bool"
  assumes step_inv: "inv s \<Longrightarrow> allowed x s \<Longrightarrow> inv (step x s)"
begin

lemma run_inv: "inv s \<Longrightarrow> guarded allowed step xs s \<Longrightarrow> inv (fold step xs s)"
  by (induction xs arbitrary: s) (auto intro: step_inv)

end

text \<open>
  A machine that refines an abstract one: while operations are enabled in the abstract state, a step of
  the detailed machine is seen through the abstraction as the abstract step.
\<close>

locale refinement =
  fixes cstep :: "'op \<Rightarrow> 's \<Rightarrow> 's"
    and astep :: "'op \<Rightarrow> 'a \<Rightarrow> 'a"
    and abst :: "'s \<Rightarrow> 'a"
    and enabled :: "'op \<Rightarrow> 'a \<Rightarrow> bool"
    and inv :: "'s \<Rightarrow> bool"
  assumes step_inv: "inv s \<Longrightarrow> enabled x (abst s) \<Longrightarrow> inv (cstep x s)"
    and step_refines: "inv s \<Longrightarrow> enabled x (abst s) \<Longrightarrow> abst (cstep x s) = astep x (abst s)"
begin

lemma run_refines:
  "inv s \<Longrightarrow> (\<And>i. i < length xs \<Longrightarrow> enabled (xs ! i) (fold astep (take i xs) (abst s))) \<Longrightarrow>
   inv (fold cstep xs s) \<and> abst (fold cstep xs s) = fold astep xs (abst s)"
proof (induction xs arbitrary: s)
  case (Cons x xs)
  have en: "enabled x (abst s)" using Cons.prems(2) [of 0] by simp
  have "enabled (xs ! i) (fold astep (take i xs) (abst (cstep x s)))" if "i < length xs" for i
    using Cons.prems(2) [of "Suc i"] that step_refines [OF Cons.prems(1) en] by simp
  from Cons.IH [OF step_inv [OF Cons.prems(1) en] this] show ?case
    by (simp add: step_refines [OF Cons.prems(1) en])
qed simp

end

text \<open>
  A machine with a latch: a condition that, once true, every operation keeps true.
\<close>

locale latching_machine = machine +
  fixes latched :: "'s \<Rightarrow> bool"
  assumes step_latched: "inv s \<Longrightarrow> latched s \<Longrightarrow> latched (step x s)"
begin

lemma run_latched: "inv s \<Longrightarrow> latched s \<Longrightarrow> latched (fold step xs s)"
  by (induction xs arbitrary: s) (auto intro: step_latched step_inv)

lemma run_latched_suffix:
  "inv s \<Longrightarrow> latched (fold step xs s) \<Longrightarrow> latched (fold step (xs @ ys) s)"
  by (simp add: run_latched run_inv)

end

end
