(* ===== verification/Bytes.thy ===== *)
theory Bytes
  imports Prelude
begin

text \<open>
  Byte strings and what the sources use of Python's \<^verbatim>\<open>struct\<close>, \<^verbatim>\<open>bytes.hex\<close> /
  \<^verbatim>\<open>bytes.fromhex\<close> and UTF-8 codecs, with the exceptions they raise.
\<close>

type_synonym byte = "8 word"
type_synonym bytes = "byte list"
type_synonym pystr = "nat list"

section \<open>Big-endian integer fields\<close>

text \<open>
  \<open>be_enc k n\<close> is the \<open>k\<close>-byte big-endian form of \<open>n\<close>; \<open>pack_uint k n\<close> is
  \<^verbatim>\<open>struct.pack(">B" | ">H" | ">I" | ">Q", n)\<close> for \<open>k = 1, 2, 4, 8\<close>, which raises
  \<^verbatim>\<open>struct.error\<close> outside \<open>0 \<le> n < 256 ^ k\<close>; \<open>unpack_uint k data off\<close> is
  \<^verbatim>\<open>struct.unpack_from(..., data, off)[0]\<close>, which raises it when fewer than \<open>k\<close> bytes are left.
\<close>

primrec be_enc :: "nat \<Rightarrow> nat \<Rightarrow> bytes" where
  "be_enc 0 n = []"
| "be_enc (Suc k) n = be_enc k (n div 256) @ [word_of_nat n]"

definition be_dec :: "bytes \<Rightarrow> nat" where
  "be_dec bs = foldl (\<lambda>a b. a * 256 + unat b) 0 bs"

definition pack_uint :: "nat \<Rightarrow> int \<Rightarrow> bytes result" where
  "pack_uint k n = (if 0 \<le> n \<and> n < 256 ^ k then Inr (be_enc k (nat n)) else Inl StructError)"

definition unpack_uint :: "nat \<Rightarrow> bytes \<Rightarrow> nat \<Rightarrow> nat result" where
  "unpack_uint k data off =
     (if off + k \<le> length data then Inr (be_dec (slice data off (off + k))) else Inl StructError)"

text \<open>
  \<open>fit n bs\<close> is the field \<^verbatim>\<open>ns\<close> of a struct format: the bytes cut or zero-padded to \<open>n\<close>.
\<close>

definition fit :: "nat \<Rightarrow> bytes \<Rightarrow> bytes" where
  "fit n bs = take n bs @ replicate (n - length bs) 0"

lemma length_be_enc [simp, py_bytes]: "length (be_enc k n) = k"
  by (induction k arbitrary: n) auto

lemma be_enc_numeral:
  "be_enc (numeral k) n = be_enc (pred_numeral k) (n div 256) @ [word_of_nat n]"
  unfolding numeral_eq_Suc [of k] by (rule be_enc.simps)

lemma be_dec_append_one [simp]: "be_dec (bs @ [b]) = be_dec bs * 256 + unat b"
  by (simp add: be_dec_def)

lemma be_dec_Nil [simp]: "be_dec [] = 0"
  by (simp add: be_dec_def)

lemma be_dec_be_enc: "be_dec (be_enc k n) = n mod 256 ^ k"
proof (induction k arbitrary: n)
  case 0
  show ?case by simp
next
  case (Suc k)
  have "be_dec (be_enc (Suc k) n) = (n div 256 mod 256 ^ k) * 256 + n mod 256"
    by (simp add: Suc take_bit_eq_mod unsigned_of_nat)
  also have "\<dots> = n mod (256 * 256 ^ k)"
    by (simp add: mod_mult2_eq)
  finally show ?case by simp
qed

lemma be_dec_less: "be_dec bs < 256 ^ length bs"
proof (induction bs rule: rev_induct)
  case (snoc b bs)
  have "unat b < 256" using unsigned_less [of b] by simp
  with snoc show ?case by simp
qed simp

lemma be_enc_be_dec: "be_enc (length bs) (be_dec bs) = bs"
proof (induction bs rule: rev_induct)
  case (snoc b bs)
  have *: "unat b < 256" using unsigned_less [of b] by simp
  then have "(be_dec bs * 256 + unat b) div 256 = be_dec bs" by simp
  moreover have "(word_of_nat (be_dec bs * 256 + unat b) :: byte) = b"
  proof -
    have "(word_of_nat (be_dec bs * 256 + unat b) :: byte) = word_of_nat (be_dec bs) * word_of_nat 256 + b"
      by simp
    moreover have "(word_of_nat 256 :: byte) = 0" by simp
    ultimately show ?thesis by (metis add_0 mult_zero_right)
  qed
  ultimately show ?case using snoc by simp
qed simp

lemma length_fit [simp, py_bytes]: "length (fit n bs) = n"
  by (simp add: fit_def)

lemma fit_exact [simp, py_bytes]: "length bs = n \<Longrightarrow> fit n bs = bs"
  by (simp add: fit_def)

lemma pack_uint_Inr:
  "pack_uint k n = Inr bs \<longleftrightarrow> 0 \<le> n \<and> n < 256 ^ k \<and> bs = be_enc k (nat n)"
  by (auto simp: pack_uint_def)

lemma pack_uint_ok [simp]: "n < 256 ^ k \<Longrightarrow> pack_uint k (int n) = Inr (be_enc k n)"
  by (simp add: pack_uint_def)

text \<open>
  A reader positioned after a prefix sees the field that was written there. The rules below read a
  concatenation of fields from the left, with the offset written as the length of what precedes.
\<close>

lemma slice_after: "n = length xs \<Longrightarrow> m = length xs + length ys \<Longrightarrow> slice (xs @ ys @ zs) n m = ys"
  by (simp add: slice_def)

lemma slice_after_end: "n = length xs \<Longrightarrow> m = length xs + length ys \<Longrightarrow> slice (xs @ ys) n m = ys"
  by (simp add: slice_def)

lemma unpack_uint_after:
  assumes "off = length xs" and "n < 256 ^ k"
  shows "unpack_uint k (xs @ be_enc k n @ ys) off = Inr n"
proof -
  have "slice (xs @ be_enc k n @ ys) off (off + k) = be_enc k n"
    by (rule slice_after) (simp_all add: assms)
  then show ?thesis
    using assms by (simp add: unpack_uint_def be_dec_be_enc)
qed

lemma unpack_uint_short: "length data < off + k \<Longrightarrow> unpack_uint k data off = Inl StructError"
  by (simp add: unpack_uint_def)

lemma unpack_uint_range:
  assumes "unpack_uint k data off = Inr n"
  shows "n < 256 ^ k" and "off + k \<le> length data"
proof -
  from assms have len: "off + k \<le> length data" and n: "n = be_dec (slice data off (off + k))"
    by (auto simp: unpack_uint_def split: if_splits)
  have "length (slice data off (off + k)) = k" using len by simp
  with be_dec_less [of "slice data off (off + k)"] show "n < 256 ^ k" by (simp add: n)
  show "off + k \<le> length data" by (fact len)
qed

section \<open>Hexadecimal text\<close>

text \<open>
  \<open>bytes.hex()\<close> writes two lower-case digits per byte; \<open>bytes.fromhex\<close> accepts both cases, skips
  ASCII white space between bytes, and raises ValueError on anything else.
\<close>

definition hex_digit :: "nat \<Rightarrow> nat" where
  "hex_digit n = (if n < 10 then 48 + n else 87 + n)"

fun to_hex :: "bytes \<Rightarrow> pystr" where
  "to_hex [] = []"
| "to_hex (b # bs) = hex_digit (unat b div 16) # hex_digit (unat b mod 16) # to_hex bs"

definition hex_val :: "nat \<Rightarrow> nat option" where
  "hex_val c =
     (if 48 \<le> c \<and> c \<le> 57 then Some (c - 48)
      else if 97 \<le> c \<and> c \<le> 102 then Some (c - 87)
      else if 65 \<le> c \<and> c \<le> 70 then Some (c - 55) else None)"

definition ascii_space :: "nat \<Rightarrow> bool" where
  "ascii_space c \<longleftrightarrow> c = 32 \<or> (9 \<le> c \<and> c \<le> 13)"

fun from_hex :: "pystr \<Rightarrow> bytes result" where
  "from_hex [] = Inr []"
| "from_hex [c] = (if ascii_space c then Inr [] else Inl ValueError)"
| "from_hex (c # d # cs) =
     (if ascii_space c then from_hex (d # cs)
      else case (hex_val c, hex_val d) of
             (Some x, Some y) \<Rightarrow> bindE (from_hex cs) (\<lambda>bs. Inr (word_of_nat (16 * x + y) # bs))
           | _ \<Rightarrow> Inl ValueError)"

lemma hex_val_digit: "n < 16 \<Longrightarrow> hex_val (hex_digit n) = Some n"
  by (auto simp: hex_val_def hex_digit_def)

lemma hex_digit_not_space: "n < 16 \<Longrightarrow> \<not> ascii_space (hex_digit n)"
  by (auto simp: hex_digit_def ascii_space_def)

lemma from_hex_to_hex [simp]: "from_hex (to_hex bs) = Inr bs"
proof (induction bs)
  case (Cons b bs)
  have b: "unat b < 256" using unsigned_less [of b] by simp
  then have *: "unat b div 16 < 16" "unat b mod 16 < 16" by auto
  have "16 * (unat b div 16) + unat b mod 16 = unat b" by simp
  with * Cons show ?case
    by (simp add: hex_val_digit hex_digit_not_space del: mult_div_mod_eq)
qed simp

lemma length_to_hex [simp]: "length (to_hex bs) = 2 * length bs"
  by (induction bs) auto

lemma to_hex_eq_Nil [simp]: "to_hex bs = [] \<longleftrightarrow> bs = []"
  by (cases bs) auto

lemma to_hex_inj: "to_hex xs = to_hex ys \<Longrightarrow> xs = ys"
  using from_hex_to_hex [of xs] from_hex_to_hex [of ys] by (metis sum.inject(2))

section \<open>UTF-8\<close>

text \<open>
  The strict UTF-8 codec of \<open>str.encode\<close> and \<open>bytes.decode\<close>. A code point is at most 10FFFF
  (hexadecimal); the surrogates D800 to DFFF cannot be encoded. The decoder rejects truncated,
  overlong, surrogate and out-of-range sequences.
\<close>

definition scalar :: "nat \<Rightarrow> bool" where
  "scalar c \<longleftrightarrow> c < 1114112 \<and> \<not> (55296 \<le> c \<and> c < 57344)"

definition utf8_char :: "nat \<Rightarrow> nat list" where
  "utf8_char c =
     (if c < 128 then [c]
      else if c < 2048 then [192 + c div 64, 128 + c mod 64]
      else if c < 65536 then [224 + c div 4096, 128 + c div 64 mod 64, 128 + c mod 64]
      else [240 + c div 262144, 128 + c div 4096 mod 64, 128 + c div 64 mod 64, 128 + c mod 64])"

fun utf8_encode :: "pystr \<Rightarrow> bytes result" where
  "utf8_encode [] = Inr []"
| "utf8_encode (c # cs) =
     (if scalar c then bindE (utf8_encode cs) (\<lambda>bs. Inr (map word_of_nat (utf8_char c) @ bs))
      else Inl UnicodeEncodeError)"

definition cont :: "nat \<Rightarrow> bool" where
  "cont b \<longleftrightarrow> 128 \<le> b \<and> b < 192"

fun utf8_decode_nats :: "nat list \<Rightarrow> pystr result" where
  "utf8_decode_nats [] = Inr []"
| "utf8_decode_nats (a # bs) =
     (if a < 128 then bindE (utf8_decode_nats bs) (\<lambda>cs. Inr (a # cs))
      else case bs of
        [] \<Rightarrow> Inl UnicodeDecodeError
      | b # bs1 \<Rightarrow>
          if 192 \<le> a \<and> a < 224 then
            (let c = (a - 192) * 64 + (b - 128) in
             if cont b \<and> 128 \<le> c then bindE (utf8_decode_nats bs1) (\<lambda>cs. Inr (c # cs))
             else Inl UnicodeDecodeError)
          else case bs1 of
            [] \<Rightarrow> Inl UnicodeDecodeError
          | b2 # bs2 \<Rightarrow>
              if 224 \<le> a \<and> a < 240 then
                (let c = (a - 224) * 4096 + (b - 128) * 64 + (b2 - 128) in
                 if cont b \<and> cont b2 \<and> 2048 \<le> c \<and> scalar c
                 then bindE (utf8_decode_nats bs2) (\<lambda>cs. Inr (c # cs))
                 else Inl UnicodeDecodeError)
              else case bs2 of
                [] \<Rightarrow> Inl UnicodeDecodeError
              | b3 # bs3 \<Rightarrow>
                  (let c = (a - 240) * 262144 + (b - 128) * 4096 + (b2 - 128) * 64 + (b3 - 128) in
                   if 240 \<le> a \<and> a < 248 \<and> cont b \<and> cont b2 \<and> cont b3 \<and> 65536 \<le> c \<and> scalar c
                   then bindE (utf8_decode_nats bs3) (\<lambda>cs. Inr (c # cs))
                   else Inl UnicodeDecodeError))"

definition utf8_decode :: "bytes \<Rightarrow> pystr result" where
  "utf8_decode bs = utf8_decode_nats (map unat bs)"

lemma utf8_char_byte: "scalar c \<Longrightarrow> x \<in> set (utf8_char c) \<Longrightarrow> x < 256"
  by (auto simp: utf8_char_def scalar_def split: if_splits)

lemma base64_digits:
  "(c::nat) = c div 4096 * 4096 + c div 64 mod 64 * 64 + c mod 64"
  "(c::nat) = c div 262144 * 262144 + c div 4096 mod 64 * 4096 + c div 64 mod 64 * 64 + c mod 64"
proof -
  have a: "c = c div 64 * 64 + c mod 64" by simp
  have b: "c div 64 = c div 4096 * 64 + c div 64 mod 64"
    using div_mult_mod_eq [of "c div 64" 64] by (simp flip: div_mult2_eq)
  have d: "c div 4096 = c div 262144 * 64 + c div 4096 mod 64"
    using div_mult_mod_eq [of "c div 4096" 64] by (simp flip: div_mult2_eq)
  from a b show "c = c div 4096 * 4096 + c div 64 mod 64 * 64 + c mod 64" by linarith
  with d show "c = c div 262144 * 262144 + c div 4096 mod 64 * 4096 + c div 64 mod 64 * 64 + c mod 64"
    by linarith
qed

lemma utf8_decode_char:
  assumes "scalar c"
  shows "utf8_decode_nats (utf8_char c @ bs) = bindE (utf8_decode_nats bs) (\<lambda>cs. Inr (c # cs))"
proof -
  consider "c < 128" | "128 \<le> c" "c < 2048" | "2048 \<le> c" "c < 65536" | "65536 \<le> c" by linarith
  then show ?thesis
  proof cases
    case 2
    define q r where "q = c div 64" and "r = c mod 64"
    with 2 have *: "q < 32" "2 \<le> q" "r < 64" "c = q * 64 + r" by auto
    then have "utf8_char c = [192 + q, 128 + r]" using 2 by (simp add: utf8_char_def)
    with * show ?thesis by (simp add: cont_def Let_def)
  next
    case 3
    define p q r where "p = c div 4096" and "q = c div 64 mod 64" and "r = c mod 64"
    with 3 have *: "p < 16" "q < 64" "r < 64" by auto
    have c: "c = p * 4096 + q * 64 + r" unfolding p_def q_def r_def by (rule base64_digits(1))
    have "utf8_char c = [224 + p, 128 + q, 128 + r]"
      using 3 by (simp add: utf8_char_def p_def q_def r_def)
    with * 3 assms show ?thesis by (simp add: cont_def Let_def flip: c)
  next
    case 4
    define o' p q r where "o' = c div 262144" and "p = c div 4096 mod 64"
      and "q = c div 64 mod 64" and "r = c mod 64"
    have c: "c = o' * 262144 + p * 4096 + q * 64 + r"
      unfolding o'_def p_def q_def r_def by (rule base64_digits(2))
    have *: "p < 64" "q < 64" "r < 64" "o' < 8"
      using assms by (auto simp: o'_def p_def q_def r_def scalar_def)
    have "utf8_char c = [240 + o', 128 + p, 128 + q, 128 + r]"
      using 4 by (simp add: utf8_char_def o'_def p_def q_def r_def)
    with * 4 assms show ?thesis by (simp add: cont_def Let_def flip: c)
  qed (simp add: utf8_char_def)
qed

lemma map_unat_word_of_nat: "(\<And>x. x \<in> set xs \<Longrightarrow> x < 256) \<Longrightarrow> map (unat \<circ> (word_of_nat :: nat \<Rightarrow> byte)) xs = xs"
  by (induction xs) (auto simp: unsigned_of_nat take_bit_eq_mod)

lemma utf8_decode_encode: "utf8_encode s = Inr bs \<Longrightarrow> utf8_decode bs = Inr s"
proof (induction s arbitrary: bs)
  case (Cons c s)
  then obtain bs' where sc: "scalar c" and e: "utf8_encode s = Inr bs'"
    and bs: "bs = map word_of_nat (utf8_char c) @ bs'"
    by (auto simp: bindE_Inr_iff split: if_splits)
  have "map unat bs = utf8_char c @ map unat bs'"
    using sc by (simp add: bs map_unat_word_of_nat utf8_char_byte)
  with Cons.IH [OF e] sc show ?case
    by (simp add: utf8_decode_def utf8_decode_char)
qed (simp add: utf8_decode_def)

lemma utf8_encode_total: "(\<forall>c \<in> set s. scalar c) \<longleftrightarrow> (\<exists>bs. utf8_encode s = Inr bs)"
proof (induction s)
  case (Cons c s)
  then show ?case by (auto simp: bindE_Inr_iff)
qed simp

end
