(* ===== verification/Wire_Protocol.thy ===== *)
theory Wire_Protocol
  imports Bytes
begin

text \<open>
  The binary federation protocol of \<^verbatim>\<open>kernel/federation/protocol.py\<close>: message types and error
  codes, the 24-byte header, the message frame, the five payload formats and the message builder.
  Every \<open>pack\<close> and \<open>unpack\<close> returns a result, so a field out of range, a short buffer, an unknown
  code, bad hex or bad UTF-8 is a branch of the model. \<open>time.time() * 1_000_000\<close> is the argument
  \<open>now\<close>; SHA3-256 and the native signing function are arguments (\<open>sha3\<close>, \<open>rs_sign\<close>).
\<close>

section \<open>Message types and error codes\<close>

datatype message_type =
    HELLO | HELLO_ACK | KEY_EXCHANGE | KEY_EXCHANGE_ACK
  | PING | PONG
  | ATTESTATION_REQUEST | ATTESTATION_RESPONSE
  | PROPOSAL | VOTE | VOTE_ACK | COMMIT | FINALIZE
  | STATE_REQUEST | STATE_RESPONSE | STATE_DELTA
  | ERROR

definition message_types :: "(message_type \<times> nat) list" where
  "message_types =
     [(HELLO, 1), (HELLO_ACK, 2), (KEY_EXCHANGE, 3), (KEY_EXCHANGE_ACK, 4),
      (PING, 16), (PONG, 17), (ATTESTATION_REQUEST, 32), (ATTESTATION_RESPONSE, 33),
      (PROPOSAL, 48), (VOTE, 49), (VOTE_ACK, 50), (COMMIT, 51), (FINALIZE, 52),
      (STATE_REQUEST, 64), (STATE_RESPONSE, 65), (STATE_DELTA, 66), (ERROR, 255)]"

datatype error_code =
    NONE | INVALID_MAGIC | INVALID_VERSION | INVALID_SIGNATURE | INVALID_NODE_ID
  | ATTESTATION_FAILED | TIMEOUT | CONSENSUS_FAILED | KEY_EXCHANGE_FAILED | CHANNEL_EXPIRED
  | UNKNOWN_ERROR

definition error_codes :: "(error_code \<times> nat) list" where
  "error_codes =
     [(NONE, 0), (INVALID_MAGIC, 1), (INVALID_VERSION, 2), (INVALID_SIGNATURE, 3),
      (INVALID_NODE_ID, 4), (ATTESTATION_FAILED, 5), (TIMEOUT, 6), (CONSENSUS_FAILED, 7),
      (KEY_EXCHANGE_FAILED, 8), (CHANNEL_EXPIRED, 9), (UNKNOWN_ERROR, 255)]"

text \<open>An IntEnum member as its integer, and the lookup by value that raises ValueError.\<close>

definition enum_value :: "('a \<times> nat) list \<Rightarrow> 'a \<Rightarrow> nat" where
  "enum_value table x = (case map_of table x of Some n \<Rightarrow> n | None \<Rightarrow> 0)"

definition enum_of_value :: "('a \<times> nat) list \<Rightarrow> nat \<Rightarrow> 'a result" where
  "enum_of_value table n =
     (case map_of (map (\<lambda>(x, k). (k, x)) table) n of Some x \<Rightarrow> Inr x | None \<Rightarrow> Inl ValueError)"

abbreviation mt_code :: "message_type \<Rightarrow> nat" where
  "mt_code \<equiv> enum_value message_types"

abbreviation ec_code :: "error_code \<Rightarrow> nat" where
  "ec_code \<equiv> enum_value error_codes"

section \<open>The header\<close>

record protocol_header =
  ph_version :: int
  ph_msg_type :: message_type
  ph_flags :: int
  ph_payload_len :: int
  ph_timestamp :: int

definition MAGIC_BYTES :: bytes where
  "MAGIC_BYTES = [87, 76, 70, 69, 68]"

definition PROTOCOL_VERSION :: int where
  "PROTOCOL_VERSION = 256"

definition HEADER_SIZE :: nat where
  "HEADER_SIZE = 24"

definition header_post_init :: "int \<Rightarrow> protocol_header \<Rightarrow> protocol_header" where
  "header_post_init now h = (if ph_timestamp h = 0 then h\<lparr>ph_timestamp := now\<rparr> else h)"

definition header_pack :: "protocol_header \<Rightarrow> bytes result" where
  "header_pack h =
     bindE (pack_uint 2 (ph_version h)) (\<lambda>v.
     bindE (pack_uint 1 (int (mt_code (ph_msg_type h)))) (\<lambda>t.
     bindE (pack_uint 1 (ph_flags h)) (\<lambda>f.
     bindE (pack_uint 4 (ph_payload_len h)) (\<lambda>l.
     bindE (pack_uint 8 (ph_timestamp h)) (\<lambda>ts.
     Inr (fit 5 MAGIC_BYTES @ v @ t @ f @ replicate 3 0 @ l @ ts))))))"

definition header_unpack :: "int \<Rightarrow> bytes \<Rightarrow> protocol_header result" where
  "header_unpack now data =
     (if length data < HEADER_SIZE then Inl ValueError
      else let d = slice data 0 HEADER_SIZE in
        bindE (unpack_uint 2 d 5) (\<lambda>v.
        bindE (unpack_uint 1 d 7) (\<lambda>t.
        bindE (unpack_uint 1 d 8) (\<lambda>f.
        bindE (unpack_uint 4 d 12) (\<lambda>l.
        bindE (unpack_uint 8 d 16) (\<lambda>ts.
        if slice d 0 5 \<noteq> MAGIC_BYTES then Inl ValueError
        else bindE (enum_of_value message_types t) (\<lambda>mt.
          Inr (header_post_init now
                 \<lparr>ph_version = int v, ph_msg_type = mt, ph_flags = int f,
                  ph_payload_len = int l, ph_timestamp = int ts\<rparr>))))))))"

section \<open>The message frame\<close>

record federation_message =
  fm_header :: protocol_header
  fm_sender_id :: bytes
  fm_payload :: bytes
  fm_signature :: bytes

definition SENDER_ID_SIZE :: nat where
  "SENDER_ID_SIZE = 32"

definition SIGNATURE_SIZE :: nat where
  "SIGNATURE_SIZE = 64"

definition message_compute_hash :: "(bytes \<Rightarrow> bytes) \<Rightarrow> federation_message \<Rightarrow> bytes result" where
  "message_compute_hash sha3 m =
     bindE (header_pack (fm_header m)) (\<lambda>hb. Inr (sha3 (hb @ fm_sender_id m @ fm_payload m)))"

definition message_pack :: "federation_message \<Rightarrow> bytes result" where
  "message_pack m =
     bindE (header_pack (fm_header m)) (\<lambda>hb.
       Inr (hb @ fm_sender_id m @ fm_payload m @ fm_signature m))"

definition message_unpack :: "int \<Rightarrow> bytes \<Rightarrow> federation_message result" where
  "message_unpack now data =
     bindE (header_unpack now data) (\<lambda>h.
       let off1 = HEADER_SIZE;
           off2 = off1 + SENDER_ID_SIZE;
           off3 = off2 + nat (ph_payload_len h)
       in Inr \<lparr>fm_header = h,
               fm_sender_id = slice data off1 off2,
               fm_payload = slice data off2 off3,
               fm_signature = slice data off3 (off3 + SIGNATURE_SIZE)\<rparr>)"

definition message_total_size :: "federation_message \<Rightarrow> nat" where
  "message_total_size m = HEADER_SIZE + SENDER_ID_SIZE + length (fm_payload m) + SIGNATURE_SIZE"

section \<open>Payloads\<close>

text \<open>The pair of struct fields \<open>H\<close> and \<open>ns\<close> that every payload uses for its byte strings.\<close>

definition pack_field :: "nat \<Rightarrow> bytes \<Rightarrow> bytes result" where
  "pack_field k bs = bindE (pack_uint k (int (length bs))) (\<lambda>l. Inr (l @ bs))"

definition unpack_field :: "nat \<Rightarrow> bytes \<Rightarrow> nat \<Rightarrow> (bytes \<times> nat) result" where
  "unpack_field k data off =
     bindE (unpack_uint k data off) (\<lambda>n. Inr (slice data (off + k) (off + k + n), off + k + n))"

record hello_payload =
  hp_node_id :: pystr
  hp_encapsulation_key :: pystr
  hp_signing_key :: pystr
  hp_capabilities :: int

definition hello_pack :: "hello_payload \<Rightarrow> bytes result" where
  "hello_pack p =
     bindE (utf8_encode (hp_node_id p)) (\<lambda>nid.
     bindE (from_hex (hp_encapsulation_key p)) (\<lambda>ek.
     bindE (from_hex (hp_signing_key p)) (\<lambda>sk.
     bindE (pack_field 2 nid) (\<lambda>a.
     bindE (pack_field 2 ek) (\<lambda>b.
     bindE (pack_field 2 sk) (\<lambda>c.
     bindE (pack_uint 2 (hp_capabilities p)) (\<lambda>d. Inr (a @ b @ c @ d))))))))"

definition hello_unpack :: "bytes \<Rightarrow> hello_payload result" where
  "hello_unpack data =
     bindE (unpack_field 2 data 0) (\<lambda>(nid, off1).
     bindE (utf8_decode nid) (\<lambda>node_id.
     bindE (unpack_field 2 data off1) (\<lambda>(ek, off2).
     bindE (unpack_field 2 data off2) (\<lambda>(sk, off3).
     bindE (unpack_uint 2 data off3) (\<lambda>cap.
       Inr \<lparr>hp_node_id = node_id, hp_encapsulation_key = to_hex ek,
            hp_signing_key = to_hex sk, hp_capabilities = int cap\<rparr>)))))"

record key_exchange_payload =
  kx_ciphertext :: pystr
  kx_session_id :: bytes

definition key_exchange_pack :: "key_exchange_payload \<Rightarrow> bytes result" where
  "key_exchange_pack p =
     bindE (from_hex (kx_ciphertext p)) (\<lambda>ct.
     bindE (pack_field 2 ct) (\<lambda>c. Inr (fit 16 (kx_session_id p) @ c)))"

definition key_exchange_unpack :: "bytes \<Rightarrow> key_exchange_payload result" where
  "key_exchange_unpack data =
     bindE (unpack_field 2 data 16) (\<lambda>(ct, _).
       Inr \<lparr>kx_ciphertext = to_hex ct, kx_session_id = slice data 0 16\<rparr>)"

record proposal_payload =
  pp_decision_id :: pystr
  pp_decision_hash :: pystr
  pp_epoch :: int
  pp_proposal_data :: bytes

definition proposal_pack :: "proposal_payload \<Rightarrow> bytes result" where
  "proposal_pack p =
     bindE (utf8_encode (pp_decision_id p)) (\<lambda>did.
     bindE (from_hex (pp_decision_hash p)) (\<lambda>hb.
     bindE (pack_field 2 did) (\<lambda>a.
     bindE (pack_uint 8 (pp_epoch p)) (\<lambda>e.
     bindE (pack_field 4 (pp_proposal_data p)) (\<lambda>d.
       Inr (a @ fit 32 hb @ e @ d))))))"

definition proposal_unpack :: "bytes \<Rightarrow> proposal_payload result" where
  "proposal_unpack data =
     bindE (unpack_field 2 data 0) (\<lambda>(did, off1).
     bindE (utf8_decode did) (\<lambda>decision_id.
     bindE (unpack_uint 8 data (off1 + 32)) (\<lambda>epoch.
     bindE (unpack_field 4 data (off1 + 40)) (\<lambda>(pd, _).
       Inr \<lparr>pp_decision_id = decision_id,
            pp_decision_hash = to_hex (slice data off1 (off1 + 32)),
            pp_epoch = int epoch, pp_proposal_data = pd\<rparr>))))"

record vote_payload =
  vp_decision_id :: pystr
  vp_approve :: bool
  vp_signature :: pystr

definition vote_pack :: "vote_payload \<Rightarrow> bytes result" where
  "vote_pack p =
     bindE (utf8_encode (vp_decision_id p)) (\<lambda>did.
     bindE (from_hex (vp_signature p)) (\<lambda>sg.
     bindE (pack_field 2 did) (\<lambda>a.
     bindE (pack_field 2 sg) (\<lambda>s. Inr (a @ [if vp_approve p then 1 else 0] @ s)))))"

definition vote_unpack :: "bytes \<Rightarrow> vote_payload result" where
  "vote_unpack data =
     bindE (unpack_field 2 data 0) (\<lambda>(did, off1).
     bindE (utf8_decode did) (\<lambda>decision_id.
     bindE (unpack_uint 1 data off1) (\<lambda>ap.
     bindE (unpack_field 2 data (off1 + 1)) (\<lambda>(sg, _).
       Inr \<lparr>vp_decision_id = decision_id, vp_approve = (ap \<noteq> 0), vp_signature = to_hex sg\<rparr>))))"

record error_payload =
  ep_code :: error_code
  ep_message :: pystr

definition error_pack :: "error_payload \<Rightarrow> bytes result" where
  "error_pack p =
     bindE (utf8_encode (ep_message p)) (\<lambda>mb.
     bindE (pack_uint 1 (int (ec_code (ep_code p)))) (\<lambda>c.
     bindE (pack_field 2 mb) (\<lambda>m. Inr (c @ m))))"

definition error_unpack :: "bytes \<Rightarrow> error_payload result" where
  "error_unpack data =
     (case data of
        [] \<Rightarrow> Inl IndexError
      | b # _ \<Rightarrow>
          bindE (enum_of_value error_codes (unat b)) (\<lambda>code.
          bindE (unpack_field 2 data 1) (\<lambda>(mb, _).
          bindE (utf8_decode mb) (\<lambda>msg. Inr \<lparr>ep_code = code, ep_message = msg\<rparr>))))"

section \<open>The message builder\<close>

record message_builder =
  mb_node_id :: pystr
  mb_signing_key :: pystr
  mb_sender_id :: bytes

definition builder_init ::
  "(bytes \<Rightarrow> bytes) \<Rightarrow> pystr \<Rightarrow> pystr \<Rightarrow> message_builder result" where
  "builder_init sha3 node_id signing_key =
     bindE (utf8_encode node_id) (\<lambda>nid.
       Inr \<lparr>mb_node_id = node_id, mb_signing_key = signing_key, mb_sender_id = sha3 nid\<rparr>)"

definition build ::
  "(bytes \<Rightarrow> bytes) \<Rightarrow> (pystr \<Rightarrow> pystr \<Rightarrow> pystr result) \<Rightarrow> bool \<Rightarrow> int \<Rightarrow>
   message_builder \<Rightarrow> message_type \<Rightarrow> bytes \<Rightarrow> bool \<Rightarrow> federation_message result" where
  "build sha3 rs_sign has_rust now b mt payload sign =
     (let header = header_post_init now
                     \<lparr>ph_version = PROTOCOL_VERSION, ph_msg_type = mt, ph_flags = 0,
                      ph_payload_len = int (length payload), ph_timestamp = 0\<rparr>;
          msg = \<lparr>fm_header = header, fm_sender_id = mb_sender_id b,
                 fm_payload = payload, fm_signature = []\<rparr>
      in if sign \<and> mb_signing_key b \<noteq> [] \<and> has_rust then
           bindE (message_compute_hash sha3 msg) (\<lambda>h.
           bindE (rs_sign (mb_signing_key b) (to_hex h)) (\<lambda>sg.
           bindE (from_hex sg) (\<lambda>raw. Inr (msg\<lparr>fm_signature := fit 64 (take 64 raw)\<rparr>))))
         else Inr msg)"

definition build_hello where
  "build_hello sha3 rs_sign has_rust now b ek sk cap =
     bindE (hello_pack \<lparr>hp_node_id = mb_node_id b, hp_encapsulation_key = ek,
                        hp_signing_key = sk, hp_capabilities = cap\<rparr>)
       (\<lambda>p. build sha3 rs_sign has_rust now b HELLO p True)"

definition build_key_exchange where
  "build_key_exchange sha3 rs_sign has_rust now b ct sid =
     bindE (key_exchange_pack \<lparr>kx_ciphertext = ct, kx_session_id = sid\<rparr>)
       (\<lambda>p. build sha3 rs_sign has_rust now b KEY_EXCHANGE p True)"

definition build_proposal where
  "build_proposal sha3 rs_sign has_rust now b did dh epoch pd =
     bindE (proposal_pack \<lparr>pp_decision_id = did, pp_decision_hash = dh,
                           pp_epoch = epoch, pp_proposal_data = pd\<rparr>)
       (\<lambda>p. build sha3 rs_sign has_rust now b PROPOSAL p True)"

definition build_vote where
  "build_vote sha3 rs_sign has_rust now b did approve sg =
     bindE (vote_pack \<lparr>vp_decision_id = did, vp_approve = approve, vp_signature = sg\<rparr>)
       (\<lambda>p. build sha3 rs_sign has_rust now b VOTE p True)"

definition build_ping where
  "build_ping sha3 rs_sign has_rust now b = build sha3 rs_sign has_rust now b PING [] False"

definition build_pong where
  "build_pong sha3 rs_sign has_rust now b ping_timestamp =
     bindE (pack_uint 8 ping_timestamp) (\<lambda>p. build sha3 rs_sign has_rust now b PONG p False)"

definition build_error where
  "build_error sha3 rs_sign has_rust now b code msg =
     bindE (error_pack \<lparr>ep_code = code, ep_message = msg\<rparr>)
       (\<lambda>p. build sha3 rs_sign has_rust now b ERROR p False)"


section \<open>Enumerations and fields\<close>

lemma mt_code_inverse [simp]: "enum_of_value message_types (mt_code t) = Inr t"
  by (cases t) (simp_all add: enum_of_value_def enum_value_def message_types_def)

lemma ec_code_inverse [simp]: "enum_of_value error_codes (ec_code c) = Inr c"
  by (cases c) (simp_all add: enum_of_value_def enum_value_def error_codes_def)

lemma mt_code_less [simp]: "mt_code t < 256"
  by (cases t) (simp_all add: enum_value_def message_types_def)

lemma ec_code_less [simp]: "ec_code c < 256"
  by (cases c) (simp_all add: enum_value_def error_codes_def)

lemma unpack_uint_field:
  "slice data off (off + k) = be_enc k n \<Longrightarrow> off + k \<le> length data \<Longrightarrow> n < 256 ^ k \<Longrightarrow>
   unpack_uint k data off = Inr n"
  by (simp add: unpack_uint_def be_dec_be_enc)

lemma pack_field_Inr:
  "pack_field k bs = Inr out \<longleftrightarrow> length bs < 256 ^ k \<and> out = be_enc k (length bs) @ bs"
proof -
  have "int (length bs) < 256 ^ k \<longleftrightarrow> length bs < 256 ^ k"
    by (metis of_nat_less_iff of_nat_numeral of_nat_power)
  then show ?thesis by (auto simp: pack_field_def bindE_Inr_iff pack_uint_Inr)
qed

lemma unpack_field_after:
  assumes "off = length xs" and "length bs < 256 ^ k"
  shows "unpack_field k (xs @ be_enc k (length bs) @ bs @ ys) off = Inr (bs, off + k + length bs)"
  using assms by (simp add: unpack_field_def unpack_uint_after slice_def)

lemma unpack_field_first:
  "length bs < 256 ^ k \<Longrightarrow>
   unpack_field k (be_enc k (length bs) @ bs @ ys) 0 = Inr (bs, k + length bs)"
  using unpack_field_after [of 0 "[]" bs k ys] by simp

lemma unpack_field_last:
  "off = length xs \<Longrightarrow> length bs < 256 ^ k \<Longrightarrow>
   unpack_field k (xs @ be_enc k (length bs) @ bs) off = Inr (bs, off + k + length bs)"
  using unpack_field_after [where ys = "[]"] by simp

section \<open>The header round trip\<close>

definition header_ok :: "protocol_header \<Rightarrow> bool" where
  "header_ok h \<longleftrightarrow>
     0 \<le> ph_version h \<and> ph_version h < 2 ^ 16 \<and> 0 \<le> ph_flags h \<and> ph_flags h < 2 ^ 8 \<and>
     0 \<le> ph_payload_len h \<and> ph_payload_len h < 2 ^ 32 \<and>
     0 < ph_timestamp h \<and> ph_timestamp h < 2 ^ 64"

definition header_bytes :: "protocol_header \<Rightarrow> bytes" where
  "header_bytes h =
     MAGIC_BYTES @ be_enc 2 (nat (ph_version h)) @ be_enc 1 (mt_code (ph_msg_type h)) @
     be_enc 1 (nat (ph_flags h)) @ [0, 0, 0] @ be_enc 4 (nat (ph_payload_len h)) @
     be_enc 8 (nat (ph_timestamp h))"

lemma length_MAGIC [simp]: "length MAGIC_BYTES = 5"
  by (simp add: MAGIC_BYTES_def)

lemma length_header_bytes [simp]: "length (header_bytes h) = 24"
  by (simp add: header_bytes_def)

lemma header_pack_ok: "header_ok h \<Longrightarrow> header_pack h = Inr (header_bytes h)"
  by (simp add: header_ok_def header_pack_def header_bytes_def pack_uint_def numeral_3_eq_3)

lemma header_pack_InrD: "header_pack h = Inr bs \<Longrightarrow> bs = header_bytes h"
  by (auto simp: header_pack_def header_bytes_def bindE_Inr_iff pack_uint_Inr numeral_3_eq_3)

lemma header_fields:
  assumes "header_ok h"
  shows "unpack_uint 2 (header_bytes h) 5 = Inr (nat (ph_version h))"
    and "unpack_uint 1 (header_bytes h) 7 = Inr (mt_code (ph_msg_type h))"
    and "unpack_uint 1 (header_bytes h) 8 = Inr (nat (ph_flags h))"
    and "unpack_uint 4 (header_bytes h) 12 = Inr (nat (ph_payload_len h))"
    and "unpack_uint 8 (header_bytes h) 16 = Inr (nat (ph_timestamp h))"
    and "slice (header_bytes h) 0 5 = MAGIC_BYTES"
  using assms
  by (intro unpack_uint_field; simp add: header_ok_def header_bytes_def slice_def nat_less_iff)+
     (simp add: header_bytes_def slice_def)

lemma header_unpack_bytes:
  assumes "header_ok h"
  shows "header_unpack now (header_bytes h @ rest) = Inr h"
proof -
  have d: "slice (header_bytes h @ rest) 0 24 = header_bytes h"
    by (simp add: slice_def)
  note fields = header_fields [OF assms]
  from assms show ?thesis
    by (simp add: header_unpack_def d fields header_post_init_def header_ok_def HEADER_SIZE_def
             del: One_nat_def)
qed

lemma enum_of_value_Inr_iff:
  "(\<exists>x. enum_of_value table n = Inr x) \<longleftrightarrow> n \<in> set (map snd table)"
proof -
  have "set (map snd table) = dom (map_of (map (\<lambda>(x, k). (k, x)) table))"
    by (force simp: dom_map_of_conv_image_fst)
  then show ?thesis by (auto simp: enum_of_value_def dom_def split: option.splits)
qed

lemma unpack_uint_in_range:
  "off + k \<le> length data \<Longrightarrow> unpack_uint k data off = Inr (be_dec (slice data off (off + k)))"
  by (simp add: unpack_uint_def)

lemma be_dec_slice_one: "i < length data \<Longrightarrow> be_dec (slice data i (i + 1)) = unat (data ! i)"
  by (cases "drop i data") (auto simp: slice_def be_dec_def nth_via_drop)

lemma slice_slice: "j \<le> n \<Longrightarrow> slice (slice xs 0 n) i j = slice xs i j"
  by (simp add: slice_def drop_take min_def)

text \<open>
  A header is accepted exactly when it is long enough, starts with the magic bytes and carries a
  known message type: nothing else of the 24 bytes can make \<open>unpack\<close> fail.
\<close>

lemma header_unpack_accepts:
  "(\<exists>h. header_unpack now data = Inr h) \<longleftrightarrow>
     HEADER_SIZE \<le> length data \<and> take 5 data = MAGIC_BYTES \<and>
     unat (data ! 7) \<in> set (map snd message_types)"
proof (cases "length data < HEADER_SIZE")
  case False
  then have len: "24 \<le> length data" by (simp add: HEADER_SIZE_def)
  let ?d = "slice data 0 24"
  have t: "be_dec (slice ?d 7 (7 + 1)) = unat (data ! 7)"
    using len be_dec_slice_one [of 7 data] by (simp add: slice_slice)
  have m: "slice ?d 0 5 = take 5 data" by (simp add: slice_slice) (simp add: slice_def)
  have l: "length ?d = 24" using len by simp
  show ?thesis
    using False len l m t enum_of_value_Inr_iff [of message_types "unat (data ! 7)"]
    by (auto simp: header_unpack_def HEADER_SIZE_def unpack_uint_in_range Let_def bindE_Inr_iff
             simp del: One_nat_def length_slice)
qed (simp add: header_unpack_def)

section \<open>The frame\<close>

definition message_ok :: "federation_message \<Rightarrow> bool" where
  "message_ok m \<longleftrightarrow>
     header_ok (fm_header m) \<and> length (fm_sender_id m) = SENDER_ID_SIZE \<and>
     ph_payload_len (fm_header m) = int (length (fm_payload m)) \<and>
     (fm_signature m = [] \<or> length (fm_signature m) = SIGNATURE_SIZE)"

lemma message_pack_ok:
  "header_ok (fm_header m) \<Longrightarrow>
   message_pack m = Inr (header_bytes (fm_header m) @ fm_sender_id m @ fm_payload m @ fm_signature m)"
  by (simp add: message_pack_def header_pack_ok)

lemma message_unpack_pack:
  assumes "message_ok m"
  shows "bindE (message_pack m) (message_unpack now) = Inr m"
proof -
  let ?w = "header_bytes (fm_header m) @ fm_sender_id m @ fm_payload m @ fm_signature m"
  from assms have h: "header_unpack now ?w = Inr (fm_header m)"
    by (simp add: message_ok_def header_unpack_bytes)
  have "message_unpack now ?w = Inr m"
    using assms
    by (auto simp: message_unpack_def h message_ok_def Let_def HEADER_SIZE_def SENDER_ID_SIZE_def
          SIGNATURE_SIZE_def slice_def)
  then show ?thesis using assms by (simp add: message_pack_ok message_ok_def)
qed

lemma message_pack_length:
  assumes "message_pack m = Inr w" and "length (fm_sender_id m) = SENDER_ID_SIZE"
  shows "length w + SIGNATURE_SIZE = message_total_size m + length (fm_signature m)"
  using assms
  by (auto simp: message_pack_def message_total_size_def HEADER_SIZE_def bindE_Inr_iff
      dest!: header_pack_InrD)

section \<open>Payload codecs\<close>

text \<open>
  What a receiver relies on: every well-formed payload packs, the packed form fits the header's
  length field, and unpacking gives the payload back.
\<close>

locale payload_codec =
  fixes pack :: "'p \<Rightarrow> bytes result"
    and unpack :: "bytes \<Rightarrow> 'p result"
    and canonical :: "'p \<Rightarrow> bool"
  assumes pack_defined: "canonical p \<Longrightarrow> \<exists>bs. pack p = Inr bs"
    and unpack_pack: "canonical p \<Longrightarrow> pack p = Inr bs \<Longrightarrow> unpack bs = Inr p"
    and pack_fits: "canonical p \<Longrightarrow> pack p = Inr bs \<Longrightarrow> length bs < 2 ^ 32"
begin

lemma round_trip: "canonical p \<Longrightarrow> bindE (pack p) unpack = Inr p"
  using pack_defined [of p] by (auto simp: unpack_pack)

lemma pack_inj: "canonical p \<Longrightarrow> canonical q \<Longrightarrow> pack p = pack q \<Longrightarrow> p = q"
  using pack_defined [of p] unpack_pack [of p] unpack_pack [of q] by (metis sum.inject(2))

end

definition str_field :: "nat \<Rightarrow> pystr \<Rightarrow> bool" where
  "str_field k s \<longleftrightarrow> (case utf8_encode s of Inr bs \<Rightarrow> length bs < 256 ^ k | Inl _ \<Rightarrow> False)"

definition hex_field :: "nat \<Rightarrow> pystr \<Rightarrow> bool" where
  "hex_field k s \<longleftrightarrow> (case from_hex s of Inr bs \<Rightarrow> to_hex bs = s \<and> length bs < 256 ^ k | Inl _ \<Rightarrow> False)"

lemma str_fieldE:
  assumes "str_field k s"
  obtains bs where "utf8_encode s = Inr bs" "length bs < 256 ^ k" "utf8_decode bs = Inr s"
  using assms utf8_decode_encode by (auto simp: str_field_def split: sum.splits)

lemma hex_fieldE:
  assumes "hex_field k s"
  obtains bs where "from_hex s = Inr bs" "length bs < 256 ^ k" "s = to_hex bs"
  using assms by (auto simp: hex_field_def split: sum.splits)

definition hello_canonical :: "hello_payload \<Rightarrow> bool" where
  "hello_canonical p \<longleftrightarrow>
     str_field 2 (hp_node_id p) \<and> hex_field 2 (hp_encapsulation_key p) \<and>
     hex_field 2 (hp_signing_key p) \<and> 0 \<le> hp_capabilities p \<and> hp_capabilities p < 65536"

definition key_exchange_canonical :: "key_exchange_payload \<Rightarrow> bool" where
  "key_exchange_canonical p \<longleftrightarrow> hex_field 2 (kx_ciphertext p) \<and> length (kx_session_id p) = 16"

definition proposal_canonical :: "proposal_payload \<Rightarrow> bool" where
  "proposal_canonical p \<longleftrightarrow>
     str_field 2 (pp_decision_id p) \<and> hex_field 2 (pp_decision_hash p) \<and>
     length (pp_decision_hash p) = 64 \<and> 0 \<le> pp_epoch p \<and> pp_epoch p < 2 ^ 64 \<and>
     length (pp_proposal_data p) < 2 ^ 31"

definition vote_canonical :: "vote_payload \<Rightarrow> bool" where
  "vote_canonical p \<longleftrightarrow> str_field 2 (vp_decision_id p) \<and> hex_field 2 (vp_signature p)"

definition error_canonical :: "error_payload \<Rightarrow> bool" where
  "error_canonical p \<longleftrightarrow> str_field 2 (ep_message p)"

text \<open>Each canonical payload in its packed form, and that form read back.\<close>

lemma hello_codec:
  assumes "hello_canonical p"
  obtains bs where "hello_pack p = Inr bs" "hello_unpack bs = Inr p" "length bs < 2 ^ 32"
proof -
  from assms obtain nid ek sk where
    n: "utf8_encode (hp_node_id p) = Inr nid" "length nid < 256 ^ 2" "utf8_decode nid = Inr (hp_node_id p)"
    and e: "from_hex (hp_encapsulation_key p) = Inr ek" "length ek < 256 ^ 2" "hp_encapsulation_key p = to_hex ek"
    and k: "from_hex (hp_signing_key p) = Inr sk" "length sk < 256 ^ 2" "hp_signing_key p = to_hex sk"
    and c: "0 \<le> hp_capabilities p" "hp_capabilities p < 65536"
    by (auto simp: hello_canonical_def elim!: str_fieldE hex_fieldE)
  let ?A = "be_enc 2 (length nid) @ nid" and ?B = "be_enc 2 (length ek) @ ek"
    and ?C = "be_enc 2 (length sk) @ sk" and ?D = "be_enc 2 (nat (hp_capabilities p))"
  let ?bs = "?A @ ?B @ ?C @ ?D"
  have pk: "hello_pack p = Inr ?bs"
    using n e k c by (simp add: hello_pack_def pack_field_def pack_uint_def)
  let ?o1 = "2 + length nid"
  let ?o2 = "?o1 + 2 + length ek"
  let ?o3 = "?o2 + 2 + length sk"
  have f1: "unpack_field 2 ?bs 0 = Inr (nid, ?o1)"
    using unpack_field_first [where bs = nid and k = 2 and ys = "?B @ ?C @ ?D"] n by simp
  have f2: "unpack_field 2 ?bs ?o1 = Inr (ek, ?o2)"
    using unpack_field_after [where off = ?o1 and xs = ?A and bs = ek and k = 2 and ys = "?C @ ?D"] e
    by simp
  have f3: "unpack_field 2 ?bs ?o2 = Inr (sk, ?o3)"
    using unpack_field_after [where off = ?o2 and xs = "?A @ ?B" and bs = sk and k = 2 and ys = ?D] k
    by simp
  have f4: "unpack_uint 2 ?bs ?o3 = Inr (nat (hp_capabilities p))"
    using unpack_uint_after [where off = ?o3 and xs = "?A @ ?B @ ?C"
        and n = "nat (hp_capabilities p)" and k = 2 and ys = "[]"] c
    by (simp add: nat_less_iff)
  have "hello_unpack ?bs = Inr p"
    using n(3) e(3) k(3) c by (simp only: hello_unpack_def f1 f2 f3 f4 bindE.simps prod.case) simp
  moreover have "length ?bs < 2 ^ 32" using n e k by simp
  ultimately show thesis using that pk by blast
qed

lemma key_exchange_codec:
  assumes "key_exchange_canonical p"
  obtains bs where "key_exchange_pack p = Inr bs" "key_exchange_unpack bs = Inr p" "length bs < 2 ^ 32"
proof -
  from assms obtain ct where
    c: "from_hex (kx_ciphertext p) = Inr ct" "length ct < 256 ^ 2" "kx_ciphertext p = to_hex ct"
    and l: "length (kx_session_id p) = 16"
    by (auto simp: key_exchange_canonical_def elim!: hex_fieldE)
  let ?bs = "kx_session_id p @ be_enc 2 (length ct) @ ct"
  have "key_exchange_pack p = Inr ?bs"
    using c l by (simp add: key_exchange_pack_def pack_field_def pack_uint_def)
  moreover have "unpack_field 2 ?bs 16 = Inr (ct, 16 + 2 + length ct)"
    by (rule unpack_field_last) (use l c in simp_all)
  then have "key_exchange_unpack ?bs = Inr p"
    using c l by (simp add: key_exchange_unpack_def slice_def)
  ultimately show thesis using that c l by simp
qed

lemma proposal_codec:
  assumes "proposal_canonical p"
  obtains bs where "proposal_pack p = Inr bs" "proposal_unpack bs = Inr p" "length bs < 2 ^ 32"
proof -
  from assms obtain did hb where
    d: "utf8_encode (pp_decision_id p) = Inr did" "length did < 256 ^ 2" "utf8_decode did = Inr (pp_decision_id p)"
    and h: "from_hex (pp_decision_hash p) = Inr hb" "pp_decision_hash p = to_hex hb" "length hb = 32"
    and e: "0 \<le> pp_epoch p" "pp_epoch p < 2 ^ 64" and l: "length (pp_proposal_data p) < 2 ^ 31"
    by (auto simp: proposal_canonical_def elim!: str_fieldE hex_fieldE)
  let ?A = "be_enc 2 (length did) @ did" and ?E = "be_enc 8 (nat (pp_epoch p))"
  let ?D = "be_enc 4 (length (pp_proposal_data p)) @ pp_proposal_data p"
  let ?bs = "?A @ hb @ ?E @ ?D"
  let ?o1 = "2 + length did"
  have pk: "proposal_pack p = Inr ?bs"
    using d h e l by (simp add: proposal_pack_def pack_field_def pack_uint_def)
  have f1: "unpack_field 2 ?bs 0 = Inr (did, ?o1)"
    using unpack_field_first [where bs = did and k = 2 and ys = "hb @ ?E @ ?D"] d by simp
  have f2: "slice ?bs ?o1 (?o1 + 32) = hb"
    using slice_after [where xs = ?A and ys = hb and zs = "?E @ ?D"] h by simp
  have f3: "unpack_uint 8 ?bs (?o1 + 32) = Inr (nat (pp_epoch p))"
    using unpack_uint_after [where off = "?o1 + 32" and xs = "?A @ hb" and n = "nat (pp_epoch p)"
        and k = 8 and ys = ?D] h e
    by (simp add: nat_less_iff)
  have f4: "unpack_field 4 ?bs (?o1 + 40) = Inr (pp_proposal_data p, ?o1 + 40 + 4 + length (pp_proposal_data p))"
    using unpack_field_last [where off = "?o1 + 40" and xs = "?A @ hb @ ?E"
        and bs = "pp_proposal_data p" and k = 4] h l
    by simp
  have "proposal_unpack ?bs = Inr p"
    using d(3) h(2) e by (simp only: proposal_unpack_def f1 f2 f3 f4 bindE.simps prod.case) simp
  moreover have "length ?bs < 2 ^ 32" using d h l by simp
  ultimately show thesis using that pk by blast
qed

lemma vote_codec:
  assumes "vote_canonical p"
  obtains bs where "vote_pack p = Inr bs" "vote_unpack bs = Inr p" "length bs < 2 ^ 32"
proof -
  from assms obtain did sg where
    d: "utf8_encode (vp_decision_id p) = Inr did" "length did < 256 ^ 2" "utf8_decode did = Inr (vp_decision_id p)"
    and g: "from_hex (vp_signature p) = Inr sg" "length sg < 256 ^ 2" "vp_signature p = to_hex sg"
    by (auto simp: vote_canonical_def elim!: str_fieldE hex_fieldE)
  define ap :: nat where "ap = (if vp_approve p then 1 else 0)"
  have ap: "[if vp_approve p then 1 else 0] = be_enc 1 ap" "ap < 256 ^ 1" by (auto simp: ap_def)
  let ?A = "be_enc 2 (length did) @ did" and ?S = "be_enc 2 (length sg) @ sg"
  let ?bs = "?A @ be_enc 1 ap @ ?S"
  let ?o1 = "2 + length did"
  have pk: "vote_pack p = Inr ?bs"
    using d g by (simp add: vote_pack_def pack_field_def pack_uint_def ap_def)
  have f1: "unpack_field 2 ?bs 0 = Inr (did, ?o1)"
    using unpack_field_first [where bs = did and k = 2 and ys = "be_enc 1 ap @ ?S"] d by simp
  have f2: "unpack_uint 1 ?bs ?o1 = Inr ap"
    using unpack_uint_after [where off = ?o1 and xs = ?A and n = ap and k = 1 and ys = ?S] ap(2)
    by simp
  have f3: "unpack_field 2 ?bs (?o1 + 1) = Inr (sg, ?o1 + 1 + 2 + length sg)"
    using unpack_field_last [where off = "?o1 + 1" and xs = "?A @ be_enc 1 ap" and bs = sg and k = 2] g
    by simp
  have "vote_unpack ?bs = Inr p"
    using d(3) g(3) by (simp only: vote_unpack_def f1 f2 f3 bindE.simps prod.case) (simp add: ap_def)
  moreover have "length ?bs < 2 ^ 32" using d g by simp
  ultimately show thesis using that pk by blast
qed

lemma error_codec:
  assumes "error_canonical p"
  obtains bs where "error_pack p = Inr bs" "error_unpack bs = Inr p" "length bs < 2 ^ 32"
proof -
  from assms obtain mb where
    m: "utf8_encode (ep_message p) = Inr mb" "length mb < 256 ^ 2" "utf8_decode mb = Inr (ep_message p)"
    by (auto simp: error_canonical_def elim!: str_fieldE)
  let ?c = "word_of_nat (ec_code (ep_code p)) :: byte"
  let ?bs = "?c # be_enc 2 (length mb) @ mb"
  have u: "unat ?c = ec_code (ep_code p)"
    by (simp add: unsigned_of_nat take_bit_eq_mod)
  have pk: "error_pack p = Inr ?bs"
    using m ec_code_less [of "ep_code p"]
    by (simp add: error_pack_def pack_field_def pack_uint_def)
  have "unpack_field 2 ?bs 1 = Inr (mb, 1 + 2 + length mb)"
    using unpack_field_last [where off = 1 and xs = "[?c]" and bs = mb and k = 2] m by simp
  then have "error_unpack ?bs = Inr p"
    using m(3) by (simp add: error_unpack_def u)
  moreover have "length ?bs < 2 ^ 32" using m by simp
  ultimately show thesis using that pk by blast
qed

interpretation hello: payload_codec hello_pack hello_unpack hello_canonical
  by unfold_locales (metis hello_codec sum.inject(2))+

interpretation key_exchange: payload_codec key_exchange_pack key_exchange_unpack key_exchange_canonical
  by unfold_locales (metis key_exchange_codec sum.inject(2))+

interpretation proposal: payload_codec proposal_pack proposal_unpack proposal_canonical
  by unfold_locales (metis proposal_codec sum.inject(2))+

interpretation vote: payload_codec vote_pack vote_unpack vote_canonical
  by unfold_locales (metis vote_codec sum.inject(2))+

interpretation error_msg: payload_codec error_pack error_unpack error_canonical
  by unfold_locales (metis error_codec sum.inject(2))+

section \<open>From builder to receiver\<close>

text \<open>
  What the builder makes is a well-formed frame, signed or not, whenever the clock is a positive
  64-bit number of microseconds and the payload length fits 32 bits.
\<close>

lemma build_ok:
  assumes "build sha3 rs_sign has_rust now b mt payload sign = Inr m"
    and "length (mb_sender_id b) = SENDER_ID_SIZE" and "length payload < 2 ^ 32"
    and "0 < now" and "now < 2 ^ 64"
  shows "message_ok m" and "fm_payload m = payload" and "ph_msg_type (fm_header m) = mt"
  using assms
  by (auto simp: build_def Let_def message_ok_def header_ok_def header_post_init_def
      PROTOCOL_VERSION_def SIGNATURE_SIZE_def bindE_Inr_iff split: if_splits)

context payload_codec
begin

lemma delivered:
  assumes "bindE (pack p) (\<lambda>bs. build sha3 rs_sign has_rust now b mt bs sign) = Inr m"
    and "canonical p" and "length (mb_sender_id b) = SENDER_ID_SIZE"
    and "0 < now" and "now < 2 ^ 64"
  shows "bindE (bindE (message_pack m) (message_unpack now')) (\<lambda>m'. unpack (fm_payload m')) = Inr p"
proof -
  from assms(1) obtain bs where bs: "pack p = Inr bs"
    and m: "build sha3 rs_sign has_rust now b mt bs sign = Inr m"
    by (auto simp: bindE_Inr_iff)
  note ok = build_ok [OF m assms(3) pack_fits [OF assms(2) bs] assms(4,5)]
  show ?thesis
    by (simp add: message_unpack_pack [OF ok(1)] ok(2) unpack_pack [OF assms(2) bs])
qed

end

section \<open>Properties\<close>

text \<open>
  C5. A proposal that a node builds, frames and sends is the proposal the receiver decodes: for a
  canonical proposal, a 32-byte sender id and a positive 64-bit clock, unpacking the packed
  message (at any receiver clock) and then its payload returns the decision id, hash, epoch and
  data that were given to \<open>build_proposal\<close>, whether or not the message was signed.
\<close>

theorem proposal_delivered:
  assumes "build_proposal sha3 rs_sign has_rust now b did dh epoch pd = Inr m"
    and "proposal_canonical \<lparr>pp_decision_id = did, pp_decision_hash = dh, pp_epoch = epoch,
                             pp_proposal_data = pd\<rparr>"
    and "length (mb_sender_id b) = SENDER_ID_SIZE" and "0 < now" and "now < 2 ^ 64"
  shows "bindE (bindE (message_pack m) (message_unpack now')) (\<lambda>m'. proposal_unpack (fm_payload m'))
         = Inr \<lparr>pp_decision_id = did, pp_decision_hash = dh, pp_epoch = epoch, pp_proposal_data = pd\<rparr>"
  by (rule proposal.delivered [OF assms(1) [unfolded build_proposal_def] assms(2-5)])

definition demo_builder :: message_builder where
  "demo_builder = \<lparr>mb_node_id = [110, 49], mb_signing_key = [97], mb_sender_id = replicate 32 7\<rparr>"

definition demo_message :: federation_message where
  "demo_message =
     \<lparr>fm_header = \<lparr>ph_version = 256, ph_msg_type = PROPOSAL, ph_flags = 0, ph_payload_len = 51,
                   ph_timestamp = 5\<rparr>,
      fm_sender_id = replicate 32 7,
      fm_payload = [0, 2, 195, 169] @ replicate 32 171 @ [0, 0, 0, 0, 0, 0, 0, 9, 0, 0, 0, 3, 1, 2, 3],
      fm_signature = 18 # replicate 63 0\<rparr>"

lemma demo_build:
  "build_proposal (\<lambda>x. replicate 32 1) (\<lambda>k h. Inr [49, 50]) True 5 demo_builder
     [233] (to_hex (replicate 32 171)) 9 [1, 2, 3] = Inr demo_message"
  by (simp add: build_proposal_def proposal_pack_def build_def Let_def demo_builder_def
      demo_message_def message_compute_hash_def header_pack_ok header_ok_def header_post_init_def
      pack_uint_def pack_field_def scalar_def utf8_char_def PROTOCOL_VERSION_def hex_val_def
      ascii_space_def be_enc_numeral fit_def [of 64])

lemma demo_proposal_canonical:
  "proposal_canonical \<lparr>pp_decision_id = [233], pp_decision_hash = to_hex (replicate 32 171),
                       pp_epoch = 9, pp_proposal_data = [1, 2, 3]\<rparr>"
  by (simp add: proposal_canonical_def str_field_def hex_field_def scalar_def utf8_char_def)

theorem proposal_delivered_witness:
  "bindE (bindE (message_pack demo_message) (message_unpack 77)) (\<lambda>m'. proposal_unpack (fm_payload m'))
   = Inr \<lparr>pp_decision_id = [233], pp_decision_hash = to_hex (replicate 32 171),
          pp_epoch = 9, pp_proposal_data = [1, 2, 3]\<rparr>"
  by (rule proposal_delivered [OF demo_build demo_proposal_canonical])
     (simp_all add: demo_builder_def SENDER_ID_SIZE_def)

text \<open>
  C28. Every payload format round-trips: for each of the five payloads, packing a canonical value
  succeeds and unpacking the bytes returns exactly that value (UTF-8 text, lower-case hex keys and
  signatures, fixed-size hashes and session ids, booleans and enumeration codes included).
\<close>

theorem payload_round_trips:
  "(hello_canonical a \<longrightarrow> bindE (hello_pack a) hello_unpack = Inr a) \<and>
   (key_exchange_canonical b \<longrightarrow> bindE (key_exchange_pack b) key_exchange_unpack = Inr b) \<and>
   (proposal_canonical c \<longrightarrow> bindE (proposal_pack c) proposal_unpack = Inr c) \<and>
   (vote_canonical d \<longrightarrow> bindE (vote_pack d) vote_unpack = Inr d) \<and>
   (error_canonical e \<longrightarrow> bindE (error_pack e) error_unpack = Inr e)"
  by (intro conjI impI hello.round_trip key_exchange.round_trip proposal.round_trip
      vote.round_trip error_msg.round_trip)

theorem payload_round_trips_witness:
  "bindE (hello_pack \<lparr>hp_node_id = [8364], hp_encapsulation_key = [48, 97], hp_signing_key = [],
                      hp_capabilities = 65535\<rparr>) hello_unpack
     = Inr \<lparr>hp_node_id = [8364], hp_encapsulation_key = [48, 97], hp_signing_key = [],
            hp_capabilities = 65535\<rparr> \<and>
   bindE (vote_pack \<lparr>vp_decision_id = [100], vp_approve = True, vp_signature = [102, 102]\<rparr>) vote_unpack
     = Inr \<lparr>vp_decision_id = [100], vp_approve = True, vp_signature = [102, 102]\<rparr>"
proof -
  have h: "hello_canonical \<lparr>hp_node_id = [8364], hp_encapsulation_key = [48, 97],
             hp_signing_key = [], hp_capabilities = 65535\<rparr>"
    by (simp add: hello_canonical_def str_field_def hex_field_def scalar_def utf8_char_def
        hex_val_def ascii_space_def hex_digit_def)
  have v: "vote_canonical \<lparr>vp_decision_id = [100], vp_approve = True, vp_signature = [102, 102]\<rparr>"
    by (simp add: vote_canonical_def str_field_def hex_field_def scalar_def utf8_char_def
        hex_val_def ascii_space_def hex_digit_def)
  from payload_round_trips h v show ?thesis by blast
qed

text \<open>
  C38. The header parser's verdict is fully characterised: \<open>ProtocolHeader.unpack\<close> succeeds exactly
  on inputs of at least 24 bytes that start with the magic bytes and whose eighth byte is the code
  of a known message type; every other input raises.
\<close>

theorem header_unpack_succeeds_iff:
  "(\<exists>h. header_unpack now data = Inr h) \<longleftrightarrow>
     HEADER_SIZE \<le> length data \<and> take 5 data = MAGIC_BYTES \<and>
     unat (data ! 7) \<in> set (map snd message_types)"
  by (rule header_unpack_accepts)

text \<open>
  \<open>total_size\<close> counts a 64-byte signature whether or not the message carries one: it is the
  number of packed bytes exactly for signed messages, and 64 too many for unsigned ones (PING,
  PONG, ERROR and every message of a builder without a signing key).
\<close>

theorem total_size_exact_iff_signed:
  assumes "message_pack m = Inr w" and "length (fm_sender_id m) = SENDER_ID_SIZE"
  shows "(length w = message_total_size m \<longleftrightarrow> length (fm_signature m) = SIGNATURE_SIZE) \<and>
         message_total_size m + length (fm_signature m) = length w + 64"
  using message_pack_length [OF assms] by (auto simp: SIGNATURE_SIZE_def)

definition demo_ping :: federation_message where
  "demo_ping =
     \<lparr>fm_header = \<lparr>ph_version = 256, ph_msg_type = PING, ph_flags = 0, ph_payload_len = 0,
                   ph_timestamp = 5\<rparr>,
      fm_sender_id = replicate 32 7, fm_payload = [], fm_signature = []\<rparr>"

theorem total_size_exact_iff_signed_witness:
  "\<exists>w. message_pack demo_ping = Inr w \<and> message_total_size demo_ping = length w + 64"
proof -
  have p: "message_pack demo_ping = Inr (header_bytes (fm_header demo_ping) @ replicate 32 7)"
    by (simp add: message_pack_ok header_ok_def demo_ping_def)
  have s: "length (fm_sender_id demo_ping) = SENDER_ID_SIZE"
    by (simp add: demo_ping_def SENDER_ID_SIZE_def)
  from total_size_exact_iff_signed [OF p s] p show ?thesis by (simp add: demo_ping_def)
qed

end
