(* ===== verification/Zanzibar.thy ===== *)
theory Zanzibar
  imports Prelude
begin

text \<open>
  Relationship-based access control, \<^verbatim>\<open>kernel/zanzibar.py\<close>. The engine's state is the rows of the
  SQLite table \<^verbatim>\<open>relation_tuples\<close> and whether the connection is open. The table's primary key holds
  six columns; SQLite treats NULLs in a key as distinct, so a row whose \<open>subject_relation\<close> is NULL
  never conflicts with another. The specification is the inductive relation \<open>grants\<close>: a direct user
  tuple, or a userset tuple that leads to a grant; \<open>check\<close> is shown to decide it up to its depth.
\<close>

section \<open>The engine\<close>

record relation_tuple =
  rt_namespace :: string
  rt_object_id :: string
  rt_relation :: string
  rt_subject_namespace :: string
  rt_subject_id :: string
  rt_subject_relation :: "string option"
  rt_authority :: "string option"
  rt_signature :: "string option"

record zanzibar_engine =
  z_rows :: "relation_tuple list"
  z_open :: bool

definition zanzibar_init :: zanzibar_engine where
  "zanzibar_init = \<lparr>z_rows = [], z_open = True\<rparr>"

definition zanzibar_close :: "zanzibar_engine \<Rightarrow> zanzibar_engine" where
  "zanzibar_close e = e\<lparr>z_open := False\<rparr>"

definition get_conn :: "zanzibar_engine \<Rightarrow> unit result" where
  "get_conn e = guardE (z_open e) RuntimeError"

definition falsy :: "string option \<Rightarrow> bool" where
  "falsy x \<longleftrightarrow> x = None \<or> x = Some []"

fun startswith :: "string \<Rightarrow> string \<Rightarrow> bool" where
  "startswith s [] = True"
| "startswith [] (c # p) = False"
| "startswith (d # s) (c # p) = (d = c \<and> startswith s p)"

definition verify_signature :: "relation_tuple \<Rightarrow> bool" where
  "verify_signature t =
     (if falsy (rt_signature t) \<or> falsy (rt_authority t) then False
      else rt_signature t = Some ''ROOT_AUTHORITY_SIG'' \<and>
           (case rt_authority t of Some a \<Rightarrow> startswith a ''did:warm:root:'' | None \<Rightarrow> False))"

definition key_conflict :: "relation_tuple \<Rightarrow> relation_tuple \<Rightarrow> bool" where
  "key_conflict t u \<longleftrightarrow>
     rt_namespace t = rt_namespace u \<and> rt_object_id t = rt_object_id u \<and>
     rt_relation t = rt_relation u \<and> rt_subject_namespace t = rt_subject_namespace u \<and>
     rt_subject_id t = rt_subject_id u \<and>
     rt_subject_relation t \<noteq> None \<and> rt_subject_relation t = rt_subject_relation u"

definition insert_or_replace :: "relation_tuple \<Rightarrow> relation_tuple list \<Rightarrow> relation_tuple list" where
  "insert_or_replace t rows = filter (\<lambda>u. \<not> key_conflict t u) rows @ [t]"

text \<open>
  \<open>write_tuple\<close> returns the verdict, the new engine and what was broadcast to the mesh.
\<close>

definition write_tuple ::
  "zanzibar_engine \<Rightarrow> relation_tuple \<Rightarrow> bool \<Rightarrow> bool \<Rightarrow>
   (bool \<times> zanzibar_engine \<times> relation_tuple list) result" where
  "write_tuple e t has_dht replicate_it =
     (if \<not> verify_signature t then Inr (False, e, [])
      else bindE (get_conn e) (\<lambda>_.
        Inr (True, e\<lparr>z_rows := insert_or_replace t (z_rows e)\<rparr>,
             if replicate_it \<and> has_dht then [t] else [])))"

definition row_matches :: "string \<Rightarrow> string \<Rightarrow> string \<Rightarrow> relation_tuple \<Rightarrow> bool" where
  "row_matches ns obj rel t \<longleftrightarrow> rt_namespace t = ns \<and> rt_object_id t = obj \<and> rt_relation t = rel"

definition next_relation :: "string \<Rightarrow> relation_tuple \<Rightarrow> string" where
  "next_relation rel t =
     (case rt_subject_relation t of Some r \<Rightarrow> if r = [] then rel else r | None \<Rightarrow> rel)"

fun check_rows :: "relation_tuple list \<Rightarrow> nat \<Rightarrow> string \<Rightarrow> string \<Rightarrow> string \<Rightarrow> string \<Rightarrow> bool" where
  "check_rows rows 0 ns obj rel s = False"
| "check_rows rows (Suc d) ns obj rel s =
     (if list_ex (\<lambda>t. row_matches ns obj rel t \<and> rt_subject_namespace t = ''user'' \<and>
                      rt_subject_id t = s) rows then True
      else list_ex (\<lambda>t. rt_subject_namespace t \<noteq> ''user'' \<and>
                        check_rows rows d (rt_subject_namespace t) (rt_subject_id t)
                          (next_relation rel t) s)
                   (filter (row_matches ns obj rel) rows))"

definition check :: "zanzibar_engine \<Rightarrow> string \<Rightarrow> string \<Rightarrow> string \<Rightarrow> string \<Rightarrow> int \<Rightarrow> bool result" where
  "check e ns obj rel s depth =
     (if depth \<le> 0 then Inr False
      else bindE (get_conn e) (\<lambda>_. Inr (check_rows (z_rows e) (nat depth) ns obj rel s)))"

definition check_permission :: "zanzibar_engine \<Rightarrow> string \<Rightarrow> string \<Rightarrow> string \<Rightarrow> string \<Rightarrow> bool result" where
  "check_permission e ns obj rel s = check e ns obj rel s 5"

section \<open>What a grant is\<close>

inductive grants ::
  "relation_tuple set \<Rightarrow> string \<Rightarrow> nat \<Rightarrow> string \<Rightarrow> string \<Rightarrow> string \<Rightarrow> bool" for T s where
  direct: "t \<in> T \<Longrightarrow> row_matches ns obj rel t \<Longrightarrow> rt_subject_namespace t = ''user'' \<Longrightarrow>
     rt_subject_id t = s \<Longrightarrow> grants T s 0 ns obj rel"
| userset: "t \<in> T \<Longrightarrow> row_matches ns obj rel t \<Longrightarrow> rt_subject_namespace t \<noteq> ''user'' \<Longrightarrow>
     grants T s n (rt_subject_namespace t) (rt_subject_id t) (next_relation rel t) \<Longrightarrow>
     grants T s (Suc n) ns obj rel"

inductive_cases grants_zeroE: "grants T s 0 ns obj rel"
inductive_cases grants_SucE: "grants T s (Suc n) ns obj rel"

lemma grants_mono: "grants T s n ns obj rel \<Longrightarrow> T \<subseteq> U \<Longrightarrow> grants U s n ns obj rel"
  by (induction rule: grants.induct) (auto intro: grants.intros)

lemma check_rows_iff:
  "check_rows rows d ns obj rel s \<longleftrightarrow> (\<exists>n < d. grants (set rows) s n ns obj rel)"
proof (induction d arbitrary: ns obj rel)
  case (Suc d)
  show ?case
  proof
    assume "check_rows rows (Suc d) ns obj rel s"
    then consider t where "t \<in> set rows" "row_matches ns obj rel t"
        "rt_subject_namespace t = ''user''" "rt_subject_id t = s"
      | t where "t \<in> set rows" "row_matches ns obj rel t" "rt_subject_namespace t \<noteq> ''user''"
        "check_rows rows d (rt_subject_namespace t) (rt_subject_id t) (next_relation rel t) s"
      by (auto simp: list_ex_iff split: if_splits)
    then show "\<exists>n < Suc d. grants (set rows) s n ns obj rel"
    proof cases
      case 1
      then show ?thesis by (auto intro: direct)
    next
      case 2
      with Suc obtain n where "n < d"
        "grants (set rows) s n (rt_subject_namespace t) (rt_subject_id t) (next_relation rel t)"
        by blast
      with 2 show ?thesis by (auto intro: userset)
    qed
  next
    assume "\<exists>n < Suc d. grants (set rows) s n ns obj rel"
    then obtain n where n: "n < Suc d" "grants (set rows) s n ns obj rel" by blast
    show "check_rows rows (Suc d) ns obj rel s"
    proof (cases n)
      case 0
      with n show ?thesis by (auto simp: list_ex_iff elim!: grants_zeroE)
    next
      case (Suc m)
      with n Suc.IH show ?thesis by (auto simp: list_ex_iff elim!: grants_SucE)
    qed
  qed
qed simp

lemma check_Inr_iff:
  "check e ns obj rel s d = Inr True \<longleftrightarrow>
     z_open e \<and> (\<exists>n. int n < d \<and> grants (set (z_rows e)) s n ns obj rel)"
  by (cases "d \<le> 0") (auto simp: check_def get_conn_def bindE_Inr_iff check_rows_iff zless_nat_eq_int_zless)

section \<open>Writes\<close>

lemma set_insert_or_replace:
  "set (insert_or_replace t rows) = insert t {u \<in> set rows. \<not> key_conflict t u}"
  by (auto simp: insert_or_replace_def)

text \<open>A row that a write replaces grants the same things as the new row.\<close>

lemma grants_insert_or_replace:
  "grants (set rows) s n ns obj rel \<Longrightarrow> grants (set (insert_or_replace t rows)) s n ns obj rel"
proof (induction rule: grants.induct)
  case (direct u ns obj rel)
  show ?case
  proof (cases "key_conflict t u")
    case True
    with direct show ?thesis
      by (intro grants.direct [of t]) (auto simp: key_conflict_def row_matches_def set_insert_or_replace)
  next
    case False
    with direct show ?thesis
      by (intro grants.direct [of u]) (auto simp: set_insert_or_replace)
  qed
next
  case (userset u ns obj rel n)
  show ?case
  proof (cases "key_conflict t u")
    case True
    with userset show ?thesis
      by (intro grants.userset [of t])
         (auto simp: key_conflict_def row_matches_def next_relation_def set_insert_or_replace)
  next
    case False
    with userset show ?thesis
      by (intro grants.userset [of u]) (auto simp: set_insert_or_replace)
  qed
qed

text \<open>The operations a peer can reach, as one step; an exception leaves the engine as it was.\<close>

datatype z_op = ZWrite relation_tuple bool bool | ZClose

definition z_step :: "z_op \<Rightarrow> zanzibar_engine \<Rightarrow> zanzibar_engine" where
  "z_step x e =
     (case x of
        ZWrite t d r \<Rightarrow> (case write_tuple e t d r of Inr (_, e', _) \<Rightarrow> e' | Inl _ \<Rightarrow> e)
      | ZClose \<Rightarrow> zanzibar_close e)"

definition z_authentic :: "zanzibar_engine \<Rightarrow> bool" where
  "z_authentic e \<longleftrightarrow> (\<forall>t \<in> set (z_rows e). verify_signature t)"

interpretation zanzibar: machine z_step z_authentic
  by unfold_locales
     (auto simp: z_step_def z_authentic_def write_tuple_def zanzibar_close_def get_conn_def guardE_def
        set_insert_or_replace split: z_op.splits)

lemma z_step_rows_grant:
  "grants (set (z_rows e)) s n ns obj rel \<Longrightarrow> grants (set (z_rows (z_step x e))) s n ns obj rel"
  by (auto simp: z_step_def write_tuple_def zanzibar_close_def get_conn_def guardE_def
      grants_insert_or_replace split: z_op.splits)

lemma z_run_rows_grant:
  "grants (set (z_rows e)) s n ns obj rel \<Longrightarrow> grants (set (z_rows (fold z_step xs e))) s n ns obj rel"
  by (induction xs arbitrary: e) (auto intro: z_step_rows_grant)

section \<open>Properties\<close>

text \<open>
  C7. \<open>check\<close> decides the permission graph up to its depth: on an open engine it answers True
  exactly when a chain of fewer than \<open>depth\<close> userset tuples leads from the object and relation to a
  tuple naming the user, so it is sound and complete for chains of that length; a depth of zero or
  less denies; a closed engine never answers True.
\<close>

theorem check_decides_grants:
  "check e ns obj rel s d = Inr True \<longleftrightarrow>
     z_open e \<and> (\<exists>n. int n < d \<and> grants (set (z_rows e)) s n ns obj rel)"
  by (rule check_Inr_iff)

text \<open>
  What a history of operations wrote: the tuples that pass the verification. Every one of them has a row with the
  same columns of the key, its own or a later one that replaced it, as long as the connection is open.
\<close>

definition verified_writes :: "z_op list \<Rightarrow> relation_tuple set" where
  "verified_writes ops = {t. verify_signature t \<and> (\<exists>d r. ZWrite t d r \<in> set ops)}"

definition same_key :: "relation_tuple \<Rightarrow> relation_tuple \<Rightarrow> bool" where
  "same_key t u \<longleftrightarrow> rt_namespace t = rt_namespace u \<and> rt_object_id t = rt_object_id u \<and> rt_relation t = rt_relation u \<and>
     rt_subject_namespace t = rt_subject_namespace u \<and> rt_subject_id t = rt_subject_id u \<and> rt_subject_relation t = rt_subject_relation u"

lemma grants_same_key: "grants T s n ns obj rel \<Longrightarrow> \<forall>t \<in> T. \<exists>u \<in> U. same_key t u \<Longrightarrow> grants U s n ns obj rel"
proof (induction rule: grants.induct)
  case (direct t ns obj rel)
  then obtain u where "u \<in> U" "same_key t u" by blast
  with direct show ?case by (intro grants.direct [of u]) (auto simp: same_key_def row_matches_def)
next
  case (userset t ns obj rel n)
  then obtain u where "u \<in> U" "same_key t u" by blast
  with userset show ?case by (intro grants.userset [of u]) (auto simp: same_key_def row_matches_def next_relation_def)
qed

lemma key_conflict_same: "key_conflict t u \<Longrightarrow> same_key u t"
  by (simp add: key_conflict_def same_key_def)

lemma z_run_rows:
  "z_open (fold z_step ops zanzibar_init) = (ZClose \<notin> set ops) \<and> set (z_rows (fold z_step ops zanzibar_init)) \<subseteq> verified_writes ops \<and>
   (ZClose \<notin> set ops \<longrightarrow> (\<forall>t \<in> verified_writes ops. \<exists>u \<in> set (z_rows (fold z_step ops zanzibar_init)). same_key t u))"
proof (induction ops rule: rev_induct)
  case Nil
  then show ?case by (simp add: zanzibar_init_def verified_writes_def)
next
  case (snoc x ops)
  let ?e = "fold z_step ops zanzibar_init"
  show ?case
  proof (cases x)
    case (ZWrite t d r)
    have w: "verified_writes (ops @ [x]) = (if verify_signature t then insert t (verified_writes ops) else verified_writes ops)"
      using ZWrite by (auto simp: verified_writes_def)
    have st: "z_step x ?e = (if verify_signature t \<and> z_open ?e then ?e\<lparr>z_rows := insert_or_replace t (z_rows ?e)\<rparr> else ?e)"
      using ZWrite by (simp add: z_step_def write_tuple_def get_conn_def guardE_def)
    have keep: "\<exists>u \<in> set (insert_or_replace t (z_rows ?e)). same_key v u" if "\<exists>u \<in> set (z_rows ?e). same_key v u" for v
      using that key_conflict_same by (fastforce simp: set_insert_or_replace same_key_def)
    have new: "\<exists>u \<in> set (insert_or_replace t (z_rows ?e)). same_key t u" by (auto simp: set_insert_or_replace same_key_def)
    have x: "x \<noteq> ZClose" using ZWrite by simp
    show ?thesis
    proof (cases "verify_signature t \<and> z_open ?e")
      case True
      then show ?thesis using snoc x keep new by (auto simp: st w) (auto simp: set_insert_or_replace)
    next
      case False
      then show ?thesis using snoc x by (auto simp: st w split: if_splits)
    qed
  next
    case ZClose
    then show ?thesis using snoc by (auto simp: z_step_def zanzibar_close_def verified_writes_def)
  qed
qed

text \<open>
  C2. Only root-authority tuples open an object, and all of them do: after any sequence of writes (of arbitrary, also
  forged, tuples) and closes on a fresh engine, a permission check answers True exactly when the engine was not
  closed and a chain within the depth, made only of tuples that were written and pass \<open>verify_signature\<close>, grants the
  relation.
\<close>

theorem permission_rests_on_verified_tuples:
  "check (fold z_step ops zanzibar_init) ns obj rel s d = Inr True \<longleftrightarrow>
     ZClose \<notin> set ops \<and> (\<exists>n. int n < d \<and> grants (verified_writes ops) s n ns obj rel)"
  using z_run_rows [of ops] grants_mono [of "set (z_rows (fold z_step ops zanzibar_init))" s _ ns obj rel "verified_writes ops"]
    grants_same_key [of "verified_writes ops" s _ ns obj rel "set (z_rows (fold z_step ops zanzibar_init))"]
  by (auto simp: check_Inr_iff)

definition demo_tuple :: "string \<Rightarrow> string \<Rightarrow> string option \<Rightarrow> relation_tuple" where
  "demo_tuple ns i r =
     \<lparr>rt_namespace = ''dht'', rt_object_id = ''k'', rt_relation = ''write'',
      rt_subject_namespace = ns, rt_subject_id = i, rt_subject_relation = r,
      rt_authority = Some ''did:warm:root:1'', rt_signature = Some ''ROOT_AUTHORITY_SIG''\<rparr>"

lemma demo_check: "check (fold z_step [ZWrite (demo_tuple ''user'' ''bob'' None) False True] zanzibar_init)
    ''dht'' ''k'' ''write'' ''bob'' 5 = Inr True"
  by code_simp

text \<open>
  Permissions only grow: the engine has no operation that takes a permission away, so whatever
  is granted keeps being granted after any further writes, as long as the connection is open.
\<close>

theorem permissions_are_never_revoked:
  assumes "check e ns obj rel s d = Inr True" and "z_open (fold z_step ops e)"
  shows "check (fold z_step ops e) ns obj rel s d = Inr True"
  using assms z_run_rows_grant by (auto simp: check_Inr_iff)

theorem permissions_are_never_revoked_witness:
  "check (fold z_step [ZWrite (demo_tuple ''group'' ''g'' (Some ''member'')) False True]
            (fold z_step [ZWrite (demo_tuple ''user'' ''bob'' None) False True] zanzibar_init))
     ''dht'' ''k'' ''write'' ''bob'' 5 = Inr True"
  by (rule permissions_are_never_revoked [OF demo_check]) code_simp

end
