(* ===== verification/Speculative.thy ===== *)
theory Speculative
  imports Prelude Complex_Main
begin

text \<open>
  The speculative governance buffer, \<^verbatim>\<open>kernel/ops/speculative_buffer.py\<close>: layers of staged changes,
  one of which may be the active overlay. Values are of an arbitrary type; an old value may be
  missing. The two \<open>time.time()\<close> defaults of \<open>StagedChange\<close> are the arguments \<open>now\<close> and \<open>expires\<close>.
  The locale \<open>overlay\<close> is what the policy engine relies on when it reads thresholds through the
  buffer.
\<close>

section \<open>The buffer\<close>

record 'v staged_change =
  sc_change_id :: string
  sc_target_key :: string
  sc_old_value :: "'v option"
  sc_new_value :: 'v
  sc_proposed_by :: string
  sc_timestamp :: rat
  sc_expires_at :: rat

type_synonym 'v layer = "(string, 'v staged_change) dict"

record 'v speculative_manager =
  sm_buffers :: "(string, 'v layer) dict"
  sm_active_overlay :: "string option"

definition spec_init :: "'v speculative_manager" where
  "spec_init = \<lparr>sm_buffers = [], sm_active_overlay = None\<rparr>"

definition create_layer :: "string \<Rightarrow> 'v speculative_manager \<Rightarrow> 'v speculative_manager" where
  "create_layer l m =
     (if dget (sm_buffers m) l = None then m\<lparr>sm_buffers := dset l [] (sm_buffers m)\<rparr> else m)"

definition stage_change ::
  "string \<Rightarrow> string \<Rightarrow> string \<Rightarrow> 'v option \<Rightarrow> 'v \<Rightarrow> string \<Rightarrow> rat \<Rightarrow> rat \<Rightarrow>
   'v speculative_manager \<Rightarrow> 'v speculative_manager" where
  "stage_change l cid target old_val new_val proposer now expires m =
     (let m1 = (if dget (sm_buffers m) l = None then create_layer l m else m);
          change = \<lparr>sc_change_id = cid, sc_target_key = target, sc_old_value = old_val,
                    sc_new_value = new_val, sc_proposed_by = proposer, sc_timestamp = now,
                    sc_expires_at = expires\<rparr>
      in case dget (sm_buffers m1) l of
           Some lay \<Rightarrow> m1\<lparr>sm_buffers := dset l (dset target change lay) (sm_buffers m1)\<rparr>
         | None \<Rightarrow> m1)"

definition activate_layer :: "string \<Rightarrow> 'v speculative_manager \<Rightarrow> 'v speculative_manager" where
  "activate_layer l m =
     (if dget (sm_buffers m) l \<noteq> None then m\<lparr>sm_active_overlay := Some l\<rparr> else m)"

definition deactivate_layer :: "'v speculative_manager \<Rightarrow> 'v speculative_manager" where
  "deactivate_layer m = m\<lparr>sm_active_overlay := None\<rparr>"

text \<open>The test \<open>not self._active_overlay\<close> is true for None and for the empty name.\<close>

definition get_effective_value :: "'v speculative_manager \<Rightarrow> string \<Rightarrow> 'v \<Rightarrow> 'v" where
  "get_effective_value m target real_value =
     (case sm_active_overlay m of
        None \<Rightarrow> real_value
      | Some l \<Rightarrow>
          if l = [] then real_value
          else case dget (sm_buffers m) l of
                 None \<Rightarrow> real_value
               | Some lay \<Rightarrow> (case dget lay target of Some c \<Rightarrow> sc_new_value c | None \<Rightarrow> real_value))"

definition commit_layer ::
  "string \<Rightarrow> 'v speculative_manager \<Rightarrow> 'v staged_change list \<times> 'v speculative_manager" where
  "commit_layer l m =
     (case dget (sm_buffers m) l of
        None \<Rightarrow> ([], m)
      | Some lay \<Rightarrow>
          (dvalues lay,
           m\<lparr>sm_buffers := ddel l (sm_buffers m),
             sm_active_overlay := (if sm_active_overlay m = Some l then None else sm_active_overlay m)\<rparr>))"

definition rollback_layer :: "string \<Rightarrow> 'v speculative_manager \<Rightarrow> 'v speculative_manager" where
  "rollback_layer l m =
     (let m1 = (if dget (sm_buffers m) l \<noteq> None then m\<lparr>sm_buffers := ddel l (sm_buffers m)\<rparr> else m)
      in if sm_active_overlay m1 = Some l then m1\<lparr>sm_active_overlay := None\<rparr> else m1)"

section \<open>The invariant\<close>

text \<open>
  Layers and their changes are dictionaries, every change is filed under its own target, and an
  active overlay is a layer that exists.
\<close>

definition layer_ok :: "'v layer \<Rightarrow> bool" where
  "layer_ok lay \<longleftrightarrow> dict_ok lay \<and> (\<forall>t c. dget lay t = Some c \<longrightarrow> sc_target_key c = t)"

definition spec_ok :: "'v speculative_manager \<Rightarrow> bool" where
  "spec_ok m \<longleftrightarrow>
     dict_ok (sm_buffers m) \<and> (\<forall>l lay. dget (sm_buffers m) l = Some lay \<longrightarrow> layer_ok lay) \<and>
     (\<forall>l. sm_active_overlay m = Some l \<longrightarrow> dget (sm_buffers m) l \<noteq> None)"

datatype 'v spec_op =
    CreateLayer string
  | StageChange string string string "'v option" 'v string rat rat
  | ActivateLayer string | DeactivateLayer | CommitLayer string | RollbackLayer string

fun spec_step :: "'v spec_op \<Rightarrow> 'v speculative_manager \<Rightarrow> 'v speculative_manager" where
  "spec_step (CreateLayer l) m = create_layer l m"
| "spec_step (StageChange l c t old new p now ex) m = stage_change l c t old new p now ex m"
| "spec_step (ActivateLayer l) m = activate_layer l m"
| "spec_step DeactivateLayer m = deactivate_layer m"
| "spec_step (CommitLayer l) m = snd (commit_layer l m)"
| "spec_step (RollbackLayer l) m = rollback_layer l m"

lemma layer_ok_Nil [simp]: "layer_ok []"
  by (simp add: layer_ok_def)

lemma layer_ok_dset: "layer_ok lay \<Longrightarrow> sc_target_key c = t \<Longrightarrow> layer_ok (dset t c lay)"
  by (simp add: layer_ok_def)

lemma create_layer_ok: "spec_ok m \<Longrightarrow> spec_ok (create_layer l m)"
  by (auto simp: spec_ok_def create_layer_def)

lemma create_layer_lookup:
  "dget (sm_buffers (create_layer l m)) l \<noteq> None"
  by (auto simp: create_layer_def)

lemma stage_change_ok: "spec_ok m \<Longrightarrow> spec_ok (stage_change l c t old new p now ex m)"
proof -
  assume ok: "spec_ok m"
  define m1 where "m1 = (if dget (sm_buffers m) l = None then create_layer l m else m)"
  have ok1: "spec_ok m1" using ok by (simp add: m1_def create_layer_ok)
  obtain lay where lay: "dget (sm_buffers m1) l = Some lay"
    using create_layer_lookup [of l m] by (fastforce simp: m1_def split: if_splits)
  with ok1 have "layer_ok lay" by (auto simp: spec_ok_def)
  then show ?thesis
    using ok1 lay
    by (auto simp: stage_change_def Let_def m1_def [symmetric] spec_ok_def intro: layer_ok_dset)
qed

interpretation spec_buffer: machine spec_step spec_ok
proof (unfold_locales, goal_cases)
  case (1 m x)
  then show ?case
    by (cases x)
       (auto simp: create_layer_ok stage_change_ok,
        auto simp: spec_ok_def activate_layer_def deactivate_layer_def commit_layer_def
          rollback_layer_def Let_def split: option.splits if_splits)
qed

lemma spec_init_ok [simp]: "spec_ok spec_init"
  by (simp add: spec_ok_def spec_init_def)

section \<open>Reading through the overlay\<close>

text \<open>
  What readers of the buffer rely on: without an active overlay they see the real value, and a
  target the overlay does not stage is seen as it is.
\<close>

locale overlay =
  fixes eff :: "'s \<Rightarrow> string \<Rightarrow> 'v \<Rightarrow> 'v"
    and staged :: "'s \<Rightarrow> string \<Rightarrow> 'v option"
  assumes eff_staged: "eff s t v = (case staged s t of Some w \<Rightarrow> w | None \<Rightarrow> v)"
begin

lemma eff_unstaged: "staged s t = None \<Longrightarrow> eff s t v = v"
  by (simp add: eff_staged)

lemma eff_idem: "eff s t (eff s t v) = eff s t v"
  by (simp add: eff_staged split: option.splits)

text \<open>Reading every entry of a dictionary through the overlay, key by key.\<close>

lemma read_all:
  "map_of (map (\<lambda>(k, v). (k, eff s (pre @ k) v)) d) k =
     (case map_of d k of None \<Rightarrow> None
      | Some v \<Rightarrow> Some (case staged s (pre @ k) of Some w \<Rightarrow> w | None \<Rightarrow> v))"
  by (induction d) (auto simp: eff_staged split: option.splits)

end

definition overlay_value :: "'v speculative_manager \<Rightarrow> string \<Rightarrow> 'v option" where
  "overlay_value m t =
     (case sm_active_overlay m of
        None \<Rightarrow> None
      | Some l \<Rightarrow> if l = [] then None
                  else Option.bind (dget (sm_buffers m) l) (\<lambda>lay. map_option sc_new_value (dget lay t)))"

interpretation spec_overlay: overlay get_effective_value overlay_value
  by unfold_locales
     (auto simp: get_effective_value_def overlay_value_def split: option.splits)

lemma stage_lookup:
  "dget (sm_buffers (stage_change l c t old new p now ex m)) l' =
     (if l' = l then Some (dset t \<lparr>sc_change_id = c, sc_target_key = t, sc_old_value = old,
                 sc_new_value = new, sc_proposed_by = p, sc_timestamp = now, sc_expires_at = ex\<rparr>
                 (case dget (sm_buffers m) l of Some lay \<Rightarrow> lay | None \<Rightarrow> []))
      else dget (sm_buffers m) l')"
  by (auto simp: stage_change_def Let_def create_layer_def split: option.splits)

lemma stage_active [simp]:
  "sm_active_overlay (stage_change l c t old new p now ex m) = sm_active_overlay m"
  by (auto simp: stage_change_def Let_def create_layer_def split: option.splits)

section \<open>Properties\<close>

text \<open>
  Speculation is isolated: from any reachable buffer state, staging a change in a layer that is
  not the active overlay changes the effective value of no target, and once a layer is committed
  or rolled back nothing staged in it is visible any more, whatever was active before.
\<close>

theorem speculation_is_isolated:
  assumes "m = fold spec_step ops spec_init"
  shows "(sm_active_overlay m \<noteq> Some l \<longrightarrow>
           get_effective_value (stage_change l c t old new p now ex m) t' v = get_effective_value m t' v) \<and>
         (sm_active_overlay m = Some l \<longrightarrow> get_effective_value (snd (commit_layer l m)) t' v = v) \<and>
         (sm_active_overlay m = Some l \<longrightarrow> get_effective_value (rollback_layer l m) t' v = v)"
proof -
  have "spec_ok m" using spec_buffer.run_inv [of spec_init ops] assms by simp
  then show ?thesis
    by (auto simp: get_effective_value_def stage_lookup commit_layer_def rollback_layer_def Let_def
        spec_ok_def split: option.splits)
qed

text \<open>
  A committed layer yields exactly the changes staged in it, newest per target: after staging a
  change and committing its layer, the returned list holds the new change for its target and the
  earlier changes of the layer for every other target, each target once, and the layer is gone.
\<close>

theorem commit_returns_staged_changes:
  assumes "m = fold spec_step ops spec_init"
    and "commit_layer l (stage_change l c t old new p now ex m) = (changes, m')"
  shows "distinct (map sc_target_key changes) \<and> dget (sm_buffers m') l = None \<and>
         (\<forall>x. x \<in> set changes \<longleftrightarrow>
            (x = \<lparr>sc_change_id = c, sc_target_key = t, sc_old_value = old, sc_new_value = new,
                  sc_proposed_by = p, sc_timestamp = now, sc_expires_at = ex\<rparr>) \<or>
            (\<exists>lay. dget (sm_buffers m) l = Some lay \<and> x \<in> set (dvalues lay) \<and> sc_target_key x \<noteq> t))"
proof -
  let ?ch = "\<lparr>sc_change_id = c, sc_target_key = t, sc_old_value = old, sc_new_value = new,
              sc_proposed_by = p, sc_timestamp = now, sc_expires_at = ex\<rparr>"
  let ?base = "case dget (sm_buffers m) l of Some lay \<Rightarrow> lay | None \<Rightarrow> []"
  have "spec_ok m" using spec_buffer.run_inv [of spec_init ops] assms by simp
  then have base: "layer_ok ?base" by (auto simp: spec_ok_def split: option.splits)
  then have ok: "layer_ok (dset t ?ch ?base)" by (simp add: layer_ok_dset)
  have ch: "changes = dvalues (dset t ?ch ?base)" and m': "dget (sm_buffers m') l = None"
    using assms(2) by (auto simp: commit_layer_def stage_lookup)
  have keys: "map sc_target_key (dvalues lay) = map fst lay" if "layer_ok lay" for lay :: "'a layer"
    using that by (auto simp: dvalues_def layer_ok_def dget_in_set)
  have "distinct (map sc_target_key changes)"
    using ok by (simp add: ch keys) (simp add: layer_ok_def dict_ok_def)
  moreover have "x \<in> set changes \<longleftrightarrow> x = ?ch \<or>
      (\<exists>lay. dget (sm_buffers m) l = Some lay \<and> x \<in> set (dvalues lay) \<and> sc_target_key x \<noteq> t)" for x
  proof -
    have "x \<in> set changes \<longleftrightarrow> (\<exists>k. dget (dset t ?ch ?base) k = Some x)"
      using ok by (simp add: ch set_dvalues layer_ok_def)
    also have "\<dots> \<longleftrightarrow> x = ?ch \<or> (\<exists>k. k \<noteq> t \<and> dget ?base k = Some x)" by auto
    also have "(\<exists>k. k \<noteq> t \<and> dget ?base k = Some x) \<longleftrightarrow>
        (\<exists>k. dget ?base k = Some x) \<and> sc_target_key x \<noteq> t"
      using base by (auto simp: layer_ok_def)
    also have "(\<exists>k. dget ?base k = Some x) \<longleftrightarrow> x \<in> set (dvalues ?base)"
      using base by (simp add: set_dvalues layer_ok_def)
    finally show ?thesis by (cases "dget (sm_buffers m) l") (simp_all add: dvalues_def)
  qed
  ultimately show ?thesis using m' by blast
qed

definition demo_spec_ops :: "int spec_op list" where
  "demo_spec_ops =
     [StageChange ''L'' ''c1'' ''x'' None 1 ''n'' 0 300, StageChange ''L'' ''c2'' ''y'' None 2 ''n'' 0 300,
      ActivateLayer ''L'']"

theorem speculation_is_isolated_witness:
  "get_effective_value (fold spec_step demo_spec_ops spec_init) ''x'' 9 = (1 :: int) \<and>
   get_effective_value (snd (commit_layer ''L'' (fold spec_step demo_spec_ops spec_init))) ''x'' 9 = (9 :: int)"
proof -
  have a: "sm_active_overlay (fold spec_step demo_spec_ops spec_init) = Some ''L''" by code_simp
  have e: "get_effective_value (fold spec_step demo_spec_ops spec_init) ''x'' 9 = 1" by code_simp
  from speculation_is_isolated [OF refl, of demo_spec_ops "''L''"] a e show ?thesis by blast
qed

theorem commit_returns_staged_changes_witness:
  "\<exists>changes m'. commit_layer ''L'' (stage_change ''L'' ''c3'' ''x'' (Some 1) 5 ''n'' 0 300
       (fold spec_step demo_spec_ops spec_init)) = (changes, m') \<and>
     distinct (map sc_target_key changes) \<and> dget (sm_buffers m') ''L'' = None"
proof -
  obtain ch m' where "commit_layer ''L'' (stage_change ''L'' ''c3'' ''x'' (Some 1) 5 ''n'' 0 300
       (fold spec_step demo_spec_ops spec_init)) = (ch, m')" by fastforce
  with commit_returns_staged_changes [OF refl this] show ?thesis by blast
qed

end
