(* ===== verification/Text.thy ===== *)
theory Text
  imports Prelude
begin

text \<open>
  The text the program hashes, signs and stores: decimal integers (\<open>str(int)\<close>) and the string
  literals of \<open>json.dumps\<close> with its default \<open>ensure_ascii=True\<close>. Strings are Isabelle strings, so
  characters are the code points below 256; the printer escapes the quote, the backslash, the five
  named controls, and every other character outside space to tilde as a four-digit escape. Each
  printer has a scanner that inverts it in front of any rest, which is what makes the printed
  payloads unambiguous.
\<close>

named_theorems text_scan \<open>scanners invert their printers in front of a rest\<close>

section \<open>Digits\<close>

definition hex_digit :: "nat \<Rightarrow> char" where
  "hex_digit n = (if n < 10 then char_of (48 + n) else char_of (87 + n))"

definition digit_val :: "char \<Rightarrow> nat option" where
  "digit_val c =
     (let n = of_char c :: nat
      in if 48 \<le> n \<and> n < 58 then Some (n - 48)
         else if 97 \<le> n \<and> n < 103 then Some (n - 87) else None)"

lemma digit_val_hex_digit [simp]: "n < 16 \<Longrightarrow> digit_val (hex_digit n) = Some n"
  by (auto simp: digit_val_def hex_digit_def of_char_of Let_def)

section \<open>Decimal integers\<close>

definition is_digit :: "char \<Rightarrow> bool" where
  "is_digit c \<longleftrightarrow> 48 \<le> (of_char c :: nat) \<and> (of_char c :: nat) < 58"

fun dec_of_nat :: "nat \<Rightarrow> string" where
  "dec_of_nat n = (if n < 10 then [hex_digit n] else dec_of_nat (n div 10) @ [hex_digit (n mod 10)])"

declare dec_of_nat.simps [simp del]

definition str_of_int :: "int \<Rightarrow> string" where
  "str_of_int i = (if i < 0 then ''-'' @ dec_of_nat (nat (- i)) else dec_of_nat (nat i))"

definition nat_of_dec :: "string \<Rightarrow> nat" where
  "nat_of_dec s = fold (\<lambda>c n. 10 * n + (of_char c - 48)) s 0"

definition int_of_str :: "string \<Rightarrow> int" where
  "int_of_str s = (case s of [] \<Rightarrow> 0
     | c # r \<Rightarrow> if c = CHR ''-'' then - int (nat_of_dec r) else int (nat_of_dec s))"

lemma is_digit_hex_digit [simp]: "n < 10 \<Longrightarrow> is_digit (hex_digit n)"
  by (simp add: is_digit_def hex_digit_def of_char_of)

lemma of_char_hex_digit [simp]: "n < 10 \<Longrightarrow> (of_char (hex_digit n) :: nat) = 48 + n"
  by (simp add: hex_digit_def of_char_of)

lemma dec_digits: "c \<in> set (dec_of_nat n) \<Longrightarrow> is_digit c"
  by (induction n rule: dec_of_nat.induct)
     (subst (asm) (2) dec_of_nat.simps, auto split: if_splits)

lemma dec_nonempty [simp]: "dec_of_nat n \<noteq> []"
  by (subst dec_of_nat.simps) simp

lemma nat_of_dec_of_nat [simp]: "nat_of_dec (dec_of_nat n) = n"
proof (induction n rule: dec_of_nat.induct)
  case (1 n)
  then show ?case
    by (subst dec_of_nat.simps) (auto simp: nat_of_dec_def)
qed

lemma dec_hd_not_minus: "\<exists>c r. dec_of_nat n = c # r \<and> is_digit c \<and> c \<noteq> CHR ''-''"
proof -
  obtain c r where cr: "dec_of_nat n = c # r" by (cases "dec_of_nat n") auto
  with dec_digits [of c n] have "is_digit c" by simp
  moreover have "\<not> is_digit (CHR ''-'')" by (simp add: is_digit_def)
  ultimately show ?thesis using cr by auto
qed

lemma int_of_str_of_int [simp]: "int_of_str (str_of_int i) = i"
proof (cases "i < 0")
  case True
  then show ?thesis by (simp add: str_of_int_def int_of_str_def)
next
  case False
  obtain c r where "dec_of_nat (nat i) = c # r" "c \<noteq> CHR ''-''"
    using dec_hd_not_minus by blast
  then show ?thesis
    using False nat_of_dec_of_nat [of "nat i"] by (simp add: str_of_int_def int_of_str_def)
qed

text \<open>Scanning an integer: an optional sign and the digits that follow.\<close>

definition scan_int :: "string \<Rightarrow> int \<times> string" where
  "scan_int s =
     (case s of
        [] \<Rightarrow> (0, [])
      | c # r \<Rightarrow> if c = CHR ''-'' then (int_of_str (c # takeWhile is_digit r), dropWhile is_digit r)
                  else (int_of_str (takeWhile is_digit s), dropWhile is_digit s))"

lemma scan_int_print [text_scan]:
  assumes "\<And>c r. rest = c # r \<Longrightarrow> \<not> is_digit c"
  shows "scan_int (str_of_int i @ rest) = (i, rest)"
proof -
  have tw: "takeWhile is_digit (dec_of_nat n @ rest) = dec_of_nat n"
       "dropWhile is_digit (dec_of_nat n @ rest) = rest" for n
    using assms dec_digits [of _ n] by (cases rest; auto simp: takeWhile_append dropWhile_append)+
  obtain c r where cr: "dec_of_nat (nat i) = c # r" "c \<noteq> CHR ''-''"
    using dec_hd_not_minus by blast
  show ?thesis
  proof (cases "i < 0")
    case True
    have "str_of_int i @ rest = CHR ''-'' # (dec_of_nat (nat (- i)) @ rest)"
      using True by (simp add: str_of_int_def)
    then show ?thesis
      using True by (simp add: scan_int_def tw int_of_str_def)
  next
    case False
    then have s: "str_of_int i = dec_of_nat (nat i)" by (simp add: str_of_int_def)
    have "scan_int (dec_of_nat (nat i) @ rest) =
        (int_of_str (takeWhile is_digit (dec_of_nat (nat i) @ rest)), dropWhile is_digit (dec_of_nat (nat i) @ rest))"
      using cr by (simp add: scan_int_def)
    then show ?thesis using int_of_str_of_int [of i] by (simp add: s tw)
  qed
qed

section \<open>Lower case and containment\<close>

text \<open>
  \<open>str.lower\<close> on the code points below 256, and the operator \<open>in\<close> between strings.
\<close>

definition lower_char :: "char \<Rightarrow> char" where
  "lower_char c = (let n = (of_char c :: nat) in
     if 65 \<le> n \<and> n \<le> 90 \<or> 192 \<le> n \<and> n \<le> 222 \<and> n \<noteq> 215 then char_of (n + 32) else c)"

definition py_lower :: "string \<Rightarrow> string" where
  "py_lower s = map lower_char s"

fun str_in :: "string \<Rightarrow> string \<Rightarrow> bool" where
  "str_in sub [] \<longleftrightarrow> sub = []"
| "str_in sub (c # s) \<longleftrightarrow> take (length sub) (c # s) = sub \<or> str_in sub s"

lemma str_in_iff: "str_in sub s \<longleftrightarrow> (\<exists>p q. s = p @ sub @ q)"
proof (induction s)
  case (Cons c s)
  have "take (length sub) (c # s) = sub \<longleftrightarrow> (\<exists>q. c # s = sub @ q)"
    by (metis append_eq_conv_conj)
  moreover have "(\<exists>p q. c # s = p @ sub @ q) \<longleftrightarrow> (\<exists>q. c # s = sub @ q) \<or> (\<exists>p q. s = p @ sub @ q)"
    by (auto simp: Cons_eq_append_conv)
  ultimately show ?case using Cons.IH by simp
qed auto

section \<open>String literals\<close>

definition printable :: "char \<Rightarrow> bool" where
  "printable c \<longleftrightarrow> 32 \<le> (of_char c :: nat) \<and> (of_char c :: nat) \<le> 126"

definition json_escape :: "char \<Rightarrow> string" where
  "json_escape c =
     (if c = CHR 0x22 then [CHR 0x5C, CHR 0x22]
      else if c = CHR 0x5C then [CHR 0x5C, CHR 0x5C]
      else if c = CHR 0x0A then [CHR 0x5C, CHR ''n'']
      else if c = CHR 0x0D then [CHR 0x5C, CHR ''r'']
      else if c = CHR 0x09 then [CHR 0x5C, CHR ''t'']
      else if c = CHR 0x0C then [CHR 0x5C, CHR ''f'']
      else if c = CHR 0x08 then [CHR 0x5C, CHR ''b'']
      else if printable c then [c]
      else [CHR 0x5C, CHR ''u'', CHR ''0'', CHR ''0'', hex_digit (of_char c div 16), hex_digit (of_char c mod 16)])"

definition json_string :: "string \<Rightarrow> string" where
  "json_string s = CHR 0x22 # concat (map json_escape s) @ [CHR 0x22]"

text \<open>The scanner reads up to the closing quote and answers the text and the rest.\<close>

fun scan_chars :: "string \<Rightarrow> (string \<times> string) option" where
  "scan_chars [] = None"
| "scan_chars (c # s) =
     (if c = CHR 0x22 then Some ([], s)
      else if c = CHR 0x5C then
        (case s of
           [] \<Rightarrow> None
         | e # s1 \<Rightarrow>
             if e = CHR ''u'' then
               (case s1 of
                  _ # _ # a # b # s2 \<Rightarrow>
                    (case (digit_val a, digit_val b) of
                       (Some x, Some y) \<Rightarrow>
                         map_option (\<lambda>(t, r). (char_of (16 * x + y) # t, r)) (scan_chars s2)
                     | _ \<Rightarrow> None)
                | _ \<Rightarrow> None)
             else
               map_option (\<lambda>(t, r).
                 ((if e = CHR ''n'' then CHR 0x0A else if e = CHR ''r'' then CHR 0x0D
                   else if e = CHR ''t'' then CHR 0x09 else if e = CHR ''f'' then CHR 0x0C
                   else if e = CHR ''b'' then CHR 0x08 else e) # t, r)) (scan_chars s1))
      else map_option (\<lambda>(t, r). (c # t, r)) (scan_chars s))"

definition scan_string :: "string \<Rightarrow> (string \<times> string) option" where
  "scan_string s = (case s of c # r \<Rightarrow> if c = CHR 0x22 then scan_chars r else None | [] \<Rightarrow> None)"

lemma scan_chars_escape:
  "scan_chars (json_escape c @ s) = map_option (\<lambda>(t, r). (c # t, r)) (scan_chars s)"
proof -
  have n: "(of_char c :: nat) < 256" by simp
  have hx: "(of_char c :: nat) div 16 < 16" using n by (simp add: less_mult_imp_div_less)
  have "char_of (16 * (of_char c div 16) + of_char c mod 16 :: nat) = c"
    by simp
  then show ?thesis
    using hx by (auto simp: json_escape_def)
qed

lemma scan_string_print [text_scan]: "scan_string (json_string s @ rest) = Some (s, rest)"
proof -
  have "scan_chars (concat (map json_escape s) @ CHR 0x22 # rest) = Some (s, rest)"
    by (induction s) (auto simp: scan_chars_escape)
  then show ?thesis by (simp add: scan_string_def json_string_def)
qed

lemma json_string_append_inj: "json_string s @ x = json_string t @ y \<longleftrightarrow> s = t \<and> x = y"
proof
  assume "json_string s @ x = json_string t @ y"
  then have "Some (s, x) = Some (t, y)"
    by (metis scan_string_print)
  then show "s = t \<and> x = y" by simp
qed simp

lemma json_string_inj [simp]: "json_string s = json_string t \<longleftrightarrow> s = t"
  using json_string_append_inj [of s "[]" t "[]"] by simp

section \<open>Replacing, splitting and padding\<close>

text \<open>\<open>s.replace(old, new)\<close> for a non-empty \<open>old\<close>, \<open>s.split(c)\<close> and \<open>s.strip()\<close>.\<close>

fun str_replace :: "string \<Rightarrow> string \<Rightarrow> string \<Rightarrow> string" where
  "str_replace old new [] = []"
| "str_replace old new (c # s) =
     (if old \<noteq> [] \<and> take (length old) (c # s) = old then new @ str_replace old new (drop (length old - 1) s)
      else c # str_replace old new s)"

fun split_on :: "char \<Rightarrow> string \<Rightarrow> string list" where
  "split_on c [] = [[]]"
| "split_on c (x # s) = (if x = c then [] # split_on c s else case split_on c s of [] \<Rightarrow> [[x]] | w # ws \<Rightarrow> (x # w) # ws)"

lemma split_on_free: "c \<notin> set s \<Longrightarrow> split_on c (s @ c # t) = s # split_on c t"
  by (induction s) auto

lemma split_on_none: "c \<notin> set s \<Longrightarrow> split_on c s = [s]"
  by (induction s) auto

definition is_space :: "char \<Rightarrow> bool" where
  "is_space c \<longleftrightarrow> of_char c \<in> {9 .. 13 :: nat} \<union> {28 .. 32} \<union> {133, 160}"

definition strip :: "string \<Rightarrow> string" where
  "strip s = rev (dropWhile is_space (rev (dropWhile is_space s)))"

text \<open>\<open>f'{k:0nd}'\<close> for a number.\<close>

definition zero_pad :: "nat \<Rightarrow> string \<Rightarrow> string" where
  "zero_pad n s = replicate (n - length s) (CHR ''0'') @ s"

lemma nat_of_zero_pad [simp]: "nat_of_dec (zero_pad n (dec_of_nat k)) = k"
proof -
  have "fold (\<lambda>c n. 10 * n + (of_char c - 48)) (replicate m (CHR ''0'')) (0 :: nat) = 0" for m by (induction m) simp_all
  then show ?thesis using nat_of_dec_of_nat [of k] by (simp add: zero_pad_def nat_of_dec_def)
qed

lemma zero_pad_inj [simp]: "zero_pad n (dec_of_nat i) = zero_pad n (dec_of_nat j) \<longleftrightarrow> i = j"
  by (metis nat_of_zero_pad)

end
