(* ===== verification/Consensus.thy ===== *)
theory Consensus
  imports Speculative Text
begin

text \<open>
  Byzantine agreement, \<^verbatim>\<open>kernel/sys/consensus.py\<close>: the vote class, the bridge \<open>BFTEngine\<close> to the
  native engine, and the speculative proposal pipeline. The native engine is an argument of the
  operations: \<open>cast\<close> is the one-argument call \<open>py_cast_vote(vote)\<close> the bridge makes, which may
  raise, and \<open>nprop\<close> is \<open>py_propose\<close>. What the bridge relies on is the locale \<open>vote_counter\<close>; the
  part of the engine of \<^verbatim>\<open>rust_core/src/consensus/bft.rs\<close> that Python reaches is modelled too and
  interprets it, and the properties are about that engine. Signing and
  verification (ML-DSA, in the native module) are the arguments \<open>sign\<close> and \<open>verify\<close>; the values of
  \<open>time.time()\<close> are arguments called \<open>now\<close>.
\<close>

section \<open>Votes\<close>

record rust_vote =
  rv_voter_id :: string
  rv_block_hash :: string
  rv_round :: nat
  rv_signature :: string

record vote =
  vt_block_hash :: string
  vt_voter_id :: string
  vt_region :: string
  vt_decision :: string
  vt_signature :: string
  vt_timestamp :: rat
  vt_round :: nat
  vt_inner :: rust_vote

text \<open>The keyword arguments a call may carry.\<close>

record vote_kwargs =
  kw_block_hash :: "string option"
  kw_voter_id :: "string option"
  kw_region :: "string option"
  kw_decision :: "string option"
  kw_signature :: "string option"
  kw_timestamp :: "rat option"
  kw_round :: "nat option"

definition kwget :: "'a option \<Rightarrow> 'a \<Rightarrow> 'a" where
  "kwget o1 d = (case o1 of Some x \<Rightarrow> x | None \<Rightarrow> d)"

definition no_kwargs :: vote_kwargs where
  "no_kwargs = \<lparr>kw_block_hash = None, kw_voter_id = None, kw_region = None, kw_decision = None,
                kw_signature = None, kw_timestamp = None, kw_round = None\<rparr>"

text \<open>
  The constructor of the native vote: the round must fit 64 bits, a voter id may have 1 MB and the
  two hexadecimal fields 2 MB each, in UTF-8.
\<close>

definition rust_len :: "string \<Rightarrow> nat" where
  "rust_len s = sum_list (map (\<lambda>c. if (of_char c :: nat) < 128 then 1 else 2) s)"

definition MAX_STRING_LEN :: nat where
  "MAX_STRING_LEN = 1048576"

definition MAX_HEX_LEN :: nat where
  "MAX_HEX_LEN = 2097152"

definition rust_vote_new :: "string \<Rightarrow> string \<Rightarrow> nat \<Rightarrow> string \<Rightarrow> rust_vote result" where
  "rust_vote_new voter_id block_hash rnd signature =
     (if rnd \<ge> 2 ^ 64 then Inl OverflowError
      else if rust_len voter_id > MAX_STRING_LEN then Inl ValueError
      else if rust_len block_hash > MAX_HEX_LEN then Inl ValueError
      else if rust_len signature > MAX_HEX_LEN then Inl ValueError
      else Inr \<lparr>rv_voter_id = voter_id, rv_block_hash = block_hash, rv_round = rnd, rv_signature = signature\<rparr>)"

text \<open>
  \<open>Vote.__init__\<close>: \<open>args\<close> are the positional strings (the first five) and \<open>ts_arg\<close> a sixth
  positional argument. Exactly three, and five or more, positional arguments are read; with any
  other number the positional arguments are ignored and everything comes from the keywords. The
  errors of the native constructor are those of the call.
\<close>

definition vote_init :: "string list \<Rightarrow> rat option \<Rightarrow> vote_kwargs \<Rightarrow> rat \<Rightarrow> vote result" where
  "vote_init args ts_arg kw now =
     (let rnd = kwget (kw_round kw) 0;
          bound = (\<lambda>bh vid reg dec sig ts.
             bindE (rust_vote_new vid bh rnd sig) (\<lambda>inner.
               Inr \<lparr>vt_block_hash = bh, vt_voter_id = vid, vt_region = reg, vt_decision = dec,
                    vt_signature = sig, vt_timestamp = ts, vt_round = rnd, vt_inner = inner\<rparr>))
      in if length args = 3 then
           bound (args ! 0) (args ! 1) (kwget (kw_region kw) ''GLOBAL'') (kwget (kw_decision kw) ''APPROVE'')
             (args ! 2) (kwget (kw_timestamp kw) now)
         else if length args \<ge> 5 then
           bound (args ! 0) (args ! 1) (args ! 2) (args ! 3) (args ! 4)
             (case ts_arg of Some t \<Rightarrow> t | None \<Rightarrow> kwget (kw_timestamp kw) now)
         else
           bound (kwget (kw_block_hash kw) '''') (kwget (kw_voter_id kw) '''')
             (kwget (kw_region kw) ''GLOBAL'') (kwget (kw_decision kw) ''APPROVE'')
             (kwget (kw_signature kw) '''') (kwget (kw_timestamp kw) now))"

section \<open>The bridge engine\<close>

record 'n bft_engine =
  bft_total_validators :: nat
  bft_min_regions :: nat
  bft_quorum_size :: nat
  bft_inner :: 'n
  bft_votes :: "(string, vote) dict"
  bft_committed_blocks :: "(string, bool) dict"

definition quorum_of :: "nat \<Rightarrow> nat" where
  "quorum_of n = n * 2 div 3 + 1"

definition bft_init :: "(nat \<Rightarrow> 'n) \<Rightarrow> nat \<Rightarrow> nat \<Rightarrow> 'n bft_engine" where
  "bft_init new total_validators min_regions =
     \<lparr>bft_total_validators = total_validators, bft_min_regions = min_regions,
      bft_quorum_size = quorum_of total_validators, bft_inner = new (quorum_of total_validators),
      bft_votes = [], bft_committed_blocks = []\<rparr>"

definition unique_regions :: "string \<Rightarrow> (string, vote) dict \<Rightarrow> string set" where
  "unique_regions bh votes =
     set (map vt_region (filter (\<lambda>v. vt_block_hash v = bh) (dvalues votes)))"

text \<open>
  \<open>submit_vote\<close>: the vote is recorded before the native call, so it stays recorded when that call
  raises. The answer of the native call is compared with the quorum as a number.
\<close>

definition submit_vote ::
  "(rust_vote \<Rightarrow> 'n \<Rightarrow> int result \<times> 'n) \<Rightarrow> vote \<Rightarrow> 'n bft_engine \<Rightarrow> bool result \<times> 'n bft_engine" where
  "submit_vote cast v e =
     (let e1 = e\<lparr>bft_votes := dset (vt_voter_id v) v (bft_votes e)\<rparr>
      in case cast (vt_inner v) (bft_inner e1) of
           (Inl err, n) \<Rightarrow> (Inl err, e1\<lparr>bft_inner := n\<rparr>)
         | (Inr vote_count, n) \<Rightarrow>
             (let e2 = e1\<lparr>bft_inner := n\<rparr>;
                  reached_quorum = (vote_count \<ge> int (bft_quorum_size e2))
              in if reached_quorum \<and> card (unique_regions (vt_block_hash v) (bft_votes e2)) \<ge> bft_min_regions e2
                 then (Inr True, e2\<lparr>bft_committed_blocks := dset (vt_block_hash v) True (bft_committed_blocks e2)\<rparr>)
                 else (Inr False, e2)))"

definition bft_cast_vote ::
  "(rust_vote \<Rightarrow> 'n \<Rightarrow> int result \<times> 'n) \<Rightarrow> vote \<Rightarrow> 'n bft_engine \<Rightarrow> bool result \<times> 'n bft_engine" where
  "bft_cast_vote cast v e = submit_vote cast v e"

definition is_committed :: "'n bft_engine \<Rightarrow> string \<Rightarrow> bool" where
  "is_committed e bh = (case dget (bft_committed_blocks e) bh of Some b \<Rightarrow> b | None \<Rightarrow> False)"

definition bft_propose :: "(string \<Rightarrow> 'n \<Rightarrow> 'n) \<Rightarrow> string \<Rightarrow> 'n bft_engine \<Rightarrow> 'n bft_engine" where
  "bft_propose nprop bh e = e\<lparr>bft_inner := nprop bh (bft_inner e)\<rparr>"

section \<open>The native engine\<close>

text \<open>
  The part of the native engine that Python reaches: its round stays 0 (the bridge never starts
  another), anonymous votes cannot be cast from Python, and at most 100 votes are kept per round.
\<close>

record rust_engine =
  re_round :: nat
  re_votes :: "rust_vote list"
  re_quorum_size :: nat
  re_current_proposal :: "string option"

definition rust_new :: "nat \<Rightarrow> rust_engine" where
  "rust_new q = \<lparr>re_round = 0, re_votes = [], re_quorum_size = q, re_current_proposal = None\<rparr>"

definition rust_propose :: "string \<Rightarrow> rust_engine \<Rightarrow> rust_engine" where
  "rust_propose bh e = e\<lparr>re_current_proposal := Some bh\<rparr>"

definition rust_has_quorum :: "rust_engine \<Rightarrow> bool" where
  "rust_has_quorum e \<longleftrightarrow> length (re_votes e) \<ge> re_quorum_size e"

fun replace_vote :: "rust_vote \<Rightarrow> rust_vote list \<Rightarrow> rust_vote list" where
  "replace_vote v [] = []"
| "replace_vote v (w # ws) = (if rv_voter_id w = rv_voter_id v then v # ws else w # replace_vote v ws)"

definition MAX_VOTES_PER_ROUND :: nat where
  "MAX_VOTES_PER_ROUND = 100"

definition cast_vote_verified ::
  "(rust_vote \<Rightarrow> string \<Rightarrow> bool) \<Rightarrow> rust_vote \<Rightarrow> string \<Rightarrow> rust_engine \<Rightarrow> bool result \<times> rust_engine" where
  "cast_vote_verified vsig v pk e =
     (if \<not> vsig v pk then (Inl ValueError, e)
      else if rv_round v \<noteq> re_round e then (Inl ValueError, e)
      else if (case re_current_proposal e of Some p \<Rightarrow> rv_block_hash v \<noteq> p | None \<Rightarrow> False)
        then (Inl ValueError, e)
      else if rv_voter_id v \<in> rv_voter_id ` set (re_votes e)
        then (let e1 = e\<lparr>re_votes := replace_vote v (re_votes e)\<rparr> in (Inr (rust_has_quorum e1), e1))
      else if length (re_votes e) \<ge> MAX_VOTES_PER_ROUND then (Inl ValueError, e)
      else (let e1 = e\<lparr>re_votes := re_votes e @ [v]\<rparr> in (Inr (rust_has_quorum e1), e1)))"

text \<open>
  \<open>py_cast_vote(vote, public_key_hex)\<close> takes two arguments and answers a boolean; a call without the
  key is a TypeError before the engine is entered.
\<close>

definition py_cast_vote ::
  "(rust_vote \<Rightarrow> string \<Rightarrow> bool) \<Rightarrow> string option \<Rightarrow> rust_vote \<Rightarrow> rust_engine \<Rightarrow> int result \<times> rust_engine" where
  "py_cast_vote vsig pk v e =
     (case pk of
        None \<Rightarrow> (Inl TypeError, e)
      | Some k \<Rightarrow> (case cast_vote_verified vsig v k e of
                     (Inl err, e') \<Rightarrow> (Inl err, e')
                   | (Inr b, e') \<Rightarrow> (Inr (of_bool b), e')))"

section \<open>The proposal pipeline\<close>

record 'v bft_proposal =
  bp_proposal_id :: string
  bp_target_key :: string
  bp_value :: 'v
  bp_proposer :: string
  bp_signature :: string
  bp_timestamp :: rat

record ('n, 'v) proposal_pipeline =
  pp_node_id :: string
  pp_engine :: "'n bft_engine"
  pp_active_proposals :: "(string, 'v bft_proposal) dict"
  pp_public_key :: string
  pp_private_key :: string
  pp_voter_public_keys :: "(string, string) dict"

text \<open>
  The pipeline works on the process-wide buffer, so a state is the pipeline with the buffer. The
  parameter called \<open>quorum_size\<close> is handed to the engine as its number of validators.
\<close>

type_synonym ('n, 'v) pipe_state = "('n, 'v) proposal_pipeline \<times> 'v speculative_manager"

definition pipeline_init :: "(nat \<Rightarrow> 'n) \<Rightarrow> string \<Rightarrow> nat \<Rightarrow> string \<times> string \<Rightarrow> ('n, 'v) proposal_pipeline" where
  "pipeline_init new node_id quorum_size keypair =
     \<lparr>pp_node_id = node_id, pp_engine = bft_init new quorum_size 1, pp_active_proposals = [],
      pp_public_key = fst keypair, pp_private_key = snd keypair, pp_voter_public_keys = []\<rparr>"

definition register_voter :: "string \<Rightarrow> string \<Rightarrow> ('n, 'v) proposal_pipeline \<Rightarrow> ('n, 'v) proposal_pipeline" where
  "register_voter voter_id public_key p =
     p\<lparr>pp_voter_public_keys := dset voter_id public_key (pp_voter_public_keys p)\<rparr>"

definition get_public_key :: "('n, 'v) proposal_pipeline \<Rightarrow> string" where
  "get_public_key p = pp_public_key p"

text \<open>The payload \<open>_sign_proposal\<close> signs is canonical JSON with its keys in order.\<close>

definition proposal_message :: "string \<Rightarrow> string \<Rightarrow> string \<Rightarrow> string \<Rightarrow> int \<Rightarrow> string" where
  \<open>proposal_message proposal_id target value_str proposer ts =
     ''{"proposal_id": '' @ json_string proposal_id @ '', "proposer": '' @ json_string proposer @
     '', "target": '' @ json_string target @ '', "timestamp": '' @ str_of_int ts @
     '', "value": '' @ json_string value_str @ ''}''\<close>

definition sign_proposal ::
  "(string \<Rightarrow> string \<Rightarrow> string result) \<Rightarrow> ('v \<Rightarrow> string) \<Rightarrow> rat \<Rightarrow> string \<Rightarrow> string \<Rightarrow> 'v \<Rightarrow>
   ('n, 'v) proposal_pipeline \<Rightarrow> string result" where
  "sign_proposal sign str_of now proposal_id target value p =
     sign (proposal_message proposal_id target (str_of value) (pp_node_id p) \<lfloor>now\<rfloor>) (pp_private_key p)"

definition vote_message :: "string \<Rightarrow> string \<Rightarrow> string" where
  "vote_message proposal_id voter_id = proposal_id @ '':'' @ voter_id"

definition verify_vote_signature ::
  "(string \<Rightarrow> string \<Rightarrow> string \<Rightarrow> bool) \<Rightarrow> string \<Rightarrow> string \<Rightarrow> string \<Rightarrow> ('n, 'v) proposal_pipeline \<Rightarrow> bool" where
  "verify_vote_signature verify proposal_id voter_id signature p =
     (case dget (pp_voter_public_keys p) voter_id of
        None \<Rightarrow> False
      | Some public_key \<Rightarrow> verify (vote_message proposal_id voter_id) signature public_key)"

definition create_signed_vote ::
  "(string \<Rightarrow> string \<Rightarrow> string result) \<Rightarrow> string \<Rightarrow> ('n, 'v) proposal_pipeline \<Rightarrow> (string, string) dict result" where
  "create_signed_vote sign proposal_id p =
     bindE (sign (vote_message proposal_id (pp_node_id p)) (pp_private_key p)) (\<lambda>signature.
       Inr [(''proposal_id'', proposal_id), (''voter_id'', pp_node_id p), (''signature'', signature),
            (''public_key'', pp_public_key p)])"

definition pending :: "string \<Rightarrow> string" where
  "pending prop_id = ''pending:'' @ prop_id"

text \<open>
  \<open>propose\<close>: the change is staged before the proposal is signed, so a failing signature leaves the
  staged layer behind. \<open>gen_id\<close> is the digest prefix of the target, the value and the time.
\<close>

definition propose ::
  "(string \<Rightarrow> string \<Rightarrow> string result) \<Rightarrow> ('v \<Rightarrow> string) \<Rightarrow> (string \<Rightarrow> 'v \<Rightarrow> rat \<Rightarrow> string) \<Rightarrow>
   (string \<Rightarrow> 'n \<Rightarrow> 'n) \<Rightarrow> rat \<Rightarrow> string \<Rightarrow> 'v \<Rightarrow> string option \<Rightarrow> ('n, 'v) pipe_state \<Rightarrow>
   string result \<times> ('n, 'v) pipe_state" where
  "propose sign str_of gen_id nprop now target value proposal_id st =
     (let (p, buf) = st;
          prop_id = (case proposal_id of
                       Some i \<Rightarrow> if i \<noteq> [] then i else gen_id target value now
                     | None \<Rightarrow> gen_id target value now);
          buf1 = stage_change (pending prop_id) prop_id target None value (pp_node_id p) now (now + 300) buf
      in case sign_proposal sign str_of now prop_id target value p of
           Inl err \<Rightarrow> (Inl err, (p, buf1))
         | Inr signature \<Rightarrow>
             (let pr = \<lparr>bp_proposal_id = prop_id, bp_target_key = target, bp_value = value,
                        bp_proposer = pp_node_id p, bp_signature = signature, bp_timestamp = now\<rparr>;
                  p1 = p\<lparr>pp_active_proposals := dset prop_id pr (pp_active_proposals p),
                         pp_engine := bft_propose nprop prop_id (pp_engine p)\<rparr>
              in (Inr prop_id, (p1, buf1))))"

definition commit_proposal :: "string \<Rightarrow> ('n, 'v) pipe_state \<Rightarrow> ('n, 'v) pipe_state" where
  "commit_proposal prop_id st =
     (let (p, buf) = st
      in if dget (pp_active_proposals p) prop_id = None then (p, buf)
         else (p\<lparr>pp_active_proposals := ddel prop_id (pp_active_proposals p)\<rparr>,
               snd (commit_layer (pending prop_id) buf)))"

definition Reject :: "string \<Rightarrow> ('n, 'v) pipe_state \<Rightarrow> ('n, 'v) pipe_state" where
  "Reject prop_id st =
     (let (p, buf) = st
      in if dget (pp_active_proposals p) prop_id \<noteq> None
         then (p\<lparr>pp_active_proposals := ddel prop_id (pp_active_proposals p)\<rparr>,
               rollback_layer (pending prop_id) buf)
         else (p, buf))"

text \<open>
  \<open>receive_vote\<close>: a key in the payload is registered first, over any earlier one; a voter without a
  key is not verified at all.
\<close>

definition receive_vote ::
  "(string \<Rightarrow> string \<Rightarrow> string \<Rightarrow> bool) \<Rightarrow> (rust_vote \<Rightarrow> 'n \<Rightarrow> int result \<times> 'n) \<Rightarrow> rat \<Rightarrow>
   (string, string) dict \<Rightarrow> ('n, 'v) pipe_state \<Rightarrow> bool result \<times> ('n, 'v) pipe_state" where
  "receive_vote verify cast now payload st =
     (let (p, buf) = st
      in case (dget payload ''proposal_id'', dget payload ''voter_id'', dget payload ''signature'') of
           (Some proposal_id, Some voter_id, Some signature) \<Rightarrow>
             (let p1 = (case dget payload ''public_key'' of
                          Some pk \<Rightarrow> register_voter voter_id pk p
                        | None \<Rightarrow> p)
              in if dget (pp_voter_public_keys p1) voter_id \<noteq> None \<and>
                    \<not> verify_vote_signature verify proposal_id voter_id signature p1
                 then (Inr False, (p1, buf))
                 else
                   (case vote_init [proposal_id, voter_id, signature] None no_kwargs now of
                      Inl err \<Rightarrow> (Inl err, (p1, buf))
                    | Inr v \<Rightarrow>
                        (case bft_cast_vote cast v (pp_engine p1) of
                           (Inl err, e) \<Rightarrow> (Inl err, (p1\<lparr>pp_engine := e\<rparr>, buf))
                         | (Inr True, e) \<Rightarrow> (Inr True, commit_proposal proposal_id (p1\<lparr>pp_engine := e\<rparr>, buf))
                         | (Inr False, e) \<Rightarrow> (Inr False, (p1\<lparr>pp_engine := e\<rparr>, buf)))))
         | _ \<Rightarrow> (Inl KeyError, (p, buf)))"

section \<open>What the bridge relies on\<close>

text \<open>
  A vote counter: the native engine keeps a set of accepted votes, a pair of voter and block each,
  adds at most the vote it is given, and the number it answers is at most the number of voters it
  has accepted for that vote's block.
\<close>

locale vote_counter =
  fixes new :: "nat \<Rightarrow> 'n"
    and nprop :: "string \<Rightarrow> 'n \<Rightarrow> 'n"
    and cast :: "rust_vote \<Rightarrow> 'n \<Rightarrow> int result \<times> 'n"
    and counted :: "'n \<Rightarrow> (string \<times> string) set"
  assumes counted_new: "counted (new q) = {}"
    and counted_prop: "counted (nprop b n) \<subseteq> counted n"
    and counted_cast: "cast v n = (r, n') \<Longrightarrow>
          counted n' \<subseteq> insert (rv_voter_id v, rv_block_hash v) (counted n)"
    and cast_count: "cast v n = (Inr c, n') \<Longrightarrow> c \<le> int (card {x. (x, rv_block_hash v) \<in> counted n'})"

datatype bft_op = SubmitVote "string list" "rat option" vote_kwargs rat | ProposeBlock string

fun bft_step ::
  "(string \<Rightarrow> 'n \<Rightarrow> 'n) \<Rightarrow> (rust_vote \<Rightarrow> 'n \<Rightarrow> int result \<times> 'n) \<Rightarrow> bft_op \<Rightarrow> 'n bft_engine \<Rightarrow> 'n bft_engine" where
  "bft_step nprop cast (SubmitVote args ts kw now) e =
     (case vote_init args ts kw now of Inl err \<Rightarrow> e | Inr v \<Rightarrow> snd (submit_vote cast v e))"
| "bft_step nprop cast (ProposeBlock b) e = bft_propose nprop b e"

text \<open>The voters whose votes for a block were submitted.\<close>

fun votes_of :: "bft_op list \<Rightarrow> vote list" where
  "votes_of [] = []"
| "votes_of (SubmitVote args ts kw now # ops) =
     (case vote_init args ts kw now of Inl err \<Rightarrow> votes_of ops | Inr v \<Rightarrow> v # votes_of ops)"
| "votes_of (ProposeBlock b # ops) = votes_of ops"

definition supporters :: "bft_op list \<Rightarrow> string \<Rightarrow> string set" where
  "supporters ops b = vt_voter_id ` {v \<in> set (votes_of ops). vt_block_hash v = b}"

lemma vote_init_inner:
  "vote_init args ts kw now = Inr v \<Longrightarrow> rv_voter_id (vt_inner v) = vt_voter_id v \<and> rv_block_hash (vt_inner v) = vt_block_hash v"
  by (auto simp: vote_init_def rust_vote_new_def Let_def bindE_Inr_iff split: if_splits)

lemma vote_init_three:
  assumes "vote_init [i, x, s] None no_kwargs now = Inr v"
  shows "vt_block_hash v = i" "vt_voter_id v = x" "vt_signature v = s" "vt_decision v = ''APPROVE''"
  using assms by (auto simp: vote_init_def bindE_Inr_iff Let_def no_kwargs_def kwget_def)

lemma vote_init_three_iff:
  "(\<exists>v. vote_init [i, x, s] None no_kwargs now = Inr v) \<longleftrightarrow>
     rust_len x \<le> MAX_STRING_LEN \<and> rust_len i \<le> MAX_HEX_LEN \<and> rust_len s \<le> MAX_HEX_LEN"
  by (auto simp: vote_init_def rust_vote_new_def bindE_Inr_iff Let_def no_kwargs_def kwget_def)


lemma rust_len_le: "rust_len s \<le> 2 * length s"
  by (induction s) (auto simp: rust_len_def)

lemma votes_of_append: "votes_of (xs @ ys) = votes_of xs @ votes_of ys"
  by (induction xs rule: votes_of.induct) (auto split: sum.splits)

lemma supporters_finite [simp]: "finite (supporters ops b)"
  by (simp add: supporters_def)

lemma supporters_snoc:
  "supporters (ops @ [x]) b = supporters ops b \<union>
     (case x of SubmitVote args ts kw now \<Rightarrow>
        (case vote_init args ts kw now of Inl err \<Rightarrow> {} | Inr v \<Rightarrow> if vt_block_hash v = b then {vt_voter_id v} else {})
      | ProposeBlock _ \<Rightarrow> {})"
  by (auto simp: supporters_def votes_of_append split: bft_op.splits sum.splits)

lemma is_committed_init [simp]: "\<not> is_committed (bft_init new n mr) b"
  by (simp add: is_committed_def bft_init_def)

lemma submit_vote_quorum_size [simp]: "bft_quorum_size (snd (submit_vote cast v e)) = bft_quorum_size e"
  by (auto simp: submit_vote_def Let_def split: prod.splits sum.splits)

lemma submit_vote_inner:
  "bft_inner (snd (submit_vote cast v e)) = snd (cast (vt_inner v) (bft_inner e))"
  by (auto simp: submit_vote_def Let_def split: prod.splits sum.splits)

lemma submit_vote_commits:
  assumes "is_committed (snd (submit_vote cast v e)) b" "\<not> is_committed e b"
  shows "b = vt_block_hash v \<and>
    (\<exists>c. fst (cast (vt_inner v) (bft_inner e)) = Inr c \<and> c \<ge> int (bft_quorum_size e))"
  using assms
  by (auto simp: submit_vote_def is_committed_def Let_def split: prod.splits sum.splits if_splits)

context vote_counter
begin

lemma run_counted:
  "counted (bft_inner (fold (bft_step nprop cast) ops (bft_init new n mr))) \<subseteq>
     {(x, b). x \<in> supporters ops b}"
proof (induction ops rule: rev_induct)
  case Nil
  show ?case by (simp add: bft_init_def counted_new)
next
  case (snoc x ops)
  show ?case
  proof (cases x)
    case (SubmitVote args ts kw now)
    let ?e = "fold (bft_step nprop cast) ops (bft_init new n mr)"
    have "counted (snd (cast (vt_inner v) (bft_inner ?e))) \<subseteq> insert (vt_voter_id v, vt_block_hash v) (counted (bft_inner ?e))"
      if "vote_init args ts kw now = Inr v" for v
      using counted_cast [of "vt_inner v" "bft_inner ?e"] vote_init_inner [OF that] by (metis prod.collapse)
    with snoc SubmitVote show ?thesis
      by (auto simp: submit_vote_inner supporters_snoc split: sum.splits)
  next
    case (ProposeBlock b)
    with snoc show ?thesis
      using counted_prop by (fastforce simp: bft_propose_def supporters_snoc)
  qed
qed

lemma run_quorum_size [simp]:
  "bft_quorum_size (fold (bft_step nprop cast) ops (bft_init new n mr)) = quorum_of n"
proof (induction ops rule: rev_induct)
  case (snoc x ops)
  then show ?case by (cases x) (auto simp: bft_propose_def split: sum.splits)
qed (simp add: bft_init_def)

lemma committed_supporters:
  "is_committed (fold (bft_step nprop cast) ops (bft_init new n mr)) b \<Longrightarrow>
   quorum_of n \<le> card (supporters ops b)"
proof (induction ops rule: rev_induct)
  case (snoc x ops)
  let ?e = "fold (bft_step nprop cast) ops (bft_init new n mr)"
  let ?e' = "fold (bft_step nprop cast) (ops @ [x]) (bft_init new n mr)"
  show ?case
  proof (cases "is_committed ?e b")
    case True
    have "card (supporters ops b) \<le> card (supporters (ops @ [x]) b)"
      by (rule card_mono [OF supporters_finite]) (simp add: supporters_snoc)
    with snoc.IH [OF True] show ?thesis by simp
  next
    case False
    with snoc.prems obtain args ts kw now v where x: "x = SubmitVote args ts kw now" and v: "vote_init args ts kw now = Inr v"
      by (cases x) (auto simp: bft_propose_def is_committed_def split: sum.splits)
    have "is_committed (snd (submit_vote cast v ?e)) b" using snoc.prems x v by simp
    from submit_vote_commits [OF this False]
    obtain c where b: "b = vt_block_hash v" and c: "fst (cast (vt_inner v) (bft_inner ?e)) = Inr c"
      and q: "c \<ge> int (bft_quorum_size ?e)" by auto
    have "cast (vt_inner v) (bft_inner ?e) = (Inr c, bft_inner ?e')"
      using c x v by (simp add: submit_vote_inner prod_eq_iff)
    from cast_count [OF this] have "c \<le> int (card {y. (y, b) \<in> counted (bft_inner ?e')})"
      using vote_init_inner [OF v] b by simp
    also have "card {y. (y, b) \<in> counted (bft_inner ?e')} \<le> card (supporters (ops @ [x]) b)"
      using run_counted [of "ops @ [x]" n mr] by (intro card_mono) auto
    finally show ?thesis using q by simp
  qed
qed simp

end

text \<open>
  The native engine meets the contract, with a key and without one: it keeps at most one vote per
  voter, and the boolean it answers, read as a number, is 1 only after it has accepted the vote.
\<close>

definition accepted :: "rust_engine \<Rightarrow> (string \<times> string) set" where
  "accepted e = (\<lambda>v. (rv_voter_id v, rv_block_hash v)) ` set (re_votes e)"

lemma replace_vote_set: "set (replace_vote v vs) \<subseteq> insert v (set vs)"
  by (induction vs) auto

lemma replace_vote_in: "rv_voter_id v \<in> rv_voter_id ` set vs \<Longrightarrow> v \<in> set (replace_vote v vs)"
  by (induction vs) auto

lemma cast_verified_accepts:
  assumes "cast_vote_verified vsig v k e = (r, e')"
  shows "set (re_votes e') \<subseteq> insert v (set (re_votes e)) \<and> (\<forall>b. r = Inr b \<longrightarrow> v \<in> set (re_votes e'))"
  using assms replace_vote_set [of v "re_votes e"] replace_vote_in [of v "re_votes e"]
  by (auto simp: cast_vote_verified_def Let_def split: if_splits)

lemma py_cast_accepts:
  assumes "py_cast_vote vsig pk v e = (r, e')"
  shows "set (re_votes e') \<subseteq> insert v (set (re_votes e)) \<and> (\<forall>c. r = Inr c \<longrightarrow> c \<le> 1 \<and> v \<in> set (re_votes e'))"
  using assms cast_verified_accepts [of vsig v _ e]
  by (auto simp: py_cast_vote_def split: option.splits prod.splits sum.splits)

interpretation native: vote_counter rust_new rust_propose "py_cast_vote vsig pk" accepted
  for vsig pk
proof (unfold_locales, goal_cases)
  case (4 v n c n')
  have "c \<le> 1" "v \<in> set (re_votes n')" using py_cast_accepts [OF 4] by auto
  then have "(rv_voter_id v, rv_block_hash v) \<in> accepted n'" by (auto simp: accepted_def)
  moreover have "finite {x. (x, rv_block_hash v) \<in> accepted n'}"
    by (rule finite_subset [of _ "fst ` accepted n'"]) (auto simp: accepted_def image_iff)
  ultimately have "card {x. (x, rv_block_hash v) \<in> accepted n'} > 0" by (auto simp: card_gt_0_iff)
  with \<open>c \<le> 1\<close> show ?case by linarith
next
  case (3 v n r n')
  then show ?case using py_cast_accepts [OF 3] by (fastforce simp: accepted_def)
qed (auto simp: accepted_def rust_new_def rust_propose_def)




section \<open>The pipeline as a machine\<close>

text \<open>
  Every active proposal is filed under its own id, and a value is staged for its target in the
  layer named after it. The staged value need not be the proposal's own: proposing again under an
  active id stages the new value before the new proposal is signed.
\<close>

definition staged_value :: "'v speculative_manager \<Rightarrow> string \<Rightarrow> string \<Rightarrow> 'v option" where
  "staged_value buf l t = Option.bind (dget (sm_buffers buf) l) (\<lambda>lay. map_option sc_new_value (dget lay t))"

definition pipe_ok :: "('n, 'v) pipe_state \<Rightarrow> bool" where
  "pipe_ok st \<longleftrightarrow>
     (case st of (p, buf) \<Rightarrow>
        spec_ok buf \<and> dict_ok (pp_active_proposals p) \<and>
        (\<forall>i pr. dget (pp_active_proposals p) i = Some pr \<longrightarrow>
           bp_proposal_id pr = i \<and> staged_value buf (pending i) (bp_target_key pr) \<noteq> None))"

datatype 'v pipe_op =
    RegisterVoter string string
  | Propose rat string 'v "string option"
  | ReceiveVote rat "(string, string) dict"
  | RejectProposal string

fun pipe_step ::
  "(string \<Rightarrow> string \<Rightarrow> string result) \<Rightarrow> ('v \<Rightarrow> string) \<Rightarrow> (string \<Rightarrow> 'v \<Rightarrow> rat \<Rightarrow> string) \<Rightarrow>
   (string \<Rightarrow> string \<Rightarrow> string \<Rightarrow> bool) \<Rightarrow> (string \<Rightarrow> 'n \<Rightarrow> 'n) \<Rightarrow> (rust_vote \<Rightarrow> 'n \<Rightarrow> int result \<times> 'n) \<Rightarrow>
   'v pipe_op \<Rightarrow> ('n, 'v) pipe_state \<Rightarrow> ('n, 'v) pipe_state" where
  "pipe_step sign str_of gen_id verify nprop cast (RegisterVoter v k) (p, buf) = (register_voter v k p, buf)"
| "pipe_step sign str_of gen_id verify nprop cast (Propose now t x i) st =
     snd (propose sign str_of gen_id nprop now t x i st)"
| "pipe_step sign str_of gen_id verify nprop cast (ReceiveVote now pl) st =
     snd (receive_vote verify cast now pl st)"
| "pipe_step sign str_of gen_id verify nprop cast (RejectProposal i) st = Reject i st"

lemma pending_inj [simp]: "pending i = pending j \<longleftrightarrow> i = j"
  by (simp add: pending_def)

lemma staged_value_stage [simp]:
  "staged_value (stage_change l c t old new p now ex buf) l' t' =
     (if l' = l \<and> t' = t then Some new else staged_value buf l' t')"
  by (auto simp: staged_value_def stage_lookup split: option.splits)

lemma staged_value_commit:
  "l' \<noteq> l \<Longrightarrow> staged_value (snd (commit_layer l buf)) l' t = staged_value buf l' t"
  by (auto simp: staged_value_def commit_layer_def split: option.splits)

lemma rollback_buffers:
  "sm_buffers (rollback_layer l m) =
     (if dget (sm_buffers m) l \<noteq> None then ddel l (sm_buffers m) else sm_buffers m)"
  by (auto simp: rollback_layer_def Let_def)

lemma staged_value_rollback:
  "l' \<noteq> l \<Longrightarrow> staged_value (rollback_layer l buf) l' t = staged_value buf l' t"
  by (auto simp: staged_value_def rollback_layer_def Let_def)

lemma pipe_ok_engine [simp]: "pipe_ok (p\<lparr>pp_engine := e\<rparr>, buf) = pipe_ok (p, buf)"
  by (simp add: pipe_ok_def)

lemma pipe_ok_register [simp]: "pipe_ok (register_voter v k p, buf) = pipe_ok (p, buf)"
  by (simp add: pipe_ok_def register_voter_def)

lemma spec_ok_commit: "spec_ok buf \<Longrightarrow> spec_ok (snd (commit_layer l buf))"
  using spec_buffer.step_inv [of buf "CommitLayer l"] by simp

lemma spec_ok_rollback: "spec_ok buf \<Longrightarrow> spec_ok (rollback_layer l buf)"
  using spec_buffer.step_inv [of buf "RollbackLayer l"] by simp

lemma pipe_ok_commit: "pipe_ok st \<Longrightarrow> pipe_ok (commit_proposal i st)"
  by (auto simp: pipe_ok_def commit_proposal_def spec_ok_commit staged_value_commit split: if_splits)

lemma pipe_ok_reject: "pipe_ok st \<Longrightarrow> pipe_ok (Reject i st)"
  by (auto simp: pipe_ok_def Reject_def spec_ok_rollback staged_value_rollback split: if_splits)

lemma pipe_ok_propose: "pipe_ok st \<Longrightarrow> pipe_ok (snd (propose sign str_of gen_id nprop now t x i st))"
  unfolding propose_def Let_def
  by (auto simp: pipe_ok_def stage_change_ok bft_propose_def split: sum.splits prod.splits if_splits
      simp del: option.case_eq_if)

lemma pipe_ok_receive: "pipe_ok st \<Longrightarrow> pipe_ok (snd (receive_vote verify cast now pl st))"
  by (cases st) (auto simp: receive_vote_def Let_def pipe_ok_commit split: option.splits prod.splits sum.splits bool.splits)

interpretation pipeline: machine "pipe_step sign str_of gen_id verify nprop cast" pipe_ok
  for sign str_of gen_id verify nprop cast
proof (unfold_locales, goal_cases)
  case (1 st x)
  then show ?case
    by (cases st; cases x) (simp_all add: pipe_ok_propose pipe_ok_receive pipe_ok_reject)
qed

lemma pipeline_init_ok [simp]: "pipe_ok (pipeline_init new node q kp, spec_init)"
  by (simp add: pipe_ok_def pipeline_init_def)

section \<open>Properties\<close>


text \<open>
  A vote vouches for its own key: whatever key is registered for a voter, a payload that names
  another key is checked against the payload's key only, which replaces the registered one, and the
  vote, if its fields have an admissible length, is recorded under the voter's id.
\<close>

theorem vote_key_is_self_certified:
  assumes "dget payload ''proposal_id'' = Some i" "dget payload ''voter_id'' = Some x"
      "dget payload ''signature'' = Some s" "dget payload ''public_key'' = Some pk"
    and "verify (vote_message i x) s pk"
    and "receive_vote verify cast now payload (p, buf) = (r, (p', buf'))"
  shows "dget (pp_voter_public_keys p') x = Some pk \<and>
    (\<forall>v. vote_init [i, x, s] None no_kwargs now = Inr v \<longrightarrow> dget (bft_votes (pp_engine p')) x = Some v)"
proof -
  have votes: "dget (bft_votes (snd (submit_vote cast v e))) (vt_voter_id v) = Some v" for v e
    by (auto simp: submit_vote_def Let_def split: prod.splits sum.splits)
  have rec: "dget (bft_votes (snd (submit_vote cast v e))) x = Some v"
    if "vote_init [i, x, s] None no_kwargs now = Inr v" for v e
    using votes [of v e] vote_init_three(2) [OF that] by simp
  show ?thesis
    using assms rec [of _ "pp_engine p"]
    by (auto simp: receive_vote_def Let_def bft_cast_vote_def register_voter_def
        verify_vote_signature_def commit_proposal_def
        split: prod.splits sum.splits bool.splits if_splits)
qed

text \<open>
  A proposal's signature binds all of it: two signed payloads are equal text only when the
  proposal id, the target, the printed value, the proposer and the timestamp are all equal.
\<close>

theorem proposal_message_injective:
  "proposal_message i t v n ts = proposal_message i' t' v' n' ts' \<longleftrightarrow>
     i = i' \<and> t = t' \<and> v = v' \<and> n = n' \<and> ts = ts'"
proof
  assume eq: "proposal_message i t v n ts = proposal_message i' t' v' n' ts'"
  then have "i = i'" "n = n'" "t = t'"
    and rest: "str_of_int ts @ CHR '','' # (tl ('', \"value\": '' @ json_string v @ ''}'')) =
          str_of_int ts' @ CHR '','' # (tl ('', \"value\": '' @ json_string v' @ ''}''))"
    by (simp_all add: proposal_message_def json_string_append_inj)
  have nd: "\<not> is_digit CHR '',''" by (simp add: is_digit_def)
  have "scan_int (str_of_int k @ CHR '','' # r) = (k, CHR '','' # r)" for k r
    by (rule scan_int_print) (use nd in auto)
  with rest have "ts = ts'" "json_string v @ ''}'' = json_string v' @ ''}''"
    by (metis prod.inject, metis (no_types, lifting) append_Cons append_Nil list.inject list.sel(3) prod.inject)
  then show "i = i' \<and> t = t' \<and> v = v' \<and> n = n' \<and> ts = ts'"
    using \<open>i = i'\<close> \<open>n = n'\<close> \<open>t = t'\<close> by (simp add: json_string_append_inj)
qed simp

text \<open>
  A vote's message binds the proposal and the voter when voter ids hold no colon; without that,
  one signature is good for two votes.
\<close>

lemma vote_message_inj:
  assumes "CHR '':'' \<notin> set x" "CHR '':'' \<notin> set x'" "vote_message i x = vote_message i' x'"
  shows "i = i' \<and> x = x'"
proof -
  have rv: "rev (vote_message j y) = rev y @ CHR '':'' # rev j" for j y
    by (simp add: vote_message_def)
  have split: "takeWhile (\<lambda>c. c \<noteq> CHR '':'') (rev (vote_message j y)) = rev y \<and>
      dropWhile (\<lambda>c. c \<noteq> CHR '':'') (rev (vote_message j y)) = CHR '':'' # rev j"
    if "CHR '':'' \<notin> set y" for j y
    unfolding rv
  proof (rule conjI)
    have all: "\<And>c. c \<in> set (rev y) \<Longrightarrow> c \<noteq> CHR '':''" using that by auto
    show "takeWhile (\<lambda>c. c \<noteq> CHR '':'') (rev y @ CHR '':'' # rev j) = rev y"
      using takeWhile_append2 [where P = "\<lambda>c. c \<noteq> CHR '':''", of "rev y" "CHR '':'' # rev j"] all by simp
    show "dropWhile (\<lambda>c. c \<noteq> CHR '':'') (rev y @ CHR '':'' # rev j) = CHR '':'' # rev j"
      using dropWhile_append2 [where P = "\<lambda>c. c \<noteq> CHR '':''", of "rev y" "CHR '':'' # rev j"] all by simp
  qed
  show ?thesis
    using split [OF assms(1), of i] split [OF assms(2), of i'] unfolding assms(3) by simp
qed

lemma vote_message_ambiguous: "vote_message ''a:b'' ''c'' = vote_message ''a'' ''b:c''"
  by (simp add: vote_message_def)

text \<open>
  Proposing and then rejecting leaves no trace: for a fresh proposal id, when the proposal could
  be signed, every layer of the buffer and every active proposal is the same after the two calls as
  before. When signing fails, nothing was registered, the staged layer stays behind, and rejecting
  does not remove it.
\<close>

theorem propose_then_reject:
  assumes "i \<noteq> []" "dget (sm_buffers buf) (pending i) = None" "dget (pp_active_proposals p) i = None"
    and "propose sign str_of gen_id nprop now t x (Some i) (p, buf) = (r, st)"
    and "Reject i st = (p', buf')"
  shows "case r of
      Inr j \<Rightarrow> j = i \<and> (\<forall>l. dget (sm_buffers buf') l = dget (sm_buffers buf) l) \<and>
        (\<forall>j. dget (pp_active_proposals p') j = dget (pp_active_proposals p) j)
    | Inl err \<Rightarrow> staged_value buf' (pending i) t = Some x \<and> p' = p"
proof -
  let ?b = "stage_change (pending i) i t None x (pp_node_id p) now (now + 300) buf"
  show ?thesis
  proof (cases "sign_proposal sign str_of now i t x p")
    case (Inl err)
    then have "r = Inl err" "st = (p, ?b)" using assms(1,4) by (auto simp: propose_def Let_def)
    then show ?thesis using assms(3,5) by (auto simp: Reject_def)
  next
    case (Inr sg)
    then have "r = Inr i" "snd st = ?b" and p: "\<exists>pr. pp_active_proposals (fst st) = dset i pr (pp_active_proposals p)"
      using assms(1,4) by (auto simp: propose_def Let_def)
    moreover from p assms(5) \<open>snd st = ?b\<close>
    have "buf' = rollback_layer (pending i) ?b" "pp_active_proposals p' = ddel i (pp_active_proposals (fst st))"
      by (cases st; auto simp: Reject_def)+
    ultimately show ?thesis using p assms(2,3) by (auto simp: rollback_buffers stage_lookup)
  qed
qed

section \<open>Witnesses\<close>

definition demo_payload :: "(string, string) dict" where
  "demo_payload = [(''proposal_id'', ''P''), (''voter_id'', ''v''), (''signature'', ''s''), (''public_key'', ''k'')]"


text \<open>The pipeline on the native engine, with a signer that always signs and a verifier of one key.\<close>

definition demo_sign :: "string \<Rightarrow> string \<Rightarrow> string result" where
  "demo_sign msg key = Inr msg"

definition demo_verify :: "string \<Rightarrow> string \<Rightarrow> string \<Rightarrow> bool" where
  "demo_verify msg sig key \<longleftrightarrow> sig = ''s'' \<and> key = ''k''"

definition demo_pipe :: "(rust_engine, int) pipe_state" where
  "demo_pipe = snd (propose demo_sign (\<lambda>v. ''7'') (\<lambda>t v n. ''gen'') rust_propose 0 ''t'' 7 (Some ''P'')
     (pipeline_init rust_new ''node'' 4 (''pk'', ''sk''), spec_init))"

theorem vote_key_is_self_certified_witness:
  "dget (pp_voter_public_keys (fst (snd (receive_vote demo_verify (py_cast_vote (\<lambda>v k. True) None) 0 demo_payload
      (register_voter ''v'' ''true-key'' (fst demo_pipe), snd demo_pipe))))) ''v'' = Some ''k''"
proof -
  obtain r p' buf' where rv: "receive_vote demo_verify (py_cast_vote (\<lambda>v k. True) None) 0 demo_payload
      (register_voter ''v'' ''true-key'' (fst demo_pipe), snd demo_pipe) = (r, (p', buf'))"
    by (metis prod.collapse)
  have "dget demo_payload ''proposal_id'' = Some ''P''" "dget demo_payload ''voter_id'' = Some ''v''"
    "dget demo_payload ''signature'' = Some ''s''" "dget demo_payload ''public_key'' = Some ''k''" by code_simp+
  from vote_key_is_self_certified [OF this _ rv] rv show ?thesis by (simp add: demo_verify_def)
qed

theorem propose_then_reject_witness:
  "\<exists>p buf. Reject ''P'' demo_pipe = (p, buf) \<and> dget (sm_buffers buf) (pending ''P'') = None"
proof -
  let ?p = "pipeline_init rust_new ''node'' 4 (''pk'', ''sk'') :: (rust_engine, int) proposal_pipeline"
  obtain p' buf' where rj: "Reject ''P'' demo_pipe = (p', buf')" by fastforce
  have pr: "propose demo_sign (\<lambda>v. ''7'') (\<lambda>t v n. ''gen'') rust_propose 0 ''t'' 7 (Some ''P'') (?p, spec_init) =
      (Inr ''P'', demo_pipe)"
    by (simp add: demo_pipe_def propose_def Let_def sign_proposal_def demo_sign_def)
  have "dget (pp_active_proposals ?p) ''P'' = None" "dget (sm_buffers (spec_init :: int speculative_manager)) (pending ''P'') = None"
    by (simp_all add: pipeline_init_def spec_init_def)
  from propose_then_reject [OF _ this(2) this(1) pr rj] this(2) rj show ?thesis by auto
qed

end
