(* ===== verification/Quorum.thy ===== *)
theory Quorum
  imports Consensus
begin

text \<open>
  The two clients of quorum voting. The quorum manager, \<^verbatim>\<open>kernel/ops/quorum_manager.py\<close>, validates
  blocks with the ledger and votes on the bridge engine of the consensus theory; the service
  registry, \<^verbatim>\<open>kernel/ops/service_registry.py\<close>, registers services once two thirds of the peers it knows
  have voted for them. The ledger is the argument \<open>receive_block\<close>, the signer \<open>sign\<close>, the digest of a
  service's canonical JSON \<open>digest\<close>; the environment variables are arguments. \<open>contacts\<close> is the number
  of contacts of the routing table. What is broadcast to the mesh is returned as a list. The ledger's
  check \<open>receive_block\<close> is taken at the balances, proof and transactions of the payload, and a vote's
  payload is written without its timestamp, which nothing reads.
\<close>

section \<open>The quorum manager\<close>

record ('l, 'n) quorum_manager =
  qm_ledger :: 'l
  qm_bft :: "'n bft_engine"
  qm_peers :: "string list"

definition quorum_manager_init :: "(nat \<Rightarrow> 'n) \<Rightarrow> 'l \<Rightarrow> nat \<Rightarrow> ('l, 'n) quorum_manager" where
  "quorum_manager_init new ledger total_validators =
     \<lparr>qm_ledger = ledger, qm_bft = bft_init new total_validators 1, qm_peers = []\<rparr>"

text \<open>The mesh transport of the manager is disabled: registering and broadcasting raise.\<close>

definition stitch_broadcast :: "string \<Rightarrow> unit result" where
  "stitch_broadcast event = Inl RuntimeError"

definition stitch_register_handler :: "string \<Rightarrow> unit result" where
  "stitch_register_handler path = Inl RuntimeError"

definition pget :: "(string, string) dict \<Rightarrow> string \<Rightarrow> string" where
  "pget d k = (case dget d k of Some v \<Rightarrow> v | None \<Rightarrow> [])"

definition qm_on_receive_vote ::
  "(rust_vote \<Rightarrow> 'n \<Rightarrow> int result \<times> 'n) \<Rightarrow> rat \<Rightarrow> (string, string) dict \<Rightarrow> ('l, 'n) quorum_manager \<Rightarrow>
   unit result \<times> ('l, 'n) quorum_manager" where
  "qm_on_receive_vote cast now payload m =
     (if payload = [] then (Inr (), m)
      else
        (case vote_init [pget payload ''block_hash'', pget payload ''voter_id'', pget payload ''signature'']
                None no_kwargs now of
           Inl err \<Rightarrow> (Inl err, m)
         | Inr v \<Rightarrow>
             (case bft_cast_vote cast v (qm_bft m) of
                (Inl err, e) \<Rightarrow> (Inl err, m\<lparr>qm_bft := e\<rparr>)
              | (Inr _, e) \<Rightarrow> (Inr (), m\<lparr>qm_bft := e\<rparr>))))"

definition vote_payload_of :: "string \<Rightarrow> string \<Rightarrow> string \<Rightarrow> string \<Rightarrow> (string, string) dict" where
  "vote_payload_of block_hash voter_id decision sig =
     [(''block_hash'', block_hash), (''voter_id'', voter_id), (''decision'', decision), (''signature'', sig)]"

definition qm_cast_vote ::
  "(string \<Rightarrow> string \<Rightarrow> string result) \<Rightarrow> (rust_vote \<Rightarrow> 'n \<Rightarrow> int result \<times> 'n) \<Rightarrow> bool \<Rightarrow> string option \<Rightarrow> string option \<Rightarrow>
   rat \<Rightarrow> string \<Rightarrow> string \<Rightarrow> ('l, 'n) quorum_manager \<Rightarrow> unit result \<times> ('l, 'n) quorum_manager" where
  "qm_cast_vote sign cast has_rust identity secret now block_hash decision m =
     (if \<not> has_rust then (Inl RuntimeError, m)
      else
        (case (identity, secret) of
           (Some voter_id, Some private_key) \<Rightarrow>
             if voter_id = [] \<or> private_key = [] then (Inl RuntimeError, m)
             else
               (case sign private_key (''VOTE:'' @ block_hash @ '':'' @ decision) of
                  Inl err \<Rightarrow> (Inl err, m)
                | Inr sig \<Rightarrow>
                    (case qm_on_receive_vote cast now (vote_payload_of block_hash voter_id decision sig) m of
                       (Inl err, m') \<Rightarrow> (Inl err, m')
                     | (Inr _, m') \<Rightarrow> (stitch_broadcast ''CONSENSUS_VOTE'', m')))
         | _ \<Rightarrow> (Inl RuntimeError, m)))"

text \<open>The block of a payload is None when it is no dictionary.\<close>

definition on_receive_block ::
  "((string, string) dict \<Rightarrow> 'l \<Rightarrow> bool result \<times> 'l) \<Rightarrow>
   (string \<Rightarrow> string \<Rightarrow> ('l, 'n) quorum_manager \<Rightarrow> unit result \<times> ('l, 'n) quorum_manager) \<Rightarrow>
   (string, string) dict option \<Rightarrow> ('l, 'n) quorum_manager \<Rightarrow> unit result \<times> ('l, 'n) quorum_manager" where
  "on_receive_block receive_block vote_on block m =
     (case block of
        None \<Rightarrow> (Inr (), m)
      | Some bd \<Rightarrow>
          (case dget bd ''hash'' of
             None \<Rightarrow> (Inr (), m)
           | Some h \<Rightarrow>
               (case receive_block bd (qm_ledger m) of
                  (Inl err, l) \<Rightarrow> (Inl err, m\<lparr>qm_ledger := l\<rparr>)
                | (Inr valid, l) \<Rightarrow>
                    vote_on h (if valid then ''APPROVE'' else ''REJECT'') (m\<lparr>qm_ledger := l\<rparr>))))"

definition propagate_block :: "('l, 'n) quorum_manager \<Rightarrow> unit result" where
  "propagate_block m = stitch_broadcast ''NEW_BLOCK''"

section \<open>The service registry\<close>

type_synonym service = "(string, string) dict"

record service_proposal =
  sp_proposal_id :: string
  sp_data :: "service option"
  sp_proposer_id :: "string option"

record service_quorum =
  sq_votes :: "(string, (string, bool) dict) dict"
  sq_proposals :: "(string, service_proposal) dict"
  sq_providers :: "(string, service) dict option"

datatype service_msg = ProposalMsg service_proposal | VoteMsg string string bool

text \<open>The store's connection is None, or holds the table of providers.\<close>

definition service_init :: "(string, service) dict option \<Rightarrow> service_quorum" where
  "service_init conn = \<lparr>sq_votes = [], sq_proposals = [], sq_providers = conn\<rparr>"

definition get_verified_services :: "service_quorum \<Rightarrow> (string, service) dict" where
  "get_verified_services s = (case sq_providers s of None \<Rightarrow> [] | Some p \<Rightarrow> p)"

text \<open>
  \<open>_commit_service\<close>: the proposal is removed first; a proposal without data, or without a proposer
  when the service names no node, raises.
\<close>

definition commit_service :: "string \<Rightarrow> service_quorum \<Rightarrow> unit result \<times> service_quorum" where
  "commit_service pid s =
     (case dget (sq_proposals s) pid of
        None \<Rightarrow> (Inr (), s)
      | Some p \<Rightarrow>
          (let s1 = s\<lparr>sq_proposals := ddel pid (sq_proposals s)\<rparr>
           in case sp_data p of
                None \<Rightarrow> (Inl KeyError, s1)
              | Some dat \<Rightarrow>
                  (case (if pget dat ''node_id'' \<noteq> [] then Some (pget dat ''node_id'') else sp_proposer_id p) of
                     None \<Rightarrow> (Inl KeyError, s1)
                   | Some node \<Rightarrow>
                       (case sq_providers s1 of
                          None \<Rightarrow> (Inr (), s1)
                        | Some ps \<Rightarrow> (Inr (), s1\<lparr>sq_providers := Some (dset node dat ps)\<rparr>)))))"

definition yes_votes :: "(string, bool) dict \<Rightarrow> nat" where
  "yes_votes vs = length (filter (\<lambda>b. b) (dvalues vs))"

definition service_receive_vote ::
  "nat \<Rightarrow> string \<Rightarrow> string \<Rightarrow> bool \<Rightarrow> service_quorum \<Rightarrow> unit result \<times> service_quorum" where
  "service_receive_vote contacts voter pid vote s =
     (let vs = dset voter vote (case dget (sq_votes s) pid of Some d \<Rightarrow> d | None \<Rightarrow> []);
          s1 = s\<lparr>sq_votes := dset pid vs (sq_votes s)\<rparr>;
          threshold = (contacts + 1) * 2 div 3 + 1
      in if yes_votes vs \<ge> threshold \<and> dget (sq_proposals s1) pid \<noteq> None
         then commit_service pid s1 else (Inr (), s1))"

definition service_cast_vote ::
  "nat \<Rightarrow> string \<Rightarrow> string \<Rightarrow> bool \<Rightarrow> service_quorum \<Rightarrow> service_msg list \<times> unit result \<times> service_quorum" where
  "service_cast_vote contacts me pid vote s = ([VoteMsg pid me vote], service_receive_vote contacts me pid vote s)"

definition propose_service ::
  "(service \<Rightarrow> string) \<Rightarrow> nat \<Rightarrow> string \<Rightarrow> service \<Rightarrow> service_quorum \<Rightarrow> service_msg list \<times> string result \<times> service_quorum" where
  "propose_service digest contacts me dat s =
     (let pid = digest dat;
          p = \<lparr>sp_proposal_id = pid, sp_data = Some dat, sp_proposer_id = Some me\<rparr>;
          (msgs, r, s1) = service_cast_vote contacts me pid True (s\<lparr>sq_proposals := dset pid p (sq_proposals s)\<rparr>)
      in (ProposalMsg p # msgs, bindE r (\<lambda>_. Inr pid), s1))"

definition service_receive_proposal ::
  "nat \<Rightarrow> string \<Rightarrow> service_proposal \<Rightarrow> service_quorum \<Rightarrow> service_msg list \<times> unit result \<times> service_quorum" where
  "service_receive_proposal contacts me p s =
     (if sp_proposal_id p = [] then ([], Inr (), s)
      else if dget (sq_proposals s) (sp_proposal_id p) = None
      then service_cast_vote contacts me (sp_proposal_id p) True
             (s\<lparr>sq_proposals := dset (sp_proposal_id p) p (sq_proposals s)\<rparr>)
      else ([], Inr (), s))"

section \<open>The registry as a machine\<close>

definition registry_ok :: "service_quorum \<Rightarrow> bool" where
  "registry_ok s \<longleftrightarrow> dict_ok (sq_votes s) \<and> (\<forall>pid vs. dget (sq_votes s) pid = Some vs \<longrightarrow> dict_ok vs)"

datatype registry_op =
    ReceiveServiceVote nat string string bool | ProposeService nat string service
  | ReceiveServiceProposal nat string service_proposal

fun registry_step :: "(service \<Rightarrow> string) \<Rightarrow> registry_op \<Rightarrow> service_quorum \<Rightarrow> service_quorum" where
  "registry_step digest (ReceiveServiceVote n x pid v) s = snd (service_receive_vote n x pid v s)"
| "registry_step digest (ProposeService n me dat) s = snd (snd (propose_service digest n me dat s))"
| "registry_step digest (ReceiveServiceProposal n me p) s = snd (snd (service_receive_proposal n me p s))"

lemma commit_service_votes [simp]: "sq_votes (snd (commit_service pid s)) = sq_votes s"
  by (auto simp: commit_service_def Let_def split: option.splits)

lemma receive_vote_votes:
  "sq_votes (snd (service_receive_vote n x pid v s)) =
     dset pid (dset x v (case dget (sq_votes s) pid of Some d \<Rightarrow> d | None \<Rightarrow> [])) (sq_votes s)"
  by (simp add: service_receive_vote_def Let_def)

lemma receive_vote_registry_ok: "registry_ok s \<Longrightarrow> registry_ok (snd (service_receive_vote n x pid v s))"
  by (auto simp: registry_ok_def receive_vote_votes split: option.splits)

lemma registry_ok_proposals [simp]: "registry_ok (s\<lparr>sq_proposals := p\<rparr>) = registry_ok s"
  by (simp add: registry_ok_def)

interpretation registry: machine "registry_step digest" registry_ok
  for digest
proof (unfold_locales, goal_cases)
  case (1 s x)
  then show ?case
    by (cases x) (auto simp: receive_vote_registry_ok propose_service_def service_receive_proposal_def
        service_cast_vote_def Let_def case_prod_unfold)
qed

lemma service_init_ok [simp]: "registry_ok (service_init conn)"
  by (simp add: registry_ok_def service_init_def)

lemma yes_votes_card: "dict_ok vs \<Longrightarrow> yes_votes vs = card {x. dget vs x = Some True}"
proof (induction vs)
  case (Cons p vs)
  obtain x b where p: "p = (x, b)" by fastforce
  have ok: "dict_ok vs" and new: "dget vs x = None"
    using Cons.prems by (auto simp: p dict_ok_def dget_def map_of_eq_None_iff)
  have fin: "finite {y. dget vs y = Some True}"
    by (rule finite_subset [of _ "fst ` set vs"]) (force dest: dget_SomeD, simp)
  have "{y. dget (p # vs) y = Some True} = (if b then insert x {y. dget vs y = Some True} else {y. dget vs y = Some True})"
    using new by (auto simp: p dget_Cons split: if_splits)
  with Cons.IH [OF ok] fin new show ?case by (auto simp: p yes_votes_def dvalues_def)
qed (simp add: yes_votes_def dvalues_def)

lemma commit_service_cases:
  "sq_providers (snd (commit_service pid s)) = sq_providers s \<or>
   (\<exists>ps node dat. sq_providers s = Some ps \<and> sq_providers (snd (commit_service pid s)) = Some (dset node dat ps) \<and>
      (\<exists>p. dget (sq_proposals s) pid = Some p \<and> sp_data p = Some dat) \<and>
      dget (sq_proposals (snd (commit_service pid s))) pid = None)"
  by (auto simp: commit_service_def Let_def split: option.splits)

lemma receive_vote_commits:
  assumes "registry_ok s" and "sq_providers (snd (service_receive_vote n x pid v s)) \<noteq> sq_providers s"
  shows "\<exists>ps node dat p vs. sq_providers s = Some ps \<and>
           sq_providers (snd (service_receive_vote n x pid v s)) = Some (dset node dat ps) \<and>
           dget (sq_proposals s) pid = Some p \<and> sp_data p = Some dat \<and>
           dget (sq_proposals (snd (service_receive_vote n x pid v s))) pid = None \<and>
           dget (sq_votes (snd (service_receive_vote n x pid v s))) pid = Some vs \<and>
           (n + 1) * 2 div 3 + 1 \<le> card {y. dget vs y = Some True}"
proof -
  let ?vs = "dset x v (case dget (sq_votes s) pid of Some d \<Rightarrow> d | None \<Rightarrow> [])"
  let ?s1 = "s\<lparr>sq_votes := dset pid ?vs (sq_votes s)\<rparr>"
  have q: "yes_votes ?vs \<ge> (n + 1) * 2 div 3 + 1"
    and s': "snd (service_receive_vote n x pid v s) = snd (commit_service pid ?s1)"
    using assms(2) by (auto simp: service_receive_vote_def Let_def split: if_splits)
  have "dict_ok ?vs" using assms(1) by (auto simp: registry_ok_def split: option.splits)
  then have "(n + 1) * 2 div 3 + 1 \<le> card {y. dget ?vs y = Some True}" using q yes_votes_card by metis
  then show ?thesis
    using commit_service_cases [of pid ?s1] assms(2) unfolding s' by auto
qed

text \<open>The number of contacts an operation sees, and the proposal it brings.\<close>

fun op_contacts :: "registry_op \<Rightarrow> nat" where
  "op_contacts (ReceiveServiceVote n x pid v) = n"
| "op_contacts (ProposeService n me dat) = n"
| "op_contacts (ReceiveServiceProposal n me p) = n"

fun op_proposal :: "(service \<Rightarrow> string) \<Rightarrow> registry_op \<Rightarrow> service_proposal option" where
  "op_proposal digest (ReceiveServiceVote n x pid v) = None"
| "op_proposal digest (ProposeService n me dat) =
     Some \<lparr>sp_proposal_id = digest dat, sp_data = Some dat, sp_proposer_id = Some me\<rparr>"
| "op_proposal digest (ReceiveServiceProposal n me p) = Some p"

definition proposed :: "(service \<Rightarrow> string) \<Rightarrow> registry_op \<Rightarrow> service_quorum \<Rightarrow> string \<Rightarrow> service_proposal \<Rightarrow> bool" where
  "proposed digest x s pid p \<longleftrightarrow>
     dget (sq_proposals s) pid = Some p \<or> op_proposal digest x = Some p \<and> sp_proposal_id p = pid"

text \<open>Every operation that changes the table ends in a vote on a state that differs in proposals only.\<close>

lemma registry_step_vote:
  assumes "sq_providers (registry_step digest x s) \<noteq> sq_providers s"
  shows "\<exists>voter pid v ps. registry_step digest x s =
           snd (service_receive_vote (op_contacts x) voter pid v (s\<lparr>sq_proposals := ps\<rparr>)) \<and>
           (\<forall>i p. dget ps i = Some p \<longrightarrow> proposed digest x s i p)"
proof (cases x)
  case (ReceiveServiceVote n x pid v)
  then show ?thesis by (intro exI [of _ x] exI [of _ pid] exI [of _ v] exI [of _ "sq_proposals s"]) (simp add: proposed_def)
next
  case (ProposeService n me dat)
  then show ?thesis
    by (intro exI [of _ me] exI [of _ "digest dat"] exI [of _ True] exI)
      (rule conjI, simp add: propose_service_def service_cast_vote_def Let_def case_prod_unfold,
        simp add: proposed_def)
next
  case (ReceiveServiceProposal n me p)
  with assms show ?thesis
    by (intro exI [of _ me] exI [of _ "sp_proposal_id p"] exI [of _ True] exI)
      (rule conjI, simp add: service_receive_proposal_def service_cast_vote_def split: if_splits,
        simp add: proposed_def)
qed

section \<open>Properties\<close>

text \<open>
  Whatever messages a registry has handled, an operation that changes the table of verified
  services registers one proposed service, removes its proposal, and does so only when more than two
  thirds of the known peers and itself, counted as distinct voter ids, have voted for it.
\<close>
theorem service_listed_after_quorum:
  assumes "s = fold (registry_step digest) ops (service_init conn)"
    and "get_verified_services (registry_step digest x s) \<noteq> get_verified_services s"
  shows "\<exists>pid node dat p vs.
           proposed digest x s pid p \<and> sp_data p = Some dat \<and>
           get_verified_services (registry_step digest x s) = dset node dat (get_verified_services s) \<and>
           dget (sq_proposals (registry_step digest x s)) pid = None \<and>
           dget (sq_votes (registry_step digest x s)) pid = Some vs \<and>
           (op_contacts x + 1) * 2 div 3 + 1 \<le> card {y. dget vs y = Some True}"
proof -
  have ok: "registry_ok s" using assms(1) registry.run_inv [of "service_init conn"] by simp
  have ch: "sq_providers (registry_step digest x s) \<noteq> sq_providers s"
    using assms(2) by (auto simp: get_verified_services_def)
  from registry_step_vote [OF this] obtain voter pid v ps where
    s': "registry_step digest x s = snd (service_receive_vote (op_contacts x) voter pid v (s\<lparr>sq_proposals := ps\<rparr>))"
    and ps: "\<And>i p. dget ps i = Some p \<Longrightarrow> proposed digest x s i p" by blast
  from receive_vote_commits [of "s\<lparr>sq_proposals := ps\<rparr>" "op_contacts x" voter pid v] ok ch ps [of pid]
  show ?thesis unfolding s' get_verified_services_def
    by (elim meta_impE) (simp, simp add: s', elim exE conjE, intro exI conjI, auto)
qed

theorem service_listed_after_quorum_witness:
  "\<exists>pid node dat p vs.
     proposed (\<lambda>_. ''p'') (ReceiveServiceVote 2 ''c'' ''p'' True)
       (fold (registry_step (\<lambda>_. ''p'')) [ProposeService 2 ''a'' [(''node_id'', ''a'')], ReceiveServiceVote 2 ''b'' ''p'' True]
         (service_init (Some []))) pid p \<and> sp_data p = Some dat \<and>
     get_verified_services (registry_step (\<lambda>_. ''p'') (ReceiveServiceVote 2 ''c'' ''p'' True)
       (fold (registry_step (\<lambda>_. ''p'')) [ProposeService 2 ''a'' [(''node_id'', ''a'')], ReceiveServiceVote 2 ''b'' ''p'' True]
         (service_init (Some [])))) = dset node dat [] \<and>
     (2 + 1) * 2 div 3 + 1 \<le> card {y. dget (vs :: (string, bool) dict) y = Some True}"
proof -
  let ?s = "fold (registry_step (\<lambda>_. ''p'')) [ProposeService 2 ''a'' [(''node_id'', ''a'')], ReceiveServiceVote 2 ''b'' ''p'' True]
    (service_init (Some []))"
  have old: "get_verified_services ?s = []" by code_simp
  have "get_verified_services (registry_step (\<lambda>_. ''p'') (ReceiveServiceVote 2 ''c'' ''p'' True) ?s) \<noteq> []"
    by code_simp
  then have "get_verified_services (registry_step (\<lambda>_. ''p'') (ReceiveServiceVote 2 ''c'' ''p'' True) ?s)
    \<noteq> get_verified_services ?s" unfolding old .
  from service_listed_after_quorum [OF refl this] show ?thesis
    unfolding op_contacts.simps old by (elim exE conjE) (intro exI conjI, assumption+)
qed

text \<open>
  A validator with an identity and a working signer that receives a block, all of a length the native
  vote admits, records a vote for that block whose decision is APPROVE, also when its ledger rejected the block, and the handler never
  returns normally: the disabled transport raises when the native engine did not.
\<close>
theorem every_block_gets_an_approval:
  assumes "dget bd ''hash'' = Some h" and "receive_block bd (qm_ledger m) = (Inr valid, l)"
    and "sign sk (''VOTE:'' @ h @ '':'' @ (if valid then ''APPROVE'' else ''REJECT'')) = Inr sig"
    and "vid \<noteq> []" and "sk \<noteq> []"
    and "rust_len vid \<le> MAX_STRING_LEN" "rust_len h \<le> MAX_HEX_LEN" "rust_len sig \<le> MAX_HEX_LEN"
  shows "\<exists>err m' v. on_receive_block receive_block (qm_cast_vote sign cast True (Some vid) (Some sk) now) (Some bd) m =
           (Inl err, m') \<and> dget (bft_votes (qm_bft m')) vid = Some v \<and> vt_block_hash v = h \<and>
           vt_decision v = ''APPROVE'' \<and> vt_signature v = sig"
proof -
  from assms(6-8) obtain v where v: "vote_init [h, vid, sig] None no_kwargs now = Inr v"
    using vote_init_three_iff [of h vid sig now] by blast
  have vote: "bft_votes (snd (bft_cast_vote cast v e)) = dset vid v (bft_votes e)" for e
    using vote_init_three(2) [OF v]
    by (auto simp: bft_cast_vote_def submit_vote_def Let_def split: prod.splits sum.splits)
  from assms vote [of "qm_bft m"] vote_init_three [OF v] v show ?thesis
    by (auto simp: on_receive_block_def qm_cast_vote_def qm_on_receive_vote_def vote_payload_of_def pget_def
        stitch_broadcast_def dget_Cons Let_def split: prod.splits sum.splits)
qed

theorem every_block_gets_an_approval_witness:
  "\<exists>err m' v. on_receive_block (\<lambda>bd l. (Inr False, l))
       (qm_cast_vote (\<lambda>k msg. Inr (k @ msg)) (\<lambda>v n. (Inr 1, n)) True (Some ''v1'') (Some ''k1'') 0)
       (Some [(''hash'', ''b7'')]) (quorum_manager_init (\<lambda>q. ()) () 4) = (Inl err, m') \<and>
     dget (bft_votes (qm_bft m')) ''v1'' = Some v \<and> vt_block_hash v = ''b7'' \<and>
     vt_decision v = ''APPROVE'' \<and> vt_signature v = ''k1VOTE:b7:REJECT''"
  by (rule every_block_gets_an_approval [where valid = False and l = "()"]) (simp_all add: dget_Cons quorum_manager_init_def rust_len_def MAX_STRING_LEN_def MAX_HEX_LEN_def)

end
