(* ===== verification/Transactions.thy ===== *)
theory Transactions
  imports Text
begin

text \<open>
  ACID transactions of the kernel state, \<^verbatim>\<open>kernel/transaction.py\<close>. The storage directory holds the
  state, the write-ahead log, the backup and the temporary file. A file is missing, holds a whole
  state, or holds something that does not parse: opening for writing empties a file, and writing
  completes it. A commit is the list of its file operations in program order, the fsync calls
  included, and an I/O error, which is raised to the caller, is a prefix of that list.

  A crash is not a prefix: the directory is never synced (that part of \<open>_atomic_write\<close> is commented
  out), so what survives of it may be older than what the process saw. The second half of the theory
  models the disk below the files: which versions of each directory entry and of each file may still
  be found after a crash.

  SHA-256 is the argument \<open>H\<close> on the text hashed, \<open>dumps\<close> is \<open>json.dumps(_, sort_keys=True)\<close> of the
  data, whose type is arbitrary; \<open>e0\<close> is the empty data of the genesis state.
\<close>

section \<open>States and files\<close>

record 'd tx_state =
  ts_tick :: int
  ts_hash :: string
  ts_data :: "'d option"
  ts_rest :: "(string, 'd) dict"

datatype 'd content = Valid "'d tx_state" | Corrupt

record 'd storage =
  st_state :: "'d content option"
  st_wal :: "'d content option"
  st_backup :: "'d content option"
  st_tmp :: "'d content option"

record 'd tx_manager =
  tm_disk :: "'d storage"
  tm_current :: "'d tx_state"

definition genesis_state :: "'d \<Rightarrow> 'd tx_state" where
  "genesis_state e0 =
     \<lparr>ts_tick = 0, ts_hash = replicate 64 (CHR ''0''), ts_data = Some e0, ts_rest = []\<rparr>"

section \<open>File operations\<close>

datatype 'd fs_op =
    OpenWal | WriteWal "'d tx_state" | SyncWal | UnlinkWal
  | OpenBackup | CopyStateToBackup
  | OpenTmp | WriteTmp "'d tx_state" | SyncTmp | RenameTmpToState
  | OpenState | CopyBackupToState

fun fs_apply :: "'d fs_op \<Rightarrow> 'd storage \<Rightarrow> 'd storage" where
  "fs_apply OpenWal d = d\<lparr>st_wal := Some Corrupt\<rparr>"
| "fs_apply (WriteWal s) d = d\<lparr>st_wal := Some (Valid s)\<rparr>"
| "fs_apply SyncWal d = d"
| "fs_apply UnlinkWal d = d\<lparr>st_wal := None\<rparr>"
| "fs_apply OpenBackup d = d\<lparr>st_backup := Some Corrupt\<rparr>"
| "fs_apply CopyStateToBackup d = d\<lparr>st_backup := st_state d\<rparr>"
| "fs_apply OpenTmp d = d\<lparr>st_tmp := Some Corrupt\<rparr>"
| "fs_apply (WriteTmp s) d = d\<lparr>st_tmp := Some (Valid s)\<rparr>"
| "fs_apply SyncTmp d = d"
| "fs_apply RenameTmpToState d = d\<lparr>st_state := st_tmp d, st_tmp := None\<rparr>"
| "fs_apply OpenState d = d\<lparr>st_state := Some Corrupt\<rparr>"
| "fs_apply CopyBackupToState d = d\<lparr>st_state := st_backup d\<rparr>"

definition atomic_write :: "'d tx_state \<Rightarrow> 'd storage \<Rightarrow> 'd fs_op list" where
  "atomic_write s d =
     (if st_state d \<noteq> None then [OpenBackup, CopyStateToBackup] else []) @
     [OpenTmp, WriteTmp s, SyncTmp, RenameTmpToState]"

section \<open>Loading and recovery\<close>

text \<open>
  The file operations of \<open>_load_initial_state\<close> and its answer. An unreadable log is deleted; an
  unreadable state is restored from the backup, and an unreadable backup raises.
\<close>

definition load_ops :: "'d storage \<Rightarrow> 'd fs_op list" where
  "load_ops d =
     (case st_wal d of
        Some (Valid s) \<Rightarrow> atomic_write s d @ [UnlinkWal]
      | w \<Rightarrow> (if w = Some Corrupt then [UnlinkWal] else []) @
             (if st_state d = Some Corrupt \<and> st_backup d \<noteq> None then [OpenState, CopyBackupToState] else []))"

definition load_initial_state :: "'d \<Rightarrow> 'd storage \<Rightarrow> 'd tx_state result" where
  "load_initial_state e0 d =
     (case st_wal d of
        Some (Valid s) \<Rightarrow> Inr s
      | _ \<Rightarrow>
          (case st_state d of
             Some (Valid s) \<Rightarrow> Inr s
           | Some Corrupt \<Rightarrow>
               (case st_backup d of
                  Some (Valid s) \<Rightarrow> Inr s
                | Some Corrupt \<Rightarrow> Inl JSONDecodeError
                | None \<Rightarrow> Inr (genesis_state e0))
           | None \<Rightarrow> Inr (genesis_state e0)))"

definition tx_init :: "'d \<Rightarrow> 'd storage \<Rightarrow> 'd tx_manager result" where
  "tx_init e0 d =
     bindE (load_initial_state e0 d) (\<lambda>s.
       Inr \<lparr>tm_disk = fold fs_apply (load_ops d) d, tm_current = s\<rparr>)"

section \<open>Transactions\<close>

text \<open>A transaction starts from a deep copy of the current state.\<close>

definition begin_transaction :: "'d tx_manager \<Rightarrow> 'd tx_state" where
  "begin_transaction m = tm_current m"

definition get_state :: "'d tx_manager \<Rightarrow> 'd tx_state" where
  "get_state m = tm_current m"

definition link_state ::
  "(string \<Rightarrow> string) \<Rightarrow> ('d \<Rightarrow> string) \<Rightarrow> 'd tx_state \<Rightarrow> 'd tx_state \<Rightarrow> 'd tx_state result" where
  "link_state H dumps cur new_state =
     (case ts_data new_state of
        None \<Rightarrow> Inl KeyError
      | Some dat \<Rightarrow> Inr (new_state\<lparr>ts_tick := ts_tick cur + 1, ts_hash := H (ts_hash cur @ dumps dat)\<rparr>))"

definition commit_ops :: "'d tx_state \<Rightarrow> 'd storage \<Rightarrow> 'd fs_op list" where
  "commit_ops s d =
     (let wal = [OpenWal, WriteWal s, SyncWal]
      in wal @ atomic_write s (fold fs_apply wal d) @ [UnlinkWal])"

text \<open>
  \<open>commit\<close> with the number of file operations that take effect: all of them, or fewer when one of
  them raises. Memory moves on only when all did.
\<close>

definition commit ::
  "(string \<Rightarrow> string) \<Rightarrow> ('d \<Rightarrow> string) \<Rightarrow> nat \<Rightarrow> 'd tx_state \<Rightarrow> 'd tx_manager \<Rightarrow> unit result \<times> 'd tx_manager" where
  "commit H dumps k new_state m =
     (case link_state H dumps (tm_current m) new_state of
        Inl err \<Rightarrow> (Inl err, m)
      | Inr s \<Rightarrow>
          (let ops = commit_ops s (tm_disk m);
               disk = fold fs_apply (take k ops) (tm_disk m)
           in if k < length ops then (Inl OSError, m\<lparr>tm_disk := disk\<rparr>)
              else (Inr (), \<lparr>tm_disk = disk, tm_current = s\<rparr>)))"

section \<open>What the files hold\<close>

text \<open>
  The state file is never torn: it is only ever replaced by a rename of a complete file, or
  restored from a complete backup.
\<close>

definition disk_ok :: "'d storage \<Rightarrow> bool" where
  "disk_ok d \<longleftrightarrow> st_state d \<noteq> Some Corrupt"

text \<open>What a restart would load, for a disk whose state file is not torn.\<close>

definition durable :: "'d \<Rightarrow> 'd storage \<Rightarrow> 'd tx_state" where
  "durable e0 d =
     (case st_wal d of Some (Valid s) \<Rightarrow> s
      | _ \<Rightarrow> (case st_state d of Some (Valid s) \<Rightarrow> s | _ \<Rightarrow> genesis_state e0))"

lemma load_durable: "disk_ok d \<Longrightarrow> load_initial_state e0 d = Inr (durable e0 d)"
  by (auto simp: load_initial_state_def durable_def disk_ok_def split: option.splits content.splits)

lemmas disk_simps = disk_ok_def durable_def atomic_write_def load_ops_def commit_ops_def Let_def

text \<open>Cutting a list of file operations short, one operation at a time.\<close>

lemma take_Cons_nat: "take k (x # xs) = (if k = 0 then [] else x # take (k - 1) xs)"
  by (cases k) auto

lemma commit_prefix:
  assumes "disk_ok d"
  shows "disk_ok (fold fs_apply (take k (commit_ops s d)) d)"
    and "k = 0 \<Longrightarrow> durable e0 (fold fs_apply (take k (commit_ops s d)) d) = durable e0 d"
    and "k = 1 \<Longrightarrow> durable e0 (fold fs_apply (take k (commit_ops s d)) d) = durable e0 (d\<lparr>st_wal := None\<rparr>)"
    and "2 \<le> k \<Longrightarrow> durable e0 (fold fs_apply (take k (commit_ops s d)) d) = s"
  using assms by (auto simp: disk_simps take_Cons_nat split: option.splits content.splits)

section \<open>What survives a crash\<close>

text \<open>
  The disk below the files: inodes hold contents and directory entries name inodes. Each is a list of versions, the
  first of which the process sees and any of which a crash may leave. Operations on one name persist in order and a
  rename is one operation on both its names, so state and temporary file have common versions; operations on
  different names persist independently of each other. Syncing a file fixes its content but no entry.
\<close>

datatype fname = StateF | TmpF | WalF | BackupF

record 'd pdisk =
  pd_main :: "(nat option \<times> nat option) list"
  pd_wal :: "nat option list"
  pd_backup :: "nat option list"
  pd_inode :: "nat \<Rightarrow> 'd content list"
  pd_next :: nat

definition empty_pdisk :: "'d pdisk" where
  "empty_pdisk = \<lparr>pd_main = [(None, None)], pd_wal = [None], pd_backup = [None], pd_inode = \<lambda>i. [], pd_next = 0\<rparr>"

fun cur :: "fname \<Rightarrow> 'd pdisk \<Rightarrow> nat option" where
  "cur StateF p = fst (hd (pd_main p))"
| "cur TmpF p = snd (hd (pd_main p))"
| "cur WalF p = hd (pd_wal p)"
| "cur BackupF p = hd (pd_backup p)"

fun set_entry :: "fname \<Rightarrow> nat option \<Rightarrow> 'd pdisk \<Rightarrow> 'd pdisk" where
  "set_entry StateF x p = p\<lparr>pd_main := (x, cur TmpF p) # pd_main p\<rparr>"
| "set_entry TmpF x p = p\<lparr>pd_main := (cur StateF p, x) # pd_main p\<rparr>"
| "set_entry WalF x p = p\<lparr>pd_wal := x # pd_wal p\<rparr>"
| "set_entry BackupF x p = p\<lparr>pd_backup := x # pd_backup p\<rparr>"

definition put_inode :: "nat \<Rightarrow> 'd content list \<Rightarrow> 'd pdisk \<Rightarrow> 'd pdisk" where
  "put_inode i cs p = p\<lparr>pd_inode := (pd_inode p)(i := cs)\<rparr>"

definition held :: "fname \<Rightarrow> 'd pdisk \<Rightarrow> 'd content option" where
  "held f p = map_option (\<lambda>i. hd (pd_inode p i)) (cur f p)"

definition view :: "'d pdisk \<Rightarrow> 'd storage" where
  "view p = \<lparr>st_state = held StateF p, st_wal = held WalF p, st_backup = held BackupF p, st_tmp = held TmpF p\<rparr>"

definition open_file :: "fname \<Rightarrow> 'd pdisk \<Rightarrow> 'd pdisk" where
  "open_file f p =
     (case cur f p of
        Some i \<Rightarrow> put_inode i (Corrupt # pd_inode p i) p
      | None \<Rightarrow> set_entry f (Some (pd_next p)) (put_inode (pd_next p) [Corrupt] (p\<lparr>pd_next := Suc (pd_next p)\<rparr>)))"

definition write_file :: "fname \<Rightarrow> 'd content \<Rightarrow> 'd pdisk \<Rightarrow> 'd pdisk" where
  "write_file f c p = (case cur f p of Some i \<Rightarrow> put_inode i (c # pd_inode p i) p | None \<Rightarrow> p)"

definition sync_file :: "fname \<Rightarrow> 'd pdisk \<Rightarrow> 'd pdisk" where
  "sync_file f p = (case cur f p of Some i \<Rightarrow> put_inode i [hd (pd_inode p i)] p | None \<Rightarrow> p)"

definition copy_file :: "fname \<Rightarrow> fname \<Rightarrow> 'd pdisk \<Rightarrow> 'd pdisk" where
  "copy_file f g p = (case held f p of Some c \<Rightarrow> write_file g c p | None \<Rightarrow> p)"

fun p_apply :: "'d fs_op \<Rightarrow> 'd pdisk \<Rightarrow> 'd pdisk" where
  "p_apply OpenWal p = open_file WalF p"
| "p_apply (WriteWal s) p = write_file WalF (Valid s) p"
| "p_apply SyncWal p = sync_file WalF p"
| "p_apply UnlinkWal p = set_entry WalF None p"
| "p_apply OpenBackup p = open_file BackupF p"
| "p_apply CopyStateToBackup p = copy_file StateF BackupF p"
| "p_apply OpenTmp p = open_file TmpF p"
| "p_apply (WriteTmp s) p = write_file TmpF (Valid s) p"
| "p_apply SyncTmp p = sync_file TmpF p"
| "p_apply RenameTmpToState p = p\<lparr>pd_main := (cur TmpF p, None) # pd_main p\<rparr>"
| "p_apply OpenState p = open_file StateF p"
| "p_apply CopyBackupToState p = copy_file BackupF StateF p"

text \<open>A crash leaves one version of everything, whichever; writing back, which the system may do at any time, the newest.\<close>

definition pick :: "'a list \<Rightarrow> nat \<Rightarrow> 'a" where
  "pick xs n = xs ! (n mod length xs)"

definition crash :: "nat \<Rightarrow> nat \<Rightarrow> nat \<Rightarrow> (nat \<Rightarrow> nat) \<Rightarrow> 'd pdisk \<Rightarrow> 'd pdisk" where
  "crash a b c ci p = p\<lparr>pd_main := [pick (pd_main p) a], pd_wal := [pick (pd_wal p) b], pd_backup := [pick (pd_backup p) c],
     pd_inode := \<lambda>i. if i < pd_next p then [pick (pd_inode p i) (ci i)] else []\<rparr>"

definition write_back :: "'d pdisk \<Rightarrow> 'd pdisk" where
  "write_back = crash 0 0 0 (\<lambda>i. 0)"

datatype 'd disk_event = Commits "'d tx_state" nat | Restarts nat | Crashes nat nat nat "nat \<Rightarrow> nat" | WritesBack

fun disk_step :: "'d disk_event \<Rightarrow> 'd pdisk \<Rightarrow> 'd pdisk" where
  "disk_step (Commits s k) p = fold p_apply (take k (commit_ops s (view p))) p"
| "disk_step (Restarts k) p = fold p_apply (take k (load_ops (view p))) p"
| "disk_step (Crashes a b c ci) p = crash a b c ci p"
| "disk_step WritesBack p = write_back p"

fun committed :: "'d disk_event list \<Rightarrow> 'd tx_state list" where
  "committed [] = []"
| "committed (Commits s k # es) = s # committed es"
| "committed (e # es) = committed es"

section \<open>The invariant of the disk\<close>

definition state_inodes :: "'d pdisk \<Rightarrow> nat set" where
  "state_inodes p = {i. Some i \<in> fst ` set (pd_main p)}"

definition tmp_inodes :: "'d pdisk \<Rightarrow> nat set" where
  "tmp_inodes p = {i. Some i \<in> snd ` set (pd_main p)}"

definition wal_inodes :: "'d pdisk \<Rightarrow> nat set" where
  "wal_inodes p = {i. Some i \<in> set (pd_wal p)}"

definition backup_inodes :: "'d pdisk \<Rightarrow> nat set" where
  "backup_inodes p = {i. Some i \<in> set (pd_backup p)}"

lemmas inode_sets = state_inodes_def tmp_inodes_def wal_inodes_def backup_inodes_def

text \<open>
  Whatever version of the state file survives is one of the whole states \<open>S\<close>; a surviving log is one of them or
  does not parse; the inode that is being written is never one that the state file may name.
\<close>

definition pd_ok :: "'d tx_state set \<Rightarrow> 'd pdisk \<Rightarrow> bool" where
  "pd_ok S p \<longleftrightarrow> pd_main p \<noteq> [] \<and> pd_wal p \<noteq> [] \<and> pd_backup p \<noteq> [] \<and>
     state_inodes p \<union> tmp_inodes p \<union> wal_inodes p \<union> backup_inodes p \<subseteq> {..<pd_next p} \<and>
     (\<forall>i < pd_next p. pd_inode p i \<noteq> []) \<and>
     (\<forall>i \<in> state_inodes p. set (pd_inode p i) \<subseteq> Valid ` S) \<and>
     (\<forall>i \<in> wal_inodes p. set (pd_inode p i) \<subseteq> insert Corrupt (Valid ` S)) \<and>
     wal_inodes p \<inter> (state_inodes p \<union> tmp_inodes p \<union> backup_inodes p) = {} \<and>
     backup_inodes p \<inter> (state_inodes p \<union> tmp_inodes p) = {} \<and>
     (\<forall>i. cur TmpF p = Some i \<longrightarrow> i \<notin> state_inodes p) \<and>
     (\<forall>(x, t) \<in> set (pd_main p). t \<noteq> None \<longrightarrow> x \<noteq> t)"

fun op_ready :: "'d tx_state set \<Rightarrow> 'd fs_op \<Rightarrow> 'd pdisk \<Rightarrow> bool" where
  "op_ready S (WriteWal s) p \<longleftrightarrow> s \<in> S \<and> cur WalF p \<noteq> None"
| "op_ready S CopyStateToBackup p \<longleftrightarrow> cur StateF p \<noteq> None \<and> cur BackupF p \<noteq> None"
| "op_ready S (WriteTmp s) p \<longleftrightarrow> cur TmpF p \<noteq> None"
| "op_ready S RenameTmpToState p \<longleftrightarrow> (\<exists>i. cur TmpF p = Some i \<and> set (pd_inode p i) \<subseteq> Valid ` S)"
| "op_ready S OpenState p \<longleftrightarrow> False"
| "op_ready S CopyBackupToState p \<longleftrightarrow> False"
| "op_ready S op p \<longleftrightarrow> True"

lemma pd_okD:
  assumes "pd_ok S p"
  shows "pd_main p \<noteq> []" "pd_wal p \<noteq> []" "pd_backup p \<noteq> []" "\<And>i. i < pd_next p \<Longrightarrow> pd_inode p i \<noteq> []"
    "\<And>i. cur StateF p = Some i \<Longrightarrow> i \<in> state_inodes p \<and> i < pd_next p" "\<And>i. cur TmpF p = Some i \<Longrightarrow> i \<in> tmp_inodes p \<and> i < pd_next p"
    "\<And>i. cur WalF p = Some i \<Longrightarrow> i \<in> wal_inodes p \<and> i < pd_next p" "\<And>i. cur BackupF p = Some i \<Longrightarrow> i \<in> backup_inodes p \<and> i < pd_next p"
proof -
  show ne: "pd_main p \<noteq> []" "pd_wal p \<noteq> []" "pd_backup p \<noteq> []" and "\<And>i. i < pd_next p \<Longrightarrow> pd_inode p i \<noteq> []"
    using assms by (simp_all add: pd_ok_def)
  have sub: "state_inodes p \<union> tmp_inodes p \<union> wal_inodes p \<union> backup_inodes p \<subseteq> {..<pd_next p}" using assms by (simp add: pd_ok_def)
  have m: "hd (pd_main p) \<in> set (pd_main p)" "hd (pd_wal p) \<in> set (pd_wal p)" "hd (pd_backup p) \<in> set (pd_backup p)" using ne by simp_all
  show "i \<in> state_inodes p \<and> i < pd_next p" if "cur StateF p = Some i" for i
    using sub imageI [OF m(1), of fst] that by (auto simp: state_inodes_def)
  show "i \<in> tmp_inodes p \<and> i < pd_next p" if "cur TmpF p = Some i" for i
    using sub imageI [OF m(1), of snd] that by (auto simp: tmp_inodes_def)
  show "i \<in> wal_inodes p \<and> i < pd_next p" if "cur WalF p = Some i" for i using sub that m(2) by (auto simp: wal_inodes_def)
  show "i \<in> backup_inodes p \<and> i < pd_next p" if "cur BackupF p = Some i" for i using sub that m(3) by (auto simp: backup_inodes_def)
qed

lemma cur_apart:
  assumes "pd_ok S p" "f \<noteq> StateF" "cur f p = Some i"
  shows "i \<notin> state_inodes p" "f \<noteq> WalF \<Longrightarrow> i \<notin> wal_inodes p" "i < pd_next p" "\<And>g. cur g p = Some i \<Longrightarrow> g = f"
proof -
  note d = pd_okD [OF assms(1)]
  have x: "wal_inodes p \<inter> (state_inodes p \<union> tmp_inodes p \<union> backup_inodes p) = {}" "backup_inodes p \<inter> (state_inodes p \<union> tmp_inodes p) = {}"
    "\<And>i. cur TmpF p = Some i \<Longrightarrow> i \<notin> state_inodes p" using assms(1) by (simp_all add: pd_ok_def)
  show "i \<notin> state_inodes p" "f \<noteq> WalF \<Longrightarrow> i \<notin> wal_inodes p" "i < pd_next p"
    using assms(2,3) d(5-8) [of i] x(1,2) x(3) [of i] by (cases f; blast)+
  show "g = f" if "cur g p = Some i" for g
    using assms(2,3) that d(5-8) [of i] x(1,2) x(3) [of i] by (cases f; cases g; blast)
qed

lemma put_inode_simps [simp]:
  "pd_main (put_inode i cs p) = pd_main p" "pd_wal (put_inode i cs p) = pd_wal p" "pd_backup (put_inode i cs p) = pd_backup p"
  "pd_next (put_inode i cs p) = pd_next p" "pd_inode (put_inode i cs p) j = (if j = i then cs else pd_inode p j)" "cur f (put_inode i cs p) = cur f p"
  by (simp_all add: put_inode_def) (cases f; simp)

lemma put_inode_sets [simp]:
  "state_inodes (put_inode i cs p) = state_inodes p" "tmp_inodes (put_inode i cs p) = tmp_inodes p"
  "wal_inodes (put_inode i cs p) = wal_inodes p" "backup_inodes (put_inode i cs p) = backup_inodes p"
  by (simp_all add: inode_sets)

lemma put_inode_ok:
  assumes "pd_ok S p" "cs \<noteq> []" "i \<in> state_inodes p \<Longrightarrow> set cs \<subseteq> Valid ` S" "i \<in> wal_inodes p \<Longrightarrow> set cs \<subseteq> insert Corrupt (Valid ` S)"
  shows "pd_ok S (put_inode i cs p)"
  using assms unfolding pd_ok_def by (simp del: cur.simps)

lemma new_entry_ok:
  assumes "pd_ok S p" "f \<noteq> StateF" "cur f p = None"
  shows "pd_ok S (set_entry f (Some (pd_next p)) (put_inode (pd_next p) [Corrupt] (p\<lparr>pd_next := Suc (pd_next p)\<rparr>)))"
proof -
  let ?n = "pd_next p"
  have sub: "state_inodes p \<union> tmp_inodes p \<union> wal_inodes p \<union> backup_inodes p \<subseteq> {..<?n}" using assms(1) by (simp add: pd_ok_def)
  then have new: "?n \<notin> state_inodes p" "?n \<notin> tmp_inodes p" "?n \<notin> wal_inodes p" "?n \<notin> backup_inodes p" by auto
  note d = pd_okD(1-3) [OF assms(1)]
  have st: "{i. Some i \<in> fst ` set ((cur StateF p, t) # pd_main p)} = state_inodes p" for t
    using d(1) by (auto simp: state_inodes_def image_iff)
  have tm: "{i. Some i \<in> snd ` set ((x, Some ?n) # pd_main p)} = insert ?n (tmp_inodes p)" for x by (auto simp: tmp_inodes_def)
  have hs: "cur StateF p \<noteq> Some ?n" using pd_okD(5) [OF assms(1)] by auto
  show ?thesis
  proof (cases f)
    case TmpF
    let ?q = "set_entry TmpF (Some ?n) (put_inode ?n [Corrupt] (p\<lparr>pd_next := Suc ?n\<rparr>))"
    have c: "cur StateF (p\<lparr>pd_next := Suc ?n\<rparr>) = cur StateF p" by simp
    have q: "state_inodes ?q = state_inodes p" "tmp_inodes ?q = insert ?n (tmp_inodes p)" "wal_inodes ?q = wal_inodes p" "backup_inodes ?q = backup_inodes p"
      using st tm by (simp_all add: state_inodes_def tmp_inodes_def wal_inodes_def backup_inodes_def)
    show ?thesis unfolding TmpF using assms(1) new sub hs unfolding pd_ok_def q by (auto simp: less_Suc_eq)
  next
    case WalF
    let ?q = "set_entry WalF (Some ?n) (put_inode ?n [Corrupt] (p\<lparr>pd_next := Suc ?n\<rparr>))"
    have q: "state_inodes ?q = state_inodes p" "tmp_inodes ?q = tmp_inodes p" "wal_inodes ?q = insert ?n (wal_inodes p)" "backup_inodes ?q = backup_inodes p"
      by (auto simp: inode_sets)
    show ?thesis unfolding WalF using assms(1) new sub unfolding pd_ok_def q by (auto simp: less_Suc_eq)
  next
    case BackupF
    let ?q = "set_entry BackupF (Some ?n) (put_inode ?n [Corrupt] (p\<lparr>pd_next := Suc ?n\<rparr>))"
    have q: "state_inodes ?q = state_inodes p" "tmp_inodes ?q = tmp_inodes p" "wal_inodes ?q = wal_inodes p" "backup_inodes ?q = insert ?n (backup_inodes p)"
      by (auto simp: inode_sets)
    show ?thesis unfolding BackupF using assms(1) new sub unfolding pd_ok_def q by (auto simp: less_Suc_eq)
  qed (use assms(2) in simp)
qed

lemma wal_contents: "pd_ok S p \<Longrightarrow> i \<in> wal_inodes p \<Longrightarrow> set (pd_inode p i) \<subseteq> insert Corrupt (Valid ` S)"
  by (simp add: pd_ok_def)

lemma put_cur_ok:
  assumes "pd_ok S p" "f \<noteq> StateF" "cur f p = Some i" "cs \<noteq> []" "f = WalF \<Longrightarrow> set cs \<subseteq> insert Corrupt (Valid ` S)"
  shows "pd_ok S (put_inode i cs p)"
  using cur_apart(1,2) [OF assms(1-3)] assms(5) by (intro put_inode_ok [OF assms(1,4)]) blast+

lemma cur_wal_contents: "pd_ok S p \<Longrightarrow> cur WalF p = Some i \<Longrightarrow> set (pd_inode p i) \<subseteq> insert Corrupt (Valid ` S)"
  using pd_okD(7) wal_contents by blast

lemma open_file_ok: "pd_ok S p \<Longrightarrow> f \<noteq> StateF \<Longrightarrow> pd_ok S (open_file f p)"
proof (cases "cur f p")
  case (Some i)
  assume "pd_ok S p" "f \<noteq> StateF"
  then show ?thesis using put_cur_ok [of S p f i "Corrupt # pd_inode p i"] cur_wal_contents [of S p i] Some by (auto simp: open_file_def simp del: cur.simps)
qed (simp add: open_file_def new_entry_ok)

lemma write_file_ok: "pd_ok S p \<Longrightarrow> f \<noteq> StateF \<Longrightarrow> (f = WalF \<longrightarrow> c \<in> insert Corrupt (Valid ` S)) \<Longrightarrow> pd_ok S (write_file f c p)"
proof (cases "cur f p")
  case (Some i)
  assume "pd_ok S p" "f \<noteq> StateF" "f = WalF \<longrightarrow> c \<in> insert Corrupt (Valid ` S)"
  then show ?thesis using put_cur_ok [of S p f i "c # pd_inode p i"] cur_wal_contents [of S p i] Some by (auto simp: write_file_def simp del: cur.simps)
qed (simp add: write_file_def)

lemma sync_file_ok: "pd_ok S p \<Longrightarrow> f \<noteq> StateF \<Longrightarrow> pd_ok S (sync_file f p)"
proof (cases "cur f p")
  case (Some i)
  assume ok: "pd_ok S p" and f: "f \<noteq> StateF"
  have "hd (pd_inode p i) \<in> set (pd_inode p i)" using pd_okD(4) [OF ok] cur_apart(3) [OF ok f Some] by simp
  with ok f show ?thesis using put_cur_ok [of S p f i "[hd (pd_inode p i)]"] cur_wal_contents [of S p i] Some by (auto simp: sync_file_def simp del: cur.simps)
qed (simp add: sync_file_def)

lemma unlink_ok: "pd_ok S p \<Longrightarrow> pd_ok S (set_entry WalF None p)"
proof -
  assume ok: "pd_ok S p"
  have q: "state_inodes (set_entry WalF None p) = state_inodes p" "tmp_inodes (set_entry WalF None p) = tmp_inodes p"
    "wal_inodes (set_entry WalF None p) = wal_inodes p" "backup_inodes (set_entry WalF None p) = backup_inodes p"
    by (auto simp: inode_sets)
  show ?thesis using ok unfolding pd_ok_def q by simp
qed

lemma rename_ok:
  assumes "pd_ok S p" "cur TmpF p = Some i" "set (pd_inode p i) \<subseteq> Valid ` S"
  shows "pd_ok S (p\<lparr>pd_main := (cur TmpF p, None) # pd_main p\<rparr>)"
proof -
  let ?q = "p\<lparr>pd_main := (cur TmpF p, None) # pd_main p\<rparr>"
  have q: "state_inodes ?q = insert i (state_inodes p)" "tmp_inodes ?q = tmp_inodes p" "wal_inodes ?q = wal_inodes p" "backup_inodes ?q = backup_inodes p"
    using assms(2) by (auto simp: inode_sets)
  note c = pd_okD(6) [OF assms(1,2)]
  show ?thesis using assms c unfolding pd_ok_def q by auto
qed

lemma copy_file_ok: "pd_ok S p \<Longrightarrow> pd_ok S (copy_file StateF BackupF p)"
  by (simp add: copy_file_def write_file_ok split: option.splits)

lemma p_apply_ok: "pd_ok S p \<Longrightarrow> op_ready S op p \<Longrightarrow> pd_ok S (p_apply op p)"
proof (cases op)
  case RenameTmpToState
  assume "pd_ok S p" "op_ready S op p"
  then show ?thesis using rename_ok [of S p] RenameTmpToState by (auto simp del: cur.simps)
qed (simp_all add: open_file_ok write_file_ok sync_file_ok unlink_ok copy_file_ok del: cur.simps set_entry.simps)

interpretation disk: guarded_machine p_apply "pd_ok S" "op_ready S" for S
  by unfold_locales (rule p_apply_ok)

text \<open>The process sees the files as before.\<close>

lemma held_put:
  assumes "pd_ok S p" "f \<noteq> StateF" "cur f p = Some i"
  shows "held g (put_inode i cs p) = (if g = f then Some (hd cs) else held g p)"
  using cur_apart(4) [OF assms, of g] assms(3) by (cases "cur g p") (auto simp: held_def simp del: cur.simps)

lemma cur_new: "cur g (set_entry f x (put_inode n cs (p\<lparr>pd_next := m\<rparr>))) = (if g = f then x else cur g p)"
  by (cases f; cases g) simp_all

lemma inode_new: "pd_inode (set_entry f x (put_inode n cs (p\<lparr>pd_next := m\<rparr>))) j = (if j = n then cs else pd_inode p j)"
  by (cases f) simp_all

lemma held_open:
  assumes "pd_ok S p" "f \<noteq> StateF"
  shows "held g (open_file f p) = (if g = f then Some Corrupt else held g p)"
proof (cases "cur f p")
  case None
  have "cur g p \<noteq> Some (pd_next p)" using pd_okD(5-8) [OF assms(1), of "pd_next p"] by (cases g) (simp_all del: cur.simps, blast+)
  then show ?thesis using None by (cases "cur g p") (auto simp: open_file_def held_def cur_new inode_new simp del: cur.simps set_entry.simps)
next
  case (Some i)
  then show ?thesis using held_put [OF assms Some] by (simp add: open_file_def)
qed

lemma held_write: "pd_ok S p \<Longrightarrow> f \<noteq> StateF \<Longrightarrow> cur f p \<noteq> None \<Longrightarrow> held g (write_file f c p) = (if g = f then Some c else held g p)"
  using held_put by (fastforce simp: write_file_def simp del: cur.simps)

lemma held_sync: "pd_ok S p \<Longrightarrow> f \<noteq> StateF \<Longrightarrow> held g (sync_file f p) = held g p"
  using held_put by (fastforce simp: sync_file_def held_def simp del: cur.simps split: option.splits)

lemma view_apply:
  assumes "pd_ok S p" "op_ready S op p"
  shows "view (p_apply op p) = fs_apply op (view p)"
proof (cases op)
  case CopyStateToBackup
  then obtain c where "held StateF p = Some c" using assms(2) by (auto simp: held_def simp del: cur.simps)
  then show ?thesis using assms CopyStateToBackup by (auto simp: view_def copy_file_def held_write simp del: cur.simps)
next
  case RenameTmpToState
  then show ?thesis by (simp add: view_def held_def)
next
  case UnlinkWal
  then show ?thesis by (simp add: view_def held_def)
qed (use assms in \<open>auto simp: view_def held_open held_write held_sync simp del: cur.simps\<close>)

lemma view_run: "pd_ok S p \<Longrightarrow> guarded (op_ready S) p_apply ops p \<Longrightarrow> view (fold p_apply ops p) = fold fs_apply ops (view p)"
  by (induction ops arbitrary: p) (auto simp: view_apply p_apply_ok)


section \<open>Commits, restarts and crashes\<close>

lemma guarded_append: "guarded P f (xs @ ys) p \<longleftrightarrow> guarded P f xs p \<and> guarded P f ys (fold f xs p)"
  by (induction xs arbitrary: p) auto

lemma guarded_take: "guarded P f xs p \<Longrightarrow> guarded P f (take k xs) p"
  using guarded_append [of P f "take k xs" "drop k xs" p] by simp

lemma cur_open: "\<exists>i. cur f (open_file f p) = Some i"
  by (cases f) (auto simp: open_file_def split: option.splits)

lemma cur_write_sync [simp]: "cur f (write_file g c p) = cur f p" "cur f (sync_file g p) = cur f p"
  by (simp_all add: write_file_def sync_file_def split: option.splits)

lemma synced_content: "cur f p = Some i \<Longrightarrow> pd_inode (sync_file f (write_file f c p)) i = [c]"
  by (simp add: write_file_def sync_file_def del: cur.simps)

text \<open>The temporary file is complete and synced when it is renamed.\<close>

lemma replace_ready: "s \<in> S \<Longrightarrow> guarded (op_ready S) p_apply [OpenTmp, WriteTmp s, SyncTmp, RenameTmpToState] p"
  using cur_open [of TmpF p] synced_content [of TmpF "open_file TmpF p" _ "Valid s"] by (auto simp del: cur.simps)

lemma log_ready: "s \<in> S \<Longrightarrow> guarded (op_ready S) p_apply [OpenWal, WriteWal s, SyncWal] p"
  using cur_open [of WalF p] by (simp del: cur.simps)

lemma state_kept: "g \<noteq> StateF \<Longrightarrow> g \<noteq> TmpF \<Longrightarrow> cur StateF (open_file g p) = cur StateF p"
  by (cases g) (simp_all add: open_file_def split: option.splits)

lemma backup_ready: "cur StateF p \<noteq> None \<Longrightarrow> guarded (op_ready S) p_apply [OpenBackup, CopyStateToBackup] p"
  using cur_open [of BackupF p] by (simp add: state_kept del: cur.simps)

lemma atomic_write_ready: "s \<in> S \<Longrightarrow> st_state d = held StateF p \<Longrightarrow> guarded (op_ready S) p_apply (atomic_write s d) p"
  unfolding atomic_write_def guarded_append
  using backup_ready [of p S] replace_ready [of s S] by (auto simp: held_def simp del: cur.simps guarded.simps(2))

lemma commit_ready:
  assumes "pd_ok S p" "s \<in> S"
  shows "guarded (op_ready S) p_apply (commit_ops s (view p)) p"
proof -
  let ?wal = "[OpenWal, WriteWal s, SyncWal]"
  note l = log_ready [OF assms(2), of p]
  have "st_state (fold fs_apply ?wal (view p)) = held StateF (fold p_apply ?wal p)"
    using view_run [OF assms(1) l] by (simp add: view_def)
  from atomic_write_ready [OF assms(2) this] l show ?thesis by (simp add: commit_ops_def Let_def guarded_append del: cur.simps)
qed

lemma held_state:
  assumes "pd_ok S p" "held StateF p = Some c"
  shows "c \<in> Valid ` S"
proof -
  obtain i where i: "cur StateF p = Some i" "c = hd (pd_inode p i)" using assms(2) by (auto simp: held_def simp del: cur.simps)
  then have "c \<in> set (pd_inode p i)" using pd_okD(4,5) [OF assms(1), of i] by simp
  moreover have "set (pd_inode p i) \<subseteq> Valid ` S" using assms(1) pd_okD(5) [OF assms(1) i(1)] by (simp add: pd_ok_def)
  ultimately show ?thesis by blast
qed

lemma held_wal:
  assumes "pd_ok S p" "held WalF p = Some (Valid s)"
  shows "s \<in> S"
proof -
  obtain i where i: "cur WalF p = Some i" "Valid s = hd (pd_inode p i)" using assms(2) by (auto simp: held_def simp del: cur.simps)
  then have "Valid s \<in> set (pd_inode p i)" using pd_okD(4,7) [OF assms(1), of i] by simp
  then show ?thesis using cur_wal_contents [OF assms(1) i(1)] by auto
qed

lemma load_ready:
  assumes "pd_ok S p"
  shows "guarded (op_ready S) p_apply (load_ops (view p)) p"
proof (cases "held WalF p")
  case (Some w)
  show ?thesis
  proof (cases w)
    case (Valid s)
    from held_wal [OF assms] Some Valid have "s \<in> S" by simp
    then have "guarded (op_ready S) p_apply (atomic_write s (view p)) p" by (rule atomic_write_ready) (simp add: view_def)
    then show ?thesis using Some Valid by (simp add: load_ops_def view_def guarded_append)
  next
    case Corrupt
    then show ?thesis using Some held_state [OF assms] by (auto simp: load_ops_def view_def)
  qed
qed (use held_state [OF assms] in \<open>auto simp: load_ops_def view_def\<close>)

lemma pick_in: "xs \<noteq> [] \<Longrightarrow> pick xs n \<in> set xs"
  by (simp add: pick_def)

lemma crash_ok:
  assumes "pd_ok S p"
  shows "pd_ok S (crash a b c ci p)"
proof -
  let ?q = "crash a b c ci p"
  note d = pd_okD [OF assms]
  have m: "pick (pd_main p) a \<in> set (pd_main p)" "pick (pd_wal p) b \<in> set (pd_wal p)" "pick (pd_backup p) c \<in> set (pd_backup p)"
    using d(1-3) by (simp_all add: pick_in)
  have sets: "state_inodes ?q \<subseteq> state_inodes p" "tmp_inodes ?q \<subseteq> tmp_inodes p" "wal_inodes ?q \<subseteq> wal_inodes p" "backup_inodes ?q \<subseteq> backup_inodes p"
    using m by (auto simp: inode_sets crash_def image_iff)
  have ino: "set (pd_inode ?q i) \<subseteq> set (pd_inode p i)" if "i < pd_next p" for i using that d(4) by (simp add: crash_def pick_in)
  have sub: "state_inodes p \<union> tmp_inodes p \<union> wal_inodes p \<union> backup_inodes p \<subseteq> {..<pd_next p}" using assms by (simp add: pd_ok_def)
  have apart: "wal_inodes p \<inter> (state_inodes p \<union> tmp_inodes p \<union> backup_inodes p) = {}" "backup_inodes p \<inter> (state_inodes p \<union> tmp_inodes p) = {}"
    using assms by (simp_all add: pd_ok_def)
  have x: "\<forall>(x, t) \<in> set (pd_main p). t \<noteq> None \<longrightarrow> x \<noteq> t" using assms by (simp add: pd_ok_def)
  have "set (pd_inode ?q i) \<subseteq> Valid ` S" if "i \<in> state_inodes ?q" for i
  proof -
    have "i \<in> state_inodes p" "i < pd_next p" using that sets(1) sub by auto
    then show ?thesis using ino [of i] assms by (force simp: pd_ok_def)
  qed
  moreover have "set (pd_inode ?q i) \<subseteq> insert Corrupt (Valid ` S)" if "i \<in> wal_inodes ?q" for i
  proof -
    have "i \<in> wal_inodes p" "i < pd_next p" using that sets(3) sub by auto
    then show ?thesis using ino [of i] wal_contents [OF assms] by force
  qed
  moreover have "i \<notin> state_inodes ?q" if "cur TmpF ?q = Some i" for i using x m(1) that by (auto simp: crash_def state_inodes_def)
  moreover have "state_inodes ?q \<union> tmp_inodes ?q \<union> wal_inodes ?q \<union> backup_inodes ?q \<subseteq> {..<pd_next ?q}" using sets sub by (auto simp: crash_def)
  moreover have "wal_inodes ?q \<inter> (state_inodes ?q \<union> tmp_inodes ?q \<union> backup_inodes ?q) = {}" "backup_inodes ?q \<inter> (state_inodes ?q \<union> tmp_inodes ?q) = {}"
    using apart sets by blast+
  moreover have "\<forall>(y, t) \<in> set (pd_main ?q). t \<noteq> None \<longrightarrow> y \<noteq> t" using x m(1) by (simp add: crash_def)
  moreover have "pd_main ?q \<noteq> []" "pd_wal ?q \<noteq> []" "pd_backup ?q \<noteq> []" "\<forall>i < pd_next ?q. pd_inode ?q i \<noteq> []" by (simp_all add: crash_def)
  ultimately show ?thesis unfolding pd_ok_def by blast
qed

lemma disk_step_ok: "pd_ok S p \<Longrightarrow> set (committed [e]) \<subseteq> S \<Longrightarrow> pd_ok S (disk_step e p)"
  by (cases e) (simp_all add: disk.run_inv guarded_take commit_ready load_ready crash_ok write_back_def)

lemma committed_Cons: "committed (e # es) = committed [e] @ committed es"
  by (cases e) simp_all

lemma disk_run_ok: "pd_ok S p \<Longrightarrow> set (committed es) \<subseteq> S \<Longrightarrow> pd_ok S (fold disk_step es p)"
proof (induction es arbitrary: p)
  case (Cons e es)
  have "set (committed [e]) \<subseteq> S" "set (committed es) \<subseteq> S" using Cons.prems(2) unfolding committed_Cons [of e es] by simp_all
  then show ?case using Cons.IH disk_step_ok [OF Cons.prems(1)] by simp
qed simp

lemma empty_pdisk_ok: "pd_ok S empty_pdisk"
  by (simp add: pd_ok_def empty_pdisk_def inode_sets)

lemma load_in: "pd_ok S p \<Longrightarrow> genesis_state e0 \<in> S \<Longrightarrow> \<exists>s \<in> S. load_initial_state e0 (view p) = Inr s"
proof -
  assume ok: "pd_ok S p" and g: "genesis_state e0 \<in> S"
  have "disk_ok (view p)" using held_state [OF ok] by (auto simp: disk_ok_def view_def)
  moreover have "durable e0 (view p) \<in> S"
  proof (cases "\<exists>s. held WalF p = Some (Valid s)")
    case False
    then have "durable e0 (view p) = (case held StateF p of Some (Valid s) \<Rightarrow> s | _ \<Rightarrow> genesis_state e0)"
      by (auto simp: durable_def view_def split: option.splits content.splits)
    then show ?thesis using g held_state [OF ok] by (cases "held StateF p") auto
  next
    case True
    then obtain s where "held WalF p = Some (Valid s)" by blast
    then show ?thesis using held_wal [OF ok, of s] by (simp add: durable_def view_def)
  qed
  ultimately show ?thesis using load_durable [of "view p" e0] by auto
qed

section \<open>Properties\<close>

text \<open>
  C1. Commits are atomic under crashes, whatever reached the disk: after any sequence of commits and restarts, complete
  or broken off after any of their file operations, of crashes that leave any versions of the directory entries and of
  the unsynced contents, and of write-backs, a restart does not raise and loads a whole state: the genesis state or
  one of the states handed to a commit.
\<close>

theorem restart_loads_whole_commit:
  "\<exists>m. tx_init e0 (view (crash a b c ci (fold disk_step es empty_pdisk))) = Inr m \<and>
     tm_current m \<in> insert (genesis_state e0) (set (committed es))"
proof -
  let ?S = "insert (genesis_state e0) (set (committed es))"
  have "pd_ok ?S (crash a b c ci (fold disk_step es empty_pdisk))" by (intro crash_ok disk_run_ok empty_pdisk_ok) auto
  from load_in [OF this, of e0] show ?thesis by (auto simp: tx_init_def)
qed




text \<open>
  Without the write-back a commit that returned can be lost: the log is gone and the rename is not there. The sync of
  the directory that would exclude this is commented out in the source.
\<close>

theorem returned_commit_can_be_lost:
  "\<exists>a b c ci. load_initial_state e0 (view (crash a b c ci (disk_step (Commits s 10) empty_pdisk))) = Inr (genesis_state e0)"
proof (intro exI)
  show "load_initial_state e0 (view (crash 2 0 0 (\<lambda>i. 0) (disk_step (Commits s 10) empty_pdisk))) = Inr (genesis_state e0)"
    by (simp add: empty_pdisk_def commit_ops_def atomic_write_def view_def held_def open_file_def write_file_def sync_file_def put_inode_def crash_def
        pick_def load_initial_state_def)
qed

text \<open>The files of the process and the disk below them agree, also when a commit is broken off.\<close>

lemma commit_on_disk:
  assumes "pd_ok S p" "s \<in> S" "tm_disk m = view p" "link_state H dumps (tm_current m) ns = Inr s"
  shows "tm_disk (snd (commit H dumps k ns m)) = view (disk_step (Commits s k) p)"
  using view_run [OF assms(1) guarded_take [OF commit_ready [OF assms(1,2)]], of k] assms(3,4) by (simp add: commit_def Let_def)

text \<open>
  A commit that raises may still have happened: when a file operation after the completed log
  fails, the caller sees an OSError and the manager goes on with the old state in memory, but a
  restart rolls the failed transaction forward, with the next tick.
\<close>

theorem failed_commit_rolls_forward:
  assumes "disk_ok (tm_disk m)" "link_state H dumps (tm_current m) ns = Inr s"
    and "2 \<le> k" "k < length (commit_ops s (tm_disk m))"
    and "commit H dumps k ns m = (r, m')"
  shows "r = Inl OSError \<and> get_state m' = get_state m \<and>
    load_initial_state e0 (tm_disk m') = Inr s \<and> ts_tick s = ts_tick (get_state m) + 1"
proof -
  have "r = Inl OSError" "tm_current m' = tm_current m"
    and disk: "tm_disk m' = fold fs_apply (take k (commit_ops s (tm_disk m))) (tm_disk m)"
    using assms(2,4,5) by (auto simp: commit_def Let_def)
  moreover have "ts_tick s = ts_tick (tm_current m) + 1"
    using assms(2) by (auto simp: link_state_def split: option.splits)
  moreover have "load_initial_state e0 (tm_disk m') = Inr s"
    using commit_prefix(1) [OF assms(1), of k s] commit_prefix(4) [OF assms(1) assms(3), of e0 s]
    by (simp add: disk load_durable)
  ultimately show ?thesis by (simp add: get_state_def)
qed

section \<open>The hash chain\<close>

text \<open>Committing a sequence of data values, each on a transaction begun from the current state.\<close>

definition commit_data :: "(string \<Rightarrow> string) \<Rightarrow> ('d \<Rightarrow> string) \<Rightarrow> 'd \<Rightarrow> 'd tx_manager \<Rightarrow> 'd tx_manager" where
  "commit_data H dumps dat m = snd (commit H dumps 10 ((begin_transaction m)\<lparr>ts_data := Some dat\<rparr>) m)"

fun chain_inputs :: "(string \<Rightarrow> string) \<Rightarrow> string \<Rightarrow> string list \<Rightarrow> string list" where
  "chain_inputs H h [] = []"
| "chain_inputs H h (x # xs) = (h @ x) # chain_inputs H (H (h @ x)) xs"

definition chain_hash :: "(string \<Rightarrow> string) \<Rightarrow> string \<Rightarrow> string list \<Rightarrow> string" where
  "chain_hash H h xs = fold (\<lambda>x h. H (h @ x)) xs h"

lemma length_commit_ops: "length (commit_ops s d) \<le> 10"
  by (simp add: commit_ops_def atomic_write_def Let_def)

lemma commit_data_current:
  "tm_current (commit_data H dumps dat m) =
     (tm_current m)\<lparr>ts_data := Some dat, ts_tick := ts_tick (tm_current m) + 1,
                    ts_hash := H (ts_hash (tm_current m) @ dumps dat)\<rparr>"
proof -
  have len: "\<not> 10 < length (commit_ops s (tm_disk m))" for s
    using length_commit_ops [of s "tm_disk m"] by simp
  show ?thesis
    by (simp add: commit_data_def commit_def link_state_def begin_transaction_def Let_def len)
qed

lemma commits_chain:
  "ts_hash (tm_current (fold (commit_data H dumps) ds m)) = chain_hash H (ts_hash (tm_current m)) (map dumps ds) \<and>
   ts_tick (tm_current (fold (commit_data H dumps) ds m)) = ts_tick (tm_current m) + int (length ds)"
  by (induction ds arbitrary: m) (auto simp: commit_data_current chain_hash_def)

lemma chain_hash_inj:
  assumes "\<And>x. length (H x) = n" "length h = n" "length h' = n" "length xs = length ys"
    and "inj_on H (set (chain_inputs H h xs) \<union> set (chain_inputs H h' ys))"
    and "chain_hash H h xs = chain_hash H h' ys"
  shows "xs = ys \<and> h = h'"
  using assms(2-6)
proof (induction xs ys arbitrary: h h' rule: list_induct2')
  case (4 x xs y ys)
  have "xs = ys \<and> H (h @ x) = H (h' @ y)"
  proof (rule "4.IH")
    show "inj_on H (set (chain_inputs H (H (h @ x)) xs) \<union> set (chain_inputs H (H (h' @ y)) ys))"
      using "4.prems"(4) by (rule inj_on_subset) auto
  qed (use "4.prems" assms(1) in \<open>auto simp: chain_hash_def\<close>)
  moreover from this have "h @ x = h' @ y"
    using inj_onD [OF "4.prems"(4), of "h @ x" "h' @ y"] by simp
  ultimately show ?case using "4.prems"(1,2) by simp
qed (auto simp: chain_hash_def)

text \<open>
  C34. The hash of the state commits to its whole history: for a hash with 64 characters that does
  not collide on the texts hashed, two sequences of as many commits from the same starting state
  that end with the same state hash had the same data, commit by commit, as canonical JSON.
\<close>

theorem hash_chain_binds_history:
  assumes "\<And>x. length (H x) = 64" "length (ts_hash (tm_current m)) = 64" "length ds = length es"
    and "inj_on H (set (chain_inputs H (ts_hash (tm_current m)) (map dumps ds)) \<union>
                   set (chain_inputs H (ts_hash (tm_current m)) (map dumps es)))"
    and "ts_hash (tm_current (fold (commit_data H dumps) ds m)) = ts_hash (tm_current (fold (commit_data H dumps) es m))"
  shows "map dumps ds = map dumps es"
  using chain_hash_inj [OF assms(1,2,2) _ assms(4)] assms(3,5) by (simp add: commits_chain)

section \<open>Witnesses\<close>

definition demo_hash :: "string \<Rightarrow> string" where
  "demo_hash x = take 64 (rev x @ replicate 64 (CHR ''0''))"

definition demo_manager :: "string tx_manager" where
  "demo_manager = \<lparr>tm_disk = \<lparr>st_state = None, st_wal = None, st_backup = None, st_tmp = None\<rparr>,
                   tm_current = genesis_state ''{}''\<rparr>"

definition demo_link :: "string tx_state" where
  "demo_link = \<lparr>ts_tick = 1, ts_hash = demo_hash (replicate 64 (CHR ''0'') @ ''x''), ts_data = Some ''x'', ts_rest = []\<rparr>"

lemma demo_link_state:
  "link_state demo_hash id (tm_current demo_manager) ((begin_transaction demo_manager)\<lparr>ts_data := Some ''x''\<rparr>) = Inr demo_link"
  by (simp add: link_state_def demo_manager_def genesis_state_def begin_transaction_def demo_link_def)

lemma demo_manager_ok:
  "disk_ok (tm_disk demo_manager)" "st_wal (tm_disk demo_manager) = None"
  "tm_current demo_manager = durable ''{}'' (tm_disk demo_manager)"
  by (simp_all add: demo_manager_def disk_ok_def durable_def)

theorem failed_commit_rolls_forward_witness:
  "load_initial_state ''{}'' (tm_disk (snd (commit demo_hash id 2
       ((begin_transaction demo_manager)\<lparr>ts_data := Some ''x''\<rparr>) demo_manager))) = Inr demo_link \<and>
   get_state (snd (commit demo_hash id 2
       ((begin_transaction demo_manager)\<lparr>ts_data := Some ''x''\<rparr>) demo_manager)) = genesis_state ''{}''"
proof -
  have "2 < length (commit_ops demo_link (tm_disk demo_manager))" by (simp add: commit_ops_def Let_def)
  then show ?thesis
    using failed_commit_rolls_forward [OF demo_manager_ok(1) demo_link_state, of 2 _ _ "''{}''"]
    by (metis demo_manager_def get_state_def order_refl prod.collapse tx_manager.select_convs(2))
qed

theorem hash_chain_binds_history_witness:
  "ts_hash (tm_current (fold (commit_data demo_hash id) [''a'', ''b''] demo_manager)) \<noteq>
   ts_hash (tm_current (fold (commit_data demo_hash id) [''a'', ''c''] demo_manager))"
proof
  assume eq: "ts_hash (tm_current (fold (commit_data demo_hash id) [''a'', ''b''] demo_manager)) =
   ts_hash (tm_current (fold (commit_data demo_hash id) [''a'', ''c''] demo_manager))"
  have len: "length (demo_hash x) = 64" for x by (simp add: demo_hash_def)
  have gen: "length (ts_hash (tm_current demo_manager)) = 64" by (simp add: demo_manager_def genesis_state_def)
  have inj: "inj_on demo_hash
      (set (chain_inputs demo_hash (ts_hash (tm_current demo_manager)) (map id [''a'', ''b''])) \<union>
       set (chain_inputs demo_hash (ts_hash (tm_current demo_manager)) (map id [''a'', ''c''])))"
    by code_simp
  from hash_chain_binds_history [OF len gen _ inj eq] show False by simp
qed

end
