(* ===== verification/Invariant_Guard.thy ===== *)
theory Invariant_Guard
  imports Prelude Complex_Main
begin

text \<open>
  The runtime invariant guard, \<^verbatim>\<open>kernel/ops/invariants.py\<close>: the fail latch, the J, K and L series
  validators and the manager that runs them on every tick. \<open>verify\<close> is the ML-DSA verification of the
  native module; \<open>time.time()\<close> is the argument \<open>now\<close>, in seconds. The latch is one object for the
  whole process, so it is part of the state of the one manager modelled here.
\<close>

section \<open>The latch and the validators\<close>

record fail_latch =
  fl_latched :: bool
  fl_reason :: "string option"

definition latch_init :: fail_latch where
  "latch_init = \<lparr>fl_latched = False, fl_reason = None\<rparr>"

definition trigger :: "string \<Rightarrow> fail_latch \<Rightarrow> fail_latch" where
  "trigger reason l = (if \<not> fl_latched l then \<lparr>fl_latched = True, fl_reason = Some reason\<rparr> else l)"

definition KINETIC_THRESHOLD_MS :: rat where
  "KINETIC_THRESHOLD_MS = 100"

definition j_validate ::
  "(string \<Rightarrow> string \<Rightarrow> string \<Rightarrow> bool) \<Rightarrow> string \<Rightarrow> (string, string) dict \<Rightarrow> bool" where
  "j_validate verify state_hash attestation =
     (if attestation = [] then False
      else verify state_hash
             (case dget attestation ''signature'' of Some s \<Rightarrow> s | None \<Rightarrow> '''')
             (case dget attestation ''pub_key'' of Some k \<Rightarrow> k | None \<Rightarrow> ''''))"

definition k_validate :: "rat \<Rightarrow> rat option \<Rightarrow> bool \<times> rat option" where
  "k_validate now last_tick_time =
     (case last_tick_time of
        None \<Rightarrow> (True, Some now)
      | Some t \<Rightarrow> (\<not> (now - t) * 1000 > KINETIC_THRESHOLD_MS, Some now))"

definition l_validate :: "int \<Rightarrow> int \<Rightarrow> bool \<times> int" where
  "l_validate current_tick last_tick =
     (if current_tick \<le> last_tick then (False, last_tick) else (True, current_tick))"

section \<open>The manager\<close>

record invariant_manager =
  im_latch :: fail_latch
  im_last_tick_time :: "rat option"
  im_last_tick :: int

definition manager_init :: invariant_manager where
  "manager_init = \<lparr>im_latch = latch_init, im_last_tick_time = None, im_last_tick = - 1\<rparr>"

text \<open>A call of \<open>check_all\<close>: the tick, the state hash, the attestation and the time of the call.\<close>

record guard_call =
  gc_tick :: int
  gc_state_hash :: string
  gc_attestation :: "(string, string) dict"
  gc_now :: rat

definition check_all ::
  "(string \<Rightarrow> string \<Rightarrow> string \<Rightarrow> bool) \<Rightarrow> guard_call \<Rightarrow> invariant_manager \<Rightarrow> bool \<times> invariant_manager" where
  "check_all verify c m =
     (if fl_latched (im_latch m) then (False, m)
      else
        (let (l_ok, tick) = l_validate (gc_tick c) (im_last_tick m);
             m1 = m\<lparr>im_last_tick := tick\<rparr>
         in if \<not> l_ok
            then (False, m1\<lparr>im_latch := trigger ''L-Series Violation: Non-monotonic tick'' (im_latch m1)\<rparr>)
            else
              (let (k_ok, t) = k_validate (gc_now c) (im_last_tick_time m1);
                   m2 = m1\<lparr>im_last_tick_time := t\<rparr>
               in if \<not> k_ok
                  then (False, m2\<lparr>im_latch := trigger ''K-Series Violation: Extreme clock drift'' (im_latch m2)\<rparr>)
                  else if \<not> j_validate verify (gc_state_hash c) (gc_attestation c)
                  then (False, m2\<lparr>im_latch := trigger ''J-Series Violation: Unattested state transition'' (im_latch m2)\<rparr>)
                  else (True, m2))))"

text \<open>The answers to a sequence of calls.\<close>

fun answers :: "(string \<Rightarrow> string \<Rightarrow> string \<Rightarrow> bool) \<Rightarrow> guard_call list \<Rightarrow> invariant_manager \<Rightarrow> bool list" where
  "answers verify [] m = []"
| "answers verify (c # cs) m = fst (check_all verify c m) # answers verify cs (snd (check_all verify c m))"

section \<open>Latching\<close>

definition latch_ok :: "invariant_manager \<Rightarrow> bool" where
  "latch_ok m \<longleftrightarrow> (fl_latched (im_latch m) \<longleftrightarrow> fl_reason (im_latch m) \<noteq> None)"

lemmas check_all_defs = check_all_def l_validate_def k_validate_def trigger_def Let_def

interpretation guard: latching_machine "\<lambda>c m. snd (check_all verify c m)" latch_ok "\<lambda>m. fl_latched (im_latch m)"
  for verify
  by unfold_locales (auto simp: check_all_defs latch_ok_def split: option.splits)

lemma manager_init_ok [simp]: "latch_ok manager_init"
  by (simp add: latch_ok_def manager_init_def latch_init_def)

lemma latched_refuses: "fl_latched (im_latch m) \<Longrightarrow> check_all verify c m = (False, m)"
  by (simp add: check_all_def)

lemma refused_latches: "\<not> fst (check_all verify c m) \<Longrightarrow> fl_latched (im_latch (snd (check_all verify c m)))"
  unfolding check_all_defs by (cases "im_last_tick_time m") (auto split: if_splits)

lemma accepted_call:
  assumes "fst (check_all verify c m)"
  shows "im_last_tick m < gc_tick c \<and> im_last_tick (snd (check_all verify c m)) = gc_tick c \<and>
    im_last_tick_time (snd (check_all verify c m)) = Some (gc_now c) \<and>
    j_validate verify (gc_state_hash c) (gc_attestation c) \<and>
    (\<forall>t. im_last_tick_time m = Some t \<longrightarrow> (gc_now c - t) * 1000 \<le> 100)"
  using assms by (auto simp: check_all_defs KINETIC_THRESHOLD_MS_def split: option.splits if_splits)

lemma answers_latched: "fl_latched (im_latch m) \<Longrightarrow> answers verify cs m = replicate (length cs) False"
  by (induction cs) (simp_all add: latched_refuses)

lemma answers_shape:
  "\<exists>n \<le> length cs. answers verify cs m = replicate n True @ replicate (length cs - n) False"
proof (induction cs arbitrary: m)
  case (Cons c cs)
  show ?case
  proof (cases "fst (check_all verify c m)")
    case True
    then show ?thesis
      using Cons.IH [of "snd (check_all verify c m)"] by (auto intro: exI [of _ "Suc _"])
  next
    case False
    then show ?thesis
      using answers_latched [OF refused_latches [OF False]] by (auto intro: exI [of _ 0])
  qed
qed simp

lemma accepted_prefix:
  "answers verify cs m = replicate (length cs) True \<Longrightarrow>
   sorted_wrt (<) (im_last_tick m # map gc_tick cs) \<and>
   (\<forall>c \<in> set cs. j_validate verify (gc_state_hash c) (gc_attestation c)) \<and>
   (\<forall>i. Suc i < length cs \<longrightarrow> (gc_now (cs ! Suc i) - gc_now (cs ! i)) * 1000 \<le> 100) \<and>
   (\<forall>t. im_last_tick_time m = Some t \<longrightarrow> cs \<noteq> [] \<longrightarrow> (gc_now (cs ! 0) - t) * 1000 \<le> 100)"
proof (induction cs arbitrary: m)
  case (Cons c cs)
  then have acc: "fst (check_all verify c m)"
    and rest: "answers verify cs (snd (check_all verify c m)) = replicate (length cs) True" by simp_all
  note now = accepted_call [OF acc] and ih = Cons.IH [OF rest]
  have "(gc_now ((c # cs) ! Suc i) - gc_now ((c # cs) ! i)) * 1000 \<le> 100" if "Suc i < length (c # cs)" for i
    using that ih now by (cases i) auto
  then show ?case using ih now by auto
qed simp

lemma answers_take: "answers verify (take n cs) m = take n (answers verify cs m)"
  by (induction cs arbitrary: n m) (auto simp: take_Cons split: nat.splits)

section \<open>Property\<close>

text \<open>
  C9. The guard accepts a run exactly as long as it is sound, and then never again: the answers to
  any sequence of calls are a number of Trues followed by Falses only, and the accepted calls have
  strictly increasing ticks from zero, consecutive calls at most 100 ms apart, and a state hash
  attested each time.
\<close>

theorem guard_accepts_only_sound_prefix:
  "\<exists>n \<le> length cs. answers verify cs manager_init = replicate n True @ replicate (length cs - n) False \<and>
     sorted_wrt (<) (- 1 # map gc_tick (take n cs)) \<and>
     list_all (\<lambda>c. j_validate verify (gc_state_hash c) (gc_attestation c)) (take n cs) \<and>
     list_all (\<lambda>i. (gc_now (cs ! Suc i) - gc_now (cs ! i)) * 1000 \<le> 100) [0..<n - 1]"
proof -
  obtain n where n: "n \<le> length cs"
    and shape: "answers verify cs manager_init = replicate n True @ replicate (length cs - n) False"
    using answers_shape by blast
  have "answers verify (take n cs) manager_init = replicate (length (take n cs)) True"
    using n by (simp add: answers_take shape)
  note pre = accepted_prefix [OF this]
  have "(gc_now (cs ! Suc i) - gc_now (cs ! i)) * 1000 \<le> 100" if "i < n - 1" for i
    using pre that n by (auto dest!: spec [of _ i])
  with pre n shape show ?thesis
    by (intro exI [of _ n]) (auto simp: list_all_iff manager_init_def)
qed

end
