(* ===== verification/Lineage.thy ===== *)
theory Lineage
  imports Prelude Complex_Main
begin

text \<open>
  Data lineage and policy zones, \<^verbatim>\<open>kernel/lineage.py\<close>: data objects are tracked with a zone at least
  as strict as their tracked parents', and data may only flow to a zone at least as strict.
\<close>

section \<open>Zones\<close>

datatype policy_zone = PUBLIC | INTERNAL | RESTRICTED | SECRET

fun zone_value :: "policy_zone \<Rightarrow> nat" where
  "zone_value PUBLIC = 10"
| "zone_value INTERNAL = 50"
| "zone_value RESTRICTED = 100"
| "zone_value SECRET = 200"

lemma zone_value_inj [simp]: "zone_value a = zone_value b \<longleftrightarrow> a = b"
  by (cases a; cases b) simp_all

instantiation policy_zone :: linorder
begin

definition less_eq_policy_zone :: "policy_zone \<Rightarrow> policy_zone \<Rightarrow> bool" where
  "less_eq_policy_zone a b \<longleftrightarrow> zone_value a \<le> zone_value b"

definition less_policy_zone :: "policy_zone \<Rightarrow> policy_zone \<Rightarrow> bool" where
  "less_policy_zone a b \<longleftrightarrow> zone_value a < zone_value b"

instance
  by standard (auto simp: less_eq_policy_zone_def less_policy_zone_def dest: order_antisym)

end

lemma zone_le_value [simp]: "zone_value a \<le> zone_value b \<longleftrightarrow> a \<le> b" "zone_value a < zone_value b \<longleftrightarrow> a < b"
  by (simp_all add: less_eq_policy_zone_def less_policy_zone_def)

lemma PUBLIC_least [simp]: "PUBLIC \<le> z"
  unfolding less_eq_policy_zone_def by (cases z) simp_all

section \<open>The tracker\<close>

record lineage_record =
  lr_origin_id :: string
  lr_creator_id :: string
  lr_zone :: policy_zone
  lr_timestamp :: rat
  lr_parent_ids :: "string list"
  lr_tags :: "(string, string) dict"

type_synonym tracker = "(string, lineage_record) dict"

definition strictest_parent_zone :: "tracker \<Rightarrow> string list \<Rightarrow> policy_zone" where
  "strictest_parent_zone rs parents =
     fold (\<lambda>p z. case dget rs p of
                   Some r \<Rightarrow> if zone_value (lr_zone r) > zone_value z then lr_zone r else z
                 | None \<Rightarrow> z) parents PUBLIC"

text \<open>\<open>track\<close>; parents None and the empty list are the same to it.\<close>

definition track ::
  "rat \<Rightarrow> string \<Rightarrow> policy_zone \<Rightarrow> string \<Rightarrow> string list option \<Rightarrow> tracker \<Rightarrow> lineage_record \<times> tracker" where
  "track now data_id zone creator parents rs =
     (let ps = (case parents of Some l \<Rightarrow> l | None \<Rightarrow> []);
          strictest = strictest_parent_zone rs ps;
          final_zone = (if zone_value zone > zone_value strictest then zone else strictest);
          rec1 = \<lparr>lr_origin_id = data_id, lr_creator_id = creator, lr_zone = final_zone,
                  lr_timestamp = now, lr_parent_ids = ps, lr_tags = []\<rparr>
      in (rec1, dset data_id rec1 rs))"

definition check_flow :: "tracker \<Rightarrow> string \<Rightarrow> policy_zone \<Rightarrow> bool" where
  "check_flow rs data_id target =
     (case dget rs data_id of
        None \<Rightarrow> False
      | Some r \<Rightarrow> zone_value (lr_zone r) \<le> zone_value target)"

definition zone_name :: "policy_zone \<Rightarrow> string" where
  "zone_name z = (case z of PUBLIC \<Rightarrow> ''PUBLIC'' | INTERNAL \<Rightarrow> ''INTERNAL''
                  | RESTRICTED \<Rightarrow> ''RESTRICTED'' | SECRET \<Rightarrow> ''SECRET'')"

definition get_zone_name :: "tracker \<Rightarrow> string \<Rightarrow> string" where
  "get_zone_name rs data_id = (case dget rs data_id of Some r \<Rightarrow> zone_name (lr_zone r) | None \<Rightarrow> ''UNKNOWN'')"

definition enforce_lineage_flow :: "tracker \<Rightarrow> string \<Rightarrow> policy_zone \<Rightarrow> bool" where
  "enforce_lineage_flow rs data_id target = (if \<not> check_flow rs data_id target then False else True)"

section \<open>Inheritance of strictness\<close>

lemma strictest_fold_upper:
  fixes z0 :: policy_zone and rs :: tracker
  defines "f \<equiv> (\<lambda>(rs :: tracker) p z. case dget rs p of
      Some r \<Rightarrow> if zone_value (lr_zone r) > zone_value z then lr_zone r else z | None \<Rightarrow> z)"
  shows "z0 \<le> fold (f rs) ps z0 \<and> (\<forall>p \<in> set ps. \<forall>r. dget rs p = Some r \<longrightarrow> lr_zone r \<le> fold (f rs) ps z0)"
proof (induction ps arbitrary: z0)
  case (Cons p ps)
  have step: "z0 \<le> f rs p z0" "\<And>r. dget rs p = Some r \<Longrightarrow> lr_zone r \<le> f rs p z0"
    by (auto simp: f_def split: option.splits)
  show ?case using Cons.IH [of "f rs p z0"] step by (auto intro: order_trans)
qed simp

lemma parent_zone_le:
  "p \<in> set ps \<Longrightarrow> dget rs p = Some r \<Longrightarrow> lr_zone r \<le> strictest_parent_zone rs ps"
  using strictest_fold_upper [of PUBLIC rs ps] unfolding strictest_parent_zone_def by simp

text \<open>Data derived from other data, through any number of parent links.\<close>

inductive derived :: "tracker \<Rightarrow> string \<Rightarrow> string \<Rightarrow> bool" for rs where
  derived_refl: "derived rs x x"
| derived_step: "dget rs x = Some r \<Longrightarrow> p \<in> set (lr_parent_ids r) \<Longrightarrow> derived rs p y \<Longrightarrow> derived rs x y"

inductive_cases derivedE: "derived rs x y"

text \<open>Every tracked object has tracked parents, none of them stricter than itself.\<close>

definition lineage_ok :: "tracker \<Rightarrow> bool" where
  "lineage_ok rs \<longleftrightarrow>
     (\<forall>x r p. dget rs x = Some r \<longrightarrow> p \<in> set (lr_parent_ids r) \<longrightarrow>
        (\<exists>q. dget rs p = Some q \<and> lr_zone q \<le> lr_zone r))"

lemma lineage_okD:
  assumes "lineage_ok rs" "dget rs x = Some r" "p \<in> set (lr_parent_ids r)"
  obtains q where "dget rs p = Some q" "lr_zone q \<le> lr_zone r"
  using assms unfolding lineage_ok_def by metis

text \<open>
  The sequences of tracking calls that keep it: every object is tracked once, after its parents.
  The tracker itself does not ask for that order.
\<close>

record track_call =
  tc_now :: rat
  tc_data_id :: string
  tc_zone :: policy_zone
  tc_creator :: string
  tc_parents :: "string list option"

definition do_track :: "track_call \<Rightarrow> tracker \<Rightarrow> tracker" where
  "do_track c rs = snd (track (tc_now c) (tc_data_id c) (tc_zone c) (tc_creator c) (tc_parents c) rs)"

definition in_order :: "track_call \<Rightarrow> tracker \<Rightarrow> bool" where
  "in_order c rs \<longleftrightarrow> dget rs (tc_data_id c) = None \<and>
     list_all (\<lambda>p. dget rs p \<noteq> None) (case tc_parents c of Some l \<Rightarrow> l | None \<Rightarrow> [])"

fun orderly :: "track_call list \<Rightarrow> tracker \<Rightarrow> bool" where
  "orderly [] rs \<longleftrightarrow> True"
| "orderly (c # cs) rs \<longleftrightarrow> in_order c rs \<and> orderly cs (do_track c rs)"

lemma do_track_ok:
  assumes "lineage_ok rs" "in_order c rs"
  shows "lineage_ok (do_track c rs)"
proof -
  let ?ps = "case tc_parents c of Some l \<Rightarrow> l | None \<Rightarrow> []"
  have known: "\<exists>q. dget rs p = Some q" "p \<noteq> tc_data_id c" if "p \<in> set ?ps" for p
    using assms(2) that by (auto simp: in_order_def list_all_iff)
  have zone: "lr_zone q \<le> strictest_parent_zone rs ?ps" if "p \<in> set ?ps" "dget rs p = Some q" for p q
    using parent_zone_le that by blast
  show ?thesis
    unfolding lineage_ok_def
  proof (intro allI impI)
    fix x r p
    assume x: "dget (do_track c rs) x = Some r" and p: "p \<in> set (lr_parent_ids r)"
    show "\<exists>q. dget (do_track c rs) p = Some q \<and> lr_zone q \<le> lr_zone r"
    proof (cases "x = tc_data_id c")
      case True
      then have r: "lr_parent_ids r = ?ps" "strictest_parent_zone rs ?ps \<le> lr_zone r"
        using x by (auto simp: do_track_def track_def Let_def)
      with p known [of p] zone [of p] show ?thesis
        by (fastforce simp: do_track_def track_def Let_def intro: order_trans)
    next
      case False
      then have "dget rs x = Some r" using x by (simp add: do_track_def track_def Let_def)
      with assms(1) p obtain q where q: "dget rs p = Some q" "lr_zone q \<le> lr_zone r"
        using lineage_okD by blast
      moreover have "p \<noteq> tc_data_id c" using q assms(2) by (auto simp: in_order_def)
      ultimately show ?thesis by (simp add: do_track_def track_def Let_def)
    qed
  qed
qed

lemma orderly_ok: "lineage_ok rs \<Longrightarrow> orderly cs rs \<Longrightarrow> lineage_ok (fold do_track cs rs)"
  by (induction cs arbitrary: rs) (auto simp: do_track_ok)

lemma derived_zone:
  "derived rs x y \<Longrightarrow> lineage_ok rs \<Longrightarrow> dget rs x = Some r \<Longrightarrow>
   \<exists>q. dget rs y = Some q \<and> lr_zone q \<le> lr_zone r"
proof (induction arbitrary: r rule: derived.induct)
  case (derived_step x r' p y)
  have "r' = r" using derived_step.hyps(1) derived_step.prems(2) by simp
  then obtain q where q: "dget rs p = Some q" "lr_zone q \<le> lr_zone r"
    using lineage_okD [OF derived_step.prems(1) derived_step.hyps(1,2)] by metis
  from derived_step.IH [OF derived_step.prems(1) q(1)] q(2) show ?case
    by (meson order_trans)
qed auto

section \<open>Properties\<close>

text \<open>
  C8. No leak through derivation: when every object is tracked once and after its parents, data
  that may flow into a zone only derives, through any chain of parents, from data that may flow
  there as well.
\<close>

theorem no_leak_through_derivation:
  assumes "orderly cs []" "rs = fold do_track cs []" "derived rs x y" "check_flow rs x target"
  shows "check_flow rs y target"
proof -
  have "lineage_ok rs" using assms(1,2) orderly_ok [of "[]"] by (simp add: lineage_ok_def)
  moreover obtain r where "dget rs x = Some r" "lr_zone r \<le> target"
    using assms(4) by (auto simp: check_flow_def split: option.splits)
  ultimately show ?thesis
    using derived_zone [OF assms(3)] by (fastforce simp: check_flow_def intro: order_trans)
qed

text \<open>
  Without that order strictness is lost: tracking an object again, or tracking it before its parent,
  gives it whatever zone the call names.
\<close>

lemma retrack_downgrades:
  "check_flow (snd (track now x PUBLIC creator None rs)) x PUBLIC"
  by (simp add: check_flow_def track_def Let_def strictest_parent_zone_def)

definition demo_calls :: "track_call list" where
  "demo_calls =
     [\<lparr>tc_now = 0, tc_data_id = ''a'', tc_zone = RESTRICTED, tc_creator = ''n'', tc_parents = None\<rparr>,
      \<lparr>tc_now = 1, tc_data_id = ''b'', tc_zone = PUBLIC, tc_creator = ''n'', tc_parents = Some [''a'']\<rparr>,
      \<lparr>tc_now = 2, tc_data_id = ''c'', tc_zone = SECRET, tc_creator = ''n'', tc_parents = Some [''b'']\<rparr>]"

theorem no_leak_through_derivation_witness:
  "orderly demo_calls [] \<and> \<not> check_flow (fold do_track demo_calls []) ''b'' INTERNAL \<and>
   check_flow (fold do_track demo_calls []) ''c'' SECRET \<and> check_flow (fold do_track demo_calls []) ''a'' SECRET"
proof -
  have o1: "orderly demo_calls []" and c: "check_flow (fold do_track demo_calls []) ''c'' SECRET"
    and b: "\<not> check_flow (fold do_track demo_calls []) ''b'' INTERNAL" by code_simp+
  obtain rb rc where "dget (fold do_track demo_calls []) ''b'' = Some rb" "lr_parent_ids rb = [''a'']"
    and "dget (fold do_track demo_calls []) ''c'' = Some rc" "lr_parent_ids rc = [''b'']"
    by (simp add: demo_calls_def do_track_def track_def Let_def)
  then have "derived (fold do_track demo_calls []) ''c'' ''a''"
    by (auto intro!: derived_step [of _ "''c''" rc "''b''"] derived_step [of _ "''b''" rb "''a''"] derived_refl)
  with no_leak_through_derivation [OF o1 refl _ c] o1 b c show ?thesis by blast
qed

end
