(* ===== verification/Floats.thy ===== *)
theory Floats
  imports Prelude Complex_Main
begin

text \<open>
  Python floats as far as the program compares them: a rational (every finite double is one), an
  infinity, or NaN, for which every comparison is false. Away from NaN the comparisons are a linear
  order, which is all that last-writer-wins and the threshold checks need.
\<close>

datatype pyfloat = Fin rat | PosInf | NegInf | NaN

fun fl_le :: "pyfloat \<Rightarrow> pyfloat \<Rightarrow> bool" where
  "fl_le NaN y = False"
| "fl_le x NaN = False"
| "fl_le NegInf y = True"
| "fl_le x PosInf = True"
| "fl_le (Fin a) (Fin b) = (a \<le> b)"
| "fl_le x y = False"

fun fl_lt :: "pyfloat \<Rightarrow> pyfloat \<Rightarrow> bool" where
  "fl_lt NaN y = False"
| "fl_lt x NaN = False"
| "fl_lt NegInf y = (y \<noteq> NegInf)"
| "fl_lt x PosInf = (x \<noteq> PosInf)"
| "fl_lt (Fin a) (Fin b) = (a < b)"
| "fl_lt x y = False"

fun fl_eq :: "pyfloat \<Rightarrow> pyfloat \<Rightarrow> bool" where
  "fl_eq NaN y = False"
| "fl_eq x y = (x = y)"

lemma fl_eq_iff: "fl_eq x y \<longleftrightarrow> x = y \<and> x \<noteq> NaN"
  by (cases x) auto

lemma fl_lt_NaN [simp]: "\<not> fl_lt x NaN" "\<not> fl_lt NaN x"
  by (cases x; simp)+

lemma fl_lt_irrefl [simp]: "\<not> fl_lt x x"
  by (cases x) auto

lemma fl_lt_trans: "fl_lt x y \<Longrightarrow> fl_lt y z \<Longrightarrow> fl_lt x z"
  by (cases x; cases y; cases z) auto

lemma fl_lt_asym: "fl_lt x y \<Longrightarrow> \<not> fl_lt y x"
  by (cases x; cases y) auto

lemma fl_lt_linear: "x \<noteq> NaN \<Longrightarrow> y \<noteq> NaN \<Longrightarrow> fl_lt x y \<or> x = y \<or> fl_lt y x"
  by (cases x; cases y) auto

lemma fl_not_lt_trans:
  "y \<noteq> NaN \<Longrightarrow> \<not> fl_lt x y \<Longrightarrow> \<not> fl_lt y z \<Longrightarrow> \<not> fl_lt x z"
  by (cases x; cases y; cases z) auto

lemma fl_lt_le_trans: "fl_lt x y \<Longrightarrow> fl_le y z \<Longrightarrow> fl_lt x z"
  by (cases x; cases y; cases z) auto

end
