(* ===== verification/Policy.thy ===== *)
theory Policy
  imports Zanzibar Speculative Floats
begin

text \<open>
  The policy engine, \<^verbatim>\<open>kernel/policy.py\<close>, with the decorator of
  \<^verbatim>\<open>kernel/substrate/axiomatic_guard.py\<close>: operational thresholds read through the speculative
  overlay, the guard-rail decision, and the hot reloader with its history. Numbers are Python floats
  as far as they are compared: a rational, an infinity or NaN, for which every comparison is false.
  A value that is no number raises TypeError when it is compared with one. A policy file is what
  \<open>yaml.safe_load\<close> makes of it; writing it is the argument \<open>dump\<close>. The content hash (SHA-256 over
  canonical JSON, which may raise) is the argument \<open>phash\<close>. Locks and the watcher thread's sleeping
  are not modelled: a step is what runs under the lock.
\<close>

section \<open>Values\<close>

datatype pyval = Num pyfloat | NonNum

fun py_le :: "pyval \<Rightarrow> pyval \<Rightarrow> bool result" where
  "py_le (Num x) (Num y) = Inr (fl_le x y)"
| "py_le x y = Inl TypeError"

fun py_lt :: "pyval \<Rightarrow> pyval \<Rightarrow> bool result" where
  "py_lt (Num x) (Num y) = Inr (fl_lt x y)"
| "py_lt x y = Inl TypeError"

abbreviation num :: "rat \<Rightarrow> pyval" where
  "num r \<equiv> Num (Fin r)"

type_synonym thresholds = "(string, pyval) dict"

definition getd :: "thresholds \<Rightarrow> string \<Rightarrow> pyval \<Rightarrow> pyval" where
  "getd d k v = (case dget d k of Some x \<Rightarrow> x | None \<Rightarrow> v)"

section \<open>Decisions\<close>

record policy_result =
  pr_approved :: bool
  pr_reason :: string

abbreviation verdict :: "bool \<Rightarrow> string \<Rightarrow> policy_result" where
  "verdict b r \<equiv> \<lparr>pr_approved = b, pr_reason = r\<rparr>"

definition ct_policy_decision ::
  "zanzibar_engine \<Rightarrow> string \<Rightarrow> string \<Rightarrow> string \<Rightarrow> string \<Rightarrow> (bool \<times> string) result" where
  "ct_policy_decision z ns obj rel user =
     bindE (check z ns obj rel user 5) (\<lambda>b.
       Inr (if b then (True, ''ZANZIBAR_APPROVED'') else (False, ''ZANZIBAR_DENIED'')))"

text \<open>The state is None, or an object that may have a \<open>state\<close> attribute.\<close>

definition evaluate_os_policy :: "string option option \<Rightarrow> policy_result" where
  "evaluate_os_policy state =
     (case state of
        None \<Rightarrow> verdict False ''CRITICAL: OS State is None''
      | Some attr \<Rightarrow>
          (let status = (case attr of Some s \<Rightarrow> s | None \<Rightarrow> ''UNKNOWN'')
           in if status = ''HALT'' then verdict False ''INVARIANT_VIOLATION: Kernel is HALTED''
              else verdict True ''INVARIANT_CHECK_PASSED''))"

definition apply_guard_policy :: "thresholds \<Rightarrow> thresholds \<Rightarrow> policy_result result" where
  "apply_guard_policy snapshot limits =
     (let drift = getd snapshot ''drift_score'' (num 0);
          health = getd snapshot ''governance_health'' (num 1)
      in bindE (py_lt (getd limits ''drift_max'' (num (8/10))) drift) (\<lambda>too_much.
           if too_much then Inr (verdict False ''GUARD_VIOLATION: Drift > Max'')
           else bindE (py_lt health (getd limits ''health_min'' (num (1/2)))) (\<lambda>too_low.
             if too_low then Inr (verdict False ''GUARD_VIOLATION: Health < Min'')
             else Inr (verdict True ''GUARD_CHECK_PASSED''))))"

section \<open>Policy files\<close>

datatype yaml_doc = YNone | YDict thresholds | YOther

datatype policy_file = Missing | Unreadable | Doc yaml_doc

definition load_yaml_policy :: "policy_file \<Rightarrow> thresholds result" where
  "load_yaml_policy f =
     (case f of
        Missing \<Rightarrow> Inl FileNotFoundError
      | Unreadable \<Rightarrow> Inl RuntimeError
      | Doc YNone \<Rightarrow> Inr []
      | Doc (YDict d) \<Rightarrow> Inr d
      | Doc YOther \<Rightarrow> Inr [])"

definition default_thresholds :: thresholds where
  "default_thresholds = [(''drift_max'', num (8/10)), (''health_min'', num (1/2)), (''latency_max'', num 2000)]"

definition load_guard_thresholds :: "pyval speculative_manager \<Rightarrow> policy_file \<Rightarrow> thresholds result" where
  "load_guard_thresholds buf f =
     bindE (if f \<noteq> Missing then load_yaml_policy f else Inr default_thresholds) (\<lambda>real_policy.
       Inr (map (\<lambda>(k, v). (k, get_effective_value buf (''policy:thresholds:'' @ k) v)) real_policy))"

text \<open>
  The decorator: a missing native module or a failing local attestation raises RuntimeError; an
  unreachable control tower does not stop the call.
\<close>

definition axiomatic_guard :: "bool \<Rightarrow> bool result \<Rightarrow> bool \<Rightarrow> unit result" where
  "axiomatic_guard has_rust_core attestation tower_ok =
     (if \<not> has_rust_core then Inl RuntimeError
      else case attestation of
             Inl _ \<Rightarrow> Inl RuntimeError
           | Inr valid \<Rightarrow> if \<not> valid then Inl RuntimeError else Inr ())"

definition configure_guard_thresholds ::
  "(thresholds \<Rightarrow> policy_file) \<Rightarrow> unit result \<Rightarrow> bool \<Rightarrow> pyval speculative_manager \<Rightarrow>
   pyfloat option \<Rightarrow> pyfloat option \<Rightarrow> policy_file \<Rightarrow> policy_file result" where
  "configure_guard_thresholds dump guard parent_exists buf drift_max health_min f =
     bindE guard (\<lambda>_.
     bindE (load_guard_thresholds buf f) (\<lambda>current.
       let c1 = (case drift_max of Some x \<Rightarrow> dset ''drift_max'' (Num x) current | None \<Rightarrow> current);
           c2 = (case health_min of Some x \<Rightarrow> dset ''health_min'' (Num x) c1 | None \<Rightarrow> c1)
       in if \<not> parent_exists then Inl RuntimeError else Inr (dump c2)))"

text \<open>A directive runs after the guard; what the action raises becomes a refusal.\<close>

definition enforce_critical_directive ::
  "unit result \<Rightarrow> string \<Rightarrow> ('s \<Rightarrow> unit result \<times> 's) \<Rightarrow> 's \<Rightarrow> policy_result result \<times> 's" where
  "enforce_critical_directive guard directive_id action s =
     (case guard of
        Inl err \<Rightarrow> (Inl err, s)
      | Inr _ \<Rightarrow>
          (case action s of
             (Inr _, s') \<Rightarrow> (Inr (verdict True (''DIRECTIVE_ENFORCED: '' @ directive_id)), s')
           | (Inl _, s') \<Rightarrow> (Inr (verdict False ''EXECUTION_FAILED''), s')))"

section \<open>The hot reloader\<close>

record policy_version =
  pv_version :: "nat \<times> string"
  pv_content_hash :: string
  pv_thresholds :: thresholds
  pv_timestamp :: rat

record hot_reloader =
  hr_current :: "policy_version option"
  hr_history :: "policy_version list"
  hr_last_mtime :: rat

definition reloader_init :: hot_reloader where
  "reloader_init = \<lparr>hr_current = None, hr_history = [], hr_last_mtime = 0\<rparr>"

text \<open>The version string \<open>v<n>-<hash>\<close> is the pair of its two parts.\<close>

definition create_version ::
  "(thresholds \<Rightarrow> string result) \<Rightarrow> rat \<Rightarrow> thresholds \<Rightarrow> hot_reloader \<Rightarrow> policy_version result" where
  "create_version phash now limits r =
     bindE (phash limits) (\<lambda>h.
       Inr \<lparr>pv_version = (length (hr_history r) + 1, h), pv_content_hash = h, pv_thresholds = limits,
            pv_timestamp = now\<rparr>)"

definition load_initial ::
  "(thresholds \<Rightarrow> string result) \<Rightarrow> rat \<Rightarrow> pyval speculative_manager \<Rightarrow> policy_file \<Rightarrow> hot_reloader \<Rightarrow>
   policy_version result \<times> hot_reloader" where
  "load_initial phash now buf f r =
     (case bindE (load_guard_thresholds buf f) (\<lambda>d. create_version phash now d r) of
        Inl err \<Rightarrow> (Inl err, r)
      | Inr v \<Rightarrow> (Inr v, r\<lparr>hr_current := Some v, hr_history := hr_history r @ [v]\<rparr>))"

definition get_thresholds ::
  "(thresholds \<Rightarrow> string result) \<Rightarrow> rat \<Rightarrow> pyval speculative_manager \<Rightarrow> policy_file \<Rightarrow> hot_reloader \<Rightarrow>
   thresholds result \<times> hot_reloader" where
  "get_thresholds phash now buf f r =
     (case hr_current r of
        Some v \<Rightarrow> (Inr (pv_thresholds v), r)
      | None \<Rightarrow> (case load_initial phash now buf f r of
                   (Inl err, r') \<Rightarrow> (Inl err, r')
                 | (Inr v, r') \<Rightarrow> (Inr (pv_thresholds v), r')))"

text \<open>
  \<open>_validate_policy\<close>: \<open>0.0 <= x <= 1.0\<close> evaluates the second comparison only when the first holds.
\<close>

definition in_unit :: "pyval \<Rightarrow> bool result" where
  "in_unit x = bindE (py_le (num 0) x) (\<lambda>a. if a then py_le x (num 1) else Inr False)"

definition validate_policy :: "thresholds \<Rightarrow> bool result" where
  "validate_policy d =
     bindE (in_unit (getd d ''drift_max'' (num (8/10)))) (\<lambda>drift_ok.
       if \<not> drift_ok then Inr False
       else bindE (in_unit (getd d ''health_min'' (num (1/2)))) (\<lambda>health_ok.
         if \<not> health_ok then Inr False
         else bindE (py_le (getd d ''latency_max'' (num 2000)) (num 0)) (\<lambda>bad. Inr (\<not> bad))))"

datatype reload_msg =
    POLICY_FILE_MISSING | NO_CHANGE | INVALID | RELOADED "nat \<times> string" | RELOAD_ERROR py_error

text \<open>
  \<open>reload\<close>, with the callback notifications it makes: each registered callback is told the old and
  the new version once, and what a callback raises is ignored.
\<close>

definition reload ::
  "(thresholds \<Rightarrow> string result) \<Rightarrow> rat \<Rightarrow> bool \<Rightarrow> policy_file \<Rightarrow> hot_reloader \<Rightarrow>
   (bool \<times> reload_msg) \<times> hot_reloader \<times> (policy_version option \<times> policy_version) option" where
  "reload phash now force f r =
     (if f = Missing then ((False, POLICY_FILE_MISSING), r, None)
      else
        (case bindE (load_yaml_policy f) (\<lambda>d. bindE (phash d) (\<lambda>h. Inr (d, h))) of
           Inl err \<Rightarrow> ((False, RELOAD_ERROR err), r, None)
         | Inr (d, h) \<Rightarrow>
             if \<not> force \<and> (case hr_current r of Some c \<Rightarrow> h = pv_content_hash c | None \<Rightarrow> False)
             then ((True, NO_CHANGE), r, None)
             else
               (case validate_policy d of
                  Inl err \<Rightarrow> ((False, RELOAD_ERROR err), r, None)
                | Inr False \<Rightarrow> ((False, INVALID), r, None)
                | Inr True \<Rightarrow>
                    (case create_version phash now d r of
                       Inl err \<Rightarrow> ((False, RELOAD_ERROR err), r, None)
                     | Inr v \<Rightarrow> ((True, RELOADED (pv_version v)),
                                 r\<lparr>hr_current := Some v, hr_history := hr_history r @ [v]\<rparr>,
                                 Some (hr_current r, v))))))"

definition rollback :: "int \<Rightarrow> hot_reloader \<Rightarrow> (bool \<times> policy_version option) result \<times> hot_reloader" where
  "rollback steps r =
     (if int (length (hr_history r)) \<le> steps then (Inr (False, None), r)
      else
        (let target_idx = int (length (hr_history r)) - 1 - steps
         in if target_idx \<ge> int (length (hr_history r)) then (Inl IndexError, r)
            else (let target = hr_history r ! nat target_idx
                  in (Inr (True, Some target), r\<lparr>hr_current := Some target\<rparr>))))"

text \<open>One round of the watcher: reload when the file's modification time moved.\<close>

definition watch_round ::
  "(thresholds \<Rightarrow> string result) \<Rightarrow> rat \<Rightarrow> rat \<Rightarrow> policy_file \<Rightarrow> hot_reloader \<Rightarrow> hot_reloader" where
  "watch_round phash now mtime f r =
     (if f \<noteq> Missing \<and> mtime > hr_last_mtime r
      then fst (snd (reload phash now False f (r\<lparr>hr_last_mtime := mtime\<rparr>)))
      else r)"

definition get_history :: "hot_reloader \<Rightarrow> policy_version list" where
  "get_history r = hr_history r"

section \<open>Validation\<close>

lemma in_unit_iff: "in_unit x = Inr True \<longleftrightarrow> (\<exists>a. x = num a \<and> 0 \<le> a \<and> a \<le> 1)"
proof (cases x)
  case (Num f)
  then show ?thesis by (cases f) (auto simp: in_unit_def)
qed (simp add: in_unit_def)

lemma validate_iff:
  "validate_policy d = Inr True \<longleftrightarrow>
     (\<exists>a. getd d ''drift_max'' (num (8/10)) = num a \<and> 0 \<le> a \<and> a \<le> 1) \<and>
     (\<exists>b. getd d ''health_min'' (num (1/2)) = num b \<and> 0 \<le> b \<and> b \<le> 1) \<and>
     (\<exists>x. getd d ''latency_max'' (num 2000) = Num x \<and> \<not> fl_le x (Fin 0))"
proof -
  have lat: "bindE (py_le v (num 0)) (\<lambda>bad. Inr (\<not> bad)) = Inr True \<longleftrightarrow> (\<exists>x. v = Num x \<and> \<not> fl_le x (Fin 0))" for v
    by (cases v) auto
  show ?thesis
    unfolding validate_policy_def by (auto simp: bindE_Inr_iff in_unit_iff [symmetric] lat [symmetric])
qed

text \<open>Not a number is not refused as a latency bound.\<close>

lemma nan_latency_is_valid: "validate_policy [(''latency_max'', Num NaN)] = Inr True"
  by (simp add: validate_policy_def in_unit_def getd_def dget_Cons)

section \<open>The reloader as a machine\<close>

definition valid_version :: "policy_version \<Rightarrow> bool" where
  "valid_version v \<longleftrightarrow> validate_policy (pv_thresholds v) = Inr True"

definition reloader_ok :: "hot_reloader \<Rightarrow> bool" where
  "reloader_ok r \<longleftrightarrow>
     list_all valid_version (hr_history r) \<and>
     (case hr_current r of None \<Rightarrow> hr_history r = [] | Some v \<Rightarrow> v \<in> set (hr_history r)) \<and>
     map (fst \<circ> pv_version) (hr_history r) = [1..<length (hr_history r) + 1]"

datatype hr_op = Reload rat bool policy_file | Rollback int | Watch rat rat policy_file

fun hr_step :: "(thresholds \<Rightarrow> string result) \<Rightarrow> hr_op \<Rightarrow> hot_reloader \<Rightarrow> hot_reloader" where
  "hr_step phash (Reload now force f) r = fst (snd (reload phash now force f r))"
| "hr_step phash (Rollback n) r = snd (rollback n r)"
| "hr_step phash (Watch now mtime f) r = watch_round phash now mtime f r"

lemma reload_cases:
  "fst (snd (reload phash now force f r)) = r \<or>
   (\<exists>v. fst (snd (reload phash now force f r)) = r\<lparr>hr_current := Some v, hr_history := hr_history r @ [v]\<rparr> \<and>
      valid_version v \<and> fst (pv_version v) = length (hr_history r) + 1 \<and>
      load_yaml_policy f = Inr (pv_thresholds v))"
  unfolding reload_def
  by (auto simp: create_version_def valid_version_def bindE_Inr_iff
      split: sum.splits prod.splits bool.splits if_splits option.splits)

lemma reloader_ok_push:
  "reloader_ok r \<Longrightarrow> valid_version v \<Longrightarrow> fst (pv_version v) = length (hr_history r) + 1 \<Longrightarrow>
   reloader_ok (r\<lparr>hr_current := Some v, hr_history := hr_history r @ [v]\<rparr>)"
  by (simp add: reloader_ok_def)

lemma reload_ok: "reloader_ok r \<Longrightarrow> reloader_ok (fst (snd (reload phash now force f r)))"
  using reload_cases [of phash now force f r] reloader_ok_push by metis

lemma reloader_ok_mtime [simp]: "reloader_ok (r\<lparr>hr_last_mtime := t\<rparr>) = reloader_ok r"
  by (simp add: reloader_ok_def cong: option.case_cong)

lemma rollback_ok: "reloader_ok r \<Longrightarrow> reloader_ok (snd (rollback n r))"
  by (auto simp: reloader_ok_def rollback_def Let_def not_le split: option.splits)

interpretation reloader: machine "hr_step phash" reloader_ok
  for phash
proof (unfold_locales, goal_cases)
  case (1 r x)
  then show ?case
    by (cases x) (auto simp: reload_ok rollback_ok watch_round_def)
qed

lemma reloader_init_ok [simp]: "reloader_ok reloader_init"
  by (simp add: reloader_ok_def reloader_init_def)

section \<open>Reading through the overlay\<close>

lemma no_overlay [simp]: "get_effective_value spec_init k v = v"
  by (simp add: get_effective_value_def spec_init_def)

lemma overlay_load:
  "case load_guard_thresholds spec_init f of
     Inl err \<Rightarrow> load_guard_thresholds buf f = Inl err
   | Inr real_policy \<Rightarrow> \<exists>d. load_guard_thresholds buf f = Inr d \<and> dkeys d = dkeys real_policy \<and>
       (\<forall>k. dget d k = map_option (\<lambda>v. case overlay_value buf (''policy:thresholds:'' @ k) of Some w \<Rightarrow> w | None \<Rightarrow> v)
                         (dget real_policy k))"
proof -
  let ?real = "if f \<noteq> Missing then load_yaml_policy f else Inr default_thresholds"
  show ?thesis
  proof (cases ?real)
    case (Inl err)
    then show ?thesis by (simp add: load_guard_thresholds_def)
  next
    case (Inr d)
    have "map_of (map (\<lambda>(k, v). (k, get_effective_value buf (''policy:thresholds:'' @ k) v)) d) k =
        map_option (\<lambda>v. case overlay_value buf (''policy:thresholds:'' @ k) of Some w \<Rightarrow> w | None \<Rightarrow> v) (map_of d k)" for k
      using spec_overlay.read_all [of buf "''policy:thresholds:''" d k] by (simp split: option.splits)
    with Inr show ?thesis
      by (simp add: load_guard_thresholds_def dkeys_def dget_def case_prod_unfold)
  qed
qed

lemma overlay_load_plain: "load_guard_thresholds spec_init (Doc y) = load_yaml_policy (Doc y)"
  by (cases "load_yaml_policy (Doc y)") (simp_all add: load_guard_thresholds_def)

section \<open>Properties\<close>

text \<open>
  C26. The policy in force stays valid: after any sequence of reloads, rollbacks and watcher rounds
  on whatever files, a policy in force has a drift bound and a health bound in the unit interval
  and a latency bound that is not at or below zero; it is one of the versions of the history, whose
  version numbers count up from one.
\<close>

theorem reloaded_policy_is_valid:
  assumes "r = fold (hr_step phash) ops reloader_init" "hr_current r = Some v"
  shows "(\<exists>a b x. getd (pv_thresholds v) ''drift_max'' (num (8/10)) = num a \<and> 0 \<le> a \<and> a \<le> 1 \<and>
      getd (pv_thresholds v) ''health_min'' (num (1/2)) = num b \<and> 0 \<le> b \<and> b \<le> 1 \<and>
      getd (pv_thresholds v) ''latency_max'' (num 2000) = Num x \<and> \<not> fl_le x (Fin 0)) \<and>
    v \<in> set (get_history r) \<and>
    map (fst \<circ> pv_version) (get_history r) = [1..<length (get_history r) + 1]"
proof -
  have ok: "reloader_ok r" using reloader.run_inv [OF reloader_init_ok] assms(1) by blast
  then have "v \<in> set (hr_history r)" using assms(2) by (simp add: reloader_ok_def)
  with ok have "validate_policy (pv_thresholds v) = Inr True"
    by (auto simp: reloader_ok_def list_all_iff valid_version_def)
  with ok \<open>v \<in> set (hr_history r)\<close> show ?thesis
    unfolding validate_iff by (auto simp: get_history_def reloader_ok_def simp del: upt_Suc)
qed

text \<open>
  The first load is the exception: it adopts the file unchecked, and through the speculative overlay.
\<close>

lemma load_initial_unchecked:
  "fst (load_initial phash now buf (Doc (YDict [(''drift_max'', num 7)])) r) = Inr v \<Longrightarrow>
   overlay_value buf ''policy:thresholds:drift_max'' = None \<Longrightarrow> \<not> valid_version v"
  by (auto simp: load_initial_def load_guard_thresholds_def load_yaml_policy_def create_version_def
      valid_version_def validate_iff getd_def dget_Cons spec_overlay.eff_unstaged bindE_Inr_iff split: sum.splits)

text \<open>
  Rolling back is not relative to the policy in force: rolling back one step twice is rolling back
  one step.
\<close>

lemma rollback_not_relative: "snd (rollback n (snd (rollback n r))) = snd (rollback n r)"
  by (auto simp: rollback_def Let_def)

text \<open>
  The guard rails: with valid limits and numeric readings, the guard approves exactly when the
  drift is at most its bound and the health at least its own, except that a reading that is not a
  number passes.
\<close>

theorem guard_decision:
  assumes "validate_policy limits = Inr True"
    and "getd snapshot ''drift_score'' (num 0) = Num drift"
    and "getd snapshot ''governance_health'' (num 1) = Num health"
  shows "\<exists>a b res. getd limits ''drift_max'' (num (8/10)) = num a \<and> getd limits ''health_min'' (num (1/2)) = num b \<and>
    apply_guard_policy snapshot limits = Inr res \<and>
    (pr_approved res \<longleftrightarrow> (drift = NaN \<or> fl_le drift (Fin a)) \<and> (health = NaN \<or> fl_le (Fin b) health))"
proof -
  obtain a b where lim: "getd limits ''drift_max'' (num (8/10)) = num a" "getd limits ''health_min'' (num (1/2)) = num b"
    using assms(1) unfolding validate_iff by blast
  have lt: "fl_lt (Fin c) x \<longleftrightarrow> \<not> (x = NaN \<or> fl_le x (Fin c))" "fl_lt x (Fin c) \<longleftrightarrow> \<not> (x = NaN \<or> fl_le (Fin c) x)"
    for c x by (cases x; auto)+
  show ?thesis
    using assms(2,3) lim by (auto simp: apply_guard_policy_def Let_def lt)
qed

text \<open>
  Thresholds are read through the overlay and nothing else: whatever the speculative buffer
  holds, loading fails exactly when it fails without speculation, with the same error; otherwise
  the keys are those of the real policy, in its order, and each has the value staged for it by the
  active overlay, or its real value.
\<close>

theorem thresholds_through_overlay:
  "case load_guard_thresholds spec_init f of
     Inl err \<Rightarrow> load_guard_thresholds buf f = Inl err
   | Inr real_policy \<Rightarrow> \<exists>d. load_guard_thresholds buf f = Inr d \<and> dkeys d = dkeys real_policy \<and>
       (\<forall>k. dget d k = map_option (\<lambda>v. case overlay_value buf (''policy:thresholds:'' @ k) of Some w \<Rightarrow> w | None \<Rightarrow> v)
                         (dget real_policy k))"
  by (rule overlay_load)

text \<open>
  Configuring thresholds while an overlay is active makes the speculation permanent: a staged
  value of a threshold of the real policy that the call does not itself set is written to the file,
  and is still read after every speculative layer is gone. YAML is taken to read back what it wrote.
\<close>

theorem configure_persists_speculation:
  assumes yaml: "\<And>d. \<exists>d'. dump d = Doc (YDict d') \<and> same_dict d' d"
    and "load_guard_thresholds spec_init f = Inr real_policy" "dget real_policy k = Some v"
    and "overlay_value buf (''policy:thresholds:'' @ k) = Some w"
    and "k \<noteq> ''drift_max'' \<or> drift_max = None" "k \<noteq> ''health_min'' \<or> health_min = None"
    and "configure_guard_thresholds dump guard True buf drift_max health_min f = Inr f'"
  shows "\<exists>d. load_guard_thresholds spec_init f' = Inr d \<and> dget d k = Some w"
proof -
  have load: "\<exists>d. load_guard_thresholds buf f = Inr d \<and> dget d k = Some w"
    using overlay_load [where f = f and buf = buf] assms(2-4) by (auto split: sum.splits)
  then obtain d where "load_guard_thresholds buf f = Inr d" "dget d k = Some w" by blast
  then obtain d2 where "f' = dump d2" "dget d2 k = Some w"
    using assms(5-7) by (auto simp: configure_guard_thresholds_def bindE_Inr_iff Let_def split: option.splits)
  moreover obtain d3 where "dump d2 = Doc (YDict d3)" "same_dict d3 d2" using yaml by blast
  ultimately show ?thesis
    using overlay_load_plain [of "YDict d3"] by (auto simp: load_yaml_policy_def same_dict_def)
qed

section \<open>Witnesses\<close>

definition demo_limits :: thresholds where
  "demo_limits = [(''drift_max'', num (1/2)), (''health_min'', num (1/4))]"

definition demo_phash :: "thresholds \<Rightarrow> string result" where
  "demo_phash d = Inr (replicate (length d) (CHR ''a''))"

theorem reloaded_policy_is_valid_witness:
  "\<exists>v a. hr_current (fold (hr_step demo_phash)
        [Reload 0 False (Doc (YDict demo_limits)), Reload 1 False (Doc (YDict [(''drift_max'', num 7)])), Rollback 0]
        reloader_init) = Some v \<and>
     getd (pv_thresholds v) ''drift_max'' (num (8/10)) = num a \<and> 0 \<le> a \<and> a \<le> 1"
proof -
  let ?r = "fold (hr_step demo_phash)
        [Reload 0 False (Doc (YDict demo_limits)), Reload 1 False (Doc (YDict [(''drift_max'', num 7)])), Rollback 0]
        reloader_init"
  have "hr_current ?r \<noteq> None" by code_simp
  then obtain v where v: "hr_current ?r = Some v" by blast
  from reloaded_policy_is_valid [OF refl v] v show ?thesis by blast
qed

theorem guard_decision_witness:
  "\<exists>res. apply_guard_policy [(''drift_score'', Num NaN)] demo_limits = Inr res \<and> pr_approved res"
proof -
  have v: "validate_policy demo_limits = Inr True" by code_simp
  have d: "getd [(''drift_score'', Num NaN)] ''drift_score'' (num 0) = Num NaN"
    and h: "getd [(''drift_score'', Num NaN)] ''governance_health'' (num 1) = num 1"
    by (simp_all add: getd_def dget_Cons)
  have "getd demo_limits ''health_min'' (num (1/2)) = num (1/4)" by (simp add: demo_limits_def getd_def dget_Cons)
  with guard_decision [OF v d h] show ?thesis by auto
qed

definition demo_overlay :: "pyval speculative_manager" where
  "demo_overlay = activate_layer ''L'' (stage_change ''L'' ''c'' ''policy:thresholds:drift_max'' None (num 1) ''n'' 0 300 spec_init)"

theorem configure_persists_speculation_witness:
  "\<exists>f' d. configure_guard_thresholds (\<lambda>d. Doc (YDict d)) (Inr ()) True demo_overlay None (Some (Fin (1/4)))
       (Doc (YDict demo_limits)) = Inr f' \<and>
     load_guard_thresholds spec_init f' = Inr d \<and> dget d ''drift_max'' = Some (num 1)"
proof -
  have ov: "overlay_value demo_overlay (''policy:thresholds:'' @ ''drift_max'') = Some (num 1)" by code_simp
  have ld: "load_guard_thresholds spec_init (Doc (YDict demo_limits)) = Inr demo_limits"
    by (simp add: overlay_load_plain load_yaml_policy_def)
  have dm: "dget demo_limits ''drift_max'' = Some (num (1/2))" by (simp add: demo_limits_def dget_Cons)
  obtain f' where f: "configure_guard_thresholds (\<lambda>d. Doc (YDict d)) (Inr ()) True demo_overlay None (Some (Fin (1/4)))
       (Doc (YDict demo_limits)) = Inr f'"
    by (auto simp: configure_guard_thresholds_def load_guard_thresholds_def load_yaml_policy_def Let_def)
  have y: "\<exists>d'. Doc (YDict d) = Doc (YDict d') \<and> same_dict d' d" for d by (auto simp: same_dict_def)
  from configure_persists_speculation [OF y ld dm ov _ _ f] f show ?thesis by auto
qed

end
