(* ===== verification/Fleet.thy ===== *)
theory Fleet
  imports Zanzibar Complex_Main
begin

text \<open>
  The fleet manager, \<^verbatim>\<open>system/fleet/manager.py\<close>: registration with a hardware attestation report,
  heartbeats, slashing, and the aggregate health, which itself moves silent nodes to OFFLINE. Of a
  report only the provider and the quote are read. \<open>time.time()\<close> is the argument \<open>now\<close>.
\<close>

section \<open>Nodes\<close>

datatype node_status = UNKNOWN | VERIFIED | UNTRUSTED | OFFLINE | SLASHED

record attestation_report =
  ar_provider :: string
  ar_quote :: string

record fleet_node =
  fn_node_id :: string
  fn_last_seen :: rat
  fn_report :: "attestation_report option"
  fn_status :: node_status

record 'p fleet_manager =
  fm_nodes :: "(string, fleet_node) dict"
  fm_health_threshold :: rat
  fm_global_policies :: "(string, 'p) dict"

definition fleet_init :: "'p fleet_manager" where
  "fleet_init = \<lparr>fm_nodes = [], fm_health_threshold = 60, fm_global_policies = []\<rparr>"

fun contains :: "string \<Rightarrow> string \<Rightarrow> bool" where
  "contains pat [] = startswith [] pat"
| "contains pat (c # s) = (startswith (c # s) pat \<or> contains pat s)"

definition verify_node_report :: "attestation_report \<Rightarrow> bool" where
  "verify_node_report r =
     (if \<not> list_ex (\<lambda>p. startswith (ar_provider r) p) [''KINETIC_TPM'', ''KINETIC_ID''] then False
      else if contains ''REJECTION'' (ar_quote r) then False
      else True)"

section \<open>Operations\<close>

definition register_node :: "rat \<Rightarrow> string \<Rightarrow> attestation_report \<Rightarrow> 'p fleet_manager \<Rightarrow> 'p fleet_manager" where
  "register_node now node_id report m =
     (let status = (if verify_node_report report then VERIFIED else UNTRUSTED)
      in m\<lparr>fm_nodes := dset node_id \<lparr>fn_node_id = node_id, fn_last_seen = now, fn_report = Some report,
                                      fn_status = status\<rparr> (fm_nodes m)\<rparr>)"

definition refresh :: "rat \<Rightarrow> rat \<Rightarrow> fleet_node \<Rightarrow> fleet_node" where
  "refresh now threshold n =
     (if fn_status n \<noteq> SLASHED \<and> now - fn_last_seen n > threshold then n\<lparr>fn_status := OFFLINE\<rparr> else n)"

record fleet_health =
  fh_total_nodes :: nat
  fh_counts :: "node_status \<Rightarrow> nat"
  fh_healthy :: bool

text \<open>
  \<open>get_fleet_health\<close>: nodes are refreshed and counted in one pass; a node whose status has no
  counter raises KeyError, and the nodes before it have been refreshed.
\<close>

fun count_nodes ::
  "rat \<Rightarrow> rat \<Rightarrow> (string, fleet_node) dict \<Rightarrow> (node_status \<Rightarrow> nat) \<Rightarrow>
   (node_status \<Rightarrow> nat) result \<times> (string, fleet_node) dict" where
  "count_nodes now th [] counts = (Inr counts, [])"
| "count_nodes now th ((i, n) # ns) counts =
     (let n1 = refresh now th n
      in if fn_status n1 = UNKNOWN then (Inl KeyError, (i, n1) # ns)
         else (let (r, ns1) = count_nodes now th ns (counts(fn_status n1 := counts (fn_status n1) + 1))
               in (r, (i, n1) # ns1)))"

definition get_fleet_health :: "rat \<Rightarrow> 'p fleet_manager \<Rightarrow> fleet_health result \<times> 'p fleet_manager" where
  "get_fleet_health now m =
     (let (r, ns) = count_nodes now (fm_health_threshold m) (fm_nodes m) (\<lambda>_. 0)
      in (bindE r (\<lambda>counts. Inr \<lparr>fh_total_nodes = length ns, fh_counts = counts,
             fh_healthy = (if ns = [] then False else 2 * counts VERIFIED > length ns)\<rparr>),
          m\<lparr>fm_nodes := ns\<rparr>))"

definition heartbeat :: "rat \<Rightarrow> string \<Rightarrow> 'p fleet_manager \<Rightarrow> 'p fleet_manager" where
  "heartbeat now node_id m =
     (case dget (fm_nodes m) node_id of
        None \<Rightarrow> m
      | Some n \<Rightarrow>
          m\<lparr>fm_nodes := dset node_id
              (n\<lparr>fn_last_seen := now,
                 fn_status := (if fn_status n = OFFLINE then VERIFIED else fn_status n)\<rparr>) (fm_nodes m)\<rparr>)"

definition slash_node :: "string \<Rightarrow> 'p fleet_manager \<Rightarrow> 'p fleet_manager" where
  "slash_node node_id m =
     (case dget (fm_nodes m) node_id of
        Some n \<Rightarrow> m\<lparr>fm_nodes := dset node_id (n\<lparr>fn_status := SLASHED\<rparr>) (fm_nodes m)\<rparr>
      | None \<Rightarrow> m\<lparr>fm_nodes := dset node_id \<lparr>fn_node_id = node_id, fn_last_seen = 0, fn_report = None,
                                            fn_status = SLASHED\<rparr> (fm_nodes m)\<rparr>)"

definition sync_global_policy :: "string \<Rightarrow> 'p \<Rightarrow> 'p fleet_manager \<Rightarrow> 'p fleet_manager" where
  "sync_global_policy i s m = m\<lparr>fm_global_policies := dset i s (fm_global_policies m)\<rparr>"

definition get_policy_status :: "'p fleet_manager \<Rightarrow> (string, 'p) dict" where
  "get_policy_status m = fm_global_policies m"

section \<open>The fleet as a machine\<close>

definition fleet_ok :: "'p fleet_manager \<Rightarrow> bool" where
  "fleet_ok m \<longleftrightarrow> dict_ok (fm_nodes m) \<and>
     list_all (\<lambda>(i, n). fn_node_id n = i \<and> fn_status n \<noteq> UNKNOWN) (fm_nodes m)"

datatype 'p fleet_op =
    Register rat string attestation_report | Health rat | Heartbeat rat string | Slash string | Sync string 'p

fun fleet_step :: "'p fleet_op \<Rightarrow> 'p fleet_manager \<Rightarrow> 'p fleet_manager" where
  "fleet_step (Register now i r) m = register_node now i r m"
| "fleet_step (Health now) m = snd (get_fleet_health now m)"
| "fleet_step (Heartbeat now i) m = heartbeat now i m"
| "fleet_step (Slash i) m = slash_node i m"
| "fleet_step (Sync i s) m = sync_global_policy i s m"

lemma fleet_ok_iff:
  "fleet_ok m \<longleftrightarrow> dict_ok (fm_nodes m) \<and>
     (\<forall>i n. dget (fm_nodes m) i = Some n \<longrightarrow> fn_node_id n = i \<and> fn_status n \<noteq> UNKNOWN)"
  by (auto simp: fleet_ok_def list_all_iff dget_in_set)

lemma refresh_simps [simp]:
  "fn_node_id (refresh now th n) = fn_node_id n"
  "fn_status (refresh now th n) = UNKNOWN \<longleftrightarrow> fn_status n = UNKNOWN \<and> \<not> now - fn_last_seen n > th"
  "fn_status (refresh now th n) = SLASHED \<longleftrightarrow> fn_status n = SLASHED"
  by (auto simp: refresh_def)

text \<open>When every node has a counted status, the pass refreshes all and counts each once.\<close>

lemma count_nodes_ok:
  assumes "list_all (\<lambda>(i, n). fn_node_id n = i \<and> fn_status n \<noteq> UNKNOWN) ns"
  shows "count_nodes now th ns counts =
    (Inr (\<lambda>s. counts s + length (filter (\<lambda>(i, n). fn_status (refresh now th n) = s) ns)),
     map (\<lambda>(i, n). (i, refresh now th n)) ns)"
  using assms by (induction ns arbitrary: counts) (auto simp: Let_def fun_eq_iff)

lemma health_nodes:
  assumes "fleet_ok m"
  shows "fm_nodes (snd (get_fleet_health now m)) =
    map (\<lambda>(i, n). (i, refresh now (fm_health_threshold m) n)) (fm_nodes m)"
  using assms by (simp add: get_fleet_health_def fleet_ok_def count_nodes_ok)

lemma dget_map_value: "dget (map (\<lambda>(i, n). (i, f n)) d) k = map_option f (dget d k)"
  by (induction d) (auto simp: dget_Cons)

lemma dict_ok_map_value: "dict_ok (map (\<lambda>(i, n). (i, f n)) d) = dict_ok d"
  by (simp add: dict_ok_def case_prod_unfold comp_def)

interpretation fleet: machine fleet_step fleet_ok
proof (unfold_locales, goal_cases)
  case (1 m x)
  show ?case
  proof (cases x)
    case (Health now)
    have "list_all (\<lambda>(i, n). fn_node_id n = i \<and> fn_status n \<noteq> UNKNOWN)
        (map (\<lambda>(i, n). (i, refresh now th n)) (fm_nodes m))" for th
      using 1 by (auto simp: fleet_ok_def list_all_iff)
    with 1 Health show ?thesis
      by (simp add: fleet_ok_def [of "snd _"] health_nodes dict_ok_map_value) (simp add: fleet_ok_def)
  qed (use 1 in \<open>auto simp: fleet_ok_iff register_node_def heartbeat_def slash_node_def
        sync_global_policy_def Let_def split: option.splits\<close>)
qed

definition is_slashed :: "string \<Rightarrow> 'p fleet_manager \<Rightarrow> bool" where
  "is_slashed i m \<longleftrightarrow> map_option fn_status (dget (fm_nodes m) i) = Some SLASHED"

lemma slashed_step:
  assumes "fleet_ok m" "is_slashed i m" "\<And>now r. x \<noteq> Register now i r"
  shows "is_slashed i (fleet_step x m)"
proof (cases x)
  case (Health now)
  with assms show ?thesis by (auto simp: is_slashed_def health_nodes dget_map_value)
qed (use assms in \<open>auto simp: is_slashed_def register_node_def heartbeat_def slash_node_def
      sync_global_policy_def Let_def split: option.splits\<close>)

section \<open>Properties\<close>

text \<open>
  A slashed node stays slashed through every health check, heartbeat, slashing and policy
  update, and through the registration of other nodes; registering the node itself again is what
  ends it, whatever it was slashed for.
\<close>

theorem slashed_until_registered:
  assumes "fleet_ok m"
  shows "(list_all (\<lambda>x. case x of Register _ j _ \<Rightarrow> j \<noteq> i | _ \<Rightarrow> True) ops \<longrightarrow>
            is_slashed i (fold fleet_step ops (slash_node i m))) \<and>
         \<not> is_slashed i (register_node now i rep (slash_node i m))"
proof -
  have keep: "fleet_ok m \<Longrightarrow> is_slashed i m \<Longrightarrow>
      list_all (\<lambda>x. case x of Register _ j _ \<Rightarrow> j \<noteq> i | _ \<Rightarrow> True) ops \<Longrightarrow>
      is_slashed i (fold fleet_step ops m)" for m :: "'a fleet_manager"
  proof (induction ops arbitrary: m)
    case (Cons x ops)
    have "is_slashed i (fleet_step x m)"
      by (rule slashed_step) (use Cons.prems in auto)
    with Cons.prems show ?case
      by (simp add: Cons.IH fleet.step_inv)
  qed simp
  have "is_slashed i (slash_node i m)" by (auto simp: is_slashed_def slash_node_def split: option.splits)
  moreover have "fleet_ok (slash_node i m)" using fleet.step_inv [OF assms, of "Slash i"] by simp
  ultimately show ?thesis
    using keep by (auto simp: is_slashed_def register_node_def Let_def)
qed

text \<open>
  The health report is exact: in a reachable fleet it never raises; every node is counted
  once, under the status it has after the check; the counts add up to the number of nodes; and the
  fleet is healthy exactly when more than half of its nodes are verified.
\<close>

theorem fleet_health_exact:
  assumes "m = fold fleet_step ops fleet_init" "get_fleet_health now m = (r, m')"
  shows "\<exists>h. r = Inr h \<and> fh_total_nodes h = length (fm_nodes m) \<and>
    (\<forall>s. fh_counts h s = length (filter (\<lambda>n. fn_status n = s) (dvalues (fm_nodes m')))) \<and>
    fh_counts h VERIFIED + fh_counts h UNTRUSTED + fh_counts h OFFLINE + fh_counts h SLASHED = fh_total_nodes h \<and>
    (fh_healthy h \<longleftrightarrow> fh_total_nodes h < 2 * fh_counts h VERIFIED)"
proof -
  have ok: "fleet_ok m" using fleet.run_inv [of fleet_init ops] assms(1) by (simp add: fleet_ok_def fleet_init_def)
  let ?ns = "map (\<lambda>(i, n). (i, refresh now (fm_health_threshold m) n)) (fm_nodes m)"
  have cnt: "length (filter (\<lambda>(i, n). fn_status (refresh now (fm_health_threshold m) n) = s) (fm_nodes m)) =
      length (filter (\<lambda>n. fn_status n = s) (dvalues ?ns))" for s
    by (induction "fm_nodes m") (auto simp: dvalues_def comp_def case_prod_unfold filter_map)
  have sum: "length (filter (\<lambda>n. fn_status n = VERIFIED) l) + length (filter (\<lambda>n. fn_status n = UNTRUSTED) l) +
      length (filter (\<lambda>n. fn_status n = OFFLINE) l) + length (filter (\<lambda>n. fn_status n = SLASHED) l) = length l"
    if "\<forall>n \<in> set l. fn_status n \<noteq> UNKNOWN" for l :: "fleet_node list"
    using that
  proof (induction l)
    case (Cons n l)
    then show ?case by (cases "fn_status n") auto
  qed simp
  have known: "\<forall>n \<in> set (dvalues ?ns). fn_status n \<noteq> UNKNOWN"
    using ok by (auto simp: dvalues_def fleet_ok_def list_all_iff)
  have len: "length (dvalues ?ns) = length (fm_nodes m)" by (simp add: dvalues_def)
  have h: "r = Inr \<lparr>fh_total_nodes = length ?ns,
        fh_counts = (\<lambda>s. length (filter (\<lambda>n. fn_status n = s) (dvalues ?ns))),
        fh_healthy = (if ?ns = [] then False
          else 2 * length (filter (\<lambda>n. fn_status n = VERIFIED) (dvalues ?ns)) > length ?ns)\<rparr>"
    and nodes: "fm_nodes m' = ?ns"
    using assms(2) ok
    by (auto simp: get_fleet_health_def fleet_ok_def count_nodes_ok cnt)
  show ?thesis
    unfolding h nodes using sum [OF known] len by (auto simp: dvalues_def)
qed

text \<open>
  Attestation can be bypassed by falling silent: a node whose report was rejected, once a
  health check has found it silent for over a minute, is VERIFIED at its next heartbeat.
\<close>

theorem untrusted_node_becomes_verified:
  assumes "\<not> verify_node_report rep" "now2 - now1 > 60" "fleet_ok m" "fm_health_threshold m = 60"
  shows "map_option fn_status (dget (fm_nodes (register_node now1 i rep m)) i) = Some UNTRUSTED \<and>
    map_option fn_status (dget (fm_nodes (heartbeat now3 i (snd (get_fleet_health now2 (register_node now1 i rep m))))) i) =
      Some VERIFIED"
proof -
  have ok: "fleet_ok (register_node now1 i rep m)" using fleet.step_inv [OF assms(3), of "Register now1 i rep"] by simp
  have th: "fm_health_threshold (register_node now1 i rep m) = 60" using assms(4) by (simp add: register_node_def Let_def)
  define m1 where "m1 = register_node now1 i rep m"
  have reg: "dget (fm_nodes m1) i = Some \<lparr>fn_node_id = i, fn_last_seen = now1, fn_report = Some rep, fn_status = UNTRUSTED\<rparr>"
    using assms(1) by (simp add: m1_def register_node_def Let_def)
  then have "map_option fn_status (dget (fm_nodes (snd (get_fleet_health now2 m1))) i) = Some OFFLINE"
    using ok th assms(2) by (simp add: m1_def [symmetric] health_nodes dget_map_value refresh_def)
  then show ?thesis
    using reg by (auto simp: m1_def [symmetric] heartbeat_def)
qed

section \<open>Witnesses\<close>

definition demo_report :: "string \<Rightarrow> attestation_report" where
  "demo_report p = \<lparr>ar_provider = p, ar_quote = ''quote''\<rparr>"

lemma fleet_init_ok: "fleet_ok fleet_init"
  by (simp add: fleet_ok_def fleet_init_def)

lemma fleet_threshold: "fm_health_threshold fleet_init = 60"
  by (simp add: fleet_init_def)

theorem slashed_until_registered_witness:
  "is_slashed ''a'' (fold fleet_step [Heartbeat 9 ''a'', Health 99, Heartbeat 100 ''a''] (slash_node ''a'' (fleet_init :: unit fleet_manager))) \<and>
   \<not> is_slashed ''a'' (register_node 9 ''a'' (demo_report ''x'') (slash_node ''a'' (fleet_init :: unit fleet_manager)))"
  using slashed_until_registered [of "fleet_init :: unit fleet_manager" "''a''" "[Heartbeat 9 ''a'', Health 99, Heartbeat 100 ''a'']" 9 "demo_report ''x''"]
  by (simp add: fleet_init_ok del: fleet_step.simps fold_simps)

theorem fleet_health_exact_witness:
  "\<exists>h. fst (get_fleet_health 5 (fold fleet_step [Register 1 ''a'' (demo_report ''KINETIC_ID-9'')] (fleet_init :: unit fleet_manager))) = Inr h \<and>
     fh_total_nodes h = 1"
proof -
  let ?m = "fold fleet_step [Register 1 ''a'' (demo_report ''KINETIC_ID-9'')] (fleet_init :: unit fleet_manager)"
  obtain r m' where g: "get_fleet_health 5 ?m = (r, m')" by fastforce
  have "length (fm_nodes ?m) = 1" by (simp add: register_node_def fleet_init_def Let_def)
  with fleet_health_exact [OF refl g] g show ?thesis by (metis fst_conv)
qed

theorem untrusted_node_becomes_verified_witness:
  "map_option fn_status (dget (fm_nodes (heartbeat 63 ''a'' (snd (get_fleet_health 62
     (register_node 1 ''a'' (demo_report ''SOFTWARE'') (fleet_init :: unit fleet_manager)))))) ''a'') = Some VERIFIED"
proof -
  have "\<not> verify_node_report (demo_report ''SOFTWARE'')" by code_simp
  from untrusted_node_becomes_verified [OF this, of 62 1 "fleet_init :: unit fleet_manager" "''a''" 63] show ?thesis
    by (simp add: fleet_threshold fleet_init_ok)
qed

end
