(* ===== verification/Merkle.thy ===== *)
theory Merkle
  imports Prelude
begin

text \<open>
  Pairwise hashing, shared by the two Merkle trees of the program
  (\<^verbatim>\<open>kernel/federation/state_sync.py\<close> and \<^verbatim>\<open>kernel/mesh/anti_entropy.py\<close>): a level is hashed two by
  two, an odd last element with itself, until one hash is left. \<open>H\<close> is the hash of the program on the
  concatenated text. What the root binds is proved here once: for levels of the same length, under
  a hash that does not collide on the texts hashed, equal roots have equal leaves.
\<close>

fun pair_up :: "(string \<Rightarrow> string) \<Rightarrow> string list \<Rightarrow> string list" where
  "pair_up H [] = []"
| "pair_up H [x] = [H (x @ x)]"
| "pair_up H (x # y # r) = H (x @ y) # pair_up H r"

fun pair_inputs :: "string list \<Rightarrow> string list" where
  "pair_inputs [] = []"
| "pair_inputs [x] = [x @ x]"
| "pair_inputs (x # y # r) = (x @ y) # pair_inputs r"

lemma pair_up_inputs: "pair_up H xs = map H (pair_inputs xs)"
  by (induction xs rule: pair_inputs.induct) auto

lemma length_pair_inputs [simp]: "length (pair_inputs xs) = (length xs + 1) div 2"
  by (induction xs rule: pair_inputs.induct) auto

lemma length_pair_up [simp]: "length (pair_up H xs) = (length xs + 1) div 2"
  by (simp add: pair_up_inputs)

function merkle_root :: "(string \<Rightarrow> string) \<Rightarrow> string list \<Rightarrow> string" where
  "merkle_root H xs = (if length xs \<le> 1 then (case xs of [] \<Rightarrow> [] | x # _ \<Rightarrow> x) else merkle_root H (pair_up H xs))"
  by pat_completeness auto
termination
  by (relation "measure (\<lambda>(H, xs). length xs)") auto

declare merkle_root.simps [simp del]

lemma merkle_root_Nil [simp]: "merkle_root H [] = []"
  by (simp add: merkle_root.simps)

lemma merkle_root_single [simp]: "merkle_root H [x] = x"
  by (simp add: merkle_root.simps)

lemma merkle_root_step: "1 < length xs \<Longrightarrow> merkle_root H xs = merkle_root H (pair_up H xs)"
  by (simp add: merkle_root.simps [of H xs])

text \<open>Every text hashed on the way to the root.\<close>

function merkle_inputs :: "(string \<Rightarrow> string) \<Rightarrow> string list \<Rightarrow> string list" where
  "merkle_inputs H xs = (if length xs \<le> 1 then [] else pair_inputs xs @ merkle_inputs H (pair_up H xs))"
  by pat_completeness auto
termination
  by (relation "measure (\<lambda>(H, xs). length xs)") auto

declare merkle_inputs.simps [simp del]

lemma pair_inputs_inj:
  assumes "length xs = length ys" "\<forall>x \<in> set xs \<union> set ys. length x = n" "pair_inputs xs = pair_inputs ys"
  shows "xs = ys"
  using assms
proof (induction xs arbitrary: ys rule: pair_inputs.induct)
  case (2 x)
  then obtain y where "ys = [y]" by (cases ys) auto
  with 2 show ?case by simp
next
  case (3 x x' xs)
  then obtain y y' ys' where ys: "ys = y # y' # ys'"
    by (cases ys rule: pair_inputs.cases) auto
  with 3 have "x = y" "x' = y'" "pair_inputs xs = pair_inputs ys'" by auto
  with 3 ys show ?case by simp
qed simp

lemma map_inj_on_eq:
  "inj_on f (set xs \<union> set ys) \<Longrightarrow> map f xs = map f ys \<Longrightarrow> xs = ys"
  by (rule map_inj_on) (auto simp: Un_commute)

lemma merkle_root_inj:
  assumes "\<And>x. length (H x) = n" "length xs = length ys" "\<forall>x \<in> set xs \<union> set ys. length x = n"
    and "inj_on H (set (merkle_inputs H xs) \<union> set (merkle_inputs H ys))"
    and "merkle_root H xs = merkle_root H ys"
  shows "xs = ys"
  using assms(2-5)
proof (induction "length xs" arbitrary: xs ys rule: less_induct)
  case less
  show ?case
  proof (cases "length xs \<le> 1")
    case True
    with less.prems(1,4) show ?thesis
      by (cases xs; cases ys) auto
  next
    case False
    have inp: "set (merkle_inputs H zs) = set (pair_inputs zs) \<union> set (merkle_inputs H (pair_up H zs))"
      if "length zs = length xs" for zs
      using False that by (simp add: merkle_inputs.simps [of H zs])
    have "pair_up H xs = pair_up H ys"
    proof (rule less.hyps)
      show "inj_on H (set (merkle_inputs H (pair_up H xs)) \<union> set (merkle_inputs H (pair_up H ys)))"
        using less.prems(1,3) by (auto simp: inp intro: inj_on_subset)
      show "merkle_root H (pair_up H xs) = merkle_root H (pair_up H ys)"
        using False less.prems(1,4) by (simp add: merkle_root_step)
    qed (use False less.prems(1) assms(1) in \<open>auto simp: pair_up_inputs\<close>)
    moreover have "inj_on H (set (pair_inputs xs) \<union> set (pair_inputs ys))"
      using less.prems(1,3) by (auto simp: inp intro: inj_on_subset)
    ultimately have "pair_inputs xs = pair_inputs ys"
      by (simp add: pair_up_inputs map_inj_on_eq)
    with less.prems(1,2) show ?thesis by (rule pair_inputs_inj)
  qed
qed

text \<open>Levels of different lengths may share a root: an odd last element counts twice.\<close>

lemma merkle_root_duplicate: "merkle_root H [a, b, c] = merkle_root H [a, b, c, c]"
  by (simp add: merkle_root_step)

section \<open>Trees built level by level\<close>

text \<open>
  What a tree builder promises: a level is hashed pairwise, and levels are built until one node is
  left. Its root hash is then the pairwise hash of the leaves.
\<close>

locale hash_levels =
  fixes H :: "string \<Rightarrow> string"
    and hash_of :: "'n \<Rightarrow> string"
    and level :: "'n list \<Rightarrow> 'n list"
    and levels :: "'n list \<Rightarrow> 'n option"
  assumes level_hashes: "map hash_of (level ns) = pair_up H (map hash_of ns)"
    and levels_step: "1 < length ns \<Longrightarrow> levels ns = levels (level ns)"
    and levels_Nil: "levels [] = None"
    and levels_single: "levels [n] = Some n"
begin

lemma length_level: "length (level ns) = (length ns + 1) div 2"
  using arg_cong [OF level_hashes [of ns], of length] by simp

lemma levels_root: "(case levels ns of Some n \<Rightarrow> hash_of n | None \<Rightarrow> []) = merkle_root H (map hash_of ns)"
proof (induction "length ns" arbitrary: ns rule: less_induct)
  case less
  show ?case
  proof (cases "length ns > 1")
    case True
    then show ?thesis
      using less [of "level ns"]
      by (simp add: levels_step [OF True] length_level level_hashes merkle_root_step [of "map hash_of ns"])
  next
    case False
    then show ?thesis by (cases ns) (auto simp: levels_Nil levels_single)
  qed
qed

lemma levels_None: "levels ns = None \<longleftrightarrow> ns = []"
proof (induction "length ns" arbitrary: ns rule: less_induct)
  case less
  show ?case
  proof (cases "length ns > 1")
    case True
    then have "length (level ns) < length ns" "level ns \<noteq> []" using length_level [of ns] by auto
    with less True show ?thesis by (auto simp: levels_step [OF True])
  next
    case False
    then show ?thesis by (cases ns) (auto simp: levels_Nil levels_single)
  qed
qed

end

end
