(* ===== verification/State_Sync.thy ===== *)
theory State_Sync
  imports Merkle Floats Bytes "HOL-Library.Char_ord" "HOL-Library.Product_Lexorder"
    "HOL-Library.Multiset"
begin

text \<open>
  Cross-region state synchronisation, \<^verbatim>\<open>kernel/federation/state_sync.py\<close>: vector clocks, the state
  Merkle tree, and the synchroniser with its conflict resolution. \<open>Hx\<close> is SHA3-256 over text and
  \<open>Hb\<close> over bytes, both as hex text. The iteration order of a Python set is unspecified; only lookups
  of the clocks built from one matter. Callbacks only observe and are not modelled. The binary
  encoding of clocks, decisions and batches is not modelled here.
\<close>

section \<open>Vector clocks\<close>

type_synonym vclock = "(string, int) dict"

definition clock_at :: "vclock \<Rightarrow> string \<Rightarrow> int" where
  "clock_at c n = (case dget c n of Some k \<Rightarrow> k | None \<Rightarrow> 0)"

definition vc_increment :: "string \<Rightarrow> vclock \<Rightarrow> vclock" where
  "vc_increment n c = dset n (clock_at c n + 1) c"

definition all_nodes :: "vclock \<Rightarrow> vclock \<Rightarrow> string list" where
  "all_nodes a b = remdups (dkeys a @ dkeys b)"

definition vc_merge :: "vclock \<Rightarrow> vclock \<Rightarrow> vclock" where
  "vc_merge a b = map (\<lambda>n. (n, max (clock_at a n) (clock_at b n))) (all_nodes a b)"

definition happens_before :: "vclock \<Rightarrow> vclock \<Rightarrow> bool" where
  "happens_before a b =
     (if a = [] then b \<noteq> []
      else list_all (\<lambda>n. clock_at a n \<le> clock_at b n) (all_nodes a b) \<and>
           list_ex (\<lambda>n. clock_at a n < clock_at b n) (all_nodes a b))"

definition concurrent_with :: "vclock \<Rightarrow> vclock \<Rightarrow> bool" where
  "concurrent_with a b \<longleftrightarrow> \<not> happens_before a b \<and> \<not> happens_before b a"

text \<open>Clocks made by incrementing and merging hold positive counts only.\<close>

definition vc_ok :: "vclock \<Rightarrow> bool" where
  "vc_ok c \<longleftrightarrow> dict_ok c \<and> list_all (\<lambda>(n, k). 0 < k) c"

lemma clock_at_absent [simp]: "dget c n = None \<Longrightarrow> clock_at c n = 0"
  by (simp add: clock_at_def)

lemma clock_at_pos: "vc_ok c \<Longrightarrow> 0 \<le> clock_at c n \<and> (0 < clock_at c n \<longleftrightarrow> dget c n \<noteq> None)"
  by (auto simp: vc_ok_def clock_at_def list_all_iff dest!: dget_SomeD split: option.splits)

lemma set_all_nodes [simp]: "set (all_nodes a b) = {n. dget a n \<noteq> None \<or> dget b n \<noteq> None}"
  by (auto simp: all_nodes_def simp del: set_dkeys) (simp_all)

lemma happens_before_iff:
  assumes "vc_ok a" "vc_ok b"
  shows "happens_before a b \<longleftrightarrow> (\<forall>n. clock_at a n \<le> clock_at b n) \<and> (\<exists>n. clock_at a n < clock_at b n)"
proof (cases "a = []")
  case True
  have "b \<noteq> [] \<longleftrightarrow> (\<exists>n. dget b n \<noteq> None)" by (cases b) (auto simp: dget_Cons)
  then show ?thesis
    using True assms(2) clock_at_pos [of b] by (simp add: happens_before_def)
next
  case False
  have "dget a n = None \<and> dget b n = None \<Longrightarrow> clock_at a n = clock_at b n" for n by simp
  then show ?thesis
    using False by (fastforce simp: happens_before_def list_all_iff list_ex_iff)
qed

lemma dget_map_pairs: "dget (map (\<lambda>n. (n, f n)) ns) k = (if k \<in> set ns then Some (f k) else None)"
  by (induction ns) (auto simp: dget_Cons)

lemma clock_at_merge:
  assumes "vc_ok a" "vc_ok b"
  shows "clock_at (vc_merge a b) n = max (clock_at a n) (clock_at b n)"
  by (auto simp: vc_merge_def clock_at_def [of "map _ _"] dget_map_pairs simp del: not_None_eq)

lemma clock_at_increment: "clock_at (vc_increment n c) m = (if m = n then clock_at c n + 1 else clock_at c m)"
  by (simp add: vc_increment_def clock_at_def)

lemma vc_ok_increment: "vc_ok c \<Longrightarrow> vc_ok (vc_increment n c)"
proof -
  assume ok: "vc_ok c"
  have "0 < k" if "dget (vc_increment n c) m = Some k" for m k
    using that ok clock_at_pos [of c n] by (auto simp: vc_increment_def vc_ok_def list_all_iff dest!: dget_SomeD split: if_splits)
  with ok show ?thesis by (auto simp: vc_ok_def vc_increment_def list_all_iff dget_in_set [symmetric])
qed

lemma vc_ok_merge: "vc_ok a \<Longrightarrow> vc_ok b \<Longrightarrow> vc_ok (vc_merge a b)"
  using clock_at_pos [of a] clock_at_pos [of b]
  by (auto simp: vc_ok_def vc_merge_def list_all_iff dict_ok_def comp_def all_nodes_def less_max_iff_disj)

text \<open>
  What the synchroniser relies on: an order of causality, a tick that moves on, and a join that is
  the least upper bound.
\<close>

locale causal_clock =
  fixes valid :: "'c \<Rightarrow> bool"
    and before :: "'c \<Rightarrow> 'c \<Rightarrow> bool"
    and tick :: "string \<Rightarrow> 'c \<Rightarrow> 'c"
    and join :: "'c \<Rightarrow> 'c \<Rightarrow> 'c"
    and count :: "'c \<Rightarrow> string \<Rightarrow> int"
  assumes before_count: "valid a \<Longrightarrow> valid b \<Longrightarrow>
        before a b \<longleftrightarrow> (\<forall>n. count a n \<le> count b n) \<and> (\<exists>n. count a n < count b n)"
    and count_tick: "count (tick n a) m = (if m = n then count a n + 1 else count a m)"
    and count_join: "valid a \<Longrightarrow> valid b \<Longrightarrow> count (join a b) n = max (count a n) (count b n)"
    and valid_tick: "valid a \<Longrightarrow> valid (tick n a)"
    and valid_join: "valid a \<Longrightarrow> valid b \<Longrightarrow> valid (join a b)"
begin

lemma irrefl: "valid a \<Longrightarrow> \<not> before a a"
  by (simp add: before_count)

lemma trans: "valid a \<Longrightarrow> valid b \<Longrightarrow> valid c \<Longrightarrow> before a b \<Longrightarrow> before b c \<Longrightarrow> before a c"
  by (simp add: before_count) (meson order_le_less_trans order_trans)

lemma tick_after_join:
  "valid a \<Longrightarrow> valid b \<Longrightarrow> before a (tick n (join a b)) \<and> before b (tick n (join a b))"
  by (simp add: before_count count_tick count_join valid_tick valid_join) (auto simp: max_def intro: exI [of _ n])

lemma join_least:
  "valid a \<Longrightarrow> valid b \<Longrightarrow> valid c \<Longrightarrow> (\<And>n. count a n \<le> count c n) \<Longrightarrow> (\<And>n. count b n \<le> count c n) \<Longrightarrow>
   (\<forall>n. count (join a b) n \<le> count c n)"
  by (simp add: count_join)

end

interpretation vector_clock: causal_clock vc_ok happens_before vc_increment vc_merge clock_at
  by unfold_locales
     (simp_all add: happens_before_iff clock_at_increment clock_at_merge vc_ok_increment vc_ok_merge)

section \<open>Decisions and the state tree\<close>

record decision =
  sd_decision_id :: string
  sd_region :: string
  sd_timestamp :: pyfloat
  sd_vector_clock :: vclock
  sd_decision_hash :: string
  sd_payload :: bytes
  sd_signature :: string

datatype merkle_node = MLeaf string string | MInner string merkle_node merkle_node

fun node_hash :: "merkle_node \<Rightarrow> string" where
  "node_hash (MLeaf h did) = h"
| "node_hash (MInner h l r) = h"

record state_merkle_tree =
  mt_leaves :: "(string, string) dict"
  mt_root :: "merkle_node option"
  mt_dirty :: bool

definition tree_init :: state_merkle_tree where
  "tree_init = \<lparr>mt_leaves = [], mt_root = None, mt_dirty = True\<rparr>"

definition add_decision :: "string \<Rightarrow> string \<Rightarrow> state_merkle_tree \<Rightarrow> state_merkle_tree" where
  "add_decision did h t = t\<lparr>mt_leaves := dset did h (mt_leaves t), mt_dirty := True\<rparr>"

definition remove_decision :: "string \<Rightarrow> state_merkle_tree \<Rightarrow> state_merkle_tree" where
  "remove_decision did t =
     (if dget (mt_leaves t) did \<noteq> None
      then t\<lparr>mt_leaves := ddel did (mt_leaves t), mt_dirty := True\<rparr> else t)"

fun next_level :: "(string \<Rightarrow> string) \<Rightarrow> merkle_node list \<Rightarrow> merkle_node list" where
  "next_level Hx [] = []"
| "next_level Hx [l] = [MInner (Hx (node_hash l @ node_hash l)) l l]"
| "next_level Hx (l # r # ns) = MInner (Hx (node_hash l @ node_hash r)) l r # next_level Hx ns"

lemma length_next_level [simp]: "length (next_level Hx ns) = (length ns + 1) div 2"
  by (induction ns rule: next_level.induct) auto

function build_levels :: "(string \<Rightarrow> string) \<Rightarrow> merkle_node list \<Rightarrow> merkle_node option" where
  "build_levels Hx ns =
     (if length ns > 1 then build_levels Hx (next_level Hx ns)
      else case ns of [] \<Rightarrow> None | n # _ \<Rightarrow> Some n)"
  by pat_completeness auto
termination
  by (relation "measure (\<lambda>(Hx, ns). length ns)") auto

declare build_levels.simps [simp del]

definition build_tree :: "(string \<Rightarrow> string) \<Rightarrow> (string, string) dict \<Rightarrow> merkle_node option" where
  "build_tree Hx leaves =
     (if leaves = [] then None else build_levels Hx (map (\<lambda>(did, h). MLeaf h did) (sort leaves)))"

definition root_hash :: "(string \<Rightarrow> string) \<Rightarrow> state_merkle_tree \<Rightarrow> string \<times> state_merkle_tree" where
  "root_hash Hx t =
     (let t1 = (if mt_dirty t then t\<lparr>mt_root := build_tree Hx (mt_leaves t), mt_dirty := False\<rparr> else t)
      in ((case mt_root t1 of Some n \<Rightarrow> node_hash n | None \<Rightarrow> []), t1))"

text \<open>\<open>get_proof\<close> builds the tree and answers no siblings.\<close>

definition get_proof ::
  "(string \<Rightarrow> string) \<Rightarrow> string \<Rightarrow> state_merkle_tree \<Rightarrow> (string \<times> bool) list \<times> state_merkle_tree" where
  "get_proof Hx did t = ([], snd (root_hash Hx t))"

definition proof_hash :: "(string \<Rightarrow> string) \<Rightarrow> string \<Rightarrow> (string \<times> bool) list \<Rightarrow> string" where
  "proof_hash Hx h path =
     fold (\<lambda>(sib, is_right) cur. Hx (if is_right then cur @ sib else sib @ cur)) path h"

definition verify_proof ::
  "(string \<Rightarrow> string) \<Rightarrow> string \<Rightarrow> string \<Rightarrow> (string \<times> bool) list \<Rightarrow> state_merkle_tree \<Rightarrow> bool \<times> state_merkle_tree" where
  "verify_proof Hx did h path t =
     (let (root, t1) = root_hash Hx t in (proof_hash Hx h path = root, t1))"

section \<open>The synchroniser\<close>

datatype sync_status = PENDING | IN_PROGRESS | COMPLETED | FAILED | CONFLICT

datatype conflict_resolution = LAST_WRITER_WINS | VECTOR_CLOCK | MANUAL

record sync_batch =
  sb_batch_id :: string
  sb_source_region :: string
  sb_target_region :: string
  sb_decisions :: "decision list"
  sb_merkle_root :: string
  sb_created_at :: pyfloat
  sb_status :: sync_status

record synchronizer =
  sy_local_region :: string
  sy_node_id :: string
  sy_strategy :: conflict_resolution
  sy_decisions :: "(string, decision) dict"
  sy_tree :: state_merkle_tree
  sy_clock :: vclock
  sy_pending :: "(string, sync_batch) dict"
  sy_received :: "(string, sync_batch) dict"
  sy_conflicts :: "(decision \<times> decision) list"

definition sync_init :: "string \<Rightarrow> string \<Rightarrow> conflict_resolution \<Rightarrow> synchronizer" where
  "sync_init region node strategy =
     \<lparr>sy_local_region = region, sy_node_id = node, sy_strategy = strategy, sy_decisions = [],
      sy_tree = tree_init, sy_clock = [], sy_pending = [], sy_received = [], sy_conflicts = []\<rparr>"

text \<open>Storing a decision: the dictionary and the tree together.\<close>

definition store_decision :: "string \<Rightarrow> decision \<Rightarrow> synchronizer \<Rightarrow> synchronizer" where
  "store_decision did d s =
     s\<lparr>sy_decisions := dset did d (sy_decisions s), sy_tree := add_decision did (sd_decision_hash d) (sy_tree s)\<rparr>"

definition add_local_decision ::
  "(bytes \<Rightarrow> string) \<Rightarrow> pyfloat \<Rightarrow> string \<Rightarrow> bytes \<Rightarrow> string \<Rightarrow> synchronizer \<Rightarrow> decision \<times> synchronizer" where
  "add_local_decision Hb now did payload signature s =
     (let vc = vc_increment (sy_node_id s) (sy_clock s);
          d = \<lparr>sd_decision_id = did, sd_region = sy_local_region s, sd_timestamp = now,
               sd_vector_clock = vc, sd_decision_hash = Hb payload, sd_payload = payload,
               sd_signature = signature\<rparr>
      in (d, store_decision did d (s\<lparr>sy_clock := vc\<rparr>)))"

definition create_sync_batch ::
  "(string \<Rightarrow> string) \<Rightarrow> pyfloat \<Rightarrow> string \<Rightarrow> string \<Rightarrow> string list option \<Rightarrow> synchronizer \<Rightarrow> sync_batch \<times> synchronizer" where
  "create_sync_batch Hx now batch_id target ids s =
     (let ds = (case ids of
                  None \<Rightarrow> dvalues (sy_decisions s)
                | Some l \<Rightarrow> List.map_filter (dget (sy_decisions s)) l);
          (root, tree) = root_hash Hx (sy_tree s);
          b = \<lparr>sb_batch_id = batch_id, sb_source_region = sy_local_region s, sb_target_region = target,
               sb_decisions = ds, sb_merkle_root = root, sb_created_at = now, sb_status = PENDING\<rparr>
      in (b, s\<lparr>sy_tree := tree, sy_pending := dset batch_id b (sy_pending s)\<rparr>))"

definition resolve_conflict_lww :: "decision \<Rightarrow> decision \<Rightarrow> synchronizer \<Rightarrow> bool \<times> synchronizer" where
  "resolve_conflict_lww loc rem s =
     (if fl_lt (sd_timestamp loc) (sd_timestamp rem)
      then (True, store_decision (sd_decision_id loc) rem s) else (False, s))"

definition resolve_conflict :: "decision \<Rightarrow> decision \<Rightarrow> synchronizer \<Rightarrow> bool \<times> synchronizer" where
  "resolve_conflict loc rem s =
     (let s1 = s\<lparr>sy_conflicts := sy_conflicts s @ [(loc, rem)]\<rparr>
      in case sy_strategy s1 of
           LAST_WRITER_WINS \<Rightarrow>
             (let remote_wins =
                (if fl_eq (sd_timestamp rem) (sd_timestamp loc) then sd_region rem > sd_region loc
                 else fl_lt (sd_timestamp loc) (sd_timestamp rem))
              in if remote_wins then (True, store_decision (sd_decision_id loc) rem s1) else (False, s1))
         | VECTOR_CLOCK \<Rightarrow> resolve_conflict_lww loc rem s1
         | MANUAL \<Rightarrow> (False, s1))"

definition apply_remote_decision :: "decision \<Rightarrow> synchronizer \<Rightarrow> bool \<times> synchronizer" where
  "apply_remote_decision rem s =
     (let did = sd_decision_id rem;
          accept = (\<lambda>s. (store_decision did rem s)\<lparr>sy_clock := vc_merge (sy_clock s) (sd_vector_clock rem)\<rparr>)
      in case dget (sy_decisions s) did of
           None \<Rightarrow> (True, accept s)
         | Some loc \<Rightarrow>
             if sd_decision_hash loc = sd_decision_hash rem then (True, s)
             else if happens_before (sd_vector_clock rem) (sd_vector_clock loc) then (False, s)
             else if happens_before (sd_vector_clock loc) (sd_vector_clock rem) then (True, accept s)
             else resolve_conflict loc rem s)"

fun apply_all :: "decision list \<Rightarrow> synchronizer \<Rightarrow> decision list \<times> synchronizer" where
  "apply_all [] s = ([], s)"
| "apply_all (d # ds) s =
     (let (ok, s1) = apply_remote_decision d s;
          (applied, s2) = apply_all ds s1
      in ((if ok then d # applied else applied), s2))"

definition receive_sync_batch :: "sync_batch \<Rightarrow> synchronizer \<Rightarrow> decision list \<times> synchronizer" where
  "receive_sync_batch b s =
     (let (applied, s1) = apply_all (sb_decisions b) s
      in (applied, s1\<lparr>sy_received := dset (sb_batch_id b) (b\<lparr>sb_status := COMPLETED\<rparr>) (sy_received s1)\<rparr>))"

text \<open>\<open>get_missing_decisions\<close> compares the roots and answers no ids either way.\<close>

definition get_missing_decisions ::
  "(string \<Rightarrow> string) \<Rightarrow> string \<Rightarrow> synchronizer \<Rightarrow> string list \<times> synchronizer" where
  "get_missing_decisions Hx remote_root s =
     (let (root, t) = root_hash Hx (sy_tree s) in ((if root = remote_root then [] else []), s\<lparr>sy_tree := t\<rparr>))"

record sync_report =
  sr_decision_count :: nat
  sr_merkle_root :: string
  sr_pending :: nat
  sr_received :: nat
  sr_conflicts :: nat
  sr_clock :: vclock

definition get_sync_status :: "(string \<Rightarrow> string) \<Rightarrow> synchronizer \<Rightarrow> sync_report \<times> synchronizer" where
  "get_sync_status Hx s =
     (let (root, t) = root_hash Hx (sy_tree s)
      in (\<lparr>sr_decision_count = length (sy_decisions s), sr_merkle_root = root,
           sr_pending = length (sy_pending s), sr_received = length (sy_received s),
           sr_conflicts = length (sy_conflicts s), sr_clock = sy_clock s\<rparr>, s\<lparr>sy_tree := t\<rparr>))"

section \<open>The tree and the dictionary agree\<close>

definition tree_ok :: "(string \<Rightarrow> string) \<Rightarrow> state_merkle_tree \<Rightarrow> bool" where
  "tree_ok Hx t \<longleftrightarrow> dict_ok (mt_leaves t) \<and> (\<not> mt_dirty t \<longrightarrow> mt_root t = build_tree Hx (mt_leaves t))"

definition sync_ok :: "(string \<Rightarrow> string) \<Rightarrow> synchronizer \<Rightarrow> bool" where
  "sync_ok Hx s \<longleftrightarrow>
     dict_ok (sy_decisions s) \<and> tree_ok Hx (sy_tree s) \<and>
     (\<forall>i. dget (mt_leaves (sy_tree s)) i = map_option sd_decision_hash (dget (sy_decisions s) i)) \<and>
     (\<forall>i d. dget (sy_decisions s) i = Some d \<longrightarrow> sd_decision_id d = i)"

lemma tree_ok_add [simp]: "tree_ok Hx t \<Longrightarrow> tree_ok Hx (add_decision i h t)"
  by (simp add: tree_ok_def add_decision_def)

lemma tree_ok_root [simp]: "tree_ok Hx t \<Longrightarrow> tree_ok Hx (snd (root_hash Hx t))"
  by (simp add: tree_ok_def root_hash_def Let_def)

lemma root_hash_leaves [simp]: "mt_leaves (snd (root_hash Hx t)) = mt_leaves t"
  by (simp add: root_hash_def Let_def)

lemma root_hash_value:
  "tree_ok Hx t \<Longrightarrow> fst (root_hash Hx t) = (case build_tree Hx (mt_leaves t) of Some n \<Rightarrow> node_hash n | None \<Rightarrow> [])"
  by (auto simp: tree_ok_def root_hash_def Let_def)

lemma sync_ok_store: "sync_ok Hx s \<Longrightarrow> sd_decision_id d = i \<Longrightarrow> sync_ok Hx (store_decision i d s)"
  by (auto simp: sync_ok_def store_decision_def) (simp_all add: add_decision_def)

lemma sync_ok_fields [simp]:
  "sync_ok Hx (s\<lparr>sy_clock := c\<rparr>) = sync_ok Hx s"
  "sync_ok Hx (s\<lparr>sy_conflicts := cs\<rparr>) = sync_ok Hx s"
  "sync_ok Hx (s\<lparr>sy_received := r\<rparr>) = sync_ok Hx s"
  "sync_ok Hx (s\<lparr>sy_pending := r\<rparr>) = sync_ok Hx s"
  by (simp_all add: sync_ok_def)

lemma sync_ok_tree: "sync_ok Hx s \<Longrightarrow> sync_ok Hx (s\<lparr>sy_tree := snd (root_hash Hx (sy_tree s))\<rparr>)"
  by (simp add: sync_ok_def)

lemma apply_remote_ok:
  assumes ok: "sync_ok Hx s"
  shows "sync_ok Hx (snd (apply_remote_decision d s))"
proof (cases "dget (sy_decisions s) (sd_decision_id d)")
  case None
  then show ?thesis using ok by (simp add: apply_remote_decision_def sync_ok_store)
next
  case (Some loc)
  then have loc_id: "sd_decision_id loc = sd_decision_id d" using ok by (auto simp: sync_ok_def)
  have "sync_ok Hx (snd (resolve_conflict loc d s))"
    using ok loc_id
    by (cases "sy_strategy s") (auto simp: resolve_conflict_def resolve_conflict_lww_def Let_def sync_ok_store)
  then show ?thesis using ok Some by (auto simp: apply_remote_decision_def Let_def sync_ok_store)
qed

lemma apply_all_fold: "snd (apply_all ds s) = fold (\<lambda>d s. snd (apply_remote_decision d s)) ds s"
  by (induction ds arbitrary: s) (simp_all add: Let_def case_prod_unfold)

lemma apply_all_ok: "sync_ok Hx s \<Longrightarrow> sync_ok Hx (snd (apply_all ds s))"
  unfolding apply_all_fold by (induction ds arbitrary: s) (simp_all add: apply_remote_ok)

lemma receive_batch_state:
  "snd (receive_sync_batch b s) =
     (let s1 = snd (apply_all (sb_decisions b) s)
      in s1\<lparr>sy_received := dset (sb_batch_id b) (b\<lparr>sb_status := COMPLETED\<rparr>) (sy_received s1)\<rparr>)"
  by (simp add: receive_sync_batch_def Let_def split: prod.splits)

datatype sync_op =
    AddLocal pyfloat string bytes string
  | CreateBatch pyfloat string string "string list option"
  | ReceiveBatch sync_batch
  | GetMissing string | GetStatus

fun sync_step :: "(string \<Rightarrow> string) \<Rightarrow> (bytes \<Rightarrow> string) \<Rightarrow> sync_op \<Rightarrow> synchronizer \<Rightarrow> synchronizer" where
  "sync_step Hx Hb (AddLocal now i p sg) s = snd (add_local_decision Hb now i p sg s)"
| "sync_step Hx Hb (CreateBatch now b t ids) s = snd (create_sync_batch Hx now b t ids s)"
| "sync_step Hx Hb (ReceiveBatch b) s = snd (receive_sync_batch b s)"
| "sync_step Hx Hb (GetMissing r) s = snd (get_missing_decisions Hx r s)"
| "sync_step Hx Hb GetStatus s = snd (get_sync_status Hx s)"

interpretation sync: machine "sync_step Hx Hb" "sync_ok Hx"
  for Hx Hb
proof (unfold_locales, goal_cases)
  case (1 s x)
  then show ?case
    using sync_ok_tree [OF 1]
    by (cases x)
       (simp_all add: add_local_decision_def create_sync_batch_def get_missing_decisions_def get_sync_status_def
         Let_def sync_ok_store receive_batch_state apply_all_ok case_prod_unfold)
qed

lemma sync_init_ok [simp]: "sync_ok Hx (sync_init r n st)"
  by (simp add: sync_ok_def tree_ok_def sync_init_def tree_init_def)

section \<open>Convergence\<close>

text \<open>
  The order last-writer-wins decides by: the timestamp, then the region. Decisions are consistent
  when no timestamp is NaN, different decisions on one id differ in hash and in that order's key,
  and a causally later decision has a later timestamp.
\<close>

definition newer :: "decision \<Rightarrow> decision \<Rightarrow> bool" where
  "newer d e \<longleftrightarrow> fl_lt (sd_timestamp d) (sd_timestamp e) \<or>
     (fl_eq (sd_timestamp d) (sd_timestamp e) \<and> sd_region d < sd_region e)"

definition consistent :: "decision set \<Rightarrow> bool" where
  "consistent D \<longleftrightarrow>
     (\<forall>d \<in> D. sd_timestamp d \<noteq> NaN) \<and>
     (\<forall>d \<in> D. \<forall>e \<in> D. sd_decision_id d = sd_decision_id e \<longrightarrow> d \<noteq> e \<longrightarrow>
        sd_decision_hash d \<noteq> sd_decision_hash e \<and>
        (sd_timestamp d \<noteq> sd_timestamp e \<or> sd_region d \<noteq> sd_region e) \<and>
        (happens_before (sd_vector_clock d) (sd_vector_clock e) \<longrightarrow>
           fl_lt (sd_timestamp d) (sd_timestamp e)))"

lemma newer_asym: "newer d e \<Longrightarrow> \<not> newer e d"
  by (auto simp: newer_def fl_eq_iff dest: fl_lt_asym)

lemma newer_trans: "newer d e \<Longrightarrow> newer e f \<Longrightarrow> newer d f"
  by (auto simp: newer_def fl_eq_iff dest: fl_lt_trans)

lemma newer_total:
  "sd_timestamp d \<noteq> NaN \<Longrightarrow> sd_timestamp e \<noteq> NaN \<Longrightarrow>
   sd_timestamp d \<noteq> sd_timestamp e \<or> sd_region d \<noteq> sd_region e \<Longrightarrow> newer d e \<or> newer e d"
  using fl_lt_linear [of "sd_timestamp d" "sd_timestamp e"] by (auto simp: newer_def fl_eq_iff)

lemma resolve_lww:
  assumes "sy_strategy s = LAST_WRITER_WINS"
  shows "sy_decisions (snd (resolve_conflict l r s)) =
    (if newer l r then dset (sd_decision_id l) r (sy_decisions s) else sy_decisions s)"
  using assms by (auto simp: resolve_conflict_def newer_def store_decision_def Let_def fl_eq_iff)

lemma apply_remote_newest:
  assumes "sy_strategy s = LAST_WRITER_WINS" "consistent D" "l \<in> D" "r \<in> D" "l \<noteq> r"
    and "sd_decision_id l = sd_decision_id r" "dget (sy_decisions s) (sd_decision_id r) = Some l"
  shows "sy_decisions (snd (apply_remote_decision r s)) =
    (if newer l r then dset (sd_decision_id r) r (sy_decisions s) else sy_decisions s)"
proof -
  have hash: "sd_decision_hash l \<noteq> sd_decision_hash r"
    and rl: "happens_before (sd_vector_clock r) (sd_vector_clock l) \<Longrightarrow> newer r l"
    and lr: "happens_before (sd_vector_clock l) (sd_vector_clock r) \<Longrightarrow> newer l r"
    using assms(2-6) unfolding consistent_def newer_def by (metis, metis, metis)
  show ?thesis
    using assms(1,6,7) hash rl lr newer_asym [of r l]
    by (auto simp: apply_remote_decision_def Let_def resolve_lww) (auto simp: store_decision_def)
qed

lemma strategy_apply [simp]: "sy_strategy (snd (apply_remote_decision d s)) = sy_strategy s"
  by (auto simp: apply_remote_decision_def resolve_conflict_def resolve_conflict_lww_def store_decision_def Let_def
      split: option.splits conflict_resolution.splits)

definition holds_newest :: "decision set \<Rightarrow> synchronizer \<Rightarrow> bool" where
  "holds_newest D s \<longleftrightarrow>
     (\<forall>i m. dget (sy_decisions s) i = Some m \<longrightarrow> m \<in> D \<and> sd_decision_id m = i) \<and>
     (\<forall>d \<in> D. \<exists>m. dget (sy_decisions s) (sd_decision_id d) = Some m \<and> (d = m \<or> newer d m))"

lemma holds_newestD:
  assumes "holds_newest D s"
  shows "dget (sy_decisions s) i = Some m \<Longrightarrow> m \<in> D \<and> sd_decision_id m = i"
    and "d \<in> D \<Longrightarrow> \<exists>m. dget (sy_decisions s) (sd_decision_id d) = Some m \<and> (d = m \<or> newer d m)"
  using assms by (auto simp: holds_newest_def)

lemma holds_newest_received [simp]: "holds_newest D (s\<lparr>sy_received := r\<rparr>) = holds_newest D s"
  by (simp add: holds_newest_def)

text \<open>One more decision keeps the newest of each id.\<close>

lemma apply_remote_holds:
  assumes st: "sy_strategy s = LAST_WRITER_WINS" and con: "consistent (insert r D)" and h: "holds_newest D s"
  shows "holds_newest (insert r D) (snd (apply_remote_decision r s))"
proof (cases "dget (sy_decisions s) (sd_decision_id r)")
  case None
  then have upd: "sy_decisions (snd (apply_remote_decision r s)) = dset (sd_decision_id r) r (sy_decisions s)"
    by (simp add: apply_remote_decision_def store_decision_def Let_def)
  have "sd_decision_id d \<noteq> sd_decision_id r" if "d \<in> D" for d
    using holds_newestD(2) [OF h that] None by auto
  then show ?thesis using h by (auto simp: holds_newest_def upd)
next
  case (Some l)
  then have l: "l \<in> D" "sd_decision_id l = sd_decision_id r" using holds_newestD(1) [OF h Some] by auto
  show ?thesis
  proof (cases "l = r")
    case True
    then have "sy_decisions (snd (apply_remote_decision r s)) = sy_decisions s"
      using Some by (simp add: apply_remote_decision_def Let_def)
    then show ?thesis using h True l(1) by (simp add: insert_absorb holds_newest_def)
  next
    case False
    then have upd: "sy_decisions (snd (apply_remote_decision r s)) =
        (if newer l r then dset (sd_decision_id r) r (sy_decisions s) else sy_decisions s)"
      using apply_remote_newest [OF st con] l Some by simp
    have tot: "newer l r \<or> newer r l"
      using con l False by (intro newer_total) (auto simp: consistent_def)
    have old: "d = l \<or> newer d l" if "d \<in> D" "sd_decision_id d = sd_decision_id r" for d
      using holds_newestD(2) [OF h that(1)] that(2) Some by auto
    have "\<exists>m. dget (sy_decisions (snd (apply_remote_decision r s))) (sd_decision_id d) = Some m \<and> (d = m \<or> newer d m)"
      if d: "d \<in> insert r D" for d
    proof (cases "sd_decision_id d = sd_decision_id r")
      case True
      then show ?thesis
        using d old [of d] tot upd Some newer_trans [of d l r] by (cases "newer l r") auto
    next
      case False
      then show ?thesis using d upd holds_newestD(2) [OF h, of d] by auto
    qed
    then show ?thesis
      using holds_newestD(1) [OF h] unfolding holds_newest_def by (auto simp: upd split: if_splits)
  qed
qed

lemma apply_all_holds:
  "sy_strategy s = LAST_WRITER_WINS \<Longrightarrow> consistent (D \<union> set ds) \<Longrightarrow> holds_newest D s \<Longrightarrow>
   holds_newest (D \<union> set ds) (snd (apply_all ds s))"
proof (induction ds arbitrary: D s)
  case (Cons d ds)
  have "consistent (insert d D)" using Cons.prems(2) by (auto simp: consistent_def)
  with Cons.prems have "holds_newest (insert d D) (snd (apply_remote_decision d s))"
    by (simp add: apply_remote_holds)
  then have "holds_newest (insert d D \<union> set ds) (snd (apply_all ds (snd (apply_remote_decision d s))))"
    using Cons.prems by (intro Cons.IH) simp_all
  then show ?case unfolding apply_all_fold by simp
qed simp

lemma apply_all_strategy: "sy_strategy (snd (apply_all ds s)) = sy_strategy s"
  unfolding apply_all_fold by (induction ds arbitrary: s) simp_all

lemma receive_all_holds:
  "sy_strategy s = LAST_WRITER_WINS \<Longrightarrow> consistent (D \<union> (\<Union>b \<in> set bs. set (sb_decisions b))) \<Longrightarrow>
   holds_newest D s \<Longrightarrow>
   holds_newest (D \<union> (\<Union>b \<in> set bs. set (sb_decisions b))) (fold (\<lambda>b s. snd (receive_sync_batch b s)) bs s)"
proof (induction bs arbitrary: D s)
  case (Cons b bs)
  let ?s = "snd (receive_sync_batch b s)"
  have "consistent (D \<union> set (sb_decisions b))" using Cons.prems(2) by (auto simp: consistent_def)
  from apply_all_holds [OF Cons.prems(1) this Cons.prems(3)]
  have "holds_newest (D \<union> set (sb_decisions b)) ?s"
    by (simp add: receive_batch_state Let_def)
  moreover have "sy_strategy ?s = LAST_WRITER_WINS"
    using Cons.prems by (simp add: receive_batch_state Let_def apply_all_strategy)
  ultimately show ?case
    using Cons.IH [of ?s "D \<union> set (sb_decisions b)"] Cons.prems(2) by (simp add: Un_assoc)
qed simp

lemma newest_le:
  assumes "holds_newest D s" "holds_newest D s'" "dget (sy_decisions s) i = Some m"
  shows "dget (sy_decisions s') i = Some m"
proof -
  have m: "m \<in> D" "sd_decision_id m = i" using holds_newestD(1) [OF assms(1,3)] by auto
  then obtain m' where m': "dget (sy_decisions s') i = Some m'" "m = m' \<or> newer m m'"
    using holds_newestD(2) [OF assms(2), of m] by auto
  then have "m' \<in> D" "sd_decision_id m' = i" using holds_newestD(1) [OF assms(2)] by auto
  then have "m' = m \<or> newer m' m" using holds_newestD(2) [OF assms(1), of m'] assms(3) by auto
  with m' show ?thesis using newer_asym by auto
qed

lemma newest_unique:
  assumes "holds_newest D s" "holds_newest D s'"
  shows "dget (sy_decisions s) i = dget (sy_decisions s') i"
  using newest_le [OF assms, of i] newest_le [OF assms(2,1), of i]
  by (cases "dget (sy_decisions s) i"; cases "dget (sy_decisions s') i") auto

text \<open>The root depends only on what is looked up in the leaves.\<close>

lemma build_tree_cong:
  assumes "dict_ok l" "dict_ok l'" "\<And>i. dget l i = dget l' i"
  shows "build_tree Hx l = build_tree Hx l'"
proof -
  have "set l = set l'" using assms by (auto simp: dget_in_set [symmetric])
  moreover have "distinct l" "distinct l'" using assms(1,2) by (auto simp: dict_ok_def distinct_map)
  ultimately have "mset l = mset l'" by (simp add: set_eq_iff_mset_eq_distinct)
  then have "sort l = sort l'" by (metis mset_sort properties_for_sort sorted_sort)
  moreover have "l = [] \<longleftrightarrow> l' = []" using \<open>set l = set l'\<close> by auto
  ultimately show ?thesis by (simp add: build_tree_def)
qed

lemma node_hash_next_level: "map node_hash (next_level Hx ns) = pair_up Hx (map node_hash ns)"
  by (induction Hx ns rule: next_level.induct) auto

lemma build_levels_small [simp]: "build_levels Hx [] = None" "build_levels Hx [n] = Some n"
  by (simp_all add: build_levels.simps)

interpretation state_tree: hash_levels Hx node_hash "next_level Hx" "build_levels Hx"
  for Hx
  by unfold_locales (simp_all add: node_hash_next_level build_levels.simps [of Hx])

text \<open>The leaf hashes in the order of their ids, and the root as their pairwise hash.\<close>

definition leaf_hashes :: "(string, string) dict \<Rightarrow> string list" where
  "leaf_hashes l = map snd (sort l)"

lemma build_tree_root:
  "(case build_tree Hx l of Some n \<Rightarrow> node_hash n | None \<Rightarrow> []) = merkle_root Hx (leaf_hashes l)"
proof (cases "l = []")
  case False
  have "map node_hash (map (\<lambda>(did, h). MLeaf h did) (sort l)) = leaf_hashes l"
    by (simp add: leaf_hashes_def case_prod_unfold comp_def)
  with False show ?thesis by (simp add: build_tree_def state_tree.levels_root)
qed (simp add: build_tree_def leaf_hashes_def)

section \<open>Properties\<close>

text \<open>
  C29. Vector clocks order causality: on clocks with positive counts, happens-before is a strict
  partial order, a node's tick after merging two clocks is after both of them, and the merge is the
  least clock above both.
\<close>

theorem vector_clock_causality:
  assumes "vc_ok a" "vc_ok b" "vc_ok c"
  shows "\<not> happens_before a a \<and> (happens_before a b \<and> happens_before b c \<longrightarrow> happens_before a c) \<and>
    happens_before a (vc_increment n (vc_merge a b)) \<and> happens_before b (vc_increment n (vc_merge a b)) \<and>
    ((\<forall>m. clock_at a m \<le> clock_at c m \<and> clock_at b m \<le> clock_at c m) \<longrightarrow>
      (\<forall>m. clock_at (vc_merge a b) m \<le> clock_at c m))"
  using assms vector_clock.irrefl vector_clock.trans [of a b c] vector_clock.tick_after_join [of a b n]
    vector_clock.join_least [of a b c] by blast

text \<open>
  C3. Replicas under last-writer-wins converge: two new synchronisers with this strategy that then
  receive the same decisions, in any order, any batches and with any repetitions, hold the same
  decision for every id and have the same Merkle root, provided the decisions are consistent. Other
  strategies make no such promise: under \<open>MANUAL\<close> the first of two concurrent decisions stays.
\<close>

theorem same_decisions_converge:
  assumes "(\<Union>b \<in> set bs1. set (sb_decisions b)) = (\<Union>b \<in> set bs2. set (sb_decisions b))"
    and "consistent (\<Union>b \<in> set bs1. set (sb_decisions b))"
    and "s1 = fold (\<lambda>b s. snd (receive_sync_batch b s)) bs1 (sync_init r1 n1 LAST_WRITER_WINS)"
    and "s2 = fold (\<lambda>b s. snd (receive_sync_batch b s)) bs2 (sync_init r2 n2 LAST_WRITER_WINS)"
  shows "same_dict (sy_decisions s1) (sy_decisions s2) \<and>
    fst (root_hash Hx (sy_tree s1)) = fst (root_hash Hx (sy_tree s2))"
proof -
  have init: "holds_newest {} (sync_init r n LAST_WRITER_WINS)" for r n
    by (simp add: holds_newest_def sync_init_def)
  have strat: "sy_strategy (sync_init r n LAST_WRITER_WINS) = LAST_WRITER_WINS" for r n
    by (simp add: sync_init_def)
  have "holds_newest (\<Union>b \<in> set bs1. set (sb_decisions b)) s1"
    "holds_newest (\<Union>b \<in> set bs1. set (sb_decisions b)) s2"
    using receive_all_holds [OF strat _ init, of bs1] receive_all_holds [OF strat _ init, of bs2] assms by simp_all
  then have same: "dget (sy_decisions s1) i = dget (sy_decisions s2) i" for i by (rule newest_unique)
  have run: "fold (\<lambda>b s. snd (receive_sync_batch b s)) bs s = fold (sync_step Hx (\<lambda>_. [])) (map ReceiveBatch bs) s" for bs s
    by (induction bs arbitrary: s) simp_all
  have ok: "sync_ok Hx s1" "sync_ok Hx s2"
    using assms(3,4) sync.run_inv [OF sync_init_ok] by (simp_all add: run)
  have "build_tree Hx (mt_leaves (sy_tree s1)) = build_tree Hx (mt_leaves (sy_tree s2))"
    using ok same by (intro build_tree_cong) (auto simp: sync_ok_def tree_ok_def)
  then show ?thesis
    using ok same by (simp add: same_dict_def sync_ok_def root_hash_value)
qed

text \<open>
  C30. Equal roots mean equal decision hashes: for two reachable synchronisers with as many
  decisions each, under a hash of 64 characters that does not collide on the texts hashed, equal
  Merkle roots have the same decision hashes in the order of the ids. The ids themselves and the
  number of decisions are not bound by the root.
\<close>

theorem merkle_root_binds_hashes:
  assumes "s1 = fold (sync_step Hx Hb) ops1 (sync_init r1 n1 st1)" "s2 = fold (sync_step Hx Hb) ops2 (sync_init r2 n2 st2)"
    and "\<And>x. length (Hx x) = 64"
    and "\<forall>h \<in> set (leaf_hashes (mt_leaves (sy_tree s1))) \<union> set (leaf_hashes (mt_leaves (sy_tree s2))). length h = 64"
    and "length (mt_leaves (sy_tree s1)) = length (mt_leaves (sy_tree s2))"
    and "inj_on Hx (set (merkle_inputs Hx (leaf_hashes (mt_leaves (sy_tree s1)))) \<union>
                    set (merkle_inputs Hx (leaf_hashes (mt_leaves (sy_tree s2)))))"
    and "fst (root_hash Hx (sy_tree s1)) = fst (root_hash Hx (sy_tree s2))"
  shows "leaf_hashes (mt_leaves (sy_tree s1)) = leaf_hashes (mt_leaves (sy_tree s2)) \<and>
    (\<forall>i. dget (mt_leaves (sy_tree s1)) i = map_option sd_decision_hash (dget (sy_decisions s1) i))"
proof -
  have ok: "sync_ok Hx s1" "sync_ok Hx s2"
    using assms(1,2) sync.run_inv [OF sync_init_ok] by blast+
  then have "merkle_root Hx (leaf_hashes (mt_leaves (sy_tree s1))) = merkle_root Hx (leaf_hashes (mt_leaves (sy_tree s2)))"
    using assms(7) by (simp add: root_hash_value sync_ok_def build_tree_root)
  then have "leaf_hashes (mt_leaves (sy_tree s1)) = leaf_hashes (mt_leaves (sy_tree s2))"
    using assms(3-6) by (intro merkle_root_inj [where H = Hx and n = 64]) (simp_all add: leaf_hashes_def)
  then show ?thesis using ok(1) by (simp add: sync_ok_def)
qed

definition skewed :: "string \<Rightarrow> rat \<Rightarrow> vclock \<Rightarrow> decision" where
  "skewed h ts vc = \<lparr>sd_decision_id = ''d'', sd_region = ''EU'', sd_timestamp = Fin ts, sd_vector_clock = vc,
     sd_decision_hash = h, sd_payload = [], sd_signature = []\<rparr>"

text \<open>
  Without that consistency replicas need not converge: there are three decisions on one id, one
  caused by another but stamped earlier by a slow clock, that leave two synchronisers under
  last-writer-wins with different decisions, for having arrived in different orders.
\<close>

theorem clock_skew_diverges:
  "\<exists>x y z. mset [x, y, z] = mset [z, x, y] \<and>
     \<not> same_dict (sy_decisions (snd (apply_all [x, y, z] (sync_init ''EU'' ''n1'' LAST_WRITER_WINS))))
                 (sy_decisions (snd (apply_all [z, x, y] (sync_init ''US'' ''n2'' LAST_WRITER_WINS))))"
proof (intro exI conjI)
  let ?x = "skewed ''x'' 3 [(''a'', 1)]" and ?y = "skewed ''y'' 1 [(''a'', 2)]" and ?z = "skewed ''z'' 2 [(''b'', 1)]"
  show "mset [?x, ?y, ?z] = mset [?z, ?x, ?y]" by simp
  have "map_option sd_decision_hash (dget (sy_decisions (snd (apply_all [?x, ?y, ?z] (sync_init ''EU'' ''n1'' LAST_WRITER_WINS)))) ''d'') \<noteq>
        map_option sd_decision_hash (dget (sy_decisions (snd (apply_all [?z, ?x, ?y] (sync_init ''US'' ''n2'' LAST_WRITER_WINS)))) ''d'')"
    by code_simp
  then show "\<not> same_dict (sy_decisions (snd (apply_all [?x, ?y, ?z] (sync_init ''EU'' ''n1'' LAST_WRITER_WINS))))
                 (sy_decisions (snd (apply_all [?z, ?x, ?y] (sync_init ''US'' ''n2'' LAST_WRITER_WINS))))"
    unfolding same_dict_def by metis
qed

text \<open>A proof for a tree of more than one leaf is never accepted, because \<open>get_proof\<close> is empty.\<close>

lemma empty_proof_only_for_the_root:
  "fst (verify_proof Hx did h (fst (get_proof Hx did t)) t) \<longleftrightarrow> h = fst (root_hash Hx t)"
  by (simp add: verify_proof_def get_proof_def proof_hash_def case_prod_unfold Let_def)

section \<open>Witnesses\<close>

definition demo_batch :: "decision list \<Rightarrow> sync_batch" where
  "demo_batch ds = \<lparr>sb_batch_id = ''b'', sb_source_region = ''EU'', sb_target_region = ''US'', sb_decisions = ds,
     sb_merkle_root = [], sb_created_at = Fin 0, sb_status = PENDING\<rparr>"

theorem vector_clock_causality_witness:
  "happens_before [(''a'', 1)] (vc_increment ''b'' (vc_merge [(''a'', 1)] [(''b'', 4)])) \<and> \<not> happens_before [(''a'', 1)] [(''a'', 1)]"
proof -
  have "vc_ok [(''a'', 1)]" "vc_ok [(''b'', 4)]" "vc_ok []" by code_simp+
  from vector_clock_causality [OF this, of "''b''"] show ?thesis by blast
qed

theorem same_decisions_converge_witness:
  "fst (root_hash rev (sy_tree (snd (receive_sync_batch (demo_batch [skewed ''x'' 1 [(''a'', 1)], skewed ''y'' 2 [(''b'', 1)]])
       (sync_init ''EU'' ''n1'' LAST_WRITER_WINS))))) =
   fst (root_hash rev (sy_tree (snd (receive_sync_batch (demo_batch [skewed ''y'' 2 [(''b'', 1)], skewed ''x'' 1 [(''a'', 1)]])
       (sync_init ''US'' ''n2'' LAST_WRITER_WINS)))))"
proof -
  let ?x = "skewed ''x'' 1 [(''a'', 1)]" and ?y = "skewed ''y'' 2 [(''b'', 1)]"
  let ?bs1 = "[demo_batch [?x, ?y]]" and ?bs2 = "[demo_batch [?y, ?x]]"
  have "consistent {?x, ?y}" by code_simp
  then have "consistent (\<Union>b \<in> set ?bs1. set (sb_decisions b))" by (simp add: demo_batch_def)
  moreover have "(\<Union>b \<in> set ?bs1. set (sb_decisions b)) = (\<Union>b \<in> set ?bs2. set (sb_decisions b))"
    by (auto simp: demo_batch_def)
  ultimately show ?thesis
    using same_decisions_converge [OF _ _ refl refl, of ?bs1 ?bs2 "''EU''" "''n1''" "''US''" "''n2''" rev] by simp
qed

definition demo_hex :: "string \<Rightarrow> string" where
  "demo_hex x = take 64 (take 32 x @ take 32 (drop 64 x) @ replicate 64 (CHR ''0''))"

definition demo_leaf_digest :: "bytes \<Rightarrow> string" where
  "demo_leaf_digest p = (if p = [] then CHR ''a'' else if length p = 1 then CHR ''b'' else if length p = 2 then CHR ''c'' else CHR ''d'') # replicate 63 (CHR ''0'')"

definition demo_replica :: "bytes \<Rightarrow> synchronizer" where
  "demo_replica p = fold (sync_step demo_hex demo_leaf_digest) [AddLocal (Fin 1) ''d'' p ''s'', AddLocal (Fin 2) ''e'' [1, 2] ''s'', AddLocal (Fin 3) ''f'' [1, 2, 3] ''s'']
     (sync_init ''EU'' ''n'' MANUAL)"

theorem merkle_root_binds_hashes_witness:
  "merkle_inputs demo_hex (leaf_hashes (mt_leaves (sy_tree (demo_replica [])))) \<noteq> [] \<and>
   fst (root_hash demo_hex (sy_tree (demo_replica []))) \<noteq> fst (root_hash demo_hex (sy_tree (demo_replica [1])))"
proof
  show "merkle_inputs demo_hex (leaf_hashes (mt_leaves (sy_tree (demo_replica [])))) \<noteq> []" by code_simp
  show "fst (root_hash demo_hex (sy_tree (demo_replica []))) \<noteq> fst (root_hash demo_hex (sy_tree (demo_replica [1])))"
  proof
    assume r: "fst (root_hash demo_hex (sy_tree (demo_replica []))) = fst (root_hash demo_hex (sy_tree (demo_replica [1])))"
    have len: "length (demo_hex x) = 64" for x by (simp add: demo_hex_def)
    have l: "\<forall>h \<in> set (leaf_hashes (mt_leaves (sy_tree (demo_replica [])))) \<union> set (leaf_hashes (mt_leaves (sy_tree (demo_replica [1])))). length h = 64"
      by code_simp
    have n: "length (mt_leaves (sy_tree (demo_replica []))) = length (mt_leaves (sy_tree (demo_replica [1])))" by code_simp
    have i: "inj_on demo_hex (set (merkle_inputs demo_hex (leaf_hashes (mt_leaves (sy_tree (demo_replica []))))) \<union>
        set (merkle_inputs demo_hex (leaf_hashes (mt_leaves (sy_tree (demo_replica [1]))))))" by code_simp
    have "leaf_hashes (mt_leaves (sy_tree (demo_replica []))) \<noteq> leaf_hashes (mt_leaves (sy_tree (demo_replica [1])))" by code_simp
    then show False using merkle_root_binds_hashes [OF demo_replica_def demo_replica_def len l n i r] by blast
  qed
qed

end
