(* ===== verification/Anti_Entropy.thy ===== *)
theory Anti_Entropy
  imports Merkle "HOL-Library.Char_ord" "HOL-Library.Multiset" Complex_Main
begin

text \<open>
  Anti-entropy, \<^verbatim>\<open>kernel/mesh/anti_entropy.py\<close>, with the three request handlers of
  \<^verbatim>\<open>kernel/mesh/dht.py\<close> that answer it: the Merkle tree over the local records, the agent's
  reconciliation with a peer, and the backoff of its loop. \<open>H\<close> is SHA-256 as hex text. The local
  records are a state of any type with two arguments, \<open>get_local_state\<close> and \<open>apply_remote_record\<close>;
  the peer is the argument \<open>rpc\<close>, which may raise. Reconciliation runs here without other tasks in
  between; callbacks only observe.
\<close>

section \<open>The tree\<close>

datatype ae_node = ALeaf string "string option" | AInner string ae_node ae_node

fun ae_hash :: "ae_node \<Rightarrow> string" where
  "ae_hash (ALeaf h k) = h"
| "ae_hash (AInner h l r) = h"

record ae_tree =
  at_leaves :: "(string \<times> string) list"
  at_root :: "ae_node option"

definition ae_init :: ae_tree where
  "ae_init = \<lparr>at_leaves = [], at_root = None\<rparr>"

definition add_leaf :: "string \<Rightarrow> string \<Rightarrow> ae_tree \<Rightarrow> ae_tree" where
  "add_leaf k h t = t\<lparr>at_leaves := at_leaves t @ [(k, h)], at_root := None\<rparr>"

definition ae_clear :: "ae_tree \<Rightarrow> ae_tree" where
  "ae_clear t = t\<lparr>at_leaves := [], at_root := None\<rparr>"

fun ae_next_level :: "(string \<Rightarrow> string) \<Rightarrow> ae_node list \<Rightarrow> ae_node list" where
  "ae_next_level H [] = []"
| "ae_next_level H [l] = [AInner (H (ae_hash l @ ae_hash l)) l l]"
| "ae_next_level H (l # r # ns) = AInner (H (ae_hash l @ ae_hash r)) l r # ae_next_level H ns"

lemma length_ae_next_level [simp]: "length (ae_next_level H ns) = (length ns + 1) div 2"
  by (induction H ns rule: ae_next_level.induct) auto

function ae_levels :: "(string \<Rightarrow> string) \<Rightarrow> ae_node list \<Rightarrow> ae_node option" where
  "ae_levels H ns =
     (if length ns > 1 then ae_levels H (ae_next_level H ns)
      else case ns of [] \<Rightarrow> None | n # _ \<Rightarrow> Some n)"
  by pat_completeness auto
termination
  by (relation "measure (\<lambda>(H, ns). length ns)") auto

declare ae_levels.simps [simp del]

text \<open>\<open>build\<close>; Python's sort by key is stable.\<close>

definition ae_build :: "(string \<Rightarrow> string) \<Rightarrow> ae_tree \<Rightarrow> ae_tree" where
  "ae_build H t =
     (if at_leaves t = [] then t\<lparr>at_root := Some (ALeaf (H ''EMPTY'') None)\<rparr>
      else t\<lparr>at_root := ae_levels H (map (\<lambda>(k, h). ALeaf h (Some k)) (sort_key fst (at_leaves t)))\<rparr>)"

definition ae_root_hash :: "(string \<Rightarrow> string) \<Rightarrow> ae_tree \<Rightarrow> string \<times> ae_tree" where
  "ae_root_hash H t =
     (let t1 = (if at_root t = None then ae_build H t else t)
      in ((case at_root t1 of Some n \<Rightarrow> ae_hash n | None \<Rightarrow> H ''EMPTY''), t1))"

text \<open>
  Hashes at a depth: a leaf above it counts, and a right child equal to the left one, as the copy
  of an odd last node is, is skipped.
\<close>

fun collect_at_depth :: "ae_node \<Rightarrow> int \<Rightarrow> int \<Rightarrow> string list" where
  "collect_at_depth (ALeaf h k) current target = [h]"
| "collect_at_depth (AInner h l r) current target =
     (if current = target then [h]
      else collect_at_depth l (current + 1) target @
           (if r \<noteq> l then collect_at_depth r (current + 1) target else []))"

definition SUBTREE_DEPTH :: int where
  "SUBTREE_DEPTH = 4"

definition get_subtree_hashes :: "(string \<Rightarrow> string) \<Rightarrow> int \<Rightarrow> ae_tree \<Rightarrow> string list \<times> ae_tree" where
  "get_subtree_hashes H depth t =
     (let t1 = (if at_root t = None then ae_build H t else t)
      in (case at_root t1 of None \<Rightarrow> ([], t1) | Some n \<Rightarrow> (collect_at_depth n 0 depth, t1)))"

section \<open>The agent\<close>

record sync_stats =
  ss_attempted :: nat
  ss_successful :: nat
  ss_records_synced :: nat
  ss_conflicts :: nat
  ss_last_time :: rat

record 's ae_agent =
  aa_store :: 's
  aa_merkle :: ae_tree
  aa_stats :: sync_stats

definition rebuild_merkle ::
  "(string \<Rightarrow> string) \<Rightarrow> ('s \<Rightarrow> (string, string) dict) \<Rightarrow> 's ae_agent \<Rightarrow> string \<times> 's ae_agent" where
  "rebuild_merkle H get_local_state a =
     (let t = fold (\<lambda>(k, h). add_leaf k h) (get_local_state (aa_store a)) (ae_clear (aa_merkle a));
          (root, t1) = ae_root_hash H (ae_build H t)
      in (root, a\<lparr>aa_merkle := t1\<rparr>))"

datatype ae_request = MERKLE_ROOT_REQUEST | SUBTREE_HASHES_REQUEST | SUBTREE_RECORDS_REQUEST nat

record ae_response =
  re_merkle_root :: "string option"
  re_subtree_hashes :: "string list option"
  re_records :: "(string \<times> string) list option"

definition fetch_merkle_root :: "(ae_request \<Rightarrow> ae_response result) \<Rightarrow> string" where
  "fetch_merkle_root rpc =
     (case rpc MERKLE_ROOT_REQUEST of
        Inl _ \<Rightarrow> '''' | Inr r \<Rightarrow> (case re_merkle_root r of Some x \<Rightarrow> x | None \<Rightarrow> ''''))"

definition fetch_subtree_hashes :: "(ae_request \<Rightarrow> ae_response result) \<Rightarrow> string list" where
  "fetch_subtree_hashes rpc =
     (case rpc SUBTREE_HASHES_REQUEST of
        Inl _ \<Rightarrow> [] | Inr r \<Rightarrow> (case re_subtree_hashes r of Some x \<Rightarrow> x | None \<Rightarrow> []))"

definition fetch_subtree_records :: "(ae_request \<Rightarrow> ae_response result) \<Rightarrow> nat \<Rightarrow> (string \<times> string) list" where
  "fetch_subtree_records rpc idx =
     (case rpc (SUBTREE_RECORDS_REQUEST idx) of
        Inl _ \<Rightarrow> [] | Inr r \<Rightarrow> (case re_records r of Some x \<Rightarrow> x | None \<Rightarrow> []))"

definition find_divergent_subtrees :: "string list \<Rightarrow> string list \<Rightarrow> nat list" where
  "find_divergent_subtrees loc rem =
     filter (\<lambda>i. (if i < length loc then loc ! i else '''') \<noteq> (if i < length rem then rem ! i else ''''))
       [0..<max (length loc) (length rem)]"

text \<open>Applying fetched records: the number applied and the number refused.\<close>

fun apply_records ::
  "(string \<Rightarrow> string \<Rightarrow> 's \<Rightarrow> bool \<times> 's) \<Rightarrow> (string \<times> string) list \<Rightarrow> 's \<Rightarrow> nat \<times> nat \<times> 's" where
  "apply_records app [] s = (0, 0, s)"
| "apply_records app ((k, d) # rs) s =
     (let (ok, s1) = app k d s;
          (n, c, s2) = apply_records app rs s1
      in if ok then (n + 1, c, s2) else (n, c + 1, s2))"

fun sync_subtrees ::
  "(ae_request \<Rightarrow> ae_response result) \<Rightarrow> (string \<Rightarrow> string \<Rightarrow> 's \<Rightarrow> bool \<times> 's) \<Rightarrow> nat list \<Rightarrow> 's \<Rightarrow> nat \<times> nat \<times> 's" where
  "sync_subtrees rpc app [] s = (0, 0, s)"
| "sync_subtrees rpc app (i # is) s =
     (let (n, c, s1) = apply_records app (fetch_subtree_records rpc i) s;
          (m, d, s2) = sync_subtrees rpc app is s1
      in (n + m, c + d, s2))"

definition reconcile ::
  "(string \<Rightarrow> string) \<Rightarrow> ('s \<Rightarrow> (string, string) dict) \<Rightarrow> (string \<Rightarrow> string \<Rightarrow> 's \<Rightarrow> bool \<times> 's) \<Rightarrow>
   (ae_request \<Rightarrow> ae_response result) \<Rightarrow> rat \<Rightarrow> 's ae_agent \<Rightarrow> nat \<times> 's ae_agent" where
  "reconcile H get_local_state app rpc now a =
     (let a1 = a\<lparr>aa_stats := (aa_stats a)\<lparr>ss_attempted := ss_attempted (aa_stats a) + 1\<rparr>\<rparr>;
          (local_root, a2) = rebuild_merkle H get_local_state a1;
          peer_root = fetch_merkle_root rpc
      in if peer_root = local_root
         then (0, a2\<lparr>aa_stats := (aa_stats a2)\<lparr>ss_successful := ss_successful (aa_stats a2) + 1\<rparr>\<rparr>)
         else
           (let (local_subtrees, t) = get_subtree_hashes H SUBTREE_DEPTH (aa_merkle a2);
                a3 = a2\<lparr>aa_merkle := t\<rparr>;
                divergent = find_divergent_subtrees local_subtrees (fetch_subtree_hashes rpc)
            in if divergent = [] then (0, a3)
               else
                 (let (synced, conflicts, s) = sync_subtrees rpc app divergent (aa_store a3);
                      st = (aa_stats a3)\<lparr>ss_conflicts := ss_conflicts (aa_stats a3) + conflicts,
                             ss_records_synced := ss_records_synced (aa_stats a3) + synced,
                             ss_last_time := now\<rparr>;
                      st1 = (if synced > 0 then st\<lparr>ss_successful := ss_successful st + 1\<rparr> else st)
                  in (synced, a3\<lparr>aa_store := s, aa_stats := st1\<rparr>))))"

text \<open>One round of the loop: reconciling resets the interval, an exception doubles it up to ten times.\<close>

definition next_interval :: "rat \<Rightarrow> nat result \<Rightarrow> rat \<Rightarrow> rat" where
  "next_interval interval outcome current =
     (case outcome of
        Inr synced \<Rightarrow> (if synced > 0 then interval else interval)
      | Inl _ \<Rightarrow> min (current * 2) (interval * 10))"

section \<open>The answering side\<close>

text \<open>The handlers of a peer with an agent: the records handler answers every record, whatever the index.\<close>

definition handle_anti_entropy ::
  "(string \<Rightarrow> string) \<Rightarrow> ('s \<Rightarrow> (string, string) dict) \<Rightarrow> 's ae_agent \<Rightarrow> ae_request \<Rightarrow> ae_response result" where
  "handle_anti_entropy H get_local_state peer req =
     (case req of
        MERKLE_ROOT_REQUEST \<Rightarrow>
          Inr \<lparr>re_merkle_root = Some (fst (rebuild_merkle H get_local_state peer)),
               re_subtree_hashes = None, re_records = None\<rparr>
      | SUBTREE_HASHES_REQUEST \<Rightarrow>
          Inr \<lparr>re_merkle_root = None,
               re_subtree_hashes = Some (fst (get_subtree_hashes H SUBTREE_DEPTH
                  (aa_merkle (snd (rebuild_merkle H get_local_state peer))))),
               re_records = None\<rparr>
      | SUBTREE_RECORDS_REQUEST subtree_idx \<Rightarrow>
          Inr \<lparr>re_merkle_root = None, re_subtree_hashes = None,
               re_records = Some (get_local_state (aa_store peer))\<rparr>)"

section \<open>Roots\<close>

lemma ae_hash_next_level: "map ae_hash (ae_next_level H ns) = pair_up H (map ae_hash ns)"
  by (induction H ns rule: ae_next_level.induct) auto

interpretation ae_levels: hash_levels H ae_hash "ae_next_level H" "ae_levels H"
  for H
  by unfold_locales (simp_all add: ae_hash_next_level ae_levels.simps [of H])

text \<open>The hashes of a state's records in the order of their keys, and the root of a state.\<close>

definition record_hashes :: "(string, string) dict \<Rightarrow> string list" where
  "record_hashes d = map snd (sort_key fst d)"

definition state_root :: "(string \<Rightarrow> string) \<Rightarrow> (string, string) dict \<Rightarrow> string" where
  "state_root H d = (if d = [] then H ''EMPTY'' else merkle_root H (record_hashes d))"

definition state_tree_of :: "(string \<Rightarrow> string) \<Rightarrow> (string, string) dict \<Rightarrow> ae_tree" where
  "state_tree_of H d = ae_build H \<lparr>at_leaves = d, at_root = None\<rparr>"

lemma add_leaves:
  "fold (\<lambda>(k, h). add_leaf k h) d t = t\<lparr>at_leaves := at_leaves t @ d, at_root := (if d = [] then at_root t else None)\<rparr>"
  by (induction d arbitrary: t) (auto simp: add_leaf_def)

lemma build_root: "\<exists>n. at_root (state_tree_of H d) = Some n \<and> ae_hash n = state_root H d"
proof (cases "d = []")
  case True
  then show ?thesis by (simp add: state_tree_of_def ae_build_def state_root_def)
next
  case False
  let ?ns = "map (\<lambda>(k, h). ALeaf h (Some k)) (sort_key fst d)"
  have h: "map ae_hash ?ns = record_hashes d" by (simp add: record_hashes_def case_prod_unfold comp_def)
  have "sort_key fst d \<noteq> []" using False by (metis length_0_conv length_sort)
  then obtain n where n: "ae_levels H ?ns = Some n"
    using ae_levels.levels_None [of H ?ns] by (cases "ae_levels H ?ns") auto
  with False show ?thesis
    using ae_levels.levels_root [where H = H and ns = ?ns] unfolding h
    by (simp add: state_tree_of_def ae_build_def state_root_def)
qed

lemma rebuild_merkle_eq:
  "rebuild_merkle H gls a = (state_root H (gls (aa_store a)), a\<lparr>aa_merkle := state_tree_of H (gls (aa_store a))\<rparr>)"
proof -
  have "fold (\<lambda>(k, h). add_leaf k h) (gls (aa_store a)) (ae_clear (aa_merkle a)) =
      \<lparr>at_leaves = gls (aa_store a), at_root = None\<rparr>"
    by (simp add: add_leaves ae_clear_def)
  then show ?thesis
    using build_root [of H "gls (aa_store a)"]
    by (auto simp: rebuild_merkle_def ae_root_hash_def Let_def state_tree_of_def [symmetric])
qed

lemma sort_key_dict:
  assumes "dict_ok d" "dict_ok e" "same_dict d e"
  shows "sort_key fst d = sort_key fst e"
proof -
  have "set d = set e" using assms by (auto simp: same_dict_def dget_in_set [symmetric])
  then have m: "mset d = mset e"
    using assms(1,2) by (simp add: set_eq_iff_mset_eq_distinct dict_ok_def distinct_map)
  have "inj_on fst (set (sort_key fst d))"
    using assms(1) by (simp add: dict_ok_def distinct_map)
  with m show ?thesis
    by (intro sort_key_inj_key_eq [OF _ _ sorted_sort_key]) simp_all
qed

section \<open>Reconciliation with a peer\<close>

text \<open>The local records as a dictionary that takes whatever it is given.\<close>

definition take_record :: "string \<Rightarrow> string \<Rightarrow> (string, string) dict \<Rightarrow> bool \<times> (string, string) dict" where
  "take_record k v s = (True, dset k v s)"

lemma apply_records_take:
  "apply_records take_record rs s = (length rs, 0, fold (\<lambda>(k, v). dset k v) rs s)"
  by (induction rs arbitrary: s) (auto simp: take_record_def)

lemma fetch_from_peer:
  "fetch_merkle_root (handle_anti_entropy H gls peer) = state_root H (gls (aa_store peer))"
  "fetch_subtree_hashes (handle_anti_entropy H gls peer) =
     fst (get_subtree_hashes H SUBTREE_DEPTH (state_tree_of H (gls (aa_store peer))))"
  "fetch_subtree_records (handle_anti_entropy H gls peer) i = gls (aa_store peer)"
  by (simp_all add: fetch_merkle_root_def fetch_subtree_hashes_def fetch_subtree_records_def
      handle_anti_entropy_def rebuild_merkle_eq)

lemma fold_dset_lookup:
  "dict_ok d \<Longrightarrow> dget (fold (\<lambda>(k, v). dset k v) d s) k = (case dget d k of Some v \<Rightarrow> Some v | None \<Rightarrow> dget s k)"
proof (induction d arbitrary: s)
  case (Cons p d)
  obtain a b where p: "p = (a, b)" by fastforce
  have "dict_ok d" "dget d a = None" using Cons.prems by (auto simp: p dict_ok_def dget_def map_of_eq_None_iff)
  then show ?case using Cons.IH [of "dset a b s"] by (auto simp: p dget_Cons split: option.splits)
qed simp

lemma sync_subtrees_take:
  assumes "dict_ok d" "\<And>i. fetch_subtree_records rpc i = d"
  shows "\<exists>s'. sync_subtrees rpc take_record is s = (length is * length d, 0, s') \<and>
    (\<forall>k. dget s' k = (if is = [] then dget s k else case dget d k of Some v \<Rightarrow> Some v | None \<Rightarrow> dget s k))"
proof (induction "is" arbitrary: s)
  case (Cons i "is")
  obtain s' where "sync_subtrees rpc take_record is (fold (\<lambda>(k, v). dset k v) d s) = (length is * length d, 0, s')"
    "\<forall>k. dget s' k = (if is = [] then dget (fold (\<lambda>(k, v). dset k v) d s) k
       else case dget d k of Some v \<Rightarrow> Some v | None \<Rightarrow> dget (fold (\<lambda>(k, v). dset k v) d s) k)"
    using Cons.IH by blast
  then show ?case
    by (auto simp: assms(2) apply_records_take fold_dset_lookup [OF assms(1)] split: option.splits)
qed simp

section \<open>Properties\<close>

text \<open>
  Nodes with the same records agree at once: two agents whose local states hold the same records,
  in whatever order, compute the same root, so that a reconciliation between them synchronises
  nothing, counts as a success, and leaves the records alone.
\<close>

theorem equal_states_have_equal_roots:
  assumes "dict_ok (gls (aa_store a))" "dict_ok (gls (aa_store b))" "same_dict (gls (aa_store a)) (gls (aa_store b))"
    and "reconcile H gls app (handle_anti_entropy H gls b) now a = (n, a')"
  shows "n = 0 \<and> aa_store a' = aa_store a \<and> ss_successful (aa_stats a') = ss_successful (aa_stats a) + 1"
proof -
  have "gls (aa_store a) = [] \<longleftrightarrow> gls (aa_store b) = []"
    using assms(3) by (cases "gls (aa_store a)"; cases "gls (aa_store b)") (auto simp: same_dict_def dget_Cons split: if_splits)
  then have "state_root H (gls (aa_store a)) = state_root H (gls (aa_store b))"
    using sort_key_dict [OF assms(1-3)] by (simp add: state_root_def record_hashes_def)
  then show ?thesis
    using assms(4) by (auto simp: reconcile_def rebuild_merkle_eq fetch_from_peer Let_def)
qed

text \<open>
  Reconciling with a peer that runs the same handlers, on a store that takes every record,
  either changes nothing (equal roots, or no subtree that differs) or leaves every record of the
  peer in the local store and every other local record as it was. The number reported is the number
  of peer records once per subtree that differs, because the peer answers all of them each time.
\<close>

theorem reconcile_pulls_peer_records:
  assumes "dict_ok (aa_store b)"
    and "reconcile H (\<lambda>s. s) take_record (handle_anti_entropy H (\<lambda>s. s) b) now a = (n, a')"
    and "ds = find_divergent_subtrees
           (fst (get_subtree_hashes H SUBTREE_DEPTH (state_tree_of H (aa_store a))))
           (fst (get_subtree_hashes H SUBTREE_DEPTH (state_tree_of H (aa_store b))))"
  shows "if state_root H (aa_store b) = state_root H (aa_store a) \<or> ds = []
    then n = 0 \<and> aa_store a' = aa_store a
    else n = length ds * length (aa_store b) \<and>
      (\<forall>key. dget (aa_store a') key = (case dget (aa_store b) key of Some v \<Rightarrow> Some v | None \<Rightarrow> dget (aa_store a) key))"
proof -
  obtain s' where s': "sync_subtrees (handle_anti_entropy H (\<lambda>s. s) b) take_record ds (aa_store a) =
        (length ds * length (aa_store b), 0, s')"
    and look: "\<forall>k. dget s' k = (if ds = [] then dget (aa_store a) k
        else case dget (aa_store b) k of Some v \<Rightarrow> Some v | None \<Rightarrow> dget (aa_store a) k)"
    using sync_subtrees_take [OF assms(1), of "handle_anti_entropy H (\<lambda>s. s) b" ds "aa_store a"]
    by (auto simp: fetch_from_peer)
  obtain ls t where g: "get_subtree_hashes H SUBTREE_DEPTH (state_tree_of H (aa_store a)) = (ls, t)" by fastforce
  have d: "find_divergent_subtrees ls (fst (get_subtree_hashes H SUBTREE_DEPTH (state_tree_of H (aa_store b)))) = ds"
    using assms(3) g by simp
  show ?thesis
  proof (cases "state_root H (aa_store b) = state_root H (aa_store a)")
    case True
    then show ?thesis using assms(2) by (auto simp: reconcile_def rebuild_merkle_eq fetch_from_peer Let_def)
  next
    case False
    then show ?thesis
      using assms(2) s' look
      by (cases "ds = []") (auto simp: reconcile_def rebuild_merkle_eq fetch_from_peer Let_def g d)
  qed
qed

lemma divergent_iff:
  "i \<in> set (find_divergent_subtrees xs ys) \<longleftrightarrow> i < max (length xs) (length ys) \<and>
     (if i < length xs then xs ! i else []) \<noteq> (if i < length ys then ys ! i else [])"
  by (auto simp: find_divergent_subtrees_def)

text \<open>The loop's interval stays between the configured one and ten times it.\<close>

lemma backoff_bounded:
  assumes "0 < interval"
  shows "interval \<le> fold (next_interval interval) outcomes interval \<and>
         fold (next_interval interval) outcomes interval \<le> interval * 10"
proof -
  have "interval \<le> c \<and> c \<le> interval * 10 \<Longrightarrow>
      interval \<le> fold (next_interval interval) outcomes c \<and> fold (next_interval interval) outcomes c \<le> interval * 10" for c
    by (induction outcomes arbitrary: c)
       (use assms in \<open>auto simp: next_interval_def split: sum.splits\<close>)
  then show ?thesis using assms by simp
qed

section \<open>Witnesses\<close>

definition demo_agent :: "(string, string) dict \<Rightarrow> (string, string) dict ae_agent" where
  "demo_agent d = \<lparr>aa_store = d, aa_merkle = ae_init, aa_stats = \<lparr>ss_attempted = 0, ss_successful = 0,
     ss_records_synced = 0, ss_conflicts = 0, ss_last_time = 0\<rparr>\<rparr>"

definition demo_digest :: "string \<Rightarrow> string" where
  "demo_digest x = ''#'' @ x"

theorem equal_states_have_equal_roots_witness:
  "fst (reconcile demo_digest (\<lambda>s. s) take_record
      (handle_anti_entropy demo_digest (\<lambda>s. s) (demo_agent [(''b'', ''2''), (''a'', ''1'')])) 7 (demo_agent [(''a'', ''1''), (''b'', ''2'')])) = 0"
proof -
  let ?a = "demo_agent [(''a'', ''1''), (''b'', ''2'')]" and ?b = "demo_agent [(''b'', ''2''), (''a'', ''1'')]"
  obtain n a' where r: "reconcile demo_digest (\<lambda>s. s) take_record (handle_anti_entropy demo_digest (\<lambda>s. s) ?b) 7 ?a = (n, a')"
    by fastforce
  have "dict_ok (aa_store ?a)" "dict_ok (aa_store ?b)" "same_dict (aa_store ?a) (aa_store ?b)"
    by (auto simp: demo_agent_def dict_ok_def same_dict_def dget_Cons)
  from equal_states_have_equal_roots [of "\<lambda>s. s", OF this r] r show ?thesis by simp
qed

theorem reconcile_pulls_peer_records_witness:
  "dget (aa_store (snd (reconcile demo_digest (\<lambda>s. s) take_record
      (handle_anti_entropy demo_digest (\<lambda>s. s) (demo_agent [(''b'', ''2'')])) 7 (demo_agent [(''a'', ''1'')])))) ''b'' = Some ''2''"
proof -
  let ?a = "demo_agent [(''a'', ''1'')]" and ?b = "demo_agent [(''b'', ''2'')]"
  obtain n a' where r: "reconcile demo_digest (\<lambda>s. s) take_record (handle_anti_entropy demo_digest (\<lambda>s. s) ?b) 7 ?a = (n, a')"
    by fastforce
  have ok: "dict_ok (aa_store ?b)" by (simp add: demo_agent_def dict_ok_def)
  have "state_root demo_digest (aa_store ?b) \<noteq> state_root demo_digest (aa_store ?a)" by code_simp
  moreover have "find_divergent_subtrees
      (fst (get_subtree_hashes demo_digest SUBTREE_DEPTH (state_tree_of demo_digest (aa_store ?a))))
      (fst (get_subtree_hashes demo_digest SUBTREE_DEPTH (state_tree_of demo_digest (aa_store ?b)))) \<noteq> []" by code_simp
  ultimately show ?thesis
    using reconcile_pulls_peer_records [OF ok r refl] r by (simp add: demo_agent_def dget_Cons)
qed

end
