(* ===== verification/Routing.thy ===== *)
theory Routing
  imports Bytes Complex_Main
begin

text \<open>
  The Kademlia routing table of \<^verbatim>\<open>kernel/mesh/dht.py\<close>: contacts, buckets, the table with its binding
  check, splitting, ping-based eviction and revocation. The native routing table is an arbitrary
  state with arguments \<open>rupd\<close> (its update, which may raise) and \<open>rfind\<close> (its closest contacts); a
  table without it is in Python mode. \<open>Hd\<close> is the SHA3-256 digest, \<open>ping\<close> whether a contact answers,
  \<open>score\<close> the topology score contacts are sorted by.

  An update that finds its bucket full suspends while it waits for the ping of the oldest contact, and other
  tasks run meanwhile. \<open>rt_begin\<close> is the call up to that point, which sets the flag of the table, and
  \<open>rt_resume\<close> the rest; the section on interleaving runs them with other calls in between. \<open>rt_update\<close> with
  \<open>evict\<close> is a call that nothing interrupts, which is proved to be the two in succession.

  The recursion of \<open>update\<close> after a split takes fuel and answers None when it runs out; section
  Termination shows how much is always enough.
\<close>

section \<open>Contacts and buckets\<close>

record contact =
  ct_node_id :: bytes
  ct_address :: string
  ct_port :: nat
  ct_public_key :: "bytes option"
  ct_silicon_id :: "string option"
  ct_capabilities :: "(string, int) dict option"

text \<open>Equality and hash of a contact: the id, the address and the port.\<close>

definition ct_key :: "contact \<Rightarrow> bytes \<times> string \<times> nat" where
  "ct_key c = (ct_node_id c, ct_address c, ct_port c)"

abbreviation ct_int :: "contact \<Rightarrow> nat" where
  "ct_int c \<equiv> be_dec (ct_node_id c)"

definition xor_distance :: "contact \<Rightarrow> bytes \<Rightarrow> nat" where
  "xor_distance c other_id = Bit_Operations.xor (ct_int c) (be_dec other_id)"

definition K_PARAM :: nat where
  "K_PARAM = 20"

definition ALPHA :: nat where
  "ALPHA = 3"

record kbucket =
  kb_min :: nat
  kb_max :: nat
  kb_contacts :: "contact list"

definition kbucket_init :: "nat \<Rightarrow> nat \<Rightarrow> kbucket" where
  "kbucket_init lo hi = \<lparr>kb_min = lo, kb_max = hi, kb_contacts = []\<rparr>"

fun remove_contact :: "contact \<Rightarrow> contact list \<Rightarrow> contact list" where
  "remove_contact c [] = []"
| "remove_contact c (d # ds) = (if ct_key d = ct_key c then ds else d # remove_contact c ds)"

definition kb_update :: "contact \<Rightarrow> kbucket \<Rightarrow> bool \<times> kbucket" where
  "kb_update c b =
     (if ct_key c \<in> set (map ct_key (kb_contacts b))
      then (True, b\<lparr>kb_contacts := remove_contact c (kb_contacts b) @ [c]\<rparr>)
      else if length (kb_contacts b) < K_PARAM then (True, b\<lparr>kb_contacts := kb_contacts b @ [c]\<rparr>)
      else (False, b))"

definition get_contacts :: "kbucket \<Rightarrow> contact list" where
  "get_contacts b = kb_contacts b"

section \<open>The table\<close>

record 'r routing_table =
  rt_local_id :: bytes
  rt_rust :: "'r option"
  rt_buckets :: "kbucket list"
  rt_evict_in_progress :: bool
  rt_revoked :: "bytes set"

definition routing_init :: "bytes \<Rightarrow> 'r option \<Rightarrow> 'r routing_table" where
  "routing_init local_id rust =
     \<lparr>rt_local_id = local_id, rt_rust = rust, rt_buckets = [kbucket_init 0 (2 ^ 256)],
      rt_evict_in_progress = False, rt_revoked = {}\<rparr>"

definition revoke_node :: "bytes \<Rightarrow> 'r routing_table \<Rightarrow> 'r routing_table" where
  "revoke_node nid t =
     t\<lparr>rt_revoked := insert nid (rt_revoked t),
       rt_buckets := map (\<lambda>b. b\<lparr>kb_contacts := filter (\<lambda>c. ct_node_id c \<noteq> nid) (kb_contacts b)\<rparr>) (rt_buckets t)\<rparr>"

definition verify_binding :: "(bytes \<Rightarrow> bytes) \<Rightarrow> bytes set \<Rightarrow> contact \<Rightarrow> bool" where
  "verify_binding Hd revoked c =
     (if ct_node_id c \<in> revoked then False
      else if ct_address c = ''trigger_binding_fail'' then False
      else case ct_public_key c of
             None \<Rightarrow> False
           | Some pk \<Rightarrow>
               if ct_node_id c \<noteq> Hd pk then False
               else if ct_silicon_id c = None then False
               else True)"

definition split_contacts :: "nat \<Rightarrow> contact list \<Rightarrow> kbucket \<times> kbucket \<Rightarrow> kbucket \<times> kbucket" where
  "split_contacts midpoint cs lu =
     fold (\<lambda>c (l, u). if ct_int c \<le> midpoint then (snd (kb_update c l), u) else (l, snd (kb_update c u))) cs lu"

definition split_bucket :: "nat \<Rightarrow> kbucket list \<Rightarrow> kbucket list" where
  "split_bucket idx bs =
     (let old = bs ! idx;
          midpoint = (kb_min old + kb_max old) div 2;
          (lower, upper) = split_contacts midpoint (kb_contacts old)
             (kbucket_init (kb_min old) midpoint, kbucket_init (midpoint + 1) (kb_max old))
      in take idx bs @ [lower, upper] @ drop (idx + 1) bs)"

definition in_range :: "nat \<Rightarrow> kbucket \<Rightarrow> bool" where
  "in_range n b \<longleftrightarrow> kb_min b \<le> n \<and> n \<le> kb_max b"

text \<open>The index of the first bucket whose range holds an id.\<close>

fun bucket_index :: "nat \<Rightarrow> kbucket list \<Rightarrow> nat option" where
  "bucket_index n [] = None"
| "bucket_index n (b # bs) = (if in_range n b then Some 0 else map_option Suc (bucket_index n bs))"

text \<open>Ping the oldest contact of a full bucket: it moves to the end, or makes room.\<close>

definition evict :: "(contact \<Rightarrow> bool) \<Rightarrow> contact \<Rightarrow> kbucket \<Rightarrow> kbucket" where
  "evict ping c b =
     (let oldest = hd (kb_contacts b);
          rest = remove_contact oldest (kb_contacts b)
      in if ping oldest then b\<lparr>kb_contacts := rest @ [oldest]\<rparr>
         else snd (kb_update c (b\<lparr>kb_contacts := rest\<rparr>)))"

fun rt_update ::
  "(bytes \<Rightarrow> bytes) \<Rightarrow> (bytes \<Rightarrow> string \<Rightarrow> nat \<Rightarrow> 'r \<Rightarrow> 'r result) \<Rightarrow> (contact \<Rightarrow> bool) option \<Rightarrow>
   nat \<Rightarrow> contact \<Rightarrow> 'r routing_table \<Rightarrow> 'r routing_table option" where
  "rt_update Hd rupd dht 0 c t = None"
| "rt_update Hd rupd dht (Suc fuel) c t =
     (if ct_node_id c = rt_local_id t then Some t
      else if \<not> verify_binding Hd (rt_revoked t) c then Some t
      else
        (case (case rt_rust t of
                 None \<Rightarrow> Inl RuntimeError
               | Some r \<Rightarrow> rupd (ct_node_id c) (ct_address c) (ct_port c) r) of
           Inr r' \<Rightarrow> Some (t\<lparr>rt_rust := Some r'\<rparr>)
         | Inl _ \<Rightarrow>
             (case bucket_index (ct_int c) (rt_buckets t) of
                None \<Rightarrow> Some t
              | Some idx \<Rightarrow>
                  (case kb_update c (rt_buckets t ! idx) of
                     (True, b') \<Rightarrow> Some (t\<lparr>rt_buckets := (rt_buckets t)[idx := b']\<rparr>)
                   | (False, b') \<Rightarrow>
                       if in_range (be_dec (rt_local_id t)) (rt_buckets t ! idx)
                       then rt_update Hd rupd dht fuel c (t\<lparr>rt_buckets := split_bucket idx (rt_buckets t)\<rparr>)
                       else
                         (case dht of
                            None \<Rightarrow> Some t
                          | Some ping \<Rightarrow>
                              if rt_evict_in_progress t then Some t
                              else Some (t\<lparr>rt_buckets := (rt_buckets t)[idx := evict ping c (rt_buckets t ! idx)]\<rparr>))))))"

text \<open>
  Neighbours: what the native table answers, without keys, when it answers any; otherwise the
  contacts of all buckets by score.
\<close>

definition bare_contact :: "bytes \<times> string \<times> nat \<Rightarrow> contact" where
  "bare_contact x = (case x of (nid, addr, port) \<Rightarrow>
     \<lparr>ct_node_id = nid, ct_address = addr, ct_port = port, ct_public_key = None, ct_silicon_id = None,
      ct_capabilities = None\<rparr>)"

definition bucket_contacts :: "'r routing_table \<Rightarrow> contact list" where
  "bucket_contacts t = concat (map get_contacts (rt_buckets t))"

definition find_neighbors ::
  "('r \<Rightarrow> bytes \<Rightarrow> (bytes \<times> string \<times> nat) list result) \<Rightarrow> (contact \<Rightarrow> rat) \<Rightarrow> bytes \<Rightarrow> nat \<Rightarrow>
   'r routing_table \<Rightarrow> contact list" where
  "find_neighbors rfind score target_id count t =
     (let by_score = take count (sort_key score (bucket_contacts t))
      in case rt_rust t of
           None \<Rightarrow> by_score
         | Some r \<Rightarrow>
             (case rfind r target_id of
                Inl _ \<Rightarrow> by_score
              | Inr raw \<Rightarrow> if raw = [] then by_score else take count (map bare_contact raw)))"

fun add_unseen :: "contact list \<Rightarrow> bytes set \<Rightarrow> contact list" where
  "add_unseen [] seen = []"
| "add_unseen (c # cs) seen =
     (if ct_node_id c \<notin> seen then c # add_unseen cs (insert (ct_node_id c) seen) else add_unseen cs seen)"

definition get_all_contacts ::
  "('r \<Rightarrow> bytes \<Rightarrow> (bytes \<times> string \<times> nat) list result) \<Rightarrow> 'r routing_table \<Rightarrow> contact list" where
  "get_all_contacts rfind t =
     (let native = (case rt_rust t of
                      None \<Rightarrow> []
                    | Some r \<Rightarrow> (case rfind r (rt_local_id t) of Inl _ \<Rightarrow> [] | Inr raw \<Rightarrow> map bare_contact raw))
      in native @ add_unseen (bucket_contacts t) (set (map ct_node_id native)))"

section \<open>The invariant\<close>

text \<open>
  The buckets cover the id range without gap or overlap; a bucket holds at most twenty contacts, no
  two equal, all in its range; and every contact passed the binding check against the current
  revocation list and is not the node itself.
\<close>

fun covers :: "nat \<Rightarrow> kbucket list \<Rightarrow> nat \<Rightarrow> bool" where
  "covers lo [] hi \<longleftrightarrow> lo = hi + 1"
| "covers lo (b # bs) hi \<longleftrightarrow> kb_min b = lo \<and> lo \<le> kb_max b + 1 \<and> covers (kb_max b + 1) bs hi"

definition bucket_ok :: "(contact \<Rightarrow> bool) \<Rightarrow> kbucket \<Rightarrow> bool" where
  "bucket_ok good b \<longleftrightarrow>
     length (kb_contacts b) \<le> K_PARAM \<and> distinct (map ct_key (kb_contacts b)) \<and>
     list_all (\<lambda>c. in_range (ct_int c) b \<and> good c) (kb_contacts b)"

definition good_contact :: "(bytes \<Rightarrow> bytes) \<Rightarrow> 'r routing_table \<Rightarrow> contact \<Rightarrow> bool" where
  "good_contact Hd t c \<longleftrightarrow> ct_node_id c \<noteq> rt_local_id t \<and> verify_binding Hd (rt_revoked t) c"

definition routing_ok :: "(bytes \<Rightarrow> bytes) \<Rightarrow> 'r routing_table \<Rightarrow> bool" where
  "routing_ok Hd t \<longleftrightarrow> covers 0 (rt_buckets t) (2 ^ 256) \<and> list_all (bucket_ok (good_contact Hd t)) (rt_buckets t)"

section \<open>Buckets\<close>

lemma set_remove_contact: "set (remove_contact c cs) \<subseteq> set cs"
  by (induction cs) auto

lemma length_remove_contact: "ct_key c \<in> set (map ct_key cs) \<Longrightarrow> length (remove_contact c cs) = length cs - 1"
  by (induction cs) (auto split: if_splits, metis Suc_pred length_pos_if_in_set)

lemma length_remove_le: "length (remove_contact c cs) \<le> length cs"
  by (induction cs) auto

lemma distinct_remove_contact:
  "distinct (map ct_key cs) \<Longrightarrow>
   distinct (map ct_key (remove_contact c cs)) \<and> ct_key c \<notin> ct_key ` set (remove_contact c cs)"
  using set_remove_contact by (induction cs) (auto, force)

lemma in_range_simps [simp]:
  "in_range n (b\<lparr>kb_contacts := cs\<rparr>) = in_range n b"
  by (simp add: in_range_def)

lemma kb_update_range [simp]:
  "kb_min (snd (kb_update c b)) = kb_min b" "kb_max (snd (kb_update c b)) = kb_max b"
  by (simp_all add: kb_update_def)

lemma kb_update_ok:
  assumes "bucket_ok good b" "in_range (ct_int c) b" "good c"
  shows "bucket_ok good (snd (kb_update c b))"
proof (cases "ct_key c \<in> set (map ct_key (kb_contacts b))")
  case True
  have "length (kb_contacts b) > 0" using True by (cases "kb_contacts b") auto
  then show ?thesis
    using True assms length_remove_contact [OF True] distinct_remove_contact [of "kb_contacts b" c]
      set_remove_contact [of c "kb_contacts b"]
    by (auto simp: bucket_ok_def kb_update_def list_all_iff)
next
  case False
  with assms show ?thesis by (auto simp: bucket_ok_def kb_update_def list_all_iff)
qed

lemma bucket_ok_sub:
  "bucket_ok good b \<Longrightarrow> set cs \<subseteq> set (kb_contacts b) \<Longrightarrow> length cs \<le> length (kb_contacts b) \<Longrightarrow>
   distinct (map ct_key cs) \<Longrightarrow> bucket_ok good (b\<lparr>kb_contacts := cs\<rparr>)"
  by (auto simp: bucket_ok_def list_all_iff)

lemma kbucket_init_range [simp]: "kb_min (kbucket_init lo hi) = lo" "kb_max (kbucket_init lo hi) = hi"
  by (simp_all add: kbucket_init_def)

lemma kbucket_init_ok [simp]: "bucket_ok good (kbucket_init lo hi)"
  by (simp add: bucket_ok_def kbucket_init_def)

lemma split_contacts_ok:
  assumes "bucket_ok good (fst lu)" "bucket_ok good (snd lu)"
    and "kb_max (fst lu) = mid" "kb_min (snd lu) = mid + 1"
    and "list_all (\<lambda>c. kb_min (fst lu) \<le> ct_int c \<and> ct_int c \<le> kb_max (snd lu) \<and> good c) cs"
  shows "bucket_ok good (fst (split_contacts mid cs lu)) \<and> bucket_ok good (snd (split_contacts mid cs lu)) \<and>
    kb_min (fst (split_contacts mid cs lu)) = kb_min (fst lu) \<and> kb_max (fst (split_contacts mid cs lu)) = mid \<and>
    kb_min (snd (split_contacts mid cs lu)) = mid + 1 \<and> kb_max (snd (split_contacts mid cs lu)) = kb_max (snd lu)"
  using assms
proof (induction cs arbitrary: lu)
  case (Cons c cs)
  obtain l u where lu: "lu = (l, u)" by fastforce
  let ?lu = "if ct_int c \<le> mid then (snd (kb_update c l), u) else (l, snd (kb_update c u))"
  have step: "split_contacts mid (c # cs) lu = split_contacts mid cs ?lu"
    by (simp add: split_contacts_def lu)
  have "bucket_ok good (fst ?lu) \<and> bucket_ok good (snd ?lu)"
    using Cons.prems by (auto simp: lu in_range_def intro!: kb_update_ok)
  then show ?case
    unfolding step using Cons.prems Cons.IH [of ?lu] by (auto simp: lu)
qed (simp add: split_contacts_def)

lemma evict_ok:
  assumes "bucket_ok good b" "in_range (ct_int c) b" "good c" "kb_contacts b \<noteq> []"
  shows "bucket_ok good (evict ping c b)"
proof -
  let ?o = "hd (kb_contacts b)"
  have mem: "?o \<in> set (kb_contacts b)" using assms(4) by simp
  then have key: "ct_key ?o \<in> set (map ct_key (kb_contacts b))" by simp
  note d = distinct_remove_contact [of "kb_contacts b" ?o]
  have dist: "distinct (map ct_key (kb_contacts b))" using assms(1) by (simp add: bucket_ok_def)
  have sub: "bucket_ok good (b\<lparr>kb_contacts := remove_contact ?o (kb_contacts b)\<rparr>)"
    using d dist set_remove_contact length_remove_le by (intro bucket_ok_sub [OF assms(1)]) auto
  have "bucket_ok good (b\<lparr>kb_contacts := remove_contact ?o (kb_contacts b) @ [?o]\<rparr>)"
    using d dist set_remove_contact [of ?o "kb_contacts b"] mem length_remove_contact [OF key] assms(4)
    by (intro bucket_ok_sub [OF assms(1)]) (auto simp: Suc_le_eq)
  moreover have "bucket_ok good (snd (kb_update c (b\<lparr>kb_contacts := remove_contact ?o (kb_contacts b)\<rparr>)))"
    using sub assms(2,3) by (intro kb_update_ok) simp_all
  ultimately show ?thesis by (simp add: evict_def Let_def)
qed

lemma evict_range [simp]: "kb_min (evict ping c b) = kb_min b" "kb_max (evict ping c b) = kb_max b"
  by (simp_all add: evict_def Let_def)

section \<open>Ranges\<close>

lemma covers_same_range:
  "kb_min b' = kb_min (bs ! i) \<Longrightarrow> kb_max b' = kb_max (bs ! i) \<Longrightarrow> covers lo (bs[i := b']) hi = covers lo bs hi"
  by (induction bs arbitrary: i lo) (auto split: nat.splits)

lemma covers_split:
  assumes "i < length bs" "covers lo bs hi"
    and "kb_min l = kb_min (bs ! i)" "kb_max l = mid" "kb_min u = mid + 1" "kb_max u = kb_max (bs ! i)"
    and "kb_min (bs ! i) \<le> kb_max (bs ! i) + 1 \<Longrightarrow> kb_min (bs ! i) \<le> mid + 1 \<and> mid \<le> kb_max (bs ! i)"
  shows "covers lo (take i bs @ [l, u] @ drop (i + 1) bs) hi"
  using assms
proof (induction bs arbitrary: i lo)
  case (Cons b bs)
  then show ?case by (cases i) auto
qed simp

lemma covers_width: "covers lo bs hi \<Longrightarrow> b \<in> set bs \<Longrightarrow> kb_max b \<le> hi"
proof (induction bs arbitrary: lo)
  case (Cons c bs)
  have "lo' \<le> hi' + 1" if "covers lo' xs hi'" for lo' hi' xs
    using that by (induction xs arbitrary: lo') (auto, fastforce)
  from this [of "kb_max c + 1" bs hi] Cons show ?case by auto
qed simp

lemma bucket_index_Some:
  "bucket_index n bs = Some i \<Longrightarrow> i < length bs \<and> in_range n (bs ! i) \<and> (\<forall>j < i. \<not> in_range n (bs ! j))"
  by (induction bs arbitrary: i) (auto simp: nth_Cons less_Suc_eq_0_disj split: if_splits nat.splits)

lemma bucket_index_append:
  "bucket_index n (xs @ ys) =
     (case bucket_index n xs of Some i \<Rightarrow> Some i | None \<Rightarrow> map_option (\<lambda>i. length xs + i) (bucket_index n ys))"
  by (induction xs; cases "bucket_index n ys") (auto split: option.splits)

lemma bucket_index_None: "bucket_index n bs = None \<longleftrightarrow> (\<forall>b \<in> set bs. \<not> in_range n b)"
  by (induction bs) auto

text \<open>What a split leaves: two buckets that meet at the midpoint, in place of the old one.\<close>

lemma split_bucket_shape:
  assumes "i < length bs" "bucket_ok good (bs ! i)"
  obtains l u where "split_bucket i bs = take i bs @ [l, u] @ drop (i + 1) bs"
    "bucket_ok good l" "bucket_ok good u"
    "kb_min l = kb_min (bs ! i)" "kb_max l = (kb_min (bs ! i) + kb_max (bs ! i)) div 2"
    "kb_min u = (kb_min (bs ! i) + kb_max (bs ! i)) div 2 + 1" "kb_max u = kb_max (bs ! i)"
proof -
  let ?b = "bs ! i" let ?mid = "(kb_min ?b + kb_max ?b) div 2"
  let ?lu = "(kbucket_init (kb_min ?b) ?mid, kbucket_init (?mid + 1) (kb_max ?b))"
  let ?r = "split_contacts ?mid (kb_contacts ?b) ?lu"
  have all: "list_all (\<lambda>c. kb_min ?b \<le> ct_int c \<and> ct_int c \<le> kb_max ?b \<and> good c) (kb_contacts ?b)"
    using assms(2) by (auto simp: bucket_ok_def in_range_def list_all_iff)
  have "bucket_ok good (fst ?r) \<and> bucket_ok good (snd ?r) \<and>
      kb_min (fst ?r) = kb_min ?b \<and> kb_max (fst ?r) = ?mid \<and> kb_min (snd ?r) = ?mid + 1 \<and> kb_max (snd ?r) = kb_max ?b"
    using split_contacts_ok [of good ?lu ?mid "kb_contacts ?b"] all by simp
  moreover have "split_bucket i bs = take i bs @ [fst ?r, snd ?r] @ drop (i + 1) bs"
    by (simp add: split_bucket_def Let_def case_prod_unfold)
  ultimately show ?thesis using that by blast
qed

lemma bucket_index_split:
  assumes "bucket_index n bs = Some i" "kb_max l = mid" "kb_min u = mid + 1"
    and "kb_min l = kb_min (bs ! i)" "kb_max u = kb_max (bs ! i)"
  shows "bucket_index n (take i bs @ [l, u] @ drop (i + 1) bs) = Some (if n \<le> mid then i else i + 1)"
proof -
  have i: "i < length bs" "in_range n (bs ! i)" "\<forall>j < i. \<not> in_range n (bs ! j)"
    using bucket_index_Some [OF assms(1)] by auto
  have "bucket_index n (take i bs) = None"
    using i(1,3) by (auto simp: bucket_index_None in_set_conv_nth)
  moreover have "bucket_index n ([l, u] @ drop (i + 1) bs) = Some (if n \<le> mid then 0 else 1)"
    using i(2) assms(2-5) by (auto simp: in_range_def)
  ultimately show ?thesis using i(1) by (simp add: bucket_index_append)
qed

section \<open>Keeping the invariant\<close>

lemma routing_ok_bucket: "routing_ok Hd t \<Longrightarrow> i < length (rt_buckets t) \<Longrightarrow> bucket_ok (good_contact Hd t) (rt_buckets t ! i)"
  by (simp add: routing_ok_def list_all_length)

lemma good_contact_fields [simp]:
  "good_contact Hd (t\<lparr>rt_buckets := bs\<rparr>) = good_contact Hd t"
  "good_contact Hd (t\<lparr>rt_rust := r\<rparr>) = good_contact Hd t"
  by (simp_all add: good_contact_def fun_eq_iff)

lemma routing_ok_rust [simp]: "routing_ok Hd (t\<lparr>rt_rust := r\<rparr>) = routing_ok Hd t"
  by (simp add: routing_ok_def)

lemma routing_ok_replace:
  assumes "routing_ok Hd t" "i < length (rt_buckets t)" "bucket_ok (good_contact Hd t) b"
    and "kb_min b = kb_min (rt_buckets t ! i)" "kb_max b = kb_max (rt_buckets t ! i)"
  shows "routing_ok Hd (t\<lparr>rt_buckets := (rt_buckets t)[i := b]\<rparr>)"
  using assms unfolding routing_ok_def
  by (auto simp: covers_same_range list_all_length nth_list_update bucket_ok_def)

lemma covers_bounds: "covers lo bs hi \<Longrightarrow> b \<in> set bs \<Longrightarrow> kb_min b \<le> kb_max b + 1"
  by (induction bs arbitrary: lo) auto

lemma routing_ok_split:
  assumes "routing_ok Hd t" "i < length (rt_buckets t)"
  shows "routing_ok Hd (t\<lparr>rt_buckets := split_bucket i (rt_buckets t)\<rparr>)"
proof -
  obtain l u where s: "split_bucket i (rt_buckets t) = take i (rt_buckets t) @ [l, u] @ drop (i + 1) (rt_buckets t)"
    and ok: "bucket_ok (good_contact Hd t) l" "bucket_ok (good_contact Hd t) u"
    and r: "kb_min l = kb_min (rt_buckets t ! i)"
      "kb_max l = (kb_min (rt_buckets t ! i) + kb_max (rt_buckets t ! i)) div 2"
      "kb_min u = (kb_min (rt_buckets t ! i) + kb_max (rt_buckets t ! i)) div 2 + 1"
      "kb_max u = kb_max (rt_buckets t ! i)"
    using split_bucket_shape [OF assms(2) routing_ok_bucket [OF assms]] by blast
  have "covers 0 (split_bucket i (rt_buckets t)) (2 ^ 256)"
    unfolding s using assms r by (intro covers_split) (auto simp: routing_ok_def)
  moreover have "list_all (bucket_ok (good_contact Hd t)) (split_bucket i (rt_buckets t))"
    using assms(1) ok unfolding s by (auto simp: routing_ok_def list_all_iff dest: in_set_takeD in_set_dropD)
  ultimately show ?thesis by (simp add: routing_ok_def)
qed

lemma rt_update_ok: "routing_ok Hd t \<Longrightarrow> rt_update Hd rupd dht fuel c t = Some t' \<Longrightarrow> routing_ok Hd t'"
proof (induction fuel arbitrary: t)
  case (Suc fuel)
  show ?case
  proof (cases "ct_node_id c = rt_local_id t \<or> \<not> verify_binding Hd (rt_revoked t) c \<or>
      (\<exists>r r'. rt_rust t = Some r \<and> rupd (ct_node_id c) (ct_address c) (ct_port c) r = Inr r') \<or>
      bucket_index (ct_int c) (rt_buckets t) = None")
    case True
    with Suc.prems show ?thesis by (auto split: option.splits sum.splits if_splits)
  next
    case False
    then obtain idx where idx: "bucket_index (ct_int c) (rt_buckets t) = Some idx" by auto
    note bi = bucket_index_Some [OF idx]
    have good: "good_contact Hd t c" using False by (simp add: good_contact_def)
    have bok: "bucket_ok (good_contact Hd t) (rt_buckets t ! idx)" using routing_ok_bucket Suc.prems(1) bi by blast
    obtain ok b' where kb: "kb_update c (rt_buckets t ! idx) = (ok, b')" by fastforce
    obtain err where err: "(case rt_rust t of None \<Rightarrow> Inl RuntimeError
        | Some r \<Rightarrow> rupd (ct_node_id c) (ct_address c) (ct_port c) r) = Inl err"
      using False by (cases "rt_rust t"; cases "rupd (ct_node_id c) (ct_address c) (ct_port c) (the (rt_rust t))") auto
    show ?thesis
    proof (cases ok)
      case True
      with Suc.prems False idx err kb have "t' = t\<lparr>rt_buckets := (rt_buckets t)[idx := b']\<rparr>" by simp
      moreover have "bucket_ok (good_contact Hd t) b'" "kb_min b' = kb_min (rt_buckets t ! idx)" "kb_max b' = kb_max (rt_buckets t ! idx)"
        using kb_update_ok [OF bok, of c] kb_update_range [of c "rt_buckets t ! idx"] bi good by (auto simp: kb)
      ultimately show ?thesis using routing_ok_replace Suc.prems(1) bi by blast
    next
      case nok: False
      have ne: "kb_contacts (rt_buckets t ! idx) \<noteq> []"
        using kb nok by (auto simp: kb_update_def K_PARAM_def split: if_splits)
      show ?thesis
      proof (cases "in_range (be_dec (rt_local_id t)) (rt_buckets t ! idx)")
        case True
        with Suc.prems False idx err kb nok
        have "rt_update Hd rupd dht fuel c (t\<lparr>rt_buckets := split_bucket idx (rt_buckets t)\<rparr>) = Some t'" by simp
        then show ?thesis using Suc.IH routing_ok_split Suc.prems(1) bi by blast
      next
        case far: False
        have "routing_ok Hd (t\<lparr>rt_buckets := (rt_buckets t)[idx := evict ping c (rt_buckets t ! idx)]\<rparr>)" for ping
          using evict_ok [OF bok _ good ne] bi by (intro routing_ok_replace [OF Suc.prems(1)]) auto
        with Suc.prems False idx err kb nok far show ?thesis by (auto split: option.splits if_splits)
      qed
    qed
  qed
qed simp

lemma revoke_ok: "routing_ok Hd t \<Longrightarrow> routing_ok Hd (revoke_node nid t)"
proof -
  assume ok: "routing_ok Hd t"
  let ?f = "\<lambda>b. b\<lparr>kb_contacts := filter (\<lambda>c. ct_node_id c \<noteq> nid) (kb_contacts b)\<rparr>"
  have "covers lo (map ?f bs) hi = covers lo bs hi" for lo bs hi by (induction bs arbitrary: lo) auto
  moreover have "bucket_ok (good_contact Hd (revoke_node nid t)) (?f b)" if "bucket_ok (good_contact Hd t) b" for b
    using that le_trans [OF length_filter_le]
    by (auto simp: bucket_ok_def list_all_iff good_contact_def verify_binding_def revoke_node_def distinct_map
        intro: inj_on_subset split: option.splits if_splits)
  ultimately show ?thesis using ok by (auto simp: routing_ok_def revoke_node_def list_all_iff)
qed

section \<open>Termination\<close>

text \<open>
  A split halves the bucket that holds the contact, and a bucket of one id cannot hold both the
  contact and the node, so k + 1 units of fuel are enough for a bucket narrower than 2 to the k.
\<close>

lemma rt_update_fuel:
  assumes "ct_int c \<noteq> be_dec (rt_local_id t)" "routing_ok Hd t"
    and "\<And>i. bucket_index (ct_int c) (rt_buckets t) = Some i \<Longrightarrow> kb_max (rt_buckets t ! i) - kb_min (rt_buckets t ! i) < 2 ^ k"
    and "k < fuel"
  shows "\<exists>t'. rt_update Hd rupd dht fuel c t = Some t'"
  using assms
proof (induction k arbitrary: t fuel)
  case 0
  then obtain n where n: "fuel = Suc n" by (cases fuel) auto
  have "\<not> in_range (be_dec (rt_local_id t)) (rt_buckets t ! i)" if "bucket_index (ct_int c) (rt_buckets t) = Some i" for i
    using bucket_index_Some [OF that] "0.prems"(1) "0.prems"(3) [OF that] by (auto simp: in_range_def)
  then show ?case by (auto simp: n split: option.splits sum.splits prod.splits bool.splits)
next
  case (Suc k)
  then obtain n where n: "fuel = Suc n" "k < n" by (cases fuel) auto
  have "\<exists>t'. rt_update Hd rupd dht n c (t\<lparr>rt_buckets := split_bucket i (rt_buckets t)\<rparr>) = Some t'"
    if i: "bucket_index (ct_int c) (rt_buckets t) = Some i" for i
  proof (rule Suc.IH)
    note bi = bucket_index_Some [OF i]
    then have il: "i < length (rt_buckets t)" by simp
    obtain l u where s: "split_bucket i (rt_buckets t) = take i (rt_buckets t) @ [l, u] @ drop (i + 1) (rt_buckets t)"
      and r: "kb_min l = kb_min (rt_buckets t ! i)"
        "kb_max l = (kb_min (rt_buckets t ! i) + kb_max (rt_buckets t ! i)) div 2"
        "kb_min u = (kb_min (rt_buckets t ! i) + kb_max (rt_buckets t ! i)) div 2 + 1"
        "kb_max u = kb_max (rt_buckets t ! i)"
      using split_bucket_shape [OF il routing_ok_bucket [OF Suc.prems(2) il]] by blast
    have w: "kb_max (rt_buckets t ! i) - kb_min (rt_buckets t ! i) < 2 * 2 ^ k" using Suc.prems(3) [OF i] by simp
    have at: "(take i (rt_buckets t) @ [l, u] @ drop (i + 1) (rt_buckets t)) ! i = l"
      "(take i (rt_buckets t) @ [l, u] @ drop (i + 1) (rt_buckets t)) ! (i + 1) = u"
      using il by (simp_all add: nth_append)
    show "kb_max (rt_buckets (t\<lparr>rt_buckets := split_bucket i (rt_buckets t)\<rparr>) ! j) -
          kb_min (rt_buckets (t\<lparr>rt_buckets := split_bucket i (rt_buckets t)\<rparr>) ! j) < 2 ^ k"
      if "bucket_index (ct_int c) (rt_buckets (t\<lparr>rt_buckets := split_bucket i (rt_buckets t)\<rparr>)) = Some j" for j
      using that bucket_index_split [OF i r(2,3,1,4)] at r w bi by (auto simp: s in_range_def split: if_splits)
    show "routing_ok Hd (t\<lparr>rt_buckets := split_bucket i (rt_buckets t)\<rparr>)"
      using routing_ok_split [OF Suc.prems(2) il] .
  qed (use Suc.prems n in auto)
  then show ?case by (auto simp: n split: option.splits sum.splits prod.splits bool.splits)
qed

lemma rt_update_more_fuel:
  "rt_update Hd rupd dht n c t = Some t' \<Longrightarrow> n \<le> m \<Longrightarrow> rt_update Hd rupd dht m c t = Some t'"
proof (induction n arbitrary: t m)
  case (Suc n)
  then obtain m' where "m = Suc m'" "n \<le> m'" by (cases m) auto
  with Suc show ?case by (auto split: option.splits sum.splits prod.splits bool.splits if_splits)
qed simp

section \<open>The table as a machine\<close>

definition UPDATE_FUEL :: nat where
  "UPDATE_FUEL = 258"

datatype rt_op = UpdateContact "(contact \<Rightarrow> bool) option" contact | RevokeNode bytes

fun rt_step ::
  "(bytes \<Rightarrow> bytes) \<Rightarrow> (bytes \<Rightarrow> string \<Rightarrow> nat \<Rightarrow> 'r \<Rightarrow> 'r result) \<Rightarrow> rt_op \<Rightarrow> 'r routing_table \<Rightarrow> 'r routing_table" where
  "rt_step Hd rupd (UpdateContact dht c) t =
     (case rt_update Hd rupd dht UPDATE_FUEL c t of Some t' \<Rightarrow> t' | None \<Rightarrow> t)"
| "rt_step Hd rupd (RevokeNode nid) t = revoke_node nid t"

interpretation routing: machine "rt_step Hd rupd" "routing_ok Hd"
  for Hd rupd
proof (unfold_locales, goal_cases)
  case (1 t x)
  then show ?case by (cases x) (auto simp: rt_update_ok revoke_ok split: option.splits)
qed

lemma routing_init_ok [simp]: "routing_ok Hd (routing_init local_id rust)"
  by (simp add: routing_ok_def routing_init_def)

lemma bucket_contact_good: "routing_ok Hd t \<Longrightarrow> c \<in> set (bucket_contacts t) \<Longrightarrow> good_contact Hd t c"
  by (auto simp: routing_ok_def bucket_contacts_def get_contacts_def list_all_iff bucket_ok_def)

section \<open>Interleaving\<close>

text \<open>
  The first half of a call answers the table and, when it waits for a ping, the contact it pings. The bucket it waits
  for is never split meanwhile, since it does not hold the id of the node, so it is the bucket of the contact when
  the call resumes. The answer is whether the pinged contact is alive, or None when the ping raises.
\<close>

fun rt_begin ::
  "(bytes \<Rightarrow> bytes) \<Rightarrow> (bytes \<Rightarrow> string \<Rightarrow> nat \<Rightarrow> 'r \<Rightarrow> 'r result) \<Rightarrow> bool \<Rightarrow>
   nat \<Rightarrow> contact \<Rightarrow> 'r routing_table \<Rightarrow> ('r routing_table \<times> contact option) option" where
  "rt_begin Hd rupd has_dht 0 c t = None"
| "rt_begin Hd rupd has_dht (Suc fuel) c t =
     (if ct_node_id c = rt_local_id t then Some (t, None)
      else if \<not> verify_binding Hd (rt_revoked t) c then Some (t, None)
      else
        (case (case rt_rust t of
                 None \<Rightarrow> Inl RuntimeError
               | Some r \<Rightarrow> rupd (ct_node_id c) (ct_address c) (ct_port c) r) of
           Inr r' \<Rightarrow> Some (t\<lparr>rt_rust := Some r'\<rparr>, None)
         | Inl _ \<Rightarrow>
             (case bucket_index (ct_int c) (rt_buckets t) of
                None \<Rightarrow> Some (t, None)
              | Some idx \<Rightarrow>
                  (case kb_update c (rt_buckets t ! idx) of
                     (True, b') \<Rightarrow> Some (t\<lparr>rt_buckets := (rt_buckets t)[idx := b']\<rparr>, None)
                   | (False, b') \<Rightarrow>
                       if in_range (be_dec (rt_local_id t)) (rt_buckets t ! idx)
                       then rt_begin Hd rupd has_dht fuel c (t\<lparr>rt_buckets := split_bucket idx (rt_buckets t)\<rparr>)
                       else if \<not> has_dht \<or> rt_evict_in_progress t then Some (t, None)
                       else Some (t\<lparr>rt_evict_in_progress := True\<rparr>, Some (hd (kb_contacts (rt_buckets t ! idx))))))))"

definition rt_resume :: "bool option \<Rightarrow> contact \<Rightarrow> contact \<Rightarrow> 'r routing_table \<Rightarrow> unit result \<times> 'r routing_table" where
  "rt_resume alive c oldest t =
     (let t1 = t\<lparr>rt_evict_in_progress := False\<rparr>
      in case (alive, bucket_index (ct_int c) (rt_buckets t)) of
           (Some a, Some idx) \<Rightarrow>
             let b = rt_buckets t ! idx; rest = remove_contact oldest (kb_contacts b)
             in if ct_key oldest \<notin> set (map ct_key (kb_contacts b)) then (Inl ValueError, t1)
                else (Inr (), t1\<lparr>rt_buckets := (rt_buckets t)[idx :=
                  (if a then b\<lparr>kb_contacts := rest @ [oldest]\<rparr> else snd (kb_update c (b\<lparr>kb_contacts := rest\<rparr>)))]\<rparr>)
         | _ \<Rightarrow> (Inl RuntimeError, t1))"

text \<open>
  The table with the update that waits, if any, and the ids that were revoked while their own update waited and not
  again since then.
\<close>

record 'r live_table =
  lt_table :: "'r routing_table"
  lt_waiting :: "(contact \<times> contact) option"
  lt_late :: "bytes set"

definition live_init :: "bytes \<Rightarrow> 'r option \<Rightarrow> 'r live_table" where
  "live_init local_id rust = \<lparr>lt_table = routing_init local_id rust, lt_waiting = None, lt_late = {}\<rparr>"

datatype live_op = BeginUpdate bool contact | PingAnswered "bool option" | Revoke bytes

fun live_step ::
  "(bytes \<Rightarrow> bytes) \<Rightarrow> (bytes \<Rightarrow> string \<Rightarrow> nat \<Rightarrow> 'r \<Rightarrow> 'r result) \<Rightarrow> live_op \<Rightarrow> 'r live_table \<Rightarrow> 'r live_table" where
  "live_step Hd rupd (BeginUpdate has_dht c) m =
     (case rt_begin Hd rupd has_dht UPDATE_FUEL c (lt_table m) of
        None \<Rightarrow> m
      | Some (t, None) \<Rightarrow> m\<lparr>lt_table := t\<rparr>
      | Some (t, Some oldest) \<Rightarrow> m\<lparr>lt_table := t, lt_waiting := Some (c, oldest)\<rparr>)"
| "live_step Hd rupd (PingAnswered alive) m =
     (case lt_waiting m of
        None \<Rightarrow> m
      | Some (c, oldest) \<Rightarrow> m\<lparr>lt_table := snd (rt_resume alive c oldest (lt_table m)), lt_waiting := None\<rparr>)"
| "live_step Hd rupd (Revoke nid) m = m\<lparr>lt_table := revoke_node nid (lt_table m),
     lt_late := (case lt_waiting m of Some (c, oldest) \<Rightarrow> if ct_node_id c = nid then insert nid (lt_late m) else lt_late m - {nid}
                 | None \<Rightarrow> lt_late m - {nid})\<rparr>"

text \<open>Against a part of the revocation list, the table is as sound as an uninterrupted one.\<close>

definition sound_for :: "(bytes \<Rightarrow> bytes) \<Rightarrow> bytes set \<Rightarrow> 'r routing_table \<Rightarrow> bool" where
  "sound_for Hd R t \<longleftrightarrow> routing_ok Hd (t\<lparr>rt_revoked := R\<rparr>)"

lemma verify_binding_split: "verify_binding Hd R c \<longleftrightarrow> verify_binding Hd {} c \<and> ct_node_id c \<notin> R"
  by (auto simp: verify_binding_def split: option.splits)

lemma sound_for_fields [simp]:
  "sound_for Hd R (t\<lparr>rt_evict_in_progress := e\<rparr>) = sound_for Hd R t" "sound_for Hd R (t\<lparr>rt_rust := r\<rparr>) = sound_for Hd R t"
  by (simp_all add: sound_for_def routing_ok_def good_contact_def cong: if_cong)
     (simp_all add: good_contact_def [abs_def])

lemma sound_for_bucket:
  "sound_for Hd R t \<Longrightarrow> i < length (rt_buckets t) \<Longrightarrow> bucket_ok (good_contact Hd (t\<lparr>rt_revoked := R\<rparr>)) (rt_buckets t ! i)"
  using routing_ok_bucket [of Hd "t\<lparr>rt_revoked := R\<rparr>" i] by (simp add: sound_for_def)

lemma buckets_revoked: "t\<lparr>rt_buckets := bs, rt_revoked := R\<rparr> = t\<lparr>rt_revoked := R, rt_buckets := bs\<rparr>"
  by (cases t) simp

lemma sound_for_replace:
  assumes "sound_for Hd R t" "i < length (rt_buckets t)" "bucket_ok (good_contact Hd (t\<lparr>rt_revoked := R\<rparr>)) b"
    and "kb_min b = kb_min (rt_buckets t ! i)" "kb_max b = kb_max (rt_buckets t ! i)"
  shows "sound_for Hd R (t\<lparr>rt_buckets := (rt_buckets t)[i := b]\<rparr>)"
  using routing_ok_replace [of Hd "t\<lparr>rt_revoked := R\<rparr>" i b] assms by (simp add: sound_for_def buckets_revoked)

lemma sound_for_split: "sound_for Hd R t \<Longrightarrow> i < length (rt_buckets t) \<Longrightarrow> sound_for Hd R (t\<lparr>rt_buckets := split_bucket i (rt_buckets t)\<rparr>)"
  using routing_ok_split [of Hd "t\<lparr>rt_revoked := R\<rparr>" i] by (simp add: sound_for_def buckets_revoked)

lemma good_contact_part: "good_contact Hd t c \<Longrightarrow> R \<subseteq> rt_revoked t \<Longrightarrow> good_contact Hd (t\<lparr>rt_revoked := R\<rparr>) c"
  by (auto simp: good_contact_def verify_binding_split [of Hd R] verify_binding_split [of Hd "rt_revoked t"])

lemma rt_begin_sound:
  assumes "sound_for Hd R t" "R \<subseteq> rt_revoked t" "rt_begin Hd rupd has_dht fuel c t = Some (t', w)"
  shows "sound_for Hd R t' \<and> rt_revoked t' = rt_revoked t \<and> rt_local_id t' = rt_local_id t \<and>
    (case w of None \<Rightarrow> rt_evict_in_progress t' = rt_evict_in_progress t
     | Some oldest \<Rightarrow> \<not> rt_evict_in_progress t \<and> rt_evict_in_progress t' \<and> good_contact Hd t c \<and> good_contact Hd (t\<lparr>rt_revoked := R\<rparr>) oldest)"
  using assms
proof (induction fuel arbitrary: t)
  case (Suc fuel)
  show ?case
  proof (cases "ct_node_id c = rt_local_id t \<or> \<not> verify_binding Hd (rt_revoked t) c \<or>
      (\<exists>r r'. rt_rust t = Some r \<and> rupd (ct_node_id c) (ct_address c) (ct_port c) r = Inr r') \<or>
      bucket_index (ct_int c) (rt_buckets t) = None")
    case True
    with Suc.prems show ?thesis by (auto split: option.splits sum.splits if_splits)
  next
    case False
    then obtain idx where idx: "bucket_index (ct_int c) (rt_buckets t) = Some idx" by auto
    note bi = bucket_index_Some [OF idx]
    have good: "good_contact Hd t c" using False by (simp add: good_contact_def)
    then have goodR: "good_contact Hd (t\<lparr>rt_revoked := R\<rparr>) c" using Suc.prems(2) by (rule good_contact_part)
    have bok: "bucket_ok (good_contact Hd (t\<lparr>rt_revoked := R\<rparr>)) (rt_buckets t ! idx)" using sound_for_bucket Suc.prems(1) bi by blast
    obtain ok b' where kb: "kb_update c (rt_buckets t ! idx) = (ok, b')" by fastforce
    obtain err where err: "(case rt_rust t of None \<Rightarrow> Inl RuntimeError
        | Some r \<Rightarrow> rupd (ct_node_id c) (ct_address c) (ct_port c) r) = Inl err"
      using False by (cases "rt_rust t"; cases "rupd (ct_node_id c) (ct_address c) (ct_port c) (the (rt_rust t))") auto
    show ?thesis
    proof (cases ok)
      case True
      with Suc.prems False idx err kb have "t' = t\<lparr>rt_buckets := (rt_buckets t)[idx := b']\<rparr>" "w = None" by simp_all
      moreover have "bucket_ok (good_contact Hd (t\<lparr>rt_revoked := R\<rparr>)) b'" "kb_min b' = kb_min (rt_buckets t ! idx)" "kb_max b' = kb_max (rt_buckets t ! idx)"
        using kb_update_ok [OF bok, of c] kb_update_range [of c "rt_buckets t ! idx"] bi goodR by (auto simp: kb)
      ultimately show ?thesis using sound_for_replace [OF Suc.prems(1)] bi by simp
    next
      case nok: False
      have "hd (kb_contacts (rt_buckets t ! idx)) \<in> set (kb_contacts (rt_buckets t ! idx))"
        using kb nok by (intro hd_in_set) (auto simp: kb_update_def K_PARAM_def split: if_splits)
      then have oldest: "good_contact Hd (t\<lparr>rt_revoked := R\<rparr>) (hd (kb_contacts (rt_buckets t ! idx)))"
        using bok by (auto simp: bucket_ok_def list_all_iff)
      show ?thesis
      proof (cases "in_range (be_dec (rt_local_id t)) (rt_buckets t ! idx)")
        case True
        with Suc.prems False idx err kb nok
        have "rt_begin Hd rupd has_dht fuel c (t\<lparr>rt_buckets := split_bucket idx (rt_buckets t)\<rparr>) = Some (t', w)" by simp
        from Suc.IH [OF _ _ this] sound_for_split [OF Suc.prems(1)] bi Suc.prems(2) show ?thesis
          by (auto simp: good_contact_def split: option.splits)
      next
        case far: False
        with Suc.prems False idx err kb nok good oldest show ?thesis by (auto split: if_splits)
      qed
    qed
  qed
qed simp

lemma moved_to_end_ok:
  assumes "bucket_ok good b" "ct_key x \<in> set (map ct_key (kb_contacts b))" "good x"
  shows "bucket_ok good (b\<lparr>kb_contacts := remove_contact x (kb_contacts b) @ [x]\<rparr>)" "bucket_ok good (b\<lparr>kb_contacts := remove_contact x (kb_contacts b)\<rparr>)"
proof -
  obtain y where y: "y \<in> set (kb_contacts b)" "ct_key y = ct_key x" using assms(2) by auto
  have "in_range (ct_int x) b" using assms(1) y by (auto simp: bucket_ok_def list_all_iff ct_key_def)
  then have "bucket_ok good (snd (kb_update x b))" by (rule kb_update_ok [OF assms(1) _ assms(3)])
  then show "bucket_ok good (b\<lparr>kb_contacts := remove_contact x (kb_contacts b) @ [x]\<rparr>)" using assms(2) by (simp add: kb_update_def)
  show "bucket_ok good (b\<lparr>kb_contacts := remove_contact x (kb_contacts b)\<rparr>)"
    using assms(1) distinct_remove_contact [of "kb_contacts b" x] set_remove_contact [of x "kb_contacts b"] length_remove_le
    by (intro bucket_ok_sub) (auto simp: bucket_ok_def)
qed

lemma rt_resume_sound:
  assumes "sound_for Hd R t" "good_contact Hd (t\<lparr>rt_revoked := R\<rparr>) c" "good_contact Hd (t\<lparr>rt_revoked := {}\<rparr>) oldest"
  shows "sound_for Hd R (snd (rt_resume alive c oldest t))"
proof (cases "\<exists>a idx. alive = Some a \<and> bucket_index (ct_int c) (rt_buckets t) = Some idx \<and> ct_key oldest \<in> set (map ct_key (kb_contacts (rt_buckets t ! idx)))")
  case False
  then show ?thesis using assms(1) by (auto simp: rt_resume_def Let_def split: option.splits)
next
  case True
  then obtain a idx where a: "alive = Some a" and idx: "bucket_index (ct_int c) (rt_buckets t) = Some idx"
    and key: "ct_key oldest \<in> set (map ct_key (kb_contacts (rt_buckets t ! idx)))" by blast
  let ?b = "rt_buckets t ! idx" and ?G = "good_contact Hd (t\<lparr>rt_revoked := R\<rparr>)"
  note bi = bucket_index_Some [OF idx]
  have bok: "bucket_ok ?G ?b" using sound_for_bucket [OF assms(1)] bi by blast
  have "ct_node_id oldest \<notin> R" using key bok by (auto simp: bucket_ok_def list_all_iff good_contact_def verify_binding_split [of Hd R] ct_key_def)
  then have "?G oldest" using assms(3) by (simp add: good_contact_def verify_binding_split [of Hd R])
  note m = moved_to_end_ok [OF bok key this]
  have "bucket_ok ?G (snd (kb_update c (?b\<lparr>kb_contacts := remove_contact oldest (kb_contacts ?b)\<rparr>)))"
    by (rule kb_update_ok [OF m(2)]) (use bi assms(2) in simp_all)
  with m(1) have "bucket_ok ?G (if a then ?b\<lparr>kb_contacts := remove_contact oldest (kb_contacts ?b) @ [oldest]\<rparr>
      else snd (kb_update c (?b\<lparr>kb_contacts := remove_contact oldest (kb_contacts ?b)\<rparr>)))" by simp
  from sound_for_replace [OF assms(1) _ this] bi have
    "sound_for Hd R (t\<lparr>rt_buckets := (rt_buckets t)[idx := (if a then ?b\<lparr>kb_contacts := remove_contact oldest (kb_contacts ?b) @ [oldest]\<rparr>
      else snd (kb_update c (?b\<lparr>kb_contacts := remove_contact oldest (kb_contacts ?b)\<rparr>)))]\<rparr>)" by simp
  moreover have "snd (rt_resume alive c oldest t) = (t\<lparr>rt_buckets := (rt_buckets t)[idx := (if a then ?b\<lparr>kb_contacts := remove_contact oldest (kb_contacts ?b) @ [oldest]\<rparr>
      else snd (kb_update c (?b\<lparr>kb_contacts := remove_contact oldest (kb_contacts ?b)\<rparr>)))]\<rparr>)\<lparr>rt_evict_in_progress := False\<rparr>"
    using a idx key by (simp add: rt_resume_def Let_def)
  ultimately show ?thesis by simp
qed

lemma rt_resume_fields [simp]:
  "rt_revoked (snd (rt_resume alive c oldest t)) = rt_revoked t" "rt_local_id (snd (rt_resume alive c oldest t)) = rt_local_id t"
  "\<not> rt_evict_in_progress (snd (rt_resume alive c oldest t))"
  by (auto simp: rt_resume_def Let_def split: option.splits)

lemma revoke_sound: "sound_for Hd R t \<Longrightarrow> R' \<subseteq> insert nid R \<Longrightarrow> sound_for Hd R' (revoke_node nid t)"
proof -
  assume ok: "sound_for Hd R t" and sub: "R' \<subseteq> insert nid R"
  have "routing_ok Hd (revoke_node nid (t\<lparr>rt_revoked := R\<rparr>))" using ok revoke_ok by (simp add: sound_for_def)
  moreover have "bucket_ok (good_contact Hd ((revoke_node nid t)\<lparr>rt_revoked := R'\<rparr>)) b"
    if "bucket_ok (good_contact Hd (revoke_node nid (t\<lparr>rt_revoked := R\<rparr>))) b" for b
    using that sub by (auto simp: bucket_ok_def list_all_iff good_contact_def revoke_node_def verify_binding_split [of Hd "insert nid R"] verify_binding_split [of Hd R'])
  ultimately show ?thesis by (auto simp: sound_for_def routing_ok_def list_all_iff revoke_node_def)
qed

definition live_ok :: "(bytes \<Rightarrow> bytes) \<Rightarrow> 'r live_table \<Rightarrow> bool" where
  "live_ok Hd m \<longleftrightarrow> sound_for Hd (rt_revoked (lt_table m) - lt_late m) (lt_table m) \<and>
     rt_evict_in_progress (lt_table m) = (lt_waiting m \<noteq> None) \<and>
     (\<forall>c oldest. lt_waiting m = Some (c, oldest) \<longrightarrow>
        good_contact Hd ((lt_table m)\<lparr>rt_revoked := rt_revoked (lt_table m) - lt_late m\<rparr>) c \<and> good_contact Hd ((lt_table m)\<lparr>rt_revoked := {}\<rparr>) oldest)"

lemma good_contact_cong: "rt_local_id t = rt_local_id t' \<Longrightarrow> good_contact Hd (t\<lparr>rt_revoked := R\<rparr>) = good_contact Hd (t'\<lparr>rt_revoked := R\<rparr>)"
  by (simp add: good_contact_def fun_eq_iff)

lemma live_begin_ok:
  assumes "live_ok Hd m"
  shows "live_ok Hd (live_step Hd rupd (BeginUpdate has_dht c) m)"
proof (cases "rt_begin Hd rupd has_dht UPDATE_FUEL c (lt_table m)")
  case (Some r)
  obtain t w where r: "r = (t, w)" by (cases r)
  let ?R = "rt_revoked (lt_table m) - lt_late m"
  have "sound_for Hd ?R (lt_table m)" using assms by (simp add: live_ok_def)
  from rt_begin_sound [OF this _ Some [unfolded r]]
  have b: "sound_for Hd ?R t" "rt_revoked t = rt_revoked (lt_table m)" "rt_local_id t = rt_local_id (lt_table m)"
    "case w of None \<Rightarrow> rt_evict_in_progress t = rt_evict_in_progress (lt_table m)
     | Some oldest \<Rightarrow> \<not> rt_evict_in_progress (lt_table m) \<and> rt_evict_in_progress t \<and> good_contact Hd (lt_table m) c \<and>
         good_contact Hd ((lt_table m)\<lparr>rt_revoked := ?R\<rparr>) oldest" by auto
  note g = good_contact_cong [OF b(3), of Hd]
  show ?thesis
  proof (cases w)
    case None
    then show ?thesis using assms Some r b g by (auto simp: live_ok_def)
  next
    case (Some oldest)
    have o: "good_contact Hd (t\<lparr>rt_revoked := {}\<rparr>) oldest" using b(3,4) Some by (auto simp: good_contact_def verify_binding_split [of Hd ?R])
    have c: "good_contact Hd (t\<lparr>rt_revoked := ?R\<rparr>) c" using b(4) Some good_contact_part [of Hd "lt_table m" c ?R] g by auto
    show ?thesis using \<open>rt_begin Hd rupd has_dht UPDATE_FUEL c (lt_table m) = Some r\<close> r Some b o c by (simp add: live_ok_def)
  qed
qed (use assms in simp)

lemma live_resume_ok: "live_ok Hd m \<Longrightarrow> live_ok Hd (live_step Hd rupd (PingAnswered alive) m)"
  using rt_resume_sound by (auto simp: live_ok_def split: option.splits)

lemma live_revoke_ok:
  assumes "live_ok Hd m"
  shows "live_ok Hd (live_step Hd rupd (Revoke nid) m)"
proof -
  let ?m = "live_step Hd rupd (Revoke nid) m" and ?t = "lt_table m"
  have rv: "rt_revoked (lt_table ?m) = insert nid (rt_revoked ?t)" "rt_local_id (lt_table ?m) = rt_local_id ?t" "lt_waiting ?m = lt_waiting m"
    "rt_evict_in_progress (lt_table ?m) = rt_evict_in_progress ?t"
    by (simp_all add: revoke_node_def)
  have sub: "rt_revoked (lt_table ?m) - lt_late ?m \<subseteq> insert nid (rt_revoked ?t - lt_late m)"
    by (auto simp: revoke_node_def split: option.splits if_splits)
  have "sound_for Hd (rt_revoked ?t - lt_late m) ?t" using assms by (simp add: live_ok_def)
  from revoke_sound [OF this sub] have "sound_for Hd (rt_revoked (lt_table ?m) - lt_late ?m) (lt_table ?m)" by simp
  moreover have "good_contact Hd ((lt_table ?m)\<lparr>rt_revoked := rt_revoked (lt_table ?m) - lt_late ?m\<rparr>) c \<and> good_contact Hd ((lt_table ?m)\<lparr>rt_revoked := {}\<rparr>) oldest"
    if w: "lt_waiting m = Some (c, oldest)" for c oldest
  proof -
    have "good_contact Hd (?t\<lparr>rt_revoked := rt_revoked ?t - lt_late m\<rparr>) c" "good_contact Hd (?t\<lparr>rt_revoked := {}\<rparr>) oldest"
      using assms w by (simp_all add: live_ok_def)
    moreover have "ct_node_id c \<notin> rt_revoked (lt_table ?m) - lt_late ?m" if "ct_node_id c \<notin> rt_revoked ?t - lt_late m"
      using that w by (auto simp: revoke_node_def)
    ultimately show ?thesis
      using rv(2) by (auto simp: good_contact_def verify_binding_split [of Hd "rt_revoked ?t - lt_late m"] verify_binding_split [of Hd "rt_revoked (lt_table ?m) - lt_late ?m"]
          simp del: live_step.simps)
  qed
  ultimately show ?thesis using assms rv by (simp add: live_ok_def del: live_step.simps)
qed

interpretation live: machine "live_step Hd rupd" "live_ok Hd" for Hd rupd
proof (unfold_locales, goal_cases)
  case (1 m x)
  then show ?case by (cases x) (simp_all only: live_begin_ok live_resume_ok live_revoke_ok)
qed

lemma live_init_ok: "live_ok Hd (live_init local_id rust)"
  by (simp add: live_ok_def live_init_def sound_for_def) (simp add: routing_ok_def routing_init_def)

text \<open>A call that nothing interrupts is its two halves in succession.\<close>

lemma rt_update_uninterrupted:
  "\<not> rt_evict_in_progress t \<Longrightarrow>
   rt_update Hd rupd dht fuel c t =
     (case rt_begin Hd rupd (dht \<noteq> None) fuel c t of
        None \<Rightarrow> None
      | Some (t1, None) \<Rightarrow> Some t1
      | Some (t1, Some oldest) \<Rightarrow> Some (snd (rt_resume (Some (the dht oldest)) c oldest t1)))"
proof (induction fuel arbitrary: t)
  case (Suc fuel)
  show ?case
  proof (cases "\<exists>idx b'. bucket_index (ct_int c) (rt_buckets t) = Some idx \<and> kb_update c (rt_buckets t ! idx) = (False, b')")
    case True
    then obtain idx b' where idx: "bucket_index (ct_int c) (rt_buckets t) = Some idx" and kb: "kb_update c (rt_buckets t ! idx) = (False, b')" by blast
    have "kb_contacts (rt_buckets t ! idx) \<noteq> []" using kb by (auto simp: kb_update_def K_PARAM_def split: if_splits)
    then have key: "ct_key (hd (kb_contacts (rt_buckets t ! idx))) \<in> set (map ct_key (kb_contacts (rt_buckets t ! idx)))" by simp
    have e: "t\<lparr>rt_evict_in_progress := False\<rparr> = t" using Suc.prems by simp
    have res: "snd (rt_resume (Some (ping (hd (kb_contacts (rt_buckets t ! idx))))) c (hd (kb_contacts (rt_buckets t ! idx))) (t\<lparr>rt_evict_in_progress := True\<rparr>)) =
        t\<lparr>rt_buckets := (rt_buckets t)[idx := evict ping c (rt_buckets t ! idx)]\<rparr>" for ping
      using idx key e by (simp add: rt_resume_def evict_def Let_def)
    show ?thesis using Suc idx kb res by (auto split: option.splits sum.splits)
  next
    case False
    then show ?thesis using Suc.prems by (auto split: option.splits sum.splits prod.splits bool.splits)
  qed
qed simp

section \<open>Properties\<close>

text \<open>
  C4. The routing table is sound under every interleaving: after any sequence of updates, each of which may wait for
  a ping while others and revocations go on, and of answers to those pings, its buckets cover the id range exactly and
  hold at most twenty different contacts of their range each; and in Python mode every neighbour it answers has an id
  that is the digest of its key, a silicon id, and is not the node itself, and it is not revoked unless it was revoked
  while its own update waited for a ping.
\<close>

theorem routing_table_sound:
  assumes "m = fold (live_step Hd rupd) ops (live_init local_id rust)" and "t = lt_table m"
  shows "covers 0 (rt_buckets t) (2 ^ 256) \<and>
    (\<forall>b \<in> set (rt_buckets t). length (kb_contacts b) \<le> 20 \<and> distinct (map ct_key (kb_contacts b)) \<and>
       (\<forall>c \<in> set (kb_contacts b). kb_min b \<le> ct_int c \<and> ct_int c \<le> kb_max b)) \<and>
    (rt_rust t = None \<longrightarrow> (\<forall>c \<in> set (find_neighbors rfind score target count t).
       (\<exists>pk. ct_public_key c = Some pk \<and> ct_node_id c = Hd pk) \<and> ct_silicon_id c \<noteq> None \<and>
       ct_node_id c \<noteq> rt_local_id t \<and> (ct_node_id c \<in> rt_revoked t \<longrightarrow> ct_node_id c \<in> lt_late m)))"
proof -
  let ?R = "rt_revoked t - lt_late m"
  have ok: "routing_ok Hd (t\<lparr>rt_revoked := ?R\<rparr>)"
    using live.run_inv [OF live_init_ok, of Hd rupd ops] assms by (simp add: live_ok_def sound_for_def)
  have "(\<exists>pk. ct_public_key c = Some pk \<and> ct_node_id c = Hd pk) \<and> ct_silicon_id c \<noteq> None \<and>
       ct_node_id c \<noteq> rt_local_id t \<and> (ct_node_id c \<in> rt_revoked t \<longrightarrow> ct_node_id c \<in> lt_late m)"
    if "rt_rust t = None" "c \<in> set (find_neighbors rfind score target count t)" for c
  proof -
    have "c \<in> set (bucket_contacts (t\<lparr>rt_revoked := ?R\<rparr>))" using that by (auto simp: find_neighbors_def bucket_contacts_def dest: in_set_takeD)
    from bucket_contact_good [OF ok this] show ?thesis
      by (auto simp: good_contact_def verify_binding_def split: option.splits if_splits)
  qed
  with ok show ?thesis
    by (auto simp: routing_ok_def list_all_iff bucket_ok_def K_PARAM_def in_range_def)
qed

text \<open>
  C31. Updating the table always returns: for 32-byte ids and digests, a call splits buckets at most
  257 times whatever the contact and the table, and leaves a sound table.
\<close>

theorem routing_update_returns:
  assumes "routing_ok Hd t" "length (rt_local_id t) = 32" "\<And>x. length (Hd x) = 32" "258 \<le> fuel"
  shows "\<exists>t'. rt_update Hd rupd dht fuel c t = Some t' \<and> routing_ok Hd t'"
proof -
  obtain n where n: "fuel = Suc n" using assms(4) by (cases fuel) auto
  have "\<exists>t'. rt_update Hd rupd dht fuel c t = Some t'"
  proof (cases "ct_node_id c = rt_local_id t \<or> \<not> verify_binding Hd (rt_revoked t) c")
    case True
    then show ?thesis by (auto simp: n)
  next
    case False
    then have "length (ct_node_id c) = 32"
      using assms(3) by (auto simp: verify_binding_def split: option.splits if_splits)
    then have ne: "ct_int c \<noteq> be_dec (rt_local_id t)"
      using False assms(2) be_enc_be_dec [of "ct_node_id c"] be_enc_be_dec [of "rt_local_id t"] by metis
    have "kb_max (rt_buckets t ! i) - kb_min (rt_buckets t ! i) < 2 ^ 257"
      if "bucket_index (ct_int c) (rt_buckets t) = Some i" for i
    proof -
      have "rt_buckets t ! i \<in> set (rt_buckets t)" using bucket_index_Some [OF that] by simp
      then have "kb_max (rt_buckets t ! i) \<le> 2 ^ 256"
        using assms(1) covers_width unfolding routing_ok_def by blast
      moreover have "(2 :: nat) ^ 256 < 2 ^ 257" by (rule power_strict_increasing) simp_all
      ultimately show ?thesis by linarith
    qed
    then show ?thesis using rt_update_fuel [OF ne assms(1), of 257 fuel] assms(4) by simp
  qed
  then show ?thesis using rt_update_ok [OF assms(1)] by blast
qed

text \<open>
  Revocation does not reach the native table: while the native table answers contacts for a
  target, revoking a node changes none of the neighbours found, the revoked node included.
\<close>

theorem revocation_misses_native_table:
  assumes "rt_rust t = Some r" "rfind r target = Inr raw" "raw \<noteq> []"
  shows "find_neighbors rfind score target count (revoke_node nid t) = find_neighbors rfind score target count t \<and>
    find_neighbors rfind score target count t = take count (map bare_contact raw)"
  using assms by (simp add: find_neighbors_def revoke_node_def)

section \<open>Witnesses\<close>

definition demo_contact :: contact where
  "demo_contact = \<lparr>ct_node_id = [7], ct_address = ''10.0.0.7'', ct_port = 9000, ct_public_key = Some [7],
     ct_silicon_id = Some ''si'', ct_capabilities = None\<rparr>"

text \<open>
  The exception occurs: a node that is revoked while its update waits for the ping of the oldest contact of its full
  bucket is entered afterwards.
\<close>

lemma revoked_during_ping_is_entered:
  assumes "rt_rust t = None" "\<not> rt_evict_in_progress t" "good_contact Hd t c" "bucket_index (ct_int c) (rt_buckets t) = Some idx"
    and "length (kb_contacts (rt_buckets t ! idx)) = K_PARAM" "ct_key c \<notin> set (map ct_key (kb_contacts (rt_buckets t ! idx)))"
    and "\<not> in_range (be_dec (rt_local_id t)) (rt_buckets t ! idx)" "ct_node_id (hd (kb_contacts (rt_buckets t ! idx))) \<noteq> ct_node_id c"
    and "m = fold (live_step Hd rupd) [BeginUpdate True c, Revoke (ct_node_id c), PingAnswered (Some False)] \<lparr>lt_table = t, lt_waiting = None, lt_late = {}\<rparr>"
  shows "ct_node_id c \<in> rt_revoked (lt_table m) \<and> c \<in> set (bucket_contacts (lt_table m))"
proof -
  let ?b = "rt_buckets t ! idx" let ?o = "hd (kb_contacts ?b)" and ?f = "\<lambda>b. b\<lparr>kb_contacts := filter (\<lambda>x. ct_node_id x \<noteq> ct_node_id c) (kb_contacts b)\<rparr>"
  note bi = bucket_index_Some [OF assms(4)]
  obtain n where fuel: "UPDATE_FUEL = Suc n" by (cases UPDATE_FUEL) (auto simp: UPDATE_FUEL_def)
  have "rt_begin Hd rupd True UPDATE_FUEL c t = Some (t\<lparr>rt_evict_in_progress := True\<rparr>, Some ?o)"
    unfolding fuel using assms(1-7) by (simp add: good_contact_def kb_update_def)
  then have m: "lt_table m = snd (rt_resume (Some False) c ?o (revoke_node (ct_node_id c) (t\<lparr>rt_evict_in_progress := True\<rparr>)))" using assms(9) by simp
  have idx: "bucket_index n (map ?f bs) = bucket_index n bs" for n bs by (induction bs) auto
  have "?o \<in> set (kb_contacts ?b)" using assms(5) by (intro hd_in_set) (auto simp: K_PARAM_def)
  then have key: "ct_key ?o \<in> ct_key ` set (kb_contacts (?f ?b))" using assms(8) by simp
  let ?rest = "remove_contact ?o (kb_contacts (?f ?b))"
  have "length (kb_contacts (?f ?b)) \<le> K_PARAM" using assms(5) length_filter_le [of _ "kb_contacts ?b"] by (simp add: le_trans)
  moreover have "kb_contacts (?f ?b) \<noteq> []" using key by (metis empty_iff image_empty list.set(1))
  ultimately have "length (kb_contacts (?f ?b)) - 1 < K_PARAM" by (cases "kb_contacts (?f ?b)") auto
  moreover have "length ?rest = length (kb_contacts (?f ?b)) - 1" using key by (intro length_remove_contact) simp
  ultimately have "length ?rest < K_PARAM" by simp
  moreover have "ct_key c \<notin> set (map ct_key ?rest)" using assms(6) set_remove_contact [of ?o "kb_contacts (?f ?b)"] by auto
  ultimately have "c \<in> set (kb_contacts (snd (kb_update c ((?f ?b)\<lparr>kb_contacts := ?rest\<rparr>))))" by (simp add: kb_update_def)
  moreover have "lt_table m = (revoke_node (ct_node_id c) t)\<lparr>rt_buckets := (map ?f (rt_buckets t))[idx := snd (kb_update c ((?f ?b)\<lparr>kb_contacts := ?rest\<rparr>))], rt_evict_in_progress := False\<rparr>"
    unfolding m using key assms(4) bi idx by (simp add: rt_resume_def revoke_node_def Let_def)
  ultimately show ?thesis using bi by (auto simp: bucket_contacts_def get_contacts_def revoke_node_def set_update_memI)
qed

theorem routing_table_sound_witness:
  "\<exists>c pk. c \<in> set (find_neighbors (\<lambda>r t. Inr []) (\<lambda>c. 0) [] 20 (lt_table (fold (live_step (\<lambda>x. x) (\<lambda>a b c r. Inr r))
       [BeginUpdate True demo_contact, Revoke [9]] (live_init [1] (None :: unit option))))) \<and> ct_public_key c = Some pk \<and> ct_node_id c = pk"
proof -
  let ?m = "fold (live_step (\<lambda>x. x) (\<lambda>a b c r. Inr r)) [BeginUpdate True demo_contact, Revoke [9]] (live_init [1] (None :: unit option))"
  obtain n where fuel: "UPDATE_FUEL = Suc n" by (cases UPDATE_FUEL) (auto simp: UPDATE_FUEL_def)
  have "be_dec [7 :: byte] \<le> 2 ^ 256" using be_dec_less [of "[7 :: byte]"] by (simp add: order.trans [OF less_imp_le])
  then have b: "rt_buckets (lt_table ?m) = [(kbucket_init 0 (2 ^ 256))\<lparr>kb_contacts := [demo_contact]\<rparr>]" and r: "rt_rust (lt_table ?m) = None"
    by (simp_all add: live_init_def fuel routing_init_def kbucket_init_def demo_contact_def verify_binding_def in_range_def kb_update_def K_PARAM_def revoke_node_def)
  have n: "demo_contact \<in> set (find_neighbors (\<lambda>r t. Inr []) (\<lambda>c. 0) [] 20 (lt_table ?m))"
    unfolding find_neighbors_def bucket_contacts_def get_contacts_def b r Let_def by simp
  from routing_table_sound [OF refl refl, of "\<lambda>x. x" "\<lambda>a b c r. Inr r" "[BeginUpdate True demo_contact, Revoke [9]]" "[1]" "None :: unit option"
      "\<lambda>r t. Inr []" "\<lambda>c. 0" "[]" 20] n r show ?thesis by blast
qed

theorem routing_update_returns_witness:
  "\<exists>t'. rt_update (fit 32) (\<lambda>a b c r. Inr r) None 258 demo_contact (routing_init (replicate 32 1) (None :: unit option)) = Some t'"
proof -
  have "length (rt_local_id (routing_init (replicate 32 1) (None :: unit option))) = 32" by (simp add: routing_init_def)
  from routing_update_returns [OF routing_init_ok this, of "fit 32" 258 "\<lambda>a b c r. Inr r" None demo_contact] show ?thesis
    by auto
qed

theorem revocation_misses_native_table_witness:
  "find_neighbors (\<lambda>r t. Inr [([7], ''10.0.0.7'', 9000)]) (\<lambda>c. 0) [] 20 (revoke_node [7] (routing_init [1] (Some ()))) =
     [bare_contact ([7], ''10.0.0.7'', 9000)]"
  using revocation_misses_native_table [of "routing_init [1] (Some ())" "()" "\<lambda>r t. Inr [([7], ''10.0.0.7'', 9000)]" "[]"
      "[([7], ''10.0.0.7'', 9000)]" "\<lambda>c. 0" 20 "[7]"]
  by (simp add: routing_init_def)

end
