(* ===== verification/Dht.thy ===== *)
theory Dht
  imports Routing Zanzibar
begin

text \<open>
  The distributed hash table and its packet handler, \<^verbatim>\<open>kernel/mesh/dht.py\<close>: local storage, the
  iterative lookup, and what a received datagram does. A datagram is given as its decoded message,
  a dictionary of the string fields (a field that is null or absent is not in it); one that does not
  decode is dropped by the same exception handler. Replies are values of \<open>reply\<close>. The permission
  store is the engine of \<^verbatim>\<open>kernel/zanzibar.py\<close>, the proof check of the native module is the argument
  \<open>zk\<close>, and \<open>ask\<close> is what a contact answers to FIND_NODE: None when the call times out, raises or is no
  NODES message. The routing update that a datagram causes is run before its handler. The handlers
  of the anti-entropy requests are in the theory of that protocol; the messages that are handed to
  other agents are the value \<open>Forwarded\<close>.
\<close>

section \<open>The node\<close>

datatype stored = Plain string | Committed string string

record 'r dht =
  dh_node_id :: bytes
  dh_public_key :: "bytes option"
  dh_silicon_id :: "string option"
  dh_routing :: "'r routing_table"
  dh_storage :: "(string, stored) dict"
  dh_requests :: "string list"

definition hex_of :: "bytes \<Rightarrow> string" where
  "hex_of bs = map char_of (to_hex bs)"

definition unhex :: "string \<Rightarrow> bytes result" where
  "unhex s = from_hex (map of_char s)"

definition dht_init :: "bytes \<Rightarrow> bytes option \<Rightarrow> string option \<Rightarrow> 'r option \<Rightarrow> 'r dht" where
  "dht_init node_id public_key silicon rust =
     \<lparr>dh_node_id = node_id, dh_public_key = public_key, dh_silicon_id = silicon,
      dh_routing = routing_init node_id rust, dh_storage = [], dh_requests = []\<rparr>"

definition dht_store :: "bytes \<Rightarrow> string \<Rightarrow> 'r dht \<Rightarrow> 'r dht" where
  "dht_store key value d = d\<lparr>dh_storage := dset (hex_of key) (Plain value) (dh_storage d)\<rparr>"

definition dht_get :: "bytes \<Rightarrow> 'r dht \<Rightarrow> stored option" where
  "dht_get key d = dget (dh_storage d) (hex_of key)"

section \<open>Iterative lookup\<close>

text \<open>
  The nodes a reply lists become contacts with an id, an address and a port only; an id that is no
  hex text is skipped.
\<close>

fun learn_nodes ::
  "(contact \<Rightarrow> 'r routing_table \<Rightarrow> 'r routing_table) \<Rightarrow> (string \<times> string \<times> nat) list \<Rightarrow> 'r routing_table \<Rightarrow> 'r routing_table" where
  "learn_nodes upd [] t = t"
| "learn_nodes upd ((nid, addr, port) # ns) t =
     learn_nodes upd ns (case unhex nid of Inl _ \<Rightarrow> t | Inr b \<Rightarrow> upd (bare_contact (b, addr, port)) t)"

definition learn_all ::
  "(contact \<Rightarrow> 'r routing_table \<Rightarrow> 'r routing_table) \<Rightarrow> (contact \<Rightarrow> (string \<times> string \<times> nat) list option) \<Rightarrow>
   contact list \<Rightarrow> 'r routing_table \<Rightarrow> 'r routing_table" where
  "learn_all upd ask cs t =
     fold (\<lambda>c t. case ask c of None \<Rightarrow> t | Some ns \<Rightarrow> learn_nodes upd ns t) cs t"

fun lookup_rounds ::
  "(contact \<Rightarrow> 'r routing_table \<Rightarrow> 'r routing_table) \<Rightarrow> (bytes \<Rightarrow> nat \<Rightarrow> 'r routing_table \<Rightarrow> contact list) \<Rightarrow>
   (contact \<Rightarrow> (string \<times> string \<times> nat) list option) \<Rightarrow> bytes \<Rightarrow> nat \<Rightarrow>
   contact list \<Rightarrow> (bytes \<times> string \<times> nat) set \<Rightarrow> 'r routing_table \<Rightarrow> (contact list \<times> 'r routing_table) option" where
  "lookup_rounds upd nbrs ask target 0 shortlist asked t = None"
| "lookup_rounds upd nbrs ask target (Suc fuel) shortlist asked t =
     (let to_ask = take ALPHA (filter (\<lambda>c. ct_key c \<notin> asked) shortlist)
      in if to_ask = [] then Some (take K_PARAM shortlist, t)
         else
           (let t1 = learn_all upd ask to_ask t;
                new_shortlist = sort_key (\<lambda>c. xor_distance c target) (nbrs target K_PARAM t1)
            in if new_shortlist = [] \<or>
                  (shortlist \<noteq> [] \<and> xor_distance (hd new_shortlist) target \<ge> xor_distance (hd shortlist) target)
               then Some (take K_PARAM shortlist, t1)
               else lookup_rounds upd nbrs ask target fuel new_shortlist (asked \<union> set (map ct_key to_ask)) t1))"

definition iterative_find_node ::
  "(contact \<Rightarrow> 'r routing_table \<Rightarrow> 'r routing_table) \<Rightarrow> (bytes \<Rightarrow> nat \<Rightarrow> 'r routing_table \<Rightarrow> contact list) \<Rightarrow>
   (contact \<Rightarrow> (string \<times> string \<times> nat) list option) \<Rightarrow> nat \<Rightarrow> bytes \<Rightarrow> 'r routing_table \<Rightarrow>
   (contact list \<times> 'r routing_table) option" where
  "iterative_find_node upd nbrs ask fuel target t =
     (let shortlist = nbrs target K_PARAM t
      in if shortlist = [] then Some ([], t) else lookup_rounds upd nbrs ask target fuel shortlist {} t)"

section \<open>Handlers\<close>

type_synonym dht_msg = "(string, string) dict"

datatype reply =
    Pong "string option"
  | Nodes "string option" "(string \<times> string \<times> nat) list"
  | StoreDenied "string option" string
  | Forwarded string dht_msg

definition mget :: "dht_msg \<Rightarrow> string \<Rightarrow> string" where
  "mget m k = (case dget m k of Some v \<Rightarrow> v | None \<Rightarrow> [])"

definition handle_ping :: "dht_msg \<Rightarrow> reply list" where
  "handle_ping m = [Pong (dget m ''msg_id'')]"

definition handle_find_node ::
  "(bytes \<Rightarrow> nat \<Rightarrow> 'r routing_table \<Rightarrow> contact list) \<Rightarrow> dht_msg \<Rightarrow> 'r dht \<Rightarrow> reply list result" where
  "handle_find_node nbrs m d =
     (if mget m ''target_id'' = [] then Inr []
      else bindE (unhex (mget m ''target_id'')) (\<lambda>target.
        Inr [Nodes (dget m ''msg_id'')
               (map (\<lambda>c. (hex_of (ct_node_id c), ct_address c, ct_port c)) (nbrs target K_PARAM (dh_routing d)))]))"

definition handle_store_value ::
  "(string \<Rightarrow> string \<Rightarrow> bool) \<Rightarrow> zanzibar_engine \<Rightarrow> dht_msg \<Rightarrow> 'r dht \<Rightarrow> reply list \<times> 'r dht" where
  "handle_store_value zk z m d =
     (if mget m ''key'' = [] \<or> dget m ''value'' = None \<or> mget m ''zk_proof'' = [] \<or> mget m ''commitment'' = []
      then ([], d)
      else
        (case check_permission z ''dht'' (mget m ''key'') ''write'' (mget m ''sender_id'') of
           Inl _ \<Rightarrow> ([StoreDenied (dget m ''msg_id'') ''ACL_ERROR''], d)
         | Inr allowed \<Rightarrow>
             if \<not> allowed then ([StoreDenied (dget m ''msg_id'') ''ACL_DENIED''], d)
             else if \<not> zk (mget m ''zk_proof'') (mget m ''commitment'') then ([], d)
             else ([], d\<lparr>dh_storage := dset (mget m ''key'') (Committed (mget m ''value'') (mget m ''commitment'')) (dh_storage d)\<rparr>)))"

definition handle_revoke_node :: "dht_msg \<Rightarrow> 'r dht \<Rightarrow> 'r dht result" where
  "handle_revoke_node m d =
     (if mget m ''revoke_id'' = [] then Inr d
      else bindE (unhex (mget m ''revoke_id'')) (\<lambda>nid. Inr (d\<lparr>dh_routing := revoke_node nid (dh_routing d)\<rparr>)))"

text \<open>The tuple rebuilt from a message has no subject relation, whatever the message carries.\<close>

definition message_tuple :: "dht_msg \<Rightarrow> relation_tuple option" where
  "message_tuple m =
     (case (dget m ''namespace'', dget m ''object_id'', dget m ''relation'', dget m ''subject_namespace'', dget m ''subject_id'') of
        (Some ns, Some obj, Some rel, Some sns, Some sid) \<Rightarrow>
          Some \<lparr>rt_namespace = ns, rt_object_id = obj, rt_relation = rel, rt_subject_namespace = sns,
                rt_subject_id = sid, rt_subject_relation = None,
                rt_authority = dget m ''authority'', rt_signature = dget m ''signature''\<rparr>
      | _ \<Rightarrow> None)"

definition handle_zanzibar_tuple :: "dht_msg \<Rightarrow> zanzibar_engine \<Rightarrow> zanzibar_engine" where
  "handle_zanzibar_tuple m z =
     (case message_tuple m of
        None \<Rightarrow> z
      | Some t \<Rightarrow> (case write_tuple z t False False of Inl _ \<Rightarrow> z | Inr (_, z', _) \<Rightarrow> z'))"

text \<open>What \<open>_replicate_to_mesh\<close> broadcasts: the fields of the tuple that are not null, and the type.\<close>

definition replicate_message :: "relation_tuple \<Rightarrow> dht_msg" where
  "replicate_message t =
     (let opt = (\<lambda>k v. case v of Some x \<Rightarrow> [(k, x)] | None \<Rightarrow> [])
      in [(''namespace'', rt_namespace t), (''object_id'', rt_object_id t), (''relation'', rt_relation t),
          (''subject_namespace'', rt_subject_namespace t), (''subject_id'', rt_subject_id t)] @
         opt ''subject_relation'' (rt_subject_relation t) @ opt ''authority'' (rt_authority t) @
         opt ''signature'' (rt_signature t) @ [(''type'', ''ZANZIBAR_TUPLE'')])"

text \<open>Dispatch: what the handler answers, the node and the permission store after it; it may raise.\<close>

definition dispatch_message ::
  "(string \<Rightarrow> string \<Rightarrow> bool) \<Rightarrow> (bytes \<Rightarrow> nat \<Rightarrow> 'r routing_table \<Rightarrow> contact list) \<Rightarrow>
   string option \<Rightarrow> dht_msg \<Rightarrow> 'r dht \<times> zanzibar_engine \<Rightarrow> (reply list \<times> 'r dht \<times> zanzibar_engine) result" where
  "dispatch_message zk nbrs msg_type m dz =
     (let (d, z) = dz
      in case msg_type of
           None \<Rightarrow> Inr ([], d, z)
         | Some ty \<Rightarrow>
             if ty = ''PING'' then Inr (handle_ping m, d, z)
             else if ty = ''FIND_NODE'' then bindE (handle_find_node nbrs m d) (\<lambda>r. Inr (r, d, z))
             else if ty = ''STORE_VALUE'' then (let (r, d') = handle_store_value zk z m d in Inr (r, d', z))
             else if ty = ''REVOKE_NODE'' then bindE (handle_revoke_node m d) (\<lambda>d'. Inr ([], d', z))
             else if ty = ''ZANZIBAR_TUPLE'' then Inr ([], d, handle_zanzibar_tuple m z)
             else if ty \<in> {''INSIGHT_ANNOUNCE'', ''POLICY_UPDATE''} then Inr ([], d, z)
             else if ty \<in> {''MANIFEST_ANNOUNCE'', ''MERKLE_ROOT_REQUEST'', ''SUBTREE_HASHES_REQUEST'',
                  ''SUBTREE_RECORDS_REQUEST'', ''MUTATION_PROPOSAL'', ''MUTATION_VOTE'', ''SWARM_HEARTBEAT'',
                  ''SERVICE_REGISTRATION_PROPOSAL'', ''SERVICE_REGISTRATION_VOTE''}
               then Inr ([Forwarded ty m], d, z)
             else Inr ([], d, z))"

text \<open>
  \<open>datagram_received\<close>: the sender's contact, the routing update, the handler, and whether a pending
  request is answered (\<open>msg_id\<close>, or \<open>request_id\<close> when that is empty). Whatever raises ends it silently,
  keeping what was done before.
\<close>

definition sender_contact :: "dht_msg \<Rightarrow> string \<times> nat \<Rightarrow> contact result" where
  "sender_contact m addr =
     bindE (unhex (mget m ''sender_id'')) (\<lambda>nid.
     bindE (if mget m ''sender_pk'' = [] then Inr None else bindE (unhex (mget m ''sender_pk'')) (\<lambda>k. Inr (Some k))) (\<lambda>pk.
       Inr \<lparr>ct_node_id = nid, ct_address = fst addr, ct_port = snd addr, ct_public_key = pk,
            ct_silicon_id = dget m ''silicon_id'', ct_capabilities = None\<rparr>))"

definition answered_request :: "dht_msg \<Rightarrow> 'r dht \<Rightarrow> string option" where
  "answered_request m d =
     (let rid = (if mget m ''msg_id'' \<noteq> [] then mget m ''msg_id'' else mget m ''request_id'')
      in if rid \<noteq> [] \<and> rid \<in> set (dh_requests d) then Some rid else None)"

definition datagram_received ::
  "(contact \<Rightarrow> 'r routing_table \<Rightarrow> 'r routing_table) \<Rightarrow> (string \<Rightarrow> string \<Rightarrow> bool) \<Rightarrow>
   (bytes \<Rightarrow> nat \<Rightarrow> 'r routing_table \<Rightarrow> contact list) \<Rightarrow> dht_msg \<Rightarrow> string \<times> nat \<Rightarrow>
   'r dht \<times> zanzibar_engine \<Rightarrow> reply list \<times> string option \<times> 'r dht \<times> zanzibar_engine" where
  "datagram_received upd zk nbrs m addr dz =
     (let (d, z) = dz
      in case sender_contact m addr of
           Inl _ \<Rightarrow> ([], None, d, z)
         | Inr c \<Rightarrow>
             (let d1 = d\<lparr>dh_routing := upd c (dh_routing d)\<rparr>
              in case dispatch_message zk nbrs (dget m ''type'') m (d1, z) of
                   Inl _ \<Rightarrow> ([], None, d1, z)
                 | Inr (rs, d2, z2) \<Rightarrow> (rs, answered_request m d2, d2, z2)))"

section \<open>Lookups\<close>

definition routing_update ::
  "(bytes \<Rightarrow> bytes) \<Rightarrow> (bytes \<Rightarrow> string \<Rightarrow> nat \<Rightarrow> 'r \<Rightarrow> 'r result) \<Rightarrow> (contact \<Rightarrow> bool) option \<Rightarrow>
   contact \<Rightarrow> 'r routing_table \<Rightarrow> 'r routing_table" where
  "routing_update Hd rupd dht c t = rt_step Hd rupd (UpdateContact dht c) t"

lemma bare_contact_rejected: "routing_update Hd rupd dht (bare_contact x) t = t"
proof -
  have "rt_update Hd rupd dht (Suc n) (bare_contact x) t = Some t" for n
    by (cases x) (simp add: bare_contact_def verify_binding_def)
  from this [of 257] show ?thesis
    by (simp add: routing_update_def UPDATE_FUEL_def del: rt_update.simps)
qed

lemma learn_nodes_nothing: "learn_nodes (routing_update Hd rupd dht) ns t = t"
  by (induction ns) (auto simp: bare_contact_rejected split: sum.splits)

lemma learn_all_nothing: "learn_all (routing_update Hd rupd dht) ask cs t = t"
  by (induction cs) (auto simp: learn_all_def learn_nodes_nothing split: option.splits)

lemma length_find_neighbors: "length (find_neighbors rfind score target count t) \<le> count"
  by (auto simp: find_neighbors_def Let_def split: option.splits sum.splits)

text \<open>A shortlist sorted by distance ends the search at the next round.\<close>

lemma lookup_sorted_ends:
  assumes "xs = sort_key (\<lambda>c. xor_distance c target) (nbrs target K_PARAM t)" "length xs \<le> K_PARAM"
    and "\<And>cs. learn_all upd ask cs t = t"
  shows "lookup_rounds upd nbrs ask target (Suc fuel) xs asked t = Some (xs, t)"
  using assms by (auto simp: Let_def)

lemma lookup_learns_nothing:
  assumes "2 \<le> fuel"
  shows "\<exists>res. iterative_find_node (routing_update Hd rupd dht) (find_neighbors rfind score) ask fuel target t = Some (res, t) \<and>
    set res = set (find_neighbors rfind score target K_PARAM t)"
proof -
  let ?n = "find_neighbors rfind score target K_PARAM t"
  let ?s = "sort_key (\<lambda>c. xor_distance c target) ?n"
  let ?upd = "routing_update Hd rupd dht"
  obtain f where f: "fuel = Suc (Suc f)" using assms by (cases fuel; cases "fuel - 1") auto
  have len: "length ?n \<le> K_PARAM" by (rule length_find_neighbors)
  have snd_round: "lookup_rounds ?upd (find_neighbors rfind score) ask target (Suc f) ?s asked t = Some (?s, t)" for asked
    using len by (intro lookup_sorted_ends) (simp_all add: learn_all_nothing)
  show ?thesis
  proof (cases "?n = []")
    case True
    then show ?thesis by (simp add: iterative_find_node_def)
  next
    case False
    have "lookup_rounds ?upd (find_neighbors rfind score) ask target fuel ?n {} t \<in> {Some (?n, t), Some (?s, t)}"
      using len snd_round unfolding f
      by (simp add: Let_def learn_all_nothing del: lookup_rounds.simps(2)) (simp add: Let_def learn_all_nothing)
    then show ?thesis using False by (auto simp: iterative_find_node_def)
  qed
qed

section \<open>Properties\<close>

text \<open>
  C6. The storage of a node is gated: a datagram changes it only as a STORE_VALUE message whose
  claimed sender has the write permission on the key and whose proof the verifier accepts; then
  exactly the named key is set, to the value and its commitment.
\<close>

theorem storage_is_gated:
  assumes "datagram_received upd zk nbrs m addr (d, z) = (rs, req, d', z')" "dh_storage d' \<noteq> dh_storage d"
  shows "dget m ''type'' = Some ''STORE_VALUE'' \<and>
    check_permission z ''dht'' (mget m ''key'') ''write'' (mget m ''sender_id'') = Inr True \<and>
    zk (mget m ''zk_proof'') (mget m ''commitment'') \<and>
    dh_storage d' = dset (mget m ''key'') (Committed (mget m ''value'') (mget m ''commitment'')) (dh_storage d)"
proof -
  obtain c where c: "sender_contact m addr = Inr c"
    using assms by (cases "sender_contact m addr") (auto simp: datagram_received_def)
  define d1 where "d1 = d\<lparr>dh_routing := upd c (dh_routing d)\<rparr>"
  have st: "dh_storage d1 = dh_storage d" by (simp add: d1_def)
  obtain rs2 z2 where disp: "dispatch_message zk nbrs (dget m ''type'') m (d1, z) = Inr (rs2, d', z2)"
    using assms c st
    by (cases "dispatch_message zk nbrs (dget m ''type'') m (d1, z)")
       (auto simp: datagram_received_def Let_def d1_def [symmetric])
  have ty: "dget m ''type'' = Some ''STORE_VALUE''"
  proof (rule ccontr)
    assume "\<not> ?thesis"
    with disp have "dh_storage d' = dh_storage d1"
      by (auto simp: dispatch_message_def Let_def handle_revoke_node_def bindE_Inr_iff split: option.splits if_splits)
    with st assms(2) show False by simp
  qed
  then have "handle_store_value zk z m d1 = (rs2, d')"
    using disp by (auto simp: dispatch_message_def Let_def split: prod.splits)
  then show ?thesis
    using ty assms(2) st
    by (auto simp: handle_store_value_def split: if_splits sum.splits)
qed

text \<open>
  A lookup learns no node: whatever the contacts asked answer, and in either routing mode, the
  iterative search ends within two rounds, leaves the routing table as it was, and answers the
  neighbours the node already knew, because the contacts made from an answer carry no key and are
  refused by the binding check.
\<close>

theorem iterative_lookup_learns_nothing:
  assumes "2 \<le> fuel"
  shows "\<exists>res. iterative_find_node (routing_update Hd rupd dht) (find_neighbors rfind score) ask fuel target t = Some (res, t) \<and>
    set res = set (find_neighbors rfind score target K_PARAM t)"
  using assms by (rule lookup_learns_nothing)

text \<open>
  Replication loses the subject relation: a verified tuple broadcast by one node is stored by
  every receiver without its subject relation, so a grant to the members of a group becomes a grant
  through the relation asked for itself.
\<close>

theorem replicated_tuple_loses_subject_relation:
  assumes "verify_signature t" "z_open z"
    and "datagram_received upd zk nbrs (replicate_message t) addr (d, z) = (rs, req, d', z')"
  shows "z_rows z' = insert_or_replace (t\<lparr>rt_subject_relation := None\<rparr>) (z_rows z) \<and>
    next_relation rel (t\<lparr>rt_subject_relation := None\<rparr>) = rel"
proof -
  have f: "dget (replicate_message t) ''sender_id'' = None" "dget (replicate_message t) ''sender_pk'' = None"
    "dget (replicate_message t) ''type'' = Some ''ZANZIBAR_TUPLE''"
    by (auto simp: replicate_message_def Let_def dget_Cons split: option.splits)
  have mt: "message_tuple (replicate_message t) = Some (t\<lparr>rt_subject_relation := None\<rparr>)"
    by (auto simp: message_tuple_def replicate_message_def Let_def dget_Cons split: option.splits)
  have sc: "\<exists>c. sender_contact (replicate_message t) addr = Inr c"
    by (simp add: sender_contact_def mget_def f unhex_def)
  have "verify_signature (t\<lparr>rt_subject_relation := None\<rparr>)"
    using assms(1) by (auto simp: verify_signature_def split: if_splits)
  then have h: "handle_zanzibar_tuple (replicate_message t) z =
      z\<lparr>z_rows := insert_or_replace (t\<lparr>rt_subject_relation := None\<rparr>) (z_rows z)\<rparr>"
    using assms(2) by (simp add: handle_zanzibar_tuple_def mt write_tuple_def get_conn_def)
  show ?thesis
    using assms(3) sc f(3) by (auto simp: datagram_received_def dispatch_message_def Let_def next_relation_def h)
qed

section \<open>Witnesses\<close>

definition demo_store_msg :: dht_msg where
  "demo_store_msg = [(''type'', ''STORE_VALUE''), (''sender_id'', ''ab''), (''key'', ''k''), (''value'', ''v''),
     (''zk_proof'', ''p''), (''commitment'', ''c'')]"

definition demo_grant :: "string \<Rightarrow> string \<Rightarrow> string option \<Rightarrow> relation_tuple" where
  "demo_grant ns i r = \<lparr>rt_namespace = ''dht'', rt_object_id = ''k'', rt_relation = ''write'',
     rt_subject_namespace = ns, rt_subject_id = i, rt_subject_relation = r,
     rt_authority = Some ''did:warm:root:1'', rt_signature = Some ''ROOT_AUTHORITY_SIG''\<rparr>"

definition demo_zanzibar :: zanzibar_engine where
  "demo_zanzibar = \<lparr>z_rows = [demo_grant ''user'' ''ab'' None], z_open = True\<rparr>"

definition demo_dht :: "unit dht" where
  "demo_dht = dht_init [1] None None None"

lemma demo_store_check: "check_permission demo_zanzibar ''dht'' ''k'' ''write'' ''ab'' = Inr True"
  by code_simp

lemma demo_received:
  "\<exists>rs req d' z'. datagram_received (\<lambda>c t. t) (\<lambda>p c. True) (\<lambda>x n t. []) demo_store_msg (''10.0.0.2'', 9) (demo_dht, demo_zanzibar) =
     (rs, req, d', z') \<and> dh_storage d' = [(''k'', Committed ''v'' ''c'')]"
proof -
  have "sender_contact demo_store_msg (''10.0.0.2'', 9) \<noteq> Inl e" for e
    by (simp add: sender_contact_def demo_store_msg_def mget_def dget_Cons unhex_def hex_val_def ascii_space_def)
  then obtain c where c: "sender_contact demo_store_msg (''10.0.0.2'', 9) = Inr c"
    by (cases "sender_contact demo_store_msg (''10.0.0.2'', 9)") auto
  have "mget demo_store_msg ''key'' = ''k''" "mget demo_store_msg ''sender_id'' = ''ab''" "dget demo_store_msg ''value'' \<noteq> None"
    "mget demo_store_msg ''value'' = ''v''" "mget demo_store_msg ''zk_proof'' = ''p''" "mget demo_store_msg ''commitment'' = ''c''"
    "dget demo_store_msg ''type'' = Some ''STORE_VALUE''"
    by (simp_all add: demo_store_msg_def mget_def dget_Cons)
  then show ?thesis
    using demo_store_check c
    by (simp add: datagram_received_def dispatch_message_def handle_store_value_def Let_def demo_dht_def dht_init_def)
qed

theorem storage_is_gated_witness:
  "\<exists>d'. dh_storage d' = [(''k'', Committed ''v'' ''c'')] \<and>
     check_permission demo_zanzibar ''dht'' (mget demo_store_msg ''key'') ''write'' (mget demo_store_msg ''sender_id'') = Inr True \<and>
     (\<exists>rs req z'. datagram_received (\<lambda>c t. t) (\<lambda>p c. True) (\<lambda>x n t. []) demo_store_msg (''10.0.0.2'', 9) (demo_dht, demo_zanzibar) =
       (rs, req, d', z'))"
proof -
  obtain rs req d' z' where r: "datagram_received (\<lambda>c t. t) (\<lambda>p c. True) (\<lambda>x n t. []) demo_store_msg (''10.0.0.2'', 9)
      (demo_dht, demo_zanzibar) = (rs, req, d', z')" and s: "dh_storage d' = [(''k'', Committed ''v'' ''c'')]"
    using demo_received by blast
  have "dh_storage d' \<noteq> dh_storage demo_dht" by (simp add: s demo_dht_def dht_init_def)
  from storage_is_gated [OF r this] r s show ?thesis by blast
qed

theorem iterative_lookup_learns_nothing_witness:
  "\<exists>res. iterative_find_node (routing_update (\<lambda>x. x) (\<lambda>a b c r. Inr r) None) (find_neighbors (\<lambda>r t. Inr []) (\<lambda>c. 0))
      (\<lambda>c. Some [(''ff'', ''10.0.0.9'', 9)]) 2 [9] (routing_init [1] (None :: unit option)) =
     Some (res, routing_init [1] (None :: unit option))"
  using iterative_lookup_learns_nothing [of 2 "\<lambda>x. x" "\<lambda>a b c r. Inr r" None "\<lambda>r t. Inr []" "\<lambda>c. 0"
      "\<lambda>c. Some [(''ff'', ''10.0.0.9'', 9)]" "[9]" "routing_init [1] (None :: unit option)"] by auto

theorem replicated_tuple_loses_subject_relation_witness:
  "\<exists>rs req d' z'. datagram_received (\<lambda>c t. t) (\<lambda>p c. True) (\<lambda>x n t. []) (replicate_message (demo_grant ''group'' ''g'' (Some ''member'')))
       (''10.0.0.2'', 9) (demo_dht, zanzibar_init) = (rs, req, d', z') \<and>
     z_rows z' = [demo_grant ''group'' ''g'' None]"
proof -
  let ?t = "demo_grant ''group'' ''g'' (Some ''member'')"
  obtain rs req d' z' where r: "datagram_received (\<lambda>c t. t) (\<lambda>p c. True) (\<lambda>x n t. []) (replicate_message ?t)
      (''10.0.0.2'', 9) (demo_dht, zanzibar_init) = (rs, req, d', z')"
    by (metis prod.collapse)
  have v: "verify_signature ?t" by code_simp
  have zo: "z_open zanzibar_init" by (simp add: zanzibar_init_def)
  from replicated_tuple_loses_subject_relation [OF v zo r] r show ?thesis
    by (auto simp: zanzibar_init_def insert_or_replace_def demo_grant_def)
qed

end
