(* ===== verification/Float_Arith.thy ===== *)
theory Float_Arith
  imports Floats "HOL-Library.Log_Nat"
begin

text \<open>
  Arithmetic of Python floats: IEEE 754 binary64, rounding to nearest with ties to even, over the
  values of \<open>Floats\<close>. \<open>fl_round\<close> rounds a rational to 53 significant bits (fewer below the smallest
  normal number) and \<open>fl_of_rat\<close> adds the overflow to infinity. The sign of a zero is not modelled.
  The lemmas are what clients of the arithmetic use: rounding is monotone, exact on integers of at most
  53 bits, and has a relative error of at most two to the minus 53 on normal numbers.
\<close>

section \<open>Rounding\<close>

definition flog2 :: "rat \<Rightarrow> int" where
  "flog2 x = (let (p, q) = quotient_of x; e = bitlen p - bitlen q in if 2 powi e \<le> x then e else e - 1)"

definition round_even :: "rat \<Rightarrow> int" where
  "round_even y =
     (let f = \<lfloor>y\<rfloor>; d = y - of_int f
      in if d < 1 / 2 then f else if 1 / 2 < d then f + 1 else if even f then f else f + 1)"

definition scale_of :: "rat \<Rightarrow> int" where
  "scale_of x = 52 - max (flog2 x) (- 1022)"

definition round_pos :: "rat \<Rightarrow> rat" where
  "round_pos x = (if x \<le> 0 then 0 else of_int (round_even (x * 2 powi scale_of x)) / 2 powi scale_of x)"

definition fl_round :: "rat \<Rightarrow> rat" where
  "fl_round x = (if x < 0 then - round_pos (- x) else round_pos x)"

lemma flog2_bounds:
  assumes "0 < x"
  shows "2 powi flog2 x \<le> x" and "x < 2 powi (flog2 x + 1)"
proof -
  obtain p q where pq: "quotient_of x = (p, q)" by fastforce
  have q: "0 < q" and x: "x = of_int p / of_int q" using pq quotient_of_denom_pos quotient_of_div by auto
  then have p: "0 < p" using assms by (simp add: zero_less_divide_iff)
  have bp: "1 \<le> bitlen p" and bq: "1 \<le> bitlen q"
    using p q bitlen_nonneg [of p] bitlen_nonneg [of q] bitlen_eq_zero_iff [of p] bitlen_eq_zero_iff [of q] by linarith+
  have low: "2 powi (bitlen n - 1) \<le> (of_int n :: rat)" and up: "of_int n < (2 :: rat) powi bitlen n"
    if "0 < n" "1 \<le> bitlen n" for n
  proof -
    have "(of_int (2 ^ nat (bitlen n - 1)) :: rat) \<le> of_int n" and "(of_int n :: rat) < of_int (2 ^ nat (bitlen n))"
      using bitlen_bounds [OF that(1)] by (simp_all only: of_int_le_iff of_int_less_iff)
    then show "2 powi (bitlen n - 1) \<le> (of_int n :: rat)" "of_int n < (2 :: rat) powi bitlen n"
      using that(2) by (simp_all add: power_int_nonneg_exp)
  qed
  let ?e = "bitlen p - bitlen q"
  have "x < 2 powi bitlen p / 2 powi (bitlen q - 1)"
    unfolding x using up [OF p bp] low [OF q bq] p q
    by (intro frac_less) auto
  also have "\<dots> = 2 powi (?e + 1)" by (simp add: power_int_diff [symmetric] algebra_simps)
  finally have u: "x < 2 powi (?e + 1)" .
  have "2 powi (bitlen p - 1) / 2 powi bitlen q \<le> x"
    unfolding x using low [OF p bp] up [OF q bq] p q
    by (intro frac_le) auto
  then have l: "2 powi (?e - 1) \<le> x" by (simp add: power_int_diff [symmetric] algebra_simps)
  have e: "flog2 x = (if 2 powi ?e \<le> x then ?e else ?e - 1)" by (simp add: flog2_def pq)
  show "2 powi flog2 x \<le> x" "x < 2 powi (flog2 x + 1)" using u l by (auto simp: e)
qed

lemma round_even_of_int [simp]: "round_even (of_int n) = n"
  by (simp add: round_even_def)

lemma round_even_bounds: "of_int (round_even y) \<le> y + 1 / 2" "y - 1 / 2 \<le> of_int (round_even y)"
  by (auto simp: round_even_def Let_def) (linarith | simp)+

lemma round_even_mono: "y \<le> z \<Longrightarrow> round_even y \<le> round_even z"
proof (cases "\<lfloor>y\<rfloor> = \<lfloor>z\<rfloor>")
  case True
  assume "y \<le> z"
  with True show ?thesis by (simp add: round_even_def Let_def)
next
  case False
  assume "y \<le> z"
  with False have "\<lfloor>y\<rfloor> + 1 \<le> \<lfloor>z\<rfloor>" using floor_mono by fastforce
  moreover have "round_even y \<le> \<lfloor>y\<rfloor> + 1" "\<lfloor>z\<rfloor> \<le> round_even z" by (simp_all add: round_even_def Let_def)
  ultimately show ?thesis by linarith
qed

lemma scale_bounds:
  assumes "0 < x"
  shows "x * 2 powi scale_of x < 2 ^ 53" and "- 1022 \<le> flog2 x \<Longrightarrow> 2 ^ 52 \<le> x * 2 powi scale_of x"
proof -
  have "x * 2 powi scale_of x < 2 powi (flog2 x + 1) * 2 powi scale_of x"
    using flog2_bounds(2) [OF assms] by simp
  also have "\<dots> = 2 powi (flog2 x + 1 + scale_of x)" by (simp add: power_int_add [symmetric])
  also have "\<dots> \<le> (2 :: rat) powi 53" by (rule power_int_increasing) (simp_all add: scale_of_def)
  finally show "x * 2 powi scale_of x < 2 ^ 53" by simp
  assume "- 1022 \<le> flog2 x"
  then have "2 ^ 52 = (2 :: rat) powi (flog2 x + scale_of x)" by (simp add: scale_of_def)
  also have "\<dots> = 2 powi flog2 x * 2 powi scale_of x" by (simp add: power_int_add)
  also have "\<dots> \<le> x * 2 powi scale_of x" using flog2_bounds(1) [OF assms] by simp
  finally show "2 ^ 52 \<le> x * 2 powi scale_of x" .
qed

lemma round_pos_nonneg [simp]: "0 \<le> round_pos x"
proof (cases "0 < x")
  case True
  then have "0 \<le> x * 2 powi scale_of x" by simp
  then have "round_even (of_int 0) \<le> round_even (x * 2 powi scale_of x)" by (intro round_even_mono) simp
  then have "0 \<le> round_even (x * 2 powi scale_of x)" unfolding round_even_of_int .
  then show ?thesis by (simp add: round_pos_def)
qed (simp add: round_pos_def)

lemma flog2_mono: "0 < x \<Longrightarrow> x \<le> y \<Longrightarrow> flog2 x \<le> flog2 y"
proof (rule ccontr)
  assume x: "0 < x" "x \<le> y" and "\<not> flog2 x \<le> flog2 y"
  then have "(2 :: rat) powi (flog2 y + 1) \<le> 2 powi flog2 x" by (intro power_int_increasing) simp_all
  with flog2_bounds [OF x(1)] flog2_bounds [of y] x show False by linarith
qed

lemma round_pos_mono:
  assumes "x \<le> y"
  shows "round_pos x \<le> round_pos y"
proof (cases "0 < x")
  case x: True
  then have y: "0 < y" using assms by simp
  show ?thesis
  proof (cases "scale_of x = scale_of y")
    case True
    have "round_even (x * 2 powi scale_of y) \<le> round_even (y * 2 powi scale_of y)"
      using assms by (intro round_even_mono mult_right_mono) auto
    then show ?thesis using x y True by (simp add: round_pos_def divide_right_mono)
  next
    case False
    with flog2_mono [OF x assms] have fy: "- 1022 \<le> flog2 y" and sc: "53 - scale_of x \<le> 52 - scale_of y"
      by (auto simp: scale_of_def max_def split: if_splits)
    have "round_even (x * 2 powi scale_of x) \<le> round_even (of_int (2 ^ 53))"
      using scale_bounds(1) [OF x] by (intro round_even_mono) simp
    then have "(of_int (round_even (x * 2 powi scale_of x)) :: rat) \<le> 2 ^ 53"
      unfolding round_even_of_int by (metis of_int_le_iff of_int_numeral of_int_power)
    then have "round_pos x \<le> 2 powi 53 / 2 powi scale_of x" using x by (simp add: round_pos_def divide_right_mono)
    also have "\<dots> = 2 powi (53 - scale_of x)" by (subst power_int_diff) simp_all
    also have "\<dots> \<le> 2 powi (52 - scale_of y)" using sc by (intro power_int_increasing) simp_all
    also have "\<dots> = 2 powi 52 / 2 powi scale_of y" by (subst power_int_diff) simp_all
    also have "\<dots> \<le> round_pos y"
    proof -
      have "round_even (of_int (2 ^ 52)) \<le> round_even (y * 2 powi scale_of y)"
        using scale_bounds(2) [OF y fy] by (intro round_even_mono) simp
      then have "(2 ^ 52 :: rat) \<le> of_int (round_even (y * 2 powi scale_of y))"
        unfolding round_even_of_int by (metis of_int_le_iff of_int_numeral of_int_power)
      then show ?thesis using y by (simp add: round_pos_def divide_right_mono)
    qed
    finally show ?thesis .
  qed
qed (simp add: round_pos_def [of x])

lemma fl_round_mono: "x \<le> y \<Longrightarrow> fl_round x \<le> fl_round y"
  using round_pos_mono [of x y] round_pos_mono [of "- y" "- x"] round_pos_nonneg [of y] round_pos_nonneg [of "- x"]
  by (auto simp: fl_round_def simp del: round_pos_nonneg)

lemma fl_round_0 [simp]: "fl_round 0 = 0"
  by (simp add: fl_round_def round_pos_def)

lemma fl_round_minus: "fl_round (- x) = - fl_round x"
  by (auto simp: fl_round_def round_pos_def)

lemma fl_round_nonneg: "0 \<le> x \<Longrightarrow> 0 \<le> fl_round x"
  using fl_round_mono [of 0 x] by simp

lemma round_pos_exact:
  assumes "0 < m" "m < 2 ^ 53"
  shows "round_pos (of_int m) = of_int m"
proof -
  have m: "0 < (of_int m :: rat)" using assms by simp
  have "(of_int 1 :: rat) \<le> of_int m" using assms(1) by (simp only: of_int_le_iff)
  then have "flog2 1 \<le> flog2 (of_int m)" by (intro flog2_mono) simp_all
  moreover have "flog2 1 = 0" by (simp add: flog2_def)
  ultimately have "0 \<le> flog2 (of_int m)" by simp
  moreover have "flog2 (of_int m) \<le> 52"
  proof (rule ccontr)
    assume "\<not> ?thesis"
    then have "(2 :: rat) powi 53 \<le> 2 powi flog2 (of_int m)" by (intro power_int_increasing) simp_all
    also have "\<dots> \<le> of_int m" by (rule flog2_bounds(1) [OF m])
    finally have "of_int (2 ^ 53) \<le> (of_int m :: rat)" by simp
    then show False using assms(2) unfolding of_int_le_iff by simp
  qed
  ultimately have s: "2 powi scale_of (of_int m) = (of_int (2 ^ nat (scale_of (of_int m))) :: rat)"
    by (simp add: scale_of_def power_int_nonneg_exp)
  have "of_int m * 2 powi scale_of (of_int m) = (of_int (m * 2 ^ nat (scale_of (of_int m))) :: rat)"
    unfolding s by simp
  then have "round_even (of_int m * 2 powi scale_of (of_int m)) = m * 2 ^ nat (scale_of (of_int m))"
    by (simp only: round_even_of_int)
  then show ?thesis using m unfolding round_pos_def s by simp
qed

lemma fl_round_of_int: "\<bar>m\<bar> < 2 ^ 53 \<Longrightarrow> fl_round (of_int m) = of_int m"
  using round_pos_exact [of m] round_pos_exact [of "- m"] by (cases "m = 0") (auto simp: fl_round_def round_pos_def [of 0])

lemma fl_round_error:
  assumes "2 powi (- 1022) \<le> x"
  shows "\<bar>fl_round x - x\<bar> \<le> x / 2 ^ 53"
proof -
  have x: "0 < x" using assms by (rule less_le_trans [rotated]) simp
  let ?z = "x * 2 powi scale_of x"
  have "- 1022 \<le> flog2 x"
  proof (rule ccontr)
    assume "\<not> ?thesis"
    then have "(2 :: rat) powi (flog2 x + 1) \<le> 2 powi (- 1022)" by (intro power_int_increasing) simp_all
    with flog2_bounds(2) [OF x] assms show False by linarith
  qed
  then have "2 ^ 52 \<le> ?z" by (rule scale_bounds(2) [OF x])
  then have "1 / 2 \<le> ?z / 2 ^ 53" by simp
  moreover have "\<bar>of_int (round_even ?z) - ?z\<bar> \<le> 1 / 2"
    using round_even_bounds [of ?z] unfolding abs_le_iff by linarith
  ultimately have "\<bar>of_int (round_even ?z) - ?z\<bar> \<le> ?z / 2 ^ 53" by (rule order_trans [rotated])
  then have "\<bar>of_int (round_even ?z) - ?z\<bar> / 2 powi scale_of x \<le> ?z / 2 ^ 53 / 2 powi scale_of x"
    by (rule divide_right_mono) simp
  moreover have "fl_round x - x = (of_int (round_even ?z) - ?z) / 2 powi scale_of x"
    using x by (simp add: fl_round_def round_pos_def diff_divide_distrib)
  ultimately show ?thesis by (simp add: abs_divide)
qed

lemma fl_round_error_half: "1 / 2 \<le> x \<Longrightarrow> \<bar>fl_round x - x\<bar> \<le> x / 2 ^ 53"
proof (rule fl_round_error)
  assume "1 / 2 \<le> x"
  moreover have "(2 :: rat) powi (- 1022) \<le> 2 powi (- 1)" by (rule power_int_increasing) simp_all
  ultimately show "2 powi (- 1022) \<le> x" by (simp add: power_int_minus)
qed

text \<open>Rounding a double changes nothing.\<close>

lemma round_pos_grid:
  assumes "0 < x"
  shows "\<exists>n. round_pos x = of_int n / 2 powi scale_of x \<and> 0 \<le> n \<and> n \<le> 2 ^ 53"
proof -
  let ?z = "x * 2 powi scale_of x"
  have "round_even (of_int 0) \<le> round_even ?z" using assms by (intro round_even_mono) simp
  moreover have "round_even ?z \<le> round_even (of_int (2 ^ 53))" using scale_bounds(1) [OF assms] by (intro round_even_mono) simp
  ultimately have "0 \<le> round_even ?z" "round_even ?z \<le> 2 ^ 53" unfolding round_even_of_int by simp_all
  then show ?thesis using assms by (intro exI [of _ "round_even ?z"]) (simp add: round_pos_def)
qed

lemma powi_mult_int: "0 \<le> k \<Longrightarrow> (of_int n / 2 powi s) * 2 powi (s + k) = (of_int (n * 2 ^ nat k) :: rat)"
  by (simp add: power_int_add power_int_nonneg_exp)

lemma round_pos_idem: "round_pos (round_pos x) = round_pos x"
proof (cases "0 < round_pos x")
  case y: True
  then have x: "0 < x" by (auto simp: round_pos_def split: if_splits)
  define y where "y = round_pos x"
  obtain n where n: "y = of_int n / 2 powi scale_of x" "0 \<le> n" "n \<le> 2 ^ 53" unfolding y_def using round_pos_grid [OF x] by blast
  have "\<exists>m. y * 2 powi scale_of y = of_int m"
  proof (cases "scale_of x \<le> scale_of y")
    case True
    then have "y * 2 powi scale_of y = of_int (n * 2 ^ nat (scale_of y - scale_of x))"
      using powi_mult_int [of "scale_of y - scale_of x" n "scale_of x"] n(1) by simp
    then show ?thesis by blast
  next
    case False
    then have s: "max (flog2 x) (- 1022) + 1 \<le> flog2 y" by (auto simp: scale_of_def)
    have "(2 :: rat) ^ 53 = 2 powi (53 - scale_of x) * 2 powi scale_of x" by (simp add: power_int_add [symmetric])
    also have "(2 :: rat) powi (53 - scale_of x) \<le> 2 powi flog2 y" using s by (intro power_int_increasing) (auto simp: scale_of_def)
    also have "\<dots> \<le> y" using y by (intro flog2_bounds(1)) (simp add: y_def)
    finally have "(2 :: rat) ^ 53 \<le> of_int n" using n(1) by simp
    then have "of_int (2 ^ 53) \<le> (of_int n :: rat)" by simp
    then have n53: "n = 2 ^ 53" using n(3) unfolding of_int_le_iff by simp
    have yv: "y = 2 powi (53 - scale_of x)" using n(1) n53 by (simp add: power_int_diff)
    have "flog2 y \<le> 53 - scale_of x"
    proof (rule ccontr)
      assume "\<not> ?thesis"
      then have "(2 :: rat) powi (53 - scale_of x + 1) \<le> 2 powi flog2 y" by (intro power_int_increasing) simp_all
      also have "\<dots> \<le> y" using y by (intro flog2_bounds(1)) (simp add: y_def)
      finally have le: "(2 :: rat) powi (53 - scale_of x + 1) \<le> 2 powi (53 - scale_of x)" unfolding yv .
      have "(2 :: rat) powi (53 - scale_of x) < 2 powi (53 - scale_of x + 1)" by (rule power_int_strict_increasing) simp_all
      with le show False by simp
    qed
    then have "scale_of y = scale_of x - 1" using s by (auto simp: scale_of_def)
    then have "y * 2 powi scale_of y = 2 ^ 52" unfolding yv by (simp add: power_int_add [symmetric])
    then show ?thesis by (intro exI [of _ "2 ^ 52"]) simp
  qed
  then obtain m where m: "y * 2 powi scale_of y = of_int m" by blast
  have "round_pos y = of_int m / 2 powi scale_of y" using y unfolding round_pos_def [of y] m by (simp add: y_def)
  also have "\<dots> = y" unfolding m [symmetric] by simp
  finally show ?thesis by (simp add: y_def)
next
  case False
  then have "round_pos x = 0" using round_pos_nonneg [of x] by linarith
  then show ?thesis by (simp add: round_pos_def [of 0])
qed

lemma fl_round_idem [simp]: "fl_round (fl_round x) = fl_round x"
  using round_pos_idem [of x] round_pos_idem [of "- x"] round_pos_nonneg [of x] round_pos_nonneg [of "- x"]
  by (auto simp: fl_round_def simp del: round_pos_nonneg)

section \<open>Arithmetic\<close>

definition fl_of_rat :: "rat \<Rightarrow> pyfloat" where
  "fl_of_rat r =
     (let y = fl_round r
      in if 2 ^ 1024 \<le> y then PosInf else if y \<le> - (2 ^ 1024) then NegInf else Fin y)"

lemma fl_of_rat_idem: "fl_of_rat x = Fin r \<Longrightarrow> fl_of_rat r = Fin r"
  by (auto simp: fl_of_rat_def Let_def split: if_splits)
fun fl_neg :: "pyfloat \<Rightarrow> pyfloat" where
  "fl_neg (Fin a) = Fin (- a)"
| "fl_neg PosInf = NegInf"
| "fl_neg NegInf = PosInf"
| "fl_neg NaN = NaN"

fun fl_add :: "pyfloat \<Rightarrow> pyfloat \<Rightarrow> pyfloat" where
  "fl_add NaN y = NaN"
| "fl_add x NaN = NaN"
| "fl_add (Fin a) (Fin b) = fl_of_rat (a + b)"
| "fl_add (Fin a) y = y"
| "fl_add x (Fin b) = x"
| "fl_add x y = (if x = y then x else NaN)"

definition fl_sub :: "pyfloat \<Rightarrow> pyfloat \<Rightarrow> pyfloat" where
  "fl_sub x y = fl_add x (fl_neg y)"

text \<open>The sign of a product or quotient with an infinity.\<close>

definition signed_inf :: "bool \<Rightarrow> pyfloat" where
  "signed_inf pos = (if pos then PosInf else NegInf)"

fun fl_mul :: "pyfloat \<Rightarrow> pyfloat \<Rightarrow> pyfloat" where
  "fl_mul NaN y = NaN"
| "fl_mul x NaN = NaN"
| "fl_mul (Fin a) (Fin b) = fl_of_rat (a * b)"
| "fl_mul (Fin a) y = (if a = 0 then NaN else signed_inf ((0 < a) = (y = PosInf)))"
| "fl_mul x (Fin b) = (if b = 0 then NaN else signed_inf ((0 < b) = (x = PosInf)))"
| "fl_mul x y = signed_inf (x = y)"

text \<open>Division by zero raises, whatever is divided.\<close>

fun fl_div :: "pyfloat \<Rightarrow> pyfloat \<Rightarrow> pyfloat result" where
  "fl_div x (Fin b) =
     (if b = 0 then Inl ZeroDivisionError
      else case x of
        Fin a \<Rightarrow> Inr (fl_of_rat (a / b))
      | PosInf \<Rightarrow> Inr (signed_inf (0 < b))
      | NegInf \<Rightarrow> Inr (signed_inf (b < 0))
      | NaN \<Rightarrow> Inr NaN)"
| "fl_div (Fin a) NaN = Inr NaN"
| "fl_div (Fin a) y = Inr (Fin 0)"
| "fl_div x y = Inr NaN"

text \<open>\<open>int(x)\<close> truncates towards zero and raises on the infinities and NaN.\<close>

fun fl_int :: "pyfloat \<Rightarrow> int result" where
  "fl_int (Fin a) = Inr (if 0 \<le> a then \<lfloor>a\<rfloor> else - \<lfloor>- a\<rfloor>)"
| "fl_int NaN = Inl ValueError"
| "fl_int x = Inl OverflowError"

text \<open>Converting an int to a float raises when it is too large.\<close>

definition fl_of_int :: "int \<Rightarrow> pyfloat result" where
  "fl_of_int n = (case fl_of_rat (of_int n) of Fin r \<Rightarrow> Inr (Fin r) | _ \<Rightarrow> Inl OverflowError)"

abbreviation fl_nat :: "nat \<Rightarrow> pyfloat" where
  "fl_nat n \<equiv> Fin (of_nat n)"

lemma fl_of_rat_int: "\<bar>m\<bar> < 2 ^ 53 \<Longrightarrow> fl_of_rat (of_int m) = Fin (of_int m)"
proof -
  assume m: "\<bar>m\<bar> < 2 ^ 53"
  have "(2 :: int) ^ 53 \<le> 2 ^ 1024" by (rule power_increasing) simp_all
  then have "\<bar>m\<bar> < 2 ^ 1024" using m by linarith
  then have "\<bar>of_int m\<bar> < (of_int (2 ^ 1024) :: rat)" by (simp only: of_int_abs [symmetric] of_int_less_iff)
  then have "\<bar>of_int m\<bar> < (2 ^ 1024 :: rat)" by (simp only: of_int_power of_int_numeral)
  then show ?thesis unfolding fl_of_rat_def fl_round_of_int [OF m] Let_def by (simp only: abs_less_iff) auto
qed

text \<open>Fractions with a power of two below and 53 bits above are doubles.\<close>

lemma powi_less_imp: "(2 :: rat) powi a < 2 powi (b + 1) \<Longrightarrow> a \<le> b"
  using power_int_increasing [of "b + 1" a "2 :: rat"] by (cases "a \<le> b") simp_all

lemma flog2_unique:
  assumes "2 powi e \<le> x" "x < 2 powi (e + 1)"
  shows "flog2 x = e"
proof (rule antisym)
  have x: "0 < x" using assms(1) zero_less_power_int [of "2 :: rat" e] by linarith
  show "flog2 x \<le> e" using flog2_bounds(1) [OF x] assms(2) by (intro powi_less_imp) linarith
  show "e \<le> flog2 x" using flog2_bounds(2) [OF x] assms(1) by (intro powi_less_imp) linarith
qed

lemma round_even_near:
  assumes "\<bar>x - of_int n\<bar> < 1 / 2"
  shows "round_even x = n"
proof -
  have "\<bar>of_int (round_even x) - of_int n\<bar> < (1 :: rat)" using round_even_bounds [of x] assms by linarith
  then have "\<bar>of_int (round_even x - n)\<bar> < (1 :: rat)" by simp
  then show ?thesis by linarith
qed

lemma fl_round_at:
  assumes "2 powi e \<le> x" "x < 2 powi (e + 1)" "- 1022 \<le> e"
  shows "fl_round x = of_int (round_even (x * 2 powi (52 - e))) / 2 powi (52 - e)"
proof -
  have "0 < x" using assms(1) zero_less_power_int [of "2 :: rat" e] by linarith
  moreover have "scale_of x = 52 - e" using assms(3) by (simp add: scale_of_def flog2_unique [OF assms(1,2)])
  ultimately show ?thesis by (simp add: fl_round_def round_pos_def)
qed

lemma round_pos_dyadic:
  assumes "0 < m" "m < 2 ^ 53" "k \<le> 1074"
  shows "round_pos (of_int m / 2 powi k) = of_int m / 2 powi k"
proof -
  let ?x = "of_int m / 2 powi k :: rat"
  have x: "0 < ?x" using assms(1) by simp
  have "flog2 ?x \<le> 52 - k"
  proof (rule ccontr)
    assume "\<not> ?thesis"
    then have "(2 :: rat) powi (53 - k) \<le> 2 powi flog2 ?x" by (intro power_int_increasing) simp_all
    also have "\<dots> \<le> ?x" by (rule flog2_bounds(1) [OF x])
    finally have "(2 :: rat) powi (53 - k) * 2 powi k \<le> of_int m" by (simp add: pos_le_divide_eq)
    then have "of_int (2 ^ 53) \<le> (of_int m :: rat)" by (simp add: power_int_add [symmetric])
    then show False using assms(2) unfolding of_int_le_iff by simp
  qed
  then have "0 \<le> scale_of ?x - k" using assms(3) by (simp add: scale_of_def)
  from powi_mult_int [OF this, of m k]
  have e: "?x * 2 powi scale_of ?x = of_int (m * 2 ^ nat (scale_of ?x - k))" by simp
  have "round_pos ?x = of_int (m * 2 ^ nat (scale_of ?x - k)) / 2 powi scale_of ?x"
    using x unfolding round_pos_def e round_even_of_int by simp
  also have "\<dots> = ?x" unfolding e [symmetric] by simp
  finally show ?thesis .
qed

lemma fl_of_rat_quarter:
  assumes "0 \<le> m" "m < 2 ^ 50"
  shows "fl_of_rat (of_int m / 4) = Fin (of_int m / 4)"
proof -
  have "m < 2 ^ 53" using assms(2) by simp
  then have r: "fl_round (of_int m / 4) = of_int m / 4"
    using round_pos_dyadic [of m 2] assms(1) by (cases "m = 0") (simp_all add: fl_round_def round_pos_def [of 0])
  have m: "(of_int m :: rat) < of_int (2 ^ 50)" using assms(2) by (simp only: of_int_less_iff)
  have "(2 :: rat) ^ 50 \<le> 2 ^ 1024" by (rule power_increasing) simp_all
  with m assms(1) have "of_int m / 4 < (2 ^ 1024 :: rat)" "\<not> of_int m / 4 \<le> - (2 ^ 1024 :: rat)" by simp_all
  then show ?thesis unfolding fl_of_rat_def r Let_def by (simp only: not_le [symmetric]) simp
qed

lemma fl_of_int_exact: "\<bar>m\<bar> < 2 ^ 53 \<Longrightarrow> fl_of_int m = Inr (Fin (of_int m))"
  by (simp add: fl_of_int_def fl_of_rat_int)

lemma fl_of_rat_bracket:
  assumes "of_int k \<le> x" "x \<le> of_int m" "\<bar>k\<bar> < 2 ^ 53" "\<bar>m\<bar> < 2 ^ 53"
  shows "fl_of_rat x = Fin (fl_round x)" and "of_int k \<le> fl_round x" and "fl_round x \<le> of_int m"
proof -
  have b: "of_int k \<le> fl_round x" "fl_round x \<le> of_int m"
    using fl_round_mono [OF assms(1)] fl_round_mono [OF assms(2)] fl_round_of_int assms(3,4) by simp_all
  have "fl_of_rat (of_int k) = Fin (of_int k)" "fl_of_rat (of_int m) = Fin (of_int m)"
    using fl_of_rat_int assms(3,4) by simp_all
  then have "- (2 ^ 1024) < (of_int k :: rat)" "of_int m < (2 ^ 1024 :: rat)"
    unfolding fl_of_rat_def fl_round_of_int [OF assms(3)] fl_round_of_int [OF assms(4)] Let_def
    by (simp_all only: not_le split: if_splits) auto
  then show "fl_of_rat x = Fin (fl_round x)" using b unfolding fl_of_rat_def Let_def by simp
  show "of_int k \<le> fl_round x" "fl_round x \<le> of_int m" by (fact b)+
qed

lemma fl_of_rat_pos: "1 \<le> x \<Longrightarrow> fl_of_rat x \<noteq> Fin 0"
  using fl_round_mono [of 1 x] fl_round_of_int [of 1] by (auto simp: fl_of_rat_def Let_def)

lemma fl_add_ints:
  "\<bar>a + b\<bar> < 2 ^ 53 \<Longrightarrow> fl_add (Fin (of_int a)) (Fin (of_int b)) = Fin (of_int (a + b))"
  using fl_of_rat_int [of "a + b"] by simp

lemma fl_sub_ints:
  "\<bar>a - b\<bar> < 2 ^ 53 \<Longrightarrow> fl_sub (Fin (of_int a)) (Fin (of_int b)) = Fin (of_int (a - b))"
  using fl_of_rat_int [of "a - b"] by (simp add: fl_sub_def)

text \<open>Values that are not negative and not NaN, and that sums and guarded differences stay so.\<close>

definition fl_nonneg :: "pyfloat \<Rightarrow> bool" where
  "fl_nonneg x \<longleftrightarrow> fl_le (Fin 0) x"

lemma fl_nonneg_simps [simp]:
  "fl_nonneg (Fin a) \<longleftrightarrow> 0 \<le> a" "fl_nonneg PosInf" "\<not> fl_nonneg NegInf" "\<not> fl_nonneg NaN"
  by (simp_all add: fl_nonneg_def)

lemma fl_of_rat_nonneg: "0 \<le> r \<Longrightarrow> fl_nonneg (fl_of_rat r)"
  using fl_round_nonneg [of r] zero_less_power [of "2 :: rat" 1024] unfolding fl_of_rat_def Let_def
  by (auto simp del: zero_less_power)

lemma fl_add_nonneg: "fl_nonneg x \<Longrightarrow> fl_nonneg y \<Longrightarrow> fl_nonneg (fl_add x y)"
  by (cases x; cases y) (auto simp: fl_of_rat_nonneg)

lemma fl_sub_nonneg:
  "fl_nonneg x \<Longrightarrow> fl_nonneg y \<Longrightarrow> \<not> fl_lt x y \<Longrightarrow> y \<noteq> PosInf \<Longrightarrow> fl_nonneg (fl_sub x y)"
  by (cases x; cases y) (auto simp: fl_sub_def fl_of_rat_nonneg)

text \<open>\<open>round(x, n)\<close> is the double nearest to the value rounded to \<open>n\<close> decimal places, ties to even.\<close>

fun py_round :: "nat \<Rightarrow> pyfloat \<Rightarrow> pyfloat" where
  "py_round n (Fin r) = fl_of_rat (of_int (round_even (r * 10 ^ n)) / 10 ^ n)"
| "py_round n x = x"

section \<open>Square root\<close>

text \<open>
  \<open>math.sqrt\<close> returns the double nearest to the root. The root of \<open>a\<close> is found to at least 56 bits as an
  integer root of a scaled \<open>a\<close>; when it is not exact, half a unit is added so that it rounds like the
  true root, which lies strictly between two such integers.
\<close>

fun isqrt :: "nat \<Rightarrow> nat" where
  "isqrt n = (if n = 0 then 0 else let r = 2 * isqrt (n div 4) in if (r + 1) * (r + 1) \<le> n then r + 1 else r)"

declare isqrt.simps [simp del]

lemma isqrt_bounds: "isqrt n * isqrt n \<le> n \<and> n < (isqrt n + 1) * (isqrt n + 1)"
proof (induction n rule: less_induct)
  case (less n)
  show ?case
  proof (cases "n = 0")
    case False
    define q where "q = isqrt (n div 4)"
    have IH: "q * q \<le> n div 4" "n div 4 < (q + 1) * (q + 1)" using less.IH [of "n div 4"] False by (auto simp: q_def)
    have "(2 * q) * (2 * q) \<le> n" using IH(1) by (simp add: field_simps)
    moreover have "n div 4 + 1 \<le> (q + 1) * (q + 1)" using IH(2) by simp
    then have "n < 4 * ((q + 1) * (q + 1))" by linarith
    then have "n < (2 * q + 2) * (2 * q + 2)" by (simp add: algebra_simps)
    ultimately show ?thesis using False by (subst (1 2 3 4) isqrt.simps) (simp add: Let_def q_def [symmetric])
  qed (simp add: isqrt.simps)
qed

lemma isqrt_square [simp]: "isqrt (m * m) = m"
proof (rule antisym)
  let ?i = "isqrt (m * m)"
  show "?i \<le> m"
  proof (rule ccontr)
    assume "\<not> ?i \<le> m"
    then have "(m + 1) * (m + 1) \<le> ?i * ?i" by (intro mult_le_mono) simp_all
    then show False using isqrt_bounds [of "m * m"] by (simp add: algebra_simps)
  qed
  show "m \<le> ?i"
  proof (rule ccontr)
    assume "\<not> m \<le> ?i"
    then have "(?i + 1) * (?i + 1) \<le> m * m" by (intro mult_le_mono) simp_all
    then show False using isqrt_bounds [of "m * m"] by simp
  qed
qed

definition sqrt_shift :: "rat \<Rightarrow> nat" where
  "sqrt_shift a = nat (57 - flog2 a div 2)"

fun fl_sqrt :: "pyfloat \<Rightarrow> pyfloat result" where
  "fl_sqrt (Fin a) =
     (if a < 0 then Inl ValueError
      else if a = 0 then Inr (Fin 0)
      else let k = sqrt_shift a; s = isqrt (nat \<lfloor>a * 4 ^ k\<rfloor>)
           in Inr (fl_of_rat ((if of_nat (s * s) = a * 4 ^ k then of_nat s else of_nat s + 1 / 2) / 2 ^ k)))"
| "fl_sqrt NegInf = Inl ValueError"
| "fl_sqrt x = Inr x"

lemma fl_sqrt_square:
  assumes "s < 2 ^ 53"
  shows "fl_sqrt (Fin (of_nat (s * s))) = Inr (Fin (of_nat s))"
proof (cases "s = 0")
  case False
  define a :: rat where "a = of_nat (s * s)"
  define k where "k = sqrt_shift a"
  have "(4 :: rat) ^ k = 2 ^ k * 2 ^ k" by (simp flip: power_mult_distrib)
  then have sq: "a * 4 ^ k = of_nat ((s * 2 ^ k) * (s * 2 ^ k))" by (simp add: a_def algebra_simps)
  have "nat \<lfloor>a * 4 ^ k\<rfloor> = (s * 2 ^ k) * (s * 2 ^ k)"
    unfolding sq by (simp only: floor_of_nat nat_int)
  then have root: "isqrt (nat \<lfloor>a * 4 ^ k\<rfloor>) = s * 2 ^ k" by simp
  have "0 < a" using False by (simp add: a_def)
  then have "fl_sqrt (Fin a) = Inr (fl_of_rat (of_nat (s * 2 ^ k) / 2 ^ k))"
    using sq root by (simp add: Let_def k_def [symmetric] del: of_nat_mult)
  also have "of_nat (s * 2 ^ k) / 2 ^ k = (of_int (int s) :: rat)" by simp
  finally show ?thesis using fl_of_rat_int [of "int s"] assms by (simp add: a_def)
qed simp

end
