(* ===== verification/Attestation.thy ===== *)
theory Attestation
  imports Float_Arith "HOL-Library.Char_ord"
begin

text \<open>
  Hardware attestation of remote nodes, \<^verbatim>\<open>kernel/hardware/remote_attestation.py\<close>: reports, their
  verification, the cache and the combined fingerprint. The remote command is the argument \<open>ssh\<close>, the
  JSON parser with the field types the report declares is \<open>parse\<close>, SHA-256 as hex text is \<open>H\<close>. The
  clock is read several times in a call; \<open>tm k\<close> is reading \<open>k\<close>.
\<close>

section \<open>Reports\<close>

record report =
  ar_version :: string
  ar_era :: int
  ar_device :: string
  ar_soc :: string
  ar_chip_id :: string
  ar_mac_address :: string
  ar_fingerprint :: string
  ar_entropy :: string
  ar_timestamp :: int
  ar_kernel :: string
  ar_arch :: string
  ar_memory_mb :: int
  ar_uptime_sec :: int
  ar_node_id :: string
  ar_verified :: bool
  ar_verification_timestamp :: pyfloat

text \<open>The fields a parsed answer may carry.\<close>

record att_data =
  ad_strings :: "(string, string) dict"
  ad_ints :: "(string, int) dict"

definition str_or :: "att_data \<Rightarrow> string \<Rightarrow> string \<Rightarrow> string" where
  "str_or d k v = (case dget (ad_strings d) k of Some x \<Rightarrow> x | None \<Rightarrow> v)"

definition int_or :: "att_data \<Rightarrow> string \<Rightarrow> int" where
  "int_or d k = (case dget (ad_ints d) k of Some x \<Rightarrow> x | None \<Rightarrow> 0)"

definition report_node_id :: "string \<Rightarrow> string" where
  "report_node_id fingerprint = ''wl-'' @ take 16 fingerprint"

definition make_report :: "att_data \<Rightarrow> report" where
  "make_report d =
     \<lparr>ar_version = str_or d ''version'' ''unknown'', ar_era = int_or d ''era'',
      ar_device = str_or d ''device'' ''unknown'', ar_soc = str_or d ''soc'' ''unknown'',
      ar_chip_id = str_or d ''chip_id'' ''unknown'', ar_mac_address = str_or d ''mac_address'' ''unknown'',
      ar_fingerprint = str_or d ''fingerprint'' [], ar_entropy = str_or d ''entropy'' [],
      ar_timestamp = int_or d ''timestamp'', ar_kernel = str_or d ''kernel'' ''unknown'',
      ar_arch = str_or d ''arch'' ''unknown'', ar_memory_mb = int_or d ''memory_mb'',
      ar_uptime_sec = int_or d ''uptime_sec'', ar_node_id = report_node_id (str_or d ''fingerprint'' []),
      ar_verified = False, ar_verification_timestamp = Fin 0\<rparr>"

definition hardware_text :: "report \<Rightarrow> string" where
  "hardware_text r = ar_chip_id r @ '':'' @ ar_mac_address r @ [CHR 0x0A]"

definition verify_attestation :: "(string \<Rightarrow> string) \<Rightarrow> pyfloat \<Rightarrow> report \<Rightarrow> bool result" where
  "verify_attestation H now r =
     (if ar_chip_id r = [] \<or> ar_chip_id r = ''unknown'' then Inr False
      else if ar_mac_address r = [] \<or> ar_mac_address r = ''unknown'' then Inr False
      else if ar_fingerprint r \<noteq> H (hardware_text r) then Inr False
      else bindE (fl_of_int (ar_timestamp r)) (\<lambda>ts. Inr (\<not> fl_lt (Fin 86400) (fl_sub now ts))))"

section \<open>The client\<close>

record sovereign_node =
  sn_host :: string
  sn_port :: int
  sn_user :: string
  sn_name :: string
  sn_attestation_cmd :: string

definition node_init :: "string \<Rightarrow> int \<Rightarrow> string \<Rightarrow> string \<Rightarrow> string \<Rightarrow> sovereign_node" where
  "node_init host port user name cmd =
     \<lparr>sn_host = host, sn_port = port, sn_user = user,
      sn_name = (if name = [] then user @ ''@'' @ host else name), sn_attestation_cmd = cmd\<rparr>"

record att_client =
  ac_nodes :: "(string, sovereign_node) dict"
  ac_cache :: "(string, report) dict"
  ac_cache_ttl :: int

definition client_init :: att_client where
  "client_init = \<lparr>ac_nodes = [], ac_cache = [], ac_cache_ttl = 300\<rparr>"

definition ac_register_node :: "sovereign_node \<Rightarrow> att_client \<Rightarrow> att_client" where
  "ac_register_node n c = c\<lparr>ac_nodes := dset (sn_host n) n (ac_nodes c)\<rparr>"

definition unregister_node :: "string \<Rightarrow> att_client \<Rightarrow> att_client" where
  "unregister_node host c =
     (if dget (ac_nodes c) host \<noteq> None
      then c\<lparr>ac_nodes := ddel host (ac_nodes c),
             ac_cache := (if dget (ac_cache c) host \<noteq> None then ddel host (ac_cache c) else ac_cache c)\<rparr>
      else c)"

definition get_registered_nodes :: "att_client \<Rightarrow> sovereign_node list" where
  "get_registered_nodes c = dvalues (ac_nodes c)"

text \<open>The report of a cache entry that is young enough.\<close>

definition cached_report :: "pyfloat \<Rightarrow> string \<Rightarrow> att_client \<Rightarrow> report option" where
  "cached_report now host c =
     (case dget (ac_cache c) host of
        Some r \<Rightarrow> if fl_lt (fl_sub now (ar_verification_timestamp r)) (Fin (of_int (ac_cache_ttl c))) then Some r else None
      | None \<Rightarrow> None)"

text \<open>The node of a host, registered with the defaults when it is not known.\<close>

definition node_for :: "string \<Rightarrow> att_client \<Rightarrow> sovereign_node \<times> att_client" where
  "node_for host c =
     (case dget (ac_nodes c) host of
        Some n \<Rightarrow> (n, c)
      | None \<Rightarrow> (let n = node_init host 22 ''root'' [] ''/usr/local/bin/wl-attestation'' in (n, ac_register_node n c)))"

definition fetch_attestation ::
  "(string \<Rightarrow> string) \<Rightarrow> (sovereign_node \<Rightarrow> string option) \<Rightarrow> (string \<Rightarrow> att_data result) \<Rightarrow> (nat \<Rightarrow> pyfloat) \<Rightarrow>
   string \<Rightarrow> bool \<Rightarrow> att_client \<Rightarrow> report option result \<times> att_client" where
  "fetch_attestation H ssh parse tm host use_cache c =
     (case (if use_cache then cached_report (tm 0) host c else None) of
        Some r \<Rightarrow> (Inr (Some r), c)
      | None \<Rightarrow>
          (let (n, c1) = node_for host c
           in case ssh n of
                None \<Rightarrow> (Inr None, c1)
              | Some out \<Rightarrow>
                  (case parse out of
                     Inl _ \<Rightarrow> (Inr None, c1)
                   | Inr d \<Rightarrow>
                       (case verify_attestation H (tm 1) (make_report d) of
                          Inl err \<Rightarrow> (Inl err, c1)
                        | Inr ok \<Rightarrow>
                            (let r = (make_report d)\<lparr>ar_verified := ok, ar_verification_timestamp := tm 2\<rparr>
                             in (Inr (Some r), c1\<lparr>ac_cache := dset host r (ac_cache c1)\<rparr>))))))"

text \<open>\<open>fetch_all\<close> over the registered hosts; the registry does not change under it.\<close>

fun fetch_hosts ::
  "(string \<Rightarrow> string) \<Rightarrow> (sovereign_node \<Rightarrow> string option) \<Rightarrow> (string \<Rightarrow> att_data result) \<Rightarrow> (string \<Rightarrow> nat \<Rightarrow> pyfloat) \<Rightarrow>
   string list \<Rightarrow> (string, report) dict \<Rightarrow> att_client \<Rightarrow> (string, report) dict result \<times> att_client" where
  "fetch_hosts H ssh parse tm [] results c = (Inr results, c)"
| "fetch_hosts H ssh parse tm (h # hs) results c =
     (case fetch_attestation H ssh parse (tm h) h True c of
        (Inl err, c1) \<Rightarrow> (Inl err, c1)
      | (Inr None, c1) \<Rightarrow> fetch_hosts H ssh parse tm hs results c1
      | (Inr (Some r), c1) \<Rightarrow> fetch_hosts H ssh parse tm hs (dset h r results) c1)"

definition fetch_all ::
  "(string \<Rightarrow> string) \<Rightarrow> (sovereign_node \<Rightarrow> string option) \<Rightarrow> (string \<Rightarrow> att_data result) \<Rightarrow> (string \<Rightarrow> nat \<Rightarrow> pyfloat) \<Rightarrow>
   att_client \<Rightarrow> (string, report) dict result \<times> att_client" where
  "fetch_all H ssh parse tm c = fetch_hosts H ssh parse tm (dkeys (ac_nodes c)) [] c"

definition verified_fingerprints :: "att_client \<Rightarrow> string list" where
  "verified_fingerprints c =
     List.map_filter (\<lambda>h. case dget (ac_cache c) h of
                            Some r \<Rightarrow> if ar_verified r then Some (ar_fingerprint r) else None
                          | None \<Rightarrow> None) (sort (dkeys (ac_nodes c)))"

definition federation_fingerprint :: "(string \<Rightarrow> string) \<Rightarrow> att_client \<Rightarrow> string" where
  "federation_fingerprint H c =
     (if verified_fingerprints c = [] then [] else H (join_with '':'' (verified_fingerprints c)))"

section \<open>Verified reports are bound to their hardware\<close>

definition report_ok :: "(string \<Rightarrow> string) \<Rightarrow> report \<Rightarrow> bool" where
  "report_ok H r \<longleftrightarrow>
     ar_node_id r = report_node_id (ar_fingerprint r) \<and>
     (ar_verified r \<longrightarrow> ar_fingerprint r = H (hardware_text r) \<and> ar_chip_id r \<notin> {[], ''unknown''} \<and>
        ar_mac_address r \<notin> {[], ''unknown''})"

definition client_ok :: "(string \<Rightarrow> string) \<Rightarrow> att_client \<Rightarrow> bool" where
  "client_ok H c \<longleftrightarrow> dict_ok (ac_nodes c) \<and> (\<forall>h r. dget (ac_cache c) h = Some r \<longrightarrow> report_ok H r)"

lemma make_report_ok: "verify_attestation H now (make_report d) = Inr ok \<Longrightarrow>
   report_ok H ((make_report d)\<lparr>ar_verified := ok, ar_verification_timestamp := t\<rparr>)"
  by (auto simp: report_ok_def verify_attestation_def make_report_def hardware_text_def split: if_splits)

lemma client_ok_node_for: "client_ok H c \<Longrightarrow> client_ok H (snd (node_for host c))"
  by (auto simp: client_ok_def node_for_def ac_register_node_def Let_def split: option.splits)

lemma client_ok_cache: "client_ok H c \<Longrightarrow> report_ok H r \<Longrightarrow> client_ok H (c\<lparr>ac_cache := dset h r (ac_cache c)\<rparr>)"
  by (auto simp: client_ok_def)

lemma fetch_attestation_ok:
  assumes "client_ok H c"
  shows "client_ok H (snd (fetch_attestation H ssh parse tm host use_cache c))"
    and "fst (fetch_attestation H ssh parse tm host use_cache c) = Inr (Some r) \<Longrightarrow> report_ok H r"
proof -
  have cached: "report_ok H r" if "cached_report t host c = Some r" for t r
    using that assms by (auto simp: cached_report_def client_ok_def split: option.splits if_splits)
  show "client_ok H (snd (fetch_attestation H ssh parse tm host use_cache c))"
    using assms client_ok_node_for [OF assms, of host]
    by (auto simp: fetch_attestation_def Let_def case_prod_unfold client_ok_cache make_report_ok
        split: option.splits sum.splits)
  show "fst (fetch_attestation H ssh parse tm host use_cache c) = Inr (Some r) \<Longrightarrow> report_ok H r"
    using cached
    by (auto simp: fetch_attestation_def Let_def case_prod_unfold make_report_ok
        split: option.splits sum.splits if_splits)
qed

end
