(* ===== verification/Federation.thy ===== *)
theory Federation
  imports Attestation
begin

text \<open>
  The sovereign federation, \<^verbatim>\<open>kernel/federation/sovereign_federation.py\<close>: members admitted by
  attestation, channels, and decisions with their approvals and the quorum rule, whose threshold is a
  Python float. The native key generation, encapsulation and signing are the arguments \<open>kem_keygen\<close>,
  \<open>generate_keypair\<close>, \<open>encapsulate\<close> and \<open>sign\<close>; SHA-256 as hex text is \<open>H\<close>, and \<open>show_items\<close> is the text
  of the sorted items of a decision. The attestation client is part of the state.
\<close>

section \<open>State\<close>

datatype federation_state = INITIALIZING | BOOTSTRAPPING | ACTIVE | DEGRADED | HALTED

datatype node_role = SOVEREIGN | VALIDATOR | OBSERVER

record federation_member =
  fm_node_id :: string
  fm_host :: string
  fm_role :: node_role
  fm_encapsulation_key :: string
  fm_signing_key :: string
  fm_attestation :: "report option"
  fm_last_seen :: pyfloat
  fm_is_active :: bool

record secure_channel =
  sc_local_node_id :: string
  sc_remote_node_id :: string
  sc_session_key :: string
  sc_ciphertext :: string
  sc_established_at :: pyfloat
  sc_message_count :: nat

definition is_valid :: "pyfloat \<Rightarrow> int \<Rightarrow> secure_channel \<Rightarrow> bool" where
  "is_valid now max_age_sec ch = fl_lt (fl_sub now (sc_established_at ch)) (Fin (of_int max_age_sec))"

record federation_consensus =
  fc_decision_id :: string
  fc_decision_hash :: string
  fc_epoch :: int
  fc_proposer_node_id :: string
  fc_approvals :: "(string, string) dict"
  fc_rejections :: "(string, string) dict"
  fc_zk_proof :: "string option"
  fc_created_at :: pyfloat
  fc_finalized :: bool

definition approval_count :: "federation_consensus \<Rightarrow> nat" where
  "approval_count c = length (fc_approvals c)"

definition rejection_count :: "federation_consensus \<Rightarrow> nat" where
  "rejection_count c = length (fc_rejections c)"

text \<open>\<open>has_quorum\<close>: the product is a float, and \<open>int\<close> truncates it.\<close>

definition required_approvals :: "nat \<Rightarrow> pyfloat \<Rightarrow> int result" where
  "required_approvals total_members threshold = fl_int (fl_mul (fl_nat total_members) threshold)"

definition has_quorum :: "nat \<Rightarrow> pyfloat \<Rightarrow> federation_consensus \<Rightarrow> bool result" where
  "has_quorum total_members threshold c =
     bindE (required_approvals total_members threshold) (\<lambda>required. Inr (int (approval_count c) \<ge> required))"

record federation =
  fd_local_node_id :: string
  fd_client :: att_client
  fd_quorum_threshold :: pyfloat
  fd_state :: federation_state
  fd_members :: "(string, federation_member) dict"
  fd_channels :: "(string, secure_channel) dict"
  fd_pending_consensus :: "(string, federation_consensus) dict"
  fd_ek :: string
  fd_dk :: string
  fd_pk :: string
  fd_sk :: string

definition federation_init :: "bool \<Rightarrow> string \<Rightarrow> att_client \<Rightarrow> pyfloat \<Rightarrow> federation result" where
  "federation_init has_rust local_node_id client threshold =
     (if \<not> has_rust then Inl RuntimeError
      else Inr \<lparr>fd_local_node_id = local_node_id, fd_client = client, fd_quorum_threshold = threshold,
                fd_state = INITIALIZING, fd_members = [], fd_channels = [], fd_pending_consensus = [],
                fd_ek = [], fd_dk = [], fd_pk = [], fd_sk = []\<rparr>)"

section \<open>Operations\<close>

definition bootstrap ::
  "(string \<times> string) result \<Rightarrow> (string \<times> string) result \<Rightarrow> federation \<Rightarrow> bool \<times> federation" where
  "bootstrap kem_keygen generate_keypair f =
     (let f1 = f\<lparr>fd_state := BOOTSTRAPPING\<rparr>
      in case kem_keygen of
           Inl _ \<Rightarrow> (False, f1\<lparr>fd_state := HALTED\<rparr>)
         | Inr (ek, dk) \<Rightarrow>
             (let f2 = f1\<lparr>fd_ek := ek, fd_dk := dk\<rparr>
              in case generate_keypair of
                   Inl _ \<Rightarrow> (False, f2\<lparr>fd_state := HALTED\<rparr>)
                 | Inr (pk, sk) \<Rightarrow> (True, f2\<lparr>fd_pk := pk, fd_sk := sk, fd_state := ACTIVE\<rparr>)))"

definition make_member :: "pyfloat \<Rightarrow> string \<Rightarrow> node_role \<Rightarrow> report option \<Rightarrow> federation_member" where
  "make_member now host role att =
     \<lparr>fm_node_id = (case att of Some r \<Rightarrow> ar_node_id r | None \<Rightarrow> ''unknown-'' @ host), fm_host = host,
      fm_role = role, fm_encapsulation_key = [], fm_signing_key = [], fm_attestation = att,
      fm_last_seen = now, fm_is_active = (case att of Some r \<Rightarrow> ar_verified r | None \<Rightarrow> False)\<rparr>"

definition add_member ::
  "(string \<Rightarrow> att_client \<Rightarrow> report option result \<times> att_client) \<Rightarrow> pyfloat \<Rightarrow> string \<Rightarrow> node_role \<Rightarrow> bool \<Rightarrow>
   federation \<Rightarrow> federation_member option result \<times> federation" where
  "add_member fetch now host role fetch_att f =
     (let admit = (\<lambda>att f. let m = make_member now host role att
                           in (Inr (Some m), f\<lparr>fd_members := dset (fm_node_id m) m (fd_members f)\<rparr>))
      in if fetch_att then
           (case fetch host (fd_client f) of
              (Inl err, c) \<Rightarrow> (Inl err, f\<lparr>fd_client := c\<rparr>)
            | (Inr None, c) \<Rightarrow> (Inr None, f\<lparr>fd_client := c\<rparr>)
            | (Inr (Some r), c) \<Rightarrow>
                if \<not> ar_verified r then (Inr None, f\<lparr>fd_client := c\<rparr>)
                else admit (Some r) (f\<lparr>fd_client := c\<rparr>))
         else admit None f)"

definition establish_channel ::
  "(string \<Rightarrow> (string \<times> string) result) \<Rightarrow> pyfloat \<Rightarrow> string \<Rightarrow> federation \<Rightarrow> secure_channel option \<times> federation" where
  "establish_channel encapsulate now remote f =
     (case dget (fd_members f) remote of
        None \<Rightarrow> (None, f)
      | Some m \<Rightarrow>
          if fm_encapsulation_key m = [] then (None, f)
          else
            (case encapsulate (fm_encapsulation_key m) of
               Inl _ \<Rightarrow> (None, f)
             | Inr (ss, ct) \<Rightarrow>
                 (let ch = \<lparr>sc_local_node_id = fd_local_node_id f, sc_remote_node_id = remote, sc_session_key = ss,
                            sc_ciphertext = ct, sc_established_at = now, sc_message_count = 0\<rparr>
                  in (Some ch, f\<lparr>fd_channels := dset remote ch (fd_channels f)\<rparr>))))"

definition get_local_keys :: "federation \<Rightarrow> (string, string) dict" where
  "get_local_keys f = [(''node_id'', fd_local_node_id f), (''encapsulation_key'', fd_ek f), (''signing_key'', fd_pk f)]"

definition set_member_keys :: "string \<Rightarrow> string \<Rightarrow> string \<Rightarrow> federation \<Rightarrow> bool \<times> federation" where
  "set_member_keys node_id ek sgk f =
     (case dget (fd_members f) node_id of
        None \<Rightarrow> (False, f)
      | Some m \<Rightarrow>
          (True, f\<lparr>fd_members := dset node_id (m\<lparr>fm_encapsulation_key := ek, fm_signing_key := sgk\<rparr>) (fd_members f)\<rparr>))"

definition decision_id_of :: "string \<Rightarrow> string" where
  "decision_id_of hash = ''fd-'' @ take 16 hash"

text \<open>\<open>propose_decision\<close> reads the clock twice: for the epoch, and for the record's creation time.\<close>

definition propose_decision ::
  "(string \<Rightarrow> string) \<Rightarrow> ('d \<Rightarrow> string) \<Rightarrow> (string \<Rightarrow> string \<Rightarrow> string result) \<Rightarrow> pyfloat \<Rightarrow> pyfloat \<Rightarrow> 'd \<Rightarrow>
   federation \<Rightarrow> federation_consensus option result \<times> federation" where
  "propose_decision H show_items sign now created dat f =
     (if fd_state f \<noteq> ACTIVE then (Inr None, f)
      else
        (let hash = H (show_items dat); did = decision_id_of hash
         in case bindE (fl_int now) (\<lambda>epoch. bindE (sign (fd_sk f) hash) (\<lambda>sg. Inr (epoch, sg))) of
              Inl err \<Rightarrow> (Inl err, f)
            | Inr (epoch, sg) \<Rightarrow>
                (let c = \<lparr>fc_decision_id = did, fc_decision_hash = hash, fc_epoch = epoch,
                          fc_proposer_node_id = fd_local_node_id f, fc_approvals = [(fd_local_node_id f, sg)],
                          fc_rejections = [], fc_zk_proof = None, fc_created_at = created, fc_finalized = False\<rparr>
                 in (Inr (Some c), f\<lparr>fd_pending_consensus := dset did c (fd_pending_consensus f)\<rparr>))))"

definition approve_decision ::
  "(string \<Rightarrow> string \<Rightarrow> string result) \<Rightarrow> string \<Rightarrow> federation \<Rightarrow> bool result \<times> federation" where
  "approve_decision sign did f =
     (case dget (fd_pending_consensus f) did of
        None \<Rightarrow> (Inr False, f)
      | Some c \<Rightarrow>
          (case sign (fd_sk f) (fc_decision_hash c) of
             Inl err \<Rightarrow> (Inl err, f)
           | Inr sg \<Rightarrow>
               (Inr True, f\<lparr>fd_pending_consensus :=
                  dset did (c\<lparr>fc_approvals := dset (fd_local_node_id f) sg (fc_approvals c)\<rparr>) (fd_pending_consensus f)\<rparr>)))"

definition reject_decision ::
  "(string \<Rightarrow> string \<Rightarrow> string result) \<Rightarrow> string \<Rightarrow> string \<Rightarrow> federation \<Rightarrow> bool result \<times> federation" where
  "reject_decision sign did reason f =
     (case dget (fd_pending_consensus f) did of
        None \<Rightarrow> (Inr False, f)
      | Some c \<Rightarrow>
          (case sign (fd_sk f) (''REJECT:'' @ fc_decision_hash c @ '':'' @ reason) of
             Inl err \<Rightarrow> (Inl err, f)
           | Inr sg \<Rightarrow>
               (Inr True, f\<lparr>fd_pending_consensus :=
                  dset did (c\<lparr>fc_rejections := dset (fd_local_node_id f) sg (fc_rejections c)\<rparr>) (fd_pending_consensus f)\<rparr>)))"

definition finalize_decision :: "string \<Rightarrow> federation \<Rightarrow> bool result \<times> federation" where
  "finalize_decision did f =
     (case dget (fd_pending_consensus f) did of
        None \<Rightarrow> (Inr False, f)
      | Some c \<Rightarrow>
          if fc_finalized c then (Inr True, f)
          else
            (case has_quorum (length (fd_members f) + 1) (fd_quorum_threshold f) c of
               Inl err \<Rightarrow> (Inl err, f)
             | Inr False \<Rightarrow> (Inr False, f)
             | Inr True \<Rightarrow>
                 (Inr True, f\<lparr>fd_pending_consensus := dset did (c\<lparr>fc_finalized := True\<rparr>) (fd_pending_consensus f)\<rparr>)))"

definition get_active_members :: "federation \<Rightarrow> federation_member list" where
  "get_active_members f = filter fm_is_active (dvalues (fd_members f))"

record federation_summary =
  fs_state :: federation_state
  fs_local_node_id :: string
  fs_member_count :: nat
  fs_active_members :: nat
  fs_channel_count :: nat
  fs_pending_decisions :: nat
  fs_quorum_threshold :: pyfloat
  fs_fingerprint :: string

definition federation_get_state :: "(string \<Rightarrow> string) \<Rightarrow> federation \<Rightarrow> federation_summary" where
  "federation_get_state H f =
     \<lparr>fs_state = fd_state f, fs_local_node_id = fd_local_node_id f, fs_member_count = length (fd_members f),
      fs_active_members = length (get_active_members f), fs_channel_count = length (fd_channels f),
      fs_pending_decisions = length (fd_pending_consensus f), fs_quorum_threshold = fd_quorum_threshold f,
      fs_fingerprint = federation_fingerprint H (fd_client f)\<rparr>"

section \<open>The federation as a machine\<close>

text \<open>
  The operations of a run, each with the answers it gets: the generated keys, the remote command and
  the clock readings of an attestation, the encapsulation.
\<close>

datatype 'd fed_op =
    Bootstrap "(string \<times> string) result" "(string \<times> string) result"
  | AddMember "sovereign_node \<Rightarrow> string option" "nat \<Rightarrow> pyfloat" pyfloat string node_role bool
  | EstablishChannel "string \<Rightarrow> (string \<times> string) result" pyfloat string
  | SetMemberKeys string string string
  | ProposeDecision pyfloat pyfloat 'd
  | ApproveDecision string
  | RejectDecision string string
  | FinalizeDecision string

fun fed_step ::
  "(string \<Rightarrow> string) \<Rightarrow> (string \<Rightarrow> att_data result) \<Rightarrow> ('d \<Rightarrow> string) \<Rightarrow> (string \<Rightarrow> string \<Rightarrow> string result) \<Rightarrow>
   'd fed_op \<Rightarrow> federation \<Rightarrow> federation" where
  "fed_step H parse show_items sign (Bootstrap kem gen) f = snd (bootstrap kem gen f)"
| "fed_step H parse show_items sign (AddMember ssh tm now host role b) f =
     snd (add_member (\<lambda>h. fetch_attestation H ssh parse tm h True) now host role b f)"
| "fed_step H parse show_items sign (EstablishChannel encaps now r) f = snd (establish_channel encaps now r f)"
| "fed_step H parse show_items sign (SetMemberKeys i ek sgk) f = snd (set_member_keys i ek sgk f)"
| "fed_step H parse show_items sign (ProposeDecision now created dat) f =
     snd (propose_decision H show_items sign now created dat f)"
| "fed_step H parse show_items sign (ApproveDecision did) f = snd (approve_decision sign did f)"
| "fed_step H parse show_items sign (RejectDecision did reason) f = snd (reject_decision sign did reason f)"
| "fed_step H parse show_items sign (FinalizeDecision did) f = snd (finalize_decision did f)"

definition member_ok :: "(string \<Rightarrow> string) \<Rightarrow> string \<Rightarrow> federation_member \<Rightarrow> bool" where
  "member_ok H i m \<longleftrightarrow> fm_node_id m = i \<and>
     (case fm_attestation m of
        Some r \<Rightarrow> ar_verified r \<and> report_ok H r \<and> i = ar_node_id r \<and> fm_is_active m
      | None \<Rightarrow> \<not> fm_is_active m)"

definition consensus_ok :: "string \<Rightarrow> string \<Rightarrow> federation_consensus \<Rightarrow> bool" where
  "consensus_ok me i c \<longleftrightarrow> fc_decision_id c = i \<and> i = decision_id_of (fc_decision_hash c) \<and>
     fc_proposer_node_id c = me \<and> dkeys (fc_approvals c) = [me]"

definition fed_ok :: "(string \<Rightarrow> string) \<Rightarrow> federation \<Rightarrow> bool" where
  "fed_ok H f \<longleftrightarrow> client_ok H (fd_client f) \<and> dict_ok (fd_members f) \<and>
     (\<forall>i m. dget (fd_members f) i = Some m \<longrightarrow> member_ok H i m) \<and>
     (\<forall>i c. dget (fd_pending_consensus f) i = Some c \<longrightarrow> consensus_ok (fd_local_node_id f) i c)"

lemma fed_ok_fields [simp]:
  "fed_ok H (f\<lparr>fd_state := s\<rparr>) = fed_ok H f" "fed_ok H (f\<lparr>fd_channels := cs\<rparr>) = fed_ok H f"
  "fed_ok H (f\<lparr>fd_ek := a\<rparr>) = fed_ok H f" "fed_ok H (f\<lparr>fd_dk := a\<rparr>) = fed_ok H f"
  "fed_ok H (f\<lparr>fd_pk := a\<rparr>) = fed_ok H f" "fed_ok H (f\<lparr>fd_sk := a\<rparr>) = fed_ok H f"
  by (simp_all add: fed_ok_def)

lemma fed_ok_client: "fed_ok H f \<Longrightarrow> client_ok H c \<Longrightarrow> fed_ok H (f\<lparr>fd_client := c\<rparr>)"
  by (simp add: fed_ok_def)

lemma fed_ok_member: "fed_ok H f \<Longrightarrow> member_ok H i m \<Longrightarrow> fed_ok H (f\<lparr>fd_members := dset i m (fd_members f)\<rparr>)"
  by (auto simp: fed_ok_def)

lemma fed_ok_admit:
  "fed_ok H f \<Longrightarrow> client_ok H c \<Longrightarrow> member_ok H i m \<Longrightarrow>
   fed_ok H (f\<lparr>fd_client := c, fd_members := dset i m (fd_members f)\<rparr>)"
  by (auto simp: fed_ok_def)

lemma fed_ok_memberD: "fed_ok H f \<Longrightarrow> dget (fd_members f) i = Some m \<Longrightarrow> member_ok H i m"
  by (simp add: fed_ok_def)

lemma member_ok_keys [simp]:
  "member_ok H i (m\<lparr>fm_encapsulation_key := a, fm_signing_key := b\<rparr>) = member_ok H i m"
  by (simp add: member_ok_def split: option.splits)

lemma fed_ok_pending:
  "fed_ok H f \<Longrightarrow> consensus_ok (fd_local_node_id f) i c \<Longrightarrow>
   fed_ok H (f\<lparr>fd_pending_consensus := dset i c (fd_pending_consensus f)\<rparr>)"
  by (auto simp: fed_ok_def)

lemma fed_ok_lookup: "fed_ok H f \<Longrightarrow> dget (fd_pending_consensus f) i = Some c \<Longrightarrow> consensus_ok (fd_local_node_id f) i c"
  by (auto simp: fed_ok_def)

lemma dkeys_dset_single: "dkeys d = [k] \<Longrightarrow> dkeys (dset k v d) = [k]"
  by (cases d) (auto simp: dkeys_def dset_Cons)

lemma consensus_ok_updates [simp]:
  "consensus_ok me i c \<Longrightarrow> consensus_ok me i (c\<lparr>fc_approvals := dset me sg (fc_approvals c)\<rparr>)"
  "consensus_ok me i (c\<lparr>fc_rejections := r\<rparr>) = consensus_ok me i c"
  "consensus_ok me i (c\<lparr>fc_finalized := b\<rparr>) = consensus_ok me i c"
  by (auto simp: consensus_ok_def dkeys_dset_single)

lemma add_member_ok:
  assumes "fed_ok H f"
  shows "fed_ok H (snd (add_member (\<lambda>h. fetch_attestation H ssh parse tm h True) now host role b f))"
proof -
  have c: "client_ok H (fd_client f)" using assms by (simp add: fed_ok_def)
  have m: "member_ok H (fm_node_id m) m"
    if "m = make_member now host role att" "\<And>r. att = Some r \<Longrightarrow> ar_verified r \<and> report_ok H r" for m att
    using that by (auto simp: make_member_def member_ok_def split: option.splits)
  obtain q c1 where q: "fetch_attestation H ssh parse tm host True (fd_client f) = (q, c1)" by fastforce
  then have "client_ok H c1" "\<And>r. q = Inr (Some r) \<Longrightarrow> report_ok H r"
    using fetch_attestation_ok [OF c, of ssh parse tm host True] by (auto simp: q)
  then show ?thesis
    using assms m [OF refl, of None] m [OF refl, of "Some _"]
    by (auto simp: add_member_def q Let_def fed_ok_client intro!: fed_ok_member fed_ok_admit
        split: sum.splits option.splits)
qed

interpretation fed: machine "fed_step H parse show_items sign" "fed_ok H"
  for H parse show_items sign
proof (unfold_locales, goal_cases)
  case (1 f x)
  note ok = this
  show ?case
  proof (cases x)
    case (AddMember ssh tm now host role b)
    then show ?thesis using add_member_ok [OF ok] by simp
  next
    case (SetMemberKeys i ek sgk)
    then show ?thesis using ok
      by (auto simp: set_member_keys_def intro!: fed_ok_member dest: fed_ok_memberD split: option.splits)
  next
    case (ProposeDecision now created dat)
    have "consensus_ok me (decision_id_of h) \<lparr>fc_decision_id = decision_id_of h, fc_decision_hash = h, fc_epoch = e,
        fc_proposer_node_id = me, fc_approvals = [(me, sg)], fc_rejections = [], fc_zk_proof = None,
        fc_created_at = t, fc_finalized = False\<rparr>" for me h e sg t
      by (simp add: consensus_ok_def dkeys_def)
    then show ?thesis using ok ProposeDecision
      by (auto simp: propose_decision_def Let_def intro!: fed_ok_pending split: sum.splits)
  qed (auto simp: ok bootstrap_def establish_channel_def approve_decision_def reject_decision_def finalize_decision_def
        Let_def fed_ok_lookup [OF ok] intro!: fed_ok_pending [OF ok] split: sum.splits option.splits if_splits bool.splits)
qed

lemma federation_init_ok: "client_ok H c \<Longrightarrow> federation_init True me c thr = Inr f \<Longrightarrow> fed_ok H f"
  by (auto simp: federation_init_def fed_ok_def)

lemma step_local_node [simp]:
  "fd_local_node_id (fed_step H parse show_items sign x f) = fd_local_node_id f"
  "fd_quorum_threshold (fed_step H parse show_items sign x f) = fd_quorum_threshold f"
  by (cases x; auto simp: bootstrap_def establish_channel_def approve_decision_def reject_decision_def
      finalize_decision_def set_member_keys_def propose_decision_def add_member_def Let_def
      split: sum.splits option.splits if_splits bool.splits prod.splits)+

lemma run_threshold [simp]:
  "fd_quorum_threshold (fold (fed_step H parse show_items sign) ops f) = fd_quorum_threshold f"
  by (induction ops arbitrary: f) auto

section \<open>The quorum rule\<close>

text \<open>The double nearest to 0.67, the default threshold.\<close>

definition THRESHOLD_067 :: rat where
  "THRESHOLD_067 = 6034823500676465 / 9007199254740992"

lemma required_bracket:
  assumes "n < 2 ^ 52"
  shows "\<exists>r. required_approvals n (Fin THRESHOLD_067) = Inr r \<and>
           \<lfloor>of_nat n * THRESHOLD_067\<rfloor> \<le> r \<and> of_int r \<le> fl_round (of_nat n * THRESHOLD_067)"
proof -
  let ?x = "of_nat n * THRESHOLD_067"
  have n: "(of_nat n :: rat) < 2 ^ 52" using assms by (metis of_nat_less_iff of_nat_numeral of_nat_power)
  have x: "0 \<le> ?x" "?x \<le> of_nat n" by (simp_all add: THRESHOLD_067_def)
  have "\<bar>\<lfloor>?x\<rfloor>\<bar> < 2 ^ 53" using x n by simp
  moreover have "?x \<le> of_int (int n)" using x by simp
  moreover have "\<bar>int n\<bar> < 2 ^ 53" using assms by simp
  ultimately have f: "fl_of_rat ?x = Fin (fl_round ?x)" and lo: "of_int \<lfloor>?x\<rfloor> \<le> fl_round ?x"
    using fl_of_rat_bracket [of "\<lfloor>?x\<rfloor>" ?x "int n"] of_int_floor_le by blast+
  have "0 \<le> fl_round ?x" by (rule fl_round_nonneg) (rule x)
  then have "required_approvals n (Fin THRESHOLD_067) = Inr \<lfloor>fl_round ?x\<rfloor>"
    by (simp add: required_approvals_def f)
  with lo show ?thesis by (auto simp: le_floor_iff)
qed

lemma required_exact:
  assumes "0 < n" "n < 2 ^ 52" "of_int k \<le> of_nat n * THRESHOLD_067"
    and "of_nat n * THRESHOLD_067 * (1 + 1 / 2 ^ 53) < of_int k + 1"
  shows "required_approvals n (Fin THRESHOLD_067) = Inr k"
proof -
  let ?x = "of_nat n * THRESHOLD_067"
  have "1 \<le> (of_nat n :: rat)" using assms(1) by simp
  then have "1 / 2 \<le> ?x" by (simp add: THRESHOLD_067_def)
  from fl_round_error_half [OF this] have "fl_round ?x \<le> ?x + ?x / 2 ^ 53" unfolding abs_le_iff by linarith
  also have "\<dots> = ?x * (1 + 1 / 2 ^ 53)" by (simp only: distrib_left mult_1_right times_divide_eq_right)
  also note assms(4)
  finally have up: "fl_round ?x < of_int k + 1" .
  obtain r where r: "required_approvals n (Fin THRESHOLD_067) = Inr r" "\<lfloor>?x\<rfloor> \<le> r" "of_int r \<le> fl_round ?x"
    using required_bracket [OF assms(2)] by auto
  have "k \<le> \<lfloor>?x\<rfloor>" using assms(3) by (simp add: le_floor_iff)
  moreover have "of_int r < (of_int (k + 1) :: rat)" using r(3) up by simp
  then have "r \<le> k" unfolding of_int_less_iff by simp
  ultimately show ?thesis using r by simp
qed

lemma required_small:
  "required_approvals 1 (Fin THRESHOLD_067) = Inr 0"
  "required_approvals 2 (Fin THRESHOLD_067) = Inr 1"
  "required_approvals 4 (Fin THRESHOLD_067) = Inr 2"
  by (rule required_exact; simp add: THRESHOLD_067_def)+

lemma required_0: "required_approvals 0 thr = Inr r \<Longrightarrow> r = 0"
  by (cases thr) (auto simp: required_approvals_def fl_of_rat_def)

lemma required_majority:
  assumes "n < 2 ^ 52" "n \<notin> {0, 1, 2, 4}" "required_approvals n (Fin THRESHOLD_067) = Inr r"
  shows "int n < 2 * r"
proof -
  let ?x = "of_nat n * THRESHOLD_067"
  have r: "\<lfloor>?x\<rfloor> \<le> r" using required_bracket [OF assms(1)] assms(3) by auto
  consider "n = 3" | "n = 5" | "6 \<le> n" using assms(2) by force
  then have "int n < 2 * \<lfloor>?x\<rfloor>"
  proof cases
    case 1
    then have "2 \<le> \<lfloor>?x\<rfloor>" by (simp add: le_floor_iff THRESHOLD_067_def)
    with 1 show ?thesis by linarith
  next
    case 2
    then have "3 \<le> \<lfloor>?x\<rfloor>" by (simp add: le_floor_iff THRESHOLD_067_def)
    with 2 show ?thesis by linarith
  next
    case 3
    then have "(6 :: rat) \<le> of_nat n" by simp
    then have "of_nat n + 2 \<le> 2 * ?x" by (simp add: THRESHOLD_067_def field_simps)
    moreover have "?x < of_int \<lfloor>?x\<rfloor> + 1" by linarith
    ultimately have "of_int (int n) < (of_int (2 * \<lfloor>?x\<rfloor>) :: rat)" by simp
    then show ?thesis by (simp only: of_int_less_iff)
  qed
  with r show ?thesis by linarith
qed

section \<open>Properties\<close>

text \<open>
  C12. Whatever operations a federation has performed, every active member has a verified attestation
  whose fingerprint is the hash of its chip id and its MAC address, and it is listed under the node id
  made from that fingerprint.
\<close>
theorem active_members_are_attested:
  assumes "federation_init True me client_init thr = Inr f0"
    and "f = fold (fed_step H parse show_items sign) ops f0"
    and "dget (fd_members f) i = Some m" and "fm_is_active m"
  shows "\<exists>r. fm_attestation m = Some r \<and> ar_verified r \<and> ar_fingerprint r = H (hardware_text r) \<and>
           i = ''wl-'' @ take 16 (ar_fingerprint r)"
proof -
  have "client_ok H client_init" by (simp add: client_ok_def client_init_def)
  then have "fed_ok H f" unfolding assms(2) by (intro fed.run_inv) (rule federation_init_ok [OF _ assms(1)])
  then have "member_ok H i m" using assms(3) by (rule fed_ok_memberD)
  then show ?thesis using assms(4) by (auto simp: member_ok_def report_ok_def report_node_id_def split: option.splits)
qed

text \<open>
  C24. With the default threshold, reaching the quorum means having more than half of the members
  behind a decision exactly when the federation does not have one, two or four members: the float
  product is truncated, so two of four members are a quorum, and so are the other two.
\<close>
theorem quorum_is_majority_iff:
  assumes "0 < n" and "n < 2 ^ 52"
  shows "(\<forall>c. has_quorum n (Fin THRESHOLD_067) c = Inr True \<longrightarrow> n < 2 * approval_count c) \<longleftrightarrow> n \<notin> {1, 2, 4}"
proof
  assume all: "\<forall>c. has_quorum n (Fin THRESHOLD_067) c = Inr True \<longrightarrow> n < 2 * approval_count c"
  show "n \<notin> {1, 2, 4}"
  proof
    assume "n \<in> {1, 2, 4}"
    then have "required_approvals n (Fin THRESHOLD_067) = Inr (int (n div 2))" using required_small by auto
    moreover define c where "c = \<lparr>fc_decision_id = [], fc_decision_hash = [], fc_epoch = 0, fc_proposer_node_id = [],
        fc_approvals = replicate (n div 2) ([], []), fc_rejections = [], fc_zk_proof = None, fc_created_at = Fin 0,
        fc_finalized = False\<rparr>"
    ultimately have "has_quorum n (Fin THRESHOLD_067) c = Inr True" "approval_count c = n div 2"
      by (simp_all add: has_quorum_def approval_count_def)
    with all have "n < 2 * (n div 2)" by metis
    then show False by simp
  qed
next
  assume n: "n \<notin> {1, 2, 4}"
  show "\<forall>c. has_quorum n (Fin THRESHOLD_067) c = Inr True \<longrightarrow> n < 2 * approval_count c"
  proof (intro allI impI)
    fix c
    assume "has_quorum n (Fin THRESHOLD_067) c = Inr True"
    then obtain r where r: "required_approvals n (Fin THRESHOLD_067) = Inr r" "r \<le> int (approval_count c)"
      by (auto simp: has_quorum_def bindE_Inr_iff)
    have "int n < 2 * r" using required_majority [OF assms(2) _ r(1)] n assms(1) by simp
    with r(2) show "n < 2 * approval_count c" by linarith
  qed
qed

theorem quorum_is_majority_iff_witness:
  "(\<exists>c. has_quorum 4 (Fin THRESHOLD_067) c = Inr True \<and> \<not> 4 < 2 * approval_count c) \<and> (7 :: nat) \<notin> {1, 2, 4}"
  using quorum_is_majority_iff [of 4] by simp

text \<open>
  A decision of a federation with two or more other members and the default threshold can never
  be finalised: a decision holds no approval but the local one, and two are required.
\<close>
theorem larger_federation_never_finalizes:
  assumes "federation_init True me client_init (Fin THRESHOLD_067) = Inr f0"
    and "f = fold (fed_step H parse show_items sign) ops f0"
    and "dget (fd_pending_consensus f) did = Some c" and "\<not> fc_finalized c"
    and "2 \<le> length (fd_members f)" and "length (fd_members f) < 2 ^ 51"
  shows "finalize_decision did f = (Inr False, f)"
proof -
  let ?n = "length (fd_members f) + 1"
  have "client_ok H client_init" by (simp add: client_ok_def client_init_def)
  then have "fed_ok H f" unfolding assms(2) by (intro fed.run_inv) (rule federation_init_ok [OF _ assms(1)])
  then have "dkeys (fc_approvals c) = [fd_local_node_id f]" using fed_ok_lookup assms(3) by (auto simp: consensus_ok_def)
  then have one: "approval_count c = 1" by (auto simp: approval_count_def dkeys_def)
  have thr: "fd_quorum_threshold f = Fin THRESHOLD_067" using assms(1,2) by (auto simp: federation_init_def)
  have n: "?n < 2 ^ 52" using assms(6) by simp
  from required_bracket [OF n] obtain r where
    r: "required_approvals ?n (Fin THRESHOLD_067) = Inr r" "\<lfloor>of_nat ?n * THRESHOLD_067\<rfloor> \<le> r" by auto
  have "(3 :: rat) \<le> of_nat ?n" using assms(5) by simp
  then have "2 \<le> of_nat ?n * THRESHOLD_067" by (simp add: THRESHOLD_067_def)
  then have "2 \<le> r" using r(2) by linarith
  then show ?thesis using assms(3,4) one thr r(1) by (simp add: finalize_decision_def has_quorum_def)
qed

section \<open>Witnesses\<close>

definition demo_answer :: att_data where
  "demo_answer = \<lparr>ad_strings = [(''chip_id'', ''c1''), (''mac_address'', ''m1''), (''fingerprint'', ''c1:m1'' @ [CHR 0x0A])],
                  ad_ints = [(''timestamp'', 100)]\<rparr>"

lemma demo_verified: "verify_attestation (\<lambda>x. x) (Fin 200) (make_report demo_answer) = Inr True"
proof -
  have "fl_of_int 100 = Inr (Fin 100)" using fl_of_rat_int [of 100] by (simp add: fl_of_int_def)
  moreover have "fl_sub (Fin 200) (Fin 100) = Fin 100" using fl_sub_ints [of 200 100] by simp
  ultimately show ?thesis
    by (simp add: verify_attestation_def make_report_def demo_answer_def str_or_def int_or_def hardware_text_def dget_Cons)
qed

definition demo_fed :: federation where
  "demo_fed = (case federation_init True ''n0'' client_init (Fin THRESHOLD_067) of Inr f \<Rightarrow> f | Inl _ \<Rightarrow> undefined)"

lemma demo_fed: "federation_init True ''n0'' client_init (Fin THRESHOLD_067) = Inr demo_fed"
  by (simp add: demo_fed_def federation_init_def)

lemma demo_member:
  "\<exists>m. dget (fd_members (fold (fed_step (\<lambda>x. x) (\<lambda>_. Inr demo_answer) (\<lambda>d. d) (\<lambda>k m. Inr m))
     [AddMember (\<lambda>_. Some []) (\<lambda>_. Fin 200) (Fin 201) ''h1'' VALIDATOR True] demo_fed))
     (''wl-c1:m1'' @ [CHR 0x0A]) = Some m \<and> fm_is_active m"
  using demo_verified
  by (simp add: demo_fed_def federation_init_def add_member_def fetch_attestation_def cached_report_def client_init_def
      node_for_def Let_def make_member_def case_prod_unfold)
    (simp add: make_report_def demo_answer_def str_or_def report_node_id_def dget_Cons)

theorem active_members_are_attested_witness:
  "\<exists>(m :: federation_member) r. fm_attestation m = Some r \<and> ar_verified r \<and> ar_fingerprint r = hardware_text r \<and>
     ''wl-c1:m1'' @ [CHR 0x0A] = ''wl-'' @ take 16 (ar_fingerprint r)"
proof -
  obtain m where
    m: "dget (fd_members (fold (fed_step (\<lambda>x. x) (\<lambda>_. Inr demo_answer) (\<lambda>d. d) (\<lambda>k m. Inr m))
          [AddMember (\<lambda>_. Some []) (\<lambda>_. Fin 200) (Fin 201) ''h1'' VALIDATOR True] demo_fed))
          (''wl-c1:m1'' @ [CHR 0x0A]) = Some m" and "fm_is_active m"
    using demo_member by blast
  from active_members_are_attested [OF demo_fed refl m this(2)] show ?thesis by blast
qed

definition demo_ops :: "string fed_op list" where
  "demo_ops = [Bootstrap (Inr (''e'', ''d'')) (Inr (''p'', ''s'')),
     AddMember (\<lambda>_. None) (\<lambda>_. Fin 0) (Fin 1) ''h1'' VALIDATOR False,
     AddMember (\<lambda>_. None) (\<lambda>_. Fin 0) (Fin 1) ''h2'' VALIDATOR False,
     ProposeDecision (Fin 5) (Fin 5) ''x'']"

theorem larger_federation_never_finalizes_witness:
  "fst (finalize_decision ''fd-x''
     (fold (fed_step (\<lambda>x. x) (\<lambda>_. Inr demo_answer) (\<lambda>d. d) (\<lambda>k m. Inr m)) demo_ops demo_fed)) = Inr False"
proof -
  let ?f = "fold (fed_step (\<lambda>x. x) (\<lambda>_. Inr demo_answer) (\<lambda>d. d) (\<lambda>k m. Inr m)) demo_ops demo_fed"
  have "\<exists>c. dget (fd_pending_consensus ?f) ''fd-x'' = Some c \<and> \<not> fc_finalized c" and "length (fd_members ?f) = 2"
    by (simp_all add: demo_ops_def demo_fed_def federation_init_def bootstrap_def add_member_def make_member_def
        propose_decision_def decision_id_of_def Let_def dset_Cons dget_Cons)
  then show ?thesis using larger_federation_never_finalizes [OF demo_fed refl, where did = "''fd-x''"] by fastforce
qed

end
