(* ===== verification/Multi_Region.thy ===== *)
theory Multi_Region
  imports Federation State_Sync
begin

text \<open>
  Federation across regions, \<^verbatim>\<open>kernel/federation/multi_region.py\<close>: the latency-based selector, the
  health of regions, global decisions handed to the state synchroniser, the pending synchronisations and
  the detection of partitions. The mean of a list of samples is the argument \<open>mean\<close>, because the rounding
  of Python's \<open>sum\<close> differs between the versions the project supports; \<open>dumps\<close> is the JSON encoding of a
  decision, and the random ids of batches are given by region. The attestation client every federation
  shares is the argument \<open>client\<close>. Callbacks observe; \<open>cb_ok\<close> tells whether the completion callback
  returns.
\<close>

section \<open>Regions\<close>

datatype region = US_EAST | US_WEST | EU_WEST | EU_CENTRAL | ASIA_PACIFIC | ASIA_SOUTH | SOVEREIGN_LOCAL

fun region_value :: "region \<Rightarrow> string" where
  "region_value US_EAST = ''us-east''"
| "region_value US_WEST = ''us-west''"
| "region_value EU_WEST = ''eu-west''"
| "region_value EU_CENTRAL = ''eu-central''"
| "region_value ASIA_PACIFIC = ''asia-pacific''"
| "region_value ASIA_SOUTH = ''asia-south''"
| "region_value SOVEREIGN_LOCAL = ''sovereign-local''"

record region_config =
  rc_region :: region
  rc_display_name :: string
  rc_primary_endpoint :: string
  rc_backup_endpoints :: "string list"
  rc_max_nodes :: int
  rc_min_nodes :: int
  rc_latency_threshold_ms :: int
  rc_is_primary :: bool
  rc_sync_interval_sec :: int
  rc_sync_batch_size :: int

record region_health =
  rh_region :: region
  rh_is_healthy :: bool
  rh_node_count :: int
  rh_active_nodes :: int
  rh_avg_latency_ms :: pyfloat
  rh_last_sync_timestamp :: pyfloat
  rh_pending_sync_count :: int
  rh_partition_detected :: bool

datatype sync_state = Pending | InProgress | Completed | Failed

record cross_region_sync =
  cs_origin_region :: region
  cs_target_region :: region
  cs_sync_id :: string
  cs_decision_ids :: "string list"
  cs_timestamp :: pyfloat
  cs_completed_at :: "pyfloat option"
  cs_status :: sync_state

section \<open>The selector\<close>

record region_selector =
  rs_latencies :: "region \<Rightarrow> pyfloat list"
  rs_max_samples :: nat

definition selector_init :: region_selector where
  "selector_init = \<lparr>rs_latencies = (\<lambda>r. []), rs_max_samples = 100\<rparr>"

definition record_latency :: "region \<Rightarrow> pyfloat \<Rightarrow> region_selector \<Rightarrow> region_selector" where
  "record_latency r ms s =
     (let samples = rs_latencies s r @ [ms];
          kept = (if length samples > rs_max_samples s then tl samples else samples)
      in s\<lparr>rs_latencies := (rs_latencies s)(r := kept)\<rparr>)"

definition get_avg_latency :: "(pyfloat list \<Rightarrow> pyfloat) \<Rightarrow> region_selector \<Rightarrow> region \<Rightarrow> pyfloat" where
  "get_avg_latency mean s r = (if rs_latencies s r = [] then PosInf else mean (rs_latencies s r))"

text \<open>The stable sort by a float key; its comparisons are a linear order as long as no key is NaN.\<close>

definition sort_by :: "('a \<Rightarrow> pyfloat) \<Rightarrow> 'a list \<Rightarrow> 'a list" where
  "sort_by k xs = sort_lt (\<lambda>x y. fl_lt (k x) (k y)) xs"

definition select_region ::
  "(pyfloat list \<Rightarrow> pyfloat) \<Rightarrow> region list \<Rightarrow> bool \<Rightarrow> region option \<Rightarrow> region_selector \<Rightarrow> region option" where
  "select_region mean available prefer_local local_region s =
     (case available of
        [] \<Rightarrow> None
      | [r] \<Rightarrow> Some r
      | _ \<Rightarrow>
          (case (if prefer_local then local_region else None) of
             Some l \<Rightarrow>
               if l \<in> set available \<and> fl_lt (get_avg_latency mean s l) (Fin 100) then Some l
               else Some (hd (sort_by (get_avg_latency mean s) available))
           | None \<Rightarrow> Some (hd (sort_by (get_avg_latency mean s) available))))"

section \<open>The manager\<close>

record multi_region =
  mr_local_node_id :: string
  mr_local_region :: region
  mr_quorum_threshold :: pyfloat
  mr_state :: federation_state
  mr_configs :: "(region, region_config) dict"
  mr_federations :: "(region, federation) dict"
  mr_health :: "(region, region_health) dict"
  mr_pending_syncs :: "(string, cross_region_sync) dict"
  mr_selector :: region_selector
  mr_state_sync :: synchronizer

definition multi_region_init :: "string \<Rightarrow> region \<Rightarrow> pyfloat \<Rightarrow> multi_region" where
  "multi_region_init node r threshold =
     \<lparr>mr_local_node_id = node, mr_local_region = r, mr_quorum_threshold = threshold, mr_state = INITIALIZING,
      mr_configs = [], mr_federations = [], mr_health = [], mr_pending_syncs = [], mr_selector = selector_init,
      mr_state_sync = sync_init (region_value r) node LAST_WRITER_WINS\<rparr>"

definition configure_region :: "region_config \<Rightarrow> multi_region \<Rightarrow> multi_region" where
  "configure_region c m =
     m\<lparr>mr_configs := dset (rc_region c) c (mr_configs m),
       mr_health := dset (rc_region c)
         \<lparr>rh_region = rc_region c, rh_is_healthy = False, rh_node_count = 0, rh_active_nodes = 0,
          rh_avg_latency_ms = Fin 0, rh_last_sync_timestamp = Fin 0, rh_pending_sync_count = 0,
          rh_partition_detected = False\<rparr> (mr_health m)\<rparr>"

text \<open>Mutating the health record of a region; a region without one is a KeyError.\<close>

definition update_health ::
  "region \<Rightarrow> (region_health \<Rightarrow> region_health) \<Rightarrow> multi_region \<Rightarrow> unit result \<times> multi_region" where
  "update_health r u m =
     (case dget (mr_health m) r of
        None \<Rightarrow> (Inl KeyError, m)
      | Some h \<Rightarrow> (Inr (), m\<lparr>mr_health := dset r (u h) (mr_health m)\<rparr>))"

text \<open>\<open>bootstrap_local\<close>: any exception halts the manager, a failed key generation leaves it as it was.\<close>

definition bootstrap_local ::
  "bool \<Rightarrow> att_client \<Rightarrow> (string \<times> string) result \<Rightarrow> (string \<times> string) result \<Rightarrow> pyfloat \<Rightarrow> multi_region \<Rightarrow> bool \<times> multi_region" where
  "bootstrap_local has_rust client kem gen now m =
     (if dget (mr_configs m) (mr_local_region m) = None then (False, m)
      else
        (case federation_init has_rust (mr_local_node_id m) client (mr_quorum_threshold m) of
           Inl _ \<Rightarrow> (False, m\<lparr>mr_state := HALTED\<rparr>)
         | Inr f \<Rightarrow>
             (case bootstrap kem gen f of
                (False, _) \<Rightarrow> (False, m)
              | (True, f1) \<Rightarrow>
                  (let m1 = m\<lparr>mr_federations := dset (mr_local_region m) f1 (mr_federations m), mr_state := ACTIVE\<rparr>
                   in case update_health (mr_local_region m)
                             (\<lambda>h. h\<lparr>rh_is_healthy := True, rh_node_count := 1, rh_active_nodes := 1,
                                    rh_last_sync_timestamp := now\<rparr>) m1 of
                        (Inl _, m2) \<Rightarrow> (False, m2\<lparr>mr_state := HALTED\<rparr>)
                      | (Inr _, m2) \<Rightarrow> (True, m2)))))"

definition connect_region ::
  "bool \<Rightarrow> att_client \<Rightarrow> pyfloat \<Rightarrow> pyfloat \<Rightarrow> region \<Rightarrow> multi_region \<Rightarrow> bool result \<times> multi_region" where
  "connect_region has_rust client t0 t1 r m =
     (if dget (mr_configs m) r = None then (Inr False, m)
      else
        (let fail = (\<lambda>m. case update_health r (\<lambda>h. h\<lparr>rh_is_healthy := False\<rparr>) m of
                           (Inl err, m') \<Rightarrow> (Inl err, m') | (Inr _, m') \<Rightarrow> (Inr False, m'))
         in case federation_init has_rust (mr_local_node_id m @ ''-proxy-'' @ region_value r) client (mr_quorum_threshold m) of
              Inl _ \<Rightarrow> fail m
            | Inr f \<Rightarrow>
                (let ms = fl_mul (fl_sub t1 t0) (Fin 1000);
                     m1 = m\<lparr>mr_selector := record_latency r ms (mr_selector m),
                            mr_federations := dset r f (mr_federations m)\<rparr>
                 in case update_health r (\<lambda>h. h\<lparr>rh_is_healthy := True, rh_avg_latency_ms := ms\<rparr>) m1 of
                      (Inl _, m2) \<Rightarrow> fail m2
                    | (Inr _, m2) \<Rightarrow> (Inr True, m2))))"

definition get_healthy_regions :: "multi_region \<Rightarrow> region list" where
  "get_healthy_regions m =
     map fst (filter (\<lambda>(r, h). rh_is_healthy h \<and> \<not> rh_partition_detected h) (mr_health m))"

definition select_region_for_request :: "(pyfloat list \<Rightarrow> pyfloat) \<Rightarrow> multi_region \<Rightarrow> region option" where
  "select_region_for_request mean m =
     select_region mean (get_healthy_regions m) True (Some (mr_local_region m)) (mr_selector m)"

text \<open>
  \<open>_schedule_global_sync\<close>: \<open>bid\<close> gives the batch ids, \<open>tm\<close> the two clock readings per region.
\<close>

definition schedule_one ::
  "(string \<Rightarrow> string) \<Rightarrow> (region \<Rightarrow> string) \<Rightarrow> (region \<Rightarrow> pyfloat \<times> pyfloat) \<Rightarrow> string \<Rightarrow> region \<Rightarrow> multi_region \<Rightarrow>
   unit result \<times> multi_region" where
  "schedule_one Hx bid tm did r m =
     (if r = mr_local_region m then (Inr (), m)
      else
        (let (b, ss) = create_sync_batch Hx (fst (tm r)) (bid r) (region_value r) (Some [did]) (mr_state_sync m);
             sync = \<lparr>cs_origin_region = mr_local_region m, cs_target_region = r, cs_sync_id = sb_batch_id b,
                     cs_decision_ids = [did], cs_timestamp = snd (tm r), cs_completed_at = None, cs_status = Pending\<rparr>
         in update_health r (\<lambda>h. h\<lparr>rh_pending_sync_count := rh_pending_sync_count h + 1\<rparr>)
              (m\<lparr>mr_state_sync := ss, mr_pending_syncs := dset (cs_sync_id sync) sync (mr_pending_syncs m)\<rparr>)))"

fun schedule_all ::
  "(string \<Rightarrow> string) \<Rightarrow> (region \<Rightarrow> string) \<Rightarrow> (region \<Rightarrow> pyfloat \<times> pyfloat) \<Rightarrow> string \<Rightarrow> region list \<Rightarrow> multi_region \<Rightarrow>
   unit result \<times> multi_region" where
  "schedule_all Hx bid tm did [] m = (Inr (), m)"
| "schedule_all Hx bid tm did (r # rs) m =
     (case schedule_one Hx bid tm did r m of
        (Inl err, m1) \<Rightarrow> (Inl err, m1)
      | (Inr _, m1) \<Rightarrow> schedule_all Hx bid tm did rs m1)"

definition schedule_global_sync ::
  "(string \<Rightarrow> string) \<Rightarrow> (region \<Rightarrow> string) \<Rightarrow> (region \<Rightarrow> pyfloat \<times> pyfloat) \<Rightarrow> string \<Rightarrow> multi_region \<Rightarrow>
   unit result \<times> multi_region" where
  "schedule_global_sync Hx bid tm did m = schedule_all Hx bid tm did (dkeys (mr_configs m)) m"

text \<open>
  \<open>propose_decision\<close>: \<open>dat\<close> is the decision with the scope and the origin already entered by the two
  assignments at its start, \<open>scoped\<close>. \<open>H\<close>, \<open>show_items\<close> and \<open>sign\<close> are those of the federation,
  \<open>Hx\<close> and \<open>Hb\<close> those of the synchroniser.
\<close>

definition scoped :: "(string \<Rightarrow> 'v) \<Rightarrow> string \<Rightarrow> region \<Rightarrow> (string, 'v) dict \<Rightarrow> (string, 'v) dict" where
  "scoped vstr scope r dat = dset ''_origin_region'' (vstr (region_value r)) (dset ''_scope'' (vstr scope) dat)"

definition mr_propose_decision ::
  "(string \<Rightarrow> string) \<Rightarrow> (string \<Rightarrow> string) \<Rightarrow> (bytes \<Rightarrow> string) \<Rightarrow> (string \<Rightarrow> 'v) \<Rightarrow> ((string, 'v) dict \<Rightarrow> string) \<Rightarrow> ((string, 'v) dict \<Rightarrow> bytes result) \<Rightarrow>
   (string \<Rightarrow> string \<Rightarrow> string result) \<Rightarrow> (nat \<Rightarrow> pyfloat) \<Rightarrow> (region \<Rightarrow> string) \<Rightarrow> (region \<Rightarrow> pyfloat \<times> pyfloat) \<Rightarrow>
   (string, 'v) dict \<Rightarrow> string \<Rightarrow> multi_region \<Rightarrow> federation_consensus option result \<times> multi_region" where
  "mr_propose_decision H Hx Hb vstr show_items dumps sign tm bid btm dat scope m =
     (if mr_state m \<noteq> ACTIVE then (Inr None, m)
      else
        (case dget (mr_federations m) (mr_local_region m) of
           None \<Rightarrow> (Inr None, m)
         | Some f \<Rightarrow>
             (let d = scoped vstr scope (mr_local_region m) dat;
                  (res, f1) = propose_decision H show_items sign (tm 0) (tm 1) d f;
                  m1 = m\<lparr>mr_federations := dset (mr_local_region m) f1 (mr_federations m)\<rparr>
              in case res of
                   Inl err \<Rightarrow> (Inl err, m1)
                 | Inr None \<Rightarrow> (Inr None, m1)
                 | Inr (Some c) \<Rightarrow>
                     if scope \<noteq> ''global'' then (Inr (Some c), m1)
                     else
                       (case dumps d of
                          Inl err \<Rightarrow> (Inl err, m1)
                        | Inr payload \<Rightarrow>
                            (let sg = (case dget (fc_approvals c) (mr_local_node_id m) of Some x \<Rightarrow> x | None \<Rightarrow> []);
                                 m2 = m1\<lparr>mr_state_sync :=
                                    snd (add_local_decision Hb (tm 2) (fc_decision_id c) payload sg (mr_state_sync m1))\<rparr>
                             in case schedule_global_sync Hx bid btm (fc_decision_id c) m2 of
                                  (Inl err, m3) \<Rightarrow> (Inl err, m3)
                                | (Inr _, m3) \<Rightarrow> (Inr (Some c), m3))))))"

section \<open>Executing synchronisations\<close>

definition set_status :: "string \<Rightarrow> sync_state \<Rightarrow> multi_region \<Rightarrow> multi_region" where
  "set_status sid st m =
     (case dget (mr_pending_syncs m) sid of
        None \<Rightarrow> m
      | Some s \<Rightarrow> m\<lparr>mr_pending_syncs := dset sid (s\<lparr>cs_status := st\<rparr>) (mr_pending_syncs m)\<rparr>)"

definition complete_sync :: "string \<Rightarrow> pyfloat \<Rightarrow> multi_region \<Rightarrow> multi_region" where
  "complete_sync sid now m =
     (case dget (mr_pending_syncs m) sid of
        None \<Rightarrow> m
      | Some s \<Rightarrow>
          m\<lparr>mr_pending_syncs := dset sid (s\<lparr>cs_status := Completed, cs_completed_at := Some now\<rparr>) (mr_pending_syncs m)\<rparr>)"

text \<open>
  One round of \<open>execute_pending_syncs\<close>: a synchronisation whose target is not connected is left in
  progress. It is counted as completed before the health record and the callback are reached.
\<close>

definition execute_one ::
  "(cross_region_sync \<Rightarrow> bool) \<Rightarrow> (string \<Rightarrow> pyfloat \<times> pyfloat) \<Rightarrow> string \<Rightarrow> nat \<times> multi_region \<Rightarrow> nat \<times> multi_region" where
  "execute_one cb_ok tm sid st =
     (let (done_count, m) = st
      in case dget (mr_pending_syncs m) sid of
           None \<Rightarrow> (done_count, m)
         | Some s \<Rightarrow>
             if cs_status s \<noteq> Pending then (done_count, m)
             else
               (let m1 = set_status sid InProgress m
                in if dget (mr_federations m1) (cs_target_region s) = None then (done_count, m1)
                   else
                     (let m2 = complete_sync sid (fst (tm sid)) m1
                      in case update_health (cs_target_region s)
                                (\<lambda>h. h\<lparr>rh_pending_sync_count := rh_pending_sync_count h - 1,
                                       rh_last_sync_timestamp := snd (tm sid)\<rparr>) m2 of
                           (Inl _, m3) \<Rightarrow> (done_count + 1, set_status sid Failed m3)
                         | (Inr _, m3) \<Rightarrow>
                             if cb_ok (s\<lparr>cs_status := Completed, cs_completed_at := Some (fst (tm sid))\<rparr>)
                             then (done_count + 1, m3) else (done_count + 1, set_status sid Failed m3))))"

definition execute_pending_syncs ::
  "(cross_region_sync \<Rightarrow> bool) \<Rightarrow> (string \<Rightarrow> pyfloat \<times> pyfloat) \<Rightarrow> multi_region \<Rightarrow> nat \<times> multi_region" where
  "execute_pending_syncs cb_ok tm m = fold (execute_one cb_ok tm) (dkeys (mr_pending_syncs m)) (0, m)"

section \<open>Partitions\<close>

definition sync_overdue :: "pyfloat \<Rightarrow> region \<Rightarrow> region_health \<Rightarrow> multi_region \<Rightarrow> bool" where
  "sync_overdue now r h m =
     (case dget (mr_configs m) r of
        None \<Rightarrow> False
      | Some c \<Rightarrow> fl_lt (Fin (of_int (rc_sync_interval_sec c * 3))) (fl_sub now (rh_last_sync_timestamp h)))"

definition newly_partitioned :: "(region \<Rightarrow> pyfloat) \<Rightarrow> multi_region \<Rightarrow> region list" where
  "newly_partitioned tm m =
     map fst (filter (\<lambda>(r, h). r \<noteq> mr_local_region m \<and> sync_overdue (tm r) r h m \<and> \<not> rh_partition_detected h) (mr_health m))"

definition detect_partitions :: "(region \<Rightarrow> pyfloat) \<Rightarrow> multi_region \<Rightarrow> region list \<times> multi_region" where
  "detect_partitions tm m =
     (let ps = newly_partitioned tm m
      in (ps, m\<lparr>mr_health := map (\<lambda>(r, h). (r, if r \<in> set ps then h\<lparr>rh_partition_detected := True\<rparr> else h)) (mr_health m)\<rparr>))"

definition heal_partition ::
  "bool \<Rightarrow> att_client \<Rightarrow> pyfloat \<Rightarrow> pyfloat \<Rightarrow> region \<Rightarrow> multi_region \<Rightarrow> bool result \<times> multi_region" where
  "heal_partition has_rust client t0 t1 r m =
     (case dget (mr_health m) r of
        None \<Rightarrow> (Inr False, m)
      | Some h \<Rightarrow>
          if \<not> rh_partition_detected h then (Inr False, m)
          else
            (case connect_region has_rust client t0 t1 r m of
               (Inl err, m1) \<Rightarrow> (Inl err, m1)
             | (Inr False, m1) \<Rightarrow> (Inr False, m1)
             | (Inr True, m1) \<Rightarrow> (Inr True, snd (update_health r (\<lambda>h. h\<lparr>rh_partition_detected := False\<rparr>) m1))))"

definition get_region_health :: "region \<Rightarrow> multi_region \<Rightarrow> region_health option" where
  "get_region_health r m = dget (mr_health m) r"

record multi_region_summary =
  ms_state :: federation_state
  ms_local_node_id :: string
  ms_local_region :: string
  ms_configured_regions :: nat
  ms_connected_regions :: nat
  ms_healthy_regions :: nat
  ms_pending_syncs :: nat
  ms_partitioned_regions :: "string list"

definition mr_get_state :: "multi_region \<Rightarrow> multi_region_summary" where
  "mr_get_state m =
     \<lparr>ms_state = mr_state m, ms_local_node_id = mr_local_node_id m, ms_local_region = region_value (mr_local_region m),
      ms_configured_regions = length (mr_configs m), ms_connected_regions = length (mr_federations m),
      ms_healthy_regions = length (get_healthy_regions m),
      ms_pending_syncs = length (filter (\<lambda>s. cs_status s = Pending) (dvalues (mr_pending_syncs m))),
      ms_partitioned_regions = map (region_value \<circ> fst) (filter (\<lambda>(r, h). rh_partition_detected h) (mr_health m))\<rparr>"

section \<open>Runs\<close>

text \<open>
  A run of a manager is a list of calls with everything they read from outside: the library, the clients,
  the clocks, the callbacks and the random batch ids. Any call may come at any time; in particular a
  region may be configured again.
\<close>

datatype mr_op =
    Configure region_config
  | Bootstrap bool att_client "(string \<times> string) result" "(string \<times> string) result" pyfloat
  | Connect bool att_client pyfloat pyfloat region
  | ProposeGlobal "string \<Rightarrow> string" "string \<Rightarrow> string" "bytes \<Rightarrow> string" "string \<Rightarrow> string"
      "(string, string) dict \<Rightarrow> string" "(string, string) dict \<Rightarrow> bytes result" "string \<Rightarrow> string \<Rightarrow> string result"
      "nat \<Rightarrow> pyfloat" "region \<Rightarrow> string" "region \<Rightarrow> pyfloat \<times> pyfloat" "(string, string) dict" string
  | ExecuteSyncs "cross_region_sync \<Rightarrow> bool" "string \<Rightarrow> pyfloat \<times> pyfloat"
  | DetectPartitions "region \<Rightarrow> pyfloat"
  | Heal bool att_client pyfloat pyfloat region

fun mr_exec :: "mr_op \<Rightarrow> multi_region \<Rightarrow> multi_region" where
  "mr_exec (Configure c) m = configure_region c m"
| "mr_exec (Bootstrap hr client kem gen now) m = snd (bootstrap_local hr client kem gen now m)"
| "mr_exec (Connect hr client t0 t1 r) m = snd (connect_region hr client t0 t1 r m)"
| "mr_exec (ProposeGlobal H Hx Hb vstr show_items dumps sign tm bid btm dat scope) m =
     snd (mr_propose_decision H Hx Hb vstr show_items dumps sign tm bid btm dat scope m)"
| "mr_exec (ExecuteSyncs cb_ok stm) m = snd (execute_pending_syncs cb_ok stm m)"
| "mr_exec (DetectPartitions ptm) m = snd (detect_partitions ptm m)"
| "mr_exec (Heal hr client t0 t1 r) m = snd (heal_partition hr client t0 t1 r m)"

text \<open>
  What a run needs of \<open>os.urandom\<close>: the eight random bytes of a batch id are never drawn twice.
\<close>

fun fresh_ids :: "mr_op \<Rightarrow> multi_region \<Rightarrow> bool" where
  "fresh_ids (ProposeGlobal H Hx Hb vstr show_items dumps sign tm bid btm dat scope) m \<longleftrightarrow>
     inj bid \<and> (\<forall>r. dget (mr_pending_syncs m) (bid r) = None)"
| "fresh_ids op m \<longleftrightarrow> True"

fun fresh_run :: "mr_op list \<Rightarrow> multi_region \<Rightarrow> bool" where
  "fresh_run [] m \<longleftrightarrow> True"
| "fresh_run (x # xs) m \<longleftrightarrow> fresh_ids x m \<and> fresh_run xs (mr_exec x m)"

text \<open>
  The synchronisations of a region that are pending or in progress, and the number of them that the
  last configuration of the region has written off, starting from \<open>w\<close>.
\<close>

definition outstanding :: "region \<Rightarrow> cross_region_sync \<Rightarrow> bool" where
  "outstanding r s \<longleftrightarrow> cs_target_region s = r \<and> cs_status s \<in> {Pending, InProgress}"

definition outstanding_count :: "region \<Rightarrow> multi_region \<Rightarrow> nat" where
  "outstanding_count r m = dcount (outstanding r) (mr_pending_syncs m)"

fun write_off :: "mr_op \<Rightarrow> multi_region \<Rightarrow> (region \<Rightarrow> nat) \<Rightarrow> region \<Rightarrow> nat" where
  "write_off (Configure c) m w = w(rc_region c := outstanding_count (rc_region c) m)"
| "write_off op m w = w"

fun written_off :: "mr_op list \<Rightarrow> multi_region \<Rightarrow> (region \<Rightarrow> nat) \<Rightarrow> region \<Rightarrow> nat" where
  "written_off [] m w = w"
| "written_off (x # xs) m w = written_off xs (mr_exec x m) (write_off x m w)"

definition mr_inv ::
  "(region \<Rightarrow> nat) \<Rightarrow> (region, region_config) dict \<Rightarrow> (region, region_health) dict \<Rightarrow> (string, cross_region_sync) dict \<Rightarrow> bool" where
  "mr_inv w configs health syncs \<longleftrightarrow> dict_ok configs \<and> dict_ok syncs \<and>
     (\<forall>r. dget configs r = None \<longleftrightarrow> dget health r = None) \<and>
     (\<forall>i s. dget syncs i = Some s \<longrightarrow> dget health (cs_target_region s) \<noteq> None) \<and>
     (\<forall>r h. dget health r = Some h \<longrightarrow> rh_pending_sync_count h = int (dcount (outstanding r) syncs) - int (w r))"

abbreviation mr_ok :: "(region \<Rightarrow> nat) \<Rightarrow> multi_region \<Rightarrow> bool" where
  "mr_ok w m \<equiv> mr_inv w (mr_configs m) (mr_health m) (mr_pending_syncs m)"

lemma mr_inv_target: "mr_inv w cf hs ss \<Longrightarrow> dget ss i = Some s \<Longrightarrow> \<exists>h. dget hs (cs_target_region s) = Some h"
  unfolding mr_inv_def by (metis not_Some_eq)

text \<open>Changing a health record and keeping its count keeps the invariant.\<close>

lemma mr_inv_health:
  "mr_inv w cf hs ss \<Longrightarrow> dget hs r = Some h \<Longrightarrow> rh_pending_sync_count h' = rh_pending_sync_count h \<Longrightarrow>
   mr_inv w cf (dset r h' hs) ss"
  by (auto simp: mr_inv_def)

lemma mr_inv_configure:
  "mr_inv w cf hs ss \<Longrightarrow> rh_pending_sync_count h = 0 \<Longrightarrow>
   mr_inv (w(r := dcount (outstanding r) ss)) (dset r c cf) (dset r h hs) ss"
  by (auto simp: mr_inv_def)

text \<open>
  A new pending synchronisation counts one more, and finishing one counts one less, for its target only.
\<close>

lemma mr_inv_schedule:
  assumes inv: "mr_inv w cf hs ss" and new: "dget ss i = None" and h: "dget hs r = Some h"
    and s: "cs_target_region s = r" "cs_status s = Pending" and h': "rh_pending_sync_count h' = rh_pending_sync_count h + 1"
  shows "mr_inv w cf (dset r h' hs) (dset i s ss)"
proof -
  have "dcount (outstanding q) (dset i s ss) = dcount (outstanding q) ss + of_bool (q = r)" for q
    using dcount_dset [of "outstanding q" i s ss] new s by (auto simp: outstanding_def)
  then show ?thesis using inv h h' s by (auto simp: mr_inv_def)
qed

lemma mr_inv_status:
  assumes inv: "mr_inv w cf hs ss" and old: "dget ss i = Some s"
    and s: "cs_target_region s' = cs_target_region s" "\<And>r. outstanding r s' = outstanding r s"
  shows "mr_inv w cf hs (dset i s' ss)"
proof -
  have "dcount (outstanding q) (dset i s' ss) = dcount (outstanding q) ss" for q
    using dcount_dset [of "outstanding q" i s' ss] old s by simp
  then show ?thesis using inv old s by (auto simp: mr_inv_def)
qed

lemma mr_inv_finish:
  assumes inv: "mr_inv w cf hs ss" and old: "dget ss i = Some s" "cs_status s \<in> {Pending, InProgress}"
    and h: "dget hs (cs_target_region s) = Some h" and h': "rh_pending_sync_count h' = rh_pending_sync_count h - 1"
    and s': "cs_target_region s' = cs_target_region s" "cs_status s' \<notin> {Pending, InProgress}"
  shows "mr_inv w cf (dset (cs_target_region s) h' hs) (dset i s' ss)"
proof -
  have "dcount (outstanding q) (dset i s' ss) + of_bool (q = cs_target_region s) = dcount (outstanding q) ss" for q
    using dcount_dset [of "outstanding q" i s' ss] old s' by (auto simp: outstanding_def)
  then have "int (dcount (outstanding q) (dset i s' ss)) = int (dcount (outstanding q) ss) - of_bool (q = cs_target_region s)" for q
    by (smt (verit) of_nat_add of_nat_of_bool)
  then show ?thesis using inv h h' old s' by (auto simp: mr_inv_def)
qed

lemma connect_ok: "mr_ok w m \<Longrightarrow> mr_ok w (snd (connect_region hr client t0 t1 r m))"
  by (auto simp: connect_region_def Let_def update_health_def mr_inv_health split: option.splits sum.splits)

lemma bootstrap_ok: "mr_ok w m \<Longrightarrow> mr_ok w (snd (bootstrap_local hr client kem gen now m))"
  by (auto simp: bootstrap_local_def Let_def update_health_def mr_inv_health
      split: option.splits sum.splits prod.splits bool.splits)

lemma heal_ok: "mr_ok w m \<Longrightarrow> mr_ok w (snd (heal_partition hr client t0 t1 r m))"
  using connect_ok [of w m hr client t0 t1 r]
  by (auto simp: heal_partition_def update_health_def mr_inv_health split: option.splits sum.splits prod.splits bool.splits)

lemma dget_map_values: "dget (map (\<lambda>(k, v). (k, f k v)) d) k = map_option (f k) (dget d k)"
  by (induction d) (auto simp: dget_Cons)

lemma detect_ok: "mr_ok w m \<Longrightarrow> mr_ok w (snd (detect_partitions tm m))"
  by (auto simp: detect_partitions_def Let_def mr_inv_def dget_map_values)

lemma execute_one_ok:
  assumes "mr_ok w (snd st)"
  shows "mr_ok w (snd (execute_one cb_ok tm sid st))"
proof -
  obtain n m where st: "st = (n, m)" by fastforce
  show ?thesis
  proof (cases "dget (mr_pending_syncs m) sid")
    case (Some s)
    have ok: "mr_ok w m" using assms by (simp add: st)
    then obtain h where h: "dget (mr_health m) (cs_target_region s) = Some h"
      using mr_inv_target [of w] Some by blast
    have dd: "dset k v (dset k w d) = dset k v d" for k v w and d :: "(string, cross_region_sync) dict"
      by (induction d) (auto simp: dset_Cons)
    show ?thesis
    proof (cases "cs_status s = Pending \<and> dget (mr_federations m) (cs_target_region s) \<noteq> None")
      case True
      then show ?thesis using ok Some h
        by (auto simp: st execute_one_def set_status_def complete_sync_def update_health_def Let_def dd
            intro!: mr_inv_finish [of _ _ _ _ sid s])
    next
      case False
      then show ?thesis using ok Some
        by (auto simp: st execute_one_def set_status_def Let_def outstanding_def intro!: mr_inv_status [of _ _ _ _ sid s])
    qed
  qed (use assms in \<open>simp add: st execute_one_def\<close>)
qed

lemma execute_ok: "mr_ok w m \<Longrightarrow> mr_ok w (snd (execute_pending_syncs cb_ok tm m))"
proof -
  have "mr_ok w (snd st) \<Longrightarrow> mr_ok w (snd (fold (execute_one cb_ok tm) sids st))" for sids st
    by (induction sids arbitrary: st) (simp_all add: execute_one_ok)
  then show "mr_ok w m \<Longrightarrow> ?thesis" by (simp add: execute_pending_syncs_def)
qed

lemma schedule_one_ok:
  assumes "mr_ok w m" "dget (mr_configs m) r \<noteq> None" "dget (mr_pending_syncs m) (bid r) = None"
  shows "mr_ok w (snd (schedule_one Hx bid tm did r m))"
proof -
  obtain h where h: "dget (mr_health m) r = Some h" using assms(1,2) by (auto simp: mr_inv_def)
  have "sb_batch_id (fst (create_sync_batch Hx t b q ids ss)) = b" for t b q ids ss
    by (simp add: create_sync_batch_def Let_def case_prod_unfold)
  then show ?thesis using assms h
    by (auto simp: schedule_one_def Let_def update_health_def case_prod_unfold intro!: mr_inv_schedule)
qed

lemma schedule_one_frame:
  "mr_configs (snd (schedule_one Hx bid tm did r m)) = mr_configs m"
  "sid \<noteq> bid r \<Longrightarrow> dget (mr_pending_syncs (snd (schedule_one Hx bid tm did r m))) sid = dget (mr_pending_syncs m) sid"
  by (auto simp: schedule_one_def Let_def update_health_def create_sync_batch_def case_prod_unfold split: option.splits)

lemma schedule_all_ok:
  assumes "mr_ok w m" "distinct rs" "inj bid" "\<And>r. r \<in> set rs \<Longrightarrow> dget (mr_configs m) r \<noteq> None"
    and "\<And>r. r \<in> set rs \<Longrightarrow> dget (mr_pending_syncs m) (bid r) = None"
  shows "mr_ok w (snd (schedule_all Hx bid tm did rs m))"
  using assms
proof (induction rs arbitrary: m)
  case (Cons r rs)
  obtain q m1 where q: "schedule_one Hx bid tm did r m = (q, m1)" by fastforce
  have m1: "mr_ok w m1" using schedule_one_ok [of w m r bid Hx tm did] Cons.prems q by simp
  have "dget (mr_pending_syncs m1) (bid x) = None" if "x \<in> set rs" for x
    using schedule_one_frame(2) [of "bid x" bid r Hx tm did m] Cons.prems that q
    by (metis distinct.simps(2) injD list.set_intros(2) snd_conv)
  moreover have "mr_configs m1 = mr_configs m" using schedule_one_frame(1) [of Hx bid tm did r m] q by simp
  ultimately show ?case
    using m1 q Cons.prems by (cases q) (auto intro!: Cons.IH)
qed simp

lemma propose_ok:
  assumes "mr_ok w m" "inj bid" "\<And>r. dget (mr_pending_syncs m) (bid r) = None"
  shows "mr_ok w (snd (mr_propose_decision H Hx Hb vstr show_items dumps sign tm bid btm dat scope m))"
proof -
  have sch: "mr_ok w (snd (schedule_global_sync Hx bid btm did m'))"
    if "mr_configs m' = mr_configs m" "mr_health m' = mr_health m" "mr_pending_syncs m' = mr_pending_syncs m" for did m'
  proof -
    have "distinct (dkeys (mr_configs m))" using assms(1) by (simp add: mr_inv_def dict_ok_def dkeys_def)
    then show ?thesis unfolding schedule_global_sync_def using assms that by (intro schedule_all_ok) auto
  qed
  show ?thesis
    using assms(1) sch
    by (auto simp: mr_propose_decision_def Let_def case_prod_unfold split: option.splits sum.splits)
qed

lemma mr_init_ok: "mr_ok (\<lambda>_. 0) (multi_region_init node r thr)"
  by (simp add: multi_region_init_def mr_inv_def)

lemma configure_ok: "mr_ok w m \<Longrightarrow> mr_ok (write_off (Configure c) m w) (configure_region c m)"
  by (simp add: configure_region_def outstanding_count_def mr_inv_configure)

lemma mr_exec_ok: "mr_ok w m \<Longrightarrow> fresh_ids x m \<Longrightarrow> mr_ok (write_off x m w) (mr_exec x m)"
  by (cases x) (simp_all only: mr_exec.simps write_off.simps(2-) configure_ok bootstrap_ok connect_ok propose_ok execute_ok detect_ok
      heal_ok fresh_ids.simps(1))

lemma mr_run_ok: "mr_ok w m \<Longrightarrow> fresh_run xs m \<Longrightarrow> mr_ok (written_off xs m w) (fold mr_exec xs m)"
  by (induction xs arbitrary: m w) (simp_all add: mr_exec_ok)

text \<open>A synchronisation that is in progress is left alone by every step.\<close>

definition in_progress :: "string \<Rightarrow> multi_region \<Rightarrow> bool" where
  "in_progress sid m \<longleftrightarrow> (\<exists>s. dget (mr_pending_syncs m) sid = Some s \<and> cs_status s = InProgress)"

lemma pending_syncs_frame [simp]:
  "mr_pending_syncs (snd (update_health r u m)) = mr_pending_syncs m"
  "mr_pending_syncs (snd (bootstrap_local hr client kem gen now m)) = mr_pending_syncs m"
  "mr_pending_syncs (snd (connect_region hr client t0 t1 r m)) = mr_pending_syncs m"
  "mr_pending_syncs (configure_region c m) = mr_pending_syncs m"
  "mr_pending_syncs (snd (detect_partitions ptm m)) = mr_pending_syncs m"
  by (auto simp: update_health_def bootstrap_local_def connect_region_def configure_region_def detect_partitions_def Let_def
      split: option.splits sum.splits prod.splits bool.splits)

lemma heal_syncs [simp]: "mr_pending_syncs (snd (heal_partition hr client t0 t1 r m)) = mr_pending_syncs m"
  using pending_syncs_frame(3) [of hr client t0 t1 r m]
  by (auto simp: heal_partition_def simp del: pending_syncs_frame(3)
      split: option.splits sum.splits prod.splits bool.splits)

lemma execute_one_syncs:
  "mr_pending_syncs (snd (execute_one cb_ok tm sid st)) = mr_pending_syncs (snd st) \<or>
   (\<exists>s s'. dget (mr_pending_syncs (snd st)) sid = Some s \<and> cs_status s = Pending \<and>
      mr_pending_syncs (snd (execute_one cb_ok tm sid st)) = dset sid s' (mr_pending_syncs (snd st)))"
proof -
  have dd: "dset k v (dset k w d) = dset k v d" for k v w and d :: "(string, cross_region_sync) dict"
    by (induction d) (auto simp: dset_Cons)
  show ?thesis
    by (auto simp: execute_one_def Let_def case_prod_unfold set_status_def complete_sync_def update_health_def dd
        split: option.splits)
qed

lemma execute_one_in_progress: "in_progress sid (snd st) \<Longrightarrow> in_progress sid (snd (execute_one cb_ok tm i st))"
  using execute_one_syncs [of cb_ok tm i st] by (auto simp: in_progress_def split: if_splits)

lemma execute_in_progress: "in_progress sid m \<Longrightarrow> in_progress sid (snd (execute_pending_syncs cb_ok tm m))"
proof -
  have "in_progress sid (snd st) \<Longrightarrow> in_progress sid (snd (fold (execute_one cb_ok tm) is st))" for "is" st
    by (induction "is" arbitrary: st) (simp_all add: execute_one_in_progress)
  then show "in_progress sid m \<Longrightarrow> ?thesis" by (simp add: execute_pending_syncs_def)
qed

lemma schedule_all_syncs:
  "(\<And>r. sid \<noteq> bid r) \<Longrightarrow>
   dget (mr_pending_syncs (snd (schedule_all Hx bid tm did rs m))) sid = dget (mr_pending_syncs m) sid"
proof (induction rs arbitrary: m)
  case (Cons r rs)
  then show ?case using schedule_one_frame(2) [of sid bid r Hx tm did m]
    by (cases "schedule_one Hx bid tm did r m") (auto split: sum.splits)
qed simp

lemma propose_syncs:
  "(\<And>r. sid \<noteq> bid r) \<Longrightarrow>
   dget (mr_pending_syncs (snd (mr_propose_decision H Hx Hb vstr show_items dumps sign tm bid btm dat scope m))) sid =
   dget (mr_pending_syncs m) sid"
  using schedule_all_syncs [of sid bid Hx btm]
  by (auto simp: mr_propose_decision_def schedule_global_sync_def Let_def case_prod_unfold split: option.splits sum.splits)

lemma mr_exec_in_progress: "fresh_ids x m \<Longrightarrow> in_progress sid m \<Longrightarrow> in_progress sid (mr_exec x m)"
proof (cases x)
  case (ProposeGlobal H Hx Hb vstr show_items dumps sign tm bid btm dat scope)
  assume "fresh_ids x m" "in_progress sid m"
  moreover from this ProposeGlobal have "sid \<noteq> bid r" for r by (auto simp: in_progress_def)
  ultimately show ?thesis using ProposeGlobal by (simp add: in_progress_def propose_syncs)
next
  case ExecuteSyncs
  then show "in_progress sid m \<Longrightarrow> ?thesis" by (simp add: execute_in_progress)
qed (simp_all add: in_progress_def)

lemma mr_run_in_progress: "fresh_run xs m \<Longrightarrow> in_progress sid m \<Longrightarrow> in_progress sid (fold mr_exec xs m)"
  by (induction xs arbitrary: m) (simp_all add: mr_exec_in_progress)

lemma execute_one_stuck:
  assumes "dget (mr_pending_syncs (snd st)) sid = Some s" "cs_status s = Pending"
    and "dget (mr_federations (snd st)) (cs_target_region s) = None"
  shows "in_progress sid (snd (execute_one cb_ok tm sid st))"
  using assms by (auto simp: execute_one_def Let_def case_prod_unfold set_status_def in_progress_def)

lemma execute_one_federations [simp]: "mr_federations (snd (execute_one cb_ok tm sid st)) = mr_federations (snd st)"
  by (auto simp: execute_one_def Let_def case_prod_unfold set_status_def complete_sync_def update_health_def
      split: option.splits)

lemma execute_stuck:
  assumes "dget (mr_pending_syncs m) sid = Some s" "cs_status s = Pending"
    and "dget (mr_federations m) (cs_target_region s) = None"
  shows "in_progress sid (snd (execute_pending_syncs cb_ok tm m))"
proof -
  have "in_progress sid (snd (fold (execute_one cb_ok tm) is st))"
    if "sid \<in> set is" "dget (mr_pending_syncs (snd st)) sid = Some s" "mr_federations (snd st) = mr_federations m" for "is" st
    using that
  proof (induction "is" arbitrary: st)
    case (Cons i ids)
    have keep: "in_progress sid (snd st) \<Longrightarrow> in_progress sid (snd (fold (execute_one cb_ok tm) ids st))" for ids st
      by (induction ids arbitrary: st) (simp_all add: execute_one_in_progress)
    show ?case
    proof (cases "i = sid")
      case True
      then show ?thesis using execute_one_stuck [of st sid s] assms(2,3) Cons.prems by (simp add: keep)
    next
      case False
      then have "dget (mr_pending_syncs (snd (execute_one cb_ok tm i st))) sid = Some s"
        using execute_one_syncs [of cb_ok tm i st] Cons.prems(2) by auto
      then show ?thesis using Cons.IH [of "execute_one cb_ok tm i st"] Cons.prems False by simp
    qed
  qed simp
  moreover have "sid \<in> set (dkeys (mr_pending_syncs m))" using assms(1) by simp
  ultimately show ?thesis using assms(1) by (simp add: execute_pending_syncs_def del: set_dkeys)
qed

lemma sort_by_hd:
  assumes "xs \<noteq> []" "\<And>x. x \<in> set xs \<Longrightarrow> k x \<noteq> NaN"
  shows "hd (sort_by k xs) \<in> set xs \<and> (\<forall>x\<in>set xs. \<not> fl_lt (k x) (k (hd (sort_by k xs))))"
  unfolding sort_by_def
  by (rule sort_lt_hd [OF assms(1)]) (use assms(2) fl_lt_asym fl_not_lt_trans in \<open>blast+\<close>)

section \<open>Properties\<close>

text \<open>
  C13. In every run in which no random batch id is drawn twice, the pending count of a region's health
  record is the number of its synchronisations that are pending or in progress, less the number that
  were outstanding when the region was last configured: configuring a region again resets its count
  and forgets those, and nothing else makes the count wrong.
\<close>
theorem pending_count_exact:
  assumes "fresh_run ops (multi_region_init node l thr)" and "m = fold mr_exec ops (multi_region_init node l thr)"
    and "dget (mr_health m) r = Some h"
  shows "rh_pending_sync_count h =
    int (length (filter (\<lambda>s. cs_target_region s = r \<and> cs_status s \<in> {Pending, InProgress}) (dvalues (mr_pending_syncs m)))) -
    int (written_off ops (multi_region_init node l thr) (\<lambda>_. 0) r)"
proof -
  have "rh_pending_sync_count h = int (dcount (outstanding r) (mr_pending_syncs m)) -
      int (written_off ops (multi_region_init node l thr) (\<lambda>_. 0) r)"
    using mr_run_ok [OF mr_init_ok assms(1)] assms(2,3) by (simp add: mr_inv_def)
  moreover have "outstanding r = (\<lambda>s. cs_target_region s = r \<and> cs_status s \<in> {Pending, InProgress})"
    by (rule ext) (simp add: outstanding_def)
  ultimately show ?thesis by (simp add: dcount_def)
qed

text \<open>
  A synchronisation that was executed while its region was not connected is never completed,
  whatever happens later: it stays in progress, and every later execution skips it.
\<close>
theorem unconnected_sync_is_stuck:
  assumes "dget (mr_pending_syncs m) sid = Some s" and "cs_status s = Pending"
    and "dget (mr_federations m) (cs_target_region s) = None"
    and "fresh_run ops (snd (execute_pending_syncs cb_ok tm m))"
  shows "\<exists>s'. dget (mr_pending_syncs (fold mr_exec ops (snd (execute_pending_syncs cb_ok tm m)))) sid = Some s' \<and>
    cs_status s' = InProgress"
  using mr_run_in_progress [OF assms(4) execute_stuck [OF assms(1-3)]] by (simp add: in_progress_def)

text \<open>
  Healing a partition does not record a synchronisation, so when the region's last one is overdue
  the next detection reports the region as partitioned again.
\<close>
theorem healed_region_is_partitioned_again:
  assumes "heal_partition hr client t0 t1 r m = (Inr True, m')" and "r \<noteq> mr_local_region m"
    and "dget (mr_health m) r = Some h" and "sync_overdue now r h m"
  shows "r \<in> set (fst (detect_partitions (\<lambda>_. now) m'))"
proof -
  obtain h' where h': "dget (mr_health m') r = Some h'" "rh_last_sync_timestamp h' = rh_last_sync_timestamp h"
      "\<not> rh_partition_detected h'" "mr_configs m' = mr_configs m" "mr_local_region m' = mr_local_region m"
    using assms(1,3)
    by (auto simp: heal_partition_def connect_region_def update_health_def Let_def split: option.splits sum.splits if_splits)
  have "sync_overdue now r h' m'" using h' assms(4) by (auto simp: sync_overdue_def split: option.splits)
  then have "(r, h') \<in> set (filter (\<lambda>(r, h). r \<noteq> mr_local_region m' \<and> sync_overdue now r h m' \<and> \<not> rh_partition_detected h)
      (mr_health m'))"
    using h' assms(2) by (simp add: dget_SomeD)
  from imageI [OF this, of fst] show ?thesis by (simp add: detect_partitions_def newly_partitioned_def Let_def)
qed

text \<open>
  The region selected for a request is one of the available ones, and unless it is the preferred
  local region with a mean latency below 100 ms none of the available regions has a lower one.
\<close>
theorem selected_region_is_best:
  assumes "select_region mean available prefer_local local_region s = Some r"
    and "\<And>x. x \<in> set available \<Longrightarrow> get_avg_latency mean s x \<noteq> NaN"
  shows "r \<in> set available \<and>
    (prefer_local \<and> local_region = Some r \<and> fl_lt (get_avg_latency mean s r) (Fin 100) \<or>
     (\<forall>x\<in>set available. \<not> fl_lt (get_avg_latency mean s x) (get_avg_latency mean s r)))"
proof -
  let ?k = "get_avg_latency mean s"
  have ne: "available \<noteq> []" using assms(1) by (auto simp: select_region_def)
  have "available = [r] \<or> r = hd (sort_by ?k available) \<or>
    prefer_local \<and> local_region = Some r \<and> r \<in> set available \<and> fl_lt (?k r) (Fin 100)"
  proof (cases "length available = 1")
    case True
    then show ?thesis using assms(1) by (auto simp: select_region_def length_Suc_conv)
  next
    case False
    with ne obtain a b xs where av: "available = a # b # xs" by (metis length_0_conv length_Suc_conv One_nat_def neq_Nil_conv list.size(3))
    have "select_region mean available prefer_local local_region s =
      (case (if prefer_local then local_region else None) of
         Some l \<Rightarrow> if l \<in> set available \<and> fl_lt (?k l) (Fin 100) then Some l else Some (hd (sort_by ?k available))
       | None \<Rightarrow> Some (hd (sort_by ?k available)))"
      by (simp only: select_region_def av list.case)
    with assms(1) show ?thesis by (auto split: option.splits if_splits)
  qed
  then show ?thesis using sort_by_hd [OF ne, of ?k] assms(2) by fastforce
qed

section \<open>Witnesses\<close>

definition demo_config :: "region \<Rightarrow> region_config" where
  "demo_config r = \<lparr>rc_region = r, rc_display_name = [], rc_primary_endpoint = [], rc_backup_endpoints = [],
     rc_max_nodes = 10, rc_min_nodes = 1, rc_latency_threshold_ms = 100, rc_is_primary = False,
     rc_sync_interval_sec = 30, rc_sync_batch_size = 100\<rparr>"

definition demo_start :: multi_region where
  "demo_start = configure_region (demo_config EU_WEST) (configure_region (demo_config US_EAST)
     (multi_region_init ''n'' US_EAST (Fin THRESHOLD_067)))"

definition demo_booted :: multi_region where
  "demo_booted = snd (bootstrap_local True client_init (Inr (''e'', ''d'')) (Inr (''p'', ''s'')) (Fin 1) demo_start)"

definition demo_proposed :: multi_region where
  "demo_proposed = snd (mr_propose_decision (\<lambda>x. x) (\<lambda>x. x) (\<lambda>b. ''h'') (\<lambda>x. x) (\<lambda>d. ''x'') (\<lambda>d. Inr []) (\<lambda>k x. Inr x)
     (\<lambda>_. Fin 2) region_value (\<lambda>_. (Fin 2, Fin 2)) [] ''global'' demo_booted)"

lemmas demo_defs = demo_proposed_def demo_booted_def demo_start_def demo_config_def multi_region_init_def
  configure_region_def bootstrap_local_def federation_init_def bootstrap_def update_health_def mr_propose_decision_def
  propose_decision_def scoped_def decision_id_of_def add_local_decision_def schedule_global_sync_def schedule_one_def
  create_sync_batch_def dget_Cons dset_Cons dkeys_def case_prod_unfold

lemma demo_booted_syncs: "mr_pending_syncs demo_booted = []" "mr_configs (multi_region_init a b c) = []"
  by (simp_all add: demo_booted_def demo_start_def multi_region_init_def)

definition demo_region_ops :: "mr_op list" where
  "demo_region_ops = [Configure (demo_config US_EAST), Configure (demo_config EU_WEST),
     Bootstrap True client_init (Inr (''e'', ''d'')) (Inr (''p'', ''s'')) (Fin 1),
     ProposeGlobal (\<lambda>x. x) (\<lambda>x. x) (\<lambda>b. ''h'') (\<lambda>x. x) (\<lambda>d. ''x'') (\<lambda>d. Inr []) (\<lambda>k x. Inr x)
       (\<lambda>_. Fin 2) region_value (\<lambda>_. (Fin 2, Fin 2)) [] ''global'']"

lemma demo_run:
  "fold mr_exec demo_region_ops (multi_region_init ''n'' US_EAST (Fin THRESHOLD_067)) = demo_proposed"
  "fresh_run demo_region_ops (multi_region_init ''n'' US_EAST (Fin THRESHOLD_067))"
proof -
  have "inj region_value" by (rule injI) (case_tac x; case_tac y; simp)
  then show "fresh_run demo_region_ops (multi_region_init ''n'' US_EAST (Fin THRESHOLD_067))"
    by (simp add: demo_region_ops_def demo_start_def [symmetric] demo_booted_def [symmetric] demo_booted_syncs)
qed (simp add: demo_region_ops_def demo_proposed_def demo_booted_def demo_start_def)

lemma demo_proposed_facts:
  "map_option rh_pending_sync_count (dget (mr_health demo_proposed) EU_WEST) = Some 1"
  "map_option (\<lambda>s. (cs_status s, cs_target_region s)) (dget (mr_pending_syncs demo_proposed) ''eu-west'') = Some (Pending, EU_WEST)"
  "dget (mr_federations demo_proposed) EU_WEST = None"
  by (simp_all add: demo_defs Let_def)

text \<open>The witness configures the region again after the proposal: one outstanding synchronisation, count 0.\<close>

lemma demo_reconfigured:
  "map_option rh_pending_sync_count (dget (mr_health (configure_region (demo_config EU_WEST) demo_proposed)) EU_WEST) = Some 0"
  by (simp add: configure_region_def demo_config_def)

theorem pending_count_exact_witness:
  "int (length (filter (\<lambda>s. cs_target_region s = EU_WEST \<and> cs_status s \<in> {Pending, InProgress})
     (dvalues (mr_pending_syncs demo_proposed)))) = 1 \<and>
   int (length (filter (\<lambda>s. cs_target_region s = EU_WEST \<and> cs_status s \<in> {Pending, InProgress})
     (dvalues (mr_pending_syncs (configure_region (demo_config EU_WEST) demo_proposed))))) =
   int (written_off (demo_region_ops @ [Configure (demo_config EU_WEST)]) (multi_region_init ''n'' US_EAST (Fin THRESHOLD_067)) (\<lambda>_. 0) EU_WEST)"
proof -
  let ?m0 = "multi_region_init ''n'' US_EAST (Fin THRESHOLD_067)" and ?ops = "demo_region_ops @ [Configure (demo_config EU_WEST)]"
  obtain h where h: "dget (mr_health demo_proposed) EU_WEST = Some h" "rh_pending_sync_count h = 1"
    using demo_proposed_facts(1) by auto
  have w: "written_off demo_region_ops ?m0 (\<lambda>_. 0) EU_WEST = 0"
    by (simp add: demo_region_ops_def demo_config_def outstanding_count_def dcount_def multi_region_init_def dvalues_def)
  obtain h' where h': "dget (mr_health (configure_region (demo_config EU_WEST) demo_proposed)) EU_WEST = Some h'"
      "rh_pending_sync_count h' = 0"
    using demo_reconfigured by auto
  have "fresh_run (xs @ [Configure c]) m = fresh_run xs m" for xs c m by (induction xs arbitrary: m) simp_all
  then have f: "fresh_run ?ops ?m0" by (simp add: demo_run(2))
  show ?thesis
    using pending_count_exact [OF demo_run(2) demo_run(1) [symmetric] h(1)]
      pending_count_exact [OF f _ h'(1)] h(2) h'(2) w by (simp add: demo_run(1))
qed

theorem unconnected_sync_is_stuck_witness:
  "\<exists>s'. dget (mr_pending_syncs (snd (execute_pending_syncs (\<lambda>_. True) (\<lambda>_. (Fin 5, Fin 5)) (snd (connect_region True client_init
     (Fin 3) (Fin 4) EU_WEST (snd (execute_pending_syncs (\<lambda>_. True) (\<lambda>_. (Fin 3, Fin 3)) demo_proposed))))))) ''eu-west'' = Some s' \<and>
     cs_status s' = InProgress"
proof -
  obtain s where "dget (mr_pending_syncs demo_proposed) ''eu-west'' = Some s" "cs_status s = Pending"
      "dget (mr_federations demo_proposed) (cs_target_region s) = None"
    using demo_proposed_facts(2,3) by auto
  from unconnected_sync_is_stuck [OF this, of "[Connect True client_init (Fin 3) (Fin 4) EU_WEST, ExecuteSyncs (\<lambda>_. True) (\<lambda>_. (Fin 5, Fin 5))]"
      "\<lambda>_. True" "\<lambda>_. (Fin 3, Fin 3)"]
  show ?thesis by simp
qed

theorem healed_region_is_partitioned_again_witness:
  "EU_WEST \<in> set (fst (detect_partitions (\<lambda>_. Fin 1000) (snd (heal_partition True client_init (Fin 3) (Fin 4) EU_WEST
     (snd (detect_partitions (\<lambda>_. Fin 1000) demo_start))))))"
proof -
  let ?m = "snd (detect_partitions (\<lambda>_. Fin 1000) demo_start)"
  have sub: "fl_sub (Fin 1000) (Fin 0) = Fin 1000" using fl_sub_ints [of 1000 0] by simp
  let ?h = "\<lparr>rh_region = EU_WEST, rh_is_healthy = False, rh_node_count = 0, rh_active_nodes = 0,
          rh_avg_latency_ms = Fin 0, rh_last_sync_timestamp = Fin 0, rh_pending_sync_count = 0,
          rh_partition_detected = True\<rparr>"
  have h: "dget (mr_health ?m) EU_WEST = Some ?h" and l: "EU_WEST \<noteq> mr_local_region ?m"
    and od: "sync_overdue (Fin 1000) EU_WEST ?h ?m"
    by (simp_all add: detect_partitions_def newly_partitioned_def sync_overdue_def demo_start_def demo_config_def
        configure_region_def multi_region_init_def sub dget_Cons dset_Cons Let_def)
  have "heal_partition True client_init (Fin 3) (Fin 4) EU_WEST ?m =
      (Inr True, snd (heal_partition True client_init (Fin 3) (Fin 4) EU_WEST ?m))"
    by (simp add: heal_partition_def h connect_region_def federation_init_def update_health_def Let_def)
       (simp add: detect_partitions_def demo_start_def demo_config_def configure_region_def multi_region_init_def Let_def dget_Cons dset_Cons)
  from healed_region_is_partitioned_again [OF this l h od] show ?thesis .
qed

theorem selected_region_is_best_witness:
  "select_region hd [US_EAST, EU_WEST] True (Some ASIA_SOUTH)
     (record_latency EU_WEST (Fin 20) (record_latency US_EAST (Fin 50) selector_init)) = Some EU_WEST \<and>
   \<not> fl_lt (Fin 50) (Fin 20)"
proof -
  let ?s = "record_latency EU_WEST (Fin 20) (record_latency US_EAST (Fin 50) selector_init)"
  have sel: "select_region hd [US_EAST, EU_WEST] True (Some ASIA_SOUTH) ?s = Some EU_WEST"
    by (simp add: select_region_def record_latency_def selector_init_def get_avg_latency_def sort_by_def sort_lt_def)
  have avg: "get_avg_latency hd ?s US_EAST = Fin 50" "get_avg_latency hd ?s EU_WEST = Fin 20"
    by (simp_all add: record_latency_def selector_init_def get_avg_latency_def)
  from selected_region_is_best [OF sel] avg have "\<forall>x\<in>{US_EAST, EU_WEST}. \<not> fl_lt (get_avg_latency hd ?s x) (Fin 20)"
    by auto
  with sel avg show ?thesis by simp
qed

end
