(* ===== verification/Ledger.thy ===== *)
theory Ledger
  imports Float_Arith
begin

text \<open>
  The token ledger and the compute market, \<^verbatim>\<open>economy/token.py\<close> and \<^verbatim>\<open>economy/market.py\<close>, with amounts as
  Python floats. The digest that names a transaction is the argument \<open>txid\<close>. For whole amounts the
  ledger refines a ledger over the integers, as long as the supply stays below two to the 53.
\<close>

section \<open>The token ledger\<close>

record token_tx =
  tt_tx_id :: string
  tt_sender_id :: string
  tt_receiver_id :: string
  tt_amount :: pyfloat
  tt_timestamp :: pyfloat
  tt_signature :: "string option"
  tt_memo :: string

record token_ledger =
  tl_balances :: "(string, pyfloat) dict"
  tl_history :: "token_tx list"

definition ledger_init :: token_ledger where
  "ledger_init = \<lparr>tl_balances = [(''KERNEL_ROOT'', Fin 1000000000)], tl_history = []\<rparr>"

definition bal :: "(string, pyfloat) dict \<Rightarrow> string \<Rightarrow> pyfloat" where
  "bal d node = (case dget d node of Some b \<Rightarrow> b | None \<Rightarrow> Fin 0)"

definition tl_get_balance :: "token_ledger \<Rightarrow> string \<Rightarrow> pyfloat" where
  "tl_get_balance l node = bal (tl_balances l) node"

definition mint :: "string \<Rightarrow> pyfloat \<Rightarrow> string \<Rightarrow> pyfloat \<Rightarrow> string \<Rightarrow> token_ledger \<Rightarrow> bool \<times> token_ledger" where
  "mint txid now node amount pf l =
     (if fl_lt amount (Fin 0) then (False, l)
      else
        (True, l\<lparr>tl_balances := dset node (fl_add (tl_get_balance l node) amount) (tl_balances l),
                 tl_history := tl_history l @
                   [\<lparr>tt_tx_id = txid, tt_sender_id = ''MINT_AUTHORITY'', tt_receiver_id = node, tt_amount = amount,
                     tt_timestamp = now, tt_signature = None, tt_memo = ''Proof: '' @ pf\<rparr>]\<rparr>))"

text \<open>
  \<open>transfer\<close>: the sender's entry is decremented in place, which raises when it is missing, and the
  receiver's balance is read after that.
\<close>

definition transfer ::
  "string \<Rightarrow> pyfloat \<Rightarrow> string \<Rightarrow> string \<Rightarrow> pyfloat \<Rightarrow> string \<Rightarrow> token_ledger \<Rightarrow> bool result \<times> token_ledger" where
  "transfer txid now sender receiver amount sig l =
     (if fl_le amount (Fin 0) then (Inr False, l)
      else if fl_lt (tl_get_balance l sender) amount then (Inr False, l)
      else
        (case dget (tl_balances l) sender of
           None \<Rightarrow> (Inl KeyError, l)
         | Some b \<Rightarrow>
             (let d1 = dset sender (fl_sub b amount) (tl_balances l);
                  d2 = dset receiver (fl_add (bal d1 receiver) amount) d1
              in (Inr True, l\<lparr>tl_balances := d2,
                    tl_history := tl_history l @
                      [\<lparr>tt_tx_id = txid, tt_sender_id = sender, tt_receiver_id = receiver, tt_amount = amount,
                        tt_timestamp = now, tt_signature = Some sig, tt_memo = []\<rparr>]\<rparr>))))"

definition verify_payment :: "token_ledger \<Rightarrow> string \<Rightarrow> pyfloat \<Rightarrow> bool" where
  "verify_payment l payer required = fl_le required (tl_get_balance l payer)"

section \<open>The compute market\<close>

record job_spec =
  js_job_id :: string
  js_requester_id :: string
  js_compute_type :: string
  js_complexity :: pyfloat
  js_max_price :: pyfloat
  js_deadline :: pyfloat

record bid =
  bd_bid_id :: string
  bd_worker_id :: string
  bd_job_id :: string
  bd_price :: pyfloat
  bd_eta :: pyfloat
  bd_reputation :: pyfloat

record compute_market =
  cm_ledger :: token_ledger
  cm_open_jobs :: "(string, job_spec) dict"
  cm_bids :: "(string, bid list) dict"
  cm_escrow :: "(string, pyfloat) dict"

definition market_init :: "token_ledger \<Rightarrow> compute_market" where
  "market_init l = \<lparr>cm_ledger = l, cm_open_jobs = [], cm_bids = [], cm_escrow = []\<rparr>"

definition post_job :: "job_spec \<Rightarrow> compute_market \<Rightarrow> bool \<times> compute_market" where
  "post_job j m =
     (if fl_lt (tl_get_balance (cm_ledger m) (js_requester_id j)) (js_max_price j) then (False, m)
      else (True, m\<lparr>cm_open_jobs := dset (js_job_id j) j (cm_open_jobs m), cm_bids := dset (js_job_id j) [] (cm_bids m)\<rparr>))"

definition submit_bid :: "bid \<Rightarrow> compute_market \<Rightarrow> bool result \<times> compute_market" where
  "submit_bid b m =
     (case dget (cm_open_jobs m) (bd_job_id b) of
        None \<Rightarrow> (Inr False, m)
      | Some j \<Rightarrow>
          if fl_lt (js_max_price j) (bd_price b) then (Inr False, m)
          else
            (case dget (cm_bids m) (bd_job_id b) of
               None \<Rightarrow> (Inl KeyError, m)
             | Some bs \<Rightarrow> (Inr True, m\<lparr>cm_bids := dset (bd_job_id b) (bs @ [b]) (cm_bids m)\<rparr>)))"

text \<open>The order of the keys \<open>(price, eta)\<close>: the first components that differ decide.\<close>

definition bid_lt :: "bid \<Rightarrow> bid \<Rightarrow> bool" where
  "bid_lt a b =
     (if fl_eq (bd_price a) (bd_price b) then fl_lt (bd_eta a) (bd_eta b) else fl_lt (bd_price a) (bd_price b))"

definition match_job :: "string \<Rightarrow> pyfloat \<Rightarrow> string \<Rightarrow> compute_market \<Rightarrow> bid option result \<times> compute_market" where
  "match_job txid now jid m =
     (case (dget (cm_open_jobs m) jid, dget (cm_bids m) jid) of
        (Some j, Some (b # bs)) \<Rightarrow>
          (let best = hd (sort_lt bid_lt (b # bs))
           in case transfer txid now (js_requester_id j) ''ESCROW_POOL'' (bd_price best) [] (cm_ledger m) of
                (Inl err, l) \<Rightarrow> (Inl err, m\<lparr>cm_ledger := l\<rparr>)
              | (Inr False, l) \<Rightarrow> (Inr None, m\<lparr>cm_ledger := l\<rparr>)
              | (Inr True, l) \<Rightarrow>
                  (Inr (Some best), m\<lparr>cm_ledger := l, cm_escrow := dset jid (bd_price best) (cm_escrow m),
                                      cm_open_jobs := ddel jid (cm_open_jobs m)\<rparr>))
      | _ \<Rightarrow> (Inr None, m))"

definition complete_job :: "string \<Rightarrow> pyfloat \<Rightarrow> string \<Rightarrow> string \<Rightarrow> compute_market \<Rightarrow> bool result \<times> compute_market" where
  "complete_job txid now jid worker m =
     (case dget (cm_escrow m) jid of
        None \<Rightarrow> (Inr False, m)
      | Some amount \<Rightarrow>
          (case transfer txid now ''ESCROW_POOL'' worker amount [] (cm_ledger m) of
             (Inl err, l) \<Rightarrow> (Inl err, m\<lparr>cm_ledger := l\<rparr>)
           | (Inr False, l) \<Rightarrow> (Inr False, m\<lparr>cm_ledger := l\<rparr>)
           | (Inr True, l) \<Rightarrow> (Inr True, m\<lparr>cm_ledger := l, cm_escrow := ddel jid (cm_escrow m)\<rparr>)))"

section \<open>The history explains the balances\<close>

text \<open>
  What a ledger's history says about one node: replaying it from the genesis balance. Mints, which
  carry no signature, have no sender.
\<close>

definition replay_tx :: "string \<Rightarrow> token_tx \<Rightarrow> pyfloat \<Rightarrow> pyfloat" where
  "replay_tx node t b =
     (let b1 = (if tt_signature t \<noteq> None \<and> tt_sender_id t = node then fl_sub b (tt_amount t) else b)
      in if tt_receiver_id t = node then fl_add b1 (tt_amount t) else b1)"

definition replay :: "string \<Rightarrow> token_tx list \<Rightarrow> pyfloat" where
  "replay node ts = fold (replay_tx node) ts (tl_get_balance ledger_init node)"

datatype ledger_op = Mint string pyfloat string pyfloat string | Transfer string pyfloat string string pyfloat string

fun ledger_step :: "ledger_op \<Rightarrow> token_ledger \<Rightarrow> token_ledger" where
  "ledger_step (Mint txid now node amount pf) l = snd (mint txid now node amount pf l)"
| "ledger_step (Transfer txid now s r amount sg) l = snd (transfer txid now s r amount sg l)"

definition explained :: "token_ledger \<Rightarrow> bool" where
  "explained l \<longleftrightarrow> (\<forall>node. tl_get_balance l node = replay node (tl_history l))"

lemma bal_dset [simp]: "bal (dset k v d) n = (if n = k then v else bal d n)"
  by (simp add: bal_def)

lemma bal_Some: "dget d k = Some b \<Longrightarrow> bal d k = b"
  by (simp add: bal_def)

interpretation explained: machine ledger_step explained
proof (unfold_locales, goal_cases)
  case (1 l x)
  then show ?case
    by (cases x) (auto simp: explained_def replay_def mint_def transfer_def tl_get_balance_def replay_tx_def Let_def
        dest!: bal_Some [symmetric] split: option.splits)
qed

section \<open>Balances are never negative\<close>

definition solvent :: "token_ledger \<Rightarrow> bool" where
  "solvent l \<longleftrightarrow> (\<forall>node. fl_nonneg (tl_get_balance l node))"

fun op_amount :: "ledger_op \<Rightarrow> pyfloat" where
  "op_amount (Mint txid now node a pf) = a"
| "op_amount (Transfer txid now s r a sg) = a"

lemma solvent_step:
  assumes "solvent l" "op_amount x \<notin> {NaN, PosInf, NegInf}"
  shows "solvent (ledger_step x l)"
proof (cases x)
  case (Mint txid now node a pf)
  then show ?thesis using assms
    by (cases a) (auto simp: solvent_def mint_def tl_get_balance_def intro!: fl_add_nonneg)
next
  case (Transfer txid now s r a sg)
  show ?thesis
  proof (cases "fl_le a (Fin 0) \<or> fl_lt (tl_get_balance l s) a \<or> dget (tl_balances l) s = None")
    case False
    then obtain b where b: "dget (tl_balances l) s = Some b" "b = tl_get_balance l s"
      by (auto simp: tl_get_balance_def bal_def)
    have a: "fl_nonneg a" "a \<noteq> PosInf" using False Transfer assms(2) by (cases a; simp)+
    have "fl_nonneg (fl_sub b a)" using assms(1) False b a by (auto simp: solvent_def intro!: fl_sub_nonneg)
    then show ?thesis using assms(1) False b a Transfer
      by (auto simp: solvent_def transfer_def tl_get_balance_def Let_def intro!: fl_add_nonneg)
  qed (use assms(1) Transfer in \<open>auto simp: transfer_def\<close>)
qed

section \<open>Whole amounts\<close>

text \<open>The integer ledger: a balance per node and the supply, and the amounts moved exactly.\<close>

type_synonym int_ledger = "(string \<Rightarrow> int) \<times> int"

datatype whole_op = WMint string int | WTransfer string string int

fun int_step :: "whole_op \<Rightarrow> int_ledger \<Rightarrow> int_ledger" where
  "int_step (WMint node a) (L, S) = (if a < 0 then (L, S) else (L(node := L node + a), S + a))"
| "int_step (WTransfer s r a) (L, S) =
     (if a \<le> 0 \<or> L s < a then (L, S) else (let L1 = L(s := L s - a) in (L1(r := L1 r + a), S)))"

fun int_enabled :: "whole_op \<Rightarrow> int_ledger \<Rightarrow> bool" where
  "int_enabled (WMint node a) (L, S) = (S + a < 2 ^ 53)"
| "int_enabled (WTransfer s r a) (L, S) = True"

fun whole_step :: "whole_op \<Rightarrow> token_ledger \<Rightarrow> token_ledger" where
  "whole_step (WMint node a) l = snd (mint [] (Fin 0) node (Fin (of_int a)) [] l)"
| "whole_step (WTransfer s r a) l = snd (transfer [] (Fin 0) s r (Fin (of_int a)) [] l)"

fun fl_whole :: "pyfloat \<Rightarrow> int" where
  "fl_whole (Fin r) = \<lfloor>r\<rfloor>"
| "fl_whole x = 0"

definition is_whole :: "pyfloat \<Rightarrow> bool" where
  "is_whole x \<longleftrightarrow> x = Fin (of_int (fl_whole x)) \<and> 0 \<le> fl_whole x"

lemma is_wholeE:
  assumes "is_whole x"
  obtains i where "x = Fin (of_int i)" "0 \<le> i" "fl_whole x = i"
  using assms by (auto simp: is_whole_def)

lemma is_whole_int [simp]: "is_whole (Fin (of_int i)) \<longleftrightarrow> 0 \<le> i" "is_whole (Fin 0)"
  by (auto simp: is_whole_def)

text \<open>Dictionaries of whole amounts whose sum is small enough for exact arithmetic.\<close>

definition whole_bals :: "(string, pyfloat) dict \<Rightarrow> bool" where
  "whole_bals d \<longleftrightarrow> dict_ok d \<and> (\<forall>n b. (n, b) \<in> set d \<longrightarrow> is_whole b) \<and> dsum fl_whole d < 2 ^ 53"

definition abs_ledger :: "token_ledger \<Rightarrow> int_ledger" where
  "abs_ledger l = ((\<lambda>node. fl_whole (tl_get_balance l node)), dsum fl_whole (tl_balances l))"

lemma whole_bal:
  assumes "whole_bals d"
  shows "bal d n = Fin (of_int (fl_whole (bal d n)))" "0 \<le> fl_whole (bal d n)" "fl_whole (bal d n) \<le> dsum fl_whole d"
proof -
  have nn: "0 \<le> fl_whole v" if "(k, v) \<in> set d" for k v using assms that by (auto simp: whole_bals_def is_whole_def)
  have "is_whole (bal d n) \<and> fl_whole (bal d n) \<le> dsum fl_whole d"
  proof (cases "dget d n")
    case (Some b)
    have "fl_whole b \<le> dsum fl_whole d" using dsum_member [of d fl_whole n b] nn Some by blast
    moreover have "is_whole b" using assms dget_SomeD [OF Some] by (auto simp: whole_bals_def)
    ultimately show ?thesis using Some by (simp add: bal_def)
  next
    case None
    then show ?thesis using dsum_nonneg [of d fl_whole] nn by (simp add: bal_def)
  qed
  then show "bal d n = Fin (of_int (fl_whole (bal d n)))" "0 \<le> fl_whole (bal d n)" "fl_whole (bal d n) \<le> dsum fl_whole d"
    by (auto simp: is_whole_def)
qed

lemma set_dset_sub: "set (dset k v d) \<subseteq> insert (k, v) (set d)"
  by (induction d) (auto simp: dset_Cons)

lemma dsum_dset_bal: "dsum fl_whole (dset n x d) = dsum fl_whole d + fl_whole x - fl_whole (bal d n)"
  by (simp add: dsum_dset bal_def split: option.splits)

lemma whole_bals_dset:
  assumes "whole_bals d" "0 \<le> i" "dsum fl_whole d + i - fl_whole (bal d n) < 2 ^ 53"
  shows "whole_bals (dset n (Fin (of_int i)) d)"
  using assms set_dset_sub [of n "Fin (of_int i)" d] unfolding whole_bals_def by (auto simp: dsum_dset_bal)

lemma whole_credit:
  assumes "whole_bals d" "0 \<le> a" "dsum fl_whole d + a < 2 ^ 53"
  shows "fl_add (bal d n) (Fin (of_int a)) = Fin (of_int (fl_whole (bal d n) + a))"
  using whole_bal [OF assms(1), of n] assms(2,3) fl_add_ints [of "fl_whole (bal d n)" a] by (metis abs_of_nonneg add_increasing2 add_mono_thms_linordered_semiring(3) order_le_less_trans)

lemma whole_debit:
  assumes "whole_bals d" "0 \<le> a" "a \<le> fl_whole (bal d n)"
  shows "fl_sub (bal d n) (Fin (of_int a)) = Fin (of_int (fl_whole (bal d n) - a))"
proof -
  have "fl_whole (bal d n) < 2 ^ 53" using whole_bal(3) [OF assms(1), of n] assms(1) by (simp add: whole_bals_def)
  then show ?thesis
    using whole_bal(1) [OF assms(1), of n] assms fl_sub_ints [of "fl_whole (bal d n)" a] by (metis abs_of_nonneg diff_ge_0_iff_ge diff_le_eq le_add_same_cancel1 order_le_less_trans)
qed

text \<open>A transfer of a whole amount, refused or carried out.\<close>

lemma whole_transfer_refused:
  assumes "whole_bals (tl_balances l)" "a \<le> 0 \<or> fl_whole (tl_get_balance l s) < a"
  shows "transfer txid now s r (Fin (of_int a)) sg l = (Inr False, l)"
proof -
  let ?i = "fl_whole (bal (tl_balances l) s)"
  have "fl_le (Fin (of_int a)) (Fin 0) \<longleftrightarrow> a \<le> 0" by simp
  moreover have "fl_lt (tl_get_balance l s) (Fin (of_int a)) \<longleftrightarrow> ?i < a"
    unfolding tl_get_balance_def by (subst whole_bal(1) [OF assms(1)]) simp
  ultimately show ?thesis using assms(2) by (auto simp: transfer_def tl_get_balance_def)
qed

lemma transfer_accept:
  assumes "\<not> fl_le amount (Fin 0)" "\<not> fl_lt (tl_get_balance l s) amount" "dget (tl_balances l) s = Some b"
  shows "\<exists>hist. transfer txid now s r amount sg l =
    (Inr True, l\<lparr>tl_balances := dset r (fl_add (bal (dset s (fl_sub b amount) (tl_balances l)) r) amount)
                                   (dset s (fl_sub b amount) (tl_balances l)), tl_history := hist\<rparr>)"
  using assms by (auto simp: transfer_def Let_def)

lemma whole_transfer_done:
  assumes w: "whole_bals (tl_balances l)" and a: "0 < a" "a \<le> fl_whole (tl_get_balance l s)"
  shows "\<exists>l'. transfer txid now s r (Fin (of_int a)) sg l = (Inr True, l') \<and> whole_bals (tl_balances l') \<and>
    dsum fl_whole (tl_balances l') = dsum fl_whole (tl_balances l) \<and>
    (\<forall>n. fl_whole (tl_get_balance l' n) =
       fl_whole (tl_get_balance l n) - (if n = s then a else 0) + (if n = r then a else 0))"
proof -
  let ?d = "tl_balances l"
  let ?i = "fl_whole (bal ?d s)"
  have a': "a \<le> ?i" using a(2) by (simp add: tl_get_balance_def)
  then obtain b where b: "dget ?d s = Some b" "b = bal ?d s"
    using a(1) by (cases "dget ?d s") (auto simp: bal_def)
  have le: "\<not> fl_le (Fin (of_int a)) (Fin 0)" using a(1) by simp
  have lt: "\<not> fl_lt (tl_get_balance l s) (Fin (of_int a))"
    unfolding tl_get_balance_def by (subst whole_bal(1) [OF w]) (use a' in simp)
  define d1 where "d1 = dset s (Fin (of_int (?i - a))) ?d"
  have sub: "fl_sub b (Fin (of_int a)) = Fin (of_int (?i - a))" using whole_debit [OF w _ a'] a(1) b(2) by simp
  have sum1: "dsum fl_whole d1 = dsum fl_whole ?d - a" by (simp add: d1_def dsum_dset_bal)
  have "dsum fl_whole ?d < 2 ^ 53" using w by (simp add: whole_bals_def)
  then have w1: "whole_bals d1" unfolding d1_def using a a' w by (intro whole_bals_dset) auto
  let ?j = "fl_whole (bal d1 r)"
  have add: "fl_add (bal d1 r) (Fin (of_int a)) = Fin (of_int (?j + a))"
    using whole_credit [OF w1, of a r] a(1) sum1 w by (simp add: whole_bals_def)
  define d2 where "d2 = dset r (Fin (of_int (?j + a))) d1"
  have sum2: "dsum fl_whole d2 = dsum fl_whole ?d" by (simp add: d2_def dsum_dset_bal sum1)
  have "0 \<le> ?j" using whole_bal(2) [OF w1] .
  then have w2: "whole_bals d2" unfolding d2_def using a(1) w1 sum1 w by (intro whole_bals_dset) (auto simp: whole_bals_def)
  have bals: "fl_whole (bal d2 n) = fl_whole (bal ?d n) - (if n = s then a else 0) + (if n = r then a else 0)" for n
    by (auto simp: d2_def d1_def)
  obtain hist where "transfer txid now s r (Fin (of_int a)) sg l = (Inr True, l\<lparr>tl_balances := d2, tl_history := hist\<rparr>)"
    using transfer_accept [OF le lt b(1), of txid now r sg] unfolding sub d1_def [symmetric] add d2_def [symmetric] by blast
  then show ?thesis using w2 sum2 bals by (simp add: tl_get_balance_def)
qed

lemma whole_mint:
  assumes w: "whole_bals (tl_balances l)" and a: "0 \<le> a" "dsum fl_whole (tl_balances l) + a < 2 ^ 53"
  shows "\<exists>l'. mint txid now n (Fin (of_int a)) pf l = (True, l') \<and> whole_bals (tl_balances l') \<and>
    dsum fl_whole (tl_balances l') = dsum fl_whole (tl_balances l) + a \<and>
    (\<forall>m. fl_whole (tl_get_balance l' m) = fl_whole (tl_get_balance l m) + (if m = n then a else 0))"
  using a whole_bals_dset [OF w, of "fl_whole (bal (tl_balances l) n) + a" n] whole_bal(2) [OF w, of n]
  by (auto simp: mint_def tl_get_balance_def whole_credit [OF w a] dsum_dset_bal)

interpretation exact: refinement whole_step int_step abs_ledger int_enabled "\<lambda>l. whole_bals (tl_balances l)"
proof (unfold_locales, goal_cases)
  case (1 l x)
  show ?case
  proof (cases x)
    case (WMint n a)
    then show ?thesis using 1 whole_mint [of l a "[]" "Fin 0" n "[]"]
      by (cases "a < 0") (auto simp: mint_def abs_ledger_def)
  next
    case (WTransfer s r a)
    then show ?thesis
      using 1 whole_transfer_refused [of l a s "[]" "Fin 0" r "[]"] whole_transfer_done [of l a s "[]" "Fin 0" r "[]"]
      by (cases "a \<le> 0 \<or> fl_whole (tl_get_balance l s) < a") auto
  qed
next
  case (2 l x)
  show ?case
  proof (cases x)
    case (WMint n a)
    then show ?thesis using 2 whole_mint [of l a "[]" "Fin 0" n "[]"]
      by (cases "a < 0") (auto simp: mint_def abs_ledger_def fun_eq_iff)
  next
    case (WTransfer s r a)
    show ?thesis
    proof (cases "a \<le> 0 \<or> fl_whole (tl_get_balance l s) < a")
      case True
      then show ?thesis using WTransfer 2 whole_transfer_refused [of l a s "[]" "Fin 0" r "[]"]
        by (simp add: abs_ledger_def)
    next
      case False
      then show ?thesis using WTransfer 2 whole_transfer_done [of l a s "[]" "Fin 0" r "[]"]
        by (auto simp: abs_ledger_def fun_eq_iff Let_def)
    qed
  qed
qed

lemma ledger_init_whole: "whole_bals (tl_balances ledger_init)"
  and ledger_init_abs: "abs_ledger ledger_init = ((\<lambda>n. if n = ''KERNEL_ROOT'' then 1000000000 else 0), 1000000000)"
  by (auto simp: whole_bals_def ledger_init_def is_whole_def dict_ok_def abs_ledger_def tl_get_balance_def bal_def dget_Cons fun_eq_iff)

section \<open>The market pays out of its pool\<close>

abbreviation pool :: string where
  "pool \<equiv> ''ESCROW_POOL''"

text \<open>
  The market's invariant for whole prices: every amount in escrow is positive, and the pool covers all
  of them together.
\<close>

definition market_ok :: "compute_market \<Rightarrow> bool" where
  "market_ok m \<longleftrightarrow> whole_bals (tl_balances (cm_ledger m)) \<and> dict_ok (cm_escrow m) \<and>
     (\<forall>j x. (j, x) \<in> set (cm_escrow m) \<longrightarrow> is_whole x \<and> 0 < fl_whole x) \<and>
     dsum fl_whole (cm_escrow m) \<le> fl_whole (tl_get_balance (cm_ledger m) pool) \<and>
     (\<forall>i j. dget (cm_open_jobs m) i = Some j \<longrightarrow> js_requester_id j \<noteq> pool) \<and>
     (\<forall>i bs. dget (cm_bids m) i = Some bs \<longrightarrow> list_all (\<lambda>b. \<exists>k. bd_price b = Fin (of_int k)) bs)"

datatype market_op =
    PostJob job_spec | SubmitBid bid | MatchJob string pyfloat string | CompleteJob string pyfloat string string
  | MarketMint string pyfloat string int string | MarketTransfer string pyfloat string string int string

fun market_step :: "market_op \<Rightarrow> compute_market \<Rightarrow> compute_market" where
  "market_step (PostJob j) m = snd (post_job j m)"
| "market_step (SubmitBid b) m = snd (submit_bid b m)"
| "market_step (MatchJob txid now jid) m = snd (match_job txid now jid m)"
| "market_step (CompleteJob txid now jid w) m = snd (complete_job txid now jid w m)"
| "market_step (MarketMint txid now n a pf) m = m\<lparr>cm_ledger := snd (mint txid now n (Fin (of_int a)) pf (cm_ledger m))\<rparr>"
| "market_step (MarketTransfer txid now s r a sg) m =
     m\<lparr>cm_ledger := snd (transfer txid now s r (Fin (of_int a)) sg (cm_ledger m))\<rparr>"

text \<open>
  What the users of a market keep to: nobody acts in the name of the pool, prices are whole, and the
  supply stays small enough.
\<close>

fun fair :: "market_op \<Rightarrow> compute_market \<Rightarrow> bool" where
  "fair (PostJob j) m = (js_requester_id j \<noteq> pool)"
| "fair (SubmitBid b) m = (\<exists>k. bd_price b = Fin (of_int k))"
| "fair (MarketMint txid now n a pf) m = (dsum fl_whole (tl_balances (cm_ledger m)) + a < 2 ^ 53)"
| "fair (MarketTransfer txid now s r a sg) m = (s \<noteq> pool)"
| "fair x m = True"

fun fair_run :: "market_op list \<Rightarrow> compute_market \<Rightarrow> bool" where
  "fair_run [] m = True"
| "fair_run (x # xs) m = (fair x m \<and> fair_run xs (market_step x m))"

lemma is_whole_price: "is_whole x \<Longrightarrow> x = Fin (of_int (fl_whole x))"
  by (simp add: is_whole_def)

lemma escrow_dset:
  assumes "\<forall>j x. (j, x) \<in> set d \<longrightarrow> is_whole x \<and> 0 < fl_whole x" "0 < k"
  shows "\<forall>j x. (j, x) \<in> set (dset i (Fin (of_int k)) d) \<longrightarrow> is_whole x \<and> 0 < fl_whole x"
    and "dsum fl_whole (dset i (Fin (of_int k)) d) \<le> dsum fl_whole d + k"
proof -
  show "\<forall>j x. (j, x) \<in> set (dset i (Fin (of_int k)) d) \<longrightarrow> is_whole x \<and> 0 < fl_whole x"
    using assms set_dset_sub [of i "Fin (of_int k)" d] by auto
  show "dsum fl_whole (dset i (Fin (of_int k)) d) \<le> dsum fl_whole d + k"
    using assms(1) dget_SomeD [of d i] by (force simp: dsum_dset split: option.splits)
qed

lemma market_ok_lock:
  assumes ok: "market_ok m" and w: "whole_bals (tl_balances l')" and k: "0 < k"
    and p: "fl_whole (tl_get_balance l' pool) = fl_whole (tl_get_balance (cm_ledger m) pool) + k"
  shows "market_ok (m\<lparr>cm_ledger := l', cm_escrow := dset jid (Fin (of_int k)) (cm_escrow m),
           cm_open_jobs := ddel jid (cm_open_jobs m)\<rparr>)"
proof -
  have "\<forall>j x. (j, x) \<in> set (cm_escrow m) \<longrightarrow> is_whole x \<and> 0 < fl_whole x" using ok unfolding market_ok_def by blast
  note e = escrow_dset [OF this k, of jid]
  have "dsum fl_whole (cm_escrow m) \<le> fl_whole (tl_get_balance (cm_ledger m) pool)" using ok unfolding market_ok_def by blast
  with e(2) p have "dsum fl_whole (dset jid (Fin (of_int k)) (cm_escrow m)) \<le> fl_whole (tl_get_balance l' pool)" by linarith
  moreover have "dict_ok (dset jid (Fin (of_int k)) (cm_escrow m))" using ok by (simp add: market_ok_def)
  moreover have "\<forall>i j. dget (ddel jid (cm_open_jobs m)) i = Some j \<longrightarrow> js_requester_id j \<noteq> pool"
    using ok by (simp add: market_ok_def)
  moreover have "\<forall>i bs. dget (cm_bids m) i = Some bs \<longrightarrow> list_all (\<lambda>b. \<exists>k. bd_price b = Fin (of_int k)) bs"
    using ok unfolding market_ok_def by blast
  ultimately show ?thesis unfolding market_ok_def using w e(1) by simp
qed

lemma match_job_ok:
  assumes ok: "market_ok m"
  shows "market_ok (snd (match_job txid now jid m))"
proof (cases "\<exists>j b bs. dget (cm_open_jobs m) jid = Some j \<and> dget (cm_bids m) jid = Some (b # bs)")
  case True
  then obtain j b bs where j: "dget (cm_open_jobs m) jid = Some j" and bs: "dget (cm_bids m) jid = Some (b # bs)" by blast
  define best where "best = hd (sort_lt bid_lt (b # bs))"
  have "best \<in> set (b # bs)" unfolding best_def by (metis hd_in_set set_sort_lt sort_lt_eq_Nil list.distinct(1))
  moreover have "list_all (\<lambda>b. \<exists>k. bd_price b = Fin (of_int k)) (b # bs)" using ok bs unfolding market_ok_def by blast
  ultimately obtain k where k: "bd_price best = Fin (of_int k)" unfolding list_all_iff by blast
  have w: "whole_bals (tl_balances (cm_ledger m))" and req: "js_requester_id j \<noteq> pool"
    using ok j by (auto simp: market_ok_def)
  show ?thesis
  proof (cases "k \<le> 0 \<or> fl_whole (tl_get_balance (cm_ledger m) (js_requester_id j)) < k")
    case True
    from whole_transfer_refused [OF w this, of txid now pool "[]"] show ?thesis
      using ok j bs k by (simp add: match_job_def best_def [symmetric])
  next
    case False
    then obtain l' where l': "transfer txid now (js_requester_id j) pool (Fin (of_int k)) [] (cm_ledger m) = (Inr True, l')"
        "whole_bals (tl_balances l')"
        "fl_whole (tl_get_balance l' pool) = fl_whole (tl_get_balance (cm_ledger m) pool) + k"
      using whole_transfer_done [OF w, of k "js_requester_id j" txid now pool "[]"] req by fastforce
    have "match_job txid now jid m = (Inr (Some best), m\<lparr>cm_ledger := l', cm_escrow := dset jid (Fin (of_int k)) (cm_escrow m),
        cm_open_jobs := ddel jid (cm_open_jobs m)\<rparr>)"
      using j bs k l'(1) by (simp add: match_job_def best_def [symmetric])
    then show ?thesis using market_ok_lock [OF ok l'(2) _ l'(3), of jid] False by simp
  qed
next
  case False
  then show ?thesis using ok by (auto simp: match_job_def split: option.splits list.splits)
qed

lemma complete_job_pays:
  assumes ok: "market_ok m" and e: "dget (cm_escrow m) jid = Some x"
  shows "\<exists>m'. complete_job txid now jid w m = (Inr True, m') \<and> market_ok m' \<and> dget (cm_escrow m') jid = None \<and>
    fl_whole (tl_get_balance (cm_ledger m') w) =
      fl_whole (tl_get_balance (cm_ledger m) w) + (if w = pool then 0 else fl_whole x)"
proof -
  have esc: "is_whole y \<and> 0 < fl_whole y" if "(i, y) \<in> set (cm_escrow m)" for i y using ok that by (auto simp: market_ok_def)
  have x: "x = Fin (of_int (fl_whole x))" "0 < fl_whole x" using esc dget_SomeD [OF e] is_whole_price by blast+
  have "fl_whole x \<le> dsum fl_whole (cm_escrow m)" using dsum_member [OF _ e, of fl_whole] esc by fastforce
  then have le: "fl_whole x \<le> fl_whole (tl_get_balance (cm_ledger m) pool)" using ok by (simp add: market_ok_def)
  have wb: "whole_bals (tl_balances (cm_ledger m))" using ok by (simp add: market_ok_def)
  obtain l' where l': "transfer txid now pool w x [] (cm_ledger m) = (Inr True, l')" "whole_bals (tl_balances l')"
    "\<And>n. fl_whole (tl_get_balance l' n) = fl_whole (tl_get_balance (cm_ledger m) n) - (if n = pool then fl_whole x else 0) +
          (if n = w then fl_whole x else 0)"
    using whole_transfer_done [OF wb x(2) le, of txid now w "[]"] unfolding x(1) [symmetric] by blast
  define m' where "m' = m\<lparr>cm_ledger := l', cm_escrow := ddel jid (cm_escrow m)\<rparr>"
  have "complete_job txid now jid w m = (Inr True, m')" using e l'(1) by (simp add: complete_job_def m'_def)
  moreover have "set (ddel jid (cm_escrow m)) \<subseteq> set (cm_escrow m)" by (auto simp: ddel_def AList.delete_eq)
  moreover have "dsum fl_whole (ddel jid (cm_escrow m)) = dsum fl_whole (cm_escrow m) - fl_whole x"
    using dsum_ddel [of "cm_escrow m"] ok e by (simp add: market_ok_def)
  ultimately show ?thesis
    using ok l' x(2) by (auto simp: m'_def market_ok_def)
qed

lemma ledger_change_ok:
  assumes "market_ok m" "whole_bals (tl_balances l')"
    and "fl_whole (tl_get_balance (cm_ledger m) pool) \<le> fl_whole (tl_get_balance l' pool)"
  shows "market_ok (m\<lparr>cm_ledger := l'\<rparr>)"
  using assms by (auto simp: market_ok_def)

lemma market_step_ok:
  assumes ok: "market_ok m" and fair: "fair x m"
  shows "market_ok (market_step x m)"
proof (cases x)
  case (PostJob j)
  then show ?thesis using ok fair by (auto simp: post_job_def market_ok_def)
next
  case (SubmitBid b)
  then show ?thesis using ok fair by (auto simp: submit_bid_def market_ok_def split: option.splits)
next
  case (MatchJob txid now jid)
  then show ?thesis using match_job_ok [OF ok] by simp
next
  case (CompleteJob txid now jid w)
  show ?thesis
  proof (cases "dget (cm_escrow m) jid")
    case None
    then show ?thesis using ok CompleteJob by (simp add: complete_job_def)
  next
    case (Some a)
    then show ?thesis using complete_job_pays [OF ok Some, of txid now w] CompleteJob by auto
  qed
next
  case (MarketMint txid now n a pf)
  have w: "whole_bals (tl_balances (cm_ledger m))" using ok by (simp add: market_ok_def)
  show ?thesis
  proof (cases "a < 0")
    case True
    then show ?thesis using MarketMint ok by (simp add: mint_def)
  next
    case False
    then show ?thesis using MarketMint fair whole_mint [OF w, of a txid now n pf]
      by (auto intro!: ledger_change_ok [OF ok])
  qed
next
  case (MarketTransfer txid now s r a sg)
  have w: "whole_bals (tl_balances (cm_ledger m))" using ok by (simp add: market_ok_def)
  show ?thesis
  proof (cases "a \<le> 0 \<or> fl_whole (tl_get_balance (cm_ledger m) s) < a")
    case True
    then show ?thesis using MarketTransfer ok whole_transfer_refused [OF w] by simp
  next
    case False
    then show ?thesis using MarketTransfer fair whole_transfer_done [OF w, of a s txid now r sg]
      by (auto intro!: ledger_change_ok [OF ok])
  qed
qed

lemma market_run_ok: "market_ok m \<Longrightarrow> fair_run xs m \<Longrightarrow> market_ok (fold market_step xs m)"
  by (induction xs arbitrary: m) (auto intro: market_step_ok)

lemma market_init_ok: "market_ok (market_init ledger_init)"
  using whole_bal(2) [OF ledger_init_whole, of pool] ledger_init_whole
  by (simp add: market_ok_def market_init_def tl_get_balance_def)

section \<open>Properties\<close>

text \<open>
  C11. Whatever amounts are minted and transferred, a node's balance is what replaying the history from
  the genesis balance gives, float operation by float operation.
\<close>
theorem history_explains_balances:
  "tl_get_balance (fold ledger_step ops ledger_init) node = replay node (tl_history (fold ledger_step ops ledger_init))"
proof -
  have "explained ledger_init" by (simp add: explained_def replay_def) (simp add: ledger_init_def)
  from explained.run_inv [OF this] show ?thesis by (simp add: explained_def)
qed

text \<open>
  As long as all amounts are finite floats no balance ever becomes negative or NaN, in spite of
  rounding and overflow.
\<close>
theorem balances_stay_nonneg:
  assumes "\<And>x. x \<in> set ops \<Longrightarrow> op_amount x \<notin> {NaN, PosInf, NegInf}"
  shows "fl_nonneg (tl_get_balance (fold ledger_step ops ledger_init) node)"
proof -
  have "solvent l \<Longrightarrow> (\<And>x. x \<in> set xs \<Longrightarrow> op_amount x \<notin> {NaN, PosInf, NegInf}) \<Longrightarrow> solvent (fold ledger_step xs l)" for l xs
    by (induction xs arbitrary: l) (simp_all add: solvent_step)
  moreover have "solvent ledger_init" by (simp add: solvent_def ledger_init_def tl_get_balance_def bal_def dget_Cons)
  ultimately show ?thesis using assms by (simp add: solvent_def)
qed

text \<open>
  C10. For whole amounts the float ledger is the integer ledger: as long as the supply stays below two
  to the 53, every run has the balances and the supply of the exact one.
\<close>
theorem whole_amounts_are_exact:
  assumes "\<And>i. i < length ops \<Longrightarrow> int_enabled (ops ! i)
    (fold int_step (take i ops) ((\<lambda>n. if n = ''KERNEL_ROOT'' then 1000000000 else 0), 1000000000))"
  shows "abs_ledger (fold whole_step ops ledger_init) =
    fold int_step ops ((\<lambda>n. if n = ''KERNEL_ROOT'' then 1000000000 else 0), 1000000000)"
  using exact.run_refines [OF ledger_init_whole, of ops] assms unfolding ledger_init_abs by blast

text \<open>
  C14. In a market whose users pay whole prices and do not act in the name of the pool, a job in escrow
  can always be completed: the call succeeds, the escrow entry is gone, and the worker named in the call,
  whoever that is, receives the amount.
\<close>
theorem escrow_is_always_paid:
  assumes "fair_run ops (market_init ledger_init)" and "m = fold market_step ops (market_init ledger_init)"
    and "dget (cm_escrow m) jid = Some amount" and "w \<noteq> ''ESCROW_POOL''"
  shows "\<exists>m'. complete_job txid now jid w m = (Inr True, m') \<and> dget (cm_escrow m') jid = None \<and>
    fl_whole (tl_get_balance (cm_ledger m') w) = fl_whole (tl_get_balance (cm_ledger m) w) + fl_whole amount"
proof -
  have "market_ok m" unfolding assms(2) using assms(1) by (intro market_run_ok market_init_ok)
  from complete_job_pays [OF this assms(3), of txid now w] assms(4) show ?thesis by auto
qed

text \<open>
  A single bid with a price of zero or less makes its job unmatchable: it is the best bid, its
  payment is refused, and nothing changes, so every later attempt fails in the same way.
\<close>
theorem free_bid_blocks_matching:
  assumes "dget (cm_bids m) jid = Some bs" and "b \<in> set bs" and "bd_price b = Fin p" and "p \<le> 0"
    and "\<And>x. x \<in> set bs \<Longrightarrow> bd_price x \<noteq> NaN \<and> bd_eta x \<noteq> NaN"
  shows "match_job txid now jid m = (Inr None, m)"
proof (cases "dget (cm_open_jobs m) jid")
  case (Some j)
  let ?best = "hd (sort_lt bid_lt bs)"
  have ne: "bs \<noteq> []" using assms(2) by auto
  have best: "?best \<in> set bs \<and> (\<forall>x\<in>set bs. \<not> bid_lt x ?best)"
  proof (rule sort_lt_hd [OF ne])
    show "\<not> bid_lt y x" if "x \<in> set bs" "y \<in> set bs" "bid_lt x y" for x y
      using that fl_lt_asym by (auto simp: bid_lt_def fl_eq_iff split: if_splits)
    show "\<not> bid_lt x z" if "x \<in> set bs" "y \<in> set bs" "z \<in> set bs" "\<not> bid_lt x y" "\<not> bid_lt y z" for x y z
      using that assms(5) [of x] assms(5) [of y] assms(5) [of z] fl_lt_linear fl_lt_asym
      unfolding bid_lt_def fl_eq_iff by (metis fl_not_lt_trans)
  qed
  then have "\<not> bid_lt b ?best" using assms(2) by blast
  then have "fl_le (bd_price ?best) (Fin 0)"
    using assms(3,4) assms(5) [of ?best] best by (cases "bd_price ?best") (auto simp: bid_lt_def fl_eq_iff split: if_splits)
  then have "transfer txid now (js_requester_id j) ''ESCROW_POOL'' (bd_price ?best) [] (cm_ledger m) = (Inr False, cm_ledger m)"
    by (simp add: transfer_def)
  moreover obtain c cs where "bs = c # cs" using ne by (cases bs) auto
  ultimately show ?thesis using Some assms(1) by (simp add: match_job_def)
qed (auto simp: match_job_def)

section \<open>Witnesses\<close>

theorem balances_stay_nonneg_witness:
  "fl_nonneg (tl_get_balance (fold ledger_step [Transfer ''t1'' (Fin 1) ''KERNEL_ROOT'' ''a'' (Fin (1 / 10)) [],
     Transfer ''t2'' (Fin 2) ''a'' ''b'' (Fin (1 / 20)) []] ledger_init) ''a'')"
  by (rule balances_stay_nonneg) auto

theorem whole_amounts_are_exact_witness:
  "fst (abs_ledger (fold whole_step [WMint ''a'' 5, WTransfer ''KERNEL_ROOT'' ''a'' 7] ledger_init)) ''a'' = 12"
proof -
  let ?ops = "[WMint ''a'' 5, WTransfer ''KERNEL_ROOT'' ''a'' 7]"
  have "int_enabled (?ops ! i)
    (fold int_step (take i ?ops) ((\<lambda>n. if n = ''KERNEL_ROOT'' then 1000000000 else 0), 1000000000))"
    if "i < length ?ops" for i
    using that by (auto simp: less_Suc_eq)
  from whole_amounts_are_exact [OF this] show ?thesis by simp
qed

definition demo_market_ops :: "market_op list" where
  "demo_market_ops =
     [PostJob \<lparr>js_job_id = ''j'', js_requester_id = ''KERNEL_ROOT'', js_compute_type = ''ZK_PROOF'', js_complexity = Fin 1,
               js_max_price = Fin 20, js_deadline = Fin 9\<rparr>,
      SubmitBid \<lparr>bd_bid_id = ''b'', bd_worker_id = ''w'', bd_job_id = ''j'', bd_price = Fin (of_int 10), bd_eta = Fin 1,
                 bd_reputation = Fin 1\<rparr>,
      MatchJob ''t'' (Fin 1) ''j'']"

lemma demo_fair: "fair_run demo_market_ops (market_init ledger_init)"
  by (simp add: demo_market_ops_def del: of_int_numeral)

lemma demo_escrow: "dget (cm_escrow (fold market_step demo_market_ops (market_init ledger_init))) ''j'' = Some (Fin 10)"
  by (simp add: demo_market_ops_def post_job_def submit_bid_def match_job_def market_init_def transfer_def ledger_init_def
      tl_get_balance_def bal_def dget_Cons dset_Cons sort_lt_def Let_def)

theorem escrow_is_always_paid_witness:
  "\<exists>m'. complete_job ''t2'' (Fin 2) ''j'' ''w'' (fold market_step demo_market_ops (market_init ledger_init)) = (Inr True, m') \<and>
     dget (cm_escrow m') ''j'' = None \<and>
     fl_whole (tl_get_balance (cm_ledger m') ''w'') =
       fl_whole (tl_get_balance (cm_ledger (fold market_step demo_market_ops (market_init ledger_init))) ''w'') + fl_whole (Fin 10)"
  by (rule escrow_is_always_paid [OF demo_fair refl demo_escrow]) simp

definition demo_blocked :: compute_market where
  "demo_blocked = \<lparr>cm_ledger = ledger_init,
     cm_open_jobs = [(''j'', \<lparr>js_job_id = ''j'', js_requester_id = ''KERNEL_ROOT'', js_compute_type = [], js_complexity = Fin 1,
        js_max_price = Fin 20, js_deadline = Fin 9\<rparr>)],
     cm_bids = [(''j'', [\<lparr>bd_bid_id = ''b1'', bd_worker_id = ''w'', bd_job_id = ''j'', bd_price = Fin 10, bd_eta = Fin 1,
        bd_reputation = Fin 1\<rparr>, \<lparr>bd_bid_id = ''b2'', bd_worker_id = ''x'', bd_job_id = ''j'', bd_price = Fin 0, bd_eta = Fin 1,
        bd_reputation = Fin 1\<rparr>])], cm_escrow = []\<rparr>"

theorem free_bid_blocks_matching_witness: "match_job ''t'' (Fin 1) ''j'' demo_blocked = (Inr None, demo_blocked)"
  by (rule free_bid_blocks_matching [where p = 0 and b = "\<lparr>bd_bid_id = ''b2'', bd_worker_id = ''x'', bd_job_id = ''j'',
        bd_price = Fin 0, bd_eta = Fin 1, bd_reputation = Fin 1\<rparr>"])
    (auto simp: demo_blocked_def dget_Cons)

end
