(* ===== verification/Credits.thy ===== *)
theory Credits
  imports Float_Arith
begin

text \<open>
  Credits kept in the persistence store: the balances of \<^verbatim>\<open>kernel/sys/persistence.py\<close>, the credit
  manager of \<^verbatim>\<open>kernel/ops/economy.py\<close>, the staking of \<^verbatim>\<open>kernel/ops/tokenomics.py\<close> and the agent ledger
  of \<^verbatim>\<open>economy/agent_transfer.py\<close>. The store holds whole balances, the managers compute with floats. The
  native ledger of a store is the function of its answers; signature verification is the argument
  \<open>verify\<close>, and \<open>show_amount\<close> is the text of a float.
\<close>

section \<open>Balances of the store\<close>

record store =
  sv_native :: "(string \<Rightarrow> int) option"
  sv_balances :: "(string, int) dict option"

definition sv_get_balance :: "store \<Rightarrow> string \<Rightarrow> int" where
  "sv_get_balance s addr =
     (let v = (case sv_native s of Some f \<Rightarrow> f addr | None \<Rightarrow> 0)
      in if v = 0 then
           (case sv_balances s of
              None \<Rightarrow> v
            | Some d \<Rightarrow> (case dget d addr of Some x \<Rightarrow> x | None \<Rightarrow> v))
         else v)"

definition sv_update_balance :: "string \<Rightarrow> int \<Rightarrow> store \<Rightarrow> store" where
  "sv_update_balance addr amount s =
     (case sv_balances s of
        None \<Rightarrow> s
      | Some d \<Rightarrow> s\<lparr>sv_balances := Some (dset addr amount d)\<rparr>)"

section \<open>The credit manager\<close>

record credit_tx =
  ct_from :: string
  ct_to :: string
  ct_amount :: pyfloat
  ct_reason :: string

record credit_manager =
  cr_node_id :: string
  cr_store :: "store option"
  cr_balances :: "(string, pyfloat) dict"
  cr_transactions :: "credit_tx list"

definition credit_init :: "string \<Rightarrow> store option \<Rightarrow> pyfloat \<Rightarrow> credit_manager result" where
  "credit_init node st initial =
     (case st of
        None \<Rightarrow> Inr \<lparr>cr_node_id = node, cr_store = None, cr_balances = [(node, initial)], cr_transactions = []\<rparr>
      | Some s \<Rightarrow>
          bindE (fl_of_int (sv_get_balance s node)) (\<lambda>current.
          bindE (if fl_eq current (Fin 0) \<and> fl_lt (Fin 0) initial
                 then bindE (fl_int initial) (\<lambda>v. Inr (sv_update_balance node v s)) else Inr s) (\<lambda>s1.
            Inr \<lparr>cr_node_id = node, cr_store = Some s1, cr_balances = [], cr_transactions = []\<rparr>)))"

definition cr_get_balance :: "credit_manager \<Rightarrow> string \<Rightarrow> pyfloat result" where
  "cr_get_balance m node =
     (case cr_store m of
        Some s \<Rightarrow> fl_of_int (sv_get_balance s node)
      | None \<Rightarrow> Inr (case dget (cr_balances m) node of Some b \<Rightarrow> b | None \<Rightarrow> Fin 0))"

definition log_credit :: "string \<Rightarrow> string \<Rightarrow> pyfloat \<Rightarrow> string \<Rightarrow> credit_manager \<Rightarrow> credit_manager" where
  "log_credit a b amount reason m =
     m\<lparr>cr_transactions := cr_transactions m @ [\<lparr>ct_from = a, ct_to = b, ct_amount = amount, ct_reason = reason\<rparr>]\<rparr>"

text \<open>
  \<open>transfer\<close>: with a store both balances are read before either is written; without one the sender's
  entry is decremented in place.
\<close>

definition cr_transfer ::
  "string \<Rightarrow> string \<Rightarrow> pyfloat \<Rightarrow> string \<Rightarrow> credit_manager \<Rightarrow> bool result \<times> credit_manager" where
  "cr_transfer a b amount reason m =
     (case cr_get_balance m a of
        Inl err \<Rightarrow> (Inl err, m)
      | Inr from_bal \<Rightarrow>
          if fl_lt from_bal amount then (Inr False, m)
          else
            (case cr_store m of
               Some s \<Rightarrow>
                 (case bindE (cr_get_balance m b) (\<lambda>to_bal. bindE (fl_int (fl_sub from_bal amount)) (\<lambda>v. Inr (to_bal, v))) of
                    Inl err \<Rightarrow> (Inl err, m)
                  | Inr (to_bal, v) \<Rightarrow>
                      (let s1 = sv_update_balance a v s
                       in case fl_int (fl_add to_bal amount) of
                            Inl err \<Rightarrow> (Inl err, m\<lparr>cr_store := Some s1\<rparr>)
                          | Inr w \<Rightarrow>
                              (Inr True, log_credit a b amount reason (m\<lparr>cr_store := Some (sv_update_balance b w s1)\<rparr>))))
             | None \<Rightarrow>
                 (case dget (cr_balances m) a of
                    None \<Rightarrow> (Inl KeyError, m)
                  | Some x \<Rightarrow>
                      (let d1 = dset a (fl_sub x amount) (cr_balances m);
                           y = (case dget d1 b of Some y \<Rightarrow> y | None \<Rightarrow> Fin 0)
                       in (Inr True, log_credit a b amount reason (m\<lparr>cr_balances := dset b (fl_add y amount) d1\<rparr>))))))"

definition cr_deduct :: "string \<Rightarrow> pyfloat \<Rightarrow> credit_manager \<Rightarrow> bool result \<times> credit_manager" where
  "cr_deduct node amount m =
     (case cr_get_balance m node of
        Inl err \<Rightarrow> (Inl err, m)
      | Inr current \<Rightarrow>
          if fl_lt current amount then (Inr False, m)
          else
            (case cr_store m of
               Some s \<Rightarrow>
                 (case fl_int (fl_sub current amount) of
                    Inl err \<Rightarrow> (Inl err, m)
                  | Inr v \<Rightarrow> (Inr True, m\<lparr>cr_store := Some (sv_update_balance node v s)\<rparr>))
             | None \<Rightarrow>
                 (case dget (cr_balances m) node of
                    None \<Rightarrow> (Inl KeyError, m)
                  | Some x \<Rightarrow> (Inr True, m\<lparr>cr_balances := dset node (fl_sub x amount) (cr_balances m)\<rparr>))))"

section \<open>Staking\<close>

datatype stake_status = ActiveStake | SlashedStake | WithdrawnStake

record stake_record =
  sk_node_id :: string
  sk_amount :: pyfloat
  sk_since :: pyfloat
  sk_status :: stake_status

record token_manager =
  wm_store :: "store option"
  wm_stakes :: "(string, stake_record) dict"
  wm_total_burnt :: pyfloat

definition token_manager_init :: "store option \<Rightarrow> token_manager" where
  "token_manager_init st = \<lparr>wm_store = st, wm_stakes = [], wm_total_burnt = Fin 0\<rparr>"

definition MIN_STAKE :: pyfloat where
  "MIN_STAKE = Fin 10000"

definition wm_get_balance :: "token_manager \<Rightarrow> string \<Rightarrow> pyfloat result" where
  "wm_get_balance m node = (case wm_store m of Some s \<Rightarrow> fl_of_int (sv_get_balance s node) | None \<Rightarrow> Inr (Fin 0))"

text \<open>
  \<open>stake\<close>: the signature is checked only when both it and the key are given. The table statements of the
  source are guarded by an \<open>execute\<close> method that the store does not have.
\<close>

definition stake ::
  "(string \<Rightarrow> string \<Rightarrow> string \<Rightarrow> bool) \<Rightarrow> (pyfloat \<Rightarrow> string) \<Rightarrow> pyfloat \<Rightarrow> string \<Rightarrow> pyfloat \<Rightarrow> string option \<Rightarrow> string option \<Rightarrow>
   token_manager \<Rightarrow> bool result \<times> token_manager" where
  "stake verify show_amount now node amount sig pk m =
     (if (case (sig, pk) of
            (Some sg, Some k) \<Rightarrow> sg \<noteq> [] \<and> k \<noteq> [] \<and>
               \<not> verify k (''STAKE:'' @ node @ '':'' @ show_amount amount) sg
          | _ \<Rightarrow> False)
      then (Inr False, m)
      else if fl_lt amount MIN_STAKE then (Inr False, m)
      else
        (case wm_get_balance m node of
           Inl err \<Rightarrow> (Inl err, m)
         | Inr balance \<Rightarrow>
             if fl_lt balance amount then (Inr False, m)
             else
               (case wm_store m of
                  None \<Rightarrow> (Inr False, m)
                | Some s \<Rightarrow>
                    (case fl_int (fl_sub balance amount) of
                       Inl err \<Rightarrow> (Inl err, m)
                     | Inr v \<Rightarrow>
                         (Inr True, m\<lparr>wm_store := Some (sv_update_balance node v s),
                            wm_stakes := dset node \<lparr>sk_node_id = node, sk_amount = amount, sk_since = now, sk_status = ActiveStake\<rparr>
                                           (wm_stakes m)\<rparr>)))))"

definition slash :: "string \<Rightarrow> token_manager \<Rightarrow> pyfloat \<times> token_manager" where
  "slash node m =
     (case dget (wm_stakes m) node of
        None \<Rightarrow> (Fin 0, m)
      | Some r \<Rightarrow>
          if sk_status r \<noteq> ActiveStake then (Fin 0, m)
          else (sk_amount r, m\<lparr>wm_total_burnt := fl_add (wm_total_burnt m) (sk_amount r),
                  wm_stakes := dset node (r\<lparr>sk_status := SlashedStake, sk_amount := Fin 0\<rparr>) (wm_stakes m)\<rparr>))"

definition active_stakes :: "token_manager \<Rightarrow> stake_record list" where
  "active_stakes m = filter (\<lambda>r. sk_status r = ActiveStake) (dvalues (wm_stakes m))"

text \<open>\<open>get_staking_stats\<close>; \<open>pysum\<close> is Python's \<open>sum\<close> of a list of floats.\<close>

definition get_staking_stats :: "(pyfloat list \<Rightarrow> pyfloat) \<Rightarrow> token_manager \<Rightarrow> pyfloat \<times> pyfloat \<times> nat" where
  "get_staking_stats pysum m = (pysum (map sk_amount (active_stakes m)), wm_total_burnt m, length (active_stakes m))"

section \<open>The agent ledger\<close>

record agent_tx =
  ax_tx_id :: string
  ax_sender_did :: string
  ax_receiver_did :: string
  ax_amount :: pyfloat
  ax_asset_type :: string
  ax_timestamp :: pyfloat
  ax_signature :: string

definition transfer_value ::
  "string \<Rightarrow> pyfloat \<Rightarrow> string \<Rightarrow> string \<Rightarrow> pyfloat \<Rightarrow> string \<Rightarrow> agent_tx list \<Rightarrow> agent_tx \<times> agent_tx list" where
  "transfer_value digest now sender receiver amount asset ledger =
     (let tx = \<lparr>ax_tx_id = ''TXN-'' @ take 16 digest, ax_sender_did = sender, ax_receiver_did = receiver, ax_amount = amount,
                ax_asset_type = asset, ax_timestamp = now, ax_signature = ''ML-DSA-65-ECONOMIC-SIG-PLACEHOLDER''\<rparr>
      in (tx, ledger @ [tx]))"

definition agent_tx_effect :: "string \<Rightarrow> string \<Rightarrow> agent_tx \<Rightarrow> pyfloat \<Rightarrow> pyfloat" where
  "agent_tx_effect did asset tx b =
     (let b1 = (if ax_receiver_did tx = did \<and> ax_asset_type tx = asset then fl_add b (ax_amount tx) else b)
      in if ax_sender_did tx = did \<and> ax_asset_type tx = asset then fl_sub b1 (ax_amount tx) else b1)"

definition agent_balance :: "agent_tx list \<Rightarrow> string \<Rightarrow> string \<Rightarrow> pyfloat" where
  "agent_balance ledger did asset = fold (agent_tx_effect did asset) ledger (Fin 0)"

section \<open>Whole amounts\<close>

lemma fl_int_whole [simp]: "fl_int (Fin (of_int n)) = Inr n"
proof -
  have "\<lfloor>- (of_int n :: rat)\<rfloor> = - n" using floor_of_int [of "- n", where ?'a = rat] by simp
  then show ?thesis by simp
qed

lemma fl_lt_whole [simp]: "fl_lt (Fin (of_int a)) (Fin (of_int b)) \<longleftrightarrow> a < b"
  by simp

definition whole_bal :: "(string, int) dict \<Rightarrow> string \<Rightarrow> int" where
  "whole_bal d n = (case dget d n of Some x \<Rightarrow> x | None \<Rightarrow> 0)"

lemma sv_get_plain: "sv_native s = None \<Longrightarrow> sv_balances s = Some d \<Longrightarrow> sv_get_balance s n = whole_bal d n"
  by (simp add: sv_get_balance_def whole_bal_def split: option.splits)

lemma whole_bal_dset [simp]: "whole_bal (dset k v d) n = (if n = k then v else whole_bal d n)"
  by (simp add: whole_bal_def)

lemma dsum_dset_whole: "dsum (\<lambda>x. x) (dset n v d) = dsum (\<lambda>x. x) d + v - whole_bal d n"
  by (simp add: dsum_dset whole_bal_def split: option.splits)

lemma cr_transfer_store:
  assumes "cr_store m = Some s" "k \<le> sv_get_balance s a" "\<bar>sv_get_balance s a\<bar> < 2 ^ 53" "\<bar>sv_get_balance s b\<bar> < 2 ^ 53"
    and "\<bar>sv_get_balance s a - k\<bar> < 2 ^ 53" "\<bar>sv_get_balance s b + k\<bar> < 2 ^ 53"
  shows "cr_transfer a b (Fin (of_int k)) reason m = (Inr True, log_credit a b (Fin (of_int k)) reason
    (m\<lparr>cr_store := Some (sv_update_balance b (sv_get_balance s b + k) (sv_update_balance a (sv_get_balance s a - k) s))\<rparr>))"
  using assms(2)
  by (simp add: cr_transfer_def cr_get_balance_def assms(1) fl_of_int_exact [OF assms(3)] fl_of_int_exact [OF assms(4)]
      fl_sub_ints [OF assms(5)] fl_add_ints [OF assms(6)] Let_def del: of_int_add of_int_diff fl_int.simps fl_lt.simps fl_add.simps)

section \<open>Properties\<close>

text \<open>
  In a store without a native ledger a covered transfer of a whole amount, of either sign, moves
  exactly that amount and changes no other balance; the sum of all balances is conserved unless sender
  and receiver are the same, in which case the amount is created.
\<close>
theorem credit_transfer_effect:
  assumes "cr_store m = Some s" and "sv_native s = None" and "sv_balances s = Some d"
    and "k \<le> whole_bal d a" and "\<bar>whole_bal d a\<bar> < 2 ^ 52" and "\<bar>whole_bal d b\<bar> < 2 ^ 52" and "\<bar>k\<bar> < 2 ^ 52"
  shows "\<exists>m' s' d'. cr_transfer a b (Fin (of_int k)) reason m = (Inr True, m') \<and> cr_store m' = Some s' \<and>
    sv_balances s' = Some d' \<and>
    (\<forall>n. whole_bal d' n = (if n = b then whole_bal d b + k else if n = a then whole_bal d a - k else whole_bal d n)) \<and>
    dsum (\<lambda>x. x) d' = dsum (\<lambda>x. x) d + (if a = b then k else 0)"
proof -
  note bal = sv_get_plain [OF assms(2,3)]
  have "cr_transfer a b (Fin (of_int k)) reason m = (Inr True, log_credit a b (Fin (of_int k)) reason
    (m\<lparr>cr_store := Some (sv_update_balance b (whole_bal d b + k) (sv_update_balance a (whole_bal d a - k) s))\<rparr>))"
    using cr_transfer_store [OF assms(1), of k a b reason] assms(4-7) by (simp add: bal)
  then show ?thesis
    using assms(3) by (simp add: log_credit_def sv_update_balance_def dsum_dset_whole)
qed

text \<open>
  When the native ledger reports a balance for the sender and none for the receiver, a covered
  transfer credits the receiver and leaves the sender's balance as it was: the update goes to a table
  that is not read while the native balance is not zero.
\<close>
theorem native_balance_is_not_debited:
  assumes "cr_store m = Some s" and "sv_native s = Some f" and "sv_balances s = Some d"
    and "f a \<noteq> 0" and "f b = 0" and "k \<le> f a" and "\<bar>f a\<bar> < 2 ^ 52" and "\<bar>whole_bal d b\<bar> < 2 ^ 52" and "\<bar>k\<bar> < 2 ^ 52"
  shows "\<exists>m' s'. cr_transfer a b (Fin (of_int k)) reason m = (Inr True, m') \<and> cr_store m' = Some s' \<and>
    sv_get_balance s' a = sv_get_balance s a \<and> sv_get_balance s' b = sv_get_balance s b + k"
proof -
  have bal: "sv_get_balance s a = f a" "sv_get_balance s b = whole_bal d b"
    using assms(2-5) by (auto simp: sv_get_balance_def whole_bal_def split: option.splits)
  have "a \<noteq> b" using assms(4,5) by auto
  moreover have "cr_transfer a b (Fin (of_int k)) reason m = (Inr True, log_credit a b (Fin (of_int k)) reason
    (m\<lparr>cr_store := Some (sv_update_balance b (whole_bal d b + k) (sv_update_balance a (f a - k) s))\<rparr>))"
    using cr_transfer_store [OF assms(1), of k a b reason] assms(6-9) by (simp add: bal)
  ultimately show ?thesis
    using assms(2-5) bal(2) by (simp add: log_credit_def sv_update_balance_def sv_get_balance_def)
qed

text \<open>
  Staking a second time takes the second amount from the liquid balance too but replaces the
  record of the first stake, so slashing burns the second amount only and the first is lost.
\<close>
theorem restake_loses_first_stake:
  assumes "wm_store m = Some s" and "sv_native s = None" and "sv_balances s = Some d"
    and "10000 \<le> k1" and "10000 \<le> k2" and "k1 + k2 \<le> whole_bal d n" and "whole_bal d n < 2 ^ 53"
  shows "\<exists>m1 m2 s2. stake verify show_amount t1 n (Fin (of_int k1)) None None m = (Inr True, m1) \<and>
    stake verify show_amount t2 n (Fin (of_int k2)) None None m1 = (Inr True, m2) \<and>
    wm_store m2 = Some s2 \<and> sv_get_balance s2 n = whole_bal d n - k1 - k2 \<and> fst (slash n m2) = Fin (of_int k2) \<and>
    dget (wm_stakes (snd (slash n m2))) n = Some \<lparr>sk_node_id = n, sk_amount = Fin 0, sk_since = t2, sk_status = SlashedStake\<rparr>"
proof -
  have one: "stake verify show_amount t n (Fin (of_int k)) None None mm =
      (Inr True, mm\<lparr>wm_store := Some (sv_update_balance n (whole_bal dd n - k) ss),
         wm_stakes := dset n \<lparr>sk_node_id = n, sk_amount = Fin (of_int k), sk_since = t, sk_status = ActiveStake\<rparr> (wm_stakes mm)\<rparr>)"
    if "wm_store mm = Some ss" "sv_native ss = None" "sv_balances ss = Some dd" "10000 \<le> k" "k \<le> whole_bal dd n"
      "whole_bal dd n < 2 ^ 53" for mm ss dd k t
  proof -
    have "fl_of_int (sv_get_balance ss n) = Inr (Fin (of_int (whole_bal dd n)))"
      using that by (simp add: sv_get_plain fl_of_int_exact)
    moreover have "fl_sub (Fin (of_int (whole_bal dd n))) (Fin (of_int k)) = Fin (of_int (whole_bal dd n - k))"
      using that by (intro fl_sub_ints) simp
    moreover have "\<not> fl_lt (Fin (of_int k)) (Fin 10000)" using that(4) by simp
    ultimately show ?thesis using that
      by (simp add: stake_def wm_get_balance_def MIN_STAKE_def del: of_int_diff fl_int.simps fl_lt.simps)
  qed
  let ?s1 = "sv_update_balance n (whole_bal d n - k1) s"
  have s1: "sv_native ?s1 = None" "sv_balances ?s1 = Some (dset n (whole_bal d n - k1) d)"
    using assms(2,3) by (simp_all add: sv_update_balance_def)
  show ?thesis
    using one [OF assms(1-3), of k1 t1] one [OF _ s1, of _ k2 t2] assms(4-7) s1
    by (simp add: slash_def sv_get_balance_def sv_update_balance_def)
qed

text \<open>The agent ledger has no such check at all: paying from nothing leaves a negative balance.\<close>

lemma agent_overdraft:
  "0 < k \<Longrightarrow> k < 2 ^ 53 \<Longrightarrow> a \<noteq> b \<Longrightarrow>
   agent_balance (snd (transfer_value digest now a b (Fin (of_int k)) asset [])) a asset = Fin (of_int (- k))"
  using fl_sub_ints [of 0 k] by (simp add: agent_balance_def transfer_value_def agent_tx_effect_def Let_def)

section \<open>Witnesses\<close>

definition demo_credits :: credit_manager where
  "demo_credits = \<lparr>cr_node_id = ''a'', cr_store = Some \<lparr>sv_native = None, sv_balances = Some [(''a'', 100)]\<rparr>,
     cr_balances = [], cr_transactions = []\<rparr>"

theorem credit_transfer_effect_witness:
  "\<exists>m' s' d'. cr_transfer ''a'' ''a'' (Fin (of_int 40)) ''self'' demo_credits = (Inr True, m') \<and> cr_store m' = Some s' \<and>
     sv_balances s' = Some d' \<and> whole_bal d' ''a'' = 140 \<and> dsum (\<lambda>x. x) d' = 140"
  using credit_transfer_effect [of demo_credits "\<lparr>sv_native = None, sv_balances = Some [(''a'', 100)]\<rparr>" "[(''a'', 100)]"
      40 "''a''" "''a''" "''self''"]
  by (auto simp: demo_credits_def whole_bal_def dget_Cons)

theorem native_balance_is_not_debited_witness:
  "\<exists>m' s'. cr_transfer ''a'' ''b'' (Fin (of_int 40)) ''pay''
       \<lparr>cr_node_id = ''a'', cr_store = Some \<lparr>sv_native = Some (\<lambda>n. if n = ''a'' then 100 else 0), sv_balances = Some []\<rparr>,
        cr_balances = [], cr_transactions = []\<rparr> = (Inr True, m') \<and> cr_store m' = Some s' \<and>
     sv_get_balance s' ''a'' = 100 \<and> sv_get_balance s' ''b'' = 40"
  using native_balance_is_not_debited [of "\<lparr>cr_node_id = ''a'', cr_store = Some \<lparr>sv_native = Some (\<lambda>n. if n = ''a'' then 100 else 0),
      sv_balances = Some []\<rparr>, cr_balances = [], cr_transactions = []\<rparr>"
      "\<lparr>sv_native = Some (\<lambda>n. if n = ''a'' then 100 else 0), sv_balances = Some []\<rparr>" "\<lambda>n. if n = ''a'' then 100 else 0" "[]" "''a''" "''b''" 40 "''pay''"]
  by (auto simp: whole_bal_def sv_get_balance_def)

theorem restake_loses_first_stake_witness:
  "\<exists>m1 m2. stake (\<lambda>_ _ _. True) (\<lambda>_. []) (Fin 1) ''n'' (Fin (of_int 10000)) None None
       (token_manager_init (Some \<lparr>sv_native = None, sv_balances = Some [(''n'', 50000)]\<rparr>)) = (Inr True, m1) \<and>
     stake (\<lambda>_ _ _. True) (\<lambda>_. []) (Fin 2) ''n'' (Fin (of_int 20000)) None None m1 = (Inr True, m2) \<and>
     fst (slash ''n'' m2) = Fin (of_int 20000)"
  using restake_loses_first_stake [of "token_manager_init (Some \<lparr>sv_native = None, sv_balances = Some [(''n'', 50000)]\<rparr>)"
      "\<lparr>sv_native = None, sv_balances = Some [(''n'', 50000)]\<rparr>"
      "[(''n'', 50000)]" 10000 20000 "''n''" "\<lambda>_ _ _. True" "\<lambda>_. []" "Fin 1" "Fin 2"]
  by (auto simp: token_manager_init_def whole_bal_def dget_Cons)

end
