(* ===== verification/Deployment.thy ===== *)
theory Deployment
  imports Floats Float_Arith Text
begin

text \<open>
  Deployment across regions: \<^verbatim>\<open>infrastructure/multiregion.py\<close>.

  The registry of regions is shared by the health monitor, the replication manager, the failover
  manager and the traffic router, so their operations take it as an argument and return it when they
  change it. Clocks, random draws and generated identifiers are arguments; the mean of a list of
  floats is one too, because the sum it divides depends on the interpreter. Shown: requests stay inside
  the regions their data sovereignty allows, which states have one primary, whom an automatic failover
  elects, round-robin routing takes every region in turn.
\<close>

section \<open>Enumerations and data classes\<close>

datatype region_status = HEALTHY | DEGRADED | UNHEALTHY | MAINTENANCE | OFFLINE

datatype replication_mode = SYNC | ASYNC | SEMI_SYNC

datatype routing_strategy = LATENCY | GEOGRAPHIC | ROUND_ROBIN | WEIGHTED | FAILOVER

datatype data_sovereignty = NONE | EU | US | APAC | STRICT

record dep_region =
  dr_region_id :: string
  dr_name :: string
  dr_location :: string
  dr_cloud_provider :: string
  dr_availability_zones :: "string list"
  dr_status :: region_status
  dr_is_primary :: bool
  dr_capacity_weight :: pyfloat
  dr_data_sovereignty :: data_sovereignty
  dr_endpoint :: string
  dr_created_at :: datetime
  dr_last_health_check :: "datetime option"
  dr_metadata :: "(string, string) dict"

record dep_health =
  dh_region_id :: string
  dh_status :: region_status
  dh_latency_ms :: pyfloat
  dh_error_rate :: pyfloat
  dh_cpu_utilization :: pyfloat
  dh_memory_utilization :: pyfloat
  dh_active_connections :: int
  dh_requests_per_second :: pyfloat
  dh_checked_at :: datetime
  dh_details :: "(string, string) dict"

record replication_config =
  rc_config_id :: string
  rc_source_region :: string
  rc_target_regions :: "string list"
  rc_mode :: replication_mode
  rc_lag_threshold_ms :: int
  rc_enabled :: bool
  rc_created_at :: datetime

record replication_status =
  rs_source_region :: string
  rs_target_region :: string
  rs_lag_ms :: pyfloat
  rs_last_sync :: "datetime option"
  rs_bytes_transferred :: int
  rs_is_healthy :: bool
  rs_error_message :: string

record failover_event =
  fe_event_id :: string
  fe_from_region :: string
  fe_to_region :: string
  fe_reason :: string
  fe_triggered_at :: datetime
  fe_completed_at :: "datetime option"
  fe_success :: bool
  fe_duration_ms :: pyfloat
  fe_affected_services :: "string list"

record routing_rule =
  rr_rule_id :: string
  rr_name :: string
  rr_strategy :: routing_strategy
  rr_regions :: "string list"
  rr_weights :: "(string, pyfloat) dict"
  rr_conditions :: "(string, string) dict"
  rr_enabled :: bool
  rr_priority :: int

section \<open>Region registry\<close>

record region_registry =
  rg_regions :: "(string, dep_region) dict"
  rg_primary :: "string option"

definition registry_init :: region_registry where
  "registry_init = \<lparr>rg_regions = [], rg_primary = None\<rparr>"

definition register_region ::
  "datetime \<Rightarrow> string \<Rightarrow> string \<Rightarrow> string \<Rightarrow> string \<Rightarrow> string \<Rightarrow> string list \<Rightarrow> bool \<Rightarrow> pyfloat \<Rightarrow>
   data_sovereignty \<Rightarrow> region_registry \<Rightarrow> dep_region \<times> region_registry" where
  "register_region now region_id name location provider endpoint zones is_primary weight sov reg =
     (let region = \<lparr>dr_region_id = region_id, dr_name = name, dr_location = location, dr_cloud_provider = provider,
            dr_availability_zones = zones, dr_status = HEALTHY, dr_is_primary = is_primary, dr_capacity_weight = weight,
            dr_data_sovereignty = sov, dr_endpoint = endpoint, dr_created_at = now, dr_last_health_check = None,
            dr_metadata = []\<rparr>;
          reg1 = reg\<lparr>rg_regions := dset region_id region (rg_regions reg)\<rparr>
      in (region, if is_primary then reg1\<lparr>rg_primary := Some region_id\<rparr> else reg1))"

definition get_region :: "region_registry \<Rightarrow> string \<Rightarrow> dep_region option" where
  "get_region reg region_id = dget (rg_regions reg) region_id"

text \<open>An empty string is false in a Python condition, so a primary region with an empty id is not found.\<close>

definition get_primary_region :: "region_registry \<Rightarrow> dep_region option" where
  "get_primary_region reg =
     (case rg_primary reg of None \<Rightarrow> None | Some p \<Rightarrow> if p = [] then None else dget (rg_regions reg) p)"

definition upd_region :: "string \<Rightarrow> (dep_region \<Rightarrow> dep_region) \<Rightarrow> region_registry \<Rightarrow> region_registry" where
  "upd_region region_id f reg =
     (case dget (rg_regions reg) region_id of
        None \<Rightarrow> reg
      | Some r \<Rightarrow> reg\<lparr>rg_regions := dset region_id (f r) (rg_regions reg)\<rparr>)"

definition set_primary_region :: "string \<Rightarrow> region_registry \<Rightarrow> bool \<times> region_registry" where
  "set_primary_region region_id reg =
     (if dget (rg_regions reg) region_id = None then (False, reg)
      else
        let reg1 = (case rg_primary reg of
                      None \<Rightarrow> reg
                    | Some p \<Rightarrow> if p = [] then reg else upd_region p (\<lambda>r. r\<lparr>dr_is_primary := False\<rparr>) reg)
        in (True, (upd_region region_id (\<lambda>r. r\<lparr>dr_is_primary := True\<rparr>) reg1)\<lparr>rg_primary := Some region_id\<rparr>))"

definition registry_healthy_regions :: "region_registry \<Rightarrow> dep_region list" where
  "registry_healthy_regions reg = filter (\<lambda>r. dr_status r = HEALTHY) (dvalues (rg_regions reg))"

definition get_regions_by_sovereignty :: "data_sovereignty \<Rightarrow> region_registry \<Rightarrow> dep_region list" where
  "get_regions_by_sovereignty sov reg =
     filter (\<lambda>r. dr_data_sovereignty r = sov \<or> sov = NONE) (dvalues (rg_regions reg))"

definition update_status :: "datetime \<Rightarrow> string \<Rightarrow> region_status \<Rightarrow> region_registry \<Rightarrow> bool \<times> region_registry" where
  "update_status now region_id status reg =
     (if dget (rg_regions reg) region_id = None then (False, reg)
      else (True, upd_region region_id (\<lambda>r. r\<lparr>dr_status := status, dr_last_health_check := Some now\<rparr>) reg))"

section \<open>Health monitor\<close>

record health_monitor =
  hm_check_interval :: int
  hm_health_history :: "(string, dep_health list) dict"
  hm_health_check_func :: "(dep_region \<Rightarrow> dep_health) option"

definition monitor_init :: "int \<Rightarrow> health_monitor" where
  "monitor_init interval = \<lparr>hm_check_interval = interval, hm_health_history = [], hm_health_check_func = None\<rparr>"

definition set_health_check_function :: "(dep_region \<Rightarrow> dep_health) \<Rightarrow> health_monitor \<Rightarrow> health_monitor" where
  "set_health_check_function f hm = hm\<lparr>hm_health_check_func := Some f\<rparr>"

text \<open>What a simulated check draws: the random readings and the two clock readings around the first.\<close>

record probe =
  pb_latency :: pyfloat
  pb_start :: pyfloat
  pb_end :: pyfloat
  pb_error_rate :: pyfloat
  pb_cpu :: pyfloat
  pb_memory :: pyfloat
  pb_connections :: int
  pb_rps :: pyfloat
  pb_now :: datetime

definition probe_health :: "probe \<Rightarrow> dep_region \<Rightarrow> dep_health" where
  "probe_health pb r =
     \<lparr>dh_region_id = dr_region_id r, dh_status = dr_status r,
      dh_latency_ms = fl_add (pb_latency pb) (fl_mul (fl_sub (pb_end pb) (pb_start pb)) (Fin 1000)),
      dh_error_rate = pb_error_rate pb, dh_cpu_utilization = pb_cpu pb, dh_memory_utilization = pb_memory pb,
      dh_active_connections = pb_connections pb, dh_requests_per_second = pb_rps pb, dh_checked_at = pb_now pb,
      dh_details = []\<rparr>"

definition check_region_health :: "probe \<Rightarrow> dep_region \<Rightarrow> health_monitor \<Rightarrow> dep_health \<times> health_monitor" where
  "check_region_health pb r hm =
     (case hm_health_check_func hm of
        Some f \<Rightarrow> (f r, hm)
      | None \<Rightarrow>
          let health = probe_health pb r;
              old = (case dget (hm_health_history hm) (dr_region_id r) of None \<Rightarrow> [] | Some xs \<Rightarrow> xs);
              xs = old @ [health];
              kept = (if length xs > 100 then last_n 100 xs else xs)
          in (health, hm\<lparr>hm_health_history := dset (dr_region_id r) kept (hm_health_history hm)\<rparr>))"

fun check_regions ::
  "(string \<Rightarrow> probe) \<Rightarrow> dep_region list \<Rightarrow> (string, dep_health) dict \<Rightarrow> health_monitor \<Rightarrow>
   (string, dep_health) dict \<times> health_monitor" where
  "check_regions pb [] results hm = (results, hm)"
| "check_regions pb (r # rs) results hm =
     (if dr_status r = OFFLINE then check_regions pb rs results hm
      else
        let (h, hm1) = check_region_health (pb (dr_region_id r)) r hm
        in check_regions pb rs (dset (dr_region_id r) h results) hm1)"

definition check_all_regions ::
  "(string \<Rightarrow> probe) \<Rightarrow> region_registry \<Rightarrow> health_monitor \<Rightarrow> (string, dep_health) dict \<times> health_monitor" where
  "check_all_regions pb reg hm = check_regions pb (dvalues (rg_regions reg)) [] hm"

definition get_average_latency :: "(pyfloat list \<Rightarrow> pyfloat) \<Rightarrow> health_monitor \<Rightarrow> string \<Rightarrow> nat \<Rightarrow> pyfloat" where
  "get_average_latency mean hm region_id window =
     (case dget (hm_health_history hm) region_id of
        None \<Rightarrow> PosInf
      | Some history \<Rightarrow>
          if history = [] then PosInf else mean (map dh_latency_ms (last_n window history)))"

record health_summary =
  sm_total_regions :: nat
  sm_healthy :: nat
  sm_degraded :: nat
  sm_unhealthy :: nat
  sm_average_latency_ms :: pyfloat
  sm_checked_at :: datetime

definition get_health_summary ::
  "(pyfloat list \<Rightarrow> pyfloat) \<Rightarrow> (string \<Rightarrow> probe) \<Rightarrow> datetime \<Rightarrow> region_registry \<Rightarrow> health_monitor \<Rightarrow>
   health_summary \<times> health_monitor" where
  "get_health_summary mean pb now reg hm =
     (let (all_health, hm1) = check_all_regions pb reg hm;
          count = (\<lambda>s. dcount (\<lambda>h. dh_status h = s) all_health)
      in (\<lparr>sm_total_regions = length (rg_regions reg), sm_healthy = count HEALTHY, sm_degraded = count DEGRADED,
           sm_unhealthy = count UNHEALTHY,
           sm_average_latency_ms = py_round 2 (if all_health = [] then Fin 0 else mean (map dh_latency_ms (dvalues all_health))),
           sm_checked_at = now\<rparr>, hm1))"

section \<open>Replication manager\<close>

record replication_manager =
  rm_configs :: "(string, replication_config) dict"
  rm_statuses :: "(string, replication_status) dict"

definition replication_init :: replication_manager where
  "replication_init = \<lparr>rm_configs = [], rm_statuses = []\<rparr>"

definition replication_key :: "string \<Rightarrow> string \<Rightarrow> string" where
  "replication_key source target = source @ ''->'' @ target"

definition fresh_status :: "string \<Rightarrow> string \<Rightarrow> replication_status" where
  "fresh_status source target =
     \<lparr>rs_source_region = source, rs_target_region = target, rs_lag_ms = Fin 0, rs_last_sync = None,
      rs_bytes_transferred = 0, rs_is_healthy = True, rs_error_message = []\<rparr>"

definition create_replication ::
  "string \<Rightarrow> datetime \<Rightarrow> string \<Rightarrow> string list \<Rightarrow> replication_mode \<Rightarrow> int \<Rightarrow> replication_manager \<Rightarrow>
   replication_config \<times> replication_manager" where
  "create_replication uuid now source targets mode threshold rm =
     (let config = \<lparr>rc_config_id = uuid, rc_source_region = source, rc_target_regions = targets, rc_mode = mode,
            rc_lag_threshold_ms = threshold, rc_enabled = True, rc_created_at = now\<rparr>
      in (config,
          \<lparr>rm_configs = dset uuid config (rm_configs rm),
           rm_statuses = fold (\<lambda>t. dset (replication_key source t) (fresh_status source t)) targets (rm_statuses rm)\<rparr>))"

definition get_replication_status :: "string \<Rightarrow> string \<Rightarrow> replication_manager \<Rightarrow> replication_status option" where
  "get_replication_status source target rm = dget (rm_statuses rm) (replication_key source target)"

definition lag_message :: "(pyfloat \<Rightarrow> string) \<Rightarrow> pyfloat \<Rightarrow> int \<Rightarrow> string" where
  "lag_message show_float lag threshold =
     ''Lag '' @ show_float lag @ ''ms exceeds threshold '' @ str_of_int threshold @ ''ms''"

definition update_replication_status ::
  "(pyfloat \<Rightarrow> string) \<Rightarrow> datetime \<Rightarrow> string \<Rightarrow> string \<Rightarrow> pyfloat \<Rightarrow> int \<Rightarrow> replication_manager \<Rightarrow>
   bool \<times> replication_manager" where
  "update_replication_status show_float now source target lag bytes rm =
     (let key = replication_key source target in
      case dget (rm_statuses rm) key of
        None \<Rightarrow> (False, rm)
      | Some st \<Rightarrow>
          let st1 = st\<lparr>rs_lag_ms := lag, rs_last_sync := Some now, rs_bytes_transferred := rs_bytes_transferred st + bytes\<rparr>;
              st2 = (case find (\<lambda>c. rc_source_region c = source \<and> target \<in> set (rc_target_regions c)) (dvalues (rm_configs rm)) of
                       None \<Rightarrow> st1
                     | Some c \<Rightarrow>
                         let healthy = fl_le lag (Fin (of_int (rc_lag_threshold_ms c)));
                             st' = st1\<lparr>rs_is_healthy := healthy\<rparr>
                         in if healthy then st'
                            else st'\<lparr>rs_error_message := lag_message show_float lag (rc_lag_threshold_ms c)\<rparr>)
          in (True, rm\<lparr>rm_statuses := dset key st2 (rm_statuses rm)\<rparr>))"

record replication_health =
  rp_total :: nat
  rp_healthy :: nat
  rp_unhealthy :: nat
  rp_average_lag_ms :: pyfloat
  rp_details :: "(string, pyfloat \<times> bool \<times> datetime option) dict"

definition get_all_replication_health :: "(pyfloat list \<Rightarrow> pyfloat) \<Rightarrow> replication_manager \<Rightarrow> replication_health" where
  "get_all_replication_health mean rm =
     (let total = length (rm_statuses rm); healthy = dcount rs_is_healthy (rm_statuses rm)
      in \<lparr>rp_total = total, rp_healthy = healthy, rp_unhealthy = total - healthy,
          rp_average_lag_ms = py_round 2 (if total > 0 then mean (map rs_lag_ms (dvalues (rm_statuses rm))) else Fin 0),
          rp_details = map (\<lambda>(k, s). (k, rs_lag_ms s, rs_is_healthy s, rs_last_sync s)) (rm_statuses rm)\<rparr>)"

section \<open>Failover manager\<close>

text \<open>
  The callback that is told about a failover changes nothing of the deployment; the events it gets are
  the ones returned. A failover that is refused returns an event and records nothing.
\<close>

definition failover_event_init :: "string \<Rightarrow> datetime \<Rightarrow> string \<Rightarrow> string \<Rightarrow> string \<Rightarrow> string list \<Rightarrow> failover_event" where
  "failover_event_init uuid now from_region to_region reason services =
     \<lparr>fe_event_id = uuid, fe_from_region = from_region, fe_to_region = to_region, fe_reason = reason,
      fe_triggered_at = now, fe_completed_at = None, fe_success = False, fe_duration_ms = Fin 0,
      fe_affected_services = services\<rparr>"

record failover_times =
  ft_uuid :: string
  ft_start :: pyfloat
  ft_now :: datetime
  ft_status_now :: datetime
  ft_done :: datetime
  ft_end :: pyfloat

definition trigger_failover ::
  "failover_times \<Rightarrow> string \<Rightarrow> string \<Rightarrow> string \<Rightarrow> string list \<Rightarrow> region_registry \<Rightarrow> failover_event list \<Rightarrow>
   failover_event \<times> region_registry \<times> failover_event list" where
  "trigger_failover ft from_region to_region reason services reg history =
     (let event = failover_event_init (ft_uuid ft) (ft_now ft) from_region to_region reason services in
      if get_region reg from_region = None then (event, reg, history)
      else
        case get_region reg to_region of
          None \<Rightarrow> (event, reg, history)
        | Some target \<Rightarrow>
            if dr_status target \<noteq> HEALTHY \<and> dr_status target \<noteq> DEGRADED then (event, reg, history)
            else
              let reg1 = snd (update_status (ft_status_now ft) from_region OFFLINE reg);
                  reg2 = snd (set_primary_region to_region reg1);
                  event' = event\<lparr>fe_success := True, fe_completed_at := Some (ft_done ft),
                             fe_duration_ms := fl_mul (fl_sub (ft_end ft) (ft_start ft)) (Fin 1000)\<rparr>
              in (event', reg2, history @ [event']))"

definition auto_failover ::
  "failover_times \<Rightarrow> string \<Rightarrow> region_registry \<Rightarrow> failover_event list \<Rightarrow>
   failover_event option \<times> region_registry \<times> failover_event list" where
  "auto_failover ft unhealthy reg history =
     (let candidates = filter (\<lambda>r. dr_region_id r \<noteq> unhealthy) (registry_healthy_regions reg) in
      case first_best (\<lambda>a b. fl_lt (dr_capacity_weight b) (dr_capacity_weight a)) candidates of
        None \<Rightarrow> (None, reg, history)
      | Some best \<Rightarrow>
          let (event, reg', history') = trigger_failover ft unhealthy (dr_region_id best)
                ''Automatic failover due to region health failure'' [] reg history
          in (Some event, reg', history'))"

definition get_failover_history :: "nat \<Rightarrow> failover_event list \<Rightarrow> failover_event list" where
  "get_failover_history limit history = last_n limit history"

record failover_metrics =
  fx_total :: nat
  fx_successful :: nat
  fx_failed :: nat
  fx_average_duration_ms :: pyfloat
  fx_success_rate :: pyfloat

definition get_failover_metrics :: "(pyfloat list \<Rightarrow> pyfloat) \<Rightarrow> failover_event list \<Rightarrow> failover_metrics" where
  "get_failover_metrics mean history =
     (let successful = length (filter fe_success history)
      in \<lparr>fx_total = length history, fx_successful = successful, fx_failed = length history - successful,
          fx_average_duration_ms =
            py_round 2 (if successful > 0 then mean (map fe_duration_ms (filter fe_success history)) else Fin 0),
          fx_success_rate =
            (if history \<noteq> [] then fl_of_rat (of_nat successful / of_nat (length history)) else Fin 1)\<rparr>)"

section \<open>Traffic router\<close>

record traffic_router =
  tr_rules :: "(string, routing_rule) dict"
  tr_round_robin_index :: "(string, nat) dict"

definition router_init :: traffic_router where
  "router_init = \<lparr>tr_rules = [], tr_round_robin_index = []\<rparr>"

definition add_routing_rule ::
  "string \<Rightarrow> string \<Rightarrow> routing_strategy \<Rightarrow> string list \<Rightarrow> (string, pyfloat) dict \<Rightarrow> (string, string) dict \<Rightarrow> int \<Rightarrow>
   traffic_router \<Rightarrow> routing_rule \<times> traffic_router" where
  "add_routing_rule uuid name strategy regions weights conditions priority tr =
     (let rule = \<lparr>rr_rule_id = uuid, rr_name = name, rr_strategy = strategy, rr_regions = regions, rr_weights = weights,
            rr_conditions = conditions, rr_enabled = True, rr_priority = priority\<rparr>
      in (rule, \<lparr>tr_rules = dset uuid rule (tr_rules tr), tr_round_robin_index = dset uuid 0 (tr_round_robin_index tr)\<rparr>))"

text \<open>
  What a weighted choice draws: an index for \<open>random.choice\<close> and, from the list of weights, the value of
  \<open>random.uniform\<close> between zero and their sum.
\<close>

record draw =
  dw_index :: nat
  dw_uniform :: "pyfloat list \<Rightarrow> pyfloat"

definition strategy_latency ::
  "(pyfloat list \<Rightarrow> pyfloat) \<Rightarrow> health_monitor \<Rightarrow> dep_region list \<Rightarrow> dep_region" where
  "strategy_latency mean hm regions =
     (let latencies = fold (\<lambda>r. dset (dr_region_id r) (get_average_latency mean hm (dr_region_id r) 10)) regions [];
          best = first_best (\<lambda>a b. fl_lt (snd a) (snd b)) latencies
      in case find (\<lambda>r. Some (dr_region_id r) = map_option fst best) regions of
           None \<Rightarrow> hd regions | Some r \<Rightarrow> r)"

definition strategy_round_robin ::
  "routing_rule \<Rightarrow> dep_region list \<Rightarrow> traffic_router \<Rightarrow> dep_region \<times> traffic_router" where
  "strategy_round_robin rule regions tr =
     (let idx = (case dget (tr_round_robin_index tr) (rr_rule_id rule) of None \<Rightarrow> 0 | Some i \<Rightarrow> i)
      in (regions ! (idx mod length regions),
          tr\<lparr>tr_round_robin_index := dset (rr_rule_id rule) (idx + 1) (tr_round_robin_index tr)\<rparr>))"

definition weight_of :: "routing_rule \<Rightarrow> dep_region \<Rightarrow> pyfloat" where
  "weight_of rule r = (case dget (rr_weights rule) (dr_region_id r) of None \<Rightarrow> dr_capacity_weight r | Some w \<Rightarrow> w)"

fun pick_weighted :: "routing_rule \<Rightarrow> pyfloat \<Rightarrow> pyfloat \<Rightarrow> dep_region list \<Rightarrow> dep_region option" where
  "pick_weighted rule rand cumulative [] = None"
| "pick_weighted rule rand cumulative (r # rs) =
     (let c = fl_add cumulative (weight_of rule r)
      in if fl_le rand c then Some r else pick_weighted rule rand c rs)"

definition strategy_weighted :: "draw \<Rightarrow> routing_rule \<Rightarrow> dep_region list \<Rightarrow> dep_region" where
  "strategy_weighted dw rule regions =
     (if rr_weights rule = [] then regions ! (dw_index dw mod length regions)
      else case pick_weighted rule (dw_uniform dw (map (weight_of rule) regions)) (Fin 0) regions of
             None \<Rightarrow> last regions | Some r \<Rightarrow> r)"

fun first_in_scope :: "region_registry \<Rightarrow> string list \<Rightarrow> string list \<Rightarrow> dep_region option" where
  "first_in_scope reg scope [] = None"
| "first_in_scope reg scope (i # ids) =
     (if i \<notin> set scope then first_in_scope reg scope ids
      else case get_region reg i of
             None \<Rightarrow> first_in_scope reg scope ids
           | Some r \<Rightarrow> if dr_status r = HEALTHY then Some r else first_in_scope reg scope ids)"

definition strategy_failover :: "region_registry \<Rightarrow> routing_rule \<Rightarrow> dep_region list \<Rightarrow> dep_region option" where
  "strategy_failover reg rule regions =
     (case first_in_scope reg (map dr_region_id regions) (rr_regions rule) of
        Some r \<Rightarrow> Some r
      | None \<Rightarrow> if regions = [] then None else Some (hd regions))"

definition strategy_geographic :: "string option \<Rightarrow> dep_region list \<Rightarrow> dep_region" where
  "strategy_geographic client_location regions =
     (case client_location of
        None \<Rightarrow> hd regions
      | Some l \<Rightarrow>
          if l = [] then hd regions
          else case find (\<lambda>r. str_in (py_lower l) (py_lower (dr_location r))) regions of
                 None \<Rightarrow> hd regions | Some r \<Rightarrow> r)"

definition apply_strategy ::
  "(pyfloat list \<Rightarrow> pyfloat) \<Rightarrow> draw \<Rightarrow> region_registry \<Rightarrow> health_monitor \<Rightarrow> routing_rule \<Rightarrow> dep_region list \<Rightarrow> string option \<Rightarrow>
   traffic_router \<Rightarrow> dep_region option \<times> traffic_router" where
  "apply_strategy mean dw reg hm rule regions client_location tr =
     (if regions = [] then (None, tr)
      else case rr_strategy rule of
        LATENCY \<Rightarrow> (Some (strategy_latency mean hm regions), tr)
      | ROUND_ROBIN \<Rightarrow> (let (r, tr') = strategy_round_robin rule regions tr in (Some r, tr'))
      | WEIGHTED \<Rightarrow> (Some (strategy_weighted dw rule regions), tr)
      | FAILOVER \<Rightarrow> (strategy_failover reg rule regions, tr)
      | GEOGRAPHIC \<Rightarrow> (Some (strategy_geographic client_location regions), tr))"

definition applicable_regions :: "data_sovereignty \<Rightarrow> region_registry \<Rightarrow> dep_region list" where
  "applicable_regions sov reg = (if sov \<noteq> NONE then get_regions_by_sovereignty sov reg else registry_healthy_regions reg)"

definition select_rule :: "string option \<Rightarrow> traffic_router \<Rightarrow> routing_rule option" where
  "select_rule rule_id tr =
     (let default = first_best (\<lambda>a b. rr_priority a < rr_priority b) (filter rr_enabled (dvalues (tr_rules tr)))
      in case rule_id of
           None \<Rightarrow> default
         | Some i \<Rightarrow> if i = [] then default
                     else case dget (tr_rules tr) i of None \<Rightarrow> default | Some rule \<Rightarrow> Some rule)"

definition default_route :: "region_registry \<Rightarrow> dep_region list \<Rightarrow> dep_region option" where
  "default_route reg regions =
     (case get_primary_region reg of
        Some p \<Rightarrow> if dr_status p = HEALTHY \<and> p \<in> set regions then Some p
                  else if regions = [] then None else Some (hd regions)
      | None \<Rightarrow> if regions = [] then None else Some (hd regions))"

definition rule_candidates :: "routing_rule \<Rightarrow> dep_region list \<Rightarrow> dep_region list" where
  "rule_candidates rule regions =
     (let rule_regions = filter (\<lambda>r. dr_region_id r \<in> set (rr_regions rule)) regions
      in if rule_regions = [] then regions else rule_regions)"

definition route_request ::
  "(pyfloat list \<Rightarrow> pyfloat) \<Rightarrow> draw \<Rightarrow> region_registry \<Rightarrow> health_monitor \<Rightarrow> string option \<Rightarrow> string option \<Rightarrow> data_sovereignty \<Rightarrow>
   traffic_router \<Rightarrow> dep_region option \<times> traffic_router" where
  "route_request mean dw reg hm rule_id client_location sov tr =
     (let regions = applicable_regions sov reg in
      if regions = [] then (None, tr)
      else case select_rule rule_id tr of
        None \<Rightarrow> (default_route reg regions, tr)
      | Some rule \<Rightarrow> apply_strategy mean dw reg hm rule (rule_candidates rule regions) client_location tr)"

record routing_stats =
  rx_total_rules :: nat
  rx_enabled_rules :: nat
  rx_rules_by_strategy :: "(routing_strategy, nat) dict"

definition get_routing_stats :: "traffic_router \<Rightarrow> routing_stats" where
  "get_routing_stats tr =
     \<lparr>rx_total_rules = length (tr_rules tr), rx_enabled_rules = dcount rr_enabled (tr_rules tr),
      rx_rules_by_strategy =
        map (\<lambda>s. (s, dcount (\<lambda>r. rr_strategy r = s) (tr_rules tr))) [LATENCY, GEOGRAPHIC, ROUND_ROBIN, WEIGHTED, FAILOVER]\<rparr>"

section \<open>Deployment manager\<close>

record deployment =
  dp_organization_name :: string
  dp_registry :: region_registry
  dp_health_monitor :: health_monitor
  dp_replication :: replication_manager
  dp_failover_history :: "failover_event list"
  dp_router :: traffic_router
  dp_initialized :: bool

definition deployment_init :: "string \<Rightarrow> deployment" where
  "deployment_init org =
     \<lparr>dp_organization_name = org, dp_registry = registry_init, dp_health_monitor = monitor_init 30,
      dp_replication = replication_init, dp_failover_history = [], dp_router = router_init, dp_initialized = False\<rparr>"

definition initialize :: "deployment \<Rightarrow> bool \<times> deployment" where
  "initialize dp = (True, dp\<lparr>dp_initialized := True\<rparr>)"

definition dp_route_request ::
  "(pyfloat list \<Rightarrow> pyfloat) \<Rightarrow> draw \<Rightarrow> string option \<Rightarrow> data_sovereignty \<Rightarrow> deployment \<Rightarrow> dep_region option \<times> deployment" where
  "dp_route_request mean dw client_location sov dp =
     (let (r, tr) = route_request mean dw (dp_registry dp) (dp_health_monitor dp) None client_location sov (dp_router dp)
      in (r, dp\<lparr>dp_router := tr\<rparr>))"

definition check_global_health ::
  "(pyfloat list \<Rightarrow> pyfloat) \<Rightarrow> (string \<Rightarrow> probe) \<Rightarrow> datetime \<Rightarrow> deployment \<Rightarrow> bool \<times> deployment" where
  "check_global_health mean pb now dp =
     (let (sm, hm) = get_health_summary mean pb now (dp_registry dp) (dp_health_monitor dp)
      in (sm_healthy sm > 0 \<and> sm_unhealthy sm = 0, dp\<lparr>dp_health_monitor := hm\<rparr>))"

record deployment_status =
  ds_organization :: string
  ds_initialized :: bool
  ds_total :: nat
  ds_primary :: "string option"
  ds_by_status :: "(region_status, nat) dict"
  ds_health :: health_summary
  ds_replication :: replication_health
  ds_failover :: failover_metrics
  ds_routing :: routing_stats
  ds_report_time :: datetime

definition get_deployment_status ::
  "(pyfloat list \<Rightarrow> pyfloat) \<Rightarrow> (string \<Rightarrow> probe) \<Rightarrow> datetime \<Rightarrow> datetime \<Rightarrow> deployment \<Rightarrow> deployment_status \<times> deployment" where
  "get_deployment_status mean pb now report_time dp =
     (let (sm, hm) = get_health_summary mean pb now (dp_registry dp) (dp_health_monitor dp);
          regions = rg_regions (dp_registry dp)
      in (\<lparr>ds_organization = dp_organization_name dp, ds_initialized = dp_initialized dp, ds_total = length regions,
           ds_primary = rg_primary (dp_registry dp),
           ds_by_status = map (\<lambda>s. (s, dcount (\<lambda>r. dr_status r = s) regions)) [HEALTHY, DEGRADED, UNHEALTHY, MAINTENANCE, OFFLINE],
           ds_health = sm, ds_replication = get_all_replication_health mean (dp_replication dp),
           ds_failover = get_failover_metrics mean (dp_failover_history dp), ds_routing = get_routing_stats (dp_router dp),
           ds_report_time = report_time\<rparr>, dp\<lparr>dp_health_monitor := hm\<rparr>))"

text \<open>The standard set-up: four regions, replication from the first and two rules. Weights are doubles.\<close>

definition endpoint_of :: "string \<Rightarrow> string" where
  "endpoint_of region_id = ''https://'' @ region_id @ ''.github.com/espressolee/warmlogic-rust-core-artifact''"

definition standard_registry :: "datetime \<Rightarrow> region_registry \<Rightarrow> dep_region list \<times> region_registry" where
  "standard_registry now reg0 =
     (let (r1, reg1) = register_region now ''us-east-1'' ''US East'' ''Virginia, USA'' ''aws'' (endpoint_of ''us-east-1'')
            [''us-east-1a'', ''us-east-1b'', ''us-east-1c''] True (Fin 1) US reg0;
          (r2, reg2) = register_region now ''us-west-2'' ''US West'' ''Oregon, USA'' ''aws'' (endpoint_of ''us-west-2'')
            [''us-west-2a'', ''us-west-2b''] False (fl_of_rat (8 / 10)) US reg1;
          (r3, reg3) = register_region now ''eu-west-1'' ''EU West'' ''Ireland, EU'' ''aws'' (endpoint_of ''eu-west-1'')
            [''eu-west-1a'', ''eu-west-1b'', ''eu-west-1c''] False (Fin 1) EU reg2;
          (r4, reg4) = register_region now ''ap-northeast-1'' ''APAC Tokyo'' ''Tokyo, Japan'' ''aws'' (endpoint_of ''ap-northeast-1'')
            [''ap-northeast-1a'', ''ap-northeast-1b''] False (fl_of_rat (7 / 10)) APAC reg3
      in ([r1, r2, r3, r4], reg4))"

definition setup_standard_regions ::
  "datetime \<Rightarrow> string \<Rightarrow> string \<Rightarrow> string \<Rightarrow> deployment \<Rightarrow> dep_region list \<times> deployment" where
  "setup_standard_regions now u1 u2 u3 dp =
     (let (regions, reg) = standard_registry now (dp_registry dp);
          (_, rm) = create_replication u1 now ''us-east-1'' [''us-west-2'', ''eu-west-1'', ''ap-northeast-1''] ASYNC 1000 (dp_replication dp);
          (_, tr1) = add_routing_rule u2 ''default-latency'' LATENCY [''us-east-1'', ''us-west-2'', ''eu-west-1'', ''ap-northeast-1'']
            [] [] 100 (dp_router dp);
          (_, tr2) = add_routing_rule u3 ''failover'' FAILOVER [''us-east-1'', ''us-west-2'', ''eu-west-1''] [] [] 50 tr1
      in (regions, dp\<lparr>dp_registry := reg, dp_replication := rm, dp_router := tr2\<rparr>))"

section \<open>The deployment as a machine\<close>

datatype dep_op =
    Register datetime string string string string string "string list" bool pyfloat data_sovereignty
  | SetPrimary string
  | UpdateStatus datetime string region_status
  | TriggerFailover failover_times string string string "string list"
  | AutoFailover failover_times string
  | CheckHealth "string \<Rightarrow> probe"
  | SetCheck "dep_region \<Rightarrow> dep_health"
  | Replicate string datetime string "string list" replication_mode int
  | ReplicaStatus "pyfloat \<Rightarrow> string" datetime string string pyfloat int
  | AddRule string string routing_strategy "string list" "(string, pyfloat) dict" "(string, string) dict" int
  | Route "pyfloat list \<Rightarrow> pyfloat" draw "string option" "string option" data_sovereignty
  | Initialize
  | SetupStandard datetime string string string

definition with_failover ::
  "'e \<times> region_registry \<times> failover_event list \<Rightarrow> deployment \<Rightarrow> deployment" where
  "with_failover res dp = dp\<lparr>dp_registry := fst (snd res), dp_failover_history := snd (snd res)\<rparr>"

fun dep_step :: "dep_op \<Rightarrow> deployment \<Rightarrow> deployment" where
  "dep_step (Register now i n l p e zs prim w sov) dp =
     dp\<lparr>dp_registry := snd (register_region now i n l p e zs prim w sov (dp_registry dp))\<rparr>"
| "dep_step (SetPrimary i) dp = dp\<lparr>dp_registry := snd (set_primary_region i (dp_registry dp))\<rparr>"
| "dep_step (UpdateStatus now i st) dp = dp\<lparr>dp_registry := snd (update_status now i st (dp_registry dp))\<rparr>"
| "dep_step (TriggerFailover ft a b reason svc) dp =
     with_failover (trigger_failover ft a b reason svc (dp_registry dp) (dp_failover_history dp)) dp"
| "dep_step (AutoFailover ft a) dp = with_failover (auto_failover ft a (dp_registry dp) (dp_failover_history dp)) dp"
| "dep_step (CheckHealth pb) dp =
     dp\<lparr>dp_health_monitor := snd (check_all_regions pb (dp_registry dp) (dp_health_monitor dp))\<rparr>"
| "dep_step (SetCheck f) dp = dp\<lparr>dp_health_monitor := set_health_check_function f (dp_health_monitor dp)\<rparr>"
| "dep_step (Replicate u now a ts mode thr) dp =
     dp\<lparr>dp_replication := snd (create_replication u now a ts mode thr (dp_replication dp))\<rparr>"
| "dep_step (ReplicaStatus sf now a t lag n) dp =
     dp\<lparr>dp_replication := snd (update_replication_status sf now a t lag n (dp_replication dp))\<rparr>"
| "dep_step (AddRule u n st rs ws cs prio) dp = dp\<lparr>dp_router := snd (add_routing_rule u n st rs ws cs prio (dp_router dp))\<rparr>"
| "dep_step (Route mean dw rule l sov) dp =
     dp\<lparr>dp_router := snd (route_request mean dw (dp_registry dp) (dp_health_monitor dp) rule l sov (dp_router dp))\<rparr>"
| "dep_step Initialize dp = snd (initialize dp)"
| "dep_step (SetupStandard now u1 u2 u3) dp = snd (setup_standard_regions now u1 u2 u3 dp)"

text \<open>Every region is filed under its own id.\<close>

definition regions_ok :: "(string, dep_region) dict \<Rightarrow> bool" where
  "regions_ok d \<longleftrightarrow> dict_ok d \<and> (\<forall>i r. dget d i = Some r \<longrightarrow> dr_region_id r = i)"

abbreviation dep_ok :: "deployment \<Rightarrow> bool" where
  "dep_ok dp \<equiv> regions_ok (rg_regions (dp_registry dp))"

lemma regions_ok_dset [intro]: "regions_ok d \<Longrightarrow> dr_region_id r = i \<Longrightarrow> regions_ok (dset i r d)"
  unfolding regions_ok_def by auto

lemma regions_ok_upd:
  assumes "regions_ok (rg_regions reg)" "\<And>r. dr_region_id (f r) = dr_region_id r"
  shows "regions_ok (rg_regions (upd_region i f reg))"
  using assms by (auto simp: upd_region_def regions_ok_def split: option.splits)

lemma regions_ok_ops [intro]:
  assumes "regions_ok (rg_regions reg)"
  shows "regions_ok (rg_regions (snd (register_region now i n l p e zs prim w sov reg)))"
    and "regions_ok (rg_regions (snd (set_primary_region i reg)))"
    and "regions_ok (rg_regions (snd (update_status now i st reg)))"
proof -
  show "regions_ok (rg_regions (snd (register_region now i n l p e zs prim w sov reg)))"
    using assms by (auto simp: register_region_def Let_def)
  show "regions_ok (rg_regions (snd (set_primary_region i reg)))"
    using assms by (auto simp: set_primary_region_def Let_def intro!: regions_ok_upd split: option.splits)
  show "regions_ok (rg_regions (snd (update_status now i st reg)))"
    using assms by (auto simp: update_status_def intro!: regions_ok_upd)
qed

lemma trigger_failover_registry:
  "fst (snd (trigger_failover ft a b reason svc reg hist)) \<in>
     {reg, snd (set_primary_region b (snd (update_status (ft_status_now ft) a OFFLINE reg)))}"
  by (auto simp: trigger_failover_def Let_def split: option.splits)

lemma auto_failover_registry:
  "fst (snd (auto_failover ft a reg hist)) \<in>
     insert reg ((\<lambda>b. snd (set_primary_region b (snd (update_status (ft_status_now ft) a OFFLINE reg)))) ` UNIV)"
  using trigger_failover_registry [of ft a _ _ "[]" reg hist]
  by (auto simp: auto_failover_def Let_def case_prod_unfold split: option.splits)

lemma standard_registry_steps:
  "snd (setup_standard_regions now u1 u2 u3 dp) =
     (dep_step (AddRule u3 ''failover'' FAILOVER [''us-east-1'', ''us-west-2'', ''eu-west-1''] [] [] 50) \<circ>
      dep_step (AddRule u2 ''default-latency'' LATENCY [''us-east-1'', ''us-west-2'', ''eu-west-1'', ''ap-northeast-1''] [] [] 100) \<circ>
      dep_step (Replicate u1 now ''us-east-1'' [''us-west-2'', ''eu-west-1'', ''ap-northeast-1''] ASYNC 1000) \<circ>
      dep_step (Register now ''ap-northeast-1'' ''APAC Tokyo'' ''Tokyo, Japan'' ''aws'' (endpoint_of ''ap-northeast-1'')
        [''ap-northeast-1a'', ''ap-northeast-1b''] False (fl_of_rat (7 / 10)) APAC) \<circ>
      dep_step (Register now ''eu-west-1'' ''EU West'' ''Ireland, EU'' ''aws'' (endpoint_of ''eu-west-1'')
        [''eu-west-1a'', ''eu-west-1b'', ''eu-west-1c''] False (Fin 1) EU) \<circ>
      dep_step (Register now ''us-west-2'' ''US West'' ''Oregon, USA'' ''aws'' (endpoint_of ''us-west-2'')
        [''us-west-2a'', ''us-west-2b''] False (fl_of_rat (8 / 10)) US) \<circ>
      dep_step (Register now ''us-east-1'' ''US East'' ''Virginia, USA'' ''aws'' (endpoint_of ''us-east-1'')
        [''us-east-1a'', ''us-east-1b'', ''us-east-1c''] True (Fin 1) US)) dp"
  by (simp add: setup_standard_regions_def standard_registry_def case_prod_unfold Let_def)

lemma dep_ok_step: "dep_ok dp \<Longrightarrow> dep_ok (dep_step op dp)"
proof (cases op)
  case (TriggerFailover ft a b reason svc)
  assume "dep_ok dp"
  then show ?thesis
    using trigger_failover_registry [of ft a b reason svc "dp_registry dp" "dp_failover_history dp"]
    by (auto simp: TriggerFailover with_failover_def regions_ok_ops)
next
  case (AutoFailover ft a)
  assume "dep_ok dp"
  then show ?thesis
    using auto_failover_registry [of ft a "dp_registry dp" "dp_failover_history dp"]
    by (auto simp: AutoFailover with_failover_def regions_ok_ops)
next
  case (SetupStandard now u1 u2 u3)
  assume "dep_ok dp"
  then show ?thesis by (simp add: SetupStandard standard_registry_steps regions_ok_ops)
qed (auto simp: initialize_def)

interpretation dep: machine dep_step dep_ok
  by unfold_locales (rule dep_ok_step)

lemma dep_ok_init [simp]: "dep_ok (deployment_init org)"
  by (simp add: deployment_init_def registry_init_def regions_ok_def)

section \<open>Routing stays among the candidates\<close>

lemma registered_iff:
  "regions_ok (rg_regions reg) \<Longrightarrow> r \<in> set (dvalues (rg_regions reg)) \<longleftrightarrow> get_region reg (dr_region_id r) = Some r"
  unfolding regions_ok_def get_region_def by (auto simp: set_dvalues)

lemma rule_candidates_in: "set (rule_candidates rule regions) \<subseteq> set regions"
  by (auto simp: rule_candidates_def Let_def)

lemma rule_candidates_Nil [simp]: "rule_candidates rule regions = [] \<longleftrightarrow> regions = []"
  by (auto simp: rule_candidates_def Let_def)

lemma find_in: "find P xs = Some x \<Longrightarrow> x \<in> set xs"
  by (auto simp: find_Some_iff)

lemma strategy_latency_in: "regions \<noteq> [] \<Longrightarrow> strategy_latency mean hm regions \<in> set regions"
  by (auto simp: strategy_latency_def Let_def split: option.splits dest: find_in)

lemma pick_weighted_in: "pick_weighted rule rand c rs = Some r \<Longrightarrow> r \<in> set rs"
  by (induction rule rand c rs rule: pick_weighted.induct) (auto simp: Let_def split: if_splits)

lemma strategy_weighted_in: "regions \<noteq> [] \<Longrightarrow> strategy_weighted dw rule regions \<in> set regions"
  by (auto simp: strategy_weighted_def split: option.splits dest: pick_weighted_in)

lemma strategy_geographic_in: "regions \<noteq> [] \<Longrightarrow> strategy_geographic l regions \<in> set regions"
  by (auto simp: strategy_geographic_def split: option.splits dest: find_in)

lemma first_in_scope_in:
  "first_in_scope reg scope ids = Some r \<Longrightarrow> \<exists>i\<in>set scope. get_region reg i = Some r"
  by (induction reg scope ids rule: first_in_scope.induct) (auto split: if_splits option.splits)

lemma strategy_failover_in:
  assumes "regions_ok (rg_regions reg)" "set regions \<subseteq> set (dvalues (rg_regions reg))" "regions \<noteq> []"
  shows "\<exists>r\<in>set regions. strategy_failover reg rule regions = Some r"
proof (cases "first_in_scope reg (map dr_region_id regions) (rr_regions rule)")
  case (Some r)
  from first_in_scope_in [OF this] obtain r' where r': "r' \<in> set regions" "get_region reg (dr_region_id r') = Some r" by auto
  with assms(1,2) registered_iff have "r' = r" by fastforce
  with r' Some show ?thesis by (auto simp: strategy_failover_def)
qed (use assms(3) in \<open>auto simp: strategy_failover_def\<close>)

lemma apply_strategy_in:
  assumes "regions_ok (rg_regions reg)" "set regions \<subseteq> set (dvalues (rg_regions reg))" "regions \<noteq> []"
  shows "\<exists>r\<in>set regions. fst (apply_strategy mean dw reg hm rule regions l tr) = Some r"
  using assms strategy_latency_in strategy_weighted_in strategy_geographic_in strategy_failover_in [OF assms]
  by (cases "rr_strategy rule") (auto simp: apply_strategy_def strategy_round_robin_def Let_def)

lemma default_route_in: "regions \<noteq> [] \<Longrightarrow> \<exists>r\<in>set regions. default_route reg regions = Some r"
  by (auto simp: default_route_def split: option.splits)

lemma applicable_registered: "set (applicable_regions sov reg) \<subseteq> set (dvalues (rg_regions reg))"
  by (auto simp: applicable_regions_def get_regions_by_sovereignty_def registry_healthy_regions_def)

lemma route_request_in:
  assumes "regions_ok (rg_regions reg)" "applicable_regions sov reg \<noteq> []"
  shows "\<exists>r\<in>set (applicable_regions sov reg). fst (route_request mean dw reg hm rule l sov tr) = Some r"
proof (cases "select_rule rule tr")
  case None
  then show ?thesis using assms default_route_in by (simp add: route_request_def Let_def)
next
  case (Some ru)
  let ?cs = "rule_candidates ru (applicable_regions sov reg)"
  have "set ?cs \<subseteq> set (dvalues (rg_regions reg))" using rule_candidates_in applicable_registered by blast
  then obtain r where "r \<in> set ?cs" "fst (apply_strategy mean dw reg hm ru ?cs l tr) = Some r"
    using apply_strategy_in [OF assms(1)] assms(2) by (metis rule_candidates_Nil)
  then show ?thesis using rule_candidates_in [of ru] assms(2) Some by (auto simp: route_request_def Let_def)
qed

section \<open>One primary region\<close>

lemma get_upd_region:
  "get_region (upd_region i f reg) j = (if j = i then map_option f (get_region reg i) else get_region reg j)"
  by (auto simp: upd_region_def get_region_def split: option.splits)

lemma primary_upd_region [simp]: "rg_primary (upd_region i f reg) = rg_primary reg"
  by (auto simp: upd_region_def split: option.splits)

lemma get_region_primary [simp]: "get_region (reg\<lparr>rg_primary := p\<rparr>) i = get_region reg i"
  by (simp add: get_region_def)

text \<open>The flag of a region and the registry's own record of the primary agree.\<close>

definition primary_ok :: "region_registry \<Rightarrow> bool" where
  "primary_ok reg \<longleftrightarrow>
     (\<forall>i r. get_region reg i = Some r \<longrightarrow> i \<noteq> [] \<and> (dr_is_primary r \<longleftrightarrow> rg_primary reg = Some i)) \<and>
     (\<forall>p. rg_primary reg = Some p \<longrightarrow> get_region reg p \<noteq> None)"

lemma primary_ok_set_primary: "primary_ok reg \<Longrightarrow> primary_ok (snd (set_primary_region i reg))"
  by (auto simp: primary_ok_def set_primary_region_def get_upd_region Let_def simp flip: get_region_def split: option.splits)

lemma primary_ok_update_status: "primary_ok reg \<Longrightarrow> primary_ok (snd (update_status now i st reg))"
  by (auto simp: primary_ok_def update_status_def get_upd_region)

lemma primary_ok_register:
  assumes "primary_ok reg" "i \<noteq> []" "get_region reg i = None" "prim \<Longrightarrow> rg_primary reg = None"
  shows "primary_ok (snd (register_region now i n l p e zs prim w sov reg))"
  using assms by (auto simp: primary_ok_def register_region_def get_region_def Let_def)

text \<open>
  The discipline of the callers: ids are new when registered and not empty, a region is registered as
  primary only while there is none, and the standard set-up is made on an empty registry.
\<close>

fun wise :: "dep_op \<Rightarrow> deployment \<Rightarrow> bool" where
  "wise (Register now i n l p e zs prim w sov) dp \<longleftrightarrow>
     i \<noteq> [] \<and> get_region (dp_registry dp) i = None \<and> (prim \<longrightarrow> rg_primary (dp_registry dp) = None)"
| "wise (SetupStandard now u1 u2 u3) dp \<longleftrightarrow> dp_registry dp = registry_init"
| "wise _ dp \<longleftrightarrow> True"

abbreviation dep_primary_ok :: "deployment \<Rightarrow> bool" where
  "dep_primary_ok dp \<equiv> primary_ok (dp_registry dp)"

lemma primary_ok_step: "dep_primary_ok dp \<Longrightarrow> wise op dp \<Longrightarrow> dep_primary_ok (dep_step op dp)"
proof (cases op)
  case (TriggerFailover ft a b reason svc)
  assume "dep_primary_ok dp"
  then show ?thesis
    using trigger_failover_registry [of ft a b reason svc "dp_registry dp" "dp_failover_history dp"]
    by (auto simp: TriggerFailover with_failover_def primary_ok_set_primary primary_ok_update_status)
next
  case (AutoFailover ft a)
  assume "dep_primary_ok dp"
  then show ?thesis
    using auto_failover_registry [of ft a "dp_registry dp" "dp_failover_history dp"]
    by (auto simp: AutoFailover with_failover_def primary_ok_set_primary primary_ok_update_status)
next
  case (SetupStandard now u1 u2 u3)
  assume "dep_primary_ok dp" "wise op dp"
  then have "dp_registry dp = registry_init" by (simp add: SetupStandard)
  moreover have "primary_ok registry_init" by (simp add: primary_ok_def registry_init_def get_region_def)
  moreover have "get_region (snd (register_region now i n l p e zs prim w sov reg)) j =
      (if j = i then Some (fst (register_region now i n l p e zs prim w sov reg)) else get_region reg j)"
    for now i n l p e zs prim w sov reg j
    by (simp add: register_region_def get_region_def Let_def)
  moreover have "get_region registry_init j = None" "rg_primary registry_init = None" for j
    by (simp_all add: registry_init_def get_region_def)
  ultimately show ?thesis
    by (simp add: SetupStandard standard_registry_steps primary_ok_register)
qed (auto simp: initialize_def primary_ok_set_primary primary_ok_update_status primary_ok_register)

interpretation dep_primary: guarded_machine dep_step dep_primary_ok wise
  by unfold_locales (rule primary_ok_step)

lemma primary_ok_init [simp]: "dep_primary_ok (deployment_init org)"
  by (simp add: deployment_init_def registry_init_def primary_ok_def get_region_def)

text \<open>Without the discipline a second region registered as primary leaves the flag of the first one set.\<close>

lemma two_primaries:
  assumes "reg1 = snd (register_region now ''a'' n l p e zs True w sov reg0)"
    and "reg2 = snd (register_region now ''b'' n l p e zs True w sov reg1)"
  shows "map_option dr_is_primary (get_region reg2 ''a'') = Some True" "map_option dr_is_primary (get_region reg2 ''b'') = Some True"
  by (simp_all add: assms register_region_def get_region_def Let_def)

section \<open>Failover\<close>

lemma status_set_primary:
  "map_option dr_status (get_region (snd (set_primary_region i reg)) x) = map_option dr_status (get_region reg x)"
  by (cases "get_region reg x") (auto simp: set_primary_region_def get_upd_region Let_def simp flip: get_region_def split: option.splits)

lemma status_update_status:
  "map_option dr_status (get_region (snd (update_status now i st reg)) x) =
     (if x = i \<and> get_region reg i \<noteq> None then Some st else map_option dr_status (get_region reg x))"
  by (auto simp: update_status_def get_upd_region simp flip: get_region_def split: option.splits)

lemma primary_set_primary:
  "get_region reg i \<noteq> None \<Longrightarrow> rg_primary (snd (set_primary_region i reg)) = Some i"
  by (auto simp: set_primary_region_def get_region_def Let_def)

lemma trigger_failover_effect:
  assumes "get_region reg a \<noteq> None" "get_region reg b = Some t" "dr_status t \<in> {HEALTHY, DEGRADED}"
    and "trigger_failover ft a b reason svc reg hist = (ev, reg', hist')"
  shows "fe_success ev" "fe_from_region ev = a" "fe_to_region ev = b" "hist' = hist @ [ev]" "rg_primary reg' = Some b"
    and "map_option dr_status (get_region reg' x) = (if x = a then Some OFFLINE else map_option dr_status (get_region reg x))"
proof -
  let ?reg1 = "snd (update_status (ft_status_now ft) a OFFLINE reg)"
  have reg': "reg' = snd (set_primary_region b ?reg1)" and "hist' = hist @ [ev]" "fe_success ev" "fe_from_region ev = a" "fe_to_region ev = b"
    using assms by (auto simp: trigger_failover_def failover_event_init_def Let_def)
  then show "fe_success ev" "fe_from_region ev = a" "fe_to_region ev = b" "hist' = hist @ [ev]" by blast+
  have "get_region ?reg1 b \<noteq> None"
    using assms(2) status_update_status [of "ft_status_now ft" a OFFLINE reg b]
    by (metis map_option_is_None option.distinct(1))
  then show "rg_primary reg' = Some b" by (simp add: reg' primary_set_primary)
  show "map_option dr_status (get_region reg' x) = (if x = a then Some OFFLINE else map_option dr_status (get_region reg x))"
    using assms(1) by (simp add: reg' status_set_primary status_update_status)
qed

section \<open>Round robin\<close>

fun routes :: "('d \<Rightarrow> traffic_router \<Rightarrow> dep_region option \<times> traffic_router) \<Rightarrow> 'd list \<Rightarrow> traffic_router \<Rightarrow> dep_region option list" where
  "routes f [] tr = []"
| "routes f (x # xs) tr = fst (f x tr) # routes f xs (snd (f x tr))"

definition rr_index :: "routing_rule \<Rightarrow> traffic_router \<Rightarrow> nat" where
  "rr_index rule tr = (case dget (tr_round_robin_index tr) (rr_rule_id rule) of None \<Rightarrow> 0 | Some i \<Rightarrow> i)"

lemma route_round_robin:
  assumes "select_rule rid tr = Some rule" "rr_strategy rule = ROUND_ROBIN"
    and "rule_candidates rule (applicable_regions sov reg) = cs" "cs \<noteq> []"
  shows "fst (route_request mean dw reg hm rid l sov tr) = Some (cs ! (rr_index rule tr mod length cs))"
    and "tr_rules (snd (route_request mean dw reg hm rid l sov tr)) = tr_rules tr"
    and "rr_index rule (snd (route_request mean dw reg hm rid l sov tr)) = Suc (rr_index rule tr)"
proof -
  have "applicable_regions sov reg \<noteq> []" using assms(3,4) by auto
  then have "route_request mean dw reg hm rid l sov tr =
      (Some (cs ! (rr_index rule tr mod length cs)),
       tr\<lparr>tr_round_robin_index := dset (rr_rule_id rule) (rr_index rule tr + 1) (tr_round_robin_index tr)\<rparr>)"
    using assms
    by (simp add: route_request_def apply_strategy_def strategy_round_robin_def rr_index_def Let_def)
  then show "fst (route_request mean dw reg hm rid l sov tr) = Some (cs ! (rr_index rule tr mod length cs))"
    and "tr_rules (snd (route_request mean dw reg hm rid l sov tr)) = tr_rules tr"
    and "rr_index rule (snd (route_request mean dw reg hm rid l sov tr)) = Suc (rr_index rule tr)"
    by (simp_all add: rr_index_def)
qed

lemma select_rule_cong: "tr_rules tr' = tr_rules tr \<Longrightarrow> select_rule rid tr' = select_rule rid tr"
  by (cases rid) (simp_all add: select_rule_def Let_def cong: option.case_cong)

lemma routes_round_robin:
  assumes "select_rule rid tr = Some rule" "rr_strategy rule = ROUND_ROBIN"
    and "rule_candidates rule (applicable_regions sov reg) = cs" "cs \<noteq> []"
  shows "routes (\<lambda>dw. route_request mean dw reg hm rid l sov) dws tr =
     map (\<lambda>j. Some (cs ! ((rr_index rule tr + j) mod length cs))) [0..<length dws]"
  using assms(1)
proof (induction dws arbitrary: tr)
  case (Cons dw dws)
  note rr = route_round_robin [OF Cons.prems assms(2-4), of mean dw hm l]
  let ?tr = "snd (route_request mean dw reg hm rid l sov tr)"
  have "select_rule rid ?tr = Some rule" using Cons.prems select_rule_cong [OF rr(2)] by simp
  from Cons.IH [OF this] show ?case
    by (simp add: rr(1,3) upt_conv_Cons map_Suc_upt [symmetric] comp_def del: upt_Suc)
qed simp

section \<open>Bounded history\<close>

definition history_ok :: "health_monitor \<Rightarrow> bool" where
  "history_ok hm \<longleftrightarrow> (\<forall>i xs. dget (hm_health_history hm) i = Some xs \<longrightarrow> length xs \<le> 100)"

lemma history_ok_check: "history_ok hm \<Longrightarrow> history_ok (snd (check_region_health pb r hm))"
  by (auto simp: history_ok_def check_region_health_def length_last_n Let_def split: option.splits)

lemma history_ok_regions: "history_ok hm \<Longrightarrow> history_ok (snd (check_regions pb rs res hm))"
proof (induction rs arbitrary: res hm)
  case (Cons r rs)
  from Cons.IH [OF history_ok_check [OF Cons.prems]] Cons.IH [OF Cons.prems] show ?case
    by (simp add: case_prod_unfold Let_def)
qed simp

section \<open>Properties\<close>

text \<open>
  C15. Whatever the deployment has gone through, a routed request ends at a registered region that is
  healthy, or, when the request names a data sovereignty, at a region of that sovereignty, under every
  rule and strategy; it is left unrouted only when no registered region qualifies.
\<close>
theorem routing_respects_sovereignty:
  assumes "dp = fold dep_step ops (deployment_init org)"
    and "fst (route_request mean dw (dp_registry dp) (dp_health_monitor dp) rid l sov (dp_router dp)) = res"
  shows "case res of
      Some r \<Rightarrow> get_region (dp_registry dp) (dr_region_id r) = Some r \<and>
                (if sov = NONE then dr_status r = HEALTHY else dr_data_sovereignty r = sov)
    | None \<Rightarrow> \<forall>i r. get_region (dp_registry dp) i = Some r \<longrightarrow>
                (if sov = NONE then dr_status r \<noteq> HEALTHY else dr_data_sovereignty r \<noteq> sov)"
proof -
  let ?reg = "dp_registry dp" and ?ap = "applicable_regions sov (dp_registry dp)"
  have ok: "regions_ok (rg_regions ?reg)" using dep.run_inv [OF dep_ok_init] assms(1) by simp
  have ap: "r \<in> set ?ap \<longleftrightarrow> r \<in> set (dvalues (rg_regions ?reg)) \<and> (if sov = NONE then dr_status r = HEALTHY else dr_data_sovereignty r = sov)" for r
    by (auto simp: applicable_regions_def get_regions_by_sovereignty_def registry_healthy_regions_def)
  show ?thesis
  proof (cases "?ap = []")
    case True
    then have "res = None" using assms(2) by (simp add: route_request_def)
    moreover have "r \<in> set (dvalues (rg_regions ?reg))" if "get_region ?reg i = Some r" for i r
      using that ok unfolding regions_ok_def get_region_def by (auto simp: set_dvalues)
    ultimately show ?thesis using ap True by (simp, metis empty_iff empty_set)
  next
    case False
    from route_request_in [OF ok False, of mean dw "dp_health_monitor dp" rid l "dp_router dp"] obtain r
      where "r \<in> set ?ap" "res = Some r" using assms(2) by auto
    then show ?thesis using ap [of r] registered_iff [OF ok] by simp
  qed
qed

text \<open>
  C16. When ids are not reused and a region is registered as primary only while there is none, the
  regions flagged as primary are, after any run of operations, exactly the one the registry records: there is
  never more than one, whatever failovers have happened.
\<close>
theorem primary_is_unique:
  assumes "guarded wise dep_step ops (deployment_init org)" and "dp = fold dep_step ops (deployment_init org)"
    and "get_region (dp_registry dp) i = Some r"
  shows "dr_is_primary r \<longleftrightarrow> rg_primary (dp_registry dp) = Some i"
  using dep_primary.run_inv [OF primary_ok_init assms(1)] assms(2,3) by (simp add: primary_ok_def)

text \<open>
  C17. An automatic failover from a registered region moves the primary to a healthy region other than it
  with the largest capacity, takes the failing region offline, leaves the status of all others alone and
  records the event; it gives up only when no other region is healthy.
\<close>
theorem auto_failover_elects_best:
  assumes "dp = fold dep_step ops (deployment_init org)" and "get_region (dp_registry dp) bad \<noteq> None"
    and "\<And>i r. get_region (dp_registry dp) i = Some r \<Longrightarrow> dr_capacity_weight r \<noteq> NaN"
    and "auto_failover ft bad (dp_registry dp) hist = (res, reg', hist')"
  shows "case res of
      None \<Rightarrow> reg' = dp_registry dp \<and>
              (\<forall>i r. get_region (dp_registry dp) i = Some r \<and> i \<noteq> bad \<longrightarrow> dr_status r \<noteq> HEALTHY)
    | Some ev \<Rightarrow> hist' = hist @ [ev] \<and> fe_success ev \<and> rg_primary reg' = Some (fe_to_region ev) \<and> fe_to_region ev \<noteq> bad \<and>
        (\<exists>best. get_region (dp_registry dp) (fe_to_region ev) = Some best \<and> dr_status best = HEALTHY \<and>
           (\<forall>i r. get_region (dp_registry dp) i = Some r \<and> i \<noteq> bad \<and> dr_status r = HEALTHY \<longrightarrow>
              \<not> fl_lt (dr_capacity_weight best) (dr_capacity_weight r))) \<and>
        (\<forall>x. map_option dr_status (get_region reg' x) =
              (if x = bad then Some OFFLINE else map_option dr_status (get_region (dp_registry dp) x)))"
proof -
  let ?reg = "dp_registry dp"
  let ?cs = "filter (\<lambda>r. dr_region_id r \<noteq> bad) (registry_healthy_regions ?reg)"
  let ?better = "\<lambda>a b. fl_lt (dr_capacity_weight b) (dr_capacity_weight a)"
  have ok: "regions_ok (rg_regions ?reg)" using dep.run_inv [OF dep_ok_init] assms(1) by simp
  have cs: "r \<in> set ?cs \<longleftrightarrow> get_region ?reg (dr_region_id r) = Some r \<and> dr_region_id r \<noteq> bad \<and> dr_status r = HEALTHY" for r
    using registered_iff [OF ok] by (auto simp: registry_healthy_regions_def)
  have key: "dr_region_id r = i" if "get_region ?reg i = Some r" for i r
    using ok that by (simp add: regions_ok_def get_region_def)
  show ?thesis
  proof (cases "first_best ?better ?cs")
    case None
    then have "?cs = []" by simp
    have "dr_status r \<noteq> HEALTHY" if "get_region ?reg i = Some r" "i \<noteq> bad" for i r
    proof -
      have "r \<notin> set ?cs" unfolding \<open>?cs = []\<close> by simp
      then show ?thesis using cs [of r] key [OF that(1)] that by blast
    qed
    then show ?thesis using assms(4) \<open>?cs = []\<close> by (auto simp: auto_failover_def first_best_def)
  next
    case (Some best)
    then have best: "get_region ?reg (dr_region_id best) = Some best" "dr_region_id best \<noteq> bad" "dr_status best = HEALTHY"
      using cs [of best] first_best_in [OF Some] by simp_all
    have "\<forall>r\<in>set ?cs. \<not> ?better r best"
    proof (rule first_best_best [OF Some])
      show "\<not> ?better v u" if "?better u v" for u v using that fl_lt_asym by blast
      show "\<not> ?better u w" if "v \<in> set ?cs" "\<not> ?better u v" "\<not> ?better v w" for u v w
        using fl_not_lt_trans [of "dr_capacity_weight v"] that assms(3) cs by blast
    qed
    then have top: "\<not> ?better r best" if "get_region ?reg i = Some r" "i \<noteq> bad" "dr_status r = HEALTHY" for i r
      using cs [of r] key [OF that(1)] that by blast
    obtain ev where ev: "trigger_failover ft bad (dr_region_id best) ''Automatic failover due to region health failure'' [] ?reg hist
        = (ev, reg', hist')" and res: "res = Some ev"
      using assms(4) Some by (auto simp: auto_failover_def split: prod.splits)
    note eff = trigger_failover_effect [OF assms(2) best(1) _ ev]
    show ?thesis using eff best top res by auto
  qed
qed

text \<open>
  A round-robin rule takes every candidate region exactly once in each round: as many consecutive
  requests as there are candidates are routed to a rotation of the list of candidates.
\<close>
theorem round_robin_takes_turns:
  assumes "select_rule rid tr = Some rule" and "rr_strategy rule = ROUND_ROBIN"
    and "rule_candidates rule (applicable_regions sov reg) = cs" and "cs \<noteq> []" and "length dws = length cs"
  shows "\<exists>k. routes (\<lambda>dw. route_request mean dw reg hm rid l sov) dws tr = map Some (rotate k cs)"
proof
  show "routes (\<lambda>dw. route_request mean dw reg hm rid l sov) dws tr = map Some (rotate (rr_index rule tr) cs)"
    using assms(5) by (auto simp: routes_round_robin [OF assms(1-4)] nth_rotate intro!: nth_equalityI)
qed

section \<open>Witnesses\<close>

definition demo_dep_ops :: "dep_op list" where
  "demo_dep_ops =
     [Register 0 ''a'' ''A'' ''Ireland'' ''aws'' ''x'' [] True (Fin 1) EU,
      Register 0 ''b'' ''B'' ''Oregon'' ''aws'' ''y'' [] False (Fin 2) US,
      Register 0 ''c'' ''C'' ''Tokyo'' ''aws'' ''z'' [] False (Fin 1) APAC]"

abbreviation demo_dep :: deployment where
  "demo_dep \<equiv> fold dep_step demo_dep_ops (deployment_init ''org'')"

lemmas demo_dep_simps = demo_dep_ops_def deployment_init_def registry_init_def register_region_def get_region_def
  dset_Cons dget_Cons Let_def

theorem routing_respects_sovereignty_witness:
  "\<exists>r. fst (route_request hd \<lparr>dw_index = 0, dw_uniform = hd\<rparr> (dp_registry demo_dep) (dp_health_monitor demo_dep)
          None None EU (dp_router demo_dep)) = Some r \<and> dr_data_sovereignty r = EU"
proof -
  let ?res = "fst (route_request hd \<lparr>dw_index = 0, dw_uniform = hd\<rparr> (dp_registry demo_dep) (dp_health_monitor demo_dep)
          None None EU (dp_router demo_dep))"
  obtain r where "get_region (dp_registry demo_dep) ''a'' = Some r" "dr_data_sovereignty r = EU"
    by (simp add: demo_dep_simps)
  then show ?thesis
    using routing_respects_sovereignty [of demo_dep demo_dep_ops "''org''" hd "\<lparr>dw_index = 0, dw_uniform = hd\<rparr>" None None EU ?res]
    by (cases ?res) auto
qed

theorem primary_is_unique_witness:
  "\<exists>r. get_region (dp_registry demo_dep) ''b'' = Some r \<and> \<not> dr_is_primary r"
proof -
  have "guarded wise dep_step demo_dep_ops (deployment_init ''org'')"
    by (simp add: demo_dep_simps)
  moreover obtain r where r: "get_region (dp_registry demo_dep) ''b'' = Some r" and "rg_primary (dp_registry demo_dep) = Some ''a''"
    by (simp add: demo_dep_simps)
  ultimately show ?thesis using primary_is_unique [OF _ refl r] by auto
qed

definition demo_times :: failover_times where
  "demo_times = \<lparr>ft_uuid = ''u'', ft_start = Fin 1, ft_now = 0, ft_status_now = 0, ft_done = 0, ft_end = Fin 1\<rparr>"

theorem auto_failover_elects_best_witness:
  "\<exists>ev. fst (auto_failover demo_times ''a'' (dp_registry demo_dep) []) = Some ev \<and> fe_to_region ev = ''b''"
proof -
  let ?reg = "dp_registry demo_dep"
  obtain res reg' hist' where f: "auto_failover demo_times ''a'' ?reg [] = (res, reg', hist')" by (metis prod_cases3)
  have regs: "get_region ?reg i = Some r \<Longrightarrow> i \<in> {''a'', ''b'', ''c''}"
      "get_region ?reg i = Some r \<Longrightarrow> i \<noteq> ''b'' \<Longrightarrow> dr_capacity_weight r = Fin 1"
      "get_region ?reg i = Some r \<Longrightarrow> dr_capacity_weight r \<noteq> NaN" for i r
    by (auto simp: demo_dep_simps split: if_splits)
  obtain b where b: "get_region ?reg ''b'' = Some b" "dr_status b = HEALTHY" "dr_capacity_weight b = Fin 2"
    by (simp add: demo_dep_simps)
  have a: "get_region ?reg ''a'' \<noteq> None" by (simp add: demo_dep_simps)
  have elect: "case res of None \<Rightarrow> reg' = ?reg \<and> (\<forall>i r. get_region ?reg i = Some r \<and> i \<noteq> ''a'' \<longrightarrow> dr_status r \<noteq> HEALTHY) | Some ev \<Rightarrow>
      (\<exists>best. get_region ?reg (fe_to_region ev) = Some best \<and> (\<forall>i r. get_region ?reg i = Some r \<and> i \<noteq> ''a'' \<and> dr_status r = HEALTHY \<longrightarrow>
         \<not> fl_lt (dr_capacity_weight best) (dr_capacity_weight r)))"
    using auto_failover_elects_best [OF refl a _ f] regs(3) by (simp split: option.splits) blast
  show ?thesis
  proof (cases res)
    case None
    then show ?thesis using elect b by auto
  next
    case (Some ev)
    with elect obtain best where best: "get_region ?reg (fe_to_region ev) = Some best"
      and all: "\<forall>i r. get_region ?reg i = Some r \<and> i \<noteq> ''a'' \<and> dr_status r = HEALTHY \<longrightarrow>
         \<not> fl_lt (dr_capacity_weight best) (dr_capacity_weight r)" by auto
    have "\<not> fl_lt (dr_capacity_weight best) (dr_capacity_weight b)" using all [rule_format, of "''b''" b] b(1,2) by simp
    then have "fe_to_region ev = ''b''" using regs(2) [OF best] b(3) by (cases "fe_to_region ev = ''b''") simp_all
    then show ?thesis using f Some by simp
  qed
qed

definition demo_router :: traffic_router where
  "demo_router = snd (add_routing_rule ''r'' ''rr'' ROUND_ROBIN [''a'', ''c''] [] [] 10 router_init)"

theorem round_robin_takes_turns_witness:
  "\<exists>k. map (map_option dr_region_id)
     (routes (\<lambda>dw. route_request hd dw (dp_registry demo_dep) (dp_health_monitor demo_dep) None None NONE)
        [\<lparr>dw_index = 0, dw_uniform = hd\<rparr>, \<lparr>dw_index = 0, dw_uniform = hd\<rparr>] demo_router) =
     map Some (rotate k [''a'', ''c''])"
proof -
  obtain rule where rule: "select_rule None demo_router = Some rule" "rr_strategy rule = ROUND_ROBIN" "rr_regions rule = [''a'', ''c'']"
    by (simp add: demo_router_def add_routing_rule_def router_init_def select_rule_def first_best_def dvalues_def Let_def)
  let ?cs = "rule_candidates rule (applicable_regions NONE (dp_registry demo_dep))"
  have ids: "map dr_region_id ?cs = [''a'', ''c'']"
    by (simp add: rule rule_candidates_def applicable_regions_def registry_healthy_regions_def demo_dep_simps dvalues_def)
  then have "?cs \<noteq> []" "length [\<lparr>dw_index = 0, dw_uniform = hd\<rparr>, \<lparr>dw_index = 0, dw_uniform = hd\<rparr>] = length ?cs"
    by (auto dest: arg_cong [where f = length] simp del: rule_candidates_Nil)
  from round_robin_takes_turns [OF rule(1,2) refl this, of hd "dp_health_monitor demo_dep" None]
  obtain k where "routes (\<lambda>dw. route_request hd dw (dp_registry demo_dep) (dp_health_monitor demo_dep) None None NONE)
        [\<lparr>dw_index = 0, dw_uniform = hd\<rparr>, \<lparr>dw_index = 0, dw_uniform = hd\<rparr>] demo_router = map Some (rotate k ?cs)" by blast
  moreover have "map (map_option dr_region_id) (map Some (rotate k ?cs)) = map Some (rotate k (map dr_region_id ?cs))"
    by (simp add: rotate_map)
  ultimately show ?thesis using ids by metis
qed

end
