(* ===== verification/Gdpr.thy ===== *)
theory Gdpr
  imports Float_Arith Text
begin

text \<open>
  Data protection: \<^verbatim>\<open>compliance/gdpr.py\<close>.

  Requests of data subjects, consents, retention of data and the register of processing activities,
  with the manager that combines them. Clock readings, the hash that makes identifiers, the text of a
  float, the handlers of requests and the callbacks that delete data are arguments. Shown: an erased
  subject has no consent until it gives one again, what a clean-up deletes, the range of the score, and
  what becomes of an access request.
\<close>

section \<open>Requests\<close>

datatype request_type = ACCESS | RECTIFICATION | ERASURE | RESTRICTION | PORTABILITY | OBJECTION

fun request_type_value :: "request_type \<Rightarrow> string" where
  "request_type_value ACCESS = ''access''"
| "request_type_value RECTIFICATION = ''rectification''"
| "request_type_value ERASURE = ''erasure''"
| "request_type_value RESTRICTION = ''restriction''"
| "request_type_value PORTABILITY = ''portability''"
| "request_type_value OBJECTION = ''objection''"

datatype request_status = PENDING | IN_PROGRESS | COMPLETED | REJECTED | EXPIRED

datatype consent_purpose = ESSENTIAL | ANALYTICS | MARKETING | PROFILING | THIRD_PARTY | RESEARCH

fun purpose_value :: "consent_purpose \<Rightarrow> string" where
  "purpose_value ESSENTIAL = ''essential''"
| "purpose_value ANALYTICS = ''analytics''"
| "purpose_value MARKETING = ''marketing''"
| "purpose_value PROFILING = ''profiling''"
| "purpose_value THIRD_PARTY = ''third_party''"
| "purpose_value RESEARCH = ''research''"

definition all_purposes :: "consent_purpose list" where
  "all_purposes = [ESSENTIAL, ANALYTICS, MARKETING, PROFILING, THIRD_PARTY, RESEARCH]"

text \<open>What a handler returns is not examined; the export stores the sz of its text.\<close>

datatype request_result = HandlerResult string | ExportSize nat

record subject_request =
  dq_request_id :: string
  dq_subject_id :: string
  dq_request_type :: request_type
  dq_status :: request_status
  dq_created_at :: pyfloat
  dq_updated_at :: pyfloat
  dq_completed_at :: "pyfloat option"
  dq_deadline :: "pyfloat option"
  dq_description :: string
  dq_result :: "request_result option"
  dq_rejection_reason :: "string option"
  dq_handler_id :: "string option"

definition DAY :: int where
  "DAY = 24 * 60 * 60"

definition request_init :: "string \<Rightarrow> string \<Rightarrow> request_type \<Rightarrow> string \<Rightarrow> pyfloat \<Rightarrow> pyfloat \<Rightarrow> subject_request" where
  "request_init request_id subject_id rtype description created updated =
     \<lparr>dq_request_id = request_id, dq_subject_id = subject_id, dq_request_type = rtype, dq_status = PENDING,
      dq_created_at = created, dq_updated_at = updated, dq_completed_at = None,
      dq_deadline = Some (fl_add created (Fin (of_int (30 * DAY)))), dq_description = description, dq_result = None,
      dq_rejection_reason = None, dq_handler_id = None\<rparr>"

text \<open>A deadline of zero is false in a condition and never passes.\<close>

definition is_overdue :: "pyfloat \<Rightarrow> subject_request \<Rightarrow> bool" where
  "is_overdue now r =
     (if dq_status r \<in> {COMPLETED, REJECTED} then False
      else case dq_deadline r of None \<Rightarrow> False | Some d \<Rightarrow> \<not> fl_eq d (Fin 0) \<and> fl_lt d now)"

definition days_remaining :: "pyfloat \<Rightarrow> subject_request \<Rightarrow> int result" where
  "days_remaining now r =
     (case dq_deadline r of
        None \<Rightarrow> Inr 0
      | Some d \<Rightarrow> bindE (fl_div (fl_sub d now) (Fin (of_int DAY))) (\<lambda>q. bindE (fl_int q) (\<lambda>i. Inr (max 0 i))))"

record rights =
  ds_requests :: "(string, subject_request) dict"
  ds_handlers :: "(request_type, subject_request \<Rightarrow> string + request_result) dict"

definition rights_init :: rights where
  "rights_init = \<lparr>ds_requests = [], ds_handlers = []\<rparr>"

definition register_handler :: "request_type \<Rightarrow> (subject_request \<Rightarrow> string + request_result) \<Rightarrow> rights \<Rightarrow> rights" where
  "register_handler t h ds = ds\<lparr>ds_handlers := dset t h (ds_handlers ds)\<rparr>"

definition request_id_of :: "(string \<Rightarrow> string) \<Rightarrow> (pyfloat \<Rightarrow> string) \<Rightarrow> pyfloat \<Rightarrow> string \<Rightarrow> string \<Rightarrow> string" where
  "request_id_of H show_float now subject_id value = take 16 (H (subject_id @ value @ show_float now))"

text \<open>The three readings of the clock when something is submitted: for its id, and for the two times it stores.\<close>

type_synonym stamps = "pyfloat \<times> pyfloat \<times> pyfloat"

definition submit_request ::
  "(string \<Rightarrow> string) \<Rightarrow> (pyfloat \<Rightarrow> string) \<Rightarrow> stamps \<Rightarrow> string \<Rightarrow> request_type \<Rightarrow> string \<Rightarrow> rights \<Rightarrow>
   subject_request \<times> rights" where
  "submit_request H show_float ts subject_id rtype description ds =
     (let rid = request_id_of H show_float (fst ts) subject_id (request_type_value rtype);
          r = request_init rid subject_id rtype description (fst (snd ts)) (snd (snd ts))
      in (r, ds\<lparr>ds_requests := dset rid r (ds_requests ds)\<rparr>))"

definition get_request :: "string \<Rightarrow> rights \<Rightarrow> subject_request option" where
  "get_request rid ds = dget (ds_requests ds) rid"

definition get_requests_for_subject :: "string \<Rightarrow> rights \<Rightarrow> subject_request list" where
  "get_requests_for_subject subject_id ds = filter (\<lambda>r. dq_subject_id r = subject_id) (dvalues (ds_requests ds))"

text \<open>
  A handler gets the request in progress and may raise; its exception is the reason of the rejection.
  \<open>t1\<close> to \<open>t3\<close> are the clock readings in order.
\<close>

definition process_request :: "pyfloat \<times> pyfloat \<times> pyfloat \<Rightarrow> string \<Rightarrow> rights \<Rightarrow> bool \<times> rights" where
  "process_request ts rid ds =
     (case dget (ds_requests ds) rid of
        None \<Rightarrow> (False, ds)
      | Some r \<Rightarrow>
          if dq_status r \<noteq> PENDING then (False, ds)
          else case dget (ds_handlers ds) (dq_request_type r) of
            None \<Rightarrow> (False, ds)
          | Some handler \<Rightarrow>
              let (t1, t2, t3) = ts; r1 = r\<lparr>dq_status := IN_PROGRESS, dq_updated_at := t1\<rparr>
              in case handler r1 of
                   Inr res \<Rightarrow> (True, ds\<lparr>ds_requests := dset rid (r1\<lparr>dq_status := COMPLETED, dq_completed_at := Some t2,
                                 dq_updated_at := t3, dq_result := Some res\<rparr>) (ds_requests ds)\<rparr>)
                 | Inl e \<Rightarrow> (False, ds\<lparr>ds_requests := dset rid (r1\<lparr>dq_status := REJECTED, dq_rejection_reason := Some e,
                                 dq_updated_at := t2\<rparr>) (ds_requests ds)\<rparr>))"

definition get_overdue_requests :: "(string \<Rightarrow> pyfloat) \<Rightarrow> rights \<Rightarrow> subject_request list" where
  "get_overdue_requests clk ds = filter (\<lambda>r. is_overdue (clk (dq_request_id r)) r) (dvalues (ds_requests ds))"

definition get_pending_requests :: "rights \<Rightarrow> subject_request list" where
  "get_pending_requests ds = filter (\<lambda>r. dq_status r = PENDING) (dvalues (ds_requests ds))"

section \<open>Consent\<close>

record consent_record =
  cs_consent_id :: string
  cs_subject_id :: string
  cs_purpose :: consent_purpose
  cs_granted :: bool
  cs_granted_at :: pyfloat
  cs_expires_at :: "pyfloat option"
  cs_withdrawn_at :: "pyfloat option"
  cs_source :: string
  cs_version :: string

definition consent_is_valid :: "pyfloat \<Rightarrow> consent_record \<Rightarrow> bool" where
  "consent_is_valid now c =
     (if \<not> cs_granted c then False
      else if cs_withdrawn_at c \<noteq> None then False
      else case cs_expires_at c of None \<Rightarrow> True | Some e \<Rightarrow> fl_eq e (Fin 0) \<or> \<not> fl_lt e now)"

definition consent_withdraw :: "pyfloat \<Rightarrow> consent_record \<Rightarrow> consent_record" where
  "consent_withdraw now c = c\<lparr>cs_withdrawn_at := Some now, cs_granted := False\<rparr>"

type_synonym consents = "(string, (consent_purpose, consent_record) dict) dict"

definition expiry_of :: "pyfloat \<Rightarrow> int option \<Rightarrow> pyfloat option result" where
  "expiry_of now expires_days =
     (case expires_days of
        None \<Rightarrow> Inr None
      | Some d \<Rightarrow> if d = 0 then Inr None else bindE (fl_of_int (d * DAY)) (\<lambda>x. Inr (Some (fl_add now x))))"

definition subject_consents :: "string \<Rightarrow> consents \<Rightarrow> (consent_purpose, consent_record) dict" where
  "subject_consents subject_id cm = (case dget cm subject_id of None \<Rightarrow> [] | Some d \<Rightarrow> d)"

definition record_consent ::
  "(string \<Rightarrow> string) \<Rightarrow> (pyfloat \<Rightarrow> string) \<Rightarrow> stamps \<Rightarrow> string \<Rightarrow> consent_purpose \<Rightarrow> bool \<Rightarrow> string \<Rightarrow> int option \<Rightarrow> consents \<Rightarrow>
   consent_record result \<times> consents" where
  "record_consent H show_float ts subject_id purpose granted source expires_days cm =
     (let cid = request_id_of H show_float (fst ts) subject_id (purpose_value purpose) in
      case expiry_of (fst (snd ts)) expires_days of
        Inl e \<Rightarrow> (Inl e, cm)
      | Inr expires_at \<Rightarrow>
          let c = \<lparr>cs_consent_id = cid, cs_subject_id = subject_id, cs_purpose = purpose, cs_granted = granted,
                cs_granted_at = snd (snd ts), cs_expires_at = expires_at, cs_withdrawn_at = None, cs_source = source,
                cs_version = ''1.0''\<rparr>
          in (Inr c, dset subject_id (dset purpose c (subject_consents subject_id cm)) cm))"

definition has_consent :: "pyfloat \<Rightarrow> string \<Rightarrow> consent_purpose \<Rightarrow> consents \<Rightarrow> bool" where
  "has_consent now subject_id purpose cm =
     (case dget cm subject_id of
        None \<Rightarrow> False
      | Some d \<Rightarrow> (case dget d purpose of None \<Rightarrow> False | Some c \<Rightarrow> consent_is_valid now c))"

definition withdraw_consent :: "pyfloat \<Rightarrow> string \<Rightarrow> consent_purpose \<Rightarrow> consents \<Rightarrow> bool \<times> consents" where
  "withdraw_consent now subject_id purpose cm =
     (case dget cm subject_id of
        None \<Rightarrow> (False, cm)
      | Some d \<Rightarrow> (case dget d purpose of
                    None \<Rightarrow> (False, cm)
                  | Some c \<Rightarrow> (True, dset subject_id (dset purpose (consent_withdraw now c) d) cm)))"

text \<open>
  Each record is tested and, where valid, withdrawn, with the clock read twice; \<open>clk\<close> gives both readings
  for a purpose.
\<close>

definition withdraw_all_consents :: "(consent_purpose \<Rightarrow> pyfloat \<times> pyfloat) \<Rightarrow> string \<Rightarrow> consents \<Rightarrow> nat \<times> consents" where
  "withdraw_all_consents clk subject_id cm =
     (case dget cm subject_id of
        None \<Rightarrow> (0, cm)
      | Some d \<Rightarrow>
          (length (filter (\<lambda>(p, c). consent_is_valid (fst (clk p)) c) d),
           dset subject_id (map (\<lambda>(p, c). (p, if consent_is_valid (fst (clk p)) c then consent_withdraw (snd (clk p)) c else c)) d) cm))"

definition get_consents :: "string \<Rightarrow> consents \<Rightarrow> consent_record list" where
  "get_consents subject_id cm = dvalues (subject_consents subject_id cm)"

definition get_consent_summary :: "(consent_purpose \<Rightarrow> pyfloat) \<Rightarrow> string \<Rightarrow> consents \<Rightarrow> (string, bool) dict" where
  "get_consent_summary clk subject_id cm = map (\<lambda>p. (purpose_value p, has_consent (clk p) subject_id p cm)) all_purposes"

section \<open>Retention\<close>

record retention_policy =
  rp_policy_id :: string
  rp_data_category :: string
  rp_retention_days :: int
  rp_legal_basis :: string
  rp_description :: string
  rp_auto_delete :: bool
  rp_archive_before_delete :: bool

definition is_expired :: "pyfloat \<Rightarrow> pyfloat \<Rightarrow> retention_policy \<Rightarrow> bool result" where
  "is_expired now created_at p =
     bindE (fl_of_int (rp_retention_days p * DAY)) (\<lambda>x. Inr (fl_lt (fl_add created_at x) now))"

record retention =
  rt_policies :: "(string, retention_policy) dict"
  rt_data_records :: "(string, (string, pyfloat) dict) dict"

definition retention_init :: retention where
  "retention_init = \<lparr>rt_policies = [], rt_data_records = []\<rparr>"

definition add_policy :: "retention_policy \<Rightarrow> retention \<Rightarrow> retention" where
  "add_policy p rm = rm\<lparr>rt_policies := dset (rp_policy_id p) p (rt_policies rm)\<rparr>"

definition get_policy :: "string \<Rightarrow> retention \<Rightarrow> retention_policy option" where
  "get_policy pid rm = dget (rt_policies rm) pid"

definition get_policies :: "retention \<Rightarrow> retention_policy list" where
  "get_policies rm = dvalues (rt_policies rm)"

definition category_records :: "string \<Rightarrow> retention \<Rightarrow> (string, pyfloat) dict" where
  "category_records category rm = (case dget (rt_data_records rm) category of None \<Rightarrow> [] | Some d \<Rightarrow> d)"

text \<open>A creation time of zero counts as not given.\<close>

definition register_data :: "pyfloat \<Rightarrow> string \<Rightarrow> string \<Rightarrow> pyfloat option \<Rightarrow> retention \<Rightarrow> retention" where
  "register_data now category data_id created_at rm =
     (let t = (case created_at of None \<Rightarrow> now | Some c \<Rightarrow> if fl_eq c (Fin 0) then now else c)
      in rm\<lparr>rt_data_records := dset category (dset data_id t (category_records category rm)) (rt_data_records rm)\<rparr>)"

fun expired_ids :: "(string \<Rightarrow> pyfloat) \<Rightarrow> retention_policy \<Rightarrow> (string, pyfloat) dict \<Rightarrow> string list result" where
  "expired_ids clk p [] = Inr []"
| "expired_ids clk p ((i, c) # xs) =
     bindE (is_expired (clk i) c p) (\<lambda>b. bindE (expired_ids clk p xs) (\<lambda>is. Inr (if b then i # is else is)))"

definition policy_for :: "string \<Rightarrow> retention \<Rightarrow> retention_policy option" where
  "policy_for category rm = find (\<lambda>p. rp_data_category p = category) (dvalues (rt_policies rm))"

definition get_expired_data :: "(string \<Rightarrow> pyfloat) \<Rightarrow> string \<Rightarrow> retention \<Rightarrow> string list result" where
  "get_expired_data clk category rm =
     (case policy_for category rm of
        None \<Rightarrow> Inr []
      | Some p \<Rightarrow> expired_ids clk p (category_records category rm))"

text \<open>
  One pass over the expired ids of a category: the callback deletes, refuses or raises, and only what it
  deleted leaves the table. A raise is logged and the loop goes on.
\<close>

fun delete_expired ::
  "(string \<Rightarrow> string \<Rightarrow> bool result) \<Rightarrow> string \<Rightarrow> string list \<Rightarrow> nat \<Rightarrow> retention \<Rightarrow> nat \<times> retention" where
  "delete_expired cb category [] deleted rm = (deleted, rm)"
| "delete_expired cb category (i # is) deleted rm =
     (if cb category i = Inr True
      then delete_expired cb category is (Suc deleted)
             (rm\<lparr>rt_data_records := dset category (ddel i (category_records category rm)) (rt_data_records rm)\<rparr>)
      else delete_expired cb category is deleted rm)"

fun cleanup_policies ::
  "(string \<Rightarrow> string \<Rightarrow> pyfloat) \<Rightarrow> (string \<Rightarrow> string \<Rightarrow> bool result) \<Rightarrow> retention_policy list \<Rightarrow> (string, nat) dict \<Rightarrow> retention \<Rightarrow>
   (string, nat) dict result \<times> retention" where
  "cleanup_policies clk cb [] results rm = (Inr results, rm)"
| "cleanup_policies clk cb (p # ps) results rm =
     (if \<not> rp_auto_delete p then cleanup_policies clk cb ps results rm
      else case get_expired_data (clk (rp_policy_id p)) (rp_data_category p) rm of
        Inl e \<Rightarrow> (Inl e, rm)
      | Inr expired \<Rightarrow>
          let (deleted, rm1) = delete_expired cb (rp_data_category p) expired 0 rm
          in cleanup_policies clk cb ps (if deleted > 0 then dset (rp_data_category p) deleted results else results) rm1)"

definition cleanup_expired ::
  "(string \<Rightarrow> string \<Rightarrow> pyfloat) \<Rightarrow> (string \<Rightarrow> string \<Rightarrow> bool result) \<Rightarrow> retention \<Rightarrow> (string, nat) dict result \<times> retention" where
  "cleanup_expired clk cb rm = cleanup_policies clk cb (dvalues (rt_policies rm)) [] rm"

section \<open>Register of processing activities\<close>

record processing_record =
  pr_record_id :: string
  pr_processing_activity :: string
  pr_purpose :: string
  pr_data_categories :: "string list"
  pr_data_subjects :: "string list"
  pr_recipients :: "string list"
  pr_transfers_outside_eu :: bool
  pr_transfer_safeguards :: "string option"
  pr_retention_period :: string
  pr_security_measures :: "string list"
  pr_created_at :: pyfloat
  pr_updated_at :: pyfloat

record processing_register =
  pg_controller_name :: string
  pg_controller_contact :: string
  pg_records :: "(string, processing_record) dict"

definition add_record :: "processing_record \<Rightarrow> processing_register \<Rightarrow> processing_register" where
  "add_record r pg = pg\<lparr>pg_records := dset (pr_record_id r) r (pg_records pg)\<rparr>"

definition get_record :: "string \<Rightarrow> processing_register \<Rightarrow> processing_record option" where
  "get_record rid pg = dget (pg_records pg) rid"

definition get_all_records :: "processing_register \<Rightarrow> processing_record list" where
  "get_all_records pg = dvalues (pg_records pg)"

section \<open>The manager\<close>

record gdpr =
  gd_rights :: rights
  gd_consents :: consents
  gd_retention :: retention
  gd_register :: processing_register
  gd_initialized :: bool

definition gdpr_init :: "string \<Rightarrow> string \<Rightarrow> gdpr" where
  "gdpr_init name contact =
     \<lparr>gd_rights = rights_init, gd_consents = [], gd_retention = retention_init,
      gd_register = \<lparr>pg_controller_name = name, pg_controller_contact = contact, pg_records = []\<rparr>, gd_initialized = False\<rparr>"

definition retention_policy_init :: "string \<Rightarrow> string \<Rightarrow> int \<Rightarrow> string \<Rightarrow> string \<Rightarrow> bool \<Rightarrow> retention_policy" where
  "retention_policy_init pid category days basis description auto_delete =
     \<lparr>rp_policy_id = pid, rp_data_category = category, rp_retention_days = days, rp_legal_basis = basis,
      rp_description = description, rp_auto_delete = auto_delete, rp_archive_before_delete = True\<rparr>"

definition default_policies :: "retention_policy list" where
  "default_policies =
     [retention_policy_init ''audit_logs'' ''audit_logs'' (365 * 7) ''legal_obligation''
        ''Audit logs for regulatory compliance'' False,
      retention_policy_init ''user_sessions'' ''session_data'' 30 ''contract'' ''User session data'' True,
      retention_policy_init ''analytics'' ''analytics_data'' 365 ''consent'' ''Analytics and usage data'' True,
      retention_policy_init ''governance_decisions'' ''governance_data'' (365 * 10) ''legitimate_interest''
        ''AI governance decisions and audit trails'' False]"

definition default_records :: "pyfloat \<Rightarrow> processing_record list" where
  "default_records now =
     [\<lparr>pr_record_id = ''core_governance'', pr_processing_activity = ''AI Governance Processing'',
       pr_purpose = ''Autonomous AI governance and decision-making'',
       pr_data_categories = [''governance_decisions'', ''audit_trails'', ''model_outputs''],
       pr_data_subjects = [''ai_operators'', ''system_administrators''], pr_recipients = [''internal_systems''],
       pr_transfers_outside_eu = False, pr_transfer_safeguards = None, pr_retention_period = ''10 years'',
       pr_security_measures = [''encryption_at_rest'', ''encryption_in_transit'', ''access_control'', ''audit_logging''],
       pr_created_at = now, pr_updated_at = now\<rparr>,
      \<lparr>pr_record_id = ''user_auth'', pr_processing_activity = ''User Authentication'',
       pr_purpose = ''User identity verification and access control'',
       pr_data_categories = [''identity_data'', ''authentication_logs''],
       pr_data_subjects = [''users'', ''administrators''], pr_recipients = [''identity_provider''],
       pr_transfers_outside_eu = False, pr_transfer_safeguards = None,
       pr_retention_period = ''Duration of account + 1 year'',
       pr_security_measures = [''mfa'', ''encryption'', ''session_management''],
       pr_created_at = now, pr_updated_at = now\<rparr>]"

definition gdpr_initialize :: "pyfloat \<Rightarrow> gdpr \<Rightarrow> bool \<times> gdpr" where
  "gdpr_initialize now g =
     (True, g\<lparr>gd_retention := fold add_policy default_policies (gd_retention g),
              gd_register := fold add_record (default_records now) (gd_register g), gd_initialized := True\<rparr>)"

text \<open>
  What is shown to a data subject. \<open>to_iso\<close> turns a timestamp into text and may raise; \<open>clk\<close> gives the clock
  readings of a request: for being overdue and for the days that remain.
\<close>

record request_view =
  qv_request_id :: string
  qv_subject_id :: string
  qv_request_type :: string
  qv_status :: request_status
  qv_created_at :: string
  qv_deadline :: "string option"
  qv_is_overdue :: bool
  qv_days_remaining :: int
  qv_description :: string

fun iso_opt :: "(pyfloat \<Rightarrow> string result) \<Rightarrow> pyfloat option \<Rightarrow> string option result" where
  "iso_opt to_iso None = Inr None"
| "iso_opt to_iso (Some t) = (if fl_eq t (Fin 0) then Inr None else bindE (to_iso t) (\<lambda>s. Inr (Some s)))"

definition request_to_dict ::
  "(pyfloat \<Rightarrow> string result) \<Rightarrow> (string \<Rightarrow> pyfloat \<times> pyfloat) \<Rightarrow> subject_request \<Rightarrow> request_view result" where
  "request_to_dict to_iso clk r =
     bindE (to_iso (dq_created_at r)) (\<lambda>created.
     bindE (iso_opt to_iso (dq_deadline r)) (\<lambda>deadline.
     bindE (days_remaining (snd (clk (dq_request_id r))) r) (\<lambda>days.
       Inr \<lparr>qv_request_id = dq_request_id r, qv_subject_id = dq_subject_id r,
            qv_request_type = request_type_value (dq_request_type r), qv_status = dq_status r, qv_created_at = created,
            qv_deadline = deadline, qv_is_overdue = is_overdue (fst (clk (dq_request_id r))) r,
            qv_days_remaining = days, qv_description = dq_description r\<rparr>)))"

record consent_view =
  cv_consent_id :: string
  cv_subject_id :: string
  cv_purpose :: string
  cv_granted :: bool
  cv_is_valid :: bool
  cv_granted_at :: string
  cv_withdrawn_at :: "string option"

definition consent_to_dict :: "(pyfloat \<Rightarrow> string result) \<Rightarrow> (consent_purpose \<Rightarrow> pyfloat) \<Rightarrow> consent_record \<Rightarrow> consent_view result" where
  "consent_to_dict to_iso clk c =
     bindE (to_iso (cs_granted_at c)) (\<lambda>granted_at.
     bindE (iso_opt to_iso (cs_withdrawn_at c)) (\<lambda>withdrawn_at.
       Inr \<lparr>cv_consent_id = cs_consent_id c, cv_subject_id = cs_subject_id c, cv_purpose = purpose_value (cs_purpose c),
            cv_granted = cs_granted c, cv_is_valid = consent_is_valid (clk (cs_purpose c)) c, cv_granted_at = granted_at,
            cv_withdrawn_at = withdrawn_at\<rparr>))"

record access_report =
  ax_request_id :: string
  ax_subject_id :: string
  ax_consents :: "consent_view list"
  ax_requests :: "request_view list"
  ax_processing_purposes :: "(string, bool) dict"
  ax_retention_policies :: "(string \<times> string \<times> int \<times> string \<times> bool) list"

definition policy_to_dict :: "retention_policy \<Rightarrow> string \<times> string \<times> int \<times> string \<times> bool" where
  "policy_to_dict p = (rp_policy_id p, rp_data_category p, rp_retention_days p, rp_legal_basis p, rp_auto_delete p)"

record gdpr_env =
  ge_hash :: "string \<Rightarrow> string"
  ge_show_float :: "pyfloat \<Rightarrow> string"
  ge_iso :: "pyfloat \<Rightarrow> string result"
  ge_stamps :: stamps
  ge_request_clock :: "string \<Rightarrow> pyfloat \<times> pyfloat"
  ge_consent_clock :: "consent_purpose \<Rightarrow> pyfloat"
  ge_summary_clock :: "consent_purpose \<Rightarrow> pyfloat"
  ge_withdraw_clock :: "consent_purpose \<Rightarrow> pyfloat \<times> pyfloat"
  ge_done :: pyfloat

definition submit :: "gdpr_env \<Rightarrow> string \<Rightarrow> request_type \<Rightarrow> string \<Rightarrow> gdpr \<Rightarrow> subject_request \<times> gdpr" where
  "submit env subject_id rtype description g =
     (let (r, ds) = submit_request (ge_hash env) (ge_show_float env) (ge_stamps env) subject_id rtype description (gd_rights g)
      in (r, g\<lparr>gd_rights := ds\<rparr>))"

definition handle_access_request :: "gdpr_env \<Rightarrow> string \<Rightarrow> gdpr \<Rightarrow> access_report result \<times> gdpr" where
  "handle_access_request env subject_id g =
     (let (r, g1) = submit env subject_id ACCESS ''Data subject access request'' g
      in (bindE (mapE (consent_to_dict (ge_iso env) (ge_consent_clock env)) (get_consents subject_id (gd_consents g1))) (\<lambda>cs.
          bindE (mapE (request_to_dict (ge_iso env) (ge_request_clock env)) (get_requests_for_subject subject_id (gd_rights g1))) (\<lambda>rs.
            Inr \<lparr>ax_request_id = dq_request_id r, ax_subject_id = subject_id, ax_consents = cs, ax_requests = rs,
                 ax_processing_purposes = get_consent_summary (ge_summary_clock env) subject_id (gd_consents g1),
                 ax_retention_policies = map policy_to_dict (get_policies (gd_retention g1))\<rparr>)), g1))"

definition set_request :: "subject_request \<Rightarrow> gdpr \<Rightarrow> gdpr" where
  "set_request r g = g\<lparr>gd_rights := (gd_rights g)\<lparr>ds_requests := dset (dq_request_id r) r (ds_requests (gd_rights g))\<rparr>\<rparr>"

text \<open>The callback deletes the subject's data; its exception rejects the request.\<close>

definition handle_erasure_request :: "gdpr_env \<Rightarrow> string \<Rightarrow> (string \<Rightarrow> string + bool) \<Rightarrow> gdpr \<Rightarrow> bool \<times> gdpr" where
  "handle_erasure_request env subject_id data_callback g =
     (let (r, g1) = submit env subject_id ERASURE ''Right to be forgotten request'' g;
          g2 = g1\<lparr>gd_consents := snd (withdraw_all_consents (ge_withdraw_clock env) subject_id (gd_consents g1))\<rparr>
      in case data_callback subject_id of
           Inr True \<Rightarrow> (True, set_request (r\<lparr>dq_status := COMPLETED, dq_completed_at := Some (ge_done env)\<rparr>) g2)
         | Inr False \<Rightarrow> (False, set_request (r\<lparr>dq_status := REJECTED, dq_rejection_reason := Some ''Data deletion failed''\<rparr>) g2)
         | Inl e \<Rightarrow> (False, set_request (r\<lparr>dq_status := REJECTED, dq_rejection_reason := Some e\<rparr>) g2))"

record portable_export =
  px_exported_at :: string
  px_subject_id :: string
  px_consents :: "consent_view list"
  px_requests :: "request_view list"

definition export_data_portable ::
  "gdpr_env \<Rightarrow> string \<Rightarrow> (portable_export \<Rightarrow> nat) \<Rightarrow> string \<Rightarrow> gdpr \<Rightarrow> portable_export result \<times> gdpr" where
  "export_data_portable env exported_at dumps_length subject_id g =
     (let (r, g1) = submit env subject_id PORTABILITY ''Data portability request'' g
      in case bindE (mapE (consent_to_dict (ge_iso env) (ge_consent_clock env)) (get_consents subject_id (gd_consents g1))) (\<lambda>cs.
              bindE (mapE (request_to_dict (ge_iso env) (ge_request_clock env)) (get_requests_for_subject subject_id (gd_rights g1))) (\<lambda>rs.
                Inr \<lparr>px_exported_at = exported_at, px_subject_id = subject_id, px_consents = cs, px_requests = rs\<rparr>)) of
           Inl e \<Rightarrow> (Inl e, g1)
         | Inr x \<Rightarrow> (Inr x, set_request (r\<lparr>dq_status := COMPLETED, dq_completed_at := Some (ge_done env),
                              dq_result := Some (ExportSize (dumps_length x))\<rparr>) g1))"

text \<open>The score: a hundred, less twenty for an overdue request and five or two for one close to its deadline.\<close>

fun deduct_pending :: "(string \<Rightarrow> pyfloat \<times> pyfloat) \<Rightarrow> subject_request list \<Rightarrow> pyfloat \<Rightarrow> pyfloat result" where
  "deduct_pending clk [] score = Inr score"
| "deduct_pending clk (r # rs) score =
     bindE (days_remaining (fst (clk (dq_request_id r))) r) (\<lambda>d.
       if d < 7 then deduct_pending clk rs (fl_sub score (Fin 5))
       else bindE (days_remaining (snd (clk (dq_request_id r))) r) (\<lambda>d'.
         if d' < 14 then deduct_pending clk rs (fl_sub score (Fin 2)) else deduct_pending clk rs score))"

definition py_min :: "pyfloat \<Rightarrow> pyfloat \<Rightarrow> pyfloat" where
  "py_min x y = (if fl_lt y x then y else x)"

definition py_max :: "pyfloat \<Rightarrow> pyfloat \<Rightarrow> pyfloat" where
  "py_max x y = (if fl_lt x y then y else x)"

definition calculate_compliance_score ::
  "(string \<Rightarrow> pyfloat \<times> pyfloat) \<Rightarrow> subject_request list \<Rightarrow> subject_request list \<Rightarrow> pyfloat result" where
  "calculate_compliance_score clk pending overdue =
     bindE (fl_of_int (int (length overdue) * 20)) (\<lambda>x.
     bindE (deduct_pending clk pending (fl_sub (Fin 100) x)) (\<lambda>score.
       Inr (py_max (Fin 0) (py_min (Fin 100) score))))"

record compliance_status =
  co_initialized :: bool
  co_pending_requests :: nat
  co_overdue_requests :: nat
  co_overdue_request_ids :: "string list"
  co_retention_policies :: nat
  co_processing_records :: nat
  co_compliance_score :: pyfloat

definition get_compliance_status ::
  "(string \<Rightarrow> pyfloat) \<Rightarrow> (string \<Rightarrow> pyfloat \<times> pyfloat) \<Rightarrow> gdpr \<Rightarrow> compliance_status result" where
  "get_compliance_status oclk dclk g =
     (let pending = get_pending_requests (gd_rights g); overdue = get_overdue_requests oclk (gd_rights g)
      in bindE (calculate_compliance_score dclk pending overdue) (\<lambda>score.
           Inr \<lparr>co_initialized = gd_initialized g, co_pending_requests = length pending, co_overdue_requests = length overdue,
                co_overdue_request_ids = map dq_request_id overdue, co_retention_policies = length (get_policies (gd_retention g)),
                co_processing_records = length (get_all_records (gd_register g)), co_compliance_score = score\<rparr>))"

section \<open>The manager as a machine\<close>

datatype gdpr_op =
    RecordConsent gdpr_env string consent_purpose bool string "int option"
  | WithdrawConsent pyfloat string consent_purpose
  | WithdrawAll "consent_purpose \<Rightarrow> pyfloat \<times> pyfloat" string
  | Submit gdpr_env string request_type string
  | Process "pyfloat \<times> pyfloat \<times> pyfloat" string
  | RegisterHandler request_type "subject_request \<Rightarrow> string + request_result"
  | Access gdpr_env string
  | Erase gdpr_env string "string \<Rightarrow> string + bool"
  | Export gdpr_env string "portable_export \<Rightarrow> nat" string
  | AddPolicy retention_policy
  | RegisterData pyfloat string string "pyfloat option"
  | Cleanup "string \<Rightarrow> string \<Rightarrow> pyfloat" "string \<Rightarrow> string \<Rightarrow> bool result"
  | AddRecord processing_record
  | InitializeGdpr pyfloat

fun gdpr_step :: "gdpr_op \<Rightarrow> gdpr \<Rightarrow> gdpr" where
  "gdpr_step (RecordConsent env s p granted source days) g =
     g\<lparr>gd_consents := snd (record_consent (ge_hash env) (ge_show_float env) (ge_stamps env) s p granted source days (gd_consents g))\<rparr>"
| "gdpr_step (WithdrawConsent now s p) g = g\<lparr>gd_consents := snd (withdraw_consent now s p (gd_consents g))\<rparr>"
| "gdpr_step (WithdrawAll clk s) g = g\<lparr>gd_consents := snd (withdraw_all_consents clk s (gd_consents g))\<rparr>"
| "gdpr_step (Submit env s t d) g = snd (submit env s t d g)"
| "gdpr_step (Process ts rid) g = g\<lparr>gd_rights := snd (process_request ts rid (gd_rights g))\<rparr>"
| "gdpr_step (RegisterHandler t h) g = g\<lparr>gd_rights := register_handler t h (gd_rights g)\<rparr>"
| "gdpr_step (Access env s) g = snd (handle_access_request env s g)"
| "gdpr_step (Erase env s cb) g = snd (handle_erasure_request env s cb g)"
| "gdpr_step (Export env at_text sz s) g = snd (export_data_portable env at_text sz s g)"
| "gdpr_step (AddPolicy p) g = g\<lparr>gd_retention := add_policy p (gd_retention g)\<rparr>"
| "gdpr_step (RegisterData now c i t) g = g\<lparr>gd_retention := register_data now c i t (gd_retention g)\<rparr>"
| "gdpr_step (Cleanup clk cb) g = g\<lparr>gd_retention := snd (cleanup_expired clk cb (gd_retention g))\<rparr>"
| "gdpr_step (AddRecord r) g = g\<lparr>gd_register := add_record r (gd_register g)\<rparr>"
| "gdpr_step (InitializeGdpr now) g = snd (gdpr_initialize now g)"

section \<open>Consents once withdrawn\<close>

definition no_consent :: "pyfloat \<Rightarrow> string \<Rightarrow> consents \<Rightarrow> bool" where
  "no_consent now s cm \<longleftrightarrow> (\<forall>p. \<not> has_consent now s p cm)"

lemma has_consent_iff:
  "has_consent now s p cm \<longleftrightarrow> (\<exists>d c. dget cm s = Some d \<and> dget d p = Some c \<and> consent_is_valid now c)"
  by (auto simp: has_consent_def split: option.splits)

lemma withdrawn_invalid [simp]: "\<not> consent_is_valid now (consent_withdraw t c)"
  by (simp add: consent_is_valid_def consent_withdraw_def)

lemma invalid_stays: "\<not> consent_is_valid t c \<Longrightarrow> fl_le t now \<Longrightarrow> \<not> consent_is_valid now c"
  by (auto simp: consent_is_valid_def split: option.splits if_splits intro: fl_lt_le_trans)

lemma no_consent_after_withdraw_all:
  assumes "\<And>p. fl_le (fst (clk p)) now"
  shows "no_consent now s (snd (withdraw_all_consents clk s cm))"
proof (cases "dget cm s")
  case (Some d)
  have "dget (map (\<lambda>(p, c). (p, if consent_is_valid (fst (clk p)) c then consent_withdraw (snd (clk p)) c else c)) d) p =
      map_option (\<lambda>c. if consent_is_valid (fst (clk p)) c then consent_withdraw (snd (clk p)) c else c) (dget d p)" for p
    by (rule dget_map)
  then show ?thesis using Some invalid_stays [OF _ assms]
    by (auto simp: no_consent_def has_consent_iff withdraw_all_consents_def)
qed (auto simp: no_consent_def has_consent_iff withdraw_all_consents_def)

fun gives_consent :: "string \<Rightarrow> gdpr_op \<Rightarrow> bool" where
  "gives_consent s (RecordConsent env s' p granted source days) \<longleftrightarrow> s' = s \<and> granted"
| "gives_consent s _ \<longleftrightarrow> False"

lemma no_consent_record:
  assumes "no_consent now s cm" "\<not> (s' = s \<and> granted)"
  shows "no_consent now s (snd (record_consent H sf ts s' p granted source days cm))"
proof (cases "snd (record_consent H sf ts s' p granted source days cm) = cm")
  case False
  then obtain c where c: "snd (record_consent H sf ts s' p granted source days cm) = dset s' (dset p c (subject_consents s' cm)) cm"
      "cs_granted c = granted"
    by (auto simp: record_consent_def Let_def split: sum.splits)
  have "\<not> consent_is_valid now c" if "s' = s" using assms(2) c(2) that by (simp add: consent_is_valid_def)
  moreover have "\<not> consent_is_valid now c'" if "dget (subject_consents s cm) q = Some c'" for q c'
    using assms(1) that by (auto simp: no_consent_def has_consent_iff subject_consents_def split: option.splits)
  ultimately show ?thesis using assms(1) unfolding c no_consent_def has_consent_iff by (auto split: if_splits)
qed (simp add: assms)

lemma no_consent_withdraw: "no_consent now s cm \<Longrightarrow> no_consent now s (snd (withdraw_consent t s' p cm))"
  by (auto simp: no_consent_def has_consent_iff withdraw_consent_def split: option.splits if_splits)

lemma no_consent_withdraw_all:
  assumes "no_consent now s cm"
  shows "no_consent now s (snd (withdraw_all_consents clk s' cm))"
  using assms
  by (auto simp: no_consent_def has_consent_iff withdraw_all_consents_def dget_map split: option.splits if_splits)

lemma consents_unchanged [simp]:
  "gd_consents (snd (submit env s t d g)) = gd_consents g"
  "gd_consents (set_request r g) = gd_consents g"
  "gd_consents (snd (handle_access_request env s g)) = gd_consents g"
  "gd_consents (snd (export_data_portable env x sz s g)) = gd_consents g"
  by (auto simp: submit_def set_request_def handle_access_request_def export_data_portable_def case_prod_unfold Let_def
      split: sum.splits)

lemma consents_erasure:
  "gd_consents (snd (handle_erasure_request env s cb g)) =
     snd (withdraw_all_consents (ge_withdraw_clock env) s (gd_consents g))"
  by (auto simp: handle_erasure_request_def case_prod_unfold Let_def split: sum.splits bool.splits)

interpretation consent: guarded_machine gdpr_step "\<lambda>g :: gdpr. no_consent now s (gd_consents g)" "\<lambda>x g. \<not> gives_consent s x"
  for now s
proof unfold_locales
  fix g :: gdpr and x assume "no_consent now s (gd_consents g)" "\<not> gives_consent s x"
  then show "no_consent now s (gd_consents (gdpr_step x g))"
    by (cases x) (auto simp: no_consent_record no_consent_withdraw no_consent_withdraw_all consents_erasure gdpr_initialize_def)
qed

section \<open>Requests nobody handles\<close>

fun submits :: "gdpr_op \<Rightarrow> string option" where
  "submits (Submit env s t d) = Some (request_id_of (ge_hash env) (ge_show_float env) (fst (ge_stamps env)) s (request_type_value t))"
| "submits (Access env s) = Some (request_id_of (ge_hash env) (ge_show_float env) (fst (ge_stamps env)) s (request_type_value ACCESS))"
| "submits (Erase env s cb) = Some (request_id_of (ge_hash env) (ge_show_float env) (fst (ge_stamps env)) s (request_type_value ERASURE))"
| "submits (Export env x sz s) = Some (request_id_of (ge_hash env) (ge_show_float env) (fst (ge_stamps env)) s (request_type_value PORTABILITY))"
| "submits _ = None"

fun handles :: "request_type \<Rightarrow> gdpr_op \<Rightarrow> bool" where
  "handles t (RegisterHandler t' h) \<longleftrightarrow> t' = t"
| "handles t _ \<longleftrightarrow> False"

text \<open>A request that is not pending, or that has no handler, is never touched again.\<close>

definition frozen :: "string \<Rightarrow> subject_request \<Rightarrow> rights \<Rightarrow> bool" where
  "frozen rid r ds \<longleftrightarrow> dget (ds_requests ds) rid = Some r \<and>
     (dq_status r \<noteq> PENDING \<or> dget (ds_handlers ds) (dq_request_type r) = None)"

lemma submit_rights:
  "gd_rights (snd (submit env s t d g)) =
     (gd_rights g)\<lparr>ds_requests := dset (dq_request_id (fst (submit env s t d g))) (fst (submit env s t d g)) (ds_requests (gd_rights g))\<rparr>"
  "dq_request_id (fst (submit env s t d g)) =
     request_id_of (ge_hash env) (ge_show_float env) (fst (ge_stamps env)) s (request_type_value t)"
  by (auto simp: submit_def submit_request_def request_init_def case_prod_unfold Let_def)

lemma frozen_set_request:
  "frozen rid r (gd_rights g) \<Longrightarrow> dq_request_id q \<noteq> rid \<Longrightarrow> frozen rid r (gd_rights (set_request q g))"
  by (auto simp: frozen_def set_request_def)

lemma frozen_submit:
  "frozen rid r (gd_rights g) \<Longrightarrow>
   request_id_of (ge_hash env) (ge_show_float env) (fst (ge_stamps env)) s (request_type_value t) \<noteq> rid \<Longrightarrow>
   frozen rid r (gd_rights (snd (submit env s t d g)))"
  by (auto simp: frozen_def submit_rights)

lemma frozen_process: "frozen rid r ds \<Longrightarrow> frozen rid r (snd (process_request ts i ds))"
  by (cases "i = rid") (auto simp: frozen_def process_request_def case_prod_unfold Let_def split: option.splits sum.splits)

lemma access_rights [simp]:
  "gd_rights (snd (handle_access_request env s g)) = gd_rights (snd (submit env s ACCESS ''Data subject access request'' g))"
  by (simp add: handle_access_request_def case_prod_unfold Let_def)

lemma frozen_erasure:
  assumes "frozen rid r (gd_rights g)"
    and "request_id_of (ge_hash env) (ge_show_float env) (fst (ge_stamps env)) s (request_type_value ERASURE) \<noteq> rid"
  shows "frozen rid r (gd_rights (snd (handle_erasure_request env s cb g)))"
  using frozen_submit [OF assms] assms(2)
  by (auto simp: handle_erasure_request_def case_prod_unfold Let_def submit_rights intro!: frozen_set_request
      split: sum.splits bool.splits)

lemma frozen_export:
  assumes "frozen rid r (gd_rights g)"
    and "request_id_of (ge_hash env) (ge_show_float env) (fst (ge_stamps env)) s (request_type_value PORTABILITY) \<noteq> rid"
  shows "frozen rid r (gd_rights (snd (export_data_portable env x sz s g)))"
  using frozen_submit [OF assms] assms(2)
  by (auto simp: export_data_portable_def case_prod_unfold Let_def submit_rights intro!: frozen_set_request split: sum.splits)

interpretation request: guarded_machine gdpr_step "\<lambda>g :: gdpr. frozen rid r (gd_rights g)"
    "\<lambda>x g. submits x \<noteq> Some rid \<and> \<not> handles (dq_request_type r) x"
  for rid r
proof unfold_locales
  fix g :: gdpr and x assume "frozen rid r (gd_rights g)" "submits x \<noteq> Some rid \<and> \<not> handles (dq_request_type r) x"
  then show "frozen rid r (gd_rights (gdpr_step x g))"
    by (cases x) (auto simp: frozen_submit frozen_process frozen_erasure frozen_export gdpr_initialize_def
        register_handler_def frozen_def [of _ _ "_\<lparr>ds_handlers := _\<rparr>"] frozen_def [of _ _ "gd_rights g"])
qed

section \<open>What a clean-up deletes\<close>

definition retention_ok :: "retention \<Rightarrow> bool" where
  "retention_ok rm \<longleftrightarrow> (\<forall>cat. dict_ok (category_records cat rm))"

lemma category_records_dset [simp]:
  "category_records cat (rm\<lparr>rt_data_records := dset cat' d (rt_data_records rm)\<rparr>) =
     (if cat = cat' then d else category_records cat rm)"
  by (simp add: category_records_def)

lemma policy_for_records [simp]: "policy_for cat (rm\<lparr>rt_data_records := d\<rparr>) = policy_for cat rm"
  by (simp add: policy_for_def)

lemma retention_ok_dset [intro]:
  "retention_ok rm \<Longrightarrow> dict_ok d \<Longrightarrow> retention_ok (rm\<lparr>rt_data_records := dset cat d (rt_data_records rm)\<rparr>)"
  by (simp add: retention_ok_def)

lemma delete_expired_policies: "policy_for x (snd (delete_expired cb cat ids n rm)) = policy_for x rm"
  by (induction cb cat ids n rm rule: delete_expired.induct) auto

lemma delete_expired_ok: "retention_ok rm \<Longrightarrow> retention_ok (snd (delete_expired cb cat ids n rm))"
proof (induction cb cat ids n rm rule: delete_expired.induct)
  case (2 cb cat i ids n rm)
  have "dict_ok (category_records cat rm)" using 2(3) by (simp add: retention_ok_def)
  with 2 show ?case by auto
qed simp

lemma delete_expired_records:
  "dget (category_records x (snd (delete_expired cb cat ids n rm))) i =
     (if x = cat \<and> i \<in> set ids \<and> cb cat i = Inr True then None else dget (category_records x rm) i)"
  by (induction cb cat ids n rm rule: delete_expired.induct) auto

lemma expired_ids_iff:
  "expired_ids clk p d = Inr ids \<Longrightarrow> i \<in> set ids \<longleftrightarrow> (\<exists>c. (i, c) \<in> set d \<and> is_expired (clk i) c p = Inr True)"
proof (induction d arbitrary: ids)
  case (Cons x d)
  obtain j c where x: "x = (j, c)" by fastforce
  with Cons.prems obtain b ids' where "is_expired (clk j) c p = Inr b" "expired_ids clk p d = Inr ids'"
    "ids = (if b then j # ids' else ids')" by (auto simp: bindE_Inr_iff)
  with Cons.IH [of ids'] show ?case by (cases b) (auto simp: x)
qed simp

text \<open>Data that a list of policies sweeps away: expired under the first policy of its category.\<close>

definition swept ::
  "(string \<Rightarrow> string \<Rightarrow> pyfloat) \<Rightarrow> (string \<Rightarrow> string \<Rightarrow> bool result) \<Rightarrow> retention_policy list \<Rightarrow> retention \<Rightarrow> string \<Rightarrow> string \<Rightarrow> bool" where
  "swept clk cb ps rm cat i \<longleftrightarrow>
     (\<exists>p\<in>set ps. rp_auto_delete p \<and> rp_data_category p = cat \<and> cb cat i = Inr True \<and>
        (\<exists>q c. policy_for cat rm = Some q \<and> dget (category_records cat rm) i = Some c \<and>
               is_expired (clk (rp_policy_id p) i) c q = Inr True))"

lemma get_expired_iff:
  assumes "retention_ok rm" "get_expired_data clk cat rm = Inr ids"
  shows "i \<in> set ids \<longleftrightarrow> (\<exists>q c. policy_for cat rm = Some q \<and> dget (category_records cat rm) i = Some c \<and> is_expired (clk i) c q = Inr True)"
proof (cases "policy_for cat rm")
  case (Some q)
  have "dict_ok (category_records cat rm)" using assms(1) by (simp add: retention_ok_def)
  then show ?thesis using expired_ids_iff [of clk q "category_records cat rm" ids i] Some assms(2)
    by (auto simp: get_expired_data_def dget_in_set)
qed (use assms(2) in \<open>auto simp: get_expired_data_def\<close>)

lemma cleanup_policies_effect:
  assumes "retention_ok rm" "cleanup_policies clk cb ps res rm = (Inr res', rm')"
  shows "dget (category_records cat rm') i = (if swept clk cb ps rm cat i then None else dget (category_records cat rm) i)"
  using assms
proof (induction ps arbitrary: res rm)
  case (Cons p ps)
  show ?case
  proof (cases "rp_auto_delete p")
    case False
    then show ?thesis using Cons by (auto simp: swept_def)
  next
    case True
    with Cons.prems(2) obtain ids where ids: "get_expired_data (clk (rp_policy_id p)) (rp_data_category p) rm = Inr ids"
      by (cases "get_expired_data (clk (rp_policy_id p)) (rp_data_category p) rm") auto
    define rm1 where "rm1 = snd (delete_expired cb (rp_data_category p) ids 0 rm)"
    have rest: "\<exists>res1. cleanup_policies clk cb ps res1 rm1 = (Inr res', rm')"
      using Cons.prems(2) True ids unfolding rm1_def by (auto simp: case_prod_unfold Let_def)
    have IH: "dget (category_records cat rm') i = (if swept clk cb ps rm1 cat i then None else dget (category_records cat rm1) i)"
      using rest Cons.IH [of rm1] delete_expired_ok [OF Cons.prems(1)] unfolding rm1_def by blast
    have gone: "cat = rp_data_category p \<and> i \<in> set ids \<and> cb cat i = Inr True \<longleftrightarrow> swept clk cb [p] rm cat i"
      using get_expired_iff [OF Cons.prems(1) ids] True by (auto simp: swept_def)
    have step: "dget (category_records cat rm1) i = (if swept clk cb [p] rm cat i then None else dget (category_records cat rm) i)"
      unfolding rm1_def delete_expired_records using gone by auto
    have pol: "policy_for cat rm1 = policy_for cat rm" by (simp add: rm1_def delete_expired_policies)
    have "swept clk cb ps rm1 cat i \<longleftrightarrow> swept clk cb ps rm cat i \<and> \<not> swept clk cb [p] rm cat i"
      using step pol by (cases "swept clk cb [p] rm cat i") (simp_all add: swept_def [of _ _ ps])
    moreover have "swept clk cb (p # ps) rm cat i \<longleftrightarrow> swept clk cb [p] rm cat i \<or> swept clk cb ps rm cat i"
      by (auto simp: swept_def)
    ultimately show ?thesis using IH step by auto
  qed
qed (auto simp: swept_def)

lemma cleanup_policies_ok: "retention_ok rm \<Longrightarrow> retention_ok (snd (cleanup_policies clk cb ps res rm))"
  by (induction ps arbitrary: res rm)
    (auto simp: case_prod_unfold Let_def delete_expired_ok split: sum.splits)

lemma retention_ok_step: "retention_ok (gd_retention g) \<Longrightarrow> retention_ok (gd_retention (gdpr_step x g))"
proof (cases x)
  case (RegisterData now c i t)
  assume "retention_ok (gd_retention g)"
  moreover then have "dict_ok (category_records c (gd_retention g))" by (simp add: retention_ok_def)
  ultimately show ?thesis by (auto simp: RegisterData register_data_def Let_def)
next
  case (InitializeGdpr now)
  have "retention_ok rm \<Longrightarrow> retention_ok (fold add_policy ps rm)" for ps rm
    by (induction ps arbitrary: rm) (auto simp: add_policy_def retention_ok_def category_records_def)
  moreover assume "retention_ok (gd_retention g)"
  ultimately show ?thesis by (simp add: InitializeGdpr gdpr_initialize_def)
qed (auto simp: add_policy_def retention_ok_def [of "_\<lparr>rt_policies := _\<rparr>"] category_records_def retention_ok_def [of "gd_retention g"]
    cleanup_expired_def cleanup_policies_ok submit_def handle_access_request_def handle_erasure_request_def export_data_portable_def
    set_request_def case_prod_unfold Let_def split: sum.splits bool.splits)

interpretation kept: machine gdpr_step "\<lambda>g :: gdpr. retention_ok (gd_retention g)"
  by unfold_locales (rule retention_ok_step)

section \<open>Properties\<close>

text \<open>
  C18. After an erasure request the subject has no valid consent for any purpose, now or later, until it
  gives_consent one again: no other operation revives a consent, whether or not the deletion of the data
  succeeded. The clock is assumed not to have run backwards since the erasure.
\<close>
theorem erased_subject_has_no_consent:
  assumes "g1 = snd (handle_erasure_request env s cb g)" and "\<And>p. fl_le (fst (ge_withdraw_clock env p)) now"
    and "guarded (\<lambda>x g. \<not> gives_consent s x) gdpr_step ops g1"
  shows "\<not> has_consent now s purpose (gd_consents (fold gdpr_step ops g1))"
proof -
  have "no_consent now s (gd_consents g1)"
    unfolding assms(1) consents_erasure by (rule no_consent_after_withdraw_all [OF assms(2)])
  from consent.run_inv [OF this assms(3)] show ?thesis by (simp add: no_consent_def)
qed

text \<open>
  A clean-up that returns removes from the table exactly the data that its callback deleted and that
  had expired under the first policy of their category, for categories with a policy that deletes
  automatically; everything else is kept with its creation time.
\<close>
theorem cleanup_deletes_exactly:
  assumes "g = fold gdpr_step ops (gdpr_init name contact)" and "cleanup_expired clk cb (gd_retention g) = (Inr res, rm')"
  shows "dget (category_records cat rm') i =
    (if \<exists>p q c. p \<in> set (get_policies (gd_retention g)) \<and> rp_auto_delete p \<and> rp_data_category p = cat \<and> cb cat i = Inr True \<and>
          policy_for cat (gd_retention g) = Some q \<and> dget (category_records cat (gd_retention g)) i = Some c \<and>
          is_expired (clk (rp_policy_id p) i) c q = Inr True
     then None else dget (category_records cat (gd_retention g)) i)"
proof -
  have "retention_ok (gd_retention (gdpr_init name contact))"
    by (simp add: gdpr_init_def retention_init_def retention_ok_def category_records_def)
  then have "retention_ok (gd_retention g)" using kept.run_inv assms(1) by blast
  from cleanup_policies_effect [OF this assms(2) [unfolded cleanup_expired_def], of cat i] show ?thesis
    unfolding swept_def get_policies_def by (auto simp del: set_dvalues)
qed

text \<open>
  The manager answers an access request but never closes it: with no handler registered for access
  requests it stays pending through every later operation, and once thirty days have passed it counts as
  overdue, unless a new request takes over its identifier.
\<close>
theorem access_request_becomes_overdue:
  assumes "g1 = snd (handle_access_request env s g)" and "dget (ds_handlers (gd_rights g)) ACCESS = None"
    and "rid = request_id_of (ge_hash env) (ge_show_float env) (fst (ge_stamps env)) s ''access''"
    and "guarded (\<lambda>x g. submits x \<noteq> Some rid \<and> \<not> handles ACCESS x) gdpr_step ops g1"
    and "fst (snd (ge_stamps env)) = Fin t" and "0 \<le> t"
    and "fl_lt (fl_add (Fin t) (Fin (of_int (30 * DAY)))) (clk rid)"
  shows "rid \<in> set (map dq_request_id (get_overdue_requests clk (gd_rights (fold gdpr_step ops g1))))"
proof -
  define r where "r = fst (submit env s ACCESS ''Data subject access request'' g)"
  have id: "dq_request_id r = rid" by (simp add: r_def submit_rights assms(3))
  have r: "dq_request_type r = ACCESS" "dq_status r = PENDING" "dq_deadline r = Some (fl_add (Fin t) (Fin (of_int (30 * DAY))))"
    using assms(5) by (auto simp: r_def submit_def submit_request_def request_init_def case_prod_unfold Let_def)
  have "frozen rid r (gd_rights g1)"
    using assms(2) r id by (simp add: assms(1) frozen_def submit_rights(1) flip: r_def)
  from request.run_inv [OF this] assms(4) r(1)
  have "dget (ds_requests (gd_rights (fold gdpr_step ops g1))) rid = Some r" by (simp add: frozen_def)
  then have "r \<in> set (dvalues (ds_requests (gd_rights (fold gdpr_step ops g1))))"
    by (force simp: dvalues_def dest: dget_SomeD)
  moreover have "1 \<le> t + of_int (30 * DAY)" using assms(6) by (simp add: DAY_def)
  then have "\<not> fl_eq (fl_add (Fin t) (Fin (of_int (30 * DAY)))) (Fin 0)" using fl_of_rat_pos by (simp add: fl_eq_iff)
  then have "is_overdue (clk (dq_request_id r)) r" using r assms(7) id by (simp add: is_overdue_def)
  ultimately show ?thesis using id by (auto simp: get_overdue_requests_def)
qed

section \<open>Witnesses\<close>

definition demo_env :: gdpr_env where
  "demo_env = \<lparr>ge_hash = (\<lambda>x. x), ge_show_float = (\<lambda>_. []), ge_iso = (\<lambda>_. Inr []), ge_stamps = (Fin 1, Fin 1, Fin 1),
     ge_request_clock = (\<lambda>_. (Fin 2, Fin 2)), ge_consent_clock = (\<lambda>_. Fin 2), ge_summary_clock = (\<lambda>_. Fin 2),
     ge_withdraw_clock = (\<lambda>_. (Fin 2, Fin 2)), ge_done = Fin 3\<rparr>"

definition demo_gdpr :: gdpr where
  "demo_gdpr = gdpr_step (RecordConsent demo_env ''s'' ANALYTICS True ''ui'' None) (gdpr_init ''n'' ''c'')"

theorem erased_subject_has_no_consent_witness:
  "has_consent (Fin 1) ''s'' ANALYTICS (gd_consents demo_gdpr) \<and>
   \<not> has_consent (Fin 9) ''s'' ANALYTICS (gd_consents (fold gdpr_step
       [RecordConsent demo_env ''s'' MARKETING False ''ui'' None, Access demo_env ''s'']
       (snd (handle_erasure_request demo_env ''s'' (\<lambda>_. Inl ''disk'') demo_gdpr))))"
proof
  show "has_consent (Fin 1) ''s'' ANALYTICS (gd_consents demo_gdpr)"
    by (simp add: demo_gdpr_def gdpr_init_def record_consent_def expiry_of_def subject_consents_def has_consent_iff
        consent_is_valid_def dget_Cons Let_def)
  show "\<not> has_consent (Fin 9) ''s'' ANALYTICS (gd_consents (fold gdpr_step
       [RecordConsent demo_env ''s'' MARKETING False ''ui'' None, Access demo_env ''s'']
       (snd (handle_erasure_request demo_env ''s'' (\<lambda>_. Inl ''disk'') demo_gdpr))))"
    by (rule erased_subject_has_no_consent [OF refl]) (simp_all add: demo_env_def)
qed

lemma is_expired_whole:
  "\<bar>c\<bar> < 2 ^ 52 \<Longrightarrow> \<bar>rp_retention_days p * DAY\<bar> < 2 ^ 52 \<Longrightarrow>
   is_expired (Fin now) (Fin (of_int c)) p = Inr (of_int (c + rp_retention_days p * DAY) < now)"
  using fl_add_ints [of c "rp_retention_days p * DAY"] by (simp add: is_expired_def fl_of_int_exact)

definition demo_data_ops :: "gdpr_op list" where
  "demo_data_ops = [AddPolicy (retention_policy_init ''p'' ''session'' 30 ''contract'' [] True),
     RegisterData (Fin 1) ''session'' ''old'' (Some (Fin (of_int 1))), RegisterData (Fin 1) ''session'' ''new'' (Some (Fin (of_int 3000000)))]"

theorem cleanup_deletes_exactly_witness:
  "\<exists>res rm'. cleanup_expired (\<lambda>_ _. Fin 4000000) (\<lambda>_ _. Inr True)
       (gd_retention (fold gdpr_step demo_data_ops (gdpr_init ''n'' ''c''))) = (Inr res, rm') \<and>
     dget (category_records ''session'' rm') ''old'' = None \<and>
     dget (category_records ''session'' rm') ''new'' = Some (Fin 3000000)"
proof -
  let ?p = "retention_policy_init ''p'' ''session'' 30 ''contract'' [] True"
  let ?rm = "\<lparr>rt_policies = [(''p'', ?p)], rt_data_records = [(''session'', [(''old'', Fin 1), (''new'', Fin 3000000)])]\<rparr>"
  have g: "gd_retention (fold gdpr_step demo_data_ops (gdpr_init ''n'' ''c'')) = ?rm"
    by (simp add: demo_data_ops_def gdpr_init_def retention_init_def add_policy_def register_data_def category_records_def
        retention_policy_init_def dset_Cons dget_Cons fl_eq_iff Let_def)
  have exp: "is_expired (Fin 4000000) (Fin 1) ?p = Inr True" "is_expired (Fin 4000000) (Fin 3000000) ?p = Inr False"
    using is_expired_whole [of 1 ?p 4000000] is_expired_whole [of 3000000 ?p 4000000]
    by (simp_all add: retention_policy_init_def DAY_def)
  have pol: "policy_for ''session'' ?rm = Some ?p" by (simp add: policy_for_def dvalues_def retention_policy_init_def)
  obtain res rm' where c: "cleanup_expired (\<lambda>_ _. Fin 4000000) (\<lambda>_ _. Inr True) ?rm = (Inr res, rm')"
    using pol exp by (simp add: cleanup_expired_def get_expired_data_def category_records_def dget_Cons dvalues_def
        retention_policy_init_def Let_def)
  note thm1 = cleanup_deletes_exactly [OF refl, of "\<lambda>_ _. Fin 4000000" "\<lambda>_ _. Inr True" demo_data_ops "''n''" "''c''" res rm',
      unfolded g, OF c]
  have "dget (category_records ''session'' rm') ''old'' = None" "dget (category_records ''session'' rm') ''new'' = Some (Fin 3000000)"
    unfolding thm1 using pol exp
    by (auto simp: category_records_def dget_Cons get_policies_def dvalues_def retention_policy_init_def)
  then show ?thesis using c unfolding g by blast
qed

theorem access_request_becomes_overdue_witness:
  "''saccess'' \<in> set (map dq_request_id (get_overdue_requests (\<lambda>_. Fin 3000000)
     (gd_rights (fold gdpr_step [Process (Fin 2, Fin 2, Fin 2) ''saccess''] (snd (handle_access_request demo_env ''s'' demo_gdpr))))))"
proof (rule access_request_becomes_overdue [where t = 1, OF refl])
  show "fl_lt (fl_add (Fin 1) (Fin (of_int (30 * DAY)))) (Fin 3000000)"
    using fl_add_ints [of 1 "30 * DAY"] by (simp add: DAY_def)
qed (simp_all add: demo_env_def demo_gdpr_def gdpr_init_def rights_init_def request_id_of_def)

end
