(* ===== verification/Gossip.thy ===== *)
theory Gossip
  imports Dht Float_Arith
begin

text \<open>
  Propagation of manifests: \<^verbatim>\<open>kernel/mesh/gossip.py\<close>, the latency table of \<^verbatim>\<open>mesh/topology.py\<close>, and the
  handler of the DHT that hands announcements to the agent.

  Signing and verifying, the manifest generator, the temperature file, random samples and the transport
  are arguments; callbacks are the events an operation returns. Background tasks are left out. Shown:
  the consensus report is exact, announcements that carry a key are recorded only when their signature
  verifies, and how much the agent remembers.
\<close>

section \<open>Topology\<close>

record topology =
  tp_local_region :: string
  tp_node_region_cache :: "(bytes, string) dict"

definition LATENCY_MATRIX :: "(string, (string, int) dict) dict" where
  "LATENCY_MATRIX =
     [(''US-EAST'', [(''US-EAST'', 5), (''EU-WEST'', 100), (''AP-NORTH'', 200)]),
      (''EU-WEST'', [(''US-EAST'', 100), (''EU-WEST'', 5), (''AP-NORTH'', 250)]),
      (''AP-NORTH'', [(''US-EAST'', 200), (''EU-WEST'', 250), (''AP-NORTH'', 5)])]"

definition topology_init :: "string option \<Rightarrow> topology" where
  "topology_init region_env =
     \<lparr>tp_local_region = (case region_env of None \<Rightarrow> ''UNKNOWN'' | Some r \<Rightarrow> r), tp_node_region_cache = []\<rparr>"

definition tp_register_node :: "bytes \<Rightarrow> string \<Rightarrow> topology \<Rightarrow> unit result \<times> topology" where
  "tp_register_node node_id region tp =
     (if dget LATENCY_MATRIX region = None then (Inl ValueError, tp)
      else (Inr (), tp\<lparr>tp_node_region_cache := dset node_id region (tp_node_region_cache tp)\<rparr>))"

definition get_region_for_id :: "topology \<Rightarrow> bytes \<Rightarrow> string" where
  "get_region_for_id tp node_id =
     (case dget (tp_node_region_cache tp) node_id of None \<Rightarrow> ''US-EAST'' | Some r \<Rightarrow> r)"

definition set_local_region :: "string \<Rightarrow> topology \<Rightarrow> unit result \<times> topology" where
  "set_local_region region tp =
     (if dget LATENCY_MATRIX region = None then (Inl ValueError, tp) else (Inr (), tp\<lparr>tp_local_region := region\<rparr>))"

definition get_latency_between_regions :: "string \<Rightarrow> string \<Rightarrow> int" where
  "get_latency_between_regions a b =
     (case dget (case dget LATENCY_MATRIX a of None \<Rightarrow> [] | Some row \<Rightarrow> row) b of None \<Rightarrow> 0 | Some l \<Rightarrow> l)"

definition get_latency_between_nodes :: "topology \<Rightarrow> bytes \<Rightarrow> bytes \<Rightarrow> int" where
  "get_latency_between_nodes tp a b = get_latency_between_regions (get_region_for_id tp a) (get_region_for_id tp b)"

section \<open>The agent\<close>

definition GOSSIP_INTERVAL :: pyfloat where
  "GOSSIP_INTERVAL = Fin 5"

definition MAX_SEEN_HASHES :: nat where
  "MAX_SEEN_HASHES = 1000"

record manifest_record =
  mf_sender_id :: string
  mf_manifest_hash :: string
  mf_timestamp :: pyfloat
  mf_verified :: bool

record gossip_stats =
  gs_announcements_sent :: nat
  gs_announcements_received :: nat
  gs_unique_manifests_seen :: nat
  gs_verification_failures :: nat

text \<open>The set of seen hashes is a list without repetitions.\<close>

record gossip_agent =
  ga_node_id :: bytes
  ga_public_key :: "bytes option"
  ga_private_key :: "string option"
  ga_local_hash :: "string option"
  ga_received_manifests :: "(string, manifest_record) dict"
  ga_seen_hashes :: "string list"
  ga_stats :: gossip_stats
  ga_running :: bool

definition gossip_init :: "bytes \<Rightarrow> bytes option \<Rightarrow> string option \<Rightarrow> string option \<Rightarrow> gossip_agent" where
  "gossip_init node_id pk sk local_hash =
     \<lparr>ga_node_id = node_id, ga_public_key = pk, ga_private_key = sk, ga_local_hash = local_hash,
      ga_received_manifests = [], ga_seen_hashes = [],
      ga_stats = \<lparr>gs_announcements_sent = 0, gs_announcements_received = 0, gs_unique_manifests_seen = 0,
        gs_verification_failures = 0\<rparr>,
      ga_running = False\<rparr>"

text \<open>The temperature: the integer read from the thermal zone, where it can be read, in thousandths.\<close>

definition get_temperature :: "int option \<Rightarrow> pyfloat" where
  "get_temperature zone =
     (case zone of
        None \<Rightarrow> Fin 25
      | Some milli \<Rightarrow>
          (case bindE (fl_of_int milli) (\<lambda>x. fl_div x (Fin 1000)) of Inl _ \<Rightarrow> Fin 25 | Inr t \<Rightarrow> t))"

definition get_gossip_delay :: "int option \<Rightarrow> pyfloat \<Rightarrow> pyfloat" where
  "get_gossip_delay zone base = (if fl_le (Fin 75) (get_temperature zone) then fl_mul base (Fin 4) else base)"

text \<open>\<open>codebase\<close> is what the manifest generator of the attached codebase returns, if there is one.\<close>

definition local_manifest_hash :: "string option \<Rightarrow> gossip_agent \<Rightarrow> string option \<times> gossip_agent" where
  "local_manifest_hash codebase ga =
     (case ga_local_hash ga of
        Some h \<Rightarrow> (Some h, ga)
      | None \<Rightarrow> (codebase, ga\<lparr>ga_local_hash := codebase\<rparr>))"

definition set_local_hash :: "string \<Rightarrow> gossip_agent \<Rightarrow> gossip_agent" where
  "set_local_hash h ga = ga\<lparr>ga_local_hash := Some h\<rparr>"

record gossip_report =
  gr_stats :: gossip_stats
  gr_peer_count :: nat
  gr_running :: bool
  gr_temperature :: pyfloat

definition gossip_get_stats :: "int option \<Rightarrow> gossip_agent \<Rightarrow> gossip_report" where
  "gossip_get_stats zone ga =
     \<lparr>gr_stats = ga_stats ga, gr_peer_count = length (ga_received_manifests ga), gr_running = ga_running ga,
      gr_temperature = get_temperature zone\<rparr>"

text \<open>Node ids and the ids of contacts are byte strings, so regions are compared by latency.\<close>

definition is_same_region :: "topology \<Rightarrow> gossip_agent \<Rightarrow> contact \<Rightarrow> bool" where
  "is_same_region tp ga c \<longleftrightarrow> get_latency_between_nodes tp (ga_node_id ga) (ct_node_id c) < 50"

definition truthy :: "string option \<Rightarrow> bool" where
  "truthy x \<longleftrightarrow> x \<noteq> None \<and> x \<noteq> Some []"

record manifest_message =
  mm_sender_id :: string
  mm_sender_pk :: "string option"
  mm_manifest_hash :: string
  mm_signature :: "string option"
  mm_timestamp :: pyfloat

definition pk_field :: "bytes option \<Rightarrow> string option" where
  "pk_field pk = (case pk of None \<Rightarrow> None | Some b \<Rightarrow> if b = [] then None else Some (hex_of b))"

definition sign_manifest :: "(string \<Rightarrow> string \<Rightarrow> string result) \<Rightarrow> string \<Rightarrow> gossip_agent \<Rightarrow> string option" where
  "sign_manifest sign h ga =
     (case ga_private_key ga of
        None \<Rightarrow> None
      | Some sk \<Rightarrow> if sk = [] then None else case sign h sk of Inl _ \<Rightarrow> None | Inr s \<Rightarrow> Some s)"

text \<open>
  Whom an announcement goes to: everybody in a flat mesh; in a galaxy all peers of the own region and at
  most three others, which \<open>sample\<close> picks.
\<close>

definition announce_targets ::
  "(contact list \<Rightarrow> contact list) \<Rightarrow> topology option \<Rightarrow> contact list \<Rightarrow> gossip_agent \<Rightarrow> contact list" where
  "announce_targets sample galaxy neighbors ga =
     (case galaxy of
        None \<Rightarrow> neighbors
      | Some tp \<Rightarrow>
          let local_peers = filter (is_same_region tp ga) neighbors;
              remote_peers = filter (\<lambda>c. \<not> is_same_region tp ga c) neighbors
          in local_peers @ (if length remote_peers > 3 then sample remote_peers else remote_peers))"

definition announce_manifest ::
  "(string \<Rightarrow> string \<Rightarrow> string result) \<Rightarrow> (contact list \<Rightarrow> contact list) \<Rightarrow> (contact \<Rightarrow> bool) \<Rightarrow> string option \<Rightarrow> topology option \<Rightarrow>
   contact list \<Rightarrow> pyfloat \<Rightarrow> gossip_agent \<Rightarrow> (contact \<times> manifest_message) list \<times> gossip_agent" where
  "announce_manifest sign sample send codebase galaxy neighbors now ga =
     (let (local_hash, ga1) = local_manifest_hash codebase ga in
      case local_hash of
        None \<Rightarrow> ([], ga1)
      | Some h \<Rightarrow>
          if h = [] \<or> neighbors = [] then ([], ga1)
          else
            let msg = \<lparr>mm_sender_id = hex_of (ga_node_id ga), mm_sender_pk = pk_field (ga_public_key ga),
                  mm_manifest_hash = h, mm_signature = sign_manifest sign h ga, mm_timestamp = now\<rparr>;
                sent = filter send (announce_targets sample galaxy neighbors ga1);
                ga2 = (if length sent > 0
                       then ga1\<lparr>ga_stats := (ga_stats ga1)\<lparr>gs_announcements_sent := gs_announcements_sent (ga_stats ga1) + 1\<rparr>\<rparr>
                       else ga1)
            in (map (\<lambda>c. (c, msg)) sent, ga2))"

text \<open>
  The reflex broadcast asks each bucket for \<open>get_nodes\<close> and then for \<open>nodes\<close>; the buckets of the routing
  table have neither, so it gathers nothing.
\<close>

definition reflex_nodes :: "kbucket \<Rightarrow> contact list" where
  "reflex_nodes b = []"

definition reflex_broadcast :: "(contact \<Rightarrow> bool) \<Rightarrow> 'r routing_table \<Rightarrow> nat" where
  "reflex_broadcast send t =
     (let contacts = concat (map reflex_nodes (rt_buckets t))
      in if contacts = [] then 0 else length (filter send contacts))"

text \<open>An insight goes to all neighbours, and, when critical, by the reflex broadcast first.\<close>

definition announce_insight ::
  "(contact \<Rightarrow> bool) \<Rightarrow> 'r routing_table \<Rightarrow> contact list \<Rightarrow> string \<Rightarrow> nat \<times> nat" where
  "announce_insight send t neighbors priority =
     (length (filter send neighbors), if priority = ''critical'' then reflex_broadcast send t else 0)"

section \<open>Receiving\<close>

datatype gossip_event = Mismatch string string string | Received string string bool

definition add_failure :: "gossip_agent \<Rightarrow> gossip_agent" where
  "add_failure ga = ga\<lparr>ga_stats := (ga_stats ga)\<lparr>gs_verification_failures := gs_verification_failures (ga_stats ga) + 1\<rparr>\<rparr>"

definition record_manifest ::
  "string option \<Rightarrow> string \<Rightarrow> string \<Rightarrow> pyfloat \<Rightarrow> gossip_agent \<Rightarrow> bool \<times> gossip_event list \<times> gossip_agent" where
  "record_manifest codebase sender_id h timestamp ga =
     (let seen = (if length (ga_seen_hashes ga) \<ge> MAX_SEEN_HASHES then [] else ga_seen_hashes ga);
          seen' = (if h \<in> set seen then seen else seen @ [h]);
          ga1 = ga\<lparr>ga_seen_hashes := seen', ga_stats := (ga_stats ga)\<lparr>gs_unique_manifests_seen := length seen'\<rparr>\<rparr>;
          (local_hash, ga2) = local_manifest_hash codebase ga1;
          matches = (if truthy local_hash then local_hash = Some h else True);
          ga3 = ga2\<lparr>ga_received_manifests := dset sender_id
                  \<lparr>mf_sender_id = sender_id, mf_manifest_hash = h, mf_timestamp = timestamp, mf_verified = matches\<rparr>
                  (ga_received_manifests ga2)\<rparr>
      in if matches then (True, [Received sender_id h True], ga3)
         else (False, [Mismatch sender_id h (case local_hash of None \<Rightarrow> [] | Some l \<Rightarrow> l), Received sender_id h False],
               add_failure ga3))"

definition on_receive_manifest ::
  "(string \<Rightarrow> string \<Rightarrow> string \<Rightarrow> bool result) \<Rightarrow> string option \<Rightarrow> string \<Rightarrow> string \<Rightarrow> pyfloat \<Rightarrow> string option \<Rightarrow> string option \<Rightarrow>
   gossip_agent \<Rightarrow> bool \<times> gossip_event list \<times> gossip_agent" where
  "on_receive_manifest verify codebase sender_id h timestamp signature sender_pk ga =
     (let ga0 = ga\<lparr>ga_stats := (ga_stats ga)\<lparr>gs_announcements_received := gs_announcements_received (ga_stats ga) + 1\<rparr>\<rparr> in
      if truthy signature \<and> truthy sender_pk
      then (case verify h (the signature) (the sender_pk) of
              Inl _ \<Rightarrow> (False, [], ga0)
            | Inr False \<Rightarrow> (False, [], add_failure ga0)
            | Inr True \<Rightarrow> record_manifest codebase sender_id h timestamp ga0)
      else if truthy sender_pk then (False, [], ga0)
      else record_manifest codebase sender_id h timestamp ga0)"

text \<open>The handler of the DHT: fields that are absent or null are not in the message; the time is a field of its own.\<close>

definition handle_manifest_announce ::
  "(string \<Rightarrow> string \<Rightarrow> string \<Rightarrow> bool result) \<Rightarrow> string option \<Rightarrow> dht_msg \<Rightarrow> pyfloat option \<Rightarrow> gossip_agent \<Rightarrow>
   gossip_event list \<times> gossip_agent" where
  "handle_manifest_announce verify codebase m ts ga =
     (if mget m ''sender_id'' = [] \<or> mget m ''manifest_hash'' = [] then ([], ga)
      else snd (on_receive_manifest verify codebase (mget m ''sender_id'') (mget m ''manifest_hash'')
             (case ts of None \<Rightarrow> Fin 0 | Some t \<Rightarrow> t) (dget m ''signature'') (dget m ''sender_pk'') ga))"

section \<open>Consensus on the manifest\<close>

record consensus_report =
  cn_has_consensus :: bool
  cn_peer_count :: nat
  cn_majority_hash :: "string option"
  cn_majority_ratio :: "pyfloat option"
  cn_deviants :: "(string \<times> string) list"

definition count_hash :: "string \<Rightarrow> (string, nat) dict \<Rightarrow> (string, nat) dict" where
  "count_hash h counts = dset h ((case dget counts h of None \<Rightarrow> 0 | Some n \<Rightarrow> n) + 1) counts"

definition check_consensus :: "string option \<Rightarrow> gossip_agent \<Rightarrow> consensus_report \<times> gossip_agent" where
  "check_consensus codebase ga =
     (let (local_hash, ga1) = local_manifest_hash codebase ga; records = dvalues (ga_received_manifests ga) in
      if records = []
      then (\<lparr>cn_has_consensus = True, cn_peer_count = 0, cn_majority_hash = local_hash, cn_majority_ratio = None,
             cn_deviants = []\<rparr>, ga1)
      else
        let counts0 = fold (\<lambda>r. count_hash (mf_manifest_hash r)) records [];
            counts = (if truthy local_hash then count_hash (the local_hash) counts0 else counts0);
            best = the (first_best (\<lambda>a b. snd b < snd a) counts);
            majority_hash = fst best; majority_count = snd best;
            total_count = length records + (if truthy local_hash then 1 else 0);
            deviants = map (\<lambda>r. (mf_sender_id r, mf_manifest_hash r)) (filter (\<lambda>r. mf_manifest_hash r \<noteq> majority_hash) records) @
              (if truthy local_hash \<and> the local_hash \<noteq> majority_hash then [(hex_of (ga_node_id ga), the local_hash)] else [])
        in (\<lparr>cn_has_consensus = (majority_count = total_count), cn_peer_count = length records,
             cn_majority_hash = Some majority_hash,
             cn_majority_ratio = Some (fl_of_rat (of_nat majority_count / of_nat total_count)), cn_deviants = deviants\<rparr>, ga1))"

section \<open>Counting\<close>

lemma count_hashes:
  "dict_ok d \<Longrightarrow> dict_ok (fold (\<lambda>r. count_hash (f r)) rs d) \<and>
   dget (fold (\<lambda>r. count_hash (f r)) rs d) h =
     (if h \<in> set (map f rs) then Some ((case dget d h of None \<Rightarrow> 0 | Some n \<Rightarrow> n) + count_list (map f rs) h) else dget d h)"
proof (induction rs arbitrary: d)
  case (Cons r rs)
  have "dict_ok (count_hash (f r) d)" using Cons.prems by (simp add: count_hash_def)
  from Cons.IH [OF this] show ?case by (auto simp: count_hash_def count_list_0_iff)
qed simp

text \<open>The hashes that are counted: those received and, where there is one, the own.\<close>

definition ballots :: "string option \<Rightarrow> gossip_agent \<Rightarrow> string list" where
  "ballots codebase ga =
     map mf_manifest_hash (dvalues (ga_received_manifests ga)) @
     (let l = fst (local_manifest_hash codebase ga) in if truthy l then [the l] else [])"

lemma ballot_counts:
  assumes "counts = (let counts0 = fold (\<lambda>r. count_hash (mf_manifest_hash r)) (dvalues (ga_received_manifests ga)) [];
      l = fst (local_manifest_hash codebase ga) in if truthy l then count_hash (the l) counts0 else counts0)"
  shows "dict_ok counts" and "dget counts h = (if h \<in> set (ballots codebase ga) then Some (count_list (ballots codebase ga) h) else None)"
proof -
  have c1: "counts = fold (\<lambda>r. count_hash r) (ballots codebase ga) []"
    by (simp add: assms ballots_def Let_def fold_map comp_def)
  show "dict_ok counts" "dget counts h = (if h \<in> set (ballots codebase ga) then Some (count_list (ballots codebase ga) h) else None)"
    using count_hashes [of "[]" "\<lambda>x. x" "ballots codebase ga" h] by (simp_all add: c1)
qed

lemma count_list_full: "count_list xs m = length xs \<longleftrightarrow> (\<forall>x\<in>set xs. x = m)"
proof (induction xs)
  case (Cons a xs)
  have "count_list xs m \<le> length xs" by (rule count_le_length)
  with Cons show ?case by auto
qed simp

lemma majority_is_most_frequent:
  assumes "dict_ok counts" "\<And>h. dget counts h = (if h \<in> set xs then Some (count_list xs h) else None)" "xs \<noteq> []"
  obtains m where "first_best (\<lambda>a b. snd b < snd a) counts = Some (m, count_list xs m)" "m \<in> set xs"
    "\<And>h. count_list xs h \<le> count_list xs m"
proof -
  have "counts \<noteq> []" using assms(2,3) by (metis dget_Nil list.set_intros(1) neq_Nil_conv option.distinct(1))
  then obtain b where b: "first_best (\<lambda>a b. snd b < snd a) counts = Some b"
    by (cases "first_best (\<lambda>a b. snd b < snd a) counts") auto
  have "b \<in> set counts" by (rule first_best_in [OF b])
  then have "dget counts (fst b) = Some (snd b)" using dget_in_set [OF assms(1)] by simp
  then have m: "fst b \<in> set xs" "snd b = count_list xs (fst b)" using assms(2) [of "fst b"] by (auto split: if_splits)
  have top: "\<forall>y\<in>set counts. \<not> snd b < snd y" by (rule first_best_best [OF b]) auto
  have "count_list xs h \<le> count_list xs (fst b)" for h
  proof (cases "h \<in> set xs")
    case True
    then have "(h, count_list xs h) \<in> set counts" using assms(2) [of h] dget_in_set [OF assms(1)] by simp
    with top m show ?thesis by auto
  qed (simp add: count_list_0_iff)
  with m b that show thesis by (metis prod.collapse)
qed

lemma check_consensus_report:
  assumes "dvalues (ga_received_manifests ga) \<noteq> []"
  obtains m where "m \<in> set (ballots codebase ga)" "\<forall>h. count_list (ballots codebase ga) h \<le> count_list (ballots codebase ga) m"
    "cn_majority_hash (fst (check_consensus codebase ga)) = Some m"
    "cn_has_consensus (fst (check_consensus codebase ga)) \<longleftrightarrow> count_list (ballots codebase ga) m = length (ballots codebase ga)"
    "cn_deviants (fst (check_consensus codebase ga)) =
       map (\<lambda>r. (mf_sender_id r, mf_manifest_hash r)) (filter (\<lambda>r. mf_manifest_hash r \<noteq> m) (dvalues (ga_received_manifests ga))) @
       (let l = fst (local_manifest_hash codebase ga)
        in if truthy l \<and> the l \<noteq> m then [(hex_of (ga_node_id ga), the l)] else [])"
proof -
  define counts where "counts = (let counts0 = fold (\<lambda>r. count_hash (mf_manifest_hash r)) (dvalues (ga_received_manifests ga)) [];
      l = fst (local_manifest_hash codebase ga) in if truthy l then count_hash (the l) counts0 else counts0)"
  have "ballots codebase ga \<noteq> []" using assms by (simp add: ballots_def)
  from majority_is_most_frequent [OF ballot_counts [OF counts_def] this] obtain m where
    m: "first_best (\<lambda>a b. snd b < snd a) counts = Some (m, count_list (ballots codebase ga) m)" "m \<in> set (ballots codebase ga)"
      "\<And>h. count_list (ballots codebase ga) h \<le> count_list (ballots codebase ga) m" by blast
  have len: "length (ballots codebase ga) = length (dvalues (ga_received_manifests ga)) + (if truthy (fst (local_manifest_hash codebase ga)) then 1 else 0)"
    by (simp add: ballots_def Let_def)
  show thesis
    by (rule that [OF m(2) allI [OF m(3)]]) (use assms m(1) len in \<open>simp_all add: check_consensus_def case_prod_unfold Let_def counts_def\<close>)
qed

section \<open>The agent as a machine\<close>

datatype gossip_op =
    Receive "string option" string string pyfloat "string option" "string option"
  | Announce "string \<Rightarrow> string \<Rightarrow> string result" "contact list \<Rightarrow> contact list" "contact \<Rightarrow> bool" "string option" "topology option"
      "contact list" pyfloat
  | SetHash string
  | CheckConsensus "string option"

fun gossip_step :: "(string \<Rightarrow> string \<Rightarrow> string \<Rightarrow> bool result) \<Rightarrow> gossip_op \<Rightarrow> gossip_agent \<Rightarrow> gossip_agent" where
  "gossip_step verify (Receive codebase s h t sig pk) ga = snd (snd (on_receive_manifest verify codebase s h t sig pk ga))"
| "gossip_step verify (Announce sign sample send codebase galaxy ns now) ga =
     snd (announce_manifest sign sample send codebase galaxy ns now ga)"
| "gossip_step verify (SetHash h) ga = set_local_hash h ga"
| "gossip_step verify (CheckConsensus codebase) ga = snd (check_consensus codebase ga)"

text \<open>When an announcement may be recorded: it carries no key, or its signature verifies under the key.\<close>

definition authentic :: "(string \<Rightarrow> string \<Rightarrow> string \<Rightarrow> bool result) \<Rightarrow> string \<Rightarrow> string option \<Rightarrow> string option \<Rightarrow> bool" where
  "authentic verify h sig pk \<longleftrightarrow> \<not> truthy pk \<or> truthy sig \<and> verify h (the sig) (the pk) = Inr True"

fun accounts_for :: "(string \<Rightarrow> string \<Rightarrow> string \<Rightarrow> bool result) \<Rightarrow> gossip_op \<Rightarrow> manifest_record \<Rightarrow> bool" where
  "accounts_for verify (Receive codebase s h t sig pk) r \<longleftrightarrow>
     mf_sender_id r = s \<and> mf_manifest_hash r = h \<and> mf_timestamp r = t \<and> authentic verify h sig pk"
| "accounts_for verify _ r \<longleftrightarrow> False"

lemma local_hash_keeps [simp]:
  "ga_received_manifests (snd (local_manifest_hash cb ga)) = ga_received_manifests ga"
  "ga_seen_hashes (snd (local_manifest_hash cb ga)) = ga_seen_hashes ga"
  "ga_stats (snd (local_manifest_hash cb ga)) = ga_stats ga"
  "ga_node_id (snd (local_manifest_hash cb ga)) = ga_node_id ga"
  by (auto simp: local_manifest_hash_def split: option.splits)

lemma receive_records:
  "ga_received_manifests (snd (snd (on_receive_manifest verify cb s h t sig pk ga))) =
     (if authentic verify h sig pk
      then dset s \<lparr>mf_sender_id = s, mf_manifest_hash = h, mf_timestamp = t,
             mf_verified = fst (on_receive_manifest verify cb s h t sig pk ga)\<rparr> (ga_received_manifests ga)
      else ga_received_manifests ga)"
  by (auto simp: on_receive_manifest_def record_manifest_def authentic_def add_failure_def case_prod_unfold Let_def
      split: sum.splits bool.splits)

definition seen_ok :: "gossip_agent \<Rightarrow> bool" where
  "seen_ok ga \<longleftrightarrow> distinct (ga_seen_hashes ga) \<and> length (ga_seen_hashes ga) \<le> MAX_SEEN_HASHES \<and>
     gs_unique_manifests_seen (ga_stats ga) = length (ga_seen_hashes ga)"

lemma record_manifest_seen: "seen_ok ga \<Longrightarrow> seen_ok (snd (snd (record_manifest cb s h t ga)))"
  by (auto simp: seen_ok_def record_manifest_def add_failure_def case_prod_unfold Let_def MAX_SEEN_HASHES_def)

lemma receive_seen: "seen_ok ga \<Longrightarrow> seen_ok (snd (snd (on_receive_manifest verify cb s h t sig pk ga)))"
proof -
  assume "seen_ok ga"
  then have "seen_ok (ga\<lparr>ga_stats := (ga_stats ga)\<lparr>gs_announcements_received := n\<rparr>\<rparr>)"
    and "seen_ok (add_failure (ga\<lparr>ga_stats := (ga_stats ga)\<lparr>gs_announcements_received := n\<rparr>\<rparr>))" for n
    by (auto simp: seen_ok_def add_failure_def)
  then show ?thesis
    by (auto simp: on_receive_manifest_def Let_def record_manifest_seen split: sum.splits bool.splits)
qed

lemma announce_keeps [simp]:
  "ga_received_manifests (snd (announce_manifest sign sample send cb galaxy ns now ga)) = ga_received_manifests ga"
  "seen_ok (snd (announce_manifest sign sample send cb galaxy ns now ga)) = seen_ok ga"
  by (auto simp: announce_manifest_def seen_ok_def case_prod_unfold Let_def split: option.splits)

lemma check_keeps [simp]:
  "ga_received_manifests (snd (check_consensus cb ga)) = ga_received_manifests ga"
  "seen_ok (snd (check_consensus cb ga)) = seen_ok ga"
  by (auto simp: check_consensus_def seen_ok_def case_prod_unfold Let_def)

lemma set_hash_keeps [simp]:
  "seen_ok (set_local_hash h ga) = seen_ok ga" "ga_received_manifests (set_local_hash h ga) = ga_received_manifests ga"
  by (simp_all add: set_local_hash_def seen_ok_def)

interpretation seen: machine "gossip_step verify" seen_ok for verify
proof unfold_locales
  show "seen_ok (gossip_step verify x ga)" if "seen_ok ga" for x ga
    using that by (cases x) (simp_all add: receive_seen)
qed

interpretation manifests: guarded_machine "gossip_step verify"
    "\<lambda>ga :: gossip_agent. \<forall>s r. dget (ga_received_manifests ga) s = Some r \<longrightarrow> (\<exists>x\<in>S. accounts_for verify x r \<and> mf_sender_id r = s)"
    "\<lambda>x ga. x \<in> S"
  for verify S
proof unfold_locales
  fix ga :: gossip_agent and x
  assume inv: "\<forall>s r. dget (ga_received_manifests ga) s = Some r \<longrightarrow> (\<exists>x\<in>S. accounts_for verify x r \<and> mf_sender_id r = s)" and "x \<in> S"
  then show "\<forall>s r. dget (ga_received_manifests (gossip_step verify x ga)) s = Some r \<longrightarrow> (\<exists>x\<in>S. accounts_for verify x r \<and> mf_sender_id r = s)"
    by (cases x) (force simp: receive_records split: if_splits)+
qed

lemma guarded_member: "(\<And>x. x \<in> set xs \<Longrightarrow> x \<in> S) \<Longrightarrow> guarded (\<lambda>x s. x \<in> S) step xs s"
  by (induction xs arbitrary: s) auto

section \<open>Properties\<close>

text \<open>
  C20. The consensus report of an agent that has received manifests is exact. The ballots are the sender
  and the hash of every received manifest and, last, the node's own id and hash when it has one. The
  majority hash is one of the hashes of the ballots and none occurs more often; consensus is reported
  exactly when all ballots have that hash; the deviants are exactly the ballots with another one, each
  with its sender.
\<close>
theorem consensus_report_exact:
  assumes "ga_received_manifests ga \<noteq> []" and "rep = fst (check_consensus codebase ga)"
    and "xs = map (\<lambda>r. (mf_sender_id r, mf_manifest_hash r)) (dvalues (ga_received_manifests ga)) @
           (let l = fst (local_manifest_hash codebase ga) in if truthy l then [(hex_of (ga_node_id ga), the l)] else [])"
  shows "\<exists>m. cn_majority_hash rep = Some m \<and> m \<in> snd ` set xs \<and>
    (\<forall>h. count_list (map snd xs) h \<le> count_list (map snd xs) m) \<and>
    (cn_has_consensus rep \<longleftrightarrow> (\<forall>(s, h)\<in>set xs. h = m)) \<and> cn_deviants rep = filter (\<lambda>(s, h). h \<noteq> m) xs"
proof -
  have xs: "map snd xs = ballots codebase ga" by (simp add: assms(3) ballots_def comp_def Let_def)
  have ne: "dvalues (ga_received_manifests ga) \<noteq> []" using assms(1) by (simp add: dvalues_def)
  obtain m where m: "m \<in> set (map snd xs)" "\<forall>h. count_list (map snd xs) h \<le> count_list (map snd xs) m" "cn_majority_hash rep = Some m"
      "cn_has_consensus rep \<longleftrightarrow> count_list (map snd xs) m = length (map snd xs)"
    and d: "cn_deviants rep =
       map (\<lambda>r. (mf_sender_id r, mf_manifest_hash r)) (filter (\<lambda>r. mf_manifest_hash r \<noteq> m) (dvalues (ga_received_manifests ga))) @
       (let l = fst (local_manifest_hash codebase ga)
        in if truthy l \<and> the l \<noteq> m then [(hex_of (ga_node_id ga), the l)] else [])"
    by (rule check_consensus_report [OF ne, of codebase, folded xs assms(2)])
  have "cn_deviants rep = filter (\<lambda>(s, h). h \<noteq> m) xs"
    by (simp add: d assms(3) filter_map comp_def Let_def)
  moreover have "cn_has_consensus rep \<longleftrightarrow> (\<forall>(s, h)\<in>set xs. h = m)"
    using m(4) count_list_full [of "map snd xs" m] by fastforce
  ultimately show ?thesis using m(1-3) by auto
qed

text \<open>
  Every manifest an agent holds for a sender was announced by that sender in some call, and an
  announcement that came with a public key is held only when its signature verifies under that key; an
  announcement without a key is held unverified.
\<close>
theorem keyed_manifests_are_verified:
  assumes "ga = fold (gossip_step verify) ops (gossip_init node_id pk sk local_hash)"
    and "dget (ga_received_manifests ga) s = Some r"
  shows "\<exists>codebase sig spk. Receive codebase s (mf_manifest_hash r) (mf_timestamp r) sig spk \<in> set ops \<and>
    (\<not> truthy spk \<or> truthy sig \<and> verify (mf_manifest_hash r) (the sig) (the spk) = Inr True)"
proof -
  have "\<forall>s r. dget (ga_received_manifests ga) s = Some r \<longrightarrow> (\<exists>x\<in>set ops. accounts_for verify x r \<and> mf_sender_id r = s)"
    unfolding assms(1) by (rule manifests.run_inv) (auto simp: gossip_init_def intro: guarded_member)
  then obtain x where x: "x \<in> set ops" "accounts_for verify x r" "mf_sender_id r = s" using assms(2) by blast
  show ?thesis
  proof (cases x)
    case (Receive cb s' h t sig spk)
    with x show ?thesis by (auto simp: authentic_def)
  qed (use x in simp_all)
qed

text \<open>
  However many announcements arrive, an agent remembers at most a thousand hashes, without
  repetition, and its count of unique manifests is the number it remembers.
\<close>
theorem gossip_memory_bounded:
  "length (ga_seen_hashes (fold (gossip_step verify) ops (gossip_init node_id pk sk local_hash))) \<le> 1000 \<and>
   distinct (ga_seen_hashes (fold (gossip_step verify) ops (gossip_init node_id pk sk local_hash))) \<and>
   gs_unique_manifests_seen (ga_stats (fold (gossip_step verify) ops (gossip_init node_id pk sk local_hash))) =
     length (ga_seen_hashes (fold (gossip_step verify) ops (gossip_init node_id pk sk local_hash)))"
proof -
  have "seen_ok (gossip_init node_id pk sk local_hash)" by (simp add: seen_ok_def gossip_init_def)
  from seen.run_inv [OF this] show ?thesis by (simp add: seen_ok_def MAX_SEEN_HASHES_def)
qed

text \<open>The reflex broadcast reaches nobody, whatever the routing table holds.\<close>

lemma reflex_broadcast_silent: "reflex_broadcast send t = 0"
proof -
  have "concat (map reflex_nodes bs) = []" for bs by (induction bs) (simp_all add: reflex_nodes_def)
  then show ?thesis by (simp add: reflex_broadcast_def)
qed

section \<open>Witnesses\<close>

definition demo_gossip :: gossip_agent where
  "demo_gossip = fold (gossip_step (\<lambda>h sig pk. Inr (sig = pk)))
     [Receive None ''a'' ''h1'' (Fin 1) (Some ''k'') (Some ''k''), Receive None ''b'' ''h2'' (Fin 2) None None,
      Receive None ''c'' ''h1'' (Fin 3) (Some ''k'') (Some ''j'')] (gossip_init [] None None (Some ''h1''))"

lemma demo_gossip_eval:
  "dget (ga_received_manifests demo_gossip) ''a'' \<noteq> None" "ga_received_manifests demo_gossip \<noteq> []"
  "map mf_manifest_hash (dvalues (ga_received_manifests demo_gossip)) = [''h1'', ''h2'']"
  "fst (local_manifest_hash None demo_gossip) = Some ''h1''"
  by (simp_all add: demo_gossip_def gossip_init_def on_receive_manifest_def record_manifest_def add_failure_def truthy_def
      local_manifest_hash_def MAX_SEEN_HASHES_def dset_Cons dget_Cons dvalues_def Let_def)

lemma demo_gossip_senders:
  "map (\<lambda>r. (mf_sender_id r, mf_manifest_hash r)) (dvalues (ga_received_manifests demo_gossip)) = [(''a'', ''h1''), (''b'', ''h2'')]"
  "ga_node_id demo_gossip = []"
  by (simp_all add: demo_gossip_def gossip_init_def on_receive_manifest_def record_manifest_def add_failure_def truthy_def
      local_manifest_hash_def MAX_SEEN_HASHES_def dset_Cons dget_Cons dvalues_def Let_def)

theorem consensus_report_exact_witness:
  "cn_deviants (fst (check_consensus None demo_gossip)) = [(''b'', ''h2'')]"
proof -
  have h: "fst (local_manifest_hash None demo_gossip) = Some ''h1''" by (rule demo_gossip_eval(4))
  obtain m where m: "\<forall>h. count_list [''h1'', ''h2'', ''h1''] h \<le> count_list [''h1'', ''h2'', ''h1''] m"
      "m \<in> {''h1'', ''h2''}"
      "cn_deviants (fst (check_consensus None demo_gossip)) =
         filter (\<lambda>(s, h). h \<noteq> m) [(''a'', ''h1''), (''b'', ''h2''), (hex_of [], ''h1'')]"
    using consensus_report_exact [OF demo_gossip_eval(2) refl refl, of None]
    unfolding demo_gossip_senders h by (auto simp: truthy_def Let_def simp del: count_list.simps filter.simps)
  from m(1) [rule_format, of "''h1''"] m(2) have "m = ''h1''" by auto
  with m(3) show ?thesis by simp
qed

theorem keyed_manifests_are_verified_witness:
  "\<exists>r. dget (ga_received_manifests demo_gossip) ''a'' = Some r \<and> (\<exists>codebase sig spk.
     Receive codebase ''a'' (mf_manifest_hash r) (mf_timestamp r) sig spk \<in>
       {Receive None ''a'' ''h1'' (Fin 1) (Some ''k'') (Some ''k''), Receive None ''b'' ''h2'' (Fin 2) None None,
        Receive None ''c'' ''h1'' (Fin 3) (Some ''k'') (Some ''j'')} \<and> (truthy spk \<longleftrightarrow> spk = sig \<and> truthy sig))"
proof -
  obtain r where r: "dget (ga_received_manifests demo_gossip) ''a'' = Some r" using demo_gossip_eval(1) by blast
  from keyed_manifests_are_verified [OF demo_gossip_def r] r show ?thesis by auto
qed

end
