(* ===== verification/Governance.thy ===== *)
theory Governance
  imports Consensus Credits
begin

text \<open>
  Quadratic governance and the arbiter of conflicting proposals: \<^verbatim>\<open>kernel/ops/governance.py\<close>.

  The engine records a proposal, stages it through the proposal pipeline (\<^verbatim>\<open>kernel/sys/consensus.py\<close>) and
  weighs votes by the square root of the balance that the token manager (\<^verbatim>\<open>kernel/ops/tokenomics.py\<close>) reports.
  Of the parameters of a proposal the two entries the engine reads are fields; the clock and the random
  suffix of an id are arguments. Shown: what a passed proposal had, and how far the weighting limits
  large holders.
\<close>

section \<open>Proposals\<close>

datatype gov_status = GovPending | GovPassed | GovRejected | GovExecuted

record 'v gov_proposal =
  gp_id :: string
  gp_proposer :: string
  gp_action :: string
  gp_target_key :: "string option"
  gp_value :: "'v option"
  gp_votes_for :: pyfloat
  gp_votes_against :: pyfloat
  gp_deadline :: pyfloat
  gp_status :: gov_status

record ('n, 'v) gov_engine =
  gv_proposals :: "(string, 'v gov_proposal) dict"
  gv_voters :: "(string, string list) dict"
  gv_pipeline :: "('n, 'v) pipe_state"

definition governance_init :: "('n, 'v) pipe_state \<Rightarrow> ('n, 'v) gov_engine" where
  "governance_init pipeline = \<lparr>gv_proposals = [], gv_voters = [], gv_pipeline = pipeline\<rparr>"

definition calculate_voting_power :: "pyfloat \<Rightarrow> pyfloat result" where
  "calculate_voting_power stake_amount = (if fl_le stake_amount (Fin 0) then Inr (Fin 0) else fl_sqrt stake_amount)"

definition gov_prop_id :: "rat \<Rightarrow> string \<Rightarrow> string \<Rightarrow> string" where
  "gov_prop_id now proposer uuid_hex = ''PROP-'' @ str_of_int \<lfloor>now\<rfloor> @ ''-'' @ take 4 proposer @ ''-'' @ take 4 uuid_hex"

text \<open>
  The pipeline is given as the function that stages: target, value and id to its answer and new state. When
  it raises, the record stays behind with a deadline of zero.
\<close>

definition submit_proposal ::
  "(string \<Rightarrow> 'v \<Rightarrow> string option \<Rightarrow> ('n, 'v) pipe_state \<Rightarrow> string result \<times> ('n, 'v) pipe_state) \<Rightarrow> 'v \<Rightarrow> rat \<Rightarrow> string \<Rightarrow> pyfloat \<Rightarrow>
   string \<Rightarrow> string \<Rightarrow> string option \<Rightarrow> 'v option \<Rightarrow> pyfloat \<Rightarrow> ('n, 'v) gov_engine \<Rightarrow> string result \<times> ('n, 'v) gov_engine" where
  "submit_proposal stage no_value now uuid_hex staged_at proposer action target_key value duration g =
     (let prop_id = gov_prop_id now proposer uuid_hex;
          p = \<lparr>gp_id = prop_id, gp_proposer = proposer, gp_action = action, gp_target_key = target_key, gp_value = value,
               gp_votes_for = Fin 0, gp_votes_against = Fin 0, gp_deadline = Fin 0, gp_status = GovPending\<rparr>;
          target = (case target_key of None \<Rightarrow> ''governance:'' @ action | Some k \<Rightarrow> k);
          val = (case value of None \<Rightarrow> no_value | Some v \<Rightarrow> v);
          (answer, pipeline) = stage target val (Some prop_id) (gv_pipeline g);
          g1 = g\<lparr>gv_proposals := dset prop_id p (gv_proposals g), gv_pipeline := pipeline\<rparr>
      in case answer of
           Inl e \<Rightarrow> (Inl e, g1)
         | Inr _ \<Rightarrow> (Inr prop_id,
             g1\<lparr>gv_proposals := dset prop_id (p\<lparr>gp_deadline := fl_add staged_at duration\<rparr>) (gv_proposals g1)\<rparr>))"

definition voters_of :: "string \<Rightarrow> ('n, 'v) gov_engine \<Rightarrow> string list" where
  "voters_of prop_id g = (case dget (gv_voters g) prop_id of None \<Rightarrow> [] | Some vs \<Rightarrow> vs)"

definition set_prop :: "string \<Rightarrow> 'v gov_proposal \<Rightarrow> ('n, 'v) gov_engine \<Rightarrow> ('n, 'v) gov_engine" where
  "set_prop prop_id p g = g\<lparr>gv_proposals := dset prop_id p (gv_proposals g)\<rparr>"

definition add_power :: "bool \<Rightarrow> pyfloat \<Rightarrow> 'v gov_proposal \<Rightarrow> 'v gov_proposal" where
  "add_power support weight p =
     (if support then p\<lparr>gp_votes_for := fl_add (gp_votes_for p) weight\<rparr>
      else p\<lparr>gp_votes_against := fl_add (gp_votes_against p) weight\<rparr>)"

definition gov_cast_vote ::
  "pyfloat \<Rightarrow> token_manager \<Rightarrow> string \<Rightarrow> string \<Rightarrow> bool \<Rightarrow> ('n, 'v) gov_engine \<Rightarrow> bool result \<times> ('n, 'v) gov_engine" where
  "gov_cast_vote now tokens voter_id prop_id support g =
     (case dget (gv_proposals g) prop_id of
        None \<Rightarrow> (Inr False, g)
      | Some p \<Rightarrow>
          if gp_status p \<noteq> GovPending then (Inr False, g)
          else if fl_lt (gp_deadline p) now then (Inr False, set_prop prop_id (p\<lparr>gp_status := GovRejected\<rparr>) g)
          else
            let voters = voters_of prop_id g;
                g1 = g\<lparr>gv_voters := dset prop_id voters (gv_voters g)\<rparr>
            in if voter_id \<in> set voters then (Inr False, g1)
               else case bindE (wm_get_balance tokens voter_id) calculate_voting_power of
                 Inl e \<Rightarrow> (Inl e, g1)
               | Inr weight \<Rightarrow>
                   (Inr True, (set_prop prop_id (add_power support weight p) g1)
                                \<lparr>gv_voters := dset prop_id (voters @ [voter_id]) (gv_voters g1)\<rparr>))"

definition tally_and_execute :: "pyfloat \<Rightarrow> string \<Rightarrow> ('n, 'v) gov_engine \<Rightarrow> bool \<times> ('n, 'v) gov_engine" where
  "tally_and_execute now prop_id g =
     (case dget (gv_proposals g) prop_id of
        None \<Rightarrow> (False, g)
      | Some p \<Rightarrow>
          if fl_lt now (gp_deadline p) then (False, g)
          else if fl_lt (gp_votes_against p) (gp_votes_for p) then (True, set_prop prop_id (p\<lparr>gp_status := GovPassed\<rparr>) g)
          else (False, set_prop prop_id (p\<lparr>gp_status := GovRejected\<rparr>) g))"

section \<open>The arbiter\<close>

definition keyword_score :: "string \<Rightarrow> int" where
  "keyword_score action =
     (if str_in ''archive'' action \<or> str_in ''save'' action \<or> str_in ''protect'' action then 10 else 0) +
     (if str_in ''delete'' action \<or> str_in ''destroy'' action \<or> str_in ''purge'' action then - 5 else 0) +
     (if str_in ''optimize'' action \<or> str_in ''improve'' action then 5 else 0)"

definition calculate_ethics_score :: "'v gov_proposal \<Rightarrow> int result" where
  "calculate_ethics_score p =
     bindE (fl_int (fl_sub (gp_votes_for p) (gp_votes_against p))) (\<lambda>v. Inr (keyword_score (py_lower (gp_action p)) + v))"

definition resolve_gov_conflict :: "string \<Rightarrow> string \<Rightarrow> ('n, 'v) gov_engine \<Rightarrow> string result" where
  "resolve_gov_conflict a b g =
     (case (dget (gv_proposals g) a, dget (gv_proposals g) b) of
        (Some pa, Some pb) \<Rightarrow>
          bindE (calculate_ethics_score pa) (\<lambda>sa. bindE (calculate_ethics_score pb) (\<lambda>sb.
            Inr (if sa \<ge> sb then a else b)))
      | _ \<Rightarrow> Inr [])"

section \<open>The engine as a machine\<close>

datatype ('n, 'v) gov_op =
    SubmitGov "string \<Rightarrow> 'v \<Rightarrow> string option \<Rightarrow> ('n, 'v) pipe_state \<Rightarrow> string result \<times> ('n, 'v) pipe_state" 'v rat string pyfloat
      string string "string option" "'v option" pyfloat
  | VoteGov pyfloat token_manager string string bool
  | TallyGov pyfloat string

fun gov_step :: "('n, 'v) gov_op \<Rightarrow> ('n, 'v) gov_engine \<Rightarrow> ('n, 'v) gov_engine" where
  "gov_step (SubmitGov stage nv now u t proposer action k v dur) g = snd (submit_proposal stage nv now u t proposer action k v dur g)"
| "gov_step (VoteGov now tokens voter pid support) g = snd (gov_cast_vote now tokens voter pid support g)"
| "gov_step (TallyGov now pid) g = snd (tally_and_execute now pid g)"

definition gov_ok :: "('n, 'v) gov_engine \<Rightarrow> bool" where
  "gov_ok g \<longleftrightarrow>
     (\<forall>pid p. dget (gv_proposals g) pid = Some p \<longrightarrow> gp_status p = GovPassed \<longrightarrow> fl_lt (gp_votes_against p) (gp_votes_for p)) \<and>
     (\<forall>pid vs. dget (gv_voters g) pid = Some vs \<longrightarrow> distinct vs)"

lemma gov_ok_set_prop:
  "gov_ok g \<Longrightarrow> gp_status p = GovPassed \<longrightarrow> fl_lt (gp_votes_against p) (gp_votes_for p) \<Longrightarrow> gov_ok (set_prop pid p g)"
  by (auto simp: gov_ok_def set_prop_def voters_of_def)

lemma gov_ok_voters:
  "gov_ok g \<Longrightarrow> distinct vs \<Longrightarrow> gov_ok (g\<lparr>gv_voters := dset pid vs (gv_voters g)\<rparr>)"
  by (auto simp: gov_ok_def voters_of_def)

lemma gov_ok_submit: "gov_ok g \<Longrightarrow> gov_ok (snd (submit_proposal stage nv now u t proposer action k v dur g))"
  by (auto simp: gov_ok_def submit_proposal_def voters_of_def case_prod_unfold Let_def split: sum.splits if_splits)

lemma gov_ok_vote: "gov_ok g \<Longrightarrow> gov_ok (snd (gov_cast_vote now tokens voter pid support g))"
proof -
  assume ok: "gov_ok g"
  then have "distinct (voters_of pid g)" by (auto simp: gov_ok_def voters_of_def split: option.splits)
  moreover from ok this have "gov_ok (g\<lparr>gv_voters := dset pid (voters_of pid g) (gv_voters g)\<rparr>)" by (simp add: gov_ok_voters)
  ultimately show ?thesis using ok
    by (auto simp: gov_cast_vote_def Let_def add_power_def gov_ok_def set_prop_def split: option.splits sum.splits if_splits)
qed

lemma gov_ok_tally: "gov_ok g \<Longrightarrow> gov_ok (snd (tally_and_execute now pid g))"
  by (auto simp: tally_and_execute_def intro!: gov_ok_set_prop split: option.splits)

interpretation gov: machine gov_step gov_ok
proof unfold_locales
  show "gov_ok (gov_step x g)" if "gov_ok g" for x and g :: "('n, 'v) gov_engine"
    using that by (cases x) (simp_all add: gov_ok_submit gov_ok_vote gov_ok_tally)
qed

section \<open>What was voted\<close>

text \<open>
  The ballots of each proposal in a run: every vote that was accepted since the proposal was (last)
  submitted, with its voter, its weight and its side, in order. The weight is the voting power of the
  balance the voter had when voting.
\<close>

type_synonym ballot = "string \<times> pyfloat \<times> bool"

fun ballots_after :: "('n, 'v) gov_op \<Rightarrow> ('n, 'v) gov_engine \<Rightarrow> (string \<Rightarrow> ballot list) \<Rightarrow> string \<Rightarrow> ballot list" where
  "ballots_after (SubmitGov stage nv now u t proposer action k v dur) g b = b(gov_prop_id now proposer u := [])"
| "ballots_after (VoteGov now tokens voter pid support) g b =
     (case (fst (gov_cast_vote now tokens voter pid support g), bindE (wm_get_balance tokens voter) calculate_voting_power) of
        (Inr True, Inr w) \<Rightarrow> b(pid := b pid @ [(voter, w, support)])
      | _ \<Rightarrow> b)"
| "ballots_after (TallyGov now pid) g b = b"

fun ballots_of :: "('n, 'v) gov_op list \<Rightarrow> ('n, 'v) gov_engine \<Rightarrow> (string \<Rightarrow> ballot list) \<Rightarrow> string \<Rightarrow> ballot list" where
  "ballots_of [] g b = b"
| "ballots_of (x # xs) g b = ballots_of xs (gov_step x g) (ballots_after x g b)"

text \<open>The weight of one side, added up in double arithmetic in the order of the votes.\<close>

definition side_weight :: "bool \<Rightarrow> ballot list \<Rightarrow> pyfloat" where
  "side_weight s bs = foldl fl_add (Fin 0) (map (\<lambda>(v, w, s'). w) (filter (\<lambda>(v, w, s'). s' = s) bs))"

lemma side_weight_Nil [simp]: "side_weight s [] = Fin 0"
  by (simp add: side_weight_def)

lemma side_weight_snoc:
  "side_weight s (bs @ [(v, w, s')]) = (if s' = s then fl_add (side_weight s bs) w else side_weight s bs)"
  by (simp add: side_weight_def del: fl_add.simps)

definition counts_ballots :: "(string \<Rightarrow> ballot list) \<Rightarrow> ('n, 'v) gov_engine \<Rightarrow> bool" where
  "counts_ballots b g \<longleftrightarrow>
     (\<forall>pid p. dget (gv_proposals g) pid = Some p \<longrightarrow>
        gp_votes_for p = side_weight True (b pid) \<and> gp_votes_against p = side_weight False (b pid)) \<and>
     (\<forall>pid. distinct (map fst (b pid)) \<and> fst ` set (b pid) \<subseteq> set (voters_of pid g))"

lemma voters_of_upd [simp]:
  "voters_of pid (g\<lparr>gv_voters := dset q vs (gv_voters g)\<rparr>) = (if pid = q then vs else voters_of pid g)"
  "voters_of pid (set_prop q p g) = voters_of pid g"
  by (simp_all add: voters_of_def set_prop_def)

lemma counts_ballots_submit:
  assumes "counts_ballots b g"
  shows "counts_ballots (b(gov_prop_id now proposer u := [])) (snd (submit_proposal stage nv now u t proposer action k v dur g))"
proof -
  have "voters_of pid (snd (submit_proposal stage nv now u t proposer action k v dur g)) = voters_of pid g" for pid
    by (simp add: submit_proposal_def voters_of_def case_prod_unfold Let_def split: sum.splits)
  with assms show ?thesis
    by (auto simp: counts_ballots_def submit_proposal_def case_prod_unfold Let_def split: sum.splits if_splits)
qed

lemma counts_ballots_vote:
  assumes ok: "counts_ballots b g"
  shows "counts_ballots (ballots_after (VoteGov now tokens voter pid support) g b) (snd (gov_cast_vote now tokens voter pid support g))"
proof (cases "fst (gov_cast_vote now tokens voter pid support g) = Inr True")
  case True
  then obtain p w where p: "dget (gv_proposals g) pid = Some p" "voter \<notin> set (voters_of pid g)"
      "bindE (wm_get_balance tokens voter) calculate_voting_power = Inr w"
    and g': "snd (gov_cast_vote now tokens voter pid support g) =
      (set_prop pid (add_power support w p) (g\<lparr>gv_voters := dset pid (voters_of pid g) (gv_voters g)\<rparr>))
        \<lparr>gv_voters := dset pid (voters_of pid g @ [voter]) (dset pid (voters_of pid g) (gv_voters g))\<rparr>"
    by (auto simp: gov_cast_vote_def Let_def split: option.splits if_splits sum.splits)
  have b: "ballots_after (VoteGov now tokens voter pid support) g b = b(pid := b pid @ [(voter, w, support)])"
    using True p(3) by simp
  have "voters_of q (snd (gov_cast_vote now tokens voter pid support g)) = (if q = pid then voters_of pid g @ [voter] else voters_of q g)" for q
    unfolding g' by (simp add: voters_of_def set_prop_def)
  note vs = this
  have sub: "fst ` set (b q) \<subseteq> set (voters_of q g)" "distinct (map fst (b q))" for q using ok by (simp_all add: counts_ballots_def)
  then have "voter \<notin> fst ` set (b pid)" using p(2) by blast
  then have "distinct (map fst ((b(pid := b pid @ [(voter, w, support)])) q)) \<and>
      fst ` set ((b(pid := b pid @ [(voter, w, support)])) q) \<subseteq> set (voters_of q (snd (gov_cast_vote now tokens voter pid support g)))" for q
    using sub [of q] unfolding vs by auto
  moreover have "gp_votes_for r = side_weight True ((b(pid := b pid @ [(voter, w, support)])) q) \<and>
      gp_votes_against r = side_weight False ((b(pid := b pid @ [(voter, w, support)])) q)"
    if "dget (gv_proposals (snd (gov_cast_vote now tokens voter pid support g))) q = Some r" for q r
    using that ok p(1) by (auto simp: counts_ballots_def g' set_prop_def add_power_def side_weight_snoc simp del: fl_add.simps split: if_splits)
  ultimately show ?thesis unfolding b counts_ballots_def by blast
next
  case False
  then have b: "ballots_after (VoteGov now tokens voter pid support) g b = b" by (simp split: sum.splits bool.splits)
  from False have "voters_of q (snd (gov_cast_vote now tokens voter pid support g)) = voters_of q g" for q
    by (auto simp: gov_cast_vote_def Let_def split: option.splits if_splits sum.splits)
  with ok False show ?thesis unfolding b
    by (auto simp: counts_ballots_def gov_cast_vote_def set_prop_def Let_def split: option.splits if_splits sum.splits)
qed

lemma counts_ballots_tally: "counts_ballots b g \<Longrightarrow> counts_ballots b (snd (tally_and_execute now pid g))"
  by (auto simp: counts_ballots_def tally_and_execute_def voters_of_def set_prop_def split: option.splits if_splits)

lemma counts_ballots_run: "counts_ballots b g \<Longrightarrow> counts_ballots (ballots_of ops g b) (fold gov_step ops g)"
proof (induction ops arbitrary: g b)
  case (Cons x ops)
  have "counts_ballots (ballots_after x g b) (gov_step x g)"
    using Cons.prems by (cases x) (simp_all only: gov_step.simps ballots_after.simps(1,3) counts_ballots_submit counts_ballots_vote
        counts_ballots_tally)
  from Cons.IH [OF this] show ?case by simp
qed simp

text \<open>Every ballot is a vote that was cast in the run, by that voter, for that proposal and with that weight.\<close>

lemma ballots_of_cast:
  "(v, w, s) \<in> set (ballots_of ops g b pid) \<Longrightarrow> (v, w, s) \<notin> set (b pid) \<Longrightarrow>
   \<exists>now tokens. VoteGov now tokens v pid s \<in> set ops \<and> bindE (wm_get_balance tokens v) calculate_voting_power = Inr w"
proof (induction ops arbitrary: g b)
  case (Cons x ops)
  show ?case
  proof (cases "(v, w, s) \<in> set (ballots_after x g b pid)")
    case True
    then show ?thesis using Cons.prems(2)
      by (cases x) (auto split: sum.splits bool.splits if_splits)
  next
    case False
    then show ?thesis using Cons.IH [of "gov_step x g" "ballots_after x g b"] Cons.prems(1) by auto
  qed
qed simp

section \<open>The weight of a vote\<close>

lemma power_of_square: "s < 2 ^ 53 \<Longrightarrow> calculate_voting_power (Fin (of_nat (s * s))) = Inr (Fin (of_nat s))"
  by (cases "s = 0") (simp_all add: calculate_voting_power_def fl_sqrt_square del: fl_sqrt.simps of_nat_mult)

definition open_for :: "pyfloat \<Rightarrow> string \<Rightarrow> ('n, 'v) gov_engine \<Rightarrow> bool" where
  "open_for now pid g \<longleftrightarrow>
     (case dget (gv_proposals g) pid of None \<Rightarrow> False | Some p \<Rightarrow> gp_status p = GovPending \<and> \<not> fl_lt (gp_deadline p) now)"

definition support_of :: "string \<Rightarrow> ('n, 'v) gov_engine \<Rightarrow> pyfloat" where
  "support_of pid g = (case dget (gv_proposals g) pid of None \<Rightarrow> Fin 0 | Some p \<Rightarrow> gp_votes_for p)"

lemma cast_vote_counts:
  assumes "open_for now pid g" "v \<notin> set (voters_of pid g)" "wm_get_balance tokens v = Inr (Fin (of_nat (s * s)))" "s < 2 ^ 53"
    and "g' = snd (gov_cast_vote now tokens v pid True g)"
  shows "support_of pid g' = fl_add (support_of pid g) (Fin (of_nat s))" "open_for now pid g'" "voters_of pid g' = voters_of pid g @ [v]"
proof -
  obtain p where p: "dget (gv_proposals g) pid = Some p" "gp_status p = GovPending" "\<not> fl_lt (gp_deadline p) now"
    using assms(1) by (auto simp: open_for_def split: option.splits)
  have "bindE (wm_get_balance tokens v) calculate_voting_power = Inr (Fin (of_nat s))"
    by (simp add: assms(3) power_of_square [OF assms(4)] del: of_nat_mult)
  then have g': "g' = (set_prop pid (add_power True (Fin (of_nat s)) p) (g\<lparr>gv_voters := dset pid (voters_of pid g) (gv_voters g)\<rparr>))
      \<lparr>gv_voters := dset pid (voters_of pid g @ [v]) (dset pid (voters_of pid g) (gv_voters g))\<rparr>"
    using p assms(2,5) by (simp add: gov_cast_vote_def Let_def)
  show "support_of pid g' = fl_add (support_of pid g) (Fin (of_nat s))" "open_for now pid g'" "voters_of pid g' = voters_of pid g @ [v]"
    using p by (simp_all add: g' support_of_def open_for_def voters_of_def set_prop_def add_power_def)
qed

lemma add_whole: "a + b < 2 ^ 53 \<Longrightarrow> fl_add (fl_nat a) (fl_nat b) = fl_nat (a + b)"
  using fl_add_ints [of "int a" "int b"] by (simp del: fl_add.simps)

lemma many_votes_count:
  assumes "open_for now pid g" "support_of pid g = fl_nat b" "distinct vs" "set vs \<inter> set (voters_of pid g) = {}"
    and "\<And>v. v \<in> set vs \<Longrightarrow> wm_get_balance tokens v = Inr (Fin (of_nat (s * s)))" "b + length vs * s < 2 ^ 53" "s < 2 ^ 53"
  shows "support_of pid (fold (\<lambda>v g. snd (gov_cast_vote now tokens v pid True g)) vs g) = fl_nat (b + length vs * s)"
  using assms(1-6)
proof (induction vs arbitrary: g b)
  case (Cons v vs)
  let ?g = "snd (gov_cast_vote now tokens v pid True g)"
  have "v \<notin> set (voters_of pid g)" using Cons.prems(4) by auto
  note c = cast_vote_counts [OF Cons.prems(1) this Cons.prems(5) assms(7) refl]
  have sup: "support_of pid ?g = fl_nat (b + s)"
    using c(1) Cons.prems(2,6) add_whole [of b s] by (simp del: fl_add.simps)
  have "support_of pid (fold (\<lambda>v g. snd (gov_cast_vote now tokens v pid True g)) vs ?g) = fl_nat (b + s + length vs * s)"
    by (rule Cons.IH) (use c sup Cons.prems in auto)
  then show ?case by (simp add: add.assoc)
qed simp

section \<open>Properties\<close>

text \<open>
  C21. In every state the engine can reach the two weights of a proposal are the sums, in the order of
  the votes, of the weights of the ballots accepted since it was submitted; each ballot is a vote that
  was cast, weighing the square root of the balance its voter then had; no voter has two ballots on a
  proposal; and a proposal that is recorded as passed has more weight for it than against it.
\<close>
theorem passed_means_majority:
  assumes "g = fold gov_step ops (governance_init pipeline)" and "b = ballots_of ops (governance_init pipeline) (\<lambda>_. []) pid"
    and "dget (gv_proposals g) pid = Some p"
  shows "gp_votes_for p = side_weight True b \<and> gp_votes_against p = side_weight False b \<and> distinct (map fst b) \<and>
    (\<forall>(v, w, s)\<in>set b. \<exists>now tokens. VoteGov now tokens v pid s \<in> set ops \<and>
       bindE (wm_get_balance tokens v) calculate_voting_power = Inr w) \<and>
    (gp_status p = GovPassed \<longrightarrow> fl_lt (side_weight False b) (side_weight True b))"
proof -
  have "counts_ballots (\<lambda>_. []) (governance_init pipeline)" by (simp add: counts_ballots_def governance_init_def)
  from counts_ballots_run [OF this, of ops]
  have c: "gp_votes_for p = side_weight True b" "gp_votes_against p = side_weight False b" "distinct (map fst b)"
    using assms by (simp_all add: counts_ballots_def)
  have "gov_ok (governance_init pipeline)" by (simp add: gov_ok_def governance_init_def voters_of_def)
  from gov.run_inv [OF this] have "gov_ok g" by (simp add: assms(1))
  then have "gp_status p = GovPassed \<longrightarrow> fl_lt (gp_votes_against p) (gp_votes_for p)" using assms(3) by (auto simp: gov_ok_def)
  with c show ?thesis using ballots_of_cast [of _ _ _ ops "governance_init pipeline" "\<lambda>_. []" pid] assms(2) by auto
qed

text \<open>
  The square root does not limit a holder who divides the tokens: a balance of \<open>(m s)^2\<close> gives one
  voter the weight \<open>m s\<close>, and the same number of tokens on \<open>m^2\<close> accounts gives \<open>m\<close> times that weight.
\<close>
theorem split_stake_gains_weight:
  assumes "open_for now pid g" and "support_of pid g = fl_nat b"
    and "w \<notin> set (voters_of pid g)" and "wm_get_balance tokens w = Inr (fl_nat ((m * s) * (m * s)))"
    and "distinct vs" and "length vs = m * m" and "set vs \<inter> set (voters_of pid g) = {}"
    and "\<And>v. v \<in> set vs \<Longrightarrow> wm_get_balance tokens' v = Inr (fl_nat (s * s))"
    and "b + m * (m * s) < 2 ^ 53" and "0 < m"
  shows "support_of pid (snd (gov_cast_vote now tokens w pid True g)) = fl_nat (b + m * s) \<and>
    support_of pid (fold (\<lambda>v g. snd (gov_cast_vote now tokens' v pid True g)) vs g) = fl_nat (b + m * (m * s))"
proof
  have le: "m * s \<le> m * (m * s)" using assms(10) by simp
  have "s \<le> m * s" using assms(10) by simp
  with le have small: "m * s < 2 ^ 53" "b + m * s < 2 ^ 53" "s < 2 ^ 53" using assms(9) by linarith+
  show "support_of pid (snd (gov_cast_vote now tokens w pid True g)) = fl_nat (b + m * s)"
    using cast_vote_counts(1) [OF assms(1,3,4) small(1) refl] assms(2) add_whole [OF small(2)] by (simp del: fl_add.simps)
  show "support_of pid (fold (\<lambda>v g. snd (gov_cast_vote now tokens' v pid True g)) vs g) = fl_nat (b + m * (m * s))"
    using many_votes_count [OF assms(1,2,5,7,8)] assms(6,9) small(3) by (simp add: mult.assoc)
qed

text \<open>
  Votes are weighed by the balance at the moment of voting and nothing is locked: after voting a
  holder can transfer the tokens through the credit manager, which works on the same store, and the
  receiver votes with them again, so that they count twice.
\<close>
theorem moved_stake_votes_twice:
  assumes "open_for now pid g" and "support_of pid g = fl_nat b" and "a \<notin> set (voters_of pid g)" and "c \<notin> set (voters_of pid g)"
    and "wm_store tokens = Some st" and "cr_store credits = Some st" and "sv_native st = None" and "sv_balances st = Some d"
    and "whole_bal d a = int (s * s)" and "whole_bal d c = 0" and "a \<noteq> c" and "s * s < 2 ^ 52" and "b + 2 * s < 2 ^ 53"
  shows "\<exists>credits'. cr_transfer a c (Fin (of_int (int (s * s)))) reason credits = (Inr True, credits') \<and>
    support_of pid (snd (gov_cast_vote now (tokens\<lparr>wm_store := cr_store credits'\<rparr>) c pid True
      (snd (gov_cast_vote now tokens a pid True g)))) = fl_nat (b + 2 * s)"
proof -
  note bal = sv_get_plain [OF assms(7,8)]
  define st' where "st' = sv_update_balance c (int (s * s)) (sv_update_balance a 0 st)"
  define credits' where "credits' = log_credit a c (Fin (of_int (int (s * s)))) reason (credits\<lparr>cr_store := Some st'\<rparr>)"
  have big: "\<bar>int (s * s)\<bar> < 2 ^ 53" using assms(12) by (simp del: of_nat_mult)
  have tr: "cr_transfer a c (Fin (of_int (int (s * s)))) reason credits = (Inr True, credits')"
    using cr_transfer_store [OF assms(6), of "int (s * s)" a c reason] big assms(9,10)
    by (simp add: bal credits'_def st'_def del: of_nat_mult of_int_of_nat_eq)
  have st: "cr_store credits' = Some st'" by (simp add: credits'_def log_credit_def)
  have st'_bal: "sv_get_balance st' c = int (s * s)"
    using assms(7,8) by (simp add: st'_def sv_update_balance_def sv_get_balance_def)
  have "s < 2 ^ 53" using assms(13) by simp
  have w1: "wm_get_balance tokens a = Inr (fl_nat (s * s))"
    using fl_of_int_exact [OF big] by (simp add: wm_get_balance_def assms(5,9) bal del: of_nat_mult)
  have w2: "wm_get_balance (tokens\<lparr>wm_store := cr_store credits'\<rparr>) c = Inr (fl_nat (s * s))"
    using fl_of_int_exact [OF big] by (simp add: wm_get_balance_def st st'_bal del: of_nat_mult)
  note v1 = cast_vote_counts [OF assms(1,3) w1 \<open>s < 2 ^ 53\<close> refl]
  have "c \<notin> set (voters_of pid (snd (gov_cast_vote now tokens a pid True g)))" using v1(3) assms(4,11) by simp
  note v2 = cast_vote_counts(1) [OF v1(2) this w2 \<open>s < 2 ^ 53\<close> refl]
  have "fl_add (fl_add (fl_nat b) (fl_nat s)) (fl_nat s) = fl_nat (b + 2 * s)"
    using add_whole [of b s] add_whole [of "b + s" s] assms(13) by (simp del: fl_add.simps)
  then show ?thesis using tr v1(1) v2 assms(2) by (auto simp del: fl_add.simps)
qed

section \<open>Witnesses\<close>

definition demo_prop :: "nat gov_proposal" where
  "demo_prop = \<lparr>gp_id = ''p'', gp_proposer = ''me'', gp_action = ''save'', gp_target_key = None, gp_value = None,
     gp_votes_for = Fin 0, gp_votes_against = Fin 0, gp_deadline = Fin 10, gp_status = GovPending\<rparr>"

definition demo_gov :: "(unit, nat) pipe_state \<Rightarrow> (unit, nat) gov_engine" where
  "demo_gov pipeline = \<lparr>gv_proposals = [(''p'', demo_prop)], gv_voters = [], gv_pipeline = pipeline\<rparr>"

definition demo_gov_pipe :: "(unit, nat) pipe_state" where
  "demo_gov_pipe = (pipeline_init (\<lambda>_. ()) ''me'' 1 ([], []), spec_init)"

lemma demo_gov_open:
  "open_for (Fin 1) ''p'' (demo_gov demo_gov_pipe)" "support_of ''p'' (demo_gov demo_gov_pipe) = fl_nat 0" "voters_of ''p'' (demo_gov demo_gov_pipe) = []"
  by (simp_all add: open_for_def support_of_def voters_of_def demo_gov_def demo_prop_def dget_Cons)

definition demo_tokens :: "(string, int) dict \<Rightarrow> token_manager" where
  "demo_tokens d = token_manager_init (Some \<lparr>sv_native = None, sv_balances = Some d\<rparr>)"

lemma demo_tokens_balance: "\<bar>whole_bal d n\<bar> < 2 ^ 53 \<Longrightarrow> wm_get_balance (demo_tokens d) n = Inr (Fin (of_int (whole_bal d n)))"
  by (simp add: demo_tokens_def token_manager_init_def wm_get_balance_def sv_get_plain fl_of_int_exact)

theorem passed_means_majority_witness:
  "\<exists>p :: nat gov_proposal. dget (gv_proposals (fold gov_step [SubmitGov (\<lambda>k v i st. (Inr [], st)) 0 0 [] (Fin 0) ''me'' ''save'' None None (Fin 0),
        VoteGov (Fin 0) (demo_tokens [(''a'', 4)]) ''a'' ''PROP-0-me-'' True, VoteGov (Fin 0) (demo_tokens [(''a'', 4)]) ''a'' ''PROP-0-me-'' True,
        TallyGov (Fin 0) ''PROP-0-me-''] (governance_init demo_gov_pipe)))
      ''PROP-0-me-'' = Some p \<and> gp_status p = GovPassed \<and> gp_votes_for p = Fin 2"
proof -
  let ?ops = "[SubmitGov (\<lambda>k v i st. (Inr [], st)) 0 0 [] (Fin 0) ''me'' ''save'' None None (Fin 0),
        VoteGov (Fin 0) (demo_tokens [(''a'', 4)]) ''a'' ''PROP-0-me-'' True, VoteGov (Fin 0) (demo_tokens [(''a'', 4)]) ''a'' ''PROP-0-me-'' True,
        TallyGov (Fin 0) ''PROP-0-me-'']"
  have bal: "bindE (wm_get_balance (demo_tokens [(''a'', 4)]) ''a'') calculate_voting_power = Inr (Fin 2)"
    using demo_tokens_balance [of "[(''a'', 4)]" "''a''"] power_of_square [of 2] by (simp add: whole_bal_def dget_Cons)
  have "char_of (48 :: nat) = CHR ''0''" by code_simp
  then have ids: "gov_prop_id 0 ''me'' [] = ''PROP-0-me-''" by (simp add: gov_prop_id_def str_of_int_def hex_digit_def dec_of_nat.simps)
  have add: "fl_add (Fin 0) (Fin 2) = Fin 2" "fl_add (Fin 0) (Fin 0) = Fin 0" using add_whole [of 0 2] add_whole [of 0 0] by simp_all
  have p: "\<exists>p. dget (gv_proposals (fold gov_step ?ops (governance_init demo_gov_pipe))) ''PROP-0-me-'' = Some p \<and> gp_status p = GovPassed"
    by (simp add: governance_init_def submit_proposal_def gov_cast_vote_def tally_and_execute_def ids bal add add_power_def set_prop_def
        voters_of_def dget_Cons Let_def del: fl_add.simps)
  have b: "ballots_of ?ops (governance_init demo_gov_pipe) (\<lambda>_. []) ''PROP-0-me-'' = [(''a'', Fin 2, True)]"
    by (simp add: governance_init_def submit_proposal_def gov_cast_vote_def tally_and_execute_def ids bal add add_power_def set_prop_def
        voters_of_def dget_Cons Let_def del: fl_add.simps)
  have "side_weight True [(''a'', Fin 2, True)] = Fin 2" by (simp add: side_weight_def add del: fl_add.simps)
  with p passed_means_majority [OF refl refl, of ?ops demo_gov_pipe "''PROP-0-me-''"] show ?thesis unfolding b by auto
qed

theorem split_stake_gains_weight_witness:
  "support_of ''p'' (snd (gov_cast_vote (Fin 1) (demo_tokens [(''w'', 36)]) ''w'' ''p'' True (demo_gov demo_gov_pipe))) = fl_nat 6 \<and>
   support_of ''p'' (fold (\<lambda>v g. snd (gov_cast_vote (Fin 1) (demo_tokens [(''a'', 9), (''b'', 9), (''c'', 9), (''d'', 9)]) v ''p'' True g))
     [''a'', ''b'', ''c'', ''d''] (demo_gov demo_gov_pipe)) = fl_nat 12"
proof -
  have w: "wm_get_balance (demo_tokens [(''w'', 36)]) ''w'' = Inr (fl_nat ((2 * 3) * (2 * 3)))"
    using demo_tokens_balance [of "[(''w'', 36)]" "''w''"] by (simp add: whole_bal_def dget_Cons)
  have v: "wm_get_balance (demo_tokens [(''a'', 9), (''b'', 9), (''c'', 9), (''d'', 9)]) x = Inr (fl_nat (3 * 3))"
    if "x \<in> set [''a'', ''b'', ''c'', ''d'']" for x
    using demo_tokens_balance [of "[(''a'', 9), (''b'', 9), (''c'', 9), (''d'', 9)]" x] that by (auto simp: whole_bal_def dget_Cons)
  from split_stake_gains_weight [OF demo_gov_open(1,2) _ w _ _ _ v, of "[''a'', ''b'', ''c'', ''d'']"] demo_gov_open(3) show ?thesis
    by (simp del: fold_simps)
qed

theorem moved_stake_votes_twice_witness:
  "\<exists>credits'. cr_transfer ''a'' ''c'' (Fin (of_int (int (3 * 3)))) ''gift'' \<lparr>cr_node_id = ''a'',
      cr_store = Some \<lparr>sv_native = None, sv_balances = Some [(''a'', 9)]\<rparr>, cr_balances = [], cr_transactions = []\<rparr> = (Inr True, credits') \<and>
    support_of ''p'' (snd (gov_cast_vote (Fin 1) ((demo_tokens [(''a'', 9)])\<lparr>wm_store := cr_store credits'\<rparr>) ''c'' ''p'' True
      (snd (gov_cast_vote (Fin 1) (demo_tokens [(''a'', 9)]) ''a'' ''p'' True (demo_gov demo_gov_pipe))))) = fl_nat (0 + 2 * 3)"
  by (rule moved_stake_votes_twice [OF demo_gov_open(1,2), where st = "\<lparr>sv_native = None, sv_balances = Some [(''a'', 9)]\<rparr>"
        and d = "[(''a'', 9)]"])
    (simp_all add: demo_gov_open demo_tokens_def token_manager_init_def whole_bal_def dget_Cons)

end
