(* ===== verification/Format.thy ===== *)
theory Format
  imports Float_Arith Text
begin

text \<open>
  Numbers as the reports compute and print them: fixed-point formats, and the quotient of two counters with
  the guard the code puts around it.
\<close>

text \<open>\<open>f'{x:.nf}'\<close>.\<close>

fun fmt_fixed :: "nat \<Rightarrow> pyfloat \<Rightarrow> string" where
  "fmt_fixed n (Fin r) =
     (let m = nat (round_even (\<bar>r\<bar> * 10 ^ n)) in
      (if r < 0 then ''-'' else []) @ dec_of_nat (m div 10 ^ n) @
      (if n = 0 then [] else ''.'' @ zero_pad n (dec_of_nat (m mod 10 ^ n))))"
| "fmt_fixed n PosInf = ''inf''"
| "fmt_fixed n NegInf = ''-inf''"
| "fmt_fixed n NaN = ''nan''"

text \<open>\<open>a / b if b > 0 else 0.0\<close>: the quotient of two integers is rounded once.\<close>

definition int_ratio :: "nat \<Rightarrow> nat \<Rightarrow> pyfloat" where
  "int_ratio a b = (if b > 0 then fl_of_rat (of_nat a / of_nat b) else Fin 0)"

lemma int_ratio_range: "a \<le> b \<Longrightarrow> \<exists>r. int_ratio a b = Fin r \<and> 0 \<le> r \<and> r \<le> 1"
proof (cases "b = 0")
  case False
  assume "a \<le> b"
  with False have q: "0 \<le> (of_nat a / of_nat b :: rat)" "(of_nat a / of_nat b :: rat) \<le> 1"
    by (simp_all add: divide_le_eq)
  with fl_round_mono [OF q(1)] fl_round_mono [OF q(2)] fl_round_of_int [of 1]
  have r: "0 \<le> fl_round (of_nat a / of_nat b)" "fl_round (of_nat a / of_nat b) \<le> 1" by simp_all
  then show ?thesis using False by (auto simp: int_ratio_def fl_of_rat_def)
qed (simp add: int_ratio_def)

end
