(* ===== verification/Hipaa.thy ===== *)
theory Hipaa
  imports Format
begin

text \<open>
  Health data: \<^verbatim>\<open>compliance/hipaa.py\<close>.

  Access to protected records under role policies with its log, the registry of safeguards, business
  associates, breaches and risk analyses, and the compliance report in double arithmetic. Clocks,
  generated identifiers and the hash of the data are arguments. Shown: the log accounts for every access,
  and sensitive records are opened for treatment or with an authorization only.
\<close>

section \<open>Enumerations and records\<close>

datatype phi_category = DEMOGRAPHIC | MEDICAL | PAYMENT_DATA | GENETIC | PSYCHOTHERAPY | SUBSTANCE_ABUSE

fun phi_category_value :: "phi_category \<Rightarrow> string" where
  "phi_category_value DEMOGRAPHIC = ''demographic''"
| "phi_category_value MEDICAL = ''medical''"
| "phi_category_value PAYMENT_DATA = ''payment''"
| "phi_category_value GENETIC = ''genetic''"
| "phi_category_value PSYCHOTHERAPY = ''psychotherapy''"
| "phi_category_value SUBSTANCE_ABUSE = ''substance_abuse''"

datatype disclosure_type =
  TREATMENT | PAYMENT | HEALTHCARE_OPERATIONS | AUTHORIZATION | REQUIRED_BY_LAW | PUBLIC_HEALTH | RESEARCH | LIMITED_DATA_SET

datatype safeguard_type = ADMINISTRATIVE | PHYSICAL | TECHNICAL

datatype breach_severity = LOW | MEDIUM | HIGH | CRITICAL

record phi_record =
  ph_record_id :: string
  ph_patient_id :: string
  ph_category :: phi_category
  ph_data_hash :: string
  ph_created_at :: datetime
  ph_last_accessed :: "datetime option"
  ph_access_count :: nat
  ph_encryption_key_id :: "string option"
  ph_retention_policy :: string

record phi_access_log =
  pl_log_id :: string
  pl_record_id :: string
  pl_user_id :: string
  pl_action :: string
  pl_purpose :: disclosure_type
  pl_minimum_necessary_verified :: bool
  pl_timestamp :: datetime
  pl_ip_address :: string
  pl_success :: bool
  pl_denial_reason :: "string option"

record business_associate =
  ba_id :: string
  ba_organization_name :: string
  ba_contact_email :: string
  ba_agreement_date :: datetime
  ba_expiration_date :: "datetime option"
  ba_services_provided :: "string list"
  ba_phi_access_level :: string
  ba_last_audit_date :: "datetime option"
  ba_is_active :: bool
  ba_subcontractors :: "string list"

record security_safeguard =
  sg_safeguard_id :: string
  sg_name :: string
  sg_safeguard_type :: safeguard_type
  sg_description :: string
  sg_implementation_status :: string
  sg_required :: bool
  sg_last_review_date :: "datetime option"
  sg_evidence_location :: string
  sg_responsible_party :: string

record breach_incident =
  bi_incident_id :: string
  bi_discovered_date :: datetime
  bi_occurred_date :: "datetime option"
  bi_severity :: breach_severity
  bi_description :: string
  bi_phi_categories_affected :: "phi_category list"
  bi_individuals_affected :: int
  bi_notification_required :: bool
  bi_notification_sent_date :: "datetime option"
  bi_hhs_notified :: bool
  bi_root_cause :: string
  bi_remediation_steps :: "string list"
  bi_status :: string

record mitigation =
  mt_risk_item :: string
  mt_plan :: string
  mt_responsible_party :: string
  mt_target_date :: "datetime option"
  mt_status :: string

record risk_analysis =
  ra_analysis_id :: string
  ra_conducted_date :: datetime
  ra_conducted_by :: string
  ra_scope :: string
  ra_threats_identified :: "string list"
  ra_vulnerabilities_found :: "string list"
  ra_risk_level :: string
  ra_mitigations :: "mitigation list option"
  ra_next_review_date :: "datetime option"

text \<open>A date and a number of days; dates after the year 9999 or before the year 1 raise.\<close>

definition add_days :: "datetime \<Rightarrow> int \<Rightarrow> datetime result" where
  "add_days now days =
     (let t = now + days * 86400000000
      in if - 62135596800000000 \<le> t \<and> t < 253402300800000000 then Inr t else Inl OverflowError)"

section \<open>Records and access\<close>

record phi_handler =
  pd_records :: "(string, phi_record) dict"
  pd_access_logs :: "phi_access_log list"
  pd_access_policies :: "(string, phi_category list) dict"

definition phi_init :: phi_handler where
  "phi_init = \<lparr>pd_records = [], pd_access_logs = [], pd_access_policies = []\<rparr>"

definition register_phi ::
  "string \<Rightarrow> datetime \<Rightarrow> string \<Rightarrow> string \<Rightarrow> phi_category \<Rightarrow> string option \<Rightarrow> phi_handler \<Rightarrow> phi_record \<times> phi_handler" where
  "register_phi uuid now data_hash patient_id category key_id h =
     (let r = \<lparr>ph_record_id = uuid, ph_patient_id = patient_id, ph_category = category, ph_data_hash = data_hash,
            ph_created_at = now, ph_last_accessed = None, ph_access_count = 0, ph_encryption_key_id = key_id,
            ph_retention_policy = ''standard''\<rparr>
      in (r, h\<lparr>pd_records := dset uuid r (pd_records h)\<rparr>))"

definition set_access_policy :: "string \<Rightarrow> phi_category list \<Rightarrow> phi_handler \<Rightarrow> phi_handler" where
  "set_access_policy role categories h = h\<lparr>pd_access_policies := dset role categories (pd_access_policies h)\<rparr>"

definition sensitive :: "phi_category \<Rightarrow> bool" where
  "sensitive c \<longleftrightarrow> c \<in> {GENETIC, PSYCHOTHERAPY, SUBSTANCE_ABUSE}"

definition check_access :: "string \<Rightarrow> string \<Rightarrow> disclosure_type \<Rightarrow> phi_handler \<Rightarrow> bool \<times> string option" where
  "check_access role record_id purpose h =
     (case dget (pd_records h) record_id of
        None \<Rightarrow> (False, Some ''Record not found'')
      | Some r \<Rightarrow>
          let allowed = (case dget (pd_access_policies h) role of None \<Rightarrow> [] | Some cs \<Rightarrow> cs) in
          if ph_category r \<notin> set allowed
          then (False, Some (''Role '' @ [CHR 0x27] @ role @ [CHR 0x27] @ '' not authorized for '' @ phi_category_value (ph_category r) @ '' PHI''))
          else if sensitive (ph_category r) \<and> purpose \<notin> {TREATMENT, AUTHORIZATION}
          then (False, Some (''Enhanced protection: '' @ phi_category_value (ph_category r) @ '' requires specific authorization''))
          else (True, None))"

definition access_phi ::
  "string \<Rightarrow> datetime \<Rightarrow> datetime \<Rightarrow> string \<Rightarrow> string \<Rightarrow> string \<Rightarrow> string \<Rightarrow> disclosure_type \<Rightarrow> string \<Rightarrow> phi_handler \<Rightarrow>
   phi_access_log \<times> phi_handler" where
  "access_phi uuid logged_at now user_id role record_id action purpose ip h =
     (let (allowed, reason) = check_access role record_id purpose h;
          entry = \<lparr>pl_log_id = uuid, pl_record_id = record_id, pl_user_id = user_id, pl_action = action, pl_purpose = purpose,
                pl_minimum_necessary_verified = allowed, pl_timestamp = logged_at, pl_ip_address = ip, pl_success = allowed,
                pl_denial_reason = reason\<rparr>;
          h1 = h\<lparr>pd_access_logs := pd_access_logs h @ [entry]\<rparr>
      in (entry,
          if \<not> allowed then h1
          else case dget (pd_records h) record_id of
            None \<Rightarrow> h1
          | Some r \<Rightarrow> h1\<lparr>pd_records := dset record_id
              (r\<lparr>ph_last_accessed := Some now, ph_access_count := ph_access_count r + 1\<rparr>) (pd_records h)\<rparr>))"

definition get_access_history :: "string option \<Rightarrow> string option \<Rightarrow> datetime option \<Rightarrow> phi_handler \<Rightarrow> phi_access_log list" where
  "get_access_history record_id user_id since h =
     (let by_record = (\<lambda>l. case record_id of None \<Rightarrow> True | Some r \<Rightarrow> r = [] \<or> pl_record_id l = r);
          by_user = (\<lambda>l. case user_id of None \<Rightarrow> True | Some u \<Rightarrow> u = [] \<or> pl_user_id l = u);
          by_time = (\<lambda>l. case since of None \<Rightarrow> True | Some t \<Rightarrow> t \<le> pl_timestamp l)
      in filter by_time (filter by_user (filter by_record (pd_access_logs h))))"

section \<open>Safeguards\<close>

type_synonym safeguards = "(string, security_safeguard) dict"

definition add_safeguard :: "string \<Rightarrow> string \<Rightarrow> safeguard_type \<Rightarrow> string \<Rightarrow> bool \<Rightarrow> string \<Rightarrow> safeguards \<Rightarrow> safeguards" where
  "add_safeguard uuid name stype description required party d =
     dset uuid \<lparr>sg_safeguard_id = uuid, sg_name = name, sg_safeguard_type = stype, sg_description = description,
       sg_implementation_status = ''planned'', sg_required = required, sg_last_review_date = None,
       sg_evidence_location = [], sg_responsible_party = party\<rparr> d"

definition required_safeguards :: "(string \<times> safeguard_type \<times> string) list" where
  "required_safeguards =
     [(''risk_analysis'', ADMINISTRATIVE, ''Conduct accurate and thorough risk analysis''),
      (''risk_management'', ADMINISTRATIVE, ''Implement security measures to reduce risks''),
      (''sanction_policy'', ADMINISTRATIVE, ''Apply sanctions against violating workforce members''),
      (''information_system_activity_review'', ADMINISTRATIVE, ''Regularly review system activity''),
      (''workforce_security'', ADMINISTRATIVE, ''Implement policies for workforce access''),
      (''security_awareness_training'', ADMINISTRATIVE, ''Implement security awareness program''),
      (''contingency_plan'', ADMINISTRATIVE, ''Establish contingency plan for emergencies''),
      (''facility_access_controls'', PHYSICAL, ''Limit physical access to facilities''),
      (''workstation_use'', PHYSICAL, ''Implement policies for workstation use''),
      (''workstation_security'', PHYSICAL, ''Implement physical safeguards for workstations''),
      (''device_media_controls'', PHYSICAL, ''Control receipt/removal of hardware and media''),
      (''access_control'', TECHNICAL, ''Allow access only to authorized persons''),
      (''audit_controls'', TECHNICAL, ''Implement hardware/software audit mechanisms''),
      (''integrity_controls'', TECHNICAL, ''Protect ePHI from improper alteration''),
      (''transmission_security'', TECHNICAL, ''Guard against unauthorized access during transmission'')]"

text \<open>\<open>uuids\<close> gives the identifier of each safeguard by its position.\<close>

definition safeguards_init :: "(nat \<Rightarrow> string) \<Rightarrow> safeguards" where
  "safeguards_init uuids =
     fold (\<lambda>(i, n, t, desc). add_safeguard (uuids i) n t desc True []) (zip [0..<length required_safeguards] required_safeguards) []"

definition hp_update_status :: "datetime \<Rightarrow> string \<Rightarrow> string \<Rightarrow> string \<Rightarrow> safeguards \<Rightarrow> bool \<times> safeguards" where
  "hp_update_status now safeguard_id status evidence d =
     (case dget d safeguard_id of
        None \<Rightarrow> (False, d)
      | Some s \<Rightarrow>
          let s1 = s\<lparr>sg_implementation_status := status\<rparr>;
              s2 = (if evidence = [] then s1 else s1\<lparr>sg_evidence_location := evidence\<rparr>)
          in (True, dset safeguard_id (s2\<lparr>sg_last_review_date := Some now\<rparr>) d))"

definition get_by_type :: "safeguard_type \<Rightarrow> safeguards \<Rightarrow> security_safeguard list" where
  "get_by_type t d = filter (\<lambda>s. sg_safeguard_type s = t) (dvalues d)"

definition in_place :: "security_safeguard \<Rightarrow> bool" where
  "in_place s \<longleftrightarrow> sg_implementation_status s \<in> {''implemented'', ''verified''}"

record safeguards_status =
  ss_total :: nat
  ss_implemented :: nat
  ss_verified :: nat
  ss_required_compliance :: pyfloat
  ss_overall_score :: pyfloat
  ss_by_type :: "(safeguard_type, nat \<times> nat) dict"

definition hp_compliance_status :: "safeguards \<Rightarrow> safeguards_status" where
  "hp_compliance_status d =
     (let implemented = dcount (\<lambda>s. sg_implementation_status s = ''implemented'') d;
          verified = dcount (\<lambda>s. sg_implementation_status s = ''verified'') d
      in \<lparr>ss_total = length d, ss_implemented = implemented, ss_verified = verified,
          ss_required_compliance = int_ratio (dcount (\<lambda>s. sg_required s \<and> in_place s) d) (dcount sg_required d),
          ss_overall_score = int_ratio (implemented + verified) (length d),
          ss_by_type = map (\<lambda>t. (t, length (get_by_type t d), length (filter in_place (get_by_type t d)))) [ADMINISTRATIVE, PHYSICAL, TECHNICAL]\<rparr>)"

section \<open>Business associates\<close>

type_synonym associates = "(string, business_associate) dict"

definition register_associate ::
  "string \<Rightarrow> datetime \<Rightarrow> datetime \<Rightarrow> string \<Rightarrow> string \<Rightarrow> string list \<Rightarrow> string \<Rightarrow> int \<Rightarrow> associates \<Rightarrow>
   business_associate result \<times> associates" where
  "register_associate uuid now agreed_at name email services level days d =
     (case add_days now days of
        Inl e \<Rightarrow> (Inl e, d)
      | Inr expires \<Rightarrow>
          let ba = \<lparr>ba_id = uuid, ba_organization_name = name, ba_contact_email = email, ba_agreement_date = agreed_at,
                ba_expiration_date = Some expires, ba_services_provided = services, ba_phi_access_level = level,
                ba_last_audit_date = None, ba_is_active = True, ba_subcontractors = []\<rparr>
          in (Inr ba, dset uuid ba d))"

definition upd_associate :: "string \<Rightarrow> (business_associate \<Rightarrow> business_associate) \<Rightarrow> associates \<Rightarrow> bool \<times> associates" where
  "upd_associate i f d = (case dget d i of None \<Rightarrow> (False, d) | Some ba \<Rightarrow> (True, dset i (f ba) d))"

definition add_subcontractor :: "string \<Rightarrow> string \<Rightarrow> associates \<Rightarrow> bool \<times> associates" where
  "add_subcontractor i name = upd_associate i (\<lambda>ba. ba\<lparr>ba_subcontractors := ba_subcontractors ba @ [name]\<rparr>)"

definition record_audit :: "datetime \<Rightarrow> string \<Rightarrow> associates \<Rightarrow> bool \<times> associates" where
  "record_audit now i = upd_associate i (\<lambda>ba. ba\<lparr>ba_last_audit_date := Some now\<rparr>)"

definition deactivate :: "string \<Rightarrow> associates \<Rightarrow> bool \<times> associates" where
  "deactivate i = upd_associate i (\<lambda>ba. ba\<lparr>ba_is_active := False\<rparr>)"

definition check_expiring :: "datetime \<Rightarrow> int \<Rightarrow> associates \<Rightarrow> business_associate list result" where
  "check_expiring now within_days d =
     bindE (add_days now within_days) (\<lambda>threshold.
       Inr (filter (\<lambda>ba. ba_is_active ba \<and> (case ba_expiration_date ba of None \<Rightarrow> False | Some e \<Rightarrow> e \<le> threshold)) (dvalues d)))"

definition get_phi_access_summary :: "associates \<Rightarrow> string list \<times> string list \<times> string list" where
  "get_phi_access_summary d =
     (let names = (\<lambda>level. map ba_organization_name (filter (\<lambda>ba. ba_is_active ba \<and> ba_phi_access_level ba = level) (dvalues d)))
      in (names ''full'', names ''limited'', names ''none''))"

section \<open>Breaches\<close>

type_synonym incidents = "(string, breach_incident) dict"

definition HHS_NOTIFICATION_THRESHOLD :: int where
  "HHS_NOTIFICATION_THRESHOLD = 500"

definition assess_severity :: "phi_category list \<Rightarrow> int \<Rightarrow> breach_severity" where
  "assess_severity categories individuals =
     (if individuals \<ge> 500 \<or> (\<exists>c\<in>set categories. sensitive c) then CRITICAL
      else if individuals \<ge> 100 then HIGH
      else if individuals \<ge> 10 then MEDIUM
      else LOW)"

definition is_notification_required :: "phi_category list \<Rightarrow> int \<Rightarrow> bool" where
  "is_notification_required categories individuals \<longleftrightarrow> individuals > 0 \<and> length categories > 0"

definition report_breach ::
  "string \<Rightarrow> datetime \<Rightarrow> string \<Rightarrow> phi_category list \<Rightarrow> int \<Rightarrow> breach_severity option \<Rightarrow> datetime option \<Rightarrow> incidents \<Rightarrow>
   breach_incident \<times> incidents" where
  "report_breach uuid now description categories individuals severity occurred d =
     (let i = \<lparr>bi_incident_id = uuid, bi_discovered_date = now, bi_occurred_date = occurred,
            bi_severity = (case severity of None \<Rightarrow> assess_severity categories individuals | Some s \<Rightarrow> s),
            bi_description = description, bi_phi_categories_affected = categories, bi_individuals_affected = individuals,
            bi_notification_required = is_notification_required categories individuals, bi_notification_sent_date = None,
            bi_hhs_notified = False, bi_root_cause = [], bi_remediation_steps = [], bi_status = ''open''\<rparr>
      in (i, dset uuid i d))"

datatype notification = IncidentNotFound | NotRequired | Notified bool

definition send_notifications :: "datetime \<Rightarrow> string \<Rightarrow> incidents \<Rightarrow> notification \<times> incidents" where
  "send_notifications now incident_id d =
     (case dget d incident_id of
        None \<Rightarrow> (IncidentNotFound, d)
      | Some i \<Rightarrow>
          if \<not> bi_notification_required i then (NotRequired, d)
          else
            let large = (bi_individuals_affected i \<ge> HHS_NOTIFICATION_THRESHOLD);
                i1 = i\<lparr>bi_notification_sent_date := Some now\<rparr>
            in (Notified large, dset incident_id (if large then i1\<lparr>bi_hhs_notified := True\<rparr> else i1) d))"

definition resolve_incident :: "string \<Rightarrow> string \<Rightarrow> string list \<Rightarrow> incidents \<Rightarrow> bool \<times> incidents" where
  "resolve_incident incident_id root_cause steps d =
     (case dget d incident_id of
        None \<Rightarrow> (False, d)
      | Some i \<Rightarrow> (True, dset incident_id (i\<lparr>bi_root_cause := root_cause, bi_remediation_steps := steps, bi_status := ''resolved''\<rparr>) d))"

record breach_metrics =
  bm_total :: nat
  bm_open :: nat
  bm_resolved :: nat
  bm_individuals :: int
  bm_by_severity :: "(breach_severity, nat) dict"
  bm_hhs_reported :: nat

definition breach_get_metrics :: "incidents \<Rightarrow> breach_metrics" where
  "breach_get_metrics d =
     (let open_incidents = dcount (\<lambda>i. bi_status i \<noteq> ''resolved'') d
      in \<lparr>bm_total = length d, bm_open = open_incidents, bm_resolved = length d - open_incidents,
          bm_individuals = dsum bi_individuals_affected d,
          bm_by_severity = map (\<lambda>s. (s, dcount (\<lambda>i. bi_severity i = s) d)) [LOW, MEDIUM, HIGH, CRITICAL],
          bm_hhs_reported = dcount bi_hhs_notified d\<rparr>)"

section \<open>Risk analyses\<close>

type_synonym analyses = "(string, risk_analysis) dict"

definition conduct_analysis ::
  "string \<Rightarrow> datetime \<Rightarrow> datetime \<Rightarrow> string \<Rightarrow> string \<Rightarrow> string list \<Rightarrow> string list \<Rightarrow> string \<Rightarrow> int \<Rightarrow> analyses \<Rightarrow>
   risk_analysis result \<times> analyses" where
  "conduct_analysis uuid now conducted_at by_whom scope threats vulnerabilities level days d =
     (case add_days now days of
        Inl e \<Rightarrow> (Inl e, d)
      | Inr review \<Rightarrow>
          let a = \<lparr>ra_analysis_id = uuid, ra_conducted_date = conducted_at, ra_conducted_by = by_whom, ra_scope = scope,
                ra_threats_identified = threats, ra_vulnerabilities_found = vulnerabilities, ra_risk_level = level,
                ra_mitigations = None, ra_next_review_date = Some review\<rparr>
          in (Inr a, dset uuid a d))"

definition add_mitigation :: "string \<Rightarrow> string \<Rightarrow> string \<Rightarrow> string \<Rightarrow> datetime option \<Rightarrow> analyses \<Rightarrow> bool \<times> analyses" where
  "add_mitigation analysis_id item plan party target d =
     (case dget d analysis_id of
        None \<Rightarrow> (False, d)
      | Some a \<Rightarrow>
          let old = (case ra_mitigations a of None \<Rightarrow> [] | Some ms \<Rightarrow> ms);
              m = \<lparr>mt_risk_item = item, mt_plan = plan, mt_responsible_party = party, mt_target_date = target, mt_status = ''planned''\<rparr>
          in (True, dset analysis_id (a\<lparr>ra_mitigations := Some (old @ [m])\<rparr>) d))"

definition get_overdue_reviews :: "datetime \<Rightarrow> analyses \<Rightarrow> risk_analysis list" where
  "get_overdue_reviews now d =
     filter (\<lambda>a. case ra_next_review_date a of None \<Rightarrow> False | Some t \<Rightarrow> t \<le> now) (dvalues d)"

definition get_high_risk_items :: "analyses \<Rightarrow> risk_analysis list" where
  "get_high_risk_items d = filter (\<lambda>a. ra_risk_level a \<in> {''high'', ''critical''}) (dvalues d)"

section \<open>The manager\<close>

record hipaa =
  hp_organization_name :: string
  hp_phi :: phi_handler
  hp_safeguards :: safeguards
  hp_associates :: associates
  hp_incidents :: incidents
  hp_analyses :: analyses
  hp_initialized :: bool
  hp_compliance_officer :: "string option"

definition hipaa_init :: "(nat \<Rightarrow> string) \<Rightarrow> string \<Rightarrow> hipaa" where
  "hipaa_init uuids name =
     \<lparr>hp_organization_name = name, hp_phi = phi_init, hp_safeguards = safeguards_init uuids, hp_associates = [],
      hp_incidents = [], hp_analyses = [], hp_initialized = False, hp_compliance_officer = None\<rparr>"

definition hp_initialize :: "string option \<Rightarrow> hipaa \<Rightarrow> bool \<times> hipaa" where
  "hp_initialize officer hp = (True, hp\<lparr>hp_compliance_officer := officer, hp_initialized := True\<rparr>)"

definition calculate_ba_score :: "associates \<Rightarrow> pyfloat" where
  "calculate_ba_score d =
     (let active = filter ba_is_active (dvalues d)
      in if active = [] then Fin 100
         else fl_mul (int_ratio (length (filter (\<lambda>ba. ba_last_audit_date ba \<noteq> None) active)) (length active)) (Fin 100))"

definition calculate_risk_score :: "datetime \<Rightarrow> analyses \<Rightarrow> pyfloat result" where
  "calculate_risk_score now d =
     (if d = [] then Inr (Fin 50)
      else bindE (fl_of_int (int (length (get_overdue_reviews now d)) * 15)) (\<lambda>o15.
           bindE (fl_of_int (int (length (get_high_risk_items d)) * 10)) (\<lambda>h10.
             let score = fl_sub (fl_sub (Fin 100) o15) h10
             in Inr (if fl_lt (Fin 0) score then score else Fin 0))))"

text \<open>The breach score is an integer, which the product converts to a double.\<close>

definition calculate_breach_score :: "nat \<Rightarrow> int" where
  "calculate_breach_score n = (if n = 0 then 100 else max 0 (100 - int n * 10))"

definition overall_score :: "datetime \<Rightarrow> hipaa \<Rightarrow> pyfloat result" where
  "overall_score now hp =
     (let safeguards_score = fl_mul (ss_required_compliance (hp_compliance_status (hp_safeguards hp))) (Fin 100);
          breach_score = Fin (of_int (calculate_breach_score (bm_open (breach_get_metrics (hp_incidents hp)))));
          ba_score = calculate_ba_score (hp_associates hp)
      in bindE (calculate_risk_score now (hp_analyses hp)) (\<lambda>risk_score.
           Inr (fl_add (fl_add (fl_add (fl_mul safeguards_score (fl_of_rat (4 / 10))) (fl_mul breach_score (fl_of_rat (2 / 10))))
                               (fl_mul ba_score (fl_of_rat (2 / 10)))) (fl_mul risk_score (fl_of_rat (2 / 10))))))"

datatype report_status = Compliant | NeedsImprovement | NonCompliant

definition status_of_score :: "pyfloat \<Rightarrow> report_status" where
  "status_of_score s = (if fl_le (Fin 80) s then Compliant else if fl_le (Fin 60) s then NeedsImprovement else NonCompliant)"

record compliance_report =
  cr_organization :: string
  cr_compliance_officer :: "string option"
  cr_overall_score :: pyfloat
  cr_status :: report_status
  cr_safeguards :: safeguards_status
  cr_breach_metrics :: breach_metrics
  cr_associates :: "nat \<times> nat \<times> (string list \<times> string list \<times> string list)"
  cr_risk_analysis :: "nat \<times> nat \<times> nat"
  cr_phi_handling :: "nat \<times> nat \<times> nat"

definition get_compliance_report :: "datetime \<Rightarrow> hipaa \<Rightarrow> compliance_report result" where
  "get_compliance_report now hp =
     bindE (overall_score now hp) (\<lambda>score.
     bindE (check_expiring now 30 (hp_associates hp)) (\<lambda>expiring.
       Inr \<lparr>cr_organization = hp_organization_name hp, cr_compliance_officer = hp_compliance_officer hp,
            cr_overall_score = py_round 1 score, cr_status = status_of_score score,
            cr_safeguards = hp_compliance_status (hp_safeguards hp), cr_breach_metrics = breach_get_metrics (hp_incidents hp),
            cr_associates = (dcount ba_is_active (hp_associates hp), length expiring, get_phi_access_summary (hp_associates hp)),
            cr_risk_analysis = (length (hp_analyses hp), length (get_overdue_reviews now (hp_analyses hp)),
              length (get_high_risk_items (hp_analyses hp))),
            cr_phi_handling = (length (pd_records (hp_phi hp)), length (pd_access_logs (hp_phi hp)),
              length (filter (\<lambda>l. \<not> pl_success l) (pd_access_logs (hp_phi hp))))\<rparr>))"

datatype check_status = Pass | Fail | PendingCheck | NeedsWork

definition pass_if :: "bool \<Rightarrow> check_status" where
  "pass_if b = (if b then Pass else NeedsWork)"

definition by_type_of :: "safeguard_type \<Rightarrow> safeguards_status \<Rightarrow> nat \<times> nat" where
  "by_type_of t st = (case dget (ss_by_type st) t of None \<Rightarrow> (0, 0) | Some x \<Rightarrow> x)"

definition type_notes :: "nat \<times> nat \<Rightarrow> string" where
  "type_notes x = dec_of_nat (snd x) @ ''/'' @ dec_of_nat (fst x) @ '' implemented''"

definition get_audit_checklist :: "datetime \<Rightarrow> hipaa \<Rightarrow> (string \<times> string \<times> check_status \<times> string) list result" where
  "get_audit_checklist now hp =
     (let st = hp_compliance_status (hp_safeguards hp);
          adm = by_type_of ADMINISTRATIVE st; phy = by_type_of PHYSICAL st; tec = by_type_of TECHNICAL st;
          n_analyses = length (hp_analyses hp); n_policies = length (pd_access_policies (hp_phi hp))
      in bindE (check_expiring now 0 (hp_associates hp)) (\<lambda>expiring. Inr
        [(''Security Risk Analysis'', ''45 CFR 164.308(a)(1)(ii)(A)'', if n_analyses > 0 then Pass else Fail,
            dec_of_nat n_analyses @ '' analyses on record''),
         (''Workforce Training'', ''45 CFR 164.308(a)(5)'', PendingCheck, ''Verify training records externally''),
         (''Access Controls'', ''45 CFR 164.312(a)'', pass_if (n_policies > 0), dec_of_nat n_policies @ '' access policies defined''),
         (''Audit Controls'', ''45 CFR 164.312(b)'', Pass,
            dec_of_nat (length (pd_access_logs (hp_phi hp))) @ '' access events logged''),
         (''Business Associate Agreements'', ''45 CFR 164.314'', pass_if (expiring = []),
            dec_of_nat (length (hp_associates hp)) @ '' agreements on file''),
         (''Breach Notification Procedures'', ''45 CFR 164.400-414'', Pass, ''Breach notification system active''),
         (''Administrative Safeguards'', ''45 CFR 164.308'', pass_if (snd adm > 0), type_notes adm),
         (''Physical Safeguards'', ''45 CFR 164.310'', pass_if (snd phy > 0), type_notes phy),
         (''Technical Safeguards'', ''45 CFR 164.312'', pass_if (snd tec > 0), type_notes tec)]))"

section \<open>The manager as a machine\<close>

datatype hp_op =
    RegisterPhi string datetime string string phi_category "string option"
  | SetPolicy string "phi_category list"
  | AccessPhi string datetime datetime string string string string disclosure_type string
  | AddSafeguard string string safeguard_type string bool string
  | SafeguardStatus datetime string string string
  | RegisterAssociate string datetime datetime string string "string list" string int
  | Subcontractor string string
  | Audit datetime string
  | Deactivate string
  | ReportBreach string datetime string "phi_category list" int "breach_severity option" "datetime option"
  | Notify datetime string
  | Resolve string string "string list"
  | Analyse string datetime datetime string string "string list" "string list" string int
  | Mitigate string string string string "datetime option"
  | InitializeHipaa "string option"

fun hp_step :: "hp_op \<Rightarrow> hipaa \<Rightarrow> hipaa" where
  "hp_step (RegisterPhi u now dh pid c k) hp = hp\<lparr>hp_phi := snd (register_phi u now dh pid c k (hp_phi hp))\<rparr>"
| "hp_step (SetPolicy role cs) hp = hp\<lparr>hp_phi := set_access_policy role cs (hp_phi hp)\<rparr>"
| "hp_step (AccessPhi u t1 t2 user role rid act purpose ip) hp =
     hp\<lparr>hp_phi := snd (access_phi u t1 t2 user role rid act purpose ip (hp_phi hp))\<rparr>"
| "hp_step (AddSafeguard u n t d req party) hp = hp\<lparr>hp_safeguards := add_safeguard u n t d req party (hp_safeguards hp)\<rparr>"
| "hp_step (SafeguardStatus now i st ev) hp = hp\<lparr>hp_safeguards := snd (hp_update_status now i st ev (hp_safeguards hp))\<rparr>"
| "hp_step (RegisterAssociate u now t n m sv l days) hp =
     hp\<lparr>hp_associates := snd (register_associate u now t n m sv l days (hp_associates hp))\<rparr>"
| "hp_step (Subcontractor i n) hp = hp\<lparr>hp_associates := snd (add_subcontractor i n (hp_associates hp))\<rparr>"
| "hp_step (Audit now i) hp = hp\<lparr>hp_associates := snd (record_audit now i (hp_associates hp))\<rparr>"
| "hp_step (Deactivate i) hp = hp\<lparr>hp_associates := snd (deactivate i (hp_associates hp))\<rparr>"
| "hp_step (ReportBreach u now d cs n sev occ) hp =
     hp\<lparr>hp_incidents := snd (report_breach u now d cs n sev occ (hp_incidents hp))\<rparr>"
| "hp_step (Notify now i) hp = hp\<lparr>hp_incidents := snd (send_notifications now i (hp_incidents hp))\<rparr>"
| "hp_step (Resolve i cause steps) hp = hp\<lparr>hp_incidents := snd (resolve_incident i cause steps (hp_incidents hp))\<rparr>"
| "hp_step (Analyse u now t w sc th vu lv days) hp =
     hp\<lparr>hp_analyses := snd (conduct_analysis u now t w sc th vu lv days (hp_analyses hp))\<rparr>"
| "hp_step (Mitigate i item plan party target) hp = hp\<lparr>hp_analyses := snd (add_mitigation i item plan party target (hp_analyses hp))\<rparr>"
| "hp_step (InitializeHipaa officer) hp = snd (hp_initialize officer hp)"

section \<open>Accountability\<close>

abbreviation opened :: "string \<Rightarrow> phi_access_log \<Rightarrow> bool" where
  "opened rid l \<equiv> pl_success l \<and> pl_record_id l = rid"

definition phi_ok :: "phi_handler \<Rightarrow> bool" where
  "phi_ok h \<longleftrightarrow>
     (\<forall>rid r. dget (pd_records h) rid = Some r \<longrightarrow>
        ph_access_count r = length (filter (opened rid) (pd_access_logs h)) \<and>
        (sensitive (ph_category r) \<longrightarrow> (\<forall>l\<in>set (pd_access_logs h). opened rid l \<longrightarrow> pl_purpose l \<in> {TREATMENT, AUTHORIZATION}))) \<and>
     (\<forall>l\<in>set (pd_access_logs h). pl_success l \<longrightarrow> dget (pd_records h) (pl_record_id l) \<noteq> None)"

lemma access_phi_denied:
  assumes "\<not> fst (check_access role rid purpose h)" "phi_ok h"
  shows "phi_ok (snd (access_phi u t1 t2 user role rid act purpose ip h))"
  using assms by (auto simp: phi_ok_def access_phi_def case_prod_unfold Let_def)

lemma check_access_granted:
  assumes "fst (check_access role rid purpose h)"
  shows "\<exists>r. dget (pd_records h) rid = Some r \<and> (sensitive (ph_category r) \<longrightarrow> purpose \<in> {TREATMENT, AUTHORIZATION})"
  using assms by (auto simp: check_access_def Let_def split: option.splits if_splits)

lemma access_phi_granted:
  assumes "fst (check_access role rid purpose h)" "dget (pd_records h) rid = Some r"
  shows "\<exists>entry. opened rid entry \<and> pl_purpose entry = purpose \<and>
    snd (access_phi u t1 t2 user role rid act purpose ip h) =
       h\<lparr>pd_access_logs := pd_access_logs h @ [entry],
         pd_records := dset rid (r\<lparr>ph_last_accessed := Some t2, ph_access_count := ph_access_count r + 1\<rparr>) (pd_records h)\<rparr>"
  using assms by (intro exI [of _ "fst (access_phi u t1 t2 user role rid act purpose ip h)"])
    (simp add: access_phi_def case_prod_unfold Let_def)

lemma phi_ok_access:
  assumes "phi_ok h"
  shows "phi_ok (snd (access_phi u t1 t2 user role rid act purpose ip h))"
proof (cases "fst (check_access role rid purpose h)")
  case True
  then obtain r where r: "dget (pd_records h) rid = Some r"
    and s: "sensitive (ph_category r) \<Longrightarrow> purpose \<in> {TREATMENT, AUTHORIZATION}"
    using check_access_granted by blast
  from access_phi_granted [OF True r] obtain entry where e: "opened rid entry" "pl_purpose entry = purpose"
    and h': "snd (access_phi u t1 t2 user role rid act purpose ip h) =
       h\<lparr>pd_access_logs := pd_access_logs h @ [entry],
         pd_records := dset rid (r\<lparr>ph_last_accessed := Some t2, ph_access_count := ph_access_count r + 1\<rparr>) (pd_records h)\<rparr>"
    by blast
  show ?thesis using assms r e s unfolding h' phi_ok_def by auto
qed (use access_phi_denied assms in blast)

fun fresh_phi :: "hp_op \<Rightarrow> hipaa \<Rightarrow> bool" where
  "fresh_phi (RegisterPhi u now dh pid c k) hp \<longleftrightarrow> dget (pd_records (hp_phi hp)) u = None"
| "fresh_phi _ hp \<longleftrightarrow> True"

lemma phi_ok_register:
  assumes "phi_ok h" "dget (pd_records h) u = None"
  shows "phi_ok (snd (register_phi u now dh pid c k h))"
proof -
  have "filter (opened u) (pd_access_logs h) = []" using assms by (auto simp: phi_ok_def filter_empty_conv)
  then show ?thesis using assms by (auto simp: phi_ok_def register_phi_def Let_def filter_empty_conv)
qed

interpretation phi: guarded_machine hp_step "\<lambda>hp :: hipaa. phi_ok (hp_phi hp)" fresh_phi
proof unfold_locales
  fix hp :: hipaa and x assume "phi_ok (hp_phi hp)" "fresh_phi x hp"
  then show "phi_ok (hp_phi (hp_step x hp))"
    by (cases x) (simp_all add: phi_ok_register phi_ok_access set_access_policy_def phi_ok_def [of "_\<lparr>pd_access_policies := _\<rparr>"]
        phi_ok_def [of "hp_phi hp"] hp_initialize_def)
qed

lemma hp_phi_init [simp]: "hp_phi (hipaa_init uuids name) = phi_init"
  by (simp add: hipaa_init_def)

section \<open>Properties\<close>

text \<open>
  C37. When record identifiers are not reused, the access log accounts for every access: the counter of a
  record is the number of successful log entries for it, and a genetic, psychotherapy or substance-abuse
  record was opened only for treatment or with an authorization, whatever policies were set.
\<close>
theorem phi_accesses_are_accounted:
  assumes "guarded fresh_phi hp_step ops (hipaa_init uuids name)" and "hp = fold hp_step ops (hipaa_init uuids name)"
    and "dget (pd_records (hp_phi hp)) rid = Some r"
  shows "ph_access_count r = length (filter (\<lambda>l. pl_success l \<and> pl_record_id l = rid) (pd_access_logs (hp_phi hp))) \<and>
    (ph_category r \<in> {GENETIC, PSYCHOTHERAPY, SUBSTANCE_ABUSE} \<longrightarrow>
      (\<forall>l\<in>set (pd_access_logs (hp_phi hp)). pl_success l \<and> pl_record_id l = rid \<longrightarrow> pl_purpose l \<in> {TREATMENT, AUTHORIZATION}))"
proof -
  have "phi_ok (hp_phi (hipaa_init uuids name))" by (simp add: phi_init_def phi_ok_def)
  from phi.run_inv [OF this assms(1)] have "phi_ok (hp_phi hp)" by (simp add: assms(2))
  with assms(3) show ?thesis unfolding phi_ok_def sensitive_def by blast
qed

text \<open>A breach that requires notification can be resolved without one having been sent.\<close>

lemma resolved_unnotified:
  assumes "dget d i = Some x" "bi_notification_required x" "bi_notification_sent_date x = None"
  shows "\<exists>x'. dget (snd (resolve_incident i cause steps d)) i = Some x' \<and> bi_status x' = ''resolved'' \<and>
    bi_notification_required x' \<and> bi_notification_sent_date x' = None"
  using assms by (simp add: resolve_incident_def)

theorem phi_accesses_are_accounted_witness:
  "\<exists>r. dget (pd_records (hp_phi (fold hp_step [RegisterPhi ''r'' 0 [] ''pat'' GENETIC None, SetPolicy ''doc'' [GENETIC],
        AccessPhi ''l1'' 1 1 ''u'' ''doc'' ''r'' ''view'' TREATMENT [], AccessPhi ''l2'' 2 2 ''u'' ''doc'' ''r'' ''view'' RESEARCH []]
       (hipaa_init (\<lambda>_. []) ''org'')))) ''r'' = Some r \<and> ph_access_count r = 1"
proof -
  let ?ops = "[RegisterPhi ''r'' 0 [] ''pat'' GENETIC None, SetPolicy ''doc'' [GENETIC],
        AccessPhi ''l1'' 1 1 ''u'' ''doc'' ''r'' ''view'' TREATMENT [], AccessPhi ''l2'' 2 2 ''u'' ''doc'' ''r'' ''view'' RESEARCH []]"
  let ?hp = "fold hp_step ?ops (hipaa_init (\<lambda>_. []) ''org'')"
  have g: "guarded fresh_phi hp_step ?ops (hipaa_init (\<lambda>_. []) ''org'')"
    by (simp add: phi_init_def)
  have "\<exists>r. dget (pd_records (hp_phi ?hp)) ''r'' = Some r"
    and n: "length (filter (\<lambda>l. pl_success l \<and> pl_record_id l = ''r'') (pd_access_logs (hp_phi ?hp))) = 1"
    by (simp_all add: phi_init_def register_phi_def set_access_policy_def access_phi_def check_access_def
        sensitive_def dget_Cons dset_Cons Let_def)
  then obtain r where r: "dget (pd_records (hp_phi ?hp)) ''r'' = Some r" by blast
  from phi_accesses_are_accounted [OF g refl r] n have "ph_access_count r = 1" by (simp only:)
  with r show ?thesis by blast
qed

end
