(* ===== verification/Hsm.thy ===== *)
theory Hsm
  imports Float_Arith Text Bytes
begin

text \<open>
  Key stores, \<^verbatim>\<open>kernel/hardware/hsm.py\<close>: the interface \<open>HSMProvider\<close>, its six implementations and the
  manager that chooses one. What the providers call (the native core, command-line tools, cloud clients, the
  clock, the environment) is one record \<open>hsm_world\<close> of answers: \<open>None\<close> is an answer that raised. The
  tools read and write a temporary directory; its files are part of the state of the provider that owns
  it. The locale \<open>hsm_provider\<close> states what \<open>HSMProvider\<close> promises about keys and what follows for every
  implementation; it is interpreted on all six and on their union, which is Python's dynamic dispatch.
\<close>

section \<open>Text of bytes\<close>

definition hex_text :: "bytes \<Rightarrow> string" where
  "hex_text bs = concat (map (\<lambda>b. [Text.hex_digit (unat b div 16), Text.hex_digit (unat b mod 16)]) bs)"

section \<open>Keys and signatures\<close>

datatype hsm_type =
    SOFTWARE | APPLE_SECURE_ENCLAVE | TPM_2_0 | PKCS11 | YUBIKEY | CLOUDFLARE_KMS
  | AWS_CLOUD_HSM | AZURE_KEY_VAULT | GCP_CLOUD_KMS

datatype key_type = ML_DSA_65 | ML_KEM_768 | ED25519 | AES_256_GCM | HMAC_SHA256

fun key_type_value :: "key_type \<Rightarrow> string" where
  "key_type_value ML_DSA_65 = ''ml_dsa_65''"
| "key_type_value ML_KEM_768 = ''ml_kem_768''"
| "key_type_value ED25519 = ''ed25519''"
| "key_type_value AES_256_GCM = ''aes_256_gcm''"
| "key_type_value HMAC_SHA256 = ''hmac_sha256''"

record hsm_key =
  hk_key_id :: string
  hk_key_type :: key_type
  hk_label :: string
  hk_created_at :: pyfloat
  hk_expires_at :: "pyfloat option"
  hk_is_extractable :: bool
  hk_is_hardware_bound :: bool
  hk_metadata :: "(string, string) dict"

definition hsm_is_expired :: "pyfloat \<Rightarrow> hsm_key \<Rightarrow> bool" where
  "hsm_is_expired now k = (case hk_expires_at k of None \<Rightarrow> False | Some t \<Rightarrow> fl_lt t now)"

record hsm_signature =
  hg_signature_hex :: string
  hg_key_id :: string
  hg_algorithm :: string
  hg_timestamp :: pyfloat

record hsm_capabilities =
  hc_hsm_type :: hsm_type
  hc_supports_pqc :: bool
  hc_max_key_slots :: int
  hc_firmware_version :: string
  hc_hardware_serial :: string
  hc_is_fips_certified :: bool
  hc_supported_algorithms :: "string list"

section \<open>The world outside\<close>

type_synonym files = "(string, bytes) dict"
type_synonym keypair = "string \<times> string"

record jwk =
  jw_kty :: string
  jw_crv :: "string option"
  jw_x :: "bytes option"
  jw_y :: "bytes option"

text \<open>
  One record of answers. The first group is the process: clock, platform, environment, digests and the
  commands it runs (return code and output, and what they do to the files). Then the native core, and the
  clients of the three clouds.
\<close>

record hsm_world =
  w_now :: pyfloat
  w_stamp :: string
  w_hexdigest :: "string \<Rightarrow> string"
  w_sha256 :: "bytes \<Rightarrow> bytes"
  w_platform :: string
  w_mac_ver :: string
  w_environ :: "string \<Rightarrow> string option"
  w_exists :: "string \<Rightarrow> bool"
  w_makedirs :: "string \<Rightarrow> bool"
  w_run :: "string list \<Rightarrow> files \<Rightarrow> (int \<times> string) option \<times> files"
  w_read_text :: "bytes \<Rightarrow> string option"
  w_rust :: "(keypair \<times> keypair) option"
  w_rs_sign :: "string \<Rightarrow> string \<Rightarrow> string"
  w_rs_verify :: "string \<Rightarrow> string \<Rightarrow> string \<Rightarrow> bool"
  w_boto_client :: "string \<Rightarrow> bool option"
  w_kms_list_keys :: bool
  w_describe_clusters :: "string \<Rightarrow> string option list option"
  w_kms_create_key :: "string \<Rightarrow> string \<Rightarrow> string \<Rightarrow> string option"
  w_kms_schedule_deletion :: "string \<Rightarrow> bool"
  w_kms_sign :: "string \<Rightarrow> bytes \<Rightarrow> string \<Rightarrow> (bytes + string) option"
  w_kms_verify :: "string \<Rightarrow> bytes \<Rightarrow> bytes \<Rightarrow> string \<Rightarrow> bool option option"
  w_kms_public_key :: "string \<Rightarrow> (bytes + string) option"
  w_azure_client :: "string \<Rightarrow> bool option"
  w_azure_list :: bool
  w_azure_create_ec :: "string \<Rightarrow> string option"
  w_azure_create_oct :: "string \<Rightarrow> string option"
  w_azure_crypto :: "string \<Rightarrow> bool"
  w_azure_delete :: "string \<Rightarrow> bool"
  w_azure_sign :: "string \<Rightarrow> bytes \<Rightarrow> bytes option"
  w_azure_verify :: "string \<Rightarrow> bytes \<Rightarrow> bytes \<Rightarrow> bool option"
  w_azure_get_key :: "string \<Rightarrow> jwk option option"
  w_gcp_client :: "bool option"
  w_gcp_get_ring :: "string \<Rightarrow> bool"
  w_gcp_create_ring :: "string \<Rightarrow> string \<Rightarrow> bool"
  w_gcp_create_key :: "string \<Rightarrow> string \<Rightarrow> string \<Rightarrow> string \<Rightarrow> string option"
  w_gcp_destroy :: "string \<Rightarrow> bool"
  w_gcp_sign :: "string \<Rightarrow> bytes \<Rightarrow> bytes option"
  w_gcp_verify :: "string \<Rightarrow> bytes \<Rightarrow> bytes \<Rightarrow> bool option"
  w_gcp_public_key :: "string \<Rightarrow> string option"

text \<open>Every provider derives the id of a new key from the label and the clock.\<close>

definition new_key_id :: "string \<Rightarrow> hsm_world \<Rightarrow> string \<Rightarrow> string" where
  "new_key_id pre w label = pre @ take 16 (w_hexdigest w (label @ w_stamp w))"

definition mk_key :: "hsm_world \<Rightarrow> string \<Rightarrow> key_type \<Rightarrow> string \<Rightarrow> bool \<Rightarrow> bool \<Rightarrow> (string, string) dict \<Rightarrow> hsm_key" where
  "mk_key w key_id t label extractable bound meta =
     \<lparr>hk_key_id = key_id, hk_key_type = t, hk_label = label, hk_created_at = w_now w, hk_expires_at = None,
      hk_is_extractable = extractable, hk_is_hardware_bound = bound, hk_metadata = meta\<rparr>"

lemma mk_key_simps [simp]: "hk_key_id (mk_key w i t l x b m) = i" "hk_key_type (mk_key w i t l x b m) = t"
  by (simp_all add: mk_key_def)

definition mk_signature :: "hsm_world \<Rightarrow> string \<Rightarrow> string \<Rightarrow> string \<Rightarrow> hsm_signature" where
  "mk_signature w sig key_id algorithm =
     \<lparr>hg_signature_hex = sig, hg_key_id = key_id, hg_algorithm = algorithm, hg_timestamp = w_now w\<rparr>"

definition path_join :: "string \<Rightarrow> string \<Rightarrow> string" where
  "path_join dir name = dir @ ''/'' @ name"

text \<open>\<open>subprocess.run\<close>: the return code, or \<open>None\<close> when it raised.\<close>

definition run_rc :: "hsm_world \<Rightarrow> string list \<Rightarrow> files \<Rightarrow> int option \<times> files" where
  "run_rc w argv f = (let (r, f') = w_run w argv f in (map_option fst r, f'))"

definition remove_existing :: "string list \<Rightarrow> files \<Rightarrow> files" where
  "remove_existing paths f = fold ddel paths f"

text \<open>The value after the colon of the first line that contains a marker.\<close>

fun marked_field :: "string \<Rightarrow> string list \<Rightarrow> string option" where
  "marked_field marker [] = None"
| "marked_field marker (l # ls) =
     (if str_in marker l then (case split_on (CHR '':'') l of _ # v # _ \<Rightarrow> Some (strip v) | _ \<Rightarrow> None)
      else marked_field marker ls)"

definition probe_field :: "hsm_world \<Rightarrow> string list \<Rightarrow> string \<Rightarrow> files \<Rightarrow> string" where
  "probe_field w argv marker f =
     (case fst (w_run w argv f) of
        None \<Rightarrow> ''unknown''
      | Some (rc, out) \<Rightarrow> (case marked_field marker (split_on (CHR 0x0A) out) of None \<Rightarrow> ''unknown'' | Some v \<Rightarrow> v))"

section \<open>Software provider\<close>

record software_hsm =
  sw_keys :: "(string, hsm_key) dict"
  sw_key_material :: "(string, keypair) dict"
  sw_initialized :: bool

definition sw_new :: software_hsm where
  "sw_new = \<lparr>sw_keys = [], sw_key_material = [], sw_initialized = False\<rparr>"

definition sw_initialize :: "software_hsm \<Rightarrow> bool \<times> software_hsm" where
  "sw_initialize s = (True, s\<lparr>sw_initialized := True\<rparr>)"

definition sw_get_capabilities :: hsm_capabilities where
  "sw_get_capabilities =
     \<lparr>hc_hsm_type = SOFTWARE, hc_supports_pqc = True, hc_max_key_slots = 1000, hc_firmware_version = ''1.0.0-dev'',
      hc_hardware_serial = ''SOFTWARE-DEV'', hc_is_fips_certified = False,
      hc_supported_algorithms = [''ML-DSA-65'', ''ML-KEM-768'', ''Ed25519'', ''AES-256-GCM'']\<rparr>"

definition sw_generate_key :: "hsm_world \<Rightarrow> key_type \<Rightarrow> string \<Rightarrow> software_hsm \<Rightarrow> hsm_key option \<times> software_hsm" where
  "sw_generate_key w t label s =
     (case w_rust w of
        None \<Rightarrow> (None, s)
      | Some (sign_pair, kem_pair) \<Rightarrow>
          let key_id = new_key_id ''sw-'' w label;
              store = (\<lambda>pair. let key = mk_key w key_id t label True False [] in
                (Some key, s\<lparr>sw_key_material := dset key_id pair (sw_key_material s), sw_keys := dset key_id key (sw_keys s)\<rparr>))
          in case t of ML_DSA_65 \<Rightarrow> store sign_pair | ML_KEM_768 \<Rightarrow> store kem_pair | ED25519 \<Rightarrow> store sign_pair | _ \<Rightarrow> (None, s))"

definition sw_delete_key :: "string \<Rightarrow> software_hsm \<Rightarrow> bool \<times> software_hsm" where
  "sw_delete_key key_id s =
     (if dget (sw_keys s) key_id \<noteq> None
      then (True, s\<lparr>sw_keys := ddel key_id (sw_keys s), sw_key_material := ddel key_id (sw_key_material s)\<rparr>)
      else (False, s))"

definition sw_sign :: "hsm_world \<Rightarrow> string \<Rightarrow> bytes \<Rightarrow> software_hsm \<Rightarrow> hsm_signature option" where
  "sw_sign w key_id data s =
     (case dget (sw_key_material s) key_id of
        None \<Rightarrow> None
      | Some (_, sk) \<Rightarrow>
          (case dget (sw_keys s) key_id of
             None \<Rightarrow> None
           | Some key \<Rightarrow>
               if hk_key_type key \<notin> {ML_DSA_65, ED25519} then None
               else Some (mk_signature w (w_rs_sign w sk (hex_text data)) key_id (key_type_value (hk_key_type key)))))"

definition sw_verify :: "hsm_world \<Rightarrow> string \<Rightarrow> bytes \<Rightarrow> bytes \<Rightarrow> software_hsm \<Rightarrow> bool" where
  "sw_verify w key_id data signature s =
     (case dget (sw_key_material s) key_id of
        None \<Rightarrow> False
      | Some (pk, _) \<Rightarrow> w_rs_verify w pk (hex_text data) (hex_text signature))"

definition sw_get_public_key :: "string \<Rightarrow> software_hsm \<Rightarrow> string option" where
  "sw_get_public_key key_id s = map_option fst (dget (sw_key_material s) key_id)"

section \<open>Apple Secure Enclave\<close>

record apple_hsm =
  ap_initialized :: bool
  ap_keys :: "(string, hsm_key) dict"
  ap_key_refs :: "(string, string) dict"
  ap_files :: files

definition apple_dir :: string where
  "apple_dir = ''/tmp/warmlogic_hsm''"

definition ap_new :: "files \<Rightarrow> apple_hsm" where
  "ap_new f = \<lparr>ap_initialized = False, ap_keys = [], ap_key_refs = [], ap_files = f\<rparr>"

definition ap_initialize :: "hsm_world \<Rightarrow> apple_hsm \<Rightarrow> bool \<times> apple_hsm" where
  "ap_initialize w s =
     (if w_platform w \<noteq> ''Darwin'' then (False, s)
      else let (r1, f1) = run_rc w [''ioreg'', ''-l'', ''-p'', ''IODeviceTree''] (ap_files s) in
        (case r1 of
           None \<Rightarrow> (False, s\<lparr>ap_files := f1\<rparr>)
         | Some _ \<Rightarrow>
             let (r2, f2) = run_rc w [''security'', ''list-keychains''] f1 in
             if r2 = Some 0
             then (w_makedirs w apple_dir, s\<lparr>ap_files := f2, ap_initialized := True\<rparr>)
             else (False, s\<lparr>ap_files := f2\<rparr>)))"

definition ap_get_hardware_uuid :: "hsm_world \<Rightarrow> apple_hsm \<Rightarrow> string" where
  "ap_get_hardware_uuid w s = probe_field w [''system_profiler'', ''SPHardwareDataType''] ''Hardware UUID'' (ap_files s)"

definition ap_get_capabilities :: "hsm_world \<Rightarrow> apple_hsm \<Rightarrow> hsm_capabilities" where
  "ap_get_capabilities w s =
     \<lparr>hc_hsm_type = APPLE_SECURE_ENCLAVE, hc_supports_pqc = False, hc_max_key_slots = 100,
      hc_firmware_version = w_mac_ver w, hc_hardware_serial = ap_get_hardware_uuid w s, hc_is_fips_certified = False,
      hc_supported_algorithms = [''P-256'', ''RSA-2048'', ''AES-256-GCM'']\<rparr>"

definition ap_generate_key :: "hsm_world \<Rightarrow> key_type \<Rightarrow> string \<Rightarrow> apple_hsm \<Rightarrow> hsm_key option \<times> apple_hsm" where
  "ap_generate_key w t label s =
     (if \<not> ap_initialized s then (None, s)
      else
        let key_id = new_key_id ''se-'' w label;
            keychain_label = ''com.warmlogic.hsm.'' @ key_id;
            key_path = path_join apple_dir (key_id @ ''.key'');
            pub_path = path_join apple_dir (key_id @ ''.pub'')
        in if t \<notin> {ED25519, ML_DSA_65} then (None, s)
           else
             let (r1, f1) = run_rc w [''openssl'', ''ecparam'', ''-genkey'', ''-name'', ''prime256v1'', ''-out'', key_path] (ap_files s) in
             if r1 \<noteq> Some 0 then (None, s\<lparr>ap_files := f1\<rparr>)
             else
               let (r2, f2) = run_rc w [''openssl'', ''ec'', ''-in'', key_path, ''-pubout'', ''-out'', pub_path] f1 in
               if r2 = None then (None, s\<lparr>ap_files := f2\<rparr>)
               else
                 let key = mk_key w key_id t label False True [(''algorithm'', ''P-256''), (''keychain_label'', keychain_label)] in
                 (Some key, s\<lparr>ap_files := f2, ap_key_refs := dset key_id key_path (ap_key_refs s),
                     ap_keys := dset key_id key (ap_keys s)\<rparr>))"

definition ap_delete_key :: "string \<Rightarrow> apple_hsm \<Rightarrow> bool \<times> apple_hsm" where
  "ap_delete_key key_id s =
     (if dget (ap_keys s) key_id = None then (False, s)
      else
        let s1 = (case dget (ap_key_refs s) key_id of
                    None \<Rightarrow> s
                  | Some key_path \<Rightarrow>
                      s\<lparr>ap_files := remove_existing [str_replace ''.key'' ''.key'' key_path, str_replace ''.key'' ''.pub'' key_path] (ap_files s),
                        ap_key_refs := ddel key_id (ap_key_refs s)\<rparr>)
        in (True, s1\<lparr>ap_keys := ddel key_id (ap_keys s1)\<rparr>))"

text \<open>
  Signing: the data go to a file, the tool writes the signature to another, both are removed. When the
  tool fails or an exception is raised, the files that exist by then stay.
\<close>

definition ap_sign :: "hsm_world \<Rightarrow> string \<Rightarrow> bytes \<Rightarrow> apple_hsm \<Rightarrow> hsm_signature option \<times> apple_hsm" where
  "ap_sign w key_id data s =
     (case dget (ap_key_refs s) key_id of
        None \<Rightarrow> (None, s)
      | Some key_path \<Rightarrow>
          let data_path = path_join apple_dir (key_id @ ''_data.bin'');
              sig_path = path_join apple_dir (key_id @ ''_sig.bin'');
              (r, f) = run_rc w [''openssl'', ''dgst'', ''-sha256'', ''-sign'', key_path, ''-out'', sig_path, data_path]
                         (dset data_path data (ap_files s))
          in if r \<noteq> Some 0 then (None, s\<lparr>ap_files := f\<rparr>)
             else case dget f sig_path of
               None \<Rightarrow> (None, s\<lparr>ap_files := f\<rparr>)
             | Some signature \<Rightarrow>
                 if dget f data_path = None then (None, s\<lparr>ap_files := f\<rparr>)
                 else (Some (mk_signature w (hex_text signature) key_id ''P-256-SHA256''),
                       s\<lparr>ap_files := remove_existing [data_path, sig_path] f\<rparr>))"

definition ap_verify :: "hsm_world \<Rightarrow> string \<Rightarrow> bytes \<Rightarrow> bytes \<Rightarrow> apple_hsm \<Rightarrow> bool \<times> apple_hsm" where
  "ap_verify w key_id data signature s =
     (case dget (ap_key_refs s) key_id of
        None \<Rightarrow> (False, s)
      | Some key_path \<Rightarrow>
          let pub_path = str_replace ''.key'' ''.pub'' key_path;
              data_path = path_join apple_dir (key_id @ ''_vdata.bin'');
              sig_path = path_join apple_dir (key_id @ ''_vsig.bin'')
          in if dget (ap_files s) pub_path = None then (False, s)
             else
               let (r, f) = run_rc w [''openssl'', ''dgst'', ''-sha256'', ''-verify'', pub_path, ''-signature'', sig_path, data_path]
                              (dset sig_path signature (dset data_path data (ap_files s)))
               in if r = None then (False, s\<lparr>ap_files := f\<rparr>)
                  else if dget f data_path = None then (False, s\<lparr>ap_files := f\<rparr>)
                  else if dget f sig_path = None then (False, s\<lparr>ap_files := ddel data_path f\<rparr>)
                  else (r = Some 0, s\<lparr>ap_files := remove_existing [data_path, sig_path] f\<rparr>))"

definition ap_get_public_key :: "hsm_world \<Rightarrow> string \<Rightarrow> apple_hsm \<Rightarrow> string option" where
  "ap_get_public_key w key_id s =
     (case dget (ap_key_refs s) key_id of
        None \<Rightarrow> None
      | Some key_path \<Rightarrow> Option.bind (dget (ap_files s) (str_replace ''.key'' ''.pub'' key_path)) (w_read_text w))"

section \<open>TPM 2.0\<close>

record tpm_hsm =
  tp_initialized :: bool
  tp_keys :: "(string, hsm_key) dict"
  tp_key_handles :: "(string, string) dict"
  tp_primary_handle :: "string option"
  tp_files :: files

definition tpm_dir :: string where
  "tpm_dir = ''/tmp/warmlogic_tpm''"

definition tp_new :: "files \<Rightarrow> tpm_hsm" where
  "tp_new f = \<lparr>tp_initialized = False, tp_keys = [], tp_key_handles = [], tp_primary_handle = None, tp_files = f\<rparr>"

definition tp_create_primary_key :: "hsm_world \<Rightarrow> tpm_hsm \<Rightarrow> bool \<times> tpm_hsm" where
  "tp_create_primary_key w s =
     (let ctx_path = path_join tpm_dir ''primary.ctx'';
          (r, f) = run_rc w [''tpm2_createprimary'', ''-C'', ''o'', ''-g'', ''sha256'', ''-G'', ''ecc256:ecdsa'', ''-c'', ctx_path] (tp_files s)
      in if r = Some 0 then (True, s\<lparr>tp_files := f, tp_primary_handle := Some ctx_path\<rparr>) else (False, s\<lparr>tp_files := f\<rparr>))"

definition tp_initialize :: "hsm_world \<Rightarrow> tpm_hsm \<Rightarrow> bool \<times> tpm_hsm" where
  "tp_initialize w s =
     (if w_platform w \<noteq> ''Linux'' then (False, s)
      else if \<not> w_exists w ''/dev/tpm0'' \<and> \<not> w_exists w ''/dev/tpmrm0'' then (False, s)
      else let (r, f) = run_rc w [''tpm2_getcap'', ''properties-fixed''] (tp_files s) in
        if r = Some 0 \<and> w_makedirs w tpm_dir
        then (True, (snd (tp_create_primary_key w (s\<lparr>tp_files := f\<rparr>)))\<lparr>tp_initialized := True\<rparr>)
        else (False, s\<lparr>tp_files := f\<rparr>))"

definition tp_get_tpm_version :: "hsm_world \<Rightarrow> tpm_hsm \<Rightarrow> string" where
  "tp_get_tpm_version w s = probe_field w [''tpm2_getcap'', ''properties-fixed''] ''TPM2_PT_REVISION'' (tp_files s)"

definition tp_get_tpm_serial :: "hsm_world \<Rightarrow> tpm_hsm \<Rightarrow> string" where
  "tp_get_tpm_serial w s = probe_field w [''tpm2_getcap'', ''properties-fixed''] ''TPM2_PT_VENDOR_STRING'' (tp_files s)"

definition tp_get_capabilities :: "hsm_world \<Rightarrow> tpm_hsm \<Rightarrow> hsm_capabilities" where
  "tp_get_capabilities w s =
     \<lparr>hc_hsm_type = TPM_2_0, hc_supports_pqc = False, hc_max_key_slots = 7, hc_firmware_version = tp_get_tpm_version w s,
      hc_hardware_serial = tp_get_tpm_serial w s, hc_is_fips_certified = True,
      hc_supported_algorithms = [''RSA-2048'', ''P-256'', ''SHA-256'', ''HMAC'']\<rparr>"

definition tp_generate_key :: "hsm_world \<Rightarrow> key_type \<Rightarrow> string \<Rightarrow> tpm_hsm \<Rightarrow> hsm_key option \<times> tpm_hsm" where
  "tp_generate_key w t label s =
     (case (tp_initialized s, tp_primary_handle s) of
        (True, Some primary) \<Rightarrow>
          let key_id = new_key_id ''tpm-'' w label;
              priv_path = path_join tpm_dir (key_id @ ''.priv'');
              pub_path = path_join tpm_dir (key_id @ ''.pub'');
              ctx_path = path_join tpm_dir (key_id @ ''.ctx'');
              (r1, f1) = run_rc w [''tpm2_create'', ''-C'', primary, ''-g'', ''sha256'', ''-G'', ''ecc256:ecdsa'', ''-u'', pub_path, ''-r'', priv_path]
                           (tp_files s)
          in if r1 \<noteq> Some 0 then (None, s\<lparr>tp_files := f1\<rparr>)
             else
               let (r2, f2) = run_rc w [''tpm2_load'', ''-C'', primary, ''-u'', pub_path, ''-r'', priv_path, ''-c'', ctx_path] f1 in
               if r2 \<noteq> Some 0 then (None, s\<lparr>tp_files := f2\<rparr>)
               else
                 let key = mk_key w key_id t label False True
                       [(''algorithm'', ''P-256''), (''tpm_handle'', ctx_path), (''pub_path'', pub_path)] in
                 (Some key, s\<lparr>tp_files := f2, tp_key_handles := dset key_id ctx_path (tp_key_handles s),
                    tp_keys := dset key_id key (tp_keys s)\<rparr>)
      | _ \<Rightarrow> (None, s))"

definition tp_delete_key :: "string \<Rightarrow> tpm_hsm \<Rightarrow> bool \<times> tpm_hsm" where
  "tp_delete_key key_id s =
     (if dget (tp_keys s) key_id = None then (False, s)
      else
        let s1 = (case dget (tp_key_handles s) key_id of
                    None \<Rightarrow> s
                  | Some ctx_path \<Rightarrow>
                      s\<lparr>tp_files := remove_existing [ctx_path, str_replace ''.ctx'' ''.pub'' ctx_path, str_replace ''.ctx'' ''.priv'' ctx_path] (tp_files s),
                        tp_key_handles := ddel key_id (tp_key_handles s)\<rparr>)
        in (True, s1\<lparr>tp_keys := ddel key_id (tp_keys s1)\<rparr>))"

definition tp_sign :: "hsm_world \<Rightarrow> string \<Rightarrow> bytes \<Rightarrow> tpm_hsm \<Rightarrow> hsm_signature option \<times> tpm_hsm" where
  "tp_sign w key_id data s =
     (case dget (tp_key_handles s) key_id of
        None \<Rightarrow> (None, s)
      | Some ctx_path \<Rightarrow>
          let data_path = path_join tpm_dir (key_id @ ''_data.bin'');
              digest_path = path_join tpm_dir (key_id @ ''_digest.bin'');
              sig_path = path_join tpm_dir (key_id @ ''_sig.bin'');
              (r, f) = run_rc w [''tpm2_sign'', ''-c'', ctx_path, ''-g'', ''sha256'', ''-d'', digest_path, ''-o'', sig_path]
                         (dset digest_path (w_sha256 w data) (dset data_path data (tp_files s)))
          in if r \<noteq> Some 0 then (None, s\<lparr>tp_files := f\<rparr>)
             else case dget f sig_path of
               None \<Rightarrow> (None, s\<lparr>tp_files := f\<rparr>)
             | Some signature \<Rightarrow>
                 (Some (mk_signature w (hex_text signature) key_id ''P-256-SHA256''),
                  s\<lparr>tp_files := remove_existing [data_path, digest_path, sig_path] f\<rparr>))"

definition tp_verify :: "hsm_world \<Rightarrow> string \<Rightarrow> bytes \<Rightarrow> bytes \<Rightarrow> tpm_hsm \<Rightarrow> bool \<times> tpm_hsm" where
  "tp_verify w key_id data signature s =
     (case dget (tp_key_handles s) key_id of
        None \<Rightarrow> (False, s)
      | Some ctx_path \<Rightarrow>
          let digest_path = path_join tpm_dir (key_id @ ''_vdigest.bin'');
              sig_path = path_join tpm_dir (key_id @ ''_vsig.bin'');
              (r, f) = run_rc w [''tpm2_verifysignature'', ''-c'', ctx_path, ''-g'', ''sha256'', ''-d'', digest_path, ''-s'', sig_path]
                         (dset sig_path signature (dset digest_path (w_sha256 w data) (tp_files s)))
          in if r = None then (False, s\<lparr>tp_files := f\<rparr>)
             else (r = Some 0, s\<lparr>tp_files := remove_existing [digest_path, sig_path] f\<rparr>))"

definition tp_get_public_key :: "hsm_world \<Rightarrow> string \<Rightarrow> tpm_hsm \<Rightarrow> string option \<times> tpm_hsm" where
  "tp_get_public_key w key_id s =
     (case dget (tp_keys s) key_id of
        None \<Rightarrow> (None, s)
      | Some key \<Rightarrow>
          (case dget (hk_metadata key) ''pub_path'' of
             None \<Rightarrow> (None, s)
           | Some pub_path \<Rightarrow>
               if pub_path = [] \<or> dget (tp_files s) pub_path = None then (None, s)
               else
                 let pem_path = str_replace ''.pub'' ''.pem'' pub_path in
                 case dget (tp_key_handles s) key_id of
                   None \<Rightarrow> (None, s)
                 | Some handle \<Rightarrow>
                     let (r, f) = run_rc w [''tpm2_readpublic'', ''-c'', handle, ''-o'', pem_path, ''-f'', ''pem''] (tp_files s) in
                     if r \<noteq> Some 0 then (None, s\<lparr>tp_files := f\<rparr>)
                     else (Option.bind (dget f pem_path) (w_read_text w), s\<lparr>tp_files := f\<rparr>)))"

section \<open>AWS\<close>

record aws_hsm =
  aw_initialized :: bool
  aw_cluster_id :: "string option"
  aw_region :: string
  aw_keys :: "(string, hsm_key) dict"
  aw_key_arns :: "(string, string) dict"
  aw_client :: bool
  aw_kms_client :: bool

definition or_env :: "string option \<Rightarrow> string option \<Rightarrow> string option" where
  "or_env v e = (case v of None \<Rightarrow> e | Some x \<Rightarrow> if x = [] then e else v)"

definition getenv_or :: "hsm_world \<Rightarrow> string \<Rightarrow> string \<Rightarrow> string" where
  "getenv_or w name d = (case w_environ w name of None \<Rightarrow> d | Some x \<Rightarrow> x)"

definition hsm_truthy :: "string option \<Rightarrow> bool" where
  "hsm_truthy v \<longleftrightarrow> (case v of None \<Rightarrow> False | Some x \<Rightarrow> x \<noteq> [])"

definition aw_new :: "hsm_world \<Rightarrow> string option \<Rightarrow> string option \<Rightarrow> aws_hsm" where
  "aw_new w cluster_id region =
     \<lparr>aw_initialized = False, aw_cluster_id = or_env cluster_id (w_environ w ''AWS_CLOUDHSM_CLUSTER_ID''),
      aw_region = (case or_env region None of None \<Rightarrow> getenv_or w ''AWS_DEFAULT_REGION'' ''us-east-1'' | Some r \<Rightarrow> r),
      aw_keys = [], aw_key_arns = [], aw_client = False, aw_kms_client = False\<rparr>"

definition aw_initialize :: "hsm_world \<Rightarrow> aws_hsm \<Rightarrow> bool \<times> aws_hsm" where
  "aw_initialize w s =
     (case w_boto_client w ''kms'' of
        None \<Rightarrow> (False, s)
      | Some c \<Rightarrow>
          let s1 = s\<lparr>aw_kms_client := c\<rparr> in
          if \<not> c \<or> \<not> w_kms_list_keys w then (False, s1)
          else if \<not> hsm_truthy (aw_cluster_id s) then (True, s1\<lparr>aw_initialized := True\<rparr>)
          else case w_boto_client w ''cloudhsmv2'' of
            None \<Rightarrow> (False, s1)
          | Some c2 \<Rightarrow>
              let s2 = s1\<lparr>aw_client := c2\<rparr> in
              if \<not> c2 then (False, s2)
              else case w_describe_clusters w (the (aw_cluster_id s)) of
                None \<Rightarrow> (False, s2)
              | Some [] \<Rightarrow> (False, s2)
              | Some (state # _) \<Rightarrow>
                  if state \<noteq> Some ''ACTIVE'' then (False, s2) else (True, s2\<lparr>aw_initialized := True\<rparr>))"

definition aw_get_capabilities :: "aws_hsm \<Rightarrow> hsm_capabilities" where
  "aw_get_capabilities s =
     \<lparr>hc_hsm_type = AWS_CLOUD_HSM, hc_supports_pqc = False, hc_max_key_slots = 10000,
      hc_firmware_version = ''AWS-CloudHSM-3.x'',
      hc_hardware_serial = (case or_env (aw_cluster_id s) None of None \<Rightarrow> ''KMS-MANAGED'' | Some c \<Rightarrow> c),
      hc_is_fips_certified = True,
      hc_supported_algorithms = [''RSA-2048'', ''RSA-4096'', ''P-256'', ''P-384'', ''AES-256-GCM'', ''HMAC-SHA256'']\<rparr>"

definition aws_spec :: "key_type \<Rightarrow> string \<times> string" where
  "aws_spec t =
     (case t of
        ML_DSA_65 \<Rightarrow> (''RSA_4096'', ''SIGN_VERIFY'')
      | AES_256_GCM \<Rightarrow> (''SYMMETRIC_DEFAULT'', ''ENCRYPT_DECRYPT'')
      | _ \<Rightarrow> (''ECC_NIST_P256'', ''SIGN_VERIFY''))"

definition aw_generate_key :: "hsm_world \<Rightarrow> key_type \<Rightarrow> string \<Rightarrow> aws_hsm \<Rightarrow> hsm_key option \<times> aws_hsm" where
  "aw_generate_key w t label s =
     (if \<not> aw_initialized s \<or> \<not> aw_kms_client s then (None, s)
      else
        let key_id = new_key_id ''aws-'' w label;
            (key_spec, key_usage) = aws_spec t
        in case w_kms_create_key w (''WarmLogic-'' @ label) key_usage key_spec of
             None \<Rightarrow> (None, s)
           | Some key_arn \<Rightarrow>
               let key = mk_key w key_id t label False True [(''arn'', key_arn), (''key_spec'', key_spec), (''region'', aw_region s)] in
               (Some key, s\<lparr>aw_key_arns := dset key_id key_arn (aw_key_arns s), aw_keys := dset key_id key (aw_keys s)\<rparr>))"

definition aw_delete_key :: "hsm_world \<Rightarrow> string \<Rightarrow> aws_hsm \<Rightarrow> bool \<times> aws_hsm" where
  "aw_delete_key w key_id s =
     (if dget (aw_keys s) key_id = None then (False, s)
      else case dget (aw_key_arns s) key_id of
        None \<Rightarrow> (True, s\<lparr>aw_keys := ddel key_id (aw_keys s)\<rparr>)
      | Some arn \<Rightarrow>
          if \<not> aw_kms_client s then (True, s\<lparr>aw_keys := ddel key_id (aw_keys s)\<rparr>)
          else if \<not> w_kms_schedule_deletion w arn then (False, s)
          else (True, s\<lparr>aw_key_arns := ddel key_id (aw_key_arns s), aw_keys := ddel key_id (aw_keys s)\<rparr>))"

definition aw_signing_algo :: "hsm_key option \<Rightarrow> string" where
  "aw_signing_algo key =
     (case key of
        None \<Rightarrow> ''ECDSA_SHA_256''
      | Some k \<Rightarrow> if dget (hk_metadata k) ''key_spec'' = Some ''RSA_4096'' then ''RSASSA_PSS_SHA_256'' else ''ECDSA_SHA_256'')"

definition aw_sign :: "hsm_world \<Rightarrow> string \<Rightarrow> bytes \<Rightarrow> aws_hsm \<Rightarrow> hsm_signature option" where
  "aw_sign w key_id data s =
     (case dget (aw_key_arns s) key_id of
        None \<Rightarrow> None
      | Some arn \<Rightarrow>
          if \<not> aw_kms_client s then None
          else
            let algo = aw_signing_algo (dget (aw_keys s) key_id) in
            (case w_kms_sign w arn data algo of
               None \<Rightarrow> None
             | Some (Inl sig) \<Rightarrow> Some (mk_signature w (hex_text sig) key_id algo)
             | Some (Inr sig) \<Rightarrow> Some (mk_signature w sig key_id algo)))"

definition aw_verify :: "hsm_world \<Rightarrow> string \<Rightarrow> bytes \<Rightarrow> bytes \<Rightarrow> aws_hsm \<Rightarrow> bool" where
  "aw_verify w key_id data signature s =
     (case dget (aw_key_arns s) key_id of
        None \<Rightarrow> False
      | Some arn \<Rightarrow>
          aw_kms_client s \<and>
          w_kms_verify w arn data signature (aw_signing_algo (dget (aw_keys s) key_id)) = Some (Some True))"

definition aw_get_public_key :: "hsm_world \<Rightarrow> string \<Rightarrow> aws_hsm \<Rightarrow> string option" where
  "aw_get_public_key w key_id s =
     (case dget (aw_key_arns s) key_id of
        None \<Rightarrow> None
      | Some arn \<Rightarrow>
          if \<not> aw_kms_client s then None
          else case w_kms_public_key w arn of
            None \<Rightarrow> None
          | Some (Inl pk) \<Rightarrow> Some (hex_text pk)
          | Some (Inr pk) \<Rightarrow> if pk = [] then None else Some pk)"

section \<open>Azure\<close>

record azure_hsm =
  az_initialized :: bool
  az_vault_url :: "string option"
  az_keys :: "(string, hsm_key) dict"
  az_key_names :: "(string, string) dict"
  az_client :: bool
  az_crypto_clients :: "(string, string) dict"

definition az_new :: "hsm_world \<Rightarrow> string option \<Rightarrow> azure_hsm" where
  "az_new w vault_url =
     \<lparr>az_initialized = False, az_vault_url = or_env vault_url (w_environ w ''AZURE_KEYVAULT_URL''), az_keys = [],
      az_key_names = [], az_client = False, az_crypto_clients = []\<rparr>"

definition az_initialize :: "hsm_world \<Rightarrow> azure_hsm \<Rightarrow> bool \<times> azure_hsm" where
  "az_initialize w s =
     (if \<not> hsm_truthy (az_vault_url s) then (False, s)
      else case w_azure_client w (the (az_vault_url s)) of
        None \<Rightarrow> (False, s)
      | Some c \<Rightarrow>
          let s1 = s\<lparr>az_client := c\<rparr> in
          if \<not> c \<or> \<not> w_azure_list w then (False, s1) else (True, s1\<lparr>az_initialized := True\<rparr>))"

definition az_url :: "azure_hsm \<Rightarrow> string" where
  "az_url s = (case az_vault_url s of None \<Rightarrow> [] | Some u \<Rightarrow> u)"

definition az_get_capabilities :: "azure_hsm \<Rightarrow> hsm_capabilities" where
  "az_get_capabilities s =
     \<lparr>hc_hsm_type = AZURE_KEY_VAULT, hc_supports_pqc = False, hc_max_key_slots = 5000,
      hc_firmware_version = (if \<not> str_in ''managedhsm'' (py_lower (az_url s)) then ''Azure-KeyVault-Premium'' else ''Azure-ManagedHSM''),
      hc_hardware_serial = (if az_url s = [] then ''unknown'' else az_url s), hc_is_fips_certified = True,
      hc_supported_algorithms = [''RSA-2048'', ''RSA-4096'', ''P-256'', ''P-384'', ''P-521'', ''AES-256'']\<rparr>"

definition cloud_key_name :: "string \<Rightarrow> string \<Rightarrow> string" where
  "cloud_key_name label key_id = ''warmlogic-'' @ py_lower (str_replace '' '' ''-'' label) @ ''-'' @ last_n 8 key_id"

definition az_generate_key :: "hsm_world \<Rightarrow> key_type \<Rightarrow> string \<Rightarrow> azure_hsm \<Rightarrow> hsm_key option \<times> azure_hsm" where
  "az_generate_key w t label s =
     (if \<not> az_initialized s \<or> \<not> az_client s then (None, s)
      else
        let key_id = new_key_id ''azure-'' w label;
            vault_key_name = cloud_key_name label key_id;
            created = (if t = AES_256_GCM then w_azure_create_oct w vault_key_name else w_azure_create_ec w vault_key_name)
        in case created of
             None \<Rightarrow> (None, s)
           | Some url \<Rightarrow>
               let s1 = s\<lparr>az_key_names := dset key_id vault_key_name (az_key_names s)\<rparr> in
               if \<not> w_azure_crypto w url then (None, s1)
               else
                 let key = mk_key w key_id t label False True
                       [(''vault_key_name'', vault_key_name), (''vault_url'', az_url s), (''key_id_url'', url)] in
                 (Some key, s1\<lparr>az_crypto_clients := dset key_id url (az_crypto_clients s), az_keys := dset key_id key (az_keys s)\<rparr>))"

definition az_delete_key :: "hsm_world \<Rightarrow> string \<Rightarrow> azure_hsm \<Rightarrow> bool \<times> azure_hsm" where
  "az_delete_key w key_id s =
     (if dget (az_keys s) key_id = None then (False, s)
      else
        let finish = (\<lambda>s1. (True, s1\<lparr>az_crypto_clients := ddel key_id (az_crypto_clients s1), az_keys := ddel key_id (az_keys s1)\<rparr>)) in
        case dget (az_key_names s) key_id of
          None \<Rightarrow> finish s
        | Some name \<Rightarrow>
            if \<not> az_client s then finish s
            else if \<not> w_azure_delete w name then (False, s)
            else finish (s\<lparr>az_key_names := ddel key_id (az_key_names s)\<rparr>))"

definition az_sign :: "hsm_world \<Rightarrow> string \<Rightarrow> bytes \<Rightarrow> azure_hsm \<Rightarrow> hsm_signature option" where
  "az_sign w key_id data s =
     (case dget (az_crypto_clients s) key_id of
        None \<Rightarrow> None
      | Some url \<Rightarrow> map_option (\<lambda>sig. mk_signature w (hex_text sig) key_id ''ES256'') (w_azure_sign w url (w_sha256 w data)))"

definition az_verify :: "hsm_world \<Rightarrow> string \<Rightarrow> bytes \<Rightarrow> bytes \<Rightarrow> azure_hsm \<Rightarrow> bool" where
  "az_verify w key_id data signature s =
     (case dget (az_crypto_clients s) key_id of
        None \<Rightarrow> False
      | Some url \<Rightarrow> w_azure_verify w url (w_sha256 w data) signature = Some True)"

definition json_hex :: "bytes option \<Rightarrow> string" where
  "json_hex v = (case v of None \<Rightarrow> ''null'' | Some b \<Rightarrow> if b = [] then ''null'' else json_string (hex_text b))"

definition jwk_json :: "jwk \<Rightarrow> string" where
  "jwk_json k =
     ''{'' @ json_string ''kty'' @ '': '' @ json_string (jw_kty k) @ '', '' @
     json_string ''crv'' @ '': '' @ (case jw_crv k of None \<Rightarrow> ''null'' | Some c \<Rightarrow> json_string c) @ '', '' @
     json_string ''x'' @ '': '' @ json_hex (jw_x k) @ '', '' @ json_string ''y'' @ '': '' @ json_hex (jw_y k) @ ''}''"

definition az_get_public_key :: "hsm_world \<Rightarrow> string \<Rightarrow> azure_hsm \<Rightarrow> string option" where
  "az_get_public_key w key_id s =
     (case dget (az_key_names s) key_id of
        None \<Rightarrow> None
      | Some name \<Rightarrow>
          if \<not> az_client s then None
          else case w_azure_get_key w name of None \<Rightarrow> None | Some None \<Rightarrow> None | Some (Some k) \<Rightarrow> Some (jwk_json k))"

section \<open>Google Cloud\<close>

record gcp_hsm =
  gc_initialized :: bool
  gc_project_id :: "string option"
  gc_location :: string
  gc_key_ring :: string
  gc_keys :: "(string, hsm_key) dict"
  gc_key_names :: "(string, string) dict"
  gc_client :: bool
  gc_key_ring_name :: string

definition gc_new :: "hsm_world \<Rightarrow> string option \<Rightarrow> string option \<Rightarrow> string option \<Rightarrow> gcp_hsm" where
  "gc_new w project_id location key_ring =
     \<lparr>gc_initialized = False, gc_project_id = or_env project_id (w_environ w ''GCP_PROJECT_ID''),
      gc_location = (case or_env location None of None \<Rightarrow> getenv_or w ''GCP_KMS_LOCATION'' ''global'' | Some l \<Rightarrow> l),
      gc_key_ring = (case or_env key_ring None of None \<Rightarrow> getenv_or w ''GCP_KMS_KEY_RING'' ''warmlogic-keys'' | Some k \<Rightarrow> k),
      gc_keys = [], gc_key_names = [], gc_client = False, gc_key_ring_name = []\<rparr>"

definition gc_parent :: "gcp_hsm \<Rightarrow> string" where
  "gc_parent s = ''projects/'' @ the (gc_project_id s) @ ''/locations/'' @ gc_location s"

definition gc_initialize :: "hsm_world \<Rightarrow> gcp_hsm \<Rightarrow> bool \<times> gcp_hsm" where
  "gc_initialize w s =
     (if \<not> hsm_truthy (gc_project_id s) then (False, s)
      else case w_gcp_client w of
        None \<Rightarrow> (False, s)
      | Some c \<Rightarrow>
          let s1 = s\<lparr>gc_client := c\<rparr>;
              key_ring_name = gc_parent s @ ''/keyRings/'' @ gc_key_ring s
          in if \<not> c then (False, s1)
             else if \<not> w_gcp_get_ring w key_ring_name \<and> \<not> w_gcp_create_ring w (gc_parent s) (gc_key_ring s) then (False, s1)
             else (True, s1\<lparr>gc_key_ring_name := key_ring_name, gc_initialized := True\<rparr>))"

definition gc_get_capabilities :: "gcp_hsm \<Rightarrow> hsm_capabilities" where
  "gc_get_capabilities s =
     \<lparr>hc_hsm_type = GCP_CLOUD_KMS, hc_supports_pqc = False, hc_max_key_slots = 10000,
      hc_firmware_version = ''GCP-CloudKMS-HSM'',
      hc_hardware_serial = (case or_env (gc_project_id s) None of None \<Rightarrow> ''unknown'' | Some p \<Rightarrow> p),
      hc_is_fips_certified = True,
      hc_supported_algorithms = [''RSA-2048'', ''RSA-4096'', ''P-256'', ''P-384'', ''AES-256-GCM'', ''HMAC-SHA256'']\<rparr>"

definition gcp_purpose :: "key_type \<Rightarrow> string \<times> string" where
  "gcp_purpose t = (if t = AES_256_GCM then (''ENCRYPT_DECRYPT'', ''GOOGLE_SYMMETRIC_ENCRYPTION'')
                    else (''ASYMMETRIC_SIGN'', ''EC_SIGN_P256_SHA256''))"

definition gc_generate_key :: "hsm_world \<Rightarrow> key_type \<Rightarrow> string \<Rightarrow> gcp_hsm \<Rightarrow> hsm_key option \<times> gcp_hsm" where
  "gc_generate_key w t label s =
     (if \<not> gc_initialized s \<or> \<not> gc_client s then (None, s)
      else
        let key_id = new_key_id ''gcp-'' w label;
            (purpose, algorithm) = gcp_purpose t
        in case w_gcp_create_key w (gc_key_ring_name s) (cloud_key_name label key_id) purpose algorithm of
             None \<Rightarrow> (None, s)
           | Some name \<Rightarrow>
               let version = name @ ''/cryptoKeyVersions/1'';
                   key = mk_key w key_id t label False True
                     [(''crypto_key_name'', name), (''key_version_name'', version),
                      (''project'', the (gc_project_id s)), (''location'', gc_location s)]
               in (Some key, s\<lparr>gc_key_names := dset key_id version (gc_key_names s), gc_keys := dset key_id key (gc_keys s)\<rparr>))"

definition gc_delete_key :: "hsm_world \<Rightarrow> string \<Rightarrow> gcp_hsm \<Rightarrow> bool \<times> gcp_hsm" where
  "gc_delete_key w key_id s =
     (if dget (gc_keys s) key_id = None then (False, s)
      else case dget (gc_key_names s) key_id of
        None \<Rightarrow> (True, s\<lparr>gc_keys := ddel key_id (gc_keys s)\<rparr>)
      | Some name \<Rightarrow>
          if \<not> gc_client s then (True, s\<lparr>gc_keys := ddel key_id (gc_keys s)\<rparr>)
          else if \<not> w_gcp_destroy w name then (False, s)
          else (True, s\<lparr>gc_key_names := ddel key_id (gc_key_names s), gc_keys := ddel key_id (gc_keys s)\<rparr>))"

definition gc_sign :: "hsm_world \<Rightarrow> string \<Rightarrow> bytes \<Rightarrow> gcp_hsm \<Rightarrow> hsm_signature option" where
  "gc_sign w key_id data s =
     (case dget (gc_key_names s) key_id of
        None \<Rightarrow> None
      | Some name \<Rightarrow>
          if \<not> gc_client s then None
          else map_option (\<lambda>sig. mk_signature w (hex_text sig) key_id ''EC_SIGN_P256_SHA256'') (w_gcp_sign w name (w_sha256 w data)))"

definition gc_verify :: "hsm_world \<Rightarrow> string \<Rightarrow> bytes \<Rightarrow> bytes \<Rightarrow> gcp_hsm \<Rightarrow> bool" where
  "gc_verify w key_id data signature s =
     (case dget (gc_key_names s) key_id of
        None \<Rightarrow> False
      | Some name \<Rightarrow> gc_client s \<and> w_gcp_verify w name (w_sha256 w data) signature = Some True)"

definition gc_get_public_key :: "hsm_world \<Rightarrow> string \<Rightarrow> gcp_hsm \<Rightarrow> string option" where
  "gc_get_public_key w key_id s =
     (case dget (gc_key_names s) key_id of
        None \<Rightarrow> None
      | Some name \<Rightarrow>
          if \<not> gc_client s then None
          else case w_gcp_public_key w name of None \<Rightarrow> None | Some pem \<Rightarrow> if pem = [] then None else Some pem)"

section \<open>Dispatch\<close>

datatype provider =
    SoftwareHSM software_hsm | AppleSecureEnclaveHSM apple_hsm | TPM20HSM tpm_hsm
  | AWSCloudHSM aws_hsm | AzureKeyVaultHSM azure_hsm | GCPCloudKMSHSM gcp_hsm

fun hsm_initialize :: "hsm_world \<Rightarrow> provider \<Rightarrow> bool \<times> provider" where
  "hsm_initialize w (SoftwareHSM s) = map_prod id SoftwareHSM (sw_initialize s)"
| "hsm_initialize w (AppleSecureEnclaveHSM s) = map_prod id AppleSecureEnclaveHSM (ap_initialize w s)"
| "hsm_initialize w (TPM20HSM s) = map_prod id TPM20HSM (tp_initialize w s)"
| "hsm_initialize w (AWSCloudHSM s) = map_prod id AWSCloudHSM (aw_initialize w s)"
| "hsm_initialize w (AzureKeyVaultHSM s) = map_prod id AzureKeyVaultHSM (az_initialize w s)"
| "hsm_initialize w (GCPCloudKMSHSM s) = map_prod id GCPCloudKMSHSM (gc_initialize w s)"

fun hsm_get_capabilities :: "hsm_world \<Rightarrow> provider \<Rightarrow> hsm_capabilities" where
  "hsm_get_capabilities w (SoftwareHSM s) = sw_get_capabilities"
| "hsm_get_capabilities w (AppleSecureEnclaveHSM s) = ap_get_capabilities w s"
| "hsm_get_capabilities w (TPM20HSM s) = tp_get_capabilities w s"
| "hsm_get_capabilities w (AWSCloudHSM s) = aw_get_capabilities s"
| "hsm_get_capabilities w (AzureKeyVaultHSM s) = az_get_capabilities s"
| "hsm_get_capabilities w (GCPCloudKMSHSM s) = gc_get_capabilities s"

fun hsm_generate_key :: "hsm_world \<Rightarrow> key_type \<Rightarrow> string \<Rightarrow> provider \<Rightarrow> hsm_key option \<times> provider" where
  "hsm_generate_key w t l (SoftwareHSM s) = map_prod id SoftwareHSM (sw_generate_key w t l s)"
| "hsm_generate_key w t l (AppleSecureEnclaveHSM s) = map_prod id AppleSecureEnclaveHSM (ap_generate_key w t l s)"
| "hsm_generate_key w t l (TPM20HSM s) = map_prod id TPM20HSM (tp_generate_key w t l s)"
| "hsm_generate_key w t l (AWSCloudHSM s) = map_prod id AWSCloudHSM (aw_generate_key w t l s)"
| "hsm_generate_key w t l (AzureKeyVaultHSM s) = map_prod id AzureKeyVaultHSM (az_generate_key w t l s)"
| "hsm_generate_key w t l (GCPCloudKMSHSM s) = map_prod id GCPCloudKMSHSM (gc_generate_key w t l s)"

fun hsm_keys :: "provider \<Rightarrow> (string, hsm_key) dict" where
  "hsm_keys (SoftwareHSM s) = sw_keys s"
| "hsm_keys (AppleSecureEnclaveHSM s) = ap_keys s"
| "hsm_keys (TPM20HSM s) = tp_keys s"
| "hsm_keys (AWSCloudHSM s) = aw_keys s"
| "hsm_keys (AzureKeyVaultHSM s) = az_keys s"
| "hsm_keys (GCPCloudKMSHSM s) = gc_keys s"

definition hsm_get_key :: "string \<Rightarrow> provider \<Rightarrow> hsm_key option" where
  "hsm_get_key key_id p = dget (hsm_keys p) key_id"

fun hsm_delete_key :: "hsm_world \<Rightarrow> string \<Rightarrow> provider \<Rightarrow> bool \<times> provider" where
  "hsm_delete_key w k (SoftwareHSM s) = map_prod id SoftwareHSM (sw_delete_key k s)"
| "hsm_delete_key w k (AppleSecureEnclaveHSM s) = map_prod id AppleSecureEnclaveHSM (ap_delete_key k s)"
| "hsm_delete_key w k (TPM20HSM s) = map_prod id TPM20HSM (tp_delete_key k s)"
| "hsm_delete_key w k (AWSCloudHSM s) = map_prod id AWSCloudHSM (aw_delete_key w k s)"
| "hsm_delete_key w k (AzureKeyVaultHSM s) = map_prod id AzureKeyVaultHSM (az_delete_key w k s)"
| "hsm_delete_key w k (GCPCloudKMSHSM s) = map_prod id GCPCloudKMSHSM (gc_delete_key w k s)"

fun hsm_sign :: "hsm_world \<Rightarrow> string \<Rightarrow> bytes \<Rightarrow> provider \<Rightarrow> hsm_signature option \<times> provider" where
  "hsm_sign w k d (SoftwareHSM s) = (sw_sign w k d s, SoftwareHSM s)"
| "hsm_sign w k d (AppleSecureEnclaveHSM s) = map_prod id AppleSecureEnclaveHSM (ap_sign w k d s)"
| "hsm_sign w k d (TPM20HSM s) = map_prod id TPM20HSM (tp_sign w k d s)"
| "hsm_sign w k d (AWSCloudHSM s) = (aw_sign w k d s, AWSCloudHSM s)"
| "hsm_sign w k d (AzureKeyVaultHSM s) = (az_sign w k d s, AzureKeyVaultHSM s)"
| "hsm_sign w k d (GCPCloudKMSHSM s) = (gc_sign w k d s, GCPCloudKMSHSM s)"

fun hsm_verify :: "hsm_world \<Rightarrow> string \<Rightarrow> bytes \<Rightarrow> bytes \<Rightarrow> provider \<Rightarrow> bool \<times> provider" where
  "hsm_verify w k d g (SoftwareHSM s) = (sw_verify w k d g s, SoftwareHSM s)"
| "hsm_verify w k d g (AppleSecureEnclaveHSM s) = map_prod id AppleSecureEnclaveHSM (ap_verify w k d g s)"
| "hsm_verify w k d g (TPM20HSM s) = map_prod id TPM20HSM (tp_verify w k d g s)"
| "hsm_verify w k d g (AWSCloudHSM s) = (aw_verify w k d g s, AWSCloudHSM s)"
| "hsm_verify w k d g (AzureKeyVaultHSM s) = (az_verify w k d g s, AzureKeyVaultHSM s)"
| "hsm_verify w k d g (GCPCloudKMSHSM s) = (gc_verify w k d g s, GCPCloudKMSHSM s)"

fun hsm_get_public_key :: "hsm_world \<Rightarrow> string \<Rightarrow> provider \<Rightarrow> string option \<times> provider" where
  "hsm_get_public_key w k (SoftwareHSM s) = (sw_get_public_key k s, SoftwareHSM s)"
| "hsm_get_public_key w k (AppleSecureEnclaveHSM s) = (ap_get_public_key w k s, AppleSecureEnclaveHSM s)"
| "hsm_get_public_key w k (TPM20HSM s) = map_prod id TPM20HSM (tp_get_public_key w k s)"
| "hsm_get_public_key w k (AWSCloudHSM s) = (aw_get_public_key w k s, AWSCloudHSM s)"
| "hsm_get_public_key w k (AzureKeyVaultHSM s) = (az_get_public_key w k s, AzureKeyVaultHSM s)"
| "hsm_get_public_key w k (GCPCloudKMSHSM s) = (gc_get_public_key w k s, GCPCloudKMSHSM s)"

section \<open>Manager\<close>

record hsm_manager =
  hm_provider :: "provider option"
  hm_hsm_type :: "hsm_type option"
  hm_preferred :: "hsm_type option"

definition hm_new :: "hsm_type option \<Rightarrow> hsm_manager" where
  "hm_new preferred = \<lparr>hm_provider = None, hm_hsm_type = None, hm_preferred = preferred\<rparr>"

definition preferred_provider :: "hsm_world \<Rightarrow> files \<Rightarrow> hsm_type \<Rightarrow> (hsm_type \<times> provider) list" where
  "preferred_provider w f t =
     (case t of
        APPLE_SECURE_ENCLAVE \<Rightarrow> [(t, AppleSecureEnclaveHSM (ap_new f))]
      | TPM_2_0 \<Rightarrow> [(t, TPM20HSM (tp_new f))]
      | SOFTWARE \<Rightarrow> [(t, SoftwareHSM sw_new)]
      | AWS_CLOUD_HSM \<Rightarrow> [(t, AWSCloudHSM (aw_new w None None))]
      | AZURE_KEY_VAULT \<Rightarrow> [(t, AzureKeyVaultHSM (az_new w None))]
      | GCP_CLOUD_KMS \<Rightarrow> [(t, GCPCloudKMSHSM (gc_new w None None None))]
      | _ \<Rightarrow> [])"

definition detected_providers :: "hsm_world \<Rightarrow> files \<Rightarrow> (hsm_type \<times> provider) list" where
  "detected_providers w f =
     (let env = (\<lambda>n. hsm_truthy (w_environ w n)) in
      (if env ''AWS_CLOUDHSM_CLUSTER_ID'' then preferred_provider w f AWS_CLOUD_HSM else []) @
      (if env ''AZURE_KEYVAULT_URL'' then preferred_provider w f AZURE_KEY_VAULT else []) @
      (if env ''GCP_PROJECT_ID'' \<and> env ''GCP_KMS_KEY_RING'' then preferred_provider w f GCP_CLOUD_KMS else []) @
      (if w_platform w = ''Darwin'' then preferred_provider w f APPLE_SECURE_ENCLAVE
       else if w_platform w = ''Linux'' then preferred_provider w f TPM_2_0 else []) @
      preferred_provider w f SOFTWARE)"

fun try_providers :: "hsm_world \<Rightarrow> (hsm_type \<times> provider) list \<Rightarrow> hsm_manager \<Rightarrow> bool \<times> hsm_manager" where
  "try_providers w [] m = (False, m)"
| "try_providers w ((t, p) # ps) m =
     (let (ok, p') = hsm_initialize w p in
      if ok then (True, m\<lparr>hm_provider := Some p', hm_hsm_type := Some t\<rparr>) else try_providers w ps m)"

definition hm_initialize :: "hsm_world \<Rightarrow> files \<Rightarrow> hsm_manager \<Rightarrow> bool \<times> hsm_manager" where
  "hm_initialize w f m =
     try_providers w (case hm_preferred m of Some t \<Rightarrow> preferred_provider w f t | None \<Rightarrow> detected_providers w f) m"

definition hm_get_capabilities :: "hsm_world \<Rightarrow> hsm_manager \<Rightarrow> hsm_capabilities option" where
  "hm_get_capabilities w m = map_option (hsm_get_capabilities w) (hm_provider m)"

text \<open>A call that is forwarded to the provider when there is one.\<close>

definition forward :: "'a \<Rightarrow> (provider \<Rightarrow> 'a \<times> provider) \<Rightarrow> hsm_manager \<Rightarrow> 'a \<times> hsm_manager" where
  "forward d f m = (case hm_provider m of None \<Rightarrow> (d, m) | Some p \<Rightarrow> let (r, p') = f p in (r, m\<lparr>hm_provider := Some p'\<rparr>))"

definition generate_signing_key :: "hsm_world \<Rightarrow> string \<Rightarrow> hsm_manager \<Rightarrow> hsm_key option \<times> hsm_manager" where
  "generate_signing_key w label = forward None (hsm_generate_key w ML_DSA_65 label)"

definition generate_kem_key :: "hsm_world \<Rightarrow> string \<Rightarrow> hsm_manager \<Rightarrow> hsm_key option \<times> hsm_manager" where
  "generate_kem_key w label = forward None (hsm_generate_key w ML_KEM_768 label)"

definition hm_sign :: "hsm_world \<Rightarrow> string \<Rightarrow> bytes \<Rightarrow> hsm_manager \<Rightarrow> hsm_signature option \<times> hsm_manager" where
  "hm_sign w key_id data = forward None (hsm_sign w key_id data)"

definition hm_verify :: "hsm_world \<Rightarrow> string \<Rightarrow> bytes \<Rightarrow> bytes \<Rightarrow> hsm_manager \<Rightarrow> bool \<times> hsm_manager" where
  "hm_verify w key_id data signature = forward False (hsm_verify w key_id data signature)"

definition hm_get_public_key :: "hsm_world \<Rightarrow> string \<Rightarrow> hsm_manager \<Rightarrow> string option \<times> hsm_manager" where
  "hm_get_public_key w key_id = forward None (hsm_get_public_key w key_id)"

text \<open>The process-wide manager: created on first use, replaced by every initialisation.\<close>

definition get_hsm_manager :: "hsm_manager option \<Rightarrow> hsm_manager" where
  "get_hsm_manager g = (case g of None \<Rightarrow> hm_new None | Some m \<Rightarrow> m)"

definition initialize_hsm :: "hsm_world \<Rightarrow> files \<Rightarrow> hsm_type option \<Rightarrow> bool \<times> hsm_manager option" where
  "initialize_hsm w f preferred = map_prod id Some (hm_initialize w f (hm_new preferred))"

section \<open>What a provider promises\<close>

text \<open>
  The contract of \<open>HSMProvider\<close>: \<open>knows s k\<close> says that provider state \<open>s\<close> can reach some key material
  under the id \<open>k\<close>. Generating a key touches that one id, deleting forgets the id completely, using a
  key changes neither, and an id that is not known answers nothing.
\<close>

datatype key_op =
    Generate hsm_world key_type string
  | Delete hsm_world string
  | Sign hsm_world string bytes
  | Verify hsm_world string bytes bytes
  | PublicKey hsm_world string

locale hsm_provider =
  fixes keys :: "'s \<Rightarrow> (string, hsm_key) dict"
    and knows :: "'s \<Rightarrow> string \<Rightarrow> bool"
    and inv :: "'s \<Rightarrow> bool"
    and new_id :: "'s \<Rightarrow> hsm_world \<Rightarrow> string \<Rightarrow> string"
    and init :: "hsm_world \<Rightarrow> 's \<Rightarrow> bool \<times> 's"
    and gen :: "hsm_world \<Rightarrow> key_type \<Rightarrow> string \<Rightarrow> 's \<Rightarrow> hsm_key option \<times> 's"
    and del :: "hsm_world \<Rightarrow> string \<Rightarrow> 's \<Rightarrow> bool \<times> 's"
    and sgn :: "hsm_world \<Rightarrow> string \<Rightarrow> bytes \<Rightarrow> 's \<Rightarrow> hsm_signature option \<times> 's"
    and ver :: "hsm_world \<Rightarrow> string \<Rightarrow> bytes \<Rightarrow> bytes \<Rightarrow> 's \<Rightarrow> bool \<times> 's"
    and pub :: "hsm_world \<Rightarrow> string \<Rightarrow> 's \<Rightarrow> string option \<times> 's"
  assumes init_inv: "fst (init w s) \<Longrightarrow> inv (snd (init w s))"
    and gen_inv: "inv s \<Longrightarrow> inv (snd (gen w t l s))"
    and gen_new: "fst (gen w t l s) = Some key \<Longrightarrow>
      hk_key_id key = new_id s w l \<and> hk_key_type key = t \<and> dget (keys (snd (gen w t l s))) (new_id s w l) = Some key"
    and gen_other: "k \<noteq> new_id s w l \<Longrightarrow>
      knows (snd (gen w t l s)) k = knows s k \<and> dget (keys (snd (gen w t l s))) k = dget (keys s) k"
    and del_inv: "inv s \<Longrightarrow> inv (snd (del w k s))"
    and del_gone: "inv s \<Longrightarrow> fst (del w k s) \<Longrightarrow> \<not> knows (snd (del w k s)) k"
    and del_other: "k' \<noteq> k \<Longrightarrow>
      knows (snd (del w k s)) k' = knows s k' \<and> dget (keys (snd (del w k s))) k' = dget (keys s) k'"
    and del_unknown: "\<not> knows s k \<Longrightarrow> del w k s = (False, s)"
    and sgn_keeps: "keys (snd (sgn w k d s)) = keys s \<and> knows (snd (sgn w k d s)) k' = knows s k' \<and> (inv s \<longrightarrow> inv (snd (sgn w k d s)))"
    and ver_keeps: "keys (snd (ver w k d g s)) = keys s \<and> knows (snd (ver w k d g s)) k' = knows s k' \<and> (inv s \<longrightarrow> inv (snd (ver w k d g s)))"
    and pub_keeps: "keys (snd (pub w k s)) = keys s \<and> knows (snd (pub w k s)) k' = knows s k' \<and> (inv s \<longrightarrow> inv (snd (pub w k s)))"
    and unknown: "\<not> knows s k \<Longrightarrow>
      fst (sgn w k d s) = None \<and> \<not> fst (ver w k d g s) \<and> fst (pub w k s) = None \<and> dget (keys s) k = None"
begin

fun step :: "key_op \<Rightarrow> 's \<Rightarrow> 's" where
  "step (Generate w t l) s = snd (gen w t l s)"
| "step (Delete w k) s = snd (del w k s)"
| "step (Sign w k d) s = snd (sgn w k d s)"
| "step (Verify w k d g) s = snd (ver w k d g s)"
| "step (PublicKey w k) s = snd (pub w k s)"

fun avoids :: "string \<Rightarrow> key_op \<Rightarrow> 's \<Rightarrow> bool" where
  "avoids k (Generate w t l) s \<longleftrightarrow> new_id s w l \<noteq> k"
| "avoids k _ s \<longleftrightarrow> True"

fun spares :: "string \<Rightarrow> key_op \<Rightarrow> 's \<Rightarrow> bool" where
  "spares k (Generate w t l) s \<longleftrightarrow> new_id s w l \<noteq> k"
| "spares k (Delete w k') s \<longleftrightarrow> k' \<noteq> k"
| "spares k _ s \<longleftrightarrow> True"

lemma step_inv: "inv s \<Longrightarrow> inv (step x s)"
  by (cases x) (simp_all add: gen_inv del_inv sgn_keeps ver_keeps pub_keeps)

lemma run_inv: "inv s \<Longrightarrow> inv (fold step ops s)"
  by (induction ops arbitrary: s) (simp_all add: step_inv)

lemma step_unknown: "\<not> knows s k \<Longrightarrow> avoids k x s \<Longrightarrow> \<not> knows (step x s) k"
proof (cases x)
  case (Delete w k')
  then show "\<not> knows s k \<Longrightarrow> avoids k x s \<Longrightarrow> \<not> knows (step x s) k"
    by (cases "k = k'") (simp_all add: del_unknown del_other)
qed (simp_all add: gen_other sgn_keeps ver_keeps pub_keeps)

lemma run_unknown: "\<not> knows s k \<Longrightarrow> guarded (avoids k) step ops s \<Longrightarrow> \<not> knows (fold step ops s) k"
  by (induction ops arbitrary: s) (simp_all add: step_unknown)

lemma step_held: "spares k x s \<Longrightarrow> dget (keys (step x s)) k = dget (keys s) k"
  by (cases x) (simp_all add: gen_other del_other sgn_keeps ver_keeps pub_keeps)

lemma run_held: "guarded (spares k) step ops s \<Longrightarrow> dget (keys (fold step ops s)) k = dget (keys s) k"
  by (induction ops arbitrary: s) (simp_all add: step_held)

lemma deleted_is_dead:
  assumes "inv s" "fst (del w k s)" "guarded (avoids k) step ops (snd (del w k s))"
  shows "fst (sgn w' k d (fold step ops (snd (del w k s)))) = None \<and>
    \<not> fst (ver w' k d g (fold step ops (snd (del w k s)))) \<and> fst (pub w' k (fold step ops (snd (del w k s)))) = None \<and>
    dget (keys (fold step ops (snd (del w k s)))) k = None"
  using unknown [OF run_unknown [OF del_gone [OF assms(1,2)] assms(3)]] by blast

lemma generated_is_held:
  assumes "fst (gen w t l s) = Some key" "guarded (spares (hk_key_id key)) step ops (snd (gen w t l s))"
  shows "dget (keys (fold step ops (snd (gen w t l s)))) (hk_key_id key) = Some key"
  using run_held [OF assms(2)] gen_new [OF assms(1)] by simp

end

section \<open>The six providers keep the promise\<close>

definition sw_knows :: "software_hsm \<Rightarrow> string \<Rightarrow> bool" where
  "sw_knows s k \<longleftrightarrow> dget (sw_key_material s) k \<noteq> None \<or> dget (sw_keys s) k \<noteq> None"

definition ap_knows :: "apple_hsm \<Rightarrow> string \<Rightarrow> bool" where
  "ap_knows s k \<longleftrightarrow> dget (ap_key_refs s) k \<noteq> None \<or> dget (ap_keys s) k \<noteq> None"

definition tp_knows :: "tpm_hsm \<Rightarrow> string \<Rightarrow> bool" where
  "tp_knows s k \<longleftrightarrow> dget (tp_key_handles s) k \<noteq> None \<or> dget (tp_keys s) k \<noteq> None"

definition aw_knows :: "aws_hsm \<Rightarrow> string \<Rightarrow> bool" where
  "aw_knows s k \<longleftrightarrow> dget (aw_key_arns s) k \<noteq> None \<or> dget (aw_keys s) k \<noteq> None"

definition az_knows :: "azure_hsm \<Rightarrow> string \<Rightarrow> bool" where
  "az_knows s k \<longleftrightarrow> dget (az_key_names s) k \<noteq> None \<or> dget (az_crypto_clients s) k \<noteq> None \<or> dget (az_keys s) k \<noteq> None"

definition gc_knows :: "gcp_hsm \<Rightarrow> string \<Rightarrow> bool" where
  "gc_knows s k \<longleftrightarrow> dget (gc_key_names s) k \<noteq> None \<or> dget (gc_keys s) k \<noteq> None"

interpretation software: hsm_provider sw_keys
  sw_knows "\<lambda>s :: software_hsm. True" "\<lambda>s. new_key_id ''sw-''"
  "\<lambda>w. sw_initialize" sw_generate_key "\<lambda>w. sw_delete_key" "\<lambda>w k d s. (sw_sign w k d s, s)" "\<lambda>w k d g s. (sw_verify w k d g s, s)"
  "\<lambda>w k s. (sw_get_public_key k s, s)"
  by unfold_locales
    (auto simp: sw_knows_def sw_generate_key_def sw_delete_key_def sw_sign_def sw_verify_def sw_get_public_key_def Let_def
      split: option.splits key_type.splits)

lemmas apple_defs = ap_generate_key_def ap_delete_key_def ap_sign_def ap_verify_def ap_get_public_key_def run_rc_def

interpretation apple: hsm_provider ap_keys
  ap_knows "\<lambda>s :: apple_hsm. True" "\<lambda>s. new_key_id ''se-''"
  ap_initialize ap_generate_key "\<lambda>w. ap_delete_key" ap_sign ap_verify "\<lambda>w k s. (ap_get_public_key w k s, s)"
  by unfold_locales
    (auto simp: ap_knows_def apple_defs Let_def case_prod_unfold split: option.splits if_splits)

lemmas tpm_defs = tp_generate_key_def tp_delete_key_def tp_sign_def tp_verify_def tp_get_public_key_def run_rc_def

interpretation tpm: hsm_provider tp_keys
  tp_knows "\<lambda>s :: tpm_hsm. True" "\<lambda>s. new_key_id ''tpm-''"
  tp_initialize tp_generate_key "\<lambda>w. tp_delete_key" tp_sign tp_verify tp_get_public_key
  by unfold_locales
    (auto simp: tp_knows_def tpm_defs Let_def case_prod_unfold split: option.splits if_splits bool.splits)

interpretation aws: hsm_provider aw_keys
  aw_knows aw_kms_client "\<lambda>s. new_key_id ''aws-''"
  aw_initialize aw_generate_key aw_delete_key "\<lambda>w k d s. (aw_sign w k d s, s)" "\<lambda>w k d g s. (aw_verify w k d g s, s)"
  "\<lambda>w k s. (aw_get_public_key w k s, s)"
  by unfold_locales
    (auto simp: aw_knows_def aw_initialize_def aw_generate_key_def aw_delete_key_def aw_sign_def aw_verify_def aw_get_public_key_def Let_def
      case_prod_unfold split: option.splits list.splits sum.splits if_splits)

interpretation azure: hsm_provider az_keys
  az_knows az_client
  "\<lambda>s. new_key_id ''azure-''" az_initialize az_generate_key az_delete_key "\<lambda>w k d s. (az_sign w k d s, s)"
  "\<lambda>w k d g s. (az_verify w k d g s, s)" "\<lambda>w k s. (az_get_public_key w k s, s)"
  by unfold_locales
    (auto simp: az_knows_def az_initialize_def az_generate_key_def az_delete_key_def az_sign_def az_verify_def az_get_public_key_def Let_def
      split: option.splits if_splits)

interpretation gcp: hsm_provider gc_keys
  gc_knows gc_client "\<lambda>s. new_key_id ''gcp-''"
  gc_initialize gc_generate_key gc_delete_key "\<lambda>w k d s. (gc_sign w k d s, s)" "\<lambda>w k d g s. (gc_verify w k d g s, s)"
  "\<lambda>w k s. (gc_get_public_key w k s, s)"
  by unfold_locales
    (auto simp: gc_knows_def gc_initialize_def gc_generate_key_def gc_delete_key_def gc_sign_def gc_verify_def gc_get_public_key_def Let_def
      case_prod_unfold split: option.splits if_splits)

text \<open>Dynamic dispatch: the union of the six, with the predicates of each.\<close>

fun p_knows :: "provider \<Rightarrow> string \<Rightarrow> bool" where
  "p_knows (SoftwareHSM s) k = sw_knows s k"
| "p_knows (AppleSecureEnclaveHSM s) k = ap_knows s k"
| "p_knows (TPM20HSM s) k = tp_knows s k"
| "p_knows (AWSCloudHSM s) k = aw_knows s k"
| "p_knows (AzureKeyVaultHSM s) k = az_knows s k"
| "p_knows (GCPCloudKMSHSM s) k = gc_knows s k"

fun p_connected :: "provider \<Rightarrow> bool" where
  "p_connected (AWSCloudHSM s) = aw_kms_client s"
| "p_connected (AzureKeyVaultHSM s) = az_client s"
| "p_connected (GCPCloudKMSHSM s) = gc_client s"
| "p_connected _ = True"

fun p_prefix :: "provider \<Rightarrow> string" where
  "p_prefix (SoftwareHSM s) = ''sw-''"
| "p_prefix (AppleSecureEnclaveHSM s) = ''se-''"
| "p_prefix (TPM20HSM s) = ''tpm-''"
| "p_prefix (AWSCloudHSM s) = ''aws-''"
| "p_prefix (AzureKeyVaultHSM s) = ''azure-''"
| "p_prefix (GCPCloudKMSHSM s) = ''gcp-''"

lemmas provider_laws =
  software.init_inv software.gen_inv software.gen_new software.gen_other software.del_inv software.del_gone software.del_other software.del_unknown software.sgn_keeps software.ver_keeps software.pub_keeps software.unknown
  apple.init_inv apple.gen_inv apple.gen_new apple.gen_other apple.del_inv apple.del_gone apple.del_other apple.del_unknown apple.sgn_keeps apple.ver_keeps apple.pub_keeps apple.unknown
  tpm.init_inv tpm.gen_inv tpm.gen_new tpm.gen_other tpm.del_inv tpm.del_gone tpm.del_other tpm.del_unknown tpm.sgn_keeps tpm.ver_keeps tpm.pub_keeps tpm.unknown
  aws.init_inv aws.gen_inv aws.gen_new aws.gen_other aws.del_inv aws.del_gone aws.del_other aws.del_unknown aws.sgn_keeps aws.ver_keeps aws.pub_keeps aws.unknown
  azure.init_inv azure.gen_inv azure.gen_new azure.gen_other azure.del_inv azure.del_gone azure.del_other azure.del_unknown azure.sgn_keeps azure.ver_keeps azure.pub_keeps azure.unknown
  gcp.init_inv gcp.gen_inv gcp.gen_new gcp.gen_other gcp.del_inv gcp.del_gone gcp.del_other gcp.del_unknown gcp.sgn_keeps gcp.ver_keeps gcp.pub_keeps gcp.unknown

interpretation prov: hsm_provider hsm_keys p_knows p_connected "\<lambda>p. new_key_id (p_prefix p)" hsm_initialize hsm_generate_key
  hsm_delete_key hsm_sign hsm_verify hsm_get_public_key
proof unfold_locales
  fix p w t l key k k' d g
  show "p_connected (snd (hsm_initialize w p))" if "fst (hsm_initialize w p)" using that by (cases p) (simp_all add: provider_laws)
  show "p_connected (snd (hsm_generate_key w t l p))" if "p_connected p" using that by (cases p) (simp_all add: provider_laws)
  show "hk_key_id key = new_key_id (p_prefix p) w l \<and> hk_key_type key = t \<and>
      dget (hsm_keys (snd (hsm_generate_key w t l p))) (new_key_id (p_prefix p) w l) = Some key"
    if "fst (hsm_generate_key w t l p) = Some key"
    using that by (cases p) (auto dest: software.gen_new apple.gen_new tpm.gen_new aws.gen_new azure.gen_new gcp.gen_new)
  show "p_knows (snd (hsm_generate_key w t l p)) k = p_knows p k \<and>
      dget (hsm_keys (snd (hsm_generate_key w t l p))) k = dget (hsm_keys p) k" if "k \<noteq> new_key_id (p_prefix p) w l"
    using that by (cases p) (simp_all add: provider_laws)
  show "p_connected (snd (hsm_delete_key w k p))" if "p_connected p" using that by (cases p) (simp_all add: provider_laws)
  show "\<not> p_knows (snd (hsm_delete_key w k p)) k" if "p_connected p" "fst (hsm_delete_key w k p)"
    using that by (cases p) (simp_all add: provider_laws)
  show "p_knows (snd (hsm_delete_key w k p)) k' = p_knows p k' \<and>
      dget (hsm_keys (snd (hsm_delete_key w k p))) k' = dget (hsm_keys p) k'" if "k' \<noteq> k"
    using that by (cases p) (simp_all add: provider_laws)
  show "hsm_delete_key w k p = (False, p)" if "\<not> p_knows p k" using that by (cases p) (simp_all add: provider_laws)
  show "hsm_keys (snd (hsm_sign w k d p)) = hsm_keys p \<and> p_knows (snd (hsm_sign w k d p)) k' = p_knows p k' \<and>
      (p_connected p \<longrightarrow> p_connected (snd (hsm_sign w k d p)))"
    by (cases p) (simp_all add: provider_laws)
  show "hsm_keys (snd (hsm_verify w k d g p)) = hsm_keys p \<and> p_knows (snd (hsm_verify w k d g p)) k' = p_knows p k' \<and>
      (p_connected p \<longrightarrow> p_connected (snd (hsm_verify w k d g p)))"
    by (cases p) (simp_all add: provider_laws)
  show "hsm_keys (snd (hsm_get_public_key w k p)) = hsm_keys p \<and> p_knows (snd (hsm_get_public_key w k p)) k' = p_knows p k' \<and>
      (p_connected p \<longrightarrow> p_connected (snd (hsm_get_public_key w k p)))"
    by (cases p) (simp_all add: provider_laws)
  show "fst (hsm_sign w k d p) = None \<and> \<not> fst (hsm_verify w k d g p) \<and> fst (hsm_get_public_key w k p) = None \<and>
      dget (hsm_keys p) k = None" if "\<not> p_knows p k"
    using that software.unknown apple.unknown tpm.unknown aws.unknown azure.unknown gcp.unknown by (cases p) simp_all
qed

section \<open>Properties\<close>

fun provider_step :: "key_op \<Rightarrow> provider \<Rightarrow> provider" where
  "provider_step (Generate w t l) p = snd (hsm_generate_key w t l p)"
| "provider_step (Delete w k) p = snd (hsm_delete_key w k p)"
| "provider_step (Sign w k d) p = snd (hsm_sign w k d p)"
| "provider_step (Verify w k d g) p = snd (hsm_verify w k d g p)"
| "provider_step (PublicKey w k) p = snd (hsm_get_public_key w k p)"

fun generates :: "string \<Rightarrow> key_op \<Rightarrow> provider \<Rightarrow> bool" where
  "generates k (Generate w t l) p \<longleftrightarrow> new_key_id (p_prefix p) w l = k"
| "generates k _ p \<longleftrightarrow> False"

fun deletes :: "string \<Rightarrow> key_op \<Rightarrow> bool" where
  "deletes k (Delete w k') \<longleftrightarrow> k' = k"
| "deletes k _ \<longleftrightarrow> False"

lemma provider_step_eq [simp]: "prov.step = provider_step"
proof (intro ext)
  show "prov.step x p = provider_step x p" for x p by (cases x) simp_all
qed

lemma prov_avoids_eq [simp]: "prov.avoids k = (\<lambda>x p. \<not> generates k x p)"
proof (intro ext)
  show "prov.avoids k x p = (\<not> generates k x p)" for x p by (cases x) simp_all
qed

lemma prov_spares_eq [simp]: "prov.spares k = (\<lambda>x p. \<not> generates k x p \<and> \<not> deletes k x)"
proof (intro ext)
  show "prov.spares k x p = (\<not> generates k x p \<and> \<not> deletes k x)" for x p by (cases x) simp_all
qed

lemma try_providers_ok:
  "try_providers w ps m = (True, m') \<Longrightarrow>
   \<exists>qs t p p' rs. ps = qs @ (t, p) # rs \<and> (\<forall>q\<in>set qs. \<not> fst (hsm_initialize w (snd q))) \<and> hsm_initialize w p = (True, p') \<and>
     hm_provider m' = Some p' \<and> hm_hsm_type m' = Some t"
proof (induction ps)
  case (Cons q ps)
  obtain t p where q: "q = (t, p)" by fastforce
  obtain ok p' where i: "hsm_initialize w p = (ok, p')" by fastforce
  show ?case
  proof (cases ok)
    case True
    then show ?thesis using Cons.prems q i
      by (intro exI [of _ "[]"] exI [of _ t] exI [of _ p] exI [of _ p'] exI [of _ ps]) auto
  next
    case False
    with Cons.prems q i have "try_providers w ps m = (True, m')" by simp
    from Cons.IH [OF this] obtain qs t' p1 p1' rs where
      "ps = qs @ (t', p1) # rs" "\<forall>q\<in>set qs. \<not> fst (hsm_initialize w (snd q))" "hsm_initialize w p1 = (True, p1')"
      "hm_provider m' = Some p1'" "hm_hsm_type m' = Some t'" by blast
    then show ?thesis using q i False
      by (intro exI [of _ "q # qs"] exI [of _ t'] exI [of _ p1] exI [of _ p1'] exI [of _ rs]) auto
  qed
qed simp

lemma try_providers_last: "fst (hsm_initialize w p) \<Longrightarrow> fst (try_providers w (ps @ [(t, p)]) m)"
  by (induction ps) (auto simp: case_prod_unfold Let_def)

text \<open>
  C35. A key that was deleted is gone for good, whichever provider the manager chose and whatever calls
  preceded: until a key is generated under the same id again, it neither signs nor verifies, has no
  public key and no metadata, whatever the outside world answers.
\<close>
theorem deleted_keys_are_dead:
  assumes "hm_initialize w f (hm_new preferred) = (True, m)" and "hm_provider m = Some p0"
    and "hsm_delete_key w1 k (fold provider_step before p0) = (True, p1)"
    and "guarded (\<lambda>x p. \<not> generates k x p) provider_step after p1" and "p2 = fold provider_step after p1"
  shows "fst (hsm_sign w2 k d p2) = None \<and> \<not> fst (hsm_verify w2 k d g p2) \<and> fst (hsm_get_public_key w2 k p2) = None \<and>
    hsm_get_key k p2 = None"
proof -
  from assms(1) obtain p where "hsm_initialize w p = (True, p0)"
    unfolding hm_initialize_def using assms(2) by (auto dest!: try_providers_ok)
  then have "p_connected p0" using prov.init_inv [of w p] by simp
  then have "p_connected (fold provider_step before p0)" using prov.run_inv [of p0 before] by simp
  from prov.deleted_is_dead [OF this, of w1 k after] show ?thesis using assms(3-5) by (simp add: hsm_get_key_def)
qed

lemma held_after:
  assumes "hsm_generate_key w t label p = (Some key, p1)"
    and "guarded (\<lambda>x p. \<not> generates (hk_key_id key) x p \<and> \<not> deletes (hk_key_id key) x) provider_step ops p1"
  shows "dget (hsm_keys (fold provider_step ops p1)) (hk_key_id key) = Some key \<and> hk_key_type key = t"
proof -
  have "fst (hsm_generate_key w t label p) = Some key" "snd (hsm_generate_key w t label p) = p1" using assms(1) by simp_all
  then show ?thesis using prov.generated_is_held [of w t label p key ops] prov.gen_new [of w t label p key] assms(2) by simp
qed

text \<open>
  A key that a provider generated stays available under its id, with the type that was asked for,
  through all later calls but its deletion and the generation of a key with the same id.
\<close>
theorem generated_keys_are_held:
  assumes "hsm_generate_key w t label p = (Some key, p1)"
    and "guarded (\<lambda>x p. \<not> generates (hk_key_id key) x p \<and> \<not> deletes (hk_key_id key) x) provider_step ops p1"
  shows "hsm_get_key (hk_key_id key) (fold provider_step ops p1) = Some key \<and> hk_key_type key = t"
  using held_after [OF assms] by (simp add: hsm_get_key_def)

text \<open>
  Without a preference the manager always finds a provider: the first one, in the order cloud, local
  hardware, software, that could be initialised. With a preference for a type that has no
  implementation it never does.
\<close>
theorem detection_takes_first_available:
  "fst (hm_initialize w f (hm_new None)) \<and>
   (\<exists>qs t p p' rs. detected_providers w f = qs @ (t, p) # rs \<and> (\<forall>q\<in>set qs. \<not> fst (hsm_initialize w (snd q))) \<and>
      hsm_initialize w p = (True, p') \<and> hm_provider (snd (hm_initialize w f (hm_new None))) = Some p' \<and>
      hm_hsm_type (snd (hm_initialize w f (hm_new None))) = Some t) \<and>
   (u \<in> {PKCS11, YUBIKEY, CLOUDFLARE_KMS} \<longrightarrow> hm_initialize w f (hm_new (Some u)) = (False, hm_new (Some u)))"
proof -
  have init: "hm_initialize w f (hm_new None) = try_providers w (detected_providers w f) (hm_new None)"
    by (simp add: hm_initialize_def hm_new_def)
  have "\<exists>ps. detected_providers w f = ps @ [(SOFTWARE, SoftwareHSM sw_new)]"
    unfolding detected_providers_def Let_def preferred_provider_def [of w f SOFTWARE] by (simp only: append.assoc [symmetric] hsm_type.case) blast
  then have ok: "fst (hm_initialize w f (hm_new None))" unfolding init using try_providers_last by (auto simp: sw_initialize_def)
  then have "try_providers w (detected_providers w f) (hm_new None) = (True, snd (hm_initialize w f (hm_new None)))"
    unfolding init by (simp add: prod_eq_iff)
  from try_providers_ok [OF this] ok show ?thesis by (auto simp: hm_initialize_def hm_new_def preferred_provider_def)
qed

text \<open>What the software provider keeps of a signing key: its pair, as long as the key is neither deleted nor replaced.\<close>

lemma sw_step_material:
  assumes "\<not> generates k x (SoftwareHSM s)" "\<not> deletes k x"
  shows "\<exists>s'. provider_step x (SoftwareHSM s) = SoftwareHSM s' \<and> dget (sw_key_material s') k = dget (sw_key_material s) k"
  using assms by (cases x) (auto simp: sw_generate_key_def sw_delete_key_def Let_def split: option.splits key_type.splits)

lemma sw_run_material:
  "guarded (\<lambda>x p. \<not> generates k x p \<and> \<not> deletes k x) provider_step ops (SoftwareHSM s) \<Longrightarrow>
   \<exists>s'. fold provider_step ops (SoftwareHSM s) = SoftwareHSM s' \<and> dget (sw_key_material s') k = dget (sw_key_material s) k"
proof (induction ops arbitrary: s)
  case (Cons x ops)
  from Cons.prems obtain s1 where "provider_step x (SoftwareHSM s) = SoftwareHSM s1"
    "dget (sw_key_material s1) k = dget (sw_key_material s) k" using sw_step_material [of k x s] by auto
  with Cons.IH [of s1] Cons.prems show ?case by simp
qed simp

text \<open>
  A signature of the software provider verifies: when the native core made the pair \<open>(pk, sk)\<close> and
  its verification accepts what it signed with that pair, a key generated for signing signs any data
  after any calls that neither delete nor replace it, and the same key accepts the signature.
\<close>
theorem software_signatures_verify:
  assumes "w_rust w = Some ((pk, sk), kem)" and "t \<in> {ML_DSA_65, ED25519}"
    and "\<And>m. w_rs_verify wv pk m (w_rs_sign ws sk m)"
    and "hsm_generate_key w t label (SoftwareHSM s) = (Some key, p1)"
    and "guarded (\<lambda>x p. \<not> generates (hk_key_id key) x p \<and> \<not> deletes (hk_key_id key) x) provider_step ops p1"
    and "p = fold provider_step ops p1"
  shows "\<exists>sig. fst (hsm_sign ws (hk_key_id key) d p) = Some sig \<and> hg_key_id sig = hk_key_id key \<and>
    (\<forall>g. hex_text g = hg_signature_hex sig \<longrightarrow> fst (hsm_verify wv (hk_key_id key) d g p))"
proof -
  let ?k = "hk_key_id key"
  obtain s1 where p1: "p1 = SoftwareHSM s1" "dget (sw_key_material s1) ?k = Some (pk, sk)"
    using assms(1,2,4) by (auto simp: sw_generate_key_def Let_def)
  obtain s2 where p: "p = SoftwareHSM s2" "dget (sw_key_material s2) ?k = Some (pk, sk)"
    using sw_run_material [of ?k ops s1] assms(5,6) p1 by auto
  have "dget (hsm_keys p) ?k = Some key" "hk_key_type key = t"
    using held_after [OF assms(4,5)] assms(6) by simp_all
  then show ?thesis using p assms(2,3) by (auto simp: sw_sign_def sw_verify_def mk_signature_def)
qed

text \<open>
  Four things the interface does not do. Nobody asks whether a key has expired; a provider other than the
  software one signs with a key that was generated for key exchange; an Azure key whose cryptography
  client could not be made stays readable although generation reported failure and nothing can delete
  it; a failed signature leaves the data in the temporary directory.
\<close>

lemma expired_key_signs:
  assumes "dget (sw_key_material s) k = Some (pk, sk)" "dget (sw_keys s) k = Some key" "hk_key_type key = ML_DSA_65"
    and "hsm_is_expired (w_now w) key"
  shows "sw_sign w k d s \<noteq> None"
  using assms by (simp add: sw_sign_def)

lemma kem_key_signs:
  assumes "gc_initialized s" "gc_client s" "gc_generate_key w ML_KEM_768 l s = (Some key, s')" "\<And>n m. w_gcp_sign w' n m \<noteq> None"
  shows "gc_sign w' (hk_key_id key) d s' \<noteq> None"
  using assms by (auto simp: gc_generate_key_def gc_sign_def gcp_purpose_def Let_def split: option.splits)

lemma azure_orphan:
  assumes "az_initialized s" "az_client s" "t \<noteq> AES_256_GCM" "w_azure_create_ec w (cloud_key_name l (new_key_id ''azure-'' w l)) = Some url"
    and "\<not> w_azure_crypto w url" "dget (az_keys s) (new_key_id ''azure-'' w l) = None"
  shows "\<exists>s'. az_generate_key w t l s = (None, s') \<and> dget (az_key_names s') (new_key_id ''azure-'' w l) \<noteq> None \<and>
    az_delete_key w' (new_key_id ''azure-'' w l) s' = (False, s')"
  using assms by (auto simp: az_generate_key_def az_delete_key_def Let_def)

lemma failed_signature_leaves_data:
  assumes "dget (ap_key_refs s) k = Some path" "\<And>argv f. w_run w argv f = (Some (1, []), f)"
  shows "fst (ap_sign w k d s) = None \<and> dget (ap_files (snd (ap_sign w k d s))) (path_join apple_dir (k @ ''_data.bin'')) = Some d"
  using assms by (simp add: ap_sign_def run_rc_def Let_def)

section \<open>Witnesses\<close>

text \<open>A machine with nothing but the native core, whose signature of a text is the text.\<close>

definition hsm_demo :: hsm_world where
  "hsm_demo = \<lparr>w_now = (Fin 5), w_stamp = (''9''), w_hexdigest = (id), w_sha256 = (id),
    w_platform = (''Plan9''), w_mac_ver = ([]), w_environ = (\<lambda>_. None), w_exists = (\<lambda>_. False),
    w_makedirs = (\<lambda>_. True), w_run = (\<lambda>_ f. (None, f)), w_read_text = (\<lambda>_. None), w_rust = (Some ((''pk'', ''sk''), (''ek'', ''dk''))),
    w_rs_sign = (\<lambda>sk m. m), w_rs_verify = (\<lambda>pk m s. s = m), w_boto_client = (\<lambda>_. None), w_kms_list_keys = (False),
    w_describe_clusters = (\<lambda>_. None), w_kms_create_key = (\<lambda>_ _ _. None), w_kms_schedule_deletion = (\<lambda>_. False), w_kms_sign = (\<lambda>_ _ _. None),
    w_kms_verify = (\<lambda>_ _ _ _. None), w_kms_public_key = (\<lambda>_. None), w_azure_client = (\<lambda>_. None), w_azure_list = (False),
    w_azure_create_ec = (\<lambda>_. None), w_azure_create_oct = (\<lambda>_. None), w_azure_crypto = (\<lambda>_. False), w_azure_delete = (\<lambda>_. False),
    w_azure_sign = (\<lambda>_ _. None), w_azure_verify = (\<lambda>_ _ _. None), w_azure_get_key = (\<lambda>_. None), w_gcp_client = (None),
    w_gcp_get_ring = (\<lambda>_. False), w_gcp_create_ring = (\<lambda>_ _. False), w_gcp_create_key = (\<lambda>_ _ _ _. None), w_gcp_destroy = (\<lambda>_. False),
    w_gcp_sign = (\<lambda>_ _. None), w_gcp_verify = (\<lambda>_ _ _. None), w_gcp_public_key = (\<lambda>_. None)\<rparr>"

lemma hsm_demo_simps [simp]:
  "w_environ hsm_demo n = None" "w_platform hsm_demo = ''Plan9''" "w_rust hsm_demo = Some ((''pk'', ''sk''), (''ek'', ''dk''))"
  "w_rs_sign hsm_demo sk t = t" "w_rs_verify hsm_demo pk t u = (u = t)" "w_stamp hsm_demo = ''9''" "w_hexdigest hsm_demo t = t"
  by (simp_all add: hsm_demo_def)

lemma hsm_demo_id [simp]: "new_key_id ''sw-'' hsm_demo l = ''sw-'' @ take 16 (l @ ''9'')"
  by (simp add: new_key_id_def)

definition demo_hsm_manager :: hsm_manager where
  "demo_hsm_manager = \<lparr>hm_provider = Some (SoftwareHSM (sw_new\<lparr>sw_initialized := True\<rparr>)), hm_hsm_type = Some SOFTWARE, hm_preferred = None\<rparr>"

lemma demo_hsm_manager_init: "hm_initialize hsm_demo [] (hm_new None) = (True, demo_hsm_manager)"
  by (simp add: hm_initialize_def hm_new_def detected_providers_def preferred_provider_def hsm_truthy_def sw_initialize_def demo_hsm_manager_def)

abbreviation "demo_key \<equiv> mk_key hsm_demo ''sw-a9'' ML_DSA_65 ''a'' True False []"

abbreviation "demo_held \<equiv> SoftwareHSM \<lparr>sw_keys = [(''sw-a9'', demo_key)], sw_key_material = [(''sw-a9'', (''pk'', ''sk''))], sw_initialized = True\<rparr>"

lemma demo_generate:
  "hsm_generate_key hsm_demo ML_DSA_65 ''a'' (SoftwareHSM (sw_new\<lparr>sw_initialized := True\<rparr>)) = (Some demo_key, demo_held)"
  by (simp add: sw_generate_key_def sw_new_def Let_def)

theorem deleted_keys_are_dead_witness:
  "fst (hsm_sign hsm_demo ''sw-a9'' [1] (snd (hsm_delete_key hsm_demo ''sw-a9'' demo_held))) = None"
proof -
  have p0: "hm_provider demo_hsm_manager = Some (SoftwareHSM (sw_new\<lparr>sw_initialized := True\<rparr>))" by (simp add: demo_hsm_manager_def)
  have d: "hsm_delete_key hsm_demo ''sw-a9'' (fold provider_step [Generate hsm_demo ML_DSA_65 ''a'']
      (SoftwareHSM (sw_new\<lparr>sw_initialized := True\<rparr>))) = (True, snd (hsm_delete_key hsm_demo ''sw-a9'' demo_held))"
    by (simp del: hsm_generate_key.simps add: demo_generate sw_delete_key_def dget_Cons)
  from deleted_keys_are_dead [OF demo_hsm_manager_init p0 d, of "[]"] show ?thesis by simp
qed

theorem generated_keys_are_held_witness:
  "hsm_get_key ''sw-a9'' (fold provider_step [Generate hsm_demo ML_KEM_768 ''b'', Sign hsm_demo ''sw-a9'' [1]] demo_held) = Some demo_key"
  using generated_keys_are_held [OF demo_generate, of "[Generate hsm_demo ML_KEM_768 ''b'', Sign hsm_demo ''sw-a9'' [1]]"] by simp

theorem software_signatures_verify_witness:
  "\<exists>sig. fst (hsm_sign hsm_demo ''sw-a9'' [1] demo_held) = Some sig \<and> hg_key_id sig = ''sw-a9''"
proof -
  have "w_rust hsm_demo = Some ((''pk'', ''sk''), (''ek'', ''dk''))" "ML_DSA_65 \<in> {ML_DSA_65, ED25519}"
    "\<And>m. w_rs_verify hsm_demo ''pk'' m (w_rs_sign hsm_demo ''sk'' m)" by simp_all
  from software_signatures_verify [OF this demo_generate, of "[]" demo_held "[1]"] show ?thesis by auto
qed

theorem detection_takes_first_available_witness:
  "fst (hm_initialize hsm_demo [] (hm_new None)) \<and> hm_initialize hsm_demo [] (hm_new (Some PKCS11)) = (False, hm_new (Some PKCS11))"
  using detection_takes_first_available [of hsm_demo "[]" PKCS11] by simp

end
