(* ===== verification/Drone.thy ===== *)
theory Drone
  imports Format "HOL-Library.Multiset"
begin

text \<open>
  Drone safety, \<^verbatim>\<open>kernel/drone/types.py\<close>, \<^verbatim>\<open>kernel/drone/safety.py\<close> and the spatial index of
  \<^verbatim>\<open>kernel/drone/physics.py\<close>: positions, geofences with ray casting in double arithmetic, and the monitor
  that checks positions and vetoes commands. The functions of the mathematics library are the record
  \<open>libm\<close>; the text of a float (its \<open>repr\<close>) is the argument \<open>show\<close>, and \<open>now k\<close> is the clock when
  violation \<open>k\<close> is created. A call that may raise after it has changed the monitor returns the exception
  together with the state it leaves.
\<close>

section \<open>State and exceptions\<close>

fun bindS :: "'a result \<times> 's \<Rightarrow> ('a \<Rightarrow> 's \<Rightarrow> 'b result \<times> 's) \<Rightarrow> 'b result \<times> 's" where
  "bindS (Inl e, s) f = (Inl e, s)"
| "bindS (Inr x, s) f = f x s"

section \<open>Types\<close>

datatype drone_state = IDLE | ARMED | TAKEOFF | FLYING | LANDING | EMERGENCY | RTL_STATE

datatype flight_mode = MANUAL | STABILIZE | LOITER | AUTO | GUIDED | RTL_MODE | LAND

datatype airspace_class = CLASS_A | CLASS_B | CLASS_C | CLASS_D | CLASS_E | CLASS_G | RESTRICTED_SPACE | PROHIBITED_SPACE

record position =
  ps_latitude :: pyfloat
  ps_longitude :: pyfloat
  ps_altitude :: pyfloat

abbreviation pos :: "pyfloat \<Rightarrow> pyfloat \<Rightarrow> pyfloat \<Rightarrow> position" where
  "pos lat lon alt \<equiv> \<lparr>ps_latitude = lat, ps_longitude = lon, ps_altitude = alt\<rparr>"

record libm =
  lm_sin :: "pyfloat \<Rightarrow> pyfloat result"
  lm_cos :: "pyfloat \<Rightarrow> pyfloat result"
  lm_atan2 :: "pyfloat \<Rightarrow> pyfloat \<Rightarrow> pyfloat"
  lm_square :: "pyfloat \<Rightarrow> pyfloat result"

definition radians :: "pyfloat \<Rightarrow> pyfloat" where
  "radians x = fl_mul x (fl_of_rat (17453292519943295 / 10 ^ 18))"

definition fl_abs :: "pyfloat \<Rightarrow> pyfloat" where
  "fl_abs x = (if fl_lt x (Fin 0) then fl_neg x else x)"

text \<open>Haversine distance with the difference of altitude.\<close>

definition distance_to :: "libm \<Rightarrow> position \<Rightarrow> position \<Rightarrow> pyfloat result" where
  "distance_to L p other =
     (let lat1 = radians (ps_latitude p); lat2 = radians (ps_latitude other);
          dlat = radians (fl_sub (ps_latitude other) (ps_latitude p));
          dlon = radians (fl_sub (ps_longitude other) (ps_longitude p))
      in bindE (fl_div dlat (Fin 2)) (\<lambda>hlat. bindE (lm_sin L hlat) (\<lambda>s1. bindE (lm_square L s1) (\<lambda>q1.
         bindE (lm_cos L lat1) (\<lambda>c1. bindE (lm_cos L lat2) (\<lambda>c2.
         bindE (fl_div dlon (Fin 2)) (\<lambda>hlon. bindE (lm_sin L hlon) (\<lambda>s2. bindE (lm_square L s2) (\<lambda>q2.
         let a = fl_add q1 (fl_mul (fl_mul c1 c2) q2) in
         bindE (fl_sqrt a) (\<lambda>r1. bindE (fl_sqrt (fl_sub (Fin 1) a)) (\<lambda>r2.
         let c = fl_mul (Fin 2) (lm_atan2 L r1 r2);
             horizontal = fl_mul (Fin 6371000) c;
             vertical = fl_abs (fl_sub (ps_altitude other) (ps_altitude p))
         in bindE (lm_square L horizontal) (\<lambda>h2. bindE (lm_square L vertical) (\<lambda>v2. fl_sqrt (fl_add h2 v2))))))))))))))"

record velocity =
  vl_north :: pyfloat
  vl_east :: pyfloat
  vl_down :: pyfloat

definition speed :: "libm \<Rightarrow> velocity \<Rightarrow> pyfloat result" where
  "speed L v =
     bindE (lm_square L (vl_north v)) (\<lambda>n. bindE (lm_square L (vl_east v)) (\<lambda>e. bindE (lm_square L (vl_down v)) (\<lambda>d.
       fl_sqrt (fl_add (fl_add n e) d))))"

datatype fence_type = Include | Exclude | OtherFence string

record geofence =
  gf_id :: string
  gf_name :: string
  gf_fence_type :: fence_type
  gf_vertices :: "position list"
  gf_max_altitude :: pyfloat
  gf_min_altitude :: pyfloat
  gf_airspace_class :: airspace_class

text \<open>One edge of the ray casting: does the ray from the point cross the edge from \<open>vj\<close> to \<open>vi\<close>?\<close>

definition crosses :: "position \<Rightarrow> position \<Rightarrow> position \<Rightarrow> bool result" where
  "crosses p vi vj =
     (if fl_lt (ps_latitude p) (ps_latitude vi) \<noteq> fl_lt (ps_latitude p) (ps_latitude vj)
      then bindE (fl_div (fl_mul (fl_sub (ps_longitude vj) (ps_longitude vi)) (fl_sub (ps_latitude p) (ps_latitude vi)))
                         (fl_sub (ps_latitude vj) (ps_latitude vi)))
             (\<lambda>q. Inr (fl_lt (ps_longitude p) (fl_add q (ps_longitude vi))))
      else Inr False)"

text \<open>The loop over the vertices, \<open>vj\<close> being the vertex before.\<close>

fun cast_ray :: "position \<Rightarrow> position \<Rightarrow> position list \<Rightarrow> bool \<Rightarrow> bool result" where
  "cast_ray p vj [] inside = Inr inside"
| "cast_ray p vj (vi # vs) inside =
     bindE (crosses p vi vj) (\<lambda>c. cast_ray p vi vs (if c then \<not> inside else inside))"

definition fence_contains :: "geofence \<Rightarrow> position \<Rightarrow> bool result" where
  "fence_contains f p =
     (if fl_lt (gf_max_altitude f) (ps_altitude p) \<or> fl_lt (ps_altitude p) (gf_min_altitude f) then Inr False
      else if length (gf_vertices f) < 3 then Inr False
      else cast_ray p (last (gf_vertices f)) (gf_vertices f) False)"

section \<open>Safety monitor\<close>

datatype violation_type = GEOFENCE_EXIT | NO_FLY_ZONE | ALTITUDE_LIMIT | DISTANCE_LIMIT | BATTERY_CRITICAL

record safety_violation =
  sv_id :: string
  sv_violation_type :: violation_type
  sv_severity :: pyfloat
  sv_position :: position
  sv_description :: string
  sv_veto_action :: string
  sv_timestamp :: datetime

record drone_monitor =
  dm_violation_counter :: nat
  dm_violations :: "safety_violation list"
  dm_geofences :: "geofence list"
  dm_include_fence :: "geofence option"
  dm_max_altitude :: pyfloat
  dm_max_distance :: pyfloat
  dm_min_battery :: pyfloat
  dm_home_position :: "position option"
  dm_veto_active :: bool
  dm_blocked_commands :: nat

definition degrees :: "nat \<Rightarrow> pyfloat" where
  "degrees n = fl_of_rat (of_nat n / 10000)"

definition rectangle :: "pyfloat \<Rightarrow> pyfloat \<Rightarrow> pyfloat \<Rightarrow> pyfloat \<Rightarrow> position list" where
  "rectangle south north west east =
     [pos south west (Fin 0), pos south east (Fin 0), pos north east (Fin 0), pos north west (Fin 0)]"

definition zone :: "string \<Rightarrow> string \<Rightarrow> position list \<Rightarrow> pyfloat \<Rightarrow> airspace_class \<Rightarrow> geofence" where
  "zone i n vs maxalt cls =
     \<lparr>gf_id = i, gf_name = n, gf_fence_type = Exclude, gf_vertices = vs, gf_max_altitude = maxalt, gf_min_altitude = Fin 0,
      gf_airspace_class = cls\<rparr>"

definition DEFAULT_NO_FLY_ZONES :: "geofence list" where
  "DEFAULT_NO_FLY_ZONES =
     [zone ''NFZ001'' ''Cheong Wa Dae (former presidential office, Seoul)''
        (rectangle (degrees 375866) (degrees 375906) (degrees 1269748) (degrees 1269798)) (Fin 0) PROHIBITED_SPACE,
      zone ''NFZ002'' ''National Assembly Building (Seoul)''
        (rectangle (degrees 375299) (degrees 375339) (degrees 1269090) (degrees 1269150)) (Fin 0) PROHIBITED_SPACE,
      zone ''NFZ003'' ''Gimpo International Airport''
        (rectangle (degrees 375500) (degrees 375700) (degrees 1267800) (degrees 1268100)) (Fin 120) CLASS_B]"

definition drone_monitor_init :: drone_monitor where
  "drone_monitor_init =
     \<lparr>dm_violation_counter = 0, dm_violations = [], dm_geofences = DEFAULT_NO_FLY_ZONES, dm_include_fence = None,
      dm_max_altitude = Fin 120, dm_max_distance = Fin 5000, dm_min_battery = Fin 15, dm_home_position = None,
      dm_veto_active = True, dm_blocked_commands = 0\<rparr>"

definition set_home :: "position \<Rightarrow> drone_monitor \<Rightarrow> drone_monitor" where
  "set_home p m = m\<lparr>dm_home_position := Some p\<rparr>"

definition add_geofence :: "geofence \<Rightarrow> drone_monitor \<Rightarrow> drone_monitor" where
  "add_geofence f m = m\<lparr>dm_geofences := dm_geofences m @ [f]\<rparr>"

definition set_include_fence :: "geofence \<Rightarrow> drone_monitor \<Rightarrow> drone_monitor" where
  "set_include_fence f m = m\<lparr>dm_include_fence := Some (f\<lparr>gf_fence_type := Include\<rparr>)\<rparr>"

definition violation_id :: "nat \<Rightarrow> string" where
  "violation_id k = ''VIO'' @ zero_pad 6 (dec_of_nat k)"

definition create_violation ::
  "(nat \<Rightarrow> datetime) \<Rightarrow> violation_type \<Rightarrow> pyfloat \<Rightarrow> position \<Rightarrow> string \<Rightarrow> string \<Rightarrow> drone_monitor \<Rightarrow> safety_violation \<times> drone_monitor" where
  "create_violation now t sev p desc action m =
     (let k = dm_violation_counter m + 1;
          v = \<lparr>sv_id = violation_id k, sv_violation_type = t, sv_severity = sev, sv_position = p, sv_description = desc,
               sv_veto_action = action, sv_timestamp = now k\<rparr>
      in (v, m\<lparr>dm_violation_counter := k, dm_violations := dm_violations m @ [v]\<rparr>))"

text \<open>Append a violation to the list of this check.\<close>

definition violate ::
  "(nat \<Rightarrow> datetime) \<Rightarrow> violation_type \<Rightarrow> pyfloat \<Rightarrow> position \<Rightarrow> string \<Rightarrow> string \<Rightarrow> safety_violation list \<Rightarrow> drone_monitor \<Rightarrow>
   safety_violation list result \<times> drone_monitor" where
  "violate now t sev p desc action vs m = (let (v, m') = create_violation now t sev p desc action m in (Inr (vs @ [v]), m'))"

definition check_altitude :: "(pyfloat \<Rightarrow> string) \<Rightarrow> (nat \<Rightarrow> datetime) \<Rightarrow> position \<Rightarrow> drone_monitor \<Rightarrow> safety_violation list result \<times> drone_monitor" where
  "check_altitude show now p m =
     (if fl_lt (dm_max_altitude m) (ps_altitude p)
      then violate now ALTITUDE_LIMIT (fl_of_rat (9 / 10)) p
             (''Altitude '' @ show (ps_altitude p) @ ''m exceeds limit '' @ show (dm_max_altitude m) @ ''m'') ''descend_immediately'' [] m
      else (Inr [], m))"

definition check_distance ::
  "(pyfloat \<Rightarrow> string) \<Rightarrow> (nat \<Rightarrow> datetime) \<Rightarrow> libm \<Rightarrow> position \<Rightarrow> safety_violation list \<Rightarrow> drone_monitor \<Rightarrow> safety_violation list result \<times> drone_monitor" where
  "check_distance show now L p vs m =
     (case dm_home_position m of
        None \<Rightarrow> (Inr vs, m)
      | Some home \<Rightarrow>
          (case distance_to L p home of
             Inl e \<Rightarrow> (Inl e, m)
           | Inr d \<Rightarrow>
               if fl_lt (dm_max_distance m) d
               then violate now DISTANCE_LIMIT (fl_of_rat (8 / 10)) p
                      (''Distance '' @ fmt_fixed 0 d @ ''m exceeds limit '' @ show (dm_max_distance m) @ ''m'') ''return_toward_home'' vs m
               else (Inr vs, m)))"

definition check_include :: "(nat \<Rightarrow> datetime) \<Rightarrow> position \<Rightarrow> safety_violation list \<Rightarrow> drone_monitor \<Rightarrow> safety_violation list result \<times> drone_monitor" where
  "check_include now p vs m =
     (case dm_include_fence m of
        None \<Rightarrow> (Inr vs, m)
      | Some f \<Rightarrow>
          (case fence_contains f p of
             Inl e \<Rightarrow> (Inl e, m)
           | Inr True \<Rightarrow> (Inr vs, m)
           | Inr False \<Rightarrow> violate now GEOFENCE_EXIT (fl_of_rat (95 / 100)) p (''Outside operational boundary: '' @ gf_name f) ''return_to_boundary'' vs m))"

fun check_zones :: "(nat \<Rightarrow> datetime) \<Rightarrow> position \<Rightarrow> geofence list \<Rightarrow> safety_violation list \<Rightarrow> drone_monitor \<Rightarrow> safety_violation list result \<times> drone_monitor" where
  "check_zones now p [] vs m = (Inr vs, m)"
| "check_zones now p (f # fs) vs m =
     (if gf_fence_type f \<noteq> Exclude then check_zones now p fs vs m
      else case fence_contains f p of
        Inl e \<Rightarrow> (Inl e, m)
      | Inr False \<Rightarrow> check_zones now p fs vs m
      | Inr True \<Rightarrow>
          bindS (violate now NO_FLY_ZONE (Fin 1) p (''Inside no-fly zone: '' @ gf_name f) ''exit_immediately'' vs m) (check_zones now p fs))"

definition check_position ::
  "(pyfloat \<Rightarrow> string) \<Rightarrow> (nat \<Rightarrow> datetime) \<Rightarrow> libm \<Rightarrow> position \<Rightarrow> drone_monitor \<Rightarrow> (bool \<times> safety_violation list) result \<times> drone_monitor" where
  "check_position show now L p m =
     bindS (check_altitude show now p m) (\<lambda>vs m. bindS (check_distance show now L p vs m) (\<lambda>vs m.
       bindS (check_include now p vs m) (\<lambda>vs m. bindS (check_zones now p (dm_geofences m) vs m) (\<lambda>vs m. (Inr (vs = [], vs), m)))))"

datatype battery_check = BatteryCritical | LowBattery | BatteryFine

definition check_battery :: "pyfloat \<Rightarrow> drone_monitor \<Rightarrow> battery_check" where
  "check_battery percent m =
     (if fl_lt percent (dm_min_battery m) then BatteryCritical else if fl_lt percent (Fin 25) then LowBattery else BatteryFine)"

record drone_command =
  dc_type :: "string option"
  dc_params :: "(string, pyfloat) dict option"

definition param_or :: "(string, pyfloat) dict \<Rightarrow> string \<Rightarrow> pyfloat \<Rightarrow> pyfloat" where
  "param_or d k v = (case dget d k of None \<Rightarrow> v | Some x \<Rightarrow> x)"

definition target_of :: "drone_command \<Rightarrow> position \<Rightarrow> position" where
  "target_of c p =
     (if str_in ''goto'' (case dc_type c of None \<Rightarrow> [] | Some t \<Rightarrow> t)
      then let ps = (case dc_params c of None \<Rightarrow> [] | Some d \<Rightarrow> d) in
        pos (param_or ps ''lat'' (ps_latitude p)) (param_or ps ''lon'' (ps_longitude p)) (param_or ps ''alt'' (ps_altitude p))
      else p)"

datatype veto = Passed | Blocked string string

definition veto_command ::
  "(pyfloat \<Rightarrow> string) \<Rightarrow> (nat \<Rightarrow> datetime) \<Rightarrow> libm \<Rightarrow> drone_command \<Rightarrow> position \<Rightarrow> drone_monitor \<Rightarrow> veto result \<times> drone_monitor" where
  "veto_command show now L c p m =
     (if \<not> dm_veto_active m then (Inr Passed, m)
      else bindS (check_position show now L (target_of c p) m) (\<lambda>(safe, vs) m.
        if safe then (Inr Passed, m)
        else (Inr (case vs of [] \<Rightarrow> Blocked ''safety'' ''stop'' | v # _ \<Rightarrow> Blocked (sv_description v) (sv_veto_action v)),
              m\<lparr>dm_blocked_commands := dm_blocked_commands m + 1\<rparr>)))"

record threat =
  th_id :: string
  th_threat_type :: string
  th_position :: "position option"
  th_severity :: pyfloat
  th_description :: string
  th_recommended_action :: string

definition get_threats ::
  "(pyfloat \<Rightarrow> string) \<Rightarrow> (nat \<Rightarrow> datetime) \<Rightarrow> libm \<Rightarrow> position \<Rightarrow> drone_monitor \<Rightarrow> threat list result \<times> drone_monitor" where
  "get_threats show now L p m =
     bindS (check_position show now L p m) (\<lambda>(safe, vs) m.
       (Inr (map (\<lambda>v. \<lparr>th_id = sv_id v, th_threat_type = ''geofence'', th_position = Some p, th_severity = sv_severity v,
                     th_description = sv_description v, th_recommended_action = sv_veto_action v\<rparr>) vs), m))"

record safety_stats =
  st_total_violations :: nat
  st_blocked_commands :: nat
  st_geofences_active :: nat
  st_veto_enabled :: bool
  st_limits :: "pyfloat \<times> pyfloat \<times> pyfloat"

definition drone_get_stats :: "drone_monitor \<Rightarrow> safety_stats" where
  "drone_get_stats m =
     \<lparr>st_total_violations = length (dm_violations m), st_blocked_commands = dm_blocked_commands m,
      st_geofences_active = length (dm_geofences m), st_veto_enabled = dm_veto_active m,
      st_limits = (dm_max_altitude m, dm_max_distance m, dm_min_battery m)\<rparr>"

section \<open>What the veto decides\<close>

text \<open>The safety rules, and that their geometry can be computed without an exception.\<close>

definition unsafe :: "libm \<Rightarrow> drone_monitor \<Rightarrow> position \<Rightarrow> bool" where
  "unsafe L m p \<longleftrightarrow>
     fl_lt (dm_max_altitude m) (ps_altitude p) \<or>
     (\<exists>h d. dm_home_position m = Some h \<and> distance_to L p h = Inr d \<and> fl_lt (dm_max_distance m) d) \<or>
     (\<exists>f. dm_include_fence m = Some f \<and> fence_contains f p = Inr False) \<or>
     (\<exists>f\<in>set (dm_geofences m). gf_fence_type f = Exclude \<and> fence_contains f p = Inr True)"

definition computable :: "libm \<Rightarrow> drone_monitor \<Rightarrow> position \<Rightarrow> bool" where
  "computable L m p \<longleftrightarrow>
     (\<forall>h. dm_home_position m = Some h \<longrightarrow> (\<exists>d. distance_to L p h = Inr d)) \<and>
     (\<forall>f. dm_include_fence m = Some f \<longrightarrow> (\<exists>b. fence_contains f p = Inr b)) \<and>
     (\<forall>f\<in>set (dm_geofences m). gf_fence_type f = Exclude \<longrightarrow> (\<exists>b. fence_contains f p = Inr b))"

text \<open>
  The rules as the comments of the zone table state them: a prohibited zone admits no flight at any
  altitude, so being over its ground is enough. The code tests the altitude limits of a prohibited zone
  like those of any other; a target over such a zone but outside its limits is where the two differ.
\<close>

definition over :: "geofence \<Rightarrow> position \<Rightarrow> bool" where
  "over f p \<longleftrightarrow> 3 \<le> length (gf_vertices f) \<and> cast_ray p (last (gf_vertices f)) (gf_vertices f) False = Inr True"

definition prohibits :: "geofence \<Rightarrow> position \<Rightarrow> bool" where
  "prohibits f p \<longleftrightarrow> gf_fence_type f = Exclude \<and> gf_airspace_class f = PROHIBITED_SPACE \<and> over f p"

definition breaks_rule :: "libm \<Rightarrow> drone_monitor \<Rightarrow> position \<Rightarrow> bool" where
  "breaks_rule L m p \<longleftrightarrow>
     fl_lt (dm_max_altitude m) (ps_altitude p) \<or>
     (\<exists>h d. dm_home_position m = Some h \<and> distance_to L p h = Inr d \<and> fl_lt (dm_max_distance m) d) \<or>
     (\<exists>f. dm_include_fence m = Some f \<and> fence_contains f p = Inr False) \<or>
     (\<exists>f\<in>set (dm_geofences m). prohibits f p \<or> gf_fence_type f = Exclude \<and> fence_contains f p = Inr True)"

definition overflies_prohibited :: "drone_monitor \<Rightarrow> position \<Rightarrow> bool" where
  "overflies_prohibited m p \<longleftrightarrow> (\<exists>f\<in>set (dm_geofences m). prohibits f p \<and>
     (fl_lt (gf_max_altitude f) (ps_altitude p) \<or> fl_lt (ps_altitude p) (gf_min_altitude f)))"

lemma prohibited_within_limits:
  "prohibits f p \<Longrightarrow> \<not> fl_lt (gf_max_altitude f) (ps_altitude p) \<Longrightarrow> \<not> fl_lt (ps_altitude p) (gf_min_altitude f) \<Longrightarrow>
   gf_fence_type f = Exclude \<and> fence_contains f p = Inr True"
  by (simp add: prohibits_def over_def fence_contains_def)

lemma breaks_rule_unsafe: "\<not> overflies_prohibited m p \<Longrightarrow> breaks_rule L m p \<longleftrightarrow> unsafe L m p"
  unfolding breaks_rule_def unsafe_def overflies_prohibited_def using prohibited_within_limits by blast

text \<open>A check changes the record of violations and nothing else.\<close>

definition same_rules :: "drone_monitor \<Rightarrow> drone_monitor \<Rightarrow> bool" where
  "same_rules m m' \<longleftrightarrow> m' = m\<lparr>dm_violation_counter := dm_violation_counter m', dm_violations := dm_violations m'\<rparr>"

lemma same_rules_refl [simp]: "same_rules m m"
  by (simp add: same_rules_def)

lemma same_rulesD:
  assumes "same_rules m m'"
  shows "dm_geofences m' = dm_geofences m" "dm_include_fence m' = dm_include_fence m" "dm_max_altitude m' = dm_max_altitude m"
    "dm_max_distance m' = dm_max_distance m" "dm_home_position m' = dm_home_position m" "dm_veto_active m' = dm_veto_active m"
    "dm_blocked_commands m' = dm_blocked_commands m"
  by (subst assms [unfolded same_rules_def], simp)+

lemma same_rules_trans: "same_rules m m' \<Longrightarrow> same_rules m' m'' \<Longrightarrow> same_rules m m''"
  by (auto simp: same_rules_def) (metis (no_types, lifting) drone_monitor.surjective drone_monitor.update_convs(1,2))

text \<open>A stage of the check extends the list exactly when its rule is broken, and leaves the monitor alone otherwise.\<close>

definition stage :: "bool \<Rightarrow> safety_violation list \<Rightarrow> drone_monitor \<Rightarrow> safety_violation list result \<times> drone_monitor \<Rightarrow> bool" where
  "stage broken vs m r \<longleftrightarrow>
     (\<exists>vs' m'. r = (Inr (vs @ vs'), m') \<and> same_rules m m' \<and> (vs' \<noteq> [] \<longleftrightarrow> broken) \<and> (\<not> broken \<longrightarrow> m' = m))"

lemma stage_skip: "stage False vs m (Inr vs, m)"
  by (simp add: stage_def)

lemma stage_violate: "stage True vs m (violate now t sev p desc action vs m)"
  by (simp add: stage_def violate_def create_violation_def same_rules_def Let_def)

lemma stage_bind:
  assumes "stage b vs m r" "\<And>vs' m'. same_rules m m' \<Longrightarrow> stage c (vs @ vs') m' (f (vs @ vs') m')"
  shows "stage (b \<or> c) vs m (bindS r f)"
proof -
  obtain vs' m' where r: "r = (Inr (vs @ vs'), m')" "same_rules m m'" "vs' \<noteq> [] \<longleftrightarrow> b" "\<not> b \<longrightarrow> m' = m"
    using assms(1) by (auto simp: stage_def)
  obtain ws m'' where "f (vs @ vs') m' = (Inr ((vs @ vs') @ ws), m'')" "same_rules m' m''" "ws \<noteq> [] \<longleftrightarrow> c" "\<not> c \<longrightarrow> m'' = m'"
    using assms(2) [OF r(2), of vs'] by (auto simp: stage_def)
  then show ?thesis unfolding stage_def using r same_rules_trans
    by (intro exI [of _ "vs' @ ws"] exI [of _ m'']) auto
qed

lemma stage_altitude: "stage (fl_lt (dm_max_altitude m) (ps_altitude p)) [] m (check_altitude show now p m)"
  by (simp add: check_altitude_def stage_skip stage_violate)

lemma stage_distance:
  assumes "\<And>h. dm_home_position m = Some h \<Longrightarrow> \<exists>d. distance_to L p h = Inr d"
  shows "stage (\<exists>h d. dm_home_position m = Some h \<and> distance_to L p h = Inr d \<and> fl_lt (dm_max_distance m) d) vs m
    (check_distance show now L p vs m)"
proof (cases "dm_home_position m")
  case (Some h)
  then obtain d where "distance_to L p h = Inr d" using assms by blast
  then show ?thesis using Some by (simp add: check_distance_def stage_skip stage_violate)
qed (simp add: check_distance_def stage_skip)

lemma stage_include:
  assumes "\<And>f. dm_include_fence m = Some f \<Longrightarrow> \<exists>b. fence_contains f p = Inr b"
  shows "stage (\<exists>f. dm_include_fence m = Some f \<and> fence_contains f p = Inr False) vs m (check_include now p vs m)"
proof (cases "dm_include_fence m")
  case (Some f)
  then obtain b where "fence_contains f p = Inr b" using assms by blast
  then show ?thesis using Some by (cases b) (simp_all add: check_include_def stage_skip stage_violate)
qed (simp add: check_include_def stage_skip)

lemma stage_zones:
  assumes "\<forall>f\<in>set fs. gf_fence_type f = Exclude \<longrightarrow> (\<exists>b. fence_contains f p = Inr b)"
  shows "stage (\<exists>f\<in>set fs. gf_fence_type f = Exclude \<and> fence_contains f p = Inr True) vs m (check_zones now p fs vs m)"
  using assms
proof (induction fs arbitrary: vs m)
  case (Cons f fs)
  have IH: "stage (\<exists>f\<in>set fs. gf_fence_type f = Exclude \<and> fence_contains f p = Inr True) vs m (check_zones now p fs vs m)" for vs m
    using Cons by simp
  show ?case
  proof (cases "gf_fence_type f = Exclude")
    case True
    then obtain b where "fence_contains f p = Inr b" using Cons.prems by auto
    then show ?thesis using True IH stage_bind [OF stage_violate IH] by (cases b) simp_all
  qed (use IH in simp)
qed (simp add: stage_skip)

lemma check_position_decides:
  assumes "computable L m p"
  shows "\<exists>vs m'. check_position show now L p m = (Inr (vs = [], vs), m') \<and> same_rules m m' \<and> (vs \<noteq> [] \<longleftrightarrow> unsafe L m p) \<and>
    (\<not> unsafe L m p \<longrightarrow> m' = m)"
proof -
  have stages: "stage (unsafe L m p) [] m
     (bindS (check_altitude show now p m) (\<lambda>vs m. bindS (check_distance show now L p vs m) (\<lambda>vs m.
       bindS (check_include now p vs m) (\<lambda>vs m. check_zones now p (dm_geofences m) vs m))))"
    unfolding unsafe_def
  proof (intro stage_bind stage_altitude)
    fix vs1 m1 assume m1: "same_rules m m1"
    show "stage (\<exists>h d. dm_home_position m = Some h \<and> distance_to L p h = Inr d \<and> fl_lt (dm_max_distance m) d) ([] @ vs1) m1
        (check_distance show now L p ([] @ vs1) m1)"
      using stage_distance [of m1 L p] assms same_rulesD [OF m1] by (simp add: computable_def)
    fix vs2 m2 assume m2: "same_rules m1 m2"
    show "stage (\<exists>f. dm_include_fence m = Some f \<and> fence_contains f p = Inr False) (([] @ vs1) @ vs2) m2
        (check_include now p (([] @ vs1) @ vs2) m2)"
      using stage_include [of m2 p] assms same_rulesD [OF m1] same_rulesD [OF m2] by (simp add: computable_def)
    fix vs3 m3 assume m3: "same_rules m2 m3"
    show "stage (\<exists>f\<in>set (dm_geofences m). gf_fence_type f = Exclude \<and> fence_contains f p = Inr True) ((([] @ vs1) @ vs2) @ vs3) m3
        (check_zones now p (dm_geofences m3) ((([] @ vs1) @ vs2) @ vs3) m3)"
      using stage_zones [of "dm_geofences m" p] assms same_rulesD [OF m1] same_rulesD [OF m2] same_rulesD [OF m3]
      by (simp add: computable_def)
  qed
  have assoc: "bindS (bindS r f) g = bindS r (\<lambda>x s. bindS (f x s) g)" for r :: "'a result \<times> 's" and f :: "'a \<Rightarrow> 's \<Rightarrow> 'b result \<times> 's" and g
    by (cases r; cases "fst r") auto
  have "check_position show now L p m = bindS
     (bindS (check_altitude show now p m) (\<lambda>vs m. bindS (check_distance show now L p vs m) (\<lambda>vs m.
       bindS (check_include now p vs m) (\<lambda>vs m. check_zones now p (dm_geofences m) vs m)))) (\<lambda>vs m. (Inr (vs = [], vs), m))"
    by (simp add: check_position_def assoc)
  with stages show ?thesis by (auto simp: stage_def)
qed

section \<open>The monitor as a machine\<close>

datatype dm_op =
    SetHome position
  | AddGeofence geofence
  | SetInclude geofence
  | CheckPosition libm position
  | VetoCommand libm drone_command position
  | GetThreats libm position

fun dm_step :: "(pyfloat \<Rightarrow> string) \<Rightarrow> (nat \<Rightarrow> datetime) \<Rightarrow> dm_op \<Rightarrow> drone_monitor \<Rightarrow> drone_monitor" where
  "dm_step show now (SetHome p) m = set_home p m"
| "dm_step show now (AddGeofence f) m = add_geofence f m"
| "dm_step show now (SetInclude f) m = set_include_fence f m"
| "dm_step show now (CheckPosition L p) m = snd (check_position show now L p m)"
| "dm_step show now (VetoCommand L c p) m = snd (veto_command show now L c p m)"
| "dm_step show now (GetThreats L p) m = snd (get_threats show now L p m)"

text \<open>The veto is never switched off, and the violations are numbered without gaps.\<close>

definition monitor_ok :: "drone_monitor \<Rightarrow> bool" where
  "monitor_ok m \<longleftrightarrow> dm_veto_active m \<and> map sv_id (dm_violations m) = map violation_id [1..<dm_violation_counter m + 1]"

lemma monitor_ok_bindS:
  "monitor_ok (snd r) \<Longrightarrow> (\<And>x m. monitor_ok m \<Longrightarrow> monitor_ok (snd (f x m))) \<Longrightarrow> monitor_ok (snd (bindS r f))"
  by (cases r; cases "fst r") auto

lemma monitor_ok_violate: "monitor_ok m \<Longrightarrow> monitor_ok (snd (violate now t sev p desc action vs m))"
  by (simp add: violate_def create_violation_def monitor_ok_def Let_def)

lemma monitor_ok_zones: "monitor_ok m \<Longrightarrow> monitor_ok (snd (check_zones now p fs vs m))"
proof (induction fs arbitrary: vs m)
  case (Cons f fs)
  then show ?case
    by (auto intro!: monitor_ok_bindS monitor_ok_violate split: sum.splits bool.splits)
qed simp

lemma monitor_ok_check: "monitor_ok m \<Longrightarrow> monitor_ok (snd (check_position show now L p m))"
  unfolding check_position_def check_altitude_def check_distance_def check_include_def
  by (intro monitor_ok_bindS) (auto intro: monitor_ok_violate monitor_ok_zones split: option.splits sum.splits bool.splits)

lemma monitor_ok_updates [simp]:
  "monitor_ok (m\<lparr>dm_blocked_commands := n\<rparr>) = monitor_ok m" "monitor_ok (m\<lparr>dm_home_position := h\<rparr>) = monitor_ok m"
  "monitor_ok (m\<lparr>dm_geofences := fs\<rparr>) = monitor_ok m" "monitor_ok (m\<lparr>dm_include_fence := f\<rparr>) = monitor_ok m"
  by (simp_all add: monitor_ok_def)

lemma monitor_ok_veto: "monitor_ok m \<Longrightarrow> monitor_ok (snd (veto_command show now L c p m))"
  unfolding veto_command_def by (auto intro!: monitor_ok_bindS monitor_ok_check)

lemma monitor_ok_threats: "monitor_ok m \<Longrightarrow> monitor_ok (snd (get_threats show now L p m))"
  unfolding get_threats_def by (auto intro!: monitor_ok_bindS monitor_ok_check)

interpretation dmon: machine "dm_step show now" monitor_ok
proof unfold_locales
  show "monitor_ok (dm_step show now x m)" if "monitor_ok m" for m x
    using that by (cases x) (simp_all add: monitor_ok_check monitor_ok_veto monitor_ok_threats set_home_def add_geofence_def set_include_fence_def)
qed

lemma monitor_ok_init: "monitor_ok drone_monitor_init"
  by (simp add: monitor_ok_def drone_monitor_init_def)

section \<open>Ray casting on rectangles\<close>

lemma fl_round_gap:
  assumes "1 / 10 ^ 9 \<le> x"
  shows "0 < fl_round x"
proof -
  have "(2 :: rat) powi (- 1022) \<le> 2 powi (- 30)" by (rule power_int_increasing) simp_all
  also have "\<dots> \<le> 1 / 10 ^ 9" by (simp add: power_int_minus field_simps)
  finally have "\<bar>fl_round x - x\<bar> \<le> x / 2 ^ 53" using assms by (intro fl_round_error) simp
  moreover have "0 < x" using assms by (rule less_le_trans [rotated]) simp
  then have "x / 2 ^ 53 < x" by (simp add: field_simps)
  ultimately show ?thesis unfolding abs_le_iff by linarith
qed

lemma fl_sub_gap:
  assumes "1 / 10 ^ 9 \<le> \<bar>b - a\<bar>" "\<bar>b - a\<bar> \<le> 360"
  shows "\<exists>d. fl_sub (Fin b) (Fin a) = Fin d \<and> d \<noteq> 0"
proof -
  have "of_int (- 360) \<le> b - a" "b - a \<le> of_int 360" using assms(2) by (auto simp: abs_le_iff)
  then have "fl_sub (Fin b) (Fin a) = Fin (fl_round (b - a))"
    using fl_of_rat_bracket(1) [of "- 360" "b - a" 360] by (simp add: fl_sub_def)
  moreover have "fl_round (b - a) \<noteq> 0"
    using fl_round_gap [of "b - a"] fl_round_gap [of "- (b - a)"] fl_round_minus [of "b - a"] assms(1) by (cases "0 \<le> b - a") auto
  ultimately show ?thesis by blast
qed

text \<open>An edge along a meridian: the crossing is computed exactly.\<close>

lemma crosses_meridian:
  assumes "fl_of_rat c = Fin c" "1 / 10 ^ 9 \<le> \<bar>b - a\<bar>" "\<bar>a\<bar> \<le> 90" "\<bar>b\<bar> \<le> 90" "ps_latitude p = Fin y" "ps_longitude p = Fin x"
  shows "crosses p (pos (Fin b) (Fin c) z) (pos (Fin a) (Fin c) z') = Inr ((y < b) \<noteq> (y < a) \<and> x < c)"
proof (cases "(y < b) \<noteq> (y < a)")
  case True
  have "\<bar>b - a\<bar> \<le> 360" "\<bar>y - b\<bar> \<le> 360" using assms(3,4) True by (auto simp: abs_le_iff)
  then obtain d where d: "fl_sub (Fin a) (Fin b) = Fin d" "d \<noteq> 0" using fl_sub_gap [of a b] assms(2) by (auto simp: abs_minus_commute)
  have "of_int (- 360) \<le> y - b" "y - b \<le> of_int 360" using \<open>\<bar>y - b\<bar> \<le> 360\<close> by (auto simp: abs_le_iff)
  then have "fl_sub (Fin y) (Fin b) = Fin (fl_round (y - b))"
    using fl_of_rat_bracket(1) [of "- 360" "y - b" 360] by (simp add: fl_sub_def)
  moreover have "fl_sub (Fin c) (Fin c) = Fin 0" "fl_of_rat 0 = Fin 0" by (simp_all add: fl_sub_def fl_of_rat_def)
  ultimately show ?thesis using True d assms(1,5,6) by (simp add: crosses_def)
qed (simp add: crosses_def assms(5,6))

lemma crosses_parallel: "crosses p (pos (Fin b) c z) (pos (Fin b) c' z') = Inr False"
  by (simp add: crosses_def)

lemma fence_contains_rectangle:
  assumes "fl_of_rat west = Fin west" "fl_of_rat east = Fin east" "1 / 10 ^ 9 \<le> north - south" "- 90 \<le> south" "north \<le> 90" "west \<le> east"
    and "gf_vertices f = rectangle (Fin south) (Fin north) (Fin west) (Fin east)" "ps_latitude p = Fin y" "ps_longitude p = Fin x"
  shows "fence_contains f p = Inr (\<not> fl_lt (gf_max_altitude f) (ps_altitude p) \<and> \<not> fl_lt (ps_altitude p) (gf_min_altitude f) \<and>
    south \<le> y \<and> y < north \<and> west \<le> x \<and> x < east)"
proof -
  have ns: "south < north" using assms(3) by (rule_tac less_le_trans [of _ "south + 1 / 10 ^ 9"]) (simp_all add: algebra_simps)
  have b: "1 / 10 ^ 9 \<le> \<bar>north - south\<bar>" "\<bar>south\<bar> \<le> 90" "\<bar>north\<bar> \<le> 90" "1 / 10 ^ 9 \<le> \<bar>south - north\<bar>" using assms(3,4,5) ns by auto
  have e: "crosses p (pos (Fin north) (Fin east) z) (pos (Fin south) (Fin east) z') = Inr ((y < north) \<noteq> (y < south) \<and> x < east)"
    and w: "crosses p (pos (Fin south) (Fin west) z) (pos (Fin north) (Fin west) z') = Inr ((y < south) \<noteq> (y < north) \<and> x < west)" for z z'
    using crosses_meridian assms(1,2,8,9) b by blast+
  have "cast_ray p (last (gf_vertices f)) (gf_vertices f) False = Inr (south \<le> y \<and> y < north \<and> west \<le> x \<and> x < east)"
    unfolding assms(7) rectangle_def using ns assms(6) by (auto simp: crosses_parallel e w)
  then show ?thesis by (simp add: fence_contains_def assms(7) rectangle_def)
qed

section \<open>Spatial index\<close>

type_synonym 'a box = "pyfloat \<times> pyfloat \<times> pyfloat \<times> pyfloat \<times> 'a"

record 'a spatial_index =
  si_boxes :: "'a box list"
  si_sorted_by_lat :: "'a box list"
  si_dirty :: bool

definition index_new :: "'a spatial_index" where
  "index_new = \<lparr>si_boxes = [], si_sorted_by_lat = [], si_dirty = True\<rparr>"

definition index_insert :: "pyfloat \<Rightarrow> pyfloat \<Rightarrow> pyfloat \<Rightarrow> pyfloat \<Rightarrow> 'a \<Rightarrow> 'a spatial_index \<Rightarrow> 'a spatial_index" where
  "index_insert min_lat min_lon max_lat max_lon d x =
     x\<lparr>si_boxes := si_boxes x @ [(min_lat, min_lon, max_lat, max_lon, d)], si_dirty := True\<rparr>"

definition before :: "'a box \<Rightarrow> 'a box \<Rightarrow> bool" where
  "before b c = fl_lt (fst b) (fst c)"

definition rebuild_index :: "'a spatial_index \<Rightarrow> 'a spatial_index" where
  "rebuild_index x = (if \<not> si_dirty x then x else x\<lparr>si_sorted_by_lat := sort_lt before (si_boxes x), si_dirty := False\<rparr>)"

text \<open>\<open>bisect.bisect_right\<close> on the keys of the sorted boxes.\<close>

function bisect_right :: "pyfloat list \<Rightarrow> pyfloat \<Rightarrow> nat \<Rightarrow> nat \<Rightarrow> nat" where
  "bisect_right a x lo hi =
     (if lo < hi then let mid = (lo + hi) div 2 in if fl_lt x (a ! mid) then bisect_right a x lo mid else bisect_right a x (mid + 1) hi
      else lo)"
  by pat_completeness auto
termination
  by (relation "measure (\<lambda>(a, x, lo, hi). hi - lo)") auto

declare bisect_right.simps [simp del]

fun in_box :: "pyfloat \<Rightarrow> pyfloat \<Rightarrow> 'a box \<Rightarrow> bool" where
  "in_box lat lon (min_lat, min_lon, max_lat, max_lon, d) \<longleftrightarrow>
     fl_le min_lat lat \<and> fl_le lat max_lat \<and> fl_le min_lon lon \<and> fl_le lon max_lon"

fun box_data :: "'a box \<Rightarrow> 'a" where
  "box_data (_, _, _, _, d) = d"

definition index_query :: "pyfloat \<Rightarrow> pyfloat \<Rightarrow> 'a spatial_index \<Rightarrow> 'a list \<times> 'a spatial_index" where
  "index_query lat lon x =
     (let x' = rebuild_index x; srt = si_sorted_by_lat x' in
      if srt = [] then ([], x')
      else let idx = bisect_right (map fst srt) lat 0 (length srt) in
        (map box_data (filter (in_box lat lon) (take idx srt)), x'))"

definition query_with_altitude :: "pyfloat \<Rightarrow> pyfloat \<Rightarrow> pyfloat \<Rightarrow> geofence spatial_index \<Rightarrow> geofence list result \<times> geofence spatial_index" where
  "query_with_altitude lat lon alt x =
     (let (candidates, x') = index_query lat lon x in
      (bindE (mapE (\<lambda>f. fence_contains f (pos lat lon alt)) candidates) (\<lambda>bs. Inr (map fst (filter snd (zip candidates bs)))), x'))"

definition extreme :: "(pyfloat \<Rightarrow> pyfloat \<Rightarrow> bool) \<Rightarrow> pyfloat list \<Rightarrow> pyfloat" where
  "extreme better xs = (case first_best better xs of None \<Rightarrow> NaN | Some x \<Rightarrow> x)"

definition rebuild_spatial_index :: "geofence list \<Rightarrow> geofence spatial_index" where
  "rebuild_spatial_index fences =
     fold (\<lambda>f x. if gf_vertices f = [] then x
                  else let lats = map ps_latitude (gf_vertices f); lons = map ps_longitude (gf_vertices f) in
                    index_insert (extreme fl_lt lats) (extreme fl_lt lons) (extreme (\<lambda>a b. fl_lt b a) lats) (extreme (\<lambda>a b. fl_lt b a) lons) f x)
       fences index_new"

datatype 'a index_op = Insert pyfloat pyfloat pyfloat pyfloat 'a | Query pyfloat pyfloat

fun index_step :: "'a index_op \<Rightarrow> 'a spatial_index \<Rightarrow> 'a spatial_index" where
  "index_step (Insert a b c d v) x = index_insert a b c d v x"
| "index_step (Query lat lon) x = snd (index_query lat lon x)"

definition index_ok :: "'a spatial_index \<Rightarrow> bool" where
  "index_ok x \<longleftrightarrow> si_dirty x \<or> si_sorted_by_lat x = sort_lt before (si_boxes x)"

interpretation sindex: machine index_step index_ok
proof unfold_locales
  show "index_ok (index_step op x)" if "index_ok x" for x :: "'a spatial_index" and op
    using that by (cases op) (auto simp: index_ok_def index_insert_def index_query_def rebuild_index_def Let_def sort_lt_def)
qed

lemma mset_sort_lt: "mset (sort_lt lt xs) = mset xs"
proof -
  have "mset (insert_lt lt x ys) = add_mset x (mset ys)" for x ys by (induction ys) auto
  then show ?thesis unfolding sort_lt_def by (induction xs) simp_all
qed

lemma sorted_sort_before:
  assumes "\<And>b. b \<in> set bs \<Longrightarrow> fst b \<noteq> NaN"
  shows "sorted_wrt (\<lambda>b c. \<not> before c b) (sort_lt before bs)"
  using assms
proof (induction bs)
  case (Cons b bs)
  have ins: "sorted_wrt (\<lambda>b c. \<not> before c b) ys \<Longrightarrow> fst b \<noteq> NaN \<Longrightarrow> (\<And>c. c \<in> set ys \<Longrightarrow> fst c \<noteq> NaN) \<Longrightarrow>
      sorted_wrt (\<lambda>b c. \<not> before c b) (insert_lt before b ys)" for ys
  proof (induction ys)
    case (Cons y ys)
    then show ?case
      by (auto simp: before_def dest: fl_lt_asym) (metis fl_not_lt_trans fst_conv surj_pair)
  qed simp
  have srt: "sort_lt before (b # bs) = insert_lt before b (sort_lt before bs)" by (simp add: sort_lt_def)
  show ?case unfolding srt using Cons by (intro ins) auto
qed (simp add: sort_lt_def)

lemma bisect_right_above:
  assumes srt: "sorted_wrt (\<lambda>b c. \<not> fl_lt c b) a" and nan: "\<And>i. i < length a \<Longrightarrow> a ! i \<noteq> NaN"
    and hi: "hi \<le> length a" "\<And>i. hi \<le> i \<Longrightarrow> i < length a \<Longrightarrow> fl_lt x (a ! i)"
    and i: "bisect_right a x lo hi \<le> i" "i < length a" "lo \<le> hi"
  shows "fl_lt x (a ! i)"
  using hi i
proof (induction "hi - lo" arbitrary: lo hi rule: less_induct)
  case less
  let ?m = "(lo + hi) div 2"
  show ?case
  proof (cases "lo < hi")
    case lh: True
    then have m: "?m < hi" "lo \<le> ?m" by auto
    show ?thesis
    proof (cases "fl_lt x (a ! ?m)")
      case True
      have above: "fl_lt x (a ! j)" if "?m \<le> j" "j < length a" for j
      proof (cases "?m = j")
        case False
        then have "\<not> fl_lt (a ! j) (a ! ?m)" using that sorted_wrt_nth_less [OF srt, of ?m j] by simp
        moreover have "a ! ?m \<noteq> NaN" "a ! j \<noteq> NaN" using nan that by auto
        ultimately show ?thesis using True fl_lt_linear [of "a ! ?m" "a ! j"] fl_lt_trans [of x "a ! ?m" "a ! j"] by auto
      qed (use True in simp)
      show ?thesis
        by (rule less.hyps [of ?m lo]) (use less.prems lh True m above in \<open>simp_all add: bisect_right.simps [of a x lo hi] Let_def\<close>)
    next
      case False
      show ?thesis
        by (rule less.hyps [of hi "?m + 1"]) (use less.prems lh False m in \<open>simp_all add: bisect_right.simps [of a x lo hi] Let_def\<close>)
    qed
  next
    case False
    then have "bisect_right a x lo hi = hi" using less.prems(5) by (subst bisect_right.simps) simp
    then show ?thesis using less.prems by simp
  qed
qed

lemma take_filter:
  assumes "\<And>i. n \<le> i \<Longrightarrow> i < length xs \<Longrightarrow> \<not> P (xs ! i)"
  shows "filter P (take n xs) = filter P xs"
proof -
  have "filter P (drop n xs) = []" using assms by (auto simp: filter_empty_conv in_set_conv_nth)
  then have "filter P (take n xs @ drop n xs) = filter P (take n xs)" by (simp only: filter_append append_Nil2)
  then show ?thesis by simp
qed

lemma in_box_before: "in_box lat lon b \<Longrightarrow> \<not> fl_lt lat (fst b)"
  by (cases b; cases "fst b"; cases lat) auto

lemma rebuild_sorted: "index_ok x \<Longrightarrow> si_sorted_by_lat (rebuild_index x) = sort_lt before (si_boxes x)"
  by (auto simp: index_ok_def rebuild_index_def)

section \<open>Properties\<close>

lemma veto_decides:
  assumes "m = fold (dm_step show now) ops drone_monitor_init" and "computable L m (target_of c p)"
  shows "\<exists>r m'. veto_command show now L c p m = (Inr r, m') \<and> (r \<noteq> Passed \<longleftrightarrow> unsafe L m (target_of c p)) \<and>
    dm_blocked_commands m' = dm_blocked_commands m + (if unsafe L m (target_of c p) then 1 else 0) \<and>
    (\<not> unsafe L m (target_of c p) \<longrightarrow> m' = m)"
proof -
  have "dm_veto_active m" using dmon.run_inv [OF monitor_ok_init] by (simp add: monitor_ok_def assms(1))
  moreover obtain vs m1 where "check_position show now L (target_of c p) m = (Inr (vs = [], vs), m1)" "same_rules m m1"
    "vs \<noteq> [] \<longleftrightarrow> unsafe L m (target_of c p)" "\<not> unsafe L m (target_of c p) \<longrightarrow> m1 = m"
    using check_position_decides [OF assms(2)] by blast
  ultimately show ?thesis by (auto simp: veto_command_def same_rulesD split: list.splits)
qed

text \<open>
  C19. In every state the monitor can reach, a command whose geometry can be computed and whose target
  is not above (or below) the limits of a prohibited zone it lies over is vetoed exactly when its
  target breaks a rule: above the ceiling, too far from home, outside the operating boundary, inside a
  no-fly zone or over a prohibited zone. A veto adds one to the count of blocked commands; a command
  that passes changes nothing.
\<close>
theorem veto_is_exact:
  assumes "m = fold (dm_step show now) ops drone_monitor_init" and "computable L m (target_of c p)"
    and "\<not> overflies_prohibited m (target_of c p)"
  shows "\<exists>r m'. veto_command show now L c p m = (Inr r, m') \<and> (r \<noteq> Passed \<longleftrightarrow> breaks_rule L m (target_of c p)) \<and>
    dm_blocked_commands m' = dm_blocked_commands m + (if breaks_rule L m (target_of c p) then 1 else 0) \<and>
    (\<not> breaks_rule L m (target_of c p) \<longrightarrow> m' = m)"
  using veto_decides [OF assms(1,2)] unfolding breaks_rule_unsafe [OF assms(3)] .

text \<open>
  Ray casting in double arithmetic is exact on rectangles: a fence whose corners are doubles at most
  ninety degrees north or south contains exactly the points with a latitude from the south side up to
  but not including the north side, a longitude from the west side up to but not including the east
  side, and an altitude within the limits of the fence.
\<close>
theorem rectangle_fence_exact:
  assumes "gf_vertices f = rectangle (Fin south) (Fin north) (Fin west) (Fin east)"
    and "fl_of_rat west = Fin west" "fl_of_rat east = Fin east" "1 / 10 ^ 9 \<le> north - south" "- 90 \<le> south" "north \<le> 90" "west \<le> east"
    and "ps_latitude p = Fin y" "ps_longitude p = Fin x"
  shows "fence_contains f p = Inr (\<not> fl_lt (gf_max_altitude f) (ps_altitude p) \<and> \<not> fl_lt (ps_altitude p) (gf_min_altitude f) \<and>
    south \<le> y \<and> y < north \<and> west \<le> x \<and> x < east)"
  using fence_contains_rectangle assms by blast

text \<open>
  The two prohibited zones never apply to a flying drone: above ground their containment test is
  false everywhere, because their highest altitude is zero.
\<close>
theorem prohibited_zones_never_apply:
  assumes "f \<in> set DEFAULT_NO_FLY_ZONES" and "gf_airspace_class f = PROHIBITED_SPACE" and "fl_lt (Fin 0) (ps_altitude p)"
  shows "fence_contains f p = Inr False"
  using assms by (auto simp: DEFAULT_NO_FLY_ZONES_def zone_def fence_contains_def)

text \<open>
  C32. The spatial index answers like a scan of all boxes: after any inserts and queries, with no lower
  latitude NaN, a query returns the data of exactly the boxes that contain the point, as often as they
  were inserted, although it looks only at the boxes the binary search leaves.
\<close>
theorem spatial_query_is_scan:
  fixes x :: "'a spatial_index"
  assumes "x = fold index_step ops index_new" and "\<forall>b\<in>set (si_boxes x). fst b \<noteq> NaN"
  shows "mset (fst (index_query lat lon x)) = mset (map box_data (filter (in_box lat lon) (si_boxes x)))"
proof -
  let ?s = "sort_lt before (si_boxes x)"
  have "index_ok (index_new :: 'a spatial_index)" by (simp add: index_ok_def index_new_def)
  then have "index_ok x" using sindex.run_inv assms(1) by blast
  note s = rebuild_sorted [OF this]
  have srt: "sorted_wrt (\<lambda>b c. \<not> fl_lt c b) (map fst ?s)"
    using sorted_sort_before [of "si_boxes x"] assms(2) by (simp add: sorted_wrt_map before_def)
  have "map fst ?s ! i \<noteq> NaN" if "i < length ?s" for i
    using assms(2) that nth_mem [OF that] by simp
  then have "fl_lt lat (map fst ?s ! i)" if "bisect_right (map fst ?s) lat 0 (length ?s) \<le> i" "i < length ?s" for i
    using bisect_right_above [OF srt, of "length ?s" lat 0 i] that by simp
  then have "filter (in_box lat lon) (take (bisect_right (map fst ?s) lat 0 (length ?s)) ?s) = filter (in_box lat lon) ?s"
    by (intro take_filter) (use in_box_before in fastforce)
  then have "fst (index_query lat lon x) = map box_data (filter (in_box lat lon) ?s)" by (auto simp: index_query_def s Let_def)
  then show ?thesis by (simp add: mset_filter mset_sort_lt)
qed

text \<open>A position that is not a number passes every rule while no boundary is set.\<close>

lemma cast_ray_NaN: "ps_latitude p = NaN \<Longrightarrow> cast_ray p v vs b = Inr b"
  by (induction vs arbitrary: v) (simp_all add: crosses_def)

lemma nan_position_is_safe:
  assumes "dm_home_position m = None" "dm_include_fence m = None"
  shows "\<not> unsafe L m (pos NaN NaN NaN)"
  using assms by (auto simp: unsafe_def fence_contains_def cast_ray_NaN)

section \<open>Witnesses\<close>

definition quiet_libm :: libm where
  "quiet_libm = \<lparr>lm_sin = Inr, lm_cos = Inr, lm_atan2 = (\<lambda>a b. a), lm_square = Inr\<rparr>"

abbreviation "demo_goto \<equiv> \<lparr>dc_type = Some ''goto'', dc_params = Some [(''alt'', Fin 200)]\<rparr>"

abbreviation "demo_zone \<equiv> zone ''Z'' ''Z'' (rectangle (Fin 10) (Fin 20) (Fin 30) (Fin 40)) (Fin 100) CLASS_G"

theorem rectangle_fence_exact_witness:
  "fence_contains demo_zone (pos (Fin 15) (Fin 35) (Fin 50)) = Inr True \<and> fence_contains demo_zone (pos (Fin 20) (Fin 35) (Fin 50)) = Inr False"
proof -
  have d: "fl_of_rat 30 = Fin 30" "fl_of_rat 40 = Fin 40" using fl_of_rat_int [of 30] fl_of_rat_int [of 40] by simp_all
  have v: "gf_vertices demo_zone = rectangle (Fin 10) (Fin 20) (Fin 30) (Fin 40)" by (simp add: zone_def)
  show ?thesis
    using rectangle_fence_exact [OF v d, of "pos (Fin 15) (Fin 35) (Fin 50)" 15 35]
      rectangle_fence_exact [OF v d, of "pos (Fin 20) (Fin 35) (Fin 50)" 20 35] by (simp add: zone_def)
qed

lemma demo_computable: "computable quiet_libm (fold (dm_step (\<lambda>_. []) (\<lambda>_. 0)) [] drone_monitor_init) (target_of demo_goto (pos NaN (Fin 0) (Fin 0)))"
proof -
  have "target_of demo_goto (pos NaN (Fin 0) (Fin 0)) = pos NaN (Fin 0) (Fin 200)" by (simp add: target_of_def param_or_def dget_Cons)
  then show ?thesis by (auto simp: computable_def drone_monitor_init_def DEFAULT_NO_FLY_ZONES_def zone_def rectangle_def fence_contains_def cast_ray_NaN crosses_def)
qed

theorem veto_is_exact_witness:
  "\<exists>r m'. veto_command (\<lambda>_. []) (\<lambda>_. 0) quiet_libm demo_goto (pos NaN (Fin 0) (Fin 0)) drone_monitor_init = (Inr r, m') \<and>
     r \<noteq> Passed \<and> dm_blocked_commands m' = 1"
proof -
  have t: "target_of demo_goto (pos NaN (Fin 0) (Fin 0)) = pos NaN (Fin 0) (Fin 200)"
    by (simp add: target_of_def param_or_def dget_Cons)
  have o: "\<not> overflies_prohibited (fold (dm_step (\<lambda>_. []) (\<lambda>_. 0)) [] drone_monitor_init) (target_of demo_goto (pos NaN (Fin 0) (Fin 0)))"
    by (simp add: t overflies_prohibited_def prohibits_def over_def cast_ray_NaN)
  have "breaks_rule quiet_libm drone_monitor_init (target_of demo_goto (pos NaN (Fin 0) (Fin 0)))"
    by (simp add: breaks_rule_def drone_monitor_init_def t)
  moreover have "dm_blocked_commands drone_monitor_init = 0" by (simp add: drone_monitor_init_def)
  ultimately show ?thesis using veto_is_exact [OF refl demo_computable o] by simp
qed

theorem prohibited_zones_never_apply_witness:
  "\<exists>f\<in>set DEFAULT_NO_FLY_ZONES. gf_airspace_class f = PROHIBITED_SPACE \<and>
     fence_contains f (pos (degrees 375880) (degrees 1269760) (Fin 1)) = Inr False"
proof -
  let ?f = "hd DEFAULT_NO_FLY_ZONES"
  have f: "?f \<in> set DEFAULT_NO_FLY_ZONES" "gf_airspace_class ?f = PROHIBITED_SPACE" by (simp_all add: DEFAULT_NO_FLY_ZONES_def zone_def)
  then show ?thesis using prohibited_zones_never_apply [OF f, of "pos (degrees 375880) (degrees 1269760) (Fin 1)"] by auto
qed

theorem spatial_query_is_scan_witness:
  "mset (fst (index_query (Fin 1) (Fin 1) (fold index_step [Insert (Fin 5) (Fin 0) (Fin 6) (Fin 2) ''b'', Insert (Fin 0) (Fin 0) (Fin 2) (Fin 2) ''a''] index_new)))
   = {# ''a'' #}"
proof -
  let ?x = "fold index_step [Insert (Fin 5) (Fin 0) (Fin 6) (Fin 2) ''b'', Insert (Fin 0) (Fin 0) (Fin 2) (Fin 2) ''a''] index_new"
  have b: "si_boxes ?x = [(Fin 5, Fin 0, Fin 6, Fin 2, ''b''), (Fin 0, Fin 0, Fin 2, Fin 2, ''a'')]"
    by (simp add: index_insert_def index_new_def)
  then have "\<forall>b\<in>set (si_boxes ?x). fst b \<noteq> NaN" by simp
  from spatial_query_is_scan [OF refl this, of "Fin 1" "Fin 1"] show ?thesis unfolding b by simp
qed

end
