(* ===== verification/Mission.thy ===== *)
theory Mission
  imports Drone
begin

text \<open>
  Mission planning, \<^verbatim>\<open>kernel/drone/mission.py\<close>: missions, their waypoints and progress, and routes around
  obstacles by A* on a grid of 100 metres. The queue is Python's \<open>heapq\<close>. Entries of equal priority are
  ordered by the address of the position object; \<open>addr k\<close> is the address of the \<open>k\<close>-th object pushed.
  The search stops after the code's own 1000 iterations. The loop that walks the predecessors back has
  no such bound: it runs forever exactly when it takes more steps than there are entries, and the model
  returns \<open>None\<close> for that.
\<close>

section \<open>Heap queue\<close>

type_synonym open_entry = "pyfloat \<times> int \<times> position"

definition entry_lt :: "open_entry \<Rightarrow> open_entry \<Rightarrow> bool" where
  "entry_lt a b = (if fl_eq (fst a) (fst b) then fst (snd a) < fst (snd b) else fl_lt (fst a) (fst b))"

text \<open>\<open>heapq._siftdown\<close>: move \<open>item\<close> from \<open>pos\<close> towards \<open>startpos\<close> past larger parents.\<close>

function sift_down :: "open_entry list \<Rightarrow> nat \<Rightarrow> nat \<Rightarrow> open_entry \<Rightarrow> open_entry list" where
  "sift_down h start i item =
     (if start < i \<and> entry_lt item (h ! ((i - 1) div 2))
      then sift_down (h[i := h ! ((i - 1) div 2)]) start ((i - 1) div 2) item
      else h[i := item])"
  by pat_completeness auto
termination
  by (relation "measure (\<lambda>(h, start, i, item). i)") auto

text \<open>\<open>heapq._siftup\<close>: bubble the smaller child up until a leaf is hit, then sift the item down from there.\<close>

function sift_leaf :: "open_entry list \<Rightarrow> nat \<Rightarrow> open_entry list \<times> nat" where
  "sift_leaf h i =
     (if 2 * i + 1 < length h
      then let right = 2 * i + 2;
               child = (if right < length h \<and> \<not> entry_lt (h ! (2 * i + 1)) (h ! right) then right else 2 * i + 1)
           in sift_leaf (h[i := h ! child]) child
      else (h, i))"
  by pat_completeness auto
termination
  by (relation "measure (\<lambda>(h, i). length h - i)") (auto split: if_splits)

declare sift_down.simps [simp del] sift_leaf.simps [simp del]

definition heappush :: "open_entry \<Rightarrow> open_entry list \<Rightarrow> open_entry list" where
  "heappush x h = sift_down (h @ [x]) 0 (length h) x"

fun heappop :: "open_entry list \<Rightarrow> (open_entry \<times> open_entry list) option" where
  "heappop [] = None"
| "heappop (x # xs) =
     (if xs = [] then Some (x, [])
      else let item = last xs; h = (x # butlast xs)[0 := item]; (h', i) = sift_leaf h 0 in Some (x, sift_down (h'[i := item]) 0 i item))"

section \<open>Missions\<close>

record waypoint =
  wp_id :: string
  wp_position :: position
  wp_speed :: pyfloat
  wp_hold_time :: pyfloat
  wp_action :: "string option"

record mission_plan =
  mp_id :: string
  mp_name :: string
  mp_waypoints :: "waypoint list"
  mp_total_distance :: pyfloat
  mp_estimated_time :: pyfloat
  mp_created_at :: datetime

record mission_planner =
  pl_mission_counter :: nat
  pl_waypoint_counter :: nat
  pl_current_mission :: "mission_plan option"
  pl_current_waypoint_idx :: nat
  pl_obstacles :: "geofence list"

definition planner_init :: mission_planner where
  "planner_init = \<lparr>pl_mission_counter = 0, pl_waypoint_counter = 0, pl_current_mission = None, pl_current_waypoint_idx = 0, pl_obstacles = []\<rparr>"

definition waypoint_id :: "nat \<Rightarrow> string" where
  "waypoint_id k = ''WP'' @ zero_pad 4 (dec_of_nat k)"

definition mission_id :: "nat \<Rightarrow> string" where
  "mission_id k = ''MSN'' @ zero_pad 4 (dec_of_nat k)"

text \<open>Waypoints numbered on from a counter.\<close>

definition number_waypoints :: "nat \<Rightarrow> pyfloat \<Rightarrow> position list \<Rightarrow> waypoint list" where
  "number_waypoints k v ps =
     map (\<lambda>(i, p). \<lparr>wp_id = waypoint_id i, wp_position = p, wp_speed = v, wp_hold_time = Fin 0, wp_action = None\<rparr>)
       (zip [k + 1..<k + 1 + length ps] ps)"

fun path_length :: "libm \<Rightarrow> pyfloat \<Rightarrow> position list \<Rightarrow> pyfloat result" where
  "path_length L acc (p # q # ps) = bindE (distance_to L p q) (\<lambda>d. path_length L (fl_add acc d) (q # ps))"
| "path_length L acc ps = Inr acc"

text \<open>
  The ids are drawn while the distances are summed, so an exception leaves the counter where the loop was;
  the mission is stored only when the loop has ended.
\<close>

fun drawn_ids :: "libm \<Rightarrow> position list \<Rightarrow> nat" where
  "drawn_ids L (p # q # ps) = (case distance_to L p q of Inl e \<Rightarrow> 2 | Inr d \<Rightarrow> 1 + drawn_ids L (q # ps))"
| "drawn_ids L ps = length ps"

definition create_mission ::
  "libm \<Rightarrow> datetime \<Rightarrow> string \<Rightarrow> position list \<Rightarrow> pyfloat \<Rightarrow> mission_planner \<Rightarrow> mission_plan result \<times> mission_planner" where
  "create_mission L now name ps v s =
     (let k = pl_waypoint_counter s;
          s1 = s\<lparr>pl_waypoint_counter := k + drawn_ids L ps\<rparr>
      in case path_length L (Fin 0) ps of
           Inl e \<Rightarrow> (Inl e, s1)
         | Inr total_distance \<Rightarrow>
             (case (if fl_lt (Fin 0) v then fl_div total_distance v else Inr (Fin 0)) of
                Inl e \<Rightarrow> (Inl e, s1)
              | Inr t \<Rightarrow>
                  let m = \<lparr>mp_id = mission_id (pl_mission_counter s + 1), mp_name = name, mp_waypoints = number_waypoints k v ps,
                           mp_total_distance = total_distance, mp_estimated_time = t, mp_created_at = now\<rparr>
                  in (Inr m, s1\<lparr>pl_mission_counter := pl_mission_counter s + 1, pl_current_mission := Some m, pl_current_waypoint_idx := 0\<rparr>)))"

section \<open>Routes\<close>

definition grid_step :: pyfloat where
  "grid_step = fl_of_rat (100 / 111000)"

fun is_blocked :: "geofence list \<Rightarrow> position \<Rightarrow> bool result" where
  "is_blocked [] p = Inr False"
| "is_blocked (f # fs) p =
     (if gf_fence_type f = Exclude
      then bindE (fence_contains f p) (\<lambda>b. if b then Inr True else is_blocked fs p)
      else is_blocked fs p)"

definition offsets :: "(pyfloat \<times> pyfloat) list" where
  "offsets = [(dlat, dlon). dlat \<leftarrow> [fl_neg grid_step, Fin 0, grid_step], dlon \<leftarrow> [fl_neg grid_step, Fin 0, grid_step],
              \<not> (dlat = Fin 0 \<and> dlon = Fin 0)]"

definition shifted :: "position \<Rightarrow> pyfloat \<times> pyfloat \<Rightarrow> position" where
  "shifted p d = pos (fl_add (ps_latitude p) (fst d)) (fl_add (ps_longitude p) (snd d)) (ps_altitude p)"

fun free_of :: "geofence list \<Rightarrow> position list \<Rightarrow> position list result" where
  "free_of obs [] = Inr []"
| "free_of obs (p # ps) = bindE (is_blocked obs p) (\<lambda>b. bindE (free_of obs ps) (\<lambda>qs. Inr (if b then qs else p # qs)))"

definition get_neighbors :: "geofence list \<Rightarrow> position \<Rightarrow> position list result" where
  "get_neighbors obs p = free_of obs (map (shifted p) offsets)"

definition pos_key :: "position \<Rightarrow> string" where
  "pos_key p = fmt_fixed 6 (ps_latitude p) @ '','' @ fmt_fixed 6 (ps_longitude p) @ '','' @ fmt_fixed 1 (ps_altitude p)"

record astar =
  as_open :: "open_entry list"
  as_came_from :: "(string, position) dict"
  as_g_score :: "(string, pyfloat) dict"
  as_pushed :: nat

definition g_of :: "astar \<Rightarrow> string \<Rightarrow> pyfloat" where
  "g_of s k = (case dget (as_g_score s) k of None \<Rightarrow> PosInf | Some g \<Rightarrow> g)"

text \<open>One neighbour of the current position.\<close>

definition relax :: "libm \<Rightarrow> (nat \<Rightarrow> int) \<Rightarrow> position \<Rightarrow> position \<Rightarrow> position \<Rightarrow> astar \<Rightarrow> astar result" where
  "relax L addr goal current n s =
     bindE (distance_to L current n) (\<lambda>d.
       let g = fl_add (g_of s (pos_key current)) d in
       if fl_lt g (g_of s (pos_key n))
       then bindE (distance_to L n goal) (\<lambda>h.
         Inr (s\<lparr>as_came_from := dset (pos_key n) current (as_came_from s), as_g_score := dset (pos_key n) g (as_g_score s),
                as_open := heappush (fl_add g h, addr (as_pushed s), n) (as_open s), as_pushed := as_pushed s + 1\<rparr>))
       else Inr s)"

fun relax_all :: "libm \<Rightarrow> (nat \<Rightarrow> int) \<Rightarrow> position \<Rightarrow> position \<Rightarrow> position list \<Rightarrow> astar \<Rightarrow> astar result" where
  "relax_all L addr goal current [] s = Inr s"
| "relax_all L addr goal current (n # ns) s = bindE (relax L addr goal current n s) (relax_all L addr goal current ns)"

text \<open>The walk back over the predecessors; the fuel is their number, which more steps would exceed only on a cycle.\<close>

fun walk_back :: "nat \<Rightarrow> (string, position) dict \<Rightarrow> string \<Rightarrow> position list option" where
  "walk_back n came key =
     (case dget came key of
        None \<Rightarrow> Some []
      | Some p \<Rightarrow> (case n of 0 \<Rightarrow> None | Suc n' \<Rightarrow> map_option (\<lambda>ps. p # ps) (walk_back n' came (pos_key p))))"

declare walk_back.simps [simp del]

definition reconstruct :: "astar \<Rightarrow> position \<Rightarrow> position \<Rightarrow> position \<Rightarrow> position list option" where
  "reconstruct s start goal current =
     map_option (\<lambda>trail. rev (goal # trail @ [start])) (walk_back (length (as_came_from s)) (as_came_from s) (pos_key current))"

fun astar_loop :: "nat \<Rightarrow> libm \<Rightarrow> (nat \<Rightarrow> int) \<Rightarrow> position \<Rightarrow> position \<Rightarrow> geofence list \<Rightarrow> astar \<Rightarrow> position list result option" where
  "astar_loop 0 L addr start goal obs s = Some (Inr [start, goal])"
| "astar_loop (Suc n) L addr start goal obs s =
     (case heappop (as_open s) of
        None \<Rightarrow> Some (Inr [start, goal])
      | Some ((_, _, current), rest) \<Rightarrow>
          (case distance_to L current goal of
             Inl e \<Rightarrow> Some (Inl e)
           | Inr d \<Rightarrow>
               if fl_lt d (Fin 100) then map_option Inr (reconstruct s start goal current)
               else case bindE (get_neighbors obs current) (\<lambda>ns. relax_all L addr goal current ns (s\<lparr>as_open := rest\<rparr>)) of
                 Inl e \<Rightarrow> Some (Inl e)
               | Inr s' \<Rightarrow> astar_loop n L addr start goal obs s'))"

definition astar_init :: "(nat \<Rightarrow> int) \<Rightarrow> position \<Rightarrow> astar" where
  "astar_init addr start = \<lparr>as_open = [(Fin 0, addr 0, start)], as_came_from = [], as_g_score = [(pos_key start, Fin 0)], as_pushed = 1\<rparr>"

definition plan_route :: "libm \<Rightarrow> (nat \<Rightarrow> int) \<Rightarrow> position \<Rightarrow> position \<Rightarrow> geofence list option \<Rightarrow> mission_planner \<Rightarrow> position list result option" where
  "plan_route L addr start goal obstacles s =
     (let obs = (case obstacles of None \<Rightarrow> pl_obstacles s | Some [] \<Rightarrow> pl_obstacles s | Some fs \<Rightarrow> fs) in
      if obs = [] then Some (Inr [start, goal])
      else astar_loop 1000 L addr start goal obs (astar_init addr start))"

fun leg_lengths :: "libm \<Rightarrow> position list \<Rightarrow> pyfloat list result" where
  "leg_lengths L (p # q # ps) = bindE (distance_to L p q) (\<lambda>d. bindE (leg_lengths L (q # ps)) (\<lambda>ds. Inr (d # ds)))"
| "leg_lengths L ps = Inr []"

text \<open>\<open>add_up\<close> stands for the built-in \<open>sum\<close>, whose rounding depends on the version of Python.\<close>

definition replan ::
  "(pyfloat list \<Rightarrow> pyfloat) \<Rightarrow> libm \<Rightarrow> (nat \<Rightarrow> int) \<Rightarrow> position \<Rightarrow> geofence list option \<Rightarrow> mission_planner \<Rightarrow> (mission_plan result \<times> mission_planner) option" where
  "replan add_up L addr current new_obstacles s =
     (case pl_current_mission s of
        None \<Rightarrow> Some (Inl ValueError, s)
      | Some m \<Rightarrow>
          (case drop (pl_current_waypoint_idx s) (mp_waypoints m) of
             [] \<Rightarrow> Some (Inr m, s)
           | w # ws \<Rightarrow>
               let obstacles = (case new_obstacles of None \<Rightarrow> pl_obstacles s | Some [] \<Rightarrow> pl_obstacles s | Some fs \<Rightarrow> fs) in
               (case plan_route L addr current (wp_position w) (Some obstacles) s of
                  None \<Rightarrow> None
                | Some (Inl e) \<Rightarrow> Some (Inl e, s)
                | Some (Inr path) \<Rightarrow>
                    let new = number_waypoints (pl_waypoint_counter s) (wp_speed w) (butlast path) @ w # ws;
                        s1 = s\<lparr>pl_waypoint_counter := pl_waypoint_counter s + length (butlast path)\<rparr>
                    in (case leg_lengths L (map wp_position new) of
                          Inl e \<Rightarrow> Some (Inl e, s1)
                        | Inr legs \<Rightarrow>
                            let m' = m\<lparr>mp_waypoints := new, mp_total_distance := add_up legs\<rparr> in
                            Some (Inr m', s1\<lparr>pl_current_mission := Some m', pl_current_waypoint_idx := 0\<rparr>)))))"

definition get_next_waypoint :: "mission_planner \<Rightarrow> waypoint option" where
  "get_next_waypoint s =
     (case pl_current_mission s of
        None \<Rightarrow> None
      | Some m \<Rightarrow> if pl_current_waypoint_idx s < length (mp_waypoints m) then Some (mp_waypoints m ! pl_current_waypoint_idx s) else None)"

definition advance_waypoint :: "mission_planner \<Rightarrow> mission_planner" where
  "advance_waypoint s = s\<lparr>pl_current_waypoint_idx := pl_current_waypoint_idx s + 1\<rparr>"

record mission_progress =
  pg_mission_id :: string
  pg_current_waypoint :: nat
  pg_total_waypoints :: nat
  pg_progress_pct :: pyfloat
  pg_distance_remaining :: pyfloat

definition get_progress :: "mission_planner \<Rightarrow> mission_progress option" where
  "get_progress s =
     (case pl_current_mission s of
        None \<Rightarrow> None
      | Some m \<Rightarrow>
          let n = length (mp_waypoints m); i = pl_current_waypoint_idx s in
          Some \<lparr>pg_mission_id = mp_id m, pg_current_waypoint = i, pg_total_waypoints = n,
                pg_progress_pct = (if 0 < n then fl_mul (fl_of_rat (of_nat i / of_nat n)) (Fin 100) else Fin 0),
                pg_distance_remaining = mp_total_distance m\<rparr>)"

definition add_obstacle :: "geofence \<Rightarrow> mission_planner \<Rightarrow> mission_planner" where
  "add_obstacle f s = s\<lparr>pl_obstacles := pl_obstacles s @ [f]\<rparr>"

section \<open>Facts about the queue\<close>

lemma set_sift_down: "i < length h \<Longrightarrow> set (sift_down h start i item) \<subseteq> insert item (set h)"
proof (induction h start i item rule: sift_down.induct)
  case (1 h start i item)
  let ?p = "(i - 1) div 2"
  show ?case
  proof (cases "start < i \<and> entry_lt item (h ! ?p)")
    case True
    have p: "?p < length h" using "1.prems" by linarith
    have "set (sift_down (h[i := h ! ?p]) start ?p item) \<subseteq> insert item (set (h[i := h ! ?p]))" using "1.IH" True p by simp
    also have "\<dots> \<subseteq> insert item (set h)" using p set_update_subset_insert [of h i "h ! ?p"] by auto
    finally show ?thesis using True by (simp add: sift_down.simps [of h start i item])
  next
    case False
    then have "sift_down h start i item = h[i := item]" by (subst sift_down.simps) auto
    then show ?thesis using set_update_subset_insert [of h i item] by simp
  qed
qed

lemma set_heappush: "set (heappush x h) \<subseteq> insert x (set h)"
  using set_sift_down [of "length h" "h @ [x]" 0 x] by (auto simp: heappush_def)

lemma sift_leaf_bounds: "i < length h \<Longrightarrow> set (fst (sift_leaf h i)) \<subseteq> set h \<and> snd (sift_leaf h i) < length (fst (sift_leaf h i))"
proof (induction h i rule: sift_leaf.induct)
  case (1 h i)
  show ?case
  proof (cases "2 * i + 1 < length h")
    case True
    let ?c = "if 2 * i + 2 < length h \<and> \<not> entry_lt (h ! (2 * i + 1)) (h ! (2 * i + 2)) then 2 * i + 2 else 2 * i + 1"
    have c: "?c < length h" using True by simp
    have eq: "sift_leaf h i = sift_leaf (h[i := h ! ?c]) ?c" using True by (subst sift_leaf.simps) (simp add: Let_def)
    have "set (h[i := h ! ?c]) \<subseteq> set h" using set_update_subset_insert [of h i "h ! ?c"] nth_mem [OF c] by auto
    then show ?thesis using "1.IH" [OF True refl refl] c unfolding eq by auto
  next
    case False
    then show ?thesis using "1.prems" by (simp add: sift_leaf.simps [of h i])
  qed
qed

lemma heappop_subset: "heappop h = Some (x, rest) \<Longrightarrow> x \<in> set h \<and> set rest \<subseteq> set h"
proof (cases h)
  case (Cons y ys)
  assume pop: "heappop h = Some (x, rest)"
  show ?thesis
  proof (cases "ys = []")
    case False
    let ?h = "(y # butlast ys)[0 := last ys]"
    obtain h' i where leaf: "sift_leaf ?h 0 = (h', i)" by fastforce
    have b: "set h' \<subseteq> set ?h" "i < length h'" using sift_leaf_bounds [of 0 ?h] leaf by simp_all
    have "set ?h \<subseteq> set h" using False Cons in_set_butlastD [of _ ys] last_in_set [of ys] by auto
    moreover have "set (sift_down (h'[i := last ys]) 0 i (last ys)) \<subseteq> insert (last ys) (set h')"
      using set_sift_down [of i "h'[i := last ys]" 0 "last ys"] b(2) set_update_subset_insert [of h' i "last ys"] by auto
    moreover have "last ys \<in> set h" using False Cons by simp
    moreover have "x = y" "rest = sift_down (h'[i := last ys]) 0 i (last ys)" using pop Cons False leaf by (simp_all add: Let_def)
    ultimately show ?thesis using b(1) Cons by (auto dest!: subsetD)
  qed (use pop Cons in auto)
qed simp

section \<open>The search returns\<close>

lemma finite_dict: "finite {k. dget d k \<noteq> None \<and> P k}"
  using finite_set [of "dkeys d"] unfolding set_dkeys by simp

text \<open>The walk back ends within the number of predecessors when a measure decreases along it.\<close>

lemma walk_back_returns:
  assumes "\<And>k p. dget came k = Some p \<Longrightarrow> (m (pos_key p) :: rat) < m k"
    and "card {k. dget came k \<noteq> None \<and> m k \<le> m key} \<le> n"
  shows "\<exists>ps. walk_back n came key = Some ps \<and> (\<forall>p\<in>set ps. \<exists>k. dget came k = Some p)"
  using assms(2)
proof (induction n arbitrary: key)
  case 0
  have fin: "finite {k. dget came k \<noteq> None \<and> m k \<le> m key}" by (rule finite_dict)
  with 0 have "dget came key = None" by auto
  then show ?case by (simp add: walk_back.simps)
next
  case (Suc n)
  have fin: "finite {k. dget came k \<noteq> None \<and> m k \<le> m key}" by (rule finite_dict)
  show ?case
  proof (cases "dget came key")
    case (Some p)
    have "{k. dget came k \<noteq> None \<and> m k \<le> m (pos_key p)} \<subset> {k. dget came k \<noteq> None \<and> m k \<le> m key}"
      using assms(1) [OF Some] Some by force
    from psubset_card_mono [OF fin this] have "card {k. dget came k \<noteq> None \<and> m k \<le> m (pos_key p)} \<le> n"
      using Suc.prems by linarith
    with Suc.IH obtain ps where "walk_back n came (pos_key p) = Some ps" "\<forall>q\<in>set ps. \<exists>k. dget came k = Some q" by blast
    then show ?thesis using Some by (auto simp: walk_back.simps [of "Suc n"])
  qed (simp add: walk_back.simps)
qed

lemma card_dict_le: "card {k. dget d k \<noteq> None \<and> P k} \<le> length d"
proof -
  have "card {k. dget d k \<noteq> None \<and> P k} \<le> card (set (dkeys d))" by (rule card_mono [OF finite_set]) auto
  also have "\<dots> \<le> length (dkeys d)" by (rule card_length)
  finally show ?thesis by (simp add: dkeys_def)
qed

lemma fl_add_step:
  assumes "0 \<le> g" "g \<le> of_int k" "1 \<le> d" "d \<le> 1000" "k \<le> 10 ^ 6"
  shows "\<exists>r. fl_add (Fin g) (Fin d) = Fin r \<and> g < r \<and> r \<le> of_int (k + 1000)"
proof -
  have x: "of_int 1 \<le> g + d" "g + d \<le> of_int (k + 1000)" "\<bar>k + 1000\<bar> < 2 ^ 53" using assms by (auto simp: abs_if)
  note b = fl_of_rat_bracket [OF x(1,2) _ x(3)]
  have k: "(of_int k :: rat) \<le> 10 ^ 6" using assms(5) by (metis of_int_le_iff of_int_numeral of_int_power)
  have "\<bar>fl_round (g + d) - (g + d)\<bar> \<le> (g + d) / 2 ^ 53" using x(1) by (intro fl_round_error_half) simp
  also have "(g + d) / 2 ^ 53 \<le> (10 ^ 6 + 1000) / 2 ^ 53" using assms(2,4) k by (intro divide_right_mono) auto
  also have "\<dots> \<le> (1 / 2 :: rat)" by simp
  finally have "g < fl_round (g + d)" using assms(3) unfolding abs_le_iff by linarith
  then show ?thesis using b by simp
qed

section \<open>The invariant of the search\<close>

text \<open>The positions that are at most so many grid steps away.\<close>

fun grid :: "nat \<Rightarrow> position \<Rightarrow> position set" where
  "grid 0 p = {p}"
| "grid (Suc n) p = grid n p \<union> (\<Union>q\<in>grid n p. shifted q ` set offsets)"

lemma grid_mono: "i \<le> j \<Longrightarrow> grid i p \<subseteq> grid j p"
  by (induction j) (auto simp: le_Suc_eq)

text \<open>
  The search stays where the mathematics library answers: distances to the goal exist, the obstacles can
  be tested, and a step of the grid is between one metre and a kilometre long.
\<close>

definition navigable :: "libm \<Rightarrow> geofence list \<Rightarrow> position \<Rightarrow> position \<Rightarrow> bool" where
  "navigable L obs start goal \<longleftrightarrow>
     (\<forall>p\<in>grid 1000 start. (\<exists>h. distance_to L p goal = Inr h) \<and>
       (\<forall>d\<in>set offsets. (\<exists>x. distance_to L p (shifted p d) = Inr (Fin x) \<and> 1 \<le> x \<and> x \<le> 1000) \<and>
         (\<exists>b. is_blocked obs (shifted p d) = Inr b) \<and> (\<exists>h. distance_to L (shifted p d) goal = Inr h)))"

definition usable :: "geofence list \<Rightarrow> position \<Rightarrow> position \<Rightarrow> bool" where
  "usable obs start p \<longleftrightarrow> p = start \<or> is_blocked obs p = Inr False"

definition astar_ok :: "geofence list \<Rightarrow> position \<Rightarrow> nat \<Rightarrow> astar \<Rightarrow> bool" where
  "astar_ok obs start k s \<longleftrightarrow>
     (\<forall>e\<in>set (as_open s). snd (snd e) \<in> grid k start \<and> usable obs start (snd (snd e)) \<and>
        (\<exists>g. dget (as_g_score s) (pos_key (snd (snd e))) = Some (Fin g))) \<and>
     (\<forall>key g. dget (as_g_score s) key = Some g \<longrightarrow> (\<exists>r. g = Fin r \<and> 0 \<le> r \<and> r \<le> of_int (1000 * int k))) \<and>
     (\<forall>key p. dget (as_came_from s) key = Some p \<longrightarrow> usable obs start p \<and>
        (\<exists>r r'. dget (as_g_score s) key = Some (Fin r) \<and> dget (as_g_score s) (pos_key p) = Some (Fin r') \<and> r' < r))"

lemma astar_okD:
  assumes "astar_ok obs start k s"
  shows "e \<in> set (as_open s) \<Longrightarrow> snd (snd e) \<in> grid k start \<and> usable obs start (snd (snd e)) \<and>
      (\<exists>g. dget (as_g_score s) (pos_key (snd (snd e))) = Some (Fin g))"
    and "dget (as_g_score s) key = Some g \<Longrightarrow> \<exists>r. g = Fin r \<and> 0 \<le> r \<and> r \<le> of_int (1000 * int k)"
    and "dget (as_came_from s) key = Some p \<Longrightarrow> usable obs start p \<and>
      (\<exists>r r'. dget (as_g_score s) key = Some (Fin r) \<and> dget (as_g_score s) (pos_key p) = Some (Fin r') \<and> r' < r)"
  using assms unfolding astar_ok_def by blast+

lemma astar_ok_mono:
  assumes "astar_ok obs start k s"
  shows "astar_ok obs start (Suc k) s"
proof -
  have "r \<le> of_int (1000 * int (Suc k))" if "r \<le> of_int (1000 * int k)" for r :: rat
    using that by (rule order_trans) (simp only: of_int_le_iff, simp)
  moreover have "grid k start \<subseteq> grid (Suc k) start" by auto
  ultimately show ?thesis using assms unfolding astar_ok_def by blast
qed

lemma astar_ok_open: "astar_ok obs start k s \<Longrightarrow> set h \<subseteq> set (as_open s) \<Longrightarrow> astar_ok obs start k (s\<lparr>as_open := h\<rparr>)"
  unfolding astar_ok_def by auto

lemma astar_ok_init: "astar_ok obs start 0 (astar_init addr start)"
  by (auto simp: astar_ok_def astar_init_def usable_def dget_Cons split: if_splits)

text \<open>Recording a shorter way to a neighbour keeps the invariant.\<close>

lemma astar_ok_record:
  assumes ok: "astar_ok obs start (Suc k) s" and g: "dget (as_g_score s) (pos_key current) = Some (Fin gc)"
    and r: "gc < r" "0 \<le> r" "r \<le> of_int (1000 * int (Suc k))" and less: "fl_lt (Fin r) (g_of s (pos_key n))"
    and n: "n \<in> grid (Suc k) start" "usable obs start n" "usable obs start current"
    and s': "s' = s\<lparr>as_came_from := dset (pos_key n) current (as_came_from s), as_g_score := dset (pos_key n) (Fin r) (as_g_score s),
        as_open := heappush (f, a, n) (as_open s), as_pushed := q\<rparr>"
  shows "astar_ok obs start (Suc k) s' \<and> dget (as_g_score s') (pos_key current) = Some (Fin gc)"
proof (rule conjI)
  have drop: "r < x" if "dget (as_g_score s) (pos_key n) = Some (Fin x)" for x using less that by (simp add: g_of_def)
  have ne: "pos_key n \<noteq> pos_key current" using drop [of gc] g r(1) by auto
  then show "dget (as_g_score s') (pos_key current) = Some (Fin gc)" using g by (simp add: s')
  show "astar_ok obs start (Suc k) s'" unfolding astar_ok_def
  proof (intro conjI ballI allI impI)
    fix e assume "e \<in> set (as_open s')"
    then have "e = (f, a, n) \<or> e \<in> set (as_open s)" using set_heappush [of "(f, a, n)" "as_open s"] by (auto simp: s')
    then show "snd (snd e) \<in> grid (Suc k) start" "usable obs start (snd (snd e))"
      "\<exists>g. dget (as_g_score s') (pos_key (snd (snd e))) = Some (Fin g)"
      using astar_okD(1) [OF ok, of e] n by (auto simp: s' simp del: grid.simps)
  next
    fix key g assume "dget (as_g_score s') key = Some g"
    then show "\<exists>r. g = Fin r \<and> 0 \<le> r \<and> r \<le> of_int (1000 * int (Suc k))"
      using astar_okD(2) [OF ok, of key g] r by (auto simp: s' split: if_splits)
  next
    fix key p assume "dget (as_came_from s') key = Some p"
    then have "key = pos_key n \<and> p = current \<or> key \<noteq> pos_key n \<and> dget (as_came_from s) key = Some p" by (auto simp: s' split: if_splits)
    then show "usable obs start p"
      "\<exists>r r'. dget (as_g_score s') key = Some (Fin r) \<and> dget (as_g_score s') (pos_key p) = Some (Fin r') \<and> r' < r"
    proof (atomize (full), elim disjE)
      assume "key = pos_key n \<and> p = current"
      then show "usable obs start p \<and>
        (\<exists>r r'. dget (as_g_score s') key = Some (Fin r) \<and> dget (as_g_score s') (pos_key p) = Some (Fin r') \<and> r' < r)"
        using n(3) g r(1) ne by (simp add: s')
    next
      assume k: "key \<noteq> pos_key n \<and> dget (as_came_from s) key = Some p"
      then obtain x y where "usable obs start p" "dget (as_g_score s) key = Some (Fin x)" "dget (as_g_score s) (pos_key p) = Some (Fin y)" "y < x"
        using astar_okD(3) [OF ok] by blast
      then show "usable obs start p \<and>
        (\<exists>r r'. dget (as_g_score s') key = Some (Fin r) \<and> dget (as_g_score s') (pos_key p) = Some (Fin r') \<and> r' < r)"
        using k drop [of y] by (cases "pos_key p = pos_key n") (auto simp: s')
    qed
  qed
qed

lemma relax_ok:
  assumes nav: "navigable L obs start goal" and k: "k < 1000" and cur: "current \<in> grid k start" "usable obs start current"
    and d: "d \<in> set offsets" and free: "is_blocked obs (shifted current d) = Inr False"
    and ok: "astar_ok obs start (Suc k) s" and g: "dget (as_g_score s) (pos_key current) = Some (Fin gc)"
    and gc: "0 \<le> gc" "gc \<le> of_int (1000 * int k)"
  shows "\<exists>s'. relax L addr goal current (shifted current d) s = Inr s' \<and> astar_ok obs start (Suc k) s' \<and>
    dget (as_g_score s') (pos_key current) = Some (Fin gc)"
proof -
  let ?n = "shifted current d"
  have "current \<in> grid 1000 start" using cur(1) grid_mono [of k 1000 start] k by auto
  then obtain x h where x: "distance_to L current ?n = Inr (Fin x)" "1 \<le> x" "x \<le> 1000" and h: "distance_to L ?n goal = Inr h"
    using nav d unfolding navigable_def by blast
  have "1000 * int k \<le> 10 ^ 6" using k by simp
  from fl_add_step [OF gc x(2,3) this] obtain r where r: "fl_add (Fin gc) (Fin x) = Fin r" "gc < r" "r \<le> of_int (1000 * int k + 1000)" by blast
  have r': "0 \<le> r" "r \<le> of_int (1000 * int (Suc k))" using r gc by (auto simp: algebra_simps)
  have n: "?n \<in> grid (Suc k) start" "usable obs start ?n" using cur(1) d free by (auto simp: usable_def)
  have gcur: "g_of s (pos_key current) = Fin gc" using g by (simp add: g_of_def)
  show ?thesis
  proof (cases "fl_lt (Fin r) (g_of s (pos_key ?n))")
    case True
    from astar_ok_record [OF ok g r(2) r' True n cur(2) refl] show ?thesis
      using x(1) h r(1) True gcur by (simp add: relax_def Let_def del: fl_add.simps)
  next
    case False
    then show ?thesis using x(1) r(1) gcur ok g by (simp add: relax_def Let_def del: fl_add.simps)
  qed
qed

lemma relax_all_ok:
  assumes nav: "navigable L obs start goal" and k: "k < 1000" and cur: "current \<in> grid k start" "usable obs start current"
    and gc: "0 \<le> gc" "gc \<le> of_int (1000 * int k)"
    and "\<forall>n\<in>set ns. is_blocked obs n = Inr False \<and> n \<in> shifted current ` set offsets"
    and "astar_ok obs start (Suc k) s" and "dget (as_g_score s) (pos_key current) = Some (Fin gc)"
  shows "\<exists>s'. relax_all L addr goal current ns s = Inr s' \<and> astar_ok obs start (Suc k) s'"
  using assms(7-)
proof (induction ns arbitrary: s)
  case (Cons n ns)
  then obtain d where d: "d \<in> set offsets" "n = shifted current d" by auto
  have "is_blocked obs (shifted current d) = Inr False" using Cons.prems(1) d(2) by simp
  from relax_ok [OF nav k cur d(1) this Cons.prems(2,3) gc] obtain s' where "relax L addr goal current n s = Inr s'"
    "astar_ok obs start (Suc k) s'" "dget (as_g_score s') (pos_key current) = Some (Fin gc)" using d(2) by blast
  then show ?case using Cons by simp
qed simp

lemma free_of_ok:
  assumes "\<forall>p\<in>set ps. \<exists>b. is_blocked obs p = Inr b"
  shows "\<exists>qs. free_of obs ps = Inr qs \<and> (\<forall>q\<in>set qs. q \<in> set ps \<and> is_blocked obs q = Inr False)"
  using assms
proof (induction ps)
  case (Cons p ps)
  then obtain b qs where "is_blocked obs p = Inr b" "free_of obs ps = Inr qs" "\<forall>q\<in>set qs. q \<in> set ps \<and> is_blocked obs q = Inr False" by auto
  then show ?case by (cases b) auto
qed simp

text \<open>A route from start to goal whose inner points are free.\<close>

definition good_route :: "geofence list \<Rightarrow> position \<Rightarrow> position \<Rightarrow> position list \<Rightarrow> bool" where
  "good_route obs start goal path \<longleftrightarrow>
     (\<exists>inner. path = start # inner @ [goal] \<and> (\<forall>p\<in>set inner. p = start \<or> is_blocked obs p = Inr False))"

lemma good_direct: "good_route obs start goal [start, goal]"
  by (simp add: good_route_def)

lemma reconstruct_ok:
  assumes "astar_ok obs start k s"
  shows "\<exists>path. reconstruct s start goal current = Some path \<and> good_route obs start goal path"
proof -
  define m where "m key = (case g_of s key of Fin r \<Rightarrow> r | _ \<Rightarrow> 0)" for key
  have "m (pos_key p) < m key" if "dget (as_came_from s) key = Some p" for key p
    using astar_okD(3) [OF assms that] by (auto simp: m_def g_of_def)
  from walk_back_returns [of "as_came_from s" m, OF this card_dict_le]
  obtain trail where "walk_back (length (as_came_from s)) (as_came_from s) (pos_key current) = Some trail"
    and b: "\<forall>p\<in>set trail. \<exists>key. dget (as_came_from s) key = Some p" by blast
  then have "reconstruct s start goal current = Some (start # rev trail @ [goal])" by (simp add: reconstruct_def)
  moreover have "\<forall>p\<in>set (rev trail). p = start \<or> is_blocked obs p = Inr False"
    using b astar_okD(3) [OF assms] unfolding usable_def by fastforce
  ultimately show ?thesis unfolding good_route_def by blast
qed

lemma astar_step_ok:
  assumes nav: "navigable L obs start goal" and k: "k < 1000" and ok: "astar_ok obs start k s"
    and pop: "heappop (as_open s) = Some ((f, a, current), rest)"
  shows "(\<exists>h. distance_to L current goal = Inr h) \<and>
    (\<exists>s'. bindE (get_neighbors obs current) (\<lambda>ns. relax_all L addr goal current ns (s\<lparr>as_open := rest\<rparr>)) = Inr s' \<and> astar_ok obs start (Suc k) s')"
proof -
  have e: "(f, a, current) \<in> set (as_open s)" "set rest \<subseteq> set (as_open s)" using heappop_subset [OF pop] by simp_all
  then obtain gc where cur: "current \<in> grid k start" "usable obs start current" and g: "dget (as_g_score s) (pos_key current) = Some (Fin gc)"
    using astar_okD(1) [OF ok, of "(f, a, current)"] by auto
  have gc: "0 \<le> gc" "gc \<le> of_int (1000 * int k)" using astar_okD(2) [OF ok g] by auto
  have far: "current \<in> grid 1000 start" using cur(1) grid_mono [of k 1000 start] k by auto
  have ok': "astar_ok obs start (Suc k) (s\<lparr>as_open := rest\<rparr>)" using astar_ok_mono [OF astar_ok_open [OF ok e(2)]] .
  have "\<forall>p\<in>set (map (shifted current) offsets). \<exists>b. is_blocked obs p = Inr b" using nav far unfolding navigable_def by auto
  from free_of_ok [OF this] obtain ns where ns: "get_neighbors obs current = Inr ns"
    "\<forall>n\<in>set ns. is_blocked obs n = Inr False \<and> n \<in> shifted current ` set offsets" unfolding get_neighbors_def by auto
  have "dget (as_g_score (s\<lparr>as_open := rest\<rparr>)) (pos_key current) = Some (Fin gc)" using g by simp
  from relax_all_ok [OF nav k cur gc ns(2) ok' this] show ?thesis using ns(1) nav far unfolding navigable_def by auto
qed

lemma astar_loop_ok:
  assumes "navigable L obs start goal" "astar_ok obs start k s" "k + n = 1000"
  shows "\<exists>path. astar_loop n L addr start goal obs s = Some (Inr path) \<and> good_route obs start goal path"
  using assms(2,3)
proof (induction n arbitrary: k s)
  case (Suc n)
  show ?case
  proof (cases "heappop (as_open s)")
    case (Some e)
    obtain f a current rest where e: "e = ((f, a, current), rest)" by (metis surj_pair)
    from astar_step_ok [OF assms(1) _ Suc.prems(1) Some [unfolded e], of addr] Suc.prems(2)
    obtain h s' where h: "distance_to L current goal = Inr h"
      and s': "bindE (get_neighbors obs current) (\<lambda>ns. relax_all L addr goal current ns (s\<lparr>as_open := rest\<rparr>)) = Inr s'"
      and ok: "astar_ok obs start (Suc k) s'" by auto
    show ?thesis
    proof (cases "fl_lt h (Fin 100)")
      case True
      then show ?thesis using reconstruct_ok [OF Suc.prems(1), of goal current] Some e h by auto
    next
      case False
      then show ?thesis using Suc.IH [OF ok] Suc.prems(2) Some e h s' by simp
    qed
  qed (simp add: good_direct)
qed (simp add: good_direct)

lemma astar_loop_shape:
  "astar_loop n L addr start goal obs s = Some (Inr path) \<Longrightarrow> \<exists>inner. path = start # inner @ [goal]"
proof (induction n arbitrary: s)
  case (Suc n)
  then show ?case by (auto simp: reconstruct_def split: option.splits sum.splits if_splits)
next
  case 0
  then show ?case by (intro exI [of _ "[]"]) simp
qed

lemma plan_route_shape:
  "plan_route L addr start goal obstacles s = Some (Inr path) \<Longrightarrow> \<exists>inner. path = start # inner @ [goal]"
  using astar_loop_shape [of 1000] by (auto simp: plan_route_def Let_def split: if_splits)

lemma number_ids: "map wp_id (number_waypoints k v ps) = map waypoint_id [k + 1..<k + 1 + length ps]"
proof -
  have "map wp_id (number_waypoints k v ps) = map waypoint_id (map fst (zip [k + 1..<k + 1 + length ps] ps))"
    by (simp add: number_waypoints_def case_prod_unfold comp_def del: upt_Suc map_fst_zip)
  then show ?thesis by (simp add: map_fst_zip del: upt_Suc)
qed

section \<open>Properties\<close>

text \<open>
  On grids where distances exist and steps are between one metre and a kilometre long, the planner
  returns a route: the search ends within its bound and the walk back over the predecessors cannot run
  in a circle. The route leads from the start to the goal, and every point between them is the start
  or lies outside all exclusion zones. It need not have points between them.
\<close>
lemma route_avoids_obstacles:
  assumes "navigable L obs start goal" and "obs \<noteq> []"
  shows "\<exists>inner. plan_route L addr start goal (Some obs) s = Some (Inr (start # inner @ [goal])) \<and>
    (\<forall>p\<in>set inner. p = start \<or> is_blocked obs p = Inr False)"
proof -
  have "plan_route L addr start goal (Some obs) s = astar_loop 1000 L addr start goal obs (astar_init addr start)"
    using assms(2) by (cases obs) (simp_all add: plan_route_def)
  then show ?thesis using astar_loop_ok [OF assms(1) astar_ok_init [of obs start addr], of 1000 addr] unfolding good_route_def by auto
qed

text \<open>
  Replanning keeps the rest of the mission: the new list is a detour that starts at the current
  position, with freshly numbered waypoints, followed by exactly the waypoints that were still to be
  flown, and the next waypoint is the first of the detour.
\<close>
theorem replan_keeps_remaining:
  assumes "replan add_up L addr current obs s = Some (Inr m', s')" and "pl_current_mission s = Some m"
    and "drop (pl_current_waypoint_idx s) (mp_waypoints m) = w # ws"
  shows "\<exists>detour. mp_waypoints m' = detour @ w # ws \<and> detour \<noteq> [] \<and> wp_position (hd detour) = current \<and>
    map wp_id detour = map waypoint_id [pl_waypoint_counter s + 1..<pl_waypoint_counter s' + 1] \<and>
    pl_current_mission s' = Some m' \<and> get_next_waypoint s' = Some (hd detour)"
proof -
  define obstacles where "obstacles = (case obs of None \<Rightarrow> pl_obstacles s | Some [] \<Rightarrow> pl_obstacles s | Some fs \<Rightarrow> fs)"
  from assms obtain path legs where route: "plan_route L addr current (wp_position w) (Some obstacles) s = Some (Inr path)"
    and m': "m' = m\<lparr>mp_waypoints := number_waypoints (pl_waypoint_counter s) (wp_speed w) (butlast path) @ w # ws, mp_total_distance := add_up legs\<rparr>"
    and s': "s' = s\<lparr>pl_waypoint_counter := pl_waypoint_counter s + length (butlast path), pl_current_mission := Some m', pl_current_waypoint_idx := 0\<rparr>"
    unfolding replan_def obstacles_def [symmetric] by (auto simp: Let_def split: option.splits sum.splits)
  from plan_route_shape [OF route] obtain inner where path: "butlast path = current # inner" by (auto simp: butlast_append)
  define d where "d = number_waypoints (pl_waypoint_counter s) (wp_speed w) (butlast path)"
  have d: "d \<noteq> []" "wp_position (hd d) = current" unfolding d_def path by (simp_all add: number_waypoints_def upt_rec)
  have "map wp_id d = map waypoint_id [pl_waypoint_counter s + 1..<pl_waypoint_counter s' + 1]"
    unfolding d_def number_ids by (simp add: s' add.commute)
  moreover have "get_next_waypoint s' = Some (hd d)"
    using d(1) by (simp add: m' s' get_next_waypoint_def nth_append hd_conv_nth d_def [symmetric])
  ultimately show ?thesis using d by (intro exI [of _ d]) (simp add: m' s' d_def [symmetric])
qed

text \<open>
  Two observations on the routes. A start that is enclosed by obstacles gets the direct line through
  them; and a route that was found leaves out the grid point from which the goal came into reach and
  names the start twice.
\<close>

lemma enclosed_start_flies_direct:
  assumes "get_neighbors obs start = Inr []" "distance_to L start goal = Inr d" "\<not> fl_lt d (Fin 100)" "obs \<noteq> []"
  shows "plan_route L addr start goal (Some obs) s = Some (Inr [start, goal])"
proof -
  have "plan_route L addr start goal (Some obs) s = astar_loop (Suc (Suc 998)) L addr start goal obs (astar_init addr start)"
    using assms(4) by (cases obs) (simp_all add: plan_route_def)
  moreover have "astar_loop n L addr start goal obs s = Some (Inr [start, goal])" if "as_open s = []" for n s
    using that by (cases n) simp_all
  ultimately show ?thesis using assms(1-3) by (simp only: astar_loop.simps) (simp add: astar_init_def)
qed

lemma route_skips_last_point:
  assumes "dget (as_came_from s) (pos_key current) = Some start" "dget (as_came_from s) (pos_key start) = None"
  shows "reconstruct s start goal current = Some [start, start, goal]"
proof -
  obtain n where "length (as_came_from s) = Suc n" using assms(1) by (cases "as_came_from s") simp_all
  then show ?thesis using assms by (simp add: reconstruct_def walk_back.simps)
qed

end
