(* ===== verification/Watchdog.thy ===== *)
theory Watchdog
  imports Float_Arith Text
begin

text \<open>
  The hard kill switch, \<^verbatim>\<open>safety/watchdog.py\<close>: a loop that samples the load of one process and kills it for
  too much memory at once, for too much processor time after a period of patience, and after repeated
  failures of the measurement. What one round of the loop sees (the process library, the output of
  \<open>ps\<close>, the clock) is a record \<open>observation\<close>; the loop runs over a list of them, and \<open>None\<close> means
  that it is still watching at the end of the list. \<open>to_float\<close> is Python's \<open>float\<close> on text.
\<close>

section \<open>State\<close>

record watchdog =
  wd_target_pid :: int
  wd_cpu_limit :: pyfloat
  wd_mem_limit_bytes :: pyfloat
  wd_patience_seconds :: int
  wd_violation_start_time :: "pyfloat option"
  wd_monitor_error_count :: nat
  wd_has_process :: bool
  wd_use_ps_fallback :: bool

definition MAX_MONITOR_ERRORS :: nat where
  "MAX_MONITOR_ERRORS = 3"

text \<open>Construction ends the program when the target does not exist; the locked target is the state.\<close>

definition watchdog_init :: "bool \<Rightarrow> int \<Rightarrow> pyfloat \<Rightarrow> pyfloat \<Rightarrow> int \<Rightarrow> watchdog" where
  "watchdog_init psutil pid cpu_limit mem_limit_mb patience =
     \<lparr>wd_target_pid = pid, wd_cpu_limit = cpu_limit, wd_mem_limit_bytes = fl_mul (fl_mul mem_limit_mb (Fin 1024)) (Fin 1024),
      wd_patience_seconds = patience, wd_violation_start_time = None, wd_monitor_error_count = 0, wd_has_process = psutil,
      wd_use_ps_fallback = False\<rparr>"

section \<open>One sample\<close>

text \<open>
  What the process library answers: the usage, a \<open>ProcessLookupError\<close>, or any other exception with its
  text. A \<open>psutil.NoSuchProcess\<close> is of the last kind, since the source catches only the former apart.
\<close>

datatype lib_answer = LibUsage pyfloat pyfloat | LibNoProcess | LibError string

record observation =
  ob_is_running :: "string + bool"
  ob_library :: lib_answer
  ob_ps_output :: "string option"
  ob_started_at :: pyfloat
  ob_checked_at :: pyfloat

function words :: "string \<Rightarrow> string list" where
  "words [] = []"
| "words (c # s) =
     (if is_space c then words s
      else (c # takeWhile (\<lambda>x. \<not> is_space x) s) # words (dropWhile (\<lambda>x. \<not> is_space x) s))"
  by pat_completeness auto
termination
  by (relation "measure length") (auto simp: le_imp_less_Suc length_dropWhile_le)

datatype sample = Usage pyfloat pyfloat | Vanished | Failed string

definition sample_ps :: "(string \<Rightarrow> pyfloat option) \<Rightarrow> string option \<Rightarrow> sample" where
  "sample_ps to_float out =
     (case out of
        None \<Rightarrow> Vanished
      | Some text \<Rightarrow>
          (case words text of
             [] \<Rightarrow> Vanished
           | [_] \<Rightarrow> Failed ''Unexpected ps output''
           | c # r # _ \<Rightarrow>
               (case (to_float c, to_float r) of
                  (Some cpu, Some rss) \<Rightarrow> Usage cpu (fl_mul rss (Fin 1024))
                | _ \<Rightarrow> Failed ''could not convert string to float'')))"

definition sample_usage :: "(string \<Rightarrow> pyfloat option) \<Rightarrow> observation \<Rightarrow> watchdog \<Rightarrow> sample" where
  "sample_usage to_float ob w =
     (if wd_has_process w \<and> \<not> wd_use_ps_fallback w
      then (case ob_library ob of LibUsage cpu mem \<Rightarrow> Usage cpu mem | LibNoProcess \<Rightarrow> Vanished | LibError e \<Rightarrow> Failed e)
      else sample_ps to_float (ob_ps_output ob))"

section \<open>The loop\<close>

datatype wd_verdict = Ended | Gone | Killed string

definition library_broken :: "string \<Rightarrow> bool" where
  "library_broken e \<longleftrightarrow> str_in ''cpu_count_logical'' e \<or> str_in ''exception set'' (py_lower e)"

definition on_error :: "string \<Rightarrow> watchdog \<Rightarrow> wd_verdict option \<times> watchdog" where
  "on_error e w =
     (let w1 = w\<lparr>wd_monitor_error_count := wd_monitor_error_count w + 1, wd_use_ps_fallback := wd_use_ps_fallback w \<or> library_broken e\<rparr>
      in (if MAX_MONITOR_ERRORS \<le> wd_monitor_error_count w1 then Some (Killed ''Telemetry Failure'') else None, w1))"

definition over_time :: "pyfloat \<Rightarrow> pyfloat \<Rightarrow> int \<Rightarrow> bool" where
  "over_time start now patience = fl_lt (Fin (of_int patience)) (fl_sub now start)"

definition on_usage :: "observation \<Rightarrow> pyfloat \<Rightarrow> pyfloat \<Rightarrow> watchdog \<Rightarrow> wd_verdict option \<times> watchdog" where
  "on_usage ob cpu mem w =
     (let w1 = w\<lparr>wd_monitor_error_count := 0\<rparr> in
      if fl_lt (wd_mem_limit_bytes w) mem then (Some (Killed ''Memory Overflow''), w1)
      else if fl_lt (wd_cpu_limit w) cpu then
        let start = (case wd_violation_start_time w of None \<Rightarrow> ob_started_at ob | Some t \<Rightarrow> t);
            w2 = w1\<lparr>wd_violation_start_time := Some start\<rparr>
        in (if over_time start (ob_checked_at ob) (wd_patience_seconds w) then Some (Killed ''CPU Hogging'') else None, w2)
      else (None, w1\<lparr>wd_violation_start_time := None\<rparr>))"

definition watch_round_wd :: "(string \<Rightarrow> pyfloat option) \<Rightarrow> observation \<Rightarrow> watchdog \<Rightarrow> wd_verdict option \<times> watchdog" where
  "watch_round_wd to_float ob w =
     (case (if wd_has_process w then ob_is_running ob else Inr True) of
        Inl e \<Rightarrow> on_error e w
      | Inr False \<Rightarrow> (Some Ended, w)
      | Inr True \<Rightarrow>
          (case sample_usage to_float ob w of
             Vanished \<Rightarrow> (Some Gone, w)
           | Failed e \<Rightarrow> on_error e w
           | Usage cpu mem \<Rightarrow> on_usage ob cpu mem w))"

fun monitor :: "(string \<Rightarrow> pyfloat option) \<Rightarrow> observation list \<Rightarrow> watchdog \<Rightarrow> wd_verdict option \<times> watchdog" where
  "monitor to_float [] w = (None, w)"
| "monitor to_float (ob # obs) w =
     (case watch_round_wd to_float ob w of
        (Some v, w') \<Rightarrow> (Some v, w')
      | (None, w') \<Rightarrow> monitor to_float obs w')"

text \<open>\<open>execute_kill\<close> sends the signal once; a signal that cannot be sent is only logged. The loop has ended either way.\<close>

definition execute_kill :: "(int \<Rightarrow> bool) \<Rightarrow> watchdog \<Rightarrow> bool" where
  "execute_kill sent w = sent (wd_target_pid w)"

section \<open>What the rounds mean\<close>

text \<open>What a round learns about the target, and when a reading is over the limit or a failure.\<close>

definition reading :: "(string \<Rightarrow> pyfloat option) \<Rightarrow> observation \<Rightarrow> watchdog \<Rightarrow> sample" where
  "reading to_float ob w =
     (case (if wd_has_process w then ob_is_running ob else Inr True) of
        Inl e \<Rightarrow> Failed e | Inr False \<Rightarrow> Vanished | Inr True \<Rightarrow> sample_usage to_float ob w)"

abbreviation hot :: "watchdog \<Rightarrow> sample \<Rightarrow> bool" where
  "hot w r \<equiv> \<exists>cpu mem. r = Usage cpu mem \<and> fl_lt (wd_cpu_limit w) cpu"

abbreviation failing :: "sample \<Rightarrow> bool" where
  "failing r \<equiv> \<exists>e. r = Failed e"

text \<open>The history of readings up to a round, newest first, explains the two counters of the state.\<close>

fun wd_explained :: "(sample \<times> pyfloat) list \<Rightarrow> watchdog \<Rightarrow> bool" where
  "wd_explained hist w \<longleftrightarrow>
     wd_monitor_error_count w \<le> length (takeWhile (\<lambda>(r, t). failing r) hist) \<and>
     (\<forall>t. wd_violation_start_time w = Some t \<longrightarrow>
        (\<exists>recent older r. hist = recent @ (r, t) # older \<and> hot w r \<and> (\<forall>(r', t')\<in>set recent. hot w r' \<or> failing r')))"

lemma watch_round_reading:
  "watch_round_wd to_float ob w =
     (case reading to_float ob w of
        Usage cpu mem \<Rightarrow> on_usage ob cpu mem w
      | Failed e \<Rightarrow> on_error e w
      | Vanished \<Rightarrow> (Some (if wd_has_process w \<and> ob_is_running ob = Inr False then Ended else Gone), w))"
  by (auto simp: watch_round_wd_def reading_def split: sum.splits bool.splits sample.splits if_splits)

lemma limits_kept:
  "wd_cpu_limit (snd (watch_round_wd to_float ob w)) = wd_cpu_limit w" "wd_mem_limit_bytes (snd (watch_round_wd to_float ob w)) = wd_mem_limit_bytes w"
  "wd_patience_seconds (snd (watch_round_wd to_float ob w)) = wd_patience_seconds w" "wd_has_process (snd (watch_round_wd to_float ob w)) = wd_has_process w"
  by (auto simp: watch_round_wd_def on_error_def on_usage_def Let_def split: sum.splits bool.splits sample.splits)

lemma wd_explained_round:
  assumes "wd_explained hist w" "watch_round_wd to_float ob w = (v, w')"
  shows "wd_explained ((reading to_float ob w, ob_started_at ob) # hist) w' \<or> v \<noteq> None"
proof (cases "reading to_float ob w")
  case (Failed e)
  then have w': "w' = w\<lparr>wd_monitor_error_count := wd_monitor_error_count w + 1, wd_use_ps_fallback := wd_use_ps_fallback w \<or> library_broken e\<rparr>"
    using assms(2) by (simp add: watch_round_reading on_error_def Let_def)
  have "\<exists>recent older r. (Failed e, ob_started_at ob) # hist = recent @ (r, t) # older \<and> hot w r \<and> (\<forall>(r', t')\<in>set recent. hot w r' \<or> failing r')"
    if t: "wd_violation_start_time w = Some t" for t
  proof -
    from assms(1) t obtain recent older r where "hist = recent @ (r, t) # older" "hot w r" "\<forall>(r', t')\<in>set recent. hot w r' \<or> failing r'" by auto
    then show ?thesis by (intro exI [of _ "(Failed e, ob_started_at ob) # recent"] exI [of _ older] exI [of _ r]) auto
  qed
  then show ?thesis using assms(1) Failed unfolding w' by auto
next
  case (Usage cpu mem)
  show ?thesis
  proof (cases "v = None")
    case True
    show ?thesis
    proof (cases "fl_lt (wd_cpu_limit w) cpu")
      case lt: True
      let ?r = "(Usage cpu mem, ob_started_at ob)"
      have w': "w' = w\<lparr>wd_monitor_error_count := 0, wd_violation_start_time :=
          Some (case wd_violation_start_time w of None \<Rightarrow> ob_started_at ob | Some t \<Rightarrow> t)\<rparr>"
        using assms(2) Usage True lt by (auto simp: watch_round_reading on_usage_def Let_def split: if_splits)
      show ?thesis
      proof (cases "wd_violation_start_time w")
        case None
        have "\<exists>recent older r. ?r # hist = recent @ (r, ob_started_at ob) # older \<and> hot w r \<and> (\<forall>(r', t')\<in>set recent. hot w r' \<or> failing r')"
          using lt by (intro exI [of _ "[]"] exI [of _ hist] exI [of _ "Usage cpu mem"]) simp
        then show ?thesis using None Usage unfolding w' by simp
      next
        case (Some t)
        then obtain recent older r where "hist = recent @ (r, t) # older" "hot w r" "\<forall>(r', t')\<in>set recent. hot w r' \<or> failing r'"
          using assms(1) by auto
        then have "\<exists>recent older r. ?r # hist = recent @ (r, t) # older \<and> hot w r \<and> (\<forall>(r', t')\<in>set recent. hot w r' \<or> failing r')"
          using lt by (intro exI [of _ "?r # recent"] exI [of _ older] exI [of _ r]) auto
        then show ?thesis using Some Usage unfolding w' by simp
      qed
    next
      case False
      then show ?thesis using assms(2) Usage True by (auto simp: watch_round_reading on_usage_def Let_def split: if_splits)
    qed
  qed simp
next
  case Vanished
  then show ?thesis using assms(2) by (auto simp: watch_round_reading)
qed

text \<open>The readings of a run, oldest first, and the state after it.\<close>

abbreviation after_rounds :: "(string \<Rightarrow> pyfloat option) \<Rightarrow> observation list \<Rightarrow> watchdog \<Rightarrow> watchdog" where
  "after_rounds to_float obs w \<equiv> fold (\<lambda>ob w. snd (watch_round_wd to_float ob w)) obs w"

fun readings :: "(string \<Rightarrow> pyfloat option) \<Rightarrow> observation list \<Rightarrow> watchdog \<Rightarrow> (sample \<times> pyfloat) list" where
  "readings to_float [] w = []"
| "readings to_float (ob # obs) w =
     (reading to_float ob w, ob_started_at ob) # readings to_float obs (snd (watch_round_wd to_float ob w))"

lemma limits_after [simp]:
  "wd_cpu_limit (after_rounds to_float obs w) = wd_cpu_limit w" "wd_mem_limit_bytes (after_rounds to_float obs w) = wd_mem_limit_bytes w"
  "wd_patience_seconds (after_rounds to_float obs w) = wd_patience_seconds w"
  by (induction obs arbitrary: w) (simp_all add: limits_kept)

lemma monitor_verdict:
  assumes "wd_explained hist w" "monitor to_float obs w = (Some v, w')"
  shows "\<exists>seen ob rest. obs = seen @ ob # rest \<and> fst (watch_round_wd to_float ob (after_rounds to_float seen w)) = Some v \<and>
    wd_explained (rev (readings to_float seen w) @ hist) (after_rounds to_float seen w)"
  using assms
proof (induction obs arbitrary: hist w)
  case (Cons ob obs)
  obtain u w1 where r: "watch_round_wd to_float ob w = (u, w1)" by fastforce
  show ?case
  proof (cases u)
    case None
    let ?h = "(reading to_float ob w, ob_started_at ob) # hist"
    have "wd_explained ?h w1" using wd_explained_round [OF Cons.prems(1) r] None by simp
    moreover have "monitor to_float obs w1 = (Some v, w')" using Cons.prems(2) r None by simp
    ultimately obtain seen ob' rest where "obs = seen @ ob' # rest" "fst (watch_round_wd to_float ob' (after_rounds to_float seen w1)) = Some v"
      "wd_explained (rev (readings to_float seen w1) @ ?h) (after_rounds to_float seen w1)" using Cons.IH by blast
    then show ?thesis using r by (intro exI [of _ "ob # seen"] exI [of _ ob'] exI [of _ rest]) (simp del: wd_explained.simps)
  next
    case (Some v')
    then show ?thesis using Cons.prems r by (intro exI [of _ "[]"] exI [of _ ob] exI [of _ obs]) (simp del: wd_explained.simps)
  qed
qed simp

text \<open>What justifies a kill, given the readings newest first.\<close>

definition cause :: "watchdog \<Rightarrow> pyfloat \<Rightarrow> (sample \<times> pyfloat) list \<Rightarrow> string \<Rightarrow> bool" where
  "cause w now hist why \<longleftrightarrow>
     why = ''Memory Overflow'' \<and> (\<exists>cpu mem t older. hist = (Usage cpu mem, t) # older \<and> fl_lt (wd_mem_limit_bytes w) mem) \<or>
     why = ''CPU Hogging'' \<and> (\<exists>recent r t older. hist = recent @ (r, t) # older \<and> hot w r \<and>
        (\<forall>(r', t')\<in>set recent. hot w r' \<or> failing r') \<and> over_time t now (wd_patience_seconds w)) \<or>
     why = ''Telemetry Failure'' \<and> 3 \<le> length (takeWhile (\<lambda>(r, t). failing r) hist)"

lemma kill_has_cause:
  assumes "wd_explained hist w" "fst (watch_round_wd to_float ob w) = Some (Killed why)"
  shows "cause w (ob_checked_at ob) ((reading to_float ob w, ob_started_at ob) # hist) why"
proof (cases "reading to_float ob w")
  case (Failed e)
  then show ?thesis using assms
    by (auto simp: watch_round_reading on_error_def Let_def cause_def MAX_MONITOR_ERRORS_def split: if_splits)
next
  case (Usage cpu mem)
  show ?thesis
  proof (cases "fl_lt (wd_mem_limit_bytes w) mem")
    case True
    then show ?thesis using assms(2) Usage by (auto simp: watch_round_reading on_usage_def cause_def Let_def)
  next
    case False
    let ?r = "(Usage cpu mem, ob_started_at ob)"
    let ?t = "case wd_violation_start_time w of None \<Rightarrow> ob_started_at ob | Some t \<Rightarrow> t"
    from False assms(2) Usage have cpu: "fl_lt (wd_cpu_limit w) cpu" "over_time ?t (ob_checked_at ob) (wd_patience_seconds w)"
      and why: "why = ''CPU Hogging''" by (auto simp: watch_round_reading on_usage_def Let_def split: if_splits)
    have "\<exists>recent r older. ?r # hist = recent @ (r, ?t) # older \<and> hot w r \<and> (\<forall>(r', t')\<in>set recent. hot w r' \<or> failing r')"
    proof (cases "wd_violation_start_time w")
      case None
      then show ?thesis using cpu(1) by (intro exI [of _ "[]"] exI [of _ "Usage cpu mem"] exI [of _ hist]) simp
    next
      case (Some t)
      then obtain recent older r where "hist = recent @ (r, t) # older" "hot w r" "\<forall>(r', t')\<in>set recent. hot w r' \<or> failing r'"
        using assms(1) by auto
      then show ?thesis using cpu(1) Some by (intro exI [of _ "?r # recent"] exI [of _ r] exI [of _ older]) auto
    qed
    then have "\<exists>recent r t older. ?r # hist = recent @ (r, t) # older \<and> hot w r \<and> (\<forall>(r', t')\<in>set recent. hot w r' \<or> failing r') \<and>
        over_time t (ob_checked_at ob) (wd_patience_seconds w)" using cpu(2) by blast
    then show ?thesis unfolding cause_def Usage using why by blast
  qed
next
  case Vanished
  then show ?thesis using assms(2) by (auto simp: watch_round_reading split: if_splits)
qed

text \<open>A round under load, with the time at which the load was first seen.\<close>

definition start_of :: "observation \<Rightarrow> watchdog \<Rightarrow> pyfloat" where
  "start_of ob w = (case wd_violation_start_time w of None \<Rightarrow> ob_started_at ob | Some t \<Rightarrow> t)"

lemma hot_round:
  assumes "wd_has_process w" "\<not> wd_use_ps_fallback w" "ob_is_running ob = Inr True" "ob_library ob = LibUsage c m" "fl_lt (wd_cpu_limit w) c"
  shows "watch_round_wd to_float ob w =
    (if fl_lt (wd_mem_limit_bytes w) m then (Some (Killed ''Memory Overflow''), w\<lparr>wd_monitor_error_count := 0\<rparr>)
     else (if over_time (start_of ob w) (ob_checked_at ob) (wd_patience_seconds w) then Some (Killed ''CPU Hogging'') else None,
           w\<lparr>wd_monitor_error_count := 0, wd_violation_start_time := Some (start_of ob w)\<rparr>))"
  using assms by (simp add: watch_round_wd_def sample_usage_def on_usage_def start_of_def Let_def)

section \<open>Properties\<close>

text \<open>
  C23. The watchdog kills only for cause. At the round that kills, either the memory just measured is over its
  limit; or the processor has been over its limit at every reading since one taken longer ago than the
  patience, failed measurements aside; or the last three measurements failed.
\<close>
theorem killed_only_for_cause:
  assumes "monitor to_float obs (watchdog_init psutil pid cpu mem patience) = (Some (Killed why), w')"
  shows "\<exists>seen ob rest. obs = seen @ ob # rest \<and>
    cause (watchdog_init psutil pid cpu mem patience) (ob_checked_at ob)
      (rev (readings to_float (seen @ [ob]) (watchdog_init psutil pid cpu mem patience))) why"
proof -
  let ?w = "watchdog_init psutil pid cpu mem patience"
  have "wd_explained [] ?w" by (simp add: watchdog_init_def)
  from monitor_verdict [OF this assms] obtain seen ob rest where obs: "obs = seen @ ob # rest"
    and k: "fst (watch_round_wd to_float ob (after_rounds to_float seen ?w)) = Some (Killed why)"
    and e: "wd_explained (rev (readings to_float seen ?w)) (after_rounds to_float seen ?w)" by (auto simp del: wd_explained.simps)
  have app: "readings to_float (xs @ [ob]) w = readings to_float xs w @ [(reading to_float ob (after_rounds to_float xs w), ob_started_at ob)]" for xs w
    by (induction xs arbitrary: w) simp_all
  from kill_has_cause [OF e k] show ?thesis unfolding obs cause_def limits_after
    by (intro exI [of _ seen] exI [of _ ob] exI [of _ rest]) (simp add: app)
qed

text \<open>
  C27. Sustained load is stopped: when the library reports at every round a running process with the
  processor over the limit, and the last round is later than the first by more than the patience, the
  process has been killed by then.
\<close>
theorem sustained_load_is_killed:
  assumes "\<forall>ob\<in>set (ob0 # obs). ob_is_running ob = Inr True \<and> (\<exists>c m. ob_library ob = LibUsage c m \<and> fl_lt cpu c)"
    and "over_time (ob_started_at ob0) (ob_checked_at (last (ob0 # obs))) patience"
  shows "\<exists>why w'. monitor to_float (ob0 # obs) (watchdog_init True pid cpu mem patience) = (Some (Killed why), w')"
proof -
  have run: "\<exists>why w'. monitor to_float (ob # obs) w = (Some (Killed why), w')"
    if "wd_has_process w" "\<not> wd_use_ps_fallback w" "wd_cpu_limit w = cpu" "wd_patience_seconds w = patience"
      "start_of ob w = t0"
      "\<forall>ob\<in>set (ob # obs). ob_is_running ob = Inr True \<and> (\<exists>c m. ob_library ob = LibUsage c m \<and> fl_lt cpu c)"
      "over_time t0 (ob_checked_at (last (ob # obs))) patience" for ob obs w t0
    using that
  proof (induction obs arbitrary: ob w)
    case Nil
    then obtain c m where "ob_library ob = LibUsage c m" "fl_lt cpu c" by auto
    from hot_round [OF _ _ _ this(1), of w to_float] Nil this(2) have "watch_round_wd to_float ob w =
       (if fl_lt (wd_mem_limit_bytes w) m then (Some (Killed ''Memory Overflow''), w\<lparr>wd_monitor_error_count := 0\<rparr>)
        else (Some (Killed ''CPU Hogging''), w\<lparr>wd_monitor_error_count := 0, wd_violation_start_time := Some t0\<rparr>))"
      by simp
    then show ?case by simp
  next
    case (Cons ob' obs)
    from Cons.prems(6) obtain c m where lib: "ob_library ob = LibUsage c m" "fl_lt cpu c" by auto
    have rnd: "watch_round_wd to_float ob w =
       (if fl_lt (wd_mem_limit_bytes w) m then (Some (Killed ''Memory Overflow''), w\<lparr>wd_monitor_error_count := 0\<rparr>)
        else (if over_time t0 (ob_checked_at ob) patience then Some (Killed ''CPU Hogging'') else None,
              w\<lparr>wd_monitor_error_count := 0, wd_violation_start_time := Some t0\<rparr>))"
    proof -
      have "ob_is_running ob = Inr True" "fl_lt (wd_cpu_limit w) c" using Cons.prems(3,6) lib(2) by simp_all
      from hot_round [OF Cons.prems(1,2) this(1) lib(1) this(2), of to_float] show ?thesis unfolding Cons.prems(4,5) .
    qed
    have later: "\<exists>why w'. monitor to_float (ob' # obs) (w\<lparr>wd_monitor_error_count := 0, wd_violation_start_time := Some t0\<rparr>) = (Some (Killed why), w')"
    proof (rule Cons.IH)
      show "\<forall>ob\<in>set (ob' # obs). ob_is_running ob = Inr True \<and> (\<exists>c m. ob_library ob = LibUsage c m \<and> fl_lt cpu c)"
        using Cons.prems(6) by (meson list.set_intros(2))
      show "over_time t0 (ob_checked_at (last (ob' # obs))) patience" using Cons.prems(7) by simp
    qed (use Cons.prems(1-4) in \<open>simp_all add: start_of_def\<close>)
    show ?case
    proof (cases "fl_lt (wd_mem_limit_bytes w) m \<or> over_time t0 (ob_checked_at ob) patience")
      case True
      then show ?thesis using rnd by (cases "fl_lt (wd_mem_limit_bytes w) m") simp_all
    next
      case False
      then have "watch_round_wd to_float ob w = (None, w\<lparr>wd_monitor_error_count := 0, wd_violation_start_time := Some t0\<rparr>)" using rnd by simp
      then show ?thesis using later by simp
    qed
  qed
  show ?thesis by (rule run [OF _ _ _ _ _ assms]) (simp_all add: watchdog_init_def start_of_def)
qed

section \<open>Witnesses\<close>

abbreviation "demo_hot t \<equiv> \<lparr>ob_is_running = Inr True, ob_library = LibUsage (Fin 95) (Fin 0), ob_ps_output = None,
  ob_started_at = Fin t, ob_checked_at = Fin t\<rparr>"

abbreviation "demo_failing \<equiv> \<lparr>ob_is_running = Inr True, ob_library = LibError ''x'', ob_ps_output = None,
  ob_started_at = Fin 0, ob_checked_at = Fin 0\<rparr>"

theorem killed_only_for_cause_witness:
  "\<exists>seen ob rest. replicate 3 demo_failing = seen @ ob # rest \<and>
     cause (watchdog_init True 7 (Fin 90) (Fin 1) 60) (ob_checked_at ob)
       (rev (readings (\<lambda>_. None) (seen @ [ob]) (watchdog_init True 7 (Fin 90) (Fin 1) 60))) ''Telemetry Failure''"
proof -
  have "\<exists>w'. monitor (\<lambda>_. None) (replicate 3 demo_failing) (watchdog_init True 7 (Fin 90) (Fin 1) 60) = (Some (Killed ''Telemetry Failure''), w')"
    by (simp add: numeral_3_eq_3 watch_round_wd_def sample_usage_def on_error_def watchdog_init_def MAX_MONITOR_ERRORS_def library_broken_def py_lower_def Let_def)
  then show ?thesis using killed_only_for_cause by blast
qed

theorem sustained_load_is_killed_witness:
  "\<exists>why w'. monitor (\<lambda>_. None) [demo_hot 0, demo_hot 61] (watchdog_init True 7 (Fin 90) (Fin 1) 60) = (Some (Killed why), w')"
proof -
  have "over_time (Fin 0) (Fin 61) 60" using fl_sub_ints [of 61 0] by (simp add: over_time_def)
  then show ?thesis using sustained_load_is_killed [of "demo_hot 0" "[demo_hot 61]" "Fin 90" 60 "\<lambda>_. None" 7 "Fin 1"] by simp
qed

end
