(* ===== verification/Redundancy.thy ===== *)
theory Redundancy
  imports Text
begin

text \<open>
  Component redundancy, \<^verbatim>\<open>kernel/infrastructure/redundancy.py\<close>: components with heartbeats and failure
  counts, failover from a primary to its secondary, and checkpoints of a state. The clock is an argument;
  \<open>digest\<close> is SHA-256, as hex text, of the JSON of a state.
\<close>

section \<open>State\<close>

datatype component_status = HEALTHY | DEGRADED | FAILED | STANDBY

record component =
  rc_id :: string
  rc_name :: string
  rc_role :: string
  rc_status :: component_status
  rc_last_heartbeat :: datetime
  rc_failure_count :: nat

record 'a checkpoint =
  cp_id :: string
  cp_timestamp :: datetime
  cp_state_hash :: string
  cp_data :: 'a
  cp_verified :: bool

record failover_record =
  fr_timestamp :: datetime
  fr_from :: string
  fr_to :: string
  fr_reason :: string

record 'a redundancy =
  rd_components :: "(string, component) dict"
  rd_checkpoints :: "'a checkpoint list"
  rd_failover_history :: "failover_record list"

definition default_components :: "(string \<times> string \<times> string) list" where
  "default_components =
     [(''memory_primary'', ''Memory Store'', ''primary''),
      (''memory_secondary'', ''Memory Store Replica'', ''secondary''),
      (''safety_primary'', ''Safety Engine'', ''primary''),
      (''safety_secondary'', ''Safety Engine Backup'', ''secondary''),
      (''inference_primary'', ''Inference Engine'', ''primary''),
      (''inference_secondary'', ''Inference Engine Standby'', ''standby'')]"

definition redundancy_init :: "(nat \<Rightarrow> datetime) \<Rightarrow> 'a redundancy" where
  "redundancy_init now =
     \<lparr>rd_components =
        map (\<lambda>(i, (cid, name, role)).
          (cid, \<lparr>rc_id = cid, rc_name = name, rc_role = role, rc_status = (if role \<noteq> ''standby'' then HEALTHY else STANDBY),
                 rc_last_heartbeat = now i, rc_failure_count = 0\<rparr>)) (enumerate 0 default_components),
      rd_checkpoints = [], rd_failover_history = []\<rparr>"

section \<open>Operations\<close>

definition redundancy_heartbeat :: "datetime \<Rightarrow> string \<Rightarrow> 'a redundancy \<Rightarrow> bool \<times> 'a redundancy" where
  "redundancy_heartbeat now cid s =
     (case dget (rd_components s) cid of
        None \<Rightarrow> (False, s)
      | Some c \<Rightarrow>
          let c1 = c\<lparr>rc_last_heartbeat := now\<rparr>;
              c2 = (if rc_status c = DEGRADED then c1\<lparr>rc_failure_count := 0, rc_status := HEALTHY\<rparr> else c1)
          in (True, s\<lparr>rd_components := dset cid c2 (rd_components s)\<rparr>))"

datatype failure_report =
    ComponentNotFound
  | NoSecondary
  | FailedOver string string
  | Reported string component_status nat

text \<open>
  The failed component is updated in place before and after the secondary is: the two are different
  objects unless the secondary id is the component's own.
\<close>

definition failover :: "datetime \<Rightarrow> string \<Rightarrow> component \<Rightarrow> 'a redundancy \<Rightarrow> failure_report \<times> 'a redundancy" where
  "failover now cid c s =
     (let secondary_id = str_replace ''_primary'' [] (rc_id c) @ ''_secondary'' in
      case dget (rd_components s) secondary_id of
        None \<Rightarrow> (NoSecondary, s)
      | Some sec \<Rightarrow>
          let comps1 = dset secondary_id (sec\<lparr>rc_role := ''primary'', rc_status := HEALTHY\<rparr>) (rd_components s);
              comps2 = (case dget comps1 cid of None \<Rightarrow> comps1 | Some c' \<Rightarrow> dset cid (c'\<lparr>rc_role := ''failed_primary''\<rparr>) comps1)
          in (FailedOver (rc_id sec) (rc_id c),
              s\<lparr>rd_components := comps2,
                rd_failover_history := rd_failover_history s @
                  [\<lparr>fr_timestamp = now, fr_from = rc_id c, fr_to = rc_id sec,
                    fr_reason = ''Primary failure ('' @ dec_of_nat (rc_failure_count c) @ '' failures)''\<rparr>]\<rparr>))"

definition report_failure :: "datetime \<Rightarrow> string \<Rightarrow> 'a redundancy \<Rightarrow> failure_report \<times> 'a redundancy" where
  "report_failure now cid s =
     (case dget (rd_components s) cid of
        None \<Rightarrow> (ComponentNotFound, s)
      | Some c \<Rightarrow>
          let n = rc_failure_count c + 1;
              c1 = c\<lparr>rc_failure_count := n, rc_status := (if 3 \<le> n then FAILED else DEGRADED)\<rparr>;
              s1 = s\<lparr>rd_components := dset cid c1 (rd_components s)\<rparr>
          in if 3 \<le> n \<and> rc_role c = ''primary'' then failover now cid c1 s1 else (Reported cid (rc_status c1) n, s1))"

definition create_checkpoint :: "('a \<Rightarrow> string) \<Rightarrow> datetime \<Rightarrow> 'a \<Rightarrow> 'a redundancy \<Rightarrow> 'a checkpoint \<times> 'a redundancy" where
  "create_checkpoint digest now st s =
     (let cp = \<lparr>cp_id = ''CP'' @ zero_pad 6 (dec_of_nat (length (rd_checkpoints s))), cp_timestamp = now,
                cp_state_hash = take 16 (digest st), cp_data = st, cp_verified = True\<rparr>;
          cps = rd_checkpoints s @ [cp]
      in (cp, s\<lparr>rd_checkpoints := (if 10 < length cps then last_n 10 cps else cps)\<rparr>))"

datatype 'a restored = NoCheckpoints | CheckpointNotFound | Restored "'a checkpoint"

definition restore :: "string option \<Rightarrow> 'a redundancy \<Rightarrow> 'a restored" where
  "restore cid s =
     (if rd_checkpoints s = [] then NoCheckpoints
      else case cid of
        Some i \<Rightarrow>
          if i = [] then Restored (last (rd_checkpoints s))
          else (case filter (\<lambda>c. cp_id c = i) (rd_checkpoints s) of [] \<Rightarrow> CheckpointNotFound | c # _ \<Rightarrow> Restored c)
      | None \<Rightarrow> Restored (last (rd_checkpoints s)))"

datatype overall_status = OverallHealthy | OverallDegraded | OverallCritical

record redundancy_status =
  ru_overall :: overall_status
  ru_healthy :: nat
  ru_degraded :: nat
  ru_failed :: nat
  ru_total :: nat
  ru_checkpoints :: nat
  ru_failovers :: nat

definition redundancy_get_status :: "'a redundancy \<Rightarrow> redundancy_status" where
  "redundancy_get_status s =
     (let n = (\<lambda>st. dcount (\<lambda>c. rc_status c = st) (rd_components s)) in
      \<lparr>ru_overall = (if n FAILED > 0 then OverallCritical else if n DEGRADED > 0 then OverallDegraded else OverallHealthy),
       ru_healthy = n HEALTHY, ru_degraded = n DEGRADED, ru_failed = n FAILED, ru_total = length (rd_components s),
       ru_checkpoints = length (rd_checkpoints s), ru_failovers = length (rd_failover_history s)\<rparr>)"

section \<open>The manager as a machine\<close>

datatype 'a rd_op = Heartbeat datetime string | ReportFailure datetime string | TakeCheckpoint datetime 'a

fun rd_step :: "('a \<Rightarrow> string) \<Rightarrow> 'a rd_op \<Rightarrow> 'a redundancy \<Rightarrow> 'a redundancy" where
  "rd_step digest (Heartbeat now cid) s = snd (redundancy_heartbeat now cid s)"
| "rd_step digest (ReportFailure now cid) s = snd (report_failure now cid s)"
| "rd_step digest (TakeCheckpoint now st) s = snd (create_checkpoint digest now st s)"

definition services :: "string list" where
  "services = [''memory'', ''safety'', ''inference'']"

text \<open>
  One service: its primary is in charge and its secondary is not, or the primary has failed for good and
  the secondary took over; the history has a record exactly in the second case.
\<close>

definition service_ok :: "(string, component) dict \<Rightarrow> failover_record list \<Rightarrow> string \<Rightarrow> bool" where
  "service_ok d hist b \<longleftrightarrow>
     (\<exists>p q. dget d (b @ ''_primary'') = Some p \<and> dget d (b @ ''_secondary'') = Some q \<and>
        rc_id p = b @ ''_primary'' \<and> rc_id q = b @ ''_secondary'' \<and>
        (rc_role p = ''primary'' \<and> rc_role q \<noteq> ''primary'' \<and> filter (\<lambda>r. fr_from r = b @ ''_primary'') hist = [] \<or>
         rc_role p = ''failed_primary'' \<and> rc_status p = FAILED \<and> 3 \<le> rc_failure_count p \<and> rc_role q = ''primary'' \<and>
         length (filter (\<lambda>r. fr_from r = b @ ''_primary'') hist) = 1))"

definition roles_ok :: "(string, component) dict \<Rightarrow> failover_record list \<Rightarrow> bool" where
  "roles_ok d hist \<longleftrightarrow>
     (\<forall>b\<in>set services. service_ok d hist b) \<and>
     (\<forall>k. dget d k \<noteq> None \<longrightarrow> (\<exists>b\<in>set services. k = b @ ''_primary'' \<or> k = b @ ''_secondary'')) \<and>
     (\<forall>r\<in>set hist. \<exists>b\<in>set services. fr_from r = b @ ''_primary'')"

lemma service_ids:
  assumes "b \<in> set services" "b' \<in> set services"
  shows "b @ ''_primary'' \<noteq> b' @ ''_secondary''" "b @ ''_secondary'' \<noteq> b' @ ''_primary''"
    "str_replace ''_primary'' [] (b @ ''_primary'') = b"
    "str_replace ''_primary'' [] (b @ ''_secondary'') @ ''_secondary'' \<noteq> b' @ ''_primary''"
    "str_replace ''_primary'' [] (b @ ''_secondary'') @ ''_secondary'' \<noteq> b' @ ''_secondary''"
  using assms by (auto simp: services_def)

lemma service_ok_elsewhere:
  assumes "service_ok d hist b'" "\<And>k. k = b' @ ''_primary'' \<or> k = b' @ ''_secondary'' \<Longrightarrow> dget d' k = dget d k"
    and "filter (\<lambda>r. fr_from r = b' @ ''_primary'') hist' = filter (\<lambda>r. fr_from r = b' @ ''_primary'') hist"
  shows "service_ok d' hist' b'"
  using assms unfolding service_ok_def by simp

text \<open>A change of a component that keeps its id and role, and its failure when it failed for good.\<close>

lemma roles_ok_keep:
  assumes "roles_ok d hist" "dget d k = Some c" "rc_id c' = rc_id c" "rc_role c' = rc_role c"
    and "rc_role c = ''failed_primary'' \<Longrightarrow> rc_status c = FAILED \<Longrightarrow> 3 \<le> rc_failure_count c \<Longrightarrow> rc_status c' = FAILED \<and> 3 \<le> rc_failure_count c'"
  shows "roles_ok (dset k c' d) hist"
proof -
  have "service_ok (dset k c' d) hist b" if "b \<in> set services" for b
  proof -
    have "service_ok d hist b" using assms(1) that by (simp add: roles_ok_def)
    then show ?thesis using assms(2-5) service_ids(1,2) [OF that that] unfolding service_ok_def
      by (cases "k = b @ ''_primary''"; cases "k = b @ ''_secondary''") auto
  qed
  then show ?thesis using assms(1,2) unfolding roles_ok_def by auto
qed

lemma roles_ok_failover:
  assumes ok: "roles_ok d hist" and b: "b \<in> set services" and p: "dget d (b @ ''_primary'') = Some p" "rc_role p = ''primary''"
    and q: "dget d (b @ ''_secondary'') = Some q"
    and p': "rc_id p' = rc_id p" "rc_role p' = ''failed_primary''" "rc_status p' = FAILED" "3 \<le> rc_failure_count p'"
    and q': "rc_id q' = rc_id q" "rc_role q' = ''primary''" and r: "fr_from r = b @ ''_primary''"
    and d': "\<And>k. dget d' k = (if k = b @ ''_primary'' then Some p' else if k = b @ ''_secondary'' then Some q' else dget d k)"
  shows "roles_ok d' (hist @ [r])"
proof -
  have "service_ok d hist b" using ok b by (simp add: roles_ok_def)
  then have old: "rc_id p = b @ ''_primary''" "rc_id q = b @ ''_secondary''" "filter (\<lambda>r. fr_from r = b @ ''_primary'') hist = []"
    using p q by (auto simp: service_ok_def)
  have "service_ok d' (hist @ [r]) b'" if b': "b' \<in> set services" for b'
  proof (cases "b' = b")
    case True
    then show ?thesis using old p' q' r service_ids(2) [OF b b] by (simp add: service_ok_def d')
  next
    case False
    have "service_ok d hist b'" using ok b' by (simp add: roles_ok_def)
    then show ?thesis by (rule service_ok_elsewhere) (use False service_ids [OF b b'] service_ids [OF b' b] r in \<open>auto simp: d'\<close>)
  qed
  then show ?thesis using ok b r unfolding roles_ok_def by (auto simp: d')
qed

lemma service_of:
  assumes "roles_ok d hist" "dget d k = Some c"
  obtains b where "b \<in> set services" "k = b @ ''_primary'' \<or> k = b @ ''_secondary''" "rc_id c = k"
proof -
  obtain b where b: "b \<in> set services" "k = b @ ''_primary'' \<or> k = b @ ''_secondary''"
    using assms unfolding roles_ok_def by blast
  then have "service_ok d hist b" using assms(1) by (simp add: roles_ok_def)
  then have "rc_id c = k" using b assms(2) by (auto simp: service_ok_def)
  then show ?thesis using b that by blast
qed

lemma roles_ok_report:
  assumes ok: "roles_ok (rd_components s) (rd_failover_history s)"
  shows "roles_ok (rd_components (snd (report_failure now k s))) (rd_failover_history (snd (report_failure now k s)))"
proof (cases "dget (rd_components s) k")
  case (Some c)
  from service_of [OF ok Some] obtain b where b: "b \<in> set services" "k = b @ ''_primary'' \<or> k = b @ ''_secondary''" and i: "rc_id c = k" by blast
  let ?n = "rc_failure_count c + 1"
  let ?c1 = "c\<lparr>rc_failure_count := ?n, rc_status := (if 3 \<le> ?n then FAILED else DEGRADED)\<rparr>"
  have keep: "roles_ok (dset k ?c1 (rd_components s)) (rd_failover_history s)" using roles_ok_keep [OF ok Some, of ?c1] by simp
  have svc: "service_ok (rd_components s) (rd_failover_history s) b" using ok b(1) by (simp add: roles_ok_def)
  show ?thesis
  proof (cases "3 \<le> ?n \<and> rc_role c = ''primary''")
    case fo: True
    show ?thesis
    proof (cases "k = b @ ''_primary''")
      case True
      obtain q where q: "dget (rd_components s) (b @ ''_secondary'') = Some q" using svc by (auto simp: service_ok_def)
      let ?s1 = "s\<lparr>rd_components := dset k ?c1 (rd_components s)\<rparr>"
      have report: "snd (report_failure now k s) = snd (failover now k ?c1 ?s1)" using Some fo by (simp add: report_failure_def Let_def)
      have "roles_ok (rd_components (snd (failover now k ?c1 ?s1)))
         (rd_failover_history s @ [\<lparr>fr_timestamp = now, fr_from = rc_id c, fr_to = rc_id q,
                    fr_reason = ''Primary failure ('' @ dec_of_nat ?n @ '' failures)''\<rparr>])"
        by (rule roles_ok_failover [OF ok b(1) Some [unfolded True] _ q, where p' = "?c1\<lparr>rc_role := ''failed_primary''\<rparr>" and
              q' = "q\<lparr>rc_role := ''primary'', rc_status := HEALTHY\<rparr>"])
          (use fo i q True service_ids [OF b(1) b(1)] in \<open>auto simp: failover_def Let_def\<close>)
      moreover have "rd_failover_history (snd (failover now k ?c1 ?s1)) =
          rd_failover_history s @ [\<lparr>fr_timestamp = now, fr_from = rc_id c, fr_to = rc_id q,
                    fr_reason = ''Primary failure ('' @ dec_of_nat ?n @ '' failures)''\<rparr>]"
        using i q True service_ids [OF b(1) b(1)] by (simp add: failover_def Let_def)
      ultimately show ?thesis unfolding report by simp
    next
      case False
      then have k: "k = b @ ''_secondary''" using b(2) by simp
      have "dget (rd_components s) (str_replace ''_primary'' [] k @ ''_secondary'') = None"
        using ok service_ids(4,5) [OF b(1)] unfolding roles_ok_def k by blast
      moreover have "str_replace ''_primary'' [] k @ ''_secondary'' \<noteq> k" using service_ids(5) [OF b(1) b(1)] k by simp
      ultimately show ?thesis using keep Some fo i by (simp add: report_failure_def failover_def Let_def)
    qed
  next
    case False
    then show ?thesis using keep Some by (auto simp: report_failure_def Let_def)
  qed
qed (use ok in \<open>simp add: report_failure_def\<close>)

interpretation rman: machine "rd_step digest" "\<lambda>s. roles_ok (rd_components s) (rd_failover_history s)"
proof unfold_locales
  fix s :: "'a redundancy" and x assume ok: "roles_ok (rd_components s) (rd_failover_history s)"
  show "roles_ok (rd_components (rd_step digest x s)) (rd_failover_history (rd_step digest x s))"
  proof (cases x)
    case (Heartbeat now k)
    then show ?thesis using ok roles_ok_keep [OF ok, of k]
      by (cases "dget (rd_components s) k") (auto simp: redundancy_heartbeat_def Let_def)
  qed (use ok roles_ok_report in \<open>simp_all add: create_checkpoint_def Let_def\<close>)
qed

lemma roles_ok_init: "roles_ok (rd_components (redundancy_init now)) (rd_failover_history (redundancy_init now))"
  by (auto simp: roles_ok_def service_ok_def services_def redundancy_init_def default_components_def dget_Cons split: if_splits)

section \<open>Checkpoints\<close>

abbreviation take_all :: "('a \<Rightarrow> string) \<Rightarrow> (datetime \<times> 'a) list \<Rightarrow> 'a redundancy \<Rightarrow> 'a redundancy" where
  "take_all digest xs s \<equiv> fold (\<lambda>(now, st) s. snd (create_checkpoint digest now st s)) xs s"

text \<open>The checkpoint that the \<open>i\<close>-th call makes: from the eleventh on they share one id.\<close>

definition nth_checkpoint :: "('a \<Rightarrow> string) \<Rightarrow> (datetime \<times> 'a) list \<Rightarrow> nat \<Rightarrow> 'a checkpoint" where
  "nth_checkpoint digest xs i =
     \<lparr>cp_id = ''CP'' @ zero_pad 6 (dec_of_nat (min i 10)), cp_timestamp = fst (xs ! i), cp_state_hash = take 16 (digest (snd (xs ! i))),
      cp_data = snd (xs ! i), cp_verified = True\<rparr>"

lemma nth_checkpoint_append: "i < length xs \<Longrightarrow> nth_checkpoint digest (xs @ ys) i = nth_checkpoint digest xs i"
  by (simp add: nth_checkpoint_def nth_append)

lemma fst_create_checkpoint:
  "fst (create_checkpoint digest now st s) =
     \<lparr>cp_id = ''CP'' @ zero_pad 6 (dec_of_nat (length (rd_checkpoints s))), cp_timestamp = now,
      cp_state_hash = take 16 (digest st), cp_data = st, cp_verified = True\<rparr>"
  by (simp add: create_checkpoint_def Let_def)

lemma snd_create_checkpoint:
  "rd_checkpoints (snd (create_checkpoint digest now st s)) =
     (let cps = rd_checkpoints s @ [fst (create_checkpoint digest now st s)] in if 10 < length cps then last_n 10 cps else cps)"
  by (simp add: create_checkpoint_def Let_def)

lemma checkpoints_after:
  assumes "rd_checkpoints s = []"
  shows "rd_checkpoints (take_all digest xs s) = map (nth_checkpoint digest xs) [length xs - 10..<length xs]"
proof (induction xs rule: rev_induct)
  case (snoc x xs)
  let ?s = "take_all digest xs s"
  let ?n = "length xs"
  have old: "rd_checkpoints ?s = map (nth_checkpoint digest (xs @ [x])) [?n - 10..<?n]"
    using snoc.IH by (simp add: nth_checkpoint_append)
  have new: "fst (create_checkpoint digest (fst x) (snd x) ?s) = nth_checkpoint digest (xs @ [x]) ?n"
  proof -
    have "length (rd_checkpoints ?s) = min ?n 10" unfolding old by simp
    then show ?thesis unfolding fst_create_checkpoint by (simp add: nth_checkpoint_def del: fold.simps)
  qed
  have all: "rd_checkpoints ?s @ [fst (create_checkpoint digest (fst x) (snd x) ?s)] = map (nth_checkpoint digest (xs @ [x])) [?n - 10..<?n + 1]"
    unfolding old new by simp
  have "rd_checkpoints (take_all digest (xs @ [x]) s) =
     (let cps = rd_checkpoints ?s @ [fst (create_checkpoint digest (fst x) (snd x) ?s)] in if 10 < length cps then last_n 10 cps else cps)"
    by (simp add: case_prod_unfold snd_create_checkpoint)
  moreover have "\<not> ?n < 10 \<Longrightarrow> Suc (?n - 10) = ?n - 9" by arith
  ultimately show ?case unfolding all
    by (cases "?n < 10") (simp_all add: Let_def last_n_def drop_map del: upt_Suc)
qed (simp add: assms)

lemma first_match:
  assumes "m \<le> j" "j < n" "f j = x" "\<And>i. m \<le> i \<Longrightarrow> i < j \<Longrightarrow> f i \<noteq> x"
  shows "\<exists>rest. filter (\<lambda>i. f i = x) [m..<n] = j # rest"
proof -
  have "[m..<n] = [m..<j] @ j # [Suc j..<n]" using assms(1,2) by (metis le_add_diff_inverse less_imp_le_nat upt_add_eq_append upt_conv_Cons)
  moreover have "filter (\<lambda>i. f i = x) [m..<j] = []" using assms(4) by (auto simp: filter_empty_conv)
  ultimately show ?thesis using assms(3) by simp
qed

section \<open>Properties\<close>

text \<open>
  C25. In every reachable state each service has exactly one component in the role of the primary; a primary
  that was replaced stays failed for good; and since a promoted secondary has no secondary of its own,
  there are at most three failovers ever.
\<close>
theorem one_primary_per_service:
  assumes "s = fold (rd_step digest) ops (redundancy_init now)" and "b \<in> set services"
  shows "(\<exists>!k. k \<in> {b @ ''_primary'', b @ ''_secondary''} \<and> (\<exists>c. dget (rd_components s) k = Some c \<and> rc_role c = ''primary'')) \<and>
    (\<forall>c. dget (rd_components s) (b @ ''_primary'') = Some c \<and> rc_role c \<noteq> ''primary'' \<longrightarrow> rc_status c = FAILED) \<and>
    length (rd_failover_history s) \<le> 3"
proof -
  have ok: "roles_ok (rd_components s) (rd_failover_history s)" unfolding assms(1) by (rule rman.run_inv [OF roles_ok_init])
  let ?n = "\<lambda>b. length (filter (\<lambda>r. fr_from r = b @ ''_primary'') (rd_failover_history s))"
  have svc: "service_ok (rd_components s) (rd_failover_history s) b" if "b \<in> set services" for b using ok that by (simp add: roles_ok_def)
  have n: "?n b \<le> 1" if "b \<in> set services" for b using svc [OF that] by (auto simp: service_ok_def)
  have count: "length h \<le> length (filter (\<lambda>r. fr_from r = A) h) + length (filter (\<lambda>r. fr_from r = B) h) + length (filter (\<lambda>r. fr_from r = C) h)"
    if "\<forall>r\<in>set h. fr_from r \<in> {A, B, C}" for A B C and h :: "failover_record list" using that by (induction h) auto
  have "\<forall>r\<in>set (rd_failover_history s). fr_from r \<in> {''memory'' @ ''_primary'', ''safety'' @ ''_primary'', ''inference'' @ ''_primary''}"
    using ok by (auto simp: roles_ok_def services_def)
  from count [OF this] n [of "''memory''"] n [of "''safety''"] n [of "''inference''"] have "length (rd_failover_history s) \<le> 3"
    by (simp add: services_def)
  moreover have "\<exists>!k. k \<in> {b @ ''_primary'', b @ ''_secondary''} \<and> (\<exists>c. dget (rd_components s) k = Some c \<and> rc_role c = ''primary'')"
    using svc [OF assms(2)] by (auto simp: service_ok_def)
  moreover have "\<forall>c. dget (rd_components s) (b @ ''_primary'') = Some c \<and> rc_role c \<noteq> ''primary'' \<longrightarrow> rc_status c = FAILED"
    using svc [OF assms(2)] by (auto simp: service_ok_def)
  ultimately show ?thesis by blast
qed

text \<open>
  What restoring by the id of the newest checkpoint returns after \<open>n\<close> earlier ones: the newest itself
  as long as \<open>n\<close> is at most ten, and an older one from then on, because all later checkpoints get the
  same id and the first match wins.
\<close>
theorem restore_by_id:
  assumes "xs = ys @ [(now, st)]" and "n = length ys"
    and "s = take_all digest xs (redundancy_init clock)"
  shows "restore (Some (cp_id (nth_checkpoint digest xs n))) s =
    Restored (nth_checkpoint digest xs (if n \<le> 10 then n else max 10 (n - 9)))"
proof -
  let ?j = "if n \<le> 10 then n else max 10 (n - 9)"
  let ?id = "cp_id (nth_checkpoint digest xs n)"
  have len: "length xs = n + 1" using assms(1,2) by simp
  have cps: "rd_checkpoints s = map (nth_checkpoint digest xs) [n + 1 - 10..<n + 1]"
    unfolding assms(3) using checkpoints_after [of "redundancy_init clock" digest xs] len by (simp add: redundancy_init_def)
  have "\<exists>rest. filter (\<lambda>i. cp_id (nth_checkpoint digest xs i) = ?id) [n + 1 - 10..<n + 1] = ?j # rest"
    by (rule first_match) (auto simp: nth_checkpoint_def min_def split: if_splits)
  then obtain rest where "filter (\<lambda>i. cp_id (nth_checkpoint digest xs i) = ?id) [n + 1 - 10..<n + 1] = ?j # rest" by blast
  then have "filter (\<lambda>c. cp_id c = ?id) (rd_checkpoints s) = nth_checkpoint digest xs ?j # map (nth_checkpoint digest xs) rest"
    unfolding cps filter_map comp_def by simp
  moreover have "?id \<noteq> []" by (simp add: nth_checkpoint_def)
  moreover have "rd_checkpoints s \<noteq> []" unfolding cps by simp
  ultimately show ?thesis by (simp add: restore_def)
qed

text \<open>A failover promotes the secondary whatever its own state, and calls it healthy.\<close>

lemma failover_promotes_failed_secondary:
  assumes "dget (rd_components s) ''memory_secondary'' = Some sec" "rc_status sec = FAILED" "rc_id c = ''memory_primary''"
  shows "dget (rd_components (snd (failover now ''memory_primary'' c s))) ''memory_secondary'' = Some (sec\<lparr>rc_role := ''primary'', rc_status := HEALTHY\<rparr>)"
  using assms by (auto simp: failover_def Let_def split: option.splits)

section \<open>Witnesses\<close>

theorem one_primary_per_service_witness:
  "length (rd_failover_history (fold (rd_step (\<lambda>_ :: unit. [])) (replicate 3 (ReportFailure 1 ''memory_primary'')) (redundancy_init (\<lambda>_. 0)))) \<le> 3"
proof -
  have "''memory'' \<in> set services" by (simp add: services_def)
  from one_primary_per_service [OF refl this] show ?thesis by blast
qed

theorem restore_by_id_witness:
  "\<exists>s. s = take_all (\<lambda>_. []) (replicate 11 (0, 1) @ [(0, 2 :: nat)]) (redundancy_init (\<lambda>_. 0)) \<and>
     (\<exists>c. restore (Some ''CP000010'') s = Restored c \<and> cp_data c = 1)"
proof -
  let ?xs = "replicate 11 (0, 1) @ [(0, 2 :: nat)]"
  have "zero_pad 6 (dec_of_nat 10) = ''000010''" by code_simp
  then have id: "cp_id (nth_checkpoint (\<lambda>_. []) ?xs 11) = ''CP000010''" by (simp add: nth_checkpoint_def)
  have "cp_data (nth_checkpoint (\<lambda>_. []) ?xs 10) = 1" by (simp add: nth_checkpoint_def nth_append)
  then show ?thesis using restore_by_id [of ?xs "replicate 11 (0, 1)" 0 2 11 _ "\<lambda>_. []" "\<lambda>_. 0"] unfolding id by simp
qed

end
