(* ===== verification/Web.thy ===== *)
theory Web
  imports Bytes Text Float_Arith
begin

text \<open>
  What the sign-on code uses of Python's web modules: values of \<open>json\<close>, Base64 as \<open>binascii\<close> reads and
  writes it, \<open>urlencode\<close>, and the element trees of \<open>xml.etree\<close>. Bytes are numbers below 256 here. The
  parsers (\<open>json.loads\<close>, \<open>ET.fromstring\<close>) are arguments of the code that calls them.
\<close>

section \<open>JSON values\<close>

datatype json =
    JNull | JBool bool | JInt int | JFloat pyfloat | JStr string | JArr "json list" | JObj "(string, json) dict"

fun j_truthy :: "json \<Rightarrow> bool" where
  "j_truthy JNull = False"
| "j_truthy (JBool b) = b"
| "j_truthy (JInt i) = (i \<noteq> 0)"
| "j_truthy (JFloat x) = (x \<noteq> Fin 0)"
| "j_truthy (JStr s) = (s \<noteq> [])"
| "j_truthy (JArr xs) = (xs \<noteq> [])"
| "j_truthy (JObj d) = (d \<noteq> [])"

text \<open>\<open>value.get(key, default)\<close>, which only objects have, and \<open>==\<close> with a string or \<open>None\<close>.\<close>

fun j_get :: "json \<Rightarrow> string \<Rightarrow> json \<Rightarrow> json result" where
  "j_get (JObj d) k v = Inr (case dget d k of Some x \<Rightarrow> x | None \<Rightarrow> v)"
| "j_get j k v = Inl AttributeError"

definition j_opt :: "string option \<Rightarrow> json" where
  "j_opt s = (case s of None \<Rightarrow> JNull | Some t \<Rightarrow> JStr t)"

text \<open>A float compared with and added to a value: integers compare exactly and are converted for a sum.\<close>

fun j_less :: "json \<Rightarrow> pyfloat \<Rightarrow> bool result" where
  "j_less (JInt i) t = Inr (fl_lt (Fin (of_int i)) t)"
| "j_less (JBool b) t = Inr (fl_lt (Fin (of_bool b)) t)"
| "j_less (JFloat x) t = Inr (fl_lt x t)"
| "j_less j t = Inl TypeError"

fun j_plus :: "pyfloat \<Rightarrow> json \<Rightarrow> pyfloat result" where
  "j_plus t (JInt i) = bindE (fl_of_int i) (\<lambda>y. Inr (fl_add t y))"
| "j_plus t (JBool b) = Inr (fl_add t (Fin (of_bool b)))"
| "j_plus t (JFloat x) = Inr (fl_add t x)"
| "j_plus t j = Inl TypeError"

lemma j_get_Inr: "j_get j k v = Inr x \<longleftrightarrow> (\<exists>d. j = JObj d \<and> x = (case dget d k of Some y \<Rightarrow> y | None \<Rightarrow> v))"
  by (cases j) auto

section \<open>Text and digests\<close>

text \<open>\<open>text.encode()\<close> for the characters below 256, and \<open>hexdigest\<close>.\<close>

definition encode_text :: "string \<Rightarrow> nat list" where
  "encode_text s = concat (map (\<lambda>c. utf8_char (of_char c)) s)"

definition hex_of_bytes :: "nat list \<Rightarrow> string" where
  "hex_of_bytes bs = concat (map (\<lambda>b. [Text.hex_digit (b div 16), Text.hex_digit (b mod 16)]) bs)"

definition rstrip_char :: "char \<Rightarrow> string \<Rightarrow> string" where
  "rstrip_char c s = rev (dropWhile (\<lambda>x. x = c) (rev s))"

lemma rstrip_replicate:
  assumes "\<And>x. x \<in> set s \<Longrightarrow> x \<noteq> c"
  shows "rstrip_char c (s @ replicate n c) = s"
proof -
  have "dropWhile (\<lambda>x. x = c) (replicate n c @ rev s) = rev s"
    using assms by (cases "rev s") (auto simp: dropWhile_append dest!: arg_cong [where f = set])
  then show ?thesis by (simp add: rstrip_char_def)
qed

section \<open>Base64\<close>

definition b64_char :: "nat \<Rightarrow> char" where
  "b64_char n =
     (if n < 26 then char_of (65 + n) else if n < 52 then char_of (71 + n)
      else if n < 62 then char_of (n - 4) else if n = 62 then CHR ''+'' else CHR ''/'')"

definition b64_val :: "char \<Rightarrow> nat option" where
  "b64_val c =
     (let n = (of_char c :: nat) in
      if 65 \<le> n \<and> n < 91 then Some (n - 65) else if 97 \<le> n \<and> n < 123 then Some (n - 71)
      else if 48 \<le> n \<and> n < 58 then Some (n + 4) else if n = 43 then Some 62 else if n = 47 then Some 63 else None)"

fun b64encode :: "nat list \<Rightarrow> string" where
  "b64encode (a # b # c # bs) =
     [b64_char (a div 4), b64_char (a mod 4 * 16 + b div 16), b64_char (b mod 16 * 4 + c div 64), b64_char (c mod 64)] @
     b64encode bs"
| "b64encode [a, b] = [b64_char (a div 4), b64_char (a mod 4 * 16 + b div 16), b64_char (b mod 16 * 4)] @ ''=''"
| "b64encode [a] = [b64_char (a div 4), b64_char (a mod 4 * 16)] @ ''==''"
| "b64encode [] = []"

text \<open>
  \<open>binascii.a2b_base64\<close> outside its strict mode: the position in the group of four, the bits left over and the
  padding seen since the last digit. Characters outside the alphabet are skipped, and padding that completes a
  group ends the input.
\<close>

fun a2b :: "nat \<Rightarrow> nat \<Rightarrow> nat \<Rightarrow> string \<Rightarrow> nat list result" where
  "a2b q l p [] = (if q = 0 then Inr [] else Inl ValueError)"
| "a2b q l p (c # s) =
     (if c = CHR ''='' then
        (if 2 \<le> q then (if 4 \<le> q + p + 1 then Inr [] else a2b q l (p + 1) s) else a2b q l p s)
      else case b64_val c of
             None \<Rightarrow> a2b q l p s
           | Some v \<Rightarrow>
               if q = 0 then a2b 1 v 0 s
               else if q = 1 then bindE (a2b 2 (v mod 16) 0 s) (\<lambda>r. Inr ((l * 4 + v div 16) # r))
               else if q = 2 then bindE (a2b 3 (v mod 4) 0 s) (\<lambda>r. Inr ((l * 16 + v div 4) # r))
               else bindE (a2b 0 0 0 s) (\<lambda>r. Inr ((l * 64 + v) # r)))"

definition b64decode :: "string \<Rightarrow> nat list result" where
  "b64decode s = (if \<exists>c \<in> set s. 128 \<le> (of_char c :: nat) then Inl ValueError else a2b 0 0 0 s)"

definition to_urlsafe :: "char \<Rightarrow> char" where
  "to_urlsafe c = (if c = CHR ''+'' then CHR ''-'' else if c = CHR ''/'' then CHR ''_'' else c)"

definition from_urlsafe :: "char \<Rightarrow> char" where
  "from_urlsafe c = (if c = CHR ''-'' then CHR ''+'' else if c = CHR ''_'' then CHR ''/'' else c)"

definition urlsafe_b64encode :: "nat list \<Rightarrow> string" where
  "urlsafe_b64encode bs =
     map to_urlsafe (b64encode bs)"

definition urlsafe_b64decode :: "string \<Rightarrow> nat list result" where
  "urlsafe_b64decode s =
     (if \<exists>c \<in> set s. 128 \<le> (of_char c :: nat) then Inl ValueError
      else a2b 0 0 0 (map from_urlsafe s))"

section \<open>Query strings\<close>

definition quote_byte :: "nat \<Rightarrow> string" where
  "quote_byte n =
     (let upper = (\<lambda>d. if d < 10 then char_of (48 + d) else char_of (55 + d)) in
      CHR ''%'' # [upper (n div 16), upper (n mod 16)])"

definition quote_plus :: "string \<Rightarrow> string" where
  "quote_plus s =
     concat (map (\<lambda>c.
       let n = (of_char c :: nat) in
       if c = CHR '' '' then ''+''
       else if 65 \<le> n \<and> n < 91 \<or> 97 \<le> n \<and> n < 123 \<or> 48 \<le> n \<and> n < 58 \<or> c \<in> set ''_.-~'' then [c]
       else concat (map quote_byte (utf8_char n))) s)"

fun urlencode :: "(string \<times> string) list \<Rightarrow> string" where
  "urlencode [] = []"
| "urlencode [(k, v)] = quote_plus k @ ''='' @ quote_plus v"
| "urlencode ((k, v) # ps) = quote_plus k @ ''='' @ quote_plus v @ ''&'' @ urlencode ps"

section \<open>Element trees\<close>

text \<open>A tag is written with its namespace; \<open>.//tag\<close> searches the descendants in document order.\<close>

datatype xml = Elem (x_tag: string) (x_attrib: "(string, string) dict") (x_text: "string option") (x_children: "xml list")

fun descendants :: "xml \<Rightarrow> xml list" where
  "descendants (Elem t a x cs) = concat (map (\<lambda>c. c # descendants c) cs)"

definition find_below :: "string \<Rightarrow> xml \<Rightarrow> xml option" where
  "find_below tag e = List.find (\<lambda>x. x_tag x = tag) (descendants e)"

definition findall_below :: "string \<Rightarrow> xml \<Rightarrow> xml list" where
  "findall_below tag e = filter (\<lambda>x. x_tag x = tag) (descendants e)"

definition find_child :: "string \<Rightarrow> xml \<Rightarrow> xml option" where
  "find_child tag e = List.find (\<lambda>x. x_tag x = tag) (x_children e)"

section \<open>Decoding what was encoded\<close>

lemma b64_val_char [simp]: "n < 64 \<Longrightarrow> b64_val (b64_char n) = Some n"
  by (auto simp: b64_val_def b64_char_def of_char_of Let_def)

lemma b64_char_plain:
  assumes "n < 64"
  shows "b64_char n \<noteq> CHR ''=''" "b64_char n \<noteq> CHR ''-''" "b64_char n \<noteq> CHR ''_''" "of_char (b64_char n) < (128 :: nat)"
proof -
  have "b64_val (b64_char n) \<noteq> None" using assms by simp
  moreover have "b64_val (CHR ''='') = None" "b64_val (CHR ''-'') = None" "b64_val (CHR ''_'') = None"
    by (simp_all add: b64_val_def)
  ultimately show "b64_char n \<noteq> CHR ''=''" "b64_char n \<noteq> CHR ''-''" "b64_char n \<noteq> CHR ''_''" by metis+
  show "of_char (b64_char n) < (128 :: nat)" using assms by (auto simp: b64_char_def of_char_of)
qed

text \<open>The digits of an encoding without its padding; the encoding is these and the padding.\<close>

fun b64digits :: "nat list \<Rightarrow> nat list" where
  "b64digits (a # b # c # bs) = [a div 4, a mod 4 * 16 + b div 16, b mod 16 * 4 + c div 64, c mod 64] @ b64digits bs"
| "b64digits [a, b] = [a div 4, a mod 4 * 16 + b div 16, b mod 16 * 4]"
| "b64digits [a] = [a div 4, a mod 4 * 16]"
| "b64digits [] = []"

lemma b64digits_less: "\<forall>b \<in> set bs. b < 256 \<Longrightarrow> d \<in> set (b64digits bs) \<Longrightarrow> d < 64"
  by (induction bs rule: b64digits.induct) auto

lemma b64encode_digits: "\<exists>n. b64encode bs = map b64_char (b64digits bs) @ replicate n (CHR ''='')"
proof (induction bs rule: b64encode.induct)
  case (2 a b)
  show ?case by (rule exI [of _ 1]) simp
next
  case (3 a)
  show ?case by (rule exI [of _ 2]) (simp add: numeral_2_eq_2)
next
  case 4
  show ?case by (rule exI [of _ 0]) simp
qed simp

lemma a2b_digit:
  assumes "v < 64"
  shows "a2b 0 l p (b64_char v # s) = a2b (Suc 0) v 0 s"
    "a2b (Suc 0) l p (b64_char v # s) = bindE (a2b 2 (v mod 16) 0 s) (\<lambda>r. Inr ((l * 4 + v div 16) # r))"
    "a2b 2 l p (b64_char v # s) = bindE (a2b 3 (v mod 4) 0 s) (\<lambda>r. Inr ((l * 16 + v div 4) # r))"
    "a2b 3 l p (b64_char v # s) = bindE (a2b 0 0 0 s) (\<lambda>r. Inr ((l * 64 + v) # r))"
  using b64_char_plain(1) [OF assms] assms by simp_all

lemma regroup:
  fixes a b c :: nat
  assumes "b < 256" "c < 256"
  shows "a div 4 * 4 + (a mod 4 * 16 + b div 16) div 16 = a"
    "(a mod 4 * 16 + b div 16) mod 16 * 16 + (b mod 16 * 4 + c div 64) div 4 = b"
    "(b mod 16 * 4 + c div 64) mod 4 * 64 + c mod 64 = c"
proof -
  have "b div 16 < 16" "c div 64 < 4" using assms by simp_all
  then have "(a mod 4 * 16 + b div 16) div 16 = a mod 4" "(a mod 4 * 16 + b div 16) mod 16 = b div 16"
    "(b mod 16 * 4 + c div 64) div 4 = b mod 16" "(b mod 16 * 4 + c div 64) mod 4 = c div 64"
    by simp_all
  then show "a div 4 * 4 + (a mod 4 * 16 + b div 16) div 16 = a"
    "(a mod 4 * 16 + b div 16) mod 16 * 16 + (b mod 16 * 4 + c div 64) div 4 = b"
    "(b mod 16 * 4 + c div 64) mod 4 * 64 + c mod 64 = c"
    by (simp_all only: div_mult_mod_eq)
qed

lemma a2b_digits:
  assumes "\<forall>b \<in> set bs. b < 256"
  shows "a2b 0 0 0 (map b64_char (b64digits bs) @ replicate (4 - length (b64digits bs) mod 4) (CHR ''='')) = Inr bs"
  using assms
proof (induction bs rule: b64digits.induct)
  case (1 a b c bs)
  then have *: "a div 4 < 64" "a mod 4 * 16 + b div 16 < 64" "b mod 16 * 4 + c div 64 < 64" "c mod 64 < 64" by auto
  have e: "a div 4 * 4 + (a mod 4 * 16 + b div 16) div 16 = a"
    "(a mod 4 * 16 + b div 16) mod 16 * 16 + (b mod 16 * 4 + c div 64) div 4 = b"
    "(b mod 16 * 4 + c div 64) mod 4 * 64 + c mod 64 = c"
    using 1 regroup(1,2) [of b c a] regroup(3) [of b c] by simp_all
  have "a2b 0 0 0 (map b64_char (b64digits bs) @ replicate (4 - length (b64digits bs) mod 4) (CHR ''='')) = Inr bs"
    using 1 by simp
  moreover have "length (b64digits (a # b # c # bs)) mod 4 = length (b64digits bs) mod 4" by (simp add: mod_add_eq [of 4 4])
  ultimately show ?case using * e 1 by (simp add: a2b_digit del: a2b.simps)
next
  case (2 a b)
  then have *: "a div 4 < 64" "a mod 4 * 16 + b div 16 < 64" "b mod 16 * 4 < 64" by auto
  have e: "a div 4 * 4 + (a mod 4 * 16 + b div 16) div 16 = a" "(a mod 4 * 16 + b div 16) mod 16 * 16 + (b mod 16 * 4) div 4 = b"
    using 2 regroup(1,2) [of b 0 a] by simp_all
  have "a2b 3 l 0 ''='' = Inr []" for l by simp
  then show ?case using * e by (simp add: a2b_digit del: a2b.simps) 
next
  case (3 a)
  then have *: "a div 4 < 64" "a mod 4 * 16 < 64" by auto
  have e: "a div 4 * 4 + (a mod 4 * 16) div 16 = a" using 3 by auto
  have "a2b 2 l 0 ''=='' = Inr []" for l by simp
  moreover have "replicate (4 - length (b64digits [a]) mod 4) (CHR ''='') = replicate 2 (CHR ''='')" by simp
  moreover have "replicate 2 (CHR ''='') = ''==''" unfolding numeral_2_eq_2 by simp
  ultimately show ?case
    by (simp only: b64digits.simps list.map append_Cons append_Nil a2b_digit [OF *(1)] a2b_digit [OF *(2)] bindE.simps e)
next
  case 4
  have "replicate 4 (CHR ''='') = ''====''" by (simp add: eval_nat_numeral)
  then show ?case by simp
qed

lemma urlsafe_char:
  assumes "n < 64"
  shows "to_urlsafe (b64_char n) \<noteq> CHR ''=''" "from_urlsafe (to_urlsafe (b64_char n)) = b64_char n"
    "of_char (to_urlsafe (b64_char n)) < (128 :: nat)"
  using b64_char_plain [OF assms] by (auto simp: to_urlsafe_def from_urlsafe_def)

lemma urlsafe_digits:
  assumes "\<forall>b \<in> set bs. b < 256"
  shows "rstrip_char (CHR ''='') (urlsafe_b64encode bs) = map (to_urlsafe \<circ> b64_char) (b64digits bs)"
proof -
  from b64encode_digits obtain n where n: "b64encode bs = map b64_char (b64digits bs) @ replicate n (CHR ''='')" by blast
  have "x \<noteq> CHR ''=''" if "x \<in> set (map (to_urlsafe \<circ> b64_char) (b64digits bs))" for x
  proof -
    from that obtain d where "d \<in> set (b64digits bs)" "x = to_urlsafe (b64_char d)" by auto
    with urlsafe_char(1) [OF b64digits_less [OF assms]] show ?thesis by metis
  qed
  moreover have "to_urlsafe (CHR ''='') = CHR ''=''" by (simp add: to_urlsafe_def)
  ultimately show ?thesis
    using rstrip_replicate [of "map (to_urlsafe \<circ> b64_char) (b64digits bs)" "CHR ''=''" n] by (simp add: urlsafe_b64encode_def n)
qed

lemma urlsafe_b64_padded:
  assumes "\<forall>b \<in> set bs. b < 256" and "p = rstrip_char (CHR ''='') (urlsafe_b64encode bs)"
  shows "urlsafe_b64decode (p @ replicate (4 - length p mod 4) (CHR ''='')) = Inr bs"
proof -
  have p: "p = map (to_urlsafe \<circ> b64_char) (b64digits bs)" using urlsafe_digits assms by simp
  have "map from_urlsafe p = map b64_char (b64digits bs)"
    using urlsafe_char(2) [OF b64digits_less [OF assms(1)]] by (simp add: p)
  moreover have "of_char c < (128 :: nat)" if "c \<in> set p" for c
    using that urlsafe_char(3) [OF b64digits_less [OF assms(1)]] by (auto simp: p)
  then have "\<not> (\<exists>c \<in> set (p @ replicate (4 - length p mod 4) (CHR ''='')). 128 \<le> (of_char c :: nat))"
    by (auto simp: not_le)
  moreover have "from_urlsafe (CHR ''='') = CHR ''=''" "length p = length (b64digits bs)"
    by (simp_all add: from_urlsafe_def p)
  ultimately show ?thesis using a2b_digits [OF assms(1)]
    unfolding urlsafe_b64decode_def by (simp only: if_False map_append map_replicate) 
qed

end
