(* ===== verification/Sso.thy ===== *)
theory Sso
  imports Web
begin

text \<open>
  Single sign-on, \<^verbatim>\<open>security/sso.py\<close>: the OpenID Connect and SAML providers behind the interface
  \<open>SSOProviderBase\<close>, and the manager that keeps the sessions. The clock, the random bytes, the network, the
  parsers and the digest are one record of answers per call; \<open>so_clock w i\<close> is the \<open>i\<close>-th reading of the clock in
  that call. A session object is shared between the manager's table and the provider that refreshes it, so a
  refresh returns the session as it leaves it, also when it fails half way.
\<close>

section \<open>Data\<close>

datatype sso_provider = OIDC | SAML

record sso_config =
  sc_provider :: sso_provider
  sc_enabled :: bool
  sc_oidc_issuer_url :: "string option"
  sc_oidc_client_id :: "string option"
  sc_oidc_client_secret :: "string option"
  sc_oidc_scopes :: "string list"
  sc_oidc_redirect_uri :: "string option"
  sc_saml_metadata_url :: "string option"
  sc_saml_entity_id :: "string option"
  sc_saml_acs_url :: "string option"
  sc_saml_certificate :: "string option"
  sc_require_mfa :: bool
  sc_session_timeout_minutes :: int
  sc_allowed_domains :: "string list"

record sso_user =
  su_user_id :: json
  su_email :: json
  su_name :: json
  su_given_name :: json
  su_family_name :: json
  su_groups :: json
  su_roles :: json
  su_provider :: string
  su_raw_claims :: json
  su_authenticated_at :: pyfloat
  su_session_expires_at :: pyfloat

definition is_session_valid :: "pyfloat \<Rightarrow> sso_user \<Rightarrow> bool" where
  "is_session_valid now u = fl_lt now (su_session_expires_at u)"

record sso_session =
  ss_session_id :: string
  ss_user :: sso_user
  ss_access_token :: json
  ss_refresh_token :: json
  ss_id_token :: json
  ss_token_expires_at :: pyfloat
  ss_created_at :: pyfloat

definition is_token_valid :: "pyfloat \<Rightarrow> sso_session \<Rightarrow> bool" where
  "is_token_valid now s = fl_lt now (ss_token_expires_at s)"

record http_request =
  rq_url :: string
  rq_data :: "string option"
  rq_bearer :: "string option"

record sso_world =
  so_clock :: "nat \<Rightarrow> pyfloat"
  so_urandom :: "nat \<Rightarrow> nat list"
  so_utc_text :: string
  so_fetch :: "nat \<Rightarrow> http_request \<Rightarrow> json result"
  so_fetch_xml :: "string \<Rightarrow> xml result"
  so_loads :: "nat list \<Rightarrow> json result"
  so_parse_xml :: "nat list \<Rightarrow> xml result"
  so_repr :: "json \<Rightarrow> string"
  so_float_text :: "pyfloat \<Rightarrow> string"
  so_sha256 :: "nat list \<Rightarrow> nat list"
  so_deflate :: "nat list \<Rightarrow> nat list"

text \<open>Text of a value and of an optional string in a format string; true in a condition.\<close>

definition j_text :: "sso_world \<Rightarrow> json \<Rightarrow> string" where
  "j_text w j = (case j of JStr s \<Rightarrow> s | _ \<Rightarrow> so_repr w j)"

definition opt_text :: "string option \<Rightarrow> string" where
  "opt_text s = (case s of None \<Rightarrow> ''None'' | Some t \<Rightarrow> t)"

definition given :: "string option \<Rightarrow> bool" where
  "given s = (s \<noteq> None \<and> s \<noteq> Some [])"

definition issuer :: "sso_config \<Rightarrow> string" where
  "issuer c = (if given (sc_oidc_issuer_url c) then rstrip_char (CHR ''/'') (opt_text (sc_oidc_issuer_url c)) else [])"

section \<open>OpenID Connect\<close>

record oidc =
  oi_config :: sso_config
  oi_initialized :: bool
  oi_discovery_doc :: json
  oi_jwks :: json

definition oidc_init :: "sso_config \<Rightarrow> oidc" where
  "oidc_init c = \<lparr>oi_config = c, oi_initialized = False, oi_discovery_doc = JObj [], oi_jwks = JObj []\<rparr>"

definition sso_get_request :: "string \<Rightarrow> http_request" where
  "sso_get_request url = \<lparr>rq_url = url, rq_data = None, rq_bearer = None\<rparr>"

text \<open>A request needs a string as its address.\<close>

definition at_url :: "json \<Rightarrow> (string \<Rightarrow> 'a result) \<Rightarrow> 'a result" where
  "at_url j f = (case j of JStr s \<Rightarrow> f s | _ \<Rightarrow> Inl TypeError)"

definition oidc_initialize :: "sso_world \<Rightarrow> oidc \<Rightarrow> bool \<times> oidc" where
  "oidc_initialize w p =
     (if \<not> given (sc_oidc_issuer_url (oi_config p)) then (False, p)
      else
        case so_fetch w 0 (sso_get_request (issuer (oi_config p) @ ''/.well-known/openid-configuration'')) of
          Inl e \<Rightarrow> (False, p)
        | Inr doc \<Rightarrow>
            let p1 = p\<lparr>oi_discovery_doc := doc\<rparr> in
            case j_get doc ''jwks_uri'' JNull of
              Inl e \<Rightarrow> (False, p1)
            | Inr uri \<Rightarrow>
                if \<not> j_truthy uri then (True, p1\<lparr>oi_initialized := True\<rparr>)
                else case at_url uri (\<lambda>u. so_fetch w 1 (sso_get_request u)) of
                       Inl e \<Rightarrow> (False, p1)
                     | Inr keys \<Rightarrow> (True, p1\<lparr>oi_jwks := keys, oi_initialized := True\<rparr>))"

definition generate_code_verifier :: "nat list \<Rightarrow> string" where
  "generate_code_verifier random = rstrip_char (CHR ''='') (urlsafe_b64encode random)"

definition generate_code_challenge :: "sso_world \<Rightarrow> string \<Rightarrow> string" where
  "generate_code_challenge w verifier = rstrip_char (CHR ''='') (urlsafe_b64encode (so_sha256 w (encode_text verifier)))"

definition endpoint :: "oidc \<Rightarrow> string \<Rightarrow> string \<Rightarrow> json result" where
  "endpoint p k path = j_get (oi_discovery_doc p) k (JStr (opt_text (sc_oidc_issuer_url (oi_config p)) @ path))"

definition oidc_authorization_url :: "sso_world \<Rightarrow> string \<Rightarrow> string \<Rightarrow> oidc \<Rightarrow> string result \<times> oidc" where
  "oidc_authorization_url w state nonce p0 =
     (let p = (if oi_initialized p0 then p0 else snd (oidc_initialize w p0)); c = oi_config p
      in (bindE (endpoint p ''authorization_endpoint'' ''/authorize'') (\<lambda>ep.
            let verifier = generate_code_verifier (so_urandom w 0) in
            Inr (j_text w ep @ ''?'' @ urlencode
              [(''response_type'', ''code''), (''client_id'', opt_text (sc_oidc_client_id c)),
               (''redirect_uri'', opt_text (sc_oidc_redirect_uri c)), (''scope'', join_with '' '' (sc_oidc_scopes c)),
               (''state'', state), (''nonce'', nonce), (''code_challenge'', generate_code_challenge w verifier),
               (''code_challenge_method'', ''S256'')])), p))"

text \<open>\<open>try: return e; except Exception: return None\<close>.\<close>

definition quietly :: "'a option result \<Rightarrow> 'a option" where
  "quietly r = (case r of Inl e \<Rightarrow> None | Inr x \<Rightarrow> x)"

lemma quietly_Some [simp]: "quietly r = Some x \<longleftrightarrow> r = Inr (Some x)"
  by (cases r) (auto simp: quietly_def)

text \<open>
  The claims of an ID token: the middle one of three parts, padded. A wrong issuer is only logged. Every
  exception means no user.
\<close>

definition token_claims :: "sso_world \<Rightarrow> string \<Rightarrow> json result" where
  "token_claims w token =
     (let payload = split_on (CHR ''.'') token ! 1
      in bindE (urlsafe_b64decode (payload @ replicate (4 - length payload mod 4) (CHR ''=''))) (so_loads w))"

definition audience_ok :: "sso_config \<Rightarrow> json \<Rightarrow> bool" where
  "audience_ok c aud =
     (case aud of
        JArr xs \<Rightarrow> j_opt (sc_oidc_client_id c) \<in> set xs
      | _ \<Rightarrow> aud = j_opt (sc_oidc_client_id c))"

definition timeout_from :: "sso_config \<Rightarrow> pyfloat \<Rightarrow> pyfloat result" where
  "timeout_from c now = bindE (fl_of_int (sc_session_timeout_minutes c * 60)) (\<lambda>d. Inr (fl_add now d))"

definition parse_id_token :: "sso_world \<Rightarrow> sso_config \<Rightarrow> json \<Rightarrow> sso_user option" where
  "parse_id_token w c id_token =
     (case id_token of
        JStr token \<Rightarrow>
          (if length (split_on (CHR ''.'') token) \<noteq> 3 then None
           else
             quietly (bindE (token_claims w token) (\<lambda>claims.
               bindE (j_get claims ''iss'' JNull) (\<lambda>iss.
               bindE (j_get claims ''aud'' JNull) (\<lambda>aud.
               if \<not> audience_ok c aud then Inr None
               else
                 bindE (j_get claims ''exp'' (JInt 0)) (\<lambda>ex.
                 bindE (j_less ex (so_clock w 0)) (\<lambda>expired.
                 if expired then Inr None
                 else
                   bindE (j_get claims ''sub'' (JStr [])) (\<lambda>sub.
                   bindE (j_get claims ''email'' (JStr [])) (\<lambda>email.
                   bindE (j_get claims ''name'' JNull) (\<lambda>nm.
                   bindE (j_get claims ''given_name'' JNull) (\<lambda>gn.
                   bindE (j_get claims ''family_name'' JNull) (\<lambda>fn.
                   bindE (j_get claims ''groups'' (JArr [])) (\<lambda>grp.
                   bindE (j_get claims ''roles'' (JArr [])) (\<lambda>rl.
                   bindE (timeout_from c (so_clock w 2)) (\<lambda>ends.
                   Inr (Some \<lparr>su_user_id = sub, su_email = email, su_name = nm, su_given_name = gn, su_family_name = fn,
                     su_groups = grp, su_roles = rl, su_provider = ''oidc'', su_raw_claims = claims,
                     su_authenticated_at = so_clock w 1, su_session_expires_at = ends\<rparr>))))))))))))))))
      | _ \<Rightarrow> None)"

definition new_session_id :: "sso_world \<Rightarrow> json \<Rightarrow> pyfloat \<Rightarrow> string" where
  "new_session_id w user_id now = take 32 (hex_of_bytes (so_sha256 w (encode_text (j_text w user_id @ so_float_text w now))))"

definition session_from_tokens :: "sso_world \<Rightarrow> sso_config \<Rightarrow> json \<Rightarrow> sso_session option result" where
  "session_from_tokens w c token_data =
     bindE (j_get token_data ''access_token'' JNull) (\<lambda>access_token.
     bindE (j_get token_data ''id_token'' JNull) (\<lambda>id_token.
     bindE (j_get token_data ''refresh_token'' JNull) (\<lambda>refresh_token.
     bindE (j_get token_data ''expires_in'' (JInt 3600)) (\<lambda>expires_in.
     case parse_id_token w c id_token of
       None \<Rightarrow> Inr None
     | Some user \<Rightarrow>
         bindE (j_plus (so_clock w 4) expires_in) (\<lambda>token_ends.
         Inr (Some \<lparr>ss_session_id = new_session_id w (su_user_id user) (so_clock w 3), ss_user = user,
           ss_access_token = access_token, ss_refresh_token = refresh_token, ss_id_token = id_token,
           ss_token_expires_at = token_ends, ss_created_at = so_clock w 5\<rparr>))))))"

definition oidc_exchange_code :: "sso_world \<Rightarrow> string \<Rightarrow> string \<Rightarrow> oidc \<Rightarrow> sso_session option result" where
  "oidc_exchange_code w code state p =
     (if \<not> oi_initialized p then Inr None
      else
        bindE (endpoint p ''token_endpoint'' ''/oauth/token'') (\<lambda>ep.
        let c = oi_config p;
            data = urlencode [(''grant_type'', ''authorization_code''), (''code'', code),
              (''redirect_uri'', opt_text (sc_oidc_redirect_uri c)), (''client_id'', opt_text (sc_oidc_client_id c)),
              (''client_secret'', opt_text (sc_oidc_client_secret c))]
        in Inr (quietly (bindE (at_url ep (\<lambda>u. so_fetch w 0 \<lparr>rq_url = u, rq_data = Some data, rq_bearer = None\<rparr>))
             (session_from_tokens w c)))))"

definition oidc_validate_token :: "sso_world \<Rightarrow> string \<Rightarrow> oidc \<Rightarrow> sso_user option result" where
  "oidc_validate_token w token p =
     (if \<not> oi_initialized p then Inr None
      else
        bindE (endpoint p ''userinfo_endpoint'' ''/userinfo'') (\<lambda>ep.
        case bindE (at_url ep (\<lambda>u. so_fetch w 0 \<lparr>rq_url = u, rq_data = None, rq_bearer = Some token\<rparr>)) (\<lambda>info.
             bindE (j_get info ''sub'' (JStr [])) (\<lambda>sub.
             bindE (j_get info ''email'' (JStr [])) (\<lambda>email.
             bindE (j_get info ''name'' JNull) (\<lambda>nm.
             bindE (j_get info ''given_name'' JNull) (\<lambda>gn.
             bindE (j_get info ''family_name'' JNull) (\<lambda>fn.
             bindE (j_get info ''groups'' (JArr [])) (\<lambda>grp.
             bindE (timeout_from (oi_config p) (so_clock w 1)) (\<lambda>ends.
             Inr \<lparr>su_user_id = sub, su_email = email, su_name = nm, su_given_name = gn, su_family_name = fn,
               su_groups = grp, su_roles = JArr [], su_provider = ''oidc'', su_raw_claims = info,
               su_authenticated_at = so_clock w 0, su_session_expires_at = ends\<rparr>)))))))) of
          Inl e \<Rightarrow> Inr None
        | Inr u \<Rightarrow> Inr (Some u)))"

text \<open>
  A refresh writes into the session object field by field; when the last field raises, the first three keep what
  was written.
\<close>

definition oidc_refresh_session :: "sso_world \<Rightarrow> sso_session \<Rightarrow> oidc \<Rightarrow> bool result \<times> sso_session" where
  "oidc_refresh_session w s p =
     (if \<not> j_truthy (ss_refresh_token s) then (Inr False, s)
      else
        case endpoint p ''token_endpoint'' ''/oauth/token'' of
          Inl e \<Rightarrow> (Inl e, s)
        | Inr ep \<Rightarrow>
            let c = oi_config p;
                data = urlencode [(''grant_type'', ''refresh_token''), (''refresh_token'', j_text w (ss_refresh_token s)),
                  (''client_id'', opt_text (sc_oidc_client_id c)), (''client_secret'', opt_text (sc_oidc_client_secret c))]
            in case at_url ep (\<lambda>u. so_fetch w 0 \<lparr>rq_url = u, rq_data = Some data, rq_bearer = None\<rparr>) of
                 Inr (JObj d) \<Rightarrow>
                   let value = (\<lambda>k v. case dget d k of Some x \<Rightarrow> x | None \<Rightarrow> v);
                       s1 = s\<lparr>ss_access_token := value ''access_token'' (ss_access_token s),
                              ss_refresh_token := value ''refresh_token'' (ss_refresh_token s),
                              ss_id_token := value ''id_token'' (ss_id_token s)\<rparr>
                   in (case j_plus (so_clock w 2) (value ''expires_in'' (JInt 3600)) of
                         Inl e \<Rightarrow> (Inr False, s1)
                       | Inr t \<Rightarrow> (Inr True, s1\<lparr>ss_token_expires_at := t\<rparr>))
               | _ \<Rightarrow> (Inr False, s))"

text \<open>The logout builds the address of the provider's page and always succeeds, unless the document is no object.\<close>

definition oidc_logout :: "sso_session \<Rightarrow> oidc \<Rightarrow> bool result" where
  "oidc_logout s p = bindE (j_get (oi_discovery_doc p) ''end_session_endpoint'' JNull) (\<lambda>_. Inr True)"

section \<open>SAML\<close>

record saml =
  sm_config :: sso_config
  sm_initialized :: bool
  sm_idp_metadata :: "(string, string option) dict"

definition saml_init :: "sso_config \<Rightarrow> saml" where
  "saml_init c = \<lparr>sm_config = c, sm_initialized = False, sm_idp_metadata = []\<rparr>"

definition saml_initialize :: "sso_world \<Rightarrow> saml \<Rightarrow> bool \<times> saml" where
  "saml_initialize w p =
     (if \<not> given (sc_saml_metadata_url (sm_config p)) then (False, p)
      else
        case so_fetch_xml w (opt_text (sc_saml_metadata_url (sm_config p))) of
          Inl e \<Rightarrow> (False, p)
        | Inr tree \<Rightarrow>
            let m0 = sm_idp_metadata p;
                sso = List.find (\<lambda>e. x_tag e = ''{urn:oasis:names:tc:SAML:2.0:metadata}SingleSignOnService'' \<and>
                    dget (x_attrib e) ''Binding'' = Some ''urn:oasis:names:tc:SAML:2.0:bindings:HTTP-Redirect'') (descendants tree);
                m1 = (case sso of None \<Rightarrow> m0 | Some e \<Rightarrow> dset ''sso_url'' (dget (x_attrib e) ''Location'') m0);
                cert = find_below ''{http://www.w3.org/2000/09/xmldsig#}X509Certificate'' tree;
                m2 = (case cert of
                        None \<Rightarrow> m1
                      | Some e \<Rightarrow> if given (x_text e) then dset ''certificate'' (map_option strip (x_text e)) m1 else m1);
                m3 = dset ''entity_id'' (dget (x_attrib tree) ''entityID'') m2
            in (True, p\<lparr>sm_idp_metadata := m3, sm_initialized := True\<rparr>))"

definition authn_request :: "string \<Rightarrow> string \<Rightarrow> string \<Rightarrow> string \<Rightarrow> string \<Rightarrow> string" where
  "authn_request request_id instant acs_url destination entity_id =
     (let q = [CHR 0x22]; nl = [CHR 0x0A] in
      ''<?xml version='' @ q @ ''1.0'' @ q @ '' encoding='' @ q @ ''UTF-8'' @ q @ ''?>'' @ nl @
      ''<samlp:AuthnRequest xmlns:samlp='' @ q @ ''urn:oasis:names:tc:SAML:2.0:protocol'' @ q @ nl @
      ''    xmlns:saml='' @ q @ ''urn:oasis:names:tc:SAML:2.0:assertion'' @ q @ nl @
      ''    ID='' @ q @ request_id @ q @ nl @
      ''    Version='' @ q @ ''2.0'' @ q @ nl @
      ''    IssueInstant='' @ q @ instant @ q @ nl @
      ''    AssertionConsumerServiceURL='' @ q @ acs_url @ q @ nl @
      ''    Destination='' @ q @ destination @ q @ ''>'' @ nl @
      ''    <saml:Issuer>'' @ entity_id @ ''</saml:Issuer>'' @ nl @
      ''    <samlp:NameIDPolicy Format='' @ q @ ''urn:oasis:names:tc:SAML:1.1:nameid-format:emailAddress'' @ q @
      '' AllowCreate='' @ q @ ''true'' @ q @ ''/>'' @ nl @
      ''</samlp:AuthnRequest>'')"

definition saml_authorization_url :: "sso_world \<Rightarrow> string \<Rightarrow> string \<Rightarrow> saml \<Rightarrow> string \<times> saml" where
  "saml_authorization_url w state nonce p0 =
     (let p = (if sm_initialized p0 then p0 else snd (saml_initialize w p0));
          url = (case dget (sm_idp_metadata p) ''sso_url'' of None \<Rightarrow> Some [] | Some u \<Rightarrow> u)
      in if \<not> given url then ([], p)
         else
           let request_id = ''_warmlogic_'' @ take 16 (hex_of_bytes (so_sha256 w (so_urandom w 0)));
               text = authn_request request_id (so_utc_text w) (opt_text (sc_saml_acs_url (sm_config p))) (opt_text url)
                 (opt_text (sc_saml_entity_id (sm_config p)))
           in (opt_text url @ ''?'' @ urlencode [(''SAMLRequest'', b64encode (so_deflate w (encode_text text))), (''RelayState'', state)], p))"

text \<open>The attributes that have a value; a later one of the same name replaces an earlier one.\<close>

definition saml_attributes :: "xml \<Rightarrow> (string, string) dict" where
  "saml_attributes assertion =
     fold (\<lambda>attr d.
       let nm = (case dget (x_attrib attr) ''Name'' of None \<Rightarrow> [] | Some n \<Rightarrow> n) in
       case find_child ''{urn:oasis:names:tc:SAML:2.0:assertion}AttributeValue'' attr of
         None \<Rightarrow> d
       | Some v \<Rightarrow> if given (x_text v) then dset nm (opt_text (x_text v)) d else d)
     (findall_below ''{urn:oasis:names:tc:SAML:2.0:assertion}Attribute'' assertion) []"

definition saml_user :: "sso_world \<Rightarrow> sso_config \<Rightarrow> xml \<Rightarrow> sso_user result" where
  "saml_user w c assertion =
     (let name_id = find_below ''{urn:oasis:names:tc:SAML:2.0:assertion}NameID'' assertion;
          user_id = (case name_id of None \<Rightarrow> [] | Some e \<Rightarrow> if given (x_text e) then opt_text (x_text e) else []);
          attributes = saml_attributes assertion;
          attr = (\<lambda>k v. case dget attributes k of None \<Rightarrow> v | Some x \<Rightarrow> x);
          mail = attr ''mail'' user_id;
          email = attr ''email'' (if mail = [] then user_id else mail);
          nm = attr ''displayName'' (attr ''cn'' []);
          groups = (case dget attributes ''groups'' of None \<Rightarrow> [] | Some g \<Rightarrow> split_on (CHR '','') g)
      in bindE (timeout_from c (so_clock w 1)) (\<lambda>ends.
         Inr \<lparr>su_user_id = JStr user_id, su_email = JStr email, su_name = JStr nm, su_given_name = JNull,
           su_family_name = JNull, su_groups = JArr (map JStr groups), su_roles = JArr [], su_provider = ''saml'',
           su_raw_claims = JObj (map (\<lambda>(k, v). (k, JStr v)) attributes), su_authenticated_at = so_clock w 0,
           su_session_expires_at = ends\<rparr>))"

definition process_saml_response :: "sso_world \<Rightarrow> string \<Rightarrow> string \<Rightarrow> saml \<Rightarrow> sso_session option" where
  "process_saml_response w response relay_state p =
     (case bindE (b64decode response) (so_parse_xml w) of
        Inl e \<Rightarrow> None
      | Inr tree \<Rightarrow>
          (case find_below ''{urn:oasis:names:tc:SAML:2.0:protocol}StatusCode'' tree of
             None \<Rightarrow> None
           | Some status \<Rightarrow>
               if dget (x_attrib status) ''Value'' \<noteq> Some ''urn:oasis:names:tc:SAML:2.0:status:Success'' then None
               else case find_below ''{urn:oasis:names:tc:SAML:2.0:assertion}Assertion'' tree of
                      None \<Rightarrow> None
                    | Some assertion \<Rightarrow>
                        (case saml_user w (sm_config p) assertion of
                           Inl e \<Rightarrow> None
                         | Inr user \<Rightarrow>
                             Some \<lparr>ss_session_id = new_session_id w (su_user_id user) (so_clock w 2), ss_user = user,
                               ss_access_token = JStr response, ss_refresh_token = JNull, ss_id_token = JNull,
                               ss_token_expires_at = su_session_expires_at user, ss_created_at = so_clock w 3\<rparr>)))"

definition saml_exchange_code :: "sso_world \<Rightarrow> string \<Rightarrow> string \<Rightarrow> saml \<Rightarrow> sso_session option result" where
  "saml_exchange_code w code state p = Inr (process_saml_response w code state p)"

definition saml_validate_token :: "sso_world \<Rightarrow> string \<Rightarrow> saml \<Rightarrow> sso_user option result" where
  "saml_validate_token w token p = Inr None"

definition saml_refresh_session :: "sso_world \<Rightarrow> sso_session \<Rightarrow> saml \<Rightarrow> bool result \<times> sso_session" where
  "saml_refresh_session w s p = (Inr False, s)"

definition saml_logout :: "sso_session \<Rightarrow> saml \<Rightarrow> bool result" where
  "saml_logout s p = Inr True"

section \<open>The interface\<close>

datatype sso_backend = Oidc oidc | Saml saml

fun sso_initialize :: "sso_world \<Rightarrow> sso_backend \<Rightarrow> bool \<times> sso_backend" where
  "sso_initialize w (Oidc p) = map_prod id Oidc (oidc_initialize w p)"
| "sso_initialize w (Saml p) = map_prod id Saml (saml_initialize w p)"

fun get_authorization_url :: "sso_world \<Rightarrow> string \<Rightarrow> string \<Rightarrow> sso_backend \<Rightarrow> string result \<times> sso_backend" where
  "get_authorization_url w state nonce (Oidc p) = map_prod id Oidc (oidc_authorization_url w state nonce p)"
| "get_authorization_url w state nonce (Saml p) = map_prod Inr Saml (saml_authorization_url w state nonce p)"

fun exchange_code :: "sso_world \<Rightarrow> string \<Rightarrow> string \<Rightarrow> sso_backend \<Rightarrow> sso_session option result" where
  "exchange_code w code state (Oidc p) = oidc_exchange_code w code state p"
| "exchange_code w code state (Saml p) = saml_exchange_code w code state p"

fun refresh_session :: "sso_world \<Rightarrow> sso_session \<Rightarrow> sso_backend \<Rightarrow> bool result \<times> sso_session" where
  "refresh_session w s (Oidc p) = oidc_refresh_session w s p"
| "refresh_session w s (Saml p) = saml_refresh_session w s p"

fun sso_logout :: "sso_session \<Rightarrow> sso_backend \<Rightarrow> bool result" where
  "sso_logout s (Oidc p) = oidc_logout s p"
| "sso_logout s (Saml p) = saml_logout s p"

fun backend_config :: "sso_backend \<Rightarrow> sso_config" where
  "backend_config (Oidc p) = oi_config p"
| "backend_config (Saml p) = sm_config p"

section \<open>The manager\<close>

record sso_manager =
  sg_config :: sso_config
  sg_provider :: "sso_backend option"
  sg_sessions :: "(string, sso_session) dict"

definition load_config_from_env :: "(string \<Rightarrow> string option) \<Rightarrow> sso_config" where
  "load_config_from_env env =
     (let text = (\<lambda>k. py_lower (case env k of None \<Rightarrow> [] | Some s \<Rightarrow> s)) in
      \<lparr>sc_provider = (if text ''SSO_PROVIDER'' = ''oidc'' then OIDC else if text ''SSO_PROVIDER'' = ''saml'' then SAML else OIDC),
       sc_enabled = (text ''SSO_ENABLED'' = ''true''),
       sc_oidc_issuer_url = env ''OIDC_ISSUER_URL'', sc_oidc_client_id = env ''OIDC_CLIENT_ID'',
       sc_oidc_client_secret = env ''OIDC_CLIENT_SECRET'', sc_oidc_scopes = [''openid'', ''profile'', ''email''],
       sc_oidc_redirect_uri = env ''OIDC_REDIRECT_URI'', sc_saml_metadata_url = env ''SAML_METADATA_URL'',
       sc_saml_entity_id = env ''SAML_ENTITY_ID'', sc_saml_acs_url = env ''SAML_ACS_URL'', sc_saml_certificate = None,
       sc_require_mfa = False, sc_session_timeout_minutes = 480, sc_allowed_domains = []\<rparr>)"

definition sso_manager_init :: "(string \<Rightarrow> string option) \<Rightarrow> sso_config option \<Rightarrow> sso_manager" where
  "sso_manager_init env config =
     \<lparr>sg_config = (case config of None \<Rightarrow> load_config_from_env env | Some c \<Rightarrow> c), sg_provider = None, sg_sessions = []\<rparr>"

definition manager_initialize :: "sso_world \<Rightarrow> sso_manager \<Rightarrow> bool \<times> sso_manager" where
  "manager_initialize w m =
     (if \<not> sc_enabled (sg_config m) then (True, m)
      else
        let p = (case sc_provider (sg_config m) of OIDC \<Rightarrow> Oidc (oidc_init (sg_config m)) | SAML \<Rightarrow> Saml (saml_init (sg_config m)));
            (ok, p1) = sso_initialize w p
        in (ok, m\<lparr>sg_provider := Some p1\<rparr>))"

definition get_login_url :: "sso_world \<Rightarrow> string option \<Rightarrow> sso_manager \<Rightarrow> string result \<times> sso_manager" where
  "get_login_url w redirect_after m =
     (case sg_provider m of
        None \<Rightarrow> (Inr [], m)
      | Some p \<Rightarrow>
          let state0 = take 32 (hex_of_bytes (so_sha256 w (so_urandom w 1)));
              nonce = take 32 (hex_of_bytes (so_sha256 w (so_urandom w 2)));
              state = (if given redirect_after then state0 @ '':'' @ opt_text redirect_after else state0);
              (url, p1) = get_authorization_url w state nonce p
          in (url, m\<lparr>sg_provider := Some p1\<rparr>))"

definition handle_callback :: "sso_world \<Rightarrow> string \<Rightarrow> string \<Rightarrow> sso_manager \<Rightarrow> sso_session option result \<times> sso_manager" where
  "handle_callback w code state m =
     (case sg_provider m of
        None \<Rightarrow> (Inr None, m)
      | Some p \<Rightarrow>
          (case exchange_code w code state p of
             Inr (Some s) \<Rightarrow> (Inr (Some s), m\<lparr>sg_sessions := dset (ss_session_id s) s (sg_sessions m)\<rparr>)
           | r \<Rightarrow> (r, m)))"

definition get_session :: "sso_world \<Rightarrow> string \<Rightarrow> sso_manager \<Rightarrow> sso_session option \<times> sso_manager" where
  "get_session w sid m =
     (case dget (sg_sessions m) sid of
        None \<Rightarrow> (None, m)
      | Some s \<Rightarrow>
          if \<not> is_session_valid (so_clock w 0) (ss_user s) then (None, m\<lparr>sg_sessions := ddel sid (sg_sessions m)\<rparr>)
          else (Some s, m))"

definition validate_session :: "sso_world \<Rightarrow> string \<Rightarrow> sso_manager \<Rightarrow> sso_user option result \<times> sso_manager" where
  "validate_session w sid m =
     (case get_session w sid m of
        (None, m1) \<Rightarrow> (Inr None, m1)
      | (Some s, m1) \<Rightarrow>
          let check = (\<lambda>s. if is_session_valid (so_clock w 3) (ss_user s) then Some (ss_user s) else None) in
          if \<not> is_token_valid (so_clock w 1) s \<and> j_truthy (ss_refresh_token s) then
            (case sg_provider m1 of
               None \<Rightarrow> (Inr (check s), m1)
             | Some p \<Rightarrow>
                 let (r, s1) = refresh_session w s p; m2 = m1\<lparr>sg_sessions := dset sid s1 (sg_sessions m1)\<rparr>
                 in (case r of Inl e \<Rightarrow> (Inl e, m2) | Inr _ \<Rightarrow> (Inr (check s1), m2)))
          else (Inr (check s), m1))"

definition manager_logout :: "string \<Rightarrow> sso_manager \<Rightarrow> bool result \<times> sso_manager" where
  "manager_logout sid m =
     (case dget (sg_sessions m) sid of
        None \<Rightarrow> (Inr True, m)
      | Some s \<Rightarrow>
          (case (case sg_provider m of None \<Rightarrow> Inr True | Some p \<Rightarrow> sso_logout s p) of
             Inl e \<Rightarrow> (Inl e, m)
           | Inr _ \<Rightarrow> (Inr True, m\<lparr>sg_sessions := ddel sid (sg_sessions m)\<rparr>)))"

text \<open>The module's own manager, created on first use or replaced by \<open>initialize_sso\<close>.\<close>

definition get_sso_manager :: "(string \<Rightarrow> string option) \<Rightarrow> sso_manager option \<Rightarrow> sso_manager" where
  "get_sso_manager env g = (case g of None \<Rightarrow> sso_manager_init env None | Some m \<Rightarrow> m)"

definition initialize_sso :: "(string \<Rightarrow> string option) \<Rightarrow> sso_world \<Rightarrow> sso_config option \<Rightarrow> bool \<times> sso_manager" where
  "initialize_sso env w config = manager_initialize w (sso_manager_init env config)"

datatype sso_op =
    SInit sso_world | SLogin sso_world "string option" | SCallback sso_world string string
  | SGet sso_world string | SValidate sso_world string | SLogout string

fun sso_step :: "sso_op \<Rightarrow> sso_manager \<Rightarrow> sso_manager" where
  "sso_step (SInit w) m = snd (manager_initialize w m)"
| "sso_step (SLogin w target) m = snd (get_login_url w target m)"
| "sso_step (SCallback w code state) m = snd (handle_callback w code state m)"
| "sso_step (SGet w sid) m = snd (get_session w sid m)"
| "sso_step (SValidate w sid) m = snd (validate_session w sid m)"
| "sso_step (SLogout sid) m = snd (manager_logout sid m)"

definition sso_run :: "(string \<Rightarrow> string option) \<Rightarrow> sso_config option \<Rightarrow> sso_op list \<Rightarrow> sso_manager" where
  "sso_run env config ops = fold sso_step ops (sso_manager_init env config)"

section \<open>What the manager needs of a provider\<close>

text \<open>
  A session that a provider grants ends one timeout after a reading of the clock, and a refresh changes neither
  the session's user, and with it the end of the session, nor its identifier.
\<close>

locale sso_contract =
  fixes exchange :: "sso_world \<Rightarrow> string \<Rightarrow> string \<Rightarrow> 'p \<Rightarrow> sso_session option result"
    and refresh :: "sso_world \<Rightarrow> sso_session \<Rightarrow> 'p \<Rightarrow> bool result \<times> sso_session"
    and config_of :: "'p \<Rightarrow> sso_config"
  assumes grant_ends: "exchange w code state p = Inr (Some s) \<Longrightarrow>
      \<exists>i. timeout_from (config_of p) (so_clock w i) = Inr (su_session_expires_at (ss_user s))"
    and refresh_user: "ss_user (snd (refresh w s p)) = ss_user s"
    and refresh_id: "ss_session_id (snd (refresh w s p)) = ss_session_id s"
begin

lemma refreshes_keep:
  "ss_user (fold (\<lambda>(w, p) s. snd (refresh w s p)) rs s) = ss_user s \<and>
   ss_session_id (fold (\<lambda>(w, p) s. snd (refresh w s p)) rs s) = ss_session_id s"
  by (induction rs arbitrary: s) (auto simp: refresh_user refresh_id)

lemma refreshed_grant_ends:
  assumes "exchange w code state p = Inr (Some s)"
  shows "\<exists>i. timeout_from (config_of p) (so_clock w i) =
    Inr (su_session_expires_at (ss_user (fold (\<lambda>(w, p) s. snd (refresh w s p)) rs s)))"
  using grant_ends [OF assms] refreshes_keep by simp

end

lemma parse_id_token_Some:
  assumes "parse_id_token w c id_token = Some u"
  shows "\<exists>token d aud ex. id_token = JStr token \<and> length (split_on (CHR ''.'') token) = 3 \<and>
    token_claims w token = Inr (JObj d) \<and> aud = (case dget d ''aud'' of Some x \<Rightarrow> x | None \<Rightarrow> JNull) \<and> audience_ok c aud \<and>
    ex = (case dget d ''exp'' of Some x \<Rightarrow> x | None \<Rightarrow> JInt 0) \<and> j_less ex (so_clock w 0) = Inr False \<and>
    timeout_from c (so_clock w 2) = Inr (su_session_expires_at u) \<and> su_raw_claims u = JObj d \<and> su_provider u = ''oidc'' \<and>
    su_user_id u = (case dget d ''sub'' of Some x \<Rightarrow> x | None \<Rightarrow> JStr [])"
proof -
  from assms obtain token where t: "id_token = JStr token" and l: "length (split_on (CHR ''.'') token) = 3"
    by (auto simp: parse_id_token_def split: json.splits if_splits)
  from assms t l show ?thesis
    by (auto simp: parse_id_token_def bindE_Inr_iff bindE_Inl_iff j_get_Inr split: sum.splits if_splits)
qed

lemma oidc_grant:
  assumes "oidc_exchange_code w code state p = Inr (Some s)"
  shows "oi_initialized p \<and> parse_id_token w (oi_config p) (ss_id_token s) = Some (ss_user s)"
  using assms
  by (auto simp: oidc_exchange_code_def session_from_tokens_def Let_def bindE_Inr_iff split: if_splits option.splits)

lemma saml_grant:
  assumes "process_saml_response w response relay p = Some s"
  shows "timeout_from (sm_config p) (so_clock w 1) = Inr (su_session_expires_at (ss_user s))"
  using assms
  by (auto simp: process_saml_response_def saml_user_def Let_def bindE_Inr_iff split: if_splits sum.splits option.splits)

lemma oidc_refresh_keeps:
  "ss_user (snd (oidc_refresh_session w s p)) = ss_user s" "ss_session_id (snd (oidc_refresh_session w s p)) = ss_session_id s"
  by (auto simp: oidc_refresh_session_def Let_def split: sum.splits json.splits)

interpretation oidc: sso_contract oidc_exchange_code oidc_refresh_session oi_config
proof
  fix w code state s and p :: oidc
  assume "oidc_exchange_code w code state p = Inr (Some s)"
  from parse_id_token_Some [OF conjunct2 [OF oidc_grant [OF this]]]
  show "\<exists>i. timeout_from (oi_config p) (so_clock w i) = Inr (su_session_expires_at (ss_user s))" by blast
qed (simp_all add: oidc_refresh_keeps)

interpretation saml: sso_contract saml_exchange_code saml_refresh_session sm_config
proof
  fix w code state s and p :: saml
  assume "saml_exchange_code w code state p = Inr (Some s)"
  then show "\<exists>i. timeout_from (sm_config p) (so_clock w i) = Inr (su_session_expires_at (ss_user s))"
    by (intro exI [of _ 1] saml_grant) (simp add: saml_exchange_code_def)
qed (simp_all add: saml_refresh_session_def)

interpretation backend: sso_contract exchange_code refresh_session backend_config
proof
  fix w code state s and p :: sso_backend
  assume "exchange_code w code state p = Inr (Some s)"
  then show "\<exists>i. timeout_from (backend_config p) (so_clock w i) = Inr (su_session_expires_at (ss_user s))"
    using oidc.grant_ends saml.grant_ends by (cases p) auto
next
  fix w s and p :: sso_backend
  show "ss_user (snd (refresh_session w s p)) = ss_user s" "ss_session_id (snd (refresh_session w s p)) = ss_session_id s"
    using oidc.refresh_user saml.refresh_user oidc.refresh_id saml.refresh_id by (cases p; simp)+
qed

section \<open>The manager as a table of users\<close>

text \<open>
  Seen from outside, the manager is a table from session identifiers to users: a callback enters what the
  provider grants, an inquiry drops the entry it finds expired, a logout removes its entry, and refreshed
  tokens are invisible. Only a logout with a provider whose discovery document is not an object fails.
\<close>

type_synonym session_table = "sso_config \<times> sso_backend option \<times> (string \<Rightarrow> sso_user option)"

definition table_of :: "sso_manager \<Rightarrow> session_table" where
  "table_of m = (sg_config m, sg_provider m, \<lambda>sid. map_option ss_user (dget (sg_sessions m) sid))"

definition drop_expired :: "pyfloat \<Rightarrow> string \<Rightarrow> (string \<Rightarrow> sso_user option) \<Rightarrow> string \<Rightarrow> sso_user option" where
  "drop_expired now sid f =
     (case f sid of None \<Rightarrow> f | Some u \<Rightarrow> if is_session_valid now u then f else f(sid := None))"

definition logout_works :: "sso_backend option \<Rightarrow> bool" where
  "logout_works p = (case p of Some (Oidc q) \<Rightarrow> (case oi_discovery_doc q of JObj d \<Rightarrow> True | _ \<Rightarrow> False) | _ \<Rightarrow> True)"

fun table_step :: "sso_op \<Rightarrow> session_table \<Rightarrow> session_table" where
  "table_step (SInit w) (c, p, f) = (c, sg_provider (snd (manager_initialize w \<lparr>sg_config = c, sg_provider = p, sg_sessions = []\<rparr>)), f)"
| "table_step (SLogin w target) (c, p, f) =
     (c, sg_provider (snd (get_login_url w target \<lparr>sg_config = c, sg_provider = p, sg_sessions = []\<rparr>)), f)"
| "table_step (SCallback w code state) (c, p, f) =
     (c, p, case p of
              None \<Rightarrow> f
            | Some b \<Rightarrow> (case exchange_code w code state b of Inr (Some s) \<Rightarrow> f(ss_session_id s \<mapsto> ss_user s) | _ \<Rightarrow> f))"
| "table_step (SGet w sid) (c, p, f) = (c, p, drop_expired (so_clock w 0) sid f)"
| "table_step (SValidate w sid) (c, p, f) = (c, p, drop_expired (so_clock w 0) sid f)"
| "table_step (SLogout sid) (c, p, f) = (c, p, if logout_works p then f(sid := None) else f)"

lemma logout_works_iff: "isl (case p of None \<Rightarrow> Inr True | Some b \<Rightarrow> sso_logout s b) \<longleftrightarrow> \<not> logout_works p"
  by (auto simp: logout_works_def oidc_logout_def saml_logout_def split: option.splits sso_backend.splits json.splits)

lemma get_session_cases:
  "get_session w sid m =
     (case dget (sg_sessions m) sid of
        None \<Rightarrow> (None, m)
      | Some s \<Rightarrow> if is_session_valid (so_clock w 0) (ss_user s) then (Some s, m) else (None, m\<lparr>sg_sessions := ddel sid (sg_sessions m)\<rparr>))"
  by (auto simp: get_session_def split: option.splits)

lemma table_initialize: "table_of (snd (manager_initialize w m)) = table_step (SInit w) (table_of m)"
  by (auto simp: table_of_def manager_initialize_def Let_def split: prod.splits sso_provider.splits)

lemma table_login: "table_of (snd (get_login_url w target m)) = table_step (SLogin w target) (table_of m)"
  by (auto simp: table_of_def get_login_url_def Let_def split: prod.splits option.splits)

lemma table_callback: "table_of (snd (handle_callback w code state m)) = table_step (SCallback w code state) (table_of m)"
  by (auto simp: table_of_def handle_callback_def fun_eq_iff split: option.splits sum.splits)

lemma table_get: "table_of (snd (get_session w sid m)) = table_step (SGet w sid) (table_of m)"
  by (auto simp: table_of_def get_session_def drop_expired_def fun_eq_iff split: option.splits)

lemma table_validate: "table_of (snd (validate_session w sid m)) = table_step (SValidate w sid) (table_of m)"
  using backend.refresh_user [of w]
  by (auto simp: table_of_def validate_session_def get_session_cases drop_expired_def fun_eq_iff Let_def
      split: option.splits prod.splits sum.splits dest!: arg_cong [where f = "\<lambda>x. ss_user (snd x)"])

lemma table_logout: "table_of (snd (manager_logout sid m)) = table_step (SLogout sid) (table_of m)"
proof (cases "dget (sg_sessions m) sid")
  case (Some s)
  show ?thesis using Some logout_works_iff [where p = "sg_provider m" and s = s]
    by (cases "case sg_provider m of None \<Rightarrow> Inr True | Some b \<Rightarrow> sso_logout s b")
       (auto simp: table_of_def manager_logout_def fun_eq_iff)
qed (auto simp: table_of_def manager_logout_def fun_eq_iff)

lemma table_of_step: "table_of (sso_step x m) = table_step x (table_of m)"
  by (cases x) (simp_all add: table_initialize table_login table_callback table_get table_validate table_logout del: table_step.simps)

interpretation sessions: refinement sso_step table_step table_of "\<lambda>x t. True" "\<lambda>m. True"
  by unfold_locales (simp_all add: table_of_step)

definition prov_ok :: "sso_manager \<Rightarrow> bool" where
  "prov_ok m \<longleftrightarrow> (\<forall>p. sg_provider m = Some p \<longrightarrow> backend_config p = sg_config m)"

lemma initialize_config:
  "backend_config (snd (sso_initialize w p)) = backend_config p"
  by (cases p) (auto simp: oidc_initialize_def saml_initialize_def Let_def split: sum.splits)

lemma authorization_config:
  "backend_config (snd (get_authorization_url w state nonce p)) = backend_config p"
  using initialize_config [of w p]
  by (cases p) (auto simp: oidc_authorization_url_def saml_authorization_url_def Let_def)

interpretation providers: machine sso_step prov_ok
proof
  fix x m
  assume ok: "prov_ok m"
  have t: "table_of (sso_step x m) = table_step x (table_of m)" by (rule table_of_step)
  show "prov_ok (sso_step x m)"
  proof (cases x)
    case (SInit w)
    have "backend_config (snd (sso_initialize w p)) = sg_config m" if "backend_config p = sg_config m" for p
      using that by (simp add: initialize_config)
    then show ?thesis using ok SInit
      by (auto simp: prov_ok_def manager_initialize_def oidc_init_def saml_init_def Let_def split: prod.splits sso_provider.splits
          dest!: arg_cong [where f = "\<lambda>x. backend_config (snd x)"] simp del: sso_initialize.simps)
  next
    case (SLogin w target)
    show ?thesis using ok SLogin authorization_config
      by (auto simp: prov_ok_def get_login_url_def Let_def split: prod.splits option.splits simp del: get_authorization_url.simps)
         (metis snd_conv)+
  qed (use ok t in \<open>auto simp: prov_ok_def table_of_def\<close>)
qed

section \<open>Who is signed on\<close>

lemma validate_answer:
  assumes "fst (validate_session w sid m) = Inr (Some u)"
  shows "\<exists>s. dget (sg_sessions m) sid = Some s \<and> ss_user s = u \<and>
    is_session_valid (so_clock w 0) u \<and> is_session_valid (so_clock w 3) u"
  using assms backend.refresh_user [of w]
  by (auto simp: validate_session_def get_session_cases Let_def split: option.splits prod.splits sum.splits if_splits
      dest!: arg_cong [where f = "\<lambda>x. ss_user (snd x)"])

definition signed_on :: "(string \<Rightarrow> string option) \<Rightarrow> sso_config option \<Rightarrow> sso_op list \<Rightarrow> string \<Rightarrow> sso_user \<Rightarrow> bool" where
  "signed_on env config ops sid u \<longleftrightarrow>
     (\<exists>pre w code state post s. ops = pre @ SCallback w code state # post \<and>
        fst (handle_callback w code state (sso_run env config pre)) = Inr (Some s) \<and> ss_session_id s = sid \<and> ss_user s = u \<and>
        (\<exists>i. timeout_from (sg_config (sso_manager_init env config)) (so_clock w i) = Inr (su_session_expires_at u)) \<and>
        (\<forall>mid rest. post = mid @ SLogout sid # rest \<longrightarrow>
           isl (fst (manager_logout sid (sso_run env config (pre @ SCallback w code state # mid))))))"

lemma table_run: "table_of (sso_run env config ops) = fold table_step ops (table_of (sso_manager_init env config))"
  using sessions.run_refines [where s = "sso_manager_init env config" and xs = ops] by (simp add: sso_run_def)

lemma run_config: "sg_config (sso_run env config ops) = sg_config (sso_manager_init env config)"
proof -
  have "fst (table_step x t) = fst t" for x t by (cases t; cases x) auto
  then have "fst (fold table_step ops t) = fst t" for t by (induction ops arbitrary: t) simp_all
  from this [of "table_of (sso_manager_init env config)"] table_run [of env config ops, symmetric]
  show ?thesis by (simp add: table_of_def)
qed

lemma run_prov_ok: "prov_ok (sso_run env config ops)"
  unfolding sso_run_def by (rule providers.run_inv) (simp add: prov_ok_def sso_manager_init_def)

lemma callback_grant:
  assumes "fst (handle_callback w code state (sso_run env config pre)) = Inr (Some s)"
  shows "\<exists>i. timeout_from (sg_config (sso_manager_init env config)) (so_clock w i) = Inr (su_session_expires_at (ss_user s))"
proof -
  from assms obtain p where "sg_provider (sso_run env config pre) = Some p" "exchange_code w code state p = Inr (Some s)"
    by (auto simp: handle_callback_def split: option.splits sum.splits)
  then show ?thesis using backend.grant_ends run_prov_ok [of env config pre] run_config [of env config pre]
    unfolding prov_ok_def by metis
qed

text \<open>An operation that is not the granting callback leaves an entry it keeps as it was.\<close>

lemma entry_before:
  assumes "dget (sg_sessions (sso_step x m)) sid = Some s" 
  shows "(\<exists>w code state g. x = SCallback w code state \<and> fst (handle_callback w code state m) = Inr (Some g) \<and>
      ss_session_id g = sid \<and> ss_user g = ss_user s) \<or>
    (\<exists>s0. dget (sg_sessions m) sid = Some s0 \<and> ss_user s0 = ss_user s) \<and> (x = SLogout sid \<longrightarrow> isl (fst (manager_logout sid m)))"
proof -
  have t: "snd (snd (table_step x (table_of m))) sid = Some (ss_user s)"
    using assms by (simp add: table_of_step [symmetric]) (simp add: table_of_def)
  show ?thesis
  proof (cases x)
    case (SCallback w code state)
    then show ?thesis using assms
      by (auto simp: handle_callback_def split: option.splits sum.splits if_splits)
  next
    case (SLogout sid')
    show ?thesis
    proof (cases "sid' = sid")
      case True
      with SLogout assms have "isl (fst (manager_logout sid m))" "dget (sg_sessions m) sid = Some s"
        by (auto simp: manager_logout_def split: option.splits sum.splits)
      then show ?thesis by simp
    qed (use t SLogout in \<open>auto simp: table_of_def split: if_splits\<close>)
  qed (use t in \<open>auto simp: table_of_def drop_expired_def split: option.splits if_splits\<close>)
qed

lemma entry_signed_on:
  "dget (sg_sessions (sso_run env config ops)) sid = Some s \<Longrightarrow> signed_on env config ops sid (ss_user s)"
proof (induction ops arbitrary: s rule: rev_induct)
  case Nil
  then show ?case by (simp add: sso_run_def sso_manager_init_def)
next
  case (snoc x ops)
  let ?m = "sso_run env config ops"
  from snoc.prems have "dget (sg_sessions (sso_step x ?m)) sid = Some s" by (simp add: sso_run_def)
  from entry_before [OF this] consider
      (grant) w code state g where "x = SCallback w code state" "fst (handle_callback w code state ?m) = Inr (Some g)"
        "ss_session_id g = sid" "ss_user g = ss_user s"
    | (kept) s0 where "dget (sg_sessions ?m) sid = Some s0" "ss_user s0 = ss_user s" "x = SLogout sid \<longrightarrow> isl (fst (manager_logout sid ?m))"
    by blast
  then show ?case
  proof cases
    case grant
    then show ?thesis unfolding signed_on_def using callback_grant [OF grant(2)]
      by (intro exI [of _ ops] exI [of _ w] exI [of _ code] exI [of _ state] exI [of _ "[]"] exI [of _ g]) simp
  next
    case kept
    from snoc.IH [OF kept(1)] obtain pre w code state post g where h: "ops = pre @ SCallback w code state # post"
        "fst (handle_callback w code state (sso_run env config pre)) = Inr (Some g)" "ss_session_id g = sid" "ss_user g = ss_user s"
      and i: "\<exists>i. timeout_from (sg_config (sso_manager_init env config)) (so_clock w i) = Inr (su_session_expires_at (ss_user s))"
      and q: "\<And>mid rest. post = mid @ SLogout sid # rest \<Longrightarrow>
           isl (fst (manager_logout sid (sso_run env config (pre @ SCallback w code state # mid))))"
      unfolding signed_on_def kept(2) by blast
    have "isl (fst (manager_logout sid (sso_run env config (pre @ SCallback w code state # mid))))"
      if "post @ [x] = mid @ SLogout sid # rest" for mid rest
      using that q [of mid] kept(3) h(1) by (cases rest rule: rev_cases) auto
    then show ?thesis unfolding signed_on_def using h i
      by (intro exI [of _ pre] exI [of _ w] exI [of _ code] exI [of _ state] exI [of _ "post @ [x]"] exI [of _ g]) simp
  qed
qed

text \<open>
  C36. Whenever a session is validated for a user, that session was granted to that user by an earlier callback
  under this identifier, the user's time ends one timeout after the clock of that callback however often the
  tokens were refreshed and has not ended yet, and every logout of the session since then raised.
\<close>

theorem validated_user_signed_on:
  assumes "fst (validate_session w sid (sso_run env config ops)) = Inr (Some u)"
  shows "signed_on env config ops sid u \<and>
    fl_lt (so_clock w 0) (su_session_expires_at u) \<and> fl_lt (so_clock w 3) (su_session_expires_at u)"
  using validate_answer [OF assms] entry_signed_on by (auto simp: is_session_valid_def)

definition demo_saml_response :: xml where
  "demo_saml_response = Elem ''Response'' [] None
     [Elem ''{urn:oasis:names:tc:SAML:2.0:protocol}StatusCode'' [(''Value'', ''urn:oasis:names:tc:SAML:2.0:status:Success'')] None [],
      Elem ''{urn:oasis:names:tc:SAML:2.0:assertion}Assertion'' [] None
        [Elem ''{urn:oasis:names:tc:SAML:2.0:assertion}NameID'' [] (Some ''ada'') []]]"

definition demo_sso_world :: sso_world where
  "demo_sso_world = \<lparr>so_clock = \<lambda>i. Fin 1000, so_urandom = \<lambda>i. [], so_utc_text = [], so_fetch = \<lambda>i r. Inl OSError,
     so_fetch_xml = \<lambda>u. Inr (Elem ''EntityDescriptor'' [] None []), so_loads = \<lambda>b. Inl JSONDecodeError,
     so_parse_xml = \<lambda>b. Inr demo_saml_response, so_repr = \<lambda>j. [], so_float_text = \<lambda>t. [], so_sha256 = \<lambda>b. [7],
     so_deflate = \<lambda>b. b\<rparr>"

definition demo_sso_config :: sso_config where
  "demo_sso_config = (load_config_from_env (\<lambda>k. None))\<lparr>sc_provider := SAML, sc_enabled := True, sc_saml_metadata_url := Some ''m''\<rparr>"

definition demo_sso_user :: sso_user where
  "demo_sso_user = \<lparr>su_user_id = JStr ''ada'', su_email = JStr ''ada'', su_name = JStr [], su_given_name = JNull,
     su_family_name = JNull, su_groups = JArr [], su_roles = JArr [], su_provider = ''saml'', su_raw_claims = JObj [],
     su_authenticated_at = Fin 1000, su_session_expires_at = Fin 29800\<rparr>"

lemma demo_saml_user: "saml_user demo_sso_world demo_sso_config
    (Elem ''{urn:oasis:names:tc:SAML:2.0:assertion}Assertion'' [] None
      [Elem ''{urn:oasis:names:tc:SAML:2.0:assertion}NameID'' [] (Some ''ada'') []]) = Inr demo_sso_user"
proof -
  have "timeout_from demo_sso_config (Fin 1000) = Inr (Fin 29800)"
    using fl_of_int_exact [of 28800] fl_add_ints [of 1000 28800]
    by (simp add: timeout_from_def demo_sso_config_def load_config_from_env_def Let_def)
  then show ?thesis
    by (simp add: saml_user_def Let_def find_below_def saml_attributes_def findall_below_def given_def opt_text_def
        demo_sso_user_def demo_sso_world_def)
qed

lemma demo_sso_validated:
  "fst (validate_session demo_sso_world ''07'' (sso_run (\<lambda>k. None) (Some demo_sso_config)
     [SInit demo_sso_world, SCallback demo_sso_world [] []])) = Inr (Some demo_sso_user)"
proof -
  let ?w = demo_sso_world
  let ?p = "\<lparr>sm_config = demo_sso_config, sm_initialized = True, sm_idp_metadata = [(''entity_id'', None)]\<rparr>"
  have "saml_initialize ?w (saml_init demo_sso_config) = (True, ?p)"
    by (simp add: saml_initialize_def saml_init_def given_def demo_sso_config_def demo_sso_world_def find_below_def Let_def)
  then have i: "sso_step (SInit ?w) (sso_manager_init (\<lambda>k. None) (Some demo_sso_config)) =
      \<lparr>sg_config = demo_sso_config, sg_provider = Some (Saml ?p), sg_sessions = []\<rparr>"
    by (simp add: manager_initialize_def sso_manager_init_def) (simp add: demo_sso_config_def)
  have "bindE (b64decode []) (so_parse_xml ?w) = Inr demo_saml_response" by (simp add: b64decode_def demo_sso_world_def)
  moreover have "Text.hex_digit 0 = CHR ''0''" "Text.hex_digit 7 = CHR ''7''" by code_simp+
  then have "new_session_id ?w (JStr ''ada'') t = ''07''" for t
    by (simp add: new_session_id_def demo_sso_world_def hex_of_bytes_def)
  ultimately have "process_saml_response ?w [] [] ?p = Some \<lparr>ss_session_id = ''07'', ss_user = demo_sso_user,
      ss_access_token = JStr [], ss_refresh_token = JNull, ss_id_token = JNull, ss_token_expires_at = Fin 29800, ss_created_at = Fin 1000\<rparr>"
    using demo_saml_user
    by (simp add: process_saml_response_def demo_saml_response_def find_below_def dget_Cons)
       (simp add: demo_sso_user_def demo_sso_world_def)
  then show ?thesis using i
    by (simp add: sso_run_def handle_callback_def saml_exchange_code_def validate_session_def get_session_def dget_Cons
        is_session_valid_def is_token_valid_def demo_sso_user_def demo_sso_world_def)
qed

theorem validated_user_signed_on_witness:
  "signed_on (\<lambda>k. None) (Some demo_sso_config) [SInit demo_sso_world, SCallback demo_sso_world [] []] ''07'' demo_sso_user \<and>
   fl_lt (so_clock demo_sso_world 0) (su_session_expires_at demo_sso_user) \<and>
   fl_lt (so_clock demo_sso_world 3) (su_session_expires_at demo_sso_user)"
  by (rule validated_user_signed_on [OF demo_sso_validated])

text \<open>
  The table of users is all a client can see: any sequence of operations of the manager moves its
  table as the specification \<open>table_step\<close> says, token refreshes included.
\<close>

theorem manager_refines_table:
  "table_of (sso_run env config ops) = fold table_step ops (table_of (sso_manager_init env config))"
  by (rule table_run)

text \<open>
  An ID token gives a user exactly when it has three parts, its middle part decodes to an object whose
  audience is or contains the client, its expiry has not passed, and the session's end can be computed: neither
  the signature nor the issuer matters.
\<close>

theorem id_token_accepted_iff:
  "(\<exists>u. parse_id_token w c id_token = Some u) \<longleftrightarrow>
   (\<exists>token d ends. id_token = JStr token \<and> length (split_on (CHR ''.'') token) = 3 \<and> token_claims w token = Inr (JObj d) \<and>
      audience_ok c (case dget d ''aud'' of Some x \<Rightarrow> x | None \<Rightarrow> JNull) \<and>
      j_less (case dget d ''exp'' of Some x \<Rightarrow> x | None \<Rightarrow> JInt 0) (so_clock w 0) = Inr False \<and>
      timeout_from c (so_clock w 2) = Inr ends)"
  (is "?l = ?r")
proof
  assume ?l
  then show ?r using parse_id_token_Some by blast
next
  assume ?r
  then show ?l by (auto simp: parse_id_token_def)
qed

lemma urlsafe_no_dot:
  assumes "\<forall>b \<in> set bs. b < 256"
  shows "CHR ''.'' \<notin> set (rstrip_char (CHR ''='') (urlsafe_b64encode bs))"
proof -
  have "to_urlsafe (b64_char d) \<noteq> CHR ''.''" if "d < 64" for d
  proof
    assume "to_urlsafe (b64_char d) = CHR ''.''"
    then have "b64_char d = CHR ''.''" by (auto simp: to_urlsafe_def split: if_splits)
    moreover have "b64_val (CHR ''.'') = None" by (simp add: b64_val_def)
    ultimately show False using b64_val_char [OF that] by simp
  qed
  then show ?thesis using b64digits_less [OF assms] by (force simp: urlsafe_digits [OF assms])
qed

text \<open>
  A token whose middle part is the URL-safe Base64 text of some bytes without its padding, as issuers
  write it, has the claims these bytes denote, whatever their number and whatever header and signature surround
  them.
\<close>

theorem unpadded_payload_is_read:
  assumes "\<forall>b \<in> set bs. b < 256" and "CHR ''.'' \<notin> set header" and "CHR ''.'' \<notin> set signature"
  shows "length (split_on (CHR ''.'') (header @ ''.'' @ rstrip_char (CHR ''='') (urlsafe_b64encode bs) @ ''.'' @ signature)) = 3 \<and>
    token_claims w (header @ ''.'' @ rstrip_char (CHR ''='') (urlsafe_b64encode bs) @ ''.'' @ signature) = so_loads w bs"
  using urlsafe_b64_padded [OF assms(1) refl] urlsafe_no_dot [OF assms(1)] assms(2,3)
  by (simp add: token_claims_def split_on_free split_on_none)

theorem unpadded_payload_is_read_witness:
  "(\<forall>b \<in> set [123, 125 :: nat]. b < 256) \<and>
   token_claims demo_sso_world (''h'' @ ''.'' @ rstrip_char (CHR ''='') (urlsafe_b64encode [123, 125]) @ ''.'' @ ''s'') = Inl JSONDecodeError"
  using unpadded_payload_is_read [of "[123, 125]" "''h''" "''s''" demo_sso_world] by (simp add: demo_sso_world_def)

text \<open>What the sign-on does not look at: the state a callback carries, and the signature of a token.\<close>

lemma callback_ignores_state: "handle_callback w code state m = handle_callback w code state' m"
proof -
  have "exchange_code w code state p = exchange_code w code state' p" for p
    by (cases p) (simp_all add: oidc_exchange_code_def saml_exchange_code_def process_saml_response_def)
  from this [of "the (sg_provider m)"] show ?thesis by (cases "sg_provider m") (simp_all add: handle_callback_def)
qed

lemma signature_ignored:
  assumes "CHR ''.'' \<notin> set header" "CHR ''.'' \<notin> set payload" "CHR ''.'' \<notin> set s" "CHR ''.'' \<notin> set t"
  shows "parse_id_token w c (JStr (header @ ''.'' @ payload @ ''.'' @ s)) = parse_id_token w c (JStr (header @ ''.'' @ payload @ ''.'' @ t))"
  using assms by (simp add: parse_id_token_def token_claims_def split_on_free split_on_none)

end
