(* ===== verification/Sla.thy ===== *)
theory Sla
  imports Format
begin

text \<open>
  Service levels, \<^verbatim>\<open>infrastructure/sla.py\<close>: health checks and their probes, the circuit breaker, the monitor of
  error budgets and the degradation levels. The clock and what a called function answers are arguments; a
  function answers with a value or with an exception. The breaker's operations take its lock, so an
  interleaving of threads is a sequence of them.
\<close>

section \<open>Health checks\<close>

datatype health_status = HEALTHY | DEGRADED | UNHEALTHY | UNKNOWN

record health_result =
  hr_name :: string
  hr_status :: health_status
  hr_message :: string
  hr_latency_ms :: pyfloat
  hr_checks :: "string list option"
  hr_timestamp :: pyfloat

definition is_healthy :: "health_result \<Rightarrow> bool" where
  "is_healthy r = (hr_status r = HEALTHY)"

text \<open>The two checks of the module and those a client derives from the base class.\<close>

datatype check_kind = DatabaseCheck bool | DependencyCheck | OtherCheck

record health_check =
  hc_name :: string
  hc_critical :: bool
  hc_kind :: check_kind

text \<open>One run of a check: the clock before and after, and the answer of its function or of a derived \<open>check\<close>.\<close>

record attempt =
  at_start :: pyfloat
  at_end :: pyfloat
  at_stamp :: pyfloat
  at_func :: "string + bool"
  at_other :: "string + health_result"

definition elapsed_ms :: "pyfloat \<Rightarrow> pyfloat \<Rightarrow> pyfloat" where
  "elapsed_ms start now = fl_mul (fl_sub now start) (Fin 1000)"

definition mk_health :: "attempt \<Rightarrow> string \<Rightarrow> health_status \<Rightarrow> string \<Rightarrow> health_result" where
  "mk_health a n st msg = \<lparr>hr_name = n, hr_status = st, hr_message = msg, hr_latency_ms = elapsed_ms (at_start a) (at_end a),
     hr_checks = None, hr_timestamp = at_stamp a\<rparr>"

definition database_check :: "attempt \<Rightarrow> string \<Rightarrow> bool \<Rightarrow> health_result" where
  "database_check a n has_func =
     (case (if has_func then at_func a else Inr True) of
        Inr True \<Rightarrow> mk_health a n HEALTHY ''Database connection OK''
      | Inr False \<Rightarrow> mk_health a n UNHEALTHY ''Database check failed''
      | Inl e \<Rightarrow> mk_health a n UNHEALTHY (''Database error: '' @ e))"

definition dependency_check :: "attempt \<Rightarrow> string \<Rightarrow> health_result" where
  "dependency_check a n =
     (case at_func a of
        Inr True \<Rightarrow> mk_health a n HEALTHY (n @ '' OK'')
      | Inr False \<Rightarrow> mk_health a n DEGRADED (n @ '' degraded'')
      | Inl e \<Rightarrow> mk_health a n DEGRADED (n @ '' error: '' @ e))"

definition run_check :: "attempt \<Rightarrow> health_check \<Rightarrow> string + health_result" where
  "run_check a c =
     (case hc_kind c of
        DatabaseCheck f \<Rightarrow> Inr (database_check a (hc_name c) f)
      | DependencyCheck \<Rightarrow> Inr (dependency_check a (hc_name c))
      | OtherCheck \<Rightarrow> at_other a)"

definition determine_status :: "health_check \<Rightarrow> health_result \<Rightarrow> health_status \<Rightarrow> string option \<times> health_status" where
  "determine_status c r current =
     (if hr_status r = UNHEALTHY then
        (let msg = Some (hc_name c @ '': '' @ hr_message r) in
         if hc_critical c then (msg, UNHEALTHY)
         else if current \<noteq> UNHEALTHY then (msg, DEGRADED)
         else (msg, current))
      else if hr_status r = DEGRADED then
        (let msg = Some (hc_name c @ '': degraded'') in
         if current = HEALTHY then (msg, DEGRADED) else (msg, current))
      else (None, current))"

definition execute_single_check ::
    "attempt \<Rightarrow> health_check \<Rightarrow> health_status \<Rightarrow> health_result option \<times> string option \<times> health_status" where
  "execute_single_check a c current =
     (case run_check a c of
        Inr r \<Rightarrow> (Some r, determine_status c r current)
      | Inl e \<Rightarrow> (None, Some (hc_name c @ '': error - '' @ e), if hc_critical c then UNHEALTHY else current))"

text \<open>The loop of \<open>_run_checks\<close>: names of the results, messages that are not empty, and the status.\<close>

fun check_loop :: "(attempt \<times> health_check) list \<Rightarrow> string list \<Rightarrow> string list \<Rightarrow> health_status \<Rightarrow> string list \<times> string list \<times> health_status" where
  "check_loop [] names msgs st = (names, msgs, st)"
| "check_loop ((a, c) # cs) names msgs st =
     (let (r, msg, st1) = execute_single_check a c st in
      check_loop cs
        (case r of None \<Rightarrow> names | Some h \<Rightarrow> names @ [hr_name h])
        (case msg of None \<Rightarrow> msgs | Some t \<Rightarrow> if t = [] then msgs else msgs @ [t])
        st1)"

definition run_checks :: "pyfloat \<Rightarrow> pyfloat \<Rightarrow> pyfloat \<Rightarrow> string \<Rightarrow> (attempt \<times> health_check) list \<Rightarrow> health_result" where
  "run_checks start now stamp probe cs =
     (if cs = [] then \<lparr>hr_name = probe, hr_status = HEALTHY, hr_message = ''No '' @ probe @ '' checks registered'',
        hr_latency_ms = Fin 0, hr_checks = None, hr_timestamp = stamp\<rparr>
      else
        let (names, msgs, st) = check_loop cs [] [] HEALTHY in
        \<lparr>hr_name = probe, hr_status = st, hr_message = (if msgs \<noteq> [] then join_with ''; '' msgs else ''All checks passed''),
         hr_latency_ms = elapsed_ms start now, hr_checks = Some names, hr_timestamp = stamp\<rparr>)"

record health_registry =
  hg_liveness :: "health_check list"
  hg_readiness :: "health_check list"
  hg_startup :: "health_check list"

definition register_liveness :: "health_check \<Rightarrow> health_registry \<Rightarrow> health_registry" where
  "register_liveness c g = g\<lparr>hg_liveness := hg_liveness g @ [c]\<rparr>"

definition register_readiness :: "health_check \<Rightarrow> health_registry \<Rightarrow> health_registry" where
  "register_readiness c g = g\<lparr>hg_readiness := hg_readiness g @ [c]\<rparr>"

definition register_startup :: "health_check \<Rightarrow> health_registry \<Rightarrow> health_registry" where
  "register_startup c g = g\<lparr>hg_startup := hg_startup g @ [c]\<rparr>"

text \<open>The attempts are given by the position of the check.\<close>

record probe_run =
  pr_start :: pyfloat
  pr_now :: pyfloat
  pr_stamp :: pyfloat
  pr_attempts :: "nat \<Rightarrow> attempt"

definition run_probe :: "probe_run \<Rightarrow> string \<Rightarrow> health_check list \<Rightarrow> health_result" where
  "run_probe p n cs = run_checks (pr_start p) (pr_now p) (pr_stamp p) n (zip (map (pr_attempts p) [0..<length cs]) cs)"

definition check_liveness :: "probe_run \<Rightarrow> health_registry \<Rightarrow> health_result" where
  "check_liveness p g = run_probe p ''liveness'' (hg_liveness g)"

definition check_readiness :: "probe_run \<Rightarrow> health_registry \<Rightarrow> health_result" where
  "check_readiness p g = run_probe p ''readiness'' (hg_readiness g)"

definition check_startup :: "probe_run \<Rightarrow> health_registry \<Rightarrow> health_result" where
  "check_startup p g = run_probe p ''startup'' (hg_startup g)"

section \<open>The circuit breaker\<close>

datatype circuit_state = CLOSED | OPEN | HALF_OPEN

record breaker =
  cb_name :: string
  cb_failure_threshold :: int
  cb_recovery_timeout :: pyfloat
  cb_half_open_max_calls :: int
  cb_state :: circuit_state
  cb_failure_count :: int
  cb_success_count :: int
  cb_half_open_calls :: int
  cb_last_failure_time :: "pyfloat option"

definition breaker_init :: "string \<Rightarrow> int \<Rightarrow> pyfloat \<Rightarrow> int \<Rightarrow> breaker" where
  "breaker_init n threshold timeout max_calls =
     \<lparr>cb_name = n, cb_failure_threshold = threshold, cb_recovery_timeout = timeout, cb_half_open_max_calls = max_calls,
      cb_state = CLOSED, cb_failure_count = 0, cb_success_count = 0, cb_half_open_calls = 0, cb_last_failure_time = None\<rparr>"

text \<open>A failure at time zero counts as no failure time.\<close>

definition check_recovery :: "pyfloat \<Rightarrow> breaker \<Rightarrow> breaker" where
  "check_recovery now cb =
     (case cb_last_failure_time cb of
        None \<Rightarrow> cb
      | Some t \<Rightarrow>
          if cb_state cb = OPEN \<and> t \<noteq> Fin 0 \<and> fl_le (cb_recovery_timeout cb) (fl_sub now t)
          then cb\<lparr>cb_state := HALF_OPEN, cb_half_open_calls := 0\<rparr> else cb)"

definition circuit_state_of :: "pyfloat \<Rightarrow> breaker \<Rightarrow> circuit_state \<times> breaker" where
  "circuit_state_of now cb = (let cb1 = check_recovery now cb in (cb_state cb1, cb1))"

definition record_success :: "breaker \<Rightarrow> breaker" where
  "record_success cb =
     (case cb_state cb of
        HALF_OPEN \<Rightarrow>
          let cb1 = cb\<lparr>cb_success_count := cb_success_count cb + 1, cb_half_open_calls := cb_half_open_calls cb + 1\<rparr> in
          if cb_half_open_max_calls cb \<le> cb_success_count cb1
          then cb1\<lparr>cb_state := CLOSED, cb_failure_count := 0, cb_success_count := 0\<rparr> else cb1
      | CLOSED \<Rightarrow> cb\<lparr>cb_failure_count := max 0 (cb_failure_count cb - 1)\<rparr>
      | OPEN \<Rightarrow> cb)"

definition record_failure :: "pyfloat \<Rightarrow> breaker \<Rightarrow> breaker" where
  "record_failure now cb0 =
     (let cb = cb0\<lparr>cb_failure_count := cb_failure_count cb0 + 1, cb_last_failure_time := Some now\<rparr> in
      case cb_state cb of
        HALF_OPEN \<Rightarrow> cb\<lparr>cb_state := OPEN, cb_success_count := 0\<rparr>
      | CLOSED \<Rightarrow> if cb_failure_threshold cb \<le> cb_failure_count cb then cb\<lparr>cb_state := OPEN\<rparr> else cb
      | OPEN \<Rightarrow> cb)"

definition allow_request :: "pyfloat \<Rightarrow> breaker \<Rightarrow> bool \<times> breaker" where
  "allow_request now cb =
     (let (st, cb1) = circuit_state_of now cb in
      case st of
        CLOSED \<Rightarrow> (True, cb1)
      | HALF_OPEN \<Rightarrow> (cb_half_open_calls cb1 < cb_half_open_max_calls cb1, cb1)
      | OPEN \<Rightarrow> (False, cb1))"

datatype 'e call_error = CircuitOpenError | Raised 'e

text \<open>
  One guarded call: the clock when it is asked for and when a failure is recorded, the answer the function would
  give, the answer of the fallback if there is one. The first component says whether the function was called.
\<close>

definition execute ::
    "pyfloat \<Rightarrow> pyfloat \<Rightarrow> 'e + 'r \<Rightarrow> ('e + 'r) option \<Rightarrow> breaker \<Rightarrow> bool \<times> ('e call_error + 'r) \<times> breaker" where
  "execute now later func fallback cb =
     (let (ok, cb1) = allow_request now cb;
          use = (\<lambda>a. case a of Inl e \<Rightarrow> Inl (Raised e) | Inr r \<Rightarrow> Inr r)
      in if \<not> ok then (False, (case fallback of Some a \<Rightarrow> use a | None \<Rightarrow> Inl CircuitOpenError), cb1)
         else case func of
                Inr r \<Rightarrow> (True, Inr r, record_success cb1)
              | Inl e \<Rightarrow> (True, (case fallback of Some a \<Rightarrow> use a | None \<Rightarrow> Inl (Raised e)), record_failure later cb1))"

record breaker_status =
  bs_name :: string
  bs_state :: circuit_state
  bs_failure_count :: int
  bs_failure_threshold :: int
  bs_recovery_timeout :: pyfloat

definition breaker_to_dict :: "pyfloat \<Rightarrow> breaker \<Rightarrow> breaker_status \<times> breaker" where
  "breaker_to_dict now cb =
     (let (st, cb1) = circuit_state_of now cb in
      (\<lparr>bs_name = cb_name cb1, bs_state = st, bs_failure_count = cb_failure_count cb1,
        bs_failure_threshold = cb_failure_threshold cb1, bs_recovery_timeout = cb_recovery_timeout cb1\<rparr>, cb1))"

section \<open>Metrics and the monitor\<close>

record sla_config =
  sl_target_uptime :: pyfloat
  sl_target_latency_p99_ms :: pyfloat
  sl_target_error_rate :: pyfloat
  sl_error_budget_window_hours :: int
  sl_error_budget_alert_threshold :: pyfloat
  sl_health_check_interval_seconds :: pyfloat
  sl_health_check_timeout_seconds :: pyfloat
  sl_circuit_failure_threshold :: int
  sl_circuit_recovery_timeout_seconds :: pyfloat
  sl_circuit_half_open_max_calls :: int

definition sla_config_default :: sla_config where
  "sla_config_default = \<lparr>sl_target_uptime = fl_of_rat (999 / 10), sl_target_latency_p99_ms = Fin 200,
     sl_target_error_rate = fl_of_rat (1 / 10), sl_error_budget_window_hours = 720, sl_error_budget_alert_threshold = Fin 50,
     sl_health_check_interval_seconds = Fin 10, sl_health_check_timeout_seconds = Fin 5, sl_circuit_failure_threshold = 5,
     sl_circuit_recovery_timeout_seconds = Fin 30, sl_circuit_half_open_max_calls = 3\<rparr>"

record sla_metrics =
  mt_total_requests :: nat
  mt_successful_requests :: nat
  mt_failed_requests :: nat
  mt_total_latency_ms :: pyfloat
  mt_max_latency_ms :: pyfloat
  mt_window_start :: pyfloat
  mt_error_budget_consumed :: pyfloat
  mt_uptime_percentage :: pyfloat

definition sla_metrics_init :: "pyfloat \<Rightarrow> sla_metrics" where
  "sla_metrics_init now = \<lparr>mt_total_requests = 0, mt_successful_requests = 0, mt_failed_requests = 0, mt_total_latency_ms = Fin 0,
     mt_max_latency_ms = Fin 0, mt_window_start = now, mt_error_budget_consumed = Fin 0, mt_uptime_percentage = Fin 100\<rparr>"

definition error_rate :: "sla_metrics \<Rightarrow> pyfloat" where
  "error_rate m =
     (if mt_total_requests m = 0 then Fin 0 else fl_mul (int_ratio (mt_failed_requests m) (mt_total_requests m)) (Fin 100))"

text \<open>A float divided by a positive counter: the counter is converted first.\<close>

definition average_latency_ms :: "sla_metrics \<Rightarrow> pyfloat result" where
  "average_latency_ms m =
     (if mt_successful_requests m = 0 then Inr (Fin 0)
      else bindE (fl_of_int (int (mt_successful_requests m))) (\<lambda>n. fl_div (mt_total_latency_ms m) n))"

definition metrics_record_request :: "bool \<Rightarrow> pyfloat \<Rightarrow> sla_metrics \<Rightarrow> sla_metrics" where
  "metrics_record_request success latency_ms m0 =
     (let m = m0\<lparr>mt_total_requests := mt_total_requests m0 + 1\<rparr> in
      if success then
        m\<lparr>mt_successful_requests := mt_successful_requests m + 1,
          mt_total_latency_ms := fl_add (mt_total_latency_ms m) latency_ms,
          mt_max_latency_ms := (if fl_lt (mt_max_latency_ms m) latency_ms then latency_ms else mt_max_latency_ms m)\<rparr>
      else m\<lparr>mt_failed_requests := mt_failed_requests m + 1\<rparr>)"

record sla_alert =
  al_type :: string
  al_message :: string
  al_severity :: string

record sla_monitor =
  mo_config :: sla_config
  mo_metrics :: sla_metrics
  mo_circuit_breakers :: "(string, breaker) dict"
  mo_health_registry :: health_registry
  mo_alert_callbacks :: nat

definition sla_monitor_init :: "pyfloat \<Rightarrow> sla_config \<Rightarrow> sla_monitor" where
  "sla_monitor_init now c = \<lparr>mo_config = c, mo_metrics = sla_metrics_init now, mo_circuit_breakers = [],
     mo_health_registry = \<lparr>hg_liveness = [], hg_readiness = [], hg_startup = []\<rparr>, mo_alert_callbacks = 0\<rparr>"

definition register_circuit_breaker :: "breaker \<Rightarrow> sla_monitor \<Rightarrow> sla_monitor" where
  "register_circuit_breaker cb m = m\<lparr>mo_circuit_breakers := dset (cb_name cb) cb (mo_circuit_breakers m)\<rparr>"

definition get_circuit_breaker :: "string \<Rightarrow> sla_monitor \<Rightarrow> breaker option" where
  "get_circuit_breaker n m = dget (mo_circuit_breakers m) n"

definition create_circuit_breaker :: "string \<Rightarrow> sla_monitor \<Rightarrow> breaker \<times> sla_monitor" where
  "create_circuit_breaker n m =
     (let c = mo_config m;
          cb = breaker_init n (sl_circuit_failure_threshold c) (sl_circuit_recovery_timeout_seconds c) (sl_circuit_half_open_max_calls c)
      in (cb, register_circuit_breaker cb m))"

definition update_error_budget :: "sla_config \<Rightarrow> sla_metrics \<Rightarrow> sla_metrics result" where
  "update_error_budget c m =
     (let allowed = fl_sub (Fin 100) (sl_target_uptime c); current = error_rate m
      in bindE (if fl_lt (Fin 0) allowed then bindE (fl_div current allowed) (\<lambda>q. Inr (fl_mul q (Fin 100))) else Inr (Fin 0)) (\<lambda>consumed.
         let m1 = m\<lparr>mt_error_budget_consumed := consumed\<rparr>
         in Inr (if mt_total_requests m > 0
              then m1\<lparr>mt_uptime_percentage := fl_mul (int_ratio (mt_successful_requests m) (mt_total_requests m)) (Fin 100)\<rparr>
              else m1)))"

definition check_alerts :: "sla_config \<Rightarrow> sla_metrics \<Rightarrow> sla_alert list result" where
  "check_alerts c m =
     bindE (average_latency_ms m) (\<lambda>avg.
     Inr ((if fl_le (sl_error_budget_alert_threshold c) (mt_error_budget_consumed m)
           then [\<lparr>al_type = ''error_budget'', al_message = ''Error budget '' @ fmt_fixed 1 (mt_error_budget_consumed m) @ ''% consumed'',
                  al_severity = ''warning''\<rparr>] else []) @
          (if fl_lt (sl_target_error_rate c) (error_rate m)
           then [\<lparr>al_type = ''error_rate'', al_message = ''Error rate '' @ fmt_fixed 2 (error_rate m) @ ''% exceeds target'',
                  al_severity = ''critical''\<rparr>] else []) @
          (if fl_lt (sl_target_latency_p99_ms c) avg
           then [\<lparr>al_type = ''latency'', al_message = ''Average latency '' @ fmt_fixed 1 avg @ ''ms exceeds target'',
                  al_severity = ''warning''\<rparr>] else [])))"

text \<open>
  Recording answers with the calls of the alert callbacks, by their number, in order; what a callback does or
  raises is of no consequence here.
\<close>

definition record_request :: "bool \<Rightarrow> pyfloat \<Rightarrow> sla_monitor \<Rightarrow> (nat \<times> sla_alert) list result \<times> sla_monitor" where
  "record_request success latency_ms m =
     (let m1 = m\<lparr>mo_metrics := metrics_record_request success latency_ms (mo_metrics m)\<rparr> in
      case update_error_budget (mo_config m1) (mo_metrics m1) of
        Inl e \<Rightarrow> (Inl e, m1)
      | Inr mt \<Rightarrow>
          let m2 = m1\<lparr>mo_metrics := mt\<rparr> in
          (bindE (check_alerts (mo_config m2) mt)
             (\<lambda>alerts. Inr (concat (map (\<lambda>a. map (\<lambda>i. (i, a)) [0..<mo_alert_callbacks m2]) alerts))), m2))"

definition register_alert_callback :: "sla_monitor \<Rightarrow> sla_monitor" where
  "register_alert_callback m = m\<lparr>mo_alert_callbacks := mo_alert_callbacks m + 1\<rparr>"

definition reset_metrics :: "pyfloat \<Rightarrow> sla_monitor \<Rightarrow> sla_monitor" where
  "reset_metrics now m = m\<lparr>mo_metrics := sla_metrics_init now\<rparr>"

record sla_status =
  st_liveness :: "health_status \<times> string"
  st_readiness :: "health_status \<times> string"
  st_error_rate :: pyfloat
  st_average_latency_ms :: pyfloat
  st_circuit_breakers :: "(string, breaker_status) dict"
  st_consumed_percent :: pyfloat
  st_remaining_percent :: pyfloat
  st_alert_threshold :: pyfloat

text \<open>The counters, targets and thresholds that the report copies are left out. \<open>max(0, x)\<close> is zero unless \<open>x\<close> is larger. Reading the breakers' states may move them.\<close>

definition sla_get_status :: "probe_run \<Rightarrow> probe_run \<Rightarrow> (string \<Rightarrow> pyfloat) \<Rightarrow> sla_monitor \<Rightarrow> sla_status result \<times> sla_monitor" where
  "sla_get_status live ready clock m =
     (let l = check_liveness live (mo_health_registry m); r = check_readiness ready (mo_health_registry m);
          mt = mo_metrics m; rest = fl_sub (Fin 100) (mt_error_budget_consumed mt)
      in case average_latency_ms mt of
           Inl e \<Rightarrow> (Inl e, m)
         | Inr avg \<Rightarrow>
             (Inr \<lparr>st_liveness = (hr_status l, hr_message l), st_readiness = (hr_status r, hr_message r),
                st_error_rate = error_rate mt, st_average_latency_ms = avg,
                st_circuit_breakers = map (\<lambda>(n, cb). (n, fst (breaker_to_dict (clock n) cb))) (mo_circuit_breakers m),
                st_consumed_percent = mt_error_budget_consumed mt,
                st_remaining_percent = (if fl_lt (Fin 0) rest then rest else Fin 0),
                st_alert_threshold = sl_error_budget_alert_threshold (mo_config m)\<rparr>,
              m\<lparr>mo_circuit_breakers := map (\<lambda>(n, cb). (n, snd (breaker_to_dict (clock n) cb))) (mo_circuit_breakers m)\<rparr>))"

text \<open>The module's monitor and the two decorators over it.\<close>

definition get_sla_monitor :: "pyfloat \<Rightarrow> sla_monitor option \<Rightarrow> sla_monitor" where
  "get_sla_monitor now g = (case g of None \<Rightarrow> sla_monitor_init now sla_config_default | Some m \<Rightarrow> m)"

definition initialize_sla :: "pyfloat \<Rightarrow> sla_config option \<Rightarrow> sla_monitor" where
  "initialize_sla now c = sla_monitor_init now (case c of None \<Rightarrow> sla_config_default | Some x \<Rightarrow> x)"

definition with_circuit_breaker ::
    "pyfloat \<Rightarrow> pyfloat \<Rightarrow> string \<Rightarrow> 'e + 'r \<Rightarrow> ('e + 'r) option \<Rightarrow> sla_monitor \<Rightarrow> bool \<times> ('e call_error + 'r) \<times> sla_monitor" where
  "with_circuit_breaker now later n func fallback m =
     (let (cb, m1) = (case get_circuit_breaker n m of Some cb \<Rightarrow> (cb, m) | None \<Rightarrow> create_circuit_breaker n m);
          (called, r, cb1) = execute now later func fallback cb
      in (called, r, m1\<lparr>mo_circuit_breakers := dset n cb1 (mo_circuit_breakers m1)\<rparr>))"

definition track_sla :: "pyfloat \<Rightarrow> pyfloat \<Rightarrow> 'e + 'r \<Rightarrow> sla_monitor \<Rightarrow> (nat \<times> sla_alert) list result \<times> sla_monitor" where
  "track_sla start now func m = record_request (\<not> isl func) (elapsed_ms start now) m"

section \<open>Degradation\<close>

record degradation =
  dg_level :: int
  dg_feature_flags :: "(string, bool) dict"

definition MAX_LEVEL :: int where
  "MAX_LEVEL = 5"

definition degradation_init :: degradation where
  "degradation_init = \<lparr>dg_level = 0, dg_feature_flags = []\<rparr>"

definition increase_degradation :: "degradation \<Rightarrow> int \<times> degradation" where
  "increase_degradation g = (let g1 = (if dg_level g < MAX_LEVEL then g\<lparr>dg_level := dg_level g + 1\<rparr> else g) in (dg_level g1, g1))"

definition decrease_degradation :: "degradation \<Rightarrow> int \<times> degradation" where
  "decrease_degradation g = (let g1 = (if dg_level g > 0 then g\<lparr>dg_level := dg_level g - 1\<rparr> else g) in (dg_level g1, g1))"

definition reset_degradation :: "degradation \<Rightarrow> degradation" where
  "reset_degradation g = g\<lparr>dg_level := 0\<rparr>"

definition is_feature_enabled :: "string \<Rightarrow> bool \<Rightarrow> degradation \<Rightarrow> bool" where
  "is_feature_enabled feature dflt g =
     (case dget (dg_feature_flags g) feature of
        Some b \<Rightarrow> b
      | None \<Rightarrow>
          if dg_level g = 0 then dflt
          else if dg_level g \<le> 2 then feature \<notin> {''analytics'', ''recommendations'', ''batch_jobs''} \<and> dflt
          else feature \<in> {''auth'', ''core_api'', ''health''})"

definition set_feature_flag :: "string \<Rightarrow> bool \<Rightarrow> degradation \<Rightarrow> degradation" where
  "set_feature_flag feature enabled g = g\<lparr>dg_feature_flags := dset feature enabled (dg_feature_flags g)\<rparr>"

section \<open>What a probe reports\<close>

text \<open>A check fails the system, or only degrades it.\<close>

definition fails_system :: "attempt \<times> health_check \<Rightarrow> bool" where
  "fails_system = (\<lambda>(a, c). hc_critical c \<and> (case run_check a c of Inl e \<Rightarrow> True | Inr r \<Rightarrow> hr_status r = UNHEALTHY))"

definition degrades_system :: "attempt \<times> health_check \<Rightarrow> bool" where
  "degrades_system = (\<lambda>(a, c). case run_check a c of
     Inl e \<Rightarrow> False | Inr r \<Rightarrow> hr_status r = DEGRADED \<or> hr_status r = UNHEALTHY \<and> \<not> hc_critical c)"

definition worse :: "bool \<Rightarrow> bool \<Rightarrow> health_status \<Rightarrow> health_status" where
  "worse f d st = (if f \<or> st = UNHEALTHY then UNHEALTHY else if d \<or> st = DEGRADED then DEGRADED else HEALTHY)"

lemma single_check_status:
  assumes "st \<noteq> UNKNOWN"
  shows "snd (snd (execute_single_check a c st)) = worse (fails_system (a, c)) (degrades_system (a, c)) st"
  using assms
  by (cases st) (auto simp: execute_single_check_def determine_status_def fails_system_def degrades_system_def worse_def Let_def
      split: sum.splits)

lemma check_loop_status:
  "st \<noteq> UNKNOWN \<Longrightarrow> snd (snd (check_loop cs names msgs st)) = worse (\<exists>x \<in> set cs. fails_system x) (\<exists>x \<in> set cs. degrades_system x) st"
proof (induction cs arbitrary: names msgs st)
  case Nil
  then show ?case by (cases st) (auto simp: worse_def)
next
  case (Cons x cs)
  obtain a c where x: "x = (a, c)" by fastforce
  let ?st = "worse (fails_system (a, c)) (degrades_system (a, c)) st"
  have "?st \<noteq> UNKNOWN" by (simp add: worse_def)
  from Cons.IH [OF this] single_check_status [OF Cons.prems, of a c] show ?case
    by (auto simp: x split_def Let_def) (auto simp: worse_def)
qed

lemma registered_checks_status:
  "hr_status (run_checks start now stamp n cs) =
     (if \<exists>x \<in> set cs. fails_system x then UNHEALTHY else if \<exists>x \<in> set cs. degrades_system x then DEGRADED else HEALTHY)"
  using check_loop_status [of HEALTHY cs "[]" "[]"] by (auto simp: run_checks_def split_def Let_def worse_def)

text \<open>
  The status of a probe does not depend on the order of its checks: it is unhealthy exactly when a critical
  check is unhealthy or raises, degraded exactly when none is and some check is degraded or a check that is not
  critical is unhealthy, and healthy otherwise; a check that is not critical and raises counts for nothing.
\<close>

theorem probe_status_exact:
  "hr_status (run_checks start now stamp n cs) =
     (if \<exists>(a, c) \<in> set cs. hc_critical c \<and> (case run_check a c of Inl e \<Rightarrow> True | Inr r \<Rightarrow> hr_status r = UNHEALTHY) then UNHEALTHY
      else if \<exists>(a, c) \<in> set cs. \<not> isl (run_check a c) \<and> hr_status (projr (run_check a c)) \<in> {DEGRADED, UNHEALTHY} then DEGRADED
      else HEALTHY)"
proof -
  have "(\<exists>x \<in> set cs. fails_system x) =
      (\<exists>(a, c) \<in> set cs. hc_critical c \<and> (case run_check a c of Inl e \<Rightarrow> True | Inr r \<Rightarrow> hr_status r = UNHEALTHY))"
    by (simp add: fails_system_def)
  moreover have "(\<exists>x \<in> set cs. fails_system x) \<or> (\<exists>x \<in> set cs. degrades_system x) \<longleftrightarrow> (\<exists>x \<in> set cs. fails_system x) \<or>
      (\<exists>(a, c) \<in> set cs. \<not> isl (run_check a c) \<and> hr_status (projr (run_check a c)) \<in> {DEGRADED, UNHEALTHY})"
    by (force simp: fails_system_def degrades_system_def split: sum.splits)
  ultimately show ?thesis by (auto simp: registered_checks_status)
qed

section \<open>The breaker's states\<close>

datatype breaker_op = AskState pyfloat | AskAllowed pyfloat | Succeeded | FailedAt pyfloat

fun breaker_step :: "breaker_op \<Rightarrow> breaker \<Rightarrow> breaker" where
  "breaker_step (AskState now) cb = snd (circuit_state_of now cb)"
| "breaker_step (AskAllowed now) cb = snd (allow_request now cb)"
| "breaker_step Succeeded cb = record_success cb"
| "breaker_step (FailedAt now) cb = record_failure now cb"

definition breaker_ok :: "breaker \<Rightarrow> bool" where
  "breaker_ok cb \<longleftrightarrow>
     0 < cb_failure_threshold cb \<and> 0 < cb_half_open_max_calls cb \<and> 0 \<le> cb_failure_count cb \<and>
     (case cb_state cb of
        CLOSED \<Rightarrow> cb_success_count cb = 0 \<and> cb_failure_count cb < cb_failure_threshold cb
      | OPEN \<Rightarrow> cb_success_count cb = 0 \<and> cb_last_failure_time cb \<noteq> None \<and> 0 < cb_failure_count cb
      | HALF_OPEN \<Rightarrow> cb_half_open_calls cb = cb_success_count cb \<and> 0 \<le> cb_success_count cb \<and>
          cb_success_count cb < cb_half_open_max_calls cb \<and> 0 < cb_failure_count cb)"

lemma check_recovery_ok: "breaker_ok cb \<Longrightarrow> breaker_ok (check_recovery now cb)"
  by (auto simp: breaker_ok_def check_recovery_def split: option.splits)

lemma record_success_ok: "breaker_ok cb \<Longrightarrow> breaker_ok (record_success cb)"
  by (cases "cb_state cb") (auto simp: breaker_ok_def record_success_def Let_def)

lemma record_failure_ok: "breaker_ok cb \<Longrightarrow> breaker_ok (record_failure now cb)"
  by (cases "cb_state cb") (auto simp: breaker_ok_def record_failure_def Let_def)

lemma snd_allow_request: "snd (allow_request now cb) = check_recovery now cb"
  by (simp add: allow_request_def circuit_state_of_def split_def Let_def split: circuit_state.splits)

interpretation circuit: machine breaker_step breaker_ok
proof
  fix x cb
  assume "breaker_ok cb"
  then show "breaker_ok (breaker_step x cb)"
    by (cases x) (simp_all add: check_recovery_ok record_success_ok record_failure_ok snd_allow_request circuit_state_of_def Let_def)
qed

lemma breaker_init_ok: "0 < threshold \<Longrightarrow> 0 < max_calls \<Longrightarrow> breaker_ok (breaker_init n threshold timeout max_calls)"
  by (simp add: breaker_ok_def breaker_init_def)

lemma allowed_iff_not_open:
  assumes "breaker_ok cb"
  shows "fst (allow_request now cb) \<longleftrightarrow> cb_state (check_recovery now cb) \<noteq> OPEN"
  using check_recovery_ok [OF assms, of now]
  by (auto simp: allow_request_def circuit_state_of_def breaker_ok_def Let_def split: circuit_state.splits)

text \<open>
  However the threads that share a breaker interleave, a closed breaker has seen fewer failures than its
  threshold since they were last paid back, an open one remembers a failure, a half-open one has counted fewer
  successes than it needs to close; and it admits a request in every state but open, so that the limit on trial
  calls never takes effect.
\<close>

theorem breaker_admits_unless_open:
  assumes "0 < threshold" and "0 < max_calls"
  shows "breaker_ok (fold breaker_step ops (breaker_init n threshold timeout max_calls)) \<and>
    (fst (allow_request now (fold breaker_step ops (breaker_init n threshold timeout max_calls))) \<longleftrightarrow>
     cb_state (check_recovery now (fold breaker_step ops (breaker_init n threshold timeout max_calls))) \<noteq> OPEN)"
  using circuit.run_inv [OF breaker_init_ok [OF assms]] allowed_iff_not_open by blast

theorem breaker_admits_unless_open_witness:
  "0 < (2 :: int) \<and> 0 < (1 :: int) \<and>
   breaker_ok (fold breaker_step [FailedAt (Fin 1), FailedAt (Fin 2)] (breaker_init ''db'' 2 (Fin 30) 1))"
  using breaker_admits_unless_open [of 2 1 "[FailedAt (Fin 1), FailedAt (Fin 2)]" "''db''" "Fin 30"] by simp

text \<open>A run of guarded calls: when each is made, when it fails if it fails, and what the function answers.\<close>

fun guarded_calls :: "(pyfloat \<times> pyfloat \<times> ('e + 'r)) list \<Rightarrow> breaker \<Rightarrow> bool list \<times> breaker" where
  "guarded_calls [] cb = ([], cb)"
| "guarded_calls ((now, later, func) # cs) cb =
     (let (called, r, cb1) = execute now later func None cb; (rest, cb2) = guarded_calls cs cb1 in (called # rest, cb2))"

lemma execute_open:
  assumes "cb_state cb = OPEN" "cb_last_failure_time cb = Some t" "\<not> fl_le (cb_recovery_timeout cb) (fl_sub now t)"
  shows "execute now later func fallback cb =
    (False, (case fallback of Some (Inl e) \<Rightarrow> Inl (Raised e) | Some (Inr r) \<Rightarrow> Inr r | None \<Rightarrow> Inl CircuitOpenError), cb)"
  using assms
  by (auto simp: execute_def allow_request_def circuit_state_of_def check_recovery_def Let_def split: option.splits sum.splits)

text \<open>
  An open breaker calls the protected function not once while every request comes before the recovery
  timeout has passed since the last failure, and these requests leave the breaker as it was.
\<close>

theorem open_breaker_shields:
  assumes "cb_state cb = OPEN" and "cb_last_failure_time cb = Some t"
    and "\<forall>(now, later, func) \<in> set cs. \<not> fl_le (cb_recovery_timeout cb) (fl_sub now t)"
  shows "guarded_calls cs cb = (replicate (length cs) False, cb)"
  using assms(3)
proof (induction cs)
  case (Cons x cs)
  obtain now later func where x: "x = (now, later, func)" by (cases x) auto
  with Cons show ?case by (simp add: execute_open [OF assms(1,2)])
qed simp

definition demo_open_breaker :: breaker where
  "demo_open_breaker = (breaker_init ''db'' 2 (Fin 30) 1)\<lparr>cb_state := OPEN, cb_failure_count := 2, cb_last_failure_time := Some (Fin 100)\<rparr>"

lemma fl_sub_demo: "fl_sub (Fin 110) (Fin 100) = Fin 10" "fl_sub (Fin 140) (Fin 100) = Fin 40"
  using fl_sub_ints [of 110 100] fl_sub_ints [of 140 100] by simp_all

theorem open_breaker_shields_witness:
  "cb_state demo_open_breaker = OPEN \<and>
   guarded_calls [(Fin 110, Fin 111, Inr ()), (Fin 110, Fin 112, Inl ''down'')] demo_open_breaker = ([False, False], demo_open_breaker)"
  using open_breaker_shields [of demo_open_breaker "Fin 100" "[(Fin 110, Fin 111, Inr ()), (Fin 110, Fin 112, Inl ''down'')]"]
  by (simp add: demo_open_breaker_def breaker_init_def fl_sub_demo numeral_2_eq_2)

text \<open>Trial calls that succeed count up to the closing one.\<close>

lemma execute_half_open:
  assumes "breaker_ok cb" "cb_state cb = HALF_OPEN"
  shows "execute now later (Inr r) fallback cb = (True, Inr r, record_success cb)"
  using assms by (auto simp: execute_def allow_request_def circuit_state_of_def check_recovery_def breaker_ok_def Let_def split: option.splits)

lemma half_open_closes:
  assumes "breaker_ok cb" "cb_state cb = HALF_OPEN" "int (length cs) = cb_half_open_max_calls cb - cb_success_count cb"
    and "\<forall>(now, later, func) \<in> set cs. \<not> isl func"
  shows "fst (guarded_calls cs cb) = replicate (length cs) True \<and> cb_state (snd (guarded_calls cs cb)) = CLOSED \<and>
    cb_failure_count (snd (guarded_calls cs cb)) = 0"
  using assms
proof (induction cs arbitrary: cb)
  case Nil
  then show ?case by (simp add: breaker_ok_def)
next
  case (Cons x cs)
  obtain now later func where "x = (now, later, func)" by (cases x) auto
  with Cons.prems(4) obtain r where x: "x = (now, later, Inr r)" by (cases func) auto
  have e: "guarded_calls (x # cs) cb = (True # fst (guarded_calls cs (record_success cb)), snd (guarded_calls cs (record_success cb)))"
    by (simp add: x execute_half_open [OF Cons.prems(1,2)] split_def Let_def)
  show ?case
  proof (cases "cb_half_open_max_calls cb \<le> cb_success_count cb + 1")
    case True
    with Cons.prems(3) have "length (x # cs) \<le> 1" by linarith
    then have "cs = []" by simp
    then show ?thesis using True Cons.prems(2) unfolding e by (simp add: record_success_def Let_def)
  next
    case False
    let ?cb = "record_success cb"
    have ok: "breaker_ok ?cb" by (rule record_success_ok [OF Cons.prems(1)])
    have s: "cb_state ?cb = HALF_OPEN" "int (length cs) = cb_half_open_max_calls ?cb - cb_success_count ?cb"
      using False Cons.prems(2,3) by (simp_all add: record_success_def Let_def)
    from Cons.IH [OF ok s] Cons.prems(4) show ?thesis unfolding e by auto
  qed
qed

text \<open>
  An open breaker recovers: once a request comes after the recovery timeout, as many successful calls as
  the breaker asks for are all made, close it and clear its failures.
\<close>

theorem breaker_recovers:
  assumes "breaker_ok cb" and "cb_state cb = OPEN" and "cb_last_failure_time cb = Some t" and "t \<noteq> Fin 0"
    and "int (length cs) = cb_half_open_max_calls cb"
    and "fl_le (cb_recovery_timeout cb) (fl_sub (fst (hd cs)) t)"
    and "\<forall>(now, later, func) \<in> set cs. \<not> isl func"
  shows "fst (guarded_calls cs cb) = replicate (length cs) True \<and> cb_state (snd (guarded_calls cs cb)) = CLOSED \<and>
    cb_failure_count (snd (guarded_calls cs cb)) = 0"
proof -
  from assms(1,5) obtain x cs' where cs: "cs = x # cs'" by (cases cs) (auto simp: breaker_ok_def)
  obtain now later func where x: "x = (now, later, func)" by (cases x) auto
  let ?cb = "check_recovery now cb"
  have h: "cb_state ?cb = HALF_OPEN" "cb_half_open_max_calls ?cb = cb_half_open_max_calls cb" "cb_success_count ?cb = 0"
    using assms(1-4,6) by (auto simp: check_recovery_def cs x breaker_ok_def)
  have "check_recovery now ?cb = ?cb" using h(1) by (auto simp: check_recovery_def split: option.splits)
  then have "execute now later func None cb = execute now later func None ?cb"
    by (simp add: execute_def allow_request_def circuit_state_of_def)
  then have "guarded_calls cs cb = guarded_calls cs ?cb" by (simp add: cs x)
  then show ?thesis using half_open_closes [OF check_recovery_ok [OF assms(1)] h(1), of cs] h assms(5,7) by simp
qed

theorem breaker_recovers_witness:
  "breaker_ok demo_open_breaker \<and>
   cb_state (snd (guarded_calls [(Fin 140, Fin 141, Inr () :: string + unit)] demo_open_breaker)) = CLOSED"
proof -
  have ok: "breaker_ok demo_open_breaker" by (simp add: breaker_ok_def demo_open_breaker_def breaker_init_def)
  show ?thesis
    using breaker_recovers [OF ok, of "Fin 100" "[(Fin 140, Fin 141, Inr () :: string + unit)]"] ok
    by (simp add: demo_open_breaker_def breaker_init_def fl_sub_demo)
qed

end
