(* ===== verification/Release.thy ===== *)
theory Release
  imports Format "HOL-Library.Char_ord"
begin

text \<open>
  Release management, \<^verbatim>\<open>infrastructure/release.py\<close>: semantic versions, changelogs, validation gates, artifacts,
  distribution and the manager that runs a release through them. Changelogs and releases are objects that
  several tables refer to, so both live in lists and are named by their position. The functions registered for
  gates, artifact types and channels are numbers, and what they answer or raise is an argument (of the details a gate reports only the error is kept); numbers with
  more digits than the interpreter converts are not considered.
\<close>

section \<open>Data\<close>

datatype release_type = MAJOR | MINOR | PATCH | PRERELEASE | HOTFIX

datatype release_status =
  DRAFT | VALIDATING | VALIDATED | BUILDING | BUILT | PUBLISHING | PUBLISHED | FAILED | ROLLED_BACK

datatype change_type = ADDED | CHANGED | DEPRECATED | REMOVED | FIXED | SECURITY | PERFORMANCE | DOCUMENTATION

datatype validation_gate =
    UNIT_TESTS | INTEGRATION_TESTS | SECURITY_SCAN | PERFORMANCE_BENCHMARK | CODE_COVERAGE | DOCUMENTATION_GATE
  | COMPLIANCE_CHECK | DEPENDENCY_AUDIT | LICENSE_CHECK

datatype channel = PYPI | GITHUB | DOCKER_HUB | NPM | INTERNAL | ENTERPRISE

record semver =
  sv_major :: int
  sv_minor :: int
  sv_patch :: int
  sv_prerelease :: string
  sv_build_metadata :: string

definition version :: "int \<Rightarrow> int \<Rightarrow> int \<Rightarrow> string \<Rightarrow> semver" where
  "version a b c pre = \<lparr>sv_major = a, sv_minor = b, sv_patch = c, sv_prerelease = pre, sv_build_metadata = []\<rparr>"

lemma version_simps [simp]:
  "sv_major (version a b c pre) = a" "sv_minor (version a b c pre) = b" "sv_patch (version a b c pre) = c"
  "sv_prerelease (version a b c pre) = pre" "sv_build_metadata (version a b c pre) = []"
  by (simp_all add: version_def)

definition semver_str :: "semver \<Rightarrow> string" where
  "semver_str v =
     str_of_int (sv_major v) @ ''.'' @ str_of_int (sv_minor v) @ ''.'' @ str_of_int (sv_patch v) @
     (if sv_prerelease v \<noteq> [] then ''-'' @ sv_prerelease v else []) @
     (if sv_build_metadata v \<noteq> [] then ''+'' @ sv_build_metadata v else [])"

text \<open>Tuples of numbers compare lexicographically, strings by code points.\<close>

definition triple_lt :: "semver \<Rightarrow> semver \<Rightarrow> bool" where
  "triple_lt v w \<longleftrightarrow>
     sv_major v < sv_major w \<or> sv_major v = sv_major w \<and>
       (sv_minor v < sv_minor w \<or> sv_minor v = sv_minor w \<and> sv_patch v < sv_patch w)"

definition same_triple :: "semver \<Rightarrow> semver \<Rightarrow> bool" where
  "same_triple v w \<longleftrightarrow> sv_major v = sv_major w \<and> sv_minor v = sv_minor w \<and> sv_patch v = sv_patch w"

definition semver_lt :: "semver \<Rightarrow> semver \<Rightarrow> bool" where
  "semver_lt v w =
     (if \<not> same_triple v w then triple_lt v w
      else if sv_prerelease v \<noteq> [] \<and> sv_prerelease w = [] then True
      else if sv_prerelease v = [] \<and> sv_prerelease w \<noteq> [] then False
      else sv_prerelease v < sv_prerelease w)"

definition semver_eq :: "semver \<Rightarrow> semver \<Rightarrow> bool" where
  "semver_eq v w \<longleftrightarrow> same_triple v w \<and> sv_prerelease v = sv_prerelease w"

text \<open>
  The pattern of \<open>parse\<close>. Its parts cannot overlap, so matching is a scan; the end of the text may be a line feed.
\<close>

definition tag_char :: "char \<Rightarrow> bool" where
  "tag_char c \<longleftrightarrow> (let n = (of_char c :: nat) in 48 \<le> n \<and> n < 58 \<or> 65 \<le> n \<and> n < 91 \<or> 97 \<le> n \<and> n < 123 \<or> n = 46)"

definition scan_number :: "string \<Rightarrow> (int \<times> string) option" where
  "scan_number s =
     (let ds = takeWhile is_digit s in if ds = [] then None else Some (int (nat_of_dec ds), dropWhile is_digit s))"

definition scan_dot :: "string \<Rightarrow> string option" where
  "scan_dot s = (case s of c # r \<Rightarrow> if c = CHR ''.'' then Some r else None | [] \<Rightarrow> None)"

text \<open>An optional tag after a mark: when nothing follows the mark the whole group is skipped.\<close>

definition scan_tag :: "char \<Rightarrow> string \<Rightarrow> string \<times> string" where
  "scan_tag mark s =
     (case s of
        [] \<Rightarrow> ([], s)
      | c # r \<Rightarrow> if c = mark \<and> takeWhile tag_char r \<noteq> [] then (takeWhile tag_char r, dropWhile tag_char r) else ([], s))"

definition parse_semver :: "string \<Rightarrow> semver result" where
  "parse_semver s =
     (case Option.bind (scan_number s) (\<lambda>(a, s1). Option.bind (scan_dot s1) (\<lambda>s2.
           Option.bind (scan_number s2) (\<lambda>(b, s3). Option.bind (scan_dot s3) (\<lambda>s4.
           Option.bind (scan_number s4) (\<lambda>(c, s5).
             let (pre, s6) = scan_tag (CHR ''-'') s5; (build, s7) = scan_tag (CHR ''+'') s6
             in if s7 = [] \<or> s7 = [CHR 0x0A]
                then Some \<lparr>sv_major = a, sv_minor = b, sv_patch = c, sv_prerelease = pre, sv_build_metadata = build\<rparr>
                else None))))) of
        None \<Rightarrow> Inl ValueError
      | Some v \<Rightarrow> Inr v)"

definition semver_bump :: "release_type \<Rightarrow> semver \<Rightarrow> semver" where
  "semver_bump t v =
     (case t of
        MAJOR \<Rightarrow> version (sv_major v + 1) 0 0 []
      | MINOR \<Rightarrow> version (sv_major v) (sv_minor v + 1) 0 []
      | PATCH \<Rightarrow> version (sv_major v) (sv_minor v) (sv_patch v + 1) []
      | HOTFIX \<Rightarrow> version (sv_major v) (sv_minor v) (sv_patch v + 1) []
      | PRERELEASE \<Rightarrow> version (sv_major v) (sv_minor v) (sv_patch v) (sv_prerelease v))"

definition is_stable :: "semver \<Rightarrow> bool" where
  "is_stable v = (sv_prerelease v = [])"

definition is_prerelease :: "semver \<Rightarrow> bool" where
  "is_prerelease v = (sv_prerelease v \<noteq> [])"

section \<open>Changelogs\<close>

record changelog_entry =
  ce_change_type :: change_type
  ce_description :: string
  ce_issue_refs :: "string list"
  ce_pr_refs :: "string list"
  ce_author :: string
  ce_breaking :: bool
  ce_scope :: string

record changelog =
  cl_version :: semver
  cl_release_date :: datetime
  cl_entries :: "changelog_entry list"
  cl_summary :: string
  cl_contributors :: "string list"

definition add_entry :: "changelog_entry \<Rightarrow> changelog \<Rightarrow> changelog" where
  "add_entry e cl = cl\<lparr>cl_entries := cl_entries cl @ [e]\<rparr>"

definition get_entries_by_type :: "change_type \<Rightarrow> changelog \<Rightarrow> changelog_entry list" where
  "get_entries_by_type t cl = filter (\<lambda>e. ce_change_type e = t) (cl_entries cl)"

definition has_breaking_changes :: "changelog \<Rightarrow> bool" where
  "has_breaking_changes cl = list_ex ce_breaking (cl_entries cl)"

definition change_types :: "(change_type \<times> string) list" where
  "change_types = [(ADDED, ''Added''), (CHANGED, ''Changed''), (DEPRECATED, ''Deprecated''), (REMOVED, ''Removed''),
     (FIXED, ''Fixed''), (SECURITY, ''Security''), (PERFORMANCE, ''Performance''), (DOCUMENTATION, ''Documentation'')]"

definition entry_line :: "changelog_entry \<Rightarrow> string" where
  "entry_line e =
     ''- '' @ (if ce_breaking e then ''**BREAKING:** '' else []) @ (if ce_scope e \<noteq> [] then ''**'' @ ce_scope e @ '':** '' else []) @
     ce_description e @
     (if ce_issue_refs e \<noteq> [] \<or> ce_pr_refs e \<noteq> [] then '' ('' @ join_with '', '' (ce_issue_refs e @ ce_pr_refs e) @ '')'' else [])"

text \<open>\<open>day\<close> formats a date as year, month and day.\<close>

definition render_markdown :: "(datetime \<Rightarrow> string) \<Rightarrow> changelog \<Rightarrow> string" where
  "render_markdown day cl =
     join_with [CHR 0x0A]
       ([''## ['' @ semver_str (cl_version cl) @ ''] - '' @ day (cl_release_date cl), []] @
        (if cl_summary cl \<noteq> [] then [cl_summary cl, []] else []) @
        concat (map (\<lambda>(t, title).
          let es = get_entries_by_type t cl in if es = [] then [] else [''### '' @ title] @ map entry_line es @ [[]]) change_types) @
        (if cl_contributors cl \<noteq> [] then [''### Contributors'', []] @ map (\<lambda>c. ''- '' @ c) (cl_contributors cl) @ [[]] else []))"

section \<open>The version manager\<close>

record version_manager =
  vm_current :: semver
  vm_history :: "semver list"

definition version_manager_init :: "string \<Rightarrow> version_manager result" where
  "version_manager_init s = bindE (parse_semver s) (\<lambda>v. Inr \<lparr>vm_current = v, vm_history = [v]\<rparr>)"

definition vm_bump :: "release_type \<Rightarrow> version_manager \<Rightarrow> semver \<times> version_manager" where
  "vm_bump t m = (let v = semver_bump t (vm_current m) in (v, m\<lparr>vm_current := v, vm_history := vm_history m @ [v]\<rparr>))"

definition set_prerelease :: "string \<Rightarrow> version_manager \<Rightarrow> semver \<times> version_manager" where
  "set_prerelease tag m =
     (let c = vm_current m; v = version (sv_major c) (sv_minor c) (sv_patch c) tag in (v, m\<lparr>vm_current := v\<rparr>))"

definition clear_prerelease :: "version_manager \<Rightarrow> semver \<times> version_manager" where
  "clear_prerelease m = (let c = vm_current m; v = version (sv_major c) (sv_minor c) (sv_patch c) [] in (v, m\<lparr>vm_current := v\<rparr>))"

text \<open>\<open>int(text)\<close>: blanks around, a sign, digits with single underscores between them.\<close>

definition py_int :: "string \<Rightarrow> int option" where
  "py_int s0 =
     (let s = strip s0;
          (neg, ds) = (case s of c # r \<Rightarrow> if c = CHR ''-'' then (True, r) else if c = CHR ''+'' then (False, r) else (False, s) | [] \<Rightarrow> (False, s));
          parts = split_on (CHR ''_'') ds
      in if \<forall>p \<in> set parts. p \<noteq> [] \<and> (\<forall>c \<in> set p. is_digit c)
         then (let n = int (nat_of_dec (concat parts)) in Some (if neg then - n else n)) else None)"

definition starts_with :: "string \<Rightarrow> string \<Rightarrow> bool" where
  "starts_with p s = (take (length p) s = p)"

definition prerelease_number :: "string \<Rightarrow> semver list \<Rightarrow> int" where
  "prerelease_number base_tag hist =
     fold (\<lambda>v n. if starts_with base_tag (sv_prerelease v)
       then (case py_int (last (split_on (CHR ''.'') (sv_prerelease v))) of None \<Rightarrow> n | Some k \<Rightarrow> max n k) else n) hist 0"

definition get_next_prerelease :: "string \<Rightarrow> version_manager \<Rightarrow> semver" where
  "get_next_prerelease base_tag m =
     (let c = vm_current m
      in version (sv_major c) (sv_minor c) (sv_patch c) (base_tag @ ''.'' @ str_of_int (prerelease_number base_tag (vm_history m) + 1)))"

section \<open>The changelog generator\<close>

record generator =
  cg_objects :: "changelog list"
  cg_changelogs :: "(string, nat) dict"

definition create_changelog :: "datetime \<Rightarrow> semver \<Rightarrow> string \<Rightarrow> generator \<Rightarrow> nat \<times> generator" where
  "create_changelog now v summary g =
     (let cl = \<lparr>cl_version = v, cl_release_date = now, cl_entries = [], cl_summary = summary, cl_contributors = []\<rparr>;
          r = length (cg_objects g)
      in (r, \<lparr>cg_objects = cg_objects g @ [cl], cg_changelogs = dset (semver_str v) r (cg_changelogs g)\<rparr>))"

definition word_char :: "char \<Rightarrow> bool" where
  "word_char c \<longleftrightarrow>
     (let n = (of_char c :: nat) in
      48 \<le> n \<and> n < 58 \<or> 65 \<le> n \<and> n < 91 \<or> n = 95 \<or> 97 \<le> n \<and> n < 123 \<or> n \<in> {170, 178, 179, 181, 185, 186, 188, 189, 190} \<or>
      192 \<le> n \<and> n \<noteq> 215 \<and> n \<noteq> 247)"

text \<open>The pattern \<open>type(scope)!: description\<close>, as a scan.\<close>

definition scan_scope :: "string \<Rightarrow> string \<times> string" where
  "scan_scope s =
     (case s of
        [] \<Rightarrow> ([], s)
      | c # r \<Rightarrow>
          let inner = takeWhile (\<lambda>x. x \<noteq> CHR '')'') r; rest = dropWhile (\<lambda>x. x \<noteq> CHR '')'') r
          in if c = CHR ''('' \<and> inner \<noteq> [] \<and> rest \<noteq> [] then (inner, tl rest) else ([], s))"

definition scan_commit :: "string \<Rightarrow> (string \<times> string \<times> bool \<times> string) option" where
  "scan_commit message =
     (let s = strip message; kind = takeWhile word_char s;
          (scope, s1) = scan_scope (dropWhile word_char s);
          (bang, s2) = (case s1 of c # r \<Rightarrow> if c = CHR ''!'' then (True, r) else (False, s1) | [] \<Rightarrow> (False, s1))
      in if kind = [] then None
         else case s2 of
                [] \<Rightarrow> None
              | c # r \<Rightarrow>
                  let description = dropWhile is_space r
                  in if c = CHR '':'' \<and> description \<noteq> [] \<and> CHR 0x0A \<notin> set description
                     then Some (kind, scope, bang, description) else None)"

definition type_mapping :: "(string, change_type) dict" where
  "type_mapping = [(''feat'', ADDED), (''fix'', FIXED), (''docs'', DOCUMENTATION), (''perf'', PERFORMANCE), (''security'', SECURITY),
     (''deprecate'', DEPRECATED), (''remove'', REMOVED), (''chore'', CHANGED), (''refactor'', CHANGED), (''style'', CHANGED),
     (''test'', CHANGED), (''ci'', CHANGED)]"

definition parse_conventional_commit :: "string \<Rightarrow> change_type \<times> string \<times> bool \<times> string" where
  "parse_conventional_commit message =
     (case scan_commit message of
        None \<Rightarrow> (CHANGED, message, False, [])
      | Some (kind, scope, bang, description) \<Rightarrow>
          ((case dget type_mapping (py_lower kind) of None \<Rightarrow> CHANGED | Some t \<Rightarrow> t), description, bang, scope))"

definition commit_entry :: "string \<Rightarrow> changelog_entry" where
  "commit_entry commit =
     (let (t, d, b, s) = parse_conventional_commit commit
      in \<lparr>ce_change_type = t, ce_description = d, ce_issue_refs = [], ce_pr_refs = [], ce_author = [], ce_breaking = b, ce_scope = s\<rparr>)"

definition add_from_commits :: "datetime \<Rightarrow> semver \<Rightarrow> string list \<Rightarrow> generator \<Rightarrow> nat \<times> generator" where
  "add_from_commits now v commits g =
     (let (r, g1) = create_changelog now v [] g
      in (r, g1\<lparr>cg_objects := (cg_objects g1)[r := fold (\<lambda>c. add_entry (commit_entry c)) commits (cg_objects g1 ! r)]\<rparr>))"

definition get_changelog :: "string \<Rightarrow> generator \<Rightarrow> changelog option" where
  "get_changelog v g = map_option (\<lambda>r. cg_objects g ! r) (dget (cg_changelogs g) v)"

text \<open>\<open>sorted(..., reverse=True)\<close> keeps the order of equal elements.\<close>

definition render_all :: "(datetime \<Rightarrow> string) \<Rightarrow> generator \<Rightarrow> string result" where
  "render_all day g =
     bindE (mapE (\<lambda>(k, r). bindE (parse_semver k) (\<lambda>v. Inr (v, r))) (cg_changelogs g)) (\<lambda>keyed.
     Inr (join_with [CHR 0x0A]
       ([''# Changelog'', [], ''All notable changes to this project.'', []] @
        map (\<lambda>(v, r). render_markdown day (cg_objects g ! r)) (rev (sort_lt (\<lambda>x y. semver_lt (fst x) (fst y)) (rev keyed))))))"

section \<open>Releases\<close>

record validation_result =
  vr_gate :: validation_gate
  vr_passed :: bool
  vr_message :: string
  vr_error :: "string option"
  vr_duration_seconds :: pyfloat
  vr_checked_at :: datetime

record artifact =
  ar_artifact_id :: string
  ar_name :: string
  ar_artifact_type :: string
  ar_path :: string
  ar_size_bytes :: nat
  ar_checksum_sha256 :: string
  ar_created_at :: datetime

record release =
  rl_release_id :: string
  rl_version :: semver
  rl_release_type :: release_type
  rl_status :: release_status
  rl_changelog :: nat
  rl_artifacts :: "artifact list"
  rl_validation_results :: "validation_result list"
  rl_channels :: "channel list"
  rl_created_at :: datetime
  rl_published_at :: "datetime option"
  rl_created_by :: string
  rl_notes :: string

text \<open>The clock by reading, fresh identifiers, and the registered functions by number; each may raise.\<close>

record release_world =
  rw_clock :: "nat \<Rightarrow> datetime"
  rw_uuid :: string
  rw_gate :: "nat \<Rightarrow> string + (bool \<times> string)"
  rw_build :: "nat \<Rightarrow> release \<Rightarrow> string + artifact option"
  rw_publish :: "nat \<Rightarrow> release \<Rightarrow> string + (bool \<times> string)"
  rw_sha256_hex :: "string \<Rightarrow> string"

definition compute_checksum :: "release_world \<Rightarrow> string \<Rightarrow> artifact \<Rightarrow> string \<times> artifact" where
  "compute_checksum w content a =
     (let h = rw_sha256_hex w content in (h, a\<lparr>ar_checksum_sha256 := h, ar_size_bytes := length content\<rparr>))"

definition create_simple_artifact :: "release_world \<Rightarrow> string \<Rightarrow> string \<Rightarrow> string \<Rightarrow> string \<Rightarrow> artifact" where
  "create_simple_artifact w nm kind content path =
     snd (compute_checksum w content \<lparr>ar_artifact_id = rw_uuid w, ar_name = nm, ar_artifact_type = kind, ar_path = path,
       ar_size_bytes = 0, ar_checksum_sha256 = [], ar_created_at = rw_clock w 0\<rparr>)"

section \<open>Validation, building and publishing\<close>

record validator =
  va_gates :: "(validation_gate, nat) dict"
  va_required_gates :: "validation_gate set"

definition validator_init :: validator where
  "validator_init = \<lparr>va_gates = [], va_required_gates = {UNIT_TESTS, SECURITY_SCAN, CODE_COVERAGE}\<rparr>"

definition register_gate :: "validation_gate \<Rightarrow> nat \<Rightarrow> bool \<Rightarrow> validator \<Rightarrow> validator" where
  "register_gate gate f required va =
     (let va1 = va\<lparr>va_gates := dset gate f (va_gates va)\<rparr>
      in if required then va1\<lparr>va_required_gates := insert gate (va_required_gates va1)\<rparr> else va1)"

text \<open>Each gate reads the clock three times: before, after, and for its result.\<close>

definition run_gate :: "release_world \<Rightarrow> nat \<Rightarrow> validation_gate \<Rightarrow> nat \<Rightarrow> validation_result" where
  "run_gate w i gate f =
     (let (passed, msg, err) = (case rw_gate w f of
            Inr (b, m) \<Rightarrow> (b, m, None)
          | Inl e \<Rightarrow> (False, ''Gate check failed with error: '' @ e, Some e))
      in \<lparr>vr_gate = gate, vr_passed = passed, vr_message = msg, vr_error = err,
          vr_duration_seconds = fl_of_rat (of_int (rw_clock w (3 * i + 1) - rw_clock w (3 * i)) / 1000000),
          vr_checked_at = rw_clock w (3 * i + 2)\<rparr>)"

definition validate :: "release_world \<Rightarrow> validator \<Rightarrow> release \<Rightarrow> validation_result list \<times> release" where
  "validate w va rl =
     (let results = map (\<lambda>(i, gate, f). run_gate w i gate f) (zip [0..<length (va_gates va)] (va_gates va));
          required_passed = list_all (\<lambda>r. vr_gate r \<in> va_required_gates va \<longrightarrow> vr_passed r) results
      in (results, rl\<lparr>rl_validation_results := results, rl_status := (if required_passed then VALIDATED else FAILED)\<rparr>))"

record validation_summary =
  vs_total_gates :: nat
  vs_passed :: nat
  vs_failed :: nat
  vs_required_passed :: nat
  vs_required_total :: nat
  vs_all_required_passed :: bool

definition get_validation_summary :: "validator \<Rightarrow> validation_result list \<Rightarrow> validation_summary" where
  "get_validation_summary va results =
     (let passed = length (filter vr_passed results);
          required = filter (\<lambda>r. vr_gate r \<in> va_required_gates va) results;
          required_passed = length (filter vr_passed required)
      in \<lparr>vs_total_gates = length results, vs_passed = passed, vs_failed = length results - passed,
          vs_required_passed = required_passed, vs_required_total = length required,
          vs_all_required_passed = (required_passed = length required)\<rparr>)"

type_synonym builders = "(string, nat) dict"

definition built :: "release_world \<Rightarrow> builders \<Rightarrow> release \<Rightarrow> string list \<Rightarrow> artifact list" where
  "built w bs rl types =
     List.map_filter (\<lambda>t. case dget bs t of
        None \<Rightarrow> None
      | Some f \<Rightarrow> (case rw_build w f rl of Inr (Some a) \<Rightarrow> Some a | _ \<Rightarrow> None)) types"

text \<open>No types and an empty list of types both mean all of them. A builder sees the release while it is being built.\<close>

definition build_artifacts :: "release_world \<Rightarrow> builders \<Rightarrow> string list option \<Rightarrow> release \<Rightarrow> artifact list \<times> release" where
  "build_artifacts w bs artifact_types rl =
     (let rl1 = rl\<lparr>rl_status := BUILDING\<rparr>;
          types = (case artifact_types of None \<Rightarrow> dkeys bs | Some ts \<Rightarrow> if ts = [] then dkeys bs else ts);
          artifacts = built w bs rl1 types
      in (artifacts, rl1\<lparr>rl_artifacts := artifacts, rl_status := (if artifacts \<noteq> [] then BUILT else FAILED)\<rparr>))"

type_synonym publishers = "(channel, nat) dict"

definition publish_one :: "release_world \<Rightarrow> publishers \<Rightarrow> release \<Rightarrow> channel \<Rightarrow> bool \<times> string" where
  "publish_one w ps rl c =
     (case dget ps c of
        None \<Rightarrow> (False, ''No publisher registered'')
      | Some f \<Rightarrow> (case rw_publish w f rl of Inr r \<Rightarrow> r | Inl e \<Rightarrow> (False, e)))"

definition publish :: "release_world \<Rightarrow> publishers \<Rightarrow> channel list option \<Rightarrow> release \<Rightarrow> (channel, bool \<times> string) dict \<times> release" where
  "publish w ps channels rl =
     (let cs = (case channels of None \<Rightarrow> dkeys ps | Some cs \<Rightarrow> if cs = [] then dkeys ps else cs);
          rl1 = rl\<lparr>rl_status := PUBLISHING, rl_channels := cs\<rparr>;
          results = fold (\<lambda>c d. dset c (publish_one w ps rl1 c) d) cs [];
          all_success = list_all (\<lambda>c. fst (publish_one w ps rl1 c)) cs
      in (results, if all_success then rl1\<lparr>rl_status := PUBLISHED, rl_published_at := Some (rw_clock w 0)\<rparr>
                   else rl1\<lparr>rl_status := FAILED\<rparr>))"

section \<open>The release manager\<close>

record release_manager =
  rm_product_name :: string
  rm_version_manager :: version_manager
  rm_changelog_generator :: generator
  rm_validator :: validator
  rm_builders :: builders
  rm_publishers :: publishers
  rm_objects :: "release list"
  rm_releases :: "(string, nat) dict"

definition release_manager_init :: "string \<Rightarrow> string \<Rightarrow> release_manager result" where
  "release_manager_init product current_version =
     bindE (version_manager_init current_version) (\<lambda>vm.
     Inr \<lparr>rm_product_name = product, rm_version_manager = vm,
       rm_changelog_generator = \<lparr>cg_objects = [], cg_changelogs = []\<rparr>, rm_validator = validator_init, rm_builders = [],
       rm_publishers = [], rm_objects = [], rm_releases = []\<rparr>)"

definition register_builder :: "string \<Rightarrow> nat \<Rightarrow> release_manager \<Rightarrow> release_manager" where
  "register_builder kind f m = m\<lparr>rm_builders := dset kind f (rm_builders m)\<rparr>"

definition register_publisher :: "channel \<Rightarrow> nat \<Rightarrow> release_manager \<Rightarrow> release_manager" where
  "register_publisher c f m = m\<lparr>rm_publishers := dset c f (rm_publishers m)\<rparr>"

text \<open>A new release object, entered under the text of its version.\<close>

definition enter_release :: "release_world \<Rightarrow> semver \<Rightarrow> release_type \<Rightarrow> string \<Rightarrow> string \<Rightarrow> string \<Rightarrow> release_manager \<Rightarrow> nat \<times> release_manager" where
  "enter_release w v t summary created_by notes m =
     (let (cl, g) = create_changelog (rw_clock w 0) v summary (rm_changelog_generator m);
          rl = \<lparr>rl_release_id = rw_uuid w, rl_version = v, rl_release_type = t, rl_status = DRAFT, rl_changelog = cl,
                rl_artifacts = [], rl_validation_results = [], rl_channels = [], rl_created_at = rw_clock w 1,
                rl_published_at = None, rl_created_by = created_by, rl_notes = notes\<rparr>;
          r = length (rm_objects m)
      in (r, m\<lparr>rm_changelog_generator := g, rm_objects := rm_objects m @ [rl], rm_releases := dset (semver_str v) r (rm_releases m)\<rparr>))"

definition create_release :: "release_world \<Rightarrow> release_type \<Rightarrow> string \<Rightarrow> string \<Rightarrow> release_manager \<Rightarrow> nat \<times> release_manager" where
  "create_release w t summary created_by m =
     (let (v, vm) = vm_bump t (rm_version_manager m)
      in enter_release w v t summary created_by [] (m\<lparr>rm_version_manager := vm\<rparr>))"

definition prepare_ga_release :: "release_world \<Rightarrow> string \<Rightarrow> string \<Rightarrow> release_manager \<Rightarrow> nat \<times> release_manager" where
  "prepare_ga_release w summary created_by m =
     (let (v, vm) = clear_prerelease (rm_version_manager m);
          text = (if summary \<noteq> [] then summary else rm_product_name m @ '' v'' @ semver_str v @ '' - General Availability'')
      in enter_release w v MAJOR text created_by ''General Availability Release'' (m\<lparr>rm_version_manager := vm\<rparr>))"

definition put_release :: "nat \<Rightarrow> release \<Rightarrow> release_manager \<Rightarrow> release_manager" where
  "put_release r rl m = m\<lparr>rm_objects := (rm_objects m)[r := rl]\<rparr>"

definition validate_release :: "release_world \<Rightarrow> nat \<Rightarrow> release_manager \<Rightarrow> bool \<times> release_manager" where
  "validate_release w r m =
     (let (results, rl) = validate w (rm_validator m) (rm_objects m ! r)
      in (vs_all_required_passed (get_validation_summary (rm_validator m) results), put_release r rl m))"

definition build_release :: "release_world \<Rightarrow> nat \<Rightarrow> string list option \<Rightarrow> release_manager \<Rightarrow> artifact list \<times> release_manager" where
  "build_release w r types m =
     (let (artifacts, rl) = build_artifacts w (rm_builders m) types (rm_objects m ! r) in (artifacts, put_release r rl m))"

definition publish_release ::
    "release_world \<Rightarrow> nat \<Rightarrow> channel list option \<Rightarrow> release_manager \<Rightarrow> (channel, bool \<times> string) dict \<times> release_manager" where
  "publish_release w r channels m =
     (let (results, rl) = publish w (rm_publishers m) channels (rm_objects m ! r) in (results, put_release r rl m))"

datatype release_outcome =
    ValidationFailed validation_summary | NoArtifacts | PublishingFailed "(channel, bool \<times> string) dict"
  | Released nat "channel list"

text \<open>
  The outcome, the release and the state it has. The steps see different clocks, so each has its own record of
  answers.
\<close>

definition execute_full_release ::
    "release_world \<Rightarrow> release_world \<Rightarrow> release_world \<Rightarrow> release_world \<Rightarrow> release_type \<Rightarrow> string \<Rightarrow> string \<Rightarrow> channel list option \<Rightarrow>
     release_manager \<Rightarrow> release_outcome \<times> nat \<times> release_manager" where
  "execute_full_release w1 w2 w3 w4 t summary created_by channels m =
     (let (r, m1) = create_release w1 t summary created_by m;
          (passed, m2) = validate_release w2 r m1
      in if \<not> passed then (ValidationFailed (get_validation_summary (rm_validator m2) (rl_validation_results (rm_objects m2 ! r))), r, m2)
         else
           let (artifacts, m3) = build_release w3 r None m2
           in if artifacts = [] then (NoArtifacts, r, m3)
              else if channels = None \<or> channels = Some []
              then (Released (length (rl_artifacts (rm_objects m3 ! r))) (rl_channels (rm_objects m3 ! r)), r, m3)
              else
                let (results, m4) = publish_release w4 r channels m3
                in if \<not> list_all fst (dvalues results) then (PublishingFailed results, r, m4)
                   else (Released (length (rl_artifacts (rm_objects m4 ! r))) (rl_channels (rm_objects m4 ! r)), r, m4))"

definition get_release :: "string \<Rightarrow> release_manager \<Rightarrow> release option" where
  "get_release v m = map_option (\<lambda>r. rm_objects m ! r) (dget (rm_releases m) v)"

record release_summary =
  hs_version :: string
  hs_type :: release_type
  hs_status :: release_status
  hs_created_at :: datetime
  hs_published_at :: "datetime option"

definition get_release_history :: "release_manager \<Rightarrow> release_summary list" where
  "get_release_history m =
     map (\<lambda>rl. \<lparr>hs_version = semver_str (rl_version rl), hs_type = rl_release_type rl, hs_status = rl_status rl,
       hs_created_at = rl_created_at rl, hs_published_at = rl_published_at rl\<rparr>)
     (rev (sort_lt (\<lambda>x y. rl_created_at x < rl_created_at y) (rev (map (\<lambda>r. rm_objects m ! r) (dvalues (rm_releases m))))))"

definition get_current_version :: "release_manager \<Rightarrow> string" where
  "get_current_version m = semver_str (vm_current (rm_version_manager m))"

section \<open>Versions as text\<close>

lemma scan_number_print:
  assumes "0 \<le> i" and "rest = [] \<or> \<not> is_digit (hd rest)"
  shows "scan_number (str_of_int i @ rest) = Some (i, rest)"
proof -
  have s: "str_of_int i = dec_of_nat (nat i)" using assms(1) by (simp add: str_of_int_def)
  have "takeWhile is_digit (dec_of_nat (nat i) @ rest) = dec_of_nat (nat i)" "dropWhile is_digit (dec_of_nat (nat i) @ rest) = rest"
    using assms(2) dec_digits [of _ "nat i"] by (cases rest; auto simp: takeWhile_append dropWhile_append)+
  then show ?thesis using assms(1) by (simp add: scan_number_def s)
qed

lemma scan_tag_print:
  assumes "list_all tag_char t" and "rest = [] \<or> \<not> tag_char (hd rest)" and "t = [] \<longrightarrow> rest = [] \<or> hd rest \<noteq> mark"
  shows "scan_tag mark ((if t \<noteq> [] then mark # t else []) @ rest) = (t, rest)"
proof -
  have "takeWhile tag_char rest = []" "dropWhile tag_char rest = rest" using assms(2) by (cases rest; simp)+
  then have "takeWhile tag_char (t @ rest) = t" "dropWhile tag_char (t @ rest) = rest"
    using assms(1) by (simp_all add: list_all_iff takeWhile_append2 dropWhile_append2)
  then show ?thesis using assms(3) by (cases rest) (auto simp: scan_tag_def simp del: takeWhile_eq_all_conv)
qed

text \<open>
  A version with numbers that are not negative and tags of letters, digits and dots is read back from its
  text.
\<close>

theorem version_text_round_trips:
  assumes "0 \<le> sv_major v" "0 \<le> sv_minor v" "0 \<le> sv_patch v"
    and "list_all tag_char (sv_prerelease v)" "list_all tag_char (sv_build_metadata v)"
  shows "parse_semver (semver_str v) = Inr v"
proof -
  let ?pre = "if sv_prerelease v \<noteq> [] then CHR ''-'' # sv_prerelease v else []"
  let ?build = "if sv_build_metadata v \<noteq> [] then CHR ''+'' # sv_build_metadata v else []"
  have t: "\<not> is_digit (CHR ''.'')" "\<not> is_digit (CHR ''-'')" "\<not> is_digit (CHR ''+'')" "\<not> tag_char (CHR ''+'')"
    by (simp_all add: is_digit_def tag_char_def)
  have str: "semver_str v = str_of_int (sv_major v) @ CHR ''.'' # str_of_int (sv_minor v) @ CHR ''.'' # str_of_int (sv_patch v) @ ?pre @ ?build"
    by (simp add: semver_str_def)
  have "scan_number (str_of_int (sv_patch v) @ ?pre @ ?build) = Some (sv_patch v, ?pre @ ?build)"
    using assms(3) t by (intro scan_number_print) auto
  moreover have "scan_tag (CHR ''-'') (?pre @ ?build) = (sv_prerelease v, ?build)"
    using assms(4) t by (intro scan_tag_print) auto
  moreover have "scan_tag (CHR ''+'') (?build @ []) = (sv_build_metadata v, [])"
    using assms(5) by (intro scan_tag_print) auto
  ultimately show ?thesis unfolding parse_semver_def str
    using assms(1,2) t by (simp add: scan_number_print scan_dot_def)
qed

theorem version_text_round_trips_witness:
  "parse_semver (semver_str \<lparr>sv_major = 1, sv_minor = 0, sv_patch = 12, sv_prerelease = ''rc.1'', sv_build_metadata = []\<rparr>) =
   Inr \<lparr>sv_major = 1, sv_minor = 0, sv_patch = 12, sv_prerelease = ''rc.1'', sv_build_metadata = []\<rparr>"
  by (rule version_text_round_trips) (simp_all add: tag_char_def)

section \<open>The order of versions\<close>

definition tag_lt :: "string \<Rightarrow> string \<Rightarrow> bool" where
  "tag_lt a b \<longleftrightarrow> a \<noteq> [] \<and> (b = [] \<or> a < b)"

lemma semver_lt_iff: "semver_lt v w \<longleftrightarrow> triple_lt v w \<or> same_triple v w \<and> tag_lt (sv_prerelease v) (sv_prerelease w)"
proof -
  have "triple_lt v w \<Longrightarrow> \<not> same_triple v w" by (auto simp: triple_lt_def same_triple_def)
  then show ?thesis by (auto simp: semver_lt_def tag_lt_def)
qed

lemma triple_lt_trans: "triple_lt u v \<Longrightarrow> triple_lt v w \<Longrightarrow> triple_lt u w"
  unfolding triple_lt_def by linarith

lemma triple_lt_linear:
  "triple_lt u v \<or> same_triple u v \<or> triple_lt v u" "\<not> (triple_lt u v \<and> triple_lt v u)" "\<not> (triple_lt u v \<and> same_triple u v)"
  unfolding triple_lt_def same_triple_def by linarith+

lemma same_triple_lt:
  "same_triple u v \<Longrightarrow> triple_lt v w = triple_lt u w" "same_triple v w \<Longrightarrow> triple_lt u v = triple_lt u w"
  "same_triple u v \<Longrightarrow> same_triple v w \<Longrightarrow> same_triple u w" "same_triple u v \<Longrightarrow> same_triple v u"
  by (simp_all add: same_triple_def triple_lt_def)

lemma tag_lt_linear:
  "tag_lt a b \<Longrightarrow> tag_lt b c \<Longrightarrow> tag_lt a c" "tag_lt a b \<or> a = b \<or> tag_lt b a" "\<not> (tag_lt a b \<and> tag_lt b a)" "\<not> tag_lt a a"
  by (auto simp: tag_lt_def)

text \<open>
  The comparison of versions is a strict linear order on what their equality distinguishes: it is
  transitive, and of any two versions exactly one of smaller, equal and larger holds. Build metadata are ignored.
\<close>

theorem version_order_linear:
  "(semver_lt u v \<longrightarrow> semver_lt v w \<longrightarrow> semver_lt u w) \<and>
   (semver_lt u v \<or> semver_eq u v \<or> semver_lt v u) \<and>
   \<not> (semver_lt u v \<and> semver_lt v u) \<and> \<not> (semver_lt u v \<and> semver_eq u v)"
proof (intro conjI impI)
  show "semver_lt u w" if "semver_lt u v" "semver_lt v w"
    using that unfolding semver_lt_iff by (metis triple_lt_trans same_triple_lt tag_lt_linear(1))
  show "semver_lt u v \<or> semver_eq u v \<or> semver_lt v u"
    unfolding semver_lt_iff semver_eq_def by (metis triple_lt_linear(1) same_triple_lt(4) tag_lt_linear(2))
  show "\<not> (semver_lt u v \<and> semver_lt v u)"
    unfolding semver_lt_iff by (metis triple_lt_linear(2,3) same_triple_lt(4) tag_lt_linear(3))
  show "\<not> (semver_lt u v \<and> semver_eq u v)"
    unfolding semver_lt_iff semver_eq_def by (metis triple_lt_linear(3) tag_lt_linear(4))
qed

theorem version_order_linear_witness:
  "semver_lt (version 1 0 0 ''rc.1'') (version 1 0 0 []) \<and> semver_lt (version 1 0 0 []) (version 1 0 1 []) \<and>
   semver_lt (version 1 0 0 ''rc.1'') (version 1 0 1 [])"
proof -
  have "semver_lt (version 1 0 0 ''rc.1'') (version 1 0 0 [])" "semver_lt (version 1 0 0 []) (version 1 0 1 [])"
    by (simp_all add: semver_lt_def same_triple_def triple_lt_def)
  with version_order_linear [of "version 1 0 0 ''rc.1''" "version 1 0 0 []" "version 1 0 1 []"] show ?thesis by blast
qed

text \<open>Numbers in tags compare as text, so the tenth candidate comes before the second.\<close>

lemma candidate_ten_before_two: "semver_lt (version 1 0 0 ''rc.10'') (version 1 0 0 ''rc.2'')"
  by (simp add: semver_lt_def same_triple_def less_char_def)

datatype version_op = Bump release_type | SetPre string | ClearPre

fun version_step :: "version_op \<Rightarrow> version_manager \<Rightarrow> version_manager" where
  "version_step (Bump t) m = snd (vm_bump t m)"
| "version_step (SetPre tag) m = snd (set_prerelease tag m)"
| "version_step ClearPre m = snd (clear_prerelease m)"

definition versions_ok :: "version_manager \<Rightarrow> bool" where
  "versions_ok m \<longleftrightarrow> vm_history m \<noteq> [] \<and> sorted_wrt triple_lt (vm_history m) \<and> same_triple (vm_current m) (last (vm_history m))"

lemma bump_above: "t \<noteq> PRERELEASE \<Longrightarrow> same_triple v w \<Longrightarrow> triple_lt w (semver_bump t v)"
  by (cases t) (auto simp: semver_bump_def triple_lt_def same_triple_def)

interpretation versions: guarded_machine version_step versions_ok "\<lambda>x m. x \<noteq> Bump PRERELEASE"
proof
  fix x m
  assume ok: "versions_ok m" and g: "x \<noteq> Bump PRERELEASE"
  show "versions_ok (version_step x m)"
  proof (cases x)
    case (Bump t)
    let ?v = "semver_bump t (vm_current m)"
    have above: "triple_lt (last (vm_history m)) ?v" using ok g Bump by (intro bump_above) (auto simp: versions_ok_def)
    have "triple_lt h ?v" if "h \<in> set (vm_history m)" for h
    proof (cases "h = last (vm_history m)")
      case False
      with that have "h \<in> set (butlast (vm_history m))" by (metis append_butlast_last_id in_set_conv_decomp rotate1.simps(2) set_ConsD set_rotate1 empty_iff empty_set)
      then have "triple_lt h (last (vm_history m))"
        using ok sorted_wrt_append [of triple_lt "butlast (vm_history m)" "[last (vm_history m)]"] by (auto simp: versions_ok_def)
      then show ?thesis using above by (rule triple_lt_trans)
    qed (use above in simp)
    then show ?thesis using ok Bump by (auto simp: versions_ok_def vm_bump_def sorted_wrt_append same_triple_def Let_def)
  qed (use ok in \<open>auto simp: versions_ok_def set_prerelease_def clear_prerelease_def same_triple_def Let_def\<close>)
qed

text \<open>
  The versions a manager has released are strictly increasing, whatever prerelease tags are set and cleared
  in between, as long as no release of type prerelease is made.
\<close>

theorem released_versions_increase:
  assumes "version_manager_init s = Inr m" and "Bump PRERELEASE \<notin> set ops"
  shows "sorted_wrt semver_lt (vm_history (fold version_step ops m))"
proof -
  have "versions_ok m" using assms(1) by (auto simp: version_manager_init_def versions_ok_def bindE_Inr_iff same_triple_def)
  moreover have "guarded (\<lambda>x m. x \<noteq> Bump PRERELEASE) version_step ops m"
    using assms(2) by (induction ops arbitrary: m) auto
  ultimately have "versions_ok (fold version_step ops m)" by (rule versions.run_inv)
  moreover have "triple_lt v w \<Longrightarrow> semver_lt v w" for v w by (auto simp: semver_lt_def triple_lt_def same_triple_def)
  ultimately show ?thesis by (auto simp: versions_ok_def intro: sorted_wrt_mono_rel)
qed

lemma demo_version_manager: "version_manager_init ''1.0.0'' = Inr \<lparr>vm_current = version 1 0 0 [], vm_history = [version 1 0 0 []]\<rparr>"
  by code_simp

theorem released_versions_increase_witness:
  "sorted_wrt semver_lt (vm_history (fold version_step [Bump MINOR, SetPre ''rc.1'', Bump PATCH]
     \<lparr>vm_current = version 1 0 0 [], vm_history = [version 1 0 0 []]\<rparr>))"
  by (rule released_versions_increase [OF demo_version_manager]) simp

text \<open>A prerelease repeats the current version, and the new release takes the old one's place in the table.\<close>

lemma prerelease_repeats_version:
  assumes "sv_build_metadata (vm_current m) = []"
  shows "fst (vm_bump PRERELEASE m) = vm_current m"
  using assms by (simp add: vm_bump_def semver_bump_def version_def Let_def)

section \<open>Prerelease numbers\<close>

lemma last_split_on:
  assumes "c \<notin> set t"
  shows "last (split_on c (s @ c # t)) = t"
proof -
  have nonempty: "split_on c r \<noteq> []" for r by (induction r) (auto split: list.splits)
  have tail: "split_on c t = [t]" using assms by (induction t) auto
  show ?thesis
  proof (induction s)
    case Nil
    then show ?case using tail by simp
  next
    case (Cons x s)
    obtain w ws where "split_on c (s @ c # t) = w # ws" using nonempty by (cases "split_on c (s @ c # t)") auto
    moreover have "ws \<noteq> []" if "split_on c (s @ c # t) = w # ws" for w ws
      using that nonempty by (induction s arbitrary: w ws) (auto split: list.splits if_splits)
    ultimately show ?case using Cons by auto
  qed
qed

lemma py_int_dec: "py_int (dec_of_nat k) = Some (int k)"
proof -
  have plain: "\<not> is_space c \<and> c \<noteq> CHR ''_'' \<and> c \<noteq> CHR ''-'' \<and> c \<noteq> CHR ''+''" if "is_digit c" for c
    using that by (auto simp: is_digit_def is_space_def)
  have digits: "is_digit c" if "c \<in> set (dec_of_nat k)" for c using that by (rule dec_digits)
  have keep: "dropWhile is_space xs = xs" if "\<And>c. c \<in> set xs \<Longrightarrow> is_digit c" for xs
    using that plain by (cases xs) auto
  have "strip (dec_of_nat k) = dec_of_nat k" unfolding strip_def using keep [of "dec_of_nat k"] keep [of "rev (dec_of_nat k)"] digits by simp
  moreover have "split_on (CHR ''_'') xs = [xs]" if "\<And>c. c \<in> set xs \<Longrightarrow> is_digit c" for xs
    using that plain by (induction xs) auto
  then have "split_on (CHR ''_'') (dec_of_nat k) = [dec_of_nat k]" using digits by blast
  moreover obtain c r where "dec_of_nat k = c # r" "is_digit c" using dec_hd_not_minus by blast
  moreover have "nat_of_dec (dec_of_nat k) = k" by simp
  ultimately show ?thesis using digits plain [of c] by (auto simp: py_int_def Let_def)
qed

lemma prerelease_number_step:
  "fold (\<lambda>v n. if starts_with b (sv_prerelease v) then (case f v of None \<Rightarrow> n | Some k \<Rightarrow> max n k) else n) hist (m :: int) \<ge> m"
proof (induction hist arbitrary: m)
  case (Cons v hist)
  let ?m = "if starts_with b (sv_prerelease v) then (case f v of None \<Rightarrow> m | Some k \<Rightarrow> max m k) else m"
  have "m \<le> ?m" by (auto split: option.splits)
  with Cons.IH [of ?m] show ?case by simp
qed simp

lemma prerelease_number_bound:
  assumes "v \<in> set hist" "starts_with b (sv_prerelease v)" "f v = Some k"
  shows "k \<le> fold (\<lambda>v n. if starts_with b (sv_prerelease v) then (case f v of None \<Rightarrow> n | Some k \<Rightarrow> max n k) else n) hist (m :: int)"
  using assms(1)
proof (induction hist arbitrary: m)
  case (Cons w hist)
  show ?case
  proof (cases "v = w")
    case True
    have "k \<le> max m k" by simp
    with prerelease_number_step [of "max m k" b f hist] True assms(2,3) show ?thesis by simp
  next
    case False
    with Cons show ?thesis by simp
  qed
qed simp

text \<open>
  The next prerelease is new: its tag starts with the base tag and its number is positive and above that of
  every version of the history whose tag starts so, and no version of the history equals it.
\<close>

theorem next_prerelease_is_new:
  "v \<in> set (vm_history m) \<Longrightarrow> \<not> semver_eq v (get_next_prerelease base_tag m)"
proof
  assume v: "v \<in> set (vm_history m)" and e: "semver_eq v (get_next_prerelease base_tag m)"
  let ?n = "prerelease_number base_tag (vm_history m)"
  have n: "0 \<le> ?n" unfolding prerelease_number_def by (rule prerelease_number_step)
  have tag: "sv_prerelease v = base_tag @ CHR ''.'' # dec_of_nat (nat (?n + 1))"
    using e n by (simp add: semver_eq_def get_next_prerelease_def Let_def str_of_int_def)
  have "CHR ''.'' \<notin> set (dec_of_nat (nat (?n + 1)))" using dec_digits by (fastforce simp: is_digit_def)
  then have "py_int (last (split_on (CHR ''.'') (sv_prerelease v))) = Some (?n + 1)"
    using n by (simp add: tag last_split_on py_int_dec)
  moreover have "starts_with base_tag (sv_prerelease v)" by (simp add: tag starts_with_def)
  ultimately have "?n + 1 \<le> ?n"
    using prerelease_number_bound [OF v, of base_tag "\<lambda>v. py_int (last (split_on (CHR ''.'') (sv_prerelease v)))" "?n + 1" 0]
    by (simp add: prerelease_number_def)
  then show False by simp
qed

theorem next_prerelease_is_new_witness:
  "version 1 0 0 ''rc.4'' \<in> set (vm_history \<lparr>vm_current = version 1 0 0 ''rc.4'', vm_history = [version 1 0 0 ''rc.4'']\<rparr>) \<and>
   \<not> semver_eq (version 1 0 0 ''rc.4'') (get_next_prerelease ''rc'' \<lparr>vm_current = version 1 0 0 ''rc.4'', vm_history = [version 1 0 0 ''rc.4'']\<rparr>)"
  using next_prerelease_is_new [of "version 1 0 0 ''rc.4''" "\<lparr>vm_current = version 1 0 0 ''rc.4'', vm_history = [version 1 0 0 ''rc.4'']\<rparr>"]
  by simp

text \<open>Tags that are only set never enter the history, so their numbers are given out again.\<close>

lemma set_prerelease_not_counted:
  "get_next_prerelease b (snd (set_prerelease (sv_prerelease (get_next_prerelease b m)) m)) = get_next_prerelease b m"
  by (simp add: get_next_prerelease_def set_prerelease_def Let_def)

section \<open>A full release\<close>

lemma summary_all_required:
  "vs_all_required_passed (get_validation_summary va results) \<longleftrightarrow> (\<forall>r \<in> set results. vr_gate r \<in> va_required_gates va \<longrightarrow> vr_passed r)"
proof -
  have "length (filter P xs) = length xs \<longleftrightarrow> (\<forall>x \<in> set xs. P x)" for P and xs :: "validation_result list"
    using length_filter_less [of _ xs P] by (metis filter_id_conv less_irrefl)
  then show ?thesis by (auto simp: get_validation_summary_def Let_def)
qed

lemma gate_results:
  "(\<forall>r \<in> set (fst (validate w va rl)). vr_gate r \<in> va_required_gates va \<longrightarrow> vr_passed r) \<longleftrightarrow>
   (\<forall>(gate, f) \<in> set (va_gates va). gate \<in> va_required_gates va \<longrightarrow> (\<exists>msg. rw_gate w f = Inr (True, msg)))"
proof -
  have r: "vr_gate (run_gate w i gate f) = gate" "vr_passed (run_gate w i gate f) \<longleftrightarrow> (\<exists>msg. rw_gate w f = Inr (True, msg))" for i gate f
    by (auto simp: run_gate_def Let_def split: sum.splits prod.splits)
  have "set (va_gates va) = snd ` set (zip [0..<length (va_gates va)] (va_gates va))"
    by (metis length_map list.set_map map_nth map_snd_zip)
  then show ?thesis by (auto simp: validate_def Let_def r list_all_iff)
qed

lemma publish_results:
  assumes "cs \<noteq> []"
  shows "list_all fst (dvalues (fst (publish w ps (Some cs) rl))) \<longleftrightarrow> rl_status (snd (publish w ps (Some cs) rl)) = PUBLISHED"
proof -
  define f where "f = publish_one w ps (rl\<lparr>rl_status := PUBLISHING, rl_channels := cs\<rparr>)"
  have gen: "dict_ok d \<Longrightarrow> dict_ok (fold (\<lambda>c d. dset c (f c) d) xs d) \<and>
      (\<forall>c. dget (fold (\<lambda>c d. dset c (f c) d) xs d) c = (if c \<in> set xs then Some (f c) else dget d c))" for xs d
    by (induction xs arbitrary: d) (auto simp: dict_ok_dset)
  from gen [of "[]" cs] have "set (dvalues (fold (\<lambda>c d. dset c (f c) d) cs [])) = f ` set cs"
    by (auto simp: set_dvalues image_iff split: if_splits) metis
  then show ?thesis using assms by (auto simp: publish_def Let_def list_all_iff simp flip: f_def)
qed

text \<open>The release that the first step enters, and what the later steps make of it.\<close>

lemma created_release:
  assumes "create_release w t summary by m = (r, m1)"
  shows "r < length (rm_objects m1) \<and> rm_validator m1 = rm_validator m \<and> rm_builders m1 = rm_builders m \<and>
    rm_publishers m1 = rm_publishers m \<and> rl_status (rm_objects m1 ! r) = DRAFT"
  using assms by (auto simp: create_release_def enter_release_def vm_bump_def Let_def split: prod.splits)

definition gates_pass :: "release_world \<Rightarrow> validator \<Rightarrow> bool" where
  "gates_pass w va \<longleftrightarrow> (\<forall>(gate, f) \<in> set (va_gates va). gate \<in> va_required_gates va \<longrightarrow> (\<exists>msg. rw_gate w f = Inr (True, msg)))"

lemma validate_release_passes:
  "fst (validate_release w r m) \<longleftrightarrow> gates_pass w (rm_validator m)"
  using gate_results [of w "rm_validator m" "rm_objects m ! r"]
  by (simp add: validate_release_def split_def Let_def summary_all_required gates_pass_def)

text \<open>
  A full release succeeds exactly when every gate that is both required and registered passes, at least one
  builder delivers an artifact, and every channel asked for publishes; it then ends up published, or built when
  no channel was asked for. Required gates that nobody registered are not asked.
\<close>

theorem full_release_succeeds_iff:
  assumes "create_release w1 t summary by m = (r, m1)" and "validate_release w2 r m1 = (passed, m2)"
    and "build_release w3 r None m2 = (artifacts, m3)" and "publish_release w4 r channels m3 = (results, m4)"
  shows "(\<exists>n cs m'. execute_full_release w1 w2 w3 w4 t summary by channels m = (Released n cs, r, m') \<and>
      rl_status (rm_objects m' ! r) = (if channels = None \<or> channels = Some [] then BUILT else PUBLISHED)) \<longleftrightarrow>
    gates_pass w2 (rm_validator m) \<and> artifacts \<noteq> [] \<and>
    (channels = None \<or> channels = Some [] \<or> rl_status (rm_objects m4 ! r) = PUBLISHED)"
proof -
  note c = created_release [OF assms(1)]
  have p: "passed \<longleftrightarrow> gates_pass w2 (rm_validator m)"
    using validate_release_passes [of w2 r m1] assms(2) c by simp
  have l: "r < length (rm_objects m2)" using assms(2) c by (auto simp: validate_release_def put_release_def split: prod.splits)
  have b: "rl_status (rm_objects m3 ! r) = BUILT" if "artifacts \<noteq> []"
    using assms(3) l that by (auto simp: build_release_def build_artifacts_def put_release_def Let_def)
  have l3: "r < length (rm_objects m3)" using assms(3) l by (auto simp: build_release_def put_release_def split: prod.splits)
  have q: "list_all fst (dvalues results) \<longleftrightarrow> rl_status (rm_objects m4 ! r) = PUBLISHED" if "channels = Some cs" "cs \<noteq> []" for cs
    using assms(4) l3 publish_results [OF that(2), of w4 "rm_publishers m3" "rm_objects m3 ! r"] that(1)
    by (auto simp: publish_release_def put_release_def split: prod.splits)
  show ?thesis
  proof (cases "channels = None \<or> channels = Some []")
    case True
    then show ?thesis using p b by (auto simp: execute_full_release_def assms(1-3))
  next
    case False
    then obtain cs where "channels = Some cs" "cs \<noteq> []" by (cases channels) auto
    from q [OF this] False show ?thesis using p by (auto simp: execute_full_release_def assms)
  qed
qed

definition demo_release_world :: release_world where
  "demo_release_world = \<lparr>rw_clock = \<lambda>i. 0, rw_uuid = ''u'', rw_gate = \<lambda>f. Inl ''down'',
     rw_build = \<lambda>f rl. Inr (Some \<lparr>ar_artifact_id = [], ar_name = ''w'', ar_artifact_type = ''wheel'', ar_path = [], ar_size_bytes = 0,
       ar_checksum_sha256 = [], ar_created_at = 0\<rparr>), rw_publish = \<lambda>f rl. Inr (True, []), rw_sha256_hex = \<lambda>s. []\<rparr>"

definition demo_release_manager :: release_manager where
  "demo_release_manager = \<lparr>rm_product_name = ''W'', rm_version_manager = \<lparr>vm_current = version 1 0 0 [], vm_history = [version 1 0 0 []]\<rparr>,
     rm_changelog_generator = \<lparr>cg_objects = [], cg_changelogs = []\<rparr>, rm_validator = validator_init, rm_builders = [(''wheel'', 0)],
     rm_publishers = [], rm_objects = [], rm_releases = []\<rparr>"

text \<open>With no gate registered, a release passes all its required gates.\<close>

theorem full_release_succeeds_iff_witness:
  "\<exists>n cs m'. execute_full_release demo_release_world demo_release_world demo_release_world demo_release_world MINOR [] [] None
     demo_release_manager = (Released n cs, 0, m') \<and> rl_status (rm_objects m' ! 0) = BUILT"
proof -
  let ?w = demo_release_world
  have r: "fst (create_release ?w MINOR [] [] demo_release_manager) = 0"
    by (simp add: create_release_def enter_release_def create_changelog_def vm_bump_def demo_release_manager_def Let_def)
  obtain m1 where c: "create_release ?w MINOR [] [] demo_release_manager = (0, m1)" using r by (metis prod.collapse)
  obtain passed m2 where v: "validate_release ?w 0 m1 = (passed, m2)" by fastforce
  obtain artifacts m3 where b: "build_release ?w 0 None m2 = (artifacts, m3)" by fastforce
  obtain results m4 where p: "publish_release ?w 0 None m3 = (results, m4)" by fastforce
  have "rm_builders m2 = [(''wheel'', 0)]"
    using v created_release [OF c] by (auto simp: validate_release_def put_release_def demo_release_manager_def split: prod.splits)
  then have "artifacts \<noteq> []"
    using b by (auto simp: build_release_def build_artifacts_def built_def demo_release_world_def dkeys_def dget_Cons map_filter_simps Let_def)
  moreover have "gates_pass ?w (rm_validator demo_release_manager)" by (simp add: gates_pass_def demo_release_manager_def validator_init_def)
  ultimately show ?thesis using full_release_succeeds_iff [OF c v b p] by simp
qed

text \<open>Publishing asks neither for validation nor for artifacts.\<close>

lemma draft_can_be_published:
  assumes "dget ps c = Some f" and "\<And>rl. rw_publish w f rl = Inr (True, msg)"
  shows "rl_status (snd (publish w ps (Some [c]) rl)) = PUBLISHED"
  using assms by (simp add: publish_def publish_one_def Let_def)

end
