(* ===== verification/Chain.thy ===== *)
theory Chain
  imports Web Credits "HOL-Library.Char_ord"
begin

text \<open>
  The chain of blocks: the store of \<^verbatim>\<open>kernel/sys/persistence.py\<close> with its SQLite tables, the commitments of
  \<^verbatim>\<open>kernel/substrate/proof_zk.py\<close> and the replicated ledger of \<^verbatim>\<open>kernel/economy/ledger.py\<close>, together with the part of
  the native ledger (\<^verbatim>\<open>rust_core/src/ledger.rs\<close>) that mines blocks and answers queries. Amounts of the native
  ledger are 64-bit words. Rows are kept in the order of their ids, and lists that a column holds as JSON text are
  kept as lists. Digests, \<open>json.loads\<close> and \<open>json.dumps\<close> of general values, the native verification of a proof and
  whether a native write succeeds are arguments.
\<close>

section \<open>The native ledger\<close>

type_synonym u64 = "64 word"

record native_tx =
  nx_tx_id :: string
  nx_source :: string
  nx_target :: string
  nx_amount :: u64
  nx_signature :: string
  nx_timestamp :: pyfloat
  nx_max_fee :: u64
  nx_priority_fee :: u64

record block =
  bk_index :: "int option"
  bk_timestamp :: pyfloat
  bk_tx_ids :: "string list"
  bk_miner :: string
  bk_prev_hash :: string
  bk_hash :: string
  bk_zk_proof :: "string option"
  bk_state_root :: "string option"

record native =
  nv_pending :: "native_tx list"
  nv_balances :: "(string, u64) dict"
  nv_blocks :: "(string, block) dict"
  nv_last_hash :: "string option"
  nv_locks :: "string list"

definition GENESIS_HASH :: string where
  "GENESIS_HASH = replicate 64 (CHR ''0'')"

definition nv_balance :: "native \<Rightarrow> string \<Rightarrow> u64" where
  "nv_balance n addr = (case dget (nv_balances n) addr of None \<Rightarrow> 0 | Some b \<Rightarrow> b)"

definition nv_get_last_block :: "native \<Rightarrow> block option" where
  "nv_get_last_block n = Option.bind (nv_last_hash n) (dget (nv_blocks n))"

definition nv_get_block :: "string \<Rightarrow> native \<Rightarrow> block option" where
  "nv_get_block h n = dget (nv_blocks n) h"

definition balance_text :: "(string \<times> string) list \<Rightarrow> string" where
  "balance_text items = join_with ''|'' (map (\<lambda>(k, v). k @ '':'' @ v) (sort_key fst items))"

definition nv_get_state_root :: "(string \<Rightarrow> string) \<Rightarrow> native \<Rightarrow> string" where
  "nv_get_state_root sha3 n = sha3 (balance_text (map (\<lambda>(k, v). (k, dec_of_nat (unat v))) (nv_balances n)))"

text \<open>One pending transaction: the sum of amount and fee wraps around, as does the credit to the target.\<close>

definition mine_tx :: "native_tx \<Rightarrow> (string, u64) dict \<times> string list \<Rightarrow> (string, u64) dict \<times> string list" where
  "mine_tx tx = (\<lambda>(bal, ids).
     let get = (\<lambda>d a. case dget d a of None \<Rightarrow> 0 | Some b \<Rightarrow> b);
         cost = nx_amount tx + nx_max_fee tx; sb = get bal (nx_source tx)
     in if nx_source tx \<noteq> ''GENESIS'' \<and> sb < cost then (bal, ids)
        else
          let bal1 = (if nx_source tx \<noteq> ''GENESIS'' then dset (nx_source tx) (sb - cost) bal else bal)
          in (dset (nx_target tx) (get bal1 (nx_target tx) + nx_amount tx) bal1, ids @ [nx_tx_id tx]))"

definition be4 :: "int \<Rightarrow> string" where
  "be4 i = map (\<lambda>k. char_of (nat (i div 256 ^ k mod 256))) [3, 2, 1, 0]"

text \<open>Mining; \<open>ok\<close> says whether the batch reaches the disk, which the code does not ask.\<close>

definition nv_mine_block :: "(string \<Rightarrow> string) \<Rightarrow> bool \<Rightarrow> string \<Rightarrow> native \<Rightarrow> string option \<times> native" where
  "nv_mine_block sha3 ok miner n =
     (if miner \<in> set (nv_locks n) then (None, n)
      else if nv_pending n = [] \<and> miner \<noteq> ''GENESIS'' then (None, n)
      else
        let last = nv_get_last_block n;
            prev = (case last of None \<Rightarrow> GENESIS_HASH | Some b \<Rightarrow> bk_hash b);
            idx = (case last of None \<Rightarrow> 0 | Some b \<Rightarrow> ((case bk_index b of None \<Rightarrow> 0 | Some i \<Rightarrow> i) + 1) mod 2 ^ 32);
            (bal, ids) = fold mine_tx (nv_pending n) (nv_balances n, []);
            h = sha3 (prev @ miner @ be4 idx);
            b = \<lparr>bk_index = Some idx, bk_timestamp = Fin 1738243200, bk_tx_ids = ids, bk_miner = miner, bk_prev_hash = prev,
                 bk_hash = h, bk_zk_proof = None, bk_state_root = Some (nv_get_state_root sha3 n)\<rparr>
        in (Some h, if ok then n\<lparr>nv_balances := bal, nv_blocks := dset h b (nv_blocks n), nv_last_hash := Some h, nv_pending := []\<rparr>
                    else n\<lparr>nv_pending := []\<rparr>))"

section \<open>The store\<close>

record event_row =
  ev_timestamp :: pyfloat
  ev_event_type :: string
  ev_payload :: json
  ev_prev_hash :: string
  ev_hash :: string
  ev_state_root :: "string option"
  ev_zk_proof :: "string option"

record sqlite =
  db_ledger :: "event_row list"
  db_metadata :: "(string, string) dict"
  db_blocks :: "block list"
  db_balances :: "(string, int) dict"

definition sqlite_init :: sqlite where
  "sqlite_init = \<lparr>db_ledger = [], db_metadata = [], db_blocks = [], db_balances = []\<rparr>"

record chain_store =
  cs_conn :: "sqlite option"
  cs_use_rust :: bool
  cs_kv :: "(string, string) dict option"
  cs_native :: "native option"

definition log_event :: "event_row \<Rightarrow> chain_store \<Rightarrow> int result \<times> chain_store" where
  "log_event e s =
     (case cs_conn s of
        None \<Rightarrow> (Inl RuntimeError, s)
      | Some db \<Rightarrow> (Inr (int (length (db_ledger db)) + 1), s\<lparr>cs_conn := Some (db\<lparr>db_ledger := db_ledger db @ [e]\<rparr>)\<rparr>))"

definition get_last_event :: "chain_store \<Rightarrow> event_row option" where
  "get_last_event s =
     (case cs_conn s of None \<Rightarrow> None | Some db \<Rightarrow> if db_ledger db = [] then None else Some (last (db_ledger db)))"

definition get_all_events :: "chain_store \<Rightarrow> event_row list" where
  "get_all_events s = (case cs_conn s of None \<Rightarrow> [] | Some db \<Rightarrow> db_ledger db)"

text \<open>Values come back as text; an empty text is nothing, and a text that is not JSON is itself.\<close>

definition deserialize_stored_value :: "(string \<Rightarrow> json option) \<Rightarrow> string option \<Rightarrow> json" where
  "deserialize_stored_value loads raw =
     (case raw of
        None \<Rightarrow> JNull
      | Some t \<Rightarrow> if strip t = [] then JNull else (case loads (strip t) of Some j \<Rightarrow> j | None \<Rightarrow> JStr t))"

definition kv_active :: "chain_store \<Rightarrow> (string, string) dict option" where
  "kv_active s = (if cs_use_rust s then cs_kv s else None)"

definition set_meta :: "(json \<Rightarrow> string) \<Rightarrow> bool \<Rightarrow> string \<Rightarrow> json \<Rightarrow> chain_store \<Rightarrow> chain_store" where
  "set_meta dumps ok k v s =
     (let s1 = (case kv_active s of Some kv \<Rightarrow> if ok then s\<lparr>cs_kv := Some (dset k (dumps v) kv)\<rparr> else s | None \<Rightarrow> s)
      in case cs_conn s1 of
           None \<Rightarrow> s1
         | Some db \<Rightarrow> s1\<lparr>cs_conn := Some (db\<lparr>db_metadata := dset k (dumps v) (db_metadata db)\<rparr>)\<rparr>)"

definition get_meta :: "(string \<Rightarrow> json option) \<Rightarrow> bool \<Rightarrow> string \<Rightarrow> chain_store \<Rightarrow> json" where
  "get_meta loads ok k s =
     (let table = (case cs_conn s of None \<Rightarrow> JNull | Some db \<Rightarrow> deserialize_stored_value loads (dget (db_metadata db) k))
      in case kv_active s of
           Some kv \<Rightarrow> if ok then deserialize_stored_value loads (dget kv k) else table
         | None \<Rightarrow> table)"

definition get_all_meta :: "chain_store \<Rightarrow> (string \<times> string) list" where
  "get_all_meta s = (case cs_conn s of None \<Rightarrow> [] | Some db \<Rightarrow> db_metadata db)"

definition native_active :: "chain_store \<Rightarrow> native option" where
  "native_active s = (if cs_use_rust s then cs_native s else None)"

text \<open>The balances as the credit manager sees them.\<close>

definition balances_view :: "chain_store \<Rightarrow> store" where
  "balances_view s = \<lparr>sv_native = map_option (\<lambda>n a. uint (nv_balance n a)) (native_active s), sv_balances = map_option db_balances (cs_conn s)\<rparr>"

definition get_all_balances :: "chain_store \<Rightarrow> (string, int) dict" where
  "get_all_balances s =
     (case native_active s of
        Some n \<Rightarrow> map (\<lambda>(k, v). (k, uint v)) (nv_balances n)
      | None \<Rightarrow> (case cs_conn s of None \<Rightarrow> [] | Some db \<Rightarrow> db_balances db))"

text \<open>One transaction of the database: the unique hash is checked first, and on a violation nothing is written.\<close>

definition commit_block :: "block \<Rightarrow> (string, int) dict \<Rightarrow> chain_store \<Rightarrow> unit result \<times> chain_store" where
  "commit_block b updates s =
     (case cs_conn s of
        None \<Rightarrow> (Inr (), s)
      | Some db \<Rightarrow>
          if bk_hash b \<in> set (map bk_hash (db_blocks db)) then (Inl IntegrityError, s)
          else (Inr (), s\<lparr>cs_conn := Some (db\<lparr>db_blocks := db_blocks db @ [b],
                 db_balances := fold (\<lambda>(a, v). dset a v) updates (db_balances db)\<rparr>)\<rparr>))"

text \<open>
  A block as a dictionary. The native ledger gives the transactions as a list, the table their JSON text, whose
  elements are its characters.
\<close>

record block_view =
  bv_items :: "string list"
  bv_prev_hash :: string
  bv_hash :: string
  bv_zk_proof :: "string option"

definition view_native :: "block \<Rightarrow> block_view" where
  "view_native b = \<lparr>bv_items = bk_tx_ids b, bv_prev_hash = bk_prev_hash b, bv_hash = bk_hash b, bv_zk_proof = bk_zk_proof b\<rparr>"

definition tx_text :: "string list \<Rightarrow> string" where
  "tx_text txs = ''['' @ join_with '', '' (map json_string txs) @ '']''"

definition view_row :: "block \<Rightarrow> block_view" where
  "view_row b = (view_native b)\<lparr>bv_items := map (\<lambda>c. [c]) (tx_text (bk_tx_ids b))\<rparr>"

definition get_last_block :: "chain_store \<Rightarrow> block_view option" where
  "get_last_block s =
     (case native_active s of
        Some n \<Rightarrow> map_option view_native (nv_get_last_block n)
      | None \<Rightarrow> (case cs_conn s of None \<Rightarrow> None | Some db \<Rightarrow> if db_blocks db = [] then None else Some (view_row (last (db_blocks db)))))"

definition get_block :: "string \<Rightarrow> chain_store \<Rightarrow> block_view option" where
  "get_block h s =
     (case native_active s of
        Some n \<Rightarrow> map_option view_native (nv_get_block h n)
      | None \<Rightarrow> (case cs_conn s of None \<Rightarrow> None | Some db \<Rightarrow> map_option view_row (List.find (\<lambda>b. bk_hash b = h) (db_blocks db))))"

datatype blob = BytesBlob bytes | TextBlob string

definition hex_str :: "bytes \<Rightarrow> string" where
  "hex_str bs = map char_of (to_hex bs)"

definition blob_text :: "blob \<Rightarrow> string" where
  "blob_text v = (case v of BytesBlob bs \<Rightarrow> hex_str bs | TextBlob t \<Rightarrow> t)"

definition put_blob :: "bool \<Rightarrow> string \<Rightarrow> blob \<Rightarrow> chain_store \<Rightarrow> chain_store" where
  "put_blob ok k v s =
     (let table = (case cs_conn s of
            None \<Rightarrow> s
          | Some db \<Rightarrow> s\<lparr>cs_conn := Some (db\<lparr>db_metadata := dset k (json_string (blob_text v)) (db_metadata db)\<rparr>)\<rparr>)
      in case kv_active s of
           Some kv \<Rightarrow> if ok then s\<lparr>cs_kv := Some (dset k (blob_text v) kv)\<rparr> else table
         | None \<Rightarrow> table)"

definition blob_of_text :: "string \<Rightarrow> bytes" where
  "blob_of_text t = (case from_hex (map of_char t) of Inr bs \<Rightarrow> bs | Inl e \<Rightarrow> map word_of_nat (encode_text t))"

definition get_blob :: "(string \<Rightarrow> json option) \<Rightarrow> bool \<Rightarrow> string \<Rightarrow> chain_store \<Rightarrow> bytes option" where
  "get_blob loads ok k s =
     (let text = (\<lambda>j. case j of JStr t \<Rightarrow> Some t | _ \<Rightarrow> None);
          kv_value = (case kv_active s of Some kv \<Rightarrow> if ok then text (deserialize_stored_value loads (dget kv k)) else None | None \<Rightarrow> None);
          value = (case kv_value of
                     Some t \<Rightarrow> Some t
                   | None \<Rightarrow> (case cs_conn s of
                                None \<Rightarrow> None
                              | Some db \<Rightarrow> text (deserialize_stored_value loads (dget (db_metadata db) k))))
      in map_option blob_of_text value)"

text \<open>\<open>reconcile_state\<close>: the native tables are overwritten by the rows; \<open>ok\<close> says whether the native call succeeds.\<close>

definition store_reconcile :: "bool \<Rightarrow> chain_store \<Rightarrow> bool \<times> chain_store" where
  "store_reconcile ok s =
     (case (native_active s, cs_conn s) of
        (Some n, Some db) \<Rightarrow>
          if ok then
            (True, s\<lparr>cs_native := Some (n\<lparr>nv_balances := fold (\<lambda>(a, v). dset a (word_of_int v)) (db_balances db) (nv_balances n),
               nv_blocks := fold (\<lambda>b. dset (bk_hash b) b) (db_blocks db) (nv_blocks n),
               nv_last_hash := (if db_blocks db = [] \<or> bk_hash (last (db_blocks db)) = [] then nv_last_hash n
                                else Some (bk_hash (last (db_blocks db))))\<rparr>)\<rparr>)
          else (False, s)
      | _ \<Rightarrow> (False, s))"

definition close_store :: "chain_store \<Rightarrow> chain_store" where
  "close_store s = \<lparr>cs_conn = None, cs_use_rust = False, cs_kv = None, cs_native = None\<rparr>"

section \<open>Commitments\<close>

definition compute_commitment :: "(string \<Rightarrow> string) \<Rightarrow> string \<Rightarrow> string list \<Rightarrow> string \<Rightarrow> string" where
  "compute_commitment sha256 prev_root txs new_root =
     sha256 (prev_root @ '':'' @ sha256 (concat (sort txs)) @ '':'' @ new_root)"

text \<open>
  \<open>core\<close> says whether the native module is loaded; \<open>check\<close> verifies a proof against its commitment, and a proof
  it cannot read is invalid. Metadata that is no object raises.
\<close>

record zk_world =
  zk_core :: bool
  zk_sha256 :: "string \<Rightarrow> string"
  zk_loads :: "string \<Rightarrow> json option"
  zk_dumps :: "json \<Rightarrow> string"
  zk_check :: "json \<Rightarrow> json \<Rightarrow> bool"
  zk_prove :: "nat \<Rightarrow> string \<Rightarrow> (string \<times> string) result"

text \<open>
  Making a proof: the first sixteen digits of the commitment, reduced to 32 bits, are the number that the native
  core proves to be in range; it answers the commitment to that number and the proof, or fails.
\<close>

definition proof_number :: "string \<Rightarrow> nat result" where
  "proof_number c = (case from_hex (map of_char (take 16 c)) of Inl e \<Rightarrow> Inl ValueError | Inr bs \<Rightarrow> Inr (be_dec bs mod 2 ^ 32))"

definition generate_proof :: "zk_world \<Rightarrow> string \<Rightarrow> string list \<Rightarrow> string \<Rightarrow> string result" where
  "generate_proof z prev_root txs new_root =
     (if \<not> zk_core z then Inl RuntimeError
      else
        let c = compute_commitment (zk_sha256 z) prev_root txs new_root
        in bindE (proof_number c) (\<lambda>v.
           case zk_prove z v (zk_sha256 z (''blind:'' @ c)) of
             Inl e \<Rightarrow> Inl RuntimeError
           | Inr (cm, p) \<Rightarrow>
               Inr (zk_dumps z (JObj [(''prefix'', JStr ''zkp_v2_bulletproofs''), (''commitment'', JStr cm), (''proof'', JStr p),
                 (''meta'', JObj [(''orig_commitment'', JStr c), (''prev_state_root'', JStr prev_root),
                   (''new_state_root'', JStr new_root)])]))))"

definition verify_zk_proof :: "zk_world \<Rightarrow> string \<Rightarrow> string \<Rightarrow> string list \<Rightarrow> string \<Rightarrow> bool result" where
  "verify_zk_proof z proof_json prev_root txs new_root =
     (if \<not> zk_core z then Inr False
      else case zk_loads z proof_json of
             Some (JObj d) \<Rightarrow>
               if dget d ''prefix'' \<noteq> Some (JStr ''zkp_v2_bulletproofs'') then Inr False
               else
                 bindE (j_get (case dget d ''meta'' of Some m \<Rightarrow> m | None \<Rightarrow> JObj []) ''orig_commitment'' JNull) (\<lambda>c.
                 if c \<noteq> JStr (compute_commitment (zk_sha256 z) prev_root txs new_root) then Inr False
                 else case (dget d ''proof'', dget d ''commitment'') of
                        (Some p, Some cm) \<Rightarrow> Inr (zk_check z p cm)
                      | _ \<Rightarrow> Inr False)
           | _ \<Rightarrow> Inr False)"

section \<open>The replicated ledger\<close>

record transaction =
  tx_source :: string
  tx_target :: string
  tx_amount :: int
  tx_signature :: string
  tx_timestamp :: pyfloat
  tx_max_fee :: int
  tx_priority_fee :: int

definition tx_id :: "(string \<Rightarrow> string) \<Rightarrow> (pyfloat \<Rightarrow> string) \<Rightarrow> transaction \<Rightarrow> string" where
  "tx_id sha3 show_time tx =
     sha3 (join_with '':'' [tx_source tx, tx_target tx, str_of_int (tx_amount tx), show_time (tx_timestamp tx),
       str_of_int (tx_max_fee tx), str_of_int (tx_priority_fee tx)])"

definition u64_ok :: "int \<Rightarrow> bool" where
  "u64_ok i \<longleftrightarrow> 0 \<le> i \<and> i < 2 ^ 64"

text \<open>
  The native ledger takes 64-bit numbers only and may refuse the call; whether it keeps the transaction or drops
  it (a bad signature, a locked sender), given by \<open>accept\<close>, is not reported back.
\<close>

definition submit_tx :: "(native_tx \<Rightarrow> native \<Rightarrow> native result) \<Rightarrow> string \<Rightarrow> transaction \<Rightarrow> native \<Rightarrow> bool \<times> native" where
  "submit_tx accept tid tx n =
     (if tx_amount tx < 0 then (False, n)
      else if \<not> (u64_ok (tx_amount tx) \<and> u64_ok (tx_max_fee tx) \<and> u64_ok (tx_priority_fee tx)) then (False, n)
      else case accept \<lparr>nx_tx_id = tid, nx_source = tx_source tx, nx_target = tx_target tx, nx_amount = word_of_int (tx_amount tx),
             nx_signature = tx_signature tx, nx_timestamp = tx_timestamp tx, nx_max_fee = word_of_int (tx_max_fee tx),
             nx_priority_fee = word_of_int (tx_priority_fee tx)\<rparr> n of
             Inl e \<Rightarrow> (False, n)
           | Inr n1 \<Rightarrow> (True, n1))"

text \<open>The ledger over a store whose native ledger it shares; a failing commit raises after the native block was made.\<close>

definition ledger_mine_block :: "(string \<Rightarrow> string) \<Rightarrow> bool \<Rightarrow> string \<Rightarrow> native \<times> chain_store \<Rightarrow> string option result \<times> native \<times> chain_store" where
  "ledger_mine_block sha3 ok miner = (\<lambda>(n, s).
     case nv_mine_block sha3 ok miner n of
       (h, n1) \<Rightarrow>
         let s1 = (if cs_native s = None then s else s\<lparr>cs_native := Some n1\<rparr>) in
         if h = None \<or> h = Some [] then (Inr None, n1, s1)
         else case nv_get_last_block n1 of
                None \<Rightarrow> (Inr h, n1, s1)
              | Some b \<Rightarrow>
                  (case commit_block b (map (\<lambda>(k, v). (k, uint v)) (nv_balances n1)) s1 of
                     (Inl e, s2) \<Rightarrow> (Inl e, n1, s2)
                   | (Inr _, s2) \<Rightarrow> (Inr h, n1, s2)))"

record block_data =
  bd_index :: "int option option"
  bd_prev_hash :: "string option"
  bd_tx_ids :: "string list option"
  bd_hash :: "string option"
  bd_miner :: "string option"

definition claimed_root :: "(string \<Rightarrow> string) \<Rightarrow> (string, int) dict \<Rightarrow> string" where
  "claimed_root sha256 updates = sha256 (balance_text (map (\<lambda>(k, v). (k, str_of_int v)) updates))"

definition receive_external_block ::
    "zk_world \<Rightarrow> (json \<Rightarrow> string) \<Rightarrow> bool \<Rightarrow> string \<Rightarrow> pyfloat \<Rightarrow> string \<Rightarrow> block_data \<Rightarrow> (string, int) dict \<Rightarrow> string \<Rightarrow> string list \<Rightarrow>
     chain_store \<Rightarrow> bool result \<times> chain_store" where
  "receive_external_block z dumps ok now_text now prev_root bd updates zk_proof txs s =
     (case (bd_index bd, bd_prev_hash bd, bd_tx_ids bd, bd_hash bd) of
        (Some idx, Some prev, Some ids, Some h) \<Rightarrow>
          (case verify_zk_proof z zk_proof prev_root txs (claimed_root (zk_sha256 z) updates) of
             Inl e \<Rightarrow> (Inl e, s)
           | Inr False \<Rightarrow>
               let miner = (case bd_miner bd of None \<Rightarrow> ''UNKNOWN'' | Some m \<Rightarrow> m)
               in (Inr False, set_meta dumps ok (''SLASH:'' @ miner @ '':'' @ now_text)
                    (JObj [(''reason'', JStr ''INVALID_ZK_PROOF''), (''block_hash'', JStr h)]) s)
           | Inr True \<Rightarrow>
               (case commit_block \<lparr>bk_index = idx, bk_timestamp = now, bk_tx_ids = ids, bk_miner = ''REMOTE'', bk_prev_hash = prev,
                      bk_hash = h, bk_zk_proof = Some zk_proof, bk_state_root = None\<rparr> updates s of
                  (Inl e, s1) \<Rightarrow> (Inr False, s1)
                | (Inr _, s1) \<Rightarrow> (Inr True, s1)))
      | _ \<Rightarrow> (Inr False, s))"

section \<open>What mining does to the supply\<close>

definition native_supply :: "(string, u64) dict \<Rightarrow> int" where
  "native_supply d = dsum uint d"

definition pays :: "native_tx \<Rightarrow> (string, u64) dict \<Rightarrow> bool" where
  "pays tx d \<longleftrightarrow> nx_source tx = ''GENESIS'' \<or> nx_amount tx + nx_max_fee tx \<le> (case dget d (nx_source tx) of None \<Rightarrow> 0 | Some b \<Rightarrow> b)"

lemma fst_mine_tx: "fst (mine_tx tx (d, ids)) = fst (mine_tx tx (d, []))"
  by (simp add: mine_tx_def Let_def)

lemma balance_below_supply: "uint (case dget d a of None \<Rightarrow> 0 :: u64 | Some b \<Rightarrow> b) \<le> native_supply d"
proof (cases "dget d a")
  case None
  then show ?thesis by (simp add: native_supply_def dsum_nonneg)
next
  case (Some b)
  then show ?thesis using dsum_member [of d uint a b] by (simp add: native_supply_def)
qed

lemma native_supply_dset: "native_supply (dset a v d) = native_supply d + uint v - uint (case dget d a of None \<Rightarrow> 0 | Some b \<Rightarrow> b)"
  by (auto simp: native_supply_def dsum_dset split: option.splits)

lemma uint_sub_exact: "(c :: u64) \<le> b \<Longrightarrow> uint (b - c) = uint b - uint c"
  by (simp add: uint_sub_lem word_le_def)

lemma uint_add_exact: "uint a + uint (b :: u64) < 2 ^ 64 \<Longrightarrow> uint (a + b) = uint a + uint b"
  using uint_add_lem [of a b] by simp

text \<open>What a transaction costs its source is the wrapped sum; what the target gains is the amount.\<close>

lemma mine_tx_supply:
  assumes "nx_source tx \<noteq> ''GENESIS''" "pays tx d"
    and "native_supply d - uint (nx_amount tx + nx_max_fee tx) + uint (nx_amount tx) < 2 ^ 64"
  shows "native_supply (fst (mine_tx tx (d, ids))) = native_supply d - uint (nx_amount tx + nx_max_fee tx) + uint (nx_amount tx)"
proof -
  let ?get = "\<lambda>d a. case dget d a of None \<Rightarrow> 0 :: u64 | Some b \<Rightarrow> b"
  let ?cost = "nx_amount tx + nx_max_fee tx"
  let ?bal = "dset (nx_source tx) (?get d (nx_source tx) - ?cost) d"
  have c: "?cost \<le> ?get d (nx_source tx)" using assms(1,2) by (simp add: pays_def)
  have s1: "native_supply ?bal = native_supply d - uint ?cost" by (simp add: native_supply_dset uint_sub_exact [OF c])
  have "uint (?get ?bal (nx_target tx)) + uint (nx_amount tx) < 2 ^ 64"
    using balance_below_supply [of ?bal "nx_target tx"] s1 assms(3) by linarith
  from uint_add_exact [OF this]
  have "native_supply (dset (nx_target tx) (?get ?bal (nx_target tx) + nx_amount tx) ?bal) = native_supply ?bal + uint (nx_amount tx)"
    by (simp add: native_supply_dset)
  moreover have "fst (mine_tx tx (d, ids)) = dset (nx_target tx) (?get ?bal (nx_target tx) + nx_amount tx) ?bal"
    using assms(1) leD [OF c] by (simp add: mine_tx_def Let_def)
  ultimately show ?thesis using s1 by simp
qed

lemma mine_tx_skips: "\<not> pays tx d \<Longrightarrow> mine_tx tx (d, ids) = (d, ids)"
  by (simp add: mine_tx_def pays_def Let_def not_le)

fun burnt :: "native_tx list \<Rightarrow> (string, u64) dict \<Rightarrow> int" where
  "burnt [] d = 0"
| "burnt (tx # txs) d = (if pays tx d then uint (nx_max_fee tx) else 0) + burnt txs (fst (mine_tx tx (d, [])))"

definition plain_tx :: "native_tx \<Rightarrow> bool" where
  "plain_tx tx \<longleftrightarrow> nx_source tx \<noteq> ''GENESIS'' \<and> uint (nx_amount tx) + uint (nx_max_fee tx) < 2 ^ 64"

lemma mine_fold_supply:
  assumes "\<forall>tx \<in> set txs. plain_tx tx" "native_supply d < 2 ^ 64"
  shows "native_supply (fst (fold mine_tx txs (d, ids))) = native_supply d - burnt txs d \<and> 0 \<le> burnt txs d"
  using assms
proof (induction txs arbitrary: d ids)
  case (Cons tx txs)
  have t: "plain_tx tx" using Cons.prems(1) by simp
  then have c: "uint (nx_amount tx + nx_max_fee tx) = uint (nx_amount tx) + uint (nx_max_fee tx)"
    by (simp add: plain_tx_def uint_add_exact)
  obtain d1 ids1 where d1: "mine_tx tx (d, ids) = (d1, ids1)" by fastforce
  then have f: "fst (mine_tx tx (d, [])) = d1" using fst_mine_tx [of tx d ids] by simp
  have s: "native_supply d1 = native_supply d - (if pays tx d then uint (nx_max_fee tx) else 0)"
  proof (cases "pays tx d")
    case True
    have lt: "native_supply d - uint (nx_amount tx + nx_max_fee tx) + uint (nx_amount tx) < 2 ^ 64"
      using Cons.prems(2) c uint_ge_0 [of "nx_max_fee tx"] by linarith
    show ?thesis using mine_tx_supply [OF _ True lt, of ids] t d1 c True by (simp add: plain_tx_def)
  qed (use mine_tx_skips [of tx d ids] d1 in simp)
  have "native_supply d1 < 2 ^ 64" using s Cons.prems(2) uint_ge_0 [of "nx_max_fee tx"] by (cases "pays tx d"; simp only: if_True if_False; linarith)
  from Cons.IH [OF _ this, of ids1] Cons.prems(1) show ?case by (simp add: d1 f s)
qed simp

text \<open>
  Mining a block of ordinary transactions, none from the genesis source and none whose amount and fee
  overflow 64 bits, links the block to the last one and removes exactly the fees of the transactions it
  includes from the supply: no token is created and none else is lost.
\<close>

theorem mining_burns_only_fees:
  assumes "nv_mine_block sha3 True miner n = (Some h, n1)"
    and "\<forall>tx \<in> set (nv_pending n). plain_tx tx" and "native_supply (nv_balances n) < 2 ^ 64"
  shows "native_supply (nv_balances n1) = native_supply (nv_balances n) - burnt (nv_pending n) (nv_balances n) \<and>
    0 \<le> burnt (nv_pending n) (nv_balances n) \<and>
    (\<exists>b. nv_get_last_block n1 = Some b \<and> bk_hash b = h \<and>
      bk_prev_hash b = (case nv_get_last_block n of None \<Rightarrow> GENESIS_HASH | Some l \<Rightarrow> bk_hash l))"
proof -
  obtain bal ids where f: "fold mine_tx (nv_pending n) (nv_balances n, []) = (bal, ids)" by fastforce
  from assms(1) have "nv_balances n1 = bal"
    by (auto simp: nv_mine_block_def Let_def f split: if_splits)
  moreover from assms(1) have "\<exists>b. nv_get_last_block n1 = Some b \<and> bk_hash b = h \<and>
      bk_prev_hash b = (case nv_get_last_block n of None \<Rightarrow> GENESIS_HASH | Some l \<Rightarrow> bk_hash l)"
    by (auto simp: nv_mine_block_def Let_def f nv_get_last_block_def split: if_splits)
  ultimately show ?thesis using mine_fold_supply [OF assms(2,3), of "[]"] f by simp
qed

definition demo_native_tx :: native_tx where
  "demo_native_tx = \<lparr>nx_tx_id = ''t'', nx_source = ''a'', nx_target = ''b'', nx_amount = 5, nx_signature = [], nx_timestamp = Fin 0,
     nx_max_fee = 2, nx_priority_fee = 1\<rparr>"

definition demo_native :: native where
  "demo_native = \<lparr>nv_pending = [demo_native_tx], nv_balances = [(''a'', 10)], nv_blocks = [], nv_last_hash = None, nv_locks = []\<rparr>"

theorem mining_burns_only_fees_witness:
  "native_supply (nv_balances (snd (nv_mine_block (\<lambda>s. ''h'') True ''m'' demo_native))) = 8"
proof -
  obtain n1 where m: "nv_mine_block (\<lambda>s. ''h'') True ''m'' demo_native = (Some ''h'', n1)"
    by (simp add: nv_mine_block_def demo_native_def Let_def split_def)
  have "plain_tx demo_native_tx" by (simp add: plain_tx_def demo_native_tx_def)
  moreover have "native_supply (nv_balances demo_native) = 10" by (simp add: native_supply_def demo_native_def)
  moreover have "burnt (nv_pending demo_native) (nv_balances demo_native) = 2"
    by (simp add: demo_native_def pays_def demo_native_tx_def dget_Cons)
  ultimately show ?thesis using mining_burns_only_fees [OF m] m by (simp add: demo_native_def)
qed

text \<open>A fee chosen so that the sum wraps to zero makes the transfer free: the target's tokens come from nowhere.\<close>

lemma wrapping_fee_mints:
  assumes "nx_source tx \<noteq> ''GENESIS''" "nx_max_fee tx = - nx_amount tx" "native_supply d + uint (nx_amount tx) < 2 ^ 64"
  shows "native_supply (fst (mine_tx tx (d, ids))) = native_supply d + uint (nx_amount tx)"
  using mine_tx_supply [of tx d ids] assms by (simp add: pays_def)

section \<open>What the tables give back\<close>

text \<open>
  Metadata that were stored are read back, with and without the native store, as long as the text that the
  value is stored as is JSON for it.
\<close>

theorem stored_metadata_read_back:
  assumes "loads (strip (dumps v)) = Some v" and "strip (dumps v) \<noteq> []" and "cs_conn s \<noteq> None"
  shows "get_meta loads ok k (set_meta dumps ok k v s) = v"
  using assms by (auto simp: get_meta_def set_meta_def kv_active_def deserialize_stored_value_def Let_def split: option.splits)

definition demo_chain_store :: chain_store where
  "demo_chain_store = \<lparr>cs_conn = Some sqlite_init, cs_use_rust = True, cs_kv = Some [], cs_native = None\<rparr>"

theorem stored_metadata_read_back_witness:
  "get_meta (\<lambda>t. if t = ''7'' then Some (JInt 7) else None) True ''k'' (set_meta (\<lambda>v. ''7'') True ''k'' (JInt 7) demo_chain_store) = JInt 7"
  by (rule stored_metadata_read_back) (simp_all add: demo_chain_store_def strip_def is_space_def)

lemma hex_str_back: "map of_char (hex_str bs) = to_hex bs"
proof -
  have "x < 256" if "x \<in> set (to_hex bs)" for x
    using that
  proof (induction bs)
    case (Cons b bs)
    have "unat b < 256" using unsigned_less [of b] by simp
    then have "unat b div 16 < 16" "unat b mod 16 < 16" by auto
    with Cons show ?case by (auto simp: Bytes.hex_digit_def)
  qed simp
  then show ?thesis by (simp add: hex_str_def map_idI)
qed

text \<open>
  A blob of bytes is read back from the database, and from the native store unless its hexadecimal text is
  JSON.
\<close>

theorem stored_blob_read_back:
  assumes "loads (json_string (hex_str bs)) = Some (JStr (hex_str bs))" and "strip (json_string (hex_str bs)) = json_string (hex_str bs)"
    and "cs_conn s \<noteq> None"
    and "kv_active s \<noteq> None \<and> ok \<longrightarrow> strip (hex_str bs) = hex_str bs \<and> hex_str bs \<noteq> [] \<and> loads (hex_str bs) = None"
  shows "get_blob loads ok k (put_blob ok k (BytesBlob bs) s) = Some bs"
proof -
  have b: "blob_of_text (hex_str bs) = bs" by (simp add: blob_of_text_def hex_str_back)
  have j: "json_string (hex_str bs) \<noteq> []" by (simp add: json_string_def)
  show ?thesis
  proof (cases "kv_active s \<noteq> None \<and> ok")
    case True
    then obtain kv where "cs_use_rust s" "cs_kv s = Some kv" by (auto simp: kv_active_def split: if_splits)
    with True assms(4) b show ?thesis
      by (simp add: get_blob_def put_blob_def blob_text_def kv_active_def deserialize_stored_value_def Let_def)
  next
    case False
    obtain db where db: "cs_conn s = Some db" using assms(3) by blast
    have a: "kv_active (put_blob ok k (BytesBlob bs) s) = kv_active s" using False db
      by (auto simp: put_blob_def kv_active_def Let_def split: option.splits)
    have p: "put_blob ok k (BytesBlob bs) s = s\<lparr>cs_conn := Some (db\<lparr>db_metadata := dset k (json_string (hex_str bs)) (db_metadata db)\<rparr>)\<rparr>"
      using False db by (auto simp: put_blob_def blob_text_def Let_def split: option.splits)
    show ?thesis using False assms(1,2) b j unfolding get_blob_def a
      by (auto simp: p deserialize_stored_value_def Let_def split: option.splits)
  qed
qed

theorem stored_blob_read_back_witness:
  "get_blob (\<lambda>t. if t = json_string (hex_str [171]) then Some (JStr (hex_str [171])) else None) True ''k''
     (put_blob True ''k'' (BytesBlob [171]) demo_chain_store) = Some [171]"
proof -
  have h: "hex_str [171] = ''ab''" by code_simp
  have j: "strip (json_string ''ab'') = json_string ''ab''" "strip ''ab'' = ''ab''" "json_string ''ab'' \<noteq> ''ab''" by code_simp+
  show ?thesis by (rule stored_blob_read_back) (use h j in \<open>auto simp: demo_chain_store_def\<close>)
qed

text \<open>Bytes whose hexadecimal text is a number are lost in the native store.\<close>

lemma numeric_blob_is_lost:
  assumes "loads ''1234'' = Some (JInt 1234)" "kv_active s = Some kv" "cs_conn s = Some db" "dget (db_metadata db) k = None"
  shows "get_blob loads True k (put_blob True k (BytesBlob [18, 52]) s) = None"
proof -
  have h: "hex_str [18, 52] = ''1234''" by code_simp
  have "strip ''1234'' = ''1234''" by code_simp
  then show ?thesis using assms h
    by (auto simp: get_blob_def put_blob_def blob_text_def kv_active_def deserialize_stored_value_def Let_def split: if_splits)
qed

section \<open>Blocks from outside\<close>

text \<open>
  A block from outside is committed exactly when it has its four fields, its proof verifies for the claimed
  change from the local state root, and its hash is new in the database; its predecessor is not looked at.
\<close>

theorem external_block_accepted_iff:
  assumes "cs_conn s = Some db"
  shows "fst (receive_external_block z dumps ok nt now prev_root bd updates proof txs s) = Inr True \<longleftrightarrow>
    (\<exists>idx prev ids h. bd_index bd = Some idx \<and> bd_prev_hash bd = Some prev \<and> bd_tx_ids bd = Some ids \<and> bd_hash bd = Some h \<and>
      verify_zk_proof z proof prev_root txs (claimed_root (zk_sha256 z) updates) = Inr True \<and> h \<notin> bk_hash ` set (db_blocks db))"
  using assms
  by (auto simp: receive_external_block_def commit_block_def Let_def split: option.splits sum.splits bool.splits)

definition demo_zk :: zk_world where
  "demo_zk = \<lparr>zk_core = True, zk_sha256 = \<lambda>s. [], zk_loads = \<lambda>s. Some (JObj [(''prefix'', JStr ''zkp_v2_bulletproofs''),
     (''meta'', JObj [(''orig_commitment'', JStr [])]), (''proof'', JNull), (''commitment'', JNull)]), zk_dumps = \<lambda>j. [], zk_check = \<lambda>p c. True, zk_prove = \<lambda>v b. Inr (''c'', ''p'')\<rparr>"

theorem external_block_accepted_iff_witness:
  "cs_conn demo_chain_store = Some sqlite_init \<and>
   fst (receive_external_block demo_zk (\<lambda>j. []) True [] (Fin 0) ''r''
     \<lparr>bd_index = Some None, bd_prev_hash = Some ''nowhere'', bd_tx_ids = Some [], bd_hash = Some ''h'', bd_miner = None\<rparr> [] ''p'' [] demo_chain_store) = Inr True"
proof -
  have "verify_zk_proof demo_zk ''p'' ''r'' [] (claimed_root (zk_sha256 demo_zk) []) = Inr True"
    by (simp add: verify_zk_proof_def demo_zk_def compute_commitment_def dget_Cons)
  then show ?thesis
    using external_block_accepted_iff [of demo_chain_store sqlite_init] by (simp add: demo_chain_store_def sqlite_init_def)
qed

text \<open>
  A proof that was generated for a transition verifies for that transition, if the native core accepts the
  proofs it makes and JSON text is read back; and verifying it for another transition answers whether the two
  have the same commitment.
\<close>

theorem generated_proof_verifies:
  assumes "generate_proof z r txs r' = Inr text" and "\<And>j. zk_dumps z j = text \<Longrightarrow> zk_loads z text = Some j"
    and "\<And>v b cm p. zk_prove z v b = Inr (cm, p) \<Longrightarrow> zk_check z (JStr p) (JStr cm)"
  shows "verify_zk_proof z text q us q' =
    Inr (compute_commitment (zk_sha256 z) r txs r' = compute_commitment (zk_sha256 z) q us q')"
proof -
  let ?c = "compute_commitment (zk_sha256 z) r txs r'"
  from assms(1) obtain v where core: "zk_core z" and n: "proof_number ?c = Inr v"
    by (auto simp: generate_proof_def Let_def bindE_Inr_iff split: if_splits)
  with assms(1) obtain cm p where v: "zk_prove z v (zk_sha256 z (''blind:'' @ ?c)) = Inr (cm, p)"
    and t: "text = zk_dumps z (JObj [(''prefix'', JStr ''zkp_v2_bulletproofs''), (''commitment'', JStr cm), (''proof'', JStr p),
      (''meta'', JObj [(''orig_commitment'', JStr ?c), (''prev_state_root'', JStr r), (''new_state_root'', JStr r')])])"
    by (auto simp: generate_proof_def Let_def split: sum.split_asm prod.split_asm)
  show ?thesis using core assms(3) [OF v] assms(2) [OF t [symmetric]] by (auto simp: verify_zk_proof_def dget_Cons)
qed

definition demo_proof :: json where
  "demo_proof = JObj [(''prefix'', JStr ''zkp_v2_bulletproofs''), (''commitment'', JStr ''c''), (''proof'', JStr ''p''),
     (''meta'', JObj [(''orig_commitment'', JStr ''00''), (''prev_state_root'', JStr ''r''), (''new_state_root'', JStr ''q'')])]"

definition range_zk :: zk_world where
  "range_zk = \<lparr>zk_core = True, zk_sha256 = \<lambda>s. ''00'', zk_loads = \<lambda>s. if s = ''x'' then Some demo_proof else None,
     zk_dumps = \<lambda>j. if j = demo_proof then ''x'' else [], zk_check = \<lambda>p c. p = JStr ''p'', zk_prove = \<lambda>v b. Inr (''c'', ''p'')\<rparr>"

theorem generated_proof_verifies_witness: "verify_zk_proof range_zk ''x'' ''r'' [] ''q'' = Inr True"
proof -
  have "from_hex (map of_char ''00'') = Inr [0]" by code_simp
  then have g: "generate_proof range_zk ''r'' [] ''q'' = Inr ''x''"
    by (simp add: generate_proof_def proof_number_def range_zk_def demo_proof_def compute_commitment_def Let_def)
  have "verify_zk_proof range_zk ''x'' ''r'' [] ''q'' =
      Inr (compute_commitment (zk_sha256 range_zk) ''r'' [] ''q'' = compute_commitment (zk_sha256 range_zk) ''r'' [] ''q'')"
    by (rule generated_proof_verifies [OF g]) (auto simp: range_zk_def split: if_splits)
  then show ?thesis by simp
qed

text \<open>A commitment does not tell apart transaction lists whose sorted texts have the same concatenation.\<close>

lemma commitment_confuses_lists: "compute_commitment H p [''ab'', ''c''] n = compute_commitment H p [''a'', ''bc''] n"
  by (simp add: compute_commitment_def less_char_def sort_key_def insort_key_def)

end
