(* ===== verification/Chain_Audit.thy ===== *)
theory Chain_Audit
  imports Chain Gossip
begin

text \<open>
  The audit engine (\<^verbatim>\<open>kernel/ops/audit.py\<close>) over the store of \<open>Chain\<close>: links of the table of blocks, the sign of
  the supply, proofs of the rows, the walk from the head of the native chain to its genesis, drift between the two
  copies and its repair, and the checks of hardware texts, latencies and logs. What the autonomy pillars answer
  and whether the report can be written are arguments.
\<close>

section \<open>Reports\<close>

record integrity_report =
  ir_score :: pyfloat
  ir_chain_continuous :: bool
  ir_state_consistent :: bool
  ir_proofs_valid :: bool
  ir_autonomy_ready :: bool
  ir_details :: "string list"

definition report_passes :: "integrity_report \<Rightarrow> bool" where
  "report_passes r \<longleftrightarrow> fl_le (Fin 10) (ir_score r)"

definition audit_score :: "nat \<Rightarrow> pyfloat result" where
  "audit_score passed = bindE (fl_div (Fin (of_nat passed)) (Fin 4)) (\<lambda>q. Inr (fl_mul q (Fin 10)))"

section \<open>The checks\<close>

fun check_links :: "nat \<Rightarrow> string \<Rightarrow> block list \<Rightarrow> bool \<times> string list" where
  "check_links i expected_prev [] = (True, [])"
| "check_links i expected_prev (b # bs) =
     (if bk_prev_hash b \<noteq> expected_prev
      then (False, [''Chain Break at block '' @ dec_of_nat i @ '': Expected prev '' @ expected_prev @ '', got '' @ bk_prev_hash b])
      else check_links (Suc i) (bk_hash b) bs)"

definition verify_chain_continuity :: "chain_store \<Rightarrow> bool \<times> string list" where
  "verify_chain_continuity s =
     (case cs_conn s of
        None \<Rightarrow> (False, [''Database connection missing.''])
      | Some db \<Rightarrow>
          if db_blocks db = [] then (True, [''Chain is empty (Genesis pending).''])
          else check_links 0 GENESIS_HASH (db_blocks db))"

text \<open>The tables always have the column of transactions, so that only the sign of the supply is looked at.\<close>

definition verify_state_consistency :: "chain_store \<Rightarrow> bool \<times> string list" where
  "verify_state_consistency s =
     (if cs_conn s = None then (False, [])
      else if sum_list (map snd (get_all_balances s)) < 0 then (False, [''Negative total supply detected.''])
      else (True, []))"

definition no_proof :: "string option \<Rightarrow> bool" where
  "no_proof p \<longleftrightarrow> p = None \<or> p = Some []"

fun verify_rows :: "zk_world \<Rightarrow> block list \<Rightarrow> bool \<Rightarrow> string list \<Rightarrow> (bool \<times> string list) result" where
  "verify_rows z [] valid ds = Inr (valid, ds)"
| "verify_rows z (b # bs) valid ds =
     (if no_proof (bk_zk_proof b) then verify_rows z bs False (ds @ [''Block '' @ take 8 (bk_hash b) @ '': Missing ZK-Proof.''])
      else bindE (verify_zk_proof z (the (bk_zk_proof b)) (bk_prev_hash b) (bk_tx_ids b) (bk_hash b)) (\<lambda>ok.
        if ok then verify_rows z bs valid ds
        else verify_rows z bs False (ds @ [''Block '' @ take 8 (bk_hash b) @ '': ZK-Proof INVALID or TAMPERED.''])))"

definition verify_proof_integrity :: "zk_world \<Rightarrow> chain_store \<Rightarrow> (bool \<times> string list) result" where
  "verify_proof_integrity z s = (case cs_conn s of None \<Rightarrow> Inr (False, []) | Some db \<Rightarrow> verify_rows z (db_blocks db) True [])"

text \<open>One block of the walk: whether it keeps the audit valid, and what is reported.\<close>

definition audit_block :: "zk_world \<Rightarrow> string \<Rightarrow> block_view \<Rightarrow> (bool \<times> string list) result" where
  "audit_block z h b =
     (if no_proof (bv_zk_proof b) then
        Inr (if bv_prev_hash b = GENESIS_HASH then (True, []) else (False, [''Block '' @ take 8 h @ '': Missing ZK-Proof.'']))
      else bindE (verify_zk_proof z (the (bv_zk_proof b)) (bv_prev_hash b) (bv_items b) h) (\<lambda>ok.
        Inr (if ok then (True, []) else (False, [''Block '' @ take 8 h @ '': Atomic ZK-Proof REJECTED.'']))))"

text \<open>The walk breaks off after as many blocks as its first argument says.\<close>

fun atomic_walk :: "zk_world \<Rightarrow> chain_store \<Rightarrow> nat \<Rightarrow> string \<Rightarrow> bool \<Rightarrow> string list \<Rightarrow> (bool \<times> string list) result" where
  "atomic_walk z s 0 h valid ds = Inr (valid, ds)"
| "atomic_walk z s (Suc n) h valid ds =
     (case get_block h s of
        None \<Rightarrow> Inr (False, ds @ [''Broken Chain at '' @ take 8 h @ '': Block missing in Sled.''])
      | Some b \<Rightarrow>
          bindE (audit_block z h b) (\<lambda>(ok, new).
            if bv_prev_hash b = GENESIS_HASH then Inr (valid \<and> ok, ds @ new)
            else atomic_walk z s n (bv_prev_hash b) (valid \<and> ok) (ds @ new)))"

definition MAX_AUDITED :: nat where
  "MAX_AUDITED = 10001"

definition run_atomic_truth_audit :: "zk_world \<Rightarrow> chain_store \<Rightarrow> (bool \<times> string list) result" where
  "run_atomic_truth_audit z s =
     (case get_last_block s of None \<Rightarrow> Inr (True, []) | Some b \<Rightarrow> atomic_walk z s MAX_AUDITED (bv_hash b) True [])"

definition run_full_audit ::
    "zk_world \<Rightarrow> (bool \<times> string list) \<Rightarrow> (integrity_report \<Rightarrow> unit result) \<Rightarrow> chain_store \<Rightarrow> integrity_report result" where
  "run_full_audit z autonomy save s =
     (let c = verify_chain_continuity s; st = verify_state_consistency s
      in bindE (if cs_use_rust s then run_atomic_truth_audit z s else verify_proof_integrity z s) (\<lambda>p.
         bindE (audit_score (length (filter id [fst c, fst st, fst p, fst autonomy]))) (\<lambda>score.
         let r = \<lparr>ir_score = score, ir_chain_continuous = fst c, ir_state_consistent = fst st, ir_proofs_valid = fst p,
               ir_autonomy_ready = fst autonomy, ir_details = snd c @ snd st @ snd p @ snd autonomy\<rparr>
         in bindE (save r) (\<lambda>_. Inr r))))"

section \<open>Drift\<close>

definition sqlite_head :: "chain_store \<Rightarrow> string option" where
  "sqlite_head s =
     (case cs_conn s of
        None \<Rightarrow> None
      | Some db \<Rightarrow> if db_blocks db \<noteq> [] then Some (bk_hash (last (db_blocks db))) else map_option ev_hash (get_last_event s))"

definition detect_drift :: "chain_store \<Rightarrow> string option" where
  "detect_drift s =
     (if \<not> cs_use_rust s then None
      else case (get_last_block s, sqlite_head s) of
             (Some b, Some h) \<Rightarrow>
               if h \<noteq> [] \<and> bv_hash b \<noteq> h
               then Some (''Head Drift: Sled Head ('' @ take 8 (bv_hash b) @ '') != SQLite Head ('' @ take 8 h @ '')'') else None
           | _ \<Rightarrow> None)"

text \<open>The engine's own repair calls a method the native ledger need not have; \<open>put_block\<close> is that call.\<close>

definition audit_reconcile_state :: "(block \<Rightarrow> native \<Rightarrow> native result) \<Rightarrow> chain_store \<Rightarrow> nat \<times> chain_store" where
  "audit_reconcile_state put_block s =
     (if \<not> cs_use_rust s then (0, s)
      else case cs_conn s of
             None \<Rightarrow> (0, s)
           | Some db \<Rightarrow>
               fold (\<lambda>b (k, t). case cs_native t of
                        None \<Rightarrow> (k, t)
                      | Some n \<Rightarrow> (case put_block b n of Inl e \<Rightarrow> (k, t) | Inr n1 \<Rightarrow> (Suc k, t\<lparr>cs_native := Some n1\<rparr>)))
                 (db_blocks db) (0, s))"

text \<open>One round of the audit loop: the whole audit runs when the native head is not the last event.\<close>

definition audit_round ::
    "zk_world \<Rightarrow> (bool \<times> string list) \<Rightarrow> (integrity_report \<Rightarrow> unit result) \<Rightarrow> chain_store \<Rightarrow> integrity_report option" where
  "audit_round z autonomy save s =
     (case (get_last_block s, get_last_event s) of
        (Some b, Some e) \<Rightarrow>
          if bv_hash b \<noteq> ev_hash e then (case run_full_audit z autonomy save s of Inr r \<Rightarrow> Some r | Inl _ \<Rightarrow> None) else None
      | _ \<Rightarrow> None)"

section \<open>Nodes and logs\<close>

definition verify_hardware_integrity :: "string \<Rightarrow> bool" where
  "verify_hardware_integrity hw \<longleftrightarrow> hw \<noteq> [] \<and> (take 7 hw = ''SIM-HW-'' \<or> length hw = 64)"

definition latency_threshold :: "int \<Rightarrow> pyfloat" where
  "latency_threshold expected =
     (let a = fl_mul (Fin (of_int expected)) (Fin (3 / 2)); b = Fin (of_int (expected + 50)) in if fl_lt a b then b else a)"

definition verify_regional_latency :: "topology \<Rightarrow> string \<Rightarrow> pyfloat \<Rightarrow> bool" where
  "verify_regional_latency t claimed measured \<longleftrightarrow>
     \<not> fl_lt (latency_threshold (get_latency_between_regions (tp_local_region t) claimed)) measured"

text \<open>A log: missing, unreadable, or its text.\<close>

definition verify_memory_integrity :: "string result option \<Rightarrow> bool" where
  "verify_memory_integrity file =
     (case file of None \<Rightarrow> True | Some (Inl e) \<Rightarrow> False | Some (Inr content) \<Rightarrow> \<not> str_in ''Sig: `UNSIGNED...`'' content)"

section \<open>What a passed check means\<close>

definition linked :: "string \<Rightarrow> block list \<Rightarrow> bool" where
  "linked start bs \<longleftrightarrow> (\<forall>i < length bs. bk_prev_hash (bs ! i) = (if i = 0 then start else bk_hash (bs ! (i - 1))))"

lemma linked_Cons: "linked start (b # bs) \<longleftrightarrow> bk_prev_hash b = start \<and> linked (bk_hash b) bs"
proof -
  have "(\<forall>i < length bs. bk_prev_hash (bs ! i) = bk_hash ((b # bs) ! i)) \<longleftrightarrow> linked (bk_hash b) bs"
    by (auto simp: linked_def nth_Cons' split: if_splits)
  then show ?thesis by (auto simp: linked_def All_less_Suc2)
qed

lemma check_links_iff: "fst (check_links i h bs) \<longleftrightarrow> linked h bs"
  by (induction bs arbitrary: i h) (auto simp: linked_Cons, simp add: linked_def)

text \<open>
  The continuity check passes exactly when every row names the hash of the row before it and the first row
  names the genesis hash.
\<close>

theorem chain_check_exact:
  assumes "cs_conn s = Some db"
  shows "fst (verify_chain_continuity s) \<longleftrightarrow> linked GENESIS_HASH (db_blocks db)"
  using assms by (auto simp: verify_chain_continuity_def check_links_iff linked_def)

definition demo_row :: "string \<Rightarrow> string \<Rightarrow> block" where
  "demo_row p h = \<lparr>bk_index = None, bk_timestamp = Fin 0, bk_tx_ids = [], bk_miner = [], bk_prev_hash = p, bk_hash = h, bk_zk_proof = None,
     bk_state_root = None\<rparr>"

definition demo_rows :: "block list \<Rightarrow> chain_store" where
  "demo_rows bs = \<lparr>cs_conn = Some (sqlite_init\<lparr>db_blocks := bs\<rparr>), cs_use_rust = False, cs_kv = None, cs_native = None\<rparr>"

theorem chain_check_exact_witness:
  "fst (verify_chain_continuity (demo_rows [demo_row GENESIS_HASH ''a'', demo_row ''a'' ''b''])) \<and>
   \<not> fst (verify_chain_continuity (demo_rows [demo_row GENESIS_HASH ''a'', demo_row ''c'' ''b'']))"
proof -
  have "linked GENESIS_HASH [demo_row GENESIS_HASH ''a'', demo_row ''a'' ''b'']" "\<not> linked GENESIS_HASH [demo_row GENESIS_HASH ''a'', demo_row ''c'' ''b'']"
    by (simp_all add: linked_Cons demo_row_def, simp add: linked_def)
  then show ?thesis
    using chain_check_exact [of "demo_rows [demo_row GENESIS_HASH ''a'', demo_row ''a'' ''b'']"]
      chain_check_exact [of "demo_rows [demo_row GENESIS_HASH ''a'', demo_row ''c'' ''b'']"]
    by (simp add: demo_rows_def)
qed

section \<open>The walk to the genesis block\<close>

text \<open>
  \<open>ancestry s h bs\<close>: the blocks reached from the hash \<open>h\<close>, head first, none but the last of which is a genesis
  block.
\<close>

fun ancestry :: "chain_store \<Rightarrow> string \<Rightarrow> (string \<times> block_view) list \<Rightarrow> bool" where
  "ancestry s h [] \<longleftrightarrow> True"
| "ancestry s h ((k, b) # bs) \<longleftrightarrow> k = h \<and> get_block h s = Some b \<and> (bs = [] \<or> bv_prev_hash b \<noteq> GENESIS_HASH \<and> ancestry s (bv_prev_hash b) bs)"

definition sound_block :: "zk_world \<Rightarrow> string \<times> block_view \<Rightarrow> bool" where
  "sound_block z hb = (case hb of (h, b) \<Rightarrow>
     if no_proof (bv_zk_proof b) then bv_prev_hash b = GENESIS_HASH
     else verify_zk_proof z (the (bv_zk_proof b)) (bv_prev_hash b) (bv_items b) h = Inr True)"

lemma audit_block_sound: "(\<exists>new. audit_block z h b = Inr (True, new)) \<longleftrightarrow> sound_block z (h, b)"
  by (auto simp: audit_block_def sound_block_def bindE_Inr_iff)

lemma atomic_walk_invalid: "atomic_walk z s n h False ds = Inr (v, ds') \<Longrightarrow> \<not> v"
  by (induction n arbitrary: h ds) (auto simp: bindE_Inr_iff split: option.splits if_splits prod.splits)

definition reaches_end :: "nat \<Rightarrow> (string \<times> block_view) list \<Rightarrow> bool" where
  "reaches_end n bs \<longleftrightarrow> length bs = n \<or> (bs \<noteq> [] \<and> length bs < n \<and> bv_prev_hash (snd (last bs)) = GENESIS_HASH)"

definition proven_ancestry :: "zk_world \<Rightarrow> chain_store \<Rightarrow> nat \<Rightarrow> string \<Rightarrow> bool" where
  "proven_ancestry z s n h \<longleftrightarrow> (\<exists>bs. ancestry s h bs \<and> (\<forall>hb \<in> set bs. sound_block z hb) \<and> reaches_end n bs)"

lemma proven_ancestry_0: "proven_ancestry z s 0 h"
  by (auto simp: proven_ancestry_def reaches_end_def intro: exI [of _ "[]"])

lemma proven_ancestry_missing: "get_block h s = None \<Longrightarrow> \<not> proven_ancestry z s (Suc n) h"
  by (auto simp: proven_ancestry_def reaches_end_def length_Suc_conv neq_Nil_conv)

lemma proven_ancestry_Suc:
  assumes "get_block h s = Some b"
  shows "proven_ancestry z s (Suc n) h \<longleftrightarrow>
    sound_block z (h, b) \<and> (bv_prev_hash b = GENESIS_HASH \<or> proven_ancestry z s n (bv_prev_hash b))" (is "?L \<longleftrightarrow> ?R")
proof
  assume ?L
  then obtain bs where bs: "ancestry s h bs" "\<forall>hb \<in> set bs. sound_block z hb" "reaches_end (Suc n) bs"
    by (auto simp: proven_ancestry_def)
  then obtain rest where r: "bs = (h, b) # rest" using assms by (cases bs) (auto simp: reaches_end_def)
  show ?R
  proof (cases rest)
    case Nil
    then show ?thesis using bs r proven_ancestry_0 by (auto simp: reaches_end_def)
  next
    case (Cons a list)
    then have "reaches_end n rest" using bs(3) r by (auto simp: reaches_end_def)
    moreover have "ancestry s (bv_prev_hash b) rest" "\<forall>hb \<in> set rest. sound_block z hb" using bs r Cons by auto
    ultimately show ?thesis using bs(2) r unfolding proven_ancestry_def by auto
  qed
next
  assume r: ?R
  show ?L
  proof (cases "bv_prev_hash b = GENESIS_HASH")
    case True
    have "reaches_end (Suc n) [(h, b)]" using True by (cases n) (auto simp: reaches_end_def)
    then show ?thesis using r assms unfolding proven_ancestry_def by (intro exI [of _ "[(h, b)]"]) simp
  next
    case False
    then obtain bs where "ancestry s (bv_prev_hash b) bs" "\<forall>hb \<in> set bs. sound_block z hb" "reaches_end n bs"
      using r by (auto simp: proven_ancestry_def)
    moreover from this have "reaches_end (Suc n) ((h, b) # bs)" by (auto simp: reaches_end_def)
    ultimately show ?thesis using r assms False unfolding proven_ancestry_def by (intro exI [of _ "(h, b) # bs"]) auto
  qed
qed

lemma atomic_walk_iff: "(\<exists>ds'. atomic_walk z s n h True ds = Inr (True, ds')) \<longleftrightarrow> proven_ancestry z s n h"
proof (induction n arbitrary: h ds)
  case 0
  show ?case by (simp add: proven_ancestry_0)
next
  case (Suc n)
  show ?case
  proof (cases "get_block h s")
    case None
    then show ?thesis by (simp add: proven_ancestry_missing)
  next
    case (Some b)
    show ?thesis
    proof (cases "\<exists>new. audit_block z h b = Inr (True, new)")
      case True
      then obtain new where "audit_block z h b = Inr (True, new)" by blast
      then show ?thesis using True audit_block_sound [of z h b] Suc.IH [of "bv_prev_hash b" "ds @ new"]
        by (simp add: Some proven_ancestry_Suc [OF Some])
    next
      case False
      then have "atomic_walk z s (Suc n) h True ds \<noteq> Inr (True, ds')" for ds'
        using Some atomic_walk_invalid [of z s n "bv_prev_hash b" _ True] by (auto simp: bindE_Inr_iff split: if_splits)
      then show ?thesis using False audit_block_sound [of z h b] by (simp add: proven_ancestry_Suc [OF Some])
    qed
  qed
qed

text \<open>
  The walk from the head passes exactly when the blocks reached from the head all carry a proof of their
  transition, a genesis block excepted, and end with a genesis block within 10000 blocks or are 10001 in number.
\<close>

theorem atomic_audit_exact:
  assumes "get_last_block s = Some b"
  shows "(\<exists>ds. run_atomic_truth_audit z s = Inr (True, ds)) \<longleftrightarrow>
    (\<exists>bs. ancestry s (bv_hash b) bs \<and> (\<forall>hb \<in> set bs. sound_block z hb) \<and> reaches_end 10001 bs)"
  using assms atomic_walk_iff [of z s MAX_AUDITED "bv_hash b" "[]"]
  by (simp add: run_atomic_truth_audit_def proven_ancestry_def MAX_AUDITED_def)

definition demo_chain :: "block list \<Rightarrow> chain_store" where
  "demo_chain bs = \<lparr>cs_conn = None, cs_use_rust = True, cs_kv = None,
     cs_native = Some \<lparr>nv_pending = [], nv_balances = [], nv_blocks = map (\<lambda>b. (bk_hash b, b)) bs,
       nv_last_hash = (if bs = [] then None else Some (bk_hash (hd bs))), nv_locks = []\<rparr>\<rparr>"

theorem atomic_audit_exact_witness:
  "\<exists>ds. run_atomic_truth_audit demo_zk (demo_chain [demo_row GENESIS_HASH ''g'']) = Inr (True, ds)"
proof -
  let ?s = "demo_chain [demo_row GENESIS_HASH ''g'']" and ?b = "view_native (demo_row GENESIS_HASH ''g'')"
  have l: "get_last_block ?s = Some ?b" and g: "get_block ''g'' ?s = Some ?b"
    by (simp_all add: demo_chain_def demo_row_def get_last_block_def get_block_def native_active_def nv_get_last_block_def nv_get_block_def dget_Cons)
  have "ancestry ?s (bv_hash ?b) [(''g'', ?b)] \<and> (\<forall>hb \<in> set [(''g'', ?b)]. sound_block demo_zk hb) \<and> reaches_end 10001 [(''g'', ?b)]"
    using g by (simp add: sound_block_def no_proof_def reaches_end_def view_native_def demo_row_def)
  then show ?thesis using atomic_audit_exact [OF l, of demo_zk] by blast
qed

text \<open>A block that names itself as its predecessor passes: the walk breaks off inside the cycle.\<close>

lemma cycle_passes:
  assumes "get_block h s = Some b" "bv_prev_hash b = h" "sound_block z (h, b)"
  shows "proven_ancestry z s n h"
  using assms by (induction n) (simp_all add: proven_ancestry_0 proven_ancestry_Suc)

section \<open>The whole audit\<close>

lemma audit_score_exact:
  assumes "n \<le> 4"
  shows "audit_score n = Inr (Fin (of_int (10 * int n) / 4))"
  using fl_of_rat_quarter [of "int n"] fl_of_rat_quarter [of "10 * int n"] assms by (simp add: audit_score_def field_simps)

lemma audit_score_perfect:
  assumes "audit_score (length (filter id [a, b, c, d])) = Inr x"
  shows "fl_le (Fin 10) x \<longleftrightarrow> a \<and> b \<and> c \<and> d"
  using assms by (cases a; cases b; cases c; cases d) (auto simp: audit_score_exact)

lemma full_audit_fields:
  assumes "run_full_audit z au save s = Inr r"
  shows "ir_chain_continuous r = fst (verify_chain_continuity s)" "ir_state_consistent r = fst (verify_state_consistency s)"
    "\<exists>ds. (if cs_use_rust s then run_atomic_truth_audit z s else verify_proof_integrity z s) = Inr (ir_proofs_valid r, ds)"
    "ir_autonomy_ready r = fst au"
    "audit_score (length (filter id [ir_chain_continuous r, ir_state_consistent r, ir_proofs_valid r, ir_autonomy_ready r])) = Inr (ir_score r)"
  using assms by (auto simp: run_full_audit_def Let_def bindE_Inr_iff)

text \<open>
  A report counts as passed exactly when all four checks passed: the float score reaches ten with four
  checks and stays below with three.
\<close>

theorem perfect_report_iff:
  assumes "run_full_audit z au save s = Inr r"
  shows "report_passes r \<longleftrightarrow> fst (verify_chain_continuity s) \<and> fst (verify_state_consistency s) \<and>
    (\<exists>ds. (if cs_use_rust s then run_atomic_truth_audit z s else verify_proof_integrity z s) = Inr (True, ds)) \<and> fst au"
  using audit_score_perfect [OF full_audit_fields(5) [OF assms]] full_audit_fields [OF assms]
  by (auto simp: report_passes_def)

theorem perfect_report_iff_witness:
  "\<exists>r. run_full_audit demo_zk (True, []) (\<lambda>r. Inr ()) (demo_rows []) = Inr r \<and> report_passes r"
proof -
  have c: "verify_chain_continuity (demo_rows []) = (True, [''Chain is empty (Genesis pending).''])"
    and st: "verify_state_consistency (demo_rows []) = (True, [])" and p: "verify_proof_integrity demo_zk (demo_rows []) = Inr (True, [])"
    by (simp_all add: verify_chain_continuity_def verify_state_consistency_def verify_proof_integrity_def demo_rows_def sqlite_init_def
        get_all_balances_def native_active_def)
  have u: "\<not> cs_use_rust (demo_rows [])" by (simp add: demo_rows_def)
  obtain r where r: "run_full_audit demo_zk (True, []) (\<lambda>r. Inr ()) (demo_rows []) = Inr r"
    by (simp add: run_full_audit_def c st p u audit_score_exact)
  with perfect_report_iff [OF r] c st p u show ?thesis by simp
qed

text \<open>
  A ledger that mined a block onto an earlier one never passes its own audit: mined blocks carry no proof,
  and only a genesis block may lack one.
\<close>

theorem mined_block_fails_audit:
  assumes "nv_mine_block sha3 True miner n = (Some h, n1)" and "nv_get_last_block n = Some l" and "bk_hash l \<noteq> GENESIS_HASH"
    and "native_active s = Some n1" and "run_full_audit z au save s = Inr r"
  shows "\<not> report_passes r \<and> \<not> ir_proofs_valid r"
proof -
  obtain bal ids where f: "fold mine_tx (nv_pending n) (nv_balances n, []) = (bal, ids)" by fastforce
  obtain b where b: "nv_last_hash n1 = Some h" "nv_get_block h n1 = Some b" "bk_zk_proof b = None" "bk_prev_hash b = bk_hash l" "bk_hash b = h"
    using assms(1,2) by (auto simp: nv_mine_block_def Let_def f nv_get_block_def split: if_splits)
  have g: "get_block h s = Some (view_native b)" and l: "get_last_block s = Some (view_native b)"
    using b assms(4) by (simp_all add: get_block_def get_last_block_def nv_get_last_block_def nv_get_block_def)
  have "\<not> sound_block z (h, view_native b)" using b assms(3) by (simp add: sound_block_def no_proof_def view_native_def)
  then have "\<not> proven_ancestry z s (Suc 10000) h" using proven_ancestry_Suc [OF g] by blast
  then have w: "run_atomic_truth_audit z s \<noteq> Inr (True, ds)" for ds
    using atomic_walk_iff [of z s MAX_AUDITED h "[]"] l b(5)
    by (auto simp: run_atomic_truth_audit_def MAX_AUDITED_def view_native_def simp del: atomic_walk.simps)
  have "cs_use_rust s" using assms(4) by (simp add: native_active_def split: if_splits)
  with w full_audit_fields(3) [OF assms(5)] have v: "\<not> ir_proofs_valid r" by (cases "ir_proofs_valid r") simp_all
  with audit_score_perfect [OF full_audit_fields(5) [OF assms(5)]] show ?thesis by (simp add: report_passes_def)
qed

definition demo_ledger :: native where
  "demo_ledger = the (cs_native (demo_chain [demo_row GENESIS_HASH ''g'']))"

definition demo_mined :: chain_store where
  "demo_mined = (demo_rows [])\<lparr>cs_use_rust := True, cs_native := Some (snd (nv_mine_block (\<lambda>s. ''h'') True ''GENESIS'' demo_ledger))\<rparr>"

lemma demo_mined_blocks:
  "get_last_block demo_mined = get_block ''h'' demo_mined" "native_active demo_mined = cs_native demo_mined"
  "get_block ''h'' demo_mined = Some \<lparr>bv_items = [], bv_prev_hash = ''g'', bv_hash = ''h'', bv_zk_proof = None\<rparr>"
  "get_block ''g'' demo_mined = Some \<lparr>bv_items = [], bv_prev_hash = GENESIS_HASH, bv_hash = ''g'', bv_zk_proof = None\<rparr>"
  by (simp_all add: demo_mined_def demo_ledger_def demo_chain_def demo_rows_def demo_row_def nv_mine_block_def get_block_def get_last_block_def
      native_active_def nv_get_block_def nv_get_last_block_def view_native_def Let_def dget_Cons)

lemma GENESIS_not_g: "''g'' \<noteq> GENESIS_HASH"
  by (simp add: GENESIS_HASH_def eval_nat_numeral)

theorem mined_block_fails_audit_witness:
  "\<exists>r. run_full_audit demo_zk (True, []) (\<lambda>r. Inr ()) demo_mined = Inr r \<and> \<not> report_passes r"
proof -
  have "\<exists>p. atomic_walk demo_zk demo_mined (Suc (Suc k)) ''h'' True [] = Inr p" for k
    by (auto simp: demo_mined_blocks audit_block_def no_proof_def GENESIS_not_g)
  from this [of 9999] obtain p where p: "run_atomic_truth_audit demo_zk demo_mined = Inr p"
    by (auto simp: run_atomic_truth_audit_def demo_mined_blocks MAX_AUDITED_def simp del: atomic_walk.simps)
  have m: "nv_mine_block (\<lambda>s. ''h'') True ''GENESIS'' demo_ledger = (Some ''h'', the (cs_native demo_mined))"
    and l: "nv_get_last_block demo_ledger = Some (demo_row GENESIS_HASH ''g'')"
    by (simp_all add: demo_mined_def demo_ledger_def demo_chain_def demo_row_def nv_mine_block_def nv_get_last_block_def Let_def dget_Cons)
  have a: "native_active demo_mined = Some (the (cs_native demo_mined))" "cs_use_rust demo_mined"
    by (simp_all add: native_active_def demo_mined_def)
  obtain r where r: "run_full_audit demo_zk (True, []) (\<lambda>r. Inr ()) demo_mined = Inr r"
    using audit_score_exact [of "length (filter id [fst (verify_chain_continuity demo_mined), fst (verify_state_consistency demo_mined), fst p, True])"]
      length_filter_le [of id "[fst (verify_chain_continuity demo_mined), fst (verify_state_consistency demo_mined), fst p, True]"]
    by (simp add: run_full_audit_def p a(2) Let_def)
  from mined_block_fails_audit [OF m l _ a(1) r] r GENESIS_not_g show ?thesis by (auto simp: demo_row_def)
qed

section \<open>Drift and its repair\<close>

lemma dget_fold_blocks: "bs \<noteq> [] \<Longrightarrow> dget (fold (\<lambda>b. dset (bk_hash b) b) bs d) (bk_hash (last bs)) = Some (last bs)"
  by (induction bs rule: rev_induct) auto

text \<open>
  After the store has reconciled its two copies no drift is detected, and the native head is the last row of
  the table.
\<close>

theorem reconciled_store_has_no_drift:
  assumes "store_reconcile True s = (True, s1)" and "cs_conn s = Some db" and "db_blocks db \<noteq> []" and "bk_hash (last (db_blocks db)) \<noteq> []"
  shows "detect_drift s1 = None \<and> get_last_block s1 = Some (view_native (last (db_blocks db)))"
proof -
  have "get_last_block s1 = Some (view_native (last (db_blocks db)))" "cs_conn s1 = Some db"
    using assms dget_fold_blocks [OF assms(3)]
    by (auto simp: store_reconcile_def get_last_block_def native_active_def nv_get_last_block_def split: option.splits if_splits)
  then show ?thesis using assms(3) by (simp add: detect_drift_def sqlite_head_def view_native_def)
qed

theorem reconciled_store_has_no_drift_witness:
  "detect_drift (snd (store_reconcile True ((demo_rows [demo_row GENESIS_HASH ''a''])\<lparr>cs_use_rust := True, cs_native := Some demo_ledger\<rparr>))) = None"
proof -
  let ?s = "(demo_rows [demo_row GENESIS_HASH ''a''])\<lparr>cs_use_rust := True, cs_native := Some demo_ledger\<rparr>"
  have "store_reconcile True ?s = (True, snd (store_reconcile True ?s))"
    by (simp add: store_reconcile_def demo_rows_def native_active_def)
  from reconciled_store_has_no_drift [OF this] show ?thesis by (simp add: demo_rows_def demo_row_def)
qed

text \<open>The engine's own repair restores nothing with a native ledger that lacks the method it calls.\<close>

lemma audit_repair_restores_nothing:
  assumes "\<And>b n. put_block b n = Inl AttributeError"
  shows "audit_reconcile_state put_block s = (0, s)"
proof -
  have "fold (\<lambda>b (k, t). case cs_native t of None \<Rightarrow> (k, t)
      | Some n \<Rightarrow> (case put_block b n of Inl e \<Rightarrow> (k, t) | Inr n1 \<Rightarrow> (Suc k, t\<lparr>cs_native := Some n1\<rparr>))) bs (0, s) = (0, s)" for bs
    by (induction bs) (auto simp: assms split: option.splits)
  then show ?thesis by (auto simp: audit_reconcile_state_def split: option.splits)
qed

text \<open>In a region that is not configured every node slower than 50 ms counts as an impostor.\<close>

lemma unknown_region_rejects:
  assumes "tp_local_region t = ''UNKNOWN''"
  shows "verify_regional_latency t claimed measured \<longleftrightarrow> \<not> fl_lt (Fin 50) measured"
proof -
  have "get_latency_between_regions ''UNKNOWN'' claimed = 0" by (simp add: get_latency_between_regions_def LATENCY_MATRIX_def dget_Cons)
  moreover have "latency_threshold 0 = Fin 50" using fl_of_rat_quarter [of 0] by (simp add: latency_threshold_def Let_def)
  ultimately show ?thesis using assms by (simp add: verify_regional_latency_def)
qed

end
