(* ===== verification/Eu_Ai_Act.thy ===== *)
theory Eu_Ai_Act
  imports Hipaa Web
begin

text \<open>
  The registers for the EU AI act: \<^verbatim>\<open>compliance/eu_ai_act.py\<close>. Systems with their risk class, risk assessments by
  key words, technical documentation, oversight, disclosures, conformity assessments and incidents, and the report
  and checklist of the central manager in double arithmetic. Generated identifiers and clocks are arguments. Of
  the attributes that \<open>hasattr\<close> finds, only the fields of a documentation are modelled.
\<close>

section \<open>Enumerations and records\<close>

datatype risk_category = UNACCEPTABLE | HIGH_RISK | LIMITED | MINIMAL

fun risk_category_value :: "risk_category \<Rightarrow> string" where
  "risk_category_value UNACCEPTABLE = ''unacceptable''"
| "risk_category_value HIGH_RISK = ''high''"
| "risk_category_value LIMITED = ''limited''"
| "risk_category_value MINIMAL = ''minimal''"

datatype high_risk_area =
  BIOMETRIC | CRITICAL_INFRASTRUCTURE | EDUCATION | EMPLOYMENT | ESSENTIAL_SERVICES | LAW_ENFORCEMENT | MIGRATION | JUSTICE

fun high_risk_area_value :: "high_risk_area \<Rightarrow> string" where
  "high_risk_area_value BIOMETRIC = ''biometric''"
| "high_risk_area_value CRITICAL_INFRASTRUCTURE = ''critical_infrastructure''"
| "high_risk_area_value EDUCATION = ''education''"
| "high_risk_area_value EMPLOYMENT = ''employment''"
| "high_risk_area_value ESSENTIAL_SERVICES = ''essential_services''"
| "high_risk_area_value LAW_ENFORCEMENT = ''law_enforcement''"
| "high_risk_area_value MIGRATION = ''migration''"
| "high_risk_area_value JUSTICE = ''justice''"

datatype conformity_status = NOT_STARTED | CONFORMITY_RUNNING | CONFORMITY_PASSED | CONFORMITY_FAILED | REQUIRES_REVIEW

record ai_system =
  ai_system_id :: string
  ai_name :: string
  ai_version :: string
  ai_description :: string
  ai_provider :: string
  ai_deployer :: string
  ai_risk_category :: risk_category
  ai_high_risk_areas :: "high_risk_area list"
  ai_intended_purpose :: string
  ai_registration_date :: datetime
  ai_last_updated :: datetime
  ai_eu_database_registered :: bool
  ai_ce_marking :: bool

record risk_assessment =
  rk_assessment_id :: string
  rk_system_id :: string
  rk_conducted_by :: string
  rk_conducted_date :: datetime
  rk_risk_category :: risk_category
  rk_rationale :: string
  rk_high_risk_factors :: "string list"
  rk_mitigation_measures :: "string list"
  rk_next_review_date :: "datetime option"

text \<open>Assigning a field by name puts a text where a list, a dictionary, a flag or a date stood.\<close>

record tech_doc =
  td_doc_id :: string
  td_system_id :: string
  td_version :: string
  td_created_date :: "datetime + string"
  td_last_updated :: datetime
  td_sections :: "(string, string) dict"
  td_accuracy_metrics :: "(string, json) dict + string"
  td_is_complete :: bool
  td_missing_sections :: "string list + string"

record oversight_measure =
  om_measure_id :: string
  om_system_id :: string
  om_description :: string
  om_oversight_type :: string
  om_responsible_party :: string
  om_implementation_status :: string
  om_interface_description :: string
  om_stop_mechanism :: bool
  om_intervention_capability :: bool

record transparency_record =
  tr_record_id :: string
  tr_system_id :: string
  tr_disclosure_type :: string
  tr_disclosure_text :: string
  tr_disclosure_mechanism :: string
  tr_implementation_date :: "datetime option"
  tr_verified :: bool

record conformity_assessment =
  cf_assessment_id :: string
  cf_system_id :: string
  cf_assessment_type :: string
  cf_notified_body_id :: "string option"
  cf_conducted_date :: datetime
  cf_status :: conformity_status
  cf_findings :: "string list"
  cf_non_conformities :: "string list"
  cf_corrective_actions :: "string list"
  cf_certificate_id :: "string option"
  cf_valid_until :: "datetime option"

record ai_incident =
  in_incident_id :: string
  in_system_id :: string
  in_occurred_date :: datetime
  in_reported_date :: "datetime option"
  in_description :: string
  in_severity :: string
  in_affected_parties :: "string list"
  in_fundamental_rights_impact :: bool
  in_health_safety_impact :: bool
  in_notified_authority :: bool
  in_investigation_status :: string
  in_root_cause :: string
  in_corrective_measures :: "string list"

text \<open>The managers answer \<open>False\<close> for an unknown key and change the object of a known one.\<close>

definition change :: "('v \<Rightarrow> 'v) \<Rightarrow> 'k \<Rightarrow> ('k, 'v) dict \<Rightarrow> bool \<times> ('k, 'v) dict" where
  "change f k d = (case dget d k of None \<Rightarrow> (False, d) | Some v \<Rightarrow> (True, dset k (f v) d))"

definition of_system :: "('v \<Rightarrow> string) \<Rightarrow> string \<Rightarrow> (string, 'v) dict \<Rightarrow> 'v list" where
  "of_system sys system_id d = filter (\<lambda>v. sys v = system_id) (dvalues d)"

section \<open>The registry\<close>

type_synonym ai_registry = "(string, ai_system) dict"

definition register_ai_system ::
    "string \<Rightarrow> datetime \<Rightarrow> string \<Rightarrow> string \<Rightarrow> string \<Rightarrow> string \<Rightarrow> string \<Rightarrow> string \<Rightarrow> ai_registry \<Rightarrow> ai_system \<times> ai_registry" where
  "register_ai_system uid now name description provider purpose version deployer d =
     (let s = \<lparr>ai_system_id = uid, ai_name = name, ai_version = version, ai_description = description, ai_provider = provider,
            ai_deployer = deployer, ai_risk_category = MINIMAL, ai_high_risk_areas = [], ai_intended_purpose = purpose,
            ai_registration_date = now, ai_last_updated = now, ai_eu_database_registered = False, ai_ce_marking = False\<rparr>
      in (s, dset uid s d))"

definition update_risk_classification ::
    "datetime \<Rightarrow> string \<Rightarrow> risk_category \<Rightarrow> high_risk_area list option \<Rightarrow> ai_registry \<Rightarrow> bool \<times> ai_registry" where
  "update_risk_classification now sid cat areas =
     change (\<lambda>s. s\<lparr>ai_risk_category := cat,
       ai_high_risk_areas := (case areas of None \<Rightarrow> ai_high_risk_areas s | Some a \<Rightarrow> if a = [] then ai_high_risk_areas s else a),
       ai_last_updated := now\<rparr>) sid"

definition mark_registered_in_eu_database :: "datetime \<Rightarrow> string \<Rightarrow> ai_registry \<Rightarrow> bool \<times> ai_registry" where
  "mark_registered_in_eu_database now = change (\<lambda>s. s\<lparr>ai_eu_database_registered := True, ai_last_updated := now\<rparr>)"

definition apply_ce_marking :: "datetime \<Rightarrow> string \<Rightarrow> ai_registry \<Rightarrow> bool \<times> ai_registry" where
  "apply_ce_marking now sid d =
     (case dget d sid of
        None \<Rightarrow> (False, d)
      | Some s \<Rightarrow> if ai_risk_category s \<noteq> HIGH_RISK then (False, d) else (True, dset sid (s\<lparr>ai_ce_marking := True, ai_last_updated := now\<rparr>) d))"

definition get_high_risk_systems :: "ai_registry \<Rightarrow> ai_system list" where
  "get_high_risk_systems d = filter (\<lambda>s. ai_risk_category s = HIGH_RISK) (dvalues d)"

definition get_systems_by_area :: "high_risk_area \<Rightarrow> ai_registry \<Rightarrow> ai_system list" where
  "get_systems_by_area area d = filter (\<lambda>s. area \<in> set (ai_high_risk_areas s)) (dvalues d)"

section \<open>Risk assessments\<close>

definition PROHIBITED_KEYWORDS :: "string list" where
  "PROHIBITED_KEYWORDS =
     [''subliminal'', ''manipulative'', ''social_scoring'', ''real_time_biometric_public'', ''predictive_policing_individual'']"

definition limited_risk_keywords :: "string list" where
  "limited_risk_keywords = [''chatbot'', ''emotion_recognition'', ''deepfake'', ''synthetic'', ''generated_content'']"

definition all_text :: "string \<Rightarrow> string list \<Rightarrow> string" where
  "all_text purpose use_cases = py_lower purpose @ '' '' @ join_with '' '' (map py_lower use_cases)"

definition assess_risk :: "string \<Rightarrow> string list \<Rightarrow> high_risk_area list option \<Rightarrow> risk_category \<times> string \<times> string list" where
  "assess_risk purpose use_cases areas =
     (let text = all_text purpose use_cases
      in case List.find (\<lambda>k. str_in k text) PROHIBITED_KEYWORDS of
           Some k \<Rightarrow> (UNACCEPTABLE, ''Prohibited practice detected: '' @ k, [k])
         | None \<Rightarrow>
             (case areas of
                Some (a # as) \<Rightarrow>
                  let factors = map high_risk_area_value (a # as)
                  in (HIGH_RISK, ''System operates in high-risk area(s): '' @ join_with '', '' factors, factors)
              | _ \<Rightarrow>
                  (case List.find (\<lambda>k. str_in k text) limited_risk_keywords of
                     Some k \<Rightarrow> (LIMITED, ''Limited risk - transparency obligation for: '' @ k, [k])
                   | None \<Rightarrow> (MINIMAL, ''No high-risk indicators identified'', []))))"

type_synonym risk_assessor = "(string, risk_assessment) dict"

definition conduct_assessment ::
    "string \<Rightarrow> datetime \<Rightarrow> string \<Rightarrow> string \<Rightarrow> string \<Rightarrow> string list \<Rightarrow> high_risk_area list option \<Rightarrow> risk_assessor \<Rightarrow>
     risk_assessment result \<times> risk_assessor" where
  "conduct_assessment uid now sid by_whom purpose use_cases areas d =
     (case assess_risk purpose use_cases areas of
        (cat, rationale, factors) \<Rightarrow>
          case add_days now 365 of
            Inl e \<Rightarrow> (Inl e, d)
          | Inr review \<Rightarrow>
              let a = \<lparr>rk_assessment_id = uid, rk_system_id = sid, rk_conducted_by = by_whom, rk_conducted_date = now, rk_risk_category = cat,
                    rk_rationale = rationale, rk_high_risk_factors = factors, rk_mitigation_measures = [], rk_next_review_date = Some review\<rparr>
              in (Inr a, dset uid a d))"

definition ai_add_mitigation :: "string \<Rightarrow> string \<Rightarrow> risk_assessor \<Rightarrow> bool \<times> risk_assessor" where
  "ai_add_mitigation aid m = change (\<lambda>a. a\<lparr>rk_mitigation_measures := rk_mitigation_measures a @ [m]\<rparr>) aid"

definition get_assessments_for_system :: "string \<Rightarrow> risk_assessor \<Rightarrow> risk_assessment list" where
  "get_assessments_for_system = of_system rk_system_id"

section \<open>Technical documentation\<close>

definition TEXT_SECTIONS :: "string list" where
  "TEXT_SECTIONS = [''general_description'', ''detailed_description'', ''development_process'', ''monitoring_functioning'',
     ''risk_management'', ''data_governance'', ''cybersecurity_measures'', ''human_oversight_description'']"

definition REQUIRED_SECTIONS :: "string list" where
  "REQUIRED_SECTIONS = [''general_description'', ''detailed_description'', ''development_process'', ''monitoring_functioning'',
     ''risk_management'', ''data_governance'', ''accuracy_metrics'', ''cybersecurity_measures'', ''human_oversight_description'']"

type_synonym doc_manager = "(string, tech_doc) dict"

definition create_documentation :: "string \<Rightarrow> datetime \<Rightarrow> string \<Rightarrow> string \<Rightarrow> doc_manager \<Rightarrow> tech_doc \<times> doc_manager" where
  "create_documentation uid now sid version d =
     (let t = \<lparr>td_doc_id = uid, td_system_id = sid, td_version = version, td_created_date = Inl now, td_last_updated = now,
            td_sections = map (\<lambda>s. (s, [])) TEXT_SECTIONS, td_accuracy_metrics = Inl [], td_is_complete = False,
            td_missing_sections = Inl REQUIRED_SECTIONS\<rparr>
      in (t, dset uid t d))"

text \<open>\<open>setattr\<close> on a field of the documentation; \<open>last_updated\<close> and \<open>is_complete\<close> are overwritten afterwards.\<close>

definition set_field :: "string \<Rightarrow> string \<Rightarrow> tech_doc \<Rightarrow> tech_doc option" where
  "set_field f c t =
     (if f \<in> set TEXT_SECTIONS then Some (t\<lparr>td_sections := dset f c (td_sections t)\<rparr>)
      else if f = ''accuracy_metrics'' then Some (t\<lparr>td_accuracy_metrics := Inr c\<rparr>)
      else if f = ''missing_sections'' then Some (t\<lparr>td_missing_sections := Inr c\<rparr>)
      else if f = ''doc_id'' then Some (t\<lparr>td_doc_id := c\<rparr>)
      else if f = ''system_id'' then Some (t\<lparr>td_system_id := c\<rparr>)
      else if f = ''version'' then Some (t\<lparr>td_version := c\<rparr>)
      else if f = ''created_date'' then Some (t\<lparr>td_created_date := Inr c\<rparr>)
      else if f = ''last_updated'' \<or> f = ''is_complete'' then Some t
      else None)"

text \<open>The bookkeeping after an assignment: a missing section is struck off; a text has no \<open>remove\<close>.\<close>

definition strike :: "string \<Rightarrow> tech_doc \<Rightarrow> tech_doc result" where
  "strike section t =
     (case td_missing_sections t of
        Inl ms \<Rightarrow> let ms1 = remove1 section ms in Inr (t\<lparr>td_missing_sections := Inl ms1, td_is_complete := (ms1 = [])\<rparr>)
      | Inr c \<Rightarrow> if str_in section c then Inl AttributeError else Inr (t\<lparr>td_is_complete := (c = [])\<rparr>))"

definition update_section :: "datetime \<Rightarrow> string \<Rightarrow> string \<Rightarrow> string \<Rightarrow> doc_manager \<Rightarrow> bool result \<times> doc_manager" where
  "update_section now doc_id section content d =
     (case dget d doc_id of
        None \<Rightarrow> (Inr False, d)
      | Some t \<Rightarrow>
          (case set_field section content t of
             None \<Rightarrow> (Inr False, d)
           | Some t1 \<Rightarrow>
               let t2 = t1\<lparr>td_last_updated := now\<rparr>
               in case strike section t2 of
                    Inl e \<Rightarrow> (Inl e, dset doc_id t2 d)
                  | Inr t3 \<Rightarrow> (Inr True, dset doc_id t3 d)))"

definition update_accuracy_metrics :: "datetime \<Rightarrow> string \<Rightarrow> (string, json) dict \<Rightarrow> doc_manager \<Rightarrow> bool result \<times> doc_manager" where
  "update_accuracy_metrics now doc_id metrics d =
     (case dget d doc_id of
        None \<Rightarrow> (Inr False, d)
      | Some t \<Rightarrow>
          (case td_accuracy_metrics t of
             Inr c \<Rightarrow> (Inl AttributeError, d)
           | Inl old \<Rightarrow>
               let t2 = t\<lparr>td_accuracy_metrics := Inl (fold (\<lambda>(k, v). dset k v) metrics old), td_last_updated := now\<rparr>
               in case strike ''accuracy_metrics'' t2 of
                    Inl e \<Rightarrow> (Inl e, dset doc_id t2 d)
                  | Inr t3 \<Rightarrow> (Inr True, dset doc_id t3 d)))"

record doc_status =
  ds_is_complete :: bool
  ds_completion_percentage :: pyfloat
  ds_completed_sections :: int
  ds_total_sections :: int
  ds_missing_sections :: "string list + string"

definition missing_count :: "tech_doc \<Rightarrow> nat" where
  "missing_count t = (case td_missing_sections t of Inl ms \<Rightarrow> length ms | Inr c \<Rightarrow> length c)"

definition completion_percentage :: "int \<Rightarrow> pyfloat" where
  "completion_percentage completed = fl_mul (fl_of_rat (of_int completed / 9)) (Fin 100)"

definition get_completeness_status :: "string \<Rightarrow> doc_manager \<Rightarrow> doc_status option" where
  "get_completeness_status doc_id d =
     map_option (\<lambda>t. let completed = 9 - int (missing_count t)
       in \<lparr>ds_is_complete = td_is_complete t, ds_completion_percentage = completion_percentage completed,
           ds_completed_sections = completed, ds_total_sections = 9, ds_missing_sections = td_missing_sections t\<rparr>) (dget d doc_id)"

section \<open>Oversight\<close>

type_synonym oversight = "(string, oversight_measure) dict"

definition add_oversight_measure ::
    "string \<Rightarrow> string \<Rightarrow> string \<Rightarrow> string \<Rightarrow> string \<Rightarrow> bool \<Rightarrow> bool \<Rightarrow> oversight \<Rightarrow> oversight_measure \<times> oversight" where
  "add_oversight_measure uid sid description otype party stop intervene d =
     (let m = \<lparr>om_measure_id = uid, om_system_id = sid, om_description = description, om_oversight_type = otype,
            om_responsible_party = party, om_implementation_status = ''planned'', om_interface_description = [],
            om_stop_mechanism = stop, om_intervention_capability = intervene\<rparr>
      in (m, dset uid m d))"

definition update_implementation_status :: "string \<Rightarrow> string \<Rightarrow> string \<Rightarrow> oversight \<Rightarrow> bool \<times> oversight" where
  "update_implementation_status mid status interface =
     change (\<lambda>m. m\<lparr>om_implementation_status := status,
       om_interface_description := (if interface \<noteq> [] then interface else om_interface_description m)\<rparr>) mid"

definition get_measures_for_system :: "string \<Rightarrow> oversight \<Rightarrow> oversight_measure list" where
  "get_measures_for_system = of_system om_system_id"

text \<open>The answer without measures gives a reason instead of the three findings.\<close>

record oversight_status =
  os_compliant :: bool
  os_measures_count :: nat
  os_findings :: "(bool \<times> bool \<times> bool) option"

definition check_oversight :: "string \<Rightarrow> oversight \<Rightarrow> oversight_status" where
  "check_oversight sid d =
     (let ms = get_measures_for_system sid d
      in if ms = [] then \<lparr>os_compliant = False, os_measures_count = 0, os_findings = None\<rparr>
         else
           let stop = list_ex om_stop_mechanism ms; intervene = list_ex om_intervention_capability ms;
               implemented = list_all (\<lambda>m. om_implementation_status m = ''implemented'') ms
           in \<lparr>os_compliant = (stop \<and> intervene \<and> implemented), os_measures_count = length ms,
               os_findings = Some (stop, intervene, implemented)\<rparr>)"

section \<open>Disclosures\<close>

type_synonym disclosures = "(string, transparency_record) dict"

definition add_disclosure :: "string \<Rightarrow> string \<Rightarrow> string \<Rightarrow> string \<Rightarrow> string \<Rightarrow> disclosures \<Rightarrow> transparency_record \<times> disclosures" where
  "add_disclosure uid sid dtype text mechanism d =
     (let r = \<lparr>tr_record_id = uid, tr_system_id = sid, tr_disclosure_type = dtype, tr_disclosure_text = text,
            tr_disclosure_mechanism = mechanism, tr_implementation_date = None, tr_verified = False\<rparr>
      in (r, dset uid r d))"

definition verify_disclosure :: "datetime \<Rightarrow> string \<Rightarrow> disclosures \<Rightarrow> bool \<times> disclosures" where
  "verify_disclosure now = change (\<lambda>r. r\<lparr>tr_verified := True, tr_implementation_date := Some now\<rparr>)"

definition get_disclosures_for_system :: "string \<Rightarrow> disclosures \<Rightarrow> transparency_record list" where
  "get_disclosures_for_system = of_system tr_system_id"

record transparency_status =
  ts_required :: bool
  ts_compliant :: "bool option"
  ts_counts :: "(nat \<times> nat) option"

definition check_transparency :: "string \<Rightarrow> risk_category \<Rightarrow> disclosures \<Rightarrow> transparency_status" where
  "check_transparency sid cat d =
     (let ds = get_disclosures_for_system sid d
      in if cat = MINIMAL then \<lparr>ts_required = False, ts_compliant = None, ts_counts = None\<rparr>
         else if ds = [] then \<lparr>ts_required = True, ts_compliant = Some False, ts_counts = None\<rparr>
         else \<lparr>ts_required = True, ts_compliant = Some (list_all tr_verified ds),
               ts_counts = Some (length (filter tr_verified ds), length ds)\<rparr>)"

section \<open>Conformity\<close>

type_synonym conformity = "(string, conformity_assessment) dict"

definition initiate_assessment ::
    "string \<Rightarrow> datetime \<Rightarrow> string \<Rightarrow> string \<Rightarrow> string option \<Rightarrow> conformity \<Rightarrow> conformity_assessment \<times> conformity" where
  "initiate_assessment uid now sid atype body d =
     (let a = \<lparr>cf_assessment_id = uid, cf_system_id = sid, cf_assessment_type = atype, cf_notified_body_id = body, cf_conducted_date = now,
            cf_status = CONFORMITY_RUNNING, cf_findings = [], cf_non_conformities = [], cf_corrective_actions = [],
            cf_certificate_id = None, cf_valid_until = None\<rparr>
      in (a, dset uid a d))"

definition add_finding :: "string \<Rightarrow> string \<Rightarrow> conformity \<Rightarrow> bool \<times> conformity" where
  "add_finding aid f = change (\<lambda>a. a\<lparr>cf_findings := cf_findings a @ [f]\<rparr>) aid"

definition add_non_conformity :: "string \<Rightarrow> string \<Rightarrow> string \<Rightarrow> conformity \<Rightarrow> bool \<times> conformity" where
  "add_non_conformity aid nc action =
     change (\<lambda>a. a\<lparr>cf_non_conformities := cf_non_conformities a @ [nc], cf_corrective_actions := cf_corrective_actions a @ [action],
       cf_status := REQUIRES_REVIEW\<rparr>) aid"

text \<open>The status is written before the date is computed, which raises beyond the year 9999.\<close>

definition complete_assessment ::
    "datetime \<Rightarrow> string \<Rightarrow> bool \<Rightarrow> string option \<Rightarrow> int \<Rightarrow> conformity \<Rightarrow> bool result \<times> conformity" where
  "complete_assessment now aid passed certificate years d =
     (case dget d aid of
        None \<Rightarrow> (Inr False, d)
      | Some a \<Rightarrow>
          let a1 = a\<lparr>cf_status := (if passed then CONFORMITY_PASSED else CONFORMITY_FAILED)\<rparr>
          in if passed \<and> certificate \<noteq> None \<and> certificate \<noteq> Some [] then
               let a2 = a1\<lparr>cf_certificate_id := certificate\<rparr>
               in case add_days now (365 * years) of
                    Inl e \<Rightarrow> (Inl e, dset aid a2 d)
                  | Inr t \<Rightarrow> (Inr True, dset aid (a2\<lparr>cf_valid_until := Some t\<rparr>) d)
             else (Inr True, dset aid a1 d))"

text \<open>\<open>max\<close> keeps the first of several maxima.\<close>

fun max_by :: "('a \<Rightarrow> int) \<Rightarrow> 'a \<Rightarrow> 'a list \<Rightarrow> 'a" where
  "max_by key best [] = best"
| "max_by key best (x # xs) = max_by key (if key best < key x then x else best) xs"

definition get_assessment_for_system :: "string \<Rightarrow> conformity \<Rightarrow> conformity_assessment option" where
  "get_assessment_for_system sid d =
     (case of_system cf_system_id sid d of [] \<Rightarrow> None | a # as \<Rightarrow> Some (max_by cf_conducted_date a as))"

section \<open>Incidents\<close>

type_synonym ai_incidents = "(string, ai_incident) dict"

definition report_incident ::
    "string \<Rightarrow> datetime \<Rightarrow> string \<Rightarrow> string \<Rightarrow> string \<Rightarrow> bool \<Rightarrow> bool \<Rightarrow> string list option \<Rightarrow> ai_incidents \<Rightarrow> ai_incident \<times> ai_incidents" where
  "report_incident uid now sid description severity rights health affected d =
     (let i = \<lparr>in_incident_id = uid, in_system_id = sid, in_occurred_date = now, in_reported_date = None, in_description = description,
            in_severity = severity, in_affected_parties = (case affected of None \<Rightarrow> [] | Some a \<Rightarrow> a), in_fundamental_rights_impact = rights,
            in_health_safety_impact = health, in_notified_authority = False, in_investigation_status = ''open'', in_root_cause = [],
            in_corrective_measures = []\<rparr>
      in (i, dset uid i d))"

definition notify_authority :: "datetime \<Rightarrow> string \<Rightarrow> ai_incidents \<Rightarrow> bool \<times> ai_incidents" where
  "notify_authority now = change (\<lambda>i. i\<lparr>in_notified_authority := True, in_reported_date := Some now\<rparr>)"

definition ai_resolve_incident :: "string \<Rightarrow> string \<Rightarrow> string list \<Rightarrow> ai_incidents \<Rightarrow> bool \<times> ai_incidents" where
  "ai_resolve_incident iid cause steps =
     change (\<lambda>i. i\<lparr>in_root_cause := cause, in_corrective_measures := steps, in_investigation_status := ''resolved''\<rparr>) iid"

definition get_incidents_for_system :: "string \<Rightarrow> ai_incidents \<Rightarrow> ai_incident list" where
  "get_incidents_for_system = of_system in_system_id"

definition get_open_incidents :: "ai_incidents \<Rightarrow> ai_incident list" where
  "get_open_incidents d = filter (\<lambda>i. in_investigation_status i = ''open'') (dvalues d)"

section \<open>The central manager\<close>

record ai_act =
  aa_organization_name :: string
  aa_registry :: ai_registry
  aa_risk_assessor :: risk_assessor
  aa_documentation :: doc_manager
  aa_human_oversight :: oversight
  aa_transparency :: disclosures
  aa_conformity :: conformity
  aa_incidents :: ai_incidents
  aa_initialized :: bool

definition ai_act_init :: "string \<Rightarrow> ai_act" where
  "ai_act_init name = \<lparr>aa_organization_name = name, aa_registry = [], aa_risk_assessor = [], aa_documentation = [], aa_human_oversight = [],
     aa_transparency = [], aa_conformity = [], aa_incidents = [], aa_initialized = False\<rparr>"

definition ai_act_initialize :: "ai_act \<Rightarrow> bool \<times> ai_act" where
  "ai_act_initialize m = (True, m\<lparr>aa_initialized := True\<rparr>)"

text \<open>The three steps read the clock once each; an assessment that raises leaves the system registered.\<close>

definition register_and_assess_system ::
    "string \<Rightarrow> string \<Rightarrow> datetime \<Rightarrow> datetime \<Rightarrow> datetime \<Rightarrow> string \<Rightarrow> string \<Rightarrow> string \<Rightarrow> string \<Rightarrow> string \<Rightarrow> string list option \<Rightarrow>
     high_risk_area list option \<Rightarrow> ai_act \<Rightarrow> (ai_system option \<times> risk_assessment) result \<times> ai_act" where
  "register_and_assess_system uid aid t1 t2 t3 name description purpose provider deployer use_cases areas m =
     (let reg = snd (register_ai_system uid t1 name description provider purpose ''1.0.0'' deployer (aa_registry m));
          cases = (case use_cases of None \<Rightarrow> [] | Some c \<Rightarrow> c)
      in case conduct_assessment aid t2 uid provider purpose cases areas (aa_risk_assessor m) of
           (Inl e, rs) \<Rightarrow> (Inl e, m\<lparr>aa_registry := reg, aa_risk_assessor := rs\<rparr>)
         | (Inr a, rs) \<Rightarrow>
             let reg1 = snd (update_risk_classification t3 uid (rk_risk_category a) areas reg)
             in (Inr (dget reg1 uid, a), m\<lparr>aa_registry := reg1, aa_risk_assessor := rs\<rparr>))"

definition compliance_points :: "oversight_status \<Rightarrow> transparency_status \<Rightarrow> conformity_assessment option \<Rightarrow> int" where
  "compliance_points os ts cf =
     (if os_compliant os then 25 else 0) + (if ts_compliant ts = Some True \<or> \<not> ts_required ts then 20 else 0) +
     (case cf of None \<Rightarrow> 0 | Some c \<Rightarrow> if cf_status c = CONFORMITY_PASSED then 30 else 0)"

text \<open>
  The sums of whole points are exact; a documentation that could not be looked up (\<open>Some None\<close>) counts as zero
  per cent.
\<close>

definition documentation_points :: "int \<Rightarrow> doc_status option option \<Rightarrow> pyfloat" where
  "documentation_points points doc =
     (case doc of
        None \<Rightarrow> Fin (of_int points)
      | Some None \<Rightarrow> fl_add (Fin (of_int points)) (fl_mul (Fin 0) (Fin (1 / 4)))
      | Some (Some st) \<Rightarrow>
          if ds_is_complete st then fl_add (Fin (of_int points)) (Fin 25)
          else fl_add (Fin (of_int points)) (fl_mul (ds_completion_percentage st) (Fin (1 / 4))))"

definition ai_compliance_score ::
    "ai_system \<Rightarrow> oversight_status \<Rightarrow> transparency_status \<Rightarrow> conformity_assessment option \<Rightarrow> doc_status option option \<Rightarrow> pyfloat" where
  "ai_compliance_score s os ts cf doc =
     (if ai_risk_category s = MINIMAL then Fin 100
      else if ai_risk_category s = UNACCEPTABLE then Fin 0
      else case fl_div (documentation_points (compliance_points os ts cf) doc) (Fin 100) of
             Inl e \<Rightarrow> Fin 0
           | Inr q \<Rightarrow> py_round 1 (fl_mul q (Fin 100)))"

record ai_report =
  ap_system :: ai_system
  ap_score :: pyfloat
  ap_risk_assessments :: nat
  ap_human_oversight :: oversight_status
  ap_transparency :: transparency_status
  ap_conformity :: "(conformity_status \<times> string option) option"
  ap_documentation :: "doc_status option option"
  ap_incidents :: nat
  ap_open_incidents :: nat

definition system_doc_status :: "string \<Rightarrow> doc_manager \<Rightarrow> doc_status option option" where
  "system_doc_status sid d =
     map_option (\<lambda>t. get_completeness_status (td_doc_id t) d) (List.find (\<lambda>t. td_system_id t = sid) (dvalues d))"

definition ai_compliance_report :: "string \<Rightarrow> ai_act \<Rightarrow> ai_report option" where
  "ai_compliance_report sid m =
     (case dget (aa_registry m) sid of
        None \<Rightarrow> None
      | Some s \<Rightarrow>
          let os = check_oversight sid (aa_human_oversight m); ts = check_transparency sid (ai_risk_category s) (aa_transparency m);
              cf = get_assessment_for_system sid (aa_conformity m); incs = get_incidents_for_system sid (aa_incidents m);
              doc = system_doc_status sid (aa_documentation m)
          in Some \<lparr>ap_system = s, ap_score = ai_compliance_score s os ts cf doc,
               ap_risk_assessments = length (get_assessments_for_system sid (aa_risk_assessor m)), ap_human_oversight = os,
               ap_transparency = ts, ap_conformity = map_option (\<lambda>c. (cf_status c, cf_certificate_id c)) cf, ap_documentation = doc,
               ap_incidents = length incs, ap_open_incidents = length (filter (\<lambda>i. in_investigation_status i = ''open'') incs)\<rparr>)"

record checklist_item =
  ck_item :: string
  ck_article :: string
  ck_status :: string
  ck_notes :: string

definition pass_or :: "bool \<Rightarrow> string \<Rightarrow> string" where
  "pass_or ok bad = (if ok then ''pass'' else bad)"

definition high_risk_items :: "ai_system \<Rightarrow> oversight_status \<Rightarrow> checklist_item list" where
  "high_risk_items s os =
     [\<lparr>ck_item = ''Human Oversight Measures'', ck_article = ''Article 14'', ck_status = pass_or (os_compliant os) ''needs_work'',
       ck_notes = dec_of_nat (os_measures_count os) @ '' measures defined''\<rparr>,
      \<lparr>ck_item = ''Technical Documentation'', ck_article = ''Annex IV'', ck_status = ''pending'', ck_notes = ''Verify documentation completeness''\<rparr>,
      \<lparr>ck_item = ''Conformity Assessment'', ck_article = ''Article 43'', ck_status = pass_or (ai_ce_marking s) ''needs_work'',
       ck_notes = ''CE marking required for market placement''\<rparr>,
      \<lparr>ck_item = ''EU Database Registration'', ck_article = ''Article 71'', ck_status = pass_or (ai_eu_database_registered s) ''needs_work'',
       ck_notes = ''Registration in EU database required''\<rparr>]"

definition ai_audit_checklist :: "string \<Rightarrow> ai_act \<Rightarrow> checklist_item list" where
  "ai_audit_checklist sid m =
     (case dget (aa_registry m) sid of
        None \<Rightarrow> []
      | Some s \<Rightarrow>
          let ts = check_transparency sid (ai_risk_category s) (aa_transparency m)
          in [\<lparr>ck_item = ''System Registration'', ck_article = ''Article 49'', ck_status = pass_or (ai_system_id s \<noteq> []) ''fail'',
               ck_notes = ''Registered as '' @ ai_system_id s\<rparr>,
              \<lparr>ck_item = ''Risk Classification'', ck_article = ''Article 6'', ck_status = ''pass'',
               ck_notes = ''Classified as '' @ risk_category_value (ai_risk_category s) @ '' risk''\<rparr>] @
             (if ai_risk_category s = HIGH_RISK then high_risk_items s (check_oversight sid (aa_human_oversight m)) else []) @
             (if ts_required ts then
                [\<lparr>ck_item = ''Transparency Obligations'', ck_article = ''Article 50'', ck_status = pass_or (ts_compliant ts = Some True) ''needs_work'',
                  ck_notes = dec_of_nat (case ts_counts ts of None \<Rightarrow> 0 | Some (v, n) \<Rightarrow> v) @ ''/'' @
                    dec_of_nat (case ts_counts ts of None \<Rightarrow> 0 | Some (v, n) \<Rightarrow> n) @ '' verified''\<rparr>]
              else []))"

section \<open>A documentation is complete when every section was written\<close>

datatype doc_op = WriteSection datetime string string string | WriteMetrics datetime string "(string, json) dict"

fun doc_step :: "doc_op \<Rightarrow> doc_manager \<Rightarrow> doc_manager" where
  "doc_step (WriteSection now did section content) d = snd (update_section now did section content d)"
| "doc_step (WriteMetrics now did metrics) d = snd (update_accuracy_metrics now did metrics d)"

fun touches :: "string \<Rightarrow> doc_op \<Rightarrow> string option" where
  "touches did (WriteSection now i section content) = (if i = did then Some section else None)"
| "touches did (WriteMetrics now i metrics) = (if i = did then Some ''accuracy_metrics'' else None)"

definition doc_tracks :: "string set \<Rightarrow> tech_doc \<Rightarrow> bool" where
  "doc_tracks W t \<longleftrightarrow>
     td_missing_sections t = Inl (filter (\<lambda>s. s \<notin> W) REQUIRED_SECTIONS) \<and> (td_is_complete t \<longleftrightarrow> set REQUIRED_SECTIONS \<subseteq> W) \<and>
     (\<forall>c. td_accuracy_metrics t = Inr c \<longrightarrow> ''accuracy_metrics'' \<in> W)"

lemma REQUIRED_distinct: "distinct REQUIRED_SECTIONS"
  by (simp add: REQUIRED_SECTIONS_def)

lemma strike_missing: "remove1 x (filter (\<lambda>s. s \<notin> W) REQUIRED_SECTIONS) = filter (\<lambda>s. s \<notin> insert x W) REQUIRED_SECTIONS"
  using REQUIRED_distinct by (simp add: distinct_remove1_removeAll removeAll_filter_not_eq filter_filter conj_commute cong: filter_cong) metis

lemma strike_tracks:
  assumes "td_missing_sections t = Inl (filter (\<lambda>s. s \<notin> W) REQUIRED_SECTIONS)"
  shows "\<exists>t1. strike x t = Inr t1 \<and> td_missing_sections t1 = Inl (filter (\<lambda>s. s \<notin> insert x W) REQUIRED_SECTIONS) \<and>
    (td_is_complete t1 \<longleftrightarrow> set REQUIRED_SECTIONS \<subseteq> insert x W) \<and> td_accuracy_metrics t1 = td_accuracy_metrics t"
  using assms strike_missing [of x W] by (auto simp: strike_def Let_def filter_empty_conv)

lemma set_field_keeps:
  assumes "set_field f c t = Some t1" "f \<noteq> ''missing_sections''"
  shows "td_missing_sections t1 = td_missing_sections t" "f \<noteq> ''accuracy_metrics'' \<Longrightarrow> td_accuracy_metrics t1 = td_accuracy_metrics t"
  using assms by (auto simp: set_field_def split: if_splits)

lemma set_field_required: "f \<in> set REQUIRED_SECTIONS \<Longrightarrow> set_field f c t \<noteq> None"
  by (auto simp: set_field_def REQUIRED_SECTIONS_def TEXT_SECTIONS_def)

lemma doc_tracks_more: "doc_tracks W t \<Longrightarrow> x \<notin> set REQUIRED_SECTIONS \<or> x \<in> W \<Longrightarrow> doc_tracks (insert x W) t"
proof -
  assume t: "doc_tracks W t" and x: "x \<notin> set REQUIRED_SECTIONS \<or> x \<in> W"
  have "filter (\<lambda>s. s \<notin> W) REQUIRED_SECTIONS = filter (\<lambda>s. s \<notin> insert x W) REQUIRED_SECTIONS" using x by (intro filter_cong) auto
  with t x show ?thesis by (auto simp: doc_tracks_def)
qed

lemma update_section_tracks:
  assumes "dget d did = Some t" "doc_tracks W t" "section \<noteq> ''missing_sections''"
  shows "\<exists>t1. dget (snd (update_section now did section content d)) did = Some t1 \<and> doc_tracks (insert section W) t1"
proof (cases "set_field section content t")
  case None
  then have "section \<notin> set REQUIRED_SECTIONS" using set_field_required by metis
  with None assms doc_tracks_more show ?thesis by (auto simp: update_section_def)
next
  case (Some t0)
  let ?t2 = "t0\<lparr>td_last_updated := now\<rparr>"
  have "td_missing_sections ?t2 = Inl (filter (\<lambda>s. s \<notin> W) REQUIRED_SECTIONS)"
    using set_field_keeps(1) [OF Some assms(3)] assms(2) by (simp add: doc_tracks_def)
  from strike_tracks [OF this, of "section"] obtain t1 where t1: "strike section ?t2 = Inr t1"
    "td_missing_sections t1 = Inl (filter (\<lambda>s. s \<notin> insert section W) REQUIRED_SECTIONS)"
    "td_is_complete t1 \<longleftrightarrow> set REQUIRED_SECTIONS \<subseteq> insert section W" "td_accuracy_metrics t1 = td_accuracy_metrics t0" by auto
  have "''accuracy_metrics'' \<in> insert section W" if "td_accuracy_metrics t1 = Inr c" for c
    using that t1(4) set_field_keeps(2) [OF Some assms(3)] assms(2) by (cases "section = ''accuracy_metrics''") (auto simp: doc_tracks_def)
  with t1(2,3) have "doc_tracks (insert section W) t1" unfolding doc_tracks_def by blast
  then show ?thesis using assms(1) Some t1(1) by (simp add: update_section_def Let_def)
qed

lemma update_metrics_tracks:
  assumes "dget d did = Some t" "doc_tracks W t"
  shows "\<exists>t1. dget (snd (update_accuracy_metrics now did metrics d)) did = Some t1 \<and> doc_tracks (insert ''accuracy_metrics'' W) t1"
proof (cases "td_accuracy_metrics t")
  case (Inr c)
  then have "''accuracy_metrics'' \<in> W" using assms(2) by (simp add: doc_tracks_def)
  with Inr assms doc_tracks_more show ?thesis by (auto simp: update_accuracy_metrics_def)
next
  case (Inl old)
  let ?t2 = "t\<lparr>td_accuracy_metrics := Inl (fold (\<lambda>(k, v). dset k v) metrics old), td_last_updated := now\<rparr>"
  have "td_missing_sections ?t2 = Inl (filter (\<lambda>s. s \<notin> W) REQUIRED_SECTIONS)" using assms(2) by (simp add: doc_tracks_def)
  from strike_tracks [OF this, of "''accuracy_metrics''"] obtain t1 where "strike ''accuracy_metrics'' ?t2 = Inr t1"
    "doc_tracks (insert ''accuracy_metrics'' W) t1" unfolding doc_tracks_def by auto
  then show ?thesis using assms(1) Inl by (simp add: update_accuracy_metrics_def Let_def)
qed

lemma other_doc_kept:
  "i \<noteq> did \<Longrightarrow> dget (snd (update_section now i section content d)) did = dget d did"
  "i \<noteq> did \<Longrightarrow> dget (snd (update_accuracy_metrics now i metrics d)) did = dget d did"
  by (auto simp: update_section_def update_accuracy_metrics_def Let_def split: option.splits sum.splits)

definition touched :: "string \<Rightarrow> doc_op list \<Rightarrow> string set" where
  "touched did ops = {s. Some s \<in> touches did ` set ops}"

lemma doc_run_tracks:
  assumes "dget d did = Some t" "doc_tracks W t" "''missing_sections'' \<notin> touched did ops"
  shows "\<exists>t1. dget (fold doc_step ops d) did = Some t1 \<and> doc_tracks (W \<union> touched did ops) t1"
  using assms
proof (induction ops arbitrary: d t W)
  case (Cons op ops)
  have t: "touched did (op # ops) = (case touches did op of None \<Rightarrow> {} | Some s \<Rightarrow> {s}) \<union> touched did ops"
    by (auto simp: touched_def image_iff split: option.splits)
  have "\<exists>t1. dget (doc_step op d) did = Some t1 \<and> doc_tracks (W \<union> (case touches did op of None \<Rightarrow> {} | Some s \<Rightarrow> {s})) t1"
    using update_section_tracks [OF Cons.prems(1,2)] update_metrics_tracks [OF Cons.prems(1,2)] other_doc_kept Cons.prems t
    by (cases op) (auto split: if_splits)
  then obtain t1 where t1: "dget (doc_step op d) did = Some t1" "doc_tracks (W \<union> (case touches did op of None \<Rightarrow> {} | Some s \<Rightarrow> {s})) t1" by blast
  from Cons.IH [OF this] Cons.prems(3) show ?case by (simp add: t Un_assoc)
qed (simp add: touched_def)

text \<open>
  After any updates of a new documentation, including unknown sections, metrics and updates of other documents,
  the sections it reports as missing are the required ones that no update named, in their order, and it counts as
  complete exactly when there are none; the field with the missing sections itself must not be assigned.
\<close>

theorem documentation_tracks_sections:
  assumes "''missing_sections'' \<notin> touched did ops"
  shows "\<exists>st. get_completeness_status did (fold doc_step ops (snd (create_documentation did now sid version d))) = Some st \<and>
    ds_missing_sections st = Inl (filter (\<lambda>s. s \<notin> touched did ops) REQUIRED_SECTIONS) \<and>
    (ds_is_complete st \<longleftrightarrow> set REQUIRED_SECTIONS \<subseteq> touched did ops)"
proof -
  let ?d = "snd (create_documentation did now sid version d)"
  obtain t where t: "dget ?d did = Some t" "doc_tracks {} t"
    by (simp add: create_documentation_def doc_tracks_def Let_def REQUIRED_SECTIONS_def)
  from doc_run_tracks [OF t assms] show ?thesis by (auto simp: get_completeness_status_def doc_tracks_def Let_def)
qed

theorem documentation_tracks_sections_witness:
  "\<exists>st. get_completeness_status ''d'' (fold doc_step [WriteSection 1 ''d'' ''risk_management'' [], WriteMetrics 2 ''d'' []]
       (snd (create_documentation ''d'' 0 ''s'' ''1'' []))) = Some st \<and> \<not> ds_is_complete st"
proof -
  let ?ops = "[WriteSection 1 ''d'' ''risk_management'' [], WriteMetrics 2 ''d'' []]"
  have t: "touched ''d'' ?ops = {''risk_management'', ''accuracy_metrics''}" by (auto simp: touched_def)
  then show ?thesis using documentation_tracks_sections [of "''d''" ?ops 0 "''s''" "''1''" "[]"]
    by (auto simp: REQUIRED_SECTIONS_def)
qed

text \<open>Assigning the empty text to the field itself completes a documentation of which nothing was written.\<close>

lemma missing_sections_can_be_cleared:
  "\<exists>st. get_completeness_status did (snd (update_section t2 did ''missing_sections'' [] (snd (create_documentation did t1 sid v d)))) = Some st \<and>
     ds_is_complete st"
  by (simp add: get_completeness_status_def update_section_def create_documentation_def set_field_def TEXT_SECTIONS_def strike_def Let_def)

section \<open>The latest assessment\<close>

lemma max_by_in: "max_by key b xs \<in> set (b # xs)"
  by (induction key b xs rule: max_by.induct) auto

lemma max_by_ge: "x \<in> set (b # xs) \<Longrightarrow> key x \<le> key (max_by key b xs)"
proof (induction xs arbitrary: b x)
  case (Cons y ys)
  let ?b = "if key b < key y then y else b"
  have "key ?b \<le> key (max_by key ?b ys)" by (rule Cons.IH) simp
  then have "key b \<le> key (max_by key ?b ys)" "key y \<le> key (max_by key ?b ys)" by (auto split: if_splits)
  then show ?case using Cons.IH [of x ?b] Cons.prems by auto
qed simp

text \<open>
  The assessment found for a system belongs to it, and no assessment of that system was conducted later; one
  is found exactly when there is one.
\<close>

theorem latest_assessment_found:
  "(get_assessment_for_system sid d = None \<longleftrightarrow> (\<forall>a \<in> set (dvalues d). cf_system_id a \<noteq> sid)) \<and>
   (\<forall>a. get_assessment_for_system sid d = Some a \<longrightarrow> a \<in> set (dvalues d) \<and> cf_system_id a = sid \<and>
     (\<forall>b \<in> set (dvalues d). cf_system_id b = sid \<longrightarrow> cf_conducted_date b \<le> cf_conducted_date a))"
proof (cases "of_system cf_system_id sid d")
  case Nil
  then show ?thesis by (auto simp: get_assessment_for_system_def of_system_def filter_empty_conv)
next
  case (Cons a as)
  then have f: "filter (\<lambda>v. cf_system_id v = sid) (dvalues d) = a # as" by (simp add: of_system_def)
  then have s: "set (a # as) = {v \<in> set (dvalues d). cf_system_id v = sid}" by (metis set_filter)
  show ?thesis using max_by_in [of cf_conducted_date a as] max_by_ge [of _ a as cf_conducted_date] s Cons
    by (auto simp: get_assessment_for_system_def)
qed

section \<open>The score\<close>

lemma fl_round_up_to:
  assumes "0 \<le> x" "x \<le> y" "1 / 2 \<le> y"
  shows "fl_round x \<le> y + y / 2 ^ 53"
proof -
  have "\<bar>fl_round y - y\<bar> \<le> y / 2 ^ 53" by (rule fl_round_error_half [OF assms(3)])
  then have "fl_round y \<le> y + y / 2 ^ 53" by linarith
  with fl_round_mono [OF assms(2)] show ?thesis by linarith
qed

lemma fl_below_int:
  assumes "0 \<le> x" "x \<le> of_int m" "\<bar>m\<bar> < 2 ^ 53"
  shows "\<exists>y. fl_of_rat x = Fin y \<and> 0 \<le> y \<and> y \<le> of_int m"
  using fl_of_rat_bracket [of 0 x m] assms by auto

lemma percentage_bounds:
  assumes "0 \<le> c" "c \<le> 8"
  shows "\<exists>y. completion_percentage c = Fin y \<and> 0 \<le> y \<and> y \<le> 89"
proof -
  have c: "0 \<le> (of_int c / 9 :: rat)" "(of_int c / 9 :: rat) \<le> 8 / 9" using assms by (simp_all add: divide_right_mono)
  have q: "fl_of_rat (of_int c / 9) = Fin (fl_round (of_int c / 9))" "0 \<le> fl_round (of_int c / 9)"
    using fl_of_rat_bracket [of 0 "of_int c / 9" 1] c by simp_all
  have "fl_round (of_int c / 9) \<le> 8 / 9 + 8 / 9 / 2 ^ 53" by (rule fl_round_up_to [OF c]) simp
  then have "fl_round (of_int c / 9) * 100 \<le> 89" by simp
  with fl_below_int [of "fl_round (of_int c / 9) * 100" 89] q show ?thesis by (simp add: completion_percentage_def)
qed

definition fair_status :: "doc_status option option \<Rightarrow> bool" where
  "fair_status doc \<longleftrightarrow> (\<forall>st. doc = Some (Some st) \<longrightarrow>
     ds_is_complete st \<or> (\<exists>c. ds_completion_percentage st = completion_percentage c \<and> 0 \<le> c \<and> c \<le> 8))"

definition doc_complete :: "doc_status option option \<Rightarrow> bool" where
  "doc_complete doc \<longleftrightarrow> (\<exists>st. doc = Some (Some st) \<and> ds_is_complete st)"

lemma documentation_points_bounds:
  assumes "0 \<le> p" "p = 75 \<or> p \<le> 55" "fair_status doc"
  shows "\<exists>x. documentation_points p doc = Fin x \<and> 0 \<le> x \<and> (if p = 75 \<and> doc_complete doc then x = 100 else x \<le> 98)"
proof (cases "doc_complete doc")
  case True
  then show ?thesis using assms fl_add_ints [of p 25] by (auto simp: documentation_points_def doc_complete_def simp del: fl_add.simps)
next
  case False
  obtain y where y: "documentation_points p doc = fl_add (Fin (of_int p)) (Fin y)" "0 \<le> y" "y \<le> 23"
  proof (cases "\<exists>st. doc = Some (Some st)")
    case True
    then obtain st c where st: "doc = Some (Some st)" "\<not> ds_is_complete st" "ds_completion_percentage st = completion_percentage c" "0 \<le> c" "c \<le> 8"
      using False assms(3) by (auto simp: doc_complete_def fair_status_def)
    from percentage_bounds [OF st(4,5)] obtain z where z: "completion_percentage c = Fin z" "0 \<le> z" "z \<le> 89" by blast
    with fl_below_int [of "z * (1 / 4)" 23] obtain y where "fl_mul (Fin z) (Fin (1 / 4)) = Fin y" "0 \<le> y" "y \<le> 23" by auto
    then show thesis using that st z by (simp add: documentation_points_def)
  next
    case False
    then have "documentation_points p doc = fl_add (Fin (of_int p)) (Fin 0)"
      using fl_of_rat_int [of p] fl_of_rat_int [of 0] assms(1,2) by (auto simp: documentation_points_def split: option.splits)
    then show thesis using that [of 0] by simp
  qed
  have "p \<le> 75" using assms(2) by auto
  then have "(of_int p :: rat) \<le> of_int 75" by (simp only: of_int_le_iff)
  then have "of_int p + y \<le> of_int 98" using y(3) by simp
  then obtain x where "fl_of_rat (of_int p + y) = Fin x" "0 \<le> x" "x \<le> 98" using fl_below_int [of "of_int p + y" 98] assms(1) y(2) by auto
  then show ?thesis using False y(1) by simp
qed

lemma round_even_le: "x \<le> of_int m \<Longrightarrow> round_even x \<le> m"
  using round_even_mono [of x "of_int m"] by simp

lemma scaled_score:
  assumes "0 \<le> x" "x \<le> 98"
  shows "\<exists>q z. fl_div (Fin x) (Fin 100) = Inr q \<and> py_round 1 (fl_mul q (Fin 100)) = Fin z \<and> 0 \<le> z \<and> z \<le> 99"
proof -
  have q: "fl_of_rat (x / 100) = Fin (fl_round (x / 100))" "0 \<le> fl_round (x / 100)"
    using fl_of_rat_bracket [of 0 "x / 100" 1] assms by simp_all
  have "fl_round (x / 100) \<le> 98 / 100 + 98 / 100 / 2 ^ 53" by (rule fl_round_up_to) (use assms in simp_all)
  then have "fl_round (x / 100) * 100 \<le> 99" by simp
  with fl_below_int [of "fl_round (x / 100) * 100" 99] q(2) obtain y where y: "fl_of_rat (fl_round (x / 100) * 100) = Fin y" "0 \<le> y" "y \<le> 99" by auto
  have "round_even (y * 10) \<le> 990" by (rule round_even_le) (use y(3) in simp)
  moreover have "0 \<le> round_even (y * 10)" using round_even_mono [of "of_int 0" "y * 10"] round_even_of_int [of 0] y(2) by simp
  ultimately have "0 \<le> (of_int (round_even (y * 10)) / 10 :: rat)" "(of_int (round_even (y * 10)) / 10 :: rat) \<le> of_int 99"
    by (simp_all add: divide_le_eq)
  from fl_below_int [OF this] obtain z where "py_round 1 (Fin y) = Fin z" "0 \<le> z" "z \<le> 99" by auto
  then show ?thesis using q(1) y(1) by simp
qed

lemma full_score: "py_round 1 (fl_mul (fl_of_rat (100 / 100)) (Fin 100)) = Fin 100"
proof -
  have "fl_of_rat 1 = Fin 1" "fl_of_rat 100 = Fin 100" using fl_of_rat_int [of 1] fl_of_rat_int [of 100] by simp_all
  moreover have "round_even 1000 = 1000" using round_even_of_int [of 1000] by simp
  ultimately show ?thesis by simp
qed

definition requirements_met :: "oversight_status \<Rightarrow> transparency_status \<Rightarrow> conformity_assessment option \<Rightarrow> doc_status option option \<Rightarrow> bool" where
  "requirements_met os ts cf doc \<longleftrightarrow> os_compliant os \<and> (ts_compliant ts = Some True \<or> \<not> ts_required ts) \<and>
     (\<exists>c. cf = Some c \<and> cf_status c = CONFORMITY_PASSED) \<and> doc_complete doc"

lemma compliance_points_range:
  "0 \<le> compliance_points os ts cf" "compliance_points os ts cf = 75 \<or> compliance_points os ts cf \<le> 55"
  "compliance_points os ts cf = 75 \<longleftrightarrow> os_compliant os \<and> (ts_compliant ts = Some True \<or> \<not> ts_required ts) \<and>
     (\<exists>c. cf = Some c \<and> cf_status c = CONFORMITY_PASSED)"
  by (auto simp: compliance_points_def split: option.splits)

lemma score_bounds:
  assumes "ai_risk_category s \<noteq> MINIMAL" "ai_risk_category s \<noteq> UNACCEPTABLE" "fair_status doc"
  shows "\<exists>z. ai_compliance_score s os ts cf doc = Fin z \<and> 0 \<le> z \<and> (if requirements_met os ts cf doc then z = 100 else z \<le> 99)"
proof -
  let ?p = "compliance_points os ts cf"
  obtain x where x: "documentation_points ?p doc = Fin x" "0 \<le> x" "if ?p = 75 \<and> doc_complete doc then x = 100 else x \<le> 98"
    using documentation_points_bounds [OF compliance_points_range(1,2) assms(3)] by blast
  have m: "requirements_met os ts cf doc \<longleftrightarrow> ?p = 75 \<and> doc_complete doc"
    by (auto simp: requirements_met_def compliance_points_range(3))
  show ?thesis
  proof (cases "requirements_met os ts cf doc")
    case True
    then have "x = 100" using x(3) m by simp
    then show ?thesis using True assms(1,2) x(1) full_score by (simp add: ai_compliance_score_def)
  next
    case False
    then have "x \<le> 98" using x(3) m by auto
    from scaled_score [OF x(2) this] obtain q z where "fl_div (Fin x) (Fin 100) = Inr q" "py_round 1 (fl_mul q (Fin 100)) = Fin z" "0 \<le> z" "z \<le> 99"
      by blast
    then show ?thesis using False assms(1,2) x(1) by (simp add: ai_compliance_score_def del: fl_div.simps)
  qed
qed

lemma status_fair:
  assumes "\<forall>t \<in> set (dvalues d). td_is_complete t \<or> (1 \<le> missing_count t \<and> missing_count t \<le> 9)" "dict_ok d"
  shows "fair_status (system_doc_status sid d)"
proof -
  have "td_is_complete t \<or> (\<exists>c. completion_percentage (9 - int (missing_count t)) = completion_percentage c \<and> 0 \<le> c \<and> c \<le> 8)"
    if "dget d k = Some t" for k t
  proof -
    have "t \<in> set (dvalues d)" using that assms(2) by (auto simp: set_dvalues)
    with assms(1) have "td_is_complete t \<or> (1 \<le> missing_count t \<and> missing_count t \<le> 9)" by blast
    then show ?thesis by (elim disjE conjE) (rule disjI1, assumption, rule disjI2, rule exI [of _ "9 - int (missing_count t)"], simp)
  qed
  then show ?thesis by (auto simp: fair_status_def system_doc_status_def get_completeness_status_def Let_def) blast
qed

text \<open>
  The score of a system with obligations is a number of double precision between 0 and 100, is 100 exactly
  when oversight, disclosures, conformity and documentation are all in order, and is at most 99 otherwise, in spite
  of rounding.
\<close>

theorem full_score_iff_compliant:
  assumes "ai_compliance_report sid m = Some r" and "ai_risk_category (ap_system r) \<noteq> MINIMAL" and "ai_risk_category (ap_system r) \<noteq> UNACCEPTABLE"
    and "dict_ok (aa_documentation m)"
    and "\<forall>t \<in> set (dvalues (aa_documentation m)). td_is_complete t \<or> (1 \<le> missing_count t \<and> missing_count t \<le> 9)"
  shows "\<exists>z. ap_score r = Fin z \<and> 0 \<le> z \<and>
    (if os_compliant (ap_human_oversight r) \<and> ts_compliant (ap_transparency r) = Some True \<and>
        (\<exists>c. ap_conformity r = Some (CONFORMITY_PASSED, c)) \<and> doc_complete (ap_documentation r)
     then z = 100 else z \<le> 99)"
proof -
  obtain s where s: "dget (aa_registry m) sid = Some s" "ap_system r = s" using assms(1) by (auto simp: ai_compliance_report_def Let_def split: option.splits)
  let ?os = "check_oversight sid (aa_human_oversight m)" and ?ts = "check_transparency sid (ai_risk_category s) (aa_transparency m)"
  let ?cf = "get_assessment_for_system sid (aa_conformity m)" and ?doc = "system_doc_status sid (aa_documentation m)"
  have r: "ap_score r = ai_compliance_score s ?os ?ts ?cf ?doc" "ap_human_oversight r = ?os" "ap_transparency r = ?ts"
    "ap_conformity r = map_option (\<lambda>c. (cf_status c, cf_certificate_id c)) ?cf" "ap_documentation r = ?doc"
    using assms(1) s by (auto simp: ai_compliance_report_def Let_def)
  have "ts_required ?ts" using assms(2) s by (simp add: check_transparency_def Let_def)
  then have "requirements_met ?os ?ts ?cf ?doc \<longleftrightarrow> os_compliant (ap_human_oversight r) \<and> ts_compliant (ap_transparency r) = Some True \<and>
      (\<exists>c. ap_conformity r = Some (CONFORMITY_PASSED, c)) \<and> doc_complete (ap_documentation r)"
    by (auto simp: requirements_met_def r)
  with score_bounds [of s ?doc ?os ?ts ?cf] status_fair [OF assms(5,4), of sid] assms(2,3) s(2) show ?thesis by (simp add: r(1))
qed

definition demo_act :: ai_act where
  "demo_act = (let m = snd (register_and_assess_system ''s'' ''a'' 0 0 0 ''n'' [] ''grading'' ''p'' [] None (Some [EDUCATION]) (ai_act_init ''o''))
     in m\<lparr>aa_documentation := snd (create_documentation ''d'' 0 ''s'' ''1'' [])\<rparr>)"

lemma demo_act_report:
  "\<exists>r. ai_compliance_report ''s'' demo_act = Some r \<and> ai_risk_category (ap_system r) = HIGH_RISK \<and> \<not> os_compliant (ap_human_oversight r)"
proof -
  have t: "fst (assess_risk ''grading'' [] (Some [EDUCATION])) = HIGH_RISK" by code_simp
  have a: "add_days 0 365 = Inr 31536000000000" by (simp add: add_days_def Let_def)
  show ?thesis using t
    by (auto simp: demo_act_def register_and_assess_system_def conduct_assessment_def register_ai_system_def update_risk_classification_def
        change_def ai_act_init_def ai_compliance_report_def check_oversight_def get_measures_for_system_def of_system_def dvalues_def
        a Let_def dget_Cons dset_Cons split: prod.splits)
qed

theorem full_score_iff_compliant_witness: "\<exists>r z. ai_compliance_report ''s'' demo_act = Some r \<and> ap_score r = Fin z \<and> z \<le> 99"
proof -
  obtain r where r: "ai_compliance_report ''s'' demo_act = Some r" "ai_risk_category (ap_system r) = HIGH_RISK" "\<not> os_compliant (ap_human_oversight r)"
    using demo_act_report by blast
  have d: "dict_ok (aa_documentation demo_act)"
    "\<forall>t \<in> set (dvalues (aa_documentation demo_act)). td_is_complete t \<or> (1 \<le> missing_count t \<and> missing_count t \<le> 9)"
    by (simp_all add: demo_act_def Let_def create_documentation_def dict_ok_def dvalues_def missing_count_def REQUIRED_SECTIONS_def)
  show ?thesis using full_score_iff_compliant [OF r(1) _ _ d] r by auto
qed

section \<open>Classification\<close>

lemma assess_risk_category:
  "fst (assess_risk purpose use_cases areas) =
     (if \<exists>k \<in> set PROHIBITED_KEYWORDS. str_in k (all_text purpose use_cases) then UNACCEPTABLE
      else if areas \<noteq> None \<and> areas \<noteq> Some [] then HIGH_RISK
      else if \<exists>k \<in> set limited_risk_keywords. str_in k (all_text purpose use_cases) then LIMITED
      else MINIMAL)"
proof -
  have f: "(\<exists>x \<in> set xs. P x) \<longleftrightarrow> List.find P xs \<noteq> None" for P and xs :: "string list"
    by (simp add: find_None_iff Bex_def)
  show ?thesis unfolding f assess_risk_def Let_def by (auto split: option.splits list.splits)
qed

text \<open>
  A system whose purpose or one of whose use cases contains a prohibited key word in any case is stored as
  unacceptable, whatever areas are claimed for it, and every later report gives it no points, whatever measures,
  disclosures, documents and certificates are recorded.
\<close>

theorem prohibited_purpose_scores_zero:
  assumes "k \<in> set PROHIBITED_KEYWORDS" and "str_in k (all_text purpose (case use_cases of None \<Rightarrow> [] | Some c \<Rightarrow> c))"
    and "register_and_assess_system uid aid t1 t2 t3 name descr purpose provider deployer use_cases areas m = (Inr x, m1)"
    and "aa_registry m2 = aa_registry m1"
  shows "\<exists>s r. fst x = Some s \<and> ai_risk_category s = UNACCEPTABLE \<and> ai_compliance_report uid m2 = Some r \<and> ap_score r = Fin 0"
proof -
  let ?cases = "case use_cases of None \<Rightarrow> [] | Some c \<Rightarrow> c"
  have "fst (assess_risk purpose ?cases areas) = UNACCEPTABLE" using assms(1,2) by (auto simp: assess_risk_category)
  then have "\<exists>s. fst x = Some s \<and> dget (aa_registry m1) uid = Some s \<and> ai_risk_category s = UNACCEPTABLE"
    using assms(3) by (auto simp: register_and_assess_system_def conduct_assessment_def update_risk_classification_def change_def
        register_ai_system_def Let_def split: prod.splits sum.splits option.splits)
  then show ?thesis using assms(4) by (auto simp: ai_compliance_report_def ai_compliance_score_def Let_def)
qed

theorem prohibited_purpose_scores_zero_witness:
  "\<exists>r. ai_compliance_report ''s'' (snd (register_and_assess_system ''s'' ''a'' 0 0 0 ''n'' [] ''Subliminal ads'' ''p'' [] None None (ai_act_init ''o''))) =
     Some r \<and> ap_score r = Fin 0"
proof -
  let ?run = "register_and_assess_system ''s'' ''a'' 0 0 0 ''n'' [] ''Subliminal ads'' ''p'' [] None None (ai_act_init ''o'')"
  have a: "add_days 0 365 = Inr 31536000000000" by (simp add: add_days_def Let_def)
  obtain cat why what where "assess_risk ''Subliminal ads'' [] None = (cat, why, what)" by (cases "assess_risk ''Subliminal ads'' [] None")
  then obtain x where x: "?run = (Inr x, snd ?run)" by (simp add: register_and_assess_system_def conduct_assessment_def Let_def a)
  have "str_in ''subliminal'' (all_text ''Subliminal ads'' [])" by code_simp
  then show ?thesis
    using prohibited_purpose_scores_zero [OF _ _ x refl, of "''subliminal''"] by (auto simp: PROHIBITED_KEYWORDS_def)
qed

text \<open>The key words are written with underscores: a purpose in plain words is not recognised.\<close>

lemma plain_words_not_recognised: "fst (assess_risk ''Social scoring of citizens'' [''predictive policing''] None) = MINIMAL"
  by code_simp

text \<open>The marking is given to any system of high risk, assessed or not, and survives its reclassification.\<close>

lemma ce_marking_needs_no_assessment:
  assumes "dget d sid = Some s" "ai_risk_category s = HIGH_RISK"
  shows "fst (apply_ce_marking now sid d)" and "\<exists>s1. dget (snd (update_risk_classification t sid MINIMAL None (snd (apply_ce_marking now sid d)))) sid = Some s1 \<and>
    ai_ce_marking s1 \<and> ai_risk_category s1 = MINIMAL"
  using assms by (simp_all add: apply_ce_marking_def update_risk_classification_def change_def)

end
