(* ===== verification/Soc2.thy ===== *)
theory Soc2
  imports Web
begin

text \<open>
  SOC 2 records: \<^verbatim>\<open>compliance/soc2.py\<close>. Controls, the log of accesses with its bound, the life of a change, incidents,
  risks and the readiness for an audit in double arithmetic. Clocks, digests and the mean of a list of floats are
  arguments; the dictionary views of the records are left out.
\<close>

section \<open>Enumerations and records\<close>

datatype trust_category = TSC_SECURITY | TSC_AVAILABILITY | TSC_PROCESSING_INTEGRITY | TSC_CONFIDENTIALITY | TSC_PRIVACY

definition trust_categories :: "trust_category list" where
  "trust_categories = [TSC_SECURITY, TSC_AVAILABILITY, TSC_PROCESSING_INTEGRITY, TSC_CONFIDENTIALITY, TSC_PRIVACY]"

datatype control_status = IMPLEMENTED | PARTIALLY_IMPLEMENTED | NOT_IMPLEMENTED | NOT_APPLICABLE

datatype risk_level = RISK_CRITICAL | RISK_HIGH | RISK_MEDIUM | RISK_LOW | RISK_INFORMATIONAL

definition risk_levels :: "risk_level list" where
  "risk_levels = [RISK_CRITICAL, RISK_HIGH, RISK_MEDIUM, RISK_LOW, RISK_INFORMATIONAL]"

datatype incident_severity = SEV1 | SEV2 | SEV3 | SEV4

datatype incident_status = INCIDENT_OPEN | INVESTIGATING | MITIGATED | RESOLVED | INCIDENT_CLOSED

record control =
  ct_control_id :: string
  ct_category :: trust_category
  ct_title :: string
  ct_description :: string
  ct_status :: control_status
  ct_implementation_notes :: string
  ct_evidence_refs :: "string list"
  ct_owner :: string
  ct_last_reviewed :: "pyfloat option"
  ct_review_frequency_days :: int

definition mk_control :: "string \<Rightarrow> trust_category \<Rightarrow> string \<Rightarrow> string \<Rightarrow> control_status \<Rightarrow> control" where
  "mk_control i c t d st = \<lparr>ct_control_id = i, ct_category = c, ct_title = t, ct_description = d, ct_status = st, ct_implementation_notes = [],
     ct_evidence_refs = [], ct_owner = [], ct_last_reviewed = None, ct_review_frequency_days = 90\<rparr>"

definition fl_divide :: "pyfloat \<Rightarrow> rat \<Rightarrow> pyfloat" where
  "fl_divide x d = (case fl_div x (Fin d) of Inr q \<Rightarrow> q | Inl e \<Rightarrow> NaN)"

definition needs_review :: "pyfloat \<Rightarrow> control \<Rightarrow> bool" where
  "needs_review now c =
     (case ct_last_reviewed c of
        None \<Rightarrow> True
      | Some t \<Rightarrow> fl_le (Fin (of_int (ct_review_frequency_days c))) (fl_divide (fl_sub now t) 86400))"

record access_entry =
  ae_log_id :: string
  ae_timestamp :: pyfloat
  ae_user_id :: string
  ae_action :: string
  ae_resource :: string
  ae_resource_type :: string
  ae_success :: bool
  ae_ip_address :: "string option"
  ae_details :: "(string, json) dict"

record change_record =
  cr_change_id :: string
  cr_title :: string
  cr_description :: string
  cr_change_type :: string
  cr_requester :: string
  cr_approver :: "string option"
  cr_status :: string
  cr_created_at :: pyfloat
  cr_approved_at :: "pyfloat option"
  cr_implemented_at :: "pyfloat option"
  cr_affected_systems :: "string list"
  cr_rollback_plan :: string
  cr_test_results :: "string option"

record security_incident =
  si_incident_id :: string
  si_title :: string
  si_description :: string
  si_severity :: incident_severity
  si_status :: incident_status
  si_reported_by :: string
  si_assigned_to :: "string option"
  si_created_at :: pyfloat
  si_detected_at :: "pyfloat option"
  si_mitigated_at :: "pyfloat option"
  si_resolved_at :: "pyfloat option"
  si_affected_systems :: "string list"
  si_root_cause :: "string option"
  si_remediation_steps :: "string list"
  si_lessons_learned :: "string option"

definition fl_truthy :: "pyfloat \<Rightarrow> bool" where
  "fl_truthy x \<longleftrightarrow> x \<noteq> Fin 0"

definition time_to_detect :: "security_incident \<Rightarrow> pyfloat option" where
  "time_to_detect i =
     (case si_detected_at i of
        Some t \<Rightarrow> if fl_truthy t \<and> fl_truthy (si_created_at i) then Some (fl_divide (fl_sub t (si_created_at i)) 3600) else None
      | None \<Rightarrow> None)"

definition time_to_mitigate :: "security_incident \<Rightarrow> pyfloat option" where
  "time_to_mitigate i =
     (case (si_mitigated_at i, si_detected_at i) of
        (Some m, Some t) \<Rightarrow> if fl_truthy m \<and> fl_truthy t then Some (fl_divide (fl_sub m t) 3600) else None
      | _ \<Rightarrow> None)"

record risk =
  ri_risk_id :: string
  ri_title :: string
  ri_description :: string
  ri_category :: trust_category
  ri_likelihood :: risk_level
  ri_impact :: risk_level
  ri_inherent_risk :: risk_level
  ri_residual_risk :: risk_level
  ri_controls :: "string list"
  ri_status :: string

fun level_score :: "risk_level \<Rightarrow> int" where
  "level_score RISK_CRITICAL = 5"
| "level_score RISK_HIGH = 4"
| "level_score RISK_MEDIUM = 3"
| "level_score RISK_LOW = 2"
| "level_score RISK_INFORMATIONAL = 1"

definition soc2_risk_score :: "risk \<Rightarrow> int" where
  "soc2_risk_score r = level_score (ri_likelihood r) * level_score (ri_impact r)"

section \<open>Controls\<close>

type_synonym controls = "(string, control) dict"

definition register_control :: "control \<Rightarrow> controls \<Rightarrow> controls" where
  "register_control c = dset (ct_control_id c) c"

definition get_controls_by_category :: "trust_category \<Rightarrow> controls \<Rightarrow> control list" where
  "get_controls_by_category cat d = filter (\<lambda>c. ct_category c = cat) (dvalues d)"

definition update_control_status :: "pyfloat \<Rightarrow> string \<Rightarrow> control_status \<Rightarrow> string \<Rightarrow> controls \<Rightarrow> bool \<times> controls" where
  "update_control_status now cid st notes d =
     (case dget d cid of
        None \<Rightarrow> (False, d)
      | Some c \<Rightarrow> (True, dset cid (c\<lparr>ct_status := st,
          ct_implementation_notes := (if notes \<noteq> [] then notes else ct_implementation_notes c), ct_last_reviewed := Some now\<rparr>) d))"

record control_summary =
  cs_total :: nat
  cs_implemented :: nat
  cs_partial :: nat
  cs_not_implemented :: nat

definition summary_of :: "trust_category \<Rightarrow> controls \<Rightarrow> control_summary" where
  "summary_of cat d =
     (let cs = get_controls_by_category cat d; n = (\<lambda>st. length (filter (\<lambda>c. ct_status c = st) cs))
      in \<lparr>cs_total = length cs, cs_implemented = n IMPLEMENTED, cs_partial = n PARTIALLY_IMPLEMENTED, cs_not_implemented = n NOT_IMPLEMENTED\<rparr>)"

definition get_compliance_summary :: "controls \<Rightarrow> (trust_category, control_summary) dict" where
  "get_compliance_summary d = map (\<lambda>cat. (cat, summary_of cat d)) trust_categories"

definition get_controls_needing_review :: "pyfloat \<Rightarrow> controls \<Rightarrow> control list" where
  "get_controls_needing_review now d = filter (needs_review now) (dvalues d)"

section \<open>The access log\<close>

text \<open>\<open>xs[-m:]\<close>: the last \<open>m\<close> elements, but everything for \<open>m = 0\<close>.\<close>

definition py_tail :: "int \<Rightarrow> 'a list \<Rightarrow> 'a list" where
  "py_tail m xs = (if 0 < m then drop (length xs - nat m) xs else drop (nat (- m)) xs)"

record access_log =
  al_logs :: "access_entry list"
  al_max_entries :: int

definition append_entry :: "access_entry \<Rightarrow> access_log \<Rightarrow> access_log" where
  "append_entry e l =
     (let logs = al_logs l @ [e]
      in l\<lparr>al_logs := (if al_max_entries l < int (length logs) then py_tail (al_max_entries l) logs else logs)\<rparr>)"

definition log_access ::
    "(string \<Rightarrow> string) \<Rightarrow> string \<Rightarrow> pyfloat \<Rightarrow> string \<Rightarrow> string \<Rightarrow> string \<Rightarrow> string \<Rightarrow> bool \<Rightarrow> string option \<Rightarrow> (string, json) dict option \<Rightarrow>
     access_log \<Rightarrow> access_entry \<times> access_log" where
  "log_access sha256 time_text now user action resource rtype success ip details l =
     (let e = \<lparr>ae_log_id = take 16 (sha256 (user @ action @ resource @ time_text)), ae_timestamp = now, ae_user_id = user, ae_action = action,
            ae_resource = resource, ae_resource_type = rtype, ae_success = success, ae_ip_address = ip,
            ae_details = (case details of None \<Rightarrow> [] | Some d \<Rightarrow> d)\<rparr>
      in (e, append_entry e l))"

definition get_logs_for_user :: "string \<Rightarrow> int \<Rightarrow> access_log \<Rightarrow> access_entry list" where
  "get_logs_for_user user limit l = py_tail limit (filter (\<lambda>e. ae_user_id e = user) (al_logs l))"

definition since_time :: "pyfloat option \<Rightarrow> pyfloat \<Rightarrow> pyfloat" where
  "since_time since now = (case since of Some t \<Rightarrow> t | None \<Rightarrow> fl_sub now (Fin 86400))"

definition get_failed_access_attempts :: "pyfloat option \<Rightarrow> pyfloat \<Rightarrow> access_log \<Rightarrow> access_entry list" where
  "get_failed_access_attempts since now l = filter (\<lambda>e. \<not> ae_success e \<and> fl_le (since_time since now) (ae_timestamp e)) (al_logs l)"

definition get_privileged_actions :: "pyfloat option \<Rightarrow> pyfloat \<Rightarrow> access_log \<Rightarrow> access_entry list" where
  "get_privileged_actions since now l =
     filter (\<lambda>e. ae_action e \<in> {''admin'', ''delete'', ''modify_permissions'', ''escalate''} \<and> fl_le (since_time since now) (ae_timestamp e)) (al_logs l)"

definition export_logs :: "pyfloat \<Rightarrow> pyfloat \<Rightarrow> access_log \<Rightarrow> access_entry list" where
  "export_logs start stop l = filter (\<lambda>e. fl_le start (ae_timestamp e) \<and> fl_le (ae_timestamp e) stop) (al_logs l)"

section \<open>Changes\<close>

type_synonym changes = "(string, change_record) dict"

definition create_change_request ::
    "(string \<Rightarrow> string) \<Rightarrow> string \<Rightarrow> pyfloat \<Rightarrow> string \<Rightarrow> string \<Rightarrow> string \<Rightarrow> string \<Rightarrow> string list \<Rightarrow> string \<Rightarrow> changes \<Rightarrow> change_record \<times> changes" where
  "create_change_request sha256 time_text now title description ctype requester affected plan d =
     (let i = take 12 (sha256 (title @ requester @ time_text));
          c = \<lparr>cr_change_id = i, cr_title = title, cr_description = description, cr_change_type = ctype, cr_requester = requester,
            cr_approver = None, cr_status = ''pending'', cr_created_at = now, cr_approved_at = None, cr_implemented_at = None,
            cr_affected_systems = affected, cr_rollback_plan = plan, cr_test_results = None\<rparr>
      in (c, dset i c d))"

definition move_change :: "string \<Rightarrow> (change_record \<Rightarrow> change_record) \<Rightarrow> string \<Rightarrow> changes \<Rightarrow> bool \<times> changes" where
  "move_change before f cid d =
     (case dget d cid of
        None \<Rightarrow> (False, d)
      | Some c \<Rightarrow> if cr_status c \<noteq> before then (False, d) else (True, dset cid (f c) d))"

definition approve_change :: "pyfloat \<Rightarrow> string \<Rightarrow> string \<Rightarrow> changes \<Rightarrow> bool \<times> changes" where
  "approve_change now cid approver =
     move_change ''pending'' (\<lambda>c. c\<lparr>cr_status := ''approved'', cr_approver := Some approver, cr_approved_at := Some now\<rparr>) cid"

definition implement_change :: "pyfloat \<Rightarrow> string \<Rightarrow> string \<Rightarrow> changes \<Rightarrow> bool \<times> changes" where
  "implement_change now cid results =
     move_change ''approved'' (\<lambda>c. c\<lparr>cr_status := ''implemented'', cr_implemented_at := Some now, cr_test_results := Some results\<rparr>) cid"

definition rollback_change :: "string \<Rightarrow> changes \<Rightarrow> bool \<times> changes" where
  "rollback_change = move_change ''implemented'' (\<lambda>c. c\<lparr>cr_status := ''rolled_back''\<rparr>)"

definition get_changes_by_status :: "string \<Rightarrow> changes \<Rightarrow> change_record list" where
  "get_changes_by_status st d = filter (\<lambda>c. cr_status c = st) (dvalues d)"

definition get_pending_changes :: "changes \<Rightarrow> change_record list" where
  "get_pending_changes = get_changes_by_status ''pending''"

section \<open>Incidents\<close>

type_synonym security_incidents = "(string, security_incident) dict"

text \<open>The id is made of the whole second and of the title; the detection time is read before the creation time.\<close>

definition create_incident ::
    "(string \<Rightarrow> string) \<Rightarrow> pyfloat \<Rightarrow> pyfloat \<Rightarrow> pyfloat \<Rightarrow> string \<Rightarrow> string \<Rightarrow> incident_severity \<Rightarrow> string \<Rightarrow> string list option \<Rightarrow>
     security_incidents \<Rightarrow> security_incident result \<times> security_incidents" where
  "create_incident sha256 t_id t_detected t_created title description severity reporter affected d =
     (case fl_int t_id of
        Inl e \<Rightarrow> (Inl e, d)
      | Inr s \<Rightarrow>
          let i = ''INC-'' @ str_of_int s @ ''-'' @ take 6 (sha256 title);
              inc = \<lparr>si_incident_id = i, si_title = title, si_description = description, si_severity = severity, si_status = INCIDENT_OPEN,
                si_reported_by = reporter, si_assigned_to = None, si_created_at = t_created, si_detected_at = Some t_detected,
                si_mitigated_at = None, si_resolved_at = None, si_affected_systems = (case affected of None \<Rightarrow> [] | Some a \<Rightarrow> a),
                si_root_cause = None, si_remediation_steps = [], si_lessons_learned = None\<rparr>
          in (Inr inc, dset i inc d))"

definition on_incident :: "(security_incident \<Rightarrow> security_incident) \<Rightarrow> string \<Rightarrow> security_incidents \<Rightarrow> bool \<times> security_incidents" where
  "on_incident f i d = (case dget d i of None \<Rightarrow> (False, d) | Some x \<Rightarrow> (True, dset i (f x) d))"

definition assign_incident :: "string \<Rightarrow> string \<Rightarrow> security_incidents \<Rightarrow> bool \<times> security_incidents" where
  "assign_incident i who = on_incident (\<lambda>x. x\<lparr>si_assigned_to := Some who, si_status := INVESTIGATING\<rparr>) i"

definition mitigate_incident :: "pyfloat \<Rightarrow> string \<Rightarrow> string list \<Rightarrow> security_incidents \<Rightarrow> bool \<times> security_incidents" where
  "mitigate_incident now i steps = on_incident (\<lambda>x. x\<lparr>si_status := MITIGATED, si_mitigated_at := Some now, si_remediation_steps := steps\<rparr>) i"

definition resolve_security_incident :: "pyfloat \<Rightarrow> string \<Rightarrow> string \<Rightarrow> string \<Rightarrow> security_incidents \<Rightarrow> bool \<times> security_incidents" where
  "resolve_security_incident now i cause lessons =
     on_incident (\<lambda>x. x\<lparr>si_status := RESOLVED, si_resolved_at := Some now, si_root_cause := Some cause, si_lessons_learned := Some lessons\<rparr>) i"

definition open_incidents :: "security_incidents \<Rightarrow> security_incident list" where
  "open_incidents d = filter (\<lambda>x. si_status x \<notin> {RESOLVED, INCIDENT_CLOSED}) (dvalues d)"

definition get_incidents_by_severity :: "incident_severity \<Rightarrow> security_incidents \<Rightarrow> security_incident list" where
  "get_incidents_by_severity sev d = filter (\<lambda>x. si_severity x = sev) (dvalues d)"

record incident_metrics =
  im_total :: nat
  im_open :: nat
  im_resolved :: nat
  im_by_severity :: "(incident_severity, nat) dict"
  im_avg_time_to_detect :: "pyfloat option"
  im_avg_time_to_mitigate :: "pyfloat option"

definition mean_of :: "(pyfloat list \<Rightarrow> pyfloat) \<Rightarrow> (security_incident \<Rightarrow> pyfloat option) \<Rightarrow> security_incident list \<Rightarrow> pyfloat option" where
  "mean_of mean f xs = (case filter fl_truthy (List.map_filter f xs) of [] \<Rightarrow> None | ts \<Rightarrow> Some (mean ts))"

definition get_incident_metrics :: "(pyfloat list \<Rightarrow> pyfloat) \<Rightarrow> security_incidents \<Rightarrow> incident_metrics option" where
  "get_incident_metrics mean d =
     (if d = [] then None
      else
        let resolved = filter (\<lambda>x. si_status x = RESOLVED) (dvalues d)
        in Some \<lparr>im_total = length d, im_open = length (open_incidents d), im_resolved = length resolved,
             im_by_severity = map (\<lambda>sev. (sev, length (get_incidents_by_severity sev d))) [SEV1, SEV2, SEV3, SEV4],
             im_avg_time_to_detect = mean_of mean time_to_detect resolved, im_avg_time_to_mitigate = mean_of mean time_to_mitigate resolved\<rparr>)"

section \<open>Risks\<close>

type_synonym risks = "(string, risk) dict"

definition register_risk :: "risk \<Rightarrow> risks \<Rightarrow> risks" where
  "register_risk r = dset (ri_risk_id r) r"

definition get_risks_by_category :: "trust_category \<Rightarrow> risks \<Rightarrow> risk list" where
  "get_risks_by_category cat d = filter (\<lambda>r. ri_category r = cat) (dvalues d)"

definition get_high_risks :: "risks \<Rightarrow> risk list" where
  "get_high_risks d = filter (\<lambda>r. ri_residual_risk r \<in> {RISK_HIGH, RISK_CRITICAL} \<and> ri_status r = ''open'') (dvalues d)"

record risk_summary =
  rs_total :: nat
  rs_open :: nat
  rs_mitigated :: nat
  rs_by_level :: "(risk_level, nat) dict"
  rs_high_risk_count :: nat

definition get_risk_summary :: "risks \<Rightarrow> risk_summary" where
  "get_risk_summary d =
     (let rs = dvalues d
      in \<lparr>rs_total = length rs, rs_open = length (filter (\<lambda>r. ri_status r = ''open'') rs),
          rs_mitigated = length (filter (\<lambda>r. ri_status r = ''mitigated'') rs),
          rs_by_level = map (\<lambda>l. (l, length (filter (\<lambda>r. ri_residual_risk r = l) rs))) risk_levels,
          rs_high_risk_count = length (get_high_risks d)\<rparr>)"

section \<open>The manager\<close>

record soc2 =
  so_organization_name :: string
  so_controls :: controls
  so_access_audit :: access_log
  so_changes :: changes
  so_incidents :: security_incidents
  so_risks :: risks
  so_initialized :: bool

definition soc2_new :: "string \<Rightarrow> soc2" where
  "soc2_new name = \<lparr>so_organization_name = name, so_controls = [], so_access_audit = \<lparr>al_logs = [], al_max_entries = 100000\<rparr>, so_changes = [],
     so_incidents = [], so_risks = [], so_initialized = False\<rparr>"

definition default_controls :: "control list" where
  "default_controls =
     [mk_control ''CC1.1'' TSC_SECURITY ''Security Policy''
        ''The entity has defined security policies that are communicated to personnel.'' IMPLEMENTED,
      mk_control ''CC2.1'' TSC_SECURITY ''Access Control'' ''Logical access to systems is restricted to authorized users.'' IMPLEMENTED,
      mk_control ''CC3.1'' TSC_SECURITY ''Encryption'' ''Data is encrypted in transit and at rest.'' IMPLEMENTED,
      mk_control ''CC4.1'' TSC_SECURITY ''Change Management'' ''Changes to systems are authorized, tested, and documented.'' IMPLEMENTED,
      mk_control ''CC5.1'' TSC_SECURITY ''Incident Response'' ''Security incidents are identified, reported, and resolved.'' IMPLEMENTED,
      mk_control ''A1.1'' TSC_AVAILABILITY ''System Monitoring'' ''System performance and availability are monitored.'' IMPLEMENTED,
      mk_control ''A1.2'' TSC_AVAILABILITY ''Disaster Recovery'' ''Disaster recovery plans are documented and tested.'' PARTIALLY_IMPLEMENTED,
      mk_control ''PI1.1'' TSC_PROCESSING_INTEGRITY ''Data Validation''
        ''Data inputs are validated for completeness and accuracy.'' IMPLEMENTED,
      mk_control ''C1.1'' TSC_CONFIDENTIALITY ''Data Classification'' ''Data is classified according to sensitivity.'' IMPLEMENTED,
      mk_control ''P1.1'' TSC_PRIVACY ''Privacy Notice'' ''Privacy practices are communicated to data subjects.'' IMPLEMENTED]"

definition default_risks :: "risk list" where
  "default_risks =
     [\<lparr>ri_risk_id = ''RISK-001'', ri_title = ''Unauthorized Access'', ri_description = ''Risk of unauthorized access to systems or data'',
       ri_category = TSC_SECURITY, ri_likelihood = RISK_MEDIUM, ri_impact = RISK_HIGH, ri_inherent_risk = RISK_HIGH,
       ri_residual_risk = RISK_LOW, ri_controls = [''CC2.1'', ''CC3.1''], ri_status = ''mitigated''\<rparr>,
      \<lparr>ri_risk_id = ''RISK-002'', ri_title = ''Data Breach'', ri_description = ''Risk of sensitive data exposure'',
       ri_category = TSC_CONFIDENTIALITY, ri_likelihood = RISK_LOW, ri_impact = RISK_CRITICAL, ri_inherent_risk = RISK_HIGH,
       ri_residual_risk = RISK_MEDIUM, ri_controls = [''CC3.1'', ''C1.1''], ri_status = ''open''\<rparr>,
      \<lparr>ri_risk_id = ''RISK-003'', ri_title = ''System Downtime'', ri_description = ''Risk of unplanned system unavailability'',
       ri_category = TSC_AVAILABILITY, ri_likelihood = RISK_MEDIUM, ri_impact = RISK_HIGH, ri_inherent_risk = RISK_HIGH,
       ri_residual_risk = RISK_LOW, ri_controls = [''A1.1'', ''A1.2''], ri_status = ''mitigated''\<rparr>]"

definition soc2_initialize :: "soc2 \<Rightarrow> bool \<times> soc2" where
  "soc2_initialize m = (True, m\<lparr>so_controls := fold register_control default_controls (so_controls m),
     so_risks := fold register_risk default_risks (so_risks m), so_initialized := True\<rparr>)"

record audit_status =
  as_readiness_score :: pyfloat
  as_status :: string
  as_open_incidents :: nat
  as_high_risks :: nat

definition readiness :: "nat \<Rightarrow> nat \<Rightarrow> pyfloat" where
  "readiness implemented all_controls =
     (if all_controls = 0 then Fin 0 else fl_mul (fl_of_rat (of_nat implemented / of_nat all_controls)) (Fin 100))"

definition readiness_status :: "pyfloat \<Rightarrow> string" where
  "readiness_status score = (if fl_le (Fin 90) score then ''ready'' else if fl_le (Fin 70) score then ''needs_work'' else ''not_ready'')"

definition calculate_audit_status :: "soc2 \<Rightarrow> audit_status" where
  "calculate_audit_status m =
     (let summary = dvalues (get_compliance_summary (so_controls m));
          score = readiness (sum_list (map cs_implemented summary)) (sum_list (map cs_total summary))
      in \<lparr>as_readiness_score = py_round 1 score, as_status = readiness_status score,
          as_open_incidents = length (open_incidents (so_incidents m)), as_high_risks = length (get_high_risks (so_risks m))\<rparr>)"

record soc2_report =
  sr_organization :: string
  sr_summary :: "(trust_category, control_summary) dict"
  sr_needing_review :: nat
  sr_incidents :: "incident_metrics option"
  sr_risks :: risk_summary
  sr_pending :: nat
  sr_audit_status :: audit_status

definition soc2_compliance_report :: "(pyfloat list \<Rightarrow> pyfloat) \<Rightarrow> pyfloat \<Rightarrow> soc2 \<Rightarrow> soc2_report" where
  "soc2_compliance_report mean now m =
     \<lparr>sr_organization = so_organization_name m, sr_summary = get_compliance_summary (so_controls m),
      sr_needing_review = length (get_controls_needing_review now (so_controls m)), sr_incidents = get_incident_metrics mean (so_incidents m),
      sr_risks = get_risk_summary (so_risks m), sr_pending = length (get_pending_changes (so_changes m)),
      sr_audit_status = calculate_audit_status m\<rparr>"

text \<open>The module keeps one manager, made when it is first asked for.\<close>

definition get_soc2_compliance :: "soc2 option \<Rightarrow> soc2 \<times> soc2 option" where
  "get_soc2_compliance g = (case g of Some m \<Rightarrow> (m, g) | None \<Rightarrow> let m = snd (soc2_initialize (soc2_new ''WarmLogic'')) in (m, Some m))"


section \<open>The life of a change\<close>

datatype change_op =
    CreateChange string pyfloat string string string string "string list" string
  | ApproveChange pyfloat string string
  | ImplementChange pyfloat string string
  | RollbackChange string

fun change_step :: "(string \<Rightarrow> string) \<Rightarrow> change_op \<Rightarrow> changes \<Rightarrow> changes" where
  "change_step sha (CreateChange tt now title descr ctype requester affected plan) d =
     snd (create_change_request sha tt now title descr ctype requester affected plan d)"
| "change_step sha (ApproveChange now cid approver) d = snd (approve_change now cid approver d)"
| "change_step sha (ImplementChange now cid results) d = snd (implement_change now cid results d)"
| "change_step sha (RollbackChange cid) d = snd (rollback_change cid d)"

text \<open>What the dates and signatures of a change say in each of its four states.\<close>

definition change_ok :: "change_record \<Rightarrow> bool" where
  "change_ok c \<longleftrightarrow>
     (cr_status c = ''pending'' \<and> cr_approver c = None \<and> cr_approved_at c = None \<and> cr_implemented_at c = None) \<or>
     (cr_status c = ''approved'' \<and> cr_approver c \<noteq> None \<and> cr_approved_at c \<noteq> None \<and> cr_implemented_at c = None) \<or>
     (cr_status c \<in> {''implemented'', ''rolled_back''} \<and> cr_approver c \<noteq> None \<and> cr_approved_at c \<noteq> None \<and>
       cr_implemented_at c \<noteq> None \<and> cr_test_results c \<noteq> None)"

definition changes_ok :: "changes \<Rightarrow> bool" where
  "changes_ok d \<longleftrightarrow> (\<forall>i c. dget d i = Some c \<longrightarrow> change_ok c)"

lemma move_change_ok:
  assumes "changes_ok d" "\<And>c. change_ok c \<Longrightarrow> cr_status c = before \<Longrightarrow> change_ok (f c)"
  shows "changes_ok (snd (move_change before f cid d))"
  using assms by (auto simp: changes_ok_def move_change_def split: option.splits)

lemma change_step_ok: "changes_ok d \<Longrightarrow> changes_ok (change_step sha op d)"
proof (cases op)
  case (CreateChange tt now title descr ctype requester affected plan)
  then show "changes_ok d \<Longrightarrow> ?thesis" by (simp add: create_change_request_def changes_ok_def change_ok_def Let_def)
qed (auto simp: approve_change_def implement_change_def rollback_change_def change_ok_def intro!: move_change_ok)

interpretation soc2_changes: machine "change_step sha" changes_ok for sha
  by unfold_locales (rule change_step_ok)

text \<open>
  In any run of the change management every change is pending, approved, implemented or rolled back; one that
  was implemented or rolled back carries an approver, the time of its approval, the time of its implementation and
  the results of its tests, and one that is pending carries none of them.
\<close>

theorem implemented_changes_were_approved:
  assumes "dget (fold (change_step sha) ops []) i = Some c"
  shows "change_ok c"
  using soc2_changes.run_inv [of "[]" sha ops] assms by (simp add: changes_ok_def)

theorem implemented_changes_were_approved_witness:
  "\<exists>c. dget (fold (change_step (\<lambda>s. ''h'')) [CreateChange [] (Fin 1) ''t'' [] ''normal'' ''ann'' [] [], ApproveChange (Fin 2) ''h'' ''bob'',
     ImplementChange (Fin 3) ''h'' ''ok''] []) ''h'' = Some c \<and> cr_status c = ''implemented'' \<and> change_ok c"
proof -
  let ?ops = "[CreateChange [] (Fin 1) ''t'' [] ''normal'' ''ann'' [] [], ApproveChange (Fin 2) ''h'' ''bob'', ImplementChange (Fin 3) ''h'' ''ok'']"
  obtain c where "dget (fold (change_step (\<lambda>s. ''h'')) ?ops []) ''h'' = Some c" "cr_status c = ''implemented''"
    by (simp add: create_change_request_def approve_change_def implement_change_def move_change_def Let_def dget_Cons dset_Cons)
  with implemented_changes_were_approved [of "\<lambda>s. ''h''" ?ops] show ?thesis by blast
qed

text \<open>The requester may approve the change.\<close>

lemma requester_may_approve: "fst (approve_change t2 (take 12 (sha (title @ who @ tt))) who (snd (create_change_request sha tt t1 title de ty who af pl d)))"
  by (simp add: approve_change_def move_change_def create_change_request_def Let_def)

section \<open>The log keeps the latest entries\<close>

lemma tail_append: "0 < m \<Longrightarrow> drop (length (drop (length xs - m) xs @ [x]) - m) (drop (length xs - m) xs @ [x]) = drop (length (xs @ [x]) - m) (xs @ [x])"
  by (cases "m \<le> length xs") (auto simp: Suc_diff_le)

text \<open>
  A log with a positive limit holds exactly the latest entries that were ever appended, in their order, and
  never more than the limit.
\<close>

theorem access_log_keeps_latest:
  assumes "0 < m"
  shows "al_logs (fold append_entry es \<lparr>al_logs = [], al_max_entries = m\<rparr>) = drop (length es - nat m) es \<and>
    int (length (al_logs (fold append_entry es \<lparr>al_logs = [], al_max_entries = m\<rparr>))) \<le> m"
proof -
  have "fold append_entry es \<lparr>al_logs = [], al_max_entries = m\<rparr> = \<lparr>al_logs = drop (length es - nat m) es, al_max_entries = m\<rparr>"
  proof (induction es rule: rev_induct)
    case (snoc e es)
    have "append_entry e \<lparr>al_logs = drop (length es - nat m) es, al_max_entries = m\<rparr> =
        \<lparr>al_logs = drop (length (es @ [e]) - nat m) (es @ [e]), al_max_entries = m\<rparr>"
      using assms tail_append [of "nat m" es e] by (auto simp: append_entry_def py_tail_def Let_def simp del: drop_append)
    then show ?case using snoc by simp
  qed simp
  then show ?thesis using assms by simp
qed

theorem access_log_keeps_latest_witness:
  "length (al_logs (fold append_entry (replicate 3 undefined) \<lparr>al_logs = [], al_max_entries = 2\<rparr>)) = 2"
  using access_log_keeps_latest [of 2 "replicate 3 undefined"] by simp

text \<open>A limit of zero is none at all, and asking for no entries gives all of them.\<close>

lemma zero_limit_keeps_all: "al_logs (fold append_entry es \<lparr>al_logs = [], al_max_entries = 0\<rparr>) = es"
proof -
  have "fold append_entry es \<lparr>al_logs = [], al_max_entries = 0\<rparr> = \<lparr>al_logs = es, al_max_entries = 0\<rparr>"
    by (induction es rule: rev_induct) (simp_all add: append_entry_def py_tail_def Let_def)
  then show ?thesis by simp
qed

lemma limit_zero_gives_all: "get_logs_for_user user 0 l = filter (\<lambda>e. ae_user_id e = user) (al_logs l)"
  by (simp add: get_logs_for_user_def py_tail_def)

section \<open>Readiness\<close>









section \<open>Incidents\<close>

text \<open>An incident replaces another with the same title in the same second.\<close>

lemma same_second_replaces:
  assumes "fl_int t = Inr k" "fl_int t' = Inr k"
  shows "length (snd (create_incident sha t' u' v' title de' se' re' af' (snd (create_incident sha t u v title de se re af [])))) = 1"
  using assms by (simp add: create_incident_def Let_def dset_Cons)

lemma fl_of_rat_nonpos: "r \<le> 0 \<Longrightarrow> \<not> fl_lt (Fin 0) (fl_of_rat r)"
proof -
  assume "r \<le> 0"
  then have r: "fl_round r \<le> 0" using fl_round_mono [of r 0] by simp
  have "\<not> 2 ^ 1024 \<le> fl_round r" using r zero_less_power [of "2 :: rat" 1024] by linarith
  then show ?thesis unfolding fl_of_rat_def Let_def using r by (simp only: if_False) auto
qed

text \<open>The detection time is read before the creation time, so that the time from creation to detection is never positive.\<close>

lemma detection_precedes_creation:
  assumes "create_incident sha t (Fin d) (Fin c) title de se re af m = (Inr i, m1)" "d \<le> c" "time_to_detect i = Some x"
  shows "\<not> fl_lt (Fin 0) x"
proof -
  have "x = fl_divide (fl_of_rat (d - c)) 3600"
    using assms(1,3) by (auto simp: create_incident_def time_to_detect_def fl_sub_def Let_def split: sum.splits if_splits)
  then show ?thesis using fl_of_rat_nonpos [of "d - c"] fl_of_rat_nonpos assms(2)
    by (cases "fl_of_rat (d - c)") (auto simp: fl_divide_def signed_inf_def)
qed

end
