(* ===== verification/Siem.thy ===== *)
theory Siem
  imports Web
begin

text \<open>
  Export of audit events: \<^verbatim>\<open>observability/siem.py\<close>. Events with their CEF and JSON forms, exporters with a queue, a
  worker that batches, flushes and retries, the senders for Splunk and Datadog and the manager over them. A worker
  is modelled by one operation per iteration of its loop; calls of \<open>export\<close> may come between any two of them.
  Clocks, the environment, digests, the text of times and JSON values and the answers of the web servers are
  arguments. \<open>ex_outbox\<close> records the batches that were flushed and whether they were accepted.
\<close>

section \<open>Events\<close>

datatype siem_provider = SPLUNK | DATADOG | ELASTIC | SENTINEL

fun siem_provider_value :: "siem_provider \<Rightarrow> string" where
  "siem_provider_value SPLUNK = ''splunk''"
| "siem_provider_value DATADOG = ''datadog''"
| "siem_provider_value ELASTIC = ''elastic''"
| "siem_provider_value SENTINEL = ''sentinel''"

datatype event_severity = EV_UNKNOWN | EV_LOW | EV_MEDIUM | EV_HIGH | EV_CRITICAL

fun event_severity_value :: "event_severity \<Rightarrow> int" where
  "event_severity_value EV_UNKNOWN = 0"
| "event_severity_value EV_LOW = 3"
| "event_severity_value EV_MEDIUM = 5"
| "event_severity_value EV_HIGH = 7"
| "event_severity_value EV_CRITICAL = 10"

fun event_severity_name :: "event_severity \<Rightarrow> string" where
  "event_severity_name EV_UNKNOWN = ''UNKNOWN''"
| "event_severity_name EV_LOW = ''LOW''"
| "event_severity_name EV_MEDIUM = ''MEDIUM''"
| "event_severity_name EV_HIGH = ''HIGH''"
| "event_severity_name EV_CRITICAL = ''CRITICAL''"

record siem_config =
  sm_provider :: siem_provider
  sm_enabled :: bool
  sm_splunk_hec_url :: "string option"
  sm_splunk_hec_token :: "string option"
  sm_splunk_index :: string
  sm_splunk_source :: string
  sm_splunk_sourcetype :: string
  sm_datadog_api_key :: "string option"
  sm_datadog_site :: string
  sm_datadog_service :: string
  sm_datadog_env :: string
  sm_datadog_tags :: "string list"
  sm_batch_size :: int
  sm_flush_interval_seconds :: pyfloat
  sm_max_retries :: int
  sm_retry_delay_seconds :: pyfloat
  sm_cef_vendor :: string
  sm_cef_product :: string
  sm_cef_version :: string

definition siem_config_default :: "siem_provider \<Rightarrow> siem_config" where
  "siem_config_default p = \<lparr>sm_provider = p, sm_enabled = False, sm_splunk_hec_url = None, sm_splunk_hec_token = None,
     sm_splunk_index = ''warmlogic'', sm_splunk_source = ''warmlogic:audit'', sm_splunk_sourcetype = ''warmlogic:security'',
     sm_datadog_api_key = None, sm_datadog_site = ''datadoghq.com'', sm_datadog_service = ''warmlogic'', sm_datadog_env = ''production'',
     sm_datadog_tags = [], sm_batch_size = 100, sm_flush_interval_seconds = Fin 5, sm_max_retries = 3, sm_retry_delay_seconds = Fin 1,
     sm_cef_vendor = ''WarmLogic'', sm_cef_product = ''WarmLogic'', sm_cef_version = ''1.1.0''\<rparr>"

record audit_event =
  av_event_id :: string
  av_timestamp :: pyfloat
  av_event_type :: string
  av_severity :: event_severity
  av_source :: string
  av_message :: string
  av_details :: "(string, json) dict"
  av_actor_id :: "string option"
  av_actor_type :: "string option"
  av_resource_id :: "string option"
  av_resource_type :: "string option"
  av_outcome :: string
  av_source_ip :: "string option"
  av_destination_ip :: "string option"

definition non_empty :: "string option \<Rightarrow> bool" where
  "non_empty s \<longleftrightarrow> s \<noteq> None \<and> s \<noteq> Some []"

definition when_non_empty :: "string option \<Rightarrow> (string \<Rightarrow> 'a \<Rightarrow> 'a) \<Rightarrow> 'a \<Rightarrow> 'a" where
  "when_non_empty s f x = (if non_empty s then f (the s) x else x)"

definition build_cef_extension :: "audit_event \<Rightarrow> string result" where
  "build_cef_extension e =
     bindE (fl_int (fl_mul (av_timestamp e) (Fin 1000))) (\<lambda>rt.
       let ext = [(''rt'', str_of_int rt), (''src'', av_source e), (''outcome'', av_outcome e)];
           ext = when_non_empty (av_actor_id e) (dset ''suser'') ext;
           ext = when_non_empty (av_source_ip e) (dset ''src'') ext;
           ext = when_non_empty (av_destination_ip e) (dset ''dst'') ext;
           ext = when_non_empty (av_resource_id e) (\<lambda>r d. dset ''cs1Label'' ''ResourceID'' (dset ''cs1'' r d)) ext
       in Inr (join_with '' '' (map (\<lambda>(k, v). k @ ''='' @ v) ext)))"

definition to_cef :: "siem_config \<Rightarrow> audit_event \<Rightarrow> string result" where
  "to_cef c e =
     bindE (build_cef_extension e) (\<lambda>ext.
       Inr (join_with ''|'' [''CEF:0'', sm_cef_vendor c, sm_cef_product c, sm_cef_version c, av_event_type e, av_message e,
         str_of_int (event_severity_value (av_severity e)), ext]))"

definition id_and_type :: "string option \<Rightarrow> string option \<Rightarrow> json" where
  "id_and_type i t = (if non_empty i then JObj [(''id'', j_opt i), (''type'', j_opt t)] else JNull)"

definition event_to_json :: "(pyfloat \<Rightarrow> string result) \<Rightarrow> audit_event \<Rightarrow> (string, json) dict result" where
  "event_to_json iso_time e =
     bindE (iso_time (av_timestamp e)) (\<lambda>t.
       Inr [(''event_id'', JStr (av_event_id e)), (''timestamp'', JStr t), (''event_type'', JStr (av_event_type e)),
            (''severity'', JStr (event_severity_name (av_severity e))), (''severity_value'', JInt (event_severity_value (av_severity e))),
            (''source'', JStr (av_source e)), (''message'', JStr (av_message e)), (''details'', JObj (av_details e)),
            (''actor'', id_and_type (av_actor_id e) (av_actor_type e)), (''resource'', id_and_type (av_resource_id e) (av_resource_type e)),
            (''outcome'', JStr (av_outcome e)),
            (''network'', if non_empty (av_source_ip e) \<or> non_empty (av_destination_ip e)
               then JObj [(''source_ip'', j_opt (av_source_ip e)), (''destination_ip'', j_opt (av_destination_ip e))] else JNull)])"

section \<open>Sending\<close>

text \<open>The web: the status of the answer, or an error. A sender turns every error of the request into \<open>False\<close>.\<close>

record siem_world =
  sw_iso :: "pyfloat \<Rightarrow> string result"
  sw_dumps :: "json \<Rightarrow> string result"
  sw_post :: "string \<Rightarrow> (string \<times> string) list \<Rightarrow> string \<Rightarrow> int result"
  sw_hostname :: "string option"

definition posted :: "siem_world \<Rightarrow> string \<Rightarrow> (string \<times> string) list \<Rightarrow> string \<Rightarrow> int list \<Rightarrow> bool" where
  "posted w url headers payload accepted = (case sw_post w url headers payload of Inr st \<Rightarrow> st \<in> set accepted | Inl e \<Rightarrow> False)"

definition splunk_line :: "siem_world \<Rightarrow> siem_config \<Rightarrow> audit_event \<Rightarrow> string result" where
  "splunk_line w c e =
     bindE (event_to_json (sw_iso w) e) (\<lambda>j. sw_dumps w (JObj [(''time'', JFloat (av_timestamp e)), (''source'', JStr (sm_splunk_source c)),
       (''sourcetype'', JStr (sm_splunk_sourcetype c)), (''index'', JStr (sm_splunk_index c)), (''event'', JObj j)]))"

definition splunk_send_batch :: "siem_world \<Rightarrow> siem_config \<Rightarrow> audit_event list \<Rightarrow> bool result" where
  "splunk_send_batch w c es =
     (if \<not> non_empty (sm_splunk_hec_url c) \<or> \<not> non_empty (sm_splunk_hec_token c) then Inr False
      else
        bindE (mapE (splunk_line w c) es) (\<lambda>ls.
          Inr (posted w (the (sm_splunk_hec_url c))
            [(''Authorization'', ''Splunk '' @ the (sm_splunk_hec_token c)), (''Content-Type'', ''application/json'')]
            (join_with [CHR 10] ls) [200])))"

fun severity_to_dd_status :: "event_severity \<Rightarrow> string" where
  "severity_to_dd_status EV_UNKNOWN = ''info''"
| "severity_to_dd_status EV_LOW = ''info''"
| "severity_to_dd_status EV_MEDIUM = ''warn''"
| "severity_to_dd_status EV_HIGH = ''error''"
| "severity_to_dd_status EV_CRITICAL = ''critical''"

definition dd_entry :: "siem_world \<Rightarrow> siem_config \<Rightarrow> audit_event \<Rightarrow> json result" where
  "dd_entry w c e =
     bindE (event_to_json (sw_iso w) e) (\<lambda>j.
       Inr (JObj (fold (\<lambda>(k, v). dset k v) j
         [(''ddsource'', JStr ''warmlogic''),
          (''ddtags'', JStr (join_with '','' (sm_datadog_tags c @ [''env:'' @ sm_datadog_env c, ''service:'' @ sm_datadog_service c,
             ''severity:'' @ py_lower (event_severity_name (av_severity e))]))),
          (''hostname'', JStr (case sw_hostname w of None \<Rightarrow> ''warmlogic-node'' | Some h \<Rightarrow> h)),
          (''service'', JStr (sm_datadog_service c)), (''message'', JStr (av_message e)),
          (''status'', JStr (severity_to_dd_status (av_severity e)))])))"

definition datadog_send_batch :: "siem_world \<Rightarrow> siem_config \<Rightarrow> audit_event list \<Rightarrow> bool result" where
  "datadog_send_batch w c es =
     (if \<not> non_empty (sm_datadog_api_key c) then Inr False
      else
        bindE (mapE (dd_entry w c) es) (\<lambda>ls. bindE (sw_dumps w (JArr ls)) (\<lambda>payload.
          Inr (posted w (''https://http-intake.logs.'' @ sm_datadog_site c @ ''/api/v2/logs'')
            [(''DD-API-KEY'', the (sm_datadog_api_key c)), (''Content-Type'', ''application/json'')] payload [200, 202]))))"

definition send_batch :: "siem_world \<Rightarrow> siem_config \<Rightarrow> audit_event list \<Rightarrow> bool result" where
  "send_batch w c es = (if sm_provider c = SPLUNK then splunk_send_batch w c es else datadog_send_batch w c es)"

section \<open>Exporters\<close>

record exporter =
  ex_config :: siem_config
  ex_queue :: "audit_event list"
  ex_batch :: "audit_event list"
  ex_last_flush :: pyfloat
  ex_shutdown :: bool
  ex_running :: bool
  ex_initialized :: bool
  ex_sent :: nat
  ex_failed :: nat
  ex_outbox :: "(audit_event list \<times> bool) list"

definition exporter_new :: "siem_config \<Rightarrow> exporter" where
  "exporter_new c = \<lparr>ex_config = c, ex_queue = [], ex_batch = [], ex_last_flush = Fin 0, ex_shutdown = False, ex_running = False,
     ex_initialized = False, ex_sent = 0, ex_failed = 0, ex_outbox = []\<rparr>"

text \<open>\<open>started\<close> says whether the thread could be started; it reads the clock as \<open>now\<close>.\<close>

definition exporter_initialize :: "bool \<Rightarrow> pyfloat \<Rightarrow> exporter \<Rightarrow> bool \<times> exporter" where
  "exporter_initialize started now x =
     (if \<not> sm_enabled (ex_config x) then (True, x)
      else if started then (True, x\<lparr>ex_running := True, ex_last_flush := now, ex_initialized := True\<rparr>)
      else (False, x))"

definition exporter_shutdown :: "exporter \<Rightarrow> exporter" where
  "exporter_shutdown x = x\<lparr>ex_shutdown := True\<rparr>"

definition export_event :: "audit_event \<Rightarrow> exporter \<Rightarrow> exporter" where
  "export_event e x = (if \<not> sm_enabled (ex_config x) then x else x\<lparr>ex_queue := ex_queue x @ [e]\<rparr>)"

definition export_batch :: "audit_event list \<Rightarrow> exporter \<Rightarrow> exporter" where
  "export_batch = fold export_event"

text \<open>
  Attempts number \<open>m - n\<close> to \<open>m - 1\<close> of \<open>m\<close>: whether one succeeded, and the multiples of the delay that were slept.
  Only an exception is followed by a delay.
\<close>

fun try_send :: "(nat \<Rightarrow> bool result) \<Rightarrow> nat \<Rightarrow> nat \<Rightarrow> bool \<times> nat list" where
  "try_send send m 0 = (False, [])"
| "try_send send m (Suc n) =
     (let a = m - Suc n
      in case send a of
           Inr True \<Rightarrow> (True, [])
         | Inr False \<Rightarrow> try_send send m n
         | Inl e \<Rightarrow> (case try_send send m n of (ok, sl) \<Rightarrow> (ok, if Suc a < m then Suc a # sl else sl)))"

definition flush_batch :: "(audit_event list \<Rightarrow> nat \<Rightarrow> bool result) \<Rightarrow> audit_event list \<Rightarrow> exporter \<Rightarrow> exporter \<times> nat list" where
  "flush_batch send batch x =
     (case try_send (send batch) (nat (sm_max_retries (ex_config x))) (nat (sm_max_retries (ex_config x))) of
        (True, sl) \<Rightarrow> (x\<lparr>ex_sent := ex_sent x + length batch, ex_outbox := ex_outbox x @ [(batch, True)]\<rparr>, sl)
      | (False, sl) \<Rightarrow> (x\<lparr>ex_failed := ex_failed x + length batch, ex_outbox := ex_outbox x @ [(batch, False)]\<rparr>, sl))"

definition take_event :: "exporter \<Rightarrow> exporter" where
  "take_event x = (case ex_queue x of [] \<Rightarrow> x | e # es \<Rightarrow> x\<lparr>ex_queue := es, ex_batch := ex_batch x @ [e]\<rparr>)"

definition should_flush :: "pyfloat \<Rightarrow> exporter \<Rightarrow> bool" where
  "should_flush now x \<longleftrightarrow> ex_batch x \<noteq> [] \<and>
     (sm_batch_size (ex_config x) \<le> int (length (ex_batch x)) \<or> fl_le (sm_flush_interval_seconds (ex_config x)) (fl_sub now (ex_last_flush x)))"

text \<open>One iteration of the worker, and its end after the flag was set.\<close>

definition worker_round :: "pyfloat \<Rightarrow> pyfloat \<Rightarrow> (audit_event list \<Rightarrow> nat \<Rightarrow> bool result) \<Rightarrow> exporter \<Rightarrow> exporter" where
  "worker_round now now2 send x =
     (if \<not> ex_running x \<or> ex_shutdown x then x
      else
        let x1 = take_event x
        in if should_flush now x1 then (fst (flush_batch send (ex_batch x1) x1))\<lparr>ex_batch := [], ex_last_flush := now2\<rparr> else x1)"

definition worker_end :: "(audit_event list \<Rightarrow> nat \<Rightarrow> bool result) \<Rightarrow> exporter \<Rightarrow> exporter" where
  "worker_end send x =
     (if \<not> ex_running x \<or> \<not> ex_shutdown x then x
      else let x1 = (if ex_batch x \<noteq> [] then (fst (flush_batch send (ex_batch x) x))\<lparr>ex_batch := []\<rparr> else x) in x1\<lparr>ex_running := False\<rparr>)"

record exporter_stats =
  xs_sent :: nat
  xs_failed :: nat
  xs_queued :: nat

definition exporter_get_stats :: "exporter \<Rightarrow> exporter_stats" where
  "exporter_get_stats x = \<lparr>xs_sent = ex_sent x, xs_failed = ex_failed x, xs_queued = length (ex_queue x)\<rparr>"

section \<open>The manager\<close>

record siem_manager =
  mg_exporters :: "(siem_provider, exporter) dict"
  mg_initialized :: bool

definition add_exporter :: "siem_config \<Rightarrow> siem_manager \<Rightarrow> bool \<times> siem_manager" where
  "add_exporter c m =
     (if \<not> sm_enabled c then (True, m)
      else if sm_provider c = SPLUNK \<or> sm_provider c = DATADOG
      then (True, m\<lparr>mg_exporters := dset (sm_provider c) (exporter_new c) (mg_exporters m)\<rparr>)
      else (False, m))"

definition siem_manager_new :: "siem_config list option \<Rightarrow> siem_manager" where
  "siem_manager_new cs = fold (\<lambda>c m. snd (add_exporter c m)) (case cs of None \<Rightarrow> [] | Some l \<Rightarrow> l) \<lparr>mg_exporters = [], mg_initialized = False\<rparr>"

definition siem_initialize :: "(siem_provider \<Rightarrow> bool) \<Rightarrow> (siem_provider \<Rightarrow> pyfloat) \<Rightarrow> siem_manager \<Rightarrow> bool \<times> siem_manager" where
  "siem_initialize started now m =
     (let rs = map (\<lambda>(p, x). (p, exporter_initialize (started p) (now p) x)) (mg_exporters m);
          ok = list_all (\<lambda>(p, r). fst r) rs
      in (ok, m\<lparr>mg_exporters := map (\<lambda>(p, r). (p, snd r)) rs, mg_initialized := ok\<rparr>))"

definition on_exporters :: "(exporter \<Rightarrow> exporter) \<Rightarrow> siem_manager \<Rightarrow> siem_manager" where
  "on_exporters f m = m\<lparr>mg_exporters := map (\<lambda>(p, x). (p, f x)) (mg_exporters m)\<rparr>"

definition siem_shutdown :: "siem_manager \<Rightarrow> siem_manager" where
  "siem_shutdown = on_exporters exporter_shutdown"

definition siem_export :: "audit_event \<Rightarrow> siem_manager \<Rightarrow> siem_manager" where
  "siem_export e = on_exporters (export_event e)"

definition siem_export_batch :: "audit_event list \<Rightarrow> siem_manager \<Rightarrow> siem_manager" where
  "siem_export_batch es = on_exporters (export_batch es)"

definition siem_is_enabled :: "siem_manager \<Rightarrow> bool" where
  "siem_is_enabled m \<longleftrightarrow> mg_exporters m \<noteq> []"

definition siem_stats :: "siem_manager \<Rightarrow> (string, exporter_stats) dict" where
  "siem_stats m = map (\<lambda>(p, x). (siem_provider_value p, exporter_get_stats x)) (mg_exporters m)"

definition get_siem_manager :: "siem_manager option \<Rightarrow> siem_manager" where
  "get_siem_manager g = (case g of Some m \<Rightarrow> m | None \<Rightarrow> siem_manager_new None)"

text \<open>The environment is a function; \<open>to_int\<close> and \<open>to_float\<close> read numbers from text or raise.\<close>

definition env_or :: "(string \<Rightarrow> string option) \<Rightarrow> string \<Rightarrow> string \<Rightarrow> string" where
  "env_or env k d = (case env k of None \<Rightarrow> d | Some v \<Rightarrow> v)"

definition sized_config ::
    "(string \<Rightarrow> int result) \<Rightarrow> (string \<Rightarrow> pyfloat result) \<Rightarrow> (string \<Rightarrow> string option) \<Rightarrow> siem_config \<Rightarrow> siem_config result" where
  "sized_config to_int to_float env c =
     bindE (to_int (env_or env ''SIEM_BATCH_SIZE'' ''100'')) (\<lambda>n. bindE (to_float (env_or env ''SIEM_FLUSH_INTERVAL'' ''5.0'')) (\<lambda>t.
       Inr (c\<lparr>sm_enabled := True, sm_batch_size := n, sm_flush_interval_seconds := t\<rparr>)))"

definition splunk_config :: "(string \<Rightarrow> string option) \<Rightarrow> siem_config" where
  "splunk_config env = (siem_config_default SPLUNK)\<lparr>sm_splunk_hec_url := env ''SIEM_SPLUNK_HEC_URL'',
     sm_splunk_hec_token := env ''SIEM_SPLUNK_HEC_TOKEN'', sm_splunk_index := env_or env ''SIEM_SPLUNK_INDEX'' ''warmlogic''\<rparr>"

definition datadog_config :: "(string \<Rightarrow> string option) \<Rightarrow> siem_config" where
  "datadog_config env = (siem_config_default DATADOG)\<lparr>sm_datadog_api_key := env ''SIEM_DATADOG_API_KEY'',
     sm_datadog_site := env_or env ''SIEM_DATADOG_SITE'' ''datadoghq.com'', sm_datadog_env := env_or env ''SIEM_DATADOG_ENV'' ''production'',
     sm_datadog_service := env_or env ''SIEM_DATADOG_SERVICE'' ''warmlogic''\<rparr>"

definition initialize_siem_from_env ::
    "(string \<Rightarrow> int result) \<Rightarrow> (string \<Rightarrow> pyfloat result) \<Rightarrow> (siem_provider \<Rightarrow> bool) \<Rightarrow> (siem_provider \<Rightarrow> pyfloat) \<Rightarrow> (string \<Rightarrow> string option) \<Rightarrow>
     siem_manager result" where
  "initialize_siem_from_env to_int to_float started now env =
     (let on = (\<lambda>k. py_lower (env_or env k []) = ''true'')
      in bindE (if on ''SIEM_SPLUNK_ENABLED'' then bindE (sized_config to_int to_float env (splunk_config env)) (\<lambda>c. Inr [c]) else Inr []) (\<lambda>cs1.
         bindE (if on ''SIEM_DATADOG_ENABLED'' then bindE (sized_config to_int to_float env (datadog_config env)) (\<lambda>c. Inr [c]) else Inr []) (\<lambda>cs2.
           Inr (snd (siem_initialize started now (siem_manager_new (Some (cs1 @ cs2))))))))"

section \<open>Events of the kernel\<close>

definition export_audit_event ::
    "(string \<Rightarrow> string) \<Rightarrow> string \<Rightarrow> pyfloat \<Rightarrow> string \<Rightarrow> string \<Rightarrow> event_severity \<Rightarrow> string \<Rightarrow> string option \<Rightarrow> string option \<Rightarrow>
     (string, json) dict option \<Rightarrow> string \<Rightarrow> siem_manager \<Rightarrow> siem_manager" where
  "export_audit_event sha256 time_text now etype message severity source actor resource details outcome m =
     (if \<not> siem_is_enabled m then m
      else siem_export \<lparr>av_event_id = take 16 (sha256 (time_text @ etype @ message)), av_timestamp = now, av_event_type = etype,
        av_severity = severity, av_source = source, av_message = message, av_details = (case details of None \<Rightarrow> [] | Some d \<Rightarrow> d),
        av_actor_id = actor, av_actor_type = None, av_resource_id = resource, av_resource_type = None, av_outcome = outcome,
        av_source_ip = None, av_destination_ip = None\<rparr> m)"

definition export_governance_event ::
    "(string \<Rightarrow> string) \<Rightarrow> string \<Rightarrow> pyfloat \<Rightarrow> string \<Rightarrow> string \<Rightarrow> string \<Rightarrow> string option \<Rightarrow> (string, json) dict option \<Rightarrow> siem_manager \<Rightarrow> siem_manager" where
  "export_governance_event sha256 time_text now action decision actor resource details =
     export_audit_event sha256 time_text now ''governance.decision'' (''Governance '' @ action @ '': '' @ decision) EV_HIGH ''warmlogic:governance''
       (Some actor) resource details (if decision = ''approved'' then ''success'' else ''failure'')"

definition export_security_event ::
    "(string \<Rightarrow> string) \<Rightarrow> string \<Rightarrow> pyfloat \<Rightarrow> string \<Rightarrow> string \<Rightarrow> event_severity \<Rightarrow> string option \<Rightarrow> (string, json) dict option \<Rightarrow>
     siem_manager \<Rightarrow> siem_manager" where
  "export_security_event sha256 time_text now threat description severity ip details m =
     (if \<not> siem_is_enabled m then m
      else siem_export \<lparr>av_event_id = take 16 (sha256 (time_text @ threat @ description)), av_timestamp = now,
        av_event_type = ''security.'' @ threat, av_severity = severity, av_source = ''warmlogic:security'', av_message = description,
        av_details = (case details of None \<Rightarrow> [] | Some d \<Rightarrow> d), av_actor_id = None, av_actor_type = None, av_resource_id = None,
        av_resource_type = None, av_outcome = ''detected'', av_source_ip = ip, av_destination_ip = None\<rparr> m)"

definition export_consensus_event ::
    "(string \<Rightarrow> string) \<Rightarrow> string \<Rightarrow> pyfloat \<Rightarrow> string \<Rightarrow> string \<Rightarrow> int \<Rightarrow> bool \<Rightarrow> (string, json) dict option \<Rightarrow> siem_manager \<Rightarrow> siem_manager" where
  "export_consensus_event sha256 time_text now round_id outcome participants reached details =
     export_audit_event sha256 time_text now ''consensus.round'' (''BFT Round '' @ round_id @ '': '' @ outcome)
       (if reached then EV_MEDIUM else EV_HIGH) ''warmlogic:consensus'' None (Some round_id)
       (Some (fold (\<lambda>(k, v). dset k v) (case details of None \<Rightarrow> [] | Some d \<Rightarrow> d)
          [(''participants'', JInt participants), (''quorum_reached'', JBool reached)]))
       (if reached then ''success'' else ''failure'')"

section \<open>No event is lost, duplicated or reordered while the worker runs\<close>

datatype siem_op =
    ExportOp audit_event
  | RoundOp pyfloat pyfloat "audit_event list \<Rightarrow> nat \<Rightarrow> bool result"
  | ShutdownOp
  | EndOp "audit_event list \<Rightarrow> nat \<Rightarrow> bool result"

fun siem_step :: "siem_op \<Rightarrow> exporter \<Rightarrow> exporter" where
  "siem_step (ExportOp e) x = export_event e x"
| "siem_step (RoundOp now now2 send) x = worker_round now now2 send x"
| "siem_step ShutdownOp x = exporter_shutdown x"
| "siem_step (EndOp send) x = worker_end send x"

fun exported :: "siem_op list \<Rightarrow> audit_event list" where
  "exported [] = []"
| "exported (ExportOp e # ops) = e # exported ops"
| "exported (op # ops) = exported ops"

text \<open>Everything that was exported: flushed, in the batch of the worker, or queued.\<close>

definition trail :: "exporter \<Rightarrow> audit_event list" where
  "trail x = concat (map fst (ex_outbox x)) @ ex_batch x @ ex_queue x"

definition flushed_as :: "bool \<Rightarrow> exporter \<Rightarrow> nat" where
  "flushed_as ok x = sum_list (map (\<lambda>(b, r). if r = ok then length b else 0) (ex_outbox x))"

definition batch_limit :: "exporter \<Rightarrow> nat" where
  "batch_limit x = max 1 (nat (sm_batch_size (ex_config x)))"

definition exporter_ok :: "exporter \<Rightarrow> bool" where
  "exporter_ok x \<longleftrightarrow> ex_sent x = flushed_as True x \<and> ex_failed x = flushed_as False x \<and> length (ex_batch x) < batch_limit x \<and>
     (\<forall>(b, r) \<in> set (ex_outbox x). b \<noteq> [] \<and> length b \<le> batch_limit x)"

lemma flush_batch_effect:
  "\<exists>r. fst (flush_batch send b x) = x\<lparr>ex_sent := ex_sent x + (if r then length b else 0),
     ex_failed := ex_failed x + (if r then 0 else length b), ex_outbox := ex_outbox x @ [(b, r)]\<rparr>"
  by (cases "fst (try_send (send b) (nat (sm_max_retries (ex_config x))) (nat (sm_max_retries (ex_config x))))")
    (auto simp: flush_batch_def split: prod.splits bool.splits)

lemma take_event_trail: "trail (take_event x) = trail x" "length (ex_batch (take_event x)) \<le> Suc (length (ex_batch x))"
  by (auto simp: take_event_def trail_def split: list.splits)

lemma take_event_frame [simp]:
  "ex_sent (take_event x) = ex_sent x" "ex_failed (take_event x) = ex_failed x" "ex_outbox (take_event x) = ex_outbox x"
  "ex_config (take_event x) = ex_config x"
  by (simp_all add: take_event_def split: list.splits)

lemma flushed_ok:
  assumes "exporter_ok x" "ex_outbox y = ex_outbox x" "ex_sent y = ex_sent x" "ex_failed y = ex_failed x" "ex_config y = ex_config x"
    and "ex_batch y \<noteq> []" "length (ex_batch y) \<le> batch_limit x"
  shows "exporter_ok ((fst (flush_batch send (ex_batch y) y))\<lparr>ex_batch := [], ex_last_flush := t\<rparr>)" (is ?A)
    and "trail ((fst (flush_batch send (ex_batch y) y))\<lparr>ex_batch := [], ex_last_flush := t\<rparr>) = trail y" (is ?B)
proof -
  obtain r where r: "fst (flush_batch send (ex_batch y) y) = y\<lparr>ex_sent := ex_sent y + (if r then length (ex_batch y) else 0),
     ex_failed := ex_failed y + (if r then 0 else length (ex_batch y)), ex_outbox := ex_outbox y @ [(ex_batch y, r)]\<rparr>"
    using flush_batch_effect [of send "ex_batch y" y] by blast
  show ?A using assms by (auto simp: r exporter_ok_def flushed_as_def batch_limit_def)
  show ?B by (simp add: r trail_def)
qed

lemma round_ok:
  assumes "exporter_ok x"
  shows "exporter_ok (worker_round now now2 send x)" "trail (worker_round now now2 send x) = trail x"
proof -
  let ?y = "take_event x"
  have len: "length (ex_batch ?y) \<le> batch_limit x" using take_event_trail(2) [of x] assms by (simp add: exporter_ok_def)
  have small: "exporter_ok ?y" if "\<not> should_flush now ?y"
  proof -
    have "ex_batch ?y = [] \<or> int (length (ex_batch ?y)) < sm_batch_size (ex_config x)" using that by (auto simp: should_flush_def)
    then have "length (ex_batch ?y) < batch_limit ?y" by (auto simp: batch_limit_def)
    then show ?thesis using assms by (simp add: exporter_ok_def flushed_as_def batch_limit_def)
  qed
  note f = flushed_ok [of x ?y now2 send, OF assms _ _ _ _ _ len]
  have full: "ex_batch ?y \<noteq> []" if "should_flush now ?y" using that by (simp add: should_flush_def)
  show "exporter_ok (worker_round now now2 send x)" using assms f(1) small full by (simp add: worker_round_def Let_def)
  show "trail (worker_round now now2 send x) = trail x" using take_event_trail(1) [of x] f(2) full by (simp add: worker_round_def Let_def)
qed

lemma end_ok:
  assumes "exporter_ok x"
  shows "exporter_ok (worker_end send x)" "trail (worker_end send x) = trail x"
proof -
  note f = flushed_ok [of x x "ex_last_flush x" send, OF assms refl refl refl refl]
  have len: "length (ex_batch x) \<le> batch_limit x" using assms by (simp add: exporter_ok_def)
  have e: "worker_end send x = (if \<not> ex_running x \<or> \<not> ex_shutdown x then x
      else (if ex_batch x \<noteq> [] then (fst (flush_batch send (ex_batch x) x))\<lparr>ex_batch := [], ex_last_flush := ex_last_flush x\<rparr> else x)\<lparr>ex_running := False\<rparr>)"
    using flush_batch_effect [of send "ex_batch x" x] by (auto simp: worker_end_def Let_def)
  have k: "exporter_ok (y\<lparr>ex_running := False\<rparr>) = exporter_ok y" "trail (y\<lparr>ex_running := False\<rparr>) = trail y" for y
    by (simp_all add: exporter_ok_def flushed_as_def batch_limit_def trail_def)
  show "exporter_ok (worker_end send x)" "trail (worker_end send x) = trail x" using assms f len by (simp_all add: e k)
qed

lemma siem_step_ok:
  assumes "exporter_ok x" "sm_enabled (ex_config x)"
  shows "exporter_ok (siem_step op x)" "trail (siem_step op x) = trail x @ exported [op]" "ex_config (siem_step op x) = ex_config x"
proof -
  show "exporter_ok (siem_step op x)" using assms round_ok end_ok
    by (cases op) (auto simp: export_event_def exporter_shutdown_def exporter_ok_def flushed_as_def batch_limit_def)
  show "trail (siem_step op x) = trail x @ exported [op]" using assms round_ok end_ok
    by (cases op) (auto simp: export_event_def exporter_shutdown_def trail_def)
  have c: "ex_config (fst (flush_batch send b y)) = ex_config y" for send b y using flush_batch_effect [of send b y] by auto
  show "ex_config (siem_step op x) = ex_config x"
    by (cases op) (auto simp: export_event_def exporter_shutdown_def worker_round_def worker_end_def c Let_def)
qed

lemma siem_run_ok:
  assumes "exporter_ok x" "sm_enabled (ex_config x)"
  shows "exporter_ok (fold siem_step ops x) \<and> trail (fold siem_step ops x) = trail x @ exported ops \<and> ex_config (fold siem_step ops x) = ex_config x"
  using assms
proof (induction ops arbitrary: x)
  case (Cons op ops)
  have "exported (op # ops) = exported [op] @ exported ops" by (cases op) auto
  with Cons.IH [of "siem_step op x"] siem_step_ok [OF Cons.prems] Cons.prems(2) show ?case by simp
qed simp

text \<open>
  C39. Whatever the interleaving of exports, rounds of the worker, shutdown and failures of the server, the
  exported events are, in their order, the events of the flushed batches followed by the worker's batch and the
  queue: none is lost, duplicated or reordered. The two counters add up to the flushed events, and every batch is
  non-empty and within its size.
\<close>

theorem exported_events_conserved:
  assumes "sm_enabled c" and "x = fold siem_step ops (snd (exporter_initialize True t (exporter_new c)))"
  shows "exported ops = concat (map fst (ex_outbox x)) @ ex_batch x @ ex_queue x \<and>
    ex_sent x + ex_failed x = length (concat (map fst (ex_outbox x))) \<and>
    (\<forall>(b, r) \<in> set (ex_outbox x). b \<noteq> [] \<and> length b \<le> max 1 (nat (sm_batch_size c)))"
proof -
  let ?x0 = "snd (exporter_initialize True t (exporter_new c))"
  have x0: "exporter_ok ?x0" "trail ?x0 = []" "ex_config ?x0 = c" "sm_enabled (ex_config ?x0)"
    using assms(1) by (simp_all add: exporter_initialize_def exporter_new_def exporter_ok_def flushed_as_def trail_def batch_limit_def)
  have r: "exporter_ok x" "trail x = exported ops" "ex_config x = c" using siem_run_ok [OF x0(1,4), of ops] x0(2,3) assms(2) by simp_all
  have "flushed_as True x + flushed_as False x = length (concat (map fst (ex_outbox x)))"
    unfolding flushed_as_def by (induction "ex_outbox x" arbitrary: x) (auto simp: length_concat sum_list_addf [symmetric] split_def intro!: arg_cong [of _ _ sum_list])
  with r show ?thesis by (auto simp: exporter_ok_def batch_limit_def trail_def)
qed

definition demo_event :: "string \<Rightarrow> audit_event" where
  "demo_event m = \<lparr>av_event_id = [], av_timestamp = Fin 1, av_event_type = ''t'', av_severity = EV_LOW, av_source = ''s'', av_message = m,
     av_details = [], av_actor_id = None, av_actor_type = None, av_resource_id = None, av_resource_type = None, av_outcome = ''success'',
     av_source_ip = None, av_destination_ip = None\<rparr>"

definition demo_siem :: siem_config where
  "demo_siem = (siem_config_default SPLUNK)\<lparr>sm_enabled := True, sm_batch_size := 1\<rparr>"

lemma demo_siem_run:
  "fold siem_step [ExportOp (demo_event ''a''), ExportOp (demo_event ''b''), RoundOp (Fin 0) (Fin 0) (\<lambda>b a. Inr True)]
     (snd (exporter_initialize True (Fin 0) (exporter_new demo_siem))) =
   \<lparr>ex_config = demo_siem, ex_queue = [demo_event ''b''], ex_batch = [], ex_last_flush = Fin 0, ex_shutdown = False, ex_running = True,
     ex_initialized = True, ex_sent = 1, ex_failed = 0, ex_outbox = [([demo_event ''a''], True)]\<rparr>"
  by (simp add: exporter_initialize_def exporter_new_def demo_siem_def siem_config_default_def export_event_def worker_round_def
      take_event_def should_flush_def flush_batch_def eval_nat_numeral Let_def)

theorem exported_events_conserved_witness:
  "\<exists>x. x = fold siem_step [ExportOp (demo_event ''a''), ExportOp (demo_event ''b''), RoundOp (Fin 0) (Fin 0) (\<lambda>b a. Inr True)]
     (snd (exporter_initialize True (Fin 0) (exporter_new demo_siem))) \<and> ex_sent x + ex_failed x = 1"
proof -
  have e: "sm_enabled demo_siem" by (simp add: demo_siem_def)
  show ?thesis using exported_events_conserved [OF e refl, of "[ExportOp (demo_event ''a''), ExportOp (demo_event ''b''),
      RoundOp (Fin 0) (Fin 0) (\<lambda>b a. Inr True)]" "Fin 0"] by (simp only: demo_siem_run) simp
qed

section \<open>Flushing\<close>

text \<open>
  When the interval has passed since the last flush, a round of a running worker with an event in its queue
  or in its batch leaves the batch empty: an event taken from the queue waits for one interval at most.
\<close>

theorem overdue_round_flushes:
  assumes "ex_running x" and "\<not> ex_shutdown x" and "fl_le (sm_flush_interval_seconds (ex_config x)) (fl_sub now (ex_last_flush x))"
    and "ex_batch x \<noteq> [] \<or> ex_queue x \<noteq> []"
  shows "ex_batch (worker_round now now2 send x) = [] \<and> ex_queue (worker_round now now2 send x) = tl (ex_queue x) \<and>
    (\<exists>r. ex_outbox (worker_round now now2 send x) = ex_outbox x @ [(ex_batch x @ take 1 (ex_queue x), r)])"
proof -
  let ?y = "take_event x"
  have y: "ex_batch ?y = ex_batch x @ take 1 (ex_queue x)" "ex_queue ?y = tl (ex_queue x)" "ex_last_flush ?y = ex_last_flush x"
    by (simp_all add: take_event_def split: list.splits)
  have "ex_batch ?y \<noteq> []" using assms(4) y(1) by (cases "ex_queue x") auto
  then have "should_flush now ?y" using assms(3) y(3) by (simp add: should_flush_def)
  then show ?thesis using assms(1,2) y flush_batch_effect [of send "ex_batch ?y" ?y] by (auto simp: worker_round_def Let_def)
qed

theorem overdue_round_flushes_witness:
  "ex_batch (worker_round (Fin 9) (Fin 9) (\<lambda>b a. Inr False) \<lparr>ex_config = siem_config_default SPLUNK, ex_queue = [], ex_batch = [demo_event ''a''],
     ex_last_flush = Fin 1, ex_shutdown = False, ex_running = True, ex_initialized = True, ex_sent = 0, ex_failed = 0, ex_outbox = []\<rparr>) = []"
proof -
  let ?x = "\<lparr>ex_config = siem_config_default SPLUNK, ex_queue = [], ex_batch = [demo_event ''a''],
     ex_last_flush = Fin 1, ex_shutdown = False, ex_running = True, ex_initialized = True, ex_sent = 0, ex_failed = 0, ex_outbox = []\<rparr>"
  have "fl_sub (Fin 9) (Fin 1) = Fin 8" using fl_sub_ints [of 9 1] by simp
  then show ?thesis using overdue_round_flushes [of ?x "Fin 9" "Fin 9" "\<lambda>b a. Inr False"] by (simp add: siem_config_default_def)
qed

lemma stopped_step:
  assumes "ex_shutdown x" "ex_batch x = [] \<or> \<not> ex_running x"
  shows "ex_shutdown (siem_step op x) \<and> (ex_batch (siem_step op x) = [] \<or> \<not> ex_running (siem_step op x)) \<and>
    (\<exists>es. ex_queue (siem_step op x) = ex_queue x @ es) \<and> ex_outbox (siem_step op x) = ex_outbox x"
  using assms by (cases op) (auto simp: export_event_def exporter_shutdown_def worker_round_def worker_end_def Let_def)

text \<open>
  What is still in the queue when the exporter is shut down is never sent: the worker flushes its batch and
  ends, and no later operation touches those events.
\<close>

theorem shutdown_strands_queue:
  assumes "ex_running x" and "x1 = worker_end send (exporter_shutdown x)"
  shows "ex_queue x1 = ex_queue x \<and> (\<exists>es. ex_queue (fold siem_step ops x1) = ex_queue x @ es) \<and> ex_outbox (fold siem_step ops x1) = ex_outbox x1 \<and>
    ex_sent x1 + ex_failed x1 = ex_sent x + ex_failed x + length (ex_batch x)"
proof -
  let ?s = "exporter_shutdown x"
  have q: "ex_queue x1 = ex_queue x" "ex_shutdown x1" "\<not> ex_running x1" "ex_sent x1 + ex_failed x1 = ex_sent x + ex_failed x + length (ex_batch x)"
    using assms flush_batch_effect [of send "ex_batch ?s" ?s] by (auto simp: worker_end_def exporter_shutdown_def Let_def)
  have "(\<exists>es. ex_queue (fold siem_step ops y) = ex_queue y @ es) \<and> ex_outbox (fold siem_step ops y) = ex_outbox y"
    if "ex_shutdown y" "ex_batch y = [] \<or> \<not> ex_running y" for y
    using that
  proof (induction ops arbitrary: y)
    case (Cons op ops)
    have st: "ex_shutdown (siem_step op y)" "ex_batch (siem_step op y) = [] \<or> \<not> ex_running (siem_step op y)"
      "\<exists>es. ex_queue (siem_step op y) = ex_queue y @ es" "ex_outbox (siem_step op y) = ex_outbox y"
      using stopped_step [OF Cons.prems, of op] by blast+
    from Cons.IH [OF st(1,2)] st(3,4) show ?case by (metis append.assoc fold_simps(2))
  qed simp
  from this [of x1] q show ?thesis by auto
qed

theorem shutdown_strands_queue_witness:
  "\<exists>x. ex_queue x = [demo_event ''b''] \<and> ex_running x \<and> ex_queue (worker_end (\<lambda>b a. Inr True) (exporter_shutdown x)) = [demo_event ''b'']"
proof -
  let ?x = "fold siem_step [ExportOp (demo_event ''a''), ExportOp (demo_event ''b''), RoundOp (Fin 0) (Fin 0) (\<lambda>b a. Inr True)]
     (snd (exporter_initialize True (Fin 0) (exporter_new demo_siem)))"
  have r: "ex_running ?x" "ex_queue ?x = [demo_event ''b'']" unfolding demo_siem_run by simp_all
  with shutdown_strands_queue [OF r(1) refl, of "\<lambda>b a. Inr True" "[]"] show ?thesis by metis
qed

section \<open>Retries\<close>

text \<open>A batch is non_empty up only after the last attempt; refusals are retried without delay.\<close>

lemma try_send_ok_iff: "n \<le> m \<Longrightarrow> fst (try_send send m n) \<longleftrightarrow> (\<exists>a. m - n \<le> a \<and> a < m \<and> send a = Inr True)"
proof (induction n)
  case (Suc n)
  let ?a = "m - Suc n"
  have a: "(\<exists>a. ?a \<le> a \<and> a < m \<and> send a = Inr True) \<longleftrightarrow> send ?a = Inr True \<or> (\<exists>a. m - n \<le> a \<and> a < m \<and> send a = Inr True)"
  proof -
    have "?a \<le> a \<longleftrightarrow> ?a = a \<or> m - n \<le> a" for a using Suc.prems by arith
    moreover have "?a < m" using Suc.prems by arith
    ultimately show ?thesis by metis
  qed
  show ?case using Suc a by (auto simp: Let_def split: sum.splits bool.splits prod.splits)
qed simp

lemma refusals_without_delay: "(\<And>a. send a = Inr False) \<Longrightarrow> snd (try_send send m n) = []"
  by (induction n) (auto simp: Let_def)

section \<open>CEF\<close>

text \<open>Nothing is escaped: a bar in the message moves the following fields, so that two events have one text.\<close>

lemma cef_fields_ambiguous:
  "to_cef c ((demo_event ''x'')\<lparr>av_event_type := ''login|ok''\<rparr>) = to_cef c ((demo_event ''ok|x'')\<lparr>av_event_type := ''login''\<rparr>)"
  by (simp add: to_cef_def build_cef_extension_def demo_event_def when_non_empty_def non_empty_def Let_def)

end
