(* ===== verification/Stitch.thy ===== *)
theory Stitch
  imports Web
begin

text \<open>
  The telemetry gateway (\<^verbatim>\<open>kernel/substrate/stitch_server.py\<close>) and the fault injection around its handlers
  (\<^verbatim>\<open>kernel/substrate/chaos_monkey.py\<close>): the buffer of events with its numbers, subscribers with bounded queues, the
  replay after a reconnection, and signed requests. A connection is two operations, the replay and the entry into
  the list of subscribers, since other threads may broadcast in between. Names of subscribers stand for their queue
  objects; random draws, the verification of signatures and the JSON parser are arguments.
\<close>

section \<open>Fault injection\<close>

record chaos =
  cm_enabled :: bool
  cm_drop_rate :: pyfloat
  cm_latency_ms :: int
  cm_corruption_rate :: pyfloat

definition chaos_init :: chaos where
  "chaos_init = \<lparr>cm_enabled = False, cm_drop_rate = Fin 0, cm_latency_ms = 0, cm_corruption_rate = Fin 0\<rparr>"

definition chaos_reset :: "chaos \<Rightarrow> chaos" where
  "chaos_reset c = chaos_init"

definition chaos_configure :: "bool \<Rightarrow> pyfloat \<Rightarrow> int \<Rightarrow> pyfloat \<Rightarrow> chaos \<Rightarrow> chaos" where
  "chaos_configure enabled drop_rate latency corruption c =
     \<lparr>cm_enabled = enabled, cm_drop_rate = drop_rate, cm_latency_ms = latency, cm_corruption_rate = corruption\<rparr>"

definition set_if_there :: "string \<Rightarrow> json \<Rightarrow> (string, json) dict \<Rightarrow> (string, json) dict" where
  "set_if_there k v d = (if dget d k = None then d else dset k v d)"

fun corrupt :: "json \<Rightarrow> json" where
  "corrupt (JObj d) =
     JObj (set_if_there ''signature'' (JStr ''INVALID'') (set_if_there ''hash'' (JStr (concat (replicate 8 ''DEADBEEF''))) d))"
| "corrupt j = j"

text \<open>What the wrapped handler is called with, if it is called; \<open>r1\<close> and \<open>r2\<close> are the random draws.\<close>

definition apply_middleware :: "chaos \<Rightarrow> pyfloat \<Rightarrow> pyfloat \<Rightarrow> json \<Rightarrow> json option" where
  "apply_middleware c r1 r2 payload =
     (if \<not> cm_enabled c then Some payload
      else if fl_lt r1 (cm_drop_rate c) then None
      else if fl_lt (Fin 0) (cm_corruption_rate c) \<and> fl_lt r2 (cm_corruption_rate c) then Some (corrupt payload)
      else Some payload)"

section \<open>Events and subscribers\<close>

type_synonym sse_event = "nat \<times> string \<times> json"

record connection =
  cn_out :: "sse_event list"
  cn_queue :: "sse_event option list"
  cn_listed :: bool

record stitch =
  st_handlers :: "(string, string) dict"
  st_buffer :: "sse_event list"
  st_next_event_id :: nat
  st_connections :: "(nat, connection) dict"
  st_running :: bool

definition stitch_init :: stitch where
  "stitch_init = \<lparr>st_handlers = [], st_buffer = [], st_next_event_id = 1, st_connections = [], st_running = False\<rparr>"

definition BUFFER_SIZE :: nat where
  "BUFFER_SIZE = 100"

definition QUEUE_SIZE :: nat where
  "QUEUE_SIZE = 100"

definition offer :: "sse_event option \<Rightarrow> connection \<Rightarrow> connection" where
  "offer e c = (if cn_listed c \<and> length (cn_queue c) < QUEUE_SIZE then c\<lparr>cn_queue := cn_queue c @ [e]\<rparr> else c)"

definition broadcast_event :: "string \<Rightarrow> json \<Rightarrow> stitch \<Rightarrow> stitch" where
  "broadcast_event etype data s =
     (let e = (st_next_event_id s, etype, data); b = st_buffer s @ [e]
      in s\<lparr>st_next_event_id := st_next_event_id s + 1, st_buffer := (if BUFFER_SIZE < length b then tl b else b),
           st_connections := map (\<lambda>(i, c). (i, offer (Some e) c)) (st_connections s)\<rparr>)"

text \<open>
  A request for the stream: the replay of the buffer after the last id the client has, then the entry into the
  list. No header, an empty one or one that is no number replays nothing.
\<close>

definition replay_buffer :: "int option \<Rightarrow> stitch \<Rightarrow> sse_event list" where
  "replay_buffer last_id s = (case last_id of None \<Rightarrow> [] | Some k \<Rightarrow> filter (\<lambda>(i, t, d). k < int i) (st_buffer s))"

definition open_stream :: "nat \<Rightarrow> int option \<Rightarrow> stitch \<Rightarrow> stitch" where
  "open_stream c last_id s = s\<lparr>st_connections := dset c \<lparr>cn_out = replay_buffer last_id s, cn_queue = [], cn_listed = False\<rparr> (st_connections s)\<rparr>"

definition subscribe :: "nat \<Rightarrow> stitch \<Rightarrow> stitch" where
  "subscribe c s =
     (case dget (st_connections s) c of
        None \<Rightarrow> s
      | Some x \<Rightarrow> s\<lparr>st_connections := dset c (x\<lparr>cn_listed := True\<rparr>) (st_connections s)\<rparr>)"

text \<open>One turn of the loop of a stream: an event is written, the end signal or a broken connection leaves the list.\<close>

definition stream_turn :: "nat \<Rightarrow> bool \<Rightarrow> stitch \<Rightarrow> stitch" where
  "stream_turn c broken s =
     (case dget (st_connections s) c of
        Some x \<Rightarrow>
          (case cn_queue x of
             None # q \<Rightarrow> s\<lparr>st_connections := ddel c (st_connections s)\<rparr>
           | Some e # q \<Rightarrow>
               if broken then s\<lparr>st_connections := ddel c (st_connections s)\<rparr>
               else s\<lparr>st_connections := dset c (x\<lparr>cn_out := cn_out x @ [e], cn_queue := q\<rparr>) (st_connections s)\<rparr>
           | [] \<Rightarrow> s)
      | None \<Rightarrow> s)"

text \<open>
  Stopping offers every subscriber the end signal and takes all of them out of the list. A stream that was taken
  out still reads its own queue.
\<close>

definition unlist_all :: "stitch \<Rightarrow> stitch" where
  "unlist_all s = s\<lparr>st_connections := map (\<lambda>(i, c). (i, (offer None c)\<lparr>cn_listed := False\<rparr>)) (st_connections s)\<rparr>"

definition stitch_stop :: "stitch \<Rightarrow> stitch" where
  "stitch_stop s = (unlist_all s)\<lparr>st_running := False\<rparr>"

definition stitch_reset :: "stitch \<Rightarrow> stitch" where
  "stitch_reset s = (stitch_stop s)\<lparr>st_handlers := [], st_buffer := []\<rparr>"

definition stitch_start :: "bool \<Rightarrow> stitch \<Rightarrow> stitch" where
  "stitch_start bound s = (if st_running s then s else s\<lparr>st_running := bound\<rparr>)"

definition register_stitch_handler :: "string \<Rightarrow> string \<Rightarrow> stitch \<Rightarrow> stitch" where
  "register_stitch_handler path callback s = s\<lparr>st_handlers := dset path callback (st_handlers s)\<rparr>"

section \<open>Signed requests\<close>

text \<open>
  A request, with what the identity module, the JSON parser and the handler answer. The number of bytes is read
  outside the guarded part, so that a bad header raises.
\<close>

record post_request =
  pr_path :: string
  pr_content_length :: "nat result"
  pr_warm_id :: "string option"
  pr_warm_sig :: "string option"
  pr_body :: "string result"

record post_world =
  pw_verify :: "string \<Rightarrow> string \<Rightarrow> string \<Rightarrow> bool result"
  pw_loads :: "string \<Rightarrow> json result"
  pw_call :: "string \<Rightarrow> json \<Rightarrow> unit result"
  pw_chaos :: chaos
  pw_draw1 :: pyfloat
  pw_draw2 :: pyfloat

definition missing :: "string option \<Rightarrow> bool" where
  "missing h \<longleftrightarrow> h = None \<or> h = Some []"

text \<open>The status of the answer and the call of a handler that was made, if any.\<close>

definition do_POST :: "post_world \<Rightarrow> post_request \<Rightarrow> stitch \<Rightarrow> int result \<times> (string \<times> json) option" where
  "do_POST w r s =
     (case pr_content_length r of
        Inl e \<Rightarrow> (Inl e, None)
      | Inr _ \<Rightarrow>
          if missing (pr_warm_id r) \<or> missing (pr_warm_sig r) then (Inr 401, None)
          else case pr_body r of
            Inl e \<Rightarrow> (Inr 400, None)
          | Inr body \<Rightarrow>
              (case pw_verify w (the (pr_warm_id r)) body (the (pr_warm_sig r)) of
                 Inl e \<Rightarrow> (Inr 400, None)
               | Inr False \<Rightarrow> (Inr 403, None)
               | Inr True \<Rightarrow>
                   (case pw_loads w body of
                      Inl e \<Rightarrow> (Inr 400, None)
                    | Inr payload \<Rightarrow>
                        (case dget (st_handlers s) (pr_path r) of
                           None \<Rightarrow> (Inr 404, None)
                         | Some h \<Rightarrow>
                             (case apply_middleware (pw_chaos w) (pw_draw1 w) (pw_draw2 w) payload of
                                None \<Rightarrow> (Inr 202, None)
                              | Some p \<Rightarrow> (case pw_call w h p of Inl e \<Rightarrow> (Inr 400, Some (h, p)) | Inr _ \<Rightarrow> (Inr 202, Some (h, p))))))))"

text \<open>
  A handler is called exactly when the request carries an identity and a signature, the identity module
  verifies the signature over the very body, the body is JSON, a handler is registered for the path, and no fault
  is injected; without fault injection it is called with what the body says.
\<close>

theorem handler_runs_iff_verified:
  "snd (do_POST w r s) = Some (h, p) \<longleftrightarrow>
   (\<exists>n i g body payload. pr_content_length r = Inr n \<and> pr_warm_id r = Some i \<and> i \<noteq> [] \<and> pr_warm_sig r = Some g \<and> g \<noteq> [] \<and>
     pr_body r = Inr body \<and> pw_verify w i body g = Inr True \<and> pw_loads w body = Inr payload \<and> dget (st_handlers s) (pr_path r) = Some h \<and>
     apply_middleware (pw_chaos w) (pw_draw1 w) (pw_draw2 w) payload = Some p \<and> (cm_enabled (pw_chaos w) \<or> p = payload))"
  by (cases "pr_warm_id r"; cases "pr_warm_sig r")
    (auto simp: do_POST_def missing_def apply_middleware_def split: sum.splits option.splits bool.splits if_splits)

section \<open>The buffer\<close>

fun numbered :: "nat \<Rightarrow> (string \<times> json) list \<Rightarrow> sse_event list" where
  "numbered i [] = []"
| "numbered i ((t, d) # es) = (i, t, d) # numbered (Suc i) es"

lemma numbered_snoc: "numbered i (es @ [(t, d)]) = numbered i es @ [(i + length es, t, d)]"
  by (induction es arbitrary: i) auto

lemma length_numbered [simp]: "length (numbered i es) = length es"
  by (induction es arbitrary: i) auto

lemma numbered_ids: "map fst (numbered i es) = [i..<i + length es]"
proof (induction es arbitrary: i)
  case (Cons e es)
  have "[i..<i + length (e # es)] = i # [Suc i..<Suc i + length es]" by (simp add: upt_conv_Cons del: upt_Suc)
  then show ?case using Cons by (cases e) (simp del: upt_Suc)
qed simp

lemma drop_numbered: "drop m (numbered i es) = numbered (i + m) (drop m es)"
proof (induction es arbitrary: i m)
  case (Cons e es)
  then show ?case by (cases m; cases e) auto
qed simp

lemma broadcasts_buffer:
  "st_buffer (fold (\<lambda>(t, d). broadcast_event t d) es stitch_init) = drop (length es - BUFFER_SIZE) (numbered 1 es) \<and>
   st_next_event_id (fold (\<lambda>(t, d). broadcast_event t d) es stitch_init) = Suc (length es)"
proof (induction es rule: rev_induct)
  case (snoc e es)
  obtain t d where e: "e = (t, d)" by fastforce
  show ?case
  proof (cases "length es < BUFFER_SIZE")
    case True
    then show ?thesis using snoc by (simp add: e broadcast_event_def numbered_snoc Let_def)
  next
    case False
    then have "Suc (length es) - BUFFER_SIZE = Suc (length es - BUFFER_SIZE)" by simp
    moreover have "drop (length es - BUFFER_SIZE) (numbered 1 es) \<noteq> []" using False by (simp add: BUFFER_SIZE_def)
    ultimately show ?thesis using snoc False by (simp add: e broadcast_event_def numbered_snoc Let_def drop_Suc tl_drop)
  qed
qed (simp add: stitch_init_def)

lemma later_ids: "filter (\<lambda>(i, t, d). int k < int i) (numbered (Suc j) es) = drop (k - j) (numbered (Suc j) es)"
proof (induction es arbitrary: j)
  case (Cons e es)
  obtain t d where "e = (t, d)" by fastforce
  then show ?case using Cons [of "Suc j"] by (cases "k \<le> j") (auto simp: drop_Cons')
qed simp

text \<open>
  After any number of broadcasts the replay for a client that has the first \<open>k\<close> events writes exactly the
  events it lacks, in order and with their numbers, as long as these are no more than the buffer holds; the numbers
  of events are consecutive from 1.
\<close>

theorem resync_is_complete:
  assumes "length es \<le> k + BUFFER_SIZE"
  shows "replay_buffer (Some (int k)) (fold (\<lambda>(t, d). broadcast_event t d) es stitch_init) = drop k (numbered 1 es) \<and>
    map fst (numbered 1 es) = [1..<length es + 1]"
proof -
  let ?m = "length es - BUFFER_SIZE"
  have "filter (\<lambda>(i, t, d). int k < int i) (drop ?m (numbered 1 es)) = drop (k - ?m) (drop ?m (numbered 1 es))"
    using later_ids [of k ?m "drop ?m es"] by (simp add: drop_numbered)
  also have "\<dots> = drop k (numbered 1 es)" using assms by simp
  finally show ?thesis using broadcasts_buffer [of es] numbered_ids [of 1 es] by (simp add: replay_buffer_def)
qed

theorem resync_is_complete_witness:
  "replay_buffer (Some 1) (fold (\<lambda>(t, d). broadcast_event t d) [(''a'', JNull), (''b'', JNull)] stitch_init) = [(2, ''b'', JNull)]"
  using resync_is_complete [of "[(''a'', JNull), (''b'', JNull)]" 1] by (simp add: BUFFER_SIZE_def)

section \<open>What a client sees\<close>

datatype stitch_op =
    Broadcast string json
  | OpenStream nat "int option"
  | Subscribe nat
  | StreamTurn nat bool
  | StopStitch
  | ResetStitch

fun stitch_step :: "stitch_op \<Rightarrow> stitch \<Rightarrow> stitch" where
  "stitch_step (Broadcast t d) s = broadcast_event t d s"
| "stitch_step (OpenStream c k) s = open_stream c k s"
| "stitch_step (Subscribe c) s = subscribe c s"
| "stitch_step (StreamTurn c broken) s = stream_turn c broken s"
| "stitch_step StopStitch s = stitch_stop s"
| "stitch_step ResetStitch s = stitch_reset s"

fun events_of :: "sse_event option list \<Rightarrow> sse_event list" where
  "events_of [] = []"
| "events_of (None # q) = events_of q"
| "events_of (Some e # q) = e # events_of q"

lemma events_of_append [simp]: "events_of (p @ q) = events_of p @ events_of q"
  by (induction p rule: events_of.induct) auto

text \<open>The numbers a client was sent and will still be sent from its queue.\<close>

definition stream_ids :: "connection \<Rightarrow> nat list" where
  "stream_ids c = map fst (cn_out c @ events_of (cn_queue c))"

definition ids_below :: "nat \<Rightarrow> nat list \<Rightarrow> bool" where
  "ids_below n ks \<longleftrightarrow> sorted_wrt (<) ks \<and> (\<forall>k \<in> set ks. k < n)"

definition stitch_ok :: "stitch \<Rightarrow> bool" where
  "stitch_ok s \<longleftrightarrow> ids_below (st_next_event_id s) (map fst (st_buffer s)) \<and>
     (\<forall>(i, c) \<in> set (st_connections s). ids_below (st_next_event_id s) (stream_ids c))"

lemma ids_below_snoc: "ids_below n ks \<Longrightarrow> ids_below (Suc n) (ks @ [n])"
  by (auto simp: ids_below_def sorted_wrt_append less_Suc_eq)

lemma ids_below_Suc: "ids_below n ks \<Longrightarrow> ids_below (Suc n) ks"
  by (auto simp: ids_below_def less_Suc_eq)

lemma ids_below_filter: "ids_below n (map f xs) \<Longrightarrow> ids_below n (map f (filter P xs))"
  by (auto simp: ids_below_def sorted_wrt_map intro: sorted_wrt_filter)

lemma stream_ids_offer:
  "ids_below n (stream_ids c) \<Longrightarrow> ids_below (Suc n) (stream_ids (offer (Some (n, t, d)) c))"
  "stream_ids (offer None c) = stream_ids c" "stream_ids (c\<lparr>cn_listed := b\<rparr>) = stream_ids c"
  using ids_below_snoc [of n "stream_ids c"] ids_below_Suc [of n "stream_ids c"]
  by (auto simp: offer_def stream_ids_def)

lemma set_dset_in: "(k', v') \<in> set (dset k v d) \<Longrightarrow> (k', v') \<in> set d \<or> v' = v"
  by (induction d) (auto simp: dset_Cons split: if_splits)

lemma set_ddel_in: "x \<in> set (ddel k d) \<Longrightarrow> x \<in> set d"
  by (induction d) (auto simp: ddel_Cons split: if_splits)

lemma stitch_broadcast_ok:
  assumes "stitch_ok s"
  shows "stitch_ok (broadcast_event t d s)"
proof -
  let ?n = "st_next_event_id s" and ?b = "st_buffer s @ [(st_next_event_id s, t, d)]"
  have b: "ids_below (Suc ?n) (map fst ?b)" using assms ids_below_snoc by (simp add: stitch_ok_def)
  have "ids_below (Suc ?n) (map fst (tl ?b))" using b by (cases ?b) (auto simp: ids_below_def)
  then show ?thesis using assms b stream_ids_offer(1) [of ?n]
    by (auto simp: stitch_ok_def broadcast_event_def Let_def)
qed

lemma stitch_turn_ok:
  assumes "stitch_ok s"
  shows "stitch_ok (stream_turn c broken s)"
proof (cases "dget (st_connections s) c")
  case (Some x)
  then have x: "ids_below (st_next_event_id s) (stream_ids x)" using assms dget_SomeD by (force simp: stitch_ok_def)
  have "stream_ids (x\<lparr>cn_out := cn_out x @ [e], cn_queue := q\<rparr>) = stream_ids x" if "cn_queue x = Some e # q" for e q
    using that by (simp add: stream_ids_def)
  then show ?thesis using assms x Some
    by (auto simp: stream_turn_def stitch_ok_def split: list.splits option.splits dest!: set_dset_in set_ddel_in)
qed (use assms in \<open>simp add: stream_turn_def\<close>)

lemma stitch_step_ok: "stitch_ok s \<Longrightarrow> stitch_ok (stitch_step op s)"
proof (cases op)
  case (OpenStream c k)
  assume s: "stitch_ok s"
  have "ids_below (st_next_event_id s) (map fst (replay_buffer k s))"
    using s ids_below_filter [of _ fst "st_buffer s"] by (auto simp: replay_buffer_def stitch_ok_def ids_below_def split: option.splits)
  then show ?thesis using s by (auto simp: OpenStream open_stream_def stitch_ok_def stream_ids_def dest!: set_dset_in)
next
  case (Subscribe c)
  assume s: "stitch_ok s"
  show ?thesis
  proof (cases "dget (st_connections s) c")
    case (Some x)
    then have "ids_below (st_next_event_id s) (stream_ids x)" using s dget_SomeD by (force simp: stitch_ok_def)
    then show ?thesis using s Some by (auto simp: Subscribe subscribe_def stitch_ok_def stream_ids_offer dest!: set_dset_in)
  qed (use s in \<open>simp add: Subscribe subscribe_def\<close>)
next
  case ResetStitch
  assume "stitch_ok s"
  then show ?thesis by (auto simp: ResetStitch stitch_reset_def stitch_stop_def unlist_all_def stitch_ok_def stream_ids_offer) (simp add: ids_below_def)
next
  case StopStitch
  assume "stitch_ok s"
  then show ?thesis by (auto simp: StopStitch stitch_stop_def unlist_all_def stitch_ok_def stream_ids_offer)
qed (simp_all add: stitch_broadcast_ok stitch_turn_ok)

interpretation stitch_machine: machine stitch_step stitch_ok
  by unfold_locales (rule stitch_step_ok)

text \<open>
  In any interleaving of broadcasts, connections, replays, deliveries, breaks, stops and resets, the numbers of
  the events that a connection was sent and will be sent from its queue increase strictly: no client sees an event
  twice or out of order on one connection, whether it was replayed or broadcast.
\<close>

theorem streams_are_ordered:
  assumes "dget (st_connections (fold stitch_step ops stitch_init)) c = Some x"
  shows "sorted_wrt (<) (map fst (cn_out x @ events_of (cn_queue x)))"
proof -
  have "stitch_ok stitch_init" by (simp add: stitch_ok_def stitch_init_def ids_below_def)
  from stitch_machine.run_inv [OF this, of ops] have "stitch_ok (fold stitch_step ops stitch_init)" .
  with assms dget_SomeD [OF assms] show ?thesis by (force simp: stitch_ok_def ids_below_def stream_ids_def)
qed

theorem streams_are_ordered_witness:
  "\<exists>x. dget (st_connections (fold stitch_step [Broadcast ''a'' JNull, OpenStream 7 (Some 0), Subscribe 7, Broadcast ''b'' JNull] stitch_init)) 7 = Some x \<and>
     sorted_wrt (<) (map fst (cn_out x @ events_of (cn_queue x))) \<and> length (cn_out x @ events_of (cn_queue x)) = 2"
proof -
  let ?ops = "[Broadcast ''a'' JNull, OpenStream 7 (Some 0), Subscribe 7, Broadcast ''b'' JNull]"
  obtain x where x: "dget (st_connections (fold stitch_step ?ops stitch_init)) 7 = Some x" "length (cn_out x @ events_of (cn_queue x)) = 2"
    by (simp add: broadcast_event_def open_stream_def subscribe_def stitch_init_def replay_buffer_def offer_def QUEUE_SIZE_def BUFFER_SIZE_def
        Let_def dget_Cons dset_Cons)
  with streams_are_ordered [OF x(1)] show ?thesis by blast
qed

text \<open>An event that is broadcast between the replay and the entry into the list never reaches the client.\<close>

lemma event_between_is_missed:
  assumes "stitch_ok s"
  shows "\<exists>x. dget (st_connections (subscribe c (broadcast_event t d (open_stream c k s)))) c = Some x \<and>
    st_next_event_id s \<notin> set (stream_ids x)"
proof -
  let ?x = "\<lparr>cn_out = replay_buffer k s, cn_queue = [], cn_listed = False\<rparr>"
  have "dget (st_connections (broadcast_event t d (open_stream c k s))) c = Some ?x"
    using dget_map [of "\<lambda>_. offer (Some (st_next_event_id s, t, d))" "dset c ?x (st_connections s)" c]
    by (simp add: broadcast_event_def open_stream_def Let_def offer_def [of _ ?x])
  moreover have "st_next_event_id s \<notin> fst ` set (replay_buffer k s)"
    using assms by (auto simp: replay_buffer_def stitch_ok_def ids_below_def split: option.splits)
  ultimately show ?thesis by (simp add: subscribe_def stream_ids_def)
qed

text \<open>A subscriber whose queue is full stays in the list and misses the event.\<close>

lemma full_queue_misses: "QUEUE_SIZE \<le> length (cn_queue c) \<Longrightarrow> offer e c = c"
  by (simp add: offer_def)

end
