(* ===== verification/Bridge.thy ===== *)
theory Bridge
  imports Stitch
begin

text \<open>
  The network bridge (\<^verbatim>\<open>kernel/substrate/network_bridge.py\<close>): the router of incoming messages, the table of peers,
  sending and broadcasting, the handlers and the propagation of blocks. What the bridge asks of the components it
  connects (gossip agent, consensus engine, telemetry server, propagator, native transport) is recorded as a list of
  calls, and their answers are a record of functions. Messages are JSON values; \<open>json.dumps\<close> and \<open>json.loads\<close> are
  arguments.
\<close>

section \<open>Messages and calls\<close>

record network_message =
  nm_msg_type :: json
  nm_sender_id :: json
  nm_payload :: "(string, json) dict"
  nm_timestamp :: json
  nm_signature :: json

datatype message_handler =
    Handle_manifest | Handle_block_propose | Handle_vote | Handle_sync_manifest | Handle_veto_signal
  | Handle_insight | Handle_delta_request | Handle_delta_response | Handle_other string

datatype bridge_call =
    ManifestCall json json json json json
  | InsightCall json json json
  | ProposeCall json
  | VoteCall json json json
  | DeltaRequestCall "(string, json) dict"
  | DeltaResponseCall "(string, json) dict"
  | SseCall string "(string, json) dict"
  | SendCall string int string
  | UpdateCall string string int
  | OtherCall string network_message

record bridge_world =
  bw_loads :: "string \<Rightarrow> json option"
  bw_dumps :: "json \<Rightarrow> string result"
  bw_answer :: "bridge_call \<Rightarrow> json result"

record peer =
  pe_id :: string
  pe_address :: string
  pe_port :: int
  pe_public_key :: "string option"
  pe_last_seen :: pyfloat

record bridge =
  br_node_id :: string
  br_handlers :: "(string, message_handler list) dict"
  br_received :: nat
  br_routed :: nat
  br_unknown_types :: nat
  br_handler_errors :: nat
  br_rust_dht :: bool
  br_gossip :: bool
  br_stitch :: bool
  br_bft :: bool
  br_propagator :: bool
  br_running :: bool
  br_peers :: "(string, peer) dict"
  br_calls :: "bridge_call list"

definition register_message_handler :: "string \<Rightarrow> message_handler \<Rightarrow> bridge \<Rightarrow> bridge" where
  "register_message_handler t h b =
     b\<lparr>br_handlers := dset t ((case dget (br_handlers b) t of None \<Rightarrow> [] | Some hs \<Rightarrow> hs) @ [h]) (br_handlers b)\<rparr>"

definition setup_default_handlers :: "bridge \<Rightarrow> bridge" where
  "setup_default_handlers =
     fold (\<lambda>(t, h). register_message_handler t h)
       [(''MANIFEST_ANNOUNCE'', Handle_manifest), (''BLOCK_PROPOSE'', Handle_block_propose), (''VOTE'', Handle_vote),
        (''SYNC_MANIFEST'', Handle_sync_manifest), (''VETO_SIGNAL'', Handle_veto_signal), (''INSIGHT_ANNOUNCE'', Handle_insight),
        (''DELTA_REQUEST'', Handle_delta_request), (''DELTA_RESPONSE'', Handle_delta_response)]"

definition bridge_new :: "string \<Rightarrow> bridge" where
  "bridge_new nid = setup_default_handlers \<lparr>br_node_id = nid, br_handlers = [], br_received = 0, br_routed = 0, br_unknown_types = 0,
     br_handler_errors = 0, br_rust_dht = False, br_gossip = False, br_stitch = False, br_bft = False, br_propagator = False,
     br_running = False, br_peers = [], br_calls = []\<rparr>"

text \<open>A call of a component: it is recorded, and its answer or exception given back.\<close>

definition ask :: "bridge_world \<Rightarrow> bridge_call \<Rightarrow> bridge \<Rightarrow> json result \<times> bridge" where
  "ask w c b = (bw_answer w c, b\<lparr>br_calls := br_calls b @ [c]\<rparr>)"

definition field :: "(string, json) dict \<Rightarrow> string \<Rightarrow> json \<Rightarrow> json" where
  "field d k v = (case dget d k of None \<Rightarrow> v | Some x \<Rightarrow> x)"

text \<open>\<open>value[:n]\<close> in a log line, which raises for values that are neither text nor list.\<close>

fun sliceable :: "json \<Rightarrow> bool" where
  "sliceable (JStr s) = True"
| "sliceable (JArr xs) = True"
| "sliceable j = False"

definition broadcast_sse :: "bridge_world \<Rightarrow> string \<Rightarrow> (string, json) dict \<Rightarrow> bridge \<Rightarrow> bridge" where
  "broadcast_sse w t d b = (if br_stitch b then snd (ask w (SseCall t d) b) else b)"

section \<open>Peers and sending\<close>

text \<open>The transport is kept as soon as it is created, also when it then cannot be started.\<close>

definition connect_rust_dht :: "bool \<Rightarrow> bool \<Rightarrow> bridge \<Rightarrow> bool \<times> bridge" where
  "connect_rust_dht created started b = (created \<and> started, if created then b\<lparr>br_rust_dht := True\<rparr> else b)"

definition connect_gossip :: "bridge \<Rightarrow> bridge" where
  "connect_gossip b = b\<lparr>br_gossip := True\<rparr>"

definition connect_stitch :: "bridge \<Rightarrow> bridge" where
  "connect_stitch b = b\<lparr>br_stitch := True\<rparr>"

definition connect_bft :: "bridge \<Rightarrow> bridge" where
  "connect_bft b = b\<lparr>br_bft := True\<rparr>"

definition connect_propagator :: "bridge \<Rightarrow> bridge" where
  "connect_propagator b = b\<lparr>br_propagator := True\<rparr>"

definition bridge_start :: "bool \<Rightarrow> bool \<Rightarrow> bridge \<Rightarrow> bool \<times> bridge" where
  "bridge_start created started b =
     (if br_running b then (False, b)
      else
        let (ok, b1) = (if br_rust_dht b then (True, b) else connect_rust_dht created started b)
        in if ok then (True, b1\<lparr>br_running := True\<rparr>) else (False, b1))"

lemma second_start_runs_unstarted_transport:
  assumes "\<not> br_running b" "\<not> br_rust_dht b"
  shows "\<exists>b1. bridge_start True False b = (False, b1) \<and> bridge_start c s b1 = (True, b1\<lparr>br_running := True\<rparr>)"
  using assms by (simp add: bridge_start_def connect_rust_dht_def)

definition bridge_stop :: "bridge \<Rightarrow> bridge" where
  "bridge_stop b = b\<lparr>br_running := False\<rparr>"

definition add_peer :: "bridge_world \<Rightarrow> pyfloat \<Rightarrow> string \<Rightarrow> string \<Rightarrow> int \<Rightarrow> string option \<Rightarrow> bridge \<Rightarrow> bridge" where
  "add_peer w now pid address port pk b =
     (let b1 = b\<lparr>br_peers := dset pid \<lparr>pe_id = pid, pe_address = address, pe_port = port, pe_public_key = pk, pe_last_seen = now\<rparr> (br_peers b)\<rparr>
      in if br_rust_dht b1 then snd (ask w (UpdateCall pid address port) b1) else b1)"

definition remove_peer :: "string \<Rightarrow> bridge \<Rightarrow> bridge" where
  "remove_peer pid b = b\<lparr>br_peers := ddel pid (br_peers b)\<rparr>"

definition get_peers :: "bridge \<Rightarrow> peer list" where
  "get_peers b = dvalues (br_peers b)"

definition envelope :: "bridge \<Rightarrow> pyfloat \<Rightarrow> string \<Rightarrow> (string, json) dict \<Rightarrow> json" where
  "envelope b now t payload =
     JObj [(''type'', JStr t), (''sender_id'', JStr (br_node_id b)), (''payload'', JObj payload), (''timestamp'', JFloat now)]"

text \<open>Without the native transport nothing is sent, but every peer is counted.\<close>

definition send_one :: "bridge_world \<Rightarrow> string \<Rightarrow> peer \<Rightarrow> nat \<times> bridge \<Rightarrow> nat \<times> bridge" where
  "send_one w raw p = (\<lambda>(n, b).
     if br_rust_dht b then
       (case ask w (SendCall (pe_address p) (pe_port p) raw) b of (Inl e, b1) \<Rightarrow> (n, b1) | (Inr _, b1) \<Rightarrow> (Suc n, b1))
     else (Suc n, b))"

definition bridge_broadcast :: "bridge_world \<Rightarrow> pyfloat \<Rightarrow> string \<Rightarrow> (string, json) dict \<Rightarrow> bridge \<Rightarrow> nat result \<times> bridge" where
  "bridge_broadcast w now t payload b =
     (case bw_dumps w (envelope b now t payload) of
        Inl e \<Rightarrow> (Inl e, b)
      | Inr raw \<Rightarrow>
          let b1 = broadcast_sse w (''network_'' @ py_lower t) payload b; (n, b2) = fold (send_one w raw) (get_peers b1) (0, b1)
          in (Inr n, b2))"

definition send_to_peer :: "bridge_world \<Rightarrow> pyfloat \<Rightarrow> string \<Rightarrow> string \<Rightarrow> (string, json) dict \<Rightarrow> bridge \<Rightarrow> bool result \<times> bridge" where
  "send_to_peer w now pid t payload b =
     (case dget (br_peers b) pid of
        None \<Rightarrow> (Inr False, b)
      | Some p \<Rightarrow>
          (case bw_dumps w (envelope b now t payload) of
             Inl e \<Rightarrow> (Inl e, b)
           | Inr raw \<Rightarrow>
               if br_rust_dht b then
                 (case ask w (SendCall (pe_address p) (pe_port p) raw) b of (Inl e, b1) \<Rightarrow> (Inr False, b1) | (Inr _, b1) \<Rightarrow> (Inr True, b1))
               else (Inr False, b)))"

section \<open>Handlers\<close>

text \<open>A handler answers whether it returned (\<open>True\<close>) or raised.\<close>

definition handle_manifest :: "bridge_world \<Rightarrow> network_message \<Rightarrow> bridge \<Rightarrow> bool \<times> bridge" where
  "handle_manifest w m b =
     (let d = nm_payload m;
          (r, b1) = (if br_gossip b then ask w (ManifestCall (nm_sender_id m) (field d ''manifest_hash'' (JStr [])) (nm_timestamp m)
            (nm_signature m) (field d ''sender_pk'' JNull)) b else (Inr JNull, b))
      in case r of
           Inl e \<Rightarrow> (False, b1)
         | Inr _ \<Rightarrow> (True, broadcast_sse w ''manifest_received''
             [(''sender_id'', nm_sender_id m), (''manifest_hash'', field d ''manifest_hash'' JNull)] b1))"

definition bridge_block_propose :: "bridge_world \<Rightarrow> network_message \<Rightarrow> bridge \<Rightarrow> bool \<times> bridge" where
  "bridge_block_propose w m b =
     (let d = nm_payload m; b1 = (if br_bft b then snd (ask w (ProposeCall (field d ''block_hash'' (JStr []))) b) else b)
      in (True, broadcast_sse w ''block_proposed''
            [(''block_hash'', field d ''block_hash'' JNull), (''proposer'', nm_sender_id m), (''round'', field d ''round'' JNull)] b1))"

definition bridge_vote :: "bridge_world \<Rightarrow> network_message \<Rightarrow> bridge \<Rightarrow> bool \<times> bridge" where
  "bridge_vote w m b =
     (let d = nm_payload m
      in if br_bft b then
           (case ask w (VoteCall (nm_sender_id m) (field d ''block_hash'' (JStr []))
                   (if j_truthy (nm_signature m) then nm_signature m else JStr [])) b of
              (Inl e, b1) \<Rightarrow> (True, b1)
            | (Inr q, b1) \<Rightarrow>
                if j_truthy q \<and> sliceable (field d ''block_hash'' (JStr [])) then
                  (True, broadcast_sse w ''quorum_reached'' [(''block_hash'', field d ''block_hash'' JNull), (''round'', field d ''round'' JNull)] b1)
                else (True, b1))
         else (True, b))"

definition handle_sync_manifest :: "bridge_world \<Rightarrow> network_message \<Rightarrow> bridge \<Rightarrow> bool \<times> bridge" where
  "handle_sync_manifest w m b =
     (let d = nm_payload m
      in if sliceable (nm_sender_id m) \<and> sliceable (field d ''root_hash'' (JStr [])) then
           (True, broadcast_sse w ''sync_manifest'' [(''sender_id'', nm_sender_id m), (''root_hash'', field d ''root_hash'' JNull)] b)
         else (False, b))"

definition handle_veto_signal :: "bridge_world \<Rightarrow> network_message \<Rightarrow> bridge \<Rightarrow> bool \<times> bridge" where
  "handle_veto_signal w m b =
     (let d = nm_payload m
      in if sliceable (nm_sender_id m) then
           (True, broadcast_sse w ''veto_signal''
              [(''sender_id'', nm_sender_id m), (''reason'', field d ''reason'' JNull), (''insight'', field d ''insight'' JNull)] b)
         else (False, b))"

definition handle_insight :: "bridge_world \<Rightarrow> network_message \<Rightarrow> bridge \<Rightarrow> bool \<times> bridge" where
  "handle_insight w m b =
     (let d = nm_payload m;
          (r, b1) = (if br_gossip b then ask w (InsightCall (nm_sender_id m) (field d ''insight'' (JObj [])) (nm_timestamp m)) b else (Inr JNull, b))
      in case r of
           Inl e \<Rightarrow> (False, b1)
         | Inr _ \<Rightarrow> (True, broadcast_sse w ''insight_received'' [(''sender_id'', nm_sender_id m), (''insight'', field d ''insight'' JNull)] b1))"

text \<open>The reply to a delta request goes to the sender, if it is a known peer; a sender that cannot be a key raises.\<close>

definition reply_delta :: "bridge_world \<Rightarrow> pyfloat \<Rightarrow> json \<Rightarrow> json \<Rightarrow> bridge \<Rightarrow> bool \<times> bridge" where
  "reply_delta w now sender response b =
     (case (sender, response) of
        (JStr pid, JObj r) \<Rightarrow> (case send_to_peer w now pid ''DELTA_RESPONSE'' r b of (Inl e, b1) \<Rightarrow> (False, b1) | (Inr _, b1) \<Rightarrow> (True, b1))
      | _ \<Rightarrow> (False, b))"

definition handle_delta_request :: "bridge_world \<Rightarrow> pyfloat \<Rightarrow> network_message \<Rightarrow> bridge \<Rightarrow> bool \<times> bridge" where
  "handle_delta_request w now m b =
     (let d = nm_payload m;
          finish = (\<lambda>b1. (True, broadcast_sse w ''delta_request'' [(''sender_id'', nm_sender_id m), (''target_hash'', field d ''target_hash'' JNull)] b1))
      in if \<not> (sliceable (nm_sender_id m) \<and> sliceable (field d ''target_hash'' (JStr []))) then (False, b)
         else if \<not> br_propagator b then finish b
         else case ask w (DeltaRequestCall d) b of
                (Inl e, b1) \<Rightarrow> (False, b1)
              | (Inr response, b1) \<Rightarrow>
                  if j_truthy response then
                    (case reply_delta w now (nm_sender_id m) response b1 of (False, b2) \<Rightarrow> (False, b2) | (True, b2) \<Rightarrow> finish b2)
                  else finish b1)"

definition handle_delta_response :: "bridge_world \<Rightarrow> network_message \<Rightarrow> bridge \<Rightarrow> bool \<times> bridge" where
  "handle_delta_response w m b =
     (let d = nm_payload m;
          finish = (\<lambda>b1. (True, broadcast_sse w ''delta_response'' [(''sender_id'', nm_sender_id m), (''total_files'', field d ''total_files'' JNull),
            (''target_hash'', field d ''target_hash'' JNull)] b1))
      in if \<not> sliceable (nm_sender_id m) then (False, b)
         else if \<not> br_propagator b then finish b
         else case ask w (DeltaResponseCall d) b of (Inl e, b1) \<Rightarrow> (False, b1) | (Inr _, b1) \<Rightarrow> finish b1)"

fun run_handler :: "bridge_world \<Rightarrow> pyfloat \<Rightarrow> message_handler \<Rightarrow> network_message \<Rightarrow> bridge \<Rightarrow> bool \<times> bridge" where
  "run_handler w now Handle_manifest m b = handle_manifest w m b"
| "run_handler w now Handle_block_propose m b = bridge_block_propose w m b"
| "run_handler w now Handle_vote m b = bridge_vote w m b"
| "run_handler w now Handle_sync_manifest m b = handle_sync_manifest w m b"
| "run_handler w now Handle_veto_signal m b = handle_veto_signal w m b"
| "run_handler w now Handle_insight m b = handle_insight w m b"
| "run_handler w now Handle_delta_request m b = handle_delta_request w now m b"
| "run_handler w now Handle_delta_response m b = handle_delta_response w m b"
| "run_handler w now (Handle_other h) m b = (case ask w (OtherCall h m) b of (Inl e, b1) \<Rightarrow> (False, b1) | (Inr _, b1) \<Rightarrow> (True, b1))"

section \<open>Routing\<close>

definition message_of :: "pyfloat \<Rightarrow> (string, json) dict \<Rightarrow> network_message" where
  "message_of now d = \<lparr>nm_msg_type = field d ''type'' (JStr ''UNKNOWN''), nm_sender_id = field d ''sender_id'' (JStr ''unknown''), nm_payload = d,
     nm_timestamp = field d ''timestamp'' (JFloat now), nm_signature = field d ''signature'' JNull\<rparr>"

definition call_handler :: "bridge_world \<Rightarrow> pyfloat \<Rightarrow> network_message \<Rightarrow> message_handler \<Rightarrow> bridge \<Rightarrow> bridge" where
  "call_handler w now m h b =
     (case run_handler w now h m b of
        (True, b1) \<Rightarrow> b1\<lparr>br_routed := br_routed b1 + 1\<rparr>
      | (False, b1) \<Rightarrow> b1\<lparr>br_handler_errors := br_handler_errors b1 + 1\<rparr>)"

text \<open>What is no JSON object, or has a list or an object as its type, is given up silently.\<close>

definition route :: "bridge_world \<Rightarrow> pyfloat \<Rightarrow> string \<Rightarrow> bridge \<Rightarrow> bridge" where
  "route w now raw b =
     (let b1 = b\<lparr>br_received := br_received b + 1\<rparr>
      in case bw_loads w raw of
           Some (JObj d) \<Rightarrow>
             let m = message_of now d
             in (case nm_msg_type m of
                   JArr xs \<Rightarrow> b1
                 | JObj x \<Rightarrow> b1
                 | JStr t \<Rightarrow>
                     (case dget (br_handlers b1) t of
                        Some (h # hs) \<Rightarrow> fold (call_handler w now m) (h # hs) b1
                      | _ \<Rightarrow> b1\<lparr>br_unknown_types := br_unknown_types b1 + 1\<rparr>)
                 | _ \<Rightarrow> b1\<lparr>br_unknown_types := br_unknown_types b1 + 1\<rparr>)
         | _ \<Rightarrow> b1)"

definition poll_round :: "bridge_world \<Rightarrow> pyfloat \<Rightarrow> string list result \<Rightarrow> bridge \<Rightarrow> bridge" where
  "poll_round w now polled b =
     (if br_running b \<and> br_rust_dht b then (case polled of Inl e \<Rightarrow> b | Inr msgs \<Rightarrow> fold (route w now) msgs b) else b)"

section \<open>Block propagation\<close>

record pending_block =
  pb_hash :: json
  pb_transactions :: json
  pb_proposer :: json
  pb_round :: json
  pb_received_at :: pyfloat

type_synonym pending_blocks = "(string, pending_block) dict"

text \<open>A block from a signed request; the hash must be a text, which the log line and the table need.\<close>

definition propose_message :: "(string, json) dict \<Rightarrow> json" where
  "propose_message d = JObj [(''type'', JStr ''BLOCK_PROPOSE''), (''sender_id'', field d ''proposer'' (JStr [])),
     (''block_hash'', field d ''block_hash'' (JStr [])), (''transactions'', field d ''transactions'' (JArr [])), (''round'', field d ''round'' (JInt 0))]"

definition handle_block :: "bridge_world \<Rightarrow> pyfloat \<Rightarrow> (string, json) dict \<Rightarrow> pending_blocks \<times> bridge \<Rightarrow> unit result \<times> pending_blocks \<times> bridge" where
  "handle_block w now d = (\<lambda>(ps, b).
     let h = field d ''block_hash'' (JStr []); txs = field d ''transactions'' (JArr []); proposer = field d ''proposer'' (JStr []);
         r = field d ''round'' (JInt 0)
     in case h of
          JStr hs \<Rightarrow>
            if \<not> sliceable proposer then (Inl TypeError, ps, b)
            else
              let ps1 = dset hs \<lparr>pb_hash = h, pb_transactions = txs, pb_proposer = proposer, pb_round = r, pb_received_at = now\<rparr> ps
              in (case bw_dumps w (propose_message d) of
                    Inl e \<Rightarrow> (Inl e, ps1, b)
                  | Inr raw \<Rightarrow> (Inr (), ps1, route w now raw b))
        | _ \<Rightarrow> (Inl TypeError, ps, b))"

definition handle_block_vote :: "bridge_world \<Rightarrow> pyfloat \<Rightarrow> (string, json) dict \<Rightarrow> bridge \<Rightarrow> unit result \<times> bridge" where
  "handle_block_vote w now d b =
     (let h = field d ''block_hash'' (JStr []); voter = field d ''voter_id'' (JStr []); sig = field d ''signature'' (JStr [])
      in if \<not> (sliceable h \<and> sliceable voter) then (Inl TypeError, b)
         else case bw_dumps w (JObj [(''type'', JStr ''VOTE''), (''sender_id'', voter), (''block_hash'', h), (''signature'', sig)]) of
                Inl e \<Rightarrow> (Inl e, b)
              | Inr raw \<Rightarrow> (Inr (), route w now raw b))"

definition clear_committed :: "string \<Rightarrow> pending_blocks \<Rightarrow> pending_blocks" where
  "clear_committed h ps = ddel h ps"

definition register_block_handlers :: "stitch \<Rightarrow> stitch" where
  "register_block_handlers s = register_stitch_handler ''/vote'' ''handle_vote'' (register_stitch_handler ''/block'' ''handle_block'' s)"

section \<open>What a broadcast does\<close>

definition sse_calls :: "bridge \<Rightarrow> string \<Rightarrow> (string, json) dict \<Rightarrow> bridge_call list" where
  "sse_calls b t d = (if br_stitch b then [SseCall t d] else [])"

lemma broadcast_sse_eq: "broadcast_sse w t d b = b\<lparr>br_calls := br_calls b @ sse_calls b t d\<rparr>"
  by (simp add: broadcast_sse_def ask_def sse_calls_def)

lemma send_all:
  "fold (send_one w raw) ps (n, b) =
   (if br_rust_dht b
    then (n + length (filter (\<lambda>p. \<exists>a. bw_answer w (SendCall (pe_address p) (pe_port p) raw) = Inr a) ps),
          b\<lparr>br_calls := br_calls b @ map (\<lambda>p. SendCall (pe_address p) (pe_port p) raw) ps\<rparr>)
    else (n + length ps, b))"
proof (induction ps arbitrary: n b)
  case (Cons p ps)
  then show ?case by (cases "bw_answer w (SendCall (pe_address p) (pe_port p) raw)") (auto simp: send_one_def ask_def)
qed simp

text \<open>
  A broadcast with the native transport hands the same text to the transport once for every known peer, in the
  order of the table, whatever fails on the way, and answers the number of peers for which it did not fail; nothing
  else but the telemetry event is asked of any component.
\<close>

theorem broadcast_reaches_every_peer:
  assumes "br_rust_dht b" and "bw_dumps w (envelope b now t payload) = Inr raw"
  shows "bridge_broadcast w now t payload b =
    (Inr (length (filter (\<lambda>p. \<exists>a. bw_answer w (SendCall (pe_address p) (pe_port p) raw) = Inr a) (get_peers b))),
     b\<lparr>br_calls := br_calls b @ sse_calls b (''network_'' @ py_lower t) payload @ map (\<lambda>p. SendCall (pe_address p) (pe_port p) raw) (get_peers b)\<rparr>)"
  using assms by (simp add: bridge_broadcast_def broadcast_sse_eq send_all get_peers_def Let_def)

definition echo_world :: bridge_world where
  "echo_world = \<lparr>bw_loads = \<lambda>s. None, bw_dumps = \<lambda>j. Inr ''raw'', bw_answer = \<lambda>c. Inr JNull\<rparr>"

theorem broadcast_reaches_every_peer_witness:
  "fst (bridge_broadcast echo_world (Fin 0) ''VOTE'' [] ((add_peer echo_world (Fin 0) ''p'' ''h'' 1 None (bridge_new ''n''))\<lparr>br_rust_dht := True\<rparr>)) = Inr 1"
proof -
  let ?b = "(add_peer echo_world (Fin 0) ''p'' ''h'' 1 None (bridge_new ''n''))\<lparr>br_rust_dht := True\<rparr>"
  have p: "get_peers ?b = [\<lparr>pe_id = ''p'', pe_address = ''h'', pe_port = 1, pe_public_key = None, pe_last_seen = Fin 0\<rparr>]"
    by (simp add: add_peer_def bridge_new_def setup_default_handlers_def register_message_handler_def get_peers_def dvalues_def Let_def)
  have "bw_dumps echo_world (envelope ?b (Fin 0) ''VOTE'' []) = Inr ''raw''" by (simp add: echo_world_def)
  from broadcast_reaches_every_peer [OF _ this] show ?thesis by (simp add: p) (simp add: echo_world_def)
qed

text \<open>Without it nothing is sent, and the answer is the number of peers.\<close>

lemma unsent_broadcast_counts_all:
  assumes "\<not> br_rust_dht b" "bw_dumps w (envelope b now t payload) = Inr raw"
  shows "bridge_broadcast w now t payload b = (Inr (length (br_peers b)), b\<lparr>br_calls := br_calls b @ sse_calls b (''network_'' @ py_lower t) payload\<rparr>)"
  using assms by (simp add: bridge_broadcast_def broadcast_sse_eq send_all get_peers_def dvalues_def Let_def)

section \<open>What the receiver sees\<close>

lemma default_handlers:
  "br_handlers (bridge_new nid) = [(''MANIFEST_ANNOUNCE'', [Handle_manifest]), (''BLOCK_PROPOSE'', [Handle_block_propose]), (''VOTE'', [Handle_vote]),
     (''SYNC_MANIFEST'', [Handle_sync_manifest]), (''VETO_SIGNAL'', [Handle_veto_signal]), (''INSIGHT_ANNOUNCE'', [Handle_insight]),
     (''DELTA_REQUEST'', [Handle_delta_request]), (''DELTA_RESPONSE'', [Handle_delta_response])]"
  by (simp add: bridge_new_def setup_default_handlers_def register_message_handler_def dset_Cons dget_Cons)

lemma field_Cons: "field ((k', x) # d) k v = (if k' = k then x else field d k v)"
  by (simp add: field_def dget_Cons)

lemma field_Nil [simp]: "field [] k v = v"
  by (simp add: field_def)

lemma route_known:
  assumes "bw_loads w raw = Some (JObj d)" "field d ''type'' (JStr ''UNKNOWN'') = JStr t" "dget (br_handlers b) t = Some [h]"
  shows "route w now raw b = call_handler w now (message_of now d) h (b\<lparr>br_received := br_received b + 1\<rparr>)"
  using assms by (simp add: route_def message_of_def Let_def)

lemma propose_calls:
  assumes "bw_loads w raw = Some (JObj d)" "field d ''type'' (JStr ''UNKNOWN'') = JStr ''BLOCK_PROPOSE''"
    and "dget (br_handlers b) ''BLOCK_PROPOSE'' = Some [Handle_block_propose]" "br_bft b"
  shows "br_calls (route w now raw b) = br_calls b @ ProposeCall (field d ''block_hash'' (JStr [])) #
    sse_calls b ''block_proposed'' [(''block_hash'', field d ''block_hash'' JNull), (''proposer'', field d ''sender_id'' (JStr ''unknown'')),
      (''round'', field d ''round'' JNull)]"
  using assms(4) unfolding route_known [OF assms(1-3)]
  by (simp add: call_handler_def bridge_block_propose_def message_of_def broadcast_sse_eq ask_def sse_calls_def Let_def)

text \<open>
  A block proposal that one bridge broadcasts reaches the consensus engine of another bridge with the empty
  hash, whatever block was proposed: the sender wraps the payload, and the receiver reads the fields beside the
  wrapping.
\<close>

theorem broadcast_proposal_loses_hash:
  assumes "bw_loads w raw = Some (envelope b now ''BLOCK_PROPOSE'' payload)"
    and "dget (br_handlers b2) ''BLOCK_PROPOSE'' = Some [Handle_block_propose]" and "br_bft b2"
  shows "br_calls (route w now2 raw b2) = br_calls b2 @ ProposeCall (JStr []) #
    sse_calls b2 ''block_proposed'' [(''block_hash'', JNull), (''proposer'', JStr (br_node_id b)), (''round'', JNull)]"
  using propose_calls [OF assms(1) [unfolded envelope_def] _ assms(2,3), of now2] by (simp add: field_Cons)

theorem broadcast_proposal_loses_hash_witness:
  "br_calls (route (echo_world\<lparr>bw_loads := \<lambda>s. Some (envelope (bridge_new ''a'') (Fin 0) ''BLOCK_PROPOSE'' [(''block_hash'', JStr ''h'')])\<rparr>) (Fin 0) ''raw''
     ((bridge_new ''b'')\<lparr>br_bft := True\<rparr>)) = [ProposeCall (JStr [])]"
proof -
  let ?w = "echo_world\<lparr>bw_loads := \<lambda>s. Some (envelope (bridge_new ''a'') (Fin 0) ''BLOCK_PROPOSE'' [(''block_hash'', JStr ''h'')])\<rparr>"
  have l: "bw_loads ?w ''raw'' = Some (envelope (bridge_new ''a'') (Fin 0) ''BLOCK_PROPOSE'' [(''block_hash'', JStr ''h'')])" by simp
  have h: "dget (br_handlers ((bridge_new ''b'')\<lparr>br_bft := True\<rparr>)) ''BLOCK_PROPOSE'' = Some [Handle_block_propose]"
    by (simp add: default_handlers dget_Cons)
  have c: "br_calls (bridge_new ''b'') = []" "\<not> br_stitch (bridge_new ''b'')"
    by (simp_all add: bridge_new_def setup_default_handlers_def register_message_handler_def)
  show ?thesis using broadcast_proposal_loses_hash [OF l h, of "Fin 0"] c by (simp add: sse_calls_def)
qed

text \<open>
  A block that arrives as a signed request is stored as pending under its hash, and exactly that hash is
  proposed to the consensus engine.
\<close>

theorem posted_block_is_proposed:
  assumes "field d ''block_hash'' (JStr []) = JStr h" and "sliceable (field d ''proposer'' (JStr []))"
    and "bw_dumps w (propose_message d) = Inr raw" and "bw_loads w raw = Some (propose_message d)"
    and "dget (br_handlers b) ''BLOCK_PROPOSE'' = Some [Handle_block_propose]" and "br_bft b"
  shows "\<exists>p ps1 b1. handle_block w now d (ps, b) = (Inr (), ps1, b1) \<and> dget ps1 h = Some p \<and> pb_hash p = JStr h \<and>
    br_calls b1 = br_calls b @ ProposeCall (JStr h) # sse_calls b ''block_proposed''
      [(''block_hash'', JStr h), (''proposer'', field d ''proposer'' (JStr [])), (''round'', field d ''round'' (JInt 0))]"
proof -
  have "br_calls (route w now raw b) = br_calls b @ ProposeCall (JStr h) # sse_calls b ''block_proposed''
      [(''block_hash'', JStr h), (''proposer'', field d ''proposer'' (JStr [])), (''round'', field d ''round'' (JInt 0))]"
    using propose_calls [OF assms(4) [unfolded propose_message_def] _ assms(5,6), of now] assms(1) by (simp add: field_Cons)
  then show ?thesis using assms(1-3) by (simp add: handle_block_def Let_def)
qed

theorem posted_block_is_proposed_witness:
  "\<exists>p ps1 b1. handle_block (echo_world\<lparr>bw_loads := \<lambda>s. Some (propose_message [(''block_hash'', JStr ''h'')])\<rparr>) (Fin 0) [(''block_hash'', JStr ''h'')]
     ([], (bridge_new ''b'')\<lparr>br_bft := True\<rparr>) = (Inr (), ps1, b1) \<and> dget ps1 ''h'' = Some p \<and> br_calls b1 = [ProposeCall (JStr ''h'')]"
proof -
  let ?d = "[(''block_hash'', JStr ''h'')]" and ?b = "(bridge_new ''b'')\<lparr>br_bft := True\<rparr>"
  let ?w = "echo_world\<lparr>bw_loads := \<lambda>s. Some (propose_message ?d)\<rparr>"
  have w: "bw_dumps ?w (propose_message ?d) = Inr ''raw''" "bw_loads ?w ''raw'' = Some (propose_message ?d)" by (simp_all add: echo_world_def)
  have f: "field ?d ''block_hash'' (JStr []) = JStr ''h''" "sliceable (field ?d ''proposer'' (JStr []))" by (simp_all add: field_Cons)
  have h: "dget (br_handlers ?b) ''BLOCK_PROPOSE'' = Some [Handle_block_propose]" by (simp add: default_handlers dget_Cons)
  have c: "br_calls (bridge_new ''b'') = []" "\<not> br_stitch (bridge_new ''b'')"
    by (simp_all add: bridge_new_def setup_default_handlers_def register_message_handler_def)
  show ?thesis using posted_block_is_proposed [OF f w h, of "Fin 0" "[]"] c by (auto simp: sse_calls_def)
qed

end
