(* ===== verification/Cluster.thy ===== *)
theory Cluster
  imports Bridge
begin

text \<open>
  The cluster orchestrator (\<^verbatim>\<open>kernel/substrate/cluster.py\<close>) over the network bridge: members and their heartbeats,
  the quorum, the monitor, and the election of a leader. An election is two operations, its start and its end after
  the timeout, since messages are handled in between. The local node is the member with the node's own id, which
  the code keeps as one object. Messages of other nodes have the fields and types that this code sends; clocks are
  arguments.
\<close>

section \<open>Members\<close>

datatype cluster_role = LEADER | FOLLOWER | CANDIDATE | OBSERVER

datatype node_state = NODE_HEALTHY | NODE_DEGRADED | NODE_UNREACHABLE | NODE_PARTITIONED

record cluster_node =
  cd_node_id :: string
  cd_address :: string
  cd_port :: int
  cd_role :: cluster_role
  cd_state :: node_state
  cd_public_key :: "string option"
  cd_last_heartbeat :: pyfloat
  cd_joined_at :: pyfloat

definition is_alive :: "pyfloat \<Rightarrow> pyfloat \<Rightarrow> cluster_node \<Rightarrow> bool" where
  "is_alive now timeout n \<longleftrightarrow> fl_lt (fl_sub now (cd_last_heartbeat n)) timeout"

record cluster_config =
  cc_cluster_id :: string
  cc_quorum_size :: nat
  cc_heartbeat_interval :: pyfloat
  cc_node_timeout :: pyfloat

definition cluster_config_default :: "string \<Rightarrow> cluster_config" where
  "cluster_config_default cid = \<lparr>cc_cluster_id = cid, cc_quorum_size = 1, cc_heartbeat_interval = Fin 5, cc_node_timeout = Fin 30\<rparr>"

record cluster =
  cl_node_id :: string
  cl_config :: cluster_config
  cl_nodes :: "(string, cluster_node) dict"
  cl_current_leader :: "string option"
  cl_term :: int
  cl_bridge :: "bridge option"
  cl_running :: bool
  cl_elections :: nat

definition cluster_init :: "string \<Rightarrow> cluster_config \<Rightarrow> string \<Rightarrow> int \<Rightarrow> pyfloat \<Rightarrow> cluster" where
  "cluster_init nid cfg address port now = \<lparr>cl_node_id = nid, cl_config = cfg,
     cl_nodes = [(nid, \<lparr>cd_node_id = nid, cd_address = address, cd_port = port, cd_role = FOLLOWER, cd_state = NODE_HEALTHY,
       cd_public_key = None, cd_last_heartbeat = now, cd_joined_at = now\<rparr>)],
     cl_current_leader = None, cl_term = 0, cl_bridge = None, cl_running = False, cl_elections = 0\<rparr>"

definition connect_network :: "bridge \<Rightarrow> cluster \<Rightarrow> cluster" where
  "connect_network b c = c\<lparr>cl_bridge := Some b\<rparr>"

definition cluster_connect_stitch :: "stitch \<Rightarrow> stitch" where
  "cluster_connect_stitch s =
     register_stitch_handler ''/cluster/vote'' ''handle_vote_request'' (register_stitch_handler ''/cluster/heartbeat'' ''handle_heartbeat''
       (register_stitch_handler ''/cluster/join'' ''handle_join_request'' s))"

definition cluster_start :: "cluster \<Rightarrow> cluster" where
  "cluster_start c = c\<lparr>cl_running := True\<rparr>"

definition cluster_stop :: "cluster \<Rightarrow> cluster" where
  "cluster_stop c = c\<lparr>cl_running := False\<rparr>"

definition on_bridge :: "(bridge \<Rightarrow> bridge) \<Rightarrow> cluster \<Rightarrow> cluster" where
  "on_bridge f c = c\<lparr>cl_bridge := map_option f (cl_bridge c)\<rparr>"

definition set_node :: "string \<Rightarrow> (cluster_node \<Rightarrow> cluster_node) \<Rightarrow> cluster \<Rightarrow> cluster" where
  "set_node nid f c = (case dget (cl_nodes c) nid of None \<Rightarrow> c | Some n \<Rightarrow> c\<lparr>cl_nodes := dset nid (f n) (cl_nodes c)\<rparr>)"

definition update_quorum :: "cluster \<Rightarrow> cluster" where
  "update_quorum c = c\<lparr>cl_config := (cl_config c)\<lparr>cc_quorum_size := length (cl_nodes c) div 2 + 1\<rparr>\<rparr>"

text \<open>
  Asking a seed to join; the id of the seed is the digest of its address and port. A message that cannot be
  written as JSON raises, which the code turns into \<open>False\<close>.
\<close>

definition join_request :: "cluster \<Rightarrow> (string, json) dict" where
  "join_request c =
     (let n = the (dget (cl_nodes c) (cl_node_id c))
      in [(''type'', JStr ''JOIN_REQUEST''), (''node_id'', JStr (cl_node_id c)), (''address'', JStr (cd_address n)), (''port'', JInt (cd_port n)),
          (''public_key'', j_opt (cd_public_key n)), (''cluster_id'', JStr (cc_cluster_id (cl_config c)))])"

definition join_cluster :: "bridge_world \<Rightarrow> (string \<Rightarrow> string) \<Rightarrow> pyfloat \<Rightarrow> string \<Rightarrow> int \<Rightarrow> cluster \<Rightarrow> bool \<times> cluster" where
  "join_cluster w sha256 now address port c =
     (if address = [] \<or> port \<le> 0 \<or> 65535 < port then (False, c)
      else case cl_bridge c of
             None \<Rightarrow> (False, c)
           | Some b \<Rightarrow>
               let seed = sha256 (address @ '':'' @ str_of_int port); b1 = add_peer w now seed address port None b
               in (case send_to_peer w now seed ''CLUSTER_JOIN'' (join_request c) b1 of
                     (Inl e, b2) \<Rightarrow> (False, c\<lparr>cl_bridge := Some b2\<rparr>)
                   | (Inr _, b2) \<Rightarrow> (True, c\<lparr>cl_bridge := Some b2\<rparr>)))"

definition add_node :: "bridge_world \<Rightarrow> pyfloat \<Rightarrow> cluster_node \<Rightarrow> cluster \<Rightarrow> bool \<times> cluster" where
  "add_node w now n c =
     (if dget (cl_nodes c) (cd_node_id n) \<noteq> None
      then (False, set_node (cd_node_id n) (\<lambda>m. m\<lparr>cd_last_heartbeat := now, cd_state := NODE_HEALTHY\<rparr>) c)
      else (True, on_bridge (add_peer w now (cd_node_id n) (cd_address n) (cd_port n) (cd_public_key n))
             (update_quorum (c\<lparr>cl_nodes := dset (cd_node_id n) n (cl_nodes c)\<rparr>))))"

text \<open>Removing the leader schedules an election.\<close>

definition remove_node :: "string \<Rightarrow> cluster \<Rightarrow> bool \<times> bool \<times> cluster" where
  "remove_node nid c =
     (if dget (cl_nodes c) nid = None \<or> nid = cl_node_id c then (False, False, c)
      else
        let c1 = on_bridge (remove_peer nid) (update_quorum (c\<lparr>cl_nodes := ddel nid (cl_nodes c)\<rparr>))
        in if cl_current_leader c1 = Some nid then (True, True, c1\<lparr>cl_current_leader := None\<rparr>) else (True, False, c1))"

definition get_nodes :: "cluster \<Rightarrow> cluster_node list" where
  "get_nodes c = dvalues (cl_nodes c)"

definition get_healthy_nodes :: "pyfloat \<Rightarrow> cluster \<Rightarrow> cluster_node list" where
  "get_healthy_nodes now c = filter (is_alive now (cc_node_timeout (cl_config c))) (dvalues (cl_nodes c))"

definition get_leader :: "cluster \<Rightarrow> cluster_node option" where
  "get_leader c = (case cl_current_leader c of None \<Rightarrow> None | Some l \<Rightarrow> if l = [] then None else dget (cl_nodes c) l)"

definition is_leader :: "cluster \<Rightarrow> bool" where
  "is_leader c \<longleftrightarrow> cl_current_leader c = Some (cl_node_id c)"

definition cluster_has_quorum :: "pyfloat \<Rightarrow> cluster \<Rightarrow> bool" where
  "cluster_has_quorum now c \<longleftrightarrow> cc_quorum_size (cl_config c) \<le> length (get_healthy_nodes now c)"

section \<open>Background tasks\<close>

definition heartbeat_payload :: "pyfloat \<Rightarrow> cluster \<Rightarrow> (string, json) dict" where
  "heartbeat_payload now c = [(''type'', JStr ''HEARTBEAT''), (''node_id'', JStr (cl_node_id c)), (''term'', JInt (cl_term c)),
     (''leader_id'', j_opt (cl_current_leader c)), (''timestamp'', JFloat now)]"

definition send_broadcast :: "bridge_world \<Rightarrow> pyfloat \<Rightarrow> string \<Rightarrow> (string, json) dict \<Rightarrow> cluster \<Rightarrow> bool \<times> cluster" where
  "send_broadcast w now t payload c =
     (case cl_bridge c of
        None \<Rightarrow> (True, c)
      | Some b \<Rightarrow> (case bridge_broadcast w now t payload b of
                     (Inl e, b1) \<Rightarrow> (False, c\<lparr>cl_bridge := Some b1\<rparr>)
                   | (Inr _, b1) \<Rightarrow> (True, c\<lparr>cl_bridge := Some b1\<rparr>)))"

definition heartbeat_round :: "bridge_world \<Rightarrow> pyfloat \<Rightarrow> cluster \<Rightarrow> cluster" where
  "heartbeat_round w now c = (if cl_running c then snd (send_broadcast w now ''CLUSTER_HEARTBEAT'' (heartbeat_payload now c) c) else c)"

definition monitor_node :: "pyfloat \<Rightarrow> cluster_config \<Rightarrow> cluster_node \<Rightarrow> cluster_node" where
  "monitor_node now cfg n =
     (let elapsed = fl_sub now (cd_last_heartbeat n)
      in if fl_lt (cc_node_timeout cfg) elapsed then n\<lparr>cd_state := NODE_UNREACHABLE\<rparr>
         else if fl_lt (fl_mul (cc_heartbeat_interval cfg) (Fin 2)) elapsed \<and> cd_state n = NODE_HEALTHY then n\<lparr>cd_state := NODE_DEGRADED\<rparr>
         else n)"

definition newly_lost :: "pyfloat \<Rightarrow> cluster \<Rightarrow> string list" where
  "newly_lost now c = map fst (filter (\<lambda>(i, n). i \<noteq> cl_node_id c \<and>
     fl_lt (cc_node_timeout (cl_config c)) (fl_sub now (cd_last_heartbeat n)) \<and> cd_state n \<noteq> NODE_UNREACHABLE) (cl_nodes c))"

definition monitor_round :: "pyfloat \<Rightarrow> cluster \<Rightarrow> string list \<times> cluster" where
  "monitor_round now c =
     (if cl_running c then
        (newly_lost now c, c\<lparr>cl_nodes := map (\<lambda>(i, n). (i, if i = cl_node_id c then n else monitor_node now (cl_config c) n)) (cl_nodes c)\<rparr>)
      else ([], c))"

section \<open>Elections\<close>

definition set_role :: "cluster_role \<Rightarrow> cluster \<Rightarrow> cluster" where
  "set_role r c = set_node (cl_node_id c) (\<lambda>n. n\<lparr>cd_role := r\<rparr>) c"

definition local_role :: "cluster \<Rightarrow> cluster_role" where
  "local_role c = (case dget (cl_nodes c) (cl_node_id c) of None \<Rightarrow> FOLLOWER | Some n \<Rightarrow> cd_role n)"

text \<open>A start that cannot broadcast raises and never reaches its end.\<close>

definition start_election :: "bridge_world \<Rightarrow> pyfloat \<Rightarrow> cluster \<Rightarrow> cluster" where
  "start_election w now c =
     (if \<not> cl_running c then c
      else
        let c1 = set_role CANDIDATE (c\<lparr>cl_term := cl_term c + 1\<rparr>)
        in (case send_broadcast w now ''CLUSTER_VOTE''
                  [(''type'', JStr ''VOTE_REQUEST''), (''candidate_id'', JStr (cl_node_id c)), (''term'', JInt (cl_term c1))] c1 of
              (False, c2) \<Rightarrow> c2
            | (True, c2) \<Rightarrow> c2\<lparr>cl_elections := cl_elections c2 + 1\<rparr>))"

definition become_leader :: "bridge_world \<Rightarrow> pyfloat \<Rightarrow> cluster \<Rightarrow> cluster" where
  "become_leader w now c =
     (let c1 = set_role LEADER (c\<lparr>cl_current_leader := Some (cl_node_id c)\<rparr>)
      in snd (send_broadcast w now ''CLUSTER_LEADER'' [(''leader_id'', JStr (cl_node_id c)), (''term'', JInt (cl_term c))] c1))"

definition finish_election :: "bridge_world \<Rightarrow> pyfloat \<Rightarrow> cluster \<Rightarrow> cluster" where
  "finish_election w now c =
     (if cl_elections c = 0 then c
      else
        let c1 = c\<lparr>cl_elections := cl_elections c - 1\<rparr>
        in if local_role c1 = CANDIDATE \<and> cl_current_leader c1 = None then become_leader w now c1 else c1)"

section \<open>Requests of other nodes\<close>

record join_payload =
  jp_node_id :: string
  jp_address :: string
  jp_port :: int
  jp_cluster_id :: string
  jp_public_key :: "string option"

definition handle_join_request :: "bridge_world \<Rightarrow> pyfloat \<Rightarrow> join_payload \<Rightarrow> cluster \<Rightarrow> cluster" where
  "handle_join_request w now p c =
     (if jp_cluster_id p \<noteq> cc_cluster_id (cl_config c) then c
      else snd (add_node w now \<lparr>cd_node_id = jp_node_id p, cd_address = jp_address p, cd_port = jp_port p, cd_role = FOLLOWER,
        cd_state = NODE_HEALTHY, cd_public_key = jp_public_key p, cd_last_heartbeat = now, cd_joined_at = now\<rparr> c))"

definition handle_heartbeat :: "pyfloat \<Rightarrow> string \<Rightarrow> int \<Rightarrow> string option \<Rightarrow> cluster \<Rightarrow> cluster" where
  "handle_heartbeat now nid term_no leader c =
     (let c1 = set_node nid (\<lambda>n. n\<lparr>cd_last_heartbeat := now, cd_state := NODE_HEALTHY\<rparr>) c
      in if cl_term c1 < term_no then
           let c2 = c1\<lparr>cl_term := term_no\<rparr>
           in if leader \<noteq> None \<and> leader \<noteq> Some [] \<and> leader \<noteq> cl_current_leader c2
              then set_role FOLLOWER (c2\<lparr>cl_current_leader := leader\<rparr>) else c2
         else c1)"

definition handle_vote_request :: "bridge_world \<Rightarrow> pyfloat \<Rightarrow> string \<Rightarrow> int \<Rightarrow> cluster \<Rightarrow> cluster" where
  "handle_vote_request w now candidate term_no c =
     (if cl_term c < term_no then
        on_bridge (\<lambda>b. snd (send_to_peer w now candidate ''CLUSTER_VOTE_RESPONSE''
            [(''type'', JStr ''VOTE_RESPONSE''), (''voter_id'', JStr (cl_node_id c)), (''candidate_id'', JStr candidate), (''term'', JInt term_no),
             (''vote_granted'', JBool True)] b)) (c\<lparr>cl_term := term_no\<rparr>)
      else c)"

record cluster_status =
  cu_role :: cluster_role
  cu_term :: int
  cu_leader_id :: "string option"
  cu_is_leader :: bool
  cu_has_quorum :: bool
  cu_quorum_size :: nat
  cu_total_nodes :: nat
  cu_healthy_nodes :: nat

definition cluster_get_status :: "pyfloat \<Rightarrow> cluster \<Rightarrow> cluster_status" where
  "cluster_get_status now c = \<lparr>cu_role = local_role c, cu_term = cl_term c, cu_leader_id = cl_current_leader c, cu_is_leader = is_leader c,
     cu_has_quorum = cluster_has_quorum now c, cu_quorum_size = cc_quorum_size (cl_config c), cu_total_nodes = length (cl_nodes c),
     cu_healthy_nodes = length (get_healthy_nodes now c)\<rparr>"

section \<open>Members, quorum and terms\<close>

datatype cluster_op =
    AddNode pyfloat cluster_node
  | RemoveNode string
  | JoinRequest pyfloat join_payload
  | Heartbeat pyfloat string int "string option"
  | VoteRequest pyfloat string int
  | StartElection pyfloat
  | FinishElection pyfloat
  | MonitorRound pyfloat
  | HeartbeatRound pyfloat
  | StartCluster
  | StopCluster

fun cluster_step :: "bridge_world \<Rightarrow> cluster_op \<Rightarrow> cluster \<Rightarrow> cluster" where
  "cluster_step w (AddNode now n) c = snd (add_node w now n c)"
| "cluster_step w (RemoveNode nid) c = snd (snd (remove_node nid c))"
| "cluster_step w (JoinRequest now p) c = handle_join_request w now p c"
| "cluster_step w (Heartbeat now nid t l) c = handle_heartbeat now nid t l c"
| "cluster_step w (VoteRequest now cand t) c = handle_vote_request w now cand t c"
| "cluster_step w (StartElection now) c = start_election w now c"
| "cluster_step w (FinishElection now) c = finish_election w now c"
| "cluster_step w (MonitorRound now) c = snd (monitor_round now c)"
| "cluster_step w (HeartbeatRound now) c = heartbeat_round w now c"
| "cluster_step w StartCluster c = cluster_start c"
| "cluster_step w StopCluster c = cluster_stop c"

definition cluster_ok :: "cluster \<Rightarrow> bool" where
  "cluster_ok c \<longleftrightarrow> cc_quorum_size (cl_config c) = length (cl_nodes c) div 2 + 1 \<and> dict_ok (cl_nodes c) \<and> dget (cl_nodes c) (cl_node_id c) \<noteq> None"

lemma length_dset_known: "dget d k \<noteq> None \<Longrightarrow> length (dset k v d) = length d"
  by (induction d) (auto simp: dset_Cons dget_Cons split: if_splits)

lemma set_node_frame [simp]:
  "cl_config (set_node i f c) = cl_config c" "cl_node_id (set_node i f c) = cl_node_id c" "cl_term (set_node i f c) = cl_term c"
  "cl_current_leader (set_node i f c) = cl_current_leader c" "cl_bridge (set_node i f c) = cl_bridge c" "cl_running (set_node i f c) = cl_running c"
  "cl_elections (set_node i f c) = cl_elections c"
  by (simp_all add: set_node_def split: option.splits)

lemma set_node_nodes:
  "length (cl_nodes (set_node i f c)) = length (cl_nodes c)" "dict_ok (cl_nodes c) \<Longrightarrow> dict_ok (cl_nodes (set_node i f c))"
  "dget (cl_nodes (set_node i f c)) k = (if k = i then map_option f (dget (cl_nodes c) k) else dget (cl_nodes c) k)"
  by (auto simp: set_node_def length_dset_known split: option.splits)

lemma fst_dset_known: "dget d k \<noteq> None \<Longrightarrow> map fst (dset k v d) = map fst d"
  by (induction d) (auto simp: dset_Cons dget_Cons split: if_splits)

lemma set_node_dict_ok: "dict_ok (cl_nodes (set_node i f c)) = dict_ok (cl_nodes c)"
  by (simp add: dict_ok_def set_node_def fst_dset_known split: option.splits)

lemma set_node_ok [simp]: "cluster_ok (set_node i f c) = cluster_ok c"
  by (simp add: cluster_ok_def set_node_nodes(1,3) set_node_dict_ok)

lemma set_role_frame [simp]:
  "cl_config (set_role r c) = cl_config c" "cl_node_id (set_role r c) = cl_node_id c" "cl_term (set_role r c) = cl_term c"
  "cl_current_leader (set_role r c) = cl_current_leader c" "cl_bridge (set_role r c) = cl_bridge c" "cl_running (set_role r c) = cl_running c"
  "cl_elections (set_role r c) = cl_elections c" "cluster_ok (set_role r c) = cluster_ok c"
  by (simp_all add: set_role_def)

lemma send_broadcast_effect: "\<exists>b. snd (send_broadcast w now t p c) = c\<lparr>cl_bridge := b\<rparr>"
  by (cases "cl_bridge c") (auto simp: send_broadcast_def split: prod.splits sum.splits intro: exI [of _ "cl_bridge c"])

lemma cluster_ok_bridge [simp]:
  "cluster_ok (c\<lparr>cl_bridge := b\<rparr>) = cluster_ok c" "cluster_ok (c\<lparr>cl_term := t\<rparr>) = cluster_ok c" "cluster_ok (c\<lparr>cl_current_leader := l\<rparr>) = cluster_ok c"
  "cluster_ok (c\<lparr>cl_elections := e\<rparr>) = cluster_ok c" "cluster_ok (c\<lparr>cl_running := r\<rparr>) = cluster_ok c"
  by (simp_all add: cluster_ok_def)

lemma sb_frame [simp]:
  "cl_config (snd (send_broadcast w now t p c)) = cl_config c" "cl_node_id (snd (send_broadcast w now t p c)) = cl_node_id c"
  "cl_term (snd (send_broadcast w now t p c)) = cl_term c" "cl_nodes (snd (send_broadcast w now t p c)) = cl_nodes c"
  "cl_current_leader (snd (send_broadcast w now t p c)) = cl_current_leader c" "cl_running (snd (send_broadcast w now t p c)) = cl_running c"
  "cl_elections (snd (send_broadcast w now t p c)) = cl_elections c" "cluster_ok (snd (send_broadcast w now t p c)) = cluster_ok c"
  using send_broadcast_effect [of w now t p c] by auto

lemma dict_ok_map: "dict_ok d \<Longrightarrow> dict_ok (map (\<lambda>(k, v). (k, f k v)) d)"
  by (simp add: dict_ok_def case_prod_unfold comp_def)

lemma add_node_ok: "cluster_ok c \<Longrightarrow> cluster_ok (snd (add_node w now n c))"
  by (auto simp: add_node_def cluster_ok_def on_bridge_def update_quorum_def set_node_nodes) 

lemma remove_node_ok: "cluster_ok c \<Longrightarrow> cluster_ok (snd (snd (remove_node nid c)))"
  by (auto simp: remove_node_def cluster_ok_def on_bridge_def update_quorum_def Let_def)

lemma monitor_round_ok: "cluster_ok c \<Longrightarrow> cluster_ok (snd (monitor_round now c))"
  by (auto simp: monitor_round_def cluster_ok_def dict_ok_map dget_map [of "\<lambda>i n. if i = cl_node_id c then n else monitor_node now (cl_config c) n"])

lemma start_election_frame:
  "cl_node_id (start_election w now c) = cl_node_id c" "cl_config (start_election w now c) = cl_config c"
  "cl_current_leader (start_election w now c) = cl_current_leader c" "cl_running (start_election w now c) = cl_running c"
  "cl_term (start_election w now c) = cl_term c + (if cl_running c then 1 else 0)" "cluster_ok (start_election w now c) = cluster_ok c"
  "cl_nodes (start_election w now c) = (if cl_running c then cl_nodes (set_role CANDIDATE c) else cl_nodes c)"
proof -
  define c1 where "c1 = set_role CANDIDATE (c\<lparr>cl_term := cl_term c + 1\<rparr>)"
  define r where "r = send_broadcast w now ''CLUSTER_VOTE''
    [(''type'', JStr ''VOTE_REQUEST''), (''candidate_id'', JStr (cl_node_id c)), (''term'', JInt (cl_term c1))] c1"
  have e: "start_election w now c = (if \<not> cl_running c then c else if fst r then (snd r)\<lparr>cl_elections := cl_elections (snd r) + 1\<rparr> else snd r)"
    by (cases "fst r"; cases r) (auto simp: start_election_def Let_def c1_def [symmetric] r_def [symmetric])
  have n: "cl_nodes c1 = cl_nodes (set_role CANDIDATE c)" by (simp add: c1_def set_role_def set_node_def split: option.splits)
  show "cl_node_id (start_election w now c) = cl_node_id c" "cl_config (start_election w now c) = cl_config c"
    "cl_current_leader (start_election w now c) = cl_current_leader c" "cl_running (start_election w now c) = cl_running c"
    "cl_term (start_election w now c) = cl_term c + (if cl_running c then 1 else 0)" "cluster_ok (start_election w now c) = cluster_ok c"
    "cl_nodes (start_election w now c) = (if cl_running c then cl_nodes (set_role CANDIDATE c) else cl_nodes c)"
    using n by (simp_all add: e r_def c1_def)
qed

lemma finish_election_frame:
  "cl_node_id (finish_election w now c) = cl_node_id c" "cl_config (finish_election w now c) = cl_config c"
  "cl_term (finish_election w now c) = cl_term c" "cluster_ok (finish_election w now c) = cluster_ok c"
  by (simp_all add: finish_election_def become_leader_def Let_def)

lemma cluster_step_ok: "cluster_ok c \<Longrightarrow> cluster_ok (cluster_step w op c)"
  by (cases op) (auto simp: add_node_ok remove_node_ok monitor_round_ok start_election_frame finish_election_frame handle_join_request_def
      handle_heartbeat_def handle_vote_request_def on_bridge_def heartbeat_round_def cluster_start_def cluster_stop_def Let_def)

interpretation cluster_machine: machine "cluster_step w" cluster_ok for w
  by unfold_locales (rule cluster_step_ok)

lemma cluster_step_term: "cl_term c \<le> cl_term (cluster_step w op c)"
  by (cases op) (auto simp: start_election_frame finish_election_frame handle_join_request_def add_node_def remove_node_def monitor_round_def
      handle_heartbeat_def handle_vote_request_def on_bridge_def heartbeat_round_def cluster_start_def cluster_stop_def update_quorum_def Let_def)

text \<open>
  In every run of a cluster that was started with one member the quorum is the majority of the current members,
  the local node is one of them, and the term never decreases from one operation to the next.
\<close>

theorem quorum_is_majority_of_members:
  assumes "c = fold (cluster_step w) ops (cluster_init nid cfg address port now)" and "cc_quorum_size cfg = 1"
  shows "cc_quorum_size (cl_config c) = length (cl_nodes c) div 2 + 1 \<and> dget (cl_nodes c) (cl_node_id c) \<noteq> None \<and>
    cl_term c \<le> cl_term (cluster_step w op c)"
proof -
  have "cluster_ok (cluster_init nid cfg address port now)" using assms(2) by (simp add: cluster_ok_def cluster_init_def dict_ok_def dget_Cons)
  from cluster_machine.run_inv [OF this, of w ops] show ?thesis using assms(1) cluster_step_term by (auto simp: cluster_ok_def)
qed

theorem quorum_is_majority_of_members_witness:
  "cc_quorum_size (cl_config (fold (cluster_step echo_world) [JoinRequest (Fin 1) \<lparr>jp_node_id = ''m'', jp_address = ''h'', jp_port = 1, jp_cluster_id = ''k'',
     jp_public_key = None\<rparr>] (cluster_init ''n'' (cluster_config_default ''k'') ''h'' 1 (Fin 0)))) = 2"
proof -
  let ?c = "fold (cluster_step echo_world) [JoinRequest (Fin 1) \<lparr>jp_node_id = ''m'', jp_address = ''h'', jp_port = 1, jp_cluster_id = ''k'',
     jp_public_key = None\<rparr>] (cluster_init ''n'' (cluster_config_default ''k'') ''h'' 1 (Fin 0))"
  have "length (cl_nodes ?c) = 2"
    by (simp add: cluster_init_def cluster_config_default_def handle_join_request_def add_node_def on_bridge_def update_quorum_def dget_Cons dset_Cons)
  then show ?thesis
    using quorum_is_majority_of_members [OF refl, of "cluster_config_default ''k''" echo_world
        "[JoinRequest (Fin 1) \<lparr>jp_node_id = ''m'', jp_address = ''h'', jp_port = 1, jp_cluster_id = ''k'', jp_public_key = None\<rparr>]" "''n''" "''h''" 1 "Fin 0"]
    by (simp add: cluster_config_default_def)
qed

section \<open>What an election guarantees\<close>

definition can_send :: "bridge_world \<Rightarrow> bool" where
  "can_send w \<longleftrightarrow> (\<forall>j. \<exists>raw. bw_dumps w j = Inr raw)"

definition leaderless :: "cluster \<Rightarrow> bool" where
  "leaderless c \<longleftrightarrow> cl_running c \<and> cl_current_leader c = None \<and> cl_elections c = 0 \<and> dget (cl_nodes c) (cl_node_id c) \<noteq> None"

lemma send_broadcast_returns: "can_send w \<Longrightarrow> fst (send_broadcast w now t p c)"
proof (cases "cl_bridge c")
  case (Some b)
  assume "can_send w"
  then obtain raw where "bw_dumps w (envelope b now t p) = Inr raw" unfolding can_send_def by blast
  then show ?thesis by (simp add: send_broadcast_def Some bridge_broadcast_def Let_def split: prod.splits)
qed (simp add: send_broadcast_def)

lemma set_role_local: "dget (cl_nodes c) (cl_node_id c) \<noteq> None \<Longrightarrow> local_role (set_role r c) = r"
  by (auto simp: local_role_def set_role_def set_node_nodes(3))

lemma local_role_frame [simp]:
  "local_role (c\<lparr>cl_bridge := b\<rparr>) = local_role c" "local_role (c\<lparr>cl_term := t\<rparr>) = local_role c" "local_role (c\<lparr>cl_current_leader := l\<rparr>) = local_role c"
  "local_role (c\<lparr>cl_elections := e\<rparr>) = local_role c" "local_role (snd (send_broadcast w now k p c)) = local_role c"
  by (simp_all add: local_role_def)

lemma start_election_candidate:
  assumes "can_send w" "leaderless c"
  shows "local_role (start_election w now c) = CANDIDATE" "cl_elections (start_election w now c) = 1"
proof -
  define c1 where "c1 = set_role CANDIDATE (c\<lparr>cl_term := cl_term c + 1\<rparr>)"
  define r where "r = send_broadcast w now ''CLUSTER_VOTE''
    [(''type'', JStr ''VOTE_REQUEST''), (''candidate_id'', JStr (cl_node_id c)), (''term'', JInt (cl_term c1))] c1"
  have f: "fst r" unfolding r_def by (rule send_broadcast_returns [OF assms(1)])
  have e: "start_election w now c = (snd r)\<lparr>cl_elections := cl_elections (snd r) + 1\<rparr>"
    using f assms(2) by (cases r) (auto simp: start_election_def Let_def c1_def [symmetric] r_def [symmetric] leaderless_def)
  have l: "local_role c1 = CANDIDATE" unfolding c1_def by (rule set_role_local) (use assms(2) in \<open>simp add: leaderless_def\<close>)
  show "local_role (start_election w now c) = CANDIDATE" using l by (simp add: e r_def)
  show "cl_elections (start_election w now c) = 1" using assms(2) by (simp add: e r_def c1_def leaderless_def)
qed

lemma vote_request_frame:
  "cl_node_id (handle_vote_request w now cand t c) = cl_node_id c" "cl_current_leader (handle_vote_request w now cand t c) = cl_current_leader c"
  "cl_elections (handle_vote_request w now cand t c) = cl_elections c" "local_role (handle_vote_request w now cand t c) = local_role c"
  "cl_nodes (handle_vote_request w now cand t c) = cl_nodes c" "cl_term (handle_vote_request w now cand t c) = max (cl_term c) t"
  by (simp_all add: handle_vote_request_def on_bridge_def)

lemma finish_election_leads:
  assumes "local_role c = CANDIDATE" "cl_elections c = 1" "cl_current_leader c = None"
  shows "is_leader (finish_election w now c)"
  using assms by (simp add: finish_election_def become_leader_def is_leader_def Let_def)

lemma stale_heartbeat_keeps_leader:
  assumes "t \<le> cl_term c"
  shows "cl_current_leader (handle_heartbeat now nid t l c) = cl_current_leader c" "cl_term (handle_heartbeat now nid t l c) = cl_term c"
    "cl_node_id (handle_heartbeat now nid t l c) = cl_node_id c"
  using assms by (simp_all add: handle_heartbeat_def Let_def)

lemma stale_heartbeats_keep_leader:
  assumes "\<forall>(now, nid, t, l) \<in> set hs. t \<le> cl_term c"
  shows "is_leader (fold (\<lambda>(now, nid, t, l). handle_heartbeat now nid t l) hs c) = is_leader c"
  using assms
proof (induction hs arbitrary: c)
  case (Cons h hs)
  obtain now nid t l where h: "h = (now, nid, t, l)" by (cases h)
  have "t \<le> cl_term c" using Cons.prems by (simp add: h)
  note k = stale_heartbeat_keeps_leader [OF this]
  show ?case using Cons.IH [of "handle_heartbeat now nid t l c"] Cons.prems by (simp add: h k is_leader_def)
qed simp

text \<open>One candidacy: the start, the vote request of the rival, and the end.\<close>

definition candidacy :: "bridge_world \<Rightarrow> pyfloat \<Rightarrow> pyfloat \<Rightarrow> pyfloat \<Rightarrow> string \<Rightarrow> int \<Rightarrow> cluster \<Rightarrow> cluster" where
  "candidacy w t1 t2 t3 rival term_no c = finish_election w t3 (handle_vote_request w t2 rival term_no (start_election w t1 c))"

lemma candidacy_wins:
  assumes "can_send w" "leaderless c" "term_no \<le> cl_term c + 1"
  shows "is_leader (candidacy w t1 t2 t3 rival term_no c)" "cl_term (candidacy w t1 t2 t3 rival term_no c) = cl_term c + 1"
  using assms finish_election_leads start_election_candidate [OF assms(1,2)]
  by (auto simp: candidacy_def vote_request_frame start_election_frame finish_election_frame leaderless_def)

text \<open>
  Elections do not keep to one leader: two nodes of the same term without a leader that both stand, each
  receiving the vote request of the other, both become leader of the same term, and no heartbeat of that or of an
  earlier term, in particular none of the rival, makes either step down.
\<close>

theorem rival_candidates_both_lead:
  assumes "can_send w" and "leaderless a" and "leaderless b" and "cl_term a = cl_term b"
    and "a' = candidacy w t1 t2 t3 (cl_node_id b) (cl_term b + 1) a" and "b' = candidacy w u1 u2 u3 (cl_node_id a) (cl_term a + 1) b"
    and "\<forall>(now, nid, t, l) \<in> set hs \<union> set ks. t \<le> cl_term a + 1"
  shows "is_leader (fold (\<lambda>(now, nid, t, l). handle_heartbeat now nid t l) hs a') \<and>
    is_leader (fold (\<lambda>(now, nid, t, l). handle_heartbeat now nid t l) ks b') \<and> cl_term a' = cl_term b'"
proof -
  note ca = candidacy_wins [OF assms(1,2), of "cl_term b + 1" t1 t2 t3 "cl_node_id b"]
  note cb = candidacy_wins [OF assms(1,3), of "cl_term a + 1" u1 u2 u3 "cl_node_id a"]
  have t: "cl_term a' = cl_term a + 1" "cl_term b' = cl_term a + 1" using ca cb assms(4-6) by simp_all
  have "is_leader a'" "is_leader b'" using ca cb assms(4-6) by simp_all
  moreover have "\<forall>(now, nid, t, l) \<in> set hs. t \<le> cl_term a'" "\<forall>(now, nid, t, l) \<in> set ks. t \<le> cl_term b'" using assms(7) t by auto
  ultimately show ?thesis using stale_heartbeats_keep_leader [of hs a'] stale_heartbeats_keep_leader [of ks b'] t by simp
qed

definition idle_node :: "string \<Rightarrow> cluster" where
  "idle_node nid = cluster_start (cluster_init nid (cluster_config_default ''k'') ''h'' 1 (Fin 0))"

theorem rival_candidates_both_lead_witness:
  "is_leader (handle_heartbeat (Fin 9) ''b'' 1 (Some ''b'') (candidacy echo_world (Fin 1) (Fin 2) (Fin 3) ''b'' 1 (idle_node ''a''))) \<and>
   is_leader (handle_heartbeat (Fin 9) ''a'' 1 (Some ''a'') (candidacy echo_world (Fin 1) (Fin 2) (Fin 3) ''a'' 1 (idle_node ''b'')))"
proof -
  have "can_send echo_world" by (simp add: can_send_def echo_world_def)
  moreover have "leaderless (idle_node nid)" "cl_term (idle_node nid) = 0" "cl_node_id (idle_node nid) = nid" for nid
    by (simp_all add: leaderless_def idle_node_def cluster_start_def cluster_init_def dget_Cons)
  ultimately show ?thesis
    using rival_candidates_both_lead [OF _ _ _ _ refl refl, of echo_world "idle_node ''a''" "idle_node ''b''" "[(Fin 9, ''b'', 1, Some ''b'')]"
        "[(Fin 9, ''a'', 1, Some ''a'')]" "Fin 1" "Fin 2" "Fin 3" "Fin 1" "Fin 2" "Fin 3"] by simp
qed

section \<open>Heartbeats\<close>

text \<open>What the node does by itself: its background rounds and its elections.\<close>

fun own_op :: "cluster_op \<Rightarrow> bool" where
  "own_op (StartElection now) = True"
| "own_op (FinishElection now) = True"
| "own_op (MonitorRound now) = True"
| "own_op (HeartbeatRound now) = True"
| "own_op StartCluster = True"
| "own_op StopCluster = True"
| "own_op op = False"

definition alone_since :: "string \<Rightarrow> cluster_config \<Rightarrow> pyfloat \<Rightarrow> cluster \<Rightarrow> bool" where
  "alone_since nid cfg t c \<longleftrightarrow> cl_node_id c = nid \<and> cl_config c = cfg \<and> (\<exists>n. cl_nodes c = [(nid, n)] \<and> cd_last_heartbeat n = t)"

lemma alone_set_role [simp]: "alone_since nid cfg t c \<Longrightarrow> alone_since nid cfg t (set_role r c)"
  by (auto simp: alone_since_def set_role_def set_node_def dget_Cons dset_Cons)

lemma alone_frame [simp]:
  "alone_since nid cfg t (c\<lparr>cl_bridge := b\<rparr>) = alone_since nid cfg t c" "alone_since nid cfg t (c\<lparr>cl_term := k\<rparr>) = alone_since nid cfg t c"
  "alone_since nid cfg t (c\<lparr>cl_current_leader := l\<rparr>) = alone_since nid cfg t c" "alone_since nid cfg t (c\<lparr>cl_elections := e\<rparr>) = alone_since nid cfg t c"
  "alone_since nid cfg t (c\<lparr>cl_running := r\<rparr>) = alone_since nid cfg t c"
  "alone_since nid cfg t (snd (send_broadcast w now k' p c)) = alone_since nid cfg t c"
  by (simp_all add: alone_since_def)

lemma alone_step: "alone_since nid cfg t c \<and> own_op op \<Longrightarrow> alone_since nid cfg t (cluster_step w op c)"
proof (cases op)
  case (StartElection now)
  assume "alone_since nid cfg t c \<and> own_op op"
  then have "alone_since nid cfg t (set_role CANDIDATE c)" "alone_since nid cfg t c" by simp_all
  then show ?thesis by (simp add: StartElection alone_since_def start_election_frame)
next
  case (FinishElection now)
  assume "alone_since nid cfg t c \<and> own_op op"
  then show ?thesis by (simp add: FinishElection finish_election_def become_leader_def Let_def)
next
  case (MonitorRound now)
  assume "alone_since nid cfg t c \<and> own_op op"
  then show ?thesis by (auto simp: MonitorRound monitor_round_def alone_since_def)
qed (auto simp: heartbeat_round_def cluster_start_def cluster_stop_def)

lemma alone_run: "alone_since nid cfg t c \<Longrightarrow> list_all own_op ops \<Longrightarrow> alone_since nid cfg t (fold (cluster_step w) ops c)"
  by (induction ops arbitrary: c) (simp_all add: alone_step)

text \<open>
  A single node never refreshes its own heartbeat: whatever rounds and elections it runs, it has a quorum
  exactly while less than the node timeout has passed since it was created, as leader too.
\<close>

theorem lone_node_quorum_expires:
  assumes "c = fold (cluster_step w) ops (cluster_init nid cfg address port t0)" and "list_all own_op ops" and "cc_quorum_size cfg = 1"
  shows "cluster_has_quorum now c \<longleftrightarrow> fl_lt (fl_sub now t0) (cc_node_timeout cfg)"
proof -
  have "alone_since nid cfg t0 (cluster_init nid cfg address port t0)" by (simp add: alone_since_def cluster_init_def)
  from alone_run [OF this assms(2), of w] obtain n where n: "cl_config c = cfg" "cl_nodes c = [(nid, n)]" "cd_last_heartbeat n = t0"
    using assms(1) by (auto simp: alone_since_def)
  then have "get_healthy_nodes now c = (if fl_lt (fl_sub now t0) (cc_node_timeout cfg) then [n] else [])"
    by (simp add: get_healthy_nodes_def dvalues_def is_alive_def)
  then show ?thesis using n(1) assms(3) by (simp add: cluster_has_quorum_def)
qed

theorem lone_node_quorum_expires_witness:
  "is_leader (fold (cluster_step echo_world) [StartCluster, StartElection (Fin 1), FinishElection (Fin 11), HeartbeatRound (Fin 29)]
     (cluster_init ''n'' (cluster_config_default ''k'') ''h'' 1 (Fin 0))) \<and>
   \<not> cluster_has_quorum (Fin 30) (fold (cluster_step echo_world) [StartCluster, StartElection (Fin 1), FinishElection (Fin 11), HeartbeatRound (Fin 29)]
     (cluster_init ''n'' (cluster_config_default ''k'') ''h'' 1 (Fin 0)))"
proof
  have "leaderless (idle_node ''n'')" by (simp add: leaderless_def idle_node_def cluster_start_def cluster_init_def dget_Cons)
  moreover have "can_send echo_world" by (simp add: can_send_def echo_world_def)
  ultimately have "is_leader (finish_election echo_world (Fin 11) (start_election echo_world (Fin 1) (idle_node ''n'')))"
    by (intro finish_election_leads) (simp_all add: start_election_candidate start_election_frame leaderless_def)
  then show "is_leader (fold (cluster_step echo_world) [StartCluster, StartElection (Fin 1), FinishElection (Fin 11), HeartbeatRound (Fin 29)]
     (cluster_init ''n'' (cluster_config_default ''k'') ''h'' 1 (Fin 0)))" by (simp add: idle_node_def is_leader_def heartbeat_round_def)
  have e: "fl_sub (Fin 30) (Fin 0) = Fin 30" by code_simp
  show "\<not> cluster_has_quorum (Fin 30) (fold (cluster_step echo_world) [StartCluster, StartElection (Fin 1), FinishElection (Fin 11), HeartbeatRound (Fin 29)]
     (cluster_init ''n'' (cluster_config_default ''k'') ''h'' 1 (Fin 0)))"
    by (subst lone_node_quorum_expires [OF refl]) (simp_all add: cluster_config_default_def e)
qed

section \<open>Over the bridge\<close>

text \<open>The default handlers of the bridge know none of the messages that the cluster sends, so a bridge only counts them.\<close>

lemma no_cluster_handlers:
  "dget (br_handlers (bridge_new nid)) ''CLUSTER_JOIN'' = None" "dget (br_handlers (bridge_new nid)) ''CLUSTER_HEARTBEAT'' = None"
  "dget (br_handlers (bridge_new nid)) ''CLUSTER_VOTE'' = None" "dget (br_handlers (bridge_new nid)) ''CLUSTER_VOTE_RESPONSE'' = None"
  "dget (br_handlers (bridge_new nid)) ''CLUSTER_LEADER'' = None"
  by (simp_all add: default_handlers dget_Cons)

lemma route_unknown:
  assumes "bw_loads w raw = Some (envelope b now t payload)" "dget (br_handlers b2) t = None"
  shows "route w now2 raw b2 = b2\<lparr>br_received := br_received b2 + 1, br_unknown_types := br_unknown_types b2 + 1\<rparr>"
  using assms by (simp add: route_def message_of_def envelope_def field_Cons Let_def)

text \<open>
  The messages that the orchestrator sends through its bridge, the announcement of a new leader among them, are
  not handled on the other side: a bridge with its default handlers counts them as of an unknown type and changes
  nothing else.
\<close>

theorem bridge_drops_cluster_messages:
  assumes "t \<in> {''CLUSTER_JOIN'', ''CLUSTER_HEARTBEAT'', ''CLUSTER_VOTE'', ''CLUSTER_VOTE_RESPONSE'', ''CLUSTER_LEADER''}"
    and "bw_loads w raw = Some (envelope b now t payload)" and "br_handlers b2 = br_handlers (bridge_new nid)"
  shows "route w now2 raw b2 = b2\<lparr>br_received := br_received b2 + 1, br_unknown_types := br_unknown_types b2 + 1\<rparr>"
proof -
  have "dget (br_handlers b2) t = None" using assms(1) unfolding assms(3) by (elim insertE emptyE) (simp_all only: no_cluster_handlers)
  from route_unknown [OF assms(2) this] show ?thesis .
qed

theorem bridge_drops_cluster_messages_witness:
  "br_unknown_types (route (echo_world\<lparr>bw_loads := \<lambda>s. Some (envelope (bridge_new ''a'') (Fin 0) ''CLUSTER_LEADER'' [])\<rparr>) (Fin 0) ''raw''
     (bridge_new ''b'')) = 1"
proof -
  let ?w = "echo_world\<lparr>bw_loads := \<lambda>s. Some (envelope (bridge_new ''a'') (Fin 0) ''CLUSTER_LEADER'' [])\<rparr>"
  have l: "bw_loads ?w ''raw'' = Some (envelope (bridge_new ''a'') (Fin 0) ''CLUSTER_LEADER'' [])" by simp
  have z: "br_unknown_types (bridge_new ''b'') = 0" by (simp add: bridge_new_def setup_default_handlers_def register_message_handler_def)
  show ?thesis by (subst bridge_drops_cluster_messages [OF _ l refl]) (simp_all add: z)
qed

end
