(* ===== verification/Documentation.thy ===== *)
theory Documentation
  imports Gdpr Soc2 Eu_Ai_Act Release
begin

text \<open>
  The compliance documentation (\<^verbatim>\<open>compliance/documentation.py\<close>): the registry of documents, the evidence, the audit
  trail, the reports over the four frameworks, which ask the managers of those frameworks, and the packages. Contents
  are bytes; fresh identifiers, clocks, digests and the outcome of writing a file are arguments. Fields that no
  operation reads or changes are left out.
\<close>

section \<open>Documents\<close>

datatype framework = FW_GDPR | FW_SOC2 | FW_HIPAA | FW_EU_AI_ACT

fun fw_value :: "framework \<Rightarrow> string" where
  "fw_value FW_GDPR = ''gdpr''"
| "fw_value FW_SOC2 = ''soc2''"
| "fw_value FW_HIPAA = ''hipaa''"
| "fw_value FW_EU_AI_ACT = ''eu_ai_act''"

fun fw_title :: "framework \<Rightarrow> string" where
  "fw_title FW_GDPR = ''GDPR''"
| "fw_title FW_SOC2 = ''SOC2''"
| "fw_title FW_HIPAA = ''HIPAA''"
| "fw_title FW_EU_AI_ACT = ''EU_AI_ACT''"

definition all_frameworks :: "framework list" where
  "all_frameworks = [FW_GDPR, FW_SOC2, FW_HIPAA, FW_EU_AI_ACT]"

datatype document_type =
    POLICY | PROCEDURE | EVIDENCE | AUDIT_REPORT | RISK_ASSESSMENT | TRAINING_RECORD | INCIDENT_REPORT | COMPLIANCE_MATRIX

datatype report_state = AUDIT_NOT_STARTED | AUDIT_IN_PROGRESS | AUDIT_PENDING_REVIEW | AUDIT_COMPLETED | AUDIT_FAILED

record compliance_document =
  cm_doc_id :: string
  cm_title :: string
  cm_document_type :: document_type
  cm_framework :: framework
  cm_version :: string
  cm_created_date :: datetime
  cm_last_updated :: datetime
  cm_author :: string
  cm_approver :: string
  cm_content_hash :: string
  cm_file_path :: string
  cm_tags :: "string list"

type_synonym doc_registry = "(string, compliance_document) dict"

definition content_hash :: "(string \<Rightarrow> string) \<Rightarrow> string \<Rightarrow> string" where
  "content_hash sha256 content = (if content = [] then [] else sha256 content)"

definition register_document ::
    "(string \<Rightarrow> string) \<Rightarrow> string \<Rightarrow> datetime \<Rightarrow> string \<Rightarrow> document_type \<Rightarrow> framework \<Rightarrow> string \<Rightarrow> string \<Rightarrow> string \<Rightarrow> string list \<Rightarrow>
     doc_registry \<Rightarrow> compliance_document \<times> doc_registry" where
  "register_document sha256 uid now title ty fw author content file_path tags d =
     (let doc = \<lparr>cm_doc_id = uid, cm_title = title, cm_document_type = ty, cm_framework = fw, cm_version = ''1.0.0'', cm_created_date = now,
        cm_last_updated = now, cm_author = author, cm_approver = [], cm_content_hash = content_hash sha256 content, cm_file_path = file_path,
        cm_tags = tags\<rparr>
      in (doc, dset uid doc d))"

text \<open>The next version; a version that is not three numbers raises.\<close>

definition next_patch :: "string \<Rightarrow> string result" where
  "next_patch v =
     (case map py_int (split_on (CHR ''.'') v) of
        [Some major, Some minor, Some patch] \<Rightarrow> Inr (str_of_int major @ ''.'' @ str_of_int minor @ ''.'' @ str_of_int (patch + 1))
      | _ \<Rightarrow> Inl ValueError)"

definition update_document :: "(string \<Rightarrow> string) \<Rightarrow> datetime \<Rightarrow> string \<Rightarrow> string \<Rightarrow> string \<Rightarrow> doc_registry \<Rightarrow> bool result \<times> doc_registry" where
  "update_document sha256 now doc_id content approver d =
     (case dget d doc_id of
        None \<Rightarrow> (Inr False, d)
      | Some doc \<Rightarrow>
          (case next_patch (cm_version doc) of
             Inl e \<Rightarrow> (Inl e, d)
           | Inr v \<Rightarrow>
               let d1 = doc\<lparr>cm_version := v, cm_last_updated := now\<rparr>;
                   d2 = (if approver = [] then d1 else d1\<lparr>cm_approver := approver\<rparr>);
                   d3 = (if content = [] then d2 else d2\<lparr>cm_content_hash := sha256 content\<rparr>)
               in (Inr True, dset doc_id d3 d)))"

definition get_by_framework :: "framework \<Rightarrow> doc_registry \<Rightarrow> compliance_document list" where
  "get_by_framework fw d = filter (\<lambda>x. cm_framework x = fw) (dvalues d)"

definition doc_get_by_type :: "document_type \<Rightarrow> doc_registry \<Rightarrow> compliance_document list" where
  "doc_get_by_type ty d = filter (\<lambda>x. cm_document_type x = ty) (dvalues d)"

definition search_by_tags :: "string list \<Rightarrow> doc_registry \<Rightarrow> compliance_document list" where
  "search_by_tags tags d = filter (\<lambda>x. list_ex (\<lambda>t. t \<in> set (cm_tags x)) tags) (dvalues d)"

section \<open>Evidence\<close>

record evidence_item =
  ev_evidence_id :: string
  ev_title :: string
  ev_description :: string
  ev_framework :: framework
  ev_control_id :: string
  ev_collected_date :: datetime
  ev_collector :: string
  ev_evidence_type :: string
  ev_file_path :: string
  ev_content_hash :: string

type_synonym evidence_dict = "(string, evidence_item) dict"

definition collect_evidence ::
    "(string \<Rightarrow> string) \<Rightarrow> string \<Rightarrow> datetime \<Rightarrow> string \<Rightarrow> string \<Rightarrow> framework \<Rightarrow> string \<Rightarrow> string \<Rightarrow> string \<Rightarrow> string \<Rightarrow> string \<Rightarrow>
     evidence_dict \<Rightarrow> evidence_item \<times> evidence_dict" where
  "collect_evidence sha256 uid now title description fw control_id collector ty content file_path d =
     (let e = \<lparr>ev_evidence_id = uid, ev_title = title, ev_description = description, ev_framework = fw, ev_control_id = control_id,
        ev_collected_date = now, ev_collector = collector, ev_evidence_type = ty, ev_file_path = file_path,
        ev_content_hash = content_hash sha256 content\<rparr>
      in (e, dset uid e d))"

definition get_evidence_for_control :: "string \<Rightarrow> evidence_dict \<Rightarrow> evidence_item list" where
  "get_evidence_for_control cid d = filter (\<lambda>e. ev_control_id e = cid) (dvalues d)"

definition get_evidence_by_framework :: "framework \<Rightarrow> evidence_dict \<Rightarrow> evidence_item list" where
  "get_evidence_by_framework fw d = filter (\<lambda>e. ev_framework e = fw) (dvalues d)"

definition count_up :: "'k \<Rightarrow> ('k, nat) dict \<Rightarrow> ('k, nat) dict" where
  "count_up k d = dset k ((case dget d k of None \<Rightarrow> 0 | Some n \<Rightarrow> n) + 1) d"

record evidence_summary =
  es_total_items :: nat
  es_by_framework :: "(string, nat) dict"
  es_by_type :: "(string, nat) dict"

definition get_evidence_summary :: "evidence_dict \<Rightarrow> evidence_summary" where
  "get_evidence_summary d = \<lparr>es_total_items = length d, es_by_framework = fold count_up (map (fw_value \<circ> ev_framework) (dvalues d)) [],
     es_by_type = fold count_up (map ev_evidence_type (dvalues d)) []\<rparr>"

section \<open>The audit trail\<close>

record trail_entry =
  te_entry_id :: string
  te_timestamp :: datetime
  te_action :: string
  te_actor :: string
  te_resource_type :: string
  te_resource_id :: string
  te_details :: "(string, json) dict"
  te_ip_address :: string
  te_framework :: "framework option"

definition log_action ::
    "string \<Rightarrow> datetime \<Rightarrow> string \<Rightarrow> string \<Rightarrow> string \<Rightarrow> string \<Rightarrow> (string, json) dict \<Rightarrow> string \<Rightarrow> framework option \<Rightarrow>
     trail_entry list \<Rightarrow> trail_entry \<times> trail_entry list" where
  "log_action uid now action actor ty rid details ip fw es =
     (let e = \<lparr>te_entry_id = uid, te_timestamp = now, te_action = action, te_actor = actor, te_resource_type = ty, te_resource_id = rid,
        te_details = details, te_ip_address = ip, te_framework = fw\<rparr>
      in (e, es @ [e]))"

definition get_entries_for_resource :: "string \<Rightarrow> string \<Rightarrow> trail_entry list \<Rightarrow> trail_entry list" where
  "get_entries_for_resource ty rid = filter (\<lambda>e. te_resource_type e = ty \<and> te_resource_id e = rid)"

definition get_entries_by_actor :: "string \<Rightarrow> trail_entry list \<Rightarrow> trail_entry list" where
  "get_entries_by_actor actor = filter (\<lambda>e. te_actor e = actor)"

definition get_entries_in_period :: "datetime \<Rightarrow> datetime \<Rightarrow> trail_entry list \<Rightarrow> trail_entry list" where
  "get_entries_in_period start_at end_at = filter (\<lambda>e. start_at \<le> te_timestamp e \<and> te_timestamp e \<le> end_at)"

definition export_entry :: "(datetime \<Rightarrow> string) \<Rightarrow> trail_entry \<Rightarrow> (string, json) dict" where
  "export_entry isoformat e = [(''entry_id'', JStr (te_entry_id e)), (''timestamp'', JStr (isoformat (te_timestamp e))), (''action'', JStr (te_action e)),
     (''actor'', JStr (te_actor e)), (''resource_type'', JStr (te_resource_type e)), (''resource_id'', JStr (te_resource_id e)),
     (''details'', JObj (te_details e)), (''ip_address'', JStr (te_ip_address e)), (''framework'', j_opt (map_option fw_value (te_framework e)))]"

definition export_audit_log ::
    "(datetime \<Rightarrow> string) \<Rightarrow> datetime option \<Rightarrow> datetime option \<Rightarrow> trail_entry list \<Rightarrow> (string, json) dict list" where
  "export_audit_log isoformat start_at end_at es =
     (let e1 = (case start_at of None \<Rightarrow> es | Some s \<Rightarrow> filter (\<lambda>e. s \<le> te_timestamp e) es);
          e2 = (case end_at of None \<Rightarrow> e1 | Some t \<Rightarrow> filter (\<lambda>e. te_timestamp e \<le> t) e1)
      in map (export_entry isoformat) e2)"

section \<open>Reports\<close>

text \<open>The managers of the frameworks, if given, and the clocks they read.\<close>

record report_generator =
  rg_gdpr :: "gdpr option"
  rg_soc2 :: "soc2 option"
  rg_hipaa :: "hipaa option"
  rg_eu_ai_act :: "ai_act option"

record report_world =
  rw_gdpr_clock :: "string \<Rightarrow> pyfloat"
  rw_gdpr_days :: "string \<Rightarrow> pyfloat \<times> pyfloat"
  rw_now :: datetime
  rw_time :: pyfloat
  rw_mean :: "pyfloat list \<Rightarrow> pyfloat"
  rw_date :: string

record doc_report =
  dp_report_id :: string
  dp_title :: string
  dp_period_start :: "datetime option"
  dp_period_end :: datetime
  dp_frameworks :: "framework list"
  dp_overall_score :: pyfloat
  dp_status :: report_state
  dp_framework_scores :: "(string, pyfloat) dict"
  dp_executive_summary :: string

text \<open>
  Score and state of one framework. The data of the protection manager has no entry \<open>is_compliant\<close> and the report of
  the service organisation manager no entry \<open>overall_score\<close>, so that the defaults of the lookups apply.
\<close>

definition framework_outcome :: "report_world \<Rightarrow> report_generator \<Rightarrow> framework \<Rightarrow> (pyfloat \<times> report_state) result" where
  "framework_outcome w g fw =
     (case fw of
        FW_GDPR \<Rightarrow> (case rg_gdpr g of None \<Rightarrow> Inr (Fin 0, AUDIT_NOT_STARTED)
          | Some m \<Rightarrow> bindE (get_compliance_status (rw_gdpr_clock w) (rw_gdpr_days w) m) (\<lambda>data. Inr (co_compliance_score data, AUDIT_IN_PROGRESS)))
      | FW_SOC2 \<Rightarrow> (case rg_soc2 g of None \<Rightarrow> Inr (Fin 0, AUDIT_NOT_STARTED)
          | Some m \<Rightarrow> let data = soc2_compliance_report (rw_mean w) (rw_time w) m in Inr (Fin 0, AUDIT_NOT_STARTED))
      | FW_HIPAA \<Rightarrow> (case rg_hipaa g of None \<Rightarrow> Inr (Fin 0, AUDIT_NOT_STARTED)
          | Some m \<Rightarrow> bindE (get_compliance_report (rw_now w) m) (\<lambda>data.
              Inr (cr_overall_score data, if cr_status data = Compliant then AUDIT_COMPLETED else AUDIT_IN_PROGRESS)))
      | FW_EU_AI_ACT \<Rightarrow> (case rg_eu_ai_act g of None \<Rightarrow> Inr (Fin 0, AUDIT_NOT_STARTED) | Some m \<Rightarrow> Inr (Fin 0, AUDIT_IN_PROGRESS)))"

definition generate_framework_report ::
    "report_world \<Rightarrow> report_generator \<Rightarrow> string \<Rightarrow> datetime option \<Rightarrow> datetime option \<Rightarrow> framework \<Rightarrow> doc_report result" where
  "generate_framework_report w g uid start_at end_at fw =
     bindE (framework_outcome w g fw) (\<lambda>(score, st).
       Inr \<lparr>dp_report_id = uid, dp_title = fw_title fw @ '' Compliance Report'', dp_period_start = start_at,
            dp_period_end = (case end_at of None \<Rightarrow> rw_now w | Some t \<Rightarrow> t), dp_frameworks = [fw], dp_overall_score = score, dp_status = st,
            dp_framework_scores = [(fw_value fw, score)], dp_executive_summary = []\<rparr>)"

text \<open>The loop over the frameworks: the scores, their sum and their number.\<close>

fun collect_scores ::
    "(framework \<Rightarrow> pyfloat result) \<Rightarrow> framework list \<Rightarrow> (string, pyfloat) dict \<times> pyfloat \<times> nat \<Rightarrow> ((string, pyfloat) dict \<times> pyfloat \<times> nat) result" where
  "collect_scores f [] acc = Inr acc"
| "collect_scores f (fw # fws) (scores, summed, n) =
     bindE (f fw) (\<lambda>s.
       if fl_lt (Fin 0) s then collect_scores f fws (dset (fw_value fw) s scores, fl_add summed s, n + 1)
       else collect_scores f fws (scores, summed, n))"

definition state_of_score :: "pyfloat \<Rightarrow> report_state" where
  "state_of_score s = (if fl_le (Fin 90) s then AUDIT_COMPLETED else if fl_le (Fin 60) s then AUDIT_IN_PROGRESS else AUDIT_PENDING_REVIEW)"

fun state_title :: "report_state \<Rightarrow> string" where
  "state_title AUDIT_NOT_STARTED = ''Not Started''"
| "state_title AUDIT_IN_PROGRESS = ''In Progress''"
| "state_title AUDIT_PENDING_REVIEW = ''Pending Review''"
| "state_title AUDIT_COMPLETED = ''Completed''"
| "state_title AUDIT_FAILED = ''Failed''"

definition executive_summary :: "string \<Rightarrow> framework list \<Rightarrow> pyfloat \<Rightarrow> report_state \<Rightarrow> string" where
  "executive_summary date fws score st =
     ''This report covers compliance assessment for: '' @ join_with '', '' (map fw_title fws) @ ''. Overall compliance score: '' @
     fmt_fixed 1 score @ ''%. Status: '' @ state_title st @ ''. Report generated on '' @ date @ ''.''"

definition mean_score :: "pyfloat \<Rightarrow> nat \<Rightarrow> pyfloat result" where
  "mean_score summed n = (if 0 < n then fl_div summed (Fin (of_nat n)) else Inr (Fin 0))"

definition generate_unified_report ::
    "report_world \<Rightarrow> report_generator \<Rightarrow> string \<Rightarrow> framework list option \<Rightarrow> datetime option \<Rightarrow> datetime option \<Rightarrow> doc_report result" where
  "generate_unified_report w g uid frameworks start_at end_at =
     (let fws = (case frameworks of None \<Rightarrow> all_frameworks | Some x \<Rightarrow> x)
      in bindE (collect_scores (\<lambda>fw. bindE (generate_framework_report w g uid start_at end_at fw) (\<lambda>r. Inr (dp_overall_score r))) fws ([], Fin 0, 0))
           (\<lambda>(scores, summed, n). bindE (mean_score summed n) (\<lambda>score.
              Inr \<lparr>dp_report_id = uid, dp_title = ''Unified Compliance Report'', dp_period_start = start_at,
                   dp_period_end = (case end_at of None \<Rightarrow> rw_now w | Some t \<Rightarrow> t), dp_frameworks = fws, dp_overall_score = score,
                   dp_status = state_of_score score, dp_framework_scores = scores,
                   dp_executive_summary = executive_summary (rw_date w) fws score (state_of_score score)\<rparr>)))"

section \<open>Packages\<close>

record doc_line =
  dl_doc_id :: string
  dl_title :: string
  dl_type :: document_type
  dl_framework :: string
  dl_version :: string
  dl_content_hash :: string

definition doc_line_of :: "compliance_document \<Rightarrow> doc_line" where
  "doc_line_of d = \<lparr>dl_doc_id = cm_doc_id d, dl_title = cm_title d, dl_type = cm_document_type d, dl_framework = fw_value (cm_framework d),
     dl_version = cm_version d, dl_content_hash = cm_content_hash d\<rparr>"

record evidence_line =
  el_evidence_id :: string
  el_title :: string
  el_framework :: string
  el_control_id :: string
  el_content_hash :: string

definition evidence_line_of :: "evidence_item \<Rightarrow> evidence_line" where
  "evidence_line_of e = \<lparr>el_evidence_id = ev_evidence_id e, el_title = ev_title e, el_framework = fw_value (ev_framework e),
     el_control_id = ev_control_id e, el_content_hash = ev_content_hash e\<rparr>"

record package_manifest =
  pm_package_id :: string
  pm_created_date :: string
  pm_frameworks :: "string list"
  pm_documents :: "doc_line list"
  pm_evidence :: "evidence_line list"
  pm_audit_entries_count :: nat
  pm_report :: "string \<times> pyfloat \<times> report_state \<times> (string, pyfloat) dict"

record doc_manager_state =
  dm_organization_name :: string
  dm_documents :: doc_registry
  dm_evidence :: evidence_dict
  dm_entries :: "trail_entry list"
  dm_generator :: report_generator
  dm_initialized :: bool

definition create_package_manifest ::
    "report_world \<Rightarrow> string \<Rightarrow> string \<Rightarrow> string \<Rightarrow> framework list \<Rightarrow> bool \<Rightarrow> bool \<Rightarrow> doc_manager_state \<Rightarrow> package_manifest result" where
  "create_package_manifest w package_id created uid fws include_evidence include_trail m =
     bindE (generate_unified_report w (dm_generator m) uid (Some fws) None None) (\<lambda>r.
       Inr \<lparr>pm_package_id = package_id, pm_created_date = created, pm_frameworks = map fw_value fws,
            pm_documents = concat (map (\<lambda>fw. map doc_line_of (get_by_framework fw (dm_documents m))) fws),
            pm_evidence = (if include_evidence then concat (map (\<lambda>fw. map evidence_line_of (get_evidence_by_framework fw (dm_evidence m))) fws) else []),
            pm_audit_entries_count = (if include_trail then length (dm_entries m) else 0),
            pm_report = (dp_report_id r, dp_overall_score r, dp_status r, dp_framework_scores r)\<rparr>)"

text \<open>The text is written when a path is given, and writing may raise.\<close>

definition export_to_json ::
    "report_world \<Rightarrow> (package_manifest \<Rightarrow> string) \<Rightarrow> (string \<Rightarrow> string \<Rightarrow> unit result) \<Rightarrow> string \<Rightarrow> string \<Rightarrow> string \<Rightarrow> framework list \<Rightarrow> string option \<Rightarrow>
     doc_manager_state \<Rightarrow> string result" where
  "export_to_json w dumps write_text package_id created uid fws output_path m =
     bindE (create_package_manifest w package_id created uid fws True True m) (\<lambda>mf.
       case output_path of None \<Rightarrow> Inr (dumps mf) | Some p \<Rightarrow> if p = [] then Inr (dumps mf) else bindE (write_text p (dumps mf)) (\<lambda>_. Inr (dumps mf)))"

section \<open>The manager\<close>

definition doc_manager_new :: "string \<Rightarrow> report_generator \<Rightarrow> doc_manager_state" where
  "doc_manager_new name g = \<lparr>dm_organization_name = name, dm_documents = [], dm_evidence = [], dm_entries = [], dm_generator = g, dm_initialized = False\<rparr>"

text \<open>Every operation of the manager logs what it did; \<open>aid\<close> is the identifier of the entry.\<close>

definition log_entry ::
    "string \<Rightarrow> datetime \<Rightarrow> string \<Rightarrow> string \<Rightarrow> string \<Rightarrow> string \<Rightarrow> (string, json) dict \<Rightarrow> framework option \<Rightarrow> doc_manager_state \<Rightarrow> doc_manager_state" where
  "log_entry aid now action actor ty rid details fw m = m\<lparr>dm_entries := snd (log_action aid now action actor ty rid details [] fw (dm_entries m))\<rparr>"

definition doc_initialize :: "string \<Rightarrow> datetime \<Rightarrow> doc_manager_state \<Rightarrow> bool \<times> doc_manager_state" where
  "doc_initialize aid now m =
     (True, log_entry aid now ''initialize'' ''system'' ''documentation_manager'' (dm_organization_name m) [] None (m\<lparr>dm_initialized := True\<rparr>))"

definition register_kind ::
    "document_type \<Rightarrow> string \<Rightarrow> string \<Rightarrow> (string \<Rightarrow> string) \<Rightarrow> string \<Rightarrow> string \<Rightarrow> datetime \<Rightarrow> string \<Rightarrow> framework \<Rightarrow> string \<Rightarrow> string \<Rightarrow>
     doc_manager_state \<Rightarrow> compliance_document \<times> doc_manager_state" where
  "register_kind ty tag action sha256 uid aid now title fw author content m =
     (let (doc, ds) = register_document sha256 uid now title ty fw author content [] [tag, fw_value fw] (dm_documents m)
      in (doc, log_entry aid now action author ''document'' (cm_doc_id doc) [] (Some fw) (m\<lparr>dm_documents := ds\<rparr>)))"

definition register_policy ::
    "(string \<Rightarrow> string) \<Rightarrow> string \<Rightarrow> string \<Rightarrow> datetime \<Rightarrow> string \<Rightarrow> framework \<Rightarrow> string \<Rightarrow> string \<Rightarrow> doc_manager_state \<Rightarrow> compliance_document \<times> doc_manager_state" where
  "register_policy = register_kind POLICY ''policy'' ''register_policy''"

definition register_procedure ::
    "(string \<Rightarrow> string) \<Rightarrow> string \<Rightarrow> string \<Rightarrow> datetime \<Rightarrow> string \<Rightarrow> framework \<Rightarrow> string \<Rightarrow> string \<Rightarrow> doc_manager_state \<Rightarrow> compliance_document \<times> doc_manager_state" where
  "register_procedure = register_kind PROCEDURE ''procedure'' ''register_procedure''"

definition collect_control_evidence ::
    "(string \<Rightarrow> string) \<Rightarrow> string \<Rightarrow> string \<Rightarrow> datetime \<Rightarrow> string \<Rightarrow> string \<Rightarrow> framework \<Rightarrow> string \<Rightarrow> string \<Rightarrow> string \<Rightarrow> string \<Rightarrow>
     doc_manager_state \<Rightarrow> evidence_item \<times> doc_manager_state" where
  "collect_control_evidence sha256 uid aid now title description fw control_id collector ty content m =
     (let (item, es) = collect_evidence sha256 uid now title description fw control_id collector ty content [] (dm_evidence m)
      in (item, log_entry aid now ''collect_evidence'' collector ''evidence'' (ev_evidence_id item) [(''control_id'', JStr control_id)] (Some fw)
            (m\<lparr>dm_evidence := es\<rparr>)))"

definition doc_generate_report :: "report_world \<Rightarrow> string \<Rightarrow> string \<Rightarrow> framework list option \<Rightarrow> doc_manager_state \<Rightarrow> doc_report result \<times> doc_manager_state" where
  "doc_generate_report w uid aid frameworks m =
     (case generate_unified_report w (dm_generator m) uid frameworks None None of
        Inl e \<Rightarrow> (Inl e, m)
      | Inr r \<Rightarrow> (Inr r, log_entry aid (rw_now w) ''generate_report'' ''system'' ''report'' (dp_report_id r) [] None m))"

definition export_package ::
    "report_world \<Rightarrow> (package_manifest \<Rightarrow> string) \<Rightarrow> (string \<Rightarrow> string \<Rightarrow> unit result) \<Rightarrow> string \<Rightarrow> string \<Rightarrow> string \<Rightarrow> string \<Rightarrow>
     framework list option \<Rightarrow> string option \<Rightarrow> doc_manager_state \<Rightarrow> string result \<times> doc_manager_state" where
  "export_package w dumps write_text package_id created uid aid frameworks output_path m =
     (let fws = (case frameworks of None \<Rightarrow> all_frameworks | Some x \<Rightarrow> x)
      in case export_to_json w dumps write_text package_id created uid fws output_path m of
           Inl e \<Rightarrow> (Inl e, m)
         | Inr text \<Rightarrow> (Inr text, log_entry aid (rw_now w) ''export_package'' ''system'' ''package'' ''export''
             [(''frameworks'', JArr (map (JStr \<circ> fw_value) fws))] None m))"

record doc_summary =
  ds_organization :: string
  ds_initialized :: bool
  ds_documents :: nat
  ds_by_type :: "(document_type, nat) dict"
  ds_by_framework :: "(string, nat) dict"
  ds_evidence :: evidence_summary
  ds_audit_trail_entries :: nat

definition get_status_summary :: "doc_manager_state \<Rightarrow> doc_summary" where
  "get_status_summary m = \<lparr>ds_organization = dm_organization_name m, ds_initialized = dm_initialized m, ds_documents = length (dm_documents m),
     ds_by_type = map (\<lambda>t. (t, length (doc_get_by_type t (dm_documents m))))
       [POLICY, PROCEDURE, EVIDENCE, AUDIT_REPORT, RISK_ASSESSMENT, TRAINING_RECORD, INCIDENT_REPORT, COMPLIANCE_MATRIX],
     ds_by_framework = map (\<lambda>f. (fw_value f, length (get_by_framework f (dm_documents m)))) all_frameworks,
     ds_evidence = get_evidence_summary (dm_evidence m), ds_audit_trail_entries = length (dm_entries m)\<rparr>"

section \<open>Versions\<close>

lemma dec_small: "dec_of_nat 0 = ''0''" "dec_of_nat (Suc 0) = ''1''"
  by code_simp+

lemma split_version: "split_on (CHR ''.'') (dec_of_nat a @ ''.'' @ dec_of_nat b @ ''.'' @ dec_of_nat c) = [dec_of_nat a, dec_of_nat b, dec_of_nat c]"
proof -
  have "CHR ''.'' \<notin> set (dec_of_nat k)" for k using dec_digits [of "CHR ''.''" k] by (auto simp: is_digit_def)
  then show ?thesis by (simp add: split_on_free split_on_none)
qed

lemma next_patch_dec:
  "next_patch (dec_of_nat a @ ''.'' @ dec_of_nat b @ ''.'' @ dec_of_nat c) = Inr (dec_of_nat a @ ''.'' @ dec_of_nat b @ ''.'' @ dec_of_nat (Suc c))"
proof -
  have "nat (int c + 1) = Suc c" by simp
  then show ?thesis unfolding next_patch_def split_version by (simp add: py_int_dec str_of_int_def)
qed

lemma update_document_known:
  assumes "dget d i = Some doc" "cm_version doc = ''1.0.'' @ dec_of_nat n"
  obtains doc1 where "update_document sha256 now i content approver d = (Inr True, dset i doc1 d)" "cm_version doc1 = ''1.0.'' @ dec_of_nat (Suc n)"
    "cm_content_hash doc1 = (if content = [] then cm_content_hash doc else sha256 content)"
proof -
  have "next_patch (''1.0.'' @ dec_of_nat n) = Inr (''1.0.'' @ dec_of_nat (Suc n))" using next_patch_dec [of "Suc 0" 0 n] by (simp add: dec_small)
  then show ?thesis using that assms by (simp add: update_document_def Let_def)
qed

definition hash_after :: "(string \<Rightarrow> string) \<Rightarrow> string list \<Rightarrow> string \<Rightarrow> string" where
  "hash_after sha256 contents h = fold (\<lambda>c h. if c = [] then h else sha256 c) contents h"

definition update_all :: "(string \<Rightarrow> string) \<Rightarrow> string \<Rightarrow> (datetime \<times> string \<times> string) list \<Rightarrow> doc_registry \<Rightarrow> doc_registry" where
  "update_all sha256 i us d = fold (\<lambda>(now, content, approver) d. snd (update_document sha256 now i content approver d)) us d"

lemma update_all_known:
  assumes "dget d i = Some doc" "cm_version doc = ''1.0.'' @ dec_of_nat n"
  shows "\<exists>doc1. dget (update_all sha256 i us d) i = Some doc1 \<and> cm_version doc1 = ''1.0.'' @ dec_of_nat (n + length us) \<and>
    cm_content_hash doc1 = hash_after sha256 (map (fst \<circ> snd) us) (cm_content_hash doc)"
  using assms
proof (induction us arbitrary: d doc n)
  case Nil
  then show ?case by (simp add: update_all_def hash_after_def)
next
  case (Cons u us)
  obtain now content approver where u: "u = (now, content, approver)" by (cases u)
  from update_document_known [OF Cons.prems] obtain doc1 where
    d1: "update_document sha256 now i content approver d = (Inr True, dset i doc1 d)" "cm_version doc1 = ''1.0.'' @ dec_of_nat (Suc n)"
      "cm_content_hash doc1 = (if content = [] then cm_content_hash doc else sha256 content)" by blast
  have "dget (dset i doc1 d) i = Some doc1" by simp
  from Cons.IH [OF this d1(2)] show ?case by (simp add: u d1 update_all_def hash_after_def)
qed

text \<open>
  A document that was registered and then updated any number of times has as version the number of its updates
  and as digest that of the latest content that was given.
\<close>

theorem version_counts_updates:
  "\<exists>doc. dget (update_all sha256 uid us (snd (register_document sha256 uid now title ty fw author content path tags d))) uid = Some doc \<and>
     cm_version doc = ''1.0.'' @ dec_of_nat (length us) \<and> cm_content_hash doc = hash_after sha256 (content # map (fst \<circ> snd) us) []"
proof -
  obtain doc where "dget (snd (register_document sha256 uid now title ty fw author content path tags d)) uid = Some doc"
    "cm_version doc = ''1.0.'' @ dec_of_nat 0" "cm_content_hash doc = content_hash sha256 content"
    by (simp add: register_document_def Let_def dec_small)
  from update_all_known [OF this(1,2), of sha256 us] this(3) show ?thesis by (simp add: hash_after_def content_hash_def)
qed

section \<open>What a unified report sees\<close>

lemma collect_scores_skip:
  assumes "\<And>fw. fw \<in> set fws \<Longrightarrow> \<not> keep fw \<Longrightarrow> f fw = Inr (Fin 0)" "\<And>fw. fw \<in> set fws \<Longrightarrow> keep fw \<Longrightarrow> f' fw = f fw"
  shows "collect_scores f fws acc = collect_scores f' (filter keep fws) acc"
  using assms
proof (induction fws arbitrary: acc)
  case (Cons fw fws)
  obtain scores summed n where a: "acc = (scores, summed, n)" by (cases acc)
  have ih: "collect_scores f fws acc = collect_scores f' (filter keep fws) acc" for acc using Cons.IH Cons.prems by simp
  show ?case using Cons.prems [of fw] by (cases "f fw") (auto simp: a ih)
qed simp

lemma unified_seen:
  "map_sum id (\<lambda>r. (dp_overall_score r, dp_status r, dp_framework_scores r)) (generate_unified_report w g uid (Some fws) start_at end_at) =
   bindE (collect_scores (\<lambda>fw. bindE (generate_framework_report w g uid start_at end_at fw) (\<lambda>r. Inr (dp_overall_score r))) fws ([], Fin 0, 0))
     (\<lambda>(scores, summed, n). bindE (mean_score summed n) (\<lambda>score. Inr (score, state_of_score score, scores)))"
proof (cases "collect_scores (\<lambda>fw. bindE (generate_framework_report w g uid start_at end_at fw) (\<lambda>r. Inr (dp_overall_score r))) fws ([], Fin 0, 0)")
  case (Inr p)
  obtain scores summed n where "p = (scores, summed, n)" by (cases p)
  with Inr show ?thesis by (cases "mean_score summed n") (simp_all add: generate_unified_report_def)
qed (simp add: generate_unified_report_def)

text \<open>
  A unified report never takes the service organisation controls or the AI act into account: score, state and
  the scores it lists, and whether it raises, are those of the report over the other frameworks, whatever managers
  are given for these two.
\<close>

theorem unified_report_ignores_two_frameworks:
  "map_sum id (\<lambda>r. (dp_overall_score r, dp_status r, dp_framework_scores r)) (generate_unified_report w g uid (Some fws) start_at end_at) =
   map_sum id (\<lambda>r. (dp_overall_score r, dp_status r, dp_framework_scores r))
     (generate_unified_report w (g\<lparr>rg_soc2 := x, rg_eu_ai_act := y\<rparr>) uid (Some (filter (\<lambda>f. f \<notin> {FW_SOC2, FW_EU_AI_ACT}) fws)) start_at end_at)"
proof -
  let ?f = "\<lambda>g fw. bindE (generate_framework_report w g uid start_at end_at fw) (\<lambda>r. Inr (dp_overall_score r))"
  have z: "?f g fw = Inr (Fin 0)" if "fw \<in> {FW_SOC2, FW_EU_AI_ACT}" for fw
    using that by (auto simp: generate_framework_report_def framework_outcome_def split: option.splits)
  have s: "?f (g\<lparr>rg_soc2 := x, rg_eu_ai_act := y\<rparr>) fw = ?f g fw" if "fw \<notin> {FW_SOC2, FW_EU_AI_ACT}" for fw
    using that by (cases fw) (auto simp: generate_framework_report_def framework_outcome_def)
  have "collect_scores (?f g) fws acc = collect_scores (?f (g\<lparr>rg_soc2 := x, rg_eu_ai_act := y\<rparr>)) (filter (\<lambda>f. f \<notin> {FW_SOC2, FW_EU_AI_ACT}) fws) acc" for acc
    by (rule collect_scores_skip) (use z s in auto)
  then show ?thesis by (simp only: unified_seen)
qed

text \<open>The report of the data protection alone is never completed, and that of the service organisation never started.\<close>

lemma framework_states:
  assumes "generate_framework_report w g uid s t fw = Inr r"
  shows "fw = FW_GDPR \<Longrightarrow> dp_status r \<noteq> AUDIT_COMPLETED" "fw = FW_SOC2 \<Longrightarrow> dp_status r = AUDIT_NOT_STARTED \<and> dp_overall_score r = Fin 0"
  using assms by (auto simp: generate_framework_report_def framework_outcome_def bindE_Inr_iff Let_def split: option.splits)

section \<open>The audit trail of the manager\<close>

datatype doc_manager_op =
    DocInitialize string datetime
  | RegisterPolicy "string \<Rightarrow> string" string string datetime string framework string string
  | RegisterProcedure "string \<Rightarrow> string" string string datetime string framework string string
  | CollectEvidence "string \<Rightarrow> string" string string datetime string string framework string string string string
  | GenerateReport report_world string string "framework list option"
  | ExportPackage report_world "package_manifest \<Rightarrow> string" "string \<Rightarrow> string \<Rightarrow> unit result" string string string string "framework list option" "string option"

fun doc_manager_step :: "doc_manager_op \<Rightarrow> doc_manager_state \<Rightarrow> doc_manager_state" where
  "doc_manager_step (DocInitialize aid now) m = snd (doc_initialize aid now m)"
| "doc_manager_step (RegisterPolicy sha uid aid now title fw author content) m = snd (register_policy sha uid aid now title fw author content m)"
| "doc_manager_step (RegisterProcedure sha uid aid now title fw author content) m = snd (register_procedure sha uid aid now title fw author content m)"
| "doc_manager_step (CollectEvidence sha uid aid now title descr fw cid who ty content) m =
     snd (collect_control_evidence sha uid aid now title descr fw cid who ty content m)"
| "doc_manager_step (GenerateReport w uid aid fws) m = snd (doc_generate_report w uid aid fws m)"
| "doc_manager_step (ExportPackage w dumps write pid created uid aid fws path) m = snd (export_package w dumps write pid created uid aid fws path m)"

definition doc_audited :: "trail_entry list \<Rightarrow> string \<Rightarrow> compliance_document \<Rightarrow> bool" where
  "doc_audited es i d \<longleftrightarrow> cm_doc_id d = i \<and> cm_version d = ''1.0.0'' \<and> (\<exists>e \<in> set es. te_action e \<in> {''register_policy'', ''register_procedure''} \<and>
     te_resource_type e = ''document'' \<and> te_resource_id e = i \<and> te_actor e = cm_author d \<and> te_framework e = Some (cm_framework d))"

definition evidence_audited :: "trail_entry list \<Rightarrow> string \<Rightarrow> evidence_item \<Rightarrow> bool" where
  "evidence_audited es i x \<longleftrightarrow> ev_evidence_id x = i \<and> (\<exists>e \<in> set es. te_action e = ''collect_evidence'' \<and> te_resource_type e = ''evidence'' \<and>
     te_resource_id e = i \<and> te_actor e = ev_collector x \<and> te_details e = [(''control_id'', JStr (ev_control_id x))] \<and> te_framework e = Some (ev_framework x))"

definition trail_ok :: "doc_manager_state \<Rightarrow> bool" where
  "trail_ok m \<longleftrightarrow> (\<forall>i d. dget (dm_documents m) i = Some d \<longrightarrow> doc_audited (dm_entries m) i d) \<and>
     (\<forall>i x. dget (dm_evidence m) i = Some x \<longrightarrow> evidence_audited (dm_entries m) i x)"

lemma audited_more: "doc_audited es i d \<Longrightarrow> doc_audited (es @ es') i d" "evidence_audited es i x \<Longrightarrow> evidence_audited (es @ es') i x"
  by (auto simp: doc_audited_def evidence_audited_def)

lemma log_entry_simps [simp]:
  "dm_documents (log_entry aid now action actor ty rid details fw m) = dm_documents m" "dm_evidence (log_entry aid now action actor ty rid details fw m) = dm_evidence m"
  "dm_entries (log_entry aid now action actor ty rid details fw m) = dm_entries m @ [\<lparr>te_entry_id = aid, te_timestamp = now, te_action = action,
     te_actor = actor, te_resource_type = ty, te_resource_id = rid, te_details = details, te_ip_address = [], te_framework = fw\<rparr>]"
  by (simp_all add: log_entry_def log_action_def Let_def)

lemma log_entry_ok: "trail_ok m \<Longrightarrow> trail_ok (log_entry aid now action actor ty rid details fw m)"
  by (simp add: trail_ok_def audited_more)

lemma register_kind_ok:
  assumes "trail_ok m" "action \<in> {''register_policy'', ''register_procedure''}"
  shows "trail_ok (snd (register_kind ty tag action sha uid aid now title fw author content m))"
  using assms by (auto simp: register_kind_def register_document_def trail_ok_def Let_def audited_more) (auto simp: doc_audited_def)

lemma collect_evidence_ok: "trail_ok m \<Longrightarrow> trail_ok (snd (collect_control_evidence sha uid aid now title descr fw cid who ty content m))"
  by (auto simp: collect_control_evidence_def collect_evidence_def trail_ok_def Let_def audited_more) (auto simp: evidence_audited_def)

lemma doc_manager_step_ok: "trail_ok m \<Longrightarrow> trail_ok (doc_manager_step op m)"
proof (cases op)
  case (DocInitialize aid now)
  assume "trail_ok m"
  then have "trail_ok (m\<lparr>dm_initialized := True\<rparr>)" by (simp add: trail_ok_def)
  then show ?thesis by (simp add: DocInitialize doc_initialize_def log_entry_ok)
qed (simp_all add: register_policy_def register_procedure_def register_kind_ok collect_evidence_ok doc_generate_report_def export_package_def
    log_entry_ok Let_def split: sum.splits)

interpretation doc_machine: machine doc_manager_step trail_ok
  by unfold_locales (rule doc_manager_step_ok)

lemma doc_step_entries: "\<exists>es. dm_entries (doc_manager_step op m) = dm_entries m @ es"
  by (cases op) (auto simp: doc_initialize_def register_policy_def register_procedure_def register_kind_def collect_control_evidence_def
      doc_generate_report_def export_package_def Let_def split: sum.splits prod.splits)

lemma doc_run_entries: "\<exists>es. dm_entries (fold doc_manager_step ops m) = dm_entries m @ es"
proof (induction ops arbitrary: m)
  case (Cons op ops)
  from Cons.IH [of "doc_manager_step op m"] doc_step_entries [of op m] show ?case by auto
qed simp

text \<open>
  In every run of the documentation manager each document and each item of evidence is stored under its own
  identifier and has an entry of the audit trail with its author or collector, its framework and, for evidence, its
  control, and later operations only append to the trail.
\<close>

theorem records_are_audited:
  assumes "m = fold doc_manager_step ops (doc_manager_new name g)"
  shows "(\<forall>i d. dget (dm_documents m) i = Some d \<longrightarrow> doc_audited (dm_entries m) i d) \<and>
    (\<forall>i x. dget (dm_evidence m) i = Some x \<longrightarrow> evidence_audited (dm_entries m) i x) \<and>
    (\<exists>es. dm_entries (fold doc_manager_step later m) = dm_entries m @ es)"
proof -
  have "trail_ok (doc_manager_new name g)" by (simp add: trail_ok_def doc_manager_new_def)
  from doc_machine.run_inv [OF this, of ops] assms doc_run_entries [of later m] show ?thesis by (simp add: trail_ok_def)
qed

definition no_managers :: report_generator where
  "no_managers = \<lparr>rg_gdpr = None, rg_soc2 = None, rg_hipaa = None, rg_eu_ai_act = None\<rparr>"

theorem records_are_audited_witness:
  "\<exists>e \<in> set (dm_entries (fold doc_manager_step [RegisterPolicy id ''u'' ''a'' 0 ''Access'' FW_GDPR ''eve'' ''text''] (doc_manager_new ''org'' no_managers))).
     te_resource_id e = ''u'' \<and> te_actor e = ''eve''"
proof -
  let ?m = "fold doc_manager_step [RegisterPolicy id ''u'' ''a'' 0 ''Access'' FW_GDPR ''eve'' ''text''] (doc_manager_new ''org'' no_managers)"
  obtain d where d: "dget (dm_documents ?m) ''u'' = Some d" "cm_author d = ''eve''"
    by (simp add: register_policy_def register_kind_def register_document_def doc_manager_new_def Let_def dget_Cons)
  from records_are_audited [OF refl, of "[RegisterPolicy id ''u'' ''a'' 0 ''Access'' FW_GDPR ''eve'' ''text'']" "''org''" no_managers "[]"] d(1)
  have "doc_audited (dm_entries ?m) ''u'' d" by blast
  then show ?thesis unfolding doc_audited_def d(2) by blast
qed

text \<open>The registry itself logs nothing: an update of a document leaves the trail as it is.\<close>

lemma update_is_not_audited: "dm_entries (m\<lparr>dm_documents := snd (update_document sha256 now i content approver (dm_documents m))\<rparr>) = dm_entries m"
  by simp

section \<open>What a package lists\<close>

lemma listed_once:
  assumes "distinct fws" "dict_ok d" "\<And>k x. (k, x) \<in> set d \<Longrightarrow> ident x = k"
  shows "distinct (map ident (concat (map (\<lambda>fw. filter (\<lambda>x. kind x = fw) (dvalues d)) fws)))"
proof -
  have vals: "distinct (map ident (dvalues d))"
  proof -
    have "map ident (dvalues d) = map fst d" using assms(3) by (auto simp: dvalues_def)
    then show ?thesis using assms(2) by (simp add: dict_ok_def)
  qed
  show ?thesis using assms(1)
  proof (induction fws)
    case (Cons fw fws)
    have one: "distinct (map ident (filter (\<lambda>x. kind x = fw) (dvalues d)))" using vals by (simp add: distinct_map inj_on_def)
    have "x = y" if "x \<in> set (dvalues d)" "y \<in> set (dvalues d)" "ident x = ident y" for x y
      using vals that by (auto simp: distinct_map inj_on_def)
    note same = this
    have "ident x \<noteq> ident y" if "x \<in> set (dvalues d)" "kind x = fw" "y \<in> set (dvalues d)" "kind y \<in> set fws" for x y
      using same [OF that(1,3)] that(2,4) Cons.prems by auto
    then have "set (map ident (filter (\<lambda>x. kind x = fw) (dvalues d))) \<inter>
        set (map ident (concat (map (\<lambda>fw. filter (\<lambda>x. kind x = fw) (dvalues d)) fws))) = {}" by auto
    then show ?case using one Cons by (simp add: distinct_append)
  qed simp
qed

lemma distinct_singleton: "distinct xs \<Longrightarrow> set xs = {a} \<Longrightarrow> xs = [a]"
proof (cases xs)
  case (Cons x ys)
  assume "distinct xs" "set xs = {a}"
  with Cons have "x = a" "set ys \<subseteq> {a}" "a \<notin> set ys" by auto
  then show ?thesis using Cons by (cases ys) auto
qed simp

lemma manifest_documents:
  assumes "create_package_manifest w pid created uid fws ev tr m = Inr mf"
  shows "pm_documents mf = map doc_line_of (concat (map (\<lambda>fw. filter (\<lambda>x. cm_framework x = fw) (dvalues (dm_documents m))) fws))"
    "ev \<Longrightarrow> pm_evidence mf = map evidence_line_of (concat (map (\<lambda>fw. filter (\<lambda>x. ev_framework x = fw) (dvalues (dm_evidence m))) fws))"
  using assms by (auto simp: create_package_manifest_def bindE_Inr_iff get_by_framework_def get_evidence_by_framework_def map_concat comp_def)

definition dicts_ok :: "doc_manager_state \<Rightarrow> bool" where
  "dicts_ok m \<longleftrightarrow> dict_ok (dm_documents m) \<and> dict_ok (dm_evidence m) \<and> trail_ok m"

lemma dicts_ok_step: "dicts_ok m \<Longrightarrow> dicts_ok (doc_manager_step op m)"
proof -
  assume a: "dicts_ok m"
  then have "dict_ok (dm_documents (doc_manager_step op m)) \<and> dict_ok (dm_evidence (doc_manager_step op m))"
    by (cases op) (auto simp: dicts_ok_def doc_initialize_def register_policy_def register_procedure_def register_kind_def register_document_def
        collect_control_evidence_def collect_evidence_def doc_generate_report_def export_package_def Let_def split: sum.splits)
  with a doc_manager_step_ok show ?thesis by (simp add: dicts_ok_def)
qed

interpretation doc_tables: machine doc_manager_step dicts_ok
  by unfold_locales (rule dicts_ok_step)

text \<open>
  A package over distinct frameworks, made after any run of the manager, lists every document and every item of
  evidence of these frameworks exactly once, and nothing else.
\<close>

theorem package_lists_records_once:
  assumes "m = fold doc_manager_step ops (doc_manager_new name g)" and "distinct fws"
    and "create_package_manifest w pid created uid fws True tr m = Inr mf"
  shows "distinct (map dl_doc_id (pm_documents mf)) \<and> distinct (map el_evidence_id (pm_evidence mf)) \<and>
    set (pm_documents mf) = doc_line_of ` {d. \<exists>i. dget (dm_documents m) i = Some d \<and> cm_framework d \<in> set fws} \<and>
    set (pm_evidence mf) = evidence_line_of ` {x. \<exists>i. dget (dm_evidence m) i = Some x \<and> ev_framework x \<in> set fws}"
proof -
  have "dicts_ok (doc_manager_new name g)" by (simp add: dicts_ok_def trail_ok_def doc_manager_new_def)
  from doc_tables.run_inv [OF this, of ops] have ok: "dict_ok (dm_documents m)" "dict_ok (dm_evidence m)" "trail_ok m"
    using assms(1) by (simp_all add: dicts_ok_def)
  have ids: "cm_doc_id d = i" if "(i, d) \<in> set (dm_documents m)" for i d using that ok(1,3) by (simp add: dget_in_set [symmetric] trail_ok_def doc_audited_def)
  have eids: "ev_evidence_id x = i" if "(i, x) \<in> set (dm_evidence m)" for i x
    using that ok(2,3) by (simp add: dget_in_set [symmetric] trail_ok_def evidence_audited_def)
  note docs = manifest_documents(1) [OF assms(3)] and evs = manifest_documents(2) [OF assms(3) TrueI]
  have c: "dl_doc_id \<circ> doc_line_of = cm_doc_id" "el_evidence_id \<circ> evidence_line_of = ev_evidence_id"
    by (auto simp: doc_line_of_def evidence_line_of_def)
  have "distinct (map dl_doc_id (pm_documents mf))" "distinct (map el_evidence_id (pm_evidence mf))"
    unfolding docs evs list.map_comp c by (rule listed_once [OF assms(2) ok(1) ids], assumption, rule listed_once [OF assms(2) ok(2) eids], assumption)
  moreover have "set (pm_documents mf) = doc_line_of ` {d. \<exists>i. dget (dm_documents m) i = Some d \<and> cm_framework d \<in> set fws}"
    "set (pm_evidence mf) = evidence_line_of ` {x. \<exists>i. dget (dm_evidence m) i = Some x \<and> ev_framework x \<in> set fws}"
    unfolding docs evs using ok(1,2) by (auto simp: set_dvalues)
  ultimately show ?thesis by blast
qed

definition demo_report_world :: report_world where
  "demo_report_world = \<lparr>rw_gdpr_clock = \<lambda>i. Fin 0, rw_gdpr_days = \<lambda>i. (Fin 0, Fin 0), rw_now = 0, rw_time = Fin 0, rw_mean = \<lambda>xs. Fin 0,
     rw_date = ''2026-01-01''\<rparr>"

theorem package_lists_records_once_witness:
  "\<exists>mf. create_package_manifest demo_report_world ''p'' ''c'' ''r'' [FW_GDPR] True True
     (fold doc_manager_step [RegisterPolicy id ''u'' ''a'' 0 ''Access'' FW_GDPR ''eve'' ''text''] (doc_manager_new ''org'' no_managers)) = Inr mf \<and>
     map dl_doc_id (pm_documents mf) = [''u'']"
proof -
  let ?ops = "[RegisterPolicy id ''u'' ''a'' 0 ''Access'' FW_GDPR ''eve'' ''text'']"
  let ?m = "fold doc_manager_step ?ops (doc_manager_new ''org'' no_managers)"
  have g: "dm_generator ?m = no_managers"
    by (simp add: register_policy_def register_kind_def register_document_def doc_manager_new_def log_entry_def Let_def)
  have "\<exists>mf. create_package_manifest demo_report_world ''p'' ''c'' ''r'' [FW_GDPR] True True ?m = Inr mf"
    unfolding create_package_manifest_def g
    by (simp add: generate_unified_report_def generate_framework_report_def framework_outcome_def no_managers_def mean_score_def Let_def)
  then obtain mf where mf: "create_package_manifest demo_report_world ''p'' ''c'' ''r'' [FW_GDPR] True True ?m = Inr mf" by blast
  define m where "m = ?m"
  have docs: "{d. \<exists>i. dget (dm_documents m) i = Some d \<and> cm_framework d \<in> set [FW_GDPR]} =
      {\<lparr>cm_doc_id = ''u'', cm_title = ''Access'', cm_document_type = POLICY, cm_framework = FW_GDPR, cm_version = ''1.0.0'', cm_created_date = 0,
        cm_last_updated = 0, cm_author = ''eve'', cm_approver = [], cm_content_hash = ''text'', cm_file_path = [], cm_tags = [''policy'', ''gdpr'']\<rparr>}"
    unfolding m_def
    by (auto simp: register_policy_def register_kind_def register_document_def doc_manager_new_def content_hash_def Let_def dget_Cons split: if_splits)
  have "distinct [FW_GDPR]" by simp
  note listed = package_lists_records_once [OF m_def this mf [folded m_def]]
  note d = listed [THEN conjunct1] and s = listed [THEN conjunct2, THEN conjunct2, THEN conjunct1]
  have "set (map dl_doc_id (pm_documents mf)) = {''u''}" unfolding set_map s docs by (simp add: doc_line_of_def)
  with d have "map dl_doc_id (pm_documents mf) = [''u'']" by (rule distinct_singleton)
  show ?thesis by (rule exI [of _ mf], rule conjI [OF mf \<open>map dl_doc_id (pm_documents mf) = [''u'']\<close>])
qed

end
