(* ===== verification/Spec2Isabelle.thy ===== *)
theory Spec2Isabelle
  imports Wire_Protocol Zanzibar Speculative Consensus Quorum Transactions Invariant_Guard Lineage Policy Fleet
    State_Sync Anti_Entropy Routing Dht Multi_Region Ledger Credits
    Deployment Gdpr Gossip Governance Hipaa Hsm
    Mission Watchdog Redundancy Sso Sla Release Chain_Audit Eu_Ai_Act Soc2 Siem Cluster Documentation
begin

text \<open>
  \<^bold>\<open>WarmLogic governance kernel.\<close> WarmLogic is a governance kernel written in Python around a native
  core: nodes of a mesh authorise actions, agree on changes of policy, keep their state durable and
  replicate it. This development models the Python logic of that kernel, under
  \<^verbatim>\<open>src/src/warm_logic/\<close>, and proves the properties that make it correct; paths below are relative to
  that directory.

  \<^bold>\<open>The parts and how they interact.\<close>
  A change of policy is \<^emph>\<open>staged\<close> in the speculative buffer by the proposal pipeline, which collects
  votes on the bridge to the native agreement engine and commits or rolls the layer back; the policy
  engine reads its thresholds through the buffer's active overlay. The quorum manager and the service
  registry are two further clients of voting. Durable kernel state goes through the transaction
  manager. The invariant guard and the lineage tracker judge single actions and flows of data. Between
  nodes, the federation protocol frames messages, the state synchroniser merges decisions of regions,
  the DHT routes messages and guards its storage with the relationship engine (Zanzibar), and the
  anti-entropy agent repairs divergence between peers over the DHT's handlers. The fleet manager
  tracks attested nodes. A sovereign federation admits the nodes whose hardware attestation the
  attestation client verified and collects approvals of decisions; the multi-region federation keeps one
  such federation per region and schedules decisions for the others. The token ledger, with the compute
  market on top of it, and the credit and stake managers over the balances of the store are the economy;
  the quadratic governance weighs its votes by those balances and stages through the pipeline. Manifests
  spread through the gossip agent over the DHT. Deployments have a registry of regions with failover and
  request routing. The compliance modules keep consents, health records and their audit trails. The key
  stores sign for all of them behind one interface. The drone safety monitor vetoes control commands, the
  mission planner routes around obstacles, the watchdog kills a runaway process and the redundancy manager
  keeps two instances of the critical services. Users sign on through an identity provider; circuit
  breakers and probes watch over the services, audit events are exported to a collector, and releases are
  versioned and gated. The replicated ledger mines blocks into the store, which the self-audit walks and
  checks. The stitch server streams events to its clients, the network bridge carries messages between
  nodes, and the cluster orchestrator elects a leader over it.

  \<^bold>\<open>Theories.\<close>
  \<^item> \<open>Prelude\<close>: errors and the result type, Python dictionaries as association lists in insertion
    order (\<open>dget\<close>, \<open>dset\<close>, \<open>ddel\<close>), the locales \<open>machine\<close> and \<open>latching_machine\<close> in which invariants
    are lifted from one operation to a run of operations.
  \<^item> \<open>Bytes\<close>, \<open>Text\<close>, \<open>Floats\<close>: big-endian \<open>struct\<close> fields and slices; decimal numbers and JSON string
    literals with their injectivity; Python floats with NaN and infinities and their comparisons.
  \<^item> \<open>Wire_Protocol\<close> (\<^verbatim>\<open>kernel/federation/protocol.py\<close>): header, frame, five payload codecs and the
    message builder. Round trips for every payload, delivery of a built proposal, exactly which
    inputs decode, and the exact size of a message.
  \<^item> \<open>Zanzibar\<close> (\<^verbatim>\<open>kernel/zanzibar.py\<close>): tuples, verified writes, the recursive check. The check
    decides a chain of tuples of bounded length (\<open>grants\<close>), and after any run it answers what the tuples
    that were written and verify grant; grants are never withdrawn.
  \<^item> \<open>Speculative\<close> (\<^verbatim>\<open>kernel/ops/speculative_buffer.py\<close>): layers of staged changes; isolation of
    inactive layers, what a commit returns.
  \<^item> \<open>Consensus\<close> (\<^verbatim>\<open>kernel/sys/consensus.py\<close>, and the part of \<^verbatim>\<open>rust_core/src/consensus/bft.rs\<close> it
    reaches): votes with the length limits of the native constructor, the bridge engine, the pipeline. The
    locale \<open>vote_counter\<close> is what the bridge needs of a native engine; the native engine interprets it, and
    as the bridge calls it no block is ever committed by a quorum of two or more.
  \<^item> \<open>Quorum\<close> (\<^verbatim>\<open>kernel/ops/quorum_manager.py\<close>, \<^verbatim>\<open>kernel/ops/service_registry.py\<close>): votes on blocks, and
    registration of services after a quorum of distinct voters.
  \<^item> \<open>Transactions\<close> (\<^verbatim>\<open>kernel/transaction.py\<close>): commit and recovery as sequences of file operations,
    the syncs of the source included, over a disk on which a crash may undo every directory change and
    every content that was not synced. A restart always loads a whole committed state; a commit is
    durable once it was written back, and not before, since the directory is never synced; the hash
    chain over histories.
  \<^item> \<open>Invariant_Guard\<close> (\<^verbatim>\<open>kernel/ops/invariants.py\<close>): the three validators and the fail latch.
  \<^item> \<open>Lineage\<close> (\<^verbatim>\<open>kernel/lineage.py\<close>): zones, tracking and flow checks; no leak through derivation.
  \<^item> \<open>Policy\<close> (\<^verbatim>\<open>kernel/policy.py\<close>, \<^verbatim>\<open>kernel/substrate/axiomatic_guard.py\<close>): decisions, thresholds, the hot
    reloader with its history.
  \<^item> \<open>Fleet\<close> (\<^verbatim>\<open>system/fleet/manager.py\<close>): registration, heartbeat, health, slashing.
  \<^item> \<open>Merkle\<close>: pairing of hashes and the locale \<open>hash_levels\<close>, shared by both Merkle trees.
  \<^item> \<open>State_Sync\<close> (\<^verbatim>\<open>kernel/federation/state_sync.py\<close>): vector clocks (locale \<open>causal_clock\<close>), the state
    tree, conflict resolution and the synchroniser; causality, convergence, binding roots.
  \<^item> \<open>Anti_Entropy\<close> (\<^verbatim>\<open>kernel/mesh/anti_entropy.py\<close> with the handlers of \<^verbatim>\<open>kernel/mesh/dht.py\<close>):
    reconciliation of two peers by subtree hashes.
  \<^item> \<open>Routing\<close> and \<open>Dht\<close> (\<^verbatim>\<open>kernel/mesh/dht.py\<close>): contacts, buckets and the routing table with
    splitting, eviction and revocation; the lookup, the packet handlers and the storage. An update that
    waits for a ping is two steps, \<open>rt_begin\<close> and \<open>rt_resume\<close>, between which other updates and
    revocations may come; \<open>rt_update\<close> is the call without interruption.
  \<^item> \<open>Float_Arith\<close>: addition, subtraction, multiplication and conversion of doubles, as the exact rational
    result rounded to 53 bits, ties to even, with overflow; whole numbers up to \<open>2^53\<close> are exact.
  \<^item> \<open>Attestation\<close> (\<^verbatim>\<open>kernel/hardware/remote_attestation.py\<close>): reports, their verification, the client
    with its cache; a cached verified report carries the hash of its hardware text.
  \<^item> \<open>Federation\<close> (\<^verbatim>\<open>kernel/federation/sovereign_federation.py\<close>): members, channels and decisions. Active
    members are attested; for which sizes a quorum in double arithmetic is a majority; what can be
    finalised.
  \<^item> \<open>Multi_Region\<close> (\<^verbatim>\<open>kernel/federation/multi_region.py\<close>): region selection, health, scheduled
    synchronisations and partitions; the pending counts after any run of calls, reconfigurations included.
  \<^item> \<open>Ledger\<close> (\<^verbatim>\<open>economy/token.py\<close>, \<^verbatim>\<open>economy/market.py\<close>): the float ledger, its history, its refinement of
    an integer ledger (locale \<open>refinement\<close>), and the market with its escrow.
  \<^item> \<open>Credits\<close> (\<^verbatim>\<open>kernel/ops/economy.py\<close>, \<^verbatim>\<open>kernel/ops/tokenomics.py\<close>, \<^verbatim>\<open>economy/agent_transfer.py\<close>, the balances
    of \<^verbatim>\<open>kernel/sys/persistence.py\<close>): transfers, deductions, stakes and slashing.
  \<^item> \<open>Deployment\<close> (\<^verbatim>\<open>infrastructure/multiregion.py\<close>): the region registry, health checks, failover, data
    sovereignty and the five routing strategies. The primary is unique when only one region is registered as
    such, automatic failover elects the best healthy region, routing stays inside a required sovereignty.
  \<^item> \<open>Gdpr\<close> (\<^verbatim>\<open>compliance/gdpr.py\<close>): consents, subject requests, retention, processing records and the
    compliance report. An erased subject has no consent until a new one is given; the cleanup deletes
    exactly what has expired.
  \<^item> \<open>Hipaa\<close> (\<^verbatim>\<open>compliance/hipaa.py\<close>): access to health records with the minimum necessary fields, safeguards,
    breaches, disclosures and associates; every access that is answered is in the audit log.
  \<^item> \<open>Gossip\<close> (\<^verbatim>\<open>kernel/mesh/gossip.py\<close>, \<^verbatim>\<open>mesh/topology.py\<close>): announcements of manifests, their verification and the
    consensus report.
  \<^item> \<open>Governance\<close> (\<^verbatim>\<open>kernel/ops/governance.py\<close>): votes weighed by the square root of a balance, the tally,
    the arbiter of conflicting proposals; the weights of a proposal are those of its accepted ballots.
  \<^item> \<open>Hsm\<close> (\<^verbatim>\<open>kernel/hardware/hsm.py\<close>): the provider interface as the locale \<open>hsm_provider\<close>, interpreted on
    the software, Apple, TPM, AWS, Azure and Google providers and on the manager's choice among them;
    deleted keys sign nothing, software signatures verify.
  \<^item> \<open>Drone\<close> (\<^verbatim>\<open>kernel/drone/types.py\<close>, \<^verbatim>\<open>kernel/drone/safety.py\<close>, the spatial index of
    \<^verbatim>\<open>kernel/drone/physics.py\<close>): positions, fences, prohibited zones and the safety monitor. A command is vetoed
    exactly when its target breaks a rule, except over the prohibited zones, whose altitude limit of zero
    disables them for a flying drone; the spatial index answers as a scan of all objects does.
  \<^item> \<open>Mission\<close> (\<^verbatim>\<open>kernel/drone/mission.py\<close>): missions and their waypoints, \<open>heapq\<close> as the interpreter has it and
    the search for a route, which on a regular grid returns, with way points outside the obstacles.
  \<^item> \<open>Watchdog\<close> (\<^verbatim>\<open>safety/watchdog.py\<close>): the rounds of the monitor. It kills for a sustained violation or for
    repeated monitoring errors only, and it does kill then.
  \<^item> \<open>Redundancy\<close> (\<^verbatim>\<open>kernel/infrastructure/redundancy.py\<close>): components, heartbeats, failover and snapshots; each
    service keeps one instance in charge.
  \<^item> \<open>Format\<close>, \<open>Web\<close>: fixed-point formats and guarded quotients of counters; JSON values, Base64, URL
    encoding and XML trees, as far as the components below use them.
  \<^item> \<open>Sso\<close> (\<^verbatim>\<open>security/sso.py\<close>): the OIDC and SAML providers behind the locale of a provider, and the
    session manager as a table of users; a validated user signed on and the session has not expired.
  \<^item> \<open>Sla\<close> (\<^verbatim>\<open>infrastructure/sla.py\<close>): health probes, circuit breakers, metrics and degradation. An open
    breaker shields the service and recovers.
  \<^item> \<open>Release\<close> (\<^verbatim>\<open>infrastructure/release.py\<close>): semantic versions and their order, the changelog, gates,
    artifacts and the release manager; when a release succeeds.
  \<^item> \<open>Chain\<close> (\<^verbatim>\<open>kernel/sys/persistence.py\<close>, \<^verbatim>\<open>kernel/economy/ledger.py\<close>, \<^verbatim>\<open>kernel/substrate/proof_zk.py\<close>, with
    the reachable part of \<^verbatim>\<open>rust_core/src/ledger.rs\<close>): transactions, mining, blocks from outside, metadata and
    blobs, proofs of state changes.
  \<^item> \<open>Chain_Audit\<close> (\<^verbatim>\<open>kernel/ops/audit.py\<close>): the continuity check, the walk from the head and the report;
    what passes, exactly.
  \<^item> \<open>Eu_Ai_Act\<close>, \<open>Soc2\<close> (\<^verbatim>\<open>compliance/eu_ai_act.py\<close>, \<^verbatim>\<open>compliance/soc2.py\<close>): classification, assessments,
    oversight and the score of AI systems; controls, incidents, changes, access logs and the audit status,
    in double arithmetic.
  \<^item> \<open>Documentation\<close> (\<^verbatim>\<open>compliance/documentation.py\<close>): documents with versions, evidence, the audit trail,
    reports over the four compliance managers and packages.
  \<^item> \<open>Siem\<close> (\<^verbatim>\<open>observability/siem.py\<close>): audit events, their text formats and the exporter with its worker as
    interleaved steps; every exported event is in exactly one place, in order.
  \<^item> \<open>Stitch\<close>, \<open>Bridge\<close>, \<open>Cluster\<close> (\<^verbatim>\<open>kernel/substrate/stitch_server.py\<close>, \<^verbatim>\<open>chaos_monkey.py\<close>,
    \<^verbatim>\<open>network_bridge.py\<close>, \<^verbatim>\<open>cluster.py\<close>): event streams and their resumption, signed requests, message routing
    between nodes, membership, terms and elections.

  \<^bold>\<open>How code is written here.\<close> A class is a record, an operation a function that takes the state and
  returns its answer with the new state. A raise is \<open>Inl\<close> of an error of \<open>Prelude\<close>, and the state it
  leaves behind is returned too. Dictionaries keep insertion order. Clocks, random numbers and
  environment variables are arguments; a call that asks the outside world several times takes one record
  of answers. Where the source suspends (a ping, an election, a worker thread) the parts of the call are
  separate steps of a machine, and the properties quantify over the interleavings. Hash functions, signature schemes, YAML and the native module
  are arguments as well; where a theorem needs something of them (a hash without collisions on the
  texts used, batch ids that are never drawn twice) it is a hypothesis or the \<open>assumes\<close> of a locale, and the
  witness of the theorem instantiates it.

  \<^bold>\<open>Bounds and fuel.\<close> The permission check recurses on its own depth argument. Splitting a bucket
  ends because its range halves: \<open>rt_update\<close> takes 258 as fuel, and the table of 256-bit ids is proved
  to return within it. The iterative lookup runs until its closest contacts have been asked; with the
  code as it is two rounds are proved to be enough. The route search makes at most 1000 steps because the
  code does; following predecessors back from the goal has their number as fuel, running out stands for
  the endless loop of the code, and it is proved not to happen. All other recursions are structural or have a
  measure. Timestamps are rationals except where the code's float comparison matters; the fields of the
  wire protocol keep their width. Balances are doubles with their rounding; results on whole amounts hold
  while the supply stays below \<open>2^53\<close>, the range in which doubles are exact. The quorum threshold is the
  double nearest to 0.67 (\<open>THRESHOLD_067\<close>). Averages and sums of float lists are arguments, because the
  result depends on the summation of the interpreter and no theorem needs it. The functions of the C
  mathematics library (sine, arc tangent, power) are a record of arguments, the square root is correctly
  rounded. The key stores take the outside world (commands, files, cloud clients) as one record of answers.

  \<^bold>\<open>What is not modelled.\<close> Transport, tasks and threads (asyncio, sockets, HTTP) are replaced by the
  messages an operation sends or by an argument giving a peer's answers; logging is dropped. The binary
  and JSON encodings of clocks, decisions and batches in \<^verbatim>\<open>state_sync.py\<close> and the safe-window guard of
  \<^verbatim>\<open>policy.py\<close> (float division) are left out. Of the disk below the transaction files the order and loss
  of writes is modelled, not the failure of a sync. The native core, the flight dynamics and the simulation of the
  drone, the machine-learning parts, the gateway and the command line are outside this development.
\<close>

end
